(* ===== verification/Prelude.thy ===== *)
theory Prelude
  imports Main
begin

text \<open>
  The shared ground of the development: the values a JSON-backed Python dictionary can hold
  (the \<open>metadata\<close> columns of work items, tasks and sessions), the truth test, \<open>str()\<close>,
  \<open>int()\<close>, \<open>list()\<close> and \<open>dict()\<close> on them, the string helpers the code applies everywhere
  (\<open>strip\<close>, \<open>lower\<close>), dictionaries as association lists in insertion order, the result type of
  code that raises, and the interface \<open>growing_sweep\<close> of the closure loops
  (\<open>while changed: for item in items: ...\<close>).

  A \<open>char\<close> stands for the code point of its number, so strings are the Python strings
  whose code points are below 256; on those, white space, lower case and \<open>repr\<close> below are
  Python's own.  JSON floats are not represented.
\<close>

section \<open>Collections of the development\<close>

named_theorems str_simps
  \<open>rules that evaluate the string idioms of the code on literals\<close>

named_theorems dict_simps
  \<open>rules that look a key up after dictionary operations\<close>

section \<open>Errors and results\<close>

datatype pyerr =
    TypeError
  | ValueError
  | RuntimeError
  | InvalidPhaseTransition
  | LeaseLost
  | AttemptSuperseded
  | KeyError
  | IntegrityError
  | IndexError

type_synonym 'a result = "pyerr + 'a"

definition bind_result :: "'a result \<Rightarrow> ('a \<Rightarrow> 'b result) \<Rightarrow> 'b result" where
  "bind_result r f = (case r of Inl e \<Rightarrow> Inl e | Inr x \<Rightarrow> f x)"

lemma bind_result_simps [simp]:
  "bind_result (Inl e) f = Inl e"
  "bind_result (Inr x) f = f x"
  by (simp_all add: bind_result_def)

lemma bind_result_Inr_iff:
  "bind_result r f = Inr y \<longleftrightarrow> (\<exists>x. r = Inr x \<and> f x = Inr y)"
  by (cases r) auto

lemma bind_result_Inl_iff:
  "bind_result r f = Inl e \<longleftrightarrow> r = Inl e \<or> (\<exists>x. r = Inr x \<and> f x = Inl e)"
  by (cases r) auto

fun map_result :: "('a \<Rightarrow> 'b result) \<Rightarrow> 'a list \<Rightarrow> 'b list result" where
  "map_result f [] = Inr []"
| "map_result f (x # xs) =
     bind_result (f x) (\<lambda>y. bind_result (map_result f xs) (\<lambda>ys. Inr (y # ys)))"

section \<open>Strings\<close>

definition code_of :: "char \<Rightarrow> nat" where
  "code_of c = of_char c"

definition py_space :: "char \<Rightarrow> bool" where
  "py_space c \<longleftrightarrow>
     (let n = code_of c in (9 \<le> n \<and> n \<le> 13) \<or> (28 \<le> n \<and> n \<le> 32) \<or> n = 133 \<or> n = 160)"

definition lower_char :: "char \<Rightarrow> char" where
  "lower_char c =
     (let n = code_of c
      in if (65 \<le> n \<and> n \<le> 90) \<or> (192 \<le> n \<and> n \<le> 222 \<and> n \<noteq> 215)
         then char_of (n + 32) else c)"

definition py_lower :: "string \<Rightarrow> string" where
  "py_lower s = map lower_char s"

definition py_lstrip :: "string \<Rightarrow> string" where
  "py_lstrip s = dropWhile py_space s"

definition py_strip :: "string \<Rightarrow> string" where
  "py_strip s = rev (dropWhile py_space (rev (dropWhile py_space s)))"

fun py_join :: "string \<Rightarrow> string list \<Rightarrow> string" where
  "py_join sep [] = []"
| "py_join sep [x] = x"
| "py_join sep (x # y # ys) = x @ sep @ py_join sep (y # ys)"

lemma code_of_char_of [simp]: "n < 256 \<Longrightarrow> code_of (char_of n) = n"
  by (simp add: code_of_def)

lemma code_of_less: "code_of c < 256"
  by (simp add: code_of_def)

lemma char_of_code_of [simp]: "char_of (code_of c) = c"
  by (simp add: code_of_def)

lemma lower_char_idem [simp]: "lower_char (lower_char c) = lower_char c"
proof (cases "(65 \<le> code_of c \<and> code_of c \<le> 90) \<or> (192 \<le> code_of c \<and> code_of c \<le> 222 \<and> code_of c \<noteq> 215)")
  case True
  then have eq: "lower_char c = char_of (code_of c + 32)" and small: "code_of c + 32 < 256"
    by (auto simp: lower_char_def)
  from small have "code_of (char_of (code_of c + 32)) = code_of c + 32" by (rule code_of_char_of)
  with True eq show ?thesis by (auto simp: lower_char_def)
next
  case False
  then have "lower_char c = c" by (auto simp: lower_char_def Let_def)
  then show ?thesis by simp
qed

lemma py_lower_idem [simp]: "py_lower (py_lower s) = py_lower s"
  by (simp add: py_lower_def)

lemma py_lower_Nil [simp]: "py_lower [] = []" and py_lower_eq_Nil [simp]: "py_lower s = [] \<longleftrightarrow> s = []"
  by (simp_all add: py_lower_def)

lemma py_space_lower [simp]: "py_space (lower_char c) = py_space c"
proof (cases "(65 \<le> code_of c \<and> code_of c \<le> 90) \<or> (192 \<le> code_of c \<and> code_of c \<le> 222 \<and> code_of c \<noteq> 215)")
  case True
  then have eq: "lower_char c = char_of (code_of c + 32)" and small: "code_of c + 32 < 256"
    by (auto simp: lower_char_def)
  from small have "code_of (char_of (code_of c + 32)) = code_of c + 32" by (rule code_of_char_of)
  with True eq show ?thesis by (auto simp: py_space_def Let_def)
next
  case False
  then have "lower_char c = c" by (auto simp: lower_char_def Let_def)
  then show ?thesis by simp
qed

lemma py_strip_Nil [simp]: "py_strip [] = []"
  by (simp add: py_strip_def)

lemma py_strip_eq_Nil: "py_strip s = [] \<longleftrightarrow> (\<forall>c\<in>set s. py_space c)"
proof (cases "dropWhile py_space s")
  case Nil
  then show ?thesis by (auto simp: py_strip_def dropWhile_eq_Nil_conv dest: set_dropWhileD)
next
  case (Cons c cs)
  then have "\<not> py_space c" by (metis hd_dropWhile list.discI list.sel(1))
  moreover have "c \<in> set s" using Cons by (metis list.set_intros(1) set_dropWhileD)
  ultimately show ?thesis using Cons by (auto simp: py_strip_def dropWhile_eq_Nil_conv)
qed

lemma dropWhile_idle: "xs = [] \<or> \<not> P (hd xs) \<Longrightarrow> dropWhile P xs = xs"
  by (cases xs) auto

lemma py_strip_idem [simp]: "py_strip (py_strip s) = py_strip s"
proof -
  define a where "a = dropWhile py_space s"
  define b where "b = rev (dropWhile py_space (rev a))"
  have split: "a = b @ rev (takeWhile py_space (rev a))"
    unfolding b_def by (metis rev_append rev_rev_ident takeWhile_dropWhile_id)
  have fore: "b = [] \<or> \<not> py_space (hd b)"
  proof (cases "b = []")
    case False
    then have "hd b = hd a" using split by (metis hd_append2)
    moreover have "a \<noteq> []" using False split by auto
    ultimately show ?thesis unfolding a_def by (metis hd_dropWhile)
  qed simp
  have rear: "rev b = [] \<or> \<not> py_space (hd (rev b))"
    unfolding b_def by (metis hd_dropWhile rev_rev_ident)
  have "py_strip b = b"
    unfolding py_strip_def by (simp add: dropWhile_idle [where P = py_space, OF fore] dropWhile_idle [where P = py_space, OF rear])
  moreover have "py_strip s = b" by (simp add: py_strip_def a_def b_def)
  ultimately show ?thesis by simp
qed

lemma dropWhile_map_lower: "dropWhile py_space (map lower_char s) = map lower_char (dropWhile py_space s)"
  by (induction s) auto

lemma py_strip_lower: "py_strip (py_lower s) = py_lower (py_strip s)"
  by (simp add: py_strip_def py_lower_def dropWhile_map_lower rev_map)

lemmas [str_simps] =
  py_lower_def lower_char_def py_strip_def py_space_def code_of_def char_of_def

section \<open>Values of a JSON dictionary\<close>

datatype pyval =
    PNone
  | PBool bool
  | PInt int
  | PStr string
  | PList "pyval list"
  | PDict "(string \<times> pyval) list"

type_synonym pydict = "(string \<times> pyval) list"

text \<open>Python's truth test (\<open>bool(v)\<close>, the operands of \<open>or\<close> and of \<open>if\<close>).\<close>

fun truthy :: "pyval \<Rightarrow> bool" where
  "truthy PNone = False"
| "truthy (PBool b) = b"
| "truthy (PInt n) = (n \<noteq> 0)"
| "truthy (PStr s) = (s \<noteq> [])"
| "truthy (PList xs) = (xs \<noteq> [])"
| "truthy (PDict kvs) = (kvs \<noteq> [])"

definition py_or :: "pyval \<Rightarrow> pyval \<Rightarrow> pyval" where
  "py_or a b = (if truthy a then a else b)"

subsection \<open>Rendering: str() and repr()\<close>

fun nat_digits :: "nat \<Rightarrow> string" where
  "nat_digits n =
     (if n < 10 then [char_of (48 + n)]
      else nat_digits (n div 10) @ [char_of (48 + n mod 10)])"

declare nat_digits.simps [simp del]

definition int_text :: "int \<Rightarrow> string" where
  "int_text i = (if i < 0 then ''-'' @ nat_digits (nat (- i)) else nat_digits (nat i))"

definition hex_digit :: "nat \<Rightarrow> char" where
  "hex_digit n = (if n < 10 then char_of (48 + n) else char_of (87 + n))"

definition printable :: "char \<Rightarrow> bool" where
  "printable c \<longleftrightarrow>
     (let n = code_of c in (32 \<le> n \<and> n \<le> 126) \<or> (161 \<le> n \<and> n \<noteq> 173))"

definition repr_char :: "char \<Rightarrow> char \<Rightarrow> string" where
  "repr_char q c =
     (let n = code_of c
      in if c = q \<or> n = 92 then [CHR 0x5C, c]
         else if n = 9 then [CHR 0x5C, CHR ''t'']
         else if n = 10 then [CHR 0x5C, CHR ''n'']
         else if n = 13 then [CHR 0x5C, CHR ''r'']
         else if printable c then [c]
         else [CHR 0x5C, CHR ''x'', hex_digit (n div 16), hex_digit (n mod 16)])"

definition repr_str :: "string \<Rightarrow> string" where
  "repr_str s =
     (let q = (if CHR 0x27 \<in> set s \<and> CHR 0x22 \<notin> set s then CHR 0x22 else CHR 0x27)
      in [q] @ concat (map (repr_char q) s) @ [q])"

fun py_repr :: "pyval \<Rightarrow> string"
  and repr_items :: "pyval list \<Rightarrow> string list"
  and repr_pairs :: "(string \<times> pyval) list \<Rightarrow> string list" where
  "py_repr PNone = ''None''"
| "py_repr (PBool b) = (if b then ''True'' else ''False'')"
| "py_repr (PInt n) = int_text n"
| "py_repr (PStr s) = repr_str s"
| "py_repr (PList xs) = ''['' @ py_join '', '' (repr_items xs) @ '']''"
| "py_repr (PDict kvs) = ''{'' @ py_join '', '' (repr_pairs kvs) @ ''}''"
| "repr_items [] = []"
| "repr_items (x # xs) = py_repr x # repr_items xs"
| "repr_pairs [] = []"
| "repr_pairs ((k, v) # kvs) = (repr_str k @ '': '' @ py_repr v) # repr_pairs kvs"

definition py_str :: "pyval \<Rightarrow> string" where
  "py_str v = (case v of PStr s \<Rightarrow> s | _ \<Rightarrow> py_repr v)"

lemma py_str_PStr [simp]: "py_str (PStr s) = s"
  by (simp add: py_str_def)

text \<open>\<open>str(v or "").strip()\<close>, the idiom by which the code reads an identifier or a label.\<close>

definition clean :: "pyval \<Rightarrow> string" where
  "clean v = (if truthy v then py_strip (py_str v) else [])"

definition clean_lower :: "pyval \<Rightarrow> string" where
  "clean_lower v = py_lower (clean v)"

lemma clean_simps [simp]:
  "clean PNone = []" "clean (PStr s) = py_strip s" "clean (PBool False) = []"
  "clean (PList []) = []" "clean (PDict []) = []" "clean (PInt 0) = []"
  by (auto simp: clean_def)

lemma clean_falsy: "\<not> truthy v \<Longrightarrow> clean v = []"
  by (simp add: clean_def)

lemma clean_truthy: "clean v \<noteq> [] \<Longrightarrow> truthy v"
  by (auto simp: clean_def split: if_splits)

lemma strip_clean [simp]: "py_strip (clean v) = clean v"
  by (simp add: clean_def)

subsection \<open>Parsing: int()\<close>

definition int_space :: "char \<Rightarrow> bool" where
  "int_space c \<longleftrightarrow> (let n = code_of c in (9 \<le> n \<and> n \<le> 13) \<or> n = 32 \<or> n = 133 \<or> n = 160)"

definition is_digit :: "char \<Rightarrow> bool" where
  "is_digit c \<longleftrightarrow> 48 \<le> code_of c \<and> code_of c \<le> 57"

text \<open>\<open>digits acc seen s\<close>: read digits, one underscore allowed between two digits.\<close>

fun int_digits :: "nat \<Rightarrow> bool \<Rightarrow> string \<Rightarrow> nat option" where
  "int_digits acc ok [] = (if ok then Some acc else None)"
| "int_digits acc ok (c # cs) =
     (if is_digit c then int_digits (10 * acc + (code_of c - 48)) True cs
      else if c = CHR ''_'' \<and> ok then int_digits acc False cs
      else None)"

definition int_of_text :: "string \<Rightarrow> int result" where
  "int_of_text s =
     (let t = rev (dropWhile int_space (rev (dropWhile int_space s)))
      in case t of
           [] \<Rightarrow> Inl ValueError
         | c # cs \<Rightarrow>
             (let body = (if c = CHR ''+'' \<or> c = CHR ''-'' then cs else t)
              in case int_digits 0 False body of
                   None \<Rightarrow> Inl ValueError
                 | Some n \<Rightarrow> Inr (if c = CHR ''-'' then - int n else int n)))"

fun py_int :: "pyval \<Rightarrow> int result" where
  "py_int PNone = Inl TypeError"
| "py_int (PBool b) = Inr (if b then 1 else 0)"
| "py_int (PInt n) = Inr n"
| "py_int (PStr s) = int_of_text s"
| "py_int (PList xs) = Inl TypeError"
| "py_int (PDict kvs) = Inl TypeError"

definition result_or :: "'a \<Rightarrow> 'a result \<Rightarrow> 'a" where
  "result_or d r = (case r of Inl e \<Rightarrow> d | Inr x \<Rightarrow> x)"

lemma result_or_simps [simp]: "result_or d (Inl e) = d" "result_or d (Inr x) = x"
  by (simp_all add: result_or_def)

subsection \<open>Iteration: list() and dict()\<close>

fun py_list :: "pyval \<Rightarrow> pyval list result" where
  "py_list (PList xs) = Inr xs"
| "py_list (PStr s) = Inr (map (\<lambda>c. PStr [c]) s)"
| "py_list (PDict kvs) = Inr (map (\<lambda>kv. PStr (fst kv)) kvs)"
| "py_list _ = Inl TypeError"

text \<open>\<open>list(v or [])\<close>.\<close>

definition list_or_empty :: "pyval \<Rightarrow> pyval list result" where
  "list_or_empty v = (if truthy v then py_list v else Inr [])"

text \<open>
  The strings of \<open>[str(x).strip() for x in list(v or []) if str(x).strip()]\<close>, the idiom
  by which the code reads a list of identifiers.
\<close>

definition strip_all :: "pyval list \<Rightarrow> string list" where
  "strip_all xs = filter (\<lambda>s. s \<noteq> []) (map (\<lambda>x. py_strip (py_str x)) xs)"

definition id_list :: "pyval \<Rightarrow> string list result" where
  "id_list v = bind_result (list_or_empty v) (\<lambda>xs. Inr (strip_all xs))"

section \<open>Dictionaries\<close>

definition dget :: "pydict \<Rightarrow> string \<Rightarrow> pyval" where
  \<comment> \<open>\<open>d.get(k)\<close>; a default that is falsy behaves as \<open>None\<close> in every use of the code\<close>
  "dget d k = (case map_of d k of None \<Rightarrow> PNone | Some v \<Rightarrow> v)"

definition dget_or :: "pydict \<Rightarrow> string \<Rightarrow> pyval \<Rightarrow> pyval" where
  \<comment> \<open>\<open>d.get(k, default)\<close>\<close>
  "dget_or d k v = (case map_of d k of None \<Rightarrow> v | Some w \<Rightarrow> w)"

definition dhas :: "pydict \<Rightarrow> string \<Rightarrow> bool" where
  "dhas d k \<longleftrightarrow> map_of d k \<noteq> None"

fun dset :: "string \<Rightarrow> pyval \<Rightarrow> pydict \<Rightarrow> pydict" where
  \<comment> \<open>\<open>d[k] = v\<close>: in place for a key that is there, at the end otherwise\<close>
  "dset k v [] = [(k, v)]"
| "dset k v ((k', v') # d) = (if k' = k then (k, v) # d else (k', v') # dset k v d)"

definition dupdate :: "pydict \<Rightarrow> pydict \<Rightarrow> pydict" where
  \<comment> \<open>\<open>d.update(u)\<close> and \<open>{**d, **u}\<close>\<close>
  "dupdate d u = fold (\<lambda>(k, v). dset k v) u d"

definition dpop :: "string \<Rightarrow> pydict \<Rightarrow> pydict" where
  \<comment> \<open>\<open>d.pop(k, None)\<close>\<close>
  "dpop k d = filter (\<lambda>kv. fst kv \<noteq> k) d"

definition dsetdefault :: "string \<Rightarrow> pyval \<Rightarrow> pydict \<Rightarrow> pydict" where
  "dsetdefault k v d = (if dhas d k then d else dset k v d)"

lemma map_of_dset [dict_simps]: "map_of (dset k v d) = (map_of d)(k \<mapsto> v)"
  by (induction k v d rule: dset.induct) (auto simp: fun_eq_iff)

lemma map_of_dupdate: "map_of (dupdate d u) = map_of d ++ map_of (rev u)"
  by (induction u arbitrary: d) (auto simp: dupdate_def map_of_dset map_add_def fun_eq_iff split: option.splits)

lemma map_of_dpop [dict_simps]: "map_of (dpop k d) = (map_of d)(k := None)"
  by (induction d) (auto simp: dpop_def fun_eq_iff)

lemma dget_dset [simp]: "dget (dset k v d) k' = (if k' = k then v else dget d k')"
  by (simp add: dget_def map_of_dset)

lemma dget_or_dset [simp]: "dget_or (dset k v d) k' w = (if k' = k then v else dget_or d k' w)"
  by (simp add: dget_or_def map_of_dset)

lemma dhas_dset [simp]: "dhas (dset k v d) k' \<longleftrightarrow> k' = k \<or> dhas d k'"
  by (simp add: dhas_def map_of_dset)

lemma dget_dpop [simp]: "dget (dpop k d) k' = (if k' = k then PNone else dget d k')"
  by (simp add: dget_def map_of_dpop)

lemma dhas_dpop [simp]: "dhas (dpop k d) k' \<longleftrightarrow> k' \<noteq> k \<and> dhas d k'"
  by (simp add: dhas_def map_of_dpop)

lemma dupdate_Nil [simp]: "dupdate d [] = d"
  by (simp add: dupdate_def)

lemma dupdate_Cons [simp]: "dupdate d ((k, v) # u) = dupdate (dset k v d) u"
  by (simp add: dupdate_def)

lemma dget_Nil [simp]: "dget [] k = PNone"
  by (simp add: dget_def)

lemma dget_Cons [simp]: "dget ((k, v) # d) k' = (if k' = k then v else dget d k')"
  by (simp add: dget_def)

lemma dhas_Nil [simp]: "\<not> dhas [] k" and dhas_Cons [simp]: "dhas ((k, v) # d) k' \<longleftrightarrow> k' = k \<or> dhas d k'"
  by (simp_all add: dhas_def)

lemma dget_or_Nil [simp]: "dget_or [] k w = w" and dget_or_Cons [simp]: "dget_or ((k, v) # d) k' w = (if k' = k then v else dget_or d k' w)"
  by (simp_all add: dget_or_def)

lemma dget_not_dhas: "\<not> dhas d k \<Longrightarrow> dget d k = PNone"
  by (simp add: dget_def dhas_def)

lemma dset_fresh: "k \<notin> fst ` set d \<Longrightarrow> dset k v d = d @ [(k, v)]"
  by (induction k v d rule: dset.induct) auto

lemma dupdate_append: "dupdate d (u @ v) = dupdate (dupdate d u) v"
  by (induction u arbitrary: d) auto

lemma dhas_iff: "dhas d k \<longleftrightarrow> k \<in> fst ` set d"
  by (simp add: dhas_def map_of_eq_None_iff)

lemma dget_dupdate_other: "k \<notin> fst ` set u \<Longrightarrow> dget (dupdate d u) k = dget d k"
  by (induction u arbitrary: d) (auto simp: dget_def dupdate_def map_of_dset)

lemma dhas_dupdate [simp]: "dhas (dupdate d u) k \<longleftrightarrow> dhas d k \<or> dhas u k"
  by (induction u arbitrary: d) auto

lemma distinct_dset: "distinct (map fst d) \<Longrightarrow> distinct (map fst (dset k v d))"
proof (induction k v d rule: dset.induct)
  case (2 k v k' v' d)
  have "fst ` set (dset k v d) \<subseteq> insert k (fst ` set d)"
    by (induction k v d rule: dset.induct) auto
  with 2 show ?case by auto
qed simp

text \<open>\<open>dict(v or {})\<close> for the dictionaries nested in the metadata.\<close>

fun pair_of :: "pyval \<Rightarrow> (string \<times> pyval) result" where
  "pair_of (PList [PStr k, v]) = Inr (k, v)"
| "pair_of (PStr [a, b]) = Inr ([a], PStr [b])"
| "pair_of (PDict [(k, v), (k', v')]) = Inr (k, PStr k')"
| "pair_of (PStr s) = Inl ValueError"
| "pair_of v = Inl TypeError"

definition dict_or_empty :: "pyval \<Rightarrow> pydict result" where
  "dict_or_empty v =
     (if \<not> truthy v then Inr []
      else case v of
             PDict kvs \<Rightarrow> Inr kvs
           | PList xs \<Rightarrow> bind_result (map_result pair_of xs) (\<lambda>kvs. Inr (dupdate [] kvs))
           | PStr s \<Rightarrow> Inl ValueError
           | _ \<Rightarrow> Inl TypeError)"

text \<open>Python's \<open>==\<close> on these values: booleans equal 0 and 1, dictionaries ignore order.\<close>

fun py_eq :: "pyval \<Rightarrow> pyval \<Rightarrow> bool"
  and eq_items :: "pyval list \<Rightarrow> pyval list \<Rightarrow> bool"
  and eq_pairs :: "(string \<times> pyval) list \<Rightarrow> pydict \<Rightarrow> bool" where
  "py_eq PNone w = (w = PNone)"
| "py_eq (PBool b) w =
     (case w of PBool c \<Rightarrow> b = c | PInt n \<Rightarrow> n = (if b then 1 else 0) | _ \<Rightarrow> False)"
| "py_eq (PInt n) w =
     (case w of PBool c \<Rightarrow> n = (if c then 1 else 0) | PInt m \<Rightarrow> n = m | _ \<Rightarrow> False)"
| "py_eq (PStr s) w = (w = PStr s)"
| "py_eq (PList xs) w = (case w of PList ys \<Rightarrow> eq_items xs ys | _ \<Rightarrow> False)"
| "py_eq (PDict d) w = (case w of PDict e \<Rightarrow> length d = length e \<and> eq_pairs d e | _ \<Rightarrow> False)"
| "eq_items [] ys = (ys = [])"
| "eq_items (x # xs) ys = (case ys of [] \<Rightarrow> False | y # ys' \<Rightarrow> py_eq x y \<and> eq_items xs ys')"
| "eq_pairs [] e = True"
| "eq_pairs ((k, v) # d) e =
     ((case map_of e k of None \<Rightarrow> False | Some w \<Rightarrow> py_eq v w) \<and> eq_pairs d e)"

text \<open>
  A value that \<open>json.loads\<close> can return: the keys of every dictionary in it are distinct.
  \<open>==\<close> is reflexive on these.
\<close>

fun json_ok :: "pyval \<Rightarrow> bool"
  and ok_items :: "pyval list \<Rightarrow> bool"
  and ok_pairs :: "(string \<times> pyval) list \<Rightarrow> bool" where
  "json_ok (PList xs) = ok_items xs"
| "json_ok (PDict d) = (distinct (map fst d) \<and> ok_pairs d)"
| "json_ok _ = True"
| "ok_items [] = True"
| "ok_items (x # xs) = (json_ok x \<and> ok_items xs)"
| "ok_pairs [] = True"
| "ok_pairs ((k, v) # d) = (json_ok v \<and> ok_pairs d)"

abbreviation json_dict :: "pydict \<Rightarrow> bool" where
  "json_dict d \<equiv> json_ok (PDict d)"

lemma ok_pairs_iff: "ok_pairs d \<longleftrightarrow> (\<forall>v\<in>snd ` set d. json_ok v)"
  by (induction d) auto

lemma json_dict_get: "json_dict d \<Longrightarrow> json_ok (dget d k)"
  by (force simp: ok_pairs_iff dget_def split: option.splits dest: map_of_SomeD)

lemma json_dict_set: "json_dict d \<Longrightarrow> json_ok v \<Longrightarrow> json_dict (dset k v d)"
proof -
  assume d: "json_dict d" and v: "json_ok v"
  have "ok_pairs d \<Longrightarrow> ok_pairs (dset k v d)" using v
    by (induction k v d rule: dset.induct) auto
  with d show ?thesis by (simp add: distinct_dset)
qed

lemma json_dict_pop: "json_dict d \<Longrightarrow> json_dict (dpop k d)"
  by (auto simp: ok_pairs_iff dpop_def distinct_map_filter)

lemma json_dict_Nil: "json_dict []" and json_dict_Cons: "json_dict ((k, v) # d) \<longleftrightarrow> k \<notin> fst ` set d \<and> json_ok v \<and> json_dict d"
  by auto

lemma eq_pairs_refl_from:
  "distinct (map fst e) \<Longrightarrow> set d \<subseteq> set e \<Longrightarrow> (\<And>v. v \<in> snd ` set d \<Longrightarrow> py_eq v v) \<Longrightarrow> eq_pairs d e"
  by (induction d) auto

lemma eq_items_refl_from: "(\<And>x. x \<in> set xs \<Longrightarrow> py_eq x x) \<Longrightarrow> eq_items xs xs"
  by (induction xs) auto

lemma py_eq_refl: "json_ok v \<Longrightarrow> py_eq v v"
  and py_eq_refl_items: "ok_items xs \<Longrightarrow> \<forall>x\<in>set xs. py_eq x x"
  and py_eq_refl_pairs: "ok_pairs d \<Longrightarrow> \<forall>x\<in>snd ` set d. py_eq x x"
  by (induction v and xs and d rule: json_ok_ok_items_ok_pairs.induct)
    (auto intro!: eq_items_refl_from eq_pairs_refl_from simp: image_iff)

text \<open>\<open>list(dict.fromkeys(xs))\<close>: the first occurrence of each element, in order.\<close>

fun dedup_from :: "'a list \<Rightarrow> 'a list \<Rightarrow> 'a list" where
  "dedup_from seen [] = []"
| "dedup_from seen (x # xs) =
     (if x \<in> set seen then dedup_from seen xs else x # dedup_from (x # seen) xs)"

definition dedup :: "'a list \<Rightarrow> 'a list" where
  "dedup xs = dedup_from [] xs"

lemma set_dedup_from: "set (dedup_from seen xs) = set xs - set seen"
  by (induction seen xs rule: dedup_from.induct) auto

lemma set_dedup [simp]: "set (dedup xs) = set xs"
  by (simp add: dedup_def set_dedup_from)

lemma distinct_dedup [simp]: "distinct (dedup xs)"
proof -
  have "distinct (dedup_from seen xs)" for seen
    by (induction seen xs rule: dedup_from.induct) (auto simp: set_dedup_from)
  then show ?thesis by (simp add: dedup_def)
qed

lemma dedup_from_distinct: "distinct xs \<Longrightarrow> set xs \<inter> set seen = {} \<Longrightarrow> dedup_from seen xs = xs"
  by (induction seen xs rule: dedup_from.induct) auto

lemma dedup_distinct: "distinct xs \<Longrightarrow> dedup xs = xs"
  by (simp add: dedup_def dedup_from_distinct)

lemma dedup_idem [simp]: "dedup (dedup xs) = dedup xs"
  by (simp add: dedup_distinct)

lemma dedup_Nil [simp]: "dedup [] = []"
  by (simp add: dedup_def)

lemma find_append: "find P (xs @ ys) = (case find P xs of None \<Rightarrow> find P ys | Some x \<Rightarrow> Some x)"
  by (induction xs) auto

section \<open>Closure loops\<close>

text \<open>
  The loop \<open>while changed: changed = False; for item in items: if key(item) in S: continue;
  if test(item, S): S.add(key(item)); changed = True\<close>.  The test may raise.  One pass of the
  inner loop is \<open>sweep\<close>; the outer loop repeats passes until one adds nothing.
\<close>

fun sweep :: "('i \<Rightarrow> 'k) \<Rightarrow> ('i \<Rightarrow> 'k set \<Rightarrow> bool result) \<Rightarrow> 'i list \<Rightarrow> 'k set \<Rightarrow> 'k set result" where
  "sweep key test [] S = Inr S"
| "sweep key test (i # is) S =
     (if key i \<in> S then sweep key test is S
      else bind_result (test i S)
             (\<lambda>b. sweep key test is (if b then insert (key i) S else S)))"

lemma sweep_mono: "sweep key test is S = Inr T \<Longrightarrow> S \<subseteq> T"
proof (induction "is" arbitrary: S)
  case (Cons i "is")
  then show ?case
    by (cases "key i \<in> S") (auto simp: bind_result_Inr_iff split: if_splits)
qed simp

lemma sweep_upper: "sweep key test is S = Inr T \<Longrightarrow> T \<subseteq> S \<union> key ` set is"
proof (induction "is" arbitrary: S)
  case (Cons i "is")
  then show ?case
    by (cases "key i \<in> S") (fastforce simp: bind_result_Inr_iff split: if_splits)+
qed simp

function sweep_loop :: "('i \<Rightarrow> 'k) \<Rightarrow> ('i \<Rightarrow> 'k set \<Rightarrow> bool result) \<Rightarrow> 'i list \<Rightarrow> 'k set \<Rightarrow> 'k set result" where
  "sweep_loop key test is S =
     (case sweep key test is S of
        Inl e \<Rightarrow> Inl e
      | Inr T \<Rightarrow> if T = S then Inr S else sweep_loop key test is T)"
  by pat_completeness auto
termination
proof (relation "measure (\<lambda>(key, test, is, S). card (key ` set is - S))", goal_cases)
  case (2 key test "is" S T)
  then have sub: "S \<subseteq> T" and up: "T \<subseteq> S \<union> key ` set is" and ne: "T \<noteq> S"
    by (auto dest: sweep_mono sweep_upper)
  then have "key ` set is - T \<subset> key ` set is - S" by blast
  then show ?case by (simp add: psubset_card_mono)
qed simp

declare sweep_loop.simps [simp del]

text \<open>
  The interface the closure computations rely on: whether an item raises does not depend on
  the set collected so far, and an item that joins a set joins every larger set.  Then the
  loop returns the least closed set above its start, whatever the order of the items.
\<close>

locale growing_sweep =
  fixes key :: "'i \<Rightarrow> 'k"
    and test :: "'i \<Rightarrow> 'k set \<Rightarrow> bool result"
  assumes raise_stable: "test i S = Inl e \<Longrightarrow> test i T = Inl e"
    and join_mono: "test i S = Inr True \<Longrightarrow> S \<subseteq> T \<Longrightarrow> test i T = Inr True"
begin

definition closed :: "'i list \<Rightarrow> 'k set \<Rightarrow> bool" where
  "closed is T \<longleftrightarrow> (\<forall>i\<in>set is. key i \<notin> T \<longrightarrow> test i T = Inr False)"

lemma sweep_below:
  "sweep key test is S = Inr T \<Longrightarrow> S \<subseteq> U \<Longrightarrow> set is \<subseteq> set js \<Longrightarrow> closed js U \<Longrightarrow> T \<subseteq> U"
proof (induction "is" arbitrary: S)
  case (Cons i "is")
  show ?case
  proof (cases "key i \<in> S")
    case True
    with Cons show ?thesis by simp
  next
    case False
    with Cons.prems obtain b where b: "test i S = Inr b"
      and rest: "sweep key test is (if b then insert (key i) S else S) = Inr T"
      by (auto simp: bind_result_Inr_iff)
    have "(if b then insert (key i) S else S) \<subseteq> U"
    proof (cases b)
      case True
      with b Cons.prems(2) have "test i U = Inr True" by (auto intro: join_mono)
      with Cons.prems(3,4) have "key i \<in> U" by (auto simp: closed_def)
      with Cons.prems(2) show ?thesis by simp
    qed (use Cons.prems in simp)
    with rest Cons.prems(3,4) Cons.IH show ?thesis by simp
  qed
qed simp

lemma sweep_fixed_closed:
  "sweep key test is S = Inr S \<Longrightarrow> closed is S"
proof (induction "is")
  case (Cons i "is")
  show ?case
  proof (cases "key i \<in> S")
    case True
    with Cons show ?thesis by (simp add: closed_def)
  next
    case False
    with Cons.prems obtain b where b: "test i S = Inr b"
      and rest: "sweep key test is (if b then insert (key i) S else S) = Inr S"
      by (auto simp: bind_result_Inr_iff)
    have "\<not> b" using rest False by (auto dest: sweep_mono)
    with rest b Cons.IH show ?thesis by (simp add: closed_def)
  qed
qed (simp add: closed_def)

lemma loop_unfold:
  assumes "sweep_loop key test is S = Inr T"
  obtains (stop) "sweep key test is S = Inr S" "T = S"
  | (go) U where "sweep key test is S = Inr U" "U \<noteq> S" "sweep_loop key test is U = Inr T"
  using assms by (subst (asm) sweep_loop.simps) (auto split: sum.splits if_splits)

lemma sweep_progress:
  assumes "sweep key test is S = Inr U" "U \<noteq> S"
  shows "card (key ` set is - U) < card (key ` set is - S)"
proof -
  have "S \<subseteq> U" "U \<subseteq> S \<union> key ` set is"
    using assms(1) by (auto dest: sweep_mono sweep_upper)
  with assms(2) have "key ` set is - U \<subset> key ` set is - S" by blast
  then show ?thesis by (simp add: psubset_card_mono)
qed

lemma loop_closed:
  "sweep_loop key test is S = Inr T \<Longrightarrow> S \<subseteq> T \<and> T \<subseteq> S \<union> key ` set is \<and> closed is T"
proof (induction "card (key ` set is - S)" arbitrary: S rule: less_induct)
  case less
  from less.prems show ?case
  proof (cases rule: loop_unfold)
    case stop
    then show ?thesis by (auto intro: sweep_fixed_closed)
  next
    case (go U)
    have "U \<subseteq> T \<and> T \<subseteq> U \<union> key ` set is \<and> closed is T"
      by (rule less.hyps [OF sweep_progress [OF go(1,2)] go(3)])
    with go(1) show ?thesis by (blast dest: sweep_mono sweep_upper)
  qed
qed

lemma loop_least:
  "sweep_loop key test is S = Inr T \<Longrightarrow> S \<subseteq> U \<Longrightarrow> closed is U \<Longrightarrow> T \<subseteq> U"
proof (induction "card (key ` set is - S)" arbitrary: S rule: less_induct)
  case less
  from less.prems(1) show ?case
  proof (cases rule: loop_unfold)
    case stop
    with less.prems show ?thesis by simp
  next
    case (go V)
    have "V \<subseteq> U" by (rule sweep_below [OF go(1) less.prems(2) subset_refl less.prems(3)])
    then show ?thesis using less.hyps [OF sweep_progress [OF go(1,2)] go(3)] less.prems(3) by simp
  qed
qed

lemma loop_order_irrelevant:
  assumes "sweep_loop key test is S = Inr T" "sweep_loop key test js S = Inr U" "set is = set js"
  shows "T = U"
  using assms loop_closed loop_least by (metis closed_def subset_antisym)

lemma sweep_returns:
  "\<forall>i\<in>set is. \<forall>e. test i {} \<noteq> Inl e \<Longrightarrow> \<exists>T. sweep key test is S = Inr T"
proof (induction "is" arbitrary: S)
  case (Cons i "is")
  have "\<exists>b. test i S = Inr b"
    using Cons.prems raise_stable by (metis list.set_intros(1) obj_sumE)
  with Cons show ?case by auto
qed simp

lemma loop_returns:
  "\<forall>i\<in>set is. \<forall>e. test i {} \<noteq> Inl e \<Longrightarrow> \<exists>T. sweep_loop key test is S = Inr T"
proof (induction "card (key ` set is - S)" arbitrary: S rule: less_induct)
  case less
  from sweep_returns [OF less.prems] obtain U where U: "sweep key test is S = Inr U" by blast
  show ?case
  proof (cases "U = S")
    case True
    with U show ?thesis by (subst sweep_loop.simps) simp
  next
    case False
    then obtain T where "sweep_loop key test is U = Inr T"
      using less.hyps [OF sweep_progress [OF U False] less.prems] by blast
    with U False show ?thesis by (subst sweep_loop.simps) simp
  qed
qed

end

end
