(* ===== verification/Models.thy ===== *)
theory Models
  imports Prelude
begin

text \<open>
  The data models of \<open>opc/core/models.py\<close> that the company runtime works on: the enums
  \<open>Phase\<close> and \<open>TaskStatus\<close> with their wire values, the role runtime status, and the
  dataclasses \<open>DelegationWorkItem\<close>, \<open>Task\<close> and \<open>RoleRuntimeSession\<close> as records (the
  fields the modelled code reads or writes; times are integers).
\<close>

section \<open>Enums\<close>

datatype phase =
    QUEUED | READY | READY_FOR_REWORK | WAITING_DEPENDENCIES
  | RUNNING | WAITING_FOR_PEER | WAITING_FOR_CHILDREN | PAUSED | NEEDS_ATTENTION
  | AWAITING_MANAGER_REVIEW | AWAITING_HUMAN
  | APPROVED | FAILED | CANCELLED

definition all_phases :: "phase list" where
  "all_phases =
     [QUEUED, READY, READY_FOR_REWORK, WAITING_DEPENDENCIES,
      RUNNING, WAITING_FOR_PEER, WAITING_FOR_CHILDREN, PAUSED, NEEDS_ATTENTION,
      AWAITING_MANAGER_REVIEW, AWAITING_HUMAN, APPROVED, FAILED, CANCELLED]"

fun phase_value :: "phase \<Rightarrow> string" where
  "phase_value QUEUED = ''queued''"
| "phase_value READY = ''ready''"
| "phase_value READY_FOR_REWORK = ''ready_for_rework''"
| "phase_value WAITING_DEPENDENCIES = ''waiting_dependencies''"
| "phase_value RUNNING = ''running''"
| "phase_value WAITING_FOR_PEER = ''waiting_for_peer''"
| "phase_value WAITING_FOR_CHILDREN = ''waiting_for_children''"
| "phase_value PAUSED = ''paused''"
| "phase_value NEEDS_ATTENTION = ''needs_attention''"
| "phase_value AWAITING_MANAGER_REVIEW = ''awaiting_manager_review''"
| "phase_value AWAITING_HUMAN = ''awaiting_human''"
| "phase_value APPROVED = ''approved''"
| "phase_value FAILED = ''failed''"
| "phase_value CANCELLED = ''cancelled''"

datatype task_status =
    TS_PENDING | TS_RUNNING | TS_IDLE | TS_BLOCKED | TS_AWAITING_PEER
  | TS_AWAITING_MANAGER_REVIEW | TS_AWAITING_HUMAN | TS_AWAITING_REVIEW
  | TS_DONE | TS_FAILED | TS_CANCELLED

definition all_task_statuses :: "task_status list" where
  "all_task_statuses =
     [TS_PENDING, TS_RUNNING, TS_IDLE, TS_BLOCKED, TS_AWAITING_PEER,
      TS_AWAITING_MANAGER_REVIEW, TS_AWAITING_HUMAN, TS_AWAITING_REVIEW,
      TS_DONE, TS_FAILED, TS_CANCELLED]"

fun task_status_value :: "task_status \<Rightarrow> string" where
  "task_status_value TS_PENDING = ''pending''"
| "task_status_value TS_RUNNING = ''running''"
| "task_status_value TS_IDLE = ''idle''"
| "task_status_value TS_BLOCKED = ''blocked''"
| "task_status_value TS_AWAITING_PEER = ''awaiting_peer''"
| "task_status_value TS_AWAITING_MANAGER_REVIEW = ''awaiting_manager_review''"
| "task_status_value TS_AWAITING_HUMAN = ''awaiting_human''"
| "task_status_value TS_AWAITING_REVIEW = ''awaiting_review''"
| "task_status_value TS_DONE = ''done''"
| "task_status_value TS_FAILED = ''failed''"
| "task_status_value TS_CANCELLED = ''cancelled''"

text \<open>The enum calls \<open>Phase(s)\<close> and \<open>TaskStatus(s)\<close>: lookup by value, \<open>ValueError\<close> otherwise.\<close>

definition phase_of_text :: "string \<Rightarrow> phase result" where
  "phase_of_text s =
     (case find (\<lambda>p. phase_value p = s) all_phases of
        None \<Rightarrow> Inl ValueError | Some p \<Rightarrow> Inr p)"

definition task_status_of_text :: "string \<Rightarrow> task_status result" where
  "task_status_of_text s =
     (case find (\<lambda>p. task_status_value p = s) all_task_statuses of
        None \<Rightarrow> Inl ValueError | Some p \<Rightarrow> Inr p)"

lemma phase_of_text_value [simp]: "phase_of_text (phase_value p) = Inr p"
  by (cases p) (simp_all add: phase_of_text_def all_phases_def)

lemma task_status_of_text_value [simp]: "task_status_of_text (task_status_value s) = Inr s"
  by (cases s) (simp_all add: task_status_of_text_def all_task_statuses_def)

lemma phase_of_text_Inr: "phase_of_text s = Inr p \<longleftrightarrow> s = phase_value p"
proof
  assume "phase_of_text s = Inr p"
  then show "s = phase_value p"
    by (auto simp: phase_of_text_def find_Some_iff split: option.splits)
qed simp

lemma task_status_of_text_Inr: "task_status_of_text s = Inr p \<longleftrightarrow> s = task_status_value p"
proof
  assume "task_status_of_text s = Inr p"
  then show "s = task_status_value p"
    by (auto simp: task_status_of_text_def find_Some_iff split: option.splits)
qed simp

lemma phase_value_inj: "phase_value p = phase_value q \<longleftrightarrow> p = q"
  by (metis phase_of_text_value sum.inject(2))

lemma lower_phase_value: "py_lower (py_strip (phase_value p)) = phase_value p"
  by (cases p) (simp_all add: str_simps)

section \<open>Role runtime status\<close>

definition normalize_role_runtime_status :: "pyval \<Rightarrow> pyval \<Rightarrow> string \<Rightarrow> string" where
  "normalize_role_runtime_status status focused_work_item_id dflt =
     (let text = clean_lower status;
          focused = (clean focused_work_item_id \<noteq> [])
      in if text = ''idle'' then ''idle''
         else if text = ''running'' then (if focused then ''running'' else ''idle'')
         else if text = ''blocked'' then ''blocked''
         else if text = [] then (if focused then ''blocked'' else dflt)
         else if text = ''cold'' then ''idle''
         else if text \<in> {''reserved'', ''booting'', ''draining''} then
           (if focused then ''running'' else ''idle'')
         else if text \<in> {''dead'', ''handoff_pending''} then ''blocked''
         else if focused then ''blocked''
         else dflt)"

definition role_runtime_statuses :: "string set" where
  "role_runtime_statuses = {''idle'', ''running'', ''blocked''}"

section \<open>Dataclasses\<close>

record work_item =
  wi_work_item_id :: string
  wi_run_id :: string
  wi_cell_id :: string
  wi_team_instance_id :: string
  wi_team_id :: string
  wi_role_id :: string
  wi_seat_id :: string
  wi_seat_state_id :: string
  wi_role_runtime_session_id :: string
  wi_parent_work_item_id :: "string option"
  wi_source_seat_id :: "string option"
  wi_batch_id :: string
  wi_title :: string
  wi_summary :: string
  wi_kind :: string
  wi_projection_id :: string
  wi_phase :: phase
  wi_deliverable_summary :: string
  wi_blocked_reason :: string
  wi_handoff_status :: string
  wi_manager_role_id :: string
  wi_manager_seat_id :: string
  wi_claimed_by_role_runtime_session_id :: string
  wi_claimed_by_seat_id :: string
  wi_metadata :: pydict
  wi_updated_at :: int

record task =
  tk_id :: string
  tk_project_id :: string
  tk_session_id :: "string option"
  tk_parent_session_id :: "string option"
  tk_title :: string
  tk_description :: string
  tk_assigned_to :: string
  tk_status :: task_status
  tk_priority :: int
  tk_dependencies :: "string list"
  tk_context_snapshot :: pydict
  tk_parent_id :: "string option"
  tk_result :: pyval
  tk_metadata :: pydict
  tk_linked_work_item_id :: string

record role_session =
  rs_role_session_id :: string
  rs_run_id :: string
  rs_project_id :: string
  rs_role_id :: string
  rs_seat_id :: string
  rs_focused_work_item_id :: string
  rs_status :: string
  rs_pending_work_item_ids :: "string list"
  rs_updated_at :: int

text \<open>The defaults of the dataclass fields.\<close>

definition new_work_item :: "string \<Rightarrow> work_item" where
  "new_work_item wid =
     \<lparr>wi_work_item_id = wid, wi_run_id = [], wi_cell_id = [], wi_team_instance_id = [], wi_team_id = [],
      wi_role_id = [], wi_seat_id = [], wi_seat_state_id = [],
      wi_role_runtime_session_id = [], wi_parent_work_item_id = None,
      wi_source_seat_id = None, wi_batch_id = [], wi_title = [],
      wi_summary = [], wi_kind = ''execute'', wi_projection_id = [], wi_phase = READY,
      wi_deliverable_summary = [], wi_blocked_reason = [], wi_handoff_status = ''pending'',
      wi_manager_role_id = [], wi_manager_seat_id = [],
      wi_claimed_by_role_runtime_session_id = [], wi_claimed_by_seat_id = [],
      wi_metadata = [], wi_updated_at = 0\<rparr>"

definition new_task :: "string \<Rightarrow> task" where
  "new_task tid =
     \<lparr>tk_id = tid, tk_project_id = ''default'', tk_session_id = None,
      tk_parent_session_id = None, tk_title = [], tk_description = [], tk_assigned_to = [],
      tk_status = TS_PENDING, tk_priority = 5, tk_dependencies = [], tk_context_snapshot = [],
      tk_parent_id = None, tk_result = PNone, tk_metadata = [],
      tk_linked_work_item_id = []\<rparr>"

definition new_role_session :: "string \<Rightarrow> role_session" where
  "new_role_session sid =
     \<lparr>rs_role_session_id = sid, rs_run_id = [], rs_project_id = ''default'',
      rs_role_id = [], rs_seat_id = [], rs_focused_work_item_id = [], rs_status = ''idle'',
      rs_pending_work_item_ids = [], rs_updated_at = 0\<rparr>"

text \<open>\<open>str(x or "").strip()\<close> on an optional text column.\<close>

definition opt_text :: "string option \<Rightarrow> string" where
  "opt_text x = (case x of None \<Rightarrow> [] | Some s \<Rightarrow> py_strip s)"

text \<open>\<open>DelegationWorkItem.__post_init__\<close>: a raw phase text that is no phase becomes READY.\<close>

definition post_init_phase :: "pyval \<Rightarrow> phase" where
  "post_init_phase raw =
     result_or READY (phase_of_text (py_str (py_or raw (PStr ''ready''))))"

end
