(* ===== verification/Identity.thy ===== *)
theory Identity
  imports Models
begin

text \<open>
  \<open>opc/layer2_organization/work_item_identity.py\<close>, \<open>work_item_links.py\<close> and
  \<open>work_item_runtime.py\<close>: how a work item's projection id and turn type are read from its
  metadata, normalised through the alias table and written back, the gate rework payloads, and
  the link from a runtime task to its work item.  The two migrations return the new metadata
  only; the flag that says whether anything changed is left out.
\<close>

section \<open>Turn types\<close>

definition canonical_turn_types :: "string list" where
  "canonical_turn_types =
     [''intake'', ''dispatch'', ''plan'', ''setup'', ''execute'', ''review'', ''report'',
      ''followup'', ''monitor'', ''aggregate'', ''deliver'', ''self_evolution'']"

definition turn_type_aliases :: "(string \<times> string) list" where
  "turn_type_aliases =
     [(''delegate'', ''dispatch''), (''delegation'', ''dispatch''), (''delivery'', ''deliver''),
      (''follow-up'', ''followup''), (''follow_up'', ''followup''),
      (''synthesis'', ''aggregate''), (''synthesize'', ''aggregate''),
      (''self-evolution'', ''self_evolution''), (''self evolution'', ''self_evolution'')]"

definition normalize_work_item_turn_type :: "pyval \<Rightarrow> string \<Rightarrow> string" where
  "normalize_work_item_turn_type v fallback =
     (let own = clean_lower v;
          normalized = (if own \<noteq> [] then own else clean_lower (PStr fallback))
      in case map_of turn_type_aliases normalized of None \<Rightarrow> normalized | Some t \<Rightarrow> t)"

definition canonical_work_item_turn_type_for_kind :: "pyval \<Rightarrow> string \<Rightarrow> string" where
  "canonical_work_item_turn_type_for_kind v fallback =
     (let normalized = normalize_work_item_turn_type v [];
          fallback_normalized = normalize_work_item_turn_type (PStr fallback) []
      in if normalized \<in> set canonical_turn_types then normalized
         else if fallback_normalized \<in> set canonical_turn_types then fallback_normalized
         else [])"

definition initial_current_turn_mode_for_work_item ::
  "pyval \<Rightarrow> bool \<Rightarrow> bool \<Rightarrow> bool \<Rightarrow> string" where
  "initial_current_turn_mode_for_work_item turn_type manager_can_delegate
     review_execution_work_item report_execution_work_item =
     (let normalized_turn = canonical_work_item_turn_type_for_kind turn_type ''execute''
      in if normalized_turn = ''deliver'' then ''deliver_required''
         else if normalized_turn = ''aggregate'' then ''synthesize_required''
         else if report_execution_work_item \<or> normalized_turn = ''report'' then ''report_required''
         else if review_execution_work_item \<or> normalized_turn = ''review'' then ''review_execute''
         else if manager_can_delegate then ''manager_decide''
         else ''worker_execute'')"

section \<open>Reading the identity\<close>

definition work_item_projection_id_from_metadata :: "pydict \<Rightarrow> string \<Rightarrow> string" where
  "work_item_projection_id_from_metadata md fallback =
     (let v = clean (dget md ''work_item_projection_id'')
      in if v \<noteq> [] then v else py_strip fallback)"

definition work_item_turn_type_from_metadata :: "pydict \<Rightarrow> string \<Rightarrow> string" where
  "work_item_turn_type_from_metadata md fallback =
     (if md = [] then py_lower (py_strip fallback)
      else
        let a = normalize_work_item_turn_type (dget md ''work_item_turn_type'') [];
            b = normalize_work_item_turn_type (dget md ''work_kind'') [];
            c = normalize_work_item_turn_type (dget md ''delegation_turn_kind'') []
        in if a \<noteq> [] then a else if b \<noteq> [] then b else if c \<noteq> [] then c
           else normalize_work_item_turn_type (PStr fallback) [])"

definition projection_id_for_task :: "task \<Rightarrow> string" where
  "projection_id_for_task t =
     work_item_projection_id_from_metadata (tk_metadata t) (py_strip (tk_id t))"

definition turn_type_for_task :: "task \<Rightarrow> string \<Rightarrow> string" where
  "turn_type_for_task t fallback = work_item_turn_type_from_metadata (tk_metadata t) fallback"

definition projection_id_for_work_item :: "work_item \<Rightarrow> string" where
  "projection_id_for_work_item i =
     (let explicit = py_strip (wi_projection_id i)
      in if explicit \<noteq> [] then explicit
         else work_item_projection_id_from_metadata (wi_metadata i)
                (if explicit \<noteq> [] then explicit else py_strip (wi_work_item_id i)))"

definition turn_type_for_work_item :: "work_item \<Rightarrow> string \<Rightarrow> string" where
  "turn_type_for_work_item i fallback =
     work_item_turn_type_from_metadata (wi_metadata i)
       (if py_strip (wi_kind i) \<noteq> [] then py_strip (wi_kind i) else fallback)"

text \<open>The argument of the turn predicates: metadata, an object with metadata, or a text.\<close>

datatype turn_arg = TurnMeta pydict | TurnItem work_item | TurnText string

fun turn_type_for_value :: "turn_arg \<Rightarrow> string \<Rightarrow> string" where
  "turn_type_for_value (TurnMeta md) fallback = work_item_turn_type_from_metadata md fallback"
| "turn_type_for_value (TurnItem i) fallback =
     turn_type_for_work_item i (if fallback \<noteq> [] then fallback else ''execute'')"
| "turn_type_for_value (TurnText s) fallback =
     canonical_work_item_turn_type_for_kind (PStr s) fallback"

definition is_delivery_turn :: "turn_arg \<Rightarrow> bool" where
  "is_delivery_turn v \<longleftrightarrow> turn_type_for_value v [] = ''deliver''"

definition is_manager_reviewable_turn :: "turn_arg \<Rightarrow> bool" where
  "is_manager_reviewable_turn v =
     (let t = turn_type_for_value v []
      in t \<noteq> [] \<and>
         t \<notin> {''intake'', ''plan'', ''dispatch'', ''aggregate'', ''deliver'', ''self_evolution''})"

section \<open>Writing the identity\<close>

definition mark_work_item_projection :: "pydict \<Rightarrow> string \<Rightarrow> string \<Rightarrow> pydict" where
  "mark_work_item_projection md projection_id turn_type =
     (let projection = (if py_strip projection_id \<noteq> [] then py_strip projection_id
                        else work_item_projection_id_from_metadata md []);
          given = normalize_work_item_turn_type (PStr turn_type) [];
          turn = (if given \<noteq> [] then given else work_item_turn_type_from_metadata md ''execute'');
          r = (if projection \<noteq> [] then dset ''work_item_projection_id'' (PStr projection) md else md)
      in if turn \<noteq> [] then dset ''work_item_turn_type'' (PStr turn) r else r)"

definition work_item_identity_payload :: "string \<Rightarrow> string \<Rightarrow> pydict \<Rightarrow> bool \<Rightarrow> pydict" where
  "work_item_identity_payload projection_id turn_type source include_empty =
     (let projection = (if py_strip projection_id \<noteq> [] then py_strip projection_id
                        else work_item_projection_id_from_metadata source []);
          given = normalize_work_item_turn_type (PStr turn_type) [];
          turn = (if given \<noteq> [] then given else work_item_turn_type_from_metadata source [])
      in (if projection \<noteq> [] \<or> include_empty
          then [(''work_item_projection_id'', PStr projection)] else []) @
         (if turn \<noteq> [] \<or> include_empty then [(''work_item_turn_type'', PStr turn)] else []))"

definition work_item_identity_payload_for_task :: "task option \<Rightarrow> string \<Rightarrow> bool \<Rightarrow> pydict" where
  "work_item_identity_payload_for_task t fallback_turn_type include_empty =
     (case t of
        None \<Rightarrow> work_item_identity_payload [] fallback_turn_type [] include_empty
      | Some t \<Rightarrow> work_item_identity_payload (projection_id_for_task t)
                    (turn_type_for_task t fallback_turn_type) [] include_empty)"

definition migrate_work_item_projection_metadata :: "pydict \<Rightarrow> string \<Rightarrow> string \<Rightarrow> pydict" where
  "migrate_work_item_projection_metadata md projection_id_fallback turn_type_fallback =
     (let projection = work_item_projection_id_from_metadata md projection_id_fallback;
          turn = work_item_turn_type_from_metadata md
                   (if turn_type_fallback \<noteq> [] then turn_type_fallback else ''execute'');
          r = (if projection \<noteq> [] \<and> clean (dget md ''work_item_projection_id'') = []
               then dset ''work_item_projection_id'' (PStr projection) md else md)
      in if turn \<noteq> [] \<and> clean (dget r ''work_item_turn_type'') = []
         then dset ''work_item_turn_type'' (PStr turn) r else r)"

section \<open>Gate rework identity\<close>

definition target_projection_id_for_decision :: "pydict \<Rightarrow> string \<Rightarrow> string" where
  "target_projection_id_for_decision decision fallback =
     clean (py_or (dget decision ''target_projection_id'') (PStr fallback))"

definition target_projection_ids_for_decision :: "pydict \<Rightarrow> string list result" where
  "target_projection_ids_for_decision decision =
     bind_result (list_or_empty (dget decision ''target_projection_ids''))
       (\<lambda>raw. let single = target_projection_id_for_decision decision [];
                 raw_ids = (if raw \<noteq> [] then raw
                            else if single \<noteq> [] then [PStr single] else [])
             in Inr (dedup (filter (\<lambda>s. s \<noteq> []) (map clean raw_ids))))"

definition gate_rework_payload :: "string \<Rightarrow> string \<Rightarrow> string \<Rightarrow> pydict" where
  "gate_rework_payload rework_projection_id target_projection_id review_projection_id =
     (let rework = py_strip rework_projection_id;
          target = py_strip target_projection_id;
          review = py_strip review_projection_id
      in (if rework \<noteq> [] then [(''rework_projection_id'', PStr rework)] else []) @
         (if target \<noteq> [] then [(''target_projection_id'', PStr target)] else []) @
         (if review \<noteq> [] then [(''review_projection_id'', PStr review)] else []))"

section \<open>The link from a runtime task to its work item\<close>

definition linked_work_item_id_for_task :: "task option \<Rightarrow> string" where
  "linked_work_item_id_for_task t =
     (case t of None \<Rightarrow> [] | Some t \<Rightarrow> py_strip (tk_linked_work_item_id t))"

definition set_linked_work_item_id :: "task \<Rightarrow> string \<Rightarrow> task" where
  "set_linked_work_item_id t wid = t\<lparr>tk_linked_work_item_id := py_strip wid\<rparr>"

definition task_by_linked_work_item_id :: "task list \<Rightarrow> (string \<rightharpoonup> task)" where
  "task_by_linked_work_item_id tasks =
     fold (\<lambda>t m. let wid = linked_work_item_id_for_task (Some t)
                 in if wid \<noteq> [] then m(wid \<mapsto> t) else m) tasks Map.empty"

section \<open>The runtime marker\<close>

definition is_work_item_runtime_metadata :: "pydict \<Rightarrow> bool" where
  "is_work_item_runtime_metadata md \<longleftrightarrow> truthy (dget md ''work_item_runtime'')"

definition work_item_runtime_version :: "pydict \<Rightarrow> int \<Rightarrow> int" where
  "work_item_runtime_version md dflt =
     (if md = [] then dflt
      else let version = result_or dflt (py_int (dget_or md ''work_item_runtime_version'' (PInt dflt)))
           in if version > 0 then version else dflt)"

definition mark_work_item_runtime :: "pydict \<Rightarrow> int \<Rightarrow> pydict" where
  "mark_work_item_runtime md version =
     (let r = dset ''work_item_runtime'' (PBool True) md
      in dset ''work_item_runtime_version'' (PInt (work_item_runtime_version r version)) r)"

definition migrate_work_item_runtime_metadata :: "pydict \<Rightarrow> int \<Rightarrow> pydict" where
  "migrate_work_item_runtime_metadata md default_version =
     (if truthy (dget md ''work_item_runtime'')
      then dset ''work_item_runtime_version'' (PInt (work_item_runtime_version md default_version)) md
      else md)"

end
