(* ===== verification/Phase.thy ===== *)
theory Phase
  imports Identity
begin

text \<open>
  \<open>opc/layer2_organization/phase.py\<close>: the phase state machine of a delegation work item.
  The sets of phases, the transition table and its check, the projections (kanban column,
  owner, verdict, task status), the attempt ledger that stops a crashing card from being
  dispatched for ever, the dispatch test, and the phase-transition hook registry.
\<close>

section \<open>Sets of phases\<close>

definition TODO_PHASES :: "phase set" where
  "TODO_PHASES = {QUEUED, READY, READY_FOR_REWORK, WAITING_DEPENDENCIES}"

definition IN_PROGRESS_PHASES :: "phase set" where
  "IN_PROGRESS_PHASES = {RUNNING, WAITING_FOR_PEER, WAITING_FOR_CHILDREN, PAUSED, NEEDS_ATTENTION}"

definition IN_REVIEW_PHASES :: "phase set" where
  "IN_REVIEW_PHASES = {AWAITING_MANAGER_REVIEW, AWAITING_HUMAN}"

definition DONE_PHASES :: "phase set" where
  "DONE_PHASES = {APPROVED, FAILED, CANCELLED}"

definition RUNNABLE_PHASES :: "phase set" where
  "RUNNABLE_PHASES = {READY, READY_FOR_REWORK}"

definition WAITING_EXTERNAL_PHASES :: "phase set" where
  "WAITING_EXTERNAL_PHASES =
     {WAITING_FOR_PEER, WAITING_FOR_CHILDREN, WAITING_DEPENDENCIES, NEEDS_ATTENTION}"

lemmas phase_sets =
  TODO_PHASES_def IN_PROGRESS_PHASES_def IN_REVIEW_PHASES_def DONE_PHASES_def
  RUNNABLE_PHASES_def WAITING_EXTERNAL_PHASES_def

section \<open>The transition table\<close>

definition UNIVERSAL_EXITS :: "phase set" where
  "UNIVERSAL_EXITS = {FAILED, CANCELLED}"

definition RECOVERY_EXITS :: "phase set" where
  "RECOVERY_EXITS = {READY}"

fun allowed_transitions :: "phase \<Rightarrow> phase set" where
  "allowed_transitions QUEUED = {READY, WAITING_DEPENDENCIES} \<union> UNIVERSAL_EXITS"
| "allowed_transitions WAITING_DEPENDENCIES = {READY} \<union> UNIVERSAL_EXITS"
| "allowed_transitions READY = {RUNNING, WAITING_DEPENDENCIES} \<union> UNIVERSAL_EXITS"
| "allowed_transitions READY_FOR_REWORK = {RUNNING} \<union> UNIVERSAL_EXITS"
| "allowed_transitions RUNNING =
     {WAITING_FOR_PEER, WAITING_FOR_CHILDREN, PAUSED, NEEDS_ATTENTION,
      AWAITING_MANAGER_REVIEW, AWAITING_HUMAN, APPROVED} \<union> UNIVERSAL_EXITS \<union> RECOVERY_EXITS"
| "allowed_transitions WAITING_FOR_PEER = {RUNNING} \<union> UNIVERSAL_EXITS \<union> RECOVERY_EXITS"
| "allowed_transitions WAITING_FOR_CHILDREN = {RUNNING} \<union> UNIVERSAL_EXITS \<union> RECOVERY_EXITS"
| "allowed_transitions PAUSED = {RUNNING} \<union> UNIVERSAL_EXITS \<union> RECOVERY_EXITS"
| "allowed_transitions NEEDS_ATTENTION = {RUNNING} \<union> UNIVERSAL_EXITS \<union> RECOVERY_EXITS"
| "allowed_transitions AWAITING_MANAGER_REVIEW =
     {APPROVED, READY_FOR_REWORK} \<union> UNIVERSAL_EXITS \<union> RECOVERY_EXITS"
| "allowed_transitions AWAITING_HUMAN =
     {APPROVED, READY_FOR_REWORK} \<union> UNIVERSAL_EXITS \<union> RECOVERY_EXITS"
| "allowed_transitions APPROVED = {}"
| "allowed_transitions FAILED = {}"
| "allowed_transitions CANCELLED = {}"

definition validate_transition :: "phase option \<Rightarrow> phase \<Rightarrow> unit result" where
  "validate_transition previous target =
     (case previous of
        None \<Rightarrow> Inr ()
      | Some p \<Rightarrow>
          if p = target then Inr ()
          else if target \<notin> allowed_transitions p then Inl InvalidPhaseTransition
          else Inr ())"

lemma validate_transition_Some:
  "validate_transition (Some p) q = Inr () \<longleftrightarrow> q = p \<or> q \<in> allowed_transitions p"
  by (auto simp: validate_transition_def)

lemma validate_transition_error:
  "validate_transition (Some p) q = Inl e \<longleftrightarrow>
     e = InvalidPhaseTransition \<and> q \<noteq> p \<and> q \<notin> allowed_transitions p"
  by (auto simp: validate_transition_def)

text \<open>One edge of the machine, and the phases a card can reach along them.\<close>

inductive phase_step :: "phase \<Rightarrow> phase \<Rightarrow> bool" where
  edge: "validate_transition (Some p) q = Inr () \<Longrightarrow> p \<noteq> q \<Longrightarrow> phase_step p q"

inductive_cases phase_stepE: "phase_step p q"
inductive_simps phase_step_iff: "phase_step p q"

inductive phase_reach :: "phase \<Rightarrow> phase \<Rightarrow> bool" where
  here: "phase_reach p p"
| more: "phase_reach p q \<Longrightarrow> phase_step q r \<Longrightarrow> phase_reach p r"

section \<open>Projections\<close>

definition kanban_column :: "phase \<Rightarrow> string" where
  "kanban_column p =
     (if p \<in> TODO_PHASES then ''todo''
      else if p \<in> IN_PROGRESS_PHASES then ''in_progress''
      else if p \<in> IN_REVIEW_PHASES then ''in_review''
      else ''done'')"

definition is_runnable :: "phase \<Rightarrow> bool" where
  "is_runnable p \<longleftrightarrow> p \<in> RUNNABLE_PHASES"

definition is_terminal :: "phase \<Rightarrow> bool" where
  "is_terminal p \<longleftrightarrow> p \<in> DONE_PHASES"

definition is_waiting_external :: "phase \<Rightarrow> bool" where
  "is_waiting_external p \<longleftrightarrow> p \<in> WAITING_EXTERNAL_PHASES"

definition is_stale_claim_releasable :: "phase \<Rightarrow> bool" where
  "is_stale_claim_releasable p \<longleftrightarrow> p \<in> IN_PROGRESS_PHASES \<union> IN_REVIEW_PHASES"

definition is_resumable_after_claim_release :: "phase \<Rightarrow> bool" where
  "is_resumable_after_claim_release p \<longleftrightarrow> p \<in> IN_PROGRESS_PHASES"

definition is_orphaned :: "work_item \<Rightarrow> bool" where
  "is_orphaned i \<longleftrightarrow>
     is_resumable_after_claim_release (wi_phase i) \<and>
     py_strip (wi_claimed_by_role_runtime_session_id i) = []"

definition effective_owner :: "phase \<Rightarrow> work_item \<Rightarrow> string \<times> string" where
  "effective_owner p i =
     (let manager_role = py_strip (wi_manager_role_id i);
          manager_seat = py_strip (wi_manager_seat_id i);
          role = py_strip (wi_role_id i);
          seat = py_strip (wi_seat_id i)
      in if p \<in> IN_REVIEW_PHASES
         then (if manager_role \<noteq> [] then manager_role else role,
               if manager_seat \<noteq> [] then manager_seat else seat)
         else (role, seat))"

fun verdict :: "phase \<Rightarrow> string option" where
  "verdict APPROVED = Some ''approve''"
| "verdict READY_FOR_REWORK = Some ''rework''"
| "verdict FAILED = Some ''fail''"
| "verdict CANCELLED = Some ''cancel''"
| "verdict _ = None"

fun task_status_for_phase :: "phase \<Rightarrow> task_status" where
  "task_status_for_phase QUEUED = TS_PENDING"
| "task_status_for_phase READY = TS_PENDING"
| "task_status_for_phase READY_FOR_REWORK = TS_PENDING"
| "task_status_for_phase WAITING_DEPENDENCIES = TS_BLOCKED"
| "task_status_for_phase RUNNING = TS_RUNNING"
| "task_status_for_phase WAITING_FOR_PEER = TS_AWAITING_PEER"
| "task_status_for_phase WAITING_FOR_CHILDREN = TS_BLOCKED"
| "task_status_for_phase PAUSED = TS_BLOCKED"
| "task_status_for_phase NEEDS_ATTENTION = TS_BLOCKED"
| "task_status_for_phase AWAITING_MANAGER_REVIEW = TS_AWAITING_MANAGER_REVIEW"
| "task_status_for_phase AWAITING_HUMAN = TS_AWAITING_HUMAN"
| "task_status_for_phase APPROVED = TS_DONE"
| "task_status_for_phase FAILED = TS_FAILED"
| "task_status_for_phase CANCELLED = TS_CANCELLED"

fun phase_for_task_status :: "task_status \<Rightarrow> bool \<Rightarrow> phase" where
  "phase_for_task_status TS_RUNNING c = RUNNING"
| "phase_for_task_status TS_AWAITING_PEER c = WAITING_FOR_PEER"
| "phase_for_task_status TS_BLOCKED c = (if c then WAITING_FOR_CHILDREN else PAUSED)"
| "phase_for_task_status TS_AWAITING_MANAGER_REVIEW c = AWAITING_MANAGER_REVIEW"
| "phase_for_task_status TS_AWAITING_REVIEW c = AWAITING_MANAGER_REVIEW"
| "phase_for_task_status TS_AWAITING_HUMAN c = AWAITING_HUMAN"
| "phase_for_task_status TS_DONE c = APPROVED"
| "phase_for_task_status TS_FAILED c = FAILED"
| "phase_for_task_status TS_CANCELLED c = CANCELLED"
| "phase_for_task_status TS_PENDING c = READY"
| "phase_for_task_status TS_IDLE c = READY"

text \<open>A phase argument as callers pass it: a \<open>Phase\<close>, a text, or something else.\<close>

datatype phase_arg = PhaseArg phase | PhaseText string | PhaseOther pyval

fun coerce_phase :: "phase_arg \<Rightarrow> phase result" where
  "coerce_phase (PhaseArg p) = Inr p"
| "coerce_phase (PhaseText s) = phase_of_text (py_lower (py_strip s))"
| "coerce_phase (PhaseOther v) = Inl TypeError"

section \<open>Auxiliary cards\<close>

definition normalized_text :: "pyval \<Rightarrow> string" where
  "normalized_text v = clean_lower v"

definition auxiliary_kind :: "pydict \<Rightarrow> string" where
  \<comment> \<open>\<open>_normalized_text(data.get("work_kind") or turn_type(data, fallback=""))\<close>\<close>
  "auxiliary_kind md =
     normalized_text (py_or (dget md ''work_kind'') (PStr (work_item_turn_type_from_metadata md [])))"

definition is_review_execution_work_item_metadata :: "pydict \<Rightarrow> bool" where
  "is_review_execution_work_item_metadata md \<longleftrightarrow>
     truthy (dget md ''review_execution_work_item'') \<or>
     auxiliary_kind md = ''review'' \<and> clean (dget md ''review_target_work_item_id'') \<noteq> []"

definition is_report_execution_work_item_metadata :: "pydict \<Rightarrow> bool" where
  "is_report_execution_work_item_metadata md \<longleftrightarrow>
     truthy (dget md ''report_execution_work_item'') \<or>
     auxiliary_kind md = ''report'' \<and> clean (dget md ''report_target_work_item_id'') \<noteq> []"

definition is_runtime_auxiliary_work_item :: "pydict \<Rightarrow> bool" where
  \<comment> \<open>of the metadata, or of a serialized card that contains its metadata\<close>
  "is_runtime_auxiliary_work_item value_or_metadata \<longleftrightarrow>
     (let md = (case dget value_or_metadata ''metadata'' of PDict nested \<Rightarrow> nested | _ \<Rightarrow> value_or_metadata)
      in truthy (dget md ''attention_work_item'') \<or>
         is_report_execution_work_item_metadata md \<or>
         is_review_execution_work_item_metadata md)"

definition should_hide_work_item_from_company_kanban :: "pydict \<Rightarrow> bool" where
  "should_hide_work_item_from_company_kanban md \<longleftrightarrow> truthy (dget md ''hidden_from_company_kanban'')"

section \<open>The attempt ledger\<close>

definition ATTEMPT_CRASH_STREAK_LIMIT :: int where
  "ATTEMPT_CRASH_STREAK_LIMIT = 3"

definition ATTEMPT_INTERRUPTED_STREAK_LIMIT :: int where
  "ATTEMPT_INTERRUPTED_STREAK_LIMIT = 5"

definition attempt_ledger_int :: "pydict \<Rightarrow> string \<Rightarrow> int" where
  "attempt_ledger_int md k = result_or 0 (py_int (py_or (dget md k) (PInt 0)))"

definition attempt_ledger_dispatch_block_reason :: "pydict \<Rightarrow> string" where
  "attempt_ledger_dispatch_block_reason md =
     (let crash = attempt_ledger_int md ''attempt_crash_streak'';
          interrupted = attempt_ledger_int md ''attempt_interrupted_streak''
      in if crash \<ge> ATTEMPT_CRASH_STREAK_LIMIT then
           ''attempt ledger: '' @ int_text crash @ '' consecutive crashed attempts (limit '' @
           int_text ATTEMPT_CRASH_STREAK_LIMIT @ '')''
         else if interrupted \<ge> ATTEMPT_INTERRUPTED_STREAK_LIMIT then
           ''attempt ledger: '' @ int_text interrupted @ '' consecutive interrupted attempts (limit '' @
           int_text ATTEMPT_INTERRUPTED_STREAK_LIMIT @ '')''
         else [])"

definition has_open_attempt :: "pydict \<Rightarrow> bool" where
  "has_open_attempt md \<longleftrightarrow>
     attempt_ledger_int md ''attempt_seq'' > 0 \<and>
     \<not> truthy (dget_or md ''attempt_settled'' (PBool True))"

definition build_attempt_settlement_updates :: "pydict \<Rightarrow> string \<Rightarrow> string \<Rightarrow> pydict" where
  "build_attempt_settlement_updates md outcome settled_at =
     (if \<not> has_open_attempt md then []
      else
        let outcome_clean = (if py_strip outcome \<noteq> [] then py_strip outcome else ''settled'');
            crash = attempt_ledger_int md ''attempt_crash_streak'';
            interrupted = attempt_ledger_int md ''attempt_interrupted_streak'';
            streaks = (if outcome_clean = ''crashed'' then (crash + 1, interrupted)
                       else if outcome_clean = ''interrupted'' then (crash, interrupted + 1)
                       else (0, 0))
        in [(''attempt_settled'', PBool True),
            (''attempt_outcome'', PStr outcome_clean),
            (''attempt_settled_at'', PStr settled_at),
            (''attempt_crash_streak'', PInt (fst streaks)),
            (''attempt_interrupted_streak'', PInt (snd streaks))])"

definition is_dispatchable :: "work_item \<Rightarrow> bool" where
  "is_dispatchable i \<longleftrightarrow>
     clean (dget (wi_metadata i) ''queued_behind_session'') = [] \<and>
     clean (dget (wi_metadata i) ''dispatch_hold'') = [] \<and>
     attempt_ledger_dispatch_block_reason (wi_metadata i) = [] \<and>
     (is_runnable (wi_phase i) \<or> is_orphaned i)"

section \<open>The hook registry\<close>

text \<open>
  Hooks are registered once and fire in registration order after a write; a hook that raises
  is logged and does not stop the others.  A hook changes the state \<open>'s\<close> it is given (the
  store, the wake flags) and reports whether it raised.
\<close>

record 's hook =
  hk_name :: string
  hk_notification_only :: bool
  hk_run :: "phase option \<Rightarrow> phase \<Rightarrow> work_item \<Rightarrow> 's \<Rightarrow> pyerr option \<times> 's"

definition register_phase_transition_hook :: "'s hook \<Rightarrow> 's hook list \<Rightarrow> 's hook list" where
  "register_phase_transition_hook h hs =
     (if hk_name h \<in> hk_name ` set hs then hs else hs @ [h])"

fun on_phase_transition ::
  "bool \<Rightarrow> 's hook list \<Rightarrow> phase option \<Rightarrow> phase \<Rightarrow> work_item \<Rightarrow> 's \<Rightarrow> 's" where
  "on_phase_transition notifications_only [] previous target item s = s"
| "on_phase_transition notifications_only (h # hs) previous target item s =
     (if notifications_only \<and> \<not> hk_notification_only h
      then on_phase_transition notifications_only hs previous target item s
      else on_phase_transition notifications_only hs previous target item
             (snd (hk_run h previous target item s)))"

section \<open>Facts about the machine\<close>

lemmas transition_sets = UNIVERSAL_EXITS_def RECOVERY_EXITS_def

lemma allowed_empty_iff: "allowed_transitions p = {} \<longleftrightarrow> p \<in> DONE_PHASES"
  by (cases p) (auto simp: phase_sets transition_sets)

lemma allowed_irreflexive: "p \<notin> allowed_transitions p"
  by (cases p) (auto simp: transition_sets)

lemma never_into_queued: "QUEUED \<notin> allowed_transitions p"
  by (cases p) (auto simp: transition_sets)

lemma phase_step_allowed: "phase_step p q \<longleftrightarrow> q \<in> allowed_transitions p"
  using allowed_irreflexive [of p] by (auto simp: phase_step_iff validate_transition_Some)

lemma terminal_no_step: "p \<in> DONE_PHASES \<Longrightarrow> \<not> phase_step p q"
  using allowed_empty_iff [of p] by (simp add: phase_step_allowed)

lemma phase_reach_from_terminal: "phase_reach p q \<Longrightarrow> p \<in> DONE_PHASES \<Longrightarrow> q = p"
  by (induction rule: phase_reach.induct) (auto dest: terminal_no_step)

lemma phase_reach_not_queued: "phase_reach p q \<Longrightarrow> p \<noteq> QUEUED \<Longrightarrow> q \<noteq> QUEUED"
  by (induction rule: phase_reach.induct) (auto simp: phase_step_allowed never_into_queued)

lemma phase_reach_ready:
  assumes "q \<noteq> QUEUED"
  shows "phase_reach READY q"
proof -
  have run: "phase_reach READY RUNNING"
    by (rule phase_reach.more [OF phase_reach.here]) (simp add: phase_step_allowed)
  have wait: "phase_reach READY WAITING_DEPENDENCIES"
    by (rule phase_reach.more [OF phase_reach.here]) (simp add: phase_step_allowed)
  have from_run: "phase_reach READY r" if "r \<in> allowed_transitions RUNNING" for r
    by (rule phase_reach.more [OF run]) (simp only: phase_step_allowed that)
  have review: "phase_reach READY AWAITING_MANAGER_REVIEW"
    by (rule from_run) simp
  have rework: "phase_reach READY READY_FOR_REWORK"
    by (rule phase_reach.more [OF review]) (simp add: phase_step_allowed)
  show ?thesis
    using assms run wait rework from_run
    by (cases q) (auto simp: transition_sets phase_reach.here)
qed

lemma attempt_ledger_int_Cons:
  "attempt_ledger_int (dset k v md) k' =
     (if k' = k then result_or 0 (py_int (py_or v (PInt 0))) else attempt_ledger_int md k')"
  by (simp add: attempt_ledger_int_def)

lemma py_int_PInt_or: "result_or 0 (py_int (py_or (PInt n) (PInt 0))) = n"
  by (simp add: py_or_def)

lemma has_open_attempt_seq: "has_open_attempt md \<Longrightarrow> attempt_ledger_int md ''attempt_seq'' > 0"
  by (simp add: has_open_attempt_def)

lemma settlement_closes:
  "\<not> has_open_attempt (dupdate md (build_attempt_settlement_updates md outcome at))"
  by (cases "has_open_attempt md")
     (auto simp: build_attempt_settlement_updates_def Let_def has_open_attempt_def)

lemma settlement_keys:
  "fst ` set (build_attempt_settlement_updates md outcome at) \<subseteq>
     {''attempt_settled'', ''attempt_outcome'', ''attempt_settled_at'',
      ''attempt_crash_streak'', ''attempt_interrupted_streak''}"
  by (auto simp: build_attempt_settlement_updates_def Let_def)

section \<open>Properties\<close>

text \<open>
  The shape of the phase machine.  A card can leave a phase exactly when the phase is not
  terminal; from every non-terminal phase both FAILED and CANCELLED can be entered in one step
  (the universal exits), from every phase that holds a runtime claim (in progress or in
  review) READY can be entered in one step (crash recovery), no step leads into QUEUED, and a
  released card can still reach every phase but QUEUED.
\<close>

theorem phase_machine_shape:
  "((\<exists>q. phase_step p q) \<longleftrightarrow> \<not> is_terminal p) \<and>
   (is_terminal p \<or> phase_step p FAILED \<and> phase_step p CANCELLED) \<and>
   (is_stale_claim_releasable p = (p \<notin> TODO_PHASES \<and> phase_step p READY)) \<and>
   \<not> phase_step p QUEUED \<and>
   (phase_reach READY p \<longleftrightarrow> p \<noteq> QUEUED)"
proof (intro conjI)
  show "(\<exists>q. phase_step p q) \<longleftrightarrow> \<not> is_terminal p"
    using allowed_empty_iff [of p] by (auto simp: phase_step_allowed is_terminal_def)
  show "is_terminal p \<or> phase_step p FAILED \<and> phase_step p CANCELLED"
    by (cases p) (simp_all add: phase_step_allowed is_terminal_def phase_sets transition_sets)
  show "is_stale_claim_releasable p = (p \<notin> TODO_PHASES \<and> phase_step p READY)"
    by (cases p) (simp_all add: phase_step_allowed is_stale_claim_releasable_def phase_sets transition_sets)
  show "\<not> phase_step p QUEUED"
    by (simp add: phase_step_allowed never_into_queued)
  show "phase_reach READY p \<longleftrightarrow> p \<noteq> QUEUED"
    using phase_reach_not_queued [of READY p] by (auto intro: phase_reach_ready)
qed

text \<open>
  The two status projections agree.  A task status that came from a phase is projected
  back to that phase (with the pending-children flag set for WAITING_FOR_CHILDREN only) unless
  the phase shares its status with the projection's representative: QUEUED and READY_FOR_REWORK
  come back as READY, WAITING_DEPENDENCIES and NEEDS_ATTENTION as PAUSED.  Every task status
  other than IDLE and AWAITING_REVIEW survives the round trip through its phase, the kanban
  column of a phase is one of the four and \<open>done\<close> exactly for the terminal phases, and a
  terminal task status is written exactly for a terminal phase.
\<close>

theorem status_projection_roundtrip:
  "(phase_for_task_status (task_status_for_phase p) (p = WAITING_FOR_CHILDREN) = p) =
     (p \<notin> {QUEUED, READY_FOR_REWORK, WAITING_DEPENDENCIES, NEEDS_ATTENTION}) \<and>
   (task_status_for_phase (phase_for_task_status s c) = s) = (s \<notin> {TS_IDLE, TS_AWAITING_REVIEW}) \<and>
   kanban_column p \<in> {''todo'', ''in_progress'', ''in_review'', ''done''} \<and>
   (kanban_column p = ''done'' \<longleftrightarrow> is_terminal p) \<and>
   (is_terminal p \<longleftrightarrow> task_status_for_phase p \<in> {TS_DONE, TS_FAILED, TS_CANCELLED})"
  by (cases p; cases s; cases c)
     (simp_all add: kanban_column_def is_terminal_def phase_sets)

end
