(* ===== verification/Store.thy ===== *)
theory Store
  imports Phase
begin

text \<open>
  The work-item side of \<open>opc/database/store.py\<close>: the rows of \<open>delegation_work_items\<close> (in
  creation order), the runs with their controller lease, the runtime tasks and their links,
  the role sessions and the runtime events; reading, inserting and updating a work-item row,
  the protection of the delegate-work identity, reopening an approved card, and the chokepoint
  through which every write validates its phase edge and fires the phase hooks.  A transaction
  that raises leaves the state as it was.
\<close>

section \<open>State\<close>

record run =
  rn_run_id :: string
  rn_project_id :: string
  rn_session_id :: string
  rn_owner_token :: string
  rn_generation :: int
  rn_acquired_at :: "int option"
  rn_heartbeat_at :: "int option"
  rn_expires_at :: "int option"

record store =
  st_items :: "work_item list"
  st_runs :: "run list"
  st_tasks :: "task list"
  st_links :: "(string \<times> string) list"
  st_sessions :: "role_session list"
  st_queue_enabled :: bool
  st_wakes :: nat
  st_events :: "(string \<times> string) list"

definition empty_store :: store where
  "empty_store =
     \<lparr>st_items = [], st_runs = [], st_tasks = [], st_links = [], st_sessions = [],
      st_queue_enabled = True, st_wakes = 0, st_events = []\<rparr>"

section \<open>Rows\<close>

definition get_item :: "store \<Rightarrow> string \<Rightarrow> work_item option" where
  "get_item st wid = find (\<lambda>i. wi_work_item_id i = wid) (st_items st)"

fun put_row :: "work_item \<Rightarrow> work_item list \<Rightarrow> work_item list" where
  \<comment> \<open>\<open>INSERT ... ON CONFLICT(work_item_id) DO UPDATE\<close>\<close>
  "put_row i [] = [i]"
| "put_row i (j # js) =
     (if wi_work_item_id j = wi_work_item_id i then i # js else j # put_row i js)"

definition put_item :: "store \<Rightarrow> work_item \<Rightarrow> store" where
  "put_item st i = st\<lparr>st_items := put_row i (st_items st)\<rparr>"

definition list_delegation_work_items :: "store \<Rightarrow> string \<Rightarrow> work_item list" where
  "list_delegation_work_items st run_id = filter (\<lambda>i. wi_run_id i = run_id) (st_items st)"

definition get_run :: "store \<Rightarrow> string \<Rightarrow> run option" where
  "get_run st rid = find (\<lambda>r. rn_run_id r = rid) (st_runs st)"

definition get_task :: "store \<Rightarrow> string \<Rightarrow> task option" where
  "get_task st task_id =
     (let tid = py_strip task_id in if tid = [] then None else find (\<lambda>t. tk_id t = tid) (st_tasks st))"

section \<open>The delegate-work identity\<close>

definition DELEGATE_WORK_RESERVED_METADATA_KEYS :: "string list" where
  "DELEGATE_WORK_RESERVED_METADATA_KEYS =
     [''created_by_delegate_work'', ''delegate_invocation_id'',
      ''delegate_invocation_index'', ''delegate_sequence_index'']"

definition sequence_scope :: "work_item \<Rightarrow> string list" where
  "sequence_scope i =
     [py_strip (wi_run_id i), py_strip (wi_batch_id i),
      opt_text (wi_parent_work_item_id i), opt_text (wi_source_seat_id i)]"

definition keep_sequence_scope :: "work_item \<Rightarrow> work_item \<Rightarrow> work_item" where
  "keep_sequence_scope existing i =
     i\<lparr>wi_run_id := wi_run_id existing, wi_batch_id := wi_batch_id existing,
       wi_parent_work_item_id := wi_parent_work_item_id existing,
       wi_source_seat_id := wi_source_seat_id existing\<rparr>"

definition protect_delegate_work_identity ::
  "work_item \<Rightarrow> work_item option \<Rightarrow> work_item result" where
  "protect_delegate_work_identity i existing =
     (let md = wi_metadata i; reserved = DELEGATE_WORK_RESERVED_METADATA_KEYS
      in case existing of
           None \<Rightarrow> if list_ex (dhas md) reserved then Inl ValueError else Inr i
         | Some old \<Rightarrow>
             (let old_md = wi_metadata old;
                  differs = (\<lambda>k. dhas md k \<and> dhas old_md k \<and> \<not> py_eq (dget md k) (dget old_md k))
              in if dget old_md ''created_by_delegate_work'' \<noteq> PBool True then
                   (if list_ex (\<lambda>k. dhas md k \<and> \<not> dhas old_md k) reserved \<or> list_ex differs reserved
                    then Inl ValueError else Inr i)
                 else if list_ex (\<lambda>k. \<not> dhas old_md k) reserved then Inl RuntimeError
                 else if sequence_scope i \<noteq> sequence_scope old then Inl ValueError
                 else if list_ex differs reserved then Inl ValueError
                 else Inr ((keep_sequence_scope old i)
                             \<lparr>wi_metadata := fold (\<lambda>k d. dset k (dget old_md k) d) reserved md\<rparr>)))"

section \<open>Writing a row\<close>

definition has_projection_identity :: "pydict \<Rightarrow> bool" where
  "has_projection_identity md \<longleftrightarrow>
     clean (dget md ''work_item_projection_id'') \<noteq> [] \<or> clean (dget md ''work_item_turn_type'') \<noteq> []"

definition with_projection_identity :: "work_item \<Rightarrow> work_item" where
  "with_projection_identity i =
     (if has_projection_identity (wi_metadata i) \<or> py_strip (wi_projection_id i) \<noteq> [] \<or>
         py_strip (wi_kind i) \<noteq> []
      then i\<lparr>wi_metadata :=
               migrate_work_item_projection_metadata (wi_metadata i)
                 (py_strip (if wi_projection_id i \<noteq> [] then wi_projection_id i else wi_work_item_id i))
                 (py_strip (wi_kind i))\<rparr>
      else i)"

text \<open>
  The transaction of \<open>_write_delegation_work_item\<close>: \<open>None\<close> when \<open>if_absent\<close> meets an existing
  row, otherwise the new state, the phase the row had before and the row as written.
\<close>

definition write_row ::
  "store \<Rightarrow> work_item \<Rightarrow> bool \<Rightarrow> (store \<times> phase option \<times> work_item) option result" where
  "write_row st i0 if_absent =
     (let i = with_projection_identity i0;
          existing = get_item st (wi_work_item_id i)
      in if if_absent \<and> existing \<noteq> None then Inr None
         else bind_result (validate_transition (map_option wi_phase existing) (wi_phase i)) (\<lambda>_.
              bind_result (protect_delegate_work_identity i existing) (\<lambda>j.
              Inr (Some (put_item st j, map_option wi_phase existing, j)))))"

definition save_delegation_work_item ::
  "store hook list \<Rightarrow> store \<Rightarrow> work_item \<Rightarrow> work_item result \<times> store" where
  "save_delegation_work_item hooks st i =
     (case write_row st i False of
        Inl e \<Rightarrow> (Inl e, st)
      | Inr None \<Rightarrow> (Inr i, st)
      | Inr (Some (st', previous, j)) \<Rightarrow>
          (Inr j, on_phase_transition False hooks previous (wi_phase j) j st'))"

definition insert_delegation_work_item_if_absent ::
  "store hook list \<Rightarrow> store \<Rightarrow> work_item \<Rightarrow> bool result \<times> store" where
  "insert_delegation_work_item_if_absent hooks st i =
     (case write_row st i True of
        Inl e \<Rightarrow> (Inl e, st)
      | Inr None \<Rightarrow> (Inr False, st)
      | Inr (Some (st', previous, j)) \<Rightarrow>
          (Inr True, on_phase_transition False hooks previous (wi_phase j) j st'))"

section \<open>Updating a row\<close>

text \<open>The keyword arguments of \<open>update_delegation_work_item\<close> that the modelled callers pass.\<close>

record item_update =
  up_phase :: "phase option"
  up_summary :: "string option"
  up_deliverable_summary :: "string option"
  up_blocked_reason :: "string option"
  up_handoff_status :: "string option"
  up_claimed_session :: "string option"
  up_claimed_seat :: "string option"
  up_metadata :: pydict
  up_unset :: "string list"

definition no_update :: item_update where
  "no_update =
     \<lparr>up_phase = None, up_summary = None, up_deliverable_summary = None, up_blocked_reason = None,
      up_handoff_status = None, up_claimed_session = None, up_claimed_seat = None,
      up_metadata = [], up_unset = []\<rparr>"

definition upd :: "'a option \<Rightarrow> 'a \<Rightarrow> 'a" where
  "upd new old = (case new of None \<Rightarrow> old | Some x \<Rightarrow> x)"

lemma upd_simps [simp]: "upd None old = old" "upd (Some x) old = x"
  by (simp_all add: upd_def)

definition release_ownership :: "work_item \<Rightarrow> work_item" where
  "release_ownership i =
     i\<lparr>wi_claimed_by_role_runtime_session_id := [], wi_claimed_by_seat_id := [],
       wi_metadata := dset ''claimed_task_id'' (PStr [])
                        (dset ''claimed_by_role_session_id'' (PStr []) (wi_metadata i))\<rparr>"

definition apply_item_update :: "item_update \<Rightarrow> int \<Rightarrow> work_item \<Rightarrow> work_item result" where
  "apply_item_update u now i =
     bind_result (case up_phase u of None \<Rightarrow> Inr ()
                  | Some p \<Rightarrow> validate_transition (Some (wi_phase i)) p) (\<lambda>_.
     let a = i\<lparr>wi_phase := upd (up_phase u) (wi_phase i),
               wi_summary := upd (up_summary u) (wi_summary i),
               wi_deliverable_summary :=
                 upd (map_option py_strip (up_deliverable_summary u)) (wi_deliverable_summary i),
               wi_blocked_reason := upd (map_option py_strip (up_blocked_reason u)) (wi_blocked_reason i),
               wi_handoff_status := upd (map_option py_strip (up_handoff_status u)) (wi_handoff_status i),
               wi_claimed_by_role_runtime_session_id :=
                 upd (map_option py_strip (up_claimed_session u)) (wi_claimed_by_role_runtime_session_id i),
               wi_claimed_by_seat_id :=
                 upd (map_option py_strip (up_claimed_seat u)) (wi_claimed_by_seat_id i),
               wi_metadata := dupdate (fold dpop (up_unset u) (wi_metadata i)) (up_metadata u)\<rparr>;
         b = (if up_phase u \<noteq> None \<and> wi_phase a \<in> RUNNABLE_PHASES then release_ownership a else a)
     in Inr (b\<lparr>wi_updated_at := now\<rparr>))"

definition update_delegation_work_item ::
  "store hook list \<Rightarrow> store \<Rightarrow> string \<Rightarrow> item_update \<Rightarrow> int \<Rightarrow> work_item option result \<times> store" where
  "update_delegation_work_item hooks st wid u now =
     (case get_item st wid of
        None \<Rightarrow> (Inr None, st)
      | Some i \<Rightarrow>
          (case apply_item_update u now i of
             Inl e \<Rightarrow> (Inl e, st)
           | Inr j \<Rightarrow>
               (case save_delegation_work_item hooks st j of
                  (Inl e, st') \<Rightarrow> (Inl e, st')
                | (Inr k, st') \<Rightarrow> (Inr (Some k), st'))))"

section \<open>Reopening an approved card\<close>

definition reopen_approved_delegation_work_item_for_rework ::
  "store hook list \<Rightarrow> store \<Rightarrow> string \<Rightarrow> phase \<Rightarrow> item_update \<Rightarrow> bool \<Rightarrow> int
     \<Rightarrow> work_item option result \<times> store" where
  "reopen_approved_delegation_work_item_for_rework hooks st wid target u release_claim now =
     (case get_item st wid of
        None \<Rightarrow> (Inr None, st)
      | Some i \<Rightarrow>
          if wi_phase i \<noteq> APPROVED then (Inl InvalidPhaseTransition, st)
          else if target \<notin> {READY_FOR_REWORK, READY, WAITING_DEPENDENCIES}
          then (Inl InvalidPhaseTransition, st)
          else
            let a = i\<lparr>wi_phase := target,
                      wi_summary := upd (map_option py_strip (up_summary u)) (wi_summary i),
                      wi_deliverable_summary :=
                        upd (map_option py_strip (up_deliverable_summary u)) (wi_deliverable_summary i),
                      wi_blocked_reason :=
                        upd (map_option py_strip (up_blocked_reason u)) (wi_blocked_reason i),
                      wi_claimed_by_role_runtime_session_id :=
                        (if release_claim then [] else wi_claimed_by_role_runtime_session_id i),
                      wi_claimed_by_seat_id :=
                        (if release_claim then [] else wi_claimed_by_seat_id i),
                      wi_metadata := dupdate (fold dpop (up_unset u) (wi_metadata i)) (up_metadata u)\<rparr>
            in case protect_delegate_work_identity (with_projection_identity a) (Some i) of
                 Inl e \<Rightarrow> (Inl e, st)
               | Inr b \<Rightarrow>
                   (let c = b\<lparr>wi_updated_at := now\<rparr>
                    in (Inr (Some c),
                        on_phase_transition False hooks (Some APPROVED) target c (put_item st c))))"

section \<open>Lemmas\<close>

lemma find_put_row:
  "find (\<lambda>j. wi_work_item_id j = wid) (put_row i js) =
     (if wi_work_item_id i = wid then Some i else find (\<lambda>j. wi_work_item_id j = wid) js)"
  by (induction i js rule: put_row.induct) auto

lemma get_item_put_item [simp]:
  "get_item (put_item st i) wid = (if wi_work_item_id i = wid then Some i else get_item st wid)"
  by (simp add: get_item_def put_item_def find_put_row)

lemma get_item_id: "get_item st wid = Some i \<Longrightarrow> wi_work_item_id i = wid"
  by (auto simp: get_item_def find_Some_iff)

lemma put_item_fields [simp]:
  "st_runs (put_item st i) = st_runs st" "st_tasks (put_item st i) = st_tasks st"
  "st_links (put_item st i) = st_links st" "st_sessions (put_item st i) = st_sessions st"
  "st_queue_enabled (put_item st i) = st_queue_enabled st"
  by (simp_all add: put_item_def)

lemma map_id_put_row:
  "wi_work_item_id i \<in> wi_work_item_id ` set js \<Longrightarrow>
     map wi_work_item_id (put_row i js) = map wi_work_item_id js"
  by (induction i js rule: put_row.induct) auto

lemma get_item_not_None: "get_item st wid \<noteq> None \<longleftrightarrow> wid \<in> wi_work_item_id ` set (st_items st)"
  by (force simp: get_item_def find_None_iff)

lemma with_projection_identity_fields [simp]:
  "wi_work_item_id (with_projection_identity i) = wi_work_item_id i"
  "wi_phase (with_projection_identity i) = wi_phase i"
  "wi_run_id (with_projection_identity i) = wi_run_id i"
  "wi_claimed_by_role_runtime_session_id (with_projection_identity i) = wi_claimed_by_role_runtime_session_id i"
  "wi_claimed_by_seat_id (with_projection_identity i) = wi_claimed_by_seat_id i"
  "sequence_scope (with_projection_identity i) = sequence_scope i"
  by (simp_all add: with_projection_identity_def sequence_scope_def)

lemma migrate_projection_get:
  "k \<noteq> ''work_item_projection_id'' \<Longrightarrow> k \<noteq> ''work_item_turn_type'' \<Longrightarrow>
   dget (migrate_work_item_projection_metadata md p t) k = dget md k"
  by (simp add: migrate_work_item_projection_metadata_def Let_def)

lemma migrate_projection_has:
  "k \<noteq> ''work_item_projection_id'' \<Longrightarrow> k \<noteq> ''work_item_turn_type'' \<Longrightarrow>
   dhas (migrate_work_item_projection_metadata md p t) k = dhas md k"
  by (simp add: migrate_work_item_projection_metadata_def Let_def)

lemma with_projection_identity_get:
  "k \<noteq> ''work_item_projection_id'' \<Longrightarrow> k \<noteq> ''work_item_turn_type'' \<Longrightarrow>
   dget (wi_metadata (with_projection_identity i)) k = dget (wi_metadata i) k"
  by (simp add: with_projection_identity_def migrate_projection_get)

lemma with_projection_identity_has:
  "k \<noteq> ''work_item_projection_id'' \<Longrightarrow> k \<noteq> ''work_item_turn_type'' \<Longrightarrow>
   dhas (wi_metadata (with_projection_identity i)) k = dhas (wi_metadata i) k"
  by (simp add: with_projection_identity_def migrate_projection_has)

lemma dget_fold_dset:
  "dget (fold (\<lambda>k d. dset k (f k) d) ks md) k = (if k \<in> set ks then f k else dget md k)"
  by (induction ks arbitrary: md) auto

lemma dhas_fold_dset:
  "dhas (fold (\<lambda>k d. dset k (f k) d) ks md) k \<longleftrightarrow> k \<in> set ks \<or> dhas md k"
  by (induction ks arbitrary: md) auto

lemma keep_sequence_scope_fields [simp]:
  "wi_work_item_id (keep_sequence_scope old i) = wi_work_item_id i"
  "wi_phase (keep_sequence_scope old i) = wi_phase i"
  "wi_metadata (keep_sequence_scope old i) = wi_metadata i"
  "wi_claimed_by_role_runtime_session_id (keep_sequence_scope old i) = wi_claimed_by_role_runtime_session_id i"
  "wi_claimed_by_seat_id (keep_sequence_scope old i) = wi_claimed_by_seat_id i"
  by (simp_all add: keep_sequence_scope_def)

lemma protect_fields:
  "protect_delegate_work_identity i old = Inr j \<Longrightarrow>
     wi_work_item_id j = wi_work_item_id i \<and> wi_phase j = wi_phase i \<and>
     wi_claimed_by_role_runtime_session_id j = wi_claimed_by_role_runtime_session_id i \<and>
     wi_claimed_by_seat_id j = wi_claimed_by_seat_id i"
  by (auto simp: protect_delegate_work_identity_def Let_def split: option.splits if_splits)

lemma protect_get:
  "protect_delegate_work_identity i old = Inr j \<Longrightarrow>
   k \<notin> set DELEGATE_WORK_RESERVED_METADATA_KEYS \<Longrightarrow> dget (wi_metadata j) k = dget (wi_metadata i) k"
  by (auto simp: protect_delegate_work_identity_def Let_def dget_fold_dset split: option.splits if_splits)

lemma protect_has:
  "protect_delegate_work_identity i old = Inr j \<Longrightarrow>
   k \<notin> set DELEGATE_WORK_RESERVED_METADATA_KEYS \<Longrightarrow> dhas (wi_metadata j) k = dhas (wi_metadata i) k"
  by (auto simp: protect_delegate_work_identity_def Let_def dhas_fold_dset split: option.splits if_splits)

text \<open>A row whose reserved keys are complete when it is marked as a delegated card.\<close>

definition reserved_sound :: "pydict \<Rightarrow> bool" where
  "reserved_sound md \<longleftrightarrow>
     (dget md ''created_by_delegate_work'' = PBool True \<longrightarrow>
        list_all (dhas md) DELEGATE_WORK_RESERVED_METADATA_KEYS) \<and>
     list_all (\<lambda>k. py_eq (dget md k) (dget md k)) DELEGATE_WORK_RESERVED_METADATA_KEYS"

lemma protect_succeeds:
  assumes "reserved_sound (wi_metadata old)" "sequence_scope i = sequence_scope old"
    and "\<And>k. k \<in> set DELEGATE_WORK_RESERVED_METADATA_KEYS \<Longrightarrow>
           dhas (wi_metadata i) k = dhas (wi_metadata old) k \<and>
           dget (wi_metadata i) k = dget (wi_metadata old) k"
  shows "\<exists>j. protect_delegate_work_identity i (Some old) = Inr j"
proof -
  let ?R = "DELEGATE_WORK_RESERVED_METADATA_KEYS"
  have fresh: "\<not> list_ex (\<lambda>k. dhas (wi_metadata i) k \<and> \<not> dhas (wi_metadata old) k) ?R"
    using assms(3) by (auto simp: list_ex_iff)
  have differs: "\<not> list_ex (\<lambda>k. dhas (wi_metadata i) k \<and> dhas (wi_metadata old) k \<and>
      \<not> py_eq (dget (wi_metadata i) k) (dget (wi_metadata old) k)) ?R"
    using assms(1,3) by (auto simp: list_ex_iff reserved_sound_def list_all_iff)
  have whole: "\<not> list_ex (\<lambda>k. \<not> dhas (wi_metadata old) k) ?R"
    if "dget (wi_metadata old) ''created_by_delegate_work'' = PBool True"
    using assms(1) that by (auto simp: reserved_sound_def list_ex_iff list_all_iff)
  show ?thesis
    using fresh differs whole assms(2)
    by (auto simp: protect_delegate_work_identity_def Let_def)
qed

lemma write_row_cases:
  assumes "write_row st i b = Inr (Some (st', previous, j))"
  shows "previous = map_option wi_phase (get_item st (wi_work_item_id i)) \<and>
         st' = put_item st j \<and> wi_work_item_id j = wi_work_item_id i \<and> wi_phase j = wi_phase i \<and>
         validate_transition previous (wi_phase i) = Inr () \<and>
         protect_delegate_work_identity (with_projection_identity i) (get_item st (wi_work_item_id i)) = Inr j \<and>
         wi_claimed_by_role_runtime_session_id j = wi_claimed_by_role_runtime_session_id i \<and>
         wi_claimed_by_seat_id j = wi_claimed_by_seat_id i"
proof -
  have "\<not> (b \<and> get_item st (wi_work_item_id i) \<noteq> None)"
    using assms
    by (cases "get_item st (wi_work_item_id i)") (auto simp: write_row_def Let_def)
  then have w: "write_row st i b =
      bind_result (validate_transition (map_option wi_phase (get_item st (wi_work_item_id i))) (wi_phase i)) (\<lambda>_.
      bind_result (protect_delegate_work_identity (with_projection_identity i)
                     (get_item st (wi_work_item_id i))) (\<lambda>j.
      Inr (Some (put_item st j, map_option wi_phase (get_item st (wi_work_item_id i)), j))))"
    by (simp only: write_row_def Let_def with_projection_identity_fields if_False)
  have v: "validate_transition previous (wi_phase i) = Inr ()"
    and prev: "previous = map_option wi_phase (get_item st (wi_work_item_id i))"
    and p: "protect_delegate_work_identity (with_projection_identity i)
              (get_item st (wi_work_item_id i)) = Inr j"
    and st': "st' = put_item st j"
    using assms [unfolded w] by (auto simp: bind_result_Inr_iff)
  from protect_fields [OF p] v prev p st' show ?thesis by simp
qed

text \<open>A delegated card: the marker and all reserved keys are on the row.\<close>

definition delegate_identity :: "work_item \<Rightarrow> bool" where
  "delegate_identity i \<longleftrightarrow>
     dget (wi_metadata i) ''created_by_delegate_work'' = PBool True \<and>
     list_all (dhas (wi_metadata i)) DELEGATE_WORK_RESERVED_METADATA_KEYS"

definition same_delegate_identity :: "work_item \<Rightarrow> work_item \<Rightarrow> bool" where
  "same_delegate_identity i j \<longleftrightarrow>
     list_all (\<lambda>k. dget (wi_metadata j) k = dget (wi_metadata i) k \<and> dhas (wi_metadata j) k)
       DELEGATE_WORK_RESERVED_METADATA_KEYS \<and>
     wi_run_id j = wi_run_id i \<and> wi_batch_id j = wi_batch_id i \<and>
     wi_parent_work_item_id j = wi_parent_work_item_id i \<and> wi_source_seat_id j = wi_source_seat_id i"

lemma protect_delegate:
  assumes "protect_delegate_work_identity i (Some old) = Inr j" "delegate_identity old"
  shows "same_delegate_identity old j"
proof -
  let ?sealed = "(keep_sequence_scope old i)\<lparr>wi_metadata :=
      fold (\<lambda>k d. dset k (dget (wi_metadata old) k) d) DELEGATE_WORK_RESERVED_METADATA_KEYS (wi_metadata i)\<rparr>"
  have "j = ?sealed"
    using assms unfolding protect_delegate_work_identity_def delegate_identity_def Let_def
    by (simp split: if_splits)
  then show ?thesis
    by (simp add: same_delegate_identity_def list_all_iff dget_fold_dset dhas_fold_dset keep_sequence_scope_def)
qed

lemma same_delegate_identity_trans:
  "same_delegate_identity a b \<Longrightarrow> same_delegate_identity b c \<Longrightarrow> same_delegate_identity a c"
  by (auto simp: same_delegate_identity_def list_all_iff)

lemma same_delegate_identity_delegate:
  "same_delegate_identity a b \<Longrightarrow> delegate_identity a \<Longrightarrow> delegate_identity b"
  by (auto simp: same_delegate_identity_def delegate_identity_def list_all_iff
      DELEGATE_WORK_RESERVED_METADATA_KEYS_def)

text \<open>Any sequence of whole-row writes, from snapshots of any age; one that raises changes nothing.\<close>

fun write_all :: "store \<Rightarrow> work_item list \<Rightarrow> store" where
  "write_all st [] = st"
| "write_all st (i # is) =
     (case write_row st i False of
        Inr (Some (st', _, _)) \<Rightarrow> write_all st' is
      | _ \<Rightarrow> write_all st is)"

lemma write_all_step:
  obtains (skip) "write_all st (i # is) = write_all st is"
  | (wrote) st' p j where "write_row st i False = Inr (Some (st', p, j))"
      "write_all st (i # is) = write_all st' is"
proof (cases "write_row st i False")
  case (Inr r)
  show ?thesis
  proof (cases r)
    case None
    with Inr show ?thesis by (intro skip) simp
  next
    case (Some t)
    obtain st' p j where "t = (st', p, j)" by (cases t)
    with Inr Some show ?thesis by (intro wrote) simp_all
  qed
qed (intro skip, simp)

section \<open>Properties\<close>



text \<open>
  The delegate-work identity is sealed.  Once a card carries the delegate marker and its
  reserved keys, no sequence of row writes, whatever snapshots they are made from, changes a
  reserved value or the card's sequence scope (run, batch, parent, source seat); and a write
  that creates a row with a reserved key, or adds one to a row that is no delegated card, is
  refused.
\<close>

theorem delegate_identity_sealed:
  assumes "get_item st wid = Some old" "delegate_identity old"
    and "k \<in> set DELEGATE_WORK_RESERVED_METADATA_KEYS"
  shows "(\<exists>new. get_item (write_all st is) wid = Some new \<and> same_delegate_identity old new) \<and>
         (dhas (wi_metadata i) k \<longrightarrow> get_item st (wi_work_item_id i) = None \<longrightarrow>
            write_row st i False = Inl ValueError) \<and>
         (dhas (wi_metadata i) k \<longrightarrow>
            get_item st (wi_work_item_id i) = Some other \<longrightarrow>
            dget (wi_metadata other) ''created_by_delegate_work'' \<noteq> PBool True \<longrightarrow>
            \<not> dhas (wi_metadata other) k \<longrightarrow> (\<exists>e. write_row st i False = Inl e))"
proof (intro conjI impI)
  show "\<exists>new. get_item (write_all st is) wid = Some new \<and> same_delegate_identity old new"
    using assms(1,2)
  proof (induction "is" arbitrary: st old)
    case Nil
    then show ?case
      by (auto simp: same_delegate_identity_def delegate_identity_def list_all_iff)
  next
    case (Cons x xs)
    show ?case
    proof (cases rule: write_all_step [of st x xs])
      case (wrote st' q j)
      note c = write_row_cases [OF wrote(1)]
      note run = wrote(2)
      show ?thesis
      proof (cases "wi_work_item_id x = wid")
        case True
        then have "protect_delegate_work_identity (with_projection_identity x) (Some old) = Inr j"
          using c Cons.prems by simp
        then have j: "same_delegate_identity old j" using Cons.prems(2) by (rule protect_delegate)
        have "get_item st' wid = Some j" using c True by simp
        from Cons.IH [OF this same_delegate_identity_delegate [OF j Cons.prems(2)]] run
        show ?thesis by (auto intro: same_delegate_identity_trans [OF j])
      next
        case False
        then have "get_item st' wid = Some old" using c Cons.prems by simp
        with Cons run show ?thesis by simp
      qed
    qed (use Cons in simp)
  qed
  have key: "k \<noteq> ''work_item_projection_id''" "k \<noteq> ''work_item_turn_type''"
    using assms(3) by (auto simp: DELEGATE_WORK_RESERVED_METADATA_KEYS_def)
  have has: "dhas (wi_metadata (with_projection_identity i)) k" if "dhas (wi_metadata i) k"
    using that key by (simp add: with_projection_identity_def migrate_projection_has)
  show "write_row st i False = Inl ValueError"
    if "dhas (wi_metadata i) k" "get_item st (wi_work_item_id i) = None"
    using has [OF that(1)] that(2) assms(3)
    by (auto simp: write_row_def validate_transition_def protect_delegate_work_identity_def list_ex_iff Let_def)
  show "\<exists>e. write_row st i False = Inl e"
    if "dhas (wi_metadata i) k" "get_item st (wi_work_item_id i) = Some other"
      "dget (wi_metadata other) ''created_by_delegate_work'' \<noteq> PBool True"
      "\<not> dhas (wi_metadata other) k"
  proof -
    have "list_ex (\<lambda>k. dhas (wi_metadata (with_projection_identity i)) k \<and> \<not> dhas (wi_metadata other) k)
            DELEGATE_WORK_RESERVED_METADATA_KEYS"
      using has [OF that(1)] that(4) assms(3) by (auto simp: list_ex_iff)
    then show ?thesis
      using that(2,3)
      by (cases "validate_transition (Some (wi_phase other)) (wi_phase i)")
         (simp_all add: write_row_def protect_delegate_work_identity_def Let_def)
  qed
qed

definition sealed_row :: work_item where
  "sealed_row = (new_work_item ''w'')\<lparr>wi_metadata :=
     [(''created_by_delegate_work'', PBool True), (''delegate_invocation_id'', PStr ''inv''),
      (''delegate_invocation_index'', PInt 0), (''delegate_sequence_index'', PInt 4)]\<rparr>"

theorem delegate_identity_sealed_witness:
  "\<exists>new. get_item (write_all (put_item empty_store sealed_row) [new_work_item ''w'']) ''w'' = Some new \<and>
         same_delegate_identity sealed_row new"
proof -
  have g: "get_item (put_item empty_store sealed_row) ''w'' = Some sealed_row"
    by (simp add: sealed_row_def new_work_item_def)
  have d: "delegate_identity sealed_row"
    by (simp add: sealed_row_def delegate_identity_def DELEGATE_WORK_RESERVED_METADATA_KEYS_def)
  have k: "''delegate_sequence_index'' \<in> set DELEGATE_WORK_RESERVED_METADATA_KEYS"
    by (simp add: DELEGATE_WORK_RESERVED_METADATA_KEYS_def)
  show ?thesis using delegate_identity_sealed [OF g d k] by blast
qed

end
