(* ===== verification/Transition.thy ===== *)
theory Transition
  imports Store
begin

text \<open>
  \<open>opc/layer2_organization/work_item_transition.py\<close>, first part: \<open>transition_work_item\<close>, the
  entry point of every phase change, which settles the open attempt in the same write;
  the settlement of an attempt whose owner died; and the bridge from a runtime task to its
  work item (\<open>transition_work_item_from_task\<close>, \<open>apply_task_status_transition\<close>), which keeps
  late callbacks from moving a card against the phase table.

  The bridge calls two further methods of its \<open>store\<close> argument, the fenced transition of a
  controller-owned task and \<open>save_task\<close>; they are arguments of the definitions here.
\<close>

section \<open>transition_work_item\<close>

record transition_request =
  tr_reason :: string
  tr_summary :: "string option"
  tr_metadata :: pydict
  tr_release_claim :: bool
  tr_attempt_outcome :: "string option"
  tr_blocked_reason :: "string option"
  tr_handoff_status :: "string option"

definition request :: "string \<Rightarrow> transition_request" where
  "request reason =
     \<lparr>tr_reason = reason, tr_summary = None, tr_metadata = [], tr_release_claim = False,
      tr_attempt_outcome = None, tr_blocked_reason = None, tr_handoff_status = None\<rparr>"

definition transition_settlement :: "store \<Rightarrow> string \<Rightarrow> phase \<Rightarrow> string option \<Rightarrow> string \<Rightarrow> pydict" where
  \<comment> \<open>the ledger delta folded into the write; empty for RUNNING, a missing row, a closed attempt\<close>
  "transition_settlement st wid target outcome stamp =
     (if target = RUNNING then []
      else case get_item st wid of
             None \<Rightarrow> []
           | Some i \<Rightarrow>
               build_attempt_settlement_updates (wi_metadata i)
                 (case outcome of None \<Rightarrow> phase_value target
                  | Some s \<Rightarrow> if s = [] then phase_value target else s) stamp)"

definition transition_update :: "transition_request \<Rightarrow> phase \<Rightarrow> pydict \<Rightarrow> item_update" where
  "transition_update rq target settlement =
     (let reason = py_strip (tr_reason rq);
          own = (if reason \<noteq> [] then dset ''last_transition_reason'' (PStr reason) (tr_metadata rq)
                 else tr_metadata rq);
          merged = dupdate settlement own
      in no_update\<lparr>up_phase := Some target,
           up_summary := tr_summary rq,
           up_blocked_reason := tr_blocked_reason rq,
           up_handoff_status := tr_handoff_status rq,
           up_claimed_session := (if tr_release_claim rq then Some [] else None),
           up_claimed_seat := (if tr_release_claim rq then Some [] else None),
           up_metadata :=
             (if tr_release_claim rq
              then dsetdefault ''claimed_task_id'' (PStr [])
                     (dsetdefault ''claimed_by_role_session_id'' (PStr []) merged)
              else merged)\<rparr>)"

definition transition_work_item ::
  "store hook list \<Rightarrow> store \<Rightarrow> string \<Rightarrow> phase_arg \<Rightarrow> transition_request \<Rightarrow> int \<Rightarrow> string
     \<Rightarrow> work_item option result \<times> store" where
  "transition_work_item hooks st wid target rq now stamp =
     (case coerce_phase target of
        Inl e \<Rightarrow> (Inl e, st)
      | Inr p \<Rightarrow>
          let settlement = transition_settlement st wid p (tr_attempt_outcome rq) stamp
          in case update_delegation_work_item hooks st wid (transition_update rq p settlement) now of
               (Inl InvalidPhaseTransition, st') \<Rightarrow>
                 (Inl InvalidPhaseTransition,
                  if settlement \<noteq> []
                  then snd (update_delegation_work_item hooks st' wid (no_update\<lparr>up_metadata := settlement\<rparr>) now)
                  else st')
             | r \<Rightarrow> r)"

definition settle_open_attempt_as_interrupted ::
  "store hook list \<Rightarrow> store \<Rightarrow> work_item \<Rightarrow> int \<Rightarrow> string \<Rightarrow> bool \<times> work_item \<times> store" where
  "settle_open_attempt_as_interrupted hooks st item now stamp =
     (let settlement = build_attempt_settlement_updates (wi_metadata item) ''interrupted'' stamp
      in if settlement = [] then (False, item, st)
         else case update_delegation_work_item hooks st (wi_work_item_id item)
                     (no_update\<lparr>up_metadata := settlement\<rparr>) now of
                (Inl e, st') \<Rightarrow> (False, item, st')
              | (Inr None, st') \<Rightarrow> (True, item, st')
              | (Inr (Some j), st') \<Rightarrow> (True, item\<lparr>wi_metadata := wi_metadata j\<rparr>, st'))"

section \<open>The bridge from a task\<close>

datatype status_arg = StatusArg task_status | PhaseStatusArg phase | TextArg string | OtherArg

definition fallback_status_for :: "status_arg \<Rightarrow> task_status option" where
  "fallback_status_for target =
     (case target of
        StatusArg s \<Rightarrow> Some s
      | PhaseStatusArg p \<Rightarrow> Some (task_status_for_phase p)
      | TextArg t \<Rightarrow>
          (let raw = py_lower (py_strip t)
           in case phase_of_text raw of
                Inr p \<Rightarrow> Some (task_status_for_phase p)
              | Inl _ \<Rightarrow> (case task_status_of_text raw of Inr s \<Rightarrow> Some s | Inl _ \<Rightarrow> None))
      | OtherArg \<Rightarrow> None)"

definition resolve_target_phase :: "status_arg \<Rightarrow> task \<Rightarrow> phase result" where
  "resolve_target_phase target t =
     (let children = truthy (dget (tk_metadata t) ''delegation_pending_work_item_ids'')
      in case target of
           PhaseStatusArg p \<Rightarrow> Inr p
         | StatusArg s \<Rightarrow> Inr (phase_for_task_status s children)
         | TextArg text \<Rightarrow>
             (let raw = py_lower (py_strip text)
              in case phase_of_text raw of
                   Inr p \<Rightarrow> Inr p
                 | Inl _ \<Rightarrow>
                     (case task_status_of_text raw of
                        Inr s \<Rightarrow> Inr (phase_for_task_status s children)
                      | Inl _ \<Rightarrow> Inl ValueError))
         | OtherArg \<Rightarrow> Inl TypeError)"

definition status_arg_text :: "status_arg \<Rightarrow> string" where
  "status_arg_text target =
     (case target of
        StatusArg s \<Rightarrow> task_status_value s
      | PhaseStatusArg p \<Rightarrow> phase_value p
      | TextArg t \<Rightarrow> t
      | OtherArg \<Rightarrow> [])"

definition get_work_item_for_runtime_task :: "store \<Rightarrow> string \<Rightarrow> work_item option" where
  "get_work_item_for_runtime_task st task_id =
     (let tid = py_strip task_id
      in if tid = [] then None
         else case find (\<lambda>l. snd l = tid) (st_links st) of
                None \<Rightarrow> None
              | Some l \<Rightarrow> if fst l = [] then None else get_item st (fst l))"

definition task_work_item_id :: "store \<Rightarrow> task \<Rightarrow> string" where
  "task_work_item_id st t =
     (let wid = linked_work_item_id_for_task (Some t)
      in if wid \<noteq> [] then wid
         else case get_work_item_for_runtime_task st (tk_id t) of
                None \<Rightarrow> []
              | Some i \<Rightarrow> py_strip (wi_work_item_id i))"

type_synonym fenced_transition =
  "store \<Rightarrow> string \<Rightarrow> task \<Rightarrow> phase \<Rightarrow> transition_request \<Rightarrow> unit result \<times> task \<times> store"

definition transition_work_item_from_task ::
  "fenced_transition \<Rightarrow> store hook list \<Rightarrow> store \<Rightarrow> task \<Rightarrow> status_arg \<Rightarrow> transition_request \<Rightarrow> bool
     \<Rightarrow> int \<Rightarrow> string \<Rightarrow> bool result \<times> task \<times> store" where
  "transition_work_item_from_task fenced hooks st t target rq require_work_item now stamp =
     (let wid = task_work_item_id st t
      in if wid = [] then
           (Inr False,
            (case fallback_status_for target of
               Some s \<Rightarrow> if require_work_item then t else t\<lparr>tk_status := s\<rparr>
             | None \<Rightarrow> t),
            st)
         else case resolve_target_phase target t of
           Inl e \<Rightarrow> (Inl e, t, st)
         | Inr p \<Rightarrow>
             let persisted = map_option wi_phase (get_item st wid);
                 token = clean (dget (tk_metadata t) ''company_run_controller_owner_token'')
             in if token = [] \<and> persisted \<noteq> Some p \<and> persisted \<noteq> None \<and>
                   validate_transition persisted p \<noteq> Inr ()
                then (Inr True, t, st)
                else
                  let back_ref = dupdate [(''task_id'', PStr (tk_id t)),
                                          (''task_status'', PStr (status_arg_text target))]
                                   (tr_metadata rq);
                      rq' = rq\<lparr>tr_metadata := back_ref\<rparr>;
                      (outcome, t1, st') =
                        (if token \<noteq> [] then fenced st wid t p rq'
                         else case transition_work_item hooks st wid (PhaseArg p)
                                     (rq'\<lparr>tr_blocked_reason := None, tr_handoff_status := None\<rparr>) now stamp of
                                (Inl e, s) \<Rightarrow> (Inl e, t, s)
                              | (Inr _, s) \<Rightarrow> (Inr (), t, s))
                  in case outcome of
                       Inl InvalidPhaseTransition \<Rightarrow> (Inr True, t1, st')
                     | Inl e \<Rightarrow> (Inl e, t1, st')
                     | Inr _ \<Rightarrow> (Inr True, t1\<lparr>tk_status := task_status_for_phase p\<rparr>, st'))"

definition apply_task_status_transition ::
  "fenced_transition \<Rightarrow> (task \<Rightarrow> store \<Rightarrow> pyerr option \<times> store) \<Rightarrow> store hook list \<Rightarrow> store \<Rightarrow> task
     \<Rightarrow> status_arg \<Rightarrow> transition_request \<Rightarrow> bool \<Rightarrow> bool \<Rightarrow> int \<Rightarrow> string \<Rightarrow> bool result \<times> task \<times> store" where
  "apply_task_status_transition fenced save_task hooks st t target rq save_plain_task
     raise_on_missing_work_item now stamp =
     (let company_runtime =
            (linked_work_item_id_for_task (Some t) \<noteq> [] \<or> is_work_item_runtime_metadata (tk_metadata t))
      in case transition_work_item_from_task fenced hooks st t target (rq\<lparr>tr_attempt_outcome := None\<rparr>)
                   company_runtime now stamp of
           (Inl e, t', st') \<Rightarrow> (Inl e, t', st')
         | (Inr transitioned, t', st') \<Rightarrow>
             if company_runtime then
               (if \<not> transitioned \<and> raise_on_missing_work_item then Inl RuntimeError
                else Inr transitioned, t', st')
             else if save_plain_task then
               (case save_task t' st' of
                  (Some e, st2) \<Rightarrow> (Inl e, t', st2)
                | (None, st2) \<Rightarrow> (Inr transitioned, t', st2))
             else (Inr transitioned, t', st'))"

section \<open>Facts\<close>

text \<open>A predicate on the state that every hook keeps survives the whole chain.\<close>

definition hooks_keep :: "('s \<Rightarrow> bool) \<Rightarrow> 's hook list \<Rightarrow> bool" where
  "hooks_keep P hooks \<longleftrightarrow>
     (\<forall>h\<in>set hooks. \<forall>previous target i s. P s \<longrightarrow> P (snd (hk_run h previous target i s)))"

lemma hooks_keep_Nil [simp]: "hooks_keep P []"
  by (simp add: hooks_keep_def)

lemma on_phase_transition_keep:
  "hooks_keep P hooks \<Longrightarrow> P s \<Longrightarrow> P (on_phase_transition notif hooks previous target i s)"
proof (induction hooks arbitrary: s)
  case (Cons h hooks)
  have "P (snd (hk_run h previous target i s))"
    using Cons.prems by (auto simp: hooks_keep_def)
  moreover have "hooks_keep P hooks" using Cons.prems by (auto simp: hooks_keep_def)
  ultimately show ?case using Cons by (cases notif) simp_all
qed simp

lemma dhas_fold_dpop: "dhas (fold dpop ks d) k \<longleftrightarrow> dhas d k \<and> k \<notin> set ks"
  by (induction ks arbitrary: d) auto

text \<open>The claim of a row after an update: its columns and its metadata.\<close>

definition CLAIM_KEYS :: "string set" where
  "CLAIM_KEYS = {''claimed_by_role_session_id'', ''claimed_task_id''}"

definition claims_after :: "item_update \<Rightarrow> work_item \<Rightarrow> work_item \<Rightarrow> bool" where
  "claims_after u i j \<longleftrightarrow>
     (if up_phase u \<noteq> None \<and> wi_phase j \<in> RUNNABLE_PHASES
      then wi_claimed_by_role_runtime_session_id j = [] \<and> wi_claimed_by_seat_id j = [] \<and>
           (\<forall>k\<in>CLAIM_KEYS. dget (wi_metadata j) k = PStr [])
      else wi_claimed_by_role_runtime_session_id j =
             upd (map_option py_strip (up_claimed_session u)) (wi_claimed_by_role_runtime_session_id i) \<and>
           wi_claimed_by_seat_id j = upd (map_option py_strip (up_claimed_seat u)) (wi_claimed_by_seat_id i) \<and>
           (\<forall>k\<in>CLAIM_KEYS. dget (wi_metadata j) k =
              dget (dupdate (fold dpop (up_unset u) (wi_metadata i)) (up_metadata u)) k))"

lemma claim_keys_plain:
  "k \<in> CLAIM_KEYS \<Longrightarrow> k \<noteq> ''work_item_projection_id'' \<and> k \<noteq> ''work_item_turn_type'' \<and>
     k \<notin> set DELEGATE_WORK_RESERVED_METADATA_KEYS"
  by (auto simp: CLAIM_KEYS_def DELEGATE_WORK_RESERVED_METADATA_KEYS_def)

lemma claims_after_same:
  "claims_after u i a \<Longrightarrow> wi_phase j = wi_phase a \<Longrightarrow>
   wi_claimed_by_role_runtime_session_id j = wi_claimed_by_role_runtime_session_id a \<Longrightarrow>
   wi_claimed_by_seat_id j = wi_claimed_by_seat_id a \<Longrightarrow>
   (\<And>k. k \<in> CLAIM_KEYS \<Longrightarrow> dget (wi_metadata j) k = dget (wi_metadata a) k) \<Longrightarrow> claims_after u i j"
  by (simp add: claims_after_def split: if_splits)

lemma apply_item_update_claims: "apply_item_update u now i = Inr j \<Longrightarrow> claims_after u i j"
  by (auto simp: apply_item_update_def bind_result_Inr_iff Let_def release_ownership_def claims_after_def
      CLAIM_KEYS_def split: if_splits)

lemma apply_item_update_fields:
  assumes "apply_item_update u now i = Inr j"
  shows "wi_work_item_id j = wi_work_item_id i \<and> wi_phase j = upd (up_phase u) (wi_phase i) \<and>
         wi_run_id j = wi_run_id i \<and>
         validate_transition (Some (wi_phase i)) (wi_phase j) = Inr () \<and>
         (k \<notin> {''claimed_by_role_session_id'', ''claimed_task_id''} \<longrightarrow>
            dhas (wi_metadata j) k = (dhas (wi_metadata i) k \<and> k \<notin> set (up_unset u) \<or> dhas (up_metadata u) k) \<and>
            dget (wi_metadata j) k = dget (dupdate (fold dpop (up_unset u) (wi_metadata i)) (up_metadata u)) k)"
  using assms
  by (auto simp: apply_item_update_def bind_result_Inr_iff Let_def release_ownership_def validate_transition_Some
      dhas_fold_dpop split: option.splits if_splits)

text \<open>An update that succeeds: the row as written, before the hooks run.\<close>

lemma update_cases:
  assumes "update_delegation_work_item hooks st wid u now = (r, st')"
  obtains (missing) "get_item st wid = None" "r = Inr None" "st' = st"
  | (failed) e where "r = Inl e" "st' = st"
  | (written) i j where "get_item st wid = Some i" "wi_work_item_id j = wid"
      "wi_phase j = upd (up_phase u) (wi_phase i)"
      "validate_transition (Some (wi_phase i)) (wi_phase j) = Inr ()"
      "st' = on_phase_transition False hooks (Some (wi_phase i)) (wi_phase j) j (put_item st j)"
      "r = Inr (Some j)" "claims_after u i j"
      "\<And>k. k \<notin> {''claimed_by_role_session_id'', ''claimed_task_id'',
                 ''work_item_projection_id'', ''work_item_turn_type''} \<Longrightarrow>
            k \<notin> set DELEGATE_WORK_RESERVED_METADATA_KEYS \<Longrightarrow>
            dhas (wi_metadata j) k = (dhas (wi_metadata i) k \<and> k \<notin> set (up_unset u) \<or> dhas (up_metadata u) k) \<and>
            dget (wi_metadata j) k = dget (dupdate (fold dpop (up_unset u) (wi_metadata i)) (up_metadata u)) k"
proof (cases "get_item st wid")
  case None
  with assms show ?thesis by (intro missing) (auto simp: update_delegation_work_item_def)
next
  case (Some i)
  show ?thesis
  proof (cases "apply_item_update u now i")
    case (Inl e)
    with assms Some show ?thesis by (intro failed) (auto simp: update_delegation_work_item_def)
  next
    case (Inr a)
    note a = apply_item_update_fields [OF Inr]
    have wid: "wi_work_item_id a = wid" using a get_item_id [OF Some] by simp
    show ?thesis
    proof (cases "write_row st a False")
      case (Inl e)
      with assms Some Inr show ?thesis
        by (intro failed [of e])
           (simp_all add: update_delegation_work_item_def save_delegation_work_item_def)
    next
      case w: (Inr x)
      show ?thesis
      proof (cases x)
        case None
        with w have "False" by (auto simp: write_row_def Let_def bind_result_Inr_iff)
        then show ?thesis ..
      next
        case (Some y)
        obtain s1 previous j where y: "y = (s1, previous, j)" by (cases y)
        note c = write_row_cases [OF w [unfolded Some y]]
        have prev: "previous = Some (wi_phase i)"
          using c wid \<open>get_item st wid = Some i\<close> by simp
        have eq: "update_delegation_work_item hooks st wid u now =
            (Inr (Some j), on_phase_transition False hooks previous (wi_phase j) j s1)"
          using Inr \<open>get_item st wid = Some i\<close> w Some y
          by (simp add: update_delegation_work_item_def save_delegation_work_item_def)
        have p: "protect_delegate_work_identity (with_projection_identity a) (Some i) = Inr j"
          using c wid \<open>get_item st wid = Some i\<close> by simp
        have keep: "dget (wi_metadata j) k = dget (wi_metadata a) k" if "k \<in> CLAIM_KEYS" for k
          using claim_keys_plain [OF that] by (simp add: protect_get [OF p] with_projection_identity_get)
        have claims: "claims_after u i j"
          by (rule claims_after_same [OF apply_item_update_claims [OF Inr] _ _ _ keep]) (use c in simp_all)
        show ?thesis
          by (rule written [OF \<open>get_item st wid = Some i\<close>, of j])
             (use assms eq c prev wid a apply_item_update_fields [OF Inr] claims in
               \<open>auto simp: protect_get [OF p] with_projection_identity_get protect_has [OF p]
                  with_projection_identity_has\<close>)
      qed
    qed
  qed
qed

lemma update_never_moves_illegally:
  "update_delegation_work_item hooks st wid u now = (Inl e, st') \<Longrightarrow> st' = st"
  by (erule update_cases) auto

lemma transition_update_fields [simp]:
  "up_phase (transition_update rq p s) = Some p" "up_unset (transition_update rq p s) = []"
  by (simp_all add: transition_update_def no_update_def Let_def)

lemma no_update_fields [simp]:
  "up_phase no_update = None" "up_unset no_update = []" "up_metadata no_update = []"
  by (simp_all add: no_update_def)

lemma dget_dsetdefault_other: "k' \<noteq> k \<Longrightarrow> dget (dsetdefault k v d) k' = dget d k'"
  by (simp add: dsetdefault_def)

lemma dhas_dsetdefault [simp]: "dhas (dsetdefault k v d) k' \<longleftrightarrow> k' = k \<or> dhas d k'"
  by (auto simp: dsetdefault_def)

lemma dget_dupdate:
  "distinct (map fst u) \<Longrightarrow> dget (dupdate d u) k = (if dhas u k then dget u k else dget d k)"
proof (induction u arbitrary: d)
  case (Cons kv u)
  obtain x v where kv: "kv = (x, v)" by (cases kv)
  have "\<not> dhas u x" using Cons.prems kv by (simp add: dhas_iff)
  then show ?case using Cons kv by auto
qed simp

lemma distinct_dupdate: "distinct (map fst d) \<Longrightarrow> distinct (map fst (dupdate d u))"
  by (induction u arbitrary: d) (auto simp: distinct_dset)

lemma distinct_dsetdefault: "distinct (map fst d) \<Longrightarrow> distinct (map fst (dsetdefault k v d))"
  by (simp add: dsetdefault_def distinct_dset)

lemma distinct_settlement: "distinct (map fst (build_attempt_settlement_updates md outcome stamp))"
  by (simp add: build_attempt_settlement_updates_def Let_def)

lemma settlement_settled:
  "has_open_attempt md \<Longrightarrow>
     dget (build_attempt_settlement_updates md outcome stamp) ''attempt_settled'' = PBool True \<and>
     dhas (build_attempt_settlement_updates md outcome stamp) ''attempt_settled'' \<and>
     \<not> dhas (build_attempt_settlement_updates md outcome stamp) ''attempt_seq''"
  by (simp add: build_attempt_settlement_updates_def Let_def)

lemma settlement_empty: "build_attempt_settlement_updates md outcome stamp = [] \<longleftrightarrow> \<not> has_open_attempt md"
  by (simp add: build_attempt_settlement_updates_def Let_def)

lemma has_open_attempt_cong:
  assumes "\<And>k. k \<in> {''attempt_settled'', ''attempt_seq''} \<Longrightarrow> dhas a k = dhas b k \<and> dget a k = dget b k"
  shows "has_open_attempt a = has_open_attempt b"
proof -
  have "dget_or a ''attempt_settled'' v = (if dhas a ''attempt_settled'' then dget a ''attempt_settled'' else v)"
    for a v by (simp add: dget_or_def dget_def dhas_def split: option.split)
  then show ?thesis
    using assms [of "''attempt_settled''"] assms [of "''attempt_seq''"]
    by (simp add: has_open_attempt_def attempt_ledger_int_def)
qed

text \<open>The attempt of a row after its metadata was updated with a settlement and other keys.\<close>

lemma closed_by_settlement:
  assumes "\<And>k. k \<in> {''attempt_settled'', ''attempt_seq''} \<Longrightarrow>
       dhas new k = (dhas md k \<or> dhas u k) \<and> dget new k = dget (dupdate md u) k"
    and "distinct (map fst u)"
    and "\<And>k. k \<in> {''attempt_settled'', ''attempt_seq''} \<Longrightarrow>
       dhas u k = dhas s k \<and> (dhas u k \<longrightarrow> dget u k = dget s k)"
    and "s = build_attempt_settlement_updates md outcome stamp"
  shows "\<not> has_open_attempt new"
proof (cases "has_open_attempt md")
  case True
  then have "dget new ''attempt_settled'' = PBool True"
    using assms settlement_settled [OF True, of outcome stamp] by (simp add: dget_dupdate)
  moreover have "dhas new ''attempt_settled''"
    using assms settlement_settled [OF True, of outcome stamp] by simp
  ultimately show ?thesis
    by (auto simp: has_open_attempt_def dget_or_def dget_def dhas_def)
next
  case False
  then have "s = []" using assms(4) by (simp add: settlement_empty)
  then have "dhas new k = dhas md k \<and> dget new k = dget md k"
    if "k \<in> {''attempt_settled'', ''attempt_seq''}" for k
    using assms(1) [OF that] assms(2) assms(3) [OF that] by (auto simp: dget_dupdate)
  then have "has_open_attempt new = has_open_attempt md" by (rule has_open_attempt_cong)
  with False show ?thesis by simp
qed

lemma transition_update_metadata:
  assumes "distinct (map fst s)" "k \<notin> {''claimed_by_role_session_id'', ''claimed_task_id'', ''last_transition_reason''}"
    and "\<not> dhas (tr_metadata rq) k"
  shows "dhas (up_metadata (transition_update rq p s)) k = dhas s k \<and>
         dget (up_metadata (transition_update rq p s)) k = dget s k"
  using assms
  by (simp add: transition_update_def Let_def dget_dsetdefault_other dget_dupdate_other dhas_iff [symmetric])

lemma distinct_transition_update:
  "distinct (map fst s) \<Longrightarrow> distinct (map fst (up_metadata (transition_update rq p s)))"
  by (simp add: transition_update_def Let_def distinct_dsetdefault distinct_dupdate)

text \<open>A legal write whose metadata keys are not reserved is never refused on a sound row.\<close>

lemma update_succeeds:
  assumes "get_item st wid = Some i" "reserved_sound (wi_metadata i)"
    and "fst ` set (up_metadata u) \<inter> set DELEGATE_WORK_RESERVED_METADATA_KEYS = {}" "up_unset u = []"
    and "validate_transition (Some (wi_phase i)) (upd (up_phase u) (wi_phase i)) = Inr ()"
  shows "\<exists>j st'. update_delegation_work_item hooks st wid u now = (Inr (Some j), st')"
proof -
  obtain a where a: "apply_item_update u now i = Inr a"
    using assms(5) by (cases "up_phase u") (auto simp: apply_item_update_def Let_def)
  note f = apply_item_update_fields [OF a]
  have keys: "dhas (wi_metadata (with_projection_identity a)) k = dhas (wi_metadata i) k \<and>
       dget (wi_metadata (with_projection_identity a)) k = dget (wi_metadata i) k"
    if "k \<in> set DELEGATE_WORK_RESERVED_METADATA_KEYS" for k
  proof -
    have k: "k \<notin> {''claimed_by_role_session_id'', ''claimed_task_id''}"
      "k \<noteq> ''work_item_projection_id''" "k \<noteq> ''work_item_turn_type''"
      using that by (auto simp: DELEGATE_WORK_RESERVED_METADATA_KEYS_def)
    moreover have "k \<notin> fst ` set (up_metadata u)" using assms(3) that by blast
    ultimately show ?thesis
      using apply_item_update_fields [OF a, of k] assms(4)
      by (simp add: with_projection_identity_get with_projection_identity_has dget_dupdate_other
          dhas_iff [of "up_metadata u"])
  qed
  have "sequence_scope a = sequence_scope i"
    using a by (auto simp: apply_item_update_def bind_result_Inr_iff Let_def sequence_scope_def
        release_ownership_def split: if_splits)
  then have "sequence_scope (with_projection_identity a) = sequence_scope i"
    by (simp add: sequence_scope_def with_projection_identity_def)
  then obtain j where j: "protect_delegate_work_identity (with_projection_identity a) (Some i) = Inr j"
    using protect_succeeds [OF assms(2)] keys by blast
  have "write_row st a False = Inr (Some (put_item st j, Some (wi_phase i), j))"
    using assms(1,5) get_item_id [OF assms(1)] j f
    by (simp add: write_row_def Let_def)
  then show ?thesis
    using assms(1) a by (simp add: update_delegation_work_item_def save_delegation_work_item_def)
qed

lemma metadata_write_succeeds:
  assumes "get_item st wid = Some i" "reserved_sound (wi_metadata i)"
    and "fst ` set u \<inter> set DELEGATE_WORK_RESERVED_METADATA_KEYS = {}"
  shows "\<exists>j st'. update_delegation_work_item hooks st wid (no_update\<lparr>up_metadata := u\<rparr>) now = (Inr (Some j), st')"
  using assms by (intro update_succeeds) (simp_all add: validate_transition_def)

definition attempt_closed :: "string \<Rightarrow> store \<Rightarrow> bool" where
  "attempt_closed wid st \<longleftrightarrow>
     (\<exists>i. get_item st wid = Some i \<and> \<not> has_open_attempt (wi_metadata i))"

lemma settlement_write_closes:
  assumes "get_item st wid = Some i" "reserved_sound (wi_metadata i)"
    and "s = build_attempt_settlement_updates (wi_metadata i) outcome stamp"
    and "hooks_keep (attempt_closed wid) hooks"
  shows "\<exists>j st'. update_delegation_work_item hooks st wid (no_update\<lparr>up_metadata := s\<rparr>) now = (Inr (Some j), st') \<and>
                 \<not> has_open_attempt (wi_metadata j) \<and> wi_phase j = wi_phase i \<and> attempt_closed wid st'"
proof -
  have "fst ` set s \<inter> set DELEGATE_WORK_RESERVED_METADATA_KEYS = {}"
    using settlement_keys [of "wi_metadata i" outcome stamp] assms(3)
    by (auto simp: DELEGATE_WORK_RESERVED_METADATA_KEYS_def)
  from metadata_write_succeeds [OF assms(1,2) this, of hooks now] obtain j st' where
    eq: "update_delegation_work_item hooks st wid (no_update\<lparr>up_metadata := s\<rparr>) now = (Inr (Some j), st')"
    by blast
  then show ?thesis
  proof (cases rule: update_cases)
    case (written i' j')
    then have i': "i' = i" and j': "j' = j" using assms(1) by simp_all
    have "\<not> has_open_attempt (wi_metadata j)"
    proof (rule closed_by_settlement [where s = s and u = s])
      show "dhas (wi_metadata j) k = (dhas (wi_metadata i) k \<or> dhas s k) \<and>
            dget (wi_metadata j) k = dget (dupdate (wi_metadata i) s) k"
        if "k \<in> {''attempt_settled'', ''attempt_seq''}" for k
        using written(8) [of k] that i' j' by (auto simp: DELEGATE_WORK_RESERVED_METADATA_KEYS_def)
    qed (simp_all add: assms(3) distinct_settlement)
    moreover have "attempt_closed wid (put_item st j)"
      using calculation written(2) j' by (simp add: attempt_closed_def)
    then have "attempt_closed wid st'"
      unfolding written(5) j' by (rule on_phase_transition_keep [OF assms(4)])
    ultimately show ?thesis
      using eq written(3) i' j' by simp
  qed auto
qed

lemma update_validated:
  assumes "get_item st wid = Some i" "up_phase u = Some p" "validate_transition (Some (wi_phase i)) p = Inr ()"
  shows "fst (update_delegation_work_item hooks st wid u now) \<noteq> Inl InvalidPhaseTransition"
proof -
  obtain a where a: "apply_item_update u now i = Inr a"
    using assms by (simp add: apply_item_update_def Let_def)
  note f = apply_item_update_fields [OF a]
  have "validate_transition (map_option wi_phase (get_item st (wi_work_item_id a))) (wi_phase a) = Inr ()"
    using f assms get_item_id [OF assms(1)] by simp
  then show ?thesis
    using assms(1) a
    by (auto simp: update_delegation_work_item_def save_delegation_work_item_def write_row_def Let_def
        protect_delegate_work_identity_def bind_result_def split: sum.splits option.splits if_splits)
qed

lemma transition_work_item_validated:
  assumes "get_item st wid = Some i" "validate_transition (Some (wi_phase i)) p = Inr ()"
  shows "fst (transition_work_item hooks st wid (PhaseArg p) rq now stamp) \<noteq> Inl InvalidPhaseTransition"
  using update_validated [OF assms(1) _ assms(2), of "transition_update rq p (transition_settlement st wid p (tr_attempt_outcome rq) stamp)" hooks now]
  by (auto simp: transition_work_item_def Let_def split: prod.split sum.split pyerr.split)

text \<open>A refused edge: the ledger entry, when one is due, lands in a write of its own.\<close>

lemma refused_edge_settles:
  assumes "get_item st wid = Some i" "reserved_sound (wi_metadata i)"
    and "s = build_attempt_settlement_updates (wi_metadata i) outcome stamp"
    and "hooks_keep (attempt_closed wid) hooks"
  shows "attempt_closed wid (if s \<noteq> []
           then snd (update_delegation_work_item hooks st wid (no_update\<lparr>up_metadata := s\<rparr>) now) else st)"
proof (cases "s = []")
  case True
  then show ?thesis using assms(1,3) by (auto simp: attempt_closed_def settlement_empty)
next
  case False
  then show ?thesis using settlement_write_closes [OF assms(1,2,3,4), of now] by auto
qed

text \<open>A write that goes through carries the ledger entry with it.\<close>

lemma settling_write:
  assumes "get_item st wid = Some i"
    and s: "s = build_attempt_settlement_updates (wi_metadata i) outcome stamp"
    and "update_delegation_work_item hooks st wid (transition_update rq p s) now = (Inr (Some j), st')"
    and "hooks_keep (attempt_closed wid) hooks"
    and "\<not> dhas (tr_metadata rq) ''attempt_settled''" "\<not> dhas (tr_metadata rq) ''attempt_seq''"
  shows "wi_phase j = p \<and> \<not> has_open_attempt (wi_metadata j) \<and> attempt_closed wid st'"
  using assms(3)
proof (cases rule: update_cases)
  case (written i' j')
  then have i': "i' = i" "j' = j" using assms(1) by simp_all
  let ?u = "transition_update rq p s"
  have closed: "\<not> has_open_attempt (wi_metadata j)"
  proof (rule closed_by_settlement [where s = s and u = "up_metadata ?u"])
    show "dhas (wi_metadata j) k = (dhas (wi_metadata i) k \<or> dhas (up_metadata ?u) k) \<and>
          dget (wi_metadata j) k = dget (dupdate (wi_metadata i) (up_metadata ?u)) k"
      if "k \<in> {''attempt_settled'', ''attempt_seq''}" for k
      using written(8) [of k] that i' by (auto simp: DELEGATE_WORK_RESERVED_METADATA_KEYS_def)
    show "dhas (up_metadata ?u) k = dhas s k \<and> (dhas (up_metadata ?u) k \<longrightarrow> dget (up_metadata ?u) k = dget s k)"
      if "k \<in> {''attempt_settled'', ''attempt_seq''}" for k
      using transition_update_metadata [of s k rq p] that assms(5,6) s distinct_settlement by auto
  qed (simp_all add: s distinct_settlement distinct_transition_update)
  then have "attempt_closed wid (put_item st j)"
    using written(2) i' by (simp add: attempt_closed_def)
  then have "attempt_closed wid st'"
    unfolding written(5) i' by (rule on_phase_transition_keep [OF assms(4)])
  with closed written(3) i' show ?thesis by simp
qed simp_all

section \<open>Properties\<close>

text \<open>
  C39. An attempt never ends without its ledger entry.  A transition of an existing card to any
  phase but RUNNING leaves no open attempt: if the write succeeds, the entry is part of that
  write; if the phase edge is refused, the entry still lands in a second write; any other
  error leaves the state untouched.  The hooks may do anything that does not open an attempt
  of this card, and the caller's own metadata may be anything without the two ledger keys.
\<close>

theorem attempt_settles_with_phase:
  assumes "get_item st wid = Some i" "reserved_sound (wi_metadata i)" "p \<noteq> RUNNING"
    and "transition_work_item hooks st wid (PhaseArg p) rq now stamp = (r, st')"
    and "hooks_keep (attempt_closed wid) hooks"
    and "\<not> dhas (tr_metadata rq) ''attempt_settled''" "\<not> dhas (tr_metadata rq) ''attempt_seq''"
  shows "case r of
           Inr None \<Rightarrow> False
         | Inr (Some j) \<Rightarrow> wi_phase j = p \<and> \<not> has_open_attempt (wi_metadata j) \<and> attempt_closed wid st'
         | Inl InvalidPhaseTransition \<Rightarrow>
             p \<noteq> wi_phase i \<and> p \<notin> allowed_transitions (wi_phase i) \<and> attempt_closed wid st'
         | Inl e \<Rightarrow> st' = st"
proof -
  let ?s = "transition_settlement st wid p (tr_attempt_outcome rq) stamp"
  let ?u = "transition_update rq p ?s"
  obtain outcome where s: "?s = build_attempt_settlement_updates (wi_metadata i) outcome stamp"
    using assms(1,3) by (simp add: transition_settlement_def)
  obtain r1 s1 where u: "update_delegation_work_item hooks st wid ?u now = (r1, s1)" by fastforce
  then show ?thesis
  proof (cases rule: update_cases)
    case missing
    with assms(1) show ?thesis by simp
  next
    case (failed e)
    have "e = InvalidPhaseTransition \<Longrightarrow> \<not> validate_transition (Some (wi_phase i)) p = Inr ()"
      using update_validated [OF assms(1), of ?u p hooks now] u failed by auto
    with u failed assms(4) refused_edge_settles [OF assms(1,2) s assms(5), of now] show ?thesis
      by (cases e) (auto simp: transition_work_item_def validate_transition_Some Let_def)
  next
    case (written i' j)
    then have "r = Inr (Some j) \<and> st' = s1"
      using u assms(4) by (auto simp: transition_work_item_def Let_def)
    then show ?thesis
      using settling_write [OF assms(1) s _ assms(5-7)] u written by simp
  qed
qed

definition crashed_store :: store where
  "crashed_store = put_item empty_store
     ((new_work_item ''w'')\<lparr>wi_phase := APPROVED,
        wi_metadata := [(''attempt_seq'', PInt 2), (''attempt_settled'', PBool False)]\<rparr>)"

text \<open>A late crash report for an approved card: the edge is refused, the ledger entry lands.\<close>

theorem attempt_settles_with_phase_witness:
  "\<not> attempt_closed ''w'' crashed_store \<and>
   fst (transition_work_item [] crashed_store ''w'' (PhaseArg FAILED) (request ''crash'') 0 ''t'')
     = Inl InvalidPhaseTransition \<and>
   attempt_closed ''w'' (snd (transition_work_item [] crashed_store ''w'' (PhaseArg FAILED) (request ''crash'') 0 ''t''))"
proof -
  let ?i = "(new_work_item ''w'')\<lparr>wi_phase := APPROVED,
        wi_metadata := [(''attempt_seq'', PInt 2), (''attempt_settled'', PBool False)]\<rparr>"
  have g: "get_item crashed_store ''w'' = Some ?i" by (simp add: crashed_store_def new_work_item_def)
  have rs: "reserved_sound (wi_metadata ?i)"
    by (simp add: reserved_sound_def DELEGATE_WORK_RESERVED_METADATA_KEYS_def)
  have err: "fst (transition_work_item [] crashed_store ''w'' (PhaseArg FAILED) (request ''crash'') 0 ''t'')
     = Inl InvalidPhaseTransition"
    by (simp add: transition_work_item_def update_delegation_work_item_def g apply_item_update_def
        validate_transition_def Let_def)
  have op: "\<not> attempt_closed ''w'' crashed_store"
    by (simp add: attempt_closed_def g has_open_attempt_def attempt_ledger_int_def py_or_def)
  obtain r st' where t: "transition_work_item [] crashed_store ''w'' (PhaseArg FAILED) (request ''crash'') 0 ''t'' = (r, st')"
    by fastforce
  from attempt_settles_with_phase [OF g rs _ t] err t op show ?thesis
    by (simp add: request_def)
qed

text \<open>The bridge on a task with a card, for one target phase.\<close>

lemma bridge_on_card:
  assumes "transition_work_item_from_task fenced hooks st t target rq req now stamp = (r, t', st')"
    and "clean (dget (tk_metadata t) ''company_run_controller_owner_token'') = []"
    and "task_work_item_id st t \<noteq> []" "resolve_target_phase target t = Inr p"
    and "get_item st (task_work_item_id st t) = Some i"
  shows "r \<noteq> Inl InvalidPhaseTransition \<and>
         (if p \<noteq> wi_phase i \<and> p \<notin> allowed_transitions (wi_phase i)
          then r = Inr True \<and> t' = t \<and> st' = st
          else r = Inr True \<longrightarrow> t' = t\<lparr>tk_status := task_status_for_phase p\<rparr>)"
proof (cases "validate_transition (Some (wi_phase i)) p = Inr ()")
  case True
  let ?rq = "rq\<lparr>tr_metadata := dupdate [(''task_id'', PStr (tk_id t)), (''task_status'', PStr (status_arg_text target))]
               (tr_metadata rq), tr_blocked_reason := None, tr_handoff_status := None\<rparr>"
  obtain o1 s1 where tw: "transition_work_item hooks st (task_work_item_id st t) (PhaseArg p) ?rq now stamp = (o1, s1)"
    by fastforce
  have "o1 \<noteq> Inl InvalidPhaseTransition"
    using transition_work_item_validated [OF assms(5) True, of hooks ?rq now stamp] tw by auto
  with True assms tw show ?thesis
    by (cases o1; cases "projl o1")
       (auto simp: transition_work_item_from_task_def Let_def validate_transition_Some split: if_splits)
next
  case False
  then have "p \<noteq> wi_phase i" "p \<notin> allowed_transitions (wi_phase i)"
    by (simp_all add: validate_transition_Some)
  with False assms show ?thesis
    by (auto simp: transition_work_item_from_task_def Let_def)
qed

text \<open>The bridge raises no transition error where there is no card either.\<close>

lemma bridge_without_card:
  assumes "transition_work_item_from_task fenced hooks st t target rq req now stamp = (r, t', st')"
    and "clean (dget (tk_metadata t) ''company_run_controller_owner_token'') = []"
    and "task_work_item_id st t = [] \<or> (\<exists>e. resolve_target_phase target t = Inl e) \<or>
         get_item st (task_work_item_id st t) = None"
  shows "r \<noteq> Inl InvalidPhaseTransition"
proof (cases "task_work_item_id st t = [] \<or> (\<exists>e. resolve_target_phase target t = Inl e)")
  case True
  moreover have "resolve_target_phase target t \<noteq> Inl InvalidPhaseTransition"
    by (auto simp: resolve_target_phase_def Let_def split: status_arg.splits sum.splits)
  ultimately show ?thesis
    using assms(1,2) by (auto simp: transition_work_item_from_task_def Let_def split: option.splits if_splits)
next
  case False
  then obtain p where "resolve_target_phase target t = Inr p" by (cases "resolve_target_phase target t") auto
  with False assms show ?thesis
    by (auto simp: transition_work_item_from_task_def transition_work_item_def update_delegation_work_item_def Let_def)
qed


definition refusing_fence :: fenced_transition where
  "refusing_fence st wid t p rq = (Inl LeaseLost, t, st)"


text \<open>
  A company task never falls back to a local status.  For a task of the company runtime
  that has no work item, \<open>apply_task_status_transition\<close> writes nothing: it raises a runtime
  error when asked to and reports failure otherwise.  For a plain task the status is set
  locally and handed to \<open>save_task\<close>, and no work item is touched.
\<close>

theorem company_task_never_falls_back:
  assumes "task_work_item_id st t = []" "fallback_status_for target = Some s"
  shows "apply_task_status_transition fenced save_task hooks st t target rq True raising now stamp =
    (if is_work_item_runtime_metadata (tk_metadata t)
     then (if raising then Inl RuntimeError else Inr False, t, st)
     else case save_task (t\<lparr>tk_status := s\<rparr>) st of
            (Some e, st') \<Rightarrow> (Inl e, t\<lparr>tk_status := s\<rparr>, st')
          | (None, st') \<Rightarrow> (Inr False, t\<lparr>tk_status := s\<rparr>, st'))"
proof -
  have "linked_work_item_id_for_task (Some t) = []"
    using assms(1) by (simp add: task_work_item_id_def Let_def split: if_splits)
  then show ?thesis
    using assms by (simp add: apply_task_status_transition_def transition_work_item_from_task_def)
qed

theorem company_task_never_falls_back_witness:
  "apply_task_status_transition refusing_fence (\<lambda>t st. (None, st\<lparr>st_tasks := [t]\<rparr>)) [] empty_store
     ((new_task ''t'')\<lparr>tk_metadata := [(''work_item_runtime'', PBool True)]\<rparr>)
     (TextArg '' Done '') (request ''r'') True True 0 ''now''
   = (Inl RuntimeError, (new_task ''t'')\<lparr>tk_metadata := [(''work_item_runtime'', PBool True)]\<rparr>, empty_store)"
proof -
  let ?t = "(new_task ''t'')\<lparr>tk_metadata := [(''work_item_runtime'', PBool True)]\<rparr>"
  have w: "task_work_item_id empty_store ?t = []"
    by (simp add: task_work_item_id_def linked_work_item_id_for_task_def new_task_def
        get_work_item_for_runtime_task_def empty_store_def str_simps)
  have f: "fallback_status_for (TextArg '' Done '') = Some TS_DONE"
    by code_simp
  from company_task_never_falls_back [OF w f, of refusing_fence "\<lambda>t st. (None, st\<lparr>st_tasks := [t]\<rparr>)" "[]" "request ''r''" True 0 "''now''"]
  show ?thesis by (simp add: is_work_item_runtime_metadata_def)
qed

end
