(* ===== verification/ToolLedger.thy ===== *)
theory ToolLedger
  imports Transition
begin

text \<open>
  The exact tool-call ledger of a task (\<open>opc/database/store.py\<close>): the permits an owner decision
  creates and the marker that a persisted tool result still has to be continued.  The ledger is
  kept twice, in \<open>context_snapshot.runtime_resume\<close> and in \<open>metadata.runtime_v2\<close>; reading it
  fails when the two disagree, and saving a task merges the persisted ledger into the row, so that
  a stale copy of the task can neither delete nor revive a permit.

  A permit map is the dictionary from fingerprints to permits, each a \<open>PDict\<close>.  The JSON text of
  a column and the value it encodes are identified.
\<close>

section \<open>Reading the ledger\<close>

definition TASK_RUNTIME_TOOL_LEDGER_KEYS :: "string list" where
  "TASK_RUNTIME_TOOL_LEDGER_KEYS = [''approved_tool_call'', ''approved_tool_calls'', ''continue_after_tool_result'']"

definition permit_of :: "pyval \<Rightarrow> pydict" where
  "permit_of v = (case v of PDict d \<Rightarrow> d | _ \<Rightarrow> [])"

fun plural_from :: "pydict \<Rightarrow> pydict \<Rightarrow> pydict result" where
  "plural_from normalized [] = Inr normalized"
| "plural_from normalized ((raw_fingerprint, raw_permit) # rest) =
     (let fingerprint = py_strip raw_fingerprint
      in case raw_permit of
           PDict permit \<Rightarrow>
             (let embedded = clean (dget permit ''fingerprint'')
              in if fingerprint = [] \<or> (embedded \<noteq> [] \<and> embedded \<noteq> fingerprint) then Inl RuntimeError
                 else plural_from
                        (dset fingerprint (PDict (dset ''fingerprint'' (PStr fingerprint) permit)) normalized)
                        rest)
         | _ \<Rightarrow> Inl RuntimeError)"

definition plural :: "pydict \<Rightarrow> pydict result" where
  "plural container =
     (case dget container ''approved_tool_calls'' of
        PNone \<Rightarrow> Inr []
      | PDict d \<Rightarrow> plural_from [] d
      | _ \<Rightarrow> Inl RuntimeError)"

definition singular :: "pydict \<Rightarrow> pydict list result" where
  \<comment> \<open>the legacy single permit of a container: none or one\<close>
  "singular container =
     (case dget container ''approved_tool_call'' of
        PNone \<Rightarrow> Inr []
      | PDict [] \<Rightarrow> Inr []
      | PDict d \<Rightarrow>
          (let fingerprint = clean (dget d ''fingerprint'')
           in if fingerprint = [] then Inl RuntimeError
              else Inr [dset ''fingerprint'' (PStr fingerprint) d])
      | _ \<Rightarrow> Inl RuntimeError)"

definition merge_singular :: "pydict \<Rightarrow> pydict list \<Rightarrow> pydict result" where
  "merge_singular permits singles =
     (case singles of
        [] \<Rightarrow> Inr permits
      | s # rest \<Rightarrow>
          (let fingerprint = (case dget s ''fingerprint'' of PStr f \<Rightarrow> f | v \<Rightarrow> py_str v)
           in if rest \<noteq> [] \<and> \<not> py_eq (PDict s) (PDict (hd rest)) then Inl RuntimeError
              else if permits = [] then Inr (dset fingerprint (PDict s) permits)
              else if \<not> dhas permits fingerprint \<or> \<not> py_eq (dget permits fingerprint) (PDict s)
              then Inl RuntimeError
              else Inr permits))"

definition runtime_ids :: "pydict list \<Rightarrow> string list" where
  \<comment> \<open>the set of the non-empty runtime ids, as a list without repetition\<close>
  "runtime_ids containers =
     dedup (filter (\<lambda>s. s \<noteq> []) (map (\<lambda>c. clean (dget c ''runtime_session_id'')) containers))"

record ledger =
  lg_resume :: pydict
  lg_runtime :: pydict
  lg_permits :: pydict
  lg_continuation :: bool
  lg_runtime_id :: string

definition ledger_active :: "ledger \<Rightarrow> bool" where
  "ledger_active l \<longleftrightarrow> lg_permits l \<noteq> [] \<or> lg_continuation l"

definition merged_permits :: "pydict \<Rightarrow> pydict \<Rightarrow> pydict result" where
  "merged_permits resume runtime =
     bind_result (plural resume) (\<lambda>resume_permits.
     bind_result (plural runtime) (\<lambda>metadata_permits.
     if resume_permits \<noteq> [] \<and> metadata_permits \<noteq> [] \<and>
        \<not> py_eq (PDict resume_permits) (PDict metadata_permits)
     then Inl RuntimeError
     else bind_result (singular resume) (\<lambda>resume_single.
          bind_result (singular runtime) (\<lambda>runtime_single.
          merge_singular (if resume_permits \<noteq> [] then resume_permits else metadata_permits)
            (resume_single @ runtime_single)))))"

definition canonicalize_task_runtime_tool_ledger :: "pydict \<Rightarrow> pydict \<Rightarrow> ledger result" where
  "canonicalize_task_runtime_tool_ledger context_snapshot md =
     bind_result (dict_or_empty (dget context_snapshot ''runtime_resume'')) (\<lambda>resume.
     bind_result (dict_or_empty (dget md ''runtime_v2'')) (\<lambda>runtime.
     bind_result (merged_permits resume runtime) (\<lambda>permits.
     let continuation = (dget resume ''continue_after_tool_result'' = PBool True \<or>
                         dget runtime ''continue_after_tool_result'' = PBool True);
         top_level = runtime_ids [resume, runtime];
         carried = map (\<lambda>kv. permit_of (snd kv)) permits;
         active_ids = runtime_ids (resume # runtime # carried);
         result = (\<lambda>rid. Inr \<lparr>lg_resume = resume, lg_runtime = runtime, lg_permits = permits,
                                lg_continuation = continuation, lg_runtime_id = rid\<rparr>)
     in if list_ex (\<lambda>p. clean (dget p ''runtime_session_id'') = []) carried then Inl RuntimeError
        else if permits \<noteq> [] \<or> continuation
        then (case active_ids of [rid] \<Rightarrow> result rid | _ \<Rightarrow> Inl RuntimeError)
        else result (case top_level of [rid] \<Rightarrow> rid | _ \<Rightarrow> []))))"

section \<open>Writing the ledger\<close>

definition scrub_non_authoritative_context_runtime_ledger :: "pydict \<Rightarrow> string \<Rightarrow> pydict" where
  "scrub_non_authoritative_context_runtime_ledger context_snapshot runtime_session_id =
     (case dget context_snapshot ''runtime_v2'' of
        PDict mirror \<Rightarrow>
          (let rid = py_strip runtime_session_id;
               scrubbed = fold dpop TASK_RUNTIME_TOOL_LEDGER_KEYS mirror
           in dset ''runtime_v2''
                (PDict (if rid \<noteq> [] then dset ''runtime_session_id'' (PStr rid) scrubbed
                        else dpop ''runtime_session_id'' scrubbed))
                context_snapshot)
      | _ \<Rightarrow> context_snapshot)"

definition canonical_container :: "pydict \<Rightarrow> bool \<Rightarrow> string \<Rightarrow> pydict \<Rightarrow> pydict" where
  "canonical_container permits continuation rid container =
     (let a = dpop ''approved_tool_call'' container;
          b = (if permits \<noteq> [] then dset ''approved_tool_calls'' (PDict permits) a
               else dpop ''approved_tool_calls'' a);
          c = (if continuation then dset ''continue_after_tool_result'' (PBool True) b
               else dpop ''continue_after_tool_result'' b)
      in if rid \<noteq> [] then dset ''runtime_session_id'' (PStr rid) c else dpop ''runtime_session_id'' c)"

text \<open>The new \<open>context_snapshot\<close> and \<open>metadata\<close>.\<close>

definition write_canonical_task_runtime_tool_ledger ::
  "pydict \<Rightarrow> pydict \<Rightarrow> pydict \<Rightarrow> pydict \<Rightarrow> pydict \<Rightarrow> bool \<Rightarrow> string \<Rightarrow> pydict \<times> pydict" where
  "write_canonical_task_runtime_tool_ledger context_snapshot md resume runtime permits continuation
     runtime_session_id =
     (let rid = py_strip runtime_session_id;
          put = canonical_container permits continuation rid
      in (scrub_non_authoritative_context_runtime_ledger
            (dset ''runtime_resume'' (PDict (put resume)) context_snapshot) rid,
          dset ''runtime_v2'' (PDict (put runtime)) md))"

section \<open>Merging on save\<close>

definition NATIVE_PERMISSION_KEYS :: "string list" where
  "NATIVE_PERMISSION_KEYS =
     [''native_approval_level'', ''native_permission_scope_id'', ''native_permission_policy_revision'']"

definition keep_native_permissions :: "pydict \<Rightarrow> pydict \<Rightarrow> pydict" where
  \<comment> \<open>the operator's settings of the row win over those of the saved copy\<close>
  "keep_native_permissions persisted md =
     (if truthy (dget persisted ''native_permission_policy_revision'')
      then fold (\<lambda>k d. if dhas persisted k then dset k (dget persisted k) d else d)
             NATIVE_PERMISSION_KEYS md
      else md)"

definition dict_or_none :: "pyval \<Rightarrow> pydict" where
  "dict_or_none v = (case v of PDict d \<Rightarrow> d | _ \<Rightarrow> [])"

definition changed_runtime_ids :: "ledger \<Rightarrow> pydict \<Rightarrow> pydict \<Rightarrow> string list" where
  \<comment> \<open>the incoming ids that differ from the one their view has in the row\<close>
  "changed_runtime_ids l incoming_resume incoming_runtime =
     (let rid = (\<lambda>c. clean (dget c ''runtime_session_id''))
      in dedup (map fst (filter (\<lambda>(new, old). new \<noteq> [] \<and> new \<noteq> old)
           [(rid incoming_resume, rid (lg_resume l)), (rid incoming_runtime, rid (lg_runtime l))])))"

definition resulting_runtime_id :: "ledger \<Rightarrow> pydict \<Rightarrow> pydict \<Rightarrow> string result" where
  "resulting_runtime_id l incoming_resume incoming_runtime =
     (let incoming = runtime_ids [incoming_resume, incoming_runtime]
      in if ledger_active l then
           (if list_ex (\<lambda>x. x \<noteq> lg_runtime_id l) incoming then Inl RuntimeError
            else Inr (lg_runtime_id l))
         else case changed_runtime_ids l incoming_resume incoming_runtime of
                x # y # _ \<Rightarrow> Inl RuntimeError
              | [x] \<Rightarrow> Inr x
              | [] \<Rightarrow> (case incoming of [x] \<Rightarrow> Inr x | [] \<Rightarrow> Inr [] | _ \<Rightarrow> Inl RuntimeError))"

text \<open>The outcome and the task object, which the merge changes in place.\<close>

definition merge_store_owned_task_runtime_ledger ::
  "task \<Rightarrow> pydict \<Rightarrow> pydict \<Rightarrow> unit result \<times> task" where
  "merge_store_owned_task_runtime_ledger t persisted_context persisted_metadata =
     (let md = keep_native_permissions persisted_metadata (tk_metadata t);
          t1 = t\<lparr>tk_metadata := md\<rparr>;
          incoming_resume = dict_or_none (dget (tk_context_snapshot t) ''runtime_resume'');
          incoming_runtime = dict_or_none (dget md ''runtime_v2'')
      in case canonicalize_task_runtime_tool_ledger persisted_context persisted_metadata of
           Inl e \<Rightarrow> (Inl e, t1)
         | Inr l \<Rightarrow>
             (case resulting_runtime_id l incoming_resume incoming_runtime of
                Inl e \<Rightarrow> (Inl e, t1)
              | Inr rid \<Rightarrow>
                  (let (ctx, md') = write_canonical_task_runtime_tool_ledger (tk_context_snapshot t) md
                                      incoming_resume incoming_runtime (lg_permits l)
                                      (lg_continuation l) rid
                   in (Inr (), t1\<lparr>tk_context_snapshot := ctx, tk_metadata := md'\<rparr>))))"

definition pop_empty :: "string \<Rightarrow> pydict \<Rightarrow> pydict" where
  "pop_empty k d = (if dget d k = PDict [] then dpop k d else d)"

definition scrub_new_task :: "task \<Rightarrow> unit result \<times> task" where
  "scrub_new_task t =
     (case dict_or_empty (dget (tk_context_snapshot t) ''runtime_resume'') of
        Inl e \<Rightarrow> (Inl e, t)
      | Inr resume \<Rightarrow>
          (case dict_or_empty (dget (tk_metadata t) ''runtime_v2'') of
             Inl e \<Rightarrow> (Inl e, t)
           | Inr runtime \<Rightarrow>
               (let ids = runtime_ids [resume, runtime]
                in if 1 < length ids then (Inl RuntimeError, t)
                   else
                     let (ctx, md) = write_canonical_task_runtime_tool_ledger (tk_context_snapshot t)
                                       (tk_metadata t) resume runtime [] False
                                       (case ids of [] \<Rightarrow> [] | x # _ \<Rightarrow> x)
                     in (Inr (), t\<lparr>tk_context_snapshot := pop_empty ''runtime_v2'' (pop_empty ''runtime_resume'' ctx),
                                   tk_metadata := pop_empty ''runtime_v2'' md\<rparr>))))"

definition task_row :: "store \<Rightarrow> string \<Rightarrow> task option" where
  "task_row st tid = find (\<lambda>t. tk_id t = tid) (st_tasks st)"

definition merge_store_owned_task_fields_before_save :: "store \<Rightarrow> task \<Rightarrow> unit result \<times> task" where
  "merge_store_owned_task_fields_before_save st t =
     (case task_row st (tk_id t) of
        None \<Rightarrow> scrub_new_task t
      | Some row \<Rightarrow>
          merge_store_owned_task_runtime_ledger t (tk_context_snapshot row) (tk_metadata row))"

section \<open>The row of a task\<close>

definition assert_project_write_scope :: "string \<Rightarrow> string \<Rightarrow> unit result" where
  \<comment> \<open>the project of the store, the project of the record\<close>
  "assert_project_write_scope store_project entity_project =
     (let s = py_strip store_project; e = py_strip entity_project
      in if s \<noteq> [] \<and> e \<noteq> [] \<and> e \<noteq> s then Inl RuntimeError else Inr ())"

fun put_task_row :: "task \<Rightarrow> task list \<Rightarrow> task list" where
  "put_task_row t [] = [t]"
| "put_task_row t (u # us) = (if tk_id u = tk_id t then t # us else u # put_task_row t us)"

definition hydrate_link :: "store \<Rightarrow> task \<Rightarrow> task" where
  \<comment> \<open>the linked work item is not a column: a task that is read gets it from the link table\<close>
  "hydrate_link st t =
     set_linked_work_item_id t
       (case find (\<lambda>l. snd l = py_strip (tk_id t)) (st_links st) of None \<Rightarrow> [] | Some l \<Rightarrow> fst l)"

definition save_task_row :: "string \<Rightarrow> store \<Rightarrow> task \<Rightarrow> unit result \<times> task \<times> store" where
  "save_task_row store_project st t =
     (case assert_project_write_scope store_project (tk_project_id t) of
        Inl e \<Rightarrow> (Inl e, t, st)
      | Inr _ \<Rightarrow>
          (case merge_store_owned_task_fields_before_save st t of
             (Inl e, t1) \<Rightarrow> (Inl e, t1, st)
           | (Inr _, t1) \<Rightarrow>
               (let t2 = (if has_projection_identity (tk_metadata t1)
                          then t1\<lparr>tk_metadata := migrate_work_item_projection_metadata (tk_metadata t1) [] []\<rparr>
                          else t1);
                    row = t2\<lparr>tk_result := (if truthy (tk_result t2) then tk_result t2 else PNone)\<rparr>
                in (Inr (), t2, st\<lparr>st_tasks := put_task_row (hydrate_link st row) (st_tasks st)\<rparr>))))"

text \<open>\<open>get_task_runtime_tool_ledger\<close>: both views as one canonical snapshot.\<close>

record ledger_snapshot =
  ls_task_id :: string
  ls_runtime_session_id :: string
  ls_permits :: pydict
  ls_continue_after_tool_result :: bool
  ls_runtime_resume :: pydict
  ls_runtime_metadata :: pydict
  ls_context_runtime_v2 :: pydict

definition get_task_runtime_tool_ledger ::
  "store \<Rightarrow> string \<Rightarrow> string \<Rightarrow> ledger_snapshot option result" where
  "get_task_runtime_tool_ledger st task_id project_id =
     (let tid = py_strip task_id; project = py_strip project_id
      in if tid = [] then Inl ValueError
         else case task_row st tid of
           None \<Rightarrow> Inr None
         | Some row \<Rightarrow>
             if project \<noteq> [] \<and> tk_project_id row \<noteq> project then Inr None
             else bind_result (canonicalize_task_runtime_tool_ledger (tk_context_snapshot row) (tk_metadata row))
               (\<lambda>l. let ctx0 = (case dget (tk_context_snapshot row) ''runtime_v2'' of
                                  PDict _ \<Rightarrow> tk_context_snapshot row
                                | _ \<Rightarrow> dset ''runtime_v2'' (PDict []) (tk_context_snapshot row));
                        (ctx, md) = write_canonical_task_runtime_tool_ledger ctx0 (tk_metadata row)
                                      (lg_resume l) (lg_runtime l) (lg_permits l) (lg_continuation l)
                                      (lg_runtime_id l)
                    in Inr (Some \<lparr>ls_task_id = tid, ls_runtime_session_id = lg_runtime_id l,
                                  ls_permits = lg_permits l,
                                  ls_continue_after_tool_result = lg_continuation l,
                                  ls_runtime_resume = dict_or_none (dget ctx ''runtime_resume''),
                                  ls_runtime_metadata = dict_or_none (dget md ''runtime_v2''),
                                  ls_context_runtime_v2 = dict_or_none (dget ctx ''runtime_v2'')\<rparr>)))"

section \<open>Facts\<close>

lemma dset_same: "dhas d k \<Longrightarrow> dget d k = v \<Longrightarrow> dset k v d = d"
  by (induction k v d rule: dset.induct) (auto split: if_splits)

lemma dget_dhas: "dget d k \<noteq> PNone \<Longrightarrow> dhas d k"
  by (metis dget_not_dhas)

lemma strip_all_id: "py_strip s = s \<Longrightarrow> clean (PStr s) = s"
  by simp

lemma pair_of_json: "json_ok v \<Longrightarrow> pair_of v = Inr (k, w) \<Longrightarrow> json_ok w"
  by (induction v rule: pair_of.induct) auto

lemma map_pair_of_json:
  "ok_items xs \<Longrightarrow> map_result pair_of xs = Inr kvs \<Longrightarrow> \<forall>v\<in>snd ` set kvs. json_ok v"
proof (induction xs arbitrary: kvs)
  case (Cons x xs)
  then show ?case by (force simp: bind_result_Inr_iff dest: pair_of_json)
qed simp

lemma json_dict_update: "json_dict d \<Longrightarrow> \<forall>v\<in>snd ` set u. json_ok v \<Longrightarrow> json_dict (dupdate d u)"
proof (induction u arbitrary: d)
  case (Cons kv u)
  obtain k v where kv: "kv = (k, v)" by fastforce
  have "json_dict (dset k v d)" using Cons.prems kv by (intro json_dict_set) auto
  then show ?case using Cons kv by simp
qed simp

lemma dict_or_empty_json:
  assumes "json_ok v" "dict_or_empty v = Inr d"
  shows "json_dict d"
proof (cases v)
  case (PList xs)
  show ?thesis
  proof (cases xs)
    case Nil
    then have "d = []" using assms(2) PList by (simp add: dict_or_empty_def)
    then show ?thesis by simp
  next
    case (Cons x ys)
    with assms PList obtain kvs where "map_result pair_of xs = Inr kvs" "d = dupdate [] kvs" "ok_items xs"
      by (auto simp: dict_or_empty_def bind_result_Inr_iff)
    then show ?thesis using json_dict_update [OF json_dict_Nil] map_pair_of_json by simp
  qed
qed (use assms in \<open>auto simp: dict_or_empty_def split: if_splits\<close>)

lemma dict_or_empty_PDict: "dict_or_empty (PDict d) = Inr d"
  by (simp add: dict_or_empty_def)

text \<open>A canonical permit map: stripped fingerprints, each repeated in its permit.\<close>

definition permit_canonical :: "string \<times> pyval \<Rightarrow> bool" where
  "permit_canonical kv \<longleftrightarrow>
     fst kv \<noteq> [] \<and> py_strip (fst kv) = fst kv \<and>
     (case snd kv of PDict d \<Rightarrow> dget d ''fingerprint'' = PStr (fst kv) | _ \<Rightarrow> False)"

definition permits_canonical :: "pydict \<Rightarrow> bool" where
  "permits_canonical ps \<longleftrightarrow> json_dict ps \<and> list_all permit_canonical ps"

definition permit_runtime_id :: "pyval \<Rightarrow> string" where
  "permit_runtime_id v = clean (dget (permit_of v) ''runtime_session_id'')"

lemma permits_canonical_Nil [simp]: "permits_canonical []"
  by (simp add: permits_canonical_def)

lemma set_dset: "set (dset k v d) \<subseteq> insert (k, v) (set d)"
  by (induction k v d rule: dset.induct) auto

lemma permits_canonical_set:
  "permits_canonical ps \<Longrightarrow> permit_canonical (k, v) \<Longrightarrow> json_ok v \<Longrightarrow> permits_canonical (dset k v ps)"
  using set_dset [of k v ps] json_dict_set [of ps v k]
  by (auto simp: permits_canonical_def list_all_iff simp del: json_ok.simps)

lemma permits_canonical_pop: "permits_canonical ps \<Longrightarrow> permits_canonical (dpop k ps)"
  using json_dict_pop [of ps k] by (auto simp: permits_canonical_def list_all_iff dpop_def simp del: json_ok.simps)

lemma plural_from_result:
  "plural_from acc d = Inr ps \<Longrightarrow> ok_pairs d \<Longrightarrow> permits_canonical acc \<Longrightarrow> permits_canonical ps"
proof (induction acc d rule: plural_from.induct)
  case (2 acc raw_fp raw rest)
  from 2(2) obtain permit where permit: "raw = PDict permit" and fp: "py_strip raw_fp \<noteq> []"
    and embedded: "\<not> (clean (dget permit ''fingerprint'') \<noteq> [] \<and> clean (dget permit ''fingerprint'') \<noteq> py_strip raw_fp)"
    and step: "plural_from (dset (py_strip raw_fp) (PDict (dset ''fingerprint'' (PStr (py_strip raw_fp)) permit)) acc) rest = Inr ps"
    by (auto simp: Let_def split: pyval.splits if_splits)
  have "json_dict permit" using 2(3) permit by simp
  then have "json_ok (PDict (dset ''fingerprint'' (PStr (py_strip raw_fp)) permit))" by (intro json_dict_set) auto
  then have "permits_canonical (dset (py_strip raw_fp) (PDict (dset ''fingerprint'' (PStr (py_strip raw_fp)) permit)) acc)"
    using fp 2(4) by (intro permits_canonical_set) (auto simp: permit_canonical_def)
  with 2(1) [OF refl permit refl] step embedded fp 2(3) show ?case by auto
qed simp

lemma plural_from_canonical:
  "list_all permit_canonical ps \<Longrightarrow> distinct (map fst (acc @ ps)) \<Longrightarrow> plural_from acc ps = Inr (acc @ ps)"
proof (induction ps arbitrary: acc)
  case (Cons kv ps)
  obtain k v where kv: "kv = (k, v)" by fastforce
  with Cons.prems(1) obtain d where d: "v = PDict d" "dget d ''fingerprint'' = PStr k" "k \<noteq> []" "py_strip k = k"
    by (auto simp: permit_canonical_def split: pyval.splits)
  have "\<not> dhas acc k" using Cons.prems(2) kv by (auto simp: dhas_iff)
  moreover have "dset ''fingerprint'' (PStr k) d = d" using d(2) by (intro dset_same) (auto intro: dget_dhas)
  moreover have "plural_from (acc @ [kv]) ps = Inr ((acc @ [kv]) @ ps)" using Cons by simp
  ultimately show ?case using kv d by (simp add: dset_fresh dhas_iff)
qed simp

lemma plural_container:
  "dget c ''approved_tool_calls'' = (if ps = [] then PNone else PDict ps) \<Longrightarrow> permits_canonical ps \<Longrightarrow> plural c = Inr ps"
  using plural_from_canonical [of ps "[]"] by (auto simp: plural_def permits_canonical_def)

lemma json_dict_ok: "json_dict d \<Longrightarrow> ok_pairs d"
  by simp

lemma plural_result:
  assumes "plural c = Inr ps" "json_dict c"
  shows "permits_canonical ps"
proof (cases "dget c ''approved_tool_calls''")
  case (PDict d)
  then have "plural_from [] d = Inr ps" "json_dict d"
    using assms(1) json_dict_get [OF assms(2), of "''approved_tool_calls''"] by (auto simp: plural_def)
  then show ?thesis using plural_from_result [of "[]"] by simp
qed (use assms in \<open>auto simp: plural_def\<close>)

lemma singular_cases:
  assumes "singular c = Inr ss"
  obtains (none) "ss = []"
  | (one) d where "dget c ''approved_tool_call'' = PDict d" "clean (dget d ''fingerprint'') \<noteq> []"
      "ss = [dset ''fingerprint'' (PStr (clean (dget d ''fingerprint''))) d]"
proof (cases "dget c ''approved_tool_call''")
  case (PDict d)
  then show ?thesis
    using assms none one by (cases d) (auto simp: singular_def Let_def split: if_splits)
qed (use assms none in \<open>auto simp: singular_def\<close>)

lemma singular_result:
  assumes "singular c = Inr ss" "json_dict c" "s \<in> set ss"
  shows "json_dict s \<and> (\<exists>f. dget s ''fingerprint'' = PStr f \<and> f \<noteq> [] \<and> py_strip f = f)"
  using assms(1)
proof (cases rule: singular_cases)
  case (one d)
  then have "json_dict d" using json_dict_get [OF assms(2), of "''approved_tool_call''"] by simp
  then have "json_dict (dset ''fingerprint'' (PStr (clean (dget d ''fingerprint''))) d)"
    by (intro json_dict_set) auto
  with one assms(3) show ?thesis by (simp del: json_ok.simps)
qed (use assms in simp)

lemma merge_singular_result:
  assumes "merge_singular permits singles = Inr ps" "permits_canonical permits"
    and "\<And>s. s \<in> set singles \<Longrightarrow> json_dict s \<and> (\<exists>f. dget s ''fingerprint'' = PStr f \<and> f \<noteq> [] \<and> py_strip f = f)"
  shows "permits_canonical ps"
proof (cases singles)
  case (Cons s rest)
  with assms(3) obtain f where f: "dget s ''fingerprint'' = PStr f" "f \<noteq> []" "py_strip f = f" "json_dict s"
    by auto
  then have "permits_canonical (dset f (PDict s) [])"
    by (intro permits_canonical_set) (auto simp: permit_canonical_def)
  with assms(1,2) Cons f show ?thesis
    by (auto simp: merge_singular_def Let_def simp del: json_ok.simps dset.simps split: if_splits)
qed (use assms in \<open>simp add: merge_singular_def\<close>)

lemma merged_permits_result:
  assumes "merged_permits resume runtime = Inr ps" "json_dict resume" "json_dict runtime"
  shows "permits_canonical ps"
proof -
  from assms(1) obtain a b c d where views: "plural resume = Inr a" "plural runtime = Inr b"
    "singular resume = Inr c" "singular runtime = Inr d" "merge_singular (if a \<noteq> [] then a else b) (c @ d) = Inr ps"
    by (auto simp: merged_permits_def bind_result_Inr_iff split: if_splits)
  have "permits_canonical (if a \<noteq> [] then a else b)"
    using views assms(2,3) by (auto dest: plural_result)
  with views assms(2,3) show ?thesis
    by (intro merge_singular_result [OF views(5)]) (auto dest: singular_result simp del: json_ok.simps)
qed

lemma merged_permits_canonical:
  assumes ps: "permits_canonical ps"
    and views: "dget resume ''approved_tool_calls'' = (if ps = [] then PNone else PDict ps)"
      "dget runtime ''approved_tool_calls'' = (if ps = [] then PNone else PDict ps)"
    and single: "dget resume ''approved_tool_call'' = PNone" "dget runtime ''approved_tool_call'' = PNone"
  shows "merged_permits resume runtime = Inr ps"
proof -
  have "py_eq (PDict ps) (PDict ps)" using ps by (intro py_eq_refl) (simp add: permits_canonical_def)
  moreover have "singular resume = Inr []" "singular runtime = Inr []" using single by (auto simp: singular_def)
  ultimately show ?thesis
    using plural_container [OF views(1) ps] plural_container [OF views(2) ps]
    by (simp add: merged_permits_def merge_singular_def del: py_eq.simps)
qed


text \<open>A ledger that can be written: what reading returns, and what reading a written one needs.\<close>

definition ledger_ok :: "pydict \<Rightarrow> bool \<Rightarrow> string \<Rightarrow> bool" where
  "ledger_ok ps continuation rid \<longleftrightarrow>
     permits_canonical ps \<and> py_strip rid = rid \<and>
     (\<forall>v\<in>snd ` set ps. permit_runtime_id v = rid) \<and> (ps \<noteq> [] \<or> continuation \<longrightarrow> rid \<noteq> [])"

lemma set_runtime_ids: "set (runtime_ids cs) = (\<lambda>c. clean (dget c ''runtime_session_id'')) ` set cs - {[]}"
  by (auto simp: runtime_ids_def)

lemma runtime_ids_strip: "x \<in> set (runtime_ids cs) \<Longrightarrow> py_strip x = x \<and> x \<noteq> []"
  by (auto simp: set_runtime_ids)

lemma distinct_runtime_ids: "distinct (runtime_ids cs)"
  by (simp add: runtime_ids_def)

lemma runtime_ids_single: "runtime_ids cs = [rid] \<longleftrightarrow> (\<lambda>c. clean (dget c ''runtime_session_id'')) ` set cs - {[]} = {rid}"
proof -
  have "runtime_ids cs = [rid] \<longleftrightarrow> set (runtime_ids cs) = {rid}"
    using distinct_runtime_ids [of cs] by (cases "runtime_ids cs"; cases "tl (runtime_ids cs)") auto
  then show ?thesis by (simp add: set_runtime_ids)
qed

lemma runtime_ids_none: "runtime_ids cs = [] \<longleftrightarrow> (\<lambda>c. clean (dget c ''runtime_session_id'')) ` set cs \<subseteq> {[]}"
proof -
  have "runtime_ids cs = [] \<longleftrightarrow> set (runtime_ids cs) = {}" by simp
  also have "\<dots> \<longleftrightarrow> (\<lambda>c. clean (dget c ''runtime_session_id'')) ` set cs \<subseteq> {[]}"
    unfolding set_runtime_ids by blast
  finally show ?thesis .
qed

lemma canonicalize_cases:
  assumes "canonicalize_task_runtime_tool_ledger ctx md = Inr l"
  shows "dict_or_empty (dget ctx ''runtime_resume'') = Inr (lg_resume l)"
    "dict_or_empty (dget md ''runtime_v2'') = Inr (lg_runtime l)"
    "merged_permits (lg_resume l) (lg_runtime l) = Inr (lg_permits l)"
    "\<forall>kv\<in>set (lg_permits l). permit_runtime_id (snd kv) \<noteq> []"
    "lg_continuation l \<longleftrightarrow> dget (lg_resume l) ''continue_after_tool_result'' = PBool True \<or>
                           dget (lg_runtime l) ''continue_after_tool_result'' = PBool True"
    "ledger_active l \<Longrightarrow>
       runtime_ids (lg_resume l # lg_runtime l # map (\<lambda>kv. permit_of (snd kv)) (lg_permits l)) = [lg_runtime_id l]"
    "\<not> ledger_active l \<Longrightarrow>
       lg_runtime_id l = (case runtime_ids [lg_resume l, lg_runtime l] of [rid] \<Rightarrow> rid | _ \<Rightarrow> [])"
  using assms
  by (auto simp: canonicalize_task_runtime_tool_ledger_def bind_result_Inr_iff Let_def ledger_active_def
      permit_runtime_id_def list_ex_iff split: if_splits list.splits)

lemma canonicalize_ok:
  assumes "canonicalize_task_runtime_tool_ledger ctx md = Inr l" "json_dict ctx" "json_dict md"
  shows "ledger_ok (lg_permits l) (lg_continuation l) (lg_runtime_id l)"
proof -
  note read = canonicalize_cases [OF assms(1)]
  have "json_dict (lg_resume l)" "json_dict (lg_runtime l)"
    using read(1,2) assms(2,3) by (auto intro: dict_or_empty_json json_dict_get simp del: json_ok.simps)
  then have ps: "permits_canonical (lg_permits l)" by (rule merged_permits_result [OF read(3)])
  show ?thesis
  proof (cases "ledger_active l")
    case True
    then have ids: "runtime_ids (lg_resume l # lg_runtime l # map (\<lambda>kv. permit_of (snd kv)) (lg_permits l)) = [lg_runtime_id l]"
      by (rule read(6))
    have one: "permit_runtime_id (snd kv) = lg_runtime_id l" if "kv \<in> set (lg_permits l)" for kv
    proof -
      have "permit_runtime_id (snd kv) \<in>
          set (runtime_ids (lg_resume l # lg_runtime l # map (\<lambda>kv. permit_of (snd kv)) (lg_permits l)))"
        using that read(4) by (auto simp: set_runtime_ids permit_runtime_id_def)
      with ids show ?thesis by simp
    qed
    have "lg_runtime_id l \<in>
        set (runtime_ids (lg_resume l # lg_runtime l # map (\<lambda>kv. permit_of (snd kv)) (lg_permits l)))"
      unfolding ids by simp
    then have "py_strip (lg_runtime_id l) = lg_runtime_id l \<and> lg_runtime_id l \<noteq> []" by (rule runtime_ids_strip)
    with ps one show ?thesis by (auto simp: ledger_ok_def)
  next
    case False
    then have empty: "lg_permits l = []" "\<not> lg_continuation l" by (auto simp: ledger_active_def)
    have "py_strip (lg_runtime_id l) = lg_runtime_id l"
    proof (cases "runtime_ids [lg_resume l, lg_runtime l]")
      case (Cons x xs)
      then have "x \<in> set (runtime_ids [lg_resume l, lg_runtime l])" by simp
      then have "py_strip x = x" by (simp only: runtime_ids_strip)
      then show ?thesis using read(7) [OF False] Cons by (cases xs) auto
    qed (use read(7) [OF False] in simp)
    with ps empty show ?thesis by (simp add: ledger_ok_def)
  qed
qed

lemma canonical_container_get:
  "dget (canonical_container ps continuation rid c) ''approved_tool_calls'' = (if ps = [] then PNone else PDict ps)"
  "dget (canonical_container ps continuation rid c) ''approved_tool_call'' = PNone"
  "dget (canonical_container ps continuation rid c) ''continue_after_tool_result'' = (if continuation then PBool True else PNone)"
  "dget (canonical_container ps continuation rid c) ''runtime_session_id'' = (if rid = [] then PNone else PStr rid)"
  by (simp_all add: canonical_container_def Let_def)

lemma scrub_other: "k \<noteq> ''runtime_v2'' \<Longrightarrow> dget (scrub_non_authoritative_context_runtime_ledger ctx rid) k = dget ctx k"
  by (auto simp: scrub_non_authoritative_context_runtime_ledger_def Let_def split: pyval.splits)

lemma written_views:
  assumes "write_canonical_task_runtime_tool_ledger ctx md resume runtime ps continuation rid = (ctx', md')"
    "py_strip rid = rid"
  shows "dget ctx' ''runtime_resume'' = PDict (canonical_container ps continuation rid resume)"
    "dget md' ''runtime_v2'' = PDict (canonical_container ps continuation rid runtime)"
  using assms by (auto simp: write_canonical_task_runtime_tool_ledger_def Let_def scrub_other)

lemma read_views:
  assumes ok: "ledger_ok ps continuation rid"
    and resume: "dget ctx ''runtime_resume'' = PDict (canonical_container ps continuation rid r)"
    and runtime: "dget md ''runtime_v2'' = PDict (canonical_container ps continuation rid q)"
  shows "canonicalize_task_runtime_tool_ledger ctx md =
    Inr \<lparr>lg_resume = canonical_container ps continuation rid r, lg_runtime = canonical_container ps continuation rid q,
         lg_permits = ps, lg_continuation = continuation, lg_runtime_id = rid\<rparr>"
proof -
  let ?r = "canonical_container ps continuation rid r" and ?q = "canonical_container ps continuation rid q"
  have merged: "merged_permits ?r ?q = Inr ps"
    using ok by (intro merged_permits_canonical) (simp_all add: ledger_ok_def canonical_container_get)
  have top: "(\<lambda>c. clean (dget c ''runtime_session_id'')) ` set [?r, ?q] = {rid}"
    using ok by (auto simp: canonical_container_get ledger_ok_def)
  have carried: "\<forall>v\<in>snd ` set ps. clean (dget (permit_of v) ''runtime_session_id'') = rid"
    using ok by (auto simp: ledger_ok_def permit_runtime_id_def)
  have all: "runtime_ids (?r # ?q # map (\<lambda>kv. permit_of (snd kv)) ps) = [rid]" if "rid \<noteq> []"
    unfolding runtime_ids_single using top carried that by auto
  have none: "\<not> list_ex (\<lambda>p. clean (dget p ''runtime_session_id'') = []) (map (\<lambda>kv. permit_of (snd kv)) ps)"
    using ok carried by (cases "ps = []") (auto simp: list_ex_iff ledger_ok_def)
  have two: "(case runtime_ids [?r, ?q] of [x] \<Rightarrow> x | _ \<Rightarrow> []) = rid"
  proof (cases "rid = []")
    case True
    then have "runtime_ids [?r, ?q] = []" unfolding runtime_ids_none using top by simp
    with True show ?thesis by simp
  next
    case False
    then have "runtime_ids [?r, ?q] = [rid]" unfolding runtime_ids_single using top by simp
    then show ?thesis by simp
  qed
  have "continuation \<Longrightarrow> rid \<noteq> []" "ps \<noteq> [] \<Longrightarrow> rid \<noteq> []" using ok by (auto simp: ledger_ok_def)
  then show ?thesis
    using none all two
    by (auto simp: canonicalize_task_runtime_tool_ledger_def resume runtime dict_or_empty_PDict merged Let_def canonical_container_get)
qed

lemma read_written:
  assumes "ledger_ok ps continuation rid"
    "write_canonical_task_runtime_tool_ledger ctx md resume runtime ps continuation rid = (ctx', md')"
  shows "canonicalize_task_runtime_tool_ledger ctx' md' =
    Inr \<lparr>lg_resume = canonical_container ps continuation rid resume,
         lg_runtime = canonical_container ps continuation rid runtime,
         lg_permits = ps, lg_continuation = continuation, lg_runtime_id = rid\<rparr>"
  using assms(1) written_views [OF assms(2)] by (intro read_views) (auto simp: ledger_ok_def)


section \<open>Saving keeps the ledger\<close>

fun save_all :: "string \<Rightarrow> store \<Rightarrow> task list \<Rightarrow> store" where
  "save_all store_project st [] = st"
| "save_all store_project st (t # ts) = save_all store_project (snd (snd (save_task_row store_project st t))) ts"

text \<open>The permits of a task, its continuation marker, and the runtime that owns them.\<close>

definition tool_ledger :: "store \<Rightarrow> string \<Rightarrow> (pydict \<times> bool \<times> string) result" where
  "tool_ledger st tid =
     (case task_row st tid of
        None \<Rightarrow> Inr ([], False, [])
      | Some row \<Rightarrow>
          bind_result (canonicalize_task_runtime_tool_ledger (tk_context_snapshot row) (tk_metadata row))
            (\<lambda>l. Inr (lg_permits l, lg_continuation l, if ledger_active l then lg_runtime_id l else [])))"

definition row_json :: "store \<Rightarrow> string \<Rightarrow> bool" where
  "row_json st tid \<longleftrightarrow>
     (case task_row st tid of None \<Rightarrow> True
      | Some row \<Rightarrow> json_dict (tk_context_snapshot row) \<and> json_dict (tk_metadata row))"

lemma task_row_id: "task_row st tid = Some t \<Longrightarrow> tk_id t = tid"
  by (auto simp: task_row_def find_Some_iff)

lemma find_put_task_row:
  "find (\<lambda>u. tk_id u = tid) (put_task_row t us) =
     (if tk_id t = tid then Some t else find (\<lambda>u. tk_id u = tid) us)"
  by (induction t us rule: put_task_row.induct) auto

lemma hydrate_link_fields [simp]:
  "tk_id (hydrate_link st t) = tk_id t" "tk_metadata (hydrate_link st t) = tk_metadata t"
  "tk_context_snapshot (hydrate_link st t) = tk_context_snapshot t"
  "tk_status (hydrate_link st t) = tk_status t" "tk_project_id (hydrate_link st t) = tk_project_id t"
  by (simp_all add: hydrate_link_def set_linked_work_item_id_def)

lemma keep_native_other: "k \<notin> set NATIVE_PERMISSION_KEYS \<Longrightarrow> dget (keep_native_permissions p md) k = dget md k"
  by (auto simp: keep_native_permissions_def NATIVE_PERMISSION_KEYS_def)

lemma merge_cases:
  assumes "merge_store_owned_task_runtime_ledger t pctx pmd = (Inr (), t')"
  obtains l rid resume runtime ctx md where "canonicalize_task_runtime_tool_ledger pctx pmd = Inr l"
    "ledger_active l \<Longrightarrow> rid = lg_runtime_id l"
    "rid = [] \<or> rid = lg_runtime_id l \<or> rid \<in> set (runtime_ids [resume, runtime])"
    "write_canonical_task_runtime_tool_ledger (tk_context_snapshot t) (keep_native_permissions pmd (tk_metadata t))
       resume runtime (lg_permits l) (lg_continuation l) rid = (ctx, md)"
    "t' = t\<lparr>tk_context_snapshot := ctx, tk_metadata := md\<rparr>"
proof -
  define resume where "resume = dict_or_none (dget (tk_context_snapshot t) ''runtime_resume'')"
  define runtime where "runtime = dict_or_none (dget (keep_native_permissions pmd (tk_metadata t)) ''runtime_v2'')"
  from assms obtain l rid ctx md where l: "canonicalize_task_runtime_tool_ledger pctx pmd = Inr l"
    and rid: "resulting_runtime_id l resume runtime = Inr rid"
    and written: "write_canonical_task_runtime_tool_ledger (tk_context_snapshot t) (keep_native_permissions pmd (tk_metadata t))
       resume runtime (lg_permits l) (lg_continuation l) rid = (ctx, md)"
    and t': "t' = t\<lparr>tk_context_snapshot := ctx, tk_metadata := md\<rparr>"
    unfolding resume_def runtime_def
    by (auto simp: merge_store_owned_task_runtime_ledger_def Let_def split: sum.splits prod.splits)
  have "ledger_active l \<Longrightarrow> rid = lg_runtime_id l"
    using rid by (auto simp: resulting_runtime_id_def Let_def split: if_splits)
  moreover have "rid = [] \<or> rid = lg_runtime_id l \<or> rid \<in> set (runtime_ids [resume, runtime])"
  proof (cases "ledger_active l")
    case False
    have changed: "set (changed_runtime_ids l resume runtime) \<subseteq> set (runtime_ids [resume, runtime])"
      by (auto simp: set_runtime_ids changed_runtime_ids_def Let_def)
    show ?thesis
      using False rid changed
      by (auto simp: resulting_runtime_id_def Let_def split: list.splits)
  qed (use calculation in simp)
  ultimately show ?thesis using that [of l rid resume runtime ctx md] l written t' by blast
qed


lemma merge_keeps_ledger:
  assumes "merge_store_owned_task_runtime_ledger t pctx pmd = (Inr (), t')"
    "canonicalize_task_runtime_tool_ledger pctx pmd = Inr l"
    "ledger_ok (lg_permits l) (lg_continuation l) (lg_runtime_id l)"
  obtains resume runtime rid where
    "ledger_ok (lg_permits l) (lg_continuation l) rid" "ledger_active l \<Longrightarrow> rid = lg_runtime_id l"
    "dget (tk_context_snapshot t') ''runtime_resume'' = PDict (canonical_container (lg_permits l) (lg_continuation l) rid resume)"
    "dget (tk_metadata t') ''runtime_v2'' = PDict (canonical_container (lg_permits l) (lg_continuation l) rid runtime)"
    "tk_id t' = tk_id t"
  using assms(1)
proof (cases rule: merge_cases)
  case (1 l' rid resume runtime ctx md)
  with assms(2) have l: "l' = l" by simp
  have strip: "py_strip rid = rid" using 1(3) assms(3) l runtime_ids_strip by (auto simp: ledger_ok_def)
  have "ledger_ok (lg_permits l) (lg_continuation l) rid"
  proof (cases "ledger_active l")
    case True
    with 1(2) assms(3) l show ?thesis by simp
  next
    case False
    with strip assms(3) show ?thesis by (auto simp: ledger_ok_def ledger_active_def)
  qed
  then show ?thesis
    using that 1(2) written_views [OF 1(4) strip] 1(5) l by auto
qed

lemma migrated_metadata_view:
  "dget (tk_metadata (if b then t\<lparr>tk_metadata := migrate_work_item_projection_metadata (tk_metadata t) p q\<rparr> else t)) ''runtime_v2''
     = dget (tk_metadata t) ''runtime_v2''"
  by (simp add: migrate_projection_get)

lemma save_task_row_cases:
  assumes "save_task_row scope st t = (r, t', st')"
  obtains (failed) e where "r = Inl e" "st' = st"
  | (saved) t1 row where "r = Inr ()" "merge_store_owned_task_fields_before_save st t = (Inr (), t1)"
      "st' = st\<lparr>st_tasks := put_task_row row (st_tasks st)\<rparr>" "tk_id row = tk_id t1"
      "tk_context_snapshot row = tk_context_snapshot t1" "tk_status row = tk_status t1"
      "tk_project_id row = tk_project_id t1"
      "tk_metadata row = (if has_projection_identity (tk_metadata t1)
         then migrate_work_item_projection_metadata (tk_metadata t1) [] [] else tk_metadata t1)"
      "assert_project_write_scope scope (tk_project_id t) = Inr ()"
proof (cases "assert_project_write_scope scope (tk_project_id t)")
  case (Inl e)
  with assms show ?thesis by (intro failed [of e]) (simp_all add: save_task_row_def)
next
  case (Inr u)
  obtain x t1 where merged: "merge_store_owned_task_fields_before_save st t = (x, t1)" by fastforce
  show ?thesis
  proof (cases x)
    case (Inl e)
    with assms Inr merged show ?thesis by (intro failed [of e]) (simp_all add: save_task_row_def)
  next
    case ok: (Inr v)
    define t2 where "t2 = (if has_projection_identity (tk_metadata t1)
                          then t1\<lparr>tk_metadata := migrate_work_item_projection_metadata (tk_metadata t1) [] []\<rparr>
                          else t1)"
    have out: "r = Inr ()" "st' = st\<lparr>st_tasks := put_task_row (hydrate_link st
        (t2\<lparr>tk_result := (if truthy (tk_result t2) then tk_result t2 else PNone)\<rparr>)) (st_tasks st)\<rparr>"
      using assms Inr merged ok by (auto simp: save_task_row_def Let_def t2_def)
    show ?thesis
      by (rule saved [of t1, OF out(1) _ out(2)]) (use Inr merged ok in \<open>simp_all add: t2_def\<close>)
  qed
qed

lemma scrub_new_task_cases:
  assumes "scrub_new_task t = (Inr (), t')"
  obtains rid r q where "py_strip rid = rid" "tk_id t' = tk_id t"
    "dict_or_empty (dget (tk_context_snapshot t') ''runtime_resume'') = Inr (canonical_container [] False rid r)"
    "dict_or_empty (dget (tk_metadata t') ''runtime_v2'') = Inr (canonical_container [] False rid q)"
proof -
  from assms obtain r q rid ctx md where written:
    "write_canonical_task_runtime_tool_ledger (tk_context_snapshot t) (tk_metadata t) r q [] False rid = (ctx, md)"
    and t': "t' = t\<lparr>tk_context_snapshot := pop_empty ''runtime_v2'' (pop_empty ''runtime_resume'' ctx),
                    tk_metadata := pop_empty ''runtime_v2'' md\<rparr>"
    and rid: "rid = (case runtime_ids [r, q] of [] \<Rightarrow> [] | x # _ \<Rightarrow> x)"
    by (auto simp: scrub_new_task_def Let_def split: sum.splits if_splits prod.splits)
  have strip: "py_strip rid = rid"
  proof (cases "runtime_ids [r, q]")
    case (Cons x xs)
    then have "x \<in> set (runtime_ids [r, q])" by simp
    then have "py_strip x = x" by (simp only: runtime_ids_strip)
    with rid Cons show ?thesis by simp
  qed (use rid in simp)
  note views = written_views [OF written strip]
  have pop: "dict_or_empty (dget (pop_empty k d) k) = Inr c" if "dget d k = PDict c" for k d c
    using that by (simp add: pop_empty_def dict_or_empty_def)
  have other: "dget (pop_empty ''runtime_v2'' d) ''runtime_resume'' = dget d ''runtime_resume''" for d
    by (simp add: pop_empty_def)
  show ?thesis using that [OF strip] t' pop [OF views(1)] pop [OF views(2)] by (simp add: other)
qed

lemma read_views_dict:
  assumes "ledger_ok ps continuation rid"
    "dict_or_empty (dget ctx ''runtime_resume'') = Inr (canonical_container ps continuation rid r)"
    "dict_or_empty (dget md ''runtime_v2'') = Inr (canonical_container ps continuation rid q)"
  shows "\<exists>l. canonicalize_task_runtime_tool_ledger ctx md = Inr l \<and> lg_permits l = ps \<and>
             lg_continuation l = continuation \<and> lg_runtime_id l = rid"
proof -
  have "canonicalize_task_runtime_tool_ledger ctx md =
      canonicalize_task_runtime_tool_ledger [(''runtime_resume'', PDict (canonical_container ps continuation rid r))]
        [(''runtime_v2'', PDict (canonical_container ps continuation rid q))]"
    using assms(2,3) by (simp add: canonicalize_task_runtime_tool_ledger_def dict_or_empty_PDict)
  moreover have "\<dots> = Inr \<lparr>lg_resume = canonical_container ps continuation rid r,
         lg_runtime = canonical_container ps continuation rid q,
         lg_permits = ps, lg_continuation = continuation, lg_runtime_id = rid\<rparr>"
    using assms(1) by (intro read_views) simp_all
  ultimately show ?thesis by simp
qed

text \<open>Every row that is read can be written again; a row that cannot be read is never written.\<close>

definition row_ok :: "store \<Rightarrow> string \<Rightarrow> bool" where
  "row_ok st tid \<longleftrightarrow>
     (\<forall>row l. task_row st tid = Some row \<longrightarrow>
        canonicalize_task_runtime_tool_ledger (tk_context_snapshot row) (tk_metadata row) = Inr l \<longrightarrow>
        ledger_ok (lg_permits l) (lg_continuation l) (lg_runtime_id l))"

lemma row_json_ok: "row_json st tid \<Longrightarrow> row_ok st tid"
  by (auto simp: row_json_def row_ok_def simp del: json_ok.simps intro: canonicalize_ok)

lemma save_keeps_ledger:
  assumes "row_ok st tid"
  shows "tool_ledger (snd (snd (save_task_row scope st t))) tid = tool_ledger st tid \<and>
         row_ok (snd (snd (save_task_row scope st t))) tid"
proof -
  obtain r t' st' where s: "save_task_row scope st t = (r, t', st')" by (metis prod_cases3)
  from s show ?thesis
  proof (cases rule: save_task_row_cases)
    case (failed e)
    with s assms show ?thesis by simp
  next
    case (saved t1 row)
    show ?thesis
    proof (cases "tk_id row = tid")
      case False
      then have "task_row st' tid = task_row st tid"
        using saved(3) by (simp add: task_row_def find_put_task_row)
      with s assms show ?thesis by (simp add: tool_ledger_def row_ok_def)
    next
      case True
      then have row: "task_row st' tid = Some row"
        using saved(3) by (simp add: task_row_def find_put_task_row)
      have view: "dget (tk_metadata row) ''runtime_v2'' = dget (tk_metadata t1) ''runtime_v2''"
        using saved(8) by (simp add: migrate_projection_get)
      show ?thesis
      proof (cases "task_row st (tk_id t)")
        case None
        then have "scrub_new_task t = (Inr (), t1)"
          using saved(2) by (simp add: merge_store_owned_task_fields_before_save_def)
        then show ?thesis
        proof (cases rule: scrub_new_task_cases)
          case (1 rid r q)
          have "\<exists>l. canonicalize_task_runtime_tool_ledger (tk_context_snapshot row) (tk_metadata row) = Inr l \<and>
              lg_permits l = [] \<and> lg_continuation l = False \<and> lg_runtime_id l = rid"
            using 1 saved(5) view by (intro read_views_dict) (auto simp: ledger_ok_def)
          moreover have "tool_ledger st tid = Inr ([], False, [])"
            using None 1(2) saved(4) True by (simp add: tool_ledger_def)
          ultimately show ?thesis
            using row s 1(1) by (auto simp: tool_ledger_def row_ok_def ledger_active_def ledger_ok_def)
        qed
      next
        case (Some old)
        then have merged: "merge_store_owned_task_runtime_ledger t (tk_context_snapshot old) (tk_metadata old) = (Inr (), t1)"
          using saved(2) by (simp add: merge_store_owned_task_fields_before_save_def)
        then obtain l where l: "canonicalize_task_runtime_tool_ledger (tk_context_snapshot old) (tk_metadata old) = Inr l"
          by (cases rule: merge_cases) blast
        have tid: "tk_id t = tid"
          using merged saved(4) True by (cases rule: merge_cases) auto
        have ok: "ledger_ok (lg_permits l) (lg_continuation l) (lg_runtime_id l)"
          using assms Some l tid by (auto simp: row_ok_def)
        from merge_keeps_ledger [OF merged l ok] obtain r q rid where
          k: "ledger_ok (lg_permits l) (lg_continuation l) rid" "ledger_active l \<Longrightarrow> rid = lg_runtime_id l"
            "dget (tk_context_snapshot t1) ''runtime_resume'' = PDict (canonical_container (lg_permits l) (lg_continuation l) rid r)"
            "dget (tk_metadata t1) ''runtime_v2'' = PDict (canonical_container (lg_permits l) (lg_continuation l) rid q)"
          by blast
        have "canonicalize_task_runtime_tool_ledger (tk_context_snapshot row) (tk_metadata row) =
            Inr \<lparr>lg_resume = canonical_container (lg_permits l) (lg_continuation l) rid r,
                 lg_runtime = canonical_container (lg_permits l) (lg_continuation l) rid q,
                 lg_permits = lg_permits l, lg_continuation = lg_continuation l, lg_runtime_id = rid\<rparr>"
          using k saved(5) view by (intro read_views) auto
        then show ?thesis
          using row s k(1,2) Some l tid by (auto simp: tool_ledger_def row_ok_def ledger_active_def)
      qed
    qed
  qed
qed

lemma saves_keep_ledger:
  "row_ok st tid \<Longrightarrow> tool_ledger (save_all scope st ts) tid = tool_ledger st tid \<and> row_ok (save_all scope st ts) tid"
  by (induction ts arbitrary: st) (simp_all add: save_keeps_ledger)

text \<open>C20. Saving a task never creates, changes or deletes an exact tool permit.  For every
  task id, after any sequence of broad saves of task objects of any age (stale copies of that task
  with forged, missing or already consumed permits, other tasks, new tasks), the permits, the
  continuation marker and the runtime that owns them are those of before; a row that did not exist
  is created without any; and a row whose two views conflict is not written at all.\<close>

theorem saves_keep_tool_ledger:
  assumes "row_json st tid"
  shows "tool_ledger (save_all store_project st ts) tid = tool_ledger st tid"
  using saves_keep_ledger [OF row_json_ok [OF assms]] by blast

definition permit_sample :: pydict where
  "permit_sample = [(''id'', PStr ''call-1''), (''runtime_session_id'', PStr ''rt''), (''fingerprint'', PStr ''f'')]"

definition permitted_task :: task where
  "permitted_task =
     (new_task ''t'')\<lparr>tk_context_snapshot :=
         [(''runtime_resume'', PDict [(''approved_tool_calls'', PDict [(''f'', PDict permit_sample)])])]\<rparr>"

definition stale_copy :: task where
  "stale_copy = (new_task ''t'')\<lparr>tk_status := TS_DONE, tk_context_snapshot := [(''runtime_resume'', PDict [(''turn'', PInt 3)])]\<rparr>"

definition forged_task :: task where
  "forged_task =
     (new_task ''u'')\<lparr>tk_metadata := [(''runtime_v2'', PDict [(''continue_after_tool_result'', PBool True)])]\<rparr>"

theorem saves_keep_tool_ledger_witness:
  "tool_ledger (save_all [] (empty_store\<lparr>st_tasks := [permitted_task]\<rparr>) [stale_copy, forged_task]) ''t''
     = Inr ([(''f'', PDict permit_sample)], False, ''rt'') \<and>
   map tk_status (st_tasks (save_all [] (empty_store\<lparr>st_tasks := [permitted_task]\<rparr>) [stale_copy, forged_task]))
     = [TS_DONE, TS_PENDING] \<and>
   tool_ledger (save_all [] (empty_store\<lparr>st_tasks := [permitted_task]\<rparr>) [stale_copy, forged_task]) ''u''
     = Inr ([], False, [])"
proof -
  let ?st = "empty_store\<lparr>st_tasks := [permitted_task]\<rparr>"
  have "row_json ?st ''t''" by code_simp
  from saves_keep_tool_ledger [OF this, of "[]" "[stale_copy, forged_task]"]
  have "tool_ledger (save_all [] ?st [stale_copy, forged_task]) ''t'' = tool_ledger ?st ''t''" .
  moreover have "tool_ledger ?st ''t'' = Inr ([(''f'', PDict permit_sample)], False, ''rt'')" by code_simp
  moreover have "map tk_status (st_tasks (save_all [] ?st [stale_copy, forged_task])) = [TS_DONE, TS_PENDING]"
    by code_simp
  moreover have "tool_ledger (save_all [] ?st [stale_copy, forged_task]) ''u'' = Inr ([], False, [])" by code_simp
  ultimately show ?thesis by simp
qed

end
