(* ===== verification/Lease.thy ===== *)
theory Lease
  imports Store
begin

text \<open>
  The durable controller lease of a run and the claim of a card under it
  (\<open>opc/database/store.py\<close>): acquiring, renewing, checking and releasing the lease of a
  \<open>delegation_runs\<close> row, the fence every live projection write must pass, the claim
  compare-and-set on a \<open>delegation_work_items\<close> row, and the start-up sweep that releases the
  claims of runs without a live controller.

  Times are integers (microseconds); \<open>isoformat\<close> texts compare as the times they render, so the
  SQL text comparisons are comparisons of the integers.  Integers stay inside SQLite's 64 bits.
\<close>

section \<open>The lease of a run\<close>

definition clean_project_id :: "string \<Rightarrow> string" where
  \<comment> \<open>\<open>str(project_id or "default").strip() or "default"\<close>\<close>
  "clean_project_id p =
     (let c = py_strip (if p = [] then ''default'' else p) in if c = [] then ''default'' else c)"

definition lease_expiry :: "int \<Rightarrow> int \<Rightarrow> int" where
  \<comment> \<open>\<open>now + timedelta(seconds=max(1.0, lease_seconds))\<close>\<close>
  "lease_expiry now duration = now + max 1000000 duration"

definition put_run :: "store \<Rightarrow> run \<Rightarrow> store" where
  "put_run st r = st\<lparr>st_runs := map (\<lambda>q. if rn_run_id q = rn_run_id r then r else q) (st_runs st)\<rparr>"

record lease_receipt =
  lr_outcome :: string
  lr_run_id :: string
  lr_project_id :: string
  lr_root_session_id :: string
  lr_owner_token :: string
  lr_generation :: int
  lr_expires_at :: "int option"

definition acquire_delegation_run_controller_lease ::
  "store \<Rightarrow> string \<Rightarrow> string \<Rightarrow> string \<Rightarrow> string \<Rightarrow> int \<Rightarrow> int \<Rightarrow> lease_receipt result \<times> store" where
  "acquire_delegation_run_controller_lease st run_id project_id root_session_id owner_token duration now =
     (let rid = py_strip run_id; proj = clean_project_id project_id;
          root = py_strip root_session_id; token = py_strip owner_token
      in if rid = [] \<or> root = [] \<or> token = [] then (Inl ValueError, st)
         else
           let receipt = (\<lambda>outcome owner generation expires.
                 \<lparr>lr_outcome = outcome, lr_run_id = rid, lr_project_id = proj, lr_root_session_id = root,
                  lr_owner_token = owner, lr_generation = generation, lr_expires_at = expires\<rparr>)
           in case get_run st rid of
                None \<Rightarrow> (Inr (receipt ''missing'' [] 0 None), st)
              | Some r \<Rightarrow>
                  if rn_project_id r = proj \<and> rn_session_id r = root \<and>
                     (rn_owner_token r = [] \<or> rn_owner_token r = token \<or>
                      (case rn_expires_at r of None \<Rightarrow> True | Some x \<Rightarrow> x \<le> now))
                  then
                    let same = (rn_owner_token r = token);
                        r' = r\<lparr>rn_owner_token := token,
                               rn_generation := (if same then rn_generation r else rn_generation r + 1),
                               rn_acquired_at :=
                                 (if same \<and> rn_acquired_at r \<noteq> None then rn_acquired_at r else Some now),
                               rn_heartbeat_at := Some now,
                               rn_expires_at := Some (lease_expiry now duration)\<rparr>
                    in (Inr (receipt ''acquired'' token (rn_generation r') (rn_expires_at r')), put_run st r')
                  else (Inr (receipt ''busy'' (rn_owner_token r) (rn_generation r) (rn_expires_at r)), st))"

text \<open>The SQL predicate of a live lease: \<open>controller_lease_expires_at > now\<close>, false for NULL.\<close>

definition lease_live :: "run \<Rightarrow> int \<Rightarrow> bool" where
  "lease_live r now \<longleftrightarrow> (case rn_expires_at r of None \<Rightarrow> False | Some x \<Rightarrow> now < x)"

definition renew_delegation_run_controller_lease ::
  "store \<Rightarrow> string \<Rightarrow> string \<Rightarrow> string \<Rightarrow> string \<Rightarrow> int \<Rightarrow> int \<Rightarrow> int \<Rightarrow> bool \<times> store" where
  "renew_delegation_run_controller_lease st run_id project_id root_session_id owner_token generation
     duration now =
     (case get_run st (py_strip run_id) of
        None \<Rightarrow> (False, st)
      | Some r \<Rightarrow>
          if rn_project_id r = clean_project_id project_id \<and>
             rn_session_id r = py_strip root_session_id \<and>
             rn_owner_token r = py_strip owner_token \<and>
             rn_generation r = generation \<and> lease_live r now
          then (True, put_run st (r\<lparr>rn_heartbeat_at := Some now,
                                     rn_expires_at := Some (lease_expiry now duration)\<rparr>))
          else (False, st))"

definition delegation_run_controller_lease_is_current ::
  "store \<Rightarrow> string \<Rightarrow> string \<Rightarrow> string option \<Rightarrow> string option \<Rightarrow> int option \<Rightarrow> int \<Rightarrow> bool" where
  "delegation_run_controller_lease_is_current st run_id project_id root owner generation now \<longleftrightarrow>
     (case get_run st (py_strip run_id) of
        None \<Rightarrow> False
      | Some r \<Rightarrow>
          rn_project_id r = clean_project_id project_id \<and> rn_owner_token r \<noteq> [] \<and> lease_live r now \<and>
          (case root of None \<Rightarrow> True | Some s \<Rightarrow> rn_session_id r = py_strip s) \<and>
          (case owner of None \<Rightarrow> True | Some t \<Rightarrow> rn_owner_token r = py_strip t) \<and>
          (case generation of None \<Rightarrow> True | Some g \<Rightarrow> rn_generation r = g))"

text \<open>\<open>CAST(json_extract(metadata, key) AS INTEGER)\<close>; \<open>None\<close> is NULL.\<close>

fun sql_digits :: "nat \<Rightarrow> string \<Rightarrow> nat" where
  "sql_digits acc [] = acc"
| "sql_digits acc (c # cs) =
     (if is_digit c then sql_digits (10 * acc + (code_of c - 48)) cs else acc)"

definition sql_space :: "char \<Rightarrow> bool" where
  "sql_space c \<longleftrightarrow> (let n = code_of c in (9 \<le> n \<and> n \<le> 13) \<or> n = 32)"

definition sql_text_integer :: "string \<Rightarrow> int" where
  "sql_text_integer s =
     (case dropWhile sql_space s of
        [] \<Rightarrow> 0
      | c # cs \<Rightarrow>
          if c = CHR ''-'' then - int (sql_digits 0 cs)
          else if c = CHR ''+'' then int (sql_digits 0 cs)
          else int (sql_digits 0 (c # cs)))"

fun cast_integer :: "pyval \<Rightarrow> int option" where
  "cast_integer PNone = None"
| "cast_integer (PBool b) = Some (if b then 1 else 0)"
| "cast_integer (PInt n) = Some n"
| "cast_integer (PStr s) = Some (sql_text_integer s)"
| "cast_integer (PList xs) = Some 0"
| "cast_integer (PDict kvs) = Some 0"

definition cast_integer_or_0 :: "pyval \<Rightarrow> int" where
  "cast_integer_or_0 v = (case cast_integer v of None \<Rightarrow> 0 | Some n \<Rightarrow> n)"

text \<open>\<open>COALESCE(json_extract(metadata, key), '') = ''\<close>.\<close>

definition sql_blank :: "pyval \<Rightarrow> bool" where
  "sql_blank v \<longleftrightarrow> v = PNone \<or> v = PStr []"

definition strip_task_credentials :: "task \<Rightarrow> task" where
  "strip_task_credentials t =
     t\<lparr>tk_metadata := dpop ''claimed_work_item_attempt_seq''
          (dpop ''company_run_controller_lease_generation''
             (dpop ''company_run_controller_owner_token'' (tk_metadata t)))\<rparr>"

definition release_delegation_run_controller_lease ::
  "store \<Rightarrow> string \<Rightarrow> string \<Rightarrow> string \<Rightarrow> string \<Rightarrow> int \<Rightarrow> bool \<times> store" where
  "release_delegation_run_controller_lease st run_id project_id root_session_id owner_token generation =
     (let rid = py_strip run_id; proj = clean_project_id project_id;
          root = py_strip root_session_id; token = py_strip owner_token
      in case get_run st rid of
           None \<Rightarrow> (False, st)
         | Some r \<Rightarrow>
             if rn_project_id r = proj \<and> rn_session_id r = root \<and> rn_owner_token r = token \<and>
                rn_generation r = generation
             then
               let stamped = (\<lambda>t. tk_project_id t = proj \<and>
                     dget (tk_metadata t) ''delegation_run_id'' = PStr rid \<and>
                     dget (tk_metadata t) ''company_run_controller_owner_token'' = PStr token \<and>
                     cast_integer (dget (tk_metadata t) ''company_run_controller_lease_generation'')
                       = Some generation);
                   st1 = st\<lparr>st_tasks :=
                     map (\<lambda>t. if stamped t then strip_task_credentials t else t) (st_tasks st)\<rparr>
               in (True, put_run st1 (r\<lparr>rn_owner_token := [], rn_acquired_at := None,
                                         rn_heartbeat_at := None, rn_expires_at := None\<rparr>))
             else (False, st))"

section \<open>The fence of a projection write\<close>

text \<open>
  The scope of the dispatch-hold check, by the first identifier the caller passes: the work
  item, its runtime task, the role session, the seat.
\<close>

definition hold_in_scope ::
  "store \<Rightarrow> string \<Rightarrow> string \<Rightarrow> string \<Rightarrow> string \<Rightarrow> string \<Rightarrow> work_item \<Rightarrow> bool" where
  "hold_in_scope st work_item_id task_id role_session_id seat_state_id seat_id i \<longleftrightarrow>
     (let w = py_strip work_item_id; t = py_strip task_id;
          s = py_strip role_session_id; state = py_strip seat_state_id; seat = py_strip seat_id
      in if w \<noteq> [] then wi_work_item_id i = w
         else if t \<noteq> [] then
           list_ex (\<lambda>(wid, tid). wid = wi_work_item_id i \<and>
                      (tid = t \<or> take (length tid + 2) t = tid @ ''::'')) (st_links st)
         else if s \<noteq> [] then
           wi_role_runtime_session_id i = s \<or> wi_claimed_by_role_runtime_session_id i = s \<or>
           dget (wi_metadata i) ''claimed_by_role_session_id'' = PStr s
         else if state \<noteq> [] \<or> seat \<noteq> [] then
           state \<noteq> [] \<and> wi_seat_state_id i = state \<or>
           seat \<noteq> [] \<and> (wi_seat_id i = seat \<or> wi_claimed_by_seat_id i = seat)
         else True)"

definition require_company_controller_record_write ::
  "store \<Rightarrow> string \<Rightarrow> string \<Rightarrow> string \<Rightarrow> int \<Rightarrow> int \<Rightarrow> bool
     \<Rightarrow> string \<Rightarrow> string \<Rightarrow> string \<Rightarrow> string \<Rightarrow> string \<Rightarrow> unit result" where
  "require_company_controller_record_write st run_id project_id owner_token generation now
     reject_dispatch_hold work_item_id task_id role_session_id seat_state_id seat_id =
     (let rid = py_strip run_id
      in if rid = [] then Inr ()
         else case get_run st rid of
           None \<Rightarrow> Inr ()
         | Some r \<Rightarrow>
             if rn_generation r \<le> 0 then Inr ()
             else if py_strip (if rn_project_id r = [] then ''default'' else rn_project_id r)
                       \<noteq> clean_project_id project_id \<or>
                     py_strip owner_token = [] \<or>
                     py_strip (rn_owner_token r) \<noteq> py_strip owner_token \<or>
                     rn_generation r \<noteq> generation \<or>
                     \<not> lease_live r now
             then Inl LeaseLost
             else if reject_dispatch_hold \<and>
                     list_ex (\<lambda>i. wi_run_id i = rid \<and>
                                \<not> sql_blank (dget (wi_metadata i) ''dispatch_hold'') \<and>
                                hold_in_scope st work_item_id task_id role_session_id seat_state_id seat_id i)
                       (st_items st)
             then Inl LeaseLost
             else Inr ())"

section \<open>Claiming a card\<close>

definition claim_metadata ::
  "pydict \<Rightarrow> string \<Rightarrow> string \<Rightarrow> int \<Rightarrow> string \<Rightarrow> int \<Rightarrow> string \<Rightarrow> pydict" where
  "claim_metadata md role_session task_id revision token generation stamp =
     dupdate md
       [(''claimed_by_role_session_id'', PStr role_session),
        (''claimed_task_id'', PStr task_id),
        (''claimed_work_item_revision'', PInt revision),
        (''attempt_seq'', PInt (cast_integer_or_0 (dget md ''attempt_seq'') + 1)),
        (''attempt_settled'', PBool False),
        (''attempt_outcome'', PStr []),
        (''company_run_controller_owner_token'', PStr token),
        (''company_run_controller_lease_generation'', PInt generation),
        (''attempt_started_at'', PStr stamp)]"

definition claim_lease_ok :: "store \<Rightarrow> work_item \<Rightarrow> string \<Rightarrow> int \<Rightarrow> int \<Rightarrow> bool" where
  "claim_lease_ok st i token generation now \<longleftrightarrow>
     (case get_run st (wi_run_id i) of
        None \<Rightarrow> True
      | Some r \<Rightarrow> token \<noteq> [] \<and> rn_owner_token r = token \<and> rn_generation r = generation \<and>
                   lease_live r now)"

text \<open>The \<open>UPDATE ... WHERE\<close> of the claim: one atomic compare-and-set.\<close>

definition claim_row ::
  "store \<Rightarrow> string \<Rightarrow> phase \<Rightarrow> string \<Rightarrow> string \<Rightarrow> string \<Rightarrow> int \<Rightarrow> string \<Rightarrow> int
     \<Rightarrow> int \<Rightarrow> string \<Rightarrow> (bool \<times> store)" where
  "claim_row st wid expected role_session seat task_id revision token generation now stamp =
     (case get_item st wid of
        None \<Rightarrow> (False, st)
      | Some i \<Rightarrow>
          if wi_phase i = expected \<and>
             wi_claimed_by_role_runtime_session_id i = [] \<and> wi_claimed_by_seat_id i = [] \<and>
             sql_blank (dget (wi_metadata i) ''dispatch_hold'') \<and>
             sql_blank (dget (wi_metadata i) ''queued_behind_session'') \<and>
             cast_integer_or_0 (dget (wi_metadata i) ''manager_mutation_revision'') = revision \<and>
             claim_lease_ok st i token generation now
          then (True, put_item st
                  (i\<lparr>wi_phase := RUNNING, wi_role_runtime_session_id := role_session,
                     wi_claimed_by_role_runtime_session_id := role_session,
                     wi_claimed_by_seat_id := seat,
                     wi_metadata := claim_metadata (wi_metadata i) role_session task_id revision
                                      token generation stamp,
                     wi_updated_at := now\<rparr>))
          else (False, st))"

text \<open>The read back after the commit: a newer hold or release withdraws the permission to spawn.\<close>

definition claim_confirmed :: "work_item \<Rightarrow> string \<Rightarrow> string \<Rightarrow> bool" where
  "claim_confirmed i role_session task_id \<longleftrightarrow>
     wi_phase i = RUNNING \<and>
     py_strip (wi_claimed_by_role_runtime_session_id i) = role_session \<and>
     clean (dget (wi_metadata i) ''claimed_by_role_session_id'') = role_session \<and>
     clean (dget (wi_metadata i) ''claimed_task_id'') = task_id \<and>
     clean (dget (wi_metadata i) ''dispatch_hold'') = [] \<and>
     clean (dget (wi_metadata i) ''queued_behind_session'') = []"

definition claim_delegation_work_item_if_dispatchable ::
  "store \<Rightarrow> string \<Rightarrow> phase_arg \<Rightarrow> string \<Rightarrow> string \<Rightarrow> string \<Rightarrow> int \<Rightarrow> string \<Rightarrow> int
     \<Rightarrow> int \<Rightarrow> string \<Rightarrow> work_item option result \<times> store" where
  "claim_delegation_work_item_if_dispatchable st work_item_id expected_phase role_session seat_id task_id
     revision token generation now stamp =
     (case coerce_phase expected_phase of
        Inl e \<Rightarrow> (Inl e, st)
      | Inr p \<Rightarrow>
          if p \<notin> {READY, READY_FOR_REWORK} \<union> IN_PROGRESS_PHASES then (Inr None, st)
          else case (if p = RUNNING then Inr () else validate_transition (Some p) RUNNING) of
            Inl e \<Rightarrow> (Inl e, st)
          | Inr _ \<Rightarrow>
              let s = py_strip role_session; t = py_strip task_id
              in if work_item_id = [] \<or> s = [] \<or> t = [] then (Inr None, st)
                 else
                   let (won, st') = claim_row st (py_strip work_item_id) p s (py_strip seat_id) t
                                      revision (py_strip token) generation now stamp
                   in if \<not> won then (Inr None, st')
                      else case get_item st' work_item_id of
                             None \<Rightarrow> (Inr None, st')
                           | Some i \<Rightarrow> (Inr (if claim_confirmed i s t then Some i else None), st'))"

section \<open>The stale-claim sweep\<close>

definition run_has_live_controller :: "store \<Rightarrow> string \<Rightarrow> int \<Rightarrow> bool" where
  "run_has_live_controller st rid now \<longleftrightarrow>
     list_ex (\<lambda>r. rn_run_id r = rid \<and> rn_owner_token r \<noteq> [] \<and> lease_live r now) (st_runs st)"

definition stale_claim :: "store \<Rightarrow> int \<Rightarrow> work_item \<Rightarrow> bool" where
  "stale_claim st now i \<longleftrightarrow>
     (wi_claimed_by_role_runtime_session_id i \<noteq> [] \<or> wi_claimed_by_seat_id i \<noteq> []) \<and>
     (is_stale_claim_releasable (wi_phase i) \<or> is_runnable (wi_phase i)) \<and>
     \<not> run_has_live_controller st (wi_run_id i) now"

definition sweep_claim :: "int \<Rightarrow> string \<Rightarrow> work_item \<Rightarrow> work_item" where
  "sweep_claim now stamp i =
     i\<lparr>wi_claimed_by_role_runtime_session_id := [], wi_claimed_by_seat_id := [],
       wi_metadata := dupdate (wi_metadata i)
         [(''claimed_by_role_session_id'', PStr []), (''claimed_task_id'', PStr []),
          (''claim_swept_at'', PStr stamp)],
       wi_updated_at := now\<rparr>"

definition sweep_stale_claims :: "store \<Rightarrow> int \<Rightarrow> string \<Rightarrow> nat \<times> store" where
  "sweep_stale_claims st now stamp =
     (length (filter (stale_claim st now) (st_items st)),
      st\<lparr>st_items := map (\<lambda>i. if stale_claim st now i then sweep_claim now stamp i else i) (st_items st)\<rparr>)"

section \<open>Facts about the lease\<close>

lemma get_put_run:
  "get_run st rid = Some q \<Longrightarrow> rn_run_id r = rid \<Longrightarrow> get_run (put_run st r) rid = Some r"
proof -
  have "find (\<lambda>x. rn_run_id x = rid) rs = Some q \<Longrightarrow> rn_run_id r = rid \<Longrightarrow>
        find (\<lambda>x. rn_run_id x = rid) (map (\<lambda>x. if rn_run_id x = rn_run_id r then r else x) rs) = Some r"
    for rs by (induction rs) (auto split: if_splits)
  then show "get_run st rid = Some q \<Longrightarrow> rn_run_id r = rid \<Longrightarrow> ?thesis"
    by (simp add: get_run_def put_run_def)
qed

lemma get_put_run_other: "rn_run_id r \<noteq> rid \<Longrightarrow> get_run (put_run st r) rid = get_run st rid"
proof -
  have "rn_run_id r \<noteq> rid \<Longrightarrow>
        find (\<lambda>x. rn_run_id x = rid) (map (\<lambda>x. if rn_run_id x = rn_run_id r then r else x) rs)
          = find (\<lambda>x. rn_run_id x = rid) rs"
    for rs by (induction rs) auto
  then show "rn_run_id r \<noteq> rid \<Longrightarrow> ?thesis" by (simp add: get_run_def put_run_def)
qed

lemma get_run_id: "get_run st rid = Some r \<Longrightarrow> rn_run_id r = rid"
  by (auto simp: get_run_def find_Some_iff)

lemma get_run_tasks [simp]: "get_run (st\<lparr>st_tasks := ts\<rparr>) rid = get_run st rid"
  by (simp add: get_run_def)

text \<open>The lease operations as one step relation on the store, with the grant a step makes.\<close>

datatype lease_op =
    Acquire string string string string int int
  | Renew string string string string int int int
  | Release string string string string int

type_synonym grant = "string \<times> int \<times> string"

fun lease_step :: "store \<Rightarrow> lease_op \<Rightarrow> grant option \<times> store" where
  "lease_step st (Acquire rid proj root token duration now) =
     (case acquire_delegation_run_controller_lease st rid proj root token duration now of
        (Inr rc, st') \<Rightarrow>
          (if lr_outcome rc = ''acquired''
           then Some (lr_run_id rc, lr_generation rc, lr_owner_token rc) else None, st')
      | (Inl e, st') \<Rightarrow> (None, st'))"
| "lease_step st (Renew rid proj root token generation duration now) =
     (None, snd (renew_delegation_run_controller_lease st rid proj root token generation duration now))"
| "lease_step st (Release rid proj root token generation) =
     (None, snd (release_delegation_run_controller_lease st rid proj root token generation))"

fun lease_run :: "store \<Rightarrow> lease_op list \<Rightarrow> grant list \<times> store" where
  "lease_run st [] = ([], st)"
| "lease_run st (op # ops) =
     (let (g, st1) = lease_step st op; (gs, st2) = lease_run st1 ops
      in ((case g of None \<Rightarrow> gs | Some x \<Rightarrow> x # gs), st2))"

text \<open>The row is past generation \<open>g\<close>, or still at \<open>g\<close> and owned by \<open>t\<close> or by nobody.\<close>

definition credential_bound :: "string \<Rightarrow> string \<Rightarrow> int \<Rightarrow> store \<Rightarrow> bool" where
  "credential_bound rid t g st \<longleftrightarrow>
     (\<exists>r. get_run st rid = Some r \<and>
          (g < rn_generation r \<or> rn_generation r = g \<and> rn_owner_token r \<in> {t, []}))"

lemma put_run_bound:
  assumes "credential_bound rid t g st" "get_run st (rn_run_id r) = Some q"
    and "rn_generation q < rn_generation r \<or>
         rn_generation r = rn_generation q \<and> (rn_owner_token r = rn_owner_token q \<or> rn_owner_token r = [])"
  shows "credential_bound rid t g (put_run st r)"
  using assms get_put_run [OF assms(2), of r] get_put_run_other [of r rid st]
  by (cases "rn_run_id r = rid") (auto simp: credential_bound_def)

lemma acquire_cases:
  assumes "acquire_delegation_run_controller_lease st rid proj root token duration now = (res, st')"
  obtains (idle) "st' = st" "\<And>rc. res = Inr rc \<Longrightarrow> lr_outcome rc \<noteq> ''acquired''"
  | (granted) r r' rc where "get_run st (py_strip rid) = Some r" "st' = put_run st r'" "res = Inr rc"
      "lr_outcome rc = ''acquired''" "lr_run_id rc = py_strip rid" "rn_run_id r' = py_strip rid"
      "lr_owner_token rc = py_strip token" "rn_owner_token r' = py_strip token"
      "lr_generation rc = rn_generation r'" "py_strip token \<noteq> []"
      "rn_generation r' = (if rn_owner_token r = py_strip token then rn_generation r else rn_generation r + 1)"
      "rn_expires_at r' = Some (lease_expiry now duration)"
      "rn_owner_token r = [] \<or> rn_owner_token r = py_strip token \<or> \<not> lease_live r now"
      "rn_project_id r' = clean_project_id proj" "rn_session_id r' = py_strip root"
proof (cases "get_run st (py_strip rid)")
  case None
  with assms show ?thesis
    by (intro idle) (auto simp: acquire_delegation_run_controller_lease_def Let_def split: if_splits)
next
  case (Some r)
  show ?thesis
  proof (cases "\<exists>rc. res = Inr rc \<and> lr_outcome rc = ''acquired''")
    case True
    then obtain rc where rc: "res = Inr rc" "lr_outcome rc = ''acquired''" by blast
    define same where "same = (rn_owner_token r = py_strip token)"
    define r' where "r' = r\<lparr>rn_owner_token := py_strip token,
                            rn_generation := (if same then rn_generation r else rn_generation r + 1),
                            rn_acquired_at :=
                              (if same \<and> rn_acquired_at r \<noteq> None then rn_acquired_at r else Some now),
                            rn_heartbeat_at := Some now,
                            rn_expires_at := Some (lease_expiry now duration)\<rparr>"
    have ok: "py_strip rid \<noteq> [] \<and> py_strip root \<noteq> [] \<and> py_strip token \<noteq> []"
      and cond: "rn_project_id r = clean_project_id proj \<and> rn_session_id r = py_strip root \<and>
        (rn_owner_token r = [] \<or> rn_owner_token r = py_strip token \<or>
         (case rn_expires_at r of None \<Rightarrow> True | Some x \<Rightarrow> x \<le> now))"
      using assms rc Some
      by (auto simp: acquire_delegation_run_controller_lease_def Let_def split: if_splits)
    have "acquire_delegation_run_controller_lease st rid proj root token duration now =
        (Inr \<lparr>lr_outcome = ''acquired'', lr_run_id = py_strip rid, lr_project_id = clean_project_id proj,
              lr_root_session_id = py_strip root, lr_owner_token = py_strip token,
              lr_generation = rn_generation r', lr_expires_at = rn_expires_at r'\<rparr>, put_run st r')"
      using Some ok cond
      unfolding acquire_delegation_run_controller_lease_def Let_def r'_def same_def by simp
    with assms rc(1) have eval: "st' = put_run st r'" "lr_run_id rc = py_strip rid"
      "lr_owner_token rc = py_strip token" "lr_generation rc = rn_generation r'" by auto
    show ?thesis
      by (rule granted [OF Some eval(1) rc eval(2) _ eval(3) _ eval(4)])
         (use ok cond get_run_id [OF Some] in
           \<open>auto simp: r'_def same_def lease_live_def split: option.splits\<close>)
  next
    case False
    with assms Some show ?thesis
      by (intro idle) (auto simp: acquire_delegation_run_controller_lease_def Let_def split: if_splits)
  qed
qed

lemma renew_cases:
  obtains (idle) "renew_delegation_run_controller_lease st rid proj root token g d now = (False, st)"
  | (renewed) r where "get_run st (py_strip rid) = Some r" "lease_live r now"
      "rn_owner_token r = py_strip token" "rn_generation r = g"
      "rn_project_id r = clean_project_id proj" "rn_session_id r = py_strip root"
      "renew_delegation_run_controller_lease st rid proj root token g d now =
         (True, put_run st (r\<lparr>rn_heartbeat_at := Some now, rn_expires_at := Some (lease_expiry now d)\<rparr>))"
proof (cases "get_run st (py_strip rid)")
  case None
  then show ?thesis by (intro idle) (simp add: renew_delegation_run_controller_lease_def)
next
  case (Some r)
  show ?thesis
  proof (cases "rn_project_id r = clean_project_id proj \<and> rn_session_id r = py_strip root \<and>
                rn_owner_token r = py_strip token \<and> rn_generation r = g \<and> lease_live r now")
    case True
    show ?thesis
      by (rule renewed [OF Some])
         (use True Some in \<open>simp_all add: renew_delegation_run_controller_lease_def\<close>)
  next
    case False
    with Some show ?thesis
      by (intro idle) (auto simp: renew_delegation_run_controller_lease_def)
  qed
qed

lemma release_cases:
  obtains (idle) "release_delegation_run_controller_lease st rid proj root token g = (False, st)"
  | (released) r ts where "get_run st (py_strip rid) = Some r" "rn_generation r = g"
      "rn_owner_token r = py_strip token"
      "release_delegation_run_controller_lease st rid proj root token g =
         (True, put_run (st\<lparr>st_tasks := ts\<rparr>) (r\<lparr>rn_owner_token := [], rn_acquired_at := None,
                                  rn_heartbeat_at := None, rn_expires_at := None\<rparr>))"
proof (cases "get_run st (py_strip rid)")
  case None
  then show ?thesis by (intro idle) (simp add: release_delegation_run_controller_lease_def)
next
  case (Some r)
  show ?thesis
  proof (cases "rn_project_id r = clean_project_id proj \<and> rn_session_id r = py_strip root \<and>
                rn_owner_token r = py_strip token \<and> rn_generation r = g")
    case True
    show ?thesis
      by (rule released [OF Some])
         (use True Some in \<open>simp_all add: release_delegation_run_controller_lease_def Let_def\<close>)
  next
    case False
    with Some show ?thesis
      by (intro idle) (auto simp: release_delegation_run_controller_lease_def Let_def)
  qed
qed

lemma lease_step_bound:
  assumes "credential_bound rid t g st"
  shows "credential_bound rid t g (snd (lease_step st op))"
proof (cases op)
  case (Acquire r proj root token d now)
  obtain res st' where a: "acquire_delegation_run_controller_lease st r proj root token d now = (res, st')"
    by fastforce
  then show ?thesis
  proof (cases rule: acquire_cases)
    case idle
    with a assms Acquire show ?thesis by (auto split: sum.splits)
  next
    case (granted q q' rc)
    then have "credential_bound rid t g (put_run st q')"
      by (intro put_run_bound [OF assms, of q' q]) auto
    with a Acquire granted show ?thesis by simp
  qed
next
  case (Renew r proj root token h d now)
  show ?thesis
  proof (cases rule: renew_cases [of st r proj root token h d now])
    case idle
    with assms Renew show ?thesis by simp
  next
    case (renewed q)
    with Renew show ?thesis
      by (simp add: put_run_bound [OF assms, where q = q] get_run_id [OF renewed(1)])
  qed
next
  case (Release r proj root token h)
  show ?thesis
  proof (cases rule: release_cases [of st r proj root token h])
    case idle
    with assms Release show ?thesis by simp
  next
    case (released q ts)
    have "credential_bound rid t g (st\<lparr>st_tasks := ts\<rparr>)"
      using assms by (simp add: credential_bound_def)
    with released Release show ?thesis
      by (simp add: put_run_bound [where q = q] get_run_id [OF released(1)])
  qed
qed

lemma lease_step_grant:
  assumes "fst (lease_step st op) = Some (rid, g, t)"
  shows "credential_bound rid t g (snd (lease_step st op)) \<and>
         (credential_bound rid t' g' st \<longrightarrow> g' < g \<or> g' = g \<and> t' = t)"
proof -
  from assms obtain r proj root token d now where op: "op = Acquire r proj root token d now"
    by (cases op) auto
  obtain res st' where a: "acquire_delegation_run_controller_lease st r proj root token d now = (res, st')"
    by fastforce
  then show ?thesis
  proof (cases rule: acquire_cases)
    case idle
    with a assms op show ?thesis by (auto split: sum.splits if_splits)
  next
    case (granted q q' rc)
    have st': "snd (lease_step st op) = put_run st q'"
      and "fst (lease_step st op) = Some (py_strip r, lr_generation rc, py_strip token)"
      using a op granted(1-4) \<open>lr_run_id rc = py_strip r\<close> \<open>lr_owner_token rc = py_strip token\<close> by simp_all
    with assms \<open>lr_generation rc = rn_generation q'\<close>
    have eq: "rid = py_strip r" "g = rn_generation q'" "t = py_strip token" by auto
    have "get_run (put_run st q') rid = Some q'"
      using granted eq by (auto intro: get_put_run)
    with granted eq st' show ?thesis by (auto simp: credential_bound_def split: if_splits)
  qed
qed

lemma lease_run_bound:
  "credential_bound rid t g st \<Longrightarrow> credential_bound rid t g (snd (lease_run st ops))"
proof (induction ops arbitrary: st)
  case (Cons op ops)
  from Cons.IH [OF lease_step_bound [OF Cons.prems, of op]] show ?case
    by (auto simp: Let_def split: prod.splits)
qed simp

lemma lease_run_grants:
  "credential_bound rid t g st \<Longrightarrow> (rid, g', t') \<in> set (fst (lease_run st ops)) \<Longrightarrow>
     g < g' \<or> g = g' \<and> t = t'"
proof (induction ops arbitrary: st)
  case (Cons op ops)
  obtain x st1 where s: "lease_step st op = (x, st1)" by fastforce
  have b: "credential_bound rid t g st1" using lease_step_bound [OF Cons.prems(1), of op] s by simp
  show ?case
  proof (cases "x = Some (rid, g', t')")
    case True
    with s Cons.prems(1) show ?thesis
      using lease_step_grant [of st op rid g' t' t g] by simp
  next
    case False
    with s Cons.prems(2) have "(rid, g', t') \<in> set (fst (lease_run st1 ops))"
      by (auto simp: Let_def split: prod.splits option.splits)
    with Cons.IH [OF b] show ?thesis by blast
  qed
qed simp

section \<open>Facts about claims, the ledger and the sweep\<close>

lemma claim_row_cases:
  obtains (lost) "claim_row st wid p s seat t rv token g now stamp = (False, st)"
  | (won) i j where "get_item st wid = Some i" "wi_phase i = p"
      "wi_claimed_by_role_runtime_session_id i = []" "wi_claimed_by_seat_id i = []"
      "sql_blank (dget (wi_metadata i) ''dispatch_hold'')"
      "sql_blank (dget (wi_metadata i) ''queued_behind_session'')"
      "claim_lease_ok st i token g now"
      "j = i\<lparr>wi_phase := RUNNING, wi_role_runtime_session_id := s,
             wi_claimed_by_role_runtime_session_id := s, wi_claimed_by_seat_id := seat,
             wi_metadata := claim_metadata (wi_metadata i) s t rv token g stamp, wi_updated_at := now\<rparr>"
      "claim_row st wid p s seat t rv token g now stamp = (True, put_item st j)"
proof (cases "get_item st wid")
  case None
  then show ?thesis by (intro lost) (simp add: claim_row_def)
next
  case (Some i)
  show ?thesis
  proof (cases "wi_phase i = p \<and>
             wi_claimed_by_role_runtime_session_id i = [] \<and> wi_claimed_by_seat_id i = [] \<and>
             sql_blank (dget (wi_metadata i) ''dispatch_hold'') \<and>
             sql_blank (dget (wi_metadata i) ''queued_behind_session'') \<and>
             cast_integer_or_0 (dget (wi_metadata i) ''manager_mutation_revision'') = rv \<and>
             claim_lease_ok st i token g now")
    case True
    show ?thesis
      by (rule won [OF Some _ _ _ _ _ _ refl]) (use True Some in \<open>simp_all add: claim_row_def\<close>)
  next
    case False
    with Some show ?thesis by (intro lost) (auto simp: claim_row_def)
  qed
qed

lemma claim_cases:
  assumes "claim_delegation_work_item_if_dispatchable st wid p s seat t rv token g now stamp = (res, st')"
  obtains (idle) "st' = st" "\<And>j. res \<noteq> Inr (Some j)"
  | (cas) q i j where "coerce_phase p = Inr q" "q \<in> {READY, READY_FOR_REWORK} \<union> IN_PROGRESS_PHASES"
      "py_strip s \<noteq> []" "get_item st (py_strip wid) = Some i" "wi_phase i = q"
      "wi_claimed_by_role_runtime_session_id i = []" "wi_claimed_by_seat_id i = []"
      "sql_blank (dget (wi_metadata i) ''dispatch_hold'')"
      "sql_blank (dget (wi_metadata i) ''queued_behind_session'')"
      "claim_lease_ok st i (py_strip token) g now"
      "j = i\<lparr>wi_phase := RUNNING, wi_role_runtime_session_id := py_strip s,
             wi_claimed_by_role_runtime_session_id := py_strip s, wi_claimed_by_seat_id := py_strip seat,
             wi_metadata := claim_metadata (wi_metadata i) (py_strip s) (py_strip t) rv (py_strip token) g stamp,
             wi_updated_at := now\<rparr>"
      "st' = put_item st j" "\<And>k. res = Inr (Some k) \<Longrightarrow> get_item st' wid = Some k \<and> claim_confirmed k (py_strip s) (py_strip t)"
proof (cases "coerce_phase p")
  case (Inl e)
  with assms show ?thesis by (intro idle) (auto simp: claim_delegation_work_item_if_dispatchable_def)
next
  case (Inr q)
  show ?thesis
  proof (cases "q \<in> {READY, READY_FOR_REWORK} \<union> IN_PROGRESS_PHASES \<and> wid \<noteq> [] \<and> py_strip s \<noteq> [] \<and> py_strip t \<noteq> []")
    case False
    with assms Inr show ?thesis
      by (intro idle)
         (auto simp: claim_delegation_work_item_if_dispatchable_def Let_def split: if_splits sum.splits prod.splits)
  next
    case True
    then have v: "(if q = RUNNING then Inr () else validate_transition (Some q) RUNNING) = Inr ()"
      by (auto simp: phase_sets validate_transition_Some)
    have eq: "claim_delegation_work_item_if_dispatchable st wid p s seat t rv token g now stamp =
      (case claim_row st (py_strip wid) q (py_strip s) (py_strip seat) (py_strip t) rv (py_strip token) g now stamp of
        (won, st') \<Rightarrow>
          if \<not> won then (Inr None, st')
          else case get_item st' wid of None \<Rightarrow> (Inr None, st')
             | Some i \<Rightarrow> (Inr (if claim_confirmed i (py_strip s) (py_strip t) then Some i else None), st'))"
      using True Inr unfolding claim_delegation_work_item_if_dispatchable_def
      by (simp only: sum.case v Let_def) simp
    show ?thesis
    proof (cases rule: claim_row_cases [of st "py_strip wid" q "py_strip s" "py_strip seat" "py_strip t" rv "py_strip token" g now stamp])
      case lost
      with assms eq show ?thesis by (intro idle) auto
    next
      case (won i j)
      show ?thesis
        by (rule cas [OF Inr _ _ won(1-8)])
           (use True assms eq won(9) in \<open>auto split: option.splits if_splits\<close>)
    qed
  qed
qed

lemma claim_metadata_get:
  "dget (claim_metadata md s t rv token g stamp) k =
     (if k = ''attempt_started_at'' then PStr stamp
      else if k = ''company_run_controller_lease_generation'' then PInt g
      else if k = ''company_run_controller_owner_token'' then PStr token
      else if k = ''attempt_outcome'' then PStr []
      else if k = ''attempt_settled'' then PBool False
      else if k = ''attempt_seq'' then PInt (cast_integer_or_0 (dget md ''attempt_seq'') + 1)
      else if k = ''claimed_work_item_revision'' then PInt rv
      else if k = ''claimed_task_id'' then PStr t
      else if k = ''claimed_by_role_session_id'' then PStr s
      else dget md k)"
  by (simp add: claim_metadata_def)

lemma claim_opens_attempt:
  "0 \<le> cast_integer_or_0 (dget md ''attempt_seq'') \<Longrightarrow>
     has_open_attempt (claim_metadata md s t rv token g stamp)"
  by (simp add: has_open_attempt_def attempt_ledger_int_def claim_metadata_get py_int_PInt_or)
     (simp add: claim_metadata_def)

text \<open>A sequence of claims by any dispatchers; the cards for which one got permission to spawn.\<close>

record claim_call =
  cc_work_item_id :: string
  cc_expected_phase :: phase_arg
  cc_role_session :: string
  cc_seat :: string
  cc_task :: string
  cc_revision :: int
  cc_token :: string
  cc_generation :: int
  cc_now :: int
  cc_stamp :: string

definition claim_call :: "store \<Rightarrow> claim_call \<Rightarrow> work_item option result \<times> store" where
  "claim_call st c =
     claim_delegation_work_item_if_dispatchable st (cc_work_item_id c) (cc_expected_phase c)
       (cc_role_session c) (cc_seat c) (cc_task c) (cc_revision c) (cc_token c) (cc_generation c)
       (cc_now c) (cc_stamp c)"

fun claim_all :: "store \<Rightarrow> claim_call list \<Rightarrow> string list \<times> store" where
  "claim_all st [] = ([], st)"
| "claim_all st (c # cs) =
     (let (r, st1) = claim_call st c; (ws, st2) = claim_all st1 cs
      in ((case r of Inr (Some i) \<Rightarrow> py_strip (cc_work_item_id c) # ws | _ \<Rightarrow> ws), st2))"

definition owned :: "store \<Rightarrow> string \<Rightarrow> bool" where
  "owned st wid \<longleftrightarrow>
     (case get_item st wid of None \<Rightarrow> False | Some i \<Rightarrow> wi_claimed_by_role_runtime_session_id i \<noteq> [])"

lemma claim_call_step:
  assumes "claim_call st c = (r, st')"
  shows "(owned st wid \<longrightarrow> owned st' wid \<and> (\<forall>i. r = Inr (Some i) \<longrightarrow> py_strip (cc_work_item_id c) \<noteq> wid)) \<and>
         (\<forall>i. r = Inr (Some i) \<longrightarrow> owned st' (py_strip (cc_work_item_id c)))"
  using assms [unfolded claim_call_def]
proof (cases rule: claim_cases)
  case idle
  then show ?thesis by auto
next
  case (cas q i j)
  have "wi_work_item_id j = py_strip (cc_work_item_id c)"
    using cas by (simp add: get_item_id)
  moreover have "wi_claimed_by_role_runtime_session_id j \<noteq> []" using cas by simp
  moreover have "\<not> owned st (py_strip (cc_work_item_id c))" using cas by (simp add: owned_def)
  ultimately show ?thesis
    using cas(12) by (auto simp: owned_def split: option.splits if_splits)
qed

lemma claim_all_owned:
  "owned st wid \<Longrightarrow> wid \<notin> set (fst (claim_all st cs))"
proof (induction cs arbitrary: st)
  case (Cons c cs)
  obtain r st1 where c: "claim_call st c = (r, st1)" by fastforce
  obtain ws st2 where rest: "claim_all st1 cs = (ws, st2)" by fastforce
  have "wid \<notin> set ws"
    using claim_call_step [OF c, of wid] Cons rest by (metis fst_conv)
  with claim_call_step [OF c, of wid] Cons.prems show ?case
    by (auto simp: c rest split: sum.splits option.splits)
qed simp

lemma find_map_id:
  "(\<And>i. wi_work_item_id (f i) = wi_work_item_id i) \<Longrightarrow>
     find (\<lambda>i. wi_work_item_id i = wid) (map f js) = map_option f (find (\<lambda>i. wi_work_item_id i = wid) js)"
  by (induction js) auto

lemma get_item_sweep:
  "get_item (snd (sweep_stale_claims st now stamp)) wid =
     map_option (\<lambda>i. if stale_claim st now i then sweep_claim now stamp i else i) (get_item st wid)"
  by (simp add: get_item_def sweep_stale_claims_def find_map_id sweep_claim_def)

text \<open>The history of attempts: each is opened by a claim and settled with an outcome.\<close>

definition run_attempt :: "string \<Rightarrow> pydict \<Rightarrow> pydict" where
  "run_attempt outcome md =
     (let m = claim_metadata md ''session'' ''task'' 0 ''token'' 1 ''start''
      in dupdate m (build_attempt_settlement_updates m outcome ''end''))"

definition attempt_history :: "string list \<Rightarrow> pydict" where
  "attempt_history outcomes = fold run_attempt outcomes []"

text \<open>The attempts after the last one that neither crashed nor was interrupted.\<close>

definition bad_tail :: "string list \<Rightarrow> string list" where
  "bad_tail outcomes = takeWhile (\<lambda>s. s \<in> {''crashed'', ''interrupted''}) (rev (map py_strip outcomes))"

lemma bad_tail_snoc:
  "bad_tail (os @ [x]) =
     (if py_strip x \<in> {''crashed'', ''interrupted''} then py_strip x # bad_tail os else [])"
  by (simp add: bad_tail_def)

lemma run_attempt_get:
  assumes "cast_integer_or_0 (dget md ''attempt_seq'') = int n"
  shows "dget (run_attempt x md) ''attempt_seq'' = PInt (int n + 1) \<and>
     attempt_ledger_int (run_attempt x md) ''attempt_crash_streak'' =
       (if py_strip x = ''crashed'' then attempt_ledger_int md ''attempt_crash_streak'' + 1
        else if py_strip x = ''interrupted'' then attempt_ledger_int md ''attempt_crash_streak'' else 0) \<and>
     attempt_ledger_int (run_attempt x md) ''attempt_interrupted_streak'' =
       (if py_strip x = ''crashed'' then attempt_ledger_int md ''attempt_interrupted_streak''
        else if py_strip x = ''interrupted'' then attempt_ledger_int md ''attempt_interrupted_streak'' + 1 else 0)"
proof -
  let ?m = "claim_metadata md ''session'' ''task'' 0 ''token'' 1 ''start''"
  have "has_open_attempt ?m" using assms by (intro claim_opens_attempt) simp
  then show ?thesis
    using assms
    by (simp add: run_attempt_def build_attempt_settlement_updates_def Let_def attempt_ledger_int_def
        claim_metadata_get py_int_PInt_or)
qed

lemma attempt_history_ledger:
  "cast_integer_or_0 (dget (attempt_history os) ''attempt_seq'') = int (length os) \<and>
   attempt_ledger_int (attempt_history os) ''attempt_crash_streak''
     = int (length (filter (\<lambda>s. s = ''crashed'') (bad_tail os))) \<and>
   attempt_ledger_int (attempt_history os) ''attempt_interrupted_streak''
     = int (length (filter (\<lambda>s. s = ''interrupted'') (bad_tail os)))"
proof (induction os rule: rev_induct)
  case Nil
  show ?case
    by (simp add: attempt_history_def bad_tail_def attempt_ledger_int_def cast_integer_or_0_def py_or_def)
next
  case (snoc x os)
  have step: "attempt_history (os @ [x]) = run_attempt x (attempt_history os)"
    by (simp add: attempt_history_def)
  from run_attempt_get [of "attempt_history os" "length os" x] snoc.IH show ?case
    by (simp add: step bad_tail_snoc cast_integer_or_0_def)
qed

section \<open>Properties\<close>

text \<open>
  C37. The generation is a fence.  In any sequence of acquire, renew and release calls by any
  controllers, with any clocks, the generations granted for one run never decrease, and two
  grants of the same generation of a run went to the same owner token.
\<close>

theorem lease_generations_fence:
  "sorted_wrt (\<lambda>(rid, g, t) (rid', g', t'). rid = rid' \<longrightarrow> g < g' \<or> g = g' \<and> t = t')
     (fst (lease_run st ops))"
proof (induction ops arbitrary: st)
  case (Cons op ops)
  obtain x st1 where s: "lease_step st op = (x, st1)" by fastforce
  obtain gs st2 where rest: "lease_run st1 ops = (gs, st2)" by fastforce
  show ?case
  proof (cases x)
    case None
    with Cons.IH [of st1] s rest show ?thesis by simp
  next
    case (Some y)
    obtain rid g t where y: "y = (rid, g, t)" by (cases y)
    have "credential_bound rid t g st1"
      using lease_step_grant [of st op rid g t] s Some y by simp
    then have "\<forall>(rid', g', t')\<in>set gs. rid = rid' \<longrightarrow> g < g' \<or> g = g' \<and> t = t'"
      using lease_run_grants [of rid t g st1 _ _ ops] rest by fastforce
    with Cons.IH [of st1] s rest Some y show ?thesis by simp
  qed
qed simp

text \<open>A takeover after expiry gets the next generation; a re-acquisition by the owner keeps it.\<close>

theorem lease_generations_fence_witness:
  "(\<lambda>(rid, g, t) (rid', g', t'). rid = rid' \<longrightarrow> g < g' \<or> g = g' \<and> t = t')
     (''r'', 1 :: int, ''a'') (''r'', 2, ''b'') \<and>
   fst (lease_run (empty_store\<lparr>st_runs := [\<lparr>rn_run_id = ''r'', rn_project_id = ''p'', rn_session_id = ''s'',
          rn_owner_token = [], rn_generation = 0, rn_acquired_at = None, rn_heartbeat_at = None,
          rn_expires_at = None\<rparr>]\<rparr>)
      [Acquire ''r'' ''p'' ''s'' ''a'' 5 0, Acquire ''r'' ''p'' ''s'' ''b'' 5 10,
       Acquire ''r'' ''p'' ''s'' ''b'' 5 2000000])
     = [(''r'', 1, ''a''), (''r'', 2, ''b'')]"
proof -
  let ?st = "empty_store\<lparr>st_runs := [\<lparr>rn_run_id = ''r'', rn_project_id = ''p'', rn_session_id = ''s'',
          rn_owner_token = [], rn_generation = 0, rn_acquired_at = None, rn_heartbeat_at = None,
          rn_expires_at = None\<rparr>]\<rparr>"
  let ?ops = "[Acquire ''r'' ''p'' ''s'' ''a'' 5 0, Acquire ''r'' ''p'' ''s'' ''b'' 5 10,
       Acquire ''r'' ''p'' ''s'' ''b'' 5 2000000]"
  have run: "fst (lease_run ?st ?ops) = [(''r'', 1, ''a''), (''r'', 2, ''b'')]"
    by (simp add: acquire_delegation_run_controller_lease_def clean_project_id_def get_run_def put_run_def
        lease_expiry_def empty_store_def str_simps Let_def)
  from lease_generations_fence [of ?st ?ops] run show ?thesis by simp
qed

text \<open>
  A superseded credential is dead for good.  Once a run's row is past generation \<open>g\<close>, then
  after any further sequence of lease operations a holder of generation \<open>g\<close> is never found
  current, cannot renew or release the lease, cannot claim a card of the run, and every fenced
  projection write it attempts is refused with the lease-lost error; none of these attempts
  changes the state.
\<close>

theorem superseded_credential_is_dead:
  assumes "get_run st rid = Some r" "0 \<le> g" "g < rn_generation r"
    and "py_strip rid = rid" "rid \<noteq> []" "st' = snd (lease_run st ops)"
  shows "\<not> delegation_run_controller_lease_is_current st' rid proj root owner (Some g) now \<and>
         renew_delegation_run_controller_lease st' rid proj session token g duration now = (False, st') \<and>
         release_delegation_run_controller_lease st' rid proj session token g = (False, st') \<and>
         require_company_controller_record_write st' rid proj token g now hold w tid s state seat
           = Inl LeaseLost \<and>
         (get_item st' wid = Some i \<longrightarrow> wi_run_id i = rid \<longrightarrow>
            claim_row st' wid p s seat tid revision token g now stamp = (False, st'))"
proof -
  have "\<exists>q. get_run st' rid = Some q \<and> g < rn_generation q"
  proof -
    have "credential_bound rid (rn_owner_token r) (rn_generation r) st"
      using assms(1) by (auto simp: credential_bound_def)
    then have "credential_bound rid (rn_owner_token r) (rn_generation r) st'"
      unfolding assms(6) by (rule lease_run_bound)
    with assms(3) show ?thesis by (auto simp: credential_bound_def)
  qed
  then obtain q where q: "get_run st' rid = Some q" "g < rn_generation q" by blast
  then have "rn_generation q \<noteq> g" "\<not> rn_generation q \<le> 0" using assms(2) by simp_all
  then show ?thesis
    using q(1) assms(4,5)
    by (auto simp: delegation_run_controller_lease_is_current_def renew_delegation_run_controller_lease_def
        release_delegation_run_controller_lease_def require_company_controller_record_write_def
        claim_row_def claim_lease_ok_def Let_def)
qed

definition leased_run :: "string \<Rightarrow> int \<Rightarrow> int \<Rightarrow> run" where
  "leased_run token generation expires =
     \<lparr>rn_run_id = ''r'', rn_project_id = ''p'', rn_session_id = ''s'', rn_owner_token = token,
      rn_generation = generation, rn_acquired_at = Some 0, rn_heartbeat_at = Some 0,
      rn_expires_at = Some expires\<rparr>"

lemma get_leased_run [simp]:
  "get_run (empty_store\<lparr>st_runs := [leased_run t g x]\<rparr>) ''r'' = Some (leased_run t g x)"
  by (simp add: get_run_def leased_run_def)

lemma leased_run_fields [simp]:
  "rn_generation (leased_run t g x) = g" "rn_owner_token (leased_run t g x) = t"
  "rn_project_id (leased_run t g x) = ''p''" "rn_session_id (leased_run t g x) = ''s''"
  "rn_expires_at (leased_run t g x) = Some x" "rn_run_id (leased_run t g x) = ''r''"
  by (simp_all add: leased_run_def)

theorem superseded_credential_is_dead_witness:
  "renew_delegation_run_controller_lease (empty_store\<lparr>st_runs := [leased_run ''b'' 2 100]\<rparr>)
     ''r'' ''p'' ''s'' ''a'' 1 1000000 50 = (False, empty_store\<lparr>st_runs := [leased_run ''b'' 2 100]\<rparr>)"
  using superseded_credential_is_dead
    [of "empty_store\<lparr>st_runs := [leased_run ''b'' 2 100]\<rparr>" "''r''" "leased_run ''b'' 2 100" 1
        "empty_store\<lparr>st_runs := [leased_run ''b'' 2 100]\<rparr>" "[]"]
  by (simp add: str_simps)

text \<open>
  A live lease excludes every other owner and is kept alive by its own.  While the lease of
  an owner is current, an acquisition by another token, at that time or before, is answered
  \<open>busy\<close> with the owner and generation of the holder and changes nothing; the holder's renewal
  succeeds and makes the lease current, with the same generation, at every time before the
  new expiry, which is at least one second away; no other token is current at any time.
\<close>

theorem live_lease_excludes_other_owner:
  assumes "delegation_run_controller_lease_is_current st rid proj (Some root) (Some token) (Some g) now"
    and "py_strip other \<noteq> py_strip token" "py_strip other \<noteq> []" "earlier \<le> now"
    and "py_strip rid \<noteq> []" "py_strip root \<noteq> []"
  shows "(\<exists>rc. acquire_delegation_run_controller_lease st rid proj root other duration earlier = (Inr rc, st) \<and>
               lr_outcome rc = ''busy'' \<and> lr_owner_token rc = py_strip token \<and> lr_generation rc = g) \<and>
         (\<exists>st'. renew_delegation_run_controller_lease st rid proj root token g duration now = (True, st') \<and>
                (\<forall>t < now + max 1000000 duration.
                   delegation_run_controller_lease_is_current st' rid proj (Some root) (Some token) (Some g) t) \<and>
                (\<forall>t. \<not> delegation_run_controller_lease_is_current st' rid proj (Some root) (Some other) None t))"
proof -
  from assms(1) obtain r x where r: "get_run st (py_strip rid) = Some r"
    "rn_project_id r = clean_project_id proj" "rn_session_id r = py_strip root"
    "rn_owner_token r = py_strip token" "rn_owner_token r \<noteq> []" "rn_generation r = g"
    "rn_expires_at r = Some x" "now < x"
    by (auto simp: delegation_run_controller_lease_is_current_def lease_live_def split: option.splits)
  let ?r = "r\<lparr>rn_heartbeat_at := Some now, rn_expires_at := Some (lease_expiry now duration)\<rparr>"
  have renew: "renew_delegation_run_controller_lease st rid proj root token g duration now = (True, put_run st ?r)"
    using r by (simp add: renew_delegation_run_controller_lease_def lease_live_def)
  have row: "get_run (put_run st ?r) (py_strip rid) = Some ?r"
    by (rule get_put_run [OF r(1)]) (simp add: get_run_id [OF r(1)])
  show ?thesis
  proof (intro conjI exI [where x = "put_run st ?r"])
    show "\<exists>rc. acquire_delegation_run_controller_lease st rid proj root other duration earlier = (Inr rc, st) \<and>
               lr_outcome rc = ''busy'' \<and> lr_owner_token rc = py_strip token \<and> lr_generation rc = g"
      using r assms(2-6) by (auto simp: acquire_delegation_run_controller_lease_def Let_def)
    show "\<forall>t < now + max 1000000 duration.
        delegation_run_controller_lease_is_current (put_run st ?r) rid proj (Some root) (Some token) (Some g) t"
      using row r by (auto simp: delegation_run_controller_lease_is_current_def lease_live_def lease_expiry_def)
    show "\<forall>t. \<not> delegation_run_controller_lease_is_current (put_run st ?r) rid proj (Some root) (Some other) None t"
      using row r assms(2) by (auto simp: delegation_run_controller_lease_is_current_def)
  qed (rule renew)
qed

theorem live_lease_excludes_other_owner_witness:
  "\<exists>rc. acquire_delegation_run_controller_lease (empty_store\<lparr>st_runs := [leased_run ''a'' 3 100]\<rparr>)
     ''r'' ''p'' ''s'' ''b'' 7 50 = (Inr rc, empty_store\<lparr>st_runs := [leased_run ''a'' 3 100]\<rparr>) \<and>
     lr_outcome rc = ''busy'' \<and> lr_owner_token rc = ''a'' \<and> lr_generation rc = 3"
proof -
  have "delegation_run_controller_lease_is_current (empty_store\<lparr>st_runs := [leased_run ''a'' 3 100]\<rparr>)
     ''r'' ''p'' (Some ''s'') (Some ''a'') (Some 3) 60"
    by (simp add: delegation_run_controller_lease_is_current_def clean_project_id_def lease_live_def str_simps)
  from live_lease_excludes_other_owner [OF this, of "''b''" 50 7] show ?thesis
    by (simp add: str_simps)
qed

text \<open>
  A claim is granted only for a dispatchable card under a live lease.  When the claim
  returns a card, the row was in the expected phase, runnable or orphaned, unowned, without
  hold or queue mark, and if its run exists the caller's token and generation are the run's
  current lease; the returned card is RUNNING, owned by the caller's session, its attempt
  number is one more than before and (for a ledger that counts from zero) the attempt is open;
  every other row, the runs and the tasks are as before.
\<close>

theorem claim_sound:
  assumes "claim_delegation_work_item_if_dispatchable st wid p s seat t revision token g now stamp
             = (Inr (Some j), st')"
    and "py_strip wid = wid"
  shows "(\<exists>i. get_item st wid = Some i \<and> coerce_phase p = Inr (wi_phase i) \<and>
             (is_runnable (wi_phase i) \<or> is_orphaned i) \<and> wi_claimed_by_seat_id i = [] \<and>
             clean (dget (wi_metadata i) ''dispatch_hold'') = [] \<and>
             clean (dget (wi_metadata i) ''queued_behind_session'') = [] \<and>
             (\<forall>r. get_run st (wi_run_id i) = Some r \<longrightarrow>
                rn_owner_token r = py_strip token \<and> py_strip token \<noteq> [] \<and> rn_generation r = g \<and>
                lease_live r now) \<and>
             attempt_ledger_int (wi_metadata j) ''attempt_seq''
               = cast_integer_or_0 (dget (wi_metadata i) ''attempt_seq'') + 1 \<and>
             (0 \<le> cast_integer_or_0 (dget (wi_metadata i) ''attempt_seq'') \<longrightarrow>
                has_open_attempt (wi_metadata j))) \<and>
         wi_phase j = RUNNING \<and> wi_claimed_by_role_runtime_session_id j = py_strip s \<and> py_strip s \<noteq> [] \<and>
         get_item st' wid = Some j \<and>
         (\<forall>w. w \<noteq> wid \<longrightarrow> get_item st' w = get_item st w) \<and>
         st_runs st' = st_runs st \<and> st_tasks st' = st_tasks st"
  using assms(1)
proof (cases rule: claim_cases)
  case idle
  then show ?thesis by blast
next
  case (cas q i k)
  have "get_item st' wid = Some j" using cas(13) by blast
  moreover have "wi_work_item_id k = wid"
    unfolding cas(11) using get_item_id [OF cas(4)] assms(2) by simp
  ultimately have j: "j = k" using cas(12) by simp
  have seq: "attempt_ledger_int (wi_metadata j) ''attempt_seq''
      = cast_integer_or_0 (dget (wi_metadata i) ''attempt_seq'') + 1"
    using j cas(11) by (simp add: attempt_ledger_int_def claim_metadata_get py_int_PInt_or)
  have op: "0 \<le> cast_integer_or_0 (dget (wi_metadata i) ''attempt_seq'') \<longrightarrow> has_open_attempt (wi_metadata j)"
    using j cas(11) by (simp add: claim_opens_attempt)
  have disp: "is_runnable (wi_phase i) \<or> is_orphaned i"
    using cas(2,5,6)
    by (auto simp: is_runnable_def is_orphaned_def is_resumable_after_claim_release_def RUNNABLE_PHASES_def)
  have blank: "clean (dget (wi_metadata i) ''dispatch_hold'') = []"
    "clean (dget (wi_metadata i) ''queued_behind_session'') = []"
    using cas(8,9) by (auto simp: sql_blank_def)
  have lease: "\<forall>r. get_run st (wi_run_id i) = Some r \<longrightarrow>
      rn_owner_token r = py_strip token \<and> py_strip token \<noteq> [] \<and> rn_generation r = g \<and> lease_live r now"
    using cas(10) by (auto simp: claim_lease_ok_def)
  show ?thesis
    using cas(1,3,4,5,7,11,12,13) assms(2) seq op disp blank lease j \<open>wi_work_item_id k = wid\<close> by auto
qed

definition claimable_store :: store where
  "claimable_store = put_item (empty_store\<lparr>st_runs := [leased_run ''a'' 1 100]\<rparr>)
     ((new_work_item ''w'')\<lparr>wi_run_id := ''r''\<rparr>)"

lemma claimable_store_claim:
  "\<exists>j st'. claim_delegation_work_item_if_dispatchable claimable_store ''w'' (PhaseArg READY)
     ''session'' ''seat'' ''task'' 0 ''a'' 1 50 ''now'' = (Inr (Some j), st')"
  by (simp add: claim_delegation_work_item_if_dispatchable_def claimable_store_def new_work_item_def
      claim_row_def claim_lease_ok_def lease_live_def sql_blank_def cast_integer_or_0_def
      validate_transition_def claim_confirmed_def claim_metadata_get get_run_def leased_run_def
      put_item_def get_item_def empty_store_def clean_def str_simps Let_def)

theorem claim_sound_witness:
  "\<exists>j st'. claim_delegation_work_item_if_dispatchable claimable_store ''w'' (PhaseArg READY)
     ''session'' ''seat'' ''task'' 0 ''a'' 1 50 ''now'' = (Inr (Some j), st') \<and>
     wi_phase j = RUNNING \<and> get_item st' ''w'' = Some j"
proof -
  obtain j st' where c: "claim_delegation_work_item_if_dispatchable claimable_store ''w'' (PhaseArg READY)
     ''session'' ''seat'' ''task'' 0 ''a'' 1 50 ''now'' = (Inr (Some j), st')"
    using claimable_store_claim by blast
  moreover have "py_strip ''w'' = ''w''" by (simp add: str_simps)
  ultimately show ?thesis using claim_sound [OF c] by blast
qed

text \<open>
  C38. At most one dispatcher wins a card.  In any sequence of claims, from any snapshots, by any
  sessions and with any credentials, no card gives permission to spawn twice, and a card that
  was owned before gives it to nobody.
\<close>

theorem claim_is_exclusive:
  "distinct (fst (claim_all st cs)) \<and> (owned st wid \<longrightarrow> wid \<notin> set (fst (claim_all st cs)))"
proof (intro conjI impI)
  show "distinct (fst (claim_all st cs))"
  proof (induction cs arbitrary: st)
    case (Cons c cs)
    obtain r st1 where c: "claim_call st c = (r, st1)" by fastforce
    obtain ws st2 where rest: "claim_all st1 cs = (ws, st2)" by fastforce
    have "distinct ws" using Cons [of st1] rest by simp
    moreover have "py_strip (cc_work_item_id c) \<notin> set ws" if "r = Inr (Some i)" for i
      using claim_call_step [OF c] claim_all_owned [of st1 _ cs] that rest by fastforce
    ultimately show ?case by (auto simp: c rest split: sum.splits option.splits)
  qed simp
qed (rule claim_all_owned)

definition rival_calls :: "claim_call list" where
  "rival_calls =
     map (\<lambda>session. \<lparr>cc_work_item_id = ''w'', cc_expected_phase = PhaseArg READY, cc_role_session = session,
        cc_seat = ''seat'', cc_task = ''task'', cc_revision = 0, cc_token = ''a'', cc_generation = 1,
        cc_now = 50, cc_stamp = ''now''\<rparr>) [''first'', ''second'']"

theorem claim_is_exclusive_witness:
  "distinct (fst (claim_all claimable_store rival_calls)) \<and>
   owned (put_item empty_store ((new_work_item ''w'')\<lparr>wi_claimed_by_role_runtime_session_id := ''x''\<rparr>)) ''w'' \<and>
   ''w'' \<notin> set (fst (claim_all (put_item empty_store
      ((new_work_item ''w'')\<lparr>wi_claimed_by_role_runtime_session_id := ''x''\<rparr>)) rival_calls))"
proof -
  have "owned (put_item empty_store
      ((new_work_item ''w'')\<lparr>wi_claimed_by_role_runtime_session_id := ''x''\<rparr>)) ''w''"
    by (simp add: owned_def new_work_item_def)
  then show ?thesis using claim_is_exclusive by blast
qed

text \<open>
  The attempt ledger stops a crash loop and nothing else.  For every history of attempts,
  each opened by the claim's metadata and settled with an outcome, dispatch is blocked exactly
  when, after the last attempt that ended any other way, at least three attempts crashed or at
  least five were interrupted; the attempt number counts the attempts and none is left open.
\<close>

theorem attempt_ledger_blocks_crash_loops:
  "(attempt_ledger_dispatch_block_reason (attempt_history outcomes) = [] \<longleftrightarrow>
      length (filter (\<lambda>s. s = ''crashed'') (bad_tail outcomes)) < 3 \<and>
      length (filter (\<lambda>s. s = ''interrupted'') (bad_tail outcomes)) < 5) \<and>
   cast_integer_or_0 (dget (attempt_history outcomes) ''attempt_seq'') = int (length outcomes) \<and>
   \<not> has_open_attempt (attempt_history outcomes)"
proof (intro conjI)
  show "\<not> has_open_attempt (attempt_history outcomes)"
    by (cases outcomes rule: rev_cases)
       (simp_all add: attempt_history_def run_attempt_def Let_def settlement_closes,
        simp add: has_open_attempt_def attempt_ledger_int_def py_or_def)
qed (use attempt_history_ledger [of outcomes] in
      \<open>auto simp: attempt_ledger_dispatch_block_reason_def Let_def ATTEMPT_CRASH_STREAK_LIMIT_def
         ATTEMPT_INTERRUPTED_STREAK_LIMIT_def\<close>)

text \<open>
  The sweep releases exactly the dead claims and moves no card.  A row whose run has a live
  controller, or that is unclaimed, terminal or waiting, is untouched; every other row loses
  both claim columns and keeps its phase, run and hold, queue and ledger entries; afterwards
  every in-progress row of a run without live controller is orphaned, hence dispatchable
  again when neither held, queued nor blocked by the ledger.
\<close>

theorem sweep_releases_dead_claims:
  assumes "get_item st wid = Some i"
  shows "\<exists>j. get_item (snd (sweep_stale_claims st now stamp)) wid = Some j \<and>
             wi_phase j = wi_phase i \<and> wi_run_id j = wi_run_id i \<and>
             (\<not> stale_claim st now i \<longrightarrow> j = i) \<and>
             (k \<notin> {''claimed_by_role_session_id'', ''claimed_task_id'', ''claim_swept_at''} \<longrightarrow>
                dget (wi_metadata j) k = dget (wi_metadata i) k) \<and>
             (wi_phase i \<in> IN_PROGRESS_PHASES \<longrightarrow> \<not> run_has_live_controller st (wi_run_id i) now \<longrightarrow>
                is_orphaned j \<and>
                (is_dispatchable j \<longleftrightarrow>
                   clean (dget (wi_metadata j) ''queued_behind_session'') = [] \<and>
                   clean (dget (wi_metadata j) ''dispatch_hold'') = [] \<and>
                   attempt_ledger_dispatch_block_reason (wi_metadata j) = []))"
proof -
  let ?j = "if stale_claim st now i then sweep_claim now stamp i else i"
  have "get_item (snd (sweep_stale_claims st now stamp)) wid = Some ?j"
    using assms by (simp add: get_item_sweep)
  moreover have "wi_phase ?j = wi_phase i" "wi_run_id ?j = wi_run_id i"
    by (simp_all add: sweep_claim_def)
  moreover have "dget (wi_metadata ?j) k = dget (wi_metadata i) k"
    if "k \<notin> {''claimed_by_role_session_id'', ''claimed_task_id'', ''claim_swept_at''}"
    using that by (simp add: sweep_claim_def)
  moreover have "is_orphaned ?j"
    if "wi_phase i \<in> IN_PROGRESS_PHASES" "\<not> run_has_live_controller st (wi_run_id i) now"
    using that
    by (auto simp: is_orphaned_def stale_claim_def sweep_claim_def is_stale_claim_releasable_def
        is_resumable_after_claim_release_def)
  ultimately show ?thesis by (intro exI [of _ ?j]) (auto simp: is_dispatchable_def)
qed

theorem sweep_releases_dead_claims_witness:
  "\<exists>j. get_item (snd (sweep_stale_claims (put_item empty_store
         ((new_work_item ''w'')\<lparr>wi_phase := RUNNING, wi_claimed_by_role_runtime_session_id := ''x''\<rparr>)) 5 ''now''))
         ''w'' = Some j \<and> wi_phase j = RUNNING \<and> is_orphaned j"
proof -
  let ?i = "(new_work_item ''w'')\<lparr>wi_phase := RUNNING, wi_claimed_by_role_runtime_session_id := ''x''\<rparr>"
  have g: "get_item (put_item empty_store ?i) ''w'' = Some ?i" by (simp add: new_work_item_def)
  have r: "\<not> run_has_live_controller (put_item empty_store ?i) (wi_run_id ?i) 5"
    by (simp add: run_has_live_controller_def empty_store_def)
  from sweep_releases_dead_claims [OF g, of 5 "''now''" "[]"] r show ?thesis
    by (auto simp: phase_sets)
qed

end
