(* ===== verification/ControllerTasks.thy ===== *)
theory ControllerTasks
  imports ToolLedger Lease
begin

text \<open>
  Saving a runtime task under the exact attempt that owns it (\<open>opc/database/store.py\<close>):
  \<open>save_task\<close> and its three fenced forms, for the task of a claimed card, for a native subagent
  of such a task and for an auxiliary turn of it.  A task carries its credential in its metadata:
  run, owner token, lease generation and attempt number.  The fence compares it with the rows of
  the card and of the run inside the write transaction, so a refused save leaves the store as it
  was.  The table \<open>runtime_subagent_runs\<close> is an argument.
\<close>

section \<open>The credential of a task\<close>

definition credential_int :: "pydict \<Rightarrow> string \<Rightarrow> int" where
  \<comment> \<open>\<open>int(metadata.get(key, 0) or 0)\<close>, 0 when that raises\<close>
  "credential_int md key = result_or 0 (py_int (py_or (dget md key) (PInt 0)))"

record attempt_fence =
  af_run_id :: string
  af_owner_token :: string
  af_generation :: int
  af_attempt_seq :: int

definition company_controller_task_fence :: "task \<Rightarrow> attempt_fence" where
  "company_controller_task_fence t =
     (let md = tk_metadata t
      in \<lparr>af_run_id = clean (dget md ''delegation_run_id''),
          af_owner_token = clean (dget md ''company_run_controller_owner_token''),
          af_generation = credential_int md ''company_run_controller_lease_generation'',
          af_attempt_seq = credential_int md ''claimed_work_item_attempt_seq''\<rparr>)"

definition fence_complete :: "attempt_fence \<Rightarrow> bool" where
  "fence_complete f \<longleftrightarrow>
     af_run_id f \<noteq> [] \<and> af_owner_token f \<noteq> [] \<and> 0 < af_generation f \<and> 0 < af_attempt_seq f"

definition task_has_company_attempt_credential :: "pydict \<Rightarrow> bool" where
  "task_has_company_attempt_credential md \<longleftrightarrow>
     (case (py_int (py_or (dget md ''company_run_controller_lease_generation'') (PInt 0)),
            py_int (py_or (dget md ''claimed_work_item_attempt_seq'') (PInt 0))) of
        (Inr generation, Inr attempt_seq) \<Rightarrow>
          clean (dget md ''company_run_controller_owner_token'') \<noteq> [] \<or>
          generation \<noteq> 0 \<or> attempt_seq \<noteq> 0
      | _ \<Rightarrow> True)"

section \<open>The rows behind a credential\<close>

text \<open>
  The join of the three queries: a link of the task, its card in the run of the credential, and
  the run with the owner, the generation and an unexpired lease; \<open>P\<close> is the rest of the
  \<open>WHERE\<close> clause, on the card.
\<close>

definition owned_card :: "store \<Rightarrow> task \<Rightarrow> int \<Rightarrow> (work_item \<Rightarrow> bool) \<Rightarrow> bool" where
  "owned_card st t now P \<longleftrightarrow>
     (let f = company_controller_task_fence t; tid = py_strip (tk_id t)
      in list_ex (\<lambda>(wid, task_id). task_id = tid \<and>
           (case get_item st wid of
              None \<Rightarrow> False
            | Some i \<Rightarrow>
                wi_run_id i = af_run_id f \<and> P i \<and>
                (case get_run st (wi_run_id i) of
                   None \<Rightarrow> False
                 | Some r \<Rightarrow>
                     rn_project_id r = clean_project_id (tk_project_id t) \<and>
                     rn_owner_token r = af_owner_token f \<and>
                     rn_generation r = af_generation f \<and> lease_live r now)))
           (st_links st))"

definition attempt_seq_of :: "work_item \<Rightarrow> int" where
  "attempt_seq_of i = cast_integer_or_0 (dget (wi_metadata i) ''attempt_seq'')"

definition claimed_by_task :: "work_item \<Rightarrow> string \<Rightarrow> bool" where
  \<comment> \<open>\<open>COALESCE(json_extract(metadata, '$.claimed_task_id'), '') IN ('', ?)\<close>\<close>
  "claimed_by_task i tid \<longleftrightarrow>
     sql_blank (dget (wi_metadata i) ''claimed_task_id'') \<or>
     dget (wi_metadata i) ''claimed_task_id'' = PStr tid"

definition not_held :: "work_item \<Rightarrow> bool" where
  "not_held i \<longleftrightarrow> sql_blank (dget (wi_metadata i) ''dispatch_hold'')"

definition company_controller_task_fence_matches :: "store \<Rightarrow> task \<Rightarrow> int \<Rightarrow> bool" where
  "company_controller_task_fence_matches st t now \<longleftrightarrow>
     (let f = company_controller_task_fence t; tid = py_strip (tk_id t)
      in fence_complete f \<and> tid \<noteq> [] \<and>
         owned_card st t now (\<lambda>i. attempt_seq_of i = af_attempt_seq f \<and> claimed_by_task i tid \<and> not_held i))"

definition company_controller_active_effect_attempt_matches :: "store \<Rightarrow> task \<Rightarrow> int \<Rightarrow> bool" where
  "company_controller_active_effect_attempt_matches st t now \<longleftrightarrow>
     (let f = company_controller_task_fence t; tid = py_strip (tk_id t);
          wid = linked_work_item_id_for_task (Some t);
          session = clean (dget (tk_metadata t) ''delegation_role_session_id'');
          seat = clean (dget (tk_metadata t) ''delegation_seat_id'')
      in fence_complete f \<and> tid \<noteq> [] \<and> wid \<noteq> [] \<and> session \<noteq> [] \<and> seat \<noteq> [] \<and>
         owned_card st t now (\<lambda>i.
           wi_work_item_id i = wid \<and> wi_phase i = RUNNING \<and>
           attempt_seq_of i = af_attempt_seq f \<and>
           dget (wi_metadata i) ''claimed_task_id'' = PStr tid \<and>
           wi_claimed_by_role_runtime_session_id i = session \<and> wi_claimed_by_seat_id i = seat \<and>
           cast_integer_or_0 (dget (wi_metadata i) ''attempt_settled'') = 0 \<and> not_held i))"

definition company_controller_task_attempt_is_superseded :: "store \<Rightarrow> task \<Rightarrow> int \<Rightarrow> bool" where
  "company_controller_task_attempt_is_superseded st t now \<longleftrightarrow>
     (let f = company_controller_task_fence t; tid = py_strip (tk_id t);
          wid = linked_work_item_id_for_task (Some t)
      in fence_complete f \<and> tid \<noteq> [] \<and> wid \<noteq> [] \<and>
         owned_card st t now (\<lambda>i.
           wi_work_item_id i = wid \<and> af_attempt_seq f < attempt_seq_of i \<and>
           dget (wi_metadata i) ''claimed_task_id'' = PStr tid \<and> not_held i))"

section \<open>The saves\<close>

definition save_task_for_company_controller ::
  "string \<Rightarrow> store \<Rightarrow> task \<Rightarrow> int \<Rightarrow> unit result \<times> task \<times> store" where
  "save_task_for_company_controller store_project st t now =
     (if \<not> company_controller_task_fence_matches st t now
      then (Inl (if company_controller_task_attempt_is_superseded st t now
                 then AttemptSuperseded else LeaseLost), t, st)
      else save_task_row store_project st t)"

record subagent_run =
  sr_subagent_run_id :: string
  sr_agent_id :: string
  sr_task_id :: string
  sr_status :: string

text \<open>
  The credential stored with the parent task: the four comparisons in the order of the code, the
  \<open>int\<close> calls raising when they are reached.
\<close>

definition parent_credential_matches :: "pydict \<Rightarrow> attempt_fence \<Rightarrow> bool result" where
  "parent_credential_matches md f =
     (if clean (dget md ''delegation_run_id'') \<noteq> af_run_id f \<or>
         clean (dget md ''company_run_controller_owner_token'') \<noteq> af_owner_token f
      then Inr False
      else bind_result (py_int (py_or (dget md ''company_run_controller_lease_generation'') (PInt 0)))
        (\<lambda>generation. if generation \<noteq> af_generation f then Inr False
         else bind_result (py_int (py_or (dget md ''claimed_work_item_attempt_seq'') (PInt 0)))
           (\<lambda>seq. Inr (seq = af_attempt_seq f))))"

definition parent_task_of :: "store \<Rightarrow> string \<Rightarrow> string \<Rightarrow> task option" where
  "parent_task_of st tid project = find (\<lambda>p. tk_id p = tid \<and> tk_project_id p = project) (st_tasks st)"

definition save_company_runtime_subagent_task ::
  "string \<Rightarrow> subagent_run list \<Rightarrow> store \<Rightarrow> task \<Rightarrow> int \<Rightarrow> unit result \<times> task \<times> store" where
  "save_company_runtime_subagent_task store_project subagents st t now =
     (let f = company_controller_task_fence t; project = clean_project_id (tk_project_id t);
          parent_id = opt_text (tk_parent_id t);
          sid = clean (dget (tk_metadata t) ''_comms_endpoint_id'')
      in if \<not> fence_complete f \<or> py_strip (tk_id t) = [] \<or> parent_id = [] \<or> sid = []
         then (Inl LeaseLost, t, st)
         else if \<not> list_ex (\<lambda>s. sr_subagent_run_id s = sid \<and> sr_agent_id s = sid \<and>
                              sr_task_id s = parent_id \<and> sr_status s = ''running'') subagents
         then (Inl LeaseLost, t, st)
         else case parent_task_of st parent_id project of
           None \<Rightarrow> (Inl LeaseLost, t, st)
         | Some parent \<Rightarrow>
             (case parent_credential_matches (tk_metadata parent) f of
                Inl e \<Rightarrow> (Inl e, t, st)
              | Inr False \<Rightarrow> (Inl LeaseLost, t, st)
              | Inr True \<Rightarrow>
                  (case find (\<lambda>l. snd l = parent_id) (st_links st) of
                     None \<Rightarrow> (Inl LeaseLost, t, st)
                   | Some l \<Rightarrow>
                       let durable = set_linked_work_item_id
                             ((new_task parent_id)\<lparr>tk_project_id := project,
                                                    tk_metadata := tk_metadata parent\<rparr>) (fst l)
                       in if \<not> company_controller_task_fence_matches st durable now
                          then (Inl LeaseLost, t, st)
                          else save_task_row store_project st t)))"

text \<open>The source task of an auxiliary turn and its card, as the query of the save joins them.\<close>

definition auxiliary_source_current ::
  "store \<Rightarrow> string \<Rightarrow> string \<Rightarrow> attempt_fence \<Rightarrow> int \<Rightarrow> bool" where
  "auxiliary_source_current st source project f seq \<longleftrightarrow>
     list_ex (\<lambda>s. tk_id s = source \<and> tk_project_id s = project \<and>
        dget (tk_metadata s) ''delegation_run_id'' = PStr (af_run_id f) \<and>
        dget (tk_metadata s) ''company_run_controller_owner_token'' = PStr (af_owner_token f) \<and>
        cast_integer_or_0 (dget (tk_metadata s) ''company_run_controller_lease_generation'')
          = af_generation f \<and>
        cast_integer_or_0 (dget (tk_metadata s) ''claimed_work_item_attempt_seq'') = seq \<and>
        list_ex (\<lambda>(wid, task_id). task_id = source \<and>
          (case get_item st wid of
             None \<Rightarrow> False
           | Some i \<Rightarrow> wi_run_id i = af_run_id f \<and> attempt_seq_of i = seq \<and>
                       claimed_by_task i source \<and> not_held i)) (st_links st)) (st_tasks st)"

definition save_company_runtime_auxiliary_task ::
  "string \<Rightarrow> store \<Rightarrow> task \<Rightarrow> int \<Rightarrow> unit result \<times> task \<times> store" where
  "save_company_runtime_auxiliary_task store_project st t now =
     (let f = company_controller_task_fence t; project = clean_project_id (tk_project_id t);
          md = tk_metadata t; tid = py_strip (tk_id t);
          source = clean (dget md ''runtime_auxiliary_source_task_id'');
          seq = credential_int md ''runtime_auxiliary_source_attempt_seq''
      in if \<not> truthy (dget md ''company_runtime_auxiliary_task'') \<or>
            af_run_id f = [] \<or> af_owner_token f = [] \<or> af_generation f \<le> 0 \<or>
            tid = [] \<or> source = [] \<or> seq \<le> 0 \<or>
            take (length source + 2) tid \<noteq> source @ ''::'' \<or>
            opt_text (tk_parent_id t) \<noteq> source \<or>
            clean (dget md ''runtime_auxiliary_kind'') \<notin> {''role_prompt'', ''meeting_turn''}
         then (Inl LeaseLost, t, st)
         else case require_company_controller_record_write st (af_run_id f) project (af_owner_token f)
                     (af_generation f) now True [] tid [] [] [] of
                Inl e \<Rightarrow> (Inl e, t, st)
              | Inr _ \<Rightarrow>
                  if \<not> auxiliary_source_current st source project f seq then (Inl LeaseLost, t, st)
                  else save_task_row store_project st t)"

text \<open>A task without any credential may be saved only while no controller ever owned its run.\<close>

definition linked_run_has_controller :: "store \<Rightarrow> string \<Rightarrow> bool" where
  "linked_run_has_controller st tid \<longleftrightarrow>
     list_ex (\<lambda>(wid, task_id). task_id = tid \<and>
       (case get_item st wid of
          None \<Rightarrow> False
        | Some i \<Rightarrow> (case get_run st (wi_run_id i) of None \<Rightarrow> False | Some r \<Rightarrow> 0 < rn_generation r)))
       (st_links st)"

definition save_task ::
  "string \<Rightarrow> subagent_run list \<Rightarrow> store \<Rightarrow> task \<Rightarrow> int \<Rightarrow> unit result \<times> task \<times> store" where
  "save_task store_project subagents st t now =
     (let md = tk_metadata t
      in if truthy (dget md ''company_runtime_auxiliary_task'')
         then save_company_runtime_auxiliary_task store_project st t now
         else if clean (dget md ''_comms_endpoint_id'') \<noteq> [] \<and> opt_text (tk_parent_id t) \<noteq> [] \<and>
                 clean (dget md ''delegation_run_id'') \<noteq> []
         then save_company_runtime_subagent_task store_project subagents st t now
         else if clean (dget md ''company_run_controller_owner_token'') \<noteq> []
         then save_task_for_company_controller store_project st t now
         else if linked_run_has_controller st (py_strip (tk_id t)) then (Inl LeaseLost, t, st)
         else save_task_row store_project st t)"

section \<open>Facts\<close>

lemma save_row_error: "save_task_row sp st t = (Inl e, t', st') \<Longrightarrow> st' = st"
  by (auto simp: save_task_row_def Let_def split: sum.splits prod.splits)

text \<open>A save that raises is rolled back.\<close>

lemma fenced_save_error:
  "save_task_for_company_controller sp st t now = (Inl e, t', st') \<Longrightarrow> st' = st"
  by (auto simp: save_task_for_company_controller_def dest: save_row_error split: if_splits)

lemma subagent_save_error:
  "save_company_runtime_subagent_task sp subs st t now = (Inl e, t', st') \<Longrightarrow> st' = st"
  by (auto simp: save_company_runtime_subagent_task_def Let_def dest: save_row_error
      split: if_splits option.splits sum.splits bool.splits)

lemma auxiliary_save_error:
  "save_company_runtime_auxiliary_task sp st t now = (Inl e, t', st') \<Longrightarrow> st' = st"
  by (auto simp: save_company_runtime_auxiliary_task_def Let_def dest: save_row_error
      split: if_splits sum.splits)

lemma save_task_error: "save_task sp subs st t now = (Inl e, t', st') \<Longrightarrow> st' = st"
  by (auto simp: save_task_def Let_def
      dest: save_row_error fenced_save_error subagent_save_error auxiliary_save_error split: if_splits)

text \<open>The run row behind a card that the query finds.\<close>

lemma owned_card_run:
  assumes "owned_card st t now P" "company_controller_task_fence t = f"
  obtains i r where "P i" "wi_run_id i = af_run_id f" "get_item st (wi_work_item_id i) = Some i"
    "(wi_work_item_id i, py_strip (tk_id t)) \<in> set (st_links st)"
    "get_run st (af_run_id f) = Some r" "rn_owner_token r = af_owner_token f"
    "rn_generation r = af_generation f" "lease_live r now"
    "rn_project_id r = clean_project_id (tk_project_id t)"
proof -
  from assms obtain wid i r where *: "(wid, py_strip (tk_id t)) \<in> set (st_links st)"
    "get_item st wid = Some i" "wi_run_id i = af_run_id f" "P i" "get_run st (wi_run_id i) = Some r"
    "rn_owner_token r = af_owner_token f" "rn_generation r = af_generation f" "lease_live r now"
    "rn_project_id r = clean_project_id (tk_project_id t)"
    by (auto simp: owned_card_def Let_def list_ex_iff split: option.splits)
  then show ?thesis using get_item_id [OF *(2)] by (intro that [of i r]) auto
qed

text \<open>A run that has moved on to a later generation: no query finds a card for the credential.\<close>

definition moved_past :: "store \<Rightarrow> attempt_fence \<Rightarrow> bool" where
  "moved_past st f \<longleftrightarrow>
     (case get_run st (af_run_id f) of None \<Rightarrow> False
      | Some r \<Rightarrow> af_generation f < rn_generation r \<and> 0 < rn_generation r)"

lemma moved_past_no_card:
  "moved_past st (company_controller_task_fence t) \<Longrightarrow> \<not> owned_card st t now P"
  by (auto simp: moved_past_def elim!: owned_card_run [OF _ refl])

lemma moved_past_fence:
  "moved_past st (company_controller_task_fence t) \<Longrightarrow>
     \<not> company_controller_task_fence_matches st t now \<and>
     \<not> company_controller_task_attempt_is_superseded st t now"
  by (simp add: company_controller_task_fence_matches_def company_controller_task_attempt_is_superseded_def
      Let_def moved_past_no_card)

lemma moved_past_record_write:
  assumes "moved_past st f" "py_strip (af_run_id f) = af_run_id f" "af_run_id f \<noteq> []"
  shows "require_company_controller_record_write st (af_run_id f) proj (af_owner_token f)
           (af_generation f) now hold w t s state seat = Inl LeaseLost"
  using assms
  by (auto simp: moved_past_def require_company_controller_record_write_def Let_def
      split: option.splits)

lemma fence_run_stripped: "py_strip (af_run_id (company_controller_task_fence t)) = af_run_id (company_controller_task_fence t)"
  by (simp add: company_controller_task_fence_def Let_def)

text \<open>The parent of a subagent presents the same credential, as the first comparisons require.\<close>

lemma parent_credential_fence:
  assumes "parent_credential_matches md f = Inr True"
  shows "company_controller_task_fence
           (set_linked_work_item_id ((new_task pid)\<lparr>tk_project_id := proj, tk_metadata := md\<rparr>) wid) = f"
  using assms
  by (cases f)
     (auto simp: parent_credential_matches_def company_controller_task_fence_def Let_def
      set_linked_work_item_id_def new_task_def credential_int_def bind_result_Inr_iff split: if_splits)

lemma moved_past_save:
  assumes "moved_past st (company_controller_task_fence t)"
    and "af_owner_token (company_controller_task_fence t) \<noteq> []"
  shows "\<exists>e. save_task sp subs st t now = (Inl e, t, st)"
proof -
  let ?f = "company_controller_task_fence t"
  have tok: "clean (dget (tk_metadata t) ''company_run_controller_owner_token'') \<noteq> []"
    using assms(2) by (simp add: company_controller_task_fence_def Let_def)
  have run: "\<exists>e. save_task_for_company_controller sp st t now = (Inl e, t, st)"
    using moved_past_fence [OF assms(1)] by (simp add: save_task_for_company_controller_def)
  have aux: "\<exists>e. save_company_runtime_auxiliary_task sp st t now = (Inl e, t, st)"
    using moved_past_record_write [OF assms(1) fence_run_stripped]
    by (cases "af_run_id ?f = []") (simp_all add: save_company_runtime_auxiliary_task_def Let_def)
  have none: "\<not> company_controller_task_fence_matches st
        (set_linked_work_item_id ((new_task pid)\<lparr>tk_project_id := proj, tk_metadata := md\<rparr>) wid) now"
    if "parent_credential_matches md ?f = Inr True" for md pid proj wid
    using moved_past_fence assms(1) parent_credential_fence [OF that] by metis
  have sub: "\<exists>e. save_company_runtime_subagent_task sp subs st t now = (Inl e, t, st)"
    by (simp add: save_company_runtime_subagent_task_def Let_def none
        split: option.split sum.split bool.split)
  show ?thesis
    using run aux sub tok by (simp add: save_task_def Let_def)
qed

text \<open>The card after a claim, as the queries of a save read it.\<close>

lemma claimed_card:
  assumes "claim_delegation_work_item_if_dispatchable st wid p session seat tid rv token g now stamp
             = (Inr (Some i), st')" and "py_strip wid = wid"
  shows "get_item st' wid = Some i \<and> st_links st' = st_links st \<and> st_runs st' = st_runs st \<and>
         wi_work_item_id i = wid \<and> wi_phase i = RUNNING \<and>
         wi_claimed_by_role_runtime_session_id i = py_strip session \<and> wi_claimed_by_seat_id i = py_strip seat \<and>
         dget (wi_metadata i) ''claimed_task_id'' = PStr (py_strip tid) \<and>
         dget (wi_metadata i) ''attempt_settled'' = PBool False \<and> not_held i \<and>
         (\<forall>r. get_run st (wi_run_id i) = Some r \<longrightarrow> rn_owner_token r = py_strip token \<and> rn_generation r = g)"
  using assms(1)
proof (cases rule: claim_cases)
  case (cas q a j)
  have j: "wi_work_item_id j = wid" "get_item st' wid = Some j"
    using cas(11,12) get_item_id [OF cas(4)] assms(2) by simp_all
  then have "i = j" using cas(13) by simp
  then show ?thesis
    using cas(8,10,11,12) j by (auto simp: claim_metadata_get not_held_def claim_lease_ok_def put_item_def)
qed auto

lemma one_link_card:
  assumes "\<And>w. (w, py_strip (tk_id t)) \<in> set (st_links st) \<longleftrightarrow> w = wid"
    and "get_item st wid = Some i" "get_run st (wi_run_id i) = Some r"
    and "rn_project_id r = clean_project_id (tk_project_id t)" "lease_live r now"
    and "wi_run_id i = af_run_id (company_controller_task_fence t)"
    and "rn_owner_token r = af_owner_token (company_controller_task_fence t)"
    and "rn_generation r = af_generation (company_controller_task_fence t)"
  shows "owned_card st t now P \<longleftrightarrow> P i"
proof -
  have "owned_card st t now P \<longleftrightarrow>
      (\<exists>w. (w, py_strip (tk_id t)) \<in> set (st_links st) \<and>
         (case get_item st w of None \<Rightarrow> False
          | Some i \<Rightarrow> wi_run_id i = af_run_id (company_controller_task_fence t) \<and> P i \<and>
              (case get_run st (wi_run_id i) of None \<Rightarrow> False
               | Some r \<Rightarrow> rn_project_id r = clean_project_id (tk_project_id t) \<and>
                   rn_owner_token r = af_owner_token (company_controller_task_fence t) \<and>
                   rn_generation r = af_generation (company_controller_task_fence t) \<and> lease_live r now)))"
    by (auto simp: owned_card_def Let_def list_ex_iff)
  then show ?thesis by (simp only: assms(1)) (simp add: assms(2-8) assms(3) [unfolded assms(6)])
qed

definition attempt_task :: "string \<Rightarrow> int \<Rightarrow> int \<Rightarrow> task" where
  "attempt_task token generation seq =
     (new_task ''task'')\<lparr>tk_project_id := ''p'', tk_linked_work_item_id := ''w'', tk_metadata :=
        [(''delegation_run_id'', PStr ''r''), (''company_run_controller_owner_token'', PStr token),
         (''company_run_controller_lease_generation'', PInt generation),
         (''claimed_work_item_attempt_seq'', PInt seq)]\<rparr>"

lemma attempt_task_fields:
  "tk_id (attempt_task token g n) = ''task''" "tk_project_id (attempt_task token g n) = ''p''"
  "linked_work_item_id_for_task (Some (attempt_task token g n)) = ''w''"
  by (simp_all add: attempt_task_def new_task_def linked_work_item_id_for_task_def str_simps)

lemma attempt_task_fence:
  "company_controller_task_fence (attempt_task ''a'' g n) =
     \<lparr>af_run_id = ''r'', af_owner_token = ''a'', af_generation = g, af_attempt_seq = n\<rparr>"
  by (simp add: company_controller_task_fence_def attempt_task_def new_task_def credential_int_def
      py_int_PInt_or Let_def str_simps)

text \<open>
  A claim admits the attempt it opens and supersedes the earlier ones.  While the lease that
  made the claim is live, the task of the claimed card is saved with the new attempt number; with
  a smaller one it is told, without any write, that its attempt is superseded, and with a larger
  one that the lease is lost.  The stricter test before an external effect admits exactly the
  new attempt, from the session and the seat of the claim.
\<close>

theorem claim_supersedes_earlier_attempts:
  assumes "claim_delegation_work_item_if_dispatchable st wid p session seat tid rv token g now stamp
             = (Inr (Some i), st')" and "py_strip wid = wid" "wid \<noteq> []" "py_strip tid = tk_id t" "tk_id t \<noteq> []"
    and "\<And>w. (w, tk_id t) \<in> set (st_links st) \<longleftrightarrow> w = wid"
    and "get_run st (wi_run_id i) = Some r" "rn_project_id r = clean_project_id (tk_project_id t)"
    and "lease_live r later" "linked_work_item_id_for_task (Some t) = wid"
    and "company_controller_task_fence t =
           \<lparr>af_run_id = wi_run_id i, af_owner_token = py_strip token, af_generation = g, af_attempt_seq = n\<rparr>"
    and "wi_run_id i \<noteq> []" "py_strip token \<noteq> []" "0 < g" "0 < n"
  shows "save_task_for_company_controller sp st' t later =
           (if n = attempt_seq_of i then save_task_row sp st' t
            else (Inl (if n < attempt_seq_of i then AttemptSuperseded else LeaseLost), t, st')) \<and>
         (company_controller_active_effect_attempt_matches st' t later \<longleftrightarrow>
            n = attempt_seq_of i \<and> py_strip session \<noteq> [] \<and> py_strip seat \<noteq> [] \<and>
            clean (dget (tk_metadata t) ''delegation_role_session_id'') = py_strip session \<and>
            clean (dget (tk_metadata t) ''delegation_seat_id'') = py_strip seat)"
proof -
  note c = claimed_card [OF assms(1,2)]
  have tid: "py_strip (tk_id t) = tk_id t" using assms(4) by (metis py_strip_idem)
  have run: "get_run st' (wi_run_id i) = Some r" using c assms(7) by (simp add: get_run_def)
  have card: "owned_card st' t later P \<longleftrightarrow> P i" for P
    using c assms(6-11) tid run by (intro one_link_card [where wid = wid and r = r]) simp_all
  have complete: "fence_complete \<lparr>af_run_id = wi_run_id i, af_owner_token = py_strip token,
      af_generation = g, af_attempt_seq = n\<rparr>"
    using assms(12-15) by (simp add: fence_complete_def)
  show ?thesis
    using c assms(3-5,10) tid
    by (auto simp: save_task_for_company_controller_def company_controller_task_fence_matches_def
        company_controller_task_attempt_is_superseded_def
        company_controller_active_effect_attempt_matches_def card complete claimed_by_task_def
        cast_integer_or_0_def assms(11) Let_def)
qed

definition retried_store :: store where
  "retried_store =
     (put_item (empty_store\<lparr>st_runs := [leased_run ''a'' 1 100]\<rparr>)
        ((new_work_item ''w'')\<lparr>wi_run_id := ''r'', wi_metadata := [(''attempt_seq'', PInt 1)]\<rparr>))
       \<lparr>st_links := [(''w'', ''task'')]\<rparr>"

lemma retried_claim:
  "\<exists>i st'. claim_delegation_work_item_if_dispatchable retried_store ''w'' (PhaseArg READY)
     ''session'' ''seat'' ''task'' 0 ''a'' 1 50 ''now'' = (Inr (Some i), st') \<and>
     wi_run_id i = ''r'' \<and> attempt_seq_of i = 2"
  by (simp add: claim_delegation_work_item_if_dispatchable_def retried_store_def new_work_item_def
      claim_row_def claim_lease_ok_def lease_live_def sql_blank_def cast_integer_or_0_def
      validate_transition_def claim_confirmed_def claim_metadata_get get_run_def leased_run_def
      put_item_def get_item_def empty_store_def clean_def str_simps Let_def attempt_seq_of_def)

theorem claim_supersedes_earlier_attempts_witness:
  "\<exists>i st'. claim_delegation_work_item_if_dispatchable retried_store ''w'' (PhaseArg READY)
     ''session'' ''seat'' ''task'' 0 ''a'' 1 50 ''now'' = (Inr (Some i), st') \<and>
     save_task_for_company_controller ''p'' st' (attempt_task ''a'' 1 1) 60 =
       (Inl AttemptSuperseded, attempt_task ''a'' 1 1, st') \<and>
     save_task_for_company_controller ''p'' st' (attempt_task ''a'' 1 2) 60 =
       save_task_row ''p'' st' (attempt_task ''a'' 1 2)"
proof -
  obtain i st' where c: "claim_delegation_work_item_if_dispatchable retried_store ''w'' (PhaseArg READY)
     ''session'' ''seat'' ''task'' 0 ''a'' 1 50 ''now'' = (Inr (Some i), st')"
    and i: "wi_run_id i = ''r''" "attempt_seq_of i = 2"
    using retried_claim by blast
  have t: "py_strip ''w'' = ''w''" "py_strip ''task'' = ''task''" "py_strip ''a'' = ''a''"
    by (simp_all add: str_simps)
  have "save_task_for_company_controller ''p'' st' (attempt_task ''a'' 1 n) 60 =
           (if n = attempt_seq_of i then save_task_row ''p'' st' (attempt_task ''a'' 1 n)
            else (Inl (if n < attempt_seq_of i then AttemptSuperseded else LeaseLost),
                  attempt_task ''a'' 1 n, st'))" if "0 < n" for n
    using claim_supersedes_earlier_attempts [OF c t(1), where t = "attempt_task ''a'' 1 n" and n = n
        and r = "leased_run ''a'' 1 100" and later = 60 and sp = "''p''"] that t
    by (simp add: attempt_task_fence attempt_task_fields i retried_store_def get_run_def
        leased_run_def empty_store_def clean_project_id_def lease_live_def str_simps)
  from this [of 1] this [of 2] c i show ?thesis by auto
qed

end
