(* ===== verification/RoleSessions.thy ===== *)
theory RoleSessions
  imports Lease
begin

text \<open>
  The role runtime sessions of \<open>opc/database/store.py\<close>: saving and updating a session row
  under the controller fence, its FIFO queue of pending work items, and the queue marker of a
  card.  The two tables \<open>role_runtime_sessions\<close> and \<open>delegation_role_sessions\<close> are written with
  the same values in the same transaction and are one list here; the session's own metadata
  is not modelled.
\<close>

section \<open>Rows\<close>

definition get_delegation_role_session :: "store \<Rightarrow> string \<Rightarrow> role_session option" where
  "get_delegation_role_session st sid = find (\<lambda>s. rs_role_session_id s = sid) (st_sessions st)"

definition list_role_runtime_sessions :: "store \<Rightarrow> string \<Rightarrow> role_session list" where
  "list_role_runtime_sessions st run_id = filter (\<lambda>s. rs_run_id s = run_id) (st_sessions st)"

fun put_session_row :: "role_session \<Rightarrow> role_session list \<Rightarrow> role_session list" where
  "put_session_row s [] = [s]"
| "put_session_row s (t # ts) =
     (if rs_role_session_id t = rs_role_session_id s then s # ts else t # put_session_row s ts)"

definition put_session :: "store \<Rightarrow> role_session \<Rightarrow> store" where
  "put_session st s = st\<lparr>st_sessions := put_session_row s (st_sessions st)\<rparr>"

definition role_session_is_busy :: "store \<Rightarrow> string \<Rightarrow> bool" where
  "role_session_is_busy st role_session_id \<longleftrightarrow>
     (let sid = py_strip role_session_id
      in sid \<noteq> [] \<and>
         (case get_delegation_role_session st sid of
            None \<Rightarrow> False | Some s \<Rightarrow> py_strip (rs_focused_work_item_id s) \<noteq> []))"

section \<open>Saving and updating\<close>

definition normalized_session :: "role_session \<Rightarrow> role_session" where
  \<comment> \<open>\<open>_save_role_runtime_session_row\<close>: the status the row gets, and no focus on an idle row\<close>
  "normalized_session s =
     (let focused = py_strip (rs_focused_work_item_id s);
          status = normalize_role_runtime_status (PStr (rs_status s)) (PStr focused) ''idle''
      in s\<lparr>rs_focused_work_item_id := (if status = ''idle'' then [] else focused), rs_status := status\<rparr>)"

definition save_role_runtime_session ::
  "store \<Rightarrow> role_session \<Rightarrow> string \<Rightarrow> int \<Rightarrow> int \<Rightarrow> unit result \<times> store" where
  "save_role_runtime_session st s owner_token generation now =
     (let run_id = py_strip (rs_run_id s); proj = clean_project_id (rs_project_id s)
      in case (case get_delegation_role_session st (py_strip (rs_role_session_id s)) of
                 None \<Rightarrow> Inr (run_id, proj)
               | Some old \<Rightarrow>
                   let old_run = py_strip (rs_run_id old); old_proj = clean_project_id (rs_project_id old)
                   in if run_id \<noteq> old_run \<or> proj \<noteq> old_proj \<and> old_proj \<noteq> ''default''
                      then Inl LeaseLost
                      else Inr (old_run, if old_proj \<noteq> ''default'' then old_proj else proj)) of
           Inl e \<Rightarrow> (Inl e, st)
         | Inr (scope_run, scope_proj) \<Rightarrow>
             (case require_company_controller_record_write st scope_run scope_proj (py_strip owner_token)
                     generation now True [] [] (py_strip (rs_role_session_id s)) [] [] of
                Inl e \<Rightarrow> (Inl e, st)
              | Inr _ \<Rightarrow> (Inr (), put_session st (normalized_session s))))"

definition update_delegation_role_session ::
  "store \<Rightarrow> string \<Rightarrow> string option \<Rightarrow> string option \<Rightarrow> string \<Rightarrow> int \<Rightarrow> int
     \<Rightarrow> role_session option result \<times> store" where
  "update_delegation_role_session st sid focused status owner_token generation now =
     (case get_delegation_role_session st sid of
        None \<Rightarrow> (Inr None, st)
      | Some s \<Rightarrow>
          let a = s\<lparr>rs_focused_work_item_id := upd (map_option py_strip focused) (rs_focused_work_item_id s)\<rparr>;
              norm = (\<lambda>x. normalize_role_runtime_status (PStr x) (PStr (rs_focused_work_item_id a)) ''idle'');
              b = a\<lparr>rs_status := norm (case status of None \<Rightarrow> rs_status a | Some x \<Rightarrow> norm x)\<rparr>;
              c = (if rs_status b = ''idle'' then b\<lparr>rs_focused_work_item_id := []\<rparr> else b)
                    \<lparr>rs_updated_at := now\<rparr>
          in case save_role_runtime_session st c owner_token generation now of
               (Inl e, st') \<Rightarrow> (Inl e, st')
             | (Inr _, st') \<Rightarrow> (Inr (Some (normalized_session c)), st'))"

section \<open>The pending queue\<close>

definition session_fence ::
  "store \<Rightarrow> role_session \<Rightarrow> string \<Rightarrow> int \<Rightarrow> int \<Rightarrow> string \<Rightarrow> string \<Rightarrow> unit result" where
  "session_fence st s owner_token generation now work_item_id role_session_id =
     require_company_controller_record_write st (py_strip (rs_run_id s)) (clean_project_id (rs_project_id s))
       (py_strip owner_token) generation now True work_item_id [] role_session_id [] []"

definition enqueue_pending_work_item ::
  "store \<Rightarrow> string \<Rightarrow> string \<Rightarrow> string \<Rightarrow> int \<Rightarrow> int \<Rightarrow> bool result \<times> store" where
  "enqueue_pending_work_item st role_session_id work_item_id owner_token generation now =
     (let wid = py_strip work_item_id; sid = py_strip role_session_id
      in if wid = [] \<or> sid = [] then (Inr False, st)
         else case get_delegation_role_session st sid of
           None \<Rightarrow> (Inr False, st)
         | Some s \<Rightarrow>
             (case session_fence st s owner_token generation now wid [] of
                Inl e \<Rightarrow> (Inl e, st)
              | Inr _ \<Rightarrow>
                  if wid \<in> set (rs_pending_work_item_ids s) then (Inr False, st)
                  else (Inr True, put_session st
                          (s\<lparr>rs_pending_work_item_ids := rs_pending_work_item_ids s @ [wid],
                             rs_updated_at := now\<rparr>))))"

definition dequeue_pending_work_item ::
  "store \<Rightarrow> string \<Rightarrow> string \<Rightarrow> int \<Rightarrow> int \<Rightarrow> string option result \<times> store" where
  "dequeue_pending_work_item st role_session_id owner_token generation now =
     (let sid = py_strip role_session_id
      in if sid = [] then (Inr None, st)
         else case get_delegation_role_session st sid of
           None \<Rightarrow> (Inr None, st)
         | Some s \<Rightarrow>
             (case session_fence st s owner_token generation now [] sid of
                Inl e \<Rightarrow> (Inl e, st)
              | Inr _ \<Rightarrow>
                  (case rs_pending_work_item_ids s of
                     [] \<Rightarrow> (Inr None, st)
                   | w # ws \<Rightarrow>
                       (Inr (Some w),
                        put_session st (s\<lparr>rs_pending_work_item_ids := ws, rs_updated_at := now\<rparr>)))))"

section \<open>The queue marker of a card\<close>

definition update_work_item_serial_queue_marker_for_controller ::
  "store \<Rightarrow> string \<Rightarrow> string \<Rightarrow> string \<Rightarrow> string option \<Rightarrow> string option \<Rightarrow> string \<Rightarrow> int \<Rightarrow> int
     \<Rightarrow> bool result \<times> store" where
  "update_work_item_serial_queue_marker_for_controller st work_item_id run_id project_id marker expected
     owner_token generation now =
     (let wid = py_strip work_item_id; rid = py_strip run_id; token = py_strip owner_token
      in if wid = [] \<or> rid = [] then (Inr False, st)
         else case require_company_controller_record_write st rid (clean_project_id project_id) token
                     generation now True wid [] [] [] [] of
           Inl e \<Rightarrow> (Inl e, st)
         | Inr _ \<Rightarrow>
             (case get_item st wid of
                None \<Rightarrow> (Inr False, st)
              | Some i \<Rightarrow>
                  let current = clean (dget (wi_metadata i) ''queued_behind_session'');
                      m = (case marker of None \<Rightarrow> [] | Some x \<Rightarrow> py_strip x);
                      md = (if m \<noteq> [] then dset ''queued_behind_session'' (PStr m) (wi_metadata i)
                            else dpop ''queued_behind_session'' (wi_metadata i))
                  in if wi_run_id i \<noteq> rid \<or> (case expected of None \<Rightarrow> False | Some x \<Rightarrow> current \<noteq> py_strip x)
                     then (Inr False, st)
                     else (Inr True, put_item st
                             (i\<lparr>wi_metadata :=
                                  dset ''company_run_controller_lease_generation'' (PInt generation)
                                    (dset ''company_run_controller_owner_token'' (PStr token) md),
                                wi_updated_at := now\<rparr>))))"

section \<open>Facts about the rows\<close>

lemma find_put_session_row:
  "find (\<lambda>t. rs_role_session_id t = sid) (put_session_row s ts) =
     (if rs_role_session_id s = sid then Some s else find (\<lambda>t. rs_role_session_id t = sid) ts)"
  by (induction s ts rule: put_session_row.induct) auto

lemma get_put_session [simp]:
  "get_delegation_role_session (put_session st s) sid =
     (if rs_role_session_id s = sid then Some s else get_delegation_role_session st sid)"
  by (simp add: get_delegation_role_session_def put_session_def find_put_session_row)

lemma get_session_id: "get_delegation_role_session st sid = Some s \<Longrightarrow> rs_role_session_id s = sid"
  by (auto simp: get_delegation_role_session_def find_Some_iff)

lemma set_put_session_row: "set (put_session_row s ts) \<subseteq> insert s (set ts)"
  by (induction s ts rule: put_session_row.induct) auto

lemma put_session_fields [simp]:
  "st_runs (put_session st s) = st_runs st" "st_items (put_session st s) = st_items st"
  "get_run (put_session st s) rid = get_run st rid" "get_item (put_session st s) wid = get_item st wid"
  by (simp_all add: put_session_def get_run_def get_item_def)

text \<open>The normal form of a row: one of the three statuses, a focus while running, none when idle.\<close>

definition session_normal :: "role_session \<Rightarrow> bool" where
  "session_normal s \<longleftrightarrow>
     rs_status s \<in> role_runtime_statuses \<and>
     (rs_status s = ''idle'' \<longrightarrow> rs_focused_work_item_id s = []) \<and>
     (rs_status s = ''running'' \<longrightarrow> py_strip (rs_focused_work_item_id s) \<noteq> [])"

definition sessions_normal :: "store \<Rightarrow> bool" where
  "sessions_normal st \<longleftrightarrow> list_all session_normal (st_sessions st)"

lemma normalize_status_cases:
  "normalize_role_runtime_status v f ''idle'' \<in> role_runtime_statuses \<and>
   (normalize_role_runtime_status v f ''idle'' = ''running'' \<longrightarrow> clean f \<noteq> [])"
  by (auto simp: normalize_role_runtime_status_def role_runtime_statuses_def Let_def)

lemma normalized_session_normal: "session_normal (normalized_session s)"
proof -
  let ?f = "py_strip (rs_focused_work_item_id s)"
  have "clean (PStr ?f) = ?f" by simp
  with normalize_status_cases [of "PStr (rs_status s)" "PStr ?f"] show ?thesis
    by (auto simp: session_normal_def normalized_session_def Let_def)
qed

lemma put_session_normal: "session_normal s \<Longrightarrow> sessions_normal st \<Longrightarrow> sessions_normal (put_session st s)"
  using set_put_session_row [of s "st_sessions st"]
  by (auto simp: sessions_normal_def put_session_def list_all_iff)

lemma get_session_normal:
  "sessions_normal st \<Longrightarrow> get_delegation_role_session st sid = Some s \<Longrightarrow> session_normal s"
  by (auto simp: sessions_normal_def list_all_iff get_delegation_role_session_def find_Some_iff)

lemma session_normal_pending [simp]:
  "session_normal (s\<lparr>rs_pending_work_item_ids := ws\<rparr>) = session_normal s"
  "session_normal (s\<lparr>rs_updated_at := t\<rparr>) = session_normal s"
  by (simp_all add: session_normal_def)

section \<open>The interface of a pending queue\<close>

text \<open>
  What a dispatcher relies on: a state with a queue of distinct ids, an append that ignores
  duplicates and a pop of the head.  The store's session queue provides it while the run's
  fence is open (no controller generation, or the caller holds the current lease, and no hold).
\<close>

text \<open>Appending a list of ids one by one, and popping at most \<open>n\<close> times until the queue is empty.\<close>

fun enq_all :: "(string \<Rightarrow> 's \<Rightarrow> bool \<times> 's) \<Rightarrow> string list \<Rightarrow> 's \<Rightarrow> 's" where
  "enq_all enq [] s = s"
| "enq_all enq (w # ws) s = enq_all enq ws (snd (enq w s))"

fun drain :: "('s \<Rightarrow> string option \<times> 's) \<Rightarrow> nat \<Rightarrow> 's \<Rightarrow> string list \<times> 's" where
  "drain deq 0 s = ([], s)"
| "drain deq (Suc n) s =
     (case deq s of
        (None, s') \<Rightarrow> ([], s')
      | (Some w, s') \<Rightarrow> (w # fst (drain deq n s'), snd (drain deq n s')))"

locale pending_queue =
  fixes open_queue :: "'s \<Rightarrow> bool"
    and contents :: "'s \<Rightarrow> string list"
    and accepts :: "string \<Rightarrow> bool"
    and enq :: "string \<Rightarrow> 's \<Rightarrow> bool \<times> 's"
    and deq :: "'s \<Rightarrow> string option \<times> 's"
  assumes enq_new: "open_queue s \<Longrightarrow> accepts w \<Longrightarrow> w \<notin> set (contents s) \<Longrightarrow>
      fst (enq w s) \<and> open_queue (snd (enq w s)) \<and> contents (snd (enq w s)) = contents s @ [w]"
    and enq_old: "open_queue s \<Longrightarrow> accepts w \<Longrightarrow> w \<in> set (contents s) \<Longrightarrow> enq w s = (False, s)"
    and deq_empty: "open_queue s \<Longrightarrow> contents s = [] \<Longrightarrow> deq s = (None, s)"
    and deq_head: "open_queue s \<Longrightarrow> contents s = w # ws \<Longrightarrow>
      fst (deq s) = Some w \<and> open_queue (snd (deq s)) \<and> contents (snd (deq s)) = ws"
begin

lemma enq_all_contents:
  "open_queue s \<Longrightarrow> list_all accepts ws \<Longrightarrow>
     open_queue (enq_all enq ws s) \<and> contents (enq_all enq ws s) = contents s @ dedup_from (rev (contents s)) ws"
proof (induction ws arbitrary: s)
  case (Cons w ws)
  show ?case
  proof (cases "w \<in> set (contents s)")
    case True
    then have "enq w s = (False, s)" using Cons.prems by (intro enq_old) auto
    with True Cons show ?thesis by simp
  next
    case False
    have new: "open_queue (snd (enq w s)) \<and> contents (snd (enq w s)) = contents s @ [w]"
      using enq_new [of s w] False Cons.prems by simp
    with Cons.IH [of "snd (enq w s)"] False Cons.prems show ?thesis by simp
  qed
qed simp

lemma drain_contents:
  "open_queue s \<Longrightarrow> length (contents s) \<le> n \<Longrightarrow>
     fst (drain deq n s) = contents s \<and> contents (snd (drain deq n s)) = []"
proof (induction n arbitrary: s)
  case (Suc n)
  show ?case
  proof (cases "contents s")
    case Nil
    with Suc.prems deq_empty [of s] show ?thesis by simp
  next
    case (Cons w ws)
    with deq_head [of s w ws] Suc.prems
    have h: "fst (deq s) = Some w" "open_queue (snd (deq s))" "contents (snd (deq s)) = ws" by simp_all
    with Suc.IH [of "snd (deq s)"] Suc.prems Cons show ?thesis
      by (cases "deq s") simp
  qed
qed simp

lemma first_come_first_served:
  assumes "open_queue s" "contents s = []" "list_all accepts ws" "length ws \<le> n"
  shows "fst (drain deq n (enq_all enq ws s)) = dedup ws \<and> contents (snd (drain deq n (enq_all enq ws s))) = []"
proof -
  have e: "open_queue (enq_all enq ws s) \<and> contents (enq_all enq ws s) = dedup ws"
    using enq_all_contents [OF assms(1,3)] assms(2) by (simp add: dedup_def)
  have "length (dedup_from seen xs) \<le> length xs" for seen xs :: "string list"
    by (induction seen xs rule: dedup_from.induct) auto
  from le_trans [OF this assms(4)] have "length (dedup ws) \<le> n" by (simp add: dedup_def)
  with e drain_contents [of "enq_all enq ws s" n] show ?thesis by simp
qed

end

text \<open>The session queue of the store provides the interface.\<close>

definition pending_of :: "string \<Rightarrow> store \<Rightarrow> string list" where
  "pending_of sid st =
     (case get_delegation_role_session st sid of None \<Rightarrow> [] | Some s \<Rightarrow> rs_pending_work_item_ids s)"

definition fence_open :: "store \<Rightarrow> role_session \<Rightarrow> string \<Rightarrow> int \<Rightarrow> int \<Rightarrow> bool" where
  "fence_open st s token generation now \<longleftrightarrow>
     (\<forall>w r. session_fence st s token generation now w r = Inr ())"

definition session_open :: "string \<Rightarrow> string \<Rightarrow> int \<Rightarrow> int \<Rightarrow> store \<Rightarrow> bool" where
  "session_open sid token generation now st \<longleftrightarrow>
     sid \<noteq> [] \<and> py_strip sid = sid \<and>
     (\<exists>s. get_delegation_role_session st sid = Some s \<and> fence_open st s token generation now)"

definition queue_id :: "string \<Rightarrow> bool" where
  "queue_id w \<longleftrightarrow> w \<noteq> [] \<and> py_strip w = w"

definition enq_session :: "string \<Rightarrow> string \<Rightarrow> int \<Rightarrow> int \<Rightarrow> string \<Rightarrow> store \<Rightarrow> bool \<times> store" where
  "enq_session sid token generation now w st =
     (case enqueue_pending_work_item st sid w token generation now of
        (r, st') \<Rightarrow> (r = Inr True, st'))"

definition deq_session :: "string \<Rightarrow> string \<Rightarrow> int \<Rightarrow> int \<Rightarrow> store \<Rightarrow> string option \<times> store" where
  "deq_session sid token generation now st =
     (case dequeue_pending_work_item st sid token generation now of
        (r, st') \<Rightarrow> (result_or None r, st'))"

lemma record_write_sessions:
  "require_company_controller_record_write (put_session st s) rid p t g n h w tid sid state seat =
   require_company_controller_record_write st rid p t g n h w tid sid state seat"
proof -
  have "hold_in_scope (put_session st s) = hold_in_scope st"
    by (intro ext) (simp add: hold_in_scope_def put_session_def)
  then show ?thesis by (simp add: require_company_controller_record_write_def cong: if_cong option.case_cong)
qed

lemma session_fence_put:
  "rs_run_id s' = rs_run_id s \<Longrightarrow> rs_project_id s' = rs_project_id s \<Longrightarrow>
     session_fence (put_session st t) s' token g now w r = session_fence st s token g now w r"
  by (simp add: session_fence_def record_write_sessions)

lemma session_open_put:
  assumes "session_open sid token g now st" "get_delegation_role_session st sid = Some s"
  shows "session_open sid token g now
           (put_session st (s\<lparr>rs_pending_work_item_ids := ws, rs_updated_at := now'\<rparr>))"
proof -
  let ?s = "s\<lparr>rs_pending_work_item_ids := ws, rs_updated_at := now'\<rparr>"
  have "session_fence (put_session st ?s) ?s token g now w r = session_fence st s token g now w r" for w r
    by (rule session_fence_put) simp_all
  then show ?thesis
    using assms get_session_id [OF assms(2)] by (auto simp: session_open_def fence_open_def)
qed

interpretation session_queue: pending_queue "session_open sid token generation now" "pending_of sid" queue_id
    "enq_session sid token generation now" "deq_session sid token generation now"
  for sid token generation now
proof unfold_locales
  fix st w ws
  assume "session_open sid token generation now st"
  then obtain s where s: "sid \<noteq> []" "py_strip sid = sid" "get_delegation_role_session st sid = Some s"
      "\<And>w r. session_fence st s token generation now w r = Inr ()"
    and op: "session_open sid token generation now st"
    by (auto simp: session_open_def fence_open_def)
  note id = get_session_id [OF s(3)]
  show "queue_id w \<Longrightarrow> w \<notin> set (pending_of sid st) \<Longrightarrow>
      fst (enq_session sid token generation now w st) \<and>
      session_open sid token generation now (snd (enq_session sid token generation now w st)) \<and>
      pending_of sid (snd (enq_session sid token generation now w st)) = pending_of sid st @ [w]"
    using s id session_open_put [OF op s(3)]
    by (simp add: enq_session_def enqueue_pending_work_item_def queue_id_def pending_of_def)
  show "queue_id w \<Longrightarrow> w \<in> set (pending_of sid st) \<Longrightarrow> enq_session sid token generation now w st = (False, st)"
    using s by (simp add: enq_session_def enqueue_pending_work_item_def queue_id_def pending_of_def)
  show "pending_of sid st = [] \<Longrightarrow> deq_session sid token generation now st = (None, st)"
    using s by (simp add: deq_session_def dequeue_pending_work_item_def pending_of_def)
  show "pending_of sid st = w # ws \<Longrightarrow>
      fst (deq_session sid token generation now st) = Some w \<and>
      session_open sid token generation now (snd (deq_session sid token generation now st)) \<and>
      pending_of sid (snd (deq_session sid token generation now st)) = ws"
    using s id session_open_put [OF op s(3)]
    by (simp add: deq_session_def dequeue_pending_work_item_def pending_of_def)
qed

text \<open>The session operations as one step; errors leave the state.\<close>

datatype session_op =
    SaveSession role_session string int int
  | UpdateSession string "string option" "string option" string int int
  | Enqueue string string string int int
  | Dequeue string string int int

fun session_step :: "session_op \<Rightarrow> store \<Rightarrow> store" where
  "session_step (SaveSession s token g now) st = snd (save_role_runtime_session st s token g now)"
| "session_step (UpdateSession sid focus status token g now) st =
     snd (update_delegation_role_session st sid focus status token g now)"
| "session_step (Enqueue sid wid token g now) st = snd (enqueue_pending_work_item st sid wid token g now)"
| "session_step (Dequeue sid token g now) st = snd (dequeue_pending_work_item st sid token g now)"

lemma save_normal: "sessions_normal st \<Longrightarrow> sessions_normal (snd (save_role_runtime_session st s token g now))"
  by (auto simp: save_role_runtime_session_def Let_def normalized_session_normal put_session_normal
      split: option.splits sum.splits)

lemma update_session_cases:
  "\<exists>s. snd (update_delegation_role_session st sid focus status token g now) = st \<or>
       snd (update_delegation_role_session st sid focus status token g now)
         = snd (save_role_runtime_session st s token g now)"
proof (cases "get_delegation_role_session st sid")
  case None
  then show ?thesis by (simp add: update_delegation_role_session_def)
next
  case (Some s)
  define c where "c = (let a = s\<lparr>rs_focused_work_item_id := upd (map_option py_strip focus) (rs_focused_work_item_id s)\<rparr>;
              norm = (\<lambda>x. normalize_role_runtime_status (PStr x) (PStr (rs_focused_work_item_id a)) ''idle'');
              b = a\<lparr>rs_status := norm (case status of None \<Rightarrow> rs_status a | Some x \<Rightarrow> norm x)\<rparr>
          in (if rs_status b = ''idle'' then b\<lparr>rs_focused_work_item_id := []\<rparr> else b)
                    \<lparr>rs_updated_at := now\<rparr>)"
  have "snd (update_delegation_role_session st sid focus status token g now)
          = snd (save_role_runtime_session st c token g now)"
    using Some
    by (cases "save_role_runtime_session st c token g now"; cases "fst (save_role_runtime_session st c token g now)")
      (simp_all add: update_delegation_role_session_def Let_def c_def)
  then show ?thesis by blast
qed

lemma session_step_normal: "sessions_normal st \<Longrightarrow> sessions_normal (session_step op st)"
proof (cases op)
  case (SaveSession s token g now)
  assume "sessions_normal st"
  with SaveSession show ?thesis by (simp add: save_normal)
next
  case (UpdateSession sid focus status token g now)
  assume "sessions_normal st"
  with UpdateSession update_session_cases [of st sid focus status token g now] show ?thesis
    by (auto simp: save_normal)
next
  case (Enqueue sid wid token g now)
  assume "sessions_normal st"
  with Enqueue show ?thesis
    by (auto simp: enqueue_pending_work_item_def Let_def
        split: option.splits sum.splits intro!: put_session_normal dest: get_session_normal)
next
  case (Dequeue sid token g now)
  assume "sessions_normal st"
  with Dequeue show ?thesis
    by (auto simp: dequeue_pending_work_item_def Let_def
        split: option.splits sum.splits list.splits intro!: put_session_normal dest: get_session_normal)
qed

section \<open>Properties\<close>

text \<open>
  C29. The pending queue of a role session is first come first served without duplicates.  While
  the fence is open, appending any ids to an empty queue and popping until it is empty yields
  each id once, in the order of its first append.
\<close>

theorem role_queue_first_come_first_served:
  assumes "session_open sid token g now st" "pending_of sid st = []" "list_all queue_id ws" "length ws \<le> n"
  shows "fst (drain (deq_session sid token g now) n (enq_all (enq_session sid token g now) ws st)) = dedup ws \<and>
         pending_of sid (snd (drain (deq_session sid token g now) n (enq_all (enq_session sid token g now) ws st))) = []"
  using assms by (rule session_queue.first_come_first_served)

definition one_session :: store where
  "one_session = empty_store\<lparr>st_sessions := [(new_role_session ''s'')\<lparr>rs_run_id := ''r''\<rparr>]\<rparr>"

lemma one_session_open: "session_open ''s'' [] 0 0 one_session"
  by (simp add: session_open_def one_session_def get_delegation_role_session_def new_role_session_def
      fence_open_def session_fence_def require_company_controller_record_write_def get_run_def
      empty_store_def str_simps)

theorem role_queue_first_come_first_served_witness:
  "fst (drain (deq_session ''s'' [] 0 0) 3 (enq_all (enq_session ''s'' [] 0 0) [''b'', ''a'', ''b''] one_session))
     = [''b'', ''a'']"
proof -
  have "pending_of ''s'' one_session = []"
    by (simp add: pending_of_def one_session_def get_delegation_role_session_def new_role_session_def)
  moreover have "list_all queue_id [''b'', ''a'', ''b'']" by (simp add: queue_id_def str_simps)
  ultimately show ?thesis
    using role_queue_first_come_first_served [OF one_session_open, of "[''b'', ''a'', ''b'']" 3]
    by (simp add: dedup_def)
qed



text \<open>
  A stale controller cannot touch a role session.  When a session's run has a controller
  generation and the caller's token or generation is not the run's current one, or its lease
  has expired, then saving the row, appending to and popping its queue, and marking a card of
  the run as queued all raise the lease-lost error and change nothing.
\<close>

theorem stale_controller_cannot_write_sessions:
  assumes "get_delegation_role_session st sid = Some s" "get_run st (py_strip (rs_run_id s)) = Some r"
    and "0 < rn_generation r"
    and "rn_generation r \<noteq> g \<or> py_strip (rn_owner_token r) \<noteq> py_strip token \<or> \<not> lease_live r now"
    and "sid \<noteq> []" "py_strip sid = sid" "py_strip (rs_run_id s) \<noteq> []" "py_strip wid \<noteq> []"
  shows "enqueue_pending_work_item st sid wid token g now = (Inl LeaseLost, st) \<and>
         dequeue_pending_work_item st sid token g now = (Inl LeaseLost, st) \<and>
         save_role_runtime_session st s token g now = (Inl LeaseLost, st) \<and>
         update_work_item_serial_queue_marker_for_controller st wid (rs_run_id s) proj marker expected token g now
           = (Inl LeaseLost, st)"
proof -
  have fence: "require_company_controller_record_write st (py_strip (rs_run_id s)) p (py_strip token) g now
      True w t rs state seat = Inl LeaseLost" for p w t rs state seat
    using assms(2-4,7) by (auto simp: require_company_controller_record_write_def Let_def)
  have id: "rs_role_session_id s = sid" by (rule get_session_id [OF assms(1)])
  have "enqueue_pending_work_item st sid wid token g now = (Inl LeaseLost, st)"
    "dequeue_pending_work_item st sid token g now = (Inl LeaseLost, st)"
    using assms(1,5,6,8) fence
    by (simp_all add: enqueue_pending_work_item_def dequeue_pending_work_item_def session_fence_def)
  moreover have "save_role_runtime_session st s token g now = (Inl LeaseLost, st)"
    using assms(1,6) fence id by (auto simp: save_role_runtime_session_def Let_def)
  moreover have "update_work_item_serial_queue_marker_for_controller st wid (rs_run_id s) proj marker expected token g now
           = (Inl LeaseLost, st)"
    using assms(7,8) fence by (simp add: update_work_item_serial_queue_marker_for_controller_def)
  ultimately show ?thesis by blast
qed

theorem stale_controller_cannot_write_sessions_witness:
  "enqueue_pending_work_item (one_session\<lparr>st_runs := [leased_run ''b'' 2 100]\<rparr>) ''s'' ''w'' ''a'' 1 50
     = (Inl LeaseLost, one_session\<lparr>st_runs := [leased_run ''b'' 2 100]\<rparr>)"
proof -
  let ?st = "one_session\<lparr>st_runs := [leased_run ''b'' 2 100]\<rparr>"
  let ?s = "(new_role_session ''s'')\<lparr>rs_run_id := ''r''\<rparr>"
  have s: "get_delegation_role_session ?st ''s'' = Some ?s"
    by (simp add: one_session_def get_delegation_role_session_def new_role_session_def)
  have r: "get_run ?st (py_strip (rs_run_id ?s)) = Some (leased_run ''b'' 2 100)"
    by (simp add: get_run_def str_simps)
  show ?thesis
    using stale_controller_cannot_write_sessions [OF s r, of 1 "''a''" 50 "''w''"]
    by (simp add: str_simps)
qed

end
