(* ===== verification/SerialQueue.thy ===== *)
theory SerialQueue
  imports RoleSessions
begin

text \<open>
  The serial queue of a role (\<open>opc/layer2_organization/phase_hooks.py\<close>): the markers that keep
  the dispatcher off a queued card, and \<open>reconcile_role_serial_queues\<close>, which repairs focus,
  pending list and markers of the sessions of a run and promotes the next card of an idle
  session.  The pass works on the rows it loaded at its start (\<open>qp_items\<close>; clearing a marker
  changes the loaded object too) and writes through the fenced store operations, whose
  errors it logs and skips.
\<close>

section \<open>Cards in a queue\<close>

definition queued_behind_session :: "work_item \<Rightarrow> string" where
  "queued_behind_session i = clean (dget (wi_metadata i) ''queued_behind_session'')"

definition queue_candidate :: "work_item \<Rightarrow> bool" where
  "queue_candidate i \<longleftrightarrow>
     wi_phase i \<in> RUNNABLE_PHASES \<and> py_strip (wi_claimed_by_role_runtime_session_id i) = []"

text \<open>The dictionary of the loaded rows by id; a later row wins.\<close>

definition item_by_id :: "work_item list \<Rightarrow> string \<Rightarrow> work_item option" where
  "item_by_id items wid =
     (if wid = [] then None else find (\<lambda>i. py_strip (wi_work_item_id i) = wid) (rev items))"

text \<open>The keyword arguments that travel through the pass, and the clock.\<close>

record queue_context =
  qc_project :: string
  qc_token :: string
  qc_generation :: int
  qc_now :: int

definition clear_queued_marker ::
  "queue_context \<Rightarrow> string option \<Rightarrow> work_item \<Rightarrow> store \<Rightarrow> bool \<times> work_item \<times> store" where
  "clear_queued_marker c expected i st =
     (let marker = queued_behind_session i
      in if marker = [] \<or> (case expected of None \<Rightarrow> False | Some e \<Rightarrow> marker \<noteq> py_strip e) then (False, i, st)
         else case update_work_item_serial_queue_marker_for_controller st (py_strip (wi_work_item_id i))
                     (py_strip (wi_run_id i)) (clean_project_id (qc_project c)) None (Some marker)
                     (py_strip (qc_token c)) (qc_generation c) (qc_now c) of
                (Inr True, st') \<Rightarrow>
                  (True, i\<lparr>wi_metadata := dpop ''queued_behind_session'' (wi_metadata i)\<rparr>, st')
              | (_, st') \<Rightarrow> (False, i, st'))"

definition active_focus_id :: "role_session \<Rightarrow> work_item list \<Rightarrow> string" where
  "active_focus_id s items =
     (let focused = py_strip (rs_focused_work_item_id s)
      in case item_by_id items focused of
           None \<Rightarrow> []
         | Some i \<Rightarrow>
             if wi_phase i \<in> DONE_PHASES then []
             else if is_stale_claim_releasable (wi_phase i) \<and>
                     py_strip (wi_claimed_by_role_runtime_session_id i) = [] then []
             else focused)"

section \<open>The pass\<close>

record queue_pass =
  qp_store :: store
  qp_items :: "work_item list"
  qp_pending_after :: "(string \<times> string list) list"
  qp_blocker :: "(string \<times> string) list"
  qp_cleared_markers :: "string list"
  qp_pruned_pending_ids :: "string list"
  qp_promoted_work_item_ids :: "string list"
  qp_cleared_focus_session_ids :: "string list"

definition replace_loaded :: "work_item \<Rightarrow> work_item list \<Rightarrow> work_item list" where
  "replace_loaded i items = map (\<lambda>j. if wi_work_item_id j = wi_work_item_id i then i else j) items"

definition clear_in_pass :: "queue_context \<Rightarrow> string \<Rightarrow> work_item \<Rightarrow> queue_pass \<Rightarrow> queue_pass" where
  "clear_in_pass c sid i p =
     (case clear_queued_marker c (Some sid) i (qp_store p) of
        (True, j, st) \<Rightarrow>
          p\<lparr>qp_store := st, qp_items := replace_loaded j (qp_items p),
            qp_cleared_markers := qp_cleared_markers p @ [py_strip (wi_work_item_id i)]\<rparr>
      | (False, _, st) \<Rightarrow> p\<lparr>qp_store := st\<rparr>)"

definition note_pruned :: "string \<Rightarrow> queue_pass \<Rightarrow> queue_pass" where
  "note_pruned w p = p\<lparr>qp_pruned_pending_ids := qp_pruned_pending_ids p @ [w]\<rparr>"

fun prune_pending ::
  "queue_context \<Rightarrow> string \<Rightarrow> string list \<Rightarrow> string list \<Rightarrow> queue_pass \<Rightarrow> string list \<times> queue_pass" where
  "prune_pending c sid seen [] p = ([], p)"
| "prune_pending c sid seen (w # ws) p =
     (if w \<in> set seen then prune_pending c sid seen ws (note_pruned w p)
      else case item_by_id (qp_items p) w of
             None \<Rightarrow> prune_pending c sid (w # seen) ws (note_pruned w p)
           | Some i \<Rightarrow>
               if \<not> queue_candidate i
               then prune_pending c sid (w # seen) ws (clear_in_pass c sid i (note_pruned w p))
               else let (kept, q) = prune_pending c sid (w # seen) ws p in (w # kept, q))"

definition front_unqueued_id :: "work_item list \<Rightarrow> string \<Rightarrow> string list \<Rightarrow> string" where
  "front_unqueued_id items sid kept =
     (case find (\<lambda>i. py_strip (wi_work_item_id i) \<noteq> [] \<and> py_strip (wi_work_item_id i) \<notin> set kept \<and>
                    py_strip (wi_role_runtime_session_id i) = sid \<and> queue_candidate i \<and>
                    queued_behind_session i = []) items of
        None \<Rightarrow> [] | Some i \<Rightarrow> py_strip (wi_work_item_id i))"

definition refocus :: "role_session \<Rightarrow> string \<Rightarrow> role_session \<times> bool" where
  \<comment> \<open>the focus repair; the flag says whether the session changed\<close>
  "refocus s active =
     (if py_strip (rs_focused_work_item_id s) \<noteq> [] \<and> active = []
      then (s\<lparr>rs_focused_work_item_id := [], rs_status := ''idle''\<rparr>, True)
      else if active \<noteq> [] \<and> py_lower (py_strip (rs_status s)) = ''idle''
      then (s\<lparr>rs_status := ''running''\<rparr>, True)
      else (s, False))"

definition promote :: "queue_context \<Rightarrow> string \<Rightarrow> string \<Rightarrow> queue_pass \<Rightarrow> queue_pass" where
  "promote c sid w p =
     (let q = (case item_by_id (qp_items p) w of None \<Rightarrow> p | Some i \<Rightarrow> clear_in_pass c sid i p)
      in q\<lparr>qp_promoted_work_item_ids := qp_promoted_work_item_ids q @ [w]\<rparr>)"

definition save_in_pass :: "queue_context \<Rightarrow> role_session \<Rightarrow> queue_pass \<Rightarrow> queue_pass" where
  "save_in_pass c s p =
     p\<lparr>qp_store := snd (save_role_runtime_session (qp_store p) s (py_strip (qc_token c))
                          (qc_generation c) (qc_now c))\<rparr>"

text \<open>
  The list of one session: pruned, and its head promoted when the session has no live focus and
  no unqueued card of its own in front.  The blocker is what the remaining cards wait for.
\<close>

definition settle_pending ::
  "queue_context \<Rightarrow> string \<Rightarrow> string \<Rightarrow> string list \<Rightarrow> queue_pass \<Rightarrow> string list \<times> string \<times> queue_pass" where
  "settle_pending c sid active original p =
     (case prune_pending c sid [] original p of
        (kept, q) \<Rightarrow>
          if active \<noteq> [] then (kept, active, q)
          else if front_unqueued_id (qp_items q) sid kept \<noteq> []
          then (kept, front_unqueued_id (qp_items q) sid kept, q)
          else (case kept of
                  [] \<Rightarrow> ([], [], q)
                | w # ws \<Rightarrow> (ws, w, promote c sid w q)))"

text \<open>The row of the session afterwards, and whether it is saved.\<close>

definition settle_row :: "role_session \<Rightarrow> string \<Rightarrow> string list \<Rightarrow> string list \<Rightarrow> string \<Rightarrow> role_session \<times> bool" where
  "settle_row s active original rest blocker =
     (case refocus s active of
        (s1, refocused) \<Rightarrow>
          (let s2 = (if rest \<noteq> original then s1\<lparr>rs_pending_work_item_ids := rest\<rparr> else s1);
               idle = (blocker = [] \<and> py_lower (py_strip (rs_status s2)) \<noteq> ''idle'')
           in (if idle then s2\<lparr>rs_status := ''idle'', rs_focused_work_item_id := []\<rparr> else s2,
               refocused \<or> rest \<noteq> original \<or> idle)))"

definition note_unfocused :: "role_session \<Rightarrow> string \<Rightarrow> queue_pass \<Rightarrow> queue_pass" where
  "note_unfocused s active p =
     (if py_strip (rs_focused_work_item_id s) \<noteq> [] \<and> active = []
      then p\<lparr>qp_cleared_focus_session_ids :=
               qp_cleared_focus_session_ids p @ [py_strip (rs_role_session_id s)]\<rparr>
      else p)"

definition record_session :: "string \<Rightarrow> string list \<Rightarrow> string \<Rightarrow> queue_pass \<Rightarrow> queue_pass" where
  "record_session sid rest blocker p =
     p\<lparr>qp_pending_after := (sid, rest) # qp_pending_after p, qp_blocker := (sid, blocker) # qp_blocker p\<rparr>"

definition reconcile_session :: "queue_context \<Rightarrow> role_session \<Rightarrow> queue_pass \<Rightarrow> queue_pass" where
  "reconcile_session c s p =
     (let sid = py_strip (rs_role_session_id s);
          original = filter (\<lambda>w. w \<noteq> []) (map py_strip (rs_pending_work_item_ids s));
          active = active_focus_id s (qp_items p)
      in if sid = [] then p
         else case settle_pending c sid active original (note_unfocused s active p) of
           (rest, blocker, q) \<Rightarrow>
             (case settle_row s active original rest blocker of
                (t, changed) \<Rightarrow>
                  record_session sid rest blocker (if changed then save_in_pass c t q else q)))"

text \<open>
  The marker check.  Without a session filter every session of the run has an entry in the two
  maps, so the code's fallback to the session's own list is never taken.
\<close>

definition marker_valid :: "string list \<Rightarrow> queue_pass \<Rightarrow> string \<Rightarrow> string \<Rightarrow> bool" where
  "marker_valid all_session_ids p marker wid \<longleftrightarrow>
     (let blocker = (case map_of (qp_blocker p) marker of None \<Rightarrow> [] | Some b \<Rightarrow> b)
      in marker \<in> set all_session_ids \<and>
         wid \<in> set (case map_of (qp_pending_after p) marker of None \<Rightarrow> [] | Some ws \<Rightarrow> ws) \<and>
         blocker \<noteq> [] \<and> blocker \<noteq> wid)"

definition reconcile_marker ::
  "queue_context \<Rightarrow> string list \<Rightarrow> string list \<Rightarrow> work_item \<Rightarrow> queue_pass \<Rightarrow> queue_pass" where
  "reconcile_marker c wanted all_session_ids i p =
     (let wid = py_strip (wi_work_item_id i); marker = queued_behind_session i
      in if wid = [] \<or> marker = [] \<or> (wanted \<noteq> [] \<and> marker \<notin> set wanted) then p
         else if marker_valid all_session_ids p marker wid then p
         else clear_in_pass c marker i p)"

definition effective_project :: "string \<Rightarrow> role_session list \<Rightarrow> string" where
  "effective_project project_id sessions =
     (let proj = clean_project_id project_id
      in case sessions of
           [] \<Rightarrow> proj
         | s # _ \<Rightarrow> if proj = ''default'' \<and> py_strip (rs_project_id s) \<noteq> []
                    then py_strip (rs_project_id s) else proj)"

definition publish_pass :: "string \<Rightarrow> queue_pass \<Rightarrow> queue_pass" where
  "publish_pass rid p =
     (if qp_cleared_markers p = [] \<and> qp_pruned_pending_ids p = [] \<and> qp_promoted_work_item_ids p = [] \<and>
         qp_cleared_focus_session_ids p = []
      then p
      else p\<lparr>qp_store := (qp_store p)
               \<lparr>st_events := st_events (qp_store p) @ [(rid, ''serial_queue_reconciled'')],
                st_wakes := (if qp_promoted_work_item_ids p \<noteq> [] then st_wakes (qp_store p) + 1
                             else st_wakes (qp_store p))\<rparr>\<rparr>)"

definition start_pass :: "store \<Rightarrow> work_item list \<Rightarrow> queue_pass" where
  "start_pass st items =
     \<lparr>qp_store = st, qp_items = items, qp_pending_after = [], qp_blocker = [], qp_cleared_markers = [],
      qp_pruned_pending_ids = [], qp_promoted_work_item_ids = [], qp_cleared_focus_session_ids = []\<rparr>"

definition reconcile_role_serial_queues ::
  "store \<Rightarrow> string \<Rightarrow> string list \<Rightarrow> string \<Rightarrow> string \<Rightarrow> int \<Rightarrow> int \<Rightarrow> queue_pass" where
  "reconcile_role_serial_queues st run_id role_session_ids project_id token generation now =
     (let rid = py_strip run_id
      in if \<not> st_queue_enabled st \<or> rid = [] then start_pass st []
         else
           let wanted = filter (\<lambda>x. x \<noteq> []) (map py_strip role_session_ids);
               all_sessions = list_role_runtime_sessions st rid;
               items = list_delegation_work_items st rid;
               sessions = (if wanted \<noteq> []
                           then filter (\<lambda>s. py_strip (rs_role_session_id s) \<in> set wanted) all_sessions
                           else all_sessions);
               all_ids = filter (\<lambda>x. x \<noteq> []) (map (\<lambda>s. py_strip (rs_role_session_id s)) all_sessions);
               c = \<lparr>qc_project = effective_project project_id sessions, qc_token = token,
                    qc_generation = generation, qc_now = now\<rparr>;
               p = fold (reconcile_session c) sessions (start_pass st items);
               q = fold (reconcile_marker c wanted all_ids) (qp_items p) p
           in publish_pass rid q)"

definition promote_next_pending_for_session :: "role_session \<Rightarrow> int \<Rightarrow> store \<Rightarrow> store" where
  "promote_next_pending_for_session s now st =
     (let sid = py_strip (rs_role_session_id s); rid = py_strip (rs_run_id s)
      in if sid = [] \<or> rid = [] then st
         else qp_store (reconcile_role_serial_queues st rid [sid] ''default'' [] 0 now))"

section \<open>What the pass keeps\<close>

text \<open>
  The columns the pass looks at.  The controller fence is open when the run has no controller
  generation, or the caller holds its current lease and no card of the run is held.
\<close>

definition columns :: "work_item \<Rightarrow> string \<times> string \<times> phase \<times> string \<times> string \<times> string" where
  "columns i = (wi_work_item_id i, wi_run_id i, wi_phase i, wi_claimed_by_role_runtime_session_id i,
             wi_role_runtime_session_id i, queued_behind_session i)"

definition run_writable :: "store \<Rightarrow> string \<Rightarrow> queue_context \<Rightarrow> bool" where
  "run_writable st rid c \<longleftrightarrow>
     (case get_run st rid of
        None \<Rightarrow> True
      | Some r \<Rightarrow>
          rn_generation r \<le> 0 \<or>
          py_strip (if rn_project_id r = [] then ''default'' else rn_project_id r) = clean_project_id (qc_project c) \<and>
          py_strip (qc_token c) \<noteq> [] \<and> py_strip (rn_owner_token r) = py_strip (qc_token c) \<and>
          rn_generation r = qc_generation c \<and> lease_live r (qc_now c) \<and>
          list_all (\<lambda>i. wi_run_id i = rid \<longrightarrow> sql_blank (dget (wi_metadata i) ''dispatch_hold'')) (st_items st))"

definition queue_rows :: "store \<Rightarrow> string \<Rightarrow> bool" where
  "queue_rows st rid \<longleftrightarrow>
     queue_id rid \<and> distinct (map wi_work_item_id (st_items st)) \<and>
     list_all (\<lambda>i. queue_id (wi_work_item_id i)) (list_delegation_work_items st rid)"

definition pass_ok :: "string \<Rightarrow> queue_context \<Rightarrow> queue_pass \<Rightarrow> bool" where
  "pass_ok rid c p \<longleftrightarrow>
     queue_rows (qp_store p) rid \<and> run_writable (qp_store p) rid c \<and>
     map columns (qp_items p) = map columns (list_delegation_work_items (qp_store p) rid)"

lemma clean_project_idem [simp]: "clean_project_id (clean_project_id p) = clean_project_id p"
proof -
  have "py_strip ''default'' = ''default''" by (simp add: str_simps)
  then show ?thesis by (simp add: clean_project_id_def Let_def)
qed

lemma run_writable_fence:
  assumes "run_writable st rid c" "py_strip rid = rid" "clean_project_id proj = clean_project_id (qc_project c)"
  shows "require_company_controller_record_write st rid proj (py_strip (qc_token c)) (qc_generation c) (qc_now c)
           True w t s a b = Inr ()"
  using assms
  by (auto simp: run_writable_def require_company_controller_record_write_def Let_def list_all_iff list_ex_iff
      split: option.splits)

lemma put_row_replaces:
  "distinct (map wi_work_item_id js) \<Longrightarrow> wi_work_item_id i \<in> wi_work_item_id ` set js \<Longrightarrow>
     put_row i js = replace_loaded i js"
proof (induction i js rule: put_row.induct)
  case (2 i j js)
  show ?case
  proof (cases "wi_work_item_id j = wi_work_item_id i")
    case True
    have "k = (if wi_work_item_id k = wi_work_item_id i then i else k)" if "k \<in> set js" for k
      using 2(2) True that by (metis distinct.simps(2) imageI list.simps(9) list.set_map)
    then have "replace_loaded i js = js" unfolding replace_loaded_def by (intro map_idI) metis
    with True show ?thesis by (simp add: replace_loaded_def)
  next
    case False
    with 2 show ?thesis by (auto simp: replace_loaded_def)
  qed
qed (simp add: replace_loaded_def)

lemma replace_loaded_ids [simp]: "map wi_work_item_id (replace_loaded i js) = map wi_work_item_id js"
  by (simp add: replace_loaded_def)

lemma get_item_in: "get_item st wid = Some i \<Longrightarrow> i \<in> set (st_items st) \<and> wi_work_item_id i = wid"
  by (auto simp: get_item_def find_Some_iff)

lemma get_item_of_member:
  "distinct (map wi_work_item_id (st_items st)) \<Longrightarrow> i \<in> set (st_items st) \<Longrightarrow>
     get_item st (wi_work_item_id i) = Some i"
  using find_None_iff [of "\<lambda>j. wi_work_item_id j = wi_work_item_id i" "st_items st"]
  by (cases "get_item st (wi_work_item_id i)")
    (auto simp: get_item_def distinct_map inj_on_def dest: get_item_in [unfolded get_item_def])

lemma put_item_list:
  assumes "distinct (map wi_work_item_id (st_items st))" "get_item st (wi_work_item_id i) = Some old"
    "wi_run_id i = wi_run_id old"
  shows "list_delegation_work_items (put_item st i) rid = replace_loaded i (list_delegation_work_items st rid)"
    and "st_items (put_item st i) = replace_loaded i (st_items st)"
proof -
  from get_item_in [OF assms(2)] have old: "old \<in> set (st_items st)" "wi_work_item_id old = wi_work_item_id i"
    by auto
  then have "wi_work_item_id i \<in> wi_work_item_id ` set (st_items st)" by (metis imageI)
  with assms(1) show items: "st_items (put_item st i) = replace_loaded i (st_items st)"
    by (simp add: put_item_def put_row_replaces)
  have same: "wi_run_id j = wi_run_id i" if "j \<in> set (st_items st)" "wi_work_item_id j = wi_work_item_id i" for j
    using that old assms by (auto simp: distinct_map inj_on_def)
  have "filter P (map f xs) = map f (filter P xs)" if "\<forall>x\<in>set xs. P (f x) = P x" for P f and xs :: "work_item list"
    using that by (induction xs) auto
  then show "list_delegation_work_items (put_item st i) rid = replace_loaded i (list_delegation_work_items st rid)"
    unfolding list_delegation_work_items_def items replace_loaded_def
    by (rule meta_mp) (auto simp: same)
qed

lemma list_items_member: "i \<in> set (list_delegation_work_items st rid) \<longleftrightarrow> i \<in> set (st_items st) \<and> wi_run_id i = rid"
  by (simp add: list_delegation_work_items_def)

text \<open>Markers only disappear during a pass.\<close>

definition thinner :: "work_item \<Rightarrow> work_item \<Rightarrow> bool" where
  "thinner j i \<longleftrightarrow>
     wi_work_item_id j = wi_work_item_id i \<and> wi_run_id j = wi_run_id i \<and> wi_phase j = wi_phase i \<and>
     wi_claimed_by_role_runtime_session_id j = wi_claimed_by_role_runtime_session_id i \<and>
     wi_role_runtime_session_id j = wi_role_runtime_session_id i \<and>
     (queued_behind_session j = queued_behind_session i \<or> queued_behind_session j = [])"

definition unmarks :: "string \<Rightarrow> queue_context \<Rightarrow> queue_pass \<Rightarrow> queue_pass \<Rightarrow> bool" where
  "unmarks rid c p q \<longleftrightarrow>
     (pass_ok rid c p \<longrightarrow>
        pass_ok rid c q \<and> st_sessions (qp_store q) = st_sessions (qp_store p) \<and>
        qp_pending_after q = qp_pending_after p \<and> qp_blocker q = qp_blocker p \<and>
        list_all2 thinner (qp_items q) (qp_items p))"

lemma thinner_refl [simp]: "thinner i i"
  by (simp add: thinner_def)

lemma thinner_trans: "thinner k j \<Longrightarrow> thinner j i \<Longrightarrow> thinner k i"
  by (auto simp: thinner_def)

lemma unmarks_refl [simp]: "unmarks rid c p p"
  by (simp add: unmarks_def list_all2_refl)

lemma unmarks_trans: "unmarks rid c p q \<Longrightarrow> unmarks rid c q r \<Longrightarrow> unmarks rid c p r"
  unfolding unmarks_def
  by (auto intro: list_all2_trans [of thinner thinner thinner, OF thinner_trans])

lemma unmarks_lists [simp]:
  "unmarks rid c p (note_pruned w q) = unmarks rid c p q"
  "unmarks rid c (note_pruned w p) q = unmarks rid c p q"
  "unmarks rid c p (q\<lparr>qp_promoted_work_item_ids := xs\<rparr>) = unmarks rid c p q"
  "unmarks rid c (p\<lparr>qp_cleared_focus_session_ids := xs\<rparr>) q = unmarks rid c p q"
  "qp_items (note_pruned w p) = qp_items p"
  "pass_ok rid c (note_pruned w p) = pass_ok rid c p"
  by (simp_all add: unmarks_def pass_ok_def note_pruned_def)


lemma clear_effect:
  assumes "pass_ok rid c p" "i \<in> set (qp_items p)" "queued_behind_session i \<noteq> []"
    "py_strip sid = queued_behind_session i"
  obtains row row' where
    "clear_queued_marker c (Some sid) i (qp_store p)
       = (True, i\<lparr>wi_metadata := dpop ''queued_behind_session'' (wi_metadata i)\<rparr>, put_item (qp_store p) row')"
    "get_item (qp_store p) (wi_work_item_id i) = Some row"
    "wi_work_item_id row' = wi_work_item_id i" "wi_run_id row' = wi_run_id row"
    "columns row' = columns (i\<lparr>wi_metadata := dpop ''queued_behind_session'' (wi_metadata i)\<rparr>)"
    "dget (wi_metadata row') ''dispatch_hold'' = dget (wi_metadata row) ''dispatch_hold''"
proof -
  let ?st = "qp_store p" and ?m = "queued_behind_session i"
  have ok: "queue_rows ?st rid" "run_writable ?st rid c"
      "map columns (qp_items p) = map columns (list_delegation_work_items ?st rid)"
    using assms(1) by (simp_all add: pass_ok_def)
  from assms(2) ok(3) have "columns i \<in> columns ` set (list_delegation_work_items ?st rid)"
    by (metis imageI list.set_map)
  then obtain row where row: "row \<in> set (list_delegation_work_items ?st rid)" "columns row = columns i" by auto
  from row have cols: "wi_work_item_id row = wi_work_item_id i" "wi_run_id row = rid" "wi_run_id i = rid"
      "queued_behind_session row = ?m"
    by (auto simp: columns_def list_items_member)
  from ok(1) row have ids: "queue_id (wi_work_item_id i)" "queue_id rid"
    by (auto simp: queue_rows_def list_all_iff cols(1) [symmetric])
  have get: "get_item ?st (wi_work_item_id i) = Some row"
    using get_item_of_member [of ?st row] ok(1) row(1) cols by (simp add: queue_rows_def list_items_member)
  have m: "clean (dget (wi_metadata row) ''queued_behind_session'') = ?m" "py_strip ?m = ?m"
    using cols(4) by (simp_all add: queued_behind_session_def)
  define row' where "row' = row\<lparr>wi_metadata := dset ''company_run_controller_lease_generation'' (PInt (qc_generation c))
      (dset ''company_run_controller_owner_token'' (PStr (py_strip (qc_token c)))
        (dpop ''queued_behind_session'' (wi_metadata row))), wi_updated_at := qc_now c\<rparr>"
  have "clear_queued_marker c (Some sid) i ?st
      = (True, i\<lparr>wi_metadata := dpop ''queued_behind_session'' (wi_metadata i)\<rparr>, put_item ?st row')"
    using assms(3,4) ids cols get m run_writable_fence [OF ok(2), of "clean_project_id (clean_project_id (qc_project c))"]
    by (simp add: clear_queued_marker_def update_work_item_serial_queue_marker_for_controller_def Let_def
        queue_id_def row'_def)
  moreover have "columns row' = columns (i\<lparr>wi_metadata := dpop ''queued_behind_session'' (wi_metadata i)\<rparr>)"
    using row(2) by (simp add: columns_def row'_def queued_behind_session_def)
  ultimately show thesis
    using that [of row' row] get cols by (simp add: row'_def)
qed

lemma map_columns_replace:
  "map columns (replace_loaded i zs) = map (\<lambda>k. if fst k = fst (columns i) then columns i else k) (map columns zs)"
  by (auto simp: replace_loaded_def columns_def)

lemma replace_loaded_columns:
  "map columns xs = map columns ys \<Longrightarrow> columns i = columns j \<Longrightarrow>
     map columns (replace_loaded i xs) = map columns (replace_loaded j ys)"
  unfolding map_columns_replace by (simp only:)

lemma list_all2_replace:
  "(\<And>k. k \<in> set xs \<Longrightarrow> wi_work_item_id k = wi_work_item_id i \<Longrightarrow> thinner i k) \<Longrightarrow>
     list_all2 thinner (replace_loaded i xs) xs"
  by (induction xs) (auto simp: replace_loaded_def)

lemma pass_ids_distinct: "pass_ok rid c p \<Longrightarrow> distinct (map wi_work_item_id (qp_items p))"
proof -
  assume "pass_ok rid c p"
  then have eq: "map columns (qp_items p) = map columns (list_delegation_work_items (qp_store p) rid)"
    and d: "distinct (map wi_work_item_id (st_items (qp_store p)))"
    by (auto simp: pass_ok_def queue_rows_def)
  have "map wi_work_item_id xs = map fst (map columns xs)" for xs by (simp add: columns_def)
  with eq have "map wi_work_item_id (qp_items p) = map wi_work_item_id (list_delegation_work_items (qp_store p) rid)"
    by metis
  with d show ?thesis by (simp add: list_delegation_work_items_def distinct_map_filter)
qed

lemma pass_member_id: "pass_ok rid c p \<Longrightarrow> i \<in> set (qp_items p) \<Longrightarrow> queue_id (wi_work_item_id i) \<and> wi_run_id i = rid"
proof -
  assume p: "pass_ok rid c p" and "i \<in> set (qp_items p)"
  then have "columns i \<in> columns ` set (list_delegation_work_items (qp_store p) rid)"
    unfolding pass_ok_def by (metis imageI list.set_map)
  with p show ?thesis
    by (auto simp: pass_ok_def queue_rows_def list_all_iff columns_def list_items_member)
qed

lemma run_writable_put:
  assumes "run_writable st rid c" "distinct (map wi_work_item_id (st_items st))"
    "get_item st (wi_work_item_id i) = Some old" "wi_run_id i = wi_run_id old"
    "dget (wi_metadata i) ''dispatch_hold'' = dget (wi_metadata old) ''dispatch_hold''"
  shows "run_writable (put_item st i) rid c"
proof -
  have "old \<in> set (st_items st)" using assms(3) by (auto dest: get_item_in)
  moreover have "get_run (put_item st i) rid = get_run st rid" by (simp add: get_run_def put_item_def)
  ultimately show ?thesis
    using assms(1,4,5) put_item_list(2) [OF assms(2,3,4)]
    by (auto simp: run_writable_def list_all_iff replace_loaded_def split: option.splits)
qed

lemma clear_in_pass_unmarks:
  assumes "i \<in> set (qp_items p)"
  shows "unmarks rid c p (clear_in_pass c sid i p)"
proof (cases "queued_behind_session i = [] \<or> py_strip sid \<noteq> queued_behind_session i")
  case True
  then show ?thesis by (auto simp: clear_in_pass_def clear_queued_marker_def)
next
  case False
  show ?thesis unfolding unmarks_def
  proof
    assume ok: "pass_ok rid c p"
    let ?j = "i\<lparr>wi_metadata := dpop ''queued_behind_session'' (wi_metadata i)\<rparr>" and ?st = "qp_store p"
    from False obtain row row' where e: "clear_queued_marker c (Some sid) i ?st = (True, ?j, put_item ?st row')"
        "get_item ?st (wi_work_item_id i) = Some row" "wi_work_item_id row' = wi_work_item_id i"
        "wi_run_id row' = wi_run_id row" "columns row' = columns ?j"
        "dget (wi_metadata row') ''dispatch_hold'' = dget (wi_metadata row) ''dispatch_hold''"
      using clear_effect [OF ok assms] by metis
    have rows: "queue_rows ?st rid" "run_writable ?st rid c" using ok by (simp_all add: pass_ok_def)
    then have d: "distinct (map wi_work_item_id (st_items ?st))" by (simp add: queue_rows_def)
    note put = put_item_list [OF d, of row', unfolded e(3), OF e(2,4)]
    have ids: "map wi_work_item_id (list_delegation_work_items (put_item ?st row') rid)
        = map wi_work_item_id (list_delegation_work_items ?st rid)"
      by (simp add: put)
    have "queue_rows (put_item ?st row') rid"
      using rows(1) put(2) ids unfolding queue_rows_def
      by (simp add: list.pred_map [symmetric, of queue_id wi_work_item_id, unfolded comp_def] list_all_iff)
    moreover have "run_writable (put_item ?st row') rid c"
      using rows(2) d e(2,3,4,6) by (intro run_writable_put) simp_all
    moreover have "map columns (replace_loaded ?j (qp_items p))
        = map columns (list_delegation_work_items (put_item ?st row') rid)"
      unfolding put(1) using ok e(5) pass_ids_distinct [OF ok]
      by (intro replace_loaded_columns) (simp_all add: pass_ok_def)
    moreover have "list_all2 thinner (replace_loaded ?j (qp_items p)) (qp_items p)"
    proof (rule list_all2_replace)
      fix k assume "k \<in> set (qp_items p)" "wi_work_item_id k = wi_work_item_id ?j"
      then have "k = i" using pass_ids_distinct [OF ok] assms by (auto simp: distinct_map inj_on_def)
      then show "thinner ?j k" by (simp add: thinner_def queued_behind_session_def)
    qed
    ultimately show "pass_ok rid c (clear_in_pass c sid i p) \<and>
        st_sessions (qp_store (clear_in_pass c sid i p)) = st_sessions ?st \<and>
        qp_pending_after (clear_in_pass c sid i p) = qp_pending_after p \<and>
        qp_blocker (clear_in_pass c sid i p) = qp_blocker p \<and>
        list_all2 thinner (qp_items (clear_in_pass c sid i p)) (qp_items p)"
      using e(1) by (simp add: clear_in_pass_def pass_ok_def put_item_def)
  qed
qed

lemma clear_in_pass_clears:
  assumes "pass_ok rid c p" "i \<in> set (qp_items p)" "queued_behind_session i \<in> {[], py_strip sid}"
    "j \<in> set (qp_items (clear_in_pass c sid i p))" "wi_work_item_id j = wi_work_item_id i"
  shows "queued_behind_session j = []"
proof (cases "queued_behind_session i = []")
  case True
  then have "j \<in> set (qp_items p)" using assms(4) by (simp add: clear_in_pass_def clear_queued_marker_def)
  with assms pass_ids_distinct [OF assms(1)] True show ?thesis by (auto simp: distinct_map inj_on_def)
next
  case False
  with assms(3) have "py_strip sid = queued_behind_session i" by simp
  with clear_effect [OF assms(1,2) False] obtain row' where
    "clear_queued_marker c (Some sid) i (qp_store p)
       = (True, i\<lparr>wi_metadata := dpop ''queued_behind_session'' (wi_metadata i)\<rparr>, put_item (qp_store p) row')"
    by metis
  with assms(4,5) show ?thesis
    by (auto simp: clear_in_pass_def replace_loaded_def queued_behind_session_def split: if_splits)
qed


section \<open>One session\<close>

lemma thinner_member:
  "list_all2 thinner xs ys \<Longrightarrow> i \<in> set ys \<Longrightarrow> \<exists>j\<in>set xs. thinner j i"
  "list_all2 thinner xs ys \<Longrightarrow> j \<in> set xs \<Longrightarrow> \<exists>i\<in>set ys. thinner j i"
  by (induction xs ys rule: list_all2_induct) auto

lemma thinner_candidate: "thinner j i \<Longrightarrow> queue_candidate j = queue_candidate i"
  by (simp add: thinner_def queue_candidate_def)

lemma item_by_id_Some:
  assumes "pass_ok rid c p" "item_by_id (qp_items p) w = Some i"
  shows "i \<in> set (qp_items p) \<and> wi_work_item_id i = w"
proof -
  from assms(2) have f: "find (\<lambda>i. py_strip (wi_work_item_id i) = w) (rev (qp_items p)) = Some i"
    by (simp add: item_by_id_def split: if_splits)
  then have "find (\<lambda>i. py_strip (wi_work_item_id i) = w) (rev (qp_items p)) \<noteq> None" by simp
  from f have "i \<in> set (rev (qp_items p)) \<and> py_strip (wi_work_item_id i) = w"
    by (metis (mono_tags, lifting) find_Some_iff nth_mem)
  then have i: "i \<in> set (qp_items p)" "py_strip (wi_work_item_id i) = w" by simp_all
  with pass_member_id [OF assms(1) i(1)] show ?thesis by (simp add: queue_id_def)
qed

definition runnable_ids :: "work_item list \<Rightarrow> string list \<Rightarrow> bool" where
  "runnable_ids items ws \<longleftrightarrow> (\<forall>w\<in>set ws. \<exists>i\<in>set items. wi_work_item_id i = w \<and> queue_candidate i)"

lemma runnable_ids_thinner: "list_all2 thinner xs ys \<Longrightarrow> runnable_ids ys ws \<Longrightarrow> runnable_ids xs ws"
  unfolding runnable_ids_def using thinner_member(1) thinner_candidate by (metis thinner_def)

lemma prune_pending_result:
  "prune_pending c sid seen ws p = (kept, q) \<Longrightarrow> pass_ok rid c p \<Longrightarrow>
     unmarks rid c p q \<and> set kept \<subseteq> set ws - set seen \<and> distinct kept \<and> runnable_ids (qp_items q) kept"
proof (induction c sid seen ws p arbitrary: kept q rule: prune_pending.induct)
  case (1 c sid seen p)
  then show ?case by (simp add: runnable_ids_def)
next
  case (2 c sid seen w ws p)
  show ?case
  proof (cases "w \<in> set seen")
    case True
    with 2 show ?thesis by auto
  next
    case False
    show ?thesis
    proof (cases "item_by_id (qp_items p) w")
      case None
      with False 2(2) [OF False None, of kept q] 2(5,6) show ?thesis by auto
    next
      case (Some i)
      with item_by_id_Some [OF 2(6) Some] have i: "i \<in> set (qp_items p)" "wi_work_item_id i = w" by auto
      show ?thesis
      proof (cases "queue_candidate i")
        case True
        obtain kept' where k: "prune_pending c sid (w # seen) ws p = (kept', q)" "kept = w # kept'"
          using 2(5) False Some True by (auto split: prod.splits)
        with 2(4) [OF False Some] True 2(6)
        have IH: "unmarks rid c p q" "set kept' \<subseteq> set ws - set (w # seen)" "distinct kept'"
            "runnable_ids (qp_items q) kept'" by auto
        have "list_all2 thinner (qp_items q) (qp_items p)" using IH(1) 2(6) by (simp add: unmarks_def)
        then obtain j where "j \<in> set (qp_items q)" "thinner j i" using thinner_member(1) i by blast
        then have "\<exists>j\<in>set (qp_items q). wi_work_item_id j = w \<and> queue_candidate j"
          using True i thinner_candidate [of j i] by (auto simp: thinner_def)
        with IH False k show ?thesis by (auto simp: runnable_ids_def)
      next
        case not: False
        let ?p = "clear_in_pass c sid i (note_pruned w p)"
        have u: "unmarks rid c p ?p" using clear_in_pass_unmarks [of i "note_pruned w p" rid c sid] i by simp
        then have "pass_ok rid c ?p" using 2(6) by (simp add: unmarks_def)
        moreover have "prune_pending c sid (w # seen) ws ?p = (kept, q)" using 2(5) False Some not by simp
        ultimately have "unmarks rid c ?p q \<and> set kept \<subseteq> set ws - set (w # seen) \<and> distinct kept \<and>
            runnable_ids (qp_items q) kept"
          using 2(3) [OF False Some not] by blast
        with u unmarks_trans show ?thesis by auto
      qed
    qed
  qed
qed

text \<open>What a session waits for: the live card it is focused on, or a card it may run next.\<close>

definition ahead :: "work_item list \<Rightarrow> role_session \<Rightarrow> string \<Rightarrow> bool" where
  "ahead items s b \<longleftrightarrow>
     (\<exists>i\<in>set items. wi_work_item_id i = b \<and>
        (py_strip (rs_focused_work_item_id s) = b \<and> wi_phase i \<notin> DONE_PHASES \<or>
         queue_candidate i \<and> queued_behind_session i = []))"

lemma ahead_thinner: "list_all2 thinner xs ys \<Longrightarrow> ahead ys s b \<Longrightarrow> ahead xs s b"
proof -
  assume l: "list_all2 thinner xs ys" and "ahead ys s b"
  then obtain i where i: "i \<in> set ys" "wi_work_item_id i = b"
    "py_strip (rs_focused_work_item_id s) = b \<and> wi_phase i \<notin> DONE_PHASES \<or>
     queue_candidate i \<and> queued_behind_session i = []"
    unfolding ahead_def by blast
  from thinner_member(1) [OF l i(1)] obtain j where "j \<in> set xs" "thinner j i" by blast
  with i thinner_candidate [of j i] show ?thesis unfolding ahead_def thinner_def by metis
qed

definition settled :: "queue_pass \<Rightarrow> role_session \<Rightarrow> string \<Rightarrow> bool" where
  "settled p t b \<longleftrightarrow>
     distinct (rs_pending_work_item_ids t) \<and> runnable_ids (qp_items p) (rs_pending_work_item_ids t) \<and>
     (if b = [] then rs_pending_work_item_ids t = [] else ahead (qp_items p) t b)"

definition queue_settled :: "queue_pass \<Rightarrow> string \<Rightarrow> bool" where
  "queue_settled p sid \<longleftrightarrow>
     (\<exists>t b. get_delegation_role_session (qp_store p) sid = Some t \<and>
            map_of (qp_pending_after p) sid = Some (rs_pending_work_item_ids t) \<and>
            map_of (qp_blocker p) sid = Some b \<and> settled p t b)"

definition own_markers :: "work_item list \<Rightarrow> role_session \<Rightarrow> bool" where
  "own_markers items s \<longleftrightarrow>
     (\<forall>i\<in>set items. wi_work_item_id i \<in> set (rs_pending_work_item_ids s) \<longrightarrow>
        queued_behind_session i \<in> {[], rs_role_session_id s})"

lemma own_markers_thinner: "list_all2 thinner xs ys \<Longrightarrow> own_markers ys s \<Longrightarrow> own_markers xs s"
  unfolding own_markers_def
proof (intro ballI impI)
  fix j
  assume l: "list_all2 thinner xs ys" and j: "j \<in> set xs" "wi_work_item_id j \<in> set (rs_pending_work_item_ids s)"
    and own: "\<forall>i\<in>set ys. wi_work_item_id i \<in> set (rs_pending_work_item_ids s) \<longrightarrow>
      queued_behind_session i \<in> {[], rs_role_session_id s}"
  from thinner_member(2) [OF l j(1)] obtain i where "i \<in> set ys" "thinner j i" by blast
  with own j(2) show "queued_behind_session j \<in> {[], rs_role_session_id s}"
    unfolding thinner_def by auto
qed

definition queue_session :: "string \<Rightarrow> queue_context \<Rightarrow> role_session \<Rightarrow> bool" where
  "queue_session rid c s \<longleftrightarrow>
     queue_id (rs_role_session_id s) \<and> rs_run_id s = rid \<and> list_all queue_id (rs_pending_work_item_ids s) \<and>
     clean_project_id (rs_project_id s) = clean_project_id (qc_project c) \<and> session_normal s"


lemma save_in_pass_ok:
  assumes "pass_ok rid c p" "get_delegation_role_session (qp_store p) (rs_role_session_id s) = Some old"
    "queue_session rid c old" "rs_role_session_id s = rs_role_session_id old" "rs_run_id s = rid"
    "rs_project_id s = rs_project_id old"
  shows "save_in_pass c s p = p\<lparr>qp_store := put_session (qp_store p) (normalized_session s)\<rparr>"
proof -
  have rid: "py_strip rid = rid" and w: "run_writable (qp_store p) rid c"
    using assms(1) by (auto simp: pass_ok_def queue_rows_def queue_id_def)
  have "rs_run_id old = rid" "py_strip (rs_role_session_id old) = rs_role_session_id old"
    "clean_project_id (rs_project_id old) = clean_project_id (qc_project c)"
    using assms(3) by (auto simp: queue_session_def queue_id_def)
  with assms(2,4-6) run_writable_fence [OF w rid] rid show ?thesis
    by (simp add: save_in_pass_def save_role_runtime_session_def Let_def)
qed

lemma normalized_session_pending [simp]:
  "rs_pending_work_item_ids (normalized_session s) = rs_pending_work_item_ids s"
  "rs_role_session_id (normalized_session s) = rs_role_session_id s"
  by (simp_all add: normalized_session_def Let_def)

lemma pass_ok_put_session: "pass_ok rid c p \<Longrightarrow> pass_ok rid c (p\<lparr>qp_store := put_session (qp_store p) s\<rparr>)"
  by (simp add: pass_ok_def queue_rows_def run_writable_def list_delegation_work_items_def
      cong: option.case_cong)

lemma normalized_keeps_focus:
  assumes "rs_status s \<in> {''running'', ''blocked''}" "py_strip (rs_focused_work_item_id s) \<noteq> []"
  shows "rs_focused_work_item_id (normalized_session s) = py_strip (rs_focused_work_item_id s)"
proof -
  have "clean_lower (PStr ''running'') = ''running''" "clean_lower (PStr ''blocked'') = ''blocked''"
    by (simp_all add: clean_lower_def str_simps)
  with assms show ?thesis
    by (auto simp: normalized_session_def normalize_role_runtime_status_def Let_def)
qed

lemma queue_session_lists:
  assumes "queue_session rid c s"
  shows "filter (\<lambda>w. w \<noteq> []) (map py_strip (rs_pending_work_item_ids s)) = rs_pending_work_item_ids s"
    and "py_strip (rs_role_session_id s) = rs_role_session_id s" "rs_role_session_id s \<noteq> []"
proof -
  have "filter (\<lambda>w. w \<noteq> []) (map py_strip ws) = ws" if "list_all queue_id ws" for ws
    using that by (induction ws) (auto simp: queue_id_def)
  with assms show "filter (\<lambda>w. w \<noteq> []) (map py_strip (rs_pending_work_item_ids s)) = rs_pending_work_item_ids s"
    by (simp add: queue_session_def)
qed (use assms in \<open>auto simp: queue_session_def queue_id_def\<close>)

lemma active_focus_live:
  assumes "pass_ok rid c p" "active_focus_id s (qp_items p) \<noteq> []"
  shows "py_strip (rs_focused_work_item_id s) = active_focus_id s (qp_items p) \<and>
         (\<exists>i\<in>set (qp_items p). wi_work_item_id i = active_focus_id s (qp_items p) \<and> wi_phase i \<notin> DONE_PHASES)"
proof (cases "item_by_id (qp_items p) (py_strip (rs_focused_work_item_id s))")
  case None
  with assms show ?thesis by (simp add: active_focus_id_def)
next
  case (Some i)
  with item_by_id_Some [OF assms(1) Some] assms(2) show ?thesis
    by (auto simp: active_focus_id_def Let_def split: if_splits)
qed

lemma front_unqueued_live:
  assumes "pass_ok rid c p" "front_unqueued_id (qp_items p) sid kept \<noteq> []"
  shows "\<exists>i\<in>set (qp_items p). wi_work_item_id i = front_unqueued_id (qp_items p) sid kept \<and>
           queue_candidate i \<and> queued_behind_session i = []"
proof -
  from assms(2) obtain i where f: "i \<in> set (qp_items p)"
    "front_unqueued_id (qp_items p) sid kept = py_strip (wi_work_item_id i)"
    "queue_candidate i" "queued_behind_session i = []"
    by (auto simp: front_unqueued_id_def find_Some_iff split: option.splits) (metis nth_mem)
  with pass_member_id [OF assms(1) f(1)] show ?thesis by (auto simp: queue_id_def)
qed

lemma promote_result:
  assumes "pass_ok rid c p" "runnable_ids (qp_items p) (w # ws)" "own_markers (qp_items p) s"
    "w \<in> set (rs_pending_work_item_ids s)" "py_strip (rs_role_session_id s) = rs_role_session_id s"
  shows "unmarks rid c p (promote c (rs_role_session_id s) w p) \<and>
         (\<exists>i\<in>set (qp_items (promote c (rs_role_session_id s) w p)).
            wi_work_item_id i = w \<and> queue_candidate i \<and> queued_behind_session i = [])"
proof -
  let ?sid = "rs_role_session_id s"
  from assms(2) obtain k where k: "k \<in> set (qp_items p)" "wi_work_item_id k = w" "queue_candidate k"
    by (auto simp: runnable_ids_def)
  with pass_member_id [OF assms(1) k(1)] have w: "w \<noteq> []" "py_strip (wi_work_item_id k) = w"
    by (auto simp: queue_id_def)
  have "item_by_id (qp_items p) w \<noteq> None"
    using k(1) w by (auto simp: item_by_id_def find_None_iff)
  then obtain i where Some: "item_by_id (qp_items p) w = Some i" by blast
  from item_by_id_Some [OF assms(1) Some] have i: "i \<in> set (qp_items p)" "wi_work_item_id i = w" by auto
  with k pass_ids_distinct [OF assms(1)] have "i = k" by (auto simp: distinct_map inj_on_def)
  with k have cand: "queue_candidate i" by simp
  have marker: "queued_behind_session i \<in> {[], py_strip ?sid}"
    using assms(3-5) i by (auto simp: own_markers_def)
  let ?q = "clear_in_pass c ?sid i p"
  have u: "unmarks rid c p ?q" by (rule clear_in_pass_unmarks [OF i(1)])
  with assms(1) have "list_all2 thinner (qp_items ?q) (qp_items p)" by (simp add: unmarks_def)
  from thinner_member(1) [OF this i(1)] obtain j where j: "j \<in> set (qp_items ?q)" "thinner j i" by blast
  then have "queued_behind_session j = []"
    using clear_in_pass_clears [OF assms(1) i(1) marker j(1)] by (simp add: thinner_def)
  with j i cand u Some show ?thesis
    by (auto simp: promote_def Let_def thinner_candidate [OF j(2)] thinner_def intro!: bexI [of _ j])
qed


lemma settle_pending_result:
  assumes "settle_pending c (rs_role_session_id s) active (rs_pending_work_item_ids s) p = (rest, blocker, q)"
    and ok: "pass_ok rid c p" and qs: "queue_session rid c s" and own: "own_markers (qp_items p) s"
  shows "unmarks rid c p q" "distinct rest" "runnable_ids (qp_items q) rest"
    "active \<noteq> [] \<Longrightarrow> blocker = active"
    "active = [] \<Longrightarrow> blocker \<noteq> [] \<Longrightarrow> \<exists>i\<in>set (qp_items q). wi_work_item_id i = blocker \<and>
        queue_candidate i \<and> queued_behind_session i = []"
    "blocker = [] \<Longrightarrow> rest = []"
proof -
  let ?sid = "rs_role_session_id s"
  obtain kept r where pr: "prune_pending c ?sid [] (rs_pending_work_item_ids s) p = (kept, r)" by fastforce
  from prune_pending_result [OF pr ok] have u: "unmarks rid c p r"
    and kept: "set kept \<subseteq> set (rs_pending_work_item_ids s)" "distinct kept" "runnable_ids (qp_items r) kept"
    by auto
  have okr: "pass_ok rid c r" using u ok by (simp add: unmarks_def)
  have ownr: "own_markers (qp_items r) s"
    using own_markers_thinner [OF _ own] u ok by (auto simp: unmarks_def)
  have ids: "[] \<notin> set kept"
    using kept(1) qs by (auto simp: queue_session_def list_all_iff queue_id_def)
  note sid = queue_session_lists(2) [OF qs]
  have "unmarks rid c p q \<and> distinct rest \<and> runnable_ids (qp_items q) rest \<and>
      (active \<noteq> [] \<longrightarrow> blocker = active) \<and>
      (active = [] \<longrightarrow> blocker \<noteq> [] \<longrightarrow> (\<exists>i\<in>set (qp_items q). wi_work_item_id i = blocker \<and>
        queue_candidate i \<and> queued_behind_session i = [])) \<and> (blocker = [] \<longrightarrow> rest = [])"
  proof (cases "active = [] \<and> front_unqueued_id (qp_items r) ?sid kept = [] \<and> kept \<noteq> []")
    case True
    then obtain w where w: "kept = w # rest" "blocker = w" "q = promote c ?sid w r"
      using assms(1) pr by (auto simp: settle_pending_def split: list.splits)
    from promote_result [OF okr _ ownr _ sid, of w rest] kept w
    have pm: "unmarks rid c r q" "\<exists>i\<in>set (qp_items q). wi_work_item_id i = blocker \<and>
        queue_candidate i \<and> queued_behind_session i = []" by auto
    then have "runnable_ids (qp_items q) kept"
      using runnable_ids_thinner [OF _ kept(3)] okr by (simp add: unmarks_def)
    with w have "runnable_ids (qp_items q) rest" by (simp add: runnable_ids_def)
    with pm w kept(2) ids unmarks_trans [OF u pm(1)] True show ?thesis by auto
  next
    case False
    then have "q = r \<and> rest = kept \<and> (if active \<noteq> [] then blocker = active
        else blocker = front_unqueued_id (qp_items r) ?sid kept)"
      using assms(1) pr by (auto simp: settle_pending_def split: if_splits list.splits)
    with False u kept front_unqueued_live [OF okr, of ?sid kept] show ?thesis
      by (auto split: if_splits)
  qed
  then show "unmarks rid c p q" "distinct rest" "runnable_ids (qp_items q) rest"
    "active \<noteq> [] \<Longrightarrow> blocker = active"
    "active = [] \<Longrightarrow> blocker \<noteq> [] \<Longrightarrow> \<exists>i\<in>set (qp_items q). wi_work_item_id i = blocker \<and>
        queue_candidate i \<and> queued_behind_session i = []"
    "blocker = [] \<Longrightarrow> rest = []"
    by blast+
qed

lemma settle_row_result:
  assumes "settle_row s active original rest blocker = (t, changed)" "original = rs_pending_work_item_ids s"
    "session_normal s" "active \<noteq> [] \<Longrightarrow> blocker = active \<and> py_strip (rs_focused_work_item_id s) = active"
  shows "rs_role_session_id t = rs_role_session_id s" "rs_run_id t = rs_run_id s"
    "rs_project_id t = rs_project_id s" "rs_pending_work_item_ids t = rest" "\<not> changed \<Longrightarrow> t = s"
    "active \<noteq> [] \<Longrightarrow> rs_focused_work_item_id (normalized_session t) = active"
proof -
  show "rs_role_session_id t = rs_role_session_id s" "rs_run_id t = rs_run_id s"
    "rs_project_id t = rs_project_id s" "rs_pending_work_item_ids t = rest" "\<not> changed \<Longrightarrow> t = s"
    using assms(1,2) by (auto simp: settle_row_def refocus_def Let_def split: if_splits)
next
  assume a: "active \<noteq> []"
  with assms(3,4) have st: "rs_status s \<in> {''running'', ''blocked''}"
    by (auto simp: session_normal_def role_runtime_statuses_def)
  then have "py_lower (py_strip (rs_status s)) = rs_status s" by (auto simp: str_simps)
  with a assms(1,4) st have "rs_status t \<in> {''running'', ''blocked''}" "py_strip (rs_focused_work_item_id t) = active"
    by (auto simp: settle_row_def refocus_def Let_def split: if_splits)
  with normalized_keeps_focus [of t] a show "rs_focused_work_item_id (normalized_session t) = active" by simp
qed


lemma note_unfocused_simps [simp]:
  "qp_items (note_unfocused s active p) = qp_items p" "qp_store (note_unfocused s active p) = qp_store p"
  "qp_pending_after (note_unfocused s active p) = qp_pending_after p"
  "qp_blocker (note_unfocused s active p) = qp_blocker p"
  "pass_ok rid c (note_unfocused s active p) = pass_ok rid c p"
  "unmarks rid c (note_unfocused s active p) q = unmarks rid c p q"
  by (simp_all add: note_unfocused_def pass_ok_def unmarks_def)

lemma record_session_simps [simp]:
  "qp_items (record_session sid rest b p) = qp_items p" "qp_store (record_session sid rest b p) = qp_store p"
  "qp_pending_after (record_session sid rest b p) = (sid, rest) # qp_pending_after p"
  "qp_blocker (record_session sid rest b p) = (sid, b) # qp_blocker p"
  "pass_ok rid c (record_session sid rest b p) = pass_ok rid c p"
  by (simp_all add: record_session_def pass_ok_def)

text \<open>What one session leaves alone.\<close>

definition others_kept :: "string \<Rightarrow> queue_pass \<Rightarrow> queue_pass \<Rightarrow> bool" where
  "others_kept sid p q \<longleftrightarrow>
     (\<forall>x. x \<noteq> sid \<longrightarrow>
        get_delegation_role_session (qp_store q) x = get_delegation_role_session (qp_store p) x \<and>
        map_of (qp_pending_after q) x = map_of (qp_pending_after p) x \<and>
        map_of (qp_blocker q) x = map_of (qp_blocker p) x)"

lemma get_session_cong:
  "st_sessions st' = st_sessions st \<Longrightarrow> get_delegation_role_session st' x = get_delegation_role_session st x"
  by (simp add: get_delegation_role_session_def)

lemma reconcile_session_settles:
  assumes ok: "pass_ok rid c p" and get: "get_delegation_role_session (qp_store p) (rs_role_session_id s) = Some s"
    and qs: "queue_session rid c s" and own: "own_markers (qp_items p) s"
  shows "pass_ok rid c (reconcile_session c s p)"
    and "queue_settled (reconcile_session c s p) (rs_role_session_id s)"
    and "list_all2 thinner (qp_items (reconcile_session c s p)) (qp_items p)"
    and "others_kept (rs_role_session_id s) p (reconcile_session c s p)"
proof -
  let ?q = "reconcile_session c s p"
  let ?sid = "rs_role_session_id s" and ?pending = "rs_pending_work_item_ids s"
  define active where "active = active_focus_id s (qp_items p)"
  obtain rest blocker r where sp:
    "settle_pending c ?sid active ?pending (note_unfocused s active p) = (rest, blocker, r)"
    by (metis prod_cases3)
  obtain t changed where row: "settle_row s active ?pending rest blocker = (t, changed)" by fastforce
  define q where "q = (if changed then save_in_pass c t r else r)"
  have eq: "?q = record_session ?sid rest blocker q"
    using queue_session_lists [OF qs] sp row by (simp add: reconcile_session_def active_def q_def)
  note pending = settle_pending_result [OF sp _ qs, unfolded note_unfocused_simps, OF ok own]
  have live: "active \<noteq> [] \<Longrightarrow> py_strip (rs_focused_work_item_id s) = active \<and>
      (\<exists>i\<in>set (qp_items p). wi_work_item_id i = active \<and> wi_phase i \<notin> DONE_PHASES)"
    unfolding active_def by (rule active_focus_live [OF ok])
  have normal: "session_normal s" using qs by (simp add: queue_session_def)
  have foc: "blocker = active \<and> py_strip (rs_focused_work_item_id s) = active" if "active \<noteq> []"
    using live pending(4) that by blast
  note row_facts = settle_row_result [OF row refl normal foc]
  have okr: "pass_ok rid c r" and thin: "list_all2 thinner (qp_items r) (qp_items p)"
    and sess: "st_sessions (qp_store r) = st_sessions (qp_store p)"
    and maps: "qp_pending_after r = qp_pending_after p" "qp_blocker r = qp_blocker p"
    using pending(1) ok by (auto simp: unmarks_def)
  have getr: "get_delegation_role_session (qp_store r) x = get_delegation_role_session (qp_store p) x" for x
    by (rule get_session_cong [OF sess])
  define t' where "t' = (if changed then normalized_session t else s)"
  have q: "q = (if changed then r\<lparr>qp_store := put_session (qp_store r) t'\<rparr> else r)"
    using save_in_pass_ok [OF okr _ qs row_facts(1)] get getr row_facts(1-3) qs
    by (simp add: q_def t'_def queue_session_def)
  have okq: "pass_ok rid c q" using okr pass_ok_put_session by (simp add: q)
  have items: "qp_items q = qp_items r" by (simp add: q)
  have mine: "get_delegation_role_session (qp_store q) ?sid = Some t'"
    using get getr row_facts(1) by (simp add: q t'_def)
  have t': "rs_pending_work_item_ids t' = rest" "rs_role_session_id t' = ?sid"
    using row_facts(1,4,5) by (auto simp: t'_def)
  have focus': "py_strip (rs_focused_work_item_id t') = active" if "active \<noteq> []"
    using that row_facts(6) live [OF that] py_strip_idem [of "rs_focused_work_item_id s"]
    by (cases changed) (simp_all add: t'_def)
  have "ahead (qp_items r) t' blocker" if "blocker \<noteq> []"
  proof (cases "active = []")
    case True
    with pending(5) that show ?thesis unfolding ahead_def by blast
  next
    case False
    with live obtain i where "i \<in> set (qp_items p)" "wi_work_item_id i = active" "wi_phase i \<notin> DONE_PHASES" by blast
    with focus' [OF False] have "ahead (qp_items p) t' active" unfolding ahead_def by blast
    with ahead_thinner [OF thin] foc [OF False] show ?thesis by simp
  qed
  with pending(2,3,6) t' have "settled (record_session ?sid rest blocker q) t' blocker"
    by (simp add: settled_def items)
  with mine t' show "queue_settled ?q ?sid" by (auto simp: queue_settled_def eq)
  show "pass_ok rid c ?q" using okq by (simp add: eq)
  show "list_all2 thinner (qp_items ?q) (qp_items p)" using thin by (simp add: eq items)
  show "others_kept ?sid p ?q" using t'(2) getr maps by (auto simp: others_kept_def eq q)
qed

lemma queue_settled_kept:
  assumes "others_kept sid p q" "x \<noteq> sid" "list_all2 thinner (qp_items q) (qp_items p)" "queue_settled p x"
  shows "queue_settled q x"
proof -
  from assms(4) obtain t b where t: "get_delegation_role_session (qp_store p) x = Some t"
    "map_of (qp_pending_after p) x = Some (rs_pending_work_item_ids t)" "map_of (qp_blocker p) x = Some b"
    "settled p t b"
    by (auto simp: queue_settled_def)
  then have "settled q t b"
    using runnable_ids_thinner [OF assms(3)] ahead_thinner [OF assms(3)] by (auto simp: settled_def split: if_splits)
  with t assms(1,2) show ?thesis by (auto simp: queue_settled_def others_kept_def)
qed

text \<open>All sessions of the run.\<close>

lemma reconcile_sessions_settle:
  assumes "distinct (map rs_role_session_id ss)" "pass_ok rid c p"
    "\<forall>s\<in>set ss. get_delegation_role_session (qp_store p) (rs_role_session_id s) = Some s \<and>
       queue_session rid c s \<and> own_markers (qp_items p) s"
    "\<forall>x\<in>set done_ids. queue_settled p x" "set done_ids \<inter> rs_role_session_id ` set ss = {}"
  shows "pass_ok rid c (fold (reconcile_session c) ss p) \<and>
         (\<forall>x\<in>set done_ids \<union> rs_role_session_id ` set ss. queue_settled (fold (reconcile_session c) ss p) x)"
  using assms
proof (induction ss arbitrary: p done_ids)
  case (Cons s ss)
  let ?q = "reconcile_session c s p" and ?sid = "rs_role_session_id s"
  from Cons.prems have s: "get_delegation_role_session (qp_store p) ?sid = Some s" "queue_session rid c s"
    "own_markers (qp_items p) s" by auto
  note r = reconcile_session_settles [OF Cons.prems(2) s]
  have later: "\<forall>t\<in>set ss. get_delegation_role_session (qp_store ?q) (rs_role_session_id t) = Some t \<and>
      queue_session rid c t \<and> own_markers (qp_items ?q) t"
  proof
    fix t assume t: "t \<in> set ss"
    then have "rs_role_session_id t \<noteq> ?sid"
      using Cons.prems(1) by (metis distinct.simps(2) image_eqI list.simps(9) list.set_map)
    then have "get_delegation_role_session (qp_store ?q) (rs_role_session_id t)
        = get_delegation_role_session (qp_store p) (rs_role_session_id t)"
      using r(4) by (simp add: others_kept_def)
    moreover have "own_markers (qp_items ?q) t" using own_markers_thinner [OF r(3)] Cons.prems(3) t by simp
    ultimately show "get_delegation_role_session (qp_store ?q) (rs_role_session_id t) = Some t \<and>
      queue_session rid c t \<and> own_markers (qp_items ?q) t" using Cons.prems(3) t by simp
  qed
  have settled_ids: "\<forall>x\<in>set (?sid # done_ids). queue_settled ?q x"
    using r(2) queue_settled_kept [OF r(4) _ r(3)] Cons.prems(4) by (metis set_ConsD)
  have "set (?sid # done_ids) \<inter> rs_role_session_id ` set ss = {}"
    using Cons.prems(1,5) by auto
  with Cons.IH [OF _ r(1) later settled_ids] Cons.prems(1) show ?case by auto
qed simp


section \<open>The marker check\<close>

lemma clear_in_pass_items:
  "qp_items (clear_in_pass c sid i p) = qp_items p \<or>
   (\<exists>j. wi_work_item_id j = wi_work_item_id i \<and> qp_items (clear_in_pass c sid i p) = replace_loaded j (qp_items p))"
proof -
  obtain b j st where e: "clear_queued_marker c (Some sid) i (qp_store p) = (b, j, st)" by (metis prod_cases3)
  then have "wi_work_item_id j = wi_work_item_id i"
    by (auto simp: clear_queued_marker_def Let_def split: sum.splits bool.splits prod.splits if_splits)
  with e show ?thesis by (cases b) (auto simp: clear_in_pass_def)
qed

lemma clear_in_pass_other:
  assumes "wi_work_item_id k \<noteq> wi_work_item_id i"
  shows "k \<in> set (qp_items (clear_in_pass c sid i p)) \<longleftrightarrow> k \<in> set (qp_items p)"
  using clear_in_pass_items [of c sid i p] assms by (auto simp: replace_loaded_def)

definition marker_settled :: "string list \<Rightarrow> queue_pass \<Rightarrow> work_item \<Rightarrow> bool" where
  "marker_settled all_ids p i \<longleftrightarrow>
     queued_behind_session i = [] \<or> marker_valid all_ids p (queued_behind_session i) (wi_work_item_id i)"

lemma marker_settled_maps:
  "qp_pending_after q = qp_pending_after p \<Longrightarrow> qp_blocker q = qp_blocker p \<Longrightarrow>
     marker_settled all_ids q i = marker_settled all_ids p i"
  by (simp add: marker_settled_def marker_valid_def)

lemma reconcile_marker_step:
  assumes "pass_ok rid c p" "i \<in> set (qp_items p)"
  shows "unmarks rid c p (reconcile_marker c [] all_ids i p)"
    and "wi_work_item_id k \<noteq> wi_work_item_id i \<Longrightarrow>
           k \<in> set (qp_items (reconcile_marker c [] all_ids i p)) \<longleftrightarrow> k \<in> set (qp_items p)"
    and "k \<in> set (qp_items (reconcile_marker c [] all_ids i p)) \<Longrightarrow> wi_work_item_id k = wi_work_item_id i \<Longrightarrow>
           marker_settled all_ids p k"
proof -
  have id: "py_strip (wi_work_item_id i) = wi_work_item_id i" "wi_work_item_id i \<noteq> []"
    using pass_member_id [OF assms] by (auto simp: queue_id_def)
  have only: "k = i" if "k \<in> set (qp_items p)" "wi_work_item_id k = wi_work_item_id i" for k
    using that pass_ids_distinct [OF assms(1)] assms(2) by (auto simp: distinct_map inj_on_def)
  have m: "py_strip (queued_behind_session i) = queued_behind_session i" by (simp add: queued_behind_session_def)
  let ?m = "queued_behind_session i"
  have cases: "marker_settled all_ids p i \<and> reconcile_marker c [] all_ids i p = p \<or>
      \<not> marker_settled all_ids p i \<and> reconcile_marker c [] all_ids i p = clear_in_pass c ?m i p"
    using id by (auto simp: reconcile_marker_def marker_settled_def Let_def)
  then show "unmarks rid c p (reconcile_marker c [] all_ids i p)"
    using clear_in_pass_unmarks [OF assms(2)] by (metis unmarks_refl)
  show "k \<in> set (qp_items (reconcile_marker c [] all_ids i p)) \<longleftrightarrow> k \<in> set (qp_items p)"
    if "wi_work_item_id k \<noteq> wi_work_item_id i"
    using cases clear_in_pass_other [OF that] by metis
  show "marker_settled all_ids p k"
    if k: "k \<in> set (qp_items (reconcile_marker c [] all_ids i p))" "wi_work_item_id k = wi_work_item_id i"
    using cases
  proof
    assume "marker_settled all_ids p i \<and> reconcile_marker c [] all_ids i p = p"
    with k only show ?thesis by metis
  next
    assume "\<not> marker_settled all_ids p i \<and> reconcile_marker c [] all_ids i p = clear_in_pass c ?m i p"
    with k clear_in_pass_clears [OF assms, of ?m k] m show ?thesis by (simp add: marker_settled_def)
  qed
qed

lemma reconcile_markers_settle:
  assumes "pass_ok rid c p" "distinct (map wi_work_item_id is)" "set is \<subseteq> set (qp_items p)"
    "\<forall>j\<in>set (qp_items p). wi_work_item_id j \<notin> wi_work_item_id ` set is \<longrightarrow> marker_settled all_ids p j"
  shows "unmarks rid c p (fold (reconcile_marker c [] all_ids) is p) \<and>
         (\<forall>j\<in>set (qp_items (fold (reconcile_marker c [] all_ids) is p)). marker_settled all_ids p j)"
  using assms
proof (induction "is" arbitrary: p)
  case (Cons i is')
  let ?p = "reconcile_marker c [] all_ids i p"
  have i: "i \<in> set (qp_items p)" using Cons.prems(3) by simp
  note step = reconcile_marker_step [OF Cons.prems(1) i, where all_ids = all_ids]
  have ok: "pass_ok rid c ?p" and maps: "qp_pending_after ?p = qp_pending_after p" "qp_blocker ?p = qp_blocker p"
    using step(1) Cons.prems(1) by (auto simp: unmarks_def)
  have sub: "set is' \<subseteq> set (qp_items ?p)"
  proof
    fix k assume k: "k \<in> set is'"
    then have "wi_work_item_id k \<in> set (map wi_work_item_id is')" by simp
    then have "wi_work_item_id k \<noteq> wi_work_item_id i" using Cons.prems(2) by auto
    then show "k \<in> set (qp_items ?p)" using k step(2) Cons.prems(3) by auto
  qed
  have rest: "\<forall>j\<in>set (qp_items ?p). wi_work_item_id j \<notin> wi_work_item_id ` set is' \<longrightarrow> marker_settled all_ids ?p j"
  proof (intro ballI impI)
    fix j assume j: "j \<in> set (qp_items ?p)" "wi_work_item_id j \<notin> wi_work_item_id ` set is'"
    have "marker_settled all_ids p j"
      using j step(2) [of j] step(3) [of j] Cons.prems(4)
      by (cases "wi_work_item_id j = wi_work_item_id i") auto
    then show "marker_settled all_ids ?p j" by (simp add: marker_settled_maps [OF maps])
  qed
  have "unmarks rid c ?p (fold (reconcile_marker c [] all_ids) is' ?p) \<and>
      (\<forall>j\<in>set (qp_items (fold (reconcile_marker c [] all_ids) is' ?p)). marker_settled all_ids ?p j)"
    using Cons.prems(2) by (intro Cons.IH [OF ok _ sub rest]) simp
  with unmarks_trans [OF step(1)] show ?case by (auto simp: marker_settled_maps [OF maps])
qed simp

section \<open>The whole pass\<close>

definition queue_tables :: "store \<Rightarrow> string \<Rightarrow> queue_context \<Rightarrow> bool" where
  "queue_tables st rid c \<longleftrightarrow>
     queue_rows st rid \<and> run_writable st rid c \<and> distinct (map rs_role_session_id (st_sessions st)) \<and>
     (\<forall>s\<in>set (list_role_runtime_sessions st rid).
        queue_session rid c s \<and> own_markers (list_delegation_work_items st rid) s)"

lemma effective_project_clean:
  assumes "\<forall>s\<in>set ss. clean_project_id (rs_project_id s) = clean_project_id proj"
  shows "clean_project_id (effective_project proj ss) = clean_project_id proj"
proof (cases ss)
  case (Cons s ss')
  have "clean_project_id (py_strip x) = clean_project_id x" if "py_strip x \<noteq> []" for x
    using that by (auto simp: clean_project_id_def Let_def)
  with assms Cons show ?thesis by (simp add: effective_project_def Let_def)
qed (simp add: effective_project_def)

lemma queue_tables_project:
  "queue_tables st rid c \<Longrightarrow> clean_project_id p = clean_project_id (qc_project c) \<Longrightarrow>
     queue_tables st rid (c\<lparr>qc_project := p\<rparr>)"
  by (simp add: queue_tables_def run_writable_def queue_session_def cong: option.case_cong)

lemma get_session_of_member:
  assumes "distinct (map rs_role_session_id (st_sessions st))" "s \<in> set (st_sessions st)"
  shows "get_delegation_role_session st (rs_role_session_id s) = Some s"
proof -
  have "find (\<lambda>t. rs_role_session_id t = rs_role_session_id s) ts = Some s"
    if "distinct (map rs_role_session_id ts)" "s \<in> set ts" for ts
    using that by (induction ts) auto
  with assms show ?thesis by (simp add: get_delegation_role_session_def)
qed

lemma columns_member:
  "map columns xs = map columns ys \<Longrightarrow> i \<in> set xs \<Longrightarrow> \<exists>j\<in>set ys. columns j = columns i"
  by (metis image_iff list.set_map)

lemma ahead_columns:
  assumes "map columns xs = map columns ys" "ahead xs s b"
  shows "ahead ys s b"
proof -
  from assms(2) obtain i where i: "i \<in> set xs" "wi_work_item_id i = b"
    "py_strip (rs_focused_work_item_id s) = b \<and> wi_phase i \<notin> DONE_PHASES \<or>
     queue_candidate i \<and> queued_behind_session i = []"
    unfolding ahead_def by blast
  from columns_member [OF assms(1) i(1)] obtain j where "j \<in> set ys" "columns j = columns i" by blast
  with i show ?thesis unfolding ahead_def columns_def queue_candidate_def by (auto intro!: bexI [of _ j])
qed

lemma runnable_ids_columns:
  assumes "map columns xs = map columns ys" "runnable_ids xs ws"
  shows "runnable_ids ys ws"
  unfolding runnable_ids_def
proof
  fix w assume "w \<in> set ws"
  with assms(2) obtain i where i: "i \<in> set xs" "wi_work_item_id i = w" "queue_candidate i"
    unfolding runnable_ids_def by blast
  from columns_member [OF assms(1) i(1)] obtain j where "j \<in> set ys" "columns j = columns i" by blast
  with i show "\<exists>i\<in>set ys. wi_work_item_id i = w \<and> queue_candidate i"
    unfolding columns_def queue_candidate_def by (auto intro!: bexI [of _ j])
qed

text \<open>The state after the pass over all sessions and all markers of the run.\<close>

lemma reconcile_result:
  assumes "queue_tables st rid \<lparr>qc_project = proj, qc_token = token, qc_generation = g, qc_now = now\<rparr>"
    "st_queue_enabled st"
  obtains c q where
    "qp_store (reconcile_role_serial_queues st rid [] proj token g now) = qp_store (publish_pass rid q)"
    "pass_ok rid c q"
    "\<And>s. s \<in> set (list_role_runtime_sessions st rid) \<Longrightarrow> queue_settled q (rs_role_session_id s)"
    "\<And>i. i \<in> set (qp_items q) \<Longrightarrow>
       marker_settled (map rs_role_session_id (list_role_runtime_sessions st rid)) q i"
proof -
  let ?ss = "list_role_runtime_sessions st rid" and ?items = "list_delegation_work_items st rid"
  define c where "c = \<lparr>qc_project = effective_project proj ?ss, qc_token = token, qc_generation = g, qc_now = now\<rparr>"
  from assms(1) have "\<forall>s\<in>set ?ss. clean_project_id (rs_project_id s) = clean_project_id proj"
    by (simp add: queue_tables_def queue_session_def)
  from queue_tables_project [OF assms(1), of "effective_project proj ?ss"] effective_project_clean [OF this]
  have tables: "queue_tables st rid c" by (simp add: c_def)
  have rid: "rid \<noteq> []" "py_strip rid = rid" and d: "distinct (map rs_role_session_id (st_sessions st))"
    using tables by (simp_all add: queue_tables_def queue_rows_def queue_id_def)
  have ids: "filter (\<lambda>x. x \<noteq> []) (map (\<lambda>s. py_strip (rs_role_session_id s)) ?ss) = map rs_role_session_id ?ss"
  proof -
    have "\<forall>s\<in>set ?ss. queue_id (rs_role_session_id s)"
      using tables by (simp add: queue_tables_def queue_session_def)
    then show ?thesis by (induction ?ss) (auto simp: queue_id_def filter_id_conv)
  qed
  define p where "p = fold (reconcile_session c) ?ss (start_pass st ?items)"
  define q where "q = fold (reconcile_marker c [] (map rs_role_session_id ?ss)) (qp_items p) p"
  have start: "pass_ok rid c (start_pass st ?items)"
    using tables by (simp add: pass_ok_def start_pass_def queue_tables_def)
  have "distinct (map rs_role_session_id ?ss)"
    using d by (simp add: list_role_runtime_sessions_def distinct_map_filter)
  moreover have "\<forall>s\<in>set ?ss. get_delegation_role_session (qp_store (start_pass st ?items)) (rs_role_session_id s) = Some s \<and>
      queue_session rid c s \<and> own_markers (qp_items (start_pass st ?items)) s"
  proof
    fix s assume s: "s \<in> set ?ss"
    then have "s \<in> set (st_sessions st)" by (simp add: list_role_runtime_sessions_def)
    with d have "get_delegation_role_session st (rs_role_session_id s) = Some s"
      by (rule get_session_of_member)
    with s tables show "get_delegation_role_session (qp_store (start_pass st ?items)) (rs_role_session_id s) = Some s \<and>
      queue_session rid c s \<and> own_markers (qp_items (start_pass st ?items)) s"
      by (simp add: start_pass_def queue_tables_def)
  qed
  ultimately have "pass_ok rid c p \<and> (\<forall>x\<in>rs_role_session_id ` set ?ss. queue_settled p x)"
    using reconcile_sessions_settle [of ?ss rid c "start_pass st ?items" "[]"] start by (simp add: p_def)
  then have okp: "pass_ok rid c p" and sp: "\<forall>x\<in>rs_role_session_id ` set ?ss. queue_settled p x" by auto
  from reconcile_markers_settle [OF okp pass_ids_distinct [OF okp] subset_refl, of "map rs_role_session_id ?ss"]
  have u: "unmarks rid c p q" and m: "\<forall>j\<in>set (qp_items q). marker_settled (map rs_role_session_id ?ss) p j"
    by (auto simp: q_def)
  have maps: "qp_pending_after q = qp_pending_after p" "qp_blocker q = qp_blocker p"
    and okq: "pass_ok rid c q" and sess: "st_sessions (qp_store q) = st_sessions (qp_store p)"
    and thin: "list_all2 thinner (qp_items q) (qp_items p)"
    using u okp by (auto simp: unmarks_def)
  have "others_kept (x @ ''x'') p q" for x using maps get_session_cong [OF sess] by (simp add: others_kept_def)
  then have sq: "queue_settled q x" if "x \<in> rs_role_session_id ` set ?ss" for x
    using queue_settled_kept [OF _ _ thin] sp that by (metis append_self_conv list.distinct(1))
  show thesis
  proof (rule that [OF _ okq])
    show "qp_store (reconcile_role_serial_queues st rid [] proj token g now) = qp_store (publish_pass rid q)"
      using assms(2) rid ids
      by (simp add: reconcile_role_serial_queues_def Let_def q_def p_def c_def)
    show "queue_settled q (rs_role_session_id s)" if "s \<in> set ?ss" for s using sq that by simp
    show "marker_settled (map rs_role_session_id ?ss) q i" if "i \<in> set (qp_items q)" for i
      using m that by (simp add: marker_settled_maps [OF maps])
  qed
qed


lemma publish_pass_tables [simp]:
  "list_delegation_work_items (qp_store (publish_pass rid q)) r = list_delegation_work_items (qp_store q) r"
  "get_delegation_role_session (qp_store (publish_pass rid q)) x = get_delegation_role_session (qp_store q) x"
  by (simp_all add: publish_pass_def list_delegation_work_items_def get_delegation_role_session_def)

section \<open>Properties\<close>


definition queue_card :: "string \<Rightarrow> phase \<Rightarrow> work_item" where
  "queue_card wid p =
     (new_work_item wid)\<lparr>wi_run_id := ''r'', wi_phase := p, wi_role_runtime_session_id := ''s'',
       wi_metadata := (if p = READY then [(''queued_behind_session'', PStr ''s'')] else [])\<rparr>"

definition queue_store :: store where
  "queue_store = empty_store
     \<lparr>st_items := [queue_card ''w'' APPROVED, queue_card ''x'' READY, queue_card ''y'' READY],
      st_sessions := [(new_role_session ''s'')\<lparr>rs_run_id := ''r'', rs_focused_work_item_id := ''w'',
                        rs_status := ''blocked'', rs_pending_work_item_ids := [''x'', ''y'']\<rparr>]\<rparr>"

lemma queue_store_tables:
  "queue_tables queue_store ''r'' \<lparr>qc_project = ''default'', qc_token = [], qc_generation = 0, qc_now = 7\<rparr>"
  by (simp add: queue_tables_def queue_rows_def run_writable_def queue_store_def empty_store_def queue_card_def
      queue_id_def list_delegation_work_items_def list_role_runtime_sessions_def queue_session_def own_markers_def
      get_run_def new_role_session_def new_work_item_def session_normal_def role_runtime_statuses_def
      queued_behind_session_def str_simps)

lemma queue_store_enabled: "st_queue_enabled queue_store"
  by (simp add: queue_store_def empty_store_def)

lemma queue_store_reconciled:
  "map (\<lambda>i. (wi_work_item_id i, queued_behind_session i)) (list_delegation_work_items
     (qp_store (reconcile_role_serial_queues queue_store ''r'' [] ''default'' [] 0 7)) ''r'')
   = [(''w'', []), (''x'', []), (''y'', ''s'')]"
  by code_simp


text \<open>
  A session with a backlog never idles.  After a full reconcile of a run whose fence is open,
  the pending list of every session holds distinct, runnable and unclaimed cards of the run, and
  it is empty unless something is in front of it that will run.
\<close>

theorem reconciled_backlog_is_live:
  assumes "queue_tables st rid \<lparr>qc_project = proj, qc_token = token, qc_generation = g, qc_now = now\<rparr>"
    "st_queue_enabled st" "st' = qp_store (reconcile_role_serial_queues st rid [] proj token g now)"
    "s \<in> set (list_role_runtime_sessions st rid)"
  shows "\<exists>t. get_delegation_role_session st' (rs_role_session_id s) = Some t \<and>
           distinct (rs_pending_work_item_ids t) \<and>
           runnable_ids (list_delegation_work_items st' rid) (rs_pending_work_item_ids t) \<and>
           (rs_pending_work_item_ids t = [] \<or> (\<exists>b. ahead (list_delegation_work_items st' rid) t b))"
proof -
  from reconcile_result [OF assms(1,2)] obtain c q where q:
    "st' = qp_store (publish_pass rid q)" "pass_ok rid c q"
    "\<And>s. s \<in> set (list_role_runtime_sessions st rid) \<Longrightarrow> queue_settled q (rs_role_session_id s)"
    unfolding assms(3) by metis
  have cols: "map columns (qp_items q) = map columns (list_delegation_work_items (qp_store q) rid)"
    using q(2) by (simp add: pass_ok_def)
  from q(3) [OF assms(4)] obtain t b where
    "get_delegation_role_session (qp_store q) (rs_role_session_id s) = Some t" "settled q t b"
    by (auto simp: queue_settled_def)
  with ahead_columns [OF cols, of t b] runnable_ids_columns [OF cols] show ?thesis
    by (intro exI [of _ t]) (auto simp: settled_def q(1) split: if_splits)
qed

theorem reconciled_backlog_is_live_witness:
  "\<exists>t. get_delegation_role_session
         (qp_store (reconcile_role_serial_queues queue_store ''r'' [] ''default'' [] 0 7)) ''s'' = Some t \<and>
       distinct (rs_pending_work_item_ids t)"
proof -
  let ?s = "(new_role_session ''s'')\<lparr>rs_run_id := ''r'', rs_focused_work_item_id := ''w'',
                        rs_status := ''blocked'', rs_pending_work_item_ids := [''x'', ''y'']\<rparr>"
  have "?s \<in> set (list_role_runtime_sessions queue_store ''r'')"
    by (simp add: list_role_runtime_sessions_def queue_store_def)
  from reconciled_backlog_is_live [OF queue_store_tables queue_store_enabled refl this] show ?thesis
    by (auto simp: new_role_session_def)
qed

end
