(* ===== verification/Dependencies.thy ===== *)
theory Dependencies
  imports Store
begin

text \<open>
  \<open>opc/layer2_organization/work_item_transition.py\<close>, second part: the dependency graph of a
  run.  Which dependency targets are obsolete, how stale ids are dropped or replaced, which
  cards can never be approved on their own (the doomed closure), when all dependencies of a
  card are settled although some failed, which card such a settlement may release, and the
  dependency closure of a final delivery.

  A run snapshot is the dictionary from ids to work items, in its iteration order.
\<close>

type_synonym snapshot = "(string \<times> work_item) list"

section \<open>Obsolete targets and replacements\<close>

definition dependency_replacement_ids :: "work_item option \<Rightarrow> string list" where
  "dependency_replacement_ids i =
     (case i of
        None \<Rightarrow> []
      | Some w \<Rightarrow>
          let md = wi_metadata w;
              raw = py_or (dget md ''replacement_dependency_work_item_ids'')
                      (py_or (dget md ''replacement_work_item_ids'')
                         (dget md ''superseded_by_work_item_ids''));
              values = (if \<not> truthy raw then []
                        else case raw of
                               PStr s \<Rightarrow> [raw]
                             | _ \<Rightarrow> (case py_list raw of Inr xs \<Rightarrow> xs | Inl _ \<Rightarrow> [raw]))
          in dedup (strip_all values))"

definition is_prunable_dependency_work_item :: "work_item option \<Rightarrow> bool" where
  "is_prunable_dependency_work_item i =
     (case i of
        None \<Rightarrow> False
      | Some w \<Rightarrow>
          let md = wi_metadata w
          in truthy (dget md ''deleted_by_manager_tool'') \<or>
             wi_phase w = CANCELLED \<and> truthy (dget md ''hidden_from_company_kanban'') \<and>
             clean_lower (dget md ''upstream_visibility'') = ''hidden'')"

definition append_active ::
  "snapshot \<Rightarrow> string \<Rightarrow> string \<Rightarrow> string list \<times> string list \<Rightarrow> string list \<times> string list" where
  "append_active by_id owner candidate_id acc =
     (let (active, pruned) = acc; candidate = py_strip candidate_id
      in if candidate = [] then acc
         else if candidate = owner then (active, pruned @ [candidate])
         else if is_prunable_dependency_work_item (map_of by_id candidate)
         then (active, pruned @ [candidate])
         else (active @ [candidate], pruned))"

definition normalize_step ::
  "snapshot \<Rightarrow> string \<Rightarrow> string \<Rightarrow> string list \<times> string list \<Rightarrow> string list \<times> string list" where
  "normalize_step by_id owner raw_id acc =
     (let dep = py_strip raw_id; item = map_of by_id dep
      in if dep = [] then acc
         else if is_prunable_dependency_work_item item
         then fold (append_active by_id owner) (dependency_replacement_ids item)
                (fst acc, snd acc @ [dep])
         else append_active by_id owner dep acc)"

definition normalize_dependency_work_item_ids ::
  "string list \<Rightarrow> snapshot \<Rightarrow> string \<Rightarrow> string list \<times> string list" where
  "normalize_dependency_work_item_ids raw by_id owner_work_item_id =
     (let (active, pruned) = fold (normalize_step by_id (py_strip owner_work_item_id)) raw ([], [])
      in (dedup active, dedup pruned))"

section \<open>The doomed closure\<close>

definition DEPENDENCY_CLASS_DEFAULT :: string where
  "DEPENDENCY_CLASS_DEFAULT = ''hard''"

definition dependency_class :: "pydict \<Rightarrow> string \<Rightarrow> string" where
  "dependency_class classes dep =
     py_lower (py_strip (py_str (py_or (dget_or classes dep (PStr DEPENDENCY_CLASS_DEFAULT))
                                       (PStr DEPENDENCY_CLASS_DEFAULT))))"

text \<open>The dependencies of a card that doom it when they are doomed; none for a card that is out
of the waiting phases or carries a settlement stamp.\<close>

definition hard_dependencies :: "snapshot \<Rightarrow> string \<times> work_item \<Rightarrow> string list result" where
  "hard_dependencies by_id entry =
     (let (item_id, i) = entry; md = wi_metadata i
      in if wi_phase i \<notin> {QUEUED, WAITING_DEPENDENCIES, READY} then Inr []
         else bind_result (dict_or_empty (dget md ''dependency_settlement'')) (\<lambda>settlement.
              if settlement \<noteq> [] then Inr []
              else bind_result (id_list (dget md ''dependency_work_item_ids'')) (\<lambda>raw.
              if raw = [] then Inr []
              else let dep_ids = fst (normalize_dependency_work_item_ids raw by_id item_id)
                   in bind_result (dict_or_empty (dget md ''dependency_classes'')) (\<lambda>classes.
                      Inr (filter (\<lambda>d. case map_of by_id d of
                                         None \<Rightarrow> False
                                       | Some w \<Rightarrow> dependency_class classes d \<notin> {''soft'', ''info''} \<and>
                                                    wi_phase w \<noteq> APPROVED) dep_ids)))))"

definition doom_test :: "snapshot \<Rightarrow> string \<times> work_item \<Rightarrow> string set \<Rightarrow> bool result" where
  "doom_test by_id entry doomed =
     bind_result (hard_dependencies by_id entry) (\<lambda>ds. Inr (list_ex (\<lambda>d. d \<in> doomed) ds))"

definition failed_ids :: "snapshot \<Rightarrow> string set" where
  "failed_ids by_id = fst ` set (filter (\<lambda>e. wi_phase (snd e) \<in> {FAILED, CANCELLED}) by_id)"

definition compute_doomed_work_item_ids :: "snapshot \<Rightarrow> string set result" where
  "compute_doomed_work_item_ids by_id =
     (let doomed = failed_ids by_id
      in if doomed = {} then Inr doomed else sweep_loop fst (doom_test by_id) by_id doomed)"

section \<open>Settlement over failures\<close>

definition settled_failure_dependency_ids :: "pydict \<Rightarrow> string set result" where
  "settled_failure_dependency_ids md =
     bind_result (dict_or_empty (dget md ''dependency_settlement'')) (\<lambda>s.
     bind_result (id_list (dget s ''failed'')) (\<lambda>a.
     bind_result (id_list (dget s ''cancelled'')) (\<lambda>b.
     bind_result (id_list (dget s ''stuck'')) (\<lambda>c.
     Inr (set a \<union> set b \<union> set c)))))"

definition SYNTHESIS_SKIP_KINDS :: "string set" where
  "SYNTHESIS_SKIP_KINDS =
     {''aggregate'', ''deliver'', ''delivery'', ''intake'', ''review'', ''synthesis'', ''synthesize''}"

definition SETTLEMENT_ROLLUP_KINDS :: "string set" where
  "SETTLEMENT_ROLLUP_KINDS = {''aggregate'', ''deliver'', ''delivery'', ''synthesis'', ''synthesize''}"

definition work_item_kind :: "work_item \<Rightarrow> pydict \<Rightarrow> string" where
  "work_item_kind i md =
     clean_lower (py_or (dget md ''work_kind'')
       (py_or (dget md ''delegation_turn_kind'') (PStr (wi_kind i))))"

type_synonym dep_phases = "(string \<times> phase option) list"

record settlement =
  sn_all_approved :: bool
  sn_failed :: "string list"
  sn_cancelled :: "string list"
  sn_stuck :: "string list"
  sn_settled_with_failures :: bool

definition dependency_settlement_snapshot ::
  "pydict \<Rightarrow> dep_phases \<Rightarrow> string set \<Rightarrow> settlement result" where
  "dependency_settlement_snapshot md dependency_phases doomed =
     bind_result (dict_or_empty (dget md ''dependency_classes'')) (\<lambda>classes.
     let info = (\<lambda>d. dependency_class classes d = ''info'');
         all_approved = list_all (\<lambda>(d, p). p = Some APPROVED) dependency_phases;
         failed = map fst (filter (\<lambda>(d, p). p = Some FAILED) dependency_phases);
         cancelled = map fst (filter (\<lambda>(d, p). p = Some CANCELLED) dependency_phases);
         stuck = map fst (filter (\<lambda>(d, p). d \<in> doomed \<and> p \<notin> {Some FAILED, Some CANCELLED})
                            dependency_phases)
     in Inr \<lparr>sn_all_approved = all_approved, sn_failed = failed, sn_cancelled = cancelled,
             sn_stuck = stuck,
             sn_settled_with_failures =
               \<not> all_approved \<and> (failed \<noteq> [] \<or> cancelled \<noteq> [] \<or> stuck \<noteq> []) \<and>
               list_all (\<lambda>(d, p). (case p of None \<Rightarrow> False | Some q \<Rightarrow> q \<in> DONE_PHASES) \<or>
                                  d \<in> doomed \<or> info d) dependency_phases\<rparr>)"

definition is_settlement_release_candidate :: "work_item \<Rightarrow> pydict \<Rightarrow> bool result" where
  "is_settlement_release_candidate i md =
     (if wi_phase i = WAITING_FOR_CHILDREN then Inr True
      else if wi_phase i = WAITING_DEPENDENCIES \<and> work_item_kind i md \<in> SETTLEMENT_ROLLUP_KINDS
      then Inr True
      else if wi_phase i \<in> {READY, READY_FOR_REWORK, RUNNING}
      then bind_result (dict_or_empty (dget md ''dependency_settlement'')) (\<lambda>s. Inr (s \<noteq> []))
      else Inr False)"

definition phases_of :: "snapshot \<Rightarrow> string list \<Rightarrow> dep_phases" where
  "phases_of by_id ids = map (\<lambda>d. (d, map_option wi_phase (map_of by_id d))) ids"

definition pending_release :: "snapshot \<Rightarrow> string set \<Rightarrow> string \<times> work_item \<Rightarrow> bool result" where
  "pending_release by_id doomed entry =
     (let (item_id, i) = entry; md = wi_metadata i
      in if \<not> (wi_phase i = WAITING_FOR_CHILDREN \<or>
               wi_phase i = WAITING_DEPENDENCIES \<and> work_item_kind i md \<in> SETTLEMENT_ROLLUP_KINDS)
         then Inr False
         else bind_result (id_list (dget md ''dependency_work_item_ids'')) (\<lambda>raw.
              if raw = [] then Inr False
              else let ids = fst (normalize_dependency_work_item_ids raw by_id item_id)
                   in bind_result (dependency_settlement_snapshot md (phases_of by_id ids) doomed)
                        (\<lambda>s. Inr (sn_settled_with_failures s))))"

fun any_result :: "('a \<Rightarrow> bool result) \<Rightarrow> 'a list \<Rightarrow> bool result" where
  \<comment> \<open>\<open>for x in xs: if test(x): return True\<close>, then \<open>return False\<close>\<close>
  "any_result f [] = Inr False"
| "any_result f (x # xs) = bind_result (f x) (\<lambda>b. if b then Inr True else any_result f xs)"

definition has_pending_settlement_release :: "snapshot \<Rightarrow> bool result" where
  "has_pending_settlement_release by_id =
     bind_result (compute_doomed_work_item_ids by_id) (\<lambda>doomed.
     if doomed = {} then Inr False else any_result (pending_release by_id doomed) by_id)"

section \<open>The final delivery\<close>

definition counts_for_delivery :: "string \<Rightarrow> string \<Rightarrow> work_item \<Rightarrow> bool" where
  "counts_for_delivery delivery_id intake_id s \<longleftrightarrow>
     (let sid = py_strip (wi_work_item_id s); md = wi_metadata s
      in sid \<noteq> [] \<and> sid \<noteq> delivery_id \<and>
         opt_text (wi_parent_work_item_id s) = intake_id \<and>
         \<not> (work_item_kind s md \<in> {''deliver'', ''delivery''} \<and>
            clean (dget md ''intake_work_item_id'') = intake_id) \<and>
         \<not> truthy (dget md ''hidden_from_company_kanban'') \<and>
         clean_lower (dget md ''upstream_visibility'') \<noteq> ''hidden'' \<and>
         \<not> is_prunable_dependency_work_item (Some s))"

definition final_delivery_dependency_closure ::
  "work_item \<Rightarrow> work_item list \<Rightarrow> snapshot \<Rightarrow> string list option result" where
  "final_delivery_dependency_closure i items by_id =
     (let md = wi_metadata i; intake_id = clean (dget md ''intake_work_item_id'')
      in if work_item_kind i md \<notin> {''deliver'', ''delivery''} then Inr None
         else if intake_id = [] then Inr None
         else if opt_text (wi_parent_work_item_id i) \<noteq> intake_id then Inr None
         else case map_of by_id intake_id of
                None \<Rightarrow> Inr None
              | Some intake \<Rightarrow>
                  bind_result (id_list (dget md ''dependency_work_item_ids'')) (\<lambda>current.
                  bind_result (id_list (dget (wi_metadata intake) ''dependency_work_item_ids'')) (\<lambda>from_intake.
                  let delivery_id = py_strip (wi_work_item_id i);
                      siblings = map (\<lambda>s. py_strip (wi_work_item_id s))
                                   (filter (counts_for_delivery delivery_id intake_id) items)
                  in Inr (Some (fst (normalize_dependency_work_item_ids
                                       (current @ from_intake @ siblings) by_id delivery_id))))))"

definition delivery_was_closed :: "pydict \<Rightarrow> bool" where
  "delivery_was_closed md \<longleftrightarrow>
     truthy (dget md ''feedback_closed'') \<or> truthy (dget md ''human_review_closed'') \<or>
     truthy (dget md ''feedback_superseded'') \<or> truthy (dget md ''self_evolution_review_completed'') \<or>
     \<not> truthy (dget_or md ''requires_user_feedback'' (PBool True))"

definition delivery_drifts :: "snapshot \<Rightarrow> work_item \<Rightarrow> bool result" where
  "delivery_drifts by_id i =
     bind_result (final_delivery_dependency_closure i (map snd by_id) by_id) (\<lambda>closure.
     case closure of
       None \<Rightarrow> Inr False
     | Some ids \<Rightarrow>
         let md = wi_metadata i
         in bind_result (id_list (dget md ''dependency_work_item_ids'')) (\<lambda>current.
            if ids \<noteq> current then Inr True
            else bind_result (list_or_empty (dget md ''allowed_delegate_role_ids'')) (\<lambda>roles.
                 if roles \<noteq> [] then Inr True
                 else let reconciled_at = clean (dget md ''delivery_dependency_reconciled_at'');
                          invalidated_for = clean (dget md ''delivery_inputs_invalidated_for_reconciled_at'')
                      in Inr (reconciled_at \<noteq> [] \<and> delivery_was_closed md \<and>
                              invalidated_for \<noteq> reconciled_at))))"

definition has_final_delivery_dependency_drift :: "snapshot \<Rightarrow> bool result" where
  "has_final_delivery_dependency_drift by_id = any_result (delivery_drifts by_id) (map snd by_id)"

section \<open>Synthesis and triage turns\<close>

definition should_enter_synthesis_turn :: "work_item \<Rightarrow> pydict \<Rightarrow> string list \<Rightarrow> bool" where
  "should_enter_synthesis_turn i md dependency_ids \<longleftrightarrow>
     wi_phase i = WAITING_FOR_CHILDREN \<and> dependency_ids \<noteq> [] \<and>
     \<not> truthy (dget md ''synthesis_turn_started'') \<and>
     work_item_kind i md \<notin> SYNTHESIS_SKIP_KINDS \<and>
     (truthy (dget md ''delegated_children_pending'') \<or>
      clean (dget md ''frontier'') = ''waiting_for_children'' \<or>
      clean (dget md ''last_delegated_by_seat_id'') \<noteq> [])"

definition synthesis_turn_summary :: "work_item \<Rightarrow> string list \<Rightarrow> string" where
  "synthesis_turn_summary i dependency_ids =
     (let title = py_strip (if wi_title i = [] then ''delegated work'' else wi_title i);
          manager = py_strip (if wi_manager_role_id i = [] then ''the upstream owner'' else wi_manager_role_id i)
      in ''Synthesize the '' @ int_text (int (length dependency_ids)) @ '' approved child work item'' @
         (if length dependency_ids = 1 then [] else ''s'') @ '' for `'' @ title @
         ''` and prepare the handoff for '' @ manager @
         ''. Include what was completed, evidence, remaining risks, and any decision needed from the upper role.'')"

definition failure_triage_turn_summary ::
  "work_item \<Rightarrow> dep_phases \<Rightarrow> string list \<Rightarrow> string list \<Rightarrow> string list \<Rightarrow> string" where
  "failure_triage_turn_summary i dependency_phases failed cancelled stuck =
     (let title = py_strip (if wi_title i = [] then ''delegated work'' else wi_title i);
          manager = py_strip (if wi_manager_role_id i = [] then ''the upstream owner'' else wi_manager_role_id i);
          approved = length (filter (\<lambda>(d, p). p = Some APPROVED) dependency_phases);
          parts = [int_text (int approved) @ '' approved'',
                   int_text (int (length failed + length cancelled)) @ '' failed/cancelled''] @
                  (if stuck \<noteq> [] then [int_text (int (length stuck)) @ '' blocked downstream''] else [])
      in ''Triage the delegated results for `'' @ title @ ''` ('' @ py_join '', '' parts @ ''). '' @
         ''Decide how to handle the failures -- rebuild the failed work, accept partial results, or '' @
         ''escalate the gap -- then prepare the handoff for '' @ manager @ ''.'')"

section \<open>The doomed closure is the least one\<close>

text \<open>The dashes of the triage summary are em dashes in the code, which the character type does not hold.\<close>

lemma doom_test_Inl: "doom_test by_id e S = Inl x \<longleftrightarrow> hard_dependencies by_id e = Inl x"
  by (simp add: doom_test_def bind_result_Inl_iff)

lemma doom_test_Inr:
  "doom_test by_id e S = Inr b \<longleftrightarrow> (\<exists>ds. hard_dependencies by_id e = Inr ds \<and> b = (\<exists>d\<in>set ds. d \<in> S))"
  by (auto simp: doom_test_def bind_result_Inr_iff list_ex_iff)

interpretation doomed: growing_sweep fst "doom_test by_id" for by_id
proof unfold_locales
  show "doom_test by_id i S = Inl e \<Longrightarrow> doom_test by_id i T = Inl e" for i S e T
    by (simp add: doom_test_Inl)
  show "doom_test by_id i S = Inr True \<Longrightarrow> S \<subseteq> T \<Longrightarrow> doom_test by_id i T = Inr True" for i S T
    by (auto simp: doom_test_Inr)
qed

text \<open>The reading of \<open>doomed\<close>: a chain of hard dependencies that ends in a terminal failure.\<close>

inductive blocked :: "snapshot \<Rightarrow> string \<Rightarrow> bool" for by_id where
  failure: "(x, i) \<in> set by_id \<Longrightarrow> wi_phase i \<in> {FAILED, CANCELLED} \<Longrightarrow> blocked by_id x"
| chain: "(x, i) \<in> set by_id \<Longrightarrow> hard_dependencies by_id (x, i) = Inr ds \<Longrightarrow> d \<in> set ds \<Longrightarrow>
            blocked by_id d \<Longrightarrow> blocked by_id x"

inductive_cases blockedE: "blocked by_id x"

lemma failed_ids_iff: "x \<in> failed_ids by_id \<longleftrightarrow> (\<exists>i. (x, i) \<in> set by_id \<and> wi_phase i \<in> {FAILED, CANCELLED})"
  by (force simp: failed_ids_def)

lemma compute_doomed_loop:
  "compute_doomed_work_item_ids by_id = Inr D \<Longrightarrow>
     failed_ids by_id = {} \<and> D = {} \<or> sweep_loop fst (doom_test by_id) by_id (failed_ids by_id) = Inr D"
  by (auto simp: compute_doomed_work_item_ids_def Let_def split: if_splits)

lemma blocked_in_closed:
  assumes "blocked by_id x" "failed_ids by_id \<subseteq> D" "doomed.closed by_id by_id D"
  shows "x \<in> D"
  using assms(1)
proof (induction rule: blocked.induct)
  case (failure x i)
  then have "x \<in> failed_ids by_id" by (auto simp: failed_ids_iff)
  with assms(2) show ?case by blast
next
  case (chain x i ds d)
  show ?case
  proof (rule ccontr)
    assume "x \<notin> D"
    with chain(1) assms(3) have "doom_test by_id (x, i) D = Inr False"
      by (force simp: doomed.closed_def)
    with chain show False by (auto simp: doom_test_Inr)
  qed
qed

lemma closed_blocked:
  assumes "\<forall>e\<in>set by_id. \<exists>ds. hard_dependencies by_id e = Inr ds"
  shows "doomed.closed by_id by_id {x. blocked by_id x}"
  unfolding doomed.closed_def
proof (intro ballI impI)
  fix e assume e: "e \<in> set by_id" and new: "fst e \<notin> {x. blocked by_id x}"
  obtain ds where ds: "hard_dependencies by_id e = Inr ds" using assms e by blast
  have "\<not> blocked by_id d" if "d \<in> set ds" for d
    using new e ds that by (cases e) (auto intro: blocked.chain)
  with ds show "doom_test by_id e {x. blocked by_id x} = Inr False" by (auto simp: doom_test_Inr)
qed

lemma failed_blocked: "failed_ids by_id \<subseteq> {x. blocked by_id x}"
  by (auto simp: failed_ids_iff intro: blocked.failure)

lemma no_failure_not_blocked: "failed_ids by_id = {} \<Longrightarrow> \<not> blocked by_id x"
proof
  show "blocked by_id x \<Longrightarrow> failed_ids by_id = {} \<Longrightarrow> False"
    by (induction rule: blocked.induct) (auto simp: failed_ids_def)
qed

lemma hard_dependencies_waiting:
  "hard_dependencies by_id (x, i) = Inr ds \<Longrightarrow> ds \<noteq> [] \<Longrightarrow>
     wi_phase i \<in> {QUEUED, WAITING_DEPENDENCIES, READY}"
  by (auto simp: hard_dependencies_def Let_def split: if_splits)

section \<open>Normalised dependency ids\<close>

lemma append_active_cases:
  obtains (skip) "append_active by_id owner c acc = acc" "py_strip c = []"
  | (prune) "append_active by_id owner c acc = (fst acc, snd acc @ [py_strip c])" "py_strip c \<noteq> []"
  | (keep) "append_active by_id owner c acc = (fst acc @ [py_strip c], snd acc)" "py_strip c \<noteq> []"
      "py_strip c \<noteq> owner" "\<not> is_prunable_dependency_work_item (map_of by_id (py_strip c))"
proof (cases "py_strip c = []")
  case True
  then show ?thesis by (intro skip) (simp_all add: append_active_def Let_def split: prod.split)
next
  case c: False
  show ?thesis
  proof (cases "py_strip c = owner \<or> is_prunable_dependency_work_item (map_of by_id (py_strip c))")
    case True
    with c show ?thesis by (intro prune) (auto simp: append_active_def Let_def split: prod.split)
  next
    case False
    with c show ?thesis by (intro keep) (auto simp: append_active_def Let_def split: prod.split)
  qed
qed

text \<open>An id that may stand in a normalised list.\<close>

definition live_dependency :: "snapshot \<Rightarrow> string \<Rightarrow> string \<Rightarrow> bool" where
  "live_dependency by_id owner d \<longleftrightarrow>
     py_strip d = d \<and> d \<noteq> [] \<and> d \<noteq> owner \<and> \<not> is_prunable_dependency_work_item (map_of by_id d)"

lemma append_active_live:
  "list_all (live_dependency by_id owner) (fst acc) \<Longrightarrow>
     list_all (live_dependency by_id owner) (fst (append_active by_id owner c acc))"
  by (cases rule: append_active_cases [of by_id owner c acc]) (auto simp: live_dependency_def)

lemma fold_append_active_live:
  "list_all (live_dependency by_id owner) (fst acc) \<Longrightarrow>
     list_all (live_dependency by_id owner) (fst (fold (append_active by_id owner) cs acc))"
  by (induction cs arbitrary: acc) (auto simp: append_active_live)

lemma normalize_step_live:
  "list_all (live_dependency by_id owner) (fst acc) \<Longrightarrow>
     list_all (live_dependency by_id owner) (fst (normalize_step by_id owner r acc))"
  by (simp add: normalize_step_def Let_def append_active_live fold_append_active_live)

lemma fold_normalize_live:
  "list_all (live_dependency by_id owner) (fst acc) \<Longrightarrow>
     list_all (live_dependency by_id owner) (fst (fold (normalize_step by_id owner) raw acc))"
  by (induction raw arbitrary: acc) (auto simp: normalize_step_live)

lemma normalize_live:
  "d \<in> set (fst (normalize_dependency_work_item_ids raw by_id owner)) \<Longrightarrow>
     live_dependency by_id (py_strip owner) d"
  using fold_normalize_live [of by_id "py_strip owner" "([], [])" raw]
  by (auto simp: normalize_dependency_work_item_ids_def list_all_iff split: prod.splits)

lemma normalize_step_of_live:
  "live_dependency by_id owner d \<Longrightarrow> normalize_step by_id owner d acc = (fst acc @ [d], snd acc)"
  by (cases acc) (auto simp: live_dependency_def normalize_step_def append_active_def Let_def)

lemma fold_normalize_of_live:
  "list_all (live_dependency by_id owner) ds \<Longrightarrow>
     fold (normalize_step by_id owner) ds acc = (fst acc @ ds, snd acc)"
  by (induction ds arbitrary: acc) (auto simp: normalize_step_of_live)

lemma normalize_of_live:
  "list_all (live_dependency by_id (py_strip owner)) ds \<Longrightarrow>
     normalize_dependency_work_item_ids ds by_id owner = (dedup ds, [])"
  by (simp add: normalize_dependency_work_item_ids_def fold_normalize_of_live)

lemma distinct_normalize: "distinct (fst (normalize_dependency_work_item_ids raw by_id owner))"
  by (simp add: normalize_dependency_work_item_ids_def split: prod.splits)

lemma append_active_covers:
  "set (fst acc) \<union> set (snd acc) \<subseteq>
     set (fst (append_active by_id owner c acc)) \<union> set (snd (append_active by_id owner c acc))"
  by (cases rule: append_active_cases [of by_id owner c acc]) auto

lemma fold_append_active_covers:
  "set (fst acc) \<union> set (snd acc) \<subseteq>
     set (fst (fold (append_active by_id owner) cs acc)) \<union> set (snd (fold (append_active by_id owner) cs acc))"
proof (induction cs arbitrary: acc)
  case (Cons c cs)
  show ?case using append_active_covers [of acc by_id owner c] Cons.IH [of "append_active by_id owner c acc"] by auto
qed simp

lemma normalize_step_covers:
  "set (fst acc) \<union> set (snd acc) \<union> (if py_strip r = [] then {} else {py_strip r}) \<subseteq>
     set (fst (normalize_step by_id owner r acc)) \<union> set (snd (normalize_step by_id owner r acc))"
proof (cases "is_prunable_dependency_work_item (map_of by_id (py_strip r))")
  case True
  then show ?thesis
    using fold_append_active_covers [of "(fst acc, snd acc @ [py_strip r])" by_id owner
        "dependency_replacement_ids (map_of by_id (py_strip r))"]
    by (auto simp: normalize_step_def Let_def)
next
  case False
  then show ?thesis
    by (cases acc) (auto simp: normalize_step_def append_active_def Let_def)
qed

lemma fold_normalize_covers:
  "set (fst acc) \<union> set (snd acc) \<union> {py_strip r |r. r \<in> set raw \<and> py_strip r \<noteq> []} \<subseteq>
     set (fst (fold (normalize_step by_id owner) raw acc)) \<union> set (snd (fold (normalize_step by_id owner) raw acc))"
proof (induction raw arbitrary: acc)
  case (Cons r raw)
  show ?case
    using normalize_step_covers [of acc r by_id owner] Cons.IH [of "normalize_step by_id owner r acc"]
    by (auto split: if_splits)
qed simp

lemma append_active_acc:
  "append_active by_id owner c acc =
     (fst acc @ fst (append_active by_id owner c ([], [])), snd acc @ snd (append_active by_id owner c ([], [])))"
  by (cases acc) (simp add: append_active_def Let_def)

lemma fold_append_active_acc:
  "fold (append_active by_id owner) cs acc =
     (fst acc @ fst (fold (append_active by_id owner) cs ([], [])),
      snd acc @ snd (fold (append_active by_id owner) cs ([], [])))"
proof (induction cs arbitrary: acc)
  case (Cons c cs)
  show ?case
    using Cons.IH [of "append_active by_id owner c acc"] Cons.IH [of "append_active by_id owner c ([], [])"]
      append_active_acc [of by_id owner c acc] by simp
qed simp

lemma normalize_step_acc:
  "normalize_step by_id owner r acc =
     (fst acc @ fst (normalize_step by_id owner r ([], [])), snd acc @ snd (normalize_step by_id owner r ([], [])))"
proof (cases "py_strip r \<noteq> [] \<and> is_prunable_dependency_work_item (map_of by_id (py_strip r))")
  case True
  let ?cs = "dependency_replacement_ids (map_of by_id (py_strip r))"
  show ?thesis
    using True fold_append_active_acc [of by_id owner ?cs "(fst acc, snd acc @ [py_strip r])"]
      fold_append_active_acc [of by_id owner ?cs "([], [py_strip r])"]
    by (simp add: normalize_step_def Let_def)
next
  case False
  then show ?thesis
    using append_active_acc [of by_id owner "py_strip r" acc] by (auto simp: normalize_step_def Let_def)
qed

lemma fold_normalize_acc:
  "fold (normalize_step by_id owner) raw acc =
     (fst acc @ fst (fold (normalize_step by_id owner) raw ([], [])),
      snd acc @ snd (fold (normalize_step by_id owner) raw ([], [])))"
proof (induction raw arbitrary: acc)
  case (Cons r raw)
  show ?case
    using Cons.IH [of "normalize_step by_id owner r acc"] Cons.IH [of "normalize_step by_id owner r ([], [])"]
      normalize_step_acc [of by_id owner r acc] by simp
qed simp

lemma dedup_from_seen: "set xs \<subseteq> set seen \<Longrightarrow> dedup_from seen xs = []"
  by (induction xs) auto

lemma dedup_from_append:
  "distinct xs \<Longrightarrow> set xs \<inter> set seen = {} \<Longrightarrow> set ys \<subseteq> set xs \<union> set seen \<Longrightarrow> dedup_from seen (xs @ ys) = xs"
proof (induction xs arbitrary: seen)
  case Nil
  then show ?case by (simp add: dedup_from_seen)
next
  case (Cons x xs)
  then show ?case by (auto intro: Cons.IH)
qed

lemma normalize_again:
  "fst (normalize_dependency_work_item_ids
          (fst (normalize_dependency_work_item_ids (raw @ rest) by_id owner) @ rest) by_id owner)
     = fst (normalize_dependency_work_item_ids (raw @ rest) by_id owner)"
proof -
  let ?n = "normalize_step by_id (py_strip owner)"
  let ?ids = "fst (normalize_dependency_work_item_ids (raw @ rest) by_id owner)"
  have live: "list_all (live_dependency by_id (py_strip owner)) ?ids"
    by (auto simp: list_all_iff dest: normalize_live)
  have ids: "?ids = dedup (fst (fold ?n (raw @ rest) ([], [])))"
    by (simp add: normalize_dependency_work_item_ids_def case_prod_beta)
  have "set (fst (fold ?n rest ([], []))) \<subseteq> set (fst (fold ?n (raw @ rest) ([], [])))"
    using fold_normalize_acc [of by_id "py_strip owner" rest "fold ?n raw ([], [])"] by simp
  then have sub: "set (fst (fold ?n rest ([], []))) \<subseteq> set ?ids" by (simp add: ids)
  have "fold ?n (?ids @ rest) ([], []) =
      (?ids @ fst (fold ?n rest ([], [])), snd (fold ?n rest ([], [])))"
    using fold_normalize_acc [of by_id "py_strip owner" rest "(?ids, [])"] fold_normalize_of_live [OF live, of "([], [])"]
    by simp
  then have "fst (normalize_dependency_work_item_ids (?ids @ rest) by_id owner)
      = dedup (?ids @ fst (fold ?n rest ([], [])))"
    by (simp add: normalize_dependency_work_item_ids_def)
  also have "\<dots> = ?ids"
    unfolding dedup_def by (rule dedup_from_append) (use sub distinct_normalize in auto)
  finally show ?thesis .
qed

lemma strip_all_ids: "list_all (\<lambda>d. py_strip d = d \<and> d \<noteq> []) ids \<Longrightarrow> strip_all (map PStr ids) = ids"
  by (induction ids) (simp_all add: strip_all_def)

lemma id_list_of_ids: "list_all (\<lambda>d. py_strip d = d \<and> d \<noteq> []) ids \<Longrightarrow> id_list (PList (map PStr ids)) = Inr ids"
  by (cases "ids = []") (simp_all add: id_list_def list_or_empty_def strip_all_ids, simp add: strip_all_def)

section \<open>Properties\<close>

text \<open>
  C18. Doomed means blocked by a failure.  Whenever the doomed closure of a run is computed, it
  is exactly the set of cards from which a chain of hard dependencies, through waiting cards
  without a settlement stamp, reaches a FAILED or CANCELLED card: the loop misses none, adds
  none, and no approved or running card is ever in it.
\<close>

theorem doomed_iff_blocked:
  assumes "compute_doomed_work_item_ids by_id = Inr D"
    and "\<forall>e\<in>set by_id. \<exists>ds. hard_dependencies by_id e = Inr ds"
  shows "(x \<in> D \<longleftrightarrow> blocked by_id x) \<and>
         (x \<in> D \<longrightarrow> (\<exists>i. (x, i) \<in> set by_id \<and>
            wi_phase i \<in> {FAILED, CANCELLED, QUEUED, WAITING_DEPENDENCIES, READY}))"
proof -
  have iff: "D = {x. blocked by_id x}"
  proof (cases "failed_ids by_id = {}")
    case True
    with assms(1) have "D = {}" by (simp add: compute_doomed_work_item_ids_def)
    with no_failure_not_blocked [OF True] show ?thesis by simp
  next
    case False
    with compute_doomed_loop [OF assms(1)]
    have loop: "sweep_loop fst (doom_test by_id) by_id (failed_ids by_id) = Inr D" by simp
    have "D \<subseteq> {x. blocked by_id x}"
      by (rule doomed.loop_least [OF loop failed_blocked closed_blocked [OF assms(2)]])
    moreover have "{x. blocked by_id x} \<subseteq> D"
      using blocked_in_closed doomed.loop_closed [OF loop] by blast
    ultimately show ?thesis by blast
  qed
  moreover have "\<exists>i. (x, i) \<in> set by_id \<and> wi_phase i \<in> {FAILED, CANCELLED, QUEUED, WAITING_DEPENDENCIES, READY}"
    if "blocked by_id x" for x
    using that
  proof cases
    case (chain i ds d)
    then have "wi_phase i \<in> {QUEUED, WAITING_DEPENDENCIES, READY}"
      using hard_dependencies_waiting [OF chain(2)] by (cases ds) auto
    with chain(1) show ?thesis by blast
  qed blast
  ultimately show ?thesis by blast
qed

definition chain_run :: snapshot where
  "chain_run =
     [(''c'', (new_work_item ''c'')\<lparr>wi_phase := WAITING_DEPENDENCIES,
                wi_metadata := [(''dependency_work_item_ids'', PList [PStr ''b''])]\<rparr>),
      (''b'', (new_work_item ''b'')\<lparr>wi_metadata := [(''dependency_work_item_ids'', PList [PStr ''a''])]\<rparr>),
      (''a'', (new_work_item ''a'')\<lparr>wi_phase := FAILED\<rparr>)]"

lemma chain_run_deps:
  "map (hard_dependencies chain_run) chain_run = [Inr [''b''], Inr [''a''], Inr []]"
  by code_simp

text \<open>The card at the far end of the chain is found although it stands first in the run.\<close>

theorem doomed_iff_blocked_witness:
  "\<exists>D. compute_doomed_work_item_ids chain_run = Inr D \<and> ''c'' \<in> D"
proof -
  have ok: "\<forall>e\<in>set chain_run. \<exists>ds. hard_dependencies chain_run e = Inr ds"
    using chain_run_deps by (auto simp: chain_run_def)
  then have "\<forall>e\<in>set chain_run. \<forall>x. doom_test chain_run e {} \<noteq> Inl x"
    by (force simp: doom_test_Inl)
  from doomed.loop_returns [OF this, of "failed_ids chain_run"] obtain D where D: "compute_doomed_work_item_ids chain_run = Inr D"
    by (cases "failed_ids chain_run = {}") (auto simp: compute_doomed_work_item_ids_def)
  have deps: "hard_dependencies chain_run (chain_run ! 0) = Inr [''b'']"
    "hard_dependencies chain_run (chain_run ! 1) = Inr [''a'']"
    using chain_run_deps by (simp_all add: chain_run_def)
  have a: "blocked chain_run ''a''"
    by (rule blocked.failure [of _ "snd (chain_run ! 2)"]) (simp_all add: chain_run_def)
  have b: "blocked chain_run ''b''"
    by (rule blocked.chain [where i = "snd (chain_run ! 1)" and ds = "[''a'']", OF _ _ _ a])
       (use deps(2) in \<open>simp_all add: chain_run_def\<close>)
  have "blocked chain_run ''c''"
    by (rule blocked.chain [where i = "snd (chain_run ! 0)" and ds = "[''b'']", OF _ _ _ b])
       (use deps(1) in \<open>simp_all add: chain_run_def\<close>)
  with doomed_iff_blocked [OF D ok, of "''c''"] D show ?thesis by blast
qed

text \<open>
  Normalising dependency ids is sound, complete and idempotent.  The active ids are
  distinct, stripped, and never name the owner or an obsolete card; every id of the list is
  kept or reported as pruned; and normalising the result again changes and prunes nothing,
  so a refresh that wrote it finds no further drift.
\<close>

theorem normalize_dependencies_stable:
  "distinct (fst (normalize_dependency_work_item_ids raw by_id owner)) \<and>
   list_all (live_dependency by_id (py_strip owner)) (fst (normalize_dependency_work_item_ids raw by_id owner)) \<and>
   {py_strip r |r. r \<in> set raw \<and> py_strip r \<noteq> []} \<subseteq>
     set (fst (normalize_dependency_work_item_ids raw by_id owner)) \<union>
     set (snd (normalize_dependency_work_item_ids raw by_id owner)) \<and>
   normalize_dependency_work_item_ids (fst (normalize_dependency_work_item_ids raw by_id owner)) by_id owner
     = (fst (normalize_dependency_work_item_ids raw by_id owner), [])"
proof (intro conjI)
  show live: "list_all (live_dependency by_id (py_strip owner)) (fst (normalize_dependency_work_item_ids raw by_id owner))"
    by (auto simp: list_all_iff dest: normalize_live)
  show "normalize_dependency_work_item_ids (fst (normalize_dependency_work_item_ids raw by_id owner)) by_id owner
     = (fst (normalize_dependency_work_item_ids raw by_id owner), [])"
    using normalize_of_live [OF live] by (simp add: dedup_distinct distinct_normalize)
  show "{py_strip r |r. r \<in> set raw \<and> py_strip r \<noteq> []} \<subseteq>
     set (fst (normalize_dependency_work_item_ids raw by_id owner)) \<union>
     set (snd (normalize_dependency_work_item_ids raw by_id owner))"
    using fold_normalize_covers [of "([], [])" raw by_id "py_strip owner"]
    by (simp add: normalize_dependency_work_item_ids_def case_prod_beta)
qed (rule distinct_normalize)

text \<open>
  When dependencies count as settled over failures.  The snapshot reports it exactly when
  some dependency failed, was cancelled or is stuck, and every dependency that is neither
  terminal nor doomed is of the class \<open>info\<close>; it never does when all are approved; the three
  lists are disjoint and hold only dependencies of the card that are not approved, unless an
  approved one is called doomed.
\<close>

theorem settlement_snapshot_exact:
  assumes "dependency_settlement_snapshot md deps doomed = Inr s"
    and "dict_or_empty (dget md ''dependency_classes'') = Inr classes" "distinct (map fst deps)"
  shows "(sn_settled_with_failures s \<longleftrightarrow>
            (\<exists>(d, p)\<in>set deps. p \<in> {Some FAILED, Some CANCELLED} \<or> d \<in> doomed) \<and>
            \<not> (\<forall>(d, p)\<in>set deps. p = Some APPROVED) \<and>
            (\<forall>(d, p)\<in>set deps. p \<notin> Some ` DONE_PHASES \<longrightarrow> d \<notin> doomed \<longrightarrow>
               dependency_class classes d = ''info'')) \<and>
         (sn_all_approved s \<longrightarrow> \<not> sn_settled_with_failures s \<and> sn_failed s = [] \<and> sn_cancelled s = []) \<and>
         set (sn_failed s) \<inter> set (sn_cancelled s) = {} \<and>
         (set (sn_failed s) \<union> set (sn_cancelled s)) \<inter> set (sn_stuck s) = {} \<and>
         set (sn_stuck s) \<subseteq> doomed \<and>
         set (sn_failed s) \<union> set (sn_cancelled s) \<union> set (sn_stuck s) \<subseteq> fst ` set deps"
proof -
  have fn: "p = q" if "(d, p) \<in> set deps" "(d, q) \<in> set deps" for d p q
    using assms(3) that by (rule eq_key_imp_eq_value)
  have s: "s = \<lparr>sn_all_approved = list_all (\<lambda>(d, p). p = Some APPROVED) deps,
       sn_failed = map fst (filter (\<lambda>(d, p). p = Some FAILED) deps),
       sn_cancelled = map fst (filter (\<lambda>(d, p). p = Some CANCELLED) deps),
       sn_stuck = map fst (filter (\<lambda>(d, p). d \<in> doomed \<and> p \<notin> {Some FAILED, Some CANCELLED}) deps),
       sn_settled_with_failures = sn_settled_with_failures s\<rparr>"
    and settled: "sn_settled_with_failures s \<longleftrightarrow>
       \<not> list_all (\<lambda>(d, p). p = Some APPROVED) deps \<and>
       (sn_failed s \<noteq> [] \<or> sn_cancelled s \<noteq> [] \<or> sn_stuck s \<noteq> []) \<and>
       list_all (\<lambda>(d, p). (case p of None \<Rightarrow> False | Some q \<Rightarrow> q \<in> DONE_PHASES) \<or> d \<in> doomed \<or>
                          dependency_class classes d = ''info'') deps"
    using assms(1,2) by (auto simp: dependency_settlement_snapshot_def Let_def)
  have lists: "sn_failed s = map fst (filter (\<lambda>(d, p). p = Some FAILED) deps)"
    "sn_cancelled s = map fst (filter (\<lambda>(d, p). p = Some CANCELLED) deps)"
    "sn_stuck s = map fst (filter (\<lambda>(d, p). d \<in> doomed \<and> p \<notin> {Some FAILED, Some CANCELLED}) deps)"
    "sn_all_approved s = list_all (\<lambda>(d, p). p = Some APPROVED) deps"
    by (subst s, simp)+
  have fin: "(case p of None \<Rightarrow> False | Some q \<Rightarrow> q \<in> DONE_PHASES) \<longleftrightarrow> p \<in> Some ` DONE_PHASES" for p
    by (auto split: option.splits)
  have "(sn_failed s \<noteq> [] \<or> sn_cancelled s \<noteq> [] \<or> sn_stuck s \<noteq> []) \<longleftrightarrow>
      (\<exists>(d, p)\<in>set deps. p \<in> {Some FAILED, Some CANCELLED} \<or> d \<in> doomed)"
    by (simp add: lists filter_empty_conv case_prod_beta) blast
  then have "sn_settled_with_failures s \<longleftrightarrow>
            (\<exists>(d, p)\<in>set deps. p \<in> {Some FAILED, Some CANCELLED} \<or> d \<in> doomed) \<and>
            \<not> (\<forall>(d, p)\<in>set deps. p = Some APPROVED) \<and>
            (\<forall>(d, p)\<in>set deps. p \<notin> Some ` DONE_PHASES \<longrightarrow> d \<notin> doomed \<longrightarrow>
               dependency_class classes d = ''info'')"
    unfolding settled fin list_all_iff by (simp add: case_prod_beta) blast
  moreover have "sn_all_approved s \<longrightarrow> \<not> sn_settled_with_failures s \<and> sn_failed s = [] \<and> sn_cancelled s = []"
    unfolding settled lists by (auto simp: list_all_iff filter_empty_conv)
  moreover have "set (sn_failed s) \<inter> set (sn_cancelled s) = {}"
    by (auto simp: lists dest: fn)
  moreover have "(set (sn_failed s) \<union> set (sn_cancelled s)) \<inter> set (sn_stuck s) = {}"
    by (auto simp: lists dest: fn)
  moreover have "set (sn_stuck s) \<subseteq> doomed \<and>
      set (sn_failed s) \<union> set (sn_cancelled s) \<union> set (sn_stuck s) \<subseteq> fst ` set deps"
    by (force simp: lists)
  ultimately show ?thesis by blast
qed

theorem settlement_snapshot_exact_witness:
  "\<exists>s. dependency_settlement_snapshot [] [(''a'', Some APPROVED), (''b'', Some FAILED), (''c'', Some READY)] {''c''}
         = Inr s \<and> sn_settled_with_failures s"
proof -
  let ?deps = "[(''a'', Some APPROVED), (''b'', Some FAILED), (''c'', Some READY)]"
  obtain s where s: "dependency_settlement_snapshot [] ?deps {''c''} = Inr s"
    by (simp add: dependency_settlement_snapshot_def dict_or_empty_def)
  have c: "dict_or_empty (dget [] ''dependency_classes'') = Inr []" by (simp add: dict_or_empty_def)
  have d: "distinct (map fst ?deps)" by simp
  have "sn_settled_with_failures s"
    using settlement_snapshot_exact [OF s c d] by (simp add: DONE_PHASES_def)
  with s show ?thesis by blast
qed

text \<open>
  The closure of a final delivery is stable.  Once the computed dependency list has been
  written on the delivery card, recomputing it against the same run yields the same list, so
  the refresh does not reopen the delivery again for a drift it has itself repaired; the list
  contains every live sibling that counts for the delivery.
\<close>

theorem delivery_closure_stable:
  assumes "final_delivery_dependency_closure i items by_id = Inr (Some ids)"
  shows "final_delivery_dependency_closure
           (i\<lparr>wi_metadata := dset ''dependency_work_item_ids'' (PList (map PStr ids)) (wi_metadata i)\<rparr>)
           items by_id = Inr (Some ids) \<and>
         (\<forall>s\<in>set items. \<forall>intake.
            counts_for_delivery (py_strip (wi_work_item_id i)) intake s \<longrightarrow>
            intake = clean (dget (wi_metadata i) ''intake_work_item_id'') \<longrightarrow>
            \<not> is_prunable_dependency_work_item (map_of by_id (py_strip (wi_work_item_id s))) \<longrightarrow>
            py_strip (wi_work_item_id s) \<in> set ids)"
proof -
  let ?md = "wi_metadata i" and ?owner = "py_strip (wi_work_item_id i)"
  let ?intake = "clean (dget ?md ''intake_work_item_id'')"
  let ?siblings = "map (\<lambda>s. py_strip (wi_work_item_id s)) (filter (counts_for_delivery ?owner ?intake) items)"
  from assms obtain intake current from_intake where
    pre: "work_item_kind i ?md \<in> {''deliver'', ''delivery''}" "?intake \<noteq> []"
      "opt_text (wi_parent_work_item_id i) = ?intake" "map_of by_id ?intake = Some intake"
      "id_list (dget (wi_metadata intake) ''dependency_work_item_ids'') = Inr from_intake"
    and ids: "ids = fst (normalize_dependency_work_item_ids (current @ from_intake @ ?siblings) by_id ?owner)"
    by (auto simp: final_delivery_dependency_closure_def Let_def bind_result_Inr_iff
        split: if_splits option.splits)
  have "list_all (\<lambda>d. py_strip d = d \<and> d \<noteq> []) ids"
    unfolding ids list_all_iff by (blast dest: normalize_live [unfolded live_dependency_def])
  from id_list_of_ids [OF this] have list: "id_list (PList (map PStr ids)) = Inr ids" .
  have again: "fst (normalize_dependency_work_item_ids (ids @ from_intake @ ?siblings) by_id ?owner) = ids"
    unfolding ids using normalize_again [of current "from_intake @ ?siblings" by_id ?owner] by simp
  have kind: "work_item_kind (i\<lparr>wi_metadata := m\<rparr>) (dset ''dependency_work_item_ids'' v ?md) = work_item_kind i ?md"
    for m v by (simp add: work_item_kind_def)
  have "py_strip (wi_work_item_id s) \<in> set ids"
    if s: "s \<in> set items" "counts_for_delivery ?owner ?intake s"
      and live: "\<not> is_prunable_dependency_work_item (map_of by_id (py_strip (wi_work_item_id s)))" for s
  proof -
    let ?d = "py_strip (wi_work_item_id s)"
    have "live_dependency by_id (py_strip ?owner) ?d"
      using s(2) live by (simp add: live_dependency_def counts_for_delivery_def Let_def)
    moreover have "?d \<in> set (current @ from_intake @ ?siblings)" using s by auto
    then obtain xs ys where split: "current @ from_intake @ ?siblings = xs @ ?d # ys" by (meson split_list)
    ultimately show ?thesis
      using fold_normalize_acc [of by_id "py_strip ?owner" ys
          "normalize_step by_id (py_strip ?owner) ?d (fold (normalize_step by_id (py_strip ?owner)) xs ([], []))"]
      by (simp add: ids split normalize_dependency_work_item_ids_def case_prod_beta normalize_step_of_live)
  qed
  moreover have "final_delivery_dependency_closure
           (i\<lparr>wi_metadata := dset ''dependency_work_item_ids'' (PList (map PStr ids)) ?md\<rparr>)
           items by_id = Inr (Some ids)"
    using pre list again kind by (auto simp: final_delivery_dependency_closure_def Let_def)
  ultimately show ?thesis by blast
qed

definition delivery_card :: work_item where
  "delivery_card = (new_work_item ''d'')\<lparr>wi_kind := ''deliver'', wi_parent_work_item_id := Some ''i'',
     wi_metadata := [(''intake_work_item_id'', PStr ''i'')]\<rparr>"

definition delivery_items :: "work_item list" where
  "delivery_items = [new_work_item ''i'', (new_work_item ''s'')\<lparr>wi_parent_work_item_id := Some ''i''\<rparr>, delivery_card]"

definition delivery_run :: snapshot where
  "delivery_run = map (\<lambda>i. (wi_work_item_id i, i)) delivery_items"

theorem delivery_closure_stable_witness:
  "final_delivery_dependency_closure
     (delivery_card\<lparr>wi_metadata := dset ''dependency_work_item_ids'' (PList [PStr ''s'']) (wi_metadata delivery_card)\<rparr>)
     delivery_items delivery_run = Inr (Some [''s''])"
proof -
  have "final_delivery_dependency_closure delivery_card delivery_items delivery_run = Inr (Some [''s''])"
    by code_simp
  from delivery_closure_stable [OF this] show ?thesis by simp
qed

end
