(* ===== verification/TurnMode.thy ===== *)
theory TurnMode
  imports Phase
begin

text \<open>
  \<open>opc/layer2_organization/turn_mode.py\<close>: the stateless classifier that decides, from a work
  item's phase and metadata, which kind of turn the agent is about to run.  The lists of
  identifiers in the metadata may be malformed (\<open>list()\<close> of a number raises), so the classifier
  returns a result.
\<close>

datatype turn_mode = TM_EXECUTE | TM_DELEGATE | TM_REVIEW | TM_INTEGRATE | TM_REWORK | TM_REPORT

definition MANAGER_DECISION_TURN_METADATA_KEYS :: "string list" where
  "MANAGER_DECISION_TURN_METADATA_KEYS =
     [''manager_execution_choice'', ''manager_board_mutation_performed'',
      ''manager_board_modified_work_item_ids'', ''manager_board_deleted_work_item_ids'',
      ''manager_no_delegation_justification'', ''no_delegation_justification'',
      ''manager_dispatch_guard_unresolved'']"

definition GATE_HARNESS_REWORK_METADATA_KEYS :: "string list" where
  "GATE_HARNESS_REWORK_METADATA_KEYS =
     [''gate_harness_rework_feedback'', ''gate_harness_rework_count'',
      ''gate_harness_rework_request'']"

definition reset_manager_decision_turn_metadata :: "pydict \<Rightarrow> pydict" where
  "reset_manager_decision_turn_metadata md = fold dpop MANAGER_DECISION_TURN_METADATA_KEYS md"

fun as_mapping :: "pyval \<Rightarrow> pydict" where
  "as_mapping (PDict d) = d"
| "as_mapping _ = []"

definition safe_rework_count :: "pyval \<Rightarrow> int" where
  "safe_rework_count v = result_or 0 (map_sum id (max 0) (py_int (py_or v (PInt 0))))"

definition pick_keys :: "string list \<Rightarrow> pydict \<Rightarrow> pydict" where
  \<comment> \<open>\<open>{key: d[key] for key in keys if key in d}\<close>\<close>
  "pick_keys ks d = concat (map (\<lambda>k. case map_of d k of None \<Rightarrow> [] | Some v \<Rightarrow> [(k, v)]) ks)"

definition authoritative_gate_harness_rework_metadata :: "pydict \<Rightarrow> pydict \<Rightarrow> pydict" where
  "authoritative_gate_harness_rework_metadata task_metadata work_item_metadata =
     (if list_ex (dhas task_metadata) GATE_HARNESS_REWORK_METADATA_KEYS
      then pick_keys GATE_HARNESS_REWORK_METADATA_KEYS task_metadata
      else pick_keys GATE_HARNESS_REWORK_METADATA_KEYS work_item_metadata)"

definition has_gate_harness_rework :: "pydict \<Rightarrow> bool" where
  "has_gate_harness_rework md \<longleftrightarrow>
     clean (dget md ''gate_harness_rework_feedback'') \<noteq> [] \<or>
     as_mapping (dget md ''gate_harness_rework_request'') \<noteq> [] \<or>
     safe_rework_count (dget md ''gate_harness_rework_count'') > 0"

definition infer_turn_mode :: "work_item \<Rightarrow> bool \<Rightarrow> pydict \<Rightarrow> turn_mode result" where
  "infer_turn_mode i is_review_entry supplemental_metadata =
     (let md = wi_metadata i;
          gate_metadata = authoritative_gate_harness_rework_metadata supplemental_metadata md;
          kind = py_lower (py_strip (wi_kind i));
          phase = wi_phase i
      in if truthy (dget md ''report_execution_work_item'') \<or> kind = ''report'' then Inr TM_REPORT
         else if is_review_entry \<or> truthy (dget md ''review_execution_work_item'') \<or> kind = ''review''
         then Inr TM_REVIEW
         else if phase = READY_FOR_REWORK then Inr TM_REWORK
         else if clean (dget md ''rework_feedback'') \<noteq> [] \<or>
                 safe_rework_count (dget md ''review_rework_count'') > 0 \<or>
                 has_gate_harness_rework gate_metadata
         then Inr TM_REWORK
         else bind_result (id_list (dget md ''dependency_work_item_ids'')) (\<lambda>dependency_ids.
           let frontier = clean_lower (dget md ''frontier'')
           in if dependency_ids \<noteq> [] \<and> (phase \<in> {RUNNING, READY} \<or> frontier = ''resumed'')
              then Inr TM_INTEGRATE
              else bind_result (id_list (dget md ''allowed_delegate_role_ids'')) (\<lambda>allowed.
                if allowed \<noteq> [] \<and> dependency_ids = [] then Inr TM_DELEGATE
                else Inr TM_EXECUTE)))"

section \<open>Lemmas\<close>

lemma dget_pick_keys:
  "dget (pick_keys ks d) k = (if k \<in> set ks then dget d k else PNone)"
proof (induction ks)
  case (Cons a ks)
  have "dget ((case map_of d a of None \<Rightarrow> [] | Some v \<Rightarrow> [(a, v)]) @ pick_keys ks d) k
          = (if k = a \<and> dhas d a then dget d a else dget (pick_keys ks d) k)"
    by (cases "map_of d a") (auto simp: dget_def dhas_def)
  with Cons show ?case
    by (auto simp: pick_keys_def dget_not_dhas)
qed (simp add: pick_keys_def)

lemma fold_dpop: "dhas (fold dpop ks d) k \<longleftrightarrow> k \<notin> set ks \<and> dhas d k"
  by (induction ks arbitrary: d) auto

lemma fold_dpop_get: "dget (fold dpop ks d) k = (if k \<in> set ks then PNone else dget d k)"
  by (induction ks arbitrary: d) auto

lemma gate_metadata_task_owned:
  "list_ex (dhas tmd) GATE_HARNESS_REWORK_METADATA_KEYS \<Longrightarrow>
   authoritative_gate_harness_rework_metadata tmd md
     = authoritative_gate_harness_rework_metadata tmd md'"
  by (simp add: authoritative_gate_harness_rework_metadata_def)

text \<open>The keys of the metadata the classifier reads besides the gate group.\<close>

definition turn_mode_keys :: "string list" where
  "turn_mode_keys =
     [''report_execution_work_item'', ''review_execution_work_item'', ''rework_feedback'',
      ''review_rework_count'', ''dependency_work_item_ids'', ''frontier'',
      ''allowed_delegate_role_ids'']"

lemma turn_mode_read:
  assumes "\<forall>k\<in>set turn_mode_keys. dget md k = dget (wi_metadata i) k"
    and "authoritative_gate_harness_rework_metadata tmd md
           = authoritative_gate_harness_rework_metadata tmd (wi_metadata i)"
  shows "infer_turn_mode (i\<lparr>wi_metadata := md\<rparr>) e tmd = infer_turn_mode i e tmd"
  using assms by (simp add: infer_turn_mode_def turn_mode_keys_def Let_def cong: if_cong)

section \<open>Properties\<close>

text \<open>
  The task owns the gate-harness rework state.  As soon as the task side carries one of the
  three gate fields (even an empty or zero one), whatever the work item carries in those fields
  cannot change the turn mode: overwriting or removing them, or resetting the manager-decision
  fields of the turn, leaves the classification as it was.  And the reset removes exactly
  the seven decision fields.
\<close>

theorem task_owns_gate_rework:
  assumes "list_ex (dhas tmd) GATE_HARNESS_REWORK_METADATA_KEYS"
    and "k \<in> set GATE_HARNESS_REWORK_METADATA_KEYS"
  shows "infer_turn_mode (i\<lparr>wi_metadata := dset k v (wi_metadata i)\<rparr>) e tmd = infer_turn_mode i e tmd \<and>
         infer_turn_mode (i\<lparr>wi_metadata := dpop k (wi_metadata i)\<rparr>) e tmd = infer_turn_mode i e tmd \<and>
         infer_turn_mode (i\<lparr>wi_metadata := reset_manager_decision_turn_metadata (wi_metadata i)\<rparr>) e tmd
           = infer_turn_mode i e tmd \<and>
         (\<forall>k'. dget (reset_manager_decision_turn_metadata md) k' =
                 (if k' \<in> set MANAGER_DECISION_TURN_METADATA_KEYS then PNone else dget md k'))"
proof (intro conjI allI)
  show "infer_turn_mode (i\<lparr>wi_metadata := dset k v (wi_metadata i)\<rparr>) e tmd = infer_turn_mode i e tmd"
    using assms(2)
    by (intro turn_mode_read gate_metadata_task_owned assms(1))
       (auto simp: turn_mode_keys_def GATE_HARNESS_REWORK_METADATA_KEYS_def)
  show "infer_turn_mode (i\<lparr>wi_metadata := dpop k (wi_metadata i)\<rparr>) e tmd = infer_turn_mode i e tmd"
    using assms(2)
    by (intro turn_mode_read gate_metadata_task_owned assms(1))
       (auto simp: turn_mode_keys_def GATE_HARNESS_REWORK_METADATA_KEYS_def)
  show "infer_turn_mode (i\<lparr>wi_metadata := reset_manager_decision_turn_metadata (wi_metadata i)\<rparr>) e tmd
          = infer_turn_mode i e tmd"
    by (intro turn_mode_read gate_metadata_task_owned assms(1))
       (auto simp: turn_mode_keys_def reset_manager_decision_turn_metadata_def fold_dpop_get
          MANAGER_DECISION_TURN_METADATA_KEYS_def)
  show "dget (reset_manager_decision_turn_metadata md) k' =
          (if k' \<in> set MANAGER_DECISION_TURN_METADATA_KEYS then PNone else dget md k')" for k'
    by (simp add: reset_manager_decision_turn_metadata_def fold_dpop_get)
qed

text \<open>Stale rework feedback on the item, an explicit zero count on the task: still EXECUTE.\<close>

theorem task_owns_gate_rework_witness:
  "infer_turn_mode
     ((new_work_item ''w'')\<lparr>wi_metadata := dset ''gate_harness_rework_feedback'' (PStr ''redo'') []\<rparr>)
     False [(''gate_harness_rework_count'', PInt 0)] = Inr TM_EXECUTE"
proof -
  have task: "list_ex (dhas [(''gate_harness_rework_count'', PInt 0)]) GATE_HARNESS_REWORK_METADATA_KEYS"
    and key: "''gate_harness_rework_feedback'' \<in> set GATE_HARNESS_REWORK_METADATA_KEYS"
    by (simp_all add: GATE_HARNESS_REWORK_METADATA_KEYS_def)
  have "infer_turn_mode (new_work_item ''w'') False [(''gate_harness_rework_count'', PInt 0)] = Inr TM_EXECUTE"
    by code_simp
  then show ?thesis
    using task_owns_gate_rework [OF task key, where i = "new_work_item ''w''" and v = "PStr ''redo''" and e = False]
    by (simp add: new_work_item_def)
qed

end
