(* ===== verification/Frontier.thy ===== *)
theory Frontier
  imports Dependencies Transition TurnMode "HOL-Library.List_Lexorder" "HOL-Library.Char_ord"
begin

text \<open>
  \<open>opc/layer2_organization/work_item_transition.py\<close>, third part: the dependency frontier
  (\<open>_refresh_dependents_for_run\<close> without a controller credential, the path of
  \<open>refresh_dependents_for_run\<close>).  One pass decides, for every card of the run with
  dependencies, whether it is released, sent back to wait, or released for failure triage, and
  writes that; a second pass cancels what a finished triage card left behind.

  The texts of the several \<open>datetime.now()\<close> calls of a pass are the one argument \<open>stamp\<close>.
  The phase hooks of the writes are an argument; the refresh hook among them is the identity
  inside a pass, because the code skips a nested refresh of the same run.
\<close>

section \<open>The decision for one card\<close>

record plan =
  pl_target :: phase
  pl_metadata :: pydict
  pl_summary :: "string option"
  pl_clear_blocked :: bool

definition delivery_reset_updates :: "pydict \<Rightarrow> string \<Rightarrow> string \<Rightarrow> pydict" where
  "delivery_reset_updates md invalidated_at reconciled_at =
     [(''review_owner_kind'', PStr ''human''), (''feedback_scope'', PStr ''final''),
      (''requires_user_feedback'', PBool True), (''authoritative_output'', PBool True),
      (''user_visible'', PBool True), (''feedback_closed'', PBool False),
      (''feedback_resolved'', PBool False), (''human_review_closed'', PBool False),
      (''feedback_superseded'', PBool False), (''self_evolution_review_completed'', PBool False),
      (''feedback_closed_at'', PStr []), (''feedback_resolution'', PStr []),
      (''human_review_closed_at'', PStr []), (''human_review_resolution'', PStr []),
      (''feedback_superseded_at'', PStr []), (''self_evolution_review_completed_at'', PStr []),
      (''delivery_revision'',
         PInt (case py_int (py_or (dget md ''delivery_revision'') (PInt 0)) of
                 Inl _ \<Rightarrow> 1 | Inr n \<Rightarrow> n + 1)),
      (''delivery_inputs_invalidated_at'', PStr invalidated_at),
      (''delivery_inputs_invalidated_for_reconciled_at'', PStr reconciled_at)]"

definition id_values :: "string list \<Rightarrow> pyval" where
  "id_values ids = PList (map PStr ids)"

text \<open>The synthesis turn of a parent, and the delivery turn of a roll-up card.\<close>

definition item_identity :: "work_item \<Rightarrow> string \<Rightarrow> pydict" where
  "item_identity i turn_type =
     work_item_identity_payload
       (if wi_projection_id i \<noteq> [] then wi_projection_id i else wi_work_item_id i) turn_type [] False"

definition synthesis_updates :: "work_item \<Rightarrow> pydict \<Rightarrow> string list \<Rightarrow> string \<Rightarrow> pydict" where
  "synthesis_updates i md dependency_ids stamp =
     [(''pre_synthesis_work_kind'', PStr (work_item_kind i md)),
      (''work_kind'', PStr ''synthesize''), (''delegation_turn_kind'', PStr ''synthesize'')] @
     item_identity i ''aggregate'' @
     [(''current_turn_mode'', PStr ''synthesize_required''), (''synthesis_turn_started'', PBool True),
      (''synthesis_ready_at'', PStr stamp), (''synthesis_source_work_item_ids'', id_values dependency_ids),
      (''synthesis_reports_to_role_id'', PStr (py_strip (wi_manager_role_id i))),
      (''synthesis_reports_to_seat_id'', PStr (py_strip (wi_manager_seat_id i))),
      (''needs_manager_attention'', PBool False)]"

definition delivery_turn_updates :: "work_item \<Rightarrow> pydict \<Rightarrow> string \<Rightarrow> pydict" where
  "delivery_turn_updates i md stamp =
     (if work_item_kind i md \<in> {''deliver'', ''delivery''}
      then [(''work_kind'', PStr ''delivery''), (''delegation_turn_kind'', PStr ''delivery'')] @
           item_identity i ''deliver'' @
           [(''current_turn_mode'', PStr ''deliver_required''), (''delivery_turn_ready_at'', PStr stamp)]
      else [])"

definition rework_or_ready :: "pydict \<Rightarrow> phase" where
  "rework_or_ready md = (if clean (dget md ''rework_feedback'') \<noteq> [] then READY_FOR_REWORK else READY)"

text \<open>
  Whether the feedback of a final delivery is stale, and since which reconciliation of its inputs.
\<close>

definition delivery_staleness :: "pydict \<Rightarrow> string list option \<Rightarrow> string list \<Rightarrow> string \<Rightarrow> bool \<times> string" where
  "delivery_staleness md delivery raw0 stamp =
     (let delivery_changed = (case delivery of None \<Rightarrow> False | Some d \<Rightarrow> d \<noteq> raw0);
          reconciled_at = (if delivery_changed then stamp
                           else clean (dget md ''delivery_dependency_reconciled_at''))
      in (delivery \<noteq> None \<and>
          (delivery_changed \<or>
           reconciled_at \<noteq> [] \<and> delivery_was_closed md \<and>
           clean (dget md ''delivery_inputs_invalidated_for_reconciled_at'') \<noteq> reconciled_at),
          reconciled_at))"

text \<open>The reconciliation of the dependency list itself, before the branches.\<close>

definition base_updates ::
  "pydict \<Rightarrow> string list option \<Rightarrow> string list \<Rightarrow> string list \<Rightarrow> string list \<Rightarrow> string list \<Rightarrow> string
     \<Rightarrow> (pydict \<times> bool) result" where
  "base_updates md delivery raw0 raw ids pruned stamp =
     bind_result (if delivery \<noteq> None then list_or_empty (dget md ''allowed_delegate_role_ids'') else Inr [])
       (\<lambda>roles.
     bind_result (if pruned \<noteq> [] then id_list (dget md ''pruned_dependency_work_item_ids'') else Inr [])
       (\<lambda>previous_pruned.
     let delivery_changed = (case delivery of None \<Rightarrow> False | Some d \<Rightarrow> d \<noteq> raw0);
         (stale, reconciled_at) = delivery_staleness md delivery raw0 stamp;
         u1 = (if delivery_changed \<or> ids \<noteq> raw then [(''dependency_work_item_ids'', id_values ids)] else []);
         u2 = (if roles \<noteq> [] then dset ''allowed_delegate_role_ids'' (PList []) u1 else u1);
         u3 = (if ids \<noteq> raw then dset ''dependency_pruned_at'' (PStr stamp) u2 else u2);
         u4 = (if delivery_changed then dset ''delivery_dependency_reconciled_at'' (PStr stamp) u3 else u3);
         u5 = (if stale then dupdate u4 (delivery_reset_updates md stamp reconciled_at) else u4);
         u6 = (if pruned \<noteq> []
               then dset ''pruned_dependency_work_item_ids'' (id_values (dedup (previous_pruned @ pruned))) u5
               else u5)
     in Inr (u6, stale)))"

definition approved_branch ::
  "work_item \<Rightarrow> pydict \<Rightarrow> string list \<Rightarrow> bool \<Rightarrow> pydict \<Rightarrow> string \<Rightarrow> plan" where
  "approved_branch i md ids stale u stamp =
     (let synth = should_enter_synthesis_turn i md ids;
          target = (if synth then READY
                    else if wi_phase i = WAITING_DEPENDENCIES then rework_or_ready md
                    else if wi_phase i = WAITING_FOR_CHILDREN then RUNNING
                    else wi_phase i);
          u1 = (if synth then dset ''frontier'' (PStr ''synthesis_ready'') (dupdate u (synthesis_updates i md ids stamp))
                else if wi_phase i = WAITING_FOR_CHILDREN then dupdate u (delivery_turn_updates i md stamp)
                else u);
          u2 = dset ''waiting_on_work_item_ids'' (PList []) u1;
          u3 = (if truthy (dget md ''delegated_children_pending'')
                then dset ''delegated_children_pending'' (PBool False) u2 else u2);
          u4 = (if py_or (dget md ''frontier'') (PStr []) = PStr ''waiting_for_children'' \<and> \<not> synth
                then dset ''frontier'' (PStr ''resumed'') u3 else u3)
      in \<lparr>pl_target = (if wi_phase i = APPROVED \<and> stale then READY_FOR_REWORK else target),
          pl_metadata = u4,
          pl_summary = (if synth then Some (synthesis_turn_summary i ids) else None),
          pl_clear_blocked = True\<rparr>)"

definition triage_branch ::
  "work_item \<Rightarrow> pydict \<Rightarrow> string list \<Rightarrow> dep_phases \<Rightarrow> settlement \<Rightarrow> pydict \<Rightarrow> string \<Rightarrow> plan" where
  "triage_branch i md ids deps s u stamp =
     (let in_flight = (wi_phase i \<in> {READY, READY_FOR_REWORK, RUNNING});
          synth = (wi_phase i = WAITING_FOR_CHILDREN \<and> should_enter_synthesis_turn i md ids);
          target = (if in_flight then wi_phase i
                    else if synth then READY
                    else if wi_phase i = WAITING_FOR_CHILDREN then RUNNING
                    else rework_or_ready md);
          u1 = (if in_flight then u
                else if synth then dupdate u (synthesis_updates i md ids stamp)
                else if wi_phase i = WAITING_FOR_CHILDREN then dupdate u (delivery_turn_updates i md stamp)
                else u);
          u2 = (if target \<noteq> wi_phase i then
                  let v = dupdate u1
                        [(''dependency_settlement'',
                           PDict [(''failed'', id_values (sn_failed s)), (''cancelled'', id_values (sn_cancelled s)),
                                  (''stuck'', id_values (sn_stuck s)), (''settled_at'', PStr stamp)]),
                         (''frontier'', PStr ''settlement_ready''),
                         (''waiting_on_work_item_ids'', PList [])]
                  in if truthy (dget md ''delegated_children_pending'')
                     then dset ''delegated_children_pending'' (PBool False) v else v
                else u1)
      in \<lparr>pl_target = target, pl_metadata = u2,
          pl_summary = (if target \<noteq> wi_phase i
                        then Some (failure_triage_turn_summary i deps (sn_failed s) (sn_cancelled s) (sn_stuck s))
                        else None),
          pl_clear_blocked = True\<rparr>)"

definition waiting_branch :: "work_item \<Rightarrow> string list \<Rightarrow> bool \<Rightarrow> pydict \<Rightarrow> plan" where
  "waiting_branch i ids stale u =
     \<lparr>pl_target = (if wi_phase i = APPROVED \<and> stale then WAITING_DEPENDENCIES
                   else if wi_phase i = READY then WAITING_DEPENDENCIES
                   else if wi_phase i = RUNNING then WAITING_FOR_CHILDREN
                   else wi_phase i),
      pl_metadata = dset ''waiting_on_work_item_ids'' (id_values ids) u,
      pl_summary = None, pl_clear_blocked = False\<rparr>"

definition clear_claim_on_wake :: "work_item \<Rightarrow> plan \<Rightarrow> bool" where
  "clear_claim_on_wake i p \<longleftrightarrow> wi_phase i = WAITING_FOR_CHILDREN \<and> pl_target p = RUNNING"

text \<open>\<open>None\<close> for a card without dependencies, which the pass leaves alone.\<close>

definition plan_frontier ::
  "snapshot \<Rightarrow> work_item list \<Rightarrow> string set \<Rightarrow> string \<Rightarrow> work_item \<Rightarrow> plan option result" where
  "plan_frontier by_id items doomed stamp i =
     (let md = wi_metadata i in
      bind_result (id_list (dget md ''dependency_work_item_ids'')) (\<lambda>raw0.
      bind_result (final_delivery_dependency_closure i items by_id) (\<lambda>delivery.
      let raw = (case delivery of None \<Rightarrow> raw0 | Some d \<Rightarrow> d)
      in if raw = [] then Inr None
         else
           let (ids, pruned) = normalize_dependency_work_item_ids raw by_id (wi_work_item_id i);
               deps = phases_of by_id ids
           in bind_result (dependency_settlement_snapshot md deps doomed) (\<lambda>s.
              bind_result (base_updates md delivery raw0 raw ids pruned stamp) (\<lambda>(u, stale).
              if sn_all_approved s then Inr (Some (approved_branch i md ids stale u stamp))
              else bind_result (if sn_settled_with_failures s
                                then is_settlement_release_candidate i md else Inr False) (\<lambda>release.
                   Inr (Some (if release then triage_branch i md ids deps s u stamp
                              else waiting_branch i ids stale u))))))))"

section \<open>Writing the decisions\<close>

definition plan_update :: "work_item \<Rightarrow> plan \<Rightarrow> item_update" where
  "plan_update i p =
     (let wake = clear_claim_on_wake i p
      in no_update\<lparr>up_phase := (if pl_target p \<noteq> wi_phase i then Some (pl_target p) else None),
           up_blocked_reason := (if pl_clear_blocked p then Some [] else None),
           up_metadata := (if wake
             then dset ''claimed_task_id'' (PStr []) (dset ''claimed_by_role_session_id'' (PStr []) (pl_metadata p))
             else pl_metadata p),
           up_summary := pl_summary p,
           up_claimed_session := (if wake then Some [] else None),
           up_claimed_seat := (if wake then Some [] else None)\<rparr>)"

text \<open>
  The reopening of an approved delivery takes the default of its deliverable summary, the empty text.
\<close>

definition apply_frontier_update ::
  "store hook list \<Rightarrow> store \<Rightarrow> work_item \<Rightarrow> item_update \<Rightarrow> int \<Rightarrow> work_item option result \<times> store" where
  "apply_frontier_update hooks st i u now =
     (case up_phase u of
        Some target \<Rightarrow>
          if wi_phase i = APPROVED \<and> target \<in> {WAITING_DEPENDENCIES, READY_FOR_REWORK}
          then reopen_approved_delegation_work_item_for_rework hooks st (wi_work_item_id i) target
                 (u\<lparr>up_deliverable_summary := Some [], up_unset := []\<rparr>) True now
          else update_delegation_work_item hooks st (wi_work_item_id i) u now
      | None \<Rightarrow> update_delegation_work_item hooks st (wi_work_item_id i) u now)"

record frontier =
  fr_store :: store
  fr_by_id :: snapshot
  fr_changed :: bool

fun set_snapshot :: "string \<Rightarrow> work_item \<Rightarrow> snapshot \<Rightarrow> snapshot" where
  "set_snapshot k i [] = [(k, i)]"
| "set_snapshot k i ((k', j) # es) = (if k' = k then (k, i) # es else (k', j) # set_snapshot k i es)"

text \<open>What a write leaves in the pass: errors other than a lost lease are logged and skipped.\<close>

definition absorb ::
  "frontier \<Rightarrow> string \<Rightarrow> work_item option result \<times> store \<Rightarrow> pyerr option \<times> frontier" where
  "absorb f wid r =
     (case r of
        (Inr None, st) \<Rightarrow> (None, f\<lparr>fr_store := st, fr_changed := True\<rparr>)
      | (Inr (Some j), st) \<Rightarrow>
          (None, f\<lparr>fr_store := st, fr_changed := True, fr_by_id := set_snapshot wid j (fr_by_id f)\<rparr>)
      | (Inl e, st) \<Rightarrow> (if e = LeaseLost then Some e else None, f\<lparr>fr_store := st\<rparr>))"

definition frontier_item ::
  "store hook list \<Rightarrow> int \<Rightarrow> string \<Rightarrow> work_item list \<Rightarrow> string set \<Rightarrow> work_item \<Rightarrow> frontier
     \<Rightarrow> pyerr option \<times> frontier" where
  "frontier_item hooks now stamp items doomed i f =
     (case plan_frontier (fr_by_id f) items doomed stamp i of
        Inl e \<Rightarrow> (Some e, f)
      | Inr None \<Rightarrow> (None, f)
      | Inr (Some p) \<Rightarrow>
          let u = plan_update i p
          in if pl_target p = wi_phase i \<and> up_metadata u = [] then (None, f)
             else absorb f (wi_work_item_id i) (apply_frontier_update hooks (fr_store f) i u now))"

fun until_error :: "('a \<Rightarrow> 's \<Rightarrow> pyerr option \<times> 's) \<Rightarrow> 'a list \<Rightarrow> 's \<Rightarrow> pyerr option \<times> 's" where
  "until_error f [] s = (None, s)"
| "until_error f (x # xs) s =
     (case f x s of (Some e, s') \<Rightarrow> (Some e, s') | (None, s') \<Rightarrow> until_error f xs s')"

section \<open>The settlement cascade\<close>

definition cover_dependencies :: "snapshot \<Rightarrow> string set \<Rightarrow> string \<times> work_item \<Rightarrow> string list result" where
  "cover_dependencies by_id doomed entry =
     (let (item_id, i) = entry; md = wi_metadata i
      in if item_id \<notin> doomed then Inr []
         else bind_result (id_list (dget md ''dependency_work_item_ids'')) (\<lambda>raw.
              if raw = [] then Inr []
              else bind_result (dict_or_empty (dget md ''dependency_classes'')) (\<lambda>classes.
                   Inr (filter (\<lambda>d. dependency_class classes d \<notin> {''soft'', ''info''})
                          (fst (normalize_dependency_work_item_ids raw by_id item_id))))))"

definition cover_test :: "snapshot \<Rightarrow> string set \<Rightarrow> string \<times> work_item \<Rightarrow> string set \<Rightarrow> bool result" where
  "cover_test by_id doomed entry covered =
     bind_result (cover_dependencies by_id doomed entry) (\<lambda>ds. Inr (list_ex (\<lambda>d. d \<in> covered) ds))"

definition cascade_covered :: "snapshot \<Rightarrow> string set \<Rightarrow> string list \<Rightarrow> string set result" where
  "cascade_covered by_id doomed stuck =
     (let covered = set (filter (\<lambda>d. map_of by_id d \<noteq> None) stuck)
      in if covered = {} then Inr covered
         else sweep_loop fst (cover_test by_id doomed) by_id covered)"

definition cascade_cancel_ids :: "snapshot \<Rightarrow> string set \<Rightarrow> string set \<Rightarrow> string list" where
  "cascade_cancel_ids by_id doomed covered =
     sort (filter (\<lambda>d. d \<in> covered \<and> d \<in> doomed \<and>
             (case map_of by_id d of None \<Rightarrow> True | Some w \<Rightarrow> wi_phase w \<notin> DONE_PHASES)) (map fst by_id))"

definition cascade_request :: transition_request where
  "cascade_request =
     (request ''upstream_dependency_failed_parent_settled'')\<lparr>tr_release_claim := True\<rparr>"

definition cascade_cancel ::
  "store hook list \<Rightarrow> int \<Rightarrow> string \<Rightarrow> string \<Rightarrow> bool \<times> frontier \<Rightarrow> pyerr option \<times> bool \<times> frontier" where
  "cascade_cancel hooks now stamp wid acc =
     (let (complete, f) = acc
      in case transition_work_item hooks (fr_store f) wid (PhaseArg CANCELLED) cascade_request now stamp of
           (Inr _, st) \<Rightarrow> (None, complete, f\<lparr>fr_store := st, fr_changed := True\<rparr>)
         | (Inl e, st) \<Rightarrow>
             (if e = LeaseLost then Some e else None, False, f\<lparr>fr_store := st\<rparr>))"

definition cascade_item ::
  "store hook list \<Rightarrow> int \<Rightarrow> string \<Rightarrow> string set \<Rightarrow> work_item \<Rightarrow> frontier \<Rightarrow> pyerr option \<times> frontier" where
  "cascade_item hooks now stamp doomed i f =
     (case dict_or_empty (dget (wi_metadata i) ''dependency_settlement'') of
        Inl e \<Rightarrow> (Some e, f)
      | Inr settlement \<Rightarrow>
          if settlement = [] \<or> truthy (dget settlement ''cascaded_at'') \<or> wi_phase i \<noteq> APPROVED
          then (None, f)
          else case bind_result (id_list (dget settlement ''stuck'')) (cascade_covered (fr_by_id f) doomed) of
                 Inl e \<Rightarrow> (Some e, f)
               | Inr covered \<Rightarrow>
                   (case until_error (cascade_cancel hooks now stamp)
                           (cascade_cancel_ids (fr_by_id f) doomed covered) (True, f) of
                      (Some e, _, f1) \<Rightarrow> (Some e, f1)
                    | (None, complete, f1) \<Rightarrow>
                        if \<not> complete then (None, f1)
                        else absorb f1 (wi_work_item_id i)
                               (update_delegation_work_item hooks (fr_store f1)
                                  (case map_of (fr_by_id f1) (wi_work_item_id i) of
                                     None \<Rightarrow> wi_work_item_id i | Some w \<Rightarrow> wi_work_item_id w)
                                  (no_update\<lparr>up_metadata :=
                                     [(''dependency_settlement'',
                                       PDict (dset ''cascaded_at'' (PStr stamp) settlement))]\<rparr>) now)))"

section \<open>The refresh\<close>

definition refresh_dependents_for_run ::
  "store hook list \<Rightarrow> string set \<Rightarrow> store \<Rightarrow> string \<Rightarrow> int \<Rightarrow> string \<Rightarrow> bool result \<times> store" where
  "refresh_dependents_for_run hooks in_flight st run_id now stamp =
     (if run_id = [] \<or> run_id \<in> in_flight then (Inr False, st)
      else
        let items = list_delegation_work_items st run_id;
            by_id = foldl (\<lambda>d i. set_snapshot (wi_work_item_id i) i d) [] items
        in case compute_doomed_work_item_ids by_id of
             Inl e \<Rightarrow> (Inl e, st)
           | Inr doomed \<Rightarrow>
               (case until_error (frontier_item hooks now stamp items doomed) items
                       \<lparr>fr_store = st, fr_by_id = by_id, fr_changed = False\<rparr> of
                  (Some e, f) \<Rightarrow> (Inl e, fr_store f)
                | (None, f) \<Rightarrow>
                    (case until_error (cascade_item hooks now stamp doomed) items f of
                       (Some e, g) \<Rightarrow> (Inl e, fr_store g)
                     | (None, g) \<Rightarrow>
                         (Inr (fr_changed g),
                          if fr_changed g
                          then (fr_store g)\<lparr>st_events :=
                                 st_events (fr_store g) @ [(run_id, ''dependency_frontier_refreshed'')]\<rparr>
                          else fr_store g))))"

section \<open>Facts about the decision\<close>

lemma plan_cases:
  assumes "plan_frontier by_id items doomed stamp i = Inr (Some p)"
  obtains (approved) ids u stale where "p = approved_branch i (wi_metadata i) ids stale u stamp"
  | (triage) ids deps s u where "p = triage_branch i (wi_metadata i) ids deps s u stamp"
      "is_settlement_release_candidate i (wi_metadata i) = Inr True"
  | (waiting) ids stale u where "p = waiting_branch i ids stale u"
proof -
  from assms have "(\<exists>ids u stale. p = approved_branch i (wi_metadata i) ids stale u stamp) \<or>
      (\<exists>ids deps s u. p = triage_branch i (wi_metadata i) ids deps s u stamp \<and>
         is_settlement_release_candidate i (wi_metadata i) = Inr True) \<or>
      (\<exists>ids stale u. p = waiting_branch i ids stale u)"
    by (auto simp: plan_frontier_def Let_def bind_result_Inr_iff split: if_splits prod.splits; blast)
  then show ?thesis using approved triage waiting by blast
qed

lemma candidate_phase:
  "is_settlement_release_candidate i md = Inr True \<Longrightarrow>
     wi_phase i \<in> {WAITING_FOR_CHILDREN, WAITING_DEPENDENCIES, READY, READY_FOR_REWORK, RUNNING}"
  by (auto simp: is_settlement_release_candidate_def split: if_splits)

lemma synthesis_phase: "should_enter_synthesis_turn i md ids \<Longrightarrow> wi_phase i = WAITING_FOR_CHILDREN"
  by (simp add: should_enter_synthesis_turn_def)

text \<open>
  Metadata without a reserved key of the delegate identity, without a key the dispatcher reads and
  without the keys of a claim.
\<close>

definition DISPATCH_KEYS :: "string list" where
  "DISPATCH_KEYS =
     [''queued_behind_session'', ''dispatch_hold'', ''attempt_crash_streak'', ''attempt_interrupted_streak'']"

definition PLAN_FREE_KEYS :: "string list" where
  "PLAN_FREE_KEYS =
     DELEGATE_WORK_RESERVED_METADATA_KEYS @ DISPATCH_KEYS @ [''claimed_by_role_session_id'', ''claimed_task_id'']"

definition unreserved :: "pydict \<Rightarrow> bool" where
  "unreserved d \<longleftrightarrow> fst ` set d \<inter> set PLAN_FREE_KEYS = {}"

lemma keys_dset: "fst ` set (dset k v d) = insert k (fst ` set d)"
  by (induction k v d rule: dset.induct) auto

lemma keys_dupdate: "fst ` set (dupdate d u) = fst ` set d \<union> fst ` set u"
proof (induction u arbitrary: d)
  case (Cons kv u)
  then show ?case by (cases kv) (simp add: keys_dset)
qed simp

lemma unreserved_if: "unreserved (if c then a else b) = (if c then unreserved a else unreserved b)"
  by simp

lemma unreserved_simps [simp]:
  "unreserved []"
  "unreserved ((k, v) # d) \<longleftrightarrow> k \<notin> set PLAN_FREE_KEYS \<and> unreserved d"
  "unreserved (dset k v d) \<longleftrightarrow> k \<notin> set PLAN_FREE_KEYS \<and> unreserved d"
  "unreserved (dupdate d u) \<longleftrightarrow> unreserved d \<and> unreserved u"
  "unreserved (d @ u) \<longleftrightarrow> unreserved d \<and> unreserved u"
  by (auto simp: unreserved_def keys_dset keys_dupdate)

lemma reserved_keys:
  "k \<in> set PLAN_FREE_KEYS \<longleftrightarrow>
     k = ''created_by_delegate_work'' \<or> k = ''delegate_invocation_id'' \<or>
     k = ''delegate_invocation_index'' \<or> k = ''delegate_sequence_index'' \<or>
     k = ''queued_behind_session'' \<or> k = ''dispatch_hold'' \<or>
     k = ''attempt_crash_streak'' \<or> k = ''attempt_interrupted_streak'' \<or>
     k = ''claimed_by_role_session_id'' \<or> k = ''claimed_task_id''"
  by (auto simp: PLAN_FREE_KEYS_def DISPATCH_KEYS_def DELEGATE_WORK_RESERVED_METADATA_KEYS_def)

lemma unreserved_identity [simp]: "unreserved (item_identity i t)"
  by (simp add: item_identity_def work_item_identity_payload_def Let_def reserved_keys)

lemma unreserved_turns [simp]:
  "unreserved (synthesis_updates i md ids stamp)" "unreserved (delivery_turn_updates i md stamp)"
  by (simp_all add: synthesis_updates_def delivery_turn_updates_def reserved_keys)

lemma unreserved_base: "base_updates md delivery raw0 raw ids pruned stamp = Inr (u, stale) \<Longrightarrow> unreserved u"
  unfolding base_updates_def delivery_staleness_def Let_def bind_result_Inr_iff
  by (clarsimp simp: unreserved_if delivery_reset_updates_def reserved_keys)

lemma unreserved_branches:
  "unreserved u \<Longrightarrow> unreserved (pl_metadata (approved_branch i md ids stale u stamp))"
  "unreserved u \<Longrightarrow> unreserved (pl_metadata (triage_branch i md ids deps s u stamp))"
  "unreserved u \<Longrightarrow> unreserved (pl_metadata (waiting_branch i ids stale u))"
  by (simp_all add: approved_branch_def triage_branch_def waiting_branch_def Let_def reserved_keys)

lemma unreserved_plan:
  assumes "plan_frontier by_id items doomed stamp i = Inr (Some p)"
  shows "unreserved (pl_metadata p)"
  using assms
  by (auto simp: plan_frontier_def Let_def bind_result_Inr_iff unreserved_branches
      dest: unreserved_base split: if_splits prod.splits)

lemma plan_update_keys: "fst ` set (up_metadata (plan_update i p)) \<subseteq> fst ` set (pl_metadata p) \<union> CLAIM_KEYS"
  by (auto simp: plan_update_def no_update_def Let_def keys_dset CLAIM_KEYS_def)

lemma plan_keys_free:
  "unreserved (pl_metadata p) \<Longrightarrow> k \<in> set (DELEGATE_WORK_RESERVED_METADATA_KEYS @ DISPATCH_KEYS) \<Longrightarrow>
     k \<notin> fst ` set (up_metadata (plan_update i p))"
proof -
  assume a: "unreserved (pl_metadata p)" "k \<in> set (DELEGATE_WORK_RESERVED_METADATA_KEYS @ DISPATCH_KEYS)"
  then have "k \<in> set PLAN_FREE_KEYS" by (auto simp: PLAN_FREE_KEYS_def)
  with a(1) have "k \<notin> fst ` set (pl_metadata p)" unfolding unreserved_def by blast
  moreover have "k \<notin> CLAIM_KEYS"
    using a(2) by (auto simp: CLAIM_KEYS_def DISPATCH_KEYS_def DELEGATE_WORK_RESERVED_METADATA_KEYS_def)
  ultimately show ?thesis using plan_update_keys [of i p] by blast
qed

lemma wake_clears_claim:
  assumes "unreserved (pl_metadata p)" "clear_claim_on_wake i p" "k \<in> CLAIM_KEYS"
  shows "dget (dupdate md (up_metadata (plan_update i p))) k = PStr []"
proof -
  have "''claimed_by_role_session_id'' \<notin> fst ` set (pl_metadata p)" "''claimed_task_id'' \<notin> fst ` set (pl_metadata p)"
    using assms(1) by (auto simp: unreserved_def PLAN_FREE_KEYS_def)
  then have "up_metadata (plan_update i p) =
      pl_metadata p @ [(''claimed_by_role_session_id'', PStr []), (''claimed_task_id'', PStr [])]"
    using assms(2) by (simp add: plan_update_def no_update_def dset_fresh)
  then show ?thesis using assms(3) by (auto simp: CLAIM_KEYS_def dupdate_append)
qed

lemma plan_update_fields [simp]:
  "up_phase (plan_update i p) = (if pl_target p \<noteq> wi_phase i then Some (pl_target p) else None)"
  "up_unset (plan_update i p) = []"
  "up_claimed_session (plan_update i p) = (if clear_claim_on_wake i p then Some [] else None)"
  by (simp_all add: plan_update_def no_update_def Let_def)

text \<open>The targets of a released card.\<close>

lemma released_target:
  assumes "plan_frontier by_id items doomed stamp i = Inr (Some p)" "pl_clear_blocked p"
    and "wi_phase i \<in> {WAITING_FOR_CHILDREN, WAITING_DEPENDENCIES}"
  shows "pl_target p = (if wi_phase i = WAITING_DEPENDENCIES then rework_or_ready (wi_metadata i) else pl_target p) \<and>
         pl_target p \<in> (if wi_phase i = WAITING_DEPENDENCIES then {READY, READY_FOR_REWORK} else {READY, RUNNING})"
  using assms(1)
proof (cases rule: plan_cases)
  case (approved ids u stale)
  with assms(3) show ?thesis
    by (auto simp: approved_branch_def Let_def rework_or_ready_def dest: synthesis_phase)
next
  case (triage ids deps s u)
  with assms(3) show ?thesis
    by (auto simp: triage_branch_def Let_def rework_or_ready_def)
next
  case (waiting ids stale u)
  with assms(2) show ?thesis by (simp add: waiting_branch_def)
qed

section \<open>Facts about the cascade\<close>

interpretation cover: growing_sweep fst "cover_test by_id doomed" for by_id doomed
proof unfold_locales
  show "cover_test by_id doomed i S = Inl e \<Longrightarrow> cover_test by_id doomed i T = Inl e" for i S e T
    by (simp add: cover_test_def bind_result_Inl_iff)
  show "cover_test by_id doomed i S = Inr True \<Longrightarrow> S \<subseteq> T \<Longrightarrow> cover_test by_id doomed i T = Inr True" for i S T
    by (auto simp: cover_test_def bind_result_Inr_iff list_ex_iff)
qed

inductive behind :: "snapshot \<Rightarrow> string set \<Rightarrow> string list \<Rightarrow> string \<Rightarrow> bool" for by_id doomed stuck where
  stuck: "x \<in> set stuck \<Longrightarrow> map_of by_id x \<noteq> None \<Longrightarrow> behind by_id doomed stuck x"
| hard: "(x, i) \<in> set by_id \<Longrightarrow> cover_dependencies by_id doomed (x, i) = Inr ds \<Longrightarrow> d \<in> set ds \<Longrightarrow>
           behind by_id doomed stuck d \<Longrightarrow> behind by_id doomed stuck x"

lemma cascade_covered_behind:
  assumes "cascade_covered by_id doomed stuck = Inr C"
    and "\<forall>e\<in>set by_id. \<exists>ds. cover_dependencies by_id doomed e = Inr ds"
  shows "C = {x. behind by_id doomed stuck x}"
proof -
  let ?S = "set (filter (\<lambda>d. map_of by_id d \<noteq> None) stuck)"
  have start: "?S \<subseteq> {x. behind by_id doomed stuck x}" by (auto intro: behind.stuck)
  have closed: "cover.closed by_id doomed by_id {x. behind by_id doomed stuck x}"
    unfolding cover.closed_def
  proof (intro ballI impI)
    fix e assume e: "e \<in> set by_id" and new: "fst e \<notin> {x. behind by_id doomed stuck x}"
    obtain ds where ds: "cover_dependencies by_id doomed e = Inr ds" using assms(2) e by blast
    have "\<not> behind by_id doomed stuck d" if "d \<in> set ds" for d
      using new e ds that by (cases e) (auto intro: behind.hard)
    with ds show "cover_test by_id doomed e {x. behind by_id doomed stuck x} = Inr False"
      by (auto simp: cover_test_def list_ex_iff)
  qed
  show ?thesis
  proof (cases "?S = {}")
    case True
    have "C = {}" using assms(1) unfolding cascade_covered_def Let_def True by simp
    moreover have "\<not> behind by_id doomed stuck x" for x
    proof
      assume "behind by_id doomed stuck x"
      then show False
      proof (induction rule: behind.induct)
        case (stuck x)
        with True have "x \<in> {}" by (simp only: set_filter flip: True) blast
        then show ?case ..
      qed
    qed
    ultimately show ?thesis by simp
  next
    case False
    with assms(1) have loop: "sweep_loop fst (cover_test by_id doomed) by_id ?S = Inr C"
      unfolding cascade_covered_def Let_def by (simp only: if_False)
    have "C \<subseteq> {x. behind by_id doomed stuck x}" by (rule cover.loop_least [OF loop start closed])
    moreover have "x \<in> C" if "behind by_id doomed stuck x" for x
      using that
    proof (induction rule: behind.induct)
      case (stuck x)
      with cover.loop_closed [OF loop] show ?case by auto
    next
      case (hard x i ds d)
      show ?case
      proof (rule ccontr)
        assume "x \<notin> C"
        with hard(1) cover.loop_closed [OF loop] have "cover_test by_id doomed (x, i) C = Inr False"
          by (force simp: cover.closed_def)
        with hard show False by (auto simp: cover_test_def list_ex_iff)
      qed
    qed
    ultimately show ?thesis by blast
  qed
qed

section \<open>Properties\<close>

text \<open>
  The frontier decides along the phase table, with one exception.  For every card and every
  state of its dependencies, the phase the pass decides on is the card's phase, a phase its
  phase allows, or the reopening of an approved delivery; the only other decision is
  READY_FOR_REWORK for a card in WAITING_DEPENDENCIES with outstanding rework feedback.
\<close>

theorem frontier_decision_legal:
  assumes "plan_frontier by_id items doomed stamp i = Inr (Some p)"
  shows "pl_target p = wi_phase i \<or> pl_target p \<in> allowed_transitions (wi_phase i) \<or>
         wi_phase i = APPROVED \<and> pl_target p \<in> {WAITING_DEPENDENCIES, READY_FOR_REWORK} \<or>
         wi_phase i = WAITING_DEPENDENCIES \<and> pl_target p = READY_FOR_REWORK \<and>
         clean (dget (wi_metadata i) ''rework_feedback'') \<noteq> [] \<and> pl_clear_blocked p"
  using assms
proof (cases rule: plan_cases)
  case (approved ids u stale)
  then show ?thesis
    using synthesis_phase [of i "wi_metadata i" ids]
    by (cases "wi_phase i")
       (auto simp: approved_branch_def Let_def rework_or_ready_def transition_sets split: if_splits)
next
  case (triage ids deps s u)
  with candidate_phase [OF triage(2)] show ?thesis
    by (cases "wi_phase i") (auto simp: triage_branch_def Let_def rework_or_ready_def transition_sets)
next
  case (waiting ids stale u)
  then show ?thesis by (cases "wi_phase i") (auto simp: waiting_branch_def)
qed

definition approved_child_run :: "phase \<Rightarrow> pydict \<Rightarrow> work_item list" where
  "approved_child_run p md =
     [(new_work_item ''p'')\<lparr>wi_run_id := ''r'', wi_phase := p,
        wi_metadata := (''dependency_work_item_ids'', PList [PStr ''c'']) # md\<rparr>,
      (new_work_item ''c'')\<lparr>wi_run_id := ''r'', wi_phase := APPROVED\<rparr>]"

definition child_by_id :: "phase \<Rightarrow> pydict \<Rightarrow> snapshot" where
  "child_by_id p md = map (\<lambda>i. (wi_work_item_id i, i)) (approved_child_run p md)"

definition parent_card :: "phase \<Rightarrow> pydict \<Rightarrow> work_item" where
  "parent_card p md = hd (approved_child_run p md)"

theorem frontier_decision_legal_witness:
  "\<exists>p. plan_frontier (child_by_id WAITING_FOR_CHILDREN []) (approved_child_run WAITING_FOR_CHILDREN []) {} ''t''
          (parent_card WAITING_FOR_CHILDREN []) = Inr (Some p) \<and>
       pl_target p \<in> allowed_transitions WAITING_FOR_CHILDREN"
proof -
  have "case plan_frontier (child_by_id WAITING_FOR_CHILDREN []) (approved_child_run WAITING_FOR_CHILDREN []) {} ''t''
          (parent_card WAITING_FOR_CHILDREN []) of Inr (Some p) \<Rightarrow> pl_target p = RUNNING | _ \<Rightarrow> False"
    by code_simp
  then obtain p where p: "plan_frontier (child_by_id WAITING_FOR_CHILDREN [])
      (approved_child_run WAITING_FOR_CHILDREN []) {} ''t'' (parent_card WAITING_FOR_CHILDREN []) = Inr (Some p)"
    and t: "pl_target p = RUNNING"
    by (auto split: sum.splits option.splits)
  have "pl_target p \<in> allowed_transitions WAITING_FOR_CHILDREN"
    using frontier_decision_legal [OF p] t by (auto simp: parent_card_def approved_child_run_def)
  with p show ?thesis by blast
qed

text \<open>
  A card waiting for dependencies with rework feedback is never released.  When such a card
  is due for release (all its dependencies approved, or settled over failures), the pass
  decides on READY_FOR_REWORK, which the phase table does not allow from
  WAITING_DEPENDENCIES; the write is refused, the error is swallowed, and neither the store
  nor the pass changes.  The same happens in every later pass.
\<close>

theorem rework_card_stays_waiting:
  assumes "plan_frontier (fr_by_id f) items doomed stamp i = Inr (Some p)" "pl_clear_blocked p"
    and "wi_phase i = WAITING_DEPENDENCIES" "clean (dget (wi_metadata i) ''rework_feedback'') \<noteq> []"
    and "get_item (fr_store f) (wi_work_item_id i) = Some r" "wi_phase r = WAITING_DEPENDENCIES"
  shows "frontier_item hooks now stamp items doomed i f = (None, f) \<and> pl_target p = READY_FOR_REWORK"
proof -
  have t: "pl_target p = READY_FOR_REWORK"
    using released_target [OF assms(1,2)] assms(3,4) by (simp add: rework_or_ready_def)
  then have "apply_item_update (plan_update i p) now r = Inl InvalidPhaseTransition"
    using assms(3,6) by (simp add: apply_item_update_def validate_transition_def transition_sets)
  then have "apply_frontier_update hooks (fr_store f) i (plan_update i p) now
      = (Inl InvalidPhaseTransition, fr_store f)"
    using t assms(3,5) by (simp add: apply_frontier_update_def update_delegation_work_item_def)
  then show ?thesis
    using t assms(1,3) by (simp add: frontier_item_def absorb_def Let_def)
qed

definition rework_parent :: work_item where
  "rework_parent = parent_card WAITING_DEPENDENCIES [(''rework_feedback'', PStr ''redo'')]"

definition rework_frontier :: frontier where
  "rework_frontier =
     \<lparr>fr_store = empty_store\<lparr>st_items := approved_child_run WAITING_DEPENDENCIES [(''rework_feedback'', PStr ''redo'')]\<rparr>,
      fr_by_id = child_by_id WAITING_DEPENDENCIES [(''rework_feedback'', PStr ''redo'')], fr_changed = False\<rparr>"

theorem rework_card_stays_waiting_witness:
  "frontier_item [] 0 ''t'' (st_items (fr_store rework_frontier)) {} rework_parent rework_frontier
     = (None, rework_frontier)"
proof -
  have "case plan_frontier (fr_by_id rework_frontier) (st_items (fr_store rework_frontier)) {} ''t'' rework_parent of
          Inr (Some p) \<Rightarrow> pl_clear_blocked p | _ \<Rightarrow> False"
    by code_simp
  then obtain p where p: "plan_frontier (fr_by_id rework_frontier) (st_items (fr_store rework_frontier)) {} ''t''
      rework_parent = Inr (Some p)" "pl_clear_blocked p"
    by (auto split: sum.splits option.splits)
  have i: "wi_phase rework_parent = WAITING_DEPENDENCIES"
    "clean (dget (wi_metadata rework_parent) ''rework_feedback'') \<noteq> []"
    "get_item (fr_store rework_frontier) (wi_work_item_id rework_parent) = Some rework_parent"
    by code_simp+
  show ?thesis using rework_card_stays_waiting [OF p i i(1)] by blast
qed

text \<open>
  What keeps the dispatcher away from a card whatever its phase, and a card without any trace of a
  claim.
\<close>

definition held_back :: "work_item \<Rightarrow> bool" where
  "held_back i \<longleftrightarrow>
     clean (dget (wi_metadata i) ''queued_behind_session'') \<noteq> [] \<or>
     clean (dget (wi_metadata i) ''dispatch_hold'') \<noteq> [] \<or>
     attempt_ledger_dispatch_block_reason (wi_metadata i) \<noteq> []"

definition unclaimed :: "work_item \<Rightarrow> bool" where
  "unclaimed i \<longleftrightarrow>
     wi_claimed_by_role_runtime_session_id i = [] \<and> wi_claimed_by_seat_id i = [] \<and>
     (\<forall>k\<in>CLAIM_KEYS. clean (dget (wi_metadata i) k) = [])"

lemma held_back_keys:
  "(\<And>k. k \<in> set DISPATCH_KEYS \<Longrightarrow> dget (wi_metadata j) k = dget (wi_metadata r) k) \<Longrightarrow> held_back j = held_back r"
  by (simp add: held_back_def DISPATCH_KEYS_def attempt_ledger_dispatch_block_reason_def attempt_ledger_int_def)

lemma dispatchable_iff:
  "is_runnable (wi_phase j) \<or> is_orphaned j \<Longrightarrow> is_dispatchable j \<longleftrightarrow> \<not> held_back j"
  by (auto simp: is_dispatchable_def held_back_def)

lemma released_write:
  assumes "update_delegation_work_item hooks st (wi_work_item_id i) (plan_update i p) now = (Inr (Some j), st')"
    and "get_item st (wi_work_item_id i) = Some r" "wi_phase r = wi_phase i" "pl_target p \<noteq> wi_phase i"
    and "pl_target p = READY \<or> pl_target p = RUNNING \<and> wi_phase i = WAITING_FOR_CHILDREN"
    and "unreserved (pl_metadata p)"
  shows "st' = on_phase_transition False hooks (Some (wi_phase i)) (wi_phase j) j (put_item st j) \<and>
    wi_work_item_id j = wi_work_item_id i \<and> unclaimed j \<and> (is_dispatchable j \<longleftrightarrow> \<not> held_back r)"
  using assms(1)
proof (cases rule: update_cases)
  case (written i' j')
  then have j: "j' = j" and i': "i' = r" using assms(2) by simp_all
  have phase: "wi_phase j = pl_target p" using written(3) assms(3,4) j i' by simp
  have keys: "dget (wi_metadata j) k = dget (wi_metadata r) k" if "k \<in> set DISPATCH_KEYS" for k
  proof -
    have "k \<notin> fst ` set (up_metadata (plan_update i p))" using plan_keys_free [OF assms(6)] that by simp
    with that show ?thesis
      using written(8) [of k] j i'
      by (auto simp: DISPATCH_KEYS_def DELEGATE_WORK_RESERVED_METADATA_KEYS_def dget_dupdate_other)
  qed
  have free: "unclaimed j \<and> (is_runnable (wi_phase j) \<or> is_orphaned j)"
  proof (cases "pl_target p = READY")
    case True
    with phase written(7) j assms(4) show ?thesis
      by (simp add: claims_after_def unclaimed_def is_runnable_def RUNNABLE_PHASES_def)
  next
    case False
    with assms(5) have run: "pl_target p = RUNNING" "wi_phase i = WAITING_FOR_CHILDREN" by auto
    then have wake: "clear_claim_on_wake i p" by (simp add: clear_claim_on_wake_def)
    have "up_claimed_seat (plan_update i p) = Some []" using wake by (simp add: plan_update_def no_update_def)
    with written(7) j phase run assms(4) wake wake_clears_claim [OF assms(6) wake] have "unclaimed j"
      by (simp add: claims_after_def unclaimed_def RUNNABLE_PHASES_def)
    with phase run show ?thesis
      by (simp add: unclaimed_def is_orphaned_def is_resumable_after_claim_release_def IN_PROGRESS_PHASES_def)
  qed
  with dispatchable_iff [of j] held_back_keys [OF keys] written(2,5) j i' assms(3) show ?thesis by simp
qed simp_all

text \<open>
  C17. A parent whose dependencies are settled is made dispatchable.  When the pass decides to
  release a card in WAITING_FOR_CHILDREN, or one in WAITING_DEPENDENCIES without rework
  feedback, the write goes through and the pass reports a change; the row that is written, and
  handed to the hooks, carries no claim any more, neither in its columns nor in its metadata,
  whatever claim it carried before, and the dispatcher's test accepts it unless the card was
  already queued behind a session, on hold or stopped by its attempt ledger.
\<close>

theorem released_parent_is_dispatchable:
  assumes "plan_frontier (fr_by_id f) items doomed stamp i = Inr (Some p)" "pl_clear_blocked p"
    and "wi_phase i = WAITING_FOR_CHILDREN \<or>
         wi_phase i = WAITING_DEPENDENCIES \<and> clean (dget (wi_metadata i) ''rework_feedback'') = []"
    and "get_item (fr_store f) (wi_work_item_id i) = Some r" "wi_phase r = wi_phase i"
    and "reserved_sound (wi_metadata r)"
  shows "\<exists>f' j. frontier_item hooks now stamp items doomed i f = (None, f') \<and> fr_changed f' \<and>
    fr_store f' = on_phase_transition False hooks (Some (wi_phase i)) (wi_phase j) j (put_item (fr_store f) j) \<and>
    wi_work_item_id j = wi_work_item_id i \<and> unclaimed j \<and> (is_dispatchable j \<longleftrightarrow> \<not> held_back r)"
proof -
  let ?u = "plan_update i p" and ?wid = "wi_work_item_id i"
  have t: "pl_target p \<in> {READY, RUNNING}" "wi_phase i = WAITING_DEPENDENCIES \<Longrightarrow> pl_target p = READY"
    using released_target [OF assms(1,2)] assms(3) by (auto simp: rework_or_ready_def)
  then have ne: "pl_target p \<noteq> wi_phase i" using assms(3) by auto
  have legal: "validate_transition (Some (wi_phase r)) (upd (up_phase ?u) (wi_phase r)) = Inr ()"
    using t assms(3,5) ne by (auto simp: validate_transition_Some transition_sets)
  note free = unreserved_plan [OF assms(1)]
  have keys: "fst ` set (up_metadata ?u) \<inter> set DELEGATE_WORK_RESERVED_METADATA_KEYS = {}"
    using plan_keys_free [OF free] by auto
  have unset: "up_unset ?u = []" by simp
  obtain j st' where ok: "update_delegation_work_item hooks (fr_store f) ?wid ?u now = (Inr (Some j), st')"
    using update_succeeds [OF assms(4,6) keys unset legal] by blast
  have wake: "st' = on_phase_transition False hooks (Some (wi_phase i)) (wi_phase j) j (put_item (fr_store f) j) \<and>
      wi_work_item_id j = ?wid \<and> unclaimed j \<and> (is_dispatchable j \<longleftrightarrow> \<not> held_back r)"
    using released_write [OF ok assms(4,5) ne _ free] t assms(3) by auto
  have "apply_frontier_update hooks (fr_store f) i ?u now = (Inr (Some j), st')"
    using ok ne assms(3) by (auto simp: apply_frontier_update_def)
  then have "frontier_item hooks now stamp items doomed i f =
      (None, f\<lparr>fr_store := st', fr_changed := True, fr_by_id := set_snapshot ?wid j (fr_by_id f)\<rparr>)"
    using assms(1) ne by (simp add: frontier_item_def absorb_def Let_def)
  then show ?thesis using wake by (intro exI [of _ j] exI) auto
qed

definition parent_frontier :: frontier where
  "parent_frontier =
     \<lparr>fr_store = empty_store\<lparr>st_items := approved_child_run WAITING_FOR_CHILDREN []\<rparr>,
      fr_by_id = child_by_id WAITING_FOR_CHILDREN [], fr_changed = False\<rparr>"

theorem released_parent_is_dispatchable_witness:
  "\<exists>f' j. frontier_item [] 0 ''t'' (st_items (fr_store parent_frontier)) {} (parent_card WAITING_FOR_CHILDREN [])
          parent_frontier = (None, f') \<and> get_item (fr_store f') ''p'' = Some j \<and> unclaimed j \<and> is_dispatchable j"
proof -
  let ?i = "parent_card WAITING_FOR_CHILDREN []"
  have "case plan_frontier (fr_by_id parent_frontier) (st_items (fr_store parent_frontier)) {} ''t'' ?i of
          Inr (Some p) \<Rightarrow> pl_clear_blocked p | _ \<Rightarrow> False"
    by code_simp
  then obtain p where p: "plan_frontier (fr_by_id parent_frontier) (st_items (fr_store parent_frontier)) {} ''t'' ?i
      = Inr (Some p)" "pl_clear_blocked p"
    by (auto split: sum.splits option.splits)
  have i: "wi_phase ?i = WAITING_FOR_CHILDREN" "wi_work_item_id ?i = ''p''"
    "get_item (fr_store parent_frontier) (wi_work_item_id ?i) = Some ?i" "reserved_sound (wi_metadata ?i)"
    by code_simp+
  have "\<not> held_back ?i" by code_simp
  then show ?thesis
    using released_parent_is_dispatchable [OF p _ i(3) refl i(4), of "[]" 0] i(1,2)
    by (auto simp: get_item_put_item)
qed

text \<open>
  C19. The cascade cancels what the triage left behind and nothing else.  The cards a finished
  triage card cancels are exactly the unfinished doomed cards of the run that it was stamped as
  stuck behind, or that hang on those by a chain of hard dependencies through doomed cards;
  they are cancelled in ascending order of their ids.
\<close>

theorem cascade_cancels_left_behind:
  assumes "cascade_covered by_id doomed stuck = Inr C"
    and "\<forall>e\<in>set by_id. \<exists>ds. cover_dependencies by_id doomed e = Inr ds" "distinct (map fst by_id)"
  shows "sorted (cascade_cancel_ids by_id doomed C) \<and> distinct (cascade_cancel_ids by_id doomed C) \<and>
         (d \<in> set (cascade_cancel_ids by_id doomed C) \<longleftrightarrow>
            behind by_id doomed stuck d \<and> d \<in> doomed \<and>
            (\<exists>w. map_of by_id d = Some w \<and> wi_phase w \<notin> DONE_PHASES))"
proof -
  have "(d \<in> set (map fst by_id) \<and> (case map_of by_id d of None \<Rightarrow> True | Some w \<Rightarrow> wi_phase w \<notin> DONE_PHASES)) \<longleftrightarrow>
        (\<exists>w. map_of by_id d = Some w \<and> wi_phase w \<notin> DONE_PHASES)"
    by (cases "map_of by_id d") (auto simp: map_of_eq_None_iff dest: map_of_SomeD intro: rev_image_eqI)
  then show ?thesis
    using cascade_covered_behind [OF assms(1,2)] assms(3)
    by (auto simp: cascade_cancel_ids_def distinct_filter)
qed

definition triage_run :: snapshot where
  "triage_run =
     [(''s'', (new_work_item ''s'')\<lparr>wi_phase := QUEUED\<rparr>),
      (''e'', (new_work_item ''e'')\<lparr>wi_phase := QUEUED,
                wi_metadata := [(''dependency_work_item_ids'', PList [PStr ''s''])]\<rparr>)]"

theorem cascade_cancels_left_behind_witness:
  "\<exists>C. cascade_covered triage_run {''s'', ''e''} [''s''] = Inr C \<and>
       ''e'' \<in> set (cascade_cancel_ids triage_run {''s'', ''e''} C)"
proof -
  have deps: "cover_dependencies triage_run {''s'', ''e''} (triage_run ! 0) = Inr []"
    "cover_dependencies triage_run {''s'', ''e''} (triage_run ! 1) = Inr [''s'']"
    by code_simp+
  then have ok: "\<forall>e\<in>set triage_run. \<exists>ds. cover_dependencies triage_run {''s'', ''e''} e = Inr ds"
    by (simp add: triage_run_def)
  then have "\<forall>e\<in>set triage_run. \<forall>x. cover_test triage_run {''s'', ''e''} e {} \<noteq> Inl x"
    by (force simp: cover_test_def bind_result_Inl_iff)
  from cover.loop_returns [OF this, of "{''s''}"] obtain C where
    C: "cascade_covered triage_run {''s'', ''e''} [''s''] = Inr C"
    by (auto simp: cascade_covered_def triage_run_def)
  have s: "behind triage_run {''s'', ''e''} [''s''] ''s''"
    by (rule behind.stuck) (simp_all add: triage_run_def)
  have "behind triage_run {''s'', ''e''} [''s''] ''e''"
    by (rule behind.hard [where i = "snd (triage_run ! 1)" and ds = "[''s'']", OF _ _ _ s])
       (use deps(2) in \<open>simp_all add: triage_run_def\<close>)
  moreover have "distinct (map fst triage_run)" "map_of triage_run ''e'' = Some (snd (triage_run ! 1))"
    "wi_phase (snd (triage_run ! 1)) \<notin> DONE_PHASES"
    by (simp_all add: triage_run_def DONE_PHASES_def)
  ultimately show ?thesis
    using cascade_cancels_left_behind [OF C ok, of "''e''"] C by blast
qed

text \<open>
  A triage release does not oscillate.  A card that was just released over settled failures
  carries the stamp of the release; in the next pass over the same dependencies it is again
  a release candidate, it keeps its phase, and its stamp takes it out of the doomed set.
\<close>

theorem triage_release_is_stable:
  assumes "p = triage_branch i (wi_metadata i) ids deps s u stamp" "pl_target p \<noteq> wi_phase i"
    and "i' = i\<lparr>wi_phase := pl_target p, wi_metadata := dupdate (wi_metadata i) (pl_metadata p)\<rparr>"
    and "distinct (map fst u)"
  shows "is_settlement_release_candidate i' (wi_metadata i') = Inr True \<and>
         pl_target (triage_branch i' (wi_metadata i') ids' deps' s' u' stamp') = wi_phase i' \<and>
         hard_dependencies by_id (x, i') = Inr []"
proof -
  have t: "pl_target p \<in> {READY, READY_FOR_REWORK, RUNNING}"
    using assms(1,2) by (auto simp: triage_branch_def Let_def rework_or_ready_def split: if_splits)
  have dist: "distinct (map fst (pl_metadata p))"
    using assms(1,4) by (auto simp: triage_branch_def Let_def intro!: distinct_dset distinct_dupdate)
  have "\<exists>d. dget (pl_metadata p) ''dependency_settlement'' = PDict d \<and> d \<noteq> [] \<and>
            dhas (pl_metadata p) ''dependency_settlement''"
    using assms(1,2) by (auto simp: triage_branch_def Let_def)
  then obtain d where "dget (wi_metadata i') ''dependency_settlement'' = PDict d" "d \<noteq> []"
    using dget_dupdate [OF dist, of "wi_metadata i" "''dependency_settlement''"] assms(3) by auto
  then have stamp: "dict_or_empty (dget (wi_metadata i') ''dependency_settlement'') = Inr d" "d \<noteq> []"
    by (simp_all add: dict_or_empty_def)
  have phase: "wi_phase i' \<in> {READY, READY_FOR_REWORK, RUNNING}" using t assms(3) by simp
  show ?thesis
    using stamp phase
    by (auto simp: is_settlement_release_candidate_def triage_branch_def hard_dependencies_def Let_def)
qed

theorem triage_release_is_stable_witness:
  "pl_target (triage_branch ((new_work_item ''p'')\<lparr>wi_phase := WAITING_FOR_CHILDREN\<rparr>) [] [''c'']
       [(''c'', Some FAILED)] \<lparr>sn_all_approved = False, sn_failed = [''c''], sn_cancelled = [], sn_stuck = [],
          sn_settled_with_failures = True\<rparr> [] ''t'') = RUNNING \<and>
   (\<exists>i'. wi_phase i' = RUNNING \<and> is_settlement_release_candidate i' (wi_metadata i') = Inr True)"
proof -
  let ?i = "(new_work_item ''p'')\<lparr>wi_phase := WAITING_FOR_CHILDREN\<rparr>"
  let ?s = "\<lparr>sn_all_approved = False, sn_failed = [''c''], sn_cancelled = [], sn_stuck = [],
          sn_settled_with_failures = True\<rparr>"
  let ?p = "triage_branch ?i (wi_metadata ?i) [''c''] [(''c'', Some FAILED)] ?s [] ''t''"
  have t: "pl_target ?p = RUNNING"
    by (simp add: triage_branch_def Let_def should_enter_synthesis_turn_def new_work_item_def)
  let ?j = "?i\<lparr>wi_phase := pl_target ?p, wi_metadata := dupdate (wi_metadata ?i) (pl_metadata ?p)\<rparr>"
  have "pl_target ?p \<noteq> wi_phase ?i" "distinct (map fst ([] :: pydict))" using t by simp_all
  from triage_release_is_stable [OF refl this(1) refl this(2)]
  have "is_settlement_release_candidate ?j (wi_metadata ?j) = Inr True" by blast
  moreover have "wi_phase ?j = RUNNING" using t by simp
  moreover have "wi_metadata ?i = []" by (simp add: new_work_item_def)
  ultimately show ?thesis using t by metis
qed

end
