(* ===== verification/Hooks.thy ===== *)
theory Hooks
  imports SerialQueue Frontier
begin

text \<open>
  The five hooks that \<open>opc/layer2_organization/phase_hooks.py\<close> registers, in their order, and the
  scan for stuck sessions.  A hook gets the written card by value: the enqueue hook also changes
  the metadata of the caller's object, which no later hook reads.  All dispatcher callbacks that
  one signal calls count as one wake.  The clock of the hooks is the argument \<open>now\<close>, its text the
  argument \<open>stamp\<close>.
\<close>

section \<open>Task status\<close>

definition sync_runtime_task_status_for_work_item_projection ::
  "store \<Rightarrow> work_item \<Rightarrow> task_status \<Rightarrow> bool \<times> store" where
  "sync_runtime_task_status_for_work_item_projection st item status =
     (let wid = py_strip (wi_work_item_id item)
      in case find (\<lambda>l. fst l = wid) (st_links st) of
           None \<Rightarrow> (False, st)
         | Some l \<Rightarrow>
             (case get_item st wid of
                None \<Rightarrow> (False, st)
              | Some current \<Rightarrow>
                  if wi_phase current = wi_phase item \<and> wi_updated_at current = wi_updated_at item \<and>
                     \<not> (case get_run st (wi_run_id current) of None \<Rightarrow> False | Some r \<Rightarrow> 0 < rn_generation r)
                  then (list_ex (\<lambda>t. tk_id t = snd l) (st_tasks st),
                        st\<lparr>st_tasks := map (\<lambda>t. if tk_id t = snd l then t\<lparr>tk_status := status\<rparr> else t)
                                        (st_tasks st)\<rparr>)
                  else (False, st)))"

definition sync_task_status_hook :: "store hook" where
  "sync_task_status_hook =
     \<lparr>hk_name = ''sync_task_status_hook'', hk_notification_only = False,
      hk_run = (\<lambda>previous target item st.
        (None, snd (sync_runtime_task_status_for_work_item_projection st item (task_status_for_phase target))))\<rparr>"

section \<open>Waking the dispatcher\<close>

definition DISPATCHER_WAKE_TARGETS :: "phase set" where
  "DISPATCHER_WAKE_TARGETS = RUNNABLE_PHASES \<union> DONE_PHASES"

definition signal_dispatcher_hook :: "store hook" where
  "signal_dispatcher_hook =
     \<lparr>hk_name = ''signal_dispatcher_hook'', hk_notification_only = True,
      hk_run = (\<lambda>previous target item st.
        (None, if previous = Some target \<or> (target \<notin> DISPATCHER_WAKE_TARGETS \<and> target \<noteq> RUNNING) then st
               else st\<lparr>st_wakes := st_wakes st + 1\<rparr>))\<rparr>"

section \<open>The focus of the sessions\<close>

definition hook_generation :: "pydict \<Rightarrow> int result" where
  "hook_generation md = py_int (py_or (dget md ''company_run_controller_lease_generation'') (PInt 0))"

definition unfocus_session :: "string \<Rightarrow> string \<Rightarrow> int \<Rightarrow> int \<Rightarrow> role_session \<Rightarrow> store \<Rightarrow> store" where
  "unfocus_session wid token generation now s st =
     (if rs_focused_work_item_id s \<noteq> wid then st
      else snd (update_delegation_role_session st (rs_role_session_id s) (Some [])
                  (if py_lower (py_strip (rs_status s)) = ''blocked'' then Some ''idle'' else None)
                  token generation now))"

definition affected_sessions :: "work_item \<Rightarrow> string \<Rightarrow> role_session list \<Rightarrow> string list" where
  "affected_sessions i wid sessions =
     filter (\<lambda>x. x \<noteq> [])
       (py_strip (wi_role_runtime_session_id i) #
        map (\<lambda>s. py_strip (rs_role_session_id s)) (filter (\<lambda>s. rs_focused_work_item_id s = wid) sessions))"

definition sessions_project :: "role_session list \<Rightarrow> string" where
  "sessions_project sessions =
     foldl (\<lambda>p s. if py_strip (rs_project_id s) \<noteq> [] then py_strip (rs_project_id s) else p) ''default'' sessions"

definition clear_session_focus_on_terminal_hook :: "int \<Rightarrow> store hook" where
  "clear_session_focus_on_terminal_hook now =
     \<lparr>hk_name = ''clear_session_focus_on_terminal_hook'', hk_notification_only = False,
      hk_run = (\<lambda>previous target i st.
        let wid = py_strip (wi_work_item_id i); rid = py_strip (wi_run_id i)
        in if previous = Some target \<or> target \<notin> DONE_PHASES \<or> wid = [] \<or> rid = [] then (None, st)
           else case hook_generation (wi_metadata i) of
             Inl e \<Rightarrow> (Some e, st)
           | Inr generation \<Rightarrow>
               (let sessions = list_role_runtime_sessions st rid;
                    token = clean (dget (wi_metadata i) ''company_run_controller_owner_token'');
                    affected = affected_sessions i wid sessions;
                    st1 = fold (unfocus_session wid token generation now) sessions st
                in (None,
                    if st_queue_enabled st \<and> affected \<noteq> []
                    then qp_store (reconcile_role_serial_queues st1 rid affected (sessions_project sessions)
                                     token generation now)
                    else st1)))\<rparr>"

section \<open>Queueing behind a busy session\<close>

definition STUCK_QUEUE_DEPTH_THRESHOLD :: nat where
  "STUCK_QUEUE_DEPTH_THRESHOLD = 5"

definition note_queue_depth :: "string \<Rightarrow> store \<Rightarrow> store" where
  "note_queue_depth sid st =
     (case get_delegation_role_session st sid of
        None \<Rightarrow> st
      | Some s \<Rightarrow>
          if length (rs_pending_work_item_ids s) = STUCK_QUEUE_DEPTH_THRESHOLD
          then st\<lparr>st_events := st_events st @ [(sid, ''stuck_session_queue_depth'')]\<rparr> else st)"

definition enqueue_behind ::
  "int \<Rightarrow> work_item \<Rightarrow> string \<Rightarrow> string \<Rightarrow> role_session \<Rightarrow> store \<Rightarrow> store" where
  "enqueue_behind now i wid sid s st =
     (let md = wi_metadata i; token = clean (dget md ''company_run_controller_owner_token'')
      in case hook_generation md of
           Inl e \<Rightarrow> st
         | Inr generation \<Rightarrow>
             (case enqueue_pending_work_item st sid wid token generation now of
                (Inr True, st1) \<Rightarrow>
                  if dget md ''queued_behind_session'' = PStr sid then st1
                  else (case update_work_item_serial_queue_marker_for_controller st1 wid
                               (py_strip (wi_run_id i))
                               (if rs_project_id s = [] then ''default'' else rs_project_id s) (Some sid)
                               (Some (clean (dget md ''queued_behind_session''))) token generation now of
                          (Inr True, st2) \<Rightarrow> note_queue_depth sid st2
                        | (_, st2) \<Rightarrow> st2)
              | (_, st1) \<Rightarrow> st1))"

definition enqueue_session_work_on_runnable_hook :: "int \<Rightarrow> store hook" where
  "enqueue_session_work_on_runnable_hook now =
     \<lparr>hk_name = ''enqueue_session_work_on_runnable_hook'', hk_notification_only = False,
      hk_run = (\<lambda>previous target i st.
        (None,
         let wid = py_strip (wi_work_item_id i); sid = py_strip (wi_role_runtime_session_id i)
         in if previous = Some target \<or> \<not> st_queue_enabled st \<or> target \<notin> RUNNABLE_PHASES \<or>
               wid = [] \<or> sid = [] then st
            else case get_delegation_role_session st sid of
              None \<Rightarrow> st
            | Some s \<Rightarrow>
                let focused = py_strip (rs_focused_work_item_id s)
                in if focused = [] \<or> focused = wid then st else enqueue_behind now i wid sid s st))\<rparr>"

section \<open>Refreshing the dependents\<close>

text \<open>
  While a run is being refreshed, the refresh of the same run inside its own writes is skipped;
  a refresh writes only cards of its run, so the hooks that run inside it refresh nothing.
\<close>

definition skipped_refresh_hook :: "store hook" where
  "skipped_refresh_hook =
     \<lparr>hk_name = ''refresh_dependents_hook'', hk_notification_only = False,
      hk_run = (\<lambda>previous target i st. (None, st))\<rparr>"

definition hooks_during_refresh :: "int \<Rightarrow> store hook list" where
  "hooks_during_refresh now =
     [sync_task_status_hook, signal_dispatcher_hook, skipped_refresh_hook,
      clear_session_focus_on_terminal_hook now, enqueue_session_work_on_runnable_hook now]"

definition DEPENDENT_REFRESH_TARGETS :: "phase set" where
  "DEPENDENT_REFRESH_TARGETS = DONE_PHASES \<union> {AWAITING_HUMAN, READY_FOR_REWORK}"

definition refresh_dependents_hook :: "int \<Rightarrow> string \<Rightarrow> store hook" where
  "refresh_dependents_hook now stamp =
     \<lparr>hk_name = ''refresh_dependents_hook'', hk_notification_only = False,
      hk_run = (\<lambda>previous target i st.
        (None,
         if previous = Some target \<or> target \<notin> DEPENDENT_REFRESH_TARGETS \<or> py_strip (wi_run_id i) = [] then st
         else snd (refresh_dependents_for_run (hooks_during_refresh now) {} st (py_strip (wi_run_id i)) now stamp)))\<rparr>"

text \<open>The registration at the end of the module.\<close>

definition phase_hooks :: "int \<Rightarrow> string \<Rightarrow> store hook list" where
  "phase_hooks now stamp =
     fold register_phase_transition_hook
       [sync_task_status_hook, signal_dispatcher_hook, refresh_dependents_hook now stamp,
        clear_session_focus_on_terminal_hook now, enqueue_session_work_on_runnable_hook now] []"

lemma phase_hooks_list:
  "phase_hooks now stamp =
     [sync_task_status_hook, signal_dispatcher_hook, refresh_dependents_hook now stamp,
      clear_session_focus_on_terminal_hook now, enqueue_session_work_on_runnable_hook now]"
  by (simp add: phase_hooks_def register_phase_transition_hook_def sync_task_status_hook_def
      signal_dispatcher_hook_def refresh_dependents_hook_def clear_session_focus_on_terminal_hook_def
      enqueue_session_work_on_runnable_hook_def)

section \<open>Stuck sessions\<close>

definition STUCK_FOCUS_MINUTES :: int where
  "STUCK_FOCUS_MINUTES = 10"

record stuck_focus =
  sf_role_session_id :: string
  sf_focused_work_item_id :: string
  sf_focused_for_minutes :: int
  sf_threshold_minutes :: int
  sf_queue_depth :: nat

definition stuck_payload :: "int \<Rightarrow> int \<Rightarrow> role_session \<Rightarrow> stuck_focus option" where
  \<comment> \<open>times in microseconds\<close>
  "stuck_payload now threshold s =
     (let focused = py_strip (rs_focused_work_item_id s); age = now - rs_updated_at s
      in if focused = [] \<or> age < max 0 threshold * 60000000 then None
         else Some \<lparr>sf_role_session_id = rs_role_session_id s, sf_focused_work_item_id = focused,
                    sf_focused_for_minutes = age div 60000000, sf_threshold_minutes = threshold,
                    sf_queue_depth = length (rs_pending_work_item_ids s)\<rparr>)"

text \<open>All runs are scanned in table order here; the code scans the latest updated run first.\<close>

definition check_stuck_focused_sessions ::
  "store \<Rightarrow> string option \<Rightarrow> int \<Rightarrow> int \<Rightarrow> stuck_focus list \<times> store" where
  "check_stuck_focused_sessions st run_id threshold now =
     (let every_run = concat (map (\<lambda>r. list_role_runtime_sessions st (rn_run_id r)) (st_runs st));
          sessions = (case run_id of
                        None \<Rightarrow> every_run
                      | Some r \<Rightarrow> if r = [] then every_run else list_role_runtime_sessions st r);
          found = List.map_filter (stuck_payload now threshold) sessions
      in (found,
          st\<lparr>st_events := st_events st @ map (\<lambda>f. (sf_role_session_id f, ''stuck_session_focused'')) found\<rparr>))"

section \<open>The interface of the chokepoint\<close>

text \<open>
  What a caller of the work-item writes may assume about an invariant: it survives every write
  followed by its hooks, and the recording of events.  Then it survives every operation that
  writes through the chokepoint, the whole dependency refresh included.
\<close>

text \<open>A loop that stops at the first error keeps what every step keeps.\<close>

lemma until_error_keep:
  "P s \<Longrightarrow> (\<And>x s. P s \<Longrightarrow> P (snd (f x s))) \<Longrightarrow> P (snd (until_error f xs s))"
proof (induction xs arbitrary: s)
  case (Cons x xs)
  obtain e s' where fx: "f x s = (e, s')" by fastforce
  then have "P s'" using Cons.prems(2) [OF Cons.prems(1), of x] by simp
  with Cons fx show ?case by (auto split: option.split)
qed simp

lemma reopen_cases:
  assumes "reopen_approved_delegation_work_item_for_rework hooks st wid target u release now = (r, st')"
  shows "st' = st \<or> (\<exists>c. st' = on_phase_transition False hooks (Some APPROVED) (wi_phase c) c (put_item st c))"
proof (cases "get_item st wid")
  case (Some i)
  define a where "a = i\<lparr>wi_phase := target,
      wi_summary := upd (map_option py_strip (up_summary u)) (wi_summary i),
      wi_deliverable_summary := upd (map_option py_strip (up_deliverable_summary u)) (wi_deliverable_summary i),
      wi_blocked_reason := upd (map_option py_strip (up_blocked_reason u)) (wi_blocked_reason i),
      wi_claimed_by_role_runtime_session_id := (if release then [] else wi_claimed_by_role_runtime_session_id i),
      wi_claimed_by_seat_id := (if release then [] else wi_claimed_by_seat_id i),
      wi_metadata := dupdate (fold dpop (up_unset u) (wi_metadata i)) (up_metadata u)\<rparr>"
  have "wi_phase a = target" by (simp add: a_def)
  then have ph: "protect_delegate_work_identity (with_projection_identity a) (Some i) = Inr b \<Longrightarrow>
      wi_phase b = target" for b
    using protect_fields [of "with_projection_identity a" "Some i" b] by simp
  show ?thesis
  proof (cases "protect_delegate_work_identity (with_projection_identity a) (Some i)")
    case (Inl e)
    with assms Some show ?thesis
      by (auto simp: reopen_approved_delegation_work_item_for_rework_def a_def Let_def split: if_splits)
  next
    case (Inr b)
    with assms Some have "st' = st \<or> st' = on_phase_transition False hooks (Some APPROVED) target
        (b\<lparr>wi_updated_at := now\<rparr>) (put_item st (b\<lparr>wi_updated_at := now\<rparr>))"
      by (auto simp: reopen_approved_delegation_work_item_for_rework_def a_def Let_def split: if_splits)
    moreover have "target = wi_phase (b\<lparr>wi_updated_at := now\<rparr>)" using ph [OF Inr] by simp
    ultimately show ?thesis by metis
  qed
qed (use assms in \<open>simp add: reopen_approved_delegation_work_item_for_rework_def\<close>)

locale kept_by_writes =
  fixes kept :: "store \<Rightarrow> bool"
    and hooks :: "store hook list"
  assumes write_kept: "kept st \<Longrightarrow> kept (on_phase_transition False hooks previous (wi_phase j) j (put_item st j))"
    and event_kept: "kept st \<Longrightarrow> kept (st\<lparr>st_events := es\<rparr>)"
begin

lemma save_kept: "kept st \<Longrightarrow> kept (snd (save_delegation_work_item hooks st i))"
proof (cases "write_row st i False")
  case (Inr w)
  assume k: "kept st"
  show ?thesis
  proof (cases w)
    case (Some t)
    obtain st' previous j where t: "t = (st', previous, j)" by (metis prod_cases3)
    with Inr Some write_row_cases [of st i False st' previous j] have "st' = put_item st j" by simp
    with k write_kept t Inr Some show ?thesis by (simp add: save_delegation_work_item_def)
  qed (use k Inr in \<open>simp add: save_delegation_work_item_def\<close>)
qed (simp add: save_delegation_work_item_def)

lemma insert_kept: "kept st \<Longrightarrow> kept (snd (insert_delegation_work_item_if_absent hooks st i))"
proof (cases "write_row st i True")
  case (Inr w)
  assume k: "kept st"
  show ?thesis
  proof (cases w)
    case (Some t)
    obtain st' previous j where t: "t = (st', previous, j)" by (metis prod_cases3)
    with Inr Some write_row_cases [of st i True st' previous j] have "st' = put_item st j" by simp
    with k write_kept t Inr Some show ?thesis by (simp add: insert_delegation_work_item_if_absent_def)
  qed (use k Inr in \<open>simp add: insert_delegation_work_item_if_absent_def\<close>)
qed (simp add: insert_delegation_work_item_if_absent_def)

lemma update_kept: "kept st \<Longrightarrow> kept (snd (update_delegation_work_item hooks st wid u now))"
proof -
  assume k: "kept st"
  obtain r st' where e: "update_delegation_work_item hooks st wid u now = (r, st')" by fastforce
  from e have "kept st'"
  proof (cases rule: update_cases)
    case (written i j)
    show ?thesis unfolding written(5) by (rule write_kept [OF k])
  qed (simp_all add: k)
  with e show ?thesis by simp
qed

lemma update_kept_pair: "kept st \<Longrightarrow> update_delegation_work_item hooks st wid u now = (r, st') \<Longrightarrow> kept st'"
  using update_kept [of st wid u now] by simp

lemma transition_kept: "kept st \<Longrightarrow> kept (snd (transition_work_item hooks st wid target rq now stamp))"
  by (auto simp: transition_work_item_def Let_def split: sum.split prod.split pyerr.split
      intro: update_kept dest: update_kept_pair)

lemma transition_kept_pair:
  "kept st \<Longrightarrow> transition_work_item hooks st wid target rq now stamp = (r, st') \<Longrightarrow> kept st'"
  using transition_kept [of st wid target rq now stamp] by simp

lemma reopen_kept:
  assumes "kept st"
  shows "kept (snd (reopen_approved_delegation_work_item_for_rework hooks st wid target u release now))"
proof -
  obtain r st' where e: "reopen_approved_delegation_work_item_for_rework hooks st wid target u release now = (r, st')"
    by fastforce
  from reopen_cases [OF e] assms write_kept have "kept st'" by metis
  with e show ?thesis by simp
qed

lemma apply_frontier_kept:
  "kept st \<Longrightarrow> kept (snd (apply_frontier_update hooks st i u now))"
  using update_kept reopen_kept by (auto simp: apply_frontier_update_def split: option.split)

lemma absorb_kept: "kept (snd r) \<Longrightarrow> kept (fr_store (snd (absorb f wid r)))"
  by (auto simp: absorb_def split: prod.splits sum.splits option.splits)

lemma frontier_item_kept:
  "kept (fr_store f) \<Longrightarrow> kept (fr_store (snd (frontier_item hooks now stamp items doomed i f)))"
  using apply_frontier_kept absorb_kept
  by (auto simp: frontier_item_def Let_def split: sum.splits option.splits)

lemma cascade_cancel_kept:
  "kept (fr_store (snd acc)) \<Longrightarrow> kept (fr_store (snd (snd (cascade_cancel hooks now stamp wid acc))))"
  by (auto simp: cascade_cancel_def Let_def split: prod.splits sum.splits dest: transition_kept_pair)

lemma cascade_item_kept:
  assumes "kept (fr_store f)"
  shows "kept (fr_store (snd (cascade_item hooks now stamp doomed i f)))"
proof -
  have loop: "kept (fr_store (snd (snd (until_error (cascade_cancel hooks now stamp) ids (True, f)))))" for ids
    by (rule until_error_keep [where P = "\<lambda>acc. kept (fr_store (snd acc))"])
      (use assms cascade_cancel_kept in auto)
  have loop': "kept (fr_store g)"
    if "until_error (cascade_cancel hooks now stamp) ids (True, f) = (e, complete, g)" for ids e complete g
    using loop [of ids] that by simp
  show ?thesis
    using assms loop' update_kept
    by (auto simp: cascade_item_def Let_def split: sum.splits prod.splits option.splits intro!: absorb_kept)
qed

lemma refresh_kept:
  assumes "kept st"
  shows "kept (snd (refresh_dependents_for_run hooks in_flight st run_id now stamp))"
proof (cases "run_id = [] \<or> run_id \<in> in_flight")
  case True
  with assms show ?thesis by (simp add: refresh_dependents_for_run_def)
next
  case False
  let ?items = "list_delegation_work_items st run_id"
  define by_id where "by_id = foldl (\<lambda>d i. set_snapshot (wi_work_item_id i) i d) [] ?items"
  show ?thesis
  proof (cases "compute_doomed_work_item_ids by_id")
    case (Inl e)
    with assms False show ?thesis by (simp add: refresh_dependents_for_run_def Let_def by_id_def)
  next
    case (Inr doomed)
    obtain e1 f where f: "until_error (frontier_item hooks now stamp ?items doomed) ?items
        \<lparr>fr_store = st, fr_by_id = by_id, fr_changed = False\<rparr> = (e1, f)" by fastforce
    have "kept (fr_store (snd (until_error (frontier_item hooks now stamp ?items doomed) ?items
        \<lparr>fr_store = st, fr_by_id = by_id, fr_changed = False\<rparr>)))"
      by (rule until_error_keep [where P = "\<lambda>f. kept (fr_store f)"]) (use assms frontier_item_kept in auto)
    with f have kf: "kept (fr_store f)" by simp
    obtain e2 g where g: "until_error (cascade_item hooks now stamp doomed) ?items f = (e2, g)" by fastforce
    have "kept (fr_store (snd (until_error (cascade_item hooks now stamp doomed) ?items f)))"
      by (rule until_error_keep [where P = "\<lambda>f. kept (fr_store f)"]) (use kf cascade_item_kept in auto)
    with g have kg: "kept (fr_store g)" by simp
    show ?thesis
      using False Inr f g kf kg event_kept [OF kg]
      by (auto simp: refresh_dependents_for_run_def Let_def by_id_def split: option.split)
  qed
qed

end

section \<open>Tasks follow their cards\<close>

definition unfenced :: "store \<Rightarrow> string \<Rightarrow> bool" where
  "unfenced st rid \<longleftrightarrow> (case get_run st rid of None \<Rightarrow> True | Some r \<Rightarrow> rn_generation r \<le> 0)"

definition links_ok :: "store \<Rightarrow> bool" where
  "links_ok st \<longleftrightarrow> distinct (map fst (st_links st)) \<and> distinct (map snd (st_links st)) \<and>
     list_all (\<lambda>l. py_strip (fst l) = fst l) (st_links st)"

definition link_follows :: "store \<Rightarrow> string \<times> string \<Rightarrow> bool" where
  "link_follows st l \<longleftrightarrow>
     (case get_item st (fst l) of
        None \<Rightarrow> True
      | Some i \<Rightarrow> unfenced st (wi_run_id i) \<longrightarrow>
          list_all (\<lambda>t. tk_id t = snd l \<longrightarrow> tk_status t = task_status_for_phase (wi_phase i)) (st_tasks st))"

definition tasks_follow :: "store \<Rightarrow> bool" where
  "tasks_follow st \<longleftrightarrow> links_ok st \<and> list_all (link_follows st) (st_links st)"

lemma sync_restores:
  assumes links: "links_ok st" and mine: "get_item st (wi_work_item_id item) = Some item"
    and others: "\<And>l. l \<in> set (st_links st) \<Longrightarrow> fst l \<noteq> wi_work_item_id item \<Longrightarrow> link_follows st l"
  shows "tasks_follow (snd (sync_runtime_task_status_for_work_item_projection st item
           (task_status_for_phase (wi_phase item))))"
proof -
  let ?wid = "py_strip (wi_work_item_id item)" and ?s = "task_status_for_phase (wi_phase item)"
  define st' where "st' = snd (sync_runtime_task_status_for_work_item_projection st item ?s)"
  have same: "st_links st' = st_links st" "get_item st' x = get_item st x" "unfenced st' r = unfenced st r" for x r
    by (auto simp: st'_def sync_runtime_task_status_for_work_item_projection_def Let_def get_item_def
        unfenced_def get_run_def split: option.splits if_splits)
  have "link_follows st' k" if k: "k \<in> set (st_links st)" for k
  proof (cases "find (\<lambda>l. fst l = ?wid) (st_links st)")
    case None
    then have st': "st' = st" by (simp add: st'_def sync_runtime_task_status_for_work_item_projection_def)
    have "fst k \<noteq> ?wid" "py_strip (fst k) = fst k"
      using None k links by (cases k; auto simp: find_None_iff links_ok_def list_all_iff)+
    with others [OF k] st' show ?thesis by metis
  next
    case (Some l)
    then have l: "l \<in> set (st_links st)" "fst l = ?wid" by (auto simp: find_Some_iff)
    have only: "k = l" if "fst k = fst l \<or> snd k = snd l"
      using that k l links by (auto simp: links_ok_def distinct_map inj_on_def)
    have strip: "py_strip (fst k) = fst k" using k links by (auto simp: links_ok_def list_all_iff)
    show ?thesis
    proof (cases "st' = st")
      case True
      show ?thesis
      proof (cases "fst k = wi_work_item_id item")
        case False
        with others [OF k] True show ?thesis by simp
      next
        case eq: True
        show ?thesis
        proof (cases "unfenced st (wi_run_id item)")
          case open_run: True
          have w: "?wid = wi_work_item_id item" using eq strip by simp
          with Some mine open_run have
            "st' = st\<lparr>st_tasks := map (\<lambda>t. if tk_id t = snd l then t\<lparr>tk_status := ?s\<rparr> else t) (st_tasks st)\<rparr>"
            by (auto simp: st'_def sync_runtime_task_status_for_work_item_projection_def unfenced_def
                split: option.splits)
          then have "st_tasks st' = map (\<lambda>t. if tk_id t = snd l then t\<lparr>tk_status := ?s\<rparr> else t) (st_tasks st)"
            by simp
          then have "st_tasks st = map (\<lambda>t. if tk_id t = snd l then t\<lparr>tk_status := ?s\<rparr> else t) (st_tasks st)"
            by (simp only: True)
          then have t: "t \<in> (\<lambda>t. if tk_id t = snd l then t\<lparr>tk_status := ?s\<rparr> else t) ` set (st_tasks st)"
            if "t \<in> set (st_tasks st)" for t
            using that by (metis list.set_map)
          have "snd k = snd l" using only eq w l by simp
          moreover have "tk_status t = ?s" if "t \<in> set (st_tasks st)" "tk_id t = snd l" for t
            using t [OF that(1)] that(2) by (auto split: if_splits)
          ultimately show ?thesis using mine eq True by (simp add: link_follows_def list_all_iff)
        qed (use mine eq True in \<open>simp add: link_follows_def\<close>)
      qed
    next
      case False
      then obtain current where c: "get_item st ?wid = Some current" "wi_phase current = wi_phase item"
        "st' = st\<lparr>st_tasks := map (\<lambda>t. if tk_id t = snd l then t\<lparr>tk_status := ?s\<rparr> else t) (st_tasks st)\<rparr>"
        using Some
        by (auto simp: st'_def sync_runtime_task_status_for_work_item_projection_def split: option.splits if_splits)
      show ?thesis
      proof (cases "k = l")
        case True
        with c l same show ?thesis by (auto simp: link_follows_def list_all_iff)
      next
        case other: False
        then have "snd k \<noteq> snd l" "fst k \<noteq> ?wid" using only l by auto
        then have "link_follows st k" using others [OF k] strip by metis
        with \<open>snd k \<noteq> snd l\<close> c(3) same show ?thesis
          by (auto simp: link_follows_def list_all_iff split: option.splits)
      qed
    qed
  qed
  then show ?thesis
    using links same by (simp add: tasks_follow_def links_ok_def list_all_iff st'_def [symmetric])
qed


text \<open>A step that keeps tasks, links, runs, and the run and phase of every card.\<close>

definition same_board :: "store \<Rightarrow> store \<Rightarrow> bool" where
  "same_board st st' \<longleftrightarrow>
     st_tasks st' = st_tasks st \<and> st_links st' = st_links st \<and> st_runs st' = st_runs st \<and>
     (\<forall>wid. map_option (\<lambda>i. (wi_run_id i, wi_phase i)) (get_item st' wid)
          = map_option (\<lambda>i. (wi_run_id i, wi_phase i)) (get_item st wid))"

lemma same_board_refl [simp]: "same_board st st"
  by (simp add: same_board_def)

lemma same_board_trans: "same_board a b \<Longrightarrow> same_board b c \<Longrightarrow> same_board a c"
  by (simp add: same_board_def)

lemma same_board_follow:
  assumes "same_board st st'" "tasks_follow st"
  shows "tasks_follow st'"
proof -
  have "link_follows st' = link_follows st"
  proof
    fix l :: "string \<times> string"
    have "map_option (\<lambda>i. (wi_run_id i, wi_phase i)) (get_item st' (fst l))
        = map_option (\<lambda>i. (wi_run_id i, wi_phase i)) (get_item st (fst l))"
      using assms(1) by (simp add: same_board_def)
    then show "link_follows st' l = link_follows st l"
      using assms(1)
      by (cases "get_item st (fst l)"; cases "get_item st' (fst l)")
        (auto simp: link_follows_def same_board_def unfenced_def get_run_def)
  qed
  with assms show ?thesis by (simp add: tasks_follow_def links_ok_def same_board_def)
qed

lemma same_board_put:
  "get_item st (wi_work_item_id i) = Some old \<Longrightarrow> wi_run_id i = wi_run_id old \<Longrightarrow> wi_phase i = wi_phase old \<Longrightarrow>
     same_board st (put_item st i)"
  by (simp add: same_board_def)

lemma same_board_columns:
  "get_item st wid = Some i \<Longrightarrow> same_board st (put_item st (i\<lparr>wi_metadata := md, wi_updated_at := t\<rparr>))"
  by (rule same_board_put [where old = i]) (auto dest: get_item_id)

lemma same_board_fields [simp]:
  "same_board st (put_session st s)" "same_board st (st\<lparr>st_events := es\<rparr>)"
  "same_board st (st\<lparr>st_wakes := n\<rparr>)" "same_board st (st\<lparr>st_events := es, st_wakes := n\<rparr>)"
  by (simp_all add: same_board_def put_session_def get_item_def)

lemma same_board_save: "same_board st (snd (save_role_runtime_session st s token g now))"
  by (auto simp: save_role_runtime_session_def Let_def split: option.split sum.split)

lemma same_board_update_session:
  "same_board st (snd (update_delegation_role_session st sid focus status token g now))"
  using update_session_cases [of st sid focus status token g now] same_board_save by (metis same_board_refl)

lemma same_board_enqueue: "same_board st (snd (enqueue_pending_work_item st sid wid token g now))"
  by (auto simp: enqueue_pending_work_item_def Let_def split: option.split sum.split)

lemma same_board_marker:
  "same_board st (snd (update_work_item_serial_queue_marker_for_controller st wid rid proj m e token g now))"
  by (auto simp: update_work_item_serial_queue_marker_for_controller_def Let_def
      split: option.split sum.split intro!: same_board_columns)

lemma same_board_clear: "same_board (qp_store p) (qp_store (clear_in_pass c sid i p))"
proof -
  obtain b j st where e: "clear_queued_marker c (Some sid) i (qp_store p) = (b, j, st)" by (metis prod_cases3)
  have "same_board (qp_store p) st"
  proof (cases "queued_behind_session i = [] \<or> queued_behind_session i \<noteq> py_strip sid")
    case True
    with e show ?thesis by (auto simp: clear_queued_marker_def)
  next
    case False
    have "st = snd (update_work_item_serial_queue_marker_for_controller (qp_store p) (py_strip (wi_work_item_id i))
        (py_strip (wi_run_id i)) (clean_project_id (qc_project c)) None (Some (queued_behind_session i))
        (py_strip (qc_token c)) (qc_generation c) (qc_now c))"
      using e False by (auto simp: clear_queued_marker_def Let_def split: prod.splits sum.splits bool.splits)
    then show ?thesis using same_board_marker by simp
  qed
  with e show ?thesis by (cases b) (auto simp: clear_in_pass_def)
qed

lemma same_board_prune:
  "prune_pending c sid seen ws p = (kept, q) \<Longrightarrow> same_board (qp_store p) (qp_store q)"
proof (induction c sid seen ws p arbitrary: kept q rule: prune_pending.induct)
  case (2 c sid seen w ws p)
  show ?case
  proof (cases "w \<in> set seen")
    case True
    with 2(1,5) show ?thesis by (simp add: note_pruned_def)
  next
    case False
    show ?thesis
    proof (cases "item_by_id (qp_items p) w")
      case None
      with False 2(2,5) show ?thesis by (simp add: note_pruned_def)
    next
      case (Some i)
      show ?thesis
      proof (cases "queue_candidate i")
        case True
        with False Some 2(4,5) show ?thesis by (auto split: prod.splits)
      next
        case not: False
        have "prune_pending c sid (w # seen) ws (clear_in_pass c sid i (note_pruned w p)) = (kept, q)"
          using 2(5) False Some not by simp
        from 2(3) [OF False Some not this] same_board_clear [of "note_pruned w p" c sid i] show ?thesis
          by (auto simp: note_pruned_def intro: same_board_trans)
      qed
    qed
  qed
qed simp


lemma same_board_settle_pending:
  assumes "settle_pending c sid active ws p = (rest, blocker, q)"
  shows "same_board (qp_store p) (qp_store q)"
proof -
  obtain kept r where pr: "prune_pending c sid [] ws p = (kept, r)" by fastforce
  have promoted: "same_board (qp_store r) (qp_store (promote c sid w r))" for w
    using same_board_clear [of r c sid] by (auto simp: promote_def Let_def split: option.split)
  from assms pr have "q = r \<or> (\<exists>w. q = promote c sid w r)"
    by (auto simp: settle_pending_def split: if_splits list.splits)
  with same_board_prune [OF pr] promoted same_board_trans show ?thesis by metis
qed

lemma same_board_reconcile_session: "same_board (qp_store p) (qp_store (reconcile_session c s p))"
proof -
  let ?sid = "py_strip (rs_role_session_id s)" and ?active = "active_focus_id s (qp_items p)"
    and ?ws = "filter (\<lambda>w. w \<noteq> []) (map py_strip (rs_pending_work_item_ids s))"
  obtain rest blocker q where sp: "settle_pending c ?sid ?active ?ws (note_unfocused s ?active p) = (rest, blocker, q)"
    by (metis prod_cases3)
  obtain t changed where row: "settle_row s ?active ?ws rest blocker = (t, changed)" by fastforce
  have "same_board (qp_store q) (qp_store (save_in_pass c t q))"
    using same_board_save by (simp add: save_in_pass_def)
  with same_board_settle_pending [OF sp] show ?thesis
    using sp row by (auto simp: reconcile_session_def Let_def intro: same_board_trans)
qed

lemma same_board_fold:
  "(\<And>x p. same_board (f p) (f (g x p))) \<Longrightarrow> same_board (f p) (f (fold g xs p))"
  by (induction xs arbitrary: p) (auto intro: same_board_trans)

lemma same_board_reconcile:
  "same_board st (qp_store (reconcile_role_serial_queues st rid ids proj token g now))"
proof -
  have marker: "same_board (qp_store p) (qp_store (reconcile_marker c wanted all_ids i p))" for c wanted all_ids i p
    using same_board_clear by (auto simp: reconcile_marker_def Let_def)
  have publish: "same_board (qp_store p) (qp_store (publish_pass r p))" for r p
    by (simp add: publish_pass_def)
  have "same_board st (qp_store (publish_pass r (fold (reconcile_marker c wanted all_ids) is
      (fold (reconcile_session c) ss (start_pass st items)))))" for r c wanted all_ids "is" ss items
  proof -
    have "same_board st (qp_store (fold (reconcile_session c) ss (start_pass st items)))"
      using same_board_fold [where f = qp_store and p = "start_pass st items", OF same_board_reconcile_session]
      by (simp add: start_pass_def)
    with same_board_fold [where f = qp_store and g = "reconcile_marker c wanted all_ids", OF marker]
      publish same_board_trans show ?thesis by blast
  qed
  then show ?thesis by (simp add: reconcile_role_serial_queues_def Let_def start_pass_def)
qed

lemma signal_same_board: "same_board st (snd (hk_run signal_dispatcher_hook previous target i st))"
  by (simp add: signal_dispatcher_hook_def)

lemma clear_focus_same_board:
  "same_board st (snd (hk_run (clear_session_focus_on_terminal_hook now) previous target i st))"
proof -
  have "same_board st (unfocus_session wid token g now s st)" for wid token g s st
    using same_board_update_session by (simp add: unfocus_session_def)
  from same_board_fold [where f = "\<lambda>st. st", OF this]
  have "same_board st (fold (unfocus_session wid token g now) ss st)" for wid token g ss .
  then show ?thesis
    using same_board_reconcile same_board_trans
    by (auto simp: clear_session_focus_on_terminal_hook_def Let_def split: sum.split) blast+
qed

lemma enqueue_same_board:
  "same_board st (snd (hk_run (enqueue_session_work_on_runnable_hook now) previous target i st))"
proof -
  have depth: "same_board st (note_queue_depth sid st)" for sid st
    by (simp add: note_queue_depth_def split: option.split)
  have "same_board st (enqueue_behind now i wid sid s st)" for wid sid s
  proof (cases "hook_generation (wi_metadata i)")
    case (Inr g)
    let ?token = "clean (dget (wi_metadata i) ''company_run_controller_owner_token'')"
    obtain r st1 where e: "enqueue_pending_work_item st sid wid ?token g now = (r, st1)" by fastforce
    let ?proj = "if rs_project_id s = [] then ''default'' else rs_project_id s"
    obtain r2 st2 where m: "update_work_item_serial_queue_marker_for_controller st1 wid (py_strip (wi_run_id i))
        ?proj (Some sid) (Some (clean (dget (wi_metadata i) ''queued_behind_session''))) ?token g now = (r2, st2)"
      by fastforce
    have "same_board st st1" using same_board_enqueue [of st sid wid ?token g now] e by simp
    moreover have "same_board st1 st2"
      using same_board_marker [of st1 wid "py_strip (wi_run_id i)" ?proj "Some sid"
          "Some (clean (dget (wi_metadata i) ''queued_behind_session''))" ?token g now] m by simp
    ultimately have "same_board st st1" "same_board st st2" "same_board st (note_queue_depth sid st2)"
      using same_board_trans depth by blast+
    then show ?thesis using Inr e m
      by (cases "rs_project_id s = []") (auto simp: enqueue_behind_def Let_def split: sum.splits bool.splits)
  qed (simp add: enqueue_behind_def)
  then show ?thesis by (auto simp: enqueue_session_work_on_runnable_hook_def Let_def split: option.split)
qed


text \<open>The hooks provide the interface: first those that run inside a refresh, then all of them.\<close>

lemma sync_first_keeps:
  assumes "tasks_follow st"
    and rest: "\<And>previous s. tasks_follow s \<Longrightarrow>
      tasks_follow (on_phase_transition False hooks previous (wi_phase j) j s)"
  shows "tasks_follow (on_phase_transition False (sync_task_status_hook # hooks) previous (wi_phase j) j (put_item st j))"
proof -
  have "tasks_follow (snd (sync_runtime_task_status_for_work_item_projection (put_item st j) j
      (task_status_for_phase (wi_phase j))))"
  proof (rule sync_restores)
    show "links_ok (put_item st j)" using assms(1) by (simp add: tasks_follow_def links_ok_def)
    show "get_item (put_item st j) (wi_work_item_id j) = Some j" by simp
    fix l assume "l \<in> set (st_links (put_item st j))" "fst l \<noteq> wi_work_item_id j"
    with assms(1) show "link_follows (put_item st j) l"
      by (auto simp: tasks_follow_def list_all_iff link_follows_def unfenced_def get_run_def split: option.splits)
  qed
  from rest [OF this, of previous] show ?thesis by (simp add: sync_task_status_hook_def)
qed

interpretation within_refresh: kept_by_writes tasks_follow "hooks_during_refresh now" for now
proof
  fix st previous j
  assume "tasks_follow st"
  then show "tasks_follow (on_phase_transition False (hooks_during_refresh now) previous (wi_phase j) j (put_item st j))"
    unfolding hooks_during_refresh_def
    by (rule sync_first_keeps)
      (simp add: skipped_refresh_hook_def same_board_follow [OF clear_focus_same_board]
        same_board_follow [OF enqueue_same_board] same_board_follow [OF signal_same_board])
qed (rule same_board_follow, simp_all)

lemma refresh_hook_keeps:
  "tasks_follow st \<Longrightarrow> tasks_follow (snd (hk_run (refresh_dependents_hook now stamp) previous target i st))"
  using within_refresh.refresh_kept by (simp add: refresh_dependents_hook_def)

interpretation board: kept_by_writes tasks_follow "phase_hooks now stamp" for now stamp
proof
  fix st previous j
  assume "tasks_follow st"
  then show "tasks_follow (on_phase_transition False (phase_hooks now stamp) previous (wi_phase j) j (put_item st j))"
    unfolding phase_hooks_list
    by (rule sync_first_keeps)
      (simp add: refresh_hook_keeps same_board_follow [OF clear_focus_same_board]
        same_board_follow [OF enqueue_same_board] same_board_follow [OF signal_same_board])
qed (rule same_board_follow, simp_all)

text \<open>The operations on the board that end in a phase write, with the registered hooks.\<close>

datatype board_op =
    InsertCard work_item
  | SaveCard work_item
  | UpdateCard string item_update
  | TransitionCard string phase_arg transition_request
  | ReopenCard string phase item_update bool
  | RefreshRun string
  | ReconcileQueues string "string list" string string int

fun board_step :: "int \<Rightarrow> string \<Rightarrow> board_op \<Rightarrow> store \<Rightarrow> store" where
  "board_step now stamp (InsertCard i) st =
     snd (insert_delegation_work_item_if_absent (phase_hooks now stamp) st i)"
| "board_step now stamp (SaveCard i) st = snd (save_delegation_work_item (phase_hooks now stamp) st i)"
| "board_step now stamp (UpdateCard wid u) st =
     snd (update_delegation_work_item (phase_hooks now stamp) st wid u now)"
| "board_step now stamp (TransitionCard wid target rq) st =
     snd (transition_work_item (phase_hooks now stamp) st wid target rq now stamp)"
| "board_step now stamp (ReopenCard wid target u release) st =
     snd (reopen_approved_delegation_work_item_for_rework (phase_hooks now stamp) st wid target u release now)"
| "board_step now stamp (RefreshRun rid) st =
     snd (refresh_dependents_for_run (phase_hooks now stamp) {} st rid now stamp)"
| "board_step now stamp (ReconcileQueues rid ids proj token g) st =
     qp_store (reconcile_role_serial_queues st rid ids proj token g now)"

lemma board_step_keeps: "tasks_follow st \<Longrightarrow> tasks_follow (board_step now stamp op st)"
  by (cases op) (simp_all add: board.insert_kept board.save_kept board.update_kept board.transition_kept
      board.reopen_kept board.refresh_kept same_board_follow [OF same_board_reconcile])


section \<open>Properties\<close>

text \<open>
  C15. Before a controller takes over, a runtime task never drifts from its card.  If every task
  linked to a card of a run without a controller generation shows the status of the card's phase,
  then this still holds after any sequence of inserts, saves, updates, transitions, reopenings,
  dependency refreshes and queue reconciles without a credential, with all registered hooks firing,
  whatever these decide to change themselves.  For the cards of a run that has had a controller the
  hook writes nothing, as its source says; there the fenced writes of \<open>ControllerWrites\<close> move card
  and task together.
\<close>

theorem linked_task_follows_phase:
  assumes "tasks_follow st"
    and "st' = fold (\<lambda>(now, stamp, op). board_step now stamp op) ops st"
    and "(wid, tid) \<in> set (st_links st')" "get_item st' wid = Some i" "unfenced st' (wi_run_id i)"
    and "t \<in> set (st_tasks st')" "tk_id t = tid"
  shows "tk_status t = task_status_for_phase (wi_phase i)"
proof -
  have "tasks_follow (fold (\<lambda>(now, stamp, op). board_step now stamp op) ops st)"
    using assms(1) by (induction ops arbitrary: st) (auto simp: board_step_keeps)
  with assms(2-) show ?thesis by (fastforce simp: tasks_follow_def list_all_iff link_follows_def)
qed

definition linked_board :: store where
  "linked_board = empty_store
     \<lparr>st_items := [(new_work_item ''w'')\<lparr>wi_run_id := ''r''\<rparr>], st_tasks := [new_task ''t''],
      st_links := [(''w'', ''t'')]\<rparr>"

definition linked_ops :: "(int \<times> string \<times> board_op) list" where
  "linked_ops = [(1, ''one'', TransitionCard ''w'' (PhaseArg RUNNING) (request ''go'')),
                 (2, ''two'', TransitionCard ''w'' (PhaseArg WAITING_FOR_CHILDREN) (request ''wait''))]"

lemma linked_board_run:
  "map (\<lambda>i. (wi_work_item_id i, wi_run_id i, wi_phase i))
     (st_items (fold (\<lambda>(now, stamp, op). board_step now stamp op) linked_ops linked_board))
   = [(''w'', ''r'', WAITING_FOR_CHILDREN)] \<and>
   st_links (fold (\<lambda>(now, stamp, op). board_step now stamp op) linked_ops linked_board) = [(''w'', ''t'')] \<and>
   st_runs (fold (\<lambda>(now, stamp, op). board_step now stamp op) linked_ops linked_board) = [] \<and>
   map tk_id (st_tasks (fold (\<lambda>(now, stamp, op). board_step now stamp op) linked_ops linked_board)) = [''t'']"
  by code_simp

theorem linked_task_follows_phase_witness:
  "map tk_status (st_tasks (fold (\<lambda>(now, stamp, op). board_step now stamp op) linked_ops linked_board))
     = [TS_BLOCKED]"
proof -
  let ?st = "fold (\<lambda>(now, stamp, op). board_step now stamp op) linked_ops linked_board"
  have start: "tasks_follow linked_board"
    by (simp add: tasks_follow_def links_ok_def link_follows_def linked_board_def empty_store_def get_item_def
        new_work_item_def new_task_def str_simps)
  from linked_board_run obtain i where items: "st_items ?st = [i]" "wi_work_item_id i = ''w''" "wi_phase i = WAITING_FOR_CHILDREN"
    by (auto simp: map_eq_Cons_conv)
  from linked_board_run obtain t where tasks: "st_tasks ?st = [t]" "tk_id t = ''t''" by (auto simp: map_eq_Cons_conv)
  have "get_item ?st ''w'' = Some i" "unfenced ?st (wi_run_id i)" "(''w'', ''t'') \<in> set (st_links ?st)"
    using items linked_board_run by (auto simp: get_item_def unfenced_def get_run_def)
  with linked_task_follows_phase [OF start refl, of "''w''" "''t''" linked_ops i t] tasks items show ?thesis by simp
qed

text \<open>
  A commit under the controller lease only notifies.  With the filter such commits use, the
  registered hooks write nothing: they wake the dispatcher, once, exactly when the phase changed
  into a runnable or finished phase or into RUNNING.
\<close>

theorem controller_commit_only_notifies:
  "on_phase_transition True (phase_hooks now stamp) previous target i st =
     (if previous \<noteq> Some target \<and> target \<in> RUNNABLE_PHASES \<union> DONE_PHASES \<union> {RUNNING}
      then st\<lparr>st_wakes := st_wakes st + 1\<rparr> else st)"
  by (simp add: phase_hooks_list sync_task_status_hook_def signal_dispatcher_hook_def refresh_dependents_hook_def
      clear_session_focus_on_terminal_hook_def enqueue_session_work_on_runnable_hook_def
      DISPATCHER_WAKE_TARGETS_def)

text \<open>
  A runnable card of a busy session waits its turn.  When a card becomes runnable while the
  session it is assigned to is focused on another card, and the fence of the run is open, the
  card is appended to the session's queue and its row marked with the session, so the dispatcher
  skips it; a session that is idle or focused on this very card is left alone.
\<close>

theorem busy_session_queues_card:
  assumes "run_writable st rid \<lparr>qc_project = proj, qc_token = clean (dget (wi_metadata i) ''company_run_controller_owner_token''),
             qc_generation = g, qc_now = now\<rparr>"
    "hook_generation (wi_metadata i) = Inr g" "queue_id rid" "wi_run_id i = rid"
    "get_item st (wi_work_item_id i) = Some i" "queue_id (wi_work_item_id i)" "queued_behind_session i = []"
    "st_queue_enabled st" "previous \<noteq> Some target" "target \<in> RUNNABLE_PHASES"
    "get_delegation_role_session st (wi_role_runtime_session_id i) = Some s" "queue_id (wi_role_runtime_session_id i)"
    "rs_run_id s = rid" "clean_project_id (rs_project_id s) = clean_project_id proj"
    "wi_work_item_id i \<notin> set (rs_pending_work_item_ids s)"
    "st' = snd (hk_run (enqueue_session_work_on_runnable_hook now) previous target i st)"
  shows "if py_strip (rs_focused_work_item_id s) \<in> {[], wi_work_item_id i} then st' = st
         else get_delegation_role_session st' (wi_role_runtime_session_id i) =
                Some (s\<lparr>rs_pending_work_item_ids := rs_pending_work_item_ids s @ [wi_work_item_id i],
                        rs_updated_at := now\<rparr>) \<and>
              (\<exists>j. get_item st' (wi_work_item_id i) = Some j \<and>
                   queued_behind_session j = wi_role_runtime_session_id i \<and> wi_phase j = wi_phase i)"
proof (cases "py_strip (rs_focused_work_item_id s) \<in> {[], wi_work_item_id i}")
  case True
  with assms(6,11,12,16) show ?thesis
    by (auto simp: enqueue_session_work_on_runnable_hook_def Let_def queue_id_def)
next
  case False
  let ?sid = "wi_role_runtime_session_id i" and ?wid = "wi_work_item_id i" and ?md = "wi_metadata i"
  let ?token = "clean (dget ?md ''company_run_controller_owner_token'')"
  let ?s = "s\<lparr>rs_pending_work_item_ids := rs_pending_work_item_ids s @ [?wid], rs_updated_at := now\<rparr>"
  have strip: "py_strip rid = rid" "py_strip ?wid = ?wid" "py_strip ?sid = ?sid" "rid \<noteq> []" "?wid \<noteq> []" "?sid \<noteq> []"
    using assms(3,6,12) by (auto simp: queue_id_def)
  have sid: "rs_role_session_id s = ?sid" by (rule get_session_id [OF assms(11)])
  note fence = run_writable_fence [OF assms(1) strip(1)]
  have enq: "enqueue_pending_work_item st ?sid ?wid ?token g now = (Inr True, put_session st ?s)"
    using strip assms(11,13-15) fence [of "clean_project_id (rs_project_id s)"]
    by (simp add: enqueue_pending_work_item_def session_fence_def)
  let ?proj = "if rs_project_id s = [] then ''default'' else rs_project_id s"
  have "clean_project_id ?proj = clean_project_id (rs_project_id s)" by (simp add: clean_project_id_def)
  then have w: "require_company_controller_record_write (put_session st ?s) rid (clean_project_id ?proj) ?token g now
      True ?wid [] [] [] [] = Inr ()"
    using fence [of "clean_project_id ?proj"] assms(14) by (simp add: record_write_sessions)
  define j where "j = i\<lparr>wi_metadata := dset ''company_run_controller_lease_generation'' (PInt g)
      (dset ''company_run_controller_owner_token'' (PStr ?token) (dset ''queued_behind_session'' (PStr ?sid) ?md)),
      wi_updated_at := now\<rparr>"
  have mark: "update_work_item_serial_queue_marker_for_controller (put_session st ?s) ?wid rid ?proj (Some ?sid)
      (Some (queued_behind_session i)) ?token g now = (Inr True, put_item (put_session st ?s) j)"
    using strip w assms(4,5,7)
    by (simp add: update_work_item_serial_queue_marker_for_controller_def Let_def j_def queued_behind_session_def
        del: clean_project_idem)
  have fresh: "dget ?md ''queued_behind_session'' \<noteq> PStr ?sid"
    using assms(7) strip by (auto simp: queued_behind_session_def)
  have "st' = note_queue_depth ?sid (put_item (put_session st ?s) j)"
    using assms(2,4,8-11,16) strip False enq mark fresh
    by (auto simp: enqueue_session_work_on_runnable_hook_def Let_def enqueue_behind_def queued_behind_session_def)
  then have "get_delegation_role_session st' ?sid = Some ?s" "get_item st' ?wid = Some j"
    using sid by (auto simp: note_queue_depth_def j_def get_delegation_role_session_def [of "put_item _ _"]
        get_delegation_role_session_def [of "_\<lparr>st_events := _\<rparr>"] get_item_def [of "_\<lparr>st_events := _\<rparr>"]
        get_delegation_role_session_def [of "put_session _ _", symmetric] get_item_def [symmetric]
        split: option.split)
  with False strip show ?thesis by (auto simp: j_def queued_behind_session_def)
qed


definition busy_store :: store where
  "busy_store = empty_store
     \<lparr>st_items := [(new_work_item ''w'')\<lparr>wi_run_id := ''r'', wi_phase := RUNNING\<rparr>,
                  (new_work_item ''x'')\<lparr>wi_run_id := ''r'', wi_role_runtime_session_id := ''s''\<rparr>],
      st_sessions := [(new_role_session ''s'')\<lparr>rs_run_id := ''r'', rs_focused_work_item_id := ''w'',
                        rs_status := ''running''\<rparr>]\<rparr>"

theorem busy_session_queues_card_witness:
  "\<exists>j. get_item (snd (hk_run (enqueue_session_work_on_runnable_hook 7) (Some QUEUED) READY
          ((new_work_item ''x'')\<lparr>wi_run_id := ''r'', wi_role_runtime_session_id := ''s''\<rparr>) busy_store)) ''x'' = Some j \<and>
       queued_behind_session j = ''s''"
proof -
  let ?i = "(new_work_item ''x'')\<lparr>wi_run_id := ''r'', wi_role_runtime_session_id := ''s''\<rparr>"
  let ?s = "(new_role_session ''s'')\<lparr>rs_run_id := ''r'', rs_focused_work_item_id := ''w'', rs_status := ''running''\<rparr>"
  have "run_writable busy_store ''r'' \<lparr>qc_project = ''default'',
      qc_token = clean (dget (wi_metadata ?i) ''company_run_controller_owner_token''), qc_generation = 0, qc_now = 7\<rparr>"
    by (simp add: run_writable_def busy_store_def empty_store_def get_run_def)
  moreover have "hook_generation (wi_metadata ?i) = Inr 0"
    by (simp add: hook_generation_def new_work_item_def py_or_def)
  moreover have "queue_id ''r''" "queue_id ''x''" "queue_id ''s''" by (simp_all add: queue_id_def str_simps)
  moreover have "get_item busy_store ''x'' = Some ?i" "get_delegation_role_session busy_store ''s'' = Some ?s"
    "st_queue_enabled busy_store"
    by (simp_all add: get_item_def get_delegation_role_session_def busy_store_def new_work_item_def
        new_role_session_def empty_store_def)
  moreover have "queued_behind_session ?i = []" "wi_work_item_id ?i = ''x''" "rs_pending_work_item_ids ?s = []"
    "py_strip (rs_focused_work_item_id ?s) = ''w''" "rs_project_id ?s = ''default''"
    by (simp_all add: queued_behind_session_def new_work_item_def new_role_session_def str_simps)
  ultimately show ?thesis
    using busy_session_queues_card [of busy_store "''r''" "''default''" ?i 0 7 "Some QUEUED" READY ?s]
    by (simp add: RUNNABLE_PHASES_def) blast
qed

end
