(* ===== verification/ControllerWrites.thy ===== *)
theory ControllerWrites
  imports ControllerTasks Hooks
begin

text \<open>
  The writes of a controller on a card together with its task (\<open>opc/database/store.py\<close>):
  \<open>update_delegation_work_item_dependency_frontier_for_controller\<close>, a compare-and-set on the
  snapshot of a card, and \<open>transition_claimed_work_item_and_task_for_controller\<close>, the transition
  of the card of an attempt.  Each is one transaction under the lease of the run: the row of the
  card, the row of its task and the row of a role session are written together or not at all.
  The metadata of role sessions is not modelled; their two mirror tables are one list.  The
  several \<open>datetime.now()\<close> of one call are the argument \<open>now\<close>, its text the argument \<open>stamp\<close>.
\<close>

section \<open>The task of a card\<close>

definition runtime_task_matches_work_item :: "task \<Rightarrow> work_item \<Rightarrow> string \<Rightarrow> bool" where
  "runtime_task_matches_work_item t i preferred \<longleftrightarrow>
     (let md = tk_metadata t;
          projection = projection_id_for_work_item i;
          role = py_strip (wi_role_id i); run_id = py_strip (wi_run_id i);
          task_role = clean (py_or (dget md ''work_item_role_id'')
                               (py_or (dget md ''role_id'') (PStr (tk_assigned_to t))));
          seat = clean (py_or (PStr (wi_seat_id i)) (dget (wi_metadata i) ''seat_id''));
          task_seat = clean (py_or (dget md ''delegation_seat_id'') (dget md ''seat_id''))
      in py_strip (wi_work_item_id i) \<noteq> [] \<and>
         (is_work_item_runtime_metadata md \<or> py_strip (tk_id t) = py_strip preferred) \<and>
         (projection = [] \<or> clean (dget md ''work_item_projection_id'') = projection) \<and>
         (run_id = [] \<or> clean (dget md ''delegation_run_id'') = run_id) \<and>
         (role = [] \<or> task_role = [] \<or> task_role = role) \<and>
         (seat = [] \<or> task_seat = [] \<or> task_seat = seat))"

section \<open>The compare-and-set of the frontier\<close>

record controller_credential =
  cr_project_id :: string
  cr_owner_token :: string
  cr_generation :: int

definition credential_lease_current :: "store \<Rightarrow> string \<Rightarrow> controller_credential \<Rightarrow> int \<Rightarrow> bool" where
  "credential_lease_current st run_id c now \<longleftrightarrow>
     (case get_run st run_id of
        None \<Rightarrow> False
      | Some r \<Rightarrow> rn_project_id r = cr_project_id c \<and> rn_owner_token r = cr_owner_token c \<and>
                  rn_generation r = cr_generation c \<and> lease_live r now)"

text \<open>The keyword arguments next to those of \<open>item_update\<close>.\<close>

record frontier_extra =
  fe_wake_session :: string
  fe_expected_focus :: string
  fe_linked_updates :: pydict
  fe_allow_invalidation :: bool

definition no_extra :: frontier_extra where
  "no_extra =
     \<lparr>fe_wake_session = [], fe_expected_focus = [], fe_linked_updates = [], fe_allow_invalidation = False\<rparr>"

definition frontier_copy ::
  "work_item \<Rightarrow> item_update \<Rightarrow> frontier_extra \<Rightarrow> string \<Rightarrow> controller_credential \<Rightarrow> int \<Rightarrow> work_item result" where
  \<comment> \<open>the copy of the snapshot that is written\<close>
  "frontier_copy i u x run_id c now =
     bind_result
       (case up_phase u of
          None \<Rightarrow> Inr ()
        | Some p \<Rightarrow>
            if fe_allow_invalidation x \<and> wi_phase i = APPROVED \<and> p \<in> {WAITING_DEPENDENCIES, READY_FOR_REWORK}
            then Inr () else validate_transition (Some (wi_phase i)) p)
       (\<lambda>_.
     let stamped = (if py_strip (fe_wake_session x) \<noteq> []
                    then [(''company_run_id'', PStr run_id),
                          (''company_run_controller_owner_token'', PStr (cr_owner_token c)),
                          (''company_run_controller_lease_generation'', PInt (cr_generation c))]
                    else []);
         a = i\<lparr>wi_phase := upd (up_phase u) (wi_phase i),
               wi_summary := upd (up_summary u) (wi_summary i),
               wi_blocked_reason := upd (map_option py_strip (up_blocked_reason u)) (wi_blocked_reason i),
               wi_claimed_by_role_runtime_session_id :=
                 upd (map_option py_strip (up_claimed_session u)) (wi_claimed_by_role_runtime_session_id i),
               wi_claimed_by_seat_id :=
                 upd (map_option py_strip (up_claimed_seat u)) (wi_claimed_by_seat_id i),
               wi_metadata := dupdate (dupdate (wi_metadata i) (up_metadata u)) stamped\<rparr>;
         b = (if up_phase u \<noteq> None \<and> wi_phase a \<in> RUNNABLE_PHASES then release_ownership a else a)
     in Inr (b\<lparr>wi_updated_at := now\<rparr>))"

text \<open>
  The session that an attention resume wakes: \<open>RuntimeError\<close> when it has no row, \<open>False\<close> when
  its row is not the one the caller saw.
\<close>

definition wake_session_ready ::
  "store \<Rightarrow> string \<Rightarrow> controller_credential \<Rightarrow> frontier_extra \<Rightarrow> work_item \<Rightarrow> bool result" where
  "wake_session_ready st run_id c x i =
     (let sid = py_strip (fe_wake_session x); role = py_strip (wi_role_id i); seat = py_strip (wi_seat_id i)
      in if sid = [] then Inr True
         else case get_delegation_role_session st sid of
           None \<Rightarrow> Inl RuntimeError
         | Some s \<Rightarrow>
             Inr (py_strip (rs_run_id s) = run_id \<and>
                  clean_project_id (rs_project_id s) = cr_project_id c \<and>
                  py_strip (rs_focused_work_item_id s) = py_strip (fe_expected_focus x) \<and>
                  py_lower (py_strip (rs_status s)) \<in> {''blocked'', ''idle''} \<and>
                  (py_strip (rs_role_id s) = [] \<or> role = [] \<or> py_strip (rs_role_id s) = role) \<and>
                  (py_strip (rs_seat_id s) = [] \<or> seat = [] \<or> py_strip (rs_seat_id s) = seat)))"

definition wake_session ::
  "store \<Rightarrow> string \<Rightarrow> controller_credential \<Rightarrow> frontier_extra \<Rightarrow> work_item \<Rightarrow> store result" where
  "wake_session st run_id c x i =
     (let sid = py_strip (fe_wake_session x); wid = py_strip (wi_work_item_id i)
      in if sid = [] then Inr st
         else case get_delegation_role_session st sid of
           None \<Rightarrow> Inl RuntimeError
         | Some s \<Rightarrow>
             if rs_run_id s \<noteq> run_id \<or> rs_project_id s \<noteq> cr_project_id c then Inl RuntimeError
             else Inr (put_session st (s\<lparr>rs_focused_work_item_id := [], rs_status := ''idle'',
                    rs_pending_work_item_ids :=
                      filter (\<lambda>v. v \<noteq> [] \<and> v \<noteq> wid) (map py_strip (rs_pending_work_item_ids s)),
                    rs_updated_at := wi_updated_at i\<rparr>)))"

text \<open>The columns that the statement writes; the others stay as the row has them.\<close>

definition frontier_columns :: "work_item \<Rightarrow> work_item \<Rightarrow> work_item" where
  "frontier_columns row i =
     row\<lparr>wi_phase := wi_phase i, wi_summary := wi_summary i, wi_blocked_reason := wi_blocked_reason i,
         wi_claimed_by_role_runtime_session_id := wi_claimed_by_role_runtime_session_id i,
         wi_claimed_by_seat_id := wi_claimed_by_seat_id i, wi_metadata := wi_metadata i,
         wi_updated_at := wi_updated_at i\<rparr>"

definition linked_task_id :: "store \<Rightarrow> string \<Rightarrow> string" where
  "linked_task_id st wid =
     (case find (\<lambda>l. fst l = wid) (st_links st) of None \<Rightarrow> [] | Some l \<Rightarrow> py_strip (snd l))"

definition project_linked_task ::
  "string \<Rightarrow> store \<Rightarrow> controller_credential \<Rightarrow> frontier_extra \<Rightarrow> work_item \<Rightarrow> store result" where
  "project_linked_task store_project st c x i =
     (let tid = linked_task_id st (py_strip (wi_work_item_id i));
          status = task_status_for_phase (wi_phase i)
      in if tid \<noteq> [] \<and> py_strip (fe_wake_session x) = [] \<and> fe_linked_updates x = [] then
           Inr (st\<lparr>st_tasks := map (\<lambda>t. if tk_id t = tid \<and> tk_project_id t = cr_project_id c
                                        then t\<lparr>tk_status := status\<rparr> else t) (st_tasks st)\<rparr>)
         else if tid \<noteq> [] then
           (case task_row st tid of
              None \<Rightarrow> Inl RuntimeError
            | Some t \<Rightarrow>
                if clean_project_id (tk_project_id t) \<noteq> cr_project_id c \<or>
                   \<not> runtime_task_matches_work_item t i []
                then Inl RuntimeError
                else (case save_task_row store_project st
                             (t\<lparr>tk_status := status,
                                tk_metadata := dupdate (tk_metadata t) (fe_linked_updates x)\<rparr>) of
                        (Inl e, _, _) \<Rightarrow> Inl e
                      | (Inr _, _, st') \<Rightarrow> Inr st'))
         else if fe_linked_updates x \<noteq> [] then Inl RuntimeError
         else Inr st)"

definition cleaned_credential :: "controller_credential \<Rightarrow> controller_credential" where
  "cleaned_credential c =
     \<lparr>cr_project_id = clean_project_id (cr_project_id c), cr_owner_token = py_strip (cr_owner_token c),
      cr_generation = cr_generation c\<rparr>"

text \<open>\<open>None\<close> is the lost race of a snapshot under the same lease.\<close>

definition update_delegation_work_item_dependency_frontier_for_controller ::
  "string \<Rightarrow> store \<Rightarrow> work_item \<Rightarrow> controller_credential \<Rightarrow> item_update \<Rightarrow> frontier_extra \<Rightarrow> int \<Rightarrow> string
     \<Rightarrow> work_item option result \<times> store" where
  "update_delegation_work_item_dependency_frontier_for_controller store_project st expected credential u x
     now stamp =
     (let run_id = py_strip (wi_run_id expected); wid = py_strip (wi_work_item_id expected);
          c = cleaned_credential credential
      in if run_id = [] \<or> cr_owner_token c = [] \<or> cr_generation c \<le> 0 then (Inl LeaseLost, st)
         else case frontier_copy expected u x run_id c now of
           Inl e \<Rightarrow> (Inl e, st)
         | Inr item \<Rightarrow>
         (case require_company_controller_record_write st run_id (cr_project_id c) (cr_owner_token c)
                 (cr_generation c) now True wid [] [] [] [] of
           Inl e \<Rightarrow> (Inl e, st)
         | Inr _ \<Rightarrow>
         (case get_item st wid of
           None \<Rightarrow> (Inr None, st)
         | Some row \<Rightarrow>
         (case wake_session_ready st run_id c x item of
           Inl e \<Rightarrow> (Inl e, st)
         | Inr False \<Rightarrow> (Inr None, st)
         | Inr True \<Rightarrow>
         (case protect_delegate_work_identity item (Some row) of
           Inl e \<Rightarrow> (Inl e, st)
         | Inr j \<Rightarrow>
             if \<not> (wi_run_id row = run_id \<and> wi_phase row = wi_phase expected \<and>
                    wi_updated_at row = wi_updated_at expected \<and> credential_lease_current st run_id c now)
             then (if credential_lease_current st run_id c now then Inr None else Inl LeaseLost, st)
             else case bind_result (project_linked_task store_project
                                      (put_item st (frontier_columns row j)) c x j)
                         (\<lambda>st1. wake_session st1 run_id c x j) of
                    Inl e \<Rightarrow> (Inl e, st)
                  | Inr st2 \<Rightarrow>
                      (Inr (Some j), on_phase_transition True (phase_hooks now stamp)
                                       (Some (wi_phase expected)) (wi_phase j) j st2))))))"

section \<open>The refresh under a credential\<close>

text \<open>What the reset of a stale delivery also writes to the task of the card.\<close>

definition linked_task_updates :: "snapshot \<Rightarrow> work_item list \<Rightarrow> string \<Rightarrow> work_item \<Rightarrow> pydict result" where
  "linked_task_updates by_id items stamp i =
     bind_result (id_list (dget (wi_metadata i) ''dependency_work_item_ids'')) (\<lambda>raw0.
     bind_result (final_delivery_dependency_closure i items by_id) (\<lambda>delivery.
     let (stale, reconciled_at) = delivery_staleness (wi_metadata i) delivery raw0 stamp
     in Inr (if stale then delivery_reset_updates (wi_metadata i) stamp reconciled_at else [])))"

text \<open>A controller never absorbs an error: a lost race of the snapshot stops the pass as well.\<close>

definition controller_absorb ::
  "frontier \<Rightarrow> string \<Rightarrow> work_item option result \<times> store \<Rightarrow> pyerr option \<times> frontier" where
  "controller_absorb f wid r =
     (case r of
        (Inl e, st) \<Rightarrow> (Some e, f\<lparr>fr_store := st\<rparr>)
      | (Inr None, st) \<Rightarrow> (Some RuntimeError, f\<lparr>fr_store := st\<rparr>)
      | (Inr (Some j), st) \<Rightarrow>
          (None, f\<lparr>fr_store := st, fr_changed := True, fr_by_id := set_snapshot wid j (fr_by_id f)\<rparr>))"

definition controller_frontier_item ::
  "string \<Rightarrow> controller_credential \<Rightarrow> int \<Rightarrow> string \<Rightarrow> work_item list \<Rightarrow> string set \<Rightarrow> work_item
     \<Rightarrow> frontier \<Rightarrow> pyerr option \<times> frontier" where
  "controller_frontier_item sp c now stamp items doomed i f =
     (case bind_result (plan_frontier (fr_by_id f) items doomed stamp i) (\<lambda>p.
             case p of None \<Rightarrow> Inr None
             | Some q \<Rightarrow> bind_result (linked_task_updates (fr_by_id f) items stamp i) (\<lambda>linked. Inr (Some (q, linked)))) of
        Inl e \<Rightarrow> (Some e, f)
      | Inr None \<Rightarrow> (None, f)
      | Inr (Some (p, linked)) \<Rightarrow>
          let u = plan_update i p;
              x = no_extra\<lparr>fe_linked_updates := linked,
                    fe_allow_invalidation :=
                      (linked \<noteq> [] \<and> wi_phase i = APPROVED \<and>
                       pl_target p \<in> {WAITING_DEPENDENCIES, READY_FOR_REWORK})\<rparr>
          in if pl_target p = wi_phase i \<and> up_metadata u = [] then (None, f)
             else controller_absorb f (wi_work_item_id i)
                    (update_delegation_work_item_dependency_frontier_for_controller sp (fr_store f) i c u x now stamp))"

definition cancel_update :: "work_item \<Rightarrow> string \<Rightarrow> item_update" where
  "cancel_update i stamp =
     no_update\<lparr>up_phase := Some CANCELLED, up_claimed_session := Some [], up_claimed_seat := Some [],
       up_metadata := dupdate (build_attempt_settlement_updates (wi_metadata i) (phase_value CANCELLED) stamp)
         [(''last_transition_reason'', PStr ''upstream_dependency_failed_parent_settled''),
          (''claimed_by_role_session_id'', PStr []), (''claimed_task_id'', PStr [])]\<rparr>"

definition controller_cascade_cancel ::
  "string \<Rightarrow> controller_credential \<Rightarrow> int \<Rightarrow> string \<Rightarrow> string \<Rightarrow> frontier \<Rightarrow> pyerr option \<times> frontier" where
  "controller_cascade_cancel sp c now stamp wid f =
     (case map_of (fr_by_id f) wid of
        None \<Rightarrow> (Some KeyError, f)
      | Some i \<Rightarrow>
          controller_absorb f wid
            (update_delegation_work_item_dependency_frontier_for_controller sp (fr_store f) i c
               (cancel_update i stamp) no_extra now stamp))"

definition controller_cascade_item ::
  "string \<Rightarrow> controller_credential \<Rightarrow> int \<Rightarrow> string \<Rightarrow> string set \<Rightarrow> work_item \<Rightarrow> frontier
     \<Rightarrow> pyerr option \<times> frontier" where
  "controller_cascade_item sp c now stamp doomed i f =
     (case dict_or_empty (dget (wi_metadata i) ''dependency_settlement'') of
        Inl e \<Rightarrow> (Some e, f)
      | Inr settlement \<Rightarrow>
          if settlement = [] \<or> truthy (dget settlement ''cascaded_at'') \<or> wi_phase i \<noteq> APPROVED
          then (None, f)
          else case bind_result (id_list (dget settlement ''stuck'')) (cascade_covered (fr_by_id f) doomed) of
                 Inl e \<Rightarrow> (Some e, f)
               | Inr covered \<Rightarrow>
                   (case until_error (controller_cascade_cancel sp c now stamp)
                           (cascade_cancel_ids (fr_by_id f) doomed covered) f of
                      (Some e, f1) \<Rightarrow> (Some e, f1)
                    | (None, f1) \<Rightarrow>
                        controller_absorb f1 (wi_work_item_id i)
                          (update_delegation_work_item_dependency_frontier_for_controller sp (fr_store f1)
                             (case map_of (fr_by_id f1) (wi_work_item_id i) of None \<Rightarrow> i | Some w \<Rightarrow> w) c
                             (no_update\<lparr>up_metadata :=
                                [(''dependency_settlement'',
                                  PDict (dset ''cascaded_at'' (PStr stamp) settlement))]\<rparr>) no_extra now stamp)))"

definition refresh_dependents_for_controller ::
  "string \<Rightarrow> string set \<Rightarrow> store \<Rightarrow> string \<Rightarrow> controller_credential \<Rightarrow> int \<Rightarrow> string \<Rightarrow> bool result \<times> store" where
  "refresh_dependents_for_controller sp in_flight st run_id credential now stamp =
     (let rid = py_strip run_id; c = cleaned_credential credential
      in if rid = [] \<or> cr_owner_token c = [] \<or> cr_generation c \<le> 0 then (Inl LeaseLost, st)
         else if rid \<in> in_flight then (Inl RuntimeError, st)
         else
           let items = list_delegation_work_items st rid;
               by_id = foldl (\<lambda>d i. set_snapshot (wi_work_item_id i) i d) [] items
           in case compute_doomed_work_item_ids by_id of
                Inl e \<Rightarrow> (Inl e, st)
              | Inr doomed \<Rightarrow>
                  (case until_error (controller_frontier_item sp c now stamp items doomed) items
                          \<lparr>fr_store = st, fr_by_id = by_id, fr_changed = False\<rparr> of
                     (Some e, f) \<Rightarrow> (Inl e, fr_store f)
                   | (None, f) \<Rightarrow>
                       (case until_error (controller_cascade_item sp c now stamp doomed) items f of
                          (Some e, g) \<Rightarrow> (Inl e, fr_store g)
                        | (None, g) \<Rightarrow> (Inr (fr_changed g), fr_store g))))"

section \<open>The transition of a claimed card\<close>

text \<open>The role session that a quota park releases.\<close>

definition released_session_ok :: "store \<Rightarrow> work_item \<Rightarrow> string \<Rightarrow> string \<Rightarrow> string \<Rightarrow> bool" where
  "released_session_ok st i sid run_id project \<longleftrightarrow>
     sid = [] \<or>
     (py_strip (wi_claimed_by_role_runtime_session_id i) = sid \<and>
      (case get_delegation_role_session st sid of
         None \<Rightarrow> False
       | Some s \<Rightarrow> py_strip (rs_run_id s) = run_id \<and>
                   clean_project_id (rs_project_id s) \<in> {project, ''default''}))"

definition release_session :: "store \<Rightarrow> string \<Rightarrow> string \<Rightarrow> int \<Rightarrow> store result" where
  "release_session st sid run_id now =
     (if sid = [] then Inr st
      else case get_delegation_role_session st sid of
        None \<Rightarrow> Inl LeaseLost
      | Some s \<Rightarrow>
          if rs_run_id s \<noteq> run_id then Inl LeaseLost
          else Inr (put_session st (s\<lparr>rs_focused_work_item_id := [], rs_status := ''idle'',
                                     rs_updated_at := now\<rparr>)))"

definition transitioned_item :: "work_item \<Rightarrow> phase \<Rightarrow> transition_request \<Rightarrow> int \<Rightarrow> string \<Rightarrow> work_item" where
  "transitioned_item i target rq now stamp =
     (let settlement = (if target = RUNNING then []
            else build_attempt_settlement_updates (wi_metadata i)
                   (case tr_attempt_outcome rq of None \<Rightarrow> phase_value target
                    | Some s \<Rightarrow> if s = [] then phase_value target else s) stamp);
          reason = py_strip (tr_reason rq);
          md1 = dupdate (dupdate (wi_metadata i) settlement) (tr_metadata rq);
          md2 = (if reason \<noteq> [] then dset ''last_transition_reason'' (PStr reason) md1 else md1);
          a = i\<lparr>wi_phase := target,
                wi_summary := upd (tr_summary rq) (wi_summary i),
                wi_blocked_reason := upd (map_option py_strip (tr_blocked_reason rq)) (wi_blocked_reason i),
                wi_handoff_status := upd (map_option py_strip (tr_handoff_status rq)) (wi_handoff_status i),
                wi_metadata := md2\<rparr>
      in (if tr_release_claim rq \<or> target \<in> RUNNABLE_PHASES then release_ownership a else a)
           \<lparr>wi_updated_at := now\<rparr>)"

definition transition_columns :: "work_item \<Rightarrow> work_item \<Rightarrow> work_item" where
  "transition_columns row i = (frontier_columns row i)\<lparr>wi_handoff_status := wi_handoff_status i\<rparr>"

text \<open>The transaction: the written card, the task and the store, or the error that rolls it back.\<close>

definition transition_claimed_rows ::
  "string \<Rightarrow> store \<Rightarrow> string \<Rightarrow> task \<Rightarrow> phase \<Rightarrow> transition_request \<Rightarrow> string \<Rightarrow> int \<Rightarrow> string
     \<Rightarrow> (work_item \<times> work_item \<times> store) result \<times> task" where
  "transition_claimed_rows sp st wid t target rq sid now stamp =
     (let f = company_controller_task_fence t; tid = py_strip (tk_id t); project = clean_project_id (tk_project_id t);
          c = \<lparr>cr_project_id = project, cr_owner_token = af_owner_token f, cr_generation = af_generation f\<rparr>
      in if \<not> company_controller_task_fence_matches st t now then (Inl LeaseLost, t)
         else case get_item st wid of
           None \<Rightarrow> (Inl LeaseLost, t)
         | Some row \<Rightarrow>
             if py_strip (wi_run_id row) \<noteq> af_run_id f \<or>
                \<not> released_session_ok st row sid (af_run_id f) project \<or>
                (wid, tid) \<notin> set (st_links st)
             then (Inl LeaseLost, t)
             else case bind_result (validate_transition (Some (wi_phase row)) target) (\<lambda>_.
                         protect_delegate_work_identity (transitioned_item row target rq now stamp) (Some row)) of
                    Inl e \<Rightarrow> (Inl e, t)
                  | Inr j \<Rightarrow>
                      if wi_run_id row \<noteq> af_run_id f \<or> attempt_seq_of row \<noteq> af_attempt_seq f \<or>
                         \<not> claimed_by_task row tid \<or> \<not> credential_lease_current st (wi_run_id row) c now
                      then (Inl LeaseLost, t)
                      else case release_session (put_item st (transition_columns row j)) sid (af_run_id f) now of
                             Inl e \<Rightarrow> (Inl e, t)
                           | Inr st1 \<Rightarrow>
                               (case save_task_row sp st1 (t\<lparr>tk_status := task_status_for_phase target\<rparr>) of
                                  (Inl e, t1, _) \<Rightarrow> (Inl e, t1)
                                | (Inr _, t1, st2) \<Rightarrow> (Inr (row, j, st2), t1)))"

definition transition_claimed_work_item_and_task_for_controller ::
  "string \<Rightarrow> string set \<Rightarrow> store \<Rightarrow> string \<Rightarrow> task \<Rightarrow> phase_arg \<Rightarrow> transition_request \<Rightarrow> string \<Rightarrow> int \<Rightarrow> string
     \<Rightarrow> work_item result \<times> task \<times> store" where
  "transition_claimed_work_item_and_task_for_controller sp in_flight st work_item_id t target rq
     release_role_session_id now stamp =
     (let wid = py_strip work_item_id; f = company_controller_task_fence t
      in if wid = [] then (Inl ValueError, t, st)
         else case coerce_phase target of
           Inl e \<Rightarrow> (Inl e, t, st)
         | Inr p \<Rightarrow>
             if \<not> fence_complete f then (Inl LeaseLost, t, st)
             else case transition_claimed_rows sp st wid t p rq (py_strip release_role_session_id) now stamp of
                    (Inl e, t1) \<Rightarrow> (Inl e, t1, st)
                  | (Inr (row, j, st1), t1) \<Rightarrow>
                      let st2 = on_phase_transition True (phase_hooks now stamp) (Some (wi_phase row)) p j st1
                      in if p \<in> DONE_PHASES \<or> p \<in> {AWAITING_HUMAN, READY_FOR_REWORK}
                         then (case refresh_dependents_for_controller sp in_flight st2 (af_run_id f)
                                      \<lparr>cr_project_id = clean_project_id (tk_project_id t),
                                       cr_owner_token = af_owner_token f, cr_generation = af_generation f\<rparr> now stamp of
                                 (Inl e, st3) \<Rightarrow> (Inl e, t1, st3)
                               | (Inr _, st3) \<Rightarrow> (Inr j, t1, st3))
                         else (Inr j, t1, st2))"

text \<open>The bridge from a task with its fenced transition and its save filled in.\<close>

definition fenced_controller_transition :: "string \<Rightarrow> string set \<Rightarrow> int \<Rightarrow> string \<Rightarrow> fenced_transition" where
  "fenced_controller_transition sp in_flight now stamp =
     (\<lambda>st wid t p rq.
        case transition_claimed_work_item_and_task_for_controller sp in_flight st wid t (PhaseArg p)
               (rq\<lparr>tr_blocked_reason := None, tr_handoff_status := None\<rparr>) [] now stamp of
          (Inl e, t', st') \<Rightarrow> (Inl e, t', st')
        | (Inr _, t', st') \<Rightarrow> (Inr (), t', st'))"

definition apply_controller_task_status ::
  "string \<Rightarrow> subagent_run list \<Rightarrow> string set \<Rightarrow> store \<Rightarrow> task \<Rightarrow> status_arg \<Rightarrow> transition_request \<Rightarrow> bool
     \<Rightarrow> bool \<Rightarrow> int \<Rightarrow> string \<Rightarrow> bool result \<times> task \<times> store" where
  "apply_controller_task_status sp subagents in_flight st t target rq save_plain raise_missing now stamp =
     apply_task_status_transition (fenced_controller_transition sp in_flight now stamp)
       (\<lambda>t' s. case save_task sp subagents s t' now of
                 (Inl e, _, s') \<Rightarrow> (Some e, s') | (Inr _, _, s') \<Rightarrow> (None, s'))
       (phase_hooks now stamp) st t target rq save_plain raise_missing now stamp"

section \<open>Facts\<close>

text \<open>After a commit only the dispatcher is told.\<close>

lemma notified:
  "on_phase_transition True (phase_hooks now stamp) previous target i st =
     (if previous = Some target \<or> (target \<notin> DISPATCHER_WAKE_TARGETS \<and> target \<noteq> RUNNING) then st
      else st\<lparr>st_wakes := st_wakes st + 1\<rparr>)"
  by (simp add: phase_hooks_list sync_task_status_hook_def signal_dispatcher_hook_def
      refresh_dependents_hook_def clear_session_focus_on_terminal_hook_def
      enqueue_session_work_on_runnable_hook_def)

lemma notified_rows [simp]:
  "st_items (on_phase_transition True (phase_hooks now stamp) previous target i st) = st_items st"
  "st_tasks (on_phase_transition True (phase_hooks now stamp) previous target i st) = st_tasks st"
  "st_runs (on_phase_transition True (phase_hooks now stamp) previous target i st) = st_runs st"
  "st_links (on_phase_transition True (phase_hooks now stamp) previous target i st) = st_links st"
  "get_item (on_phase_transition True (phase_hooks now stamp) previous target i st) wid = get_item st wid"
  by (simp_all add: notified get_item_def)

lemma frontier_write_cases:
  assumes "update_delegation_work_item_dependency_frontier_for_controller sp st i cr u x now stamp = (res, st')"
  obtains (refused) "\<And>j. res \<noteq> Inr (Some j)" "st' = st"
  | (written) item row j st1 st2 where
      "frontier_copy i u x (py_strip (wi_run_id i)) (cleaned_credential cr) now = Inr item"
      "get_item st (py_strip (wi_work_item_id i)) = Some row"
      "protect_delegate_work_identity item (Some row) = Inr j"
      "wi_run_id row = py_strip (wi_run_id i)" "wi_phase row = wi_phase i" "wi_updated_at row = wi_updated_at i"
      "credential_lease_current st (py_strip (wi_run_id i)) (cleaned_credential cr) now"
      "project_linked_task sp (put_item st (frontier_columns row j)) (cleaned_credential cr) x j = Inr st1"
      "wake_session st1 (py_strip (wi_run_id i)) (cleaned_credential cr) x j = Inr st2"
      "res = Inr (Some j)"
      "st' = on_phase_transition True (phase_hooks now stamp) (Some (wi_phase i)) (wi_phase j) j st2"
proof (cases "\<exists>j. res = Inr (Some j)")
  case False
  with assms have "st' = st"
    by (auto simp: update_delegation_work_item_dependency_frontier_for_controller_def Let_def
        split: if_splits sum.splits option.splits bool.splits)
  with False show ?thesis by (intro refused) auto
next
  case True
  with assms show ?thesis
    by (auto simp: update_delegation_work_item_dependency_frontier_for_controller_def Let_def
        bind_result_Inr_iff split: if_splits sum.splits option.splits bool.splits intro: written)
qed

lemma save_row_keeps:
  "save_task_row sp st t = (r, t', st') \<Longrightarrow>
     st_items st' = st_items st \<and> st_runs st' = st_runs st \<and> st_links st' = st_links st \<and>
     st_sessions st' = st_sessions st"
  by (auto simp: save_task_row_def Let_def split: sum.splits prod.splits)

lemma project_task_keeps:
  "project_linked_task sp st c x i = Inr st' \<Longrightarrow>
     st_items st' = st_items st \<and> st_runs st' = st_runs st \<and> st_links st' = st_links st"
  by (auto simp: project_linked_task_def Let_def split: if_splits option.splits sum.splits prod.splits
      dest: save_row_keeps)

lemma put_session_keeps [simp]:
  "st_items (put_session st s) = st_items st" "st_runs (put_session st s) = st_runs st"
  "st_links (put_session st s) = st_links st" "st_tasks (put_session st s) = st_tasks st"
  by (simp_all add: put_session_def)

lemma wake_keeps:
  "wake_session st rid c x i = Inr st' \<Longrightarrow>
     st_items st' = st_items st \<and> st_runs st' = st_runs st \<and> st_links st' = st_links st \<and>
     st_tasks st' = st_tasks st"
  by (auto simp: wake_session_def Let_def split: if_splits option.splits)

lemma release_session_keeps:
  "release_session st sid rid now = Inr st' \<Longrightarrow>
     st_items st' = st_items st \<and> st_runs st' = st_runs st \<and> st_links st' = st_links st \<and>
     st_tasks st' = st_tasks st"
  by (auto simp: release_session_def Let_def split: if_splits option.splits)

lemma put_item_keeps [simp]:
  "st_runs (put_item st i) = st_runs st" "st_links (put_item st i) = st_links st"
  "st_tasks (put_item st i) = st_tasks st"
  by (simp_all add: put_item_def)

lemma frontier_write_runs:
  assumes "update_delegation_work_item_dependency_frontier_for_controller sp st i cr u x now stamp = (res, st')"
  shows "st_runs st' = st_runs st"
  using assms by (cases rule: frontier_write_cases) (auto dest!: project_task_keeps wake_keeps)

lemma until_error_rel:
  assumes "\<And>y s e s'. y \<in> set ys \<Longrightarrow> f y s = (e, s') \<Longrightarrow> R s s'"
    and "\<And>s. R s s" "\<And>s s' s''. R s s' \<Longrightarrow> R s' s'' \<Longrightarrow> R s s''"
    and "until_error f ys s = (e, s')"
  shows "R s s'"
  using assms(1,4)
proof (induction ys arbitrary: s)
  case (Cons y ys)
  obtain e1 s1 where f: "f y s = (e1, s1)" by fastforce
  have "R s s1" by (rule Cons.prems(1) [OF _ f]) simp
  moreover have "R s1 s'" if "e1 = None"
  proof (rule Cons.IH)
    show "R r r'" if "y' \<in> set ys" "f y' r = (e', r')" for y' r e' r'
      using Cons.prems(1) [OF _ that(2)] that(1) by simp
    show "until_error f ys s1 = (e, s')" using Cons.prems(2) f that by simp
  qed
  moreover have "s' = s1" if "e1 \<noteq> None" using Cons.prems(2) f that by auto
  ultimately show ?case using assms(3) by blast
qed (use assms(2) in simp)

text \<open>
  A relation between stores that every write of a pass respects, for cards with a property that
  the written card keeps, holds across the pass.
\<close>

definition write_respects ::
  "(store \<Rightarrow> store \<Rightarrow> bool) \<Rightarrow> (work_item \<Rightarrow> bool) \<Rightarrow> controller_credential \<Rightarrow> bool" where
  "write_respects R Q c \<longleftrightarrow>
     (\<forall>sp st i u x now stamp res st'. Q i \<longrightarrow>
        update_delegation_work_item_dependency_frontier_for_controller sp st i c u x now stamp = (res, st') \<longrightarrow>
        R st st' \<and> (\<forall>j. res = Inr (Some j) \<longrightarrow> Q j))"

definition pass_rel :: "(store \<Rightarrow> store \<Rightarrow> bool) \<Rightarrow> (work_item \<Rightarrow> bool) \<Rightarrow> frontier \<Rightarrow> frontier \<Rightarrow> bool" where
  "pass_rel R Q f g \<longleftrightarrow>
     (\<forall>e\<in>set (fr_by_id f). Q (snd e)) \<longrightarrow>
     R (fr_store f) (fr_store g) \<and> (\<forall>e\<in>set (fr_by_id g). Q (snd e))"

lemma pass_rel_refl: "reflp R \<Longrightarrow> pass_rel R Q f f"
  by (simp add: pass_rel_def reflp_def)

lemma pass_rel_trans: "transp R \<Longrightarrow> pass_rel R Q f g \<Longrightarrow> pass_rel R Q g h \<Longrightarrow> pass_rel R Q f h"
  by (auto simp: pass_rel_def transp_def)

lemma set_snapshot_elems: "e \<in> set (set_snapshot k i s) \<Longrightarrow> e = (k, i) \<or> e \<in> set s"
  by (induction k i s rule: set_snapshot.induct) (auto split: if_splits)

lemma pass_rel_write:
  assumes "write_respects R Q c" "Q i"
  shows "pass_rel R Q f (snd (controller_absorb f wid
           (update_delegation_work_item_dependency_frontier_for_controller sp (fr_store f) i c u x now stamp)))"
proof -
  obtain res st' where w: "update_delegation_work_item_dependency_frontier_for_controller sp (fr_store f) i c u x
      now stamp = (res, st')" by fastforce
  have "R (fr_store f) st' \<and> (\<forall>j. res = Inr (Some j) \<longrightarrow> Q j)"
    using assms w unfolding write_respects_def by blast
  then show ?thesis
    by (auto simp: w pass_rel_def controller_absorb_def split: sum.splits option.splits
        dest!: set_snapshot_elems)
qed

locale controller_pass =
  fixes R :: "store \<Rightarrow> store \<Rightarrow> bool" and Q :: "work_item \<Rightarrow> bool" and c :: controller_credential
  assumes writes: "write_respects R Q (cleaned_credential c)" and refl: "reflp R" and trans: "transp R"
begin

lemma frontier_item:
  "Q i \<Longrightarrow> pass_rel R Q f
     (snd (controller_frontier_item sp (cleaned_credential c) now stamp items doomed i f))"
  by (simp add: controller_frontier_item_def Let_def pass_rel_refl [OF refl] pass_rel_write [OF writes]
      split: sum.split option.split prod.split)

lemma cascade_cancel:
  "pass_rel R Q f (snd (controller_cascade_cancel sp (cleaned_credential c) now stamp wid f))"
proof (cases "map_of (fr_by_id f) wid")
  case (Some i)
  then have elem: "(wid, i) \<in> set (fr_by_id f)" by (rule map_of_SomeD)
  show ?thesis
  proof (cases "Q i")
    case True
    then show ?thesis
      using Some pass_rel_write [OF writes] by (simp add: controller_cascade_cancel_def)
  next
    case False
    with elem show ?thesis by (force simp: pass_rel_def)
  qed
qed (simp add: controller_cascade_cancel_def pass_rel_refl [OF refl])

lemma sweep_of_items:
  assumes "\<And>i f. i \<in> set items \<Longrightarrow> pass_rel R Q f (snd (step i f))" "until_error step items f = (e, g)"
  shows "pass_rel R Q f g"
proof (rule until_error_rel [OF _ _ _ assms(2)])
  show "pass_rel R Q s s'" if "i \<in> set items" "step i s = (e, s')" for i s e s'
    using assms(1) [OF that(1), of s] that(2) by simp
qed (use pass_rel_refl [OF refl] pass_rel_trans [OF trans] in blast)+

lemma cascade_item:
  assumes "Q i"
  shows "pass_rel R Q f (snd (controller_cascade_item sp (cleaned_credential c) now stamp doomed i f))"
proof -
  have cancel: "pass_rel R Q f f1"
    if "until_error (controller_cascade_cancel sp (cleaned_credential c) now stamp) wids f = (e, f1)" for wids e f1
    by (rule sweep_of_items [OF cascade_cancel that])
  have stamp: "pass_rel R Q f (snd (controller_absorb f1 wid
      (update_delegation_work_item_dependency_frontier_for_controller sp (fr_store f1)
         (case map_of (fr_by_id f1) wid of None \<Rightarrow> i | Some w \<Rightarrow> w) (cleaned_credential c) u x now stamp)))"
    if "until_error (controller_cascade_cancel sp (cleaned_credential c) now stamp) wids f = (e, f1)"
    for wids e f1 wid u x
  proof (cases "Q (case map_of (fr_by_id f1) wid of None \<Rightarrow> i | Some w \<Rightarrow> w)")
    case True
    from pass_rel_trans [OF trans cancel [OF that] pass_rel_write [OF writes True]] show ?thesis .
  next
    case False
    then obtain w where "(wid, w) \<in> set (fr_by_id f1)" "\<not> Q w"
      using assms by (auto split: option.splits dest: map_of_SomeD)
    then have "\<not> (\<forall>e\<in>set (fr_by_id f). Q (snd e))"
      using cancel [OF that] by (auto simp: pass_rel_def)
    then show ?thesis by (auto simp: pass_rel_def)
  qed
  show ?thesis
  proof (cases "dict_or_empty (dget (wi_metadata i) ''dependency_settlement'')")
    case (Inr settlement)
    show ?thesis
    proof (cases "settlement = [] \<or> truthy (dget settlement ''cascaded_at'') \<or> wi_phase i \<noteq> APPROVED")
      case todo: False
      show ?thesis
      proof (cases "bind_result (id_list (dget settlement ''stuck'')) (cascade_covered (fr_by_id f) doomed)")
        case covered: (Inr ids)
        obtain e f1 where u: "until_error (controller_cascade_cancel sp (cleaned_credential c) now stamp)
            (cascade_cancel_ids (fr_by_id f) doomed ids) f = (e, f1)" by fastforce
        show ?thesis
          using cancel [OF u] stamp [OF u] Inr todo covered u
          by (cases e) (simp_all add: controller_cascade_item_def)
      qed (use Inr todo in \<open>simp add: controller_cascade_item_def pass_rel_refl [OF refl]\<close>)
    qed (use Inr in \<open>simp add: controller_cascade_item_def pass_rel_refl [OF refl]\<close>)
  qed (simp add: controller_cascade_item_def pass_rel_refl [OF refl])
qed

lemma by_id_elems:
  "e \<in> set (foldl (\<lambda>d i. set_snapshot (wi_work_item_id i) i d) d items) \<Longrightarrow> e \<in> set d \<or> snd e \<in> set items"
proof (induction items arbitrary: d)
  case (Cons i items)
  then show ?case by (auto dest!: Cons.IH set_snapshot_elems)
qed simp

lemma refresh:
  assumes "\<And>i. i \<in> set (list_delegation_work_items st (py_strip rid)) \<Longrightarrow> Q i"
  shows "R st (snd (refresh_dependents_for_controller sp in_flight st rid c now stamp))"
proof -
  define items where "items = list_delegation_work_items st (py_strip rid)"
  define f where "f = \<lparr>fr_store = st, fr_by_id = foldl (\<lambda>d i. set_snapshot (wi_work_item_id i) i d) [] items,
                       fr_changed = False\<rparr>"
  have Q: "\<forall>e\<in>set (fr_by_id f). Q (snd e)"
    using assms by (auto simp: f_def items_def [symmetric] dest: by_id_elems)
  have one: "pass_rel R Q f g"
    if "until_error (controller_frontier_item sp (cleaned_credential c) now stamp items doomed) items f = (e, g)"
    for doomed e g
    by (rule sweep_of_items [OF frontier_item that]) (use assms in \<open>simp add: items_def\<close>)
  have two: "pass_rel R Q g h"
    if "until_error (controller_cascade_item sp (cleaned_credential c) now stamp doomed) items g = (e, h)"
    for doomed e g h
    by (rule sweep_of_items [OF cascade_item that]) (use assms in \<open>simp add: items_def\<close>)
  have R1: "R st (fr_store g)"
    if "until_error (controller_frontier_item sp (cleaned_credential c) now stamp items doomed) items f = (e, g)"
    for doomed e g
    using one [OF that] Q by (simp add: pass_rel_def f_def)
  have R2: "R st (fr_store h)"
    if "until_error (controller_frontier_item sp (cleaned_credential c) now stamp items doomed) items f = (None, g)"
      and "until_error (controller_cascade_item sp (cleaned_credential c) now stamp doomed) items g = (e, h)"
    for doomed e g h
    using pass_rel_trans [OF trans one [OF that(1)] two [OF that(2)]] Q by (simp add: pass_rel_def f_def)
  have "R st st" using refl by (simp add: reflp_def)
  then show ?thesis
    by (simp add: refresh_dependents_for_controller_def Let_def items_def [symmetric] f_def [symmetric]
        split: sum.split option.split prod.split) (auto dest: R1 R2)
qed

end

section \<open>What a write leaves alone\<close>

lemma frontier_copy_fields:
  assumes "frontier_copy i u x rid c now = Inr item"
  shows "wi_run_id item = wi_run_id i \<and> wi_work_item_id item = wi_work_item_id i \<and>
         wi_phase item = upd (up_phase u) (wi_phase i) \<and> wi_updated_at item = now \<and>
         (validate_transition (Some (wi_phase i)) (wi_phase item) = Inr () \<or>
          fe_allow_invalidation x \<and> wi_phase i = APPROVED \<and>
          wi_phase item \<in> {WAITING_DEPENDENCIES, READY_FOR_REWORK})"
  using assms
  by (auto simp: frontier_copy_def bind_result_Inr_iff Let_def release_ownership_def validate_transition_Some
      split: option.splits if_splits)

lemma protect_row:
  "protect_delegate_work_identity i (Some old) = Inr j \<Longrightarrow>
     wi_updated_at j = wi_updated_at i \<and> (wi_run_id j = wi_run_id i \<or> wi_run_id j = wi_run_id old)"
  by (auto simp: protect_delegate_work_identity_def keep_sequence_scope_def Let_def split: option.splits if_splits)

lemma written_run:
  assumes "frontier_copy i u x rid c now = Inr item" "protect_delegate_work_identity item (Some row) = Inr j"
    and "wi_run_id row = py_strip (wi_run_id i)"
  shows "py_strip (wi_run_id j) = py_strip (wi_run_id i)"
  using frontier_copy_fields [OF assms(1)] protect_row [OF assms(2)] assms(3) by auto

lemma frontier_write_result_run:
  assumes "update_delegation_work_item_dependency_frontier_for_controller sp st i c u x now stamp = (Inr (Some j), st')"
  shows "py_strip (wi_run_id j) = py_strip (wi_run_id i)"
  using assms by (cases rule: frontier_write_cases) (auto dest: written_run)

interpretation runs_pass: controller_pass "\<lambda>s s'. st_runs s' = st_runs s" "\<lambda>_. True" c for c
  by unfold_locales (auto simp: write_respects_def reflp_def transp_def dest: frontier_write_runs)

definition run_past :: "store \<Rightarrow> string \<Rightarrow> int \<Rightarrow> bool" where
  "run_past st rid g \<longleftrightarrow> (case get_run st rid of None \<Rightarrow> False | Some r \<Rightarrow> g < rn_generation r)"

lemma run_past_write:
  assumes "run_past st (py_strip (wi_run_id i)) (cr_generation c)"
  shows "snd (update_delegation_work_item_dependency_frontier_for_controller sp st i c u x now stamp) = st"
proof (cases rule: frontier_write_cases [OF surjective_pairing [of
    "update_delegation_work_item_dependency_frontier_for_controller sp st i c u x now stamp"]])
  case (2 item row j st1 st2)
  with assms show ?thesis
    by (auto simp: run_past_def credential_lease_current_def cleaned_credential_def split: option.splits)
qed simp

interpretation stale_pass: controller_pass
  "\<lambda>s s'. run_past s rid (cr_generation c) \<longrightarrow> s' = s" "\<lambda>i. py_strip (wi_run_id i) = rid" c for rid c
proof unfold_locales
  show "write_respects (\<lambda>s s'. run_past s rid (cr_generation c) \<longrightarrow> s' = s)
          (\<lambda>i. py_strip (wi_run_id i) = rid) (cleaned_credential c)"
    unfolding write_respects_def
  proof (intro allI impI conjI)
    fix sp st i u x now stamp res st'
    assume run: "py_strip (wi_run_id i) = rid"
      and w: "update_delegation_work_item_dependency_frontier_for_controller sp st i (cleaned_credential c)
                u x now stamp = (res, st')"
    show "st' = st" if "run_past st rid (cr_generation c)"
      using run_past_write [of st i "cleaned_credential c" sp u x now stamp] that run w
      by (simp add: cleaned_credential_def)
    show "py_strip (wi_run_id j) = rid" if "res = Inr (Some j)" for j
      using frontier_write_result_run w run that by blast
  qed
qed (auto simp: reflp_def transp_def)

lemma run_past_refresh:
  assumes "run_past st (py_strip rid) (cr_generation c)"
  shows "snd (refresh_dependents_for_controller sp in_flight st rid c now stamp) = st"
  using stale_pass.refresh [of st rid "py_strip rid" c sp in_flight now stamp] assms
  by (auto simp: list_delegation_work_items_def)

lemma run_past_moved:
  "run_past st (af_run_id f) (af_generation f) \<Longrightarrow> 0 \<le> af_generation f \<Longrightarrow> moved_past st f"
  by (auto simp: run_past_def moved_past_def split: option.splits)

lemma run_past_mono: "run_past st rid g \<Longrightarrow> h \<le> g \<Longrightarrow> run_past st rid h"
  by (auto simp: run_past_def split: option.splits)

text \<open>The transaction of a transition that commits.\<close>

lemma transition_rows_cases:
  assumes "transition_claimed_rows sp st wid t target rq sid now stamp = (Inr (row, j, st2), t1)"
  obtains st1 where "company_controller_task_fence_matches st t now" "get_item st wid = Some row"
      "(wid, py_strip (tk_id t)) \<in> set (st_links st)"
      "validate_transition (Some (wi_phase row)) target = Inr ()"
      "protect_delegate_work_identity (transitioned_item row target rq now stamp) (Some row) = Inr j"
      "wi_run_id row = af_run_id (company_controller_task_fence t)"
      "attempt_seq_of row = af_attempt_seq (company_controller_task_fence t)"
      "claimed_by_task row (py_strip (tk_id t))"
      "credential_lease_current st (wi_run_id row)
         \<lparr>cr_project_id = clean_project_id (tk_project_id t),
          cr_owner_token = af_owner_token (company_controller_task_fence t),
          cr_generation = af_generation (company_controller_task_fence t)\<rparr> now"
      "release_session (put_item st (transition_columns row j)) sid
         (af_run_id (company_controller_task_fence t)) now = Inr st1"
      "save_task_row sp st1 (t\<lparr>tk_status := task_status_for_phase target\<rparr>) = (Inr (), t1, st2)"
  using assms
  by (auto simp: transition_claimed_rows_def Let_def bind_result_Inr_iff
      split: if_splits option.splits sum.splits prod.splits)

text \<open>A transition either fails with nothing written, or commits and then refreshes the dependents.\<close>

lemma transition_cases:
  assumes "transition_claimed_work_item_and_task_for_controller sp in_flight st wid t target rq sid now stamp
             = (res, t1, st')"
  obtains (failed) "\<exists>e. res = Inl e" "st' = st"
  | (committed) p row j st1 where "coerce_phase target = Inr p"
      "transition_claimed_rows sp st (py_strip wid) t p rq (py_strip sid) now stamp = (Inr (row, j, st1), t1)"
      "st' = (let st2 = on_phase_transition True (phase_hooks now stamp) (Some (wi_phase row)) p j st1
              in if p \<in> DONE_PHASES \<or> p \<in> {AWAITING_HUMAN, READY_FOR_REWORK}
                 then snd (refresh_dependents_for_controller sp in_flight st2
                             (af_run_id (company_controller_task_fence t))
                             \<lparr>cr_project_id = clean_project_id (tk_project_id t),
                              cr_owner_token = af_owner_token (company_controller_task_fence t),
                              cr_generation = af_generation (company_controller_task_fence t)\<rparr> now stamp)
                 else st2)"
proof (cases "coerce_phase target")
  case (Inl e)
  with assms show ?thesis
    by (intro failed)
       (auto simp: transition_claimed_work_item_and_task_for_controller_def Let_def split: if_splits)
next
  case (Inr p)
  obtain out t2 where rows: "transition_claimed_rows sp st (py_strip wid) t p rq (py_strip sid) now stamp = (out, t2)"
    by fastforce
  show ?thesis
  proof (cases "py_strip wid = [] \<or> \<not> fence_complete (company_controller_task_fence t)")
    case True
    with assms Inr show ?thesis
      by (intro failed)
         (auto simp: transition_claimed_work_item_and_task_for_controller_def Let_def split: if_splits)
  next
    case False
    show ?thesis
    proof (cases out)
      case (Inl e)
      with assms Inr rows False \<open>coerce_phase target = Inr p\<close> show ?thesis
        by (intro failed) (auto simp: transition_claimed_work_item_and_task_for_controller_def Let_def)
    next
      case (Inr w)
      obtain row j st1 where w: "w = (row, j, st1)" by (cases w)
      show ?thesis
        using assms rows False \<open>coerce_phase target = Inr p\<close> Inr w
        by (intro committed [of p row j st1])
           (auto simp: transition_claimed_work_item_and_task_for_controller_def Let_def
            split: if_splits sum.splits prod.splits)
    qed
  qed
qed

lemma transition_runs:
  assumes "transition_claimed_work_item_and_task_for_controller sp in_flight st wid t target rq sid now stamp
             = (res, t1, st')"
  shows "st_runs st' = st_runs st"
  using assms
proof (cases rule: transition_cases)
  case (committed p row j st1)
  from committed(2) have "st_runs st1 = st_runs st"
    by (rule transition_rows_cases) (auto dest!: release_session_keeps save_row_keeps)
  then show ?thesis using committed(3) by (auto simp: Let_def runs_pass.refresh)
qed simp

lemma transition_keeps_runs:
  "st_runs (snd (snd (transition_claimed_work_item_and_task_for_controller sp in_flight st wid t target rq sid now stamp)))
     = st_runs st"
  by (cases "transition_claimed_work_item_and_task_for_controller sp in_flight st wid t target rq sid now stamp")
     (simp add: transition_runs)

lemma moved_past_transition:
  assumes "moved_past st (company_controller_task_fence t)"
  shows "snd (snd (transition_claimed_work_item_and_task_for_controller sp in_flight st wid t target rq sid now stamp)) = st"
proof -
  obtain res t1 st' where w: "transition_claimed_work_item_and_task_for_controller sp in_flight st wid t target
      rq sid now stamp = (res, t1, st')" by (metis prod_cases3)
  then have "st' = st"
  proof (cases rule: transition_cases)
    case (committed p row j st1)
    from committed(2) show ?thesis
      by (rule transition_rows_cases) (use moved_past_fence [OF assms] in blast)
  qed simp
  with w show ?thesis by simp
qed

lemma fenced_save_done:
  "save_task_for_company_controller sp st t now = (Inr r, t', st') \<Longrightarrow> save_task_row sp st t = (Inr r, t', st')"
  by (auto simp: save_task_for_company_controller_def split: if_splits)

lemma subagent_save_done:
  "save_company_runtime_subagent_task sp subs st t now = (Inr r, t', st') \<Longrightarrow> save_task_row sp st t = (Inr r, t', st')"
  by (auto simp: save_company_runtime_subagent_task_def Let_def
      split: if_splits option.splits sum.splits bool.splits)

lemma auxiliary_save_done:
  "save_company_runtime_auxiliary_task sp st t now = (Inr r, t', st') \<Longrightarrow> save_task_row sp st t = (Inr r, t', st')"
  by (auto simp: save_company_runtime_auxiliary_task_def Let_def split: if_splits sum.splits)

lemma save_task_done:
  "save_task sp subs st t now = (Inr r, t', st') \<Longrightarrow> save_task_row sp st t = (Inr r, t', st')"
  by (auto simp: save_task_def Let_def
      dest: fenced_save_done subagent_save_done auxiliary_save_done split: if_splits)

lemma save_task_runs: "st_runs (snd (snd (save_task sp subs st t now))) = st_runs st"
proof (cases "save_task sp subs st t now")
  case (fields r t' st')
  then show ?thesis
    by (cases r) (auto dest: save_task_error save_task_done save_row_keeps)
qed

section \<open>Histories of a run\<close>

text \<open>Lease operations and the writes of controllers in any order, each with its own clock.\<close>

datatype controller_op =
    SaveOp "subagent_run list" task
  | FrontierOp work_item controller_credential item_update frontier_extra
  | RefreshOp "string set" string controller_credential
  | TransitionOp "string set" string task phase_arg transition_request string

fun controller_step :: "string \<Rightarrow> int \<Rightarrow> string \<Rightarrow> controller_op \<Rightarrow> store \<Rightarrow> store" where
  "controller_step sp now stamp (SaveOp subs t) st = snd (snd (save_task sp subs st t now))"
| "controller_step sp now stamp (FrontierOp i c u x) st =
     snd (update_delegation_work_item_dependency_frontier_for_controller sp st i c u x now stamp)"
| "controller_step sp now stamp (RefreshOp in_flight rid c) st =
     snd (refresh_dependents_for_controller sp in_flight st rid c now stamp)"
| "controller_step sp now stamp (TransitionOp in_flight wid t target rq sid) st =
     snd (snd (transition_claimed_work_item_and_task_for_controller sp in_flight st wid t target rq sid now stamp))"

fun op_credential :: "controller_op \<Rightarrow> string \<times> string \<times> int" where
  "op_credential (SaveOp subs t) =
     (let f = company_controller_task_fence t in (af_run_id f, af_owner_token f, af_generation f))"
| "op_credential (FrontierOp i c u x) = (py_strip (wi_run_id i), py_strip (cr_owner_token c), cr_generation c)"
| "op_credential (RefreshOp in_flight rid c) = (py_strip rid, py_strip (cr_owner_token c), cr_generation c)"
| "op_credential (TransitionOp in_flight wid t target rq sid) =
     (let f = company_controller_task_fence t in (af_run_id f, af_owner_token f, af_generation f))"

datatype run_event = ByLease lease_op | ByController int string controller_op

fun happens :: "string \<Rightarrow> run_event \<Rightarrow> store \<Rightarrow> store" where
  "happens sp (ByLease op) st = snd (lease_step st op)"
| "happens sp (ByController now stamp op) st = controller_step sp now stamp op st"

definition run_history :: "string \<Rightarrow> run_event list \<Rightarrow> store \<Rightarrow> store" where
  "run_history sp es st = fold (happens sp) es st"

text \<open>A write with a credential of generation \<open>g\<close> or before.\<close>

fun stale_event :: "string \<Rightarrow> int \<Rightarrow> run_event \<Rightarrow> bool" where
  "stale_event rid g (ByLease op) = False"
| "stale_event rid g (ByController now stamp op) =
     (case op_credential op of (run_id, token, generation) \<Rightarrow> run_id = rid \<and> token \<noteq> [] \<and> generation \<le> g)"

lemma run_past_bound: "run_past st rid g \<longleftrightarrow> (\<exists>t. credential_bound rid t (g + 1) st)"
  by (auto simp: run_past_def credential_bound_def split: option.splits)

lemma run_past_event:
  assumes "run_past st rid g"
  shows "run_past (happens sp e st) rid g"
proof (cases e)
  case (ByLease op)
  obtain t where "credential_bound rid t (g + 1) st" using assms by (auto simp: run_past_bound)
  from lease_step_bound [OF this, of op] show ?thesis
    using ByLease by (auto simp: run_past_bound)
next
  case (ByController now stamp op)
  have "st_runs (controller_step sp now stamp op st) = st_runs st"
    by (cases op)
       (simp_all add: save_task_runs runs_pass.refresh frontier_write_runs [OF surjective_pairing] transition_keeps_runs)
  then show ?thesis using assms ByController by (simp add: run_past_def get_run_def)
qed

lemma stale_event_noop:
  assumes "run_past st rid g" "0 \<le> g" "stale_event rid g e"
  shows "happens sp e st = st"
proof -
  from assms(3) obtain now stamp op where e: "e = ByController now stamp op" by (cases e) auto
  have moved: "moved_past st f" if "af_run_id f = rid" "af_generation f \<le> g" for f
    using assms(1,2) that by (auto simp: run_past_def moved_past_def split: option.splits)
  show ?thesis
  proof (cases op)
    case (SaveOp subs t)
    then obtain err where "save_task sp subs st t now = (Inl err, t, st)"
      using moved_past_save [OF moved, of t sp subs now] assms(3) e by (auto simp: Let_def)
    then show ?thesis using e SaveOp by simp
  next
    case (FrontierOp i c u x)
    with assms e show ?thesis using run_past_write run_past_mono by auto
  next
    case (RefreshOp in_flight r c)
    with assms e show ?thesis using run_past_refresh run_past_mono by auto
  next
    case (TransitionOp in_flight wid t target rq sid)
    with assms(3) e show ?thesis
      using moved_past_transition [OF moved] by (auto simp: Let_def)
  qed
qed

text \<open>
  C1. A controller that lost the lease is invisible.  Once the run is past generation \<open>g\<close>, take
  any history of lease operations and of writes by any controllers, saves of tasks, of subagents
  and of auxiliary turns, writes of the dependency frontier, whole refreshes and transitions of
  claimed cards, in any order and at any times.  Leaving out every write that carries a
  credential of generation \<open>g\<close> or before gives the same final store.
\<close>

theorem stale_controller_is_invisible:
  assumes "get_run st rid = Some r" "g < rn_generation r" "0 \<le> g"
  shows "run_history sp es st = run_history sp (filter (\<lambda>e. \<not> stale_event rid g e) es) st"
proof -
  have "run_past st rid g" using assms(1,2) by (simp add: run_past_def)
  then show ?thesis
  proof (induction es arbitrary: st)
    case (Cons e es)
    from Cons.IH [OF run_past_event [OF Cons.prems, of sp e]] stale_event_noop [OF Cons.prems assms(3), of e sp]
    show ?case by (auto simp: run_history_def)
  qed (simp add: run_history_def)
qed

definition taken_over_store :: store where
  "taken_over_store = retried_store\<lparr>st_runs := [leased_run ''b'' 2 200]\<rparr>"

definition renewal :: run_event where
  "renewal = ByLease (Renew ''r'' ''p'' ''s'' ''b'' 2 5 100)"

definition late_save :: run_event where
  "late_save = ByController 100 ''now'' (SaveOp [] (attempt_task ''a'' 1 1))"

definition late_refresh :: run_event where
  "late_refresh = ByController 101 ''now''
     (RefreshOp {} ''r'' \<lparr>cr_project_id = ''p'', cr_owner_token = ''a'', cr_generation = 1\<rparr>)"

theorem stale_controller_is_invisible_witness:
  "run_history ''p'' [late_save, renewal, late_refresh] taken_over_store = run_history ''p'' [renewal] taken_over_store"
proof -
  have run: "get_run taken_over_store ''r'' = Some (leased_run ''b'' 2 200)"
    by (simp add: taken_over_store_def get_run_def leased_run_def)
  have "filter (\<lambda>e. \<not> stale_event ''r'' 1 e) [late_save, renewal, late_refresh] = [renewal]"
    by (simp add: late_save_def renewal_def late_refresh_def attempt_task_fence Let_def str_simps)
  then show ?thesis
    using stale_controller_is_invisible [OF run, of 1 "''p''" "[late_save, renewal, late_refresh]"]
    by (simp add: leased_run_def)
qed

section \<open>Both rows of a transition\<close>

lemma merge_keeps_row:
  assumes "merge_store_owned_task_fields_before_save st t = (Inr (), t1)"
  shows "tk_id t1 = tk_id t \<and> tk_status t1 = tk_status t"
  using assms
  by (auto simp: merge_store_owned_task_fields_before_save_def scrub_new_task_def
      merge_store_owned_task_runtime_ledger_def Let_def split: option.splits sum.splits if_splits prod.splits)

lemma saved_task_row:
  assumes "save_task_row sp st t = (Inr (), t1, st')"
  shows "\<exists>row. task_row st' (tk_id t) = Some row \<and> tk_status row = tk_status t"
  using assms
proof (cases rule: save_task_row_cases)
  case (saved t2 row)
  then show ?thesis using merge_keeps_row [OF saved(2)] by (simp add: task_row_def find_put_task_row)
qed simp

lemma transition_columns_fields [simp]:
  "wi_work_item_id (transition_columns row j) = wi_work_item_id row"
  "wi_phase (transition_columns row j) = wi_phase j" "wi_metadata (transition_columns row j) = wi_metadata j"
  by (simp_all add: transition_columns_def frontier_columns_def)

lemma dget_or_dupdate_other: "k \<notin> fst ` set u \<Longrightarrow> dget_or (dupdate d u) k w = dget_or d k w"
  by (induction u arbitrary: d) auto

lemma transitioned_settled:
  assumes "target \<noteq> RUNNING" "\<not> dhas (tr_metadata rq) ''attempt_settled''" "\<not> dhas (tr_metadata rq) ''attempt_seq''"
  shows "wi_phase (transitioned_item i target rq now stamp) = target \<and>
         \<not> has_open_attempt (wi_metadata (transitioned_item i target rq now stamp))"
proof -
  obtain outcome where settled: "\<not> has_open_attempt (dupdate (wi_metadata i)
      (build_attempt_settlement_updates (wi_metadata i) outcome stamp))" and
    out: "outcome = (case tr_attempt_outcome rq of None \<Rightarrow> phase_value target
            | Some s \<Rightarrow> if s = [] then phase_value target else s)"
    using settlement_closes by blast
  have keys: "''attempt_settled'' \<notin> fst ` set (tr_metadata rq)" "''attempt_seq'' \<notin> fst ` set (tr_metadata rq)"
    using assms(2,3) by (simp_all add: dhas_iff)
  show ?thesis
    using settled assms keys unfolding out
    by (simp add: transitioned_item_def release_ownership_def Let_def has_open_attempt_def attempt_ledger_int_def
        dget_dupdate_other dget_or_dupdate_other)
qed

lemma protect_open_attempt:
  "protect_delegate_work_identity i old = Inr j \<Longrightarrow> has_open_attempt (wi_metadata j) = has_open_attempt (wi_metadata i)"
  using protect_get [of i old j "''attempt_seq''"] protect_get [of i old j "''attempt_settled''"]
    protect_has [of i old j "''attempt_settled''"]
  by (simp add: has_open_attempt_def attempt_ledger_int_def dget_or_def dget_def dhas_def
      DELEGATE_WORK_RESERVED_METADATA_KEYS_def split: option.splits)

lemma transition_rows_spec:
  assumes "transition_claimed_rows sp st wid t target rq sid now stamp = (Inr (row, j, st1), t1)"
    and "\<not> dhas (tr_metadata rq) ''attempt_settled''" "\<not> dhas (tr_metadata rq) ''attempt_seq''"
  shows "get_item st wid = Some row \<and> get_item st1 wid = Some (transition_columns row j) \<and>
         (\<forall>other. other \<noteq> wid \<longrightarrow> get_item st1 other = get_item st other) \<and>
         wi_phase j = target \<and> validate_transition (Some (wi_phase row)) target = Inr () \<and>
         (target = RUNNING \<or> \<not> has_open_attempt (wi_metadata j)) \<and>
         (\<exists>saved. task_row st1 (tk_id t) = Some saved \<and> tk_status saved = task_status_for_phase target) \<and>
         attempt_seq_of row = af_attempt_seq (company_controller_task_fence t) \<and>
         (wid, py_strip (tk_id t)) \<in> set (st_links st) \<and>
         (\<exists>r. get_run st (wi_run_id row) = Some r \<and> lease_live r now \<and>
              rn_owner_token r = af_owner_token (company_controller_task_fence t) \<and>
              rn_generation r = af_generation (company_controller_task_fence t))"
  using assms(1)
proof (rule transition_rows_cases)
  fix st2
  assume row: "get_item st wid = Some row" "(wid, py_strip (tk_id t)) \<in> set (st_links st)"
      "validate_transition (Some (wi_phase row)) target = Inr ()"
      "attempt_seq_of row = af_attempt_seq (company_controller_task_fence t)"
    and protect: "protect_delegate_work_identity (transitioned_item row target rq now stamp) (Some row) = Inr j"
    and lease: "credential_lease_current st (wi_run_id row)
         \<lparr>cr_project_id = clean_project_id (tk_project_id t),
          cr_owner_token = af_owner_token (company_controller_task_fence t),
          cr_generation = af_generation (company_controller_task_fence t)\<rparr> now"
    and release: "release_session (put_item st (transition_columns row j)) sid
         (af_run_id (company_controller_task_fence t)) now = Inr st2"
    and save: "save_task_row sp st2 (t\<lparr>tk_status := task_status_for_phase target\<rparr>) = (Inr (), t1, st1)"
  have items: "st_items st1 = st_items (put_item st (transition_columns row j))"
    using release_session_keeps [OF release] save_row_keeps [OF save] by simp
  have get: "get_item st1 other = (if other = wid then Some (transition_columns row j) else get_item st other)" for other
    using items get_item_id [OF row(1)] get_item_put_item [of st "transition_columns row j" other]
    by (simp add: get_item_def)
  have phase: "wi_phase j = target \<and> (target = RUNNING \<or> \<not> has_open_attempt (wi_metadata j))"
    using protect_fields [OF protect] protect_open_attempt [OF protect] transitioned_settled [OF _ assms(2,3)]
    by (cases "target = RUNNING") (simp_all add: transitioned_item_def release_ownership_def Let_def)
  have "\<exists>saved. task_row st1 (tk_id t) = Some saved \<and> tk_status saved = task_status_for_phase target"
    using saved_task_row [OF save] by simp
  with row get phase lease show ?thesis
    by (auto simp: credential_lease_current_def split: option.splits)
qed

definition after_commit ::
  "string \<Rightarrow> string set \<Rightarrow> store \<Rightarrow> task \<Rightarrow> phase \<Rightarrow> phase \<Rightarrow> work_item \<Rightarrow> int \<Rightarrow> string \<Rightarrow> store" where
  "after_commit sp in_flight st1 t previous p j now stamp =
     (let st2 = on_phase_transition True (phase_hooks now stamp) (Some previous) p j st1;
          f = company_controller_task_fence t
      in if p \<in> DONE_PHASES \<or> p \<in> {AWAITING_HUMAN, READY_FOR_REWORK}
         then snd (refresh_dependents_for_controller sp in_flight st2 (af_run_id f)
                     \<lparr>cr_project_id = clean_project_id (tk_project_id t), cr_owner_token = af_owner_token f,
                      cr_generation = af_generation f\<rparr> now stamp)
         else st2)"

text \<open>
  C2. A controller moves a card and its task in one step or not at all.  Either the call raises
  and the store is untouched, or the card exists, the edge is in the phase table, the run's lease
  is live and is the one of the task's credential, the card's attempt number is the task's, and
  the committed store has the card in the target phase with no attempt left open, the row of the
  task with the projected status, and every other card as before; what follows the commit is the
  wake of the dispatcher and, for the phases that settle a dependency, the fenced refresh.
\<close>

theorem controller_transition_is_atomic:
  assumes "transition_claimed_work_item_and_task_for_controller sp in_flight st work_item_id t target rq sid now stamp
             = (res, t1, st')" and "py_strip work_item_id = wid"
    and "\<not> dhas (tr_metadata rq) ''attempt_settled''" "\<not> dhas (tr_metadata rq) ''attempt_seq''"
    and "company_controller_task_fence t = f"
  shows "(\<exists>e. res = Inl e) \<and> st' = st \<or>
         (\<exists>p row j st1 saved r. coerce_phase target = Inr p \<and> get_item st wid = Some row \<and>
            validate_transition (Some (wi_phase row)) p = Inr () \<and>
            get_run st (wi_run_id row) = Some r \<and> lease_live r now \<and> rn_owner_token r = af_owner_token f \<and>
            rn_generation r = af_generation f \<and> attempt_seq_of row = af_attempt_seq f \<and>
            (wid, py_strip (tk_id t)) \<in> set (st_links st) \<and>
            get_item st1 wid = Some (transition_columns row j) \<and> wi_phase j = p \<and>
            (p = RUNNING \<or> \<not> has_open_attempt (wi_metadata j)) \<and>
            (\<forall>other. other \<noteq> wid \<longrightarrow> get_item st1 other = get_item st other) \<and>
            task_row st1 (tk_id t) = Some saved \<and> tk_status saved = task_status_for_phase p \<and>
            st' = after_commit sp in_flight st1 t (wi_phase row) p j now stamp)"
  using assms(1)
proof (cases rule: transition_cases)
  case (committed p row j st1)
  note spec = transition_rows_spec [OF committed(2) assms(3,4), unfolded assms(2,5)]
  have after: "st' = after_commit sp in_flight st1 t (wi_phase row) p j now stamp"
    using committed(3) by (simp add: after_commit_def Let_def)
  obtain saved r where "task_row st1 (tk_id t) = Some saved" "tk_status saved = task_status_for_phase p"
    "get_run st (wi_run_id row) = Some r" "lease_live r now" "rn_owner_token r = af_owner_token f"
    "rn_generation r = af_generation f"
    using spec by blast
  then show ?thesis
    using spec committed(1) after by (intro disjI2 exI [of _ p] exI [of _ row] exI [of _ j] exI [of _ st1]
        exI [of _ saved] exI [of _ r]) simp
qed simp

definition owned_card_row :: work_item where
  "owned_card_row =
     (new_work_item ''w'')\<lparr>wi_run_id := ''r'', wi_phase := RUNNING,
        wi_metadata := [(''attempt_seq'', PInt 2), (''attempt_settled'', PBool False),
                        (''claimed_task_id'', PStr ''task'')]\<rparr>"

definition owned_store :: store where
  "owned_store =
     (put_item (empty_store\<lparr>st_runs := [leased_run ''a'' 1 100]\<rparr>) owned_card_row)
       \<lparr>st_links := [(''w'', ''task'')]\<rparr>"

lemma owned_store_rows:
  "get_item owned_store ''w'' = Some owned_card_row" "get_run owned_store ''r'' = Some (leased_run ''a'' 1 100)"
  "st_links owned_store = [(''w'', ''task'')]" "st_tasks owned_store = []"
  by (simp_all add: owned_store_def owned_card_row_def get_item_def get_run_def leased_run_def put_item_def
      new_work_item_def empty_store_def)

lemma owned_fence: "company_controller_task_fence_matches owned_store (attempt_task ''a'' 1 2) 50"
  by (simp add: company_controller_task_fence_matches_def attempt_task_fence attempt_task_fields Let_def
      fence_complete_def owned_card_def list_ex_iff owned_store_rows leased_run_def owned_card_row_def
      attempt_seq_of_def cast_integer_or_0_def claimed_by_task_def not_held_def sql_blank_def
      clean_project_id_def lease_live_def new_work_item_def str_simps)

lemma owned_save:
  "\<exists>t1 st'. save_task_row ''p'' (put_item owned_store j) ((attempt_task ''a'' 1 2)\<lparr>tk_status := s\<rparr>) = (Inr (), t1, st')"
proof -
  have "\<exists>t1. merge_store_owned_task_fields_before_save (put_item owned_store j)
          ((attempt_task ''a'' 1 2)\<lparr>tk_status := s\<rparr>) = (Inr (), t1)"
    by (simp add: merge_store_owned_task_fields_before_save_def task_row_def owned_store_rows scrub_new_task_def
        attempt_task_def new_task_def dict_or_empty_def runtime_ids_def Let_def str_simps
        split: prod.split)
  then show ?thesis
    by (auto simp: save_task_row_def assert_project_write_scope_def attempt_task_def new_task_def Let_def)
qed

lemma owned_protect:
  "\<exists>j. protect_delegate_work_identity
     (transitioned_item owned_card_row AWAITING_MANAGER_REVIEW (request ''finished'') 50 ''now'') (Some owned_card_row) = Inr j"
  by (simp add: protect_delegate_work_identity_def DELEGATE_WORK_RESERVED_METADATA_KEYS_def transitioned_item_def
      owned_card_row_def new_work_item_def request_def release_ownership_def build_attempt_settlement_updates_def Let_def)

lemma owned_transition:
  "\<exists>j t1 st'. transition_claimed_work_item_and_task_for_controller ''p'' {} owned_store ''w'' (attempt_task ''a'' 1 2)
     (PhaseArg AWAITING_MANAGER_REVIEW) (request ''finished'') [] 50 ''now'' = (Inr j, t1, st')"
proof -
  let ?t = "attempt_task ''a'' 1 2" and ?p = AWAITING_MANAGER_REVIEW
  have strip: "py_strip ''w'' = ''w''" "py_strip ''task'' = ''task''" "py_strip ''r'' = ''r''" "clean_project_id ''p'' = ''p''"
    by (simp_all add: clean_project_id_def str_simps)
  obtain j where j: "protect_delegate_work_identity
     (transitioned_item owned_card_row ?p (request ''finished'') 50 ''now'') (Some owned_card_row) = Inr j"
    using owned_protect by blast
  obtain t1 st2 where save: "save_task_row ''p'' (put_item owned_store (transition_columns owned_card_row j))
      (?t\<lparr>tk_status := task_status_for_phase ?p\<rparr>) = (Inr (), t1, st2)" using owned_save by blast
  have row: "wi_run_id owned_card_row = ''r''" "wi_phase owned_card_row = RUNNING" "attempt_seq_of owned_card_row = 2"
    "claimed_by_task owned_card_row ''task''"
    by (simp_all add: owned_card_row_def new_work_item_def attempt_seq_of_def cast_integer_or_0_def claimed_by_task_def)
  have v: "validate_transition (Some RUNNING) ?p = Inr ()" by (simp add: validate_transition_def)
  have "transition_claimed_rows ''p'' owned_store ''w'' ?t ?p (request ''finished'') [] 50 ''now''
      = (Inr (owned_card_row, j, st2), t1)"
    using j save
    by (simp add: transition_claimed_rows_def attempt_task_fence attempt_task_fields owned_fence owned_store_rows
        strip row released_session_ok_def release_session_def v
        credential_lease_current_def leased_run_def lease_live_def Let_def)
  then show ?thesis
    by (simp add: transition_claimed_work_item_and_task_for_controller_def attempt_task_fence fence_complete_def
        strip phase_sets Let_def)
qed

theorem controller_transition_is_atomic_witness:
  "\<exists>j t1 st' k saved. transition_claimed_work_item_and_task_for_controller ''p'' {} owned_store ''w''
     (attempt_task ''a'' 1 2) (PhaseArg AWAITING_MANAGER_REVIEW) (request ''finished'') [] 50 ''now'' = (Inr j, t1, st') \<and>
     get_item st' ''w'' = Some k \<and> wi_phase k = AWAITING_MANAGER_REVIEW \<and> \<not> has_open_attempt (wi_metadata k) \<and>
     task_row st' ''task'' = Some saved \<and> tk_status saved = TS_AWAITING_MANAGER_REVIEW"
proof -
  obtain j t1 st' where t: "transition_claimed_work_item_and_task_for_controller ''p'' {} owned_store ''w''
     (attempt_task ''a'' 1 2) (PhaseArg AWAITING_MANAGER_REVIEW) (request ''finished'') [] 50 ''now'' = (Inr j, t1, st')"
    using owned_transition by blast
  have w: "py_strip ''w'' = ''w''" by (simp add: str_simps)
  have rq: "\<not> dhas (tr_metadata (request ''finished'')) k" for k by (simp add: request_def)
  obtain row k st1 saved where "get_item st1 ''w'' = Some (transition_columns row k)"
    "wi_phase k = AWAITING_MANAGER_REVIEW" "\<not> has_open_attempt (wi_metadata k)"
    "task_row st1 ''task'' = Some saved" "tk_status saved = TS_AWAITING_MANAGER_REVIEW"
    "st' = after_commit ''p'' {} st1 (attempt_task ''a'' 1 2) (wi_phase row) AWAITING_MANAGER_REVIEW k 50 ''now''"
    using controller_transition_is_atomic [OF t w rq rq refl] by (auto simp: attempt_task_fields)
  then show ?thesis
    using t by (auto simp: after_commit_def phase_sets Let_def task_row_def)
qed

section \<open>Racing writes of the frontier\<close>

lemma find_status:
  "find (\<lambda>t. tk_id t = tid) (map (\<lambda>t. if tk_id t = tid \<and> P t then t\<lparr>tk_status := s\<rparr> else t) ts) =
     map_option (\<lambda>t. if P t then t\<lparr>tk_status := s\<rparr> else t) (find (\<lambda>t. tk_id t = tid) ts)"
  by (induction ts) auto

lemma projected_task:
  assumes "project_linked_task sp st c x j = Inr st1" "linked_task_id st (py_strip (wi_work_item_id j)) = tid"
    and "tid \<noteq> []" "task_row st1 tid = Some t" "tk_project_id t = cr_project_id c"
  shows "tk_status t = task_status_for_phase (wi_phase j)"
proof (cases "py_strip (fe_wake_session x) = [] \<and> fe_linked_updates x = []")
  case True
  then have "st1 = st\<lparr>st_tasks := map (\<lambda>t. if tk_id t = tid \<and> tk_project_id t = cr_project_id c
               then t\<lparr>tk_status := task_status_for_phase (wi_phase j)\<rparr> else t) (st_tasks st)\<rparr>"
    using assms(1-3) by (simp add: project_linked_task_def Let_def)
  then have "\<exists>u. find (\<lambda>t. tk_id t = tid) (st_tasks st) = Some u \<and>
      (if tk_project_id u = cr_project_id c
       then u\<lparr>tk_status := task_status_for_phase (wi_phase j)\<rparr> else u) = t"
    using assms(4) by (simp add: task_row_def find_status)
  then obtain u where u: "(if tk_project_id u = cr_project_id c
      then u\<lparr>tk_status := task_status_for_phase (wi_phase j)\<rparr> else u) = t" by auto
  then have "tk_project_id u = cr_project_id c" using assms(5) by (cases "tk_project_id u = cr_project_id c") simp_all
  then show ?thesis using u by auto
next
  case False
  then obtain u t1 where u: "task_row st tid = Some u"
    "save_task_row sp st (u\<lparr>tk_status := task_status_for_phase (wi_phase j),
       tk_metadata := dupdate (tk_metadata u) (fe_linked_updates x)\<rparr>) = (Inr (), t1, st1)"
    using assms(1-3) by (auto simp: project_linked_task_def Let_def split: option.splits if_splits sum.splits prod.splits)
  then show ?thesis
    using saved_task_row [OF u(2)] assms(4) task_row_id [OF u(1)] by auto
qed

lemma frontier_columns_fields [simp]:
  "wi_work_item_id (frontier_columns row j) = wi_work_item_id row" "wi_phase (frontier_columns row j) = wi_phase j"
  "wi_updated_at (frontier_columns row j) = wi_updated_at j"
  by (simp_all add: frontier_columns_def)

text \<open>
  C3. A write of the frontier is a compare-and-set.  When it succeeds, the row had the phase and
  the version of the caller's snapshot, the lease of the credential was live, the edge is in the
  phase table or is the invalidation of an approved delivery, the row has the new phase and
  version, its task the projected status, and the other cards are as before.  Every later write
  from the same snapshot, by this or another controller, then leaves the store alone.
\<close>

theorem frontier_write_is_compare_and_set:
  assumes "update_delegation_work_item_dependency_frontier_for_controller sp st i c u x now stamp = (Inr (Some j), st')"
    and "now \<noteq> wi_updated_at i" "py_strip (wi_work_item_id i) = wid"
  shows "(\<exists>row r. get_item st wid = Some row \<and> wi_phase row = wi_phase i \<and> wi_updated_at row = wi_updated_at i \<and>
            get_run st (py_strip (wi_run_id i)) = Some r \<and> lease_live r now \<and>
            rn_owner_token r = py_strip (cr_owner_token c) \<and> rn_generation r = cr_generation c \<and>
            (validate_transition (Some (wi_phase i)) (wi_phase j) = Inr () \<or>
             fe_allow_invalidation x \<and> wi_phase i = APPROVED \<and> wi_phase j \<in> {WAITING_DEPENDENCIES, READY_FOR_REWORK}) \<and>
            get_item st' wid = Some (frontier_columns row j) \<and> wi_updated_at j = now \<and>
            (\<forall>other. other \<noteq> wid \<longrightarrow> get_item st' other = get_item st other) \<and>
            (\<forall>t. linked_task_id st wid \<noteq> [] \<longrightarrow> task_row st' (linked_task_id st wid) = Some t \<longrightarrow>
               tk_project_id t = clean_project_id (cr_project_id c) \<longrightarrow>
               tk_status t = task_status_for_phase (wi_phase j))) \<and>
         snd (update_delegation_work_item_dependency_frontier_for_controller sp' st' i c' u' x' now' stamp') = st'"
  using assms(1)
proof (cases rule: frontier_write_cases)
  case (written item row j' st1 st2)
  have j: "j' = j" using written(10) by simp
  note copy = frontier_copy_fields [OF written(1)] and protect = protect_fields [OF written(3)] protect_row [OF written(3)]
  have wid: "wi_work_item_id row = wid" "py_strip (wi_work_item_id j) = wid"
    using get_item_id [OF written(2)] copy protect(1) assms(3) j by simp_all
  have items: "st_items st' = st_items (put_item st (frontier_columns row j))"
    using project_task_keeps [OF written(8)] wake_keeps [OF written(9)] written(11) j by simp
  have get: "get_item st' other = (if other = wid then Some (frontier_columns row j) else get_item st other)" for other
    using items wid get_item_put_item [of st "frontier_columns row j" other] by (simp add: get_item_def)
  have tasks: "task_row st' k = task_row st1 k" for k
    using wake_keeps [OF written(9)] written(11) by (simp add: task_row_def)
  have linked: "linked_task_id (put_item st (frontier_columns row j)) wid = linked_task_id st wid"
    by (simp add: linked_task_id_def)
  have task: "tk_status t = task_status_for_phase (wi_phase j)"
    if "linked_task_id st wid \<noteq> []" "task_row st' (linked_task_id st wid) = Some t"
      "tk_project_id t = clean_project_id (cr_project_id c)" for t
    using projected_task [OF written(8) [unfolded j], of "linked_task_id st wid" t] that wid linked tasks
    by (simp add: cleaned_credential_def)
  have second: "snd (update_delegation_work_item_dependency_frontier_for_controller sp' st' i c' u' x' now' stamp') = st'"
  proof (cases rule: frontier_write_cases [OF surjective_pairing [of
      "update_delegation_work_item_dependency_frontier_for_controller sp' st' i c' u' x' now' stamp'"]])
    case (2 item2 row2 j2 st3 st4)
    then have "wi_updated_at (frontier_columns row j) = wi_updated_at i" using get [of wid] assms(3) by simp
    then show ?thesis using copy protect(2) j assms(2) by simp
  qed simp
  show ?thesis
    using written(2,5-7) copy protect get task second j wid assms(3)
    by (auto simp: credential_lease_current_def cleaned_credential_def split: option.splits)
next
  case refused
  then show ?thesis by blast
qed

definition parked_row :: work_item where
  "parked_row = (new_work_item ''w'')\<lparr>wi_run_id := ''r'', wi_phase := WAITING_DEPENDENCIES\<rparr>"

definition parked_store :: store where
  "parked_store = (put_item (empty_store\<lparr>st_runs := [leased_run ''a'' 1 100]\<rparr>) parked_row)
     \<lparr>st_links := [(''w'', ''task'')], st_tasks := [attempt_task ''a'' 1 1]\<rparr>"

definition release_parked :: "controller_credential \<Rightarrow> store \<Rightarrow> work_item option result \<times> store" where
  "release_parked c st =
     update_delegation_work_item_dependency_frontier_for_controller ''p'' st parked_row c
       (no_update\<lparr>up_phase := Some READY\<rparr>) no_extra 50 ''now''"

lemma parked_rows:
  "get_item parked_store ''w'' = Some parked_row" "get_run parked_store ''r'' = Some (leased_run ''a'' 1 100)"
  "linked_task_id parked_store ''w'' = ''task''"
  by (simp_all add: parked_store_def parked_row_def get_item_def get_run_def leased_run_def put_item_def
      new_work_item_def empty_store_def linked_task_id_def str_simps)

lemma parked_items: "st_items parked_store = [parked_row]"
  by (simp add: parked_store_def put_item_def empty_store_def)

lemma parked_release:
  "\<exists>j st'. release_parked \<lparr>cr_project_id = ''p'', cr_owner_token = ''a'', cr_generation = 1\<rparr> parked_store = (Inr (Some j), st')"
proof -
  have strip: "py_strip ''w'' = ''w''" "py_strip ''r'' = ''r''" "py_strip ''p'' = ''p''" "py_strip ''a'' = ''a''"
    "clean_project_id ''p'' = ''p''"
    by (simp_all add: clean_project_id_def str_simps)
  have row: "wi_run_id parked_row = ''r''" "wi_work_item_id parked_row = ''w''" "wi_phase parked_row = WAITING_DEPENDENCIES"
    "wi_metadata parked_row = []"
    by (simp_all add: parked_row_def new_work_item_def)
  have v: "validate_transition (Some WAITING_DEPENDENCIES) READY = Inr ()" by (simp add: validate_transition_def)
  obtain item where copy: "frontier_copy parked_row (no_update\<lparr>up_phase := Some READY\<rparr>) no_extra ''r''
      \<lparr>cr_project_id = ''p'', cr_owner_token = ''a'', cr_generation = 1\<rparr> 50 = Inr item"
    by (simp add: frontier_copy_def no_update_def no_extra_def row v Let_def)
  have "protect_delegate_work_identity item (Some parked_row) = Inr item"
    using copy by (auto simp: frontier_copy_def no_update_def no_extra_def row v Let_def release_ownership_def
        protect_delegate_work_identity_def DELEGATE_WORK_RESERVED_METADATA_KEYS_def phase_sets)
  moreover have "require_company_controller_record_write parked_store ''r'' ''p'' ''a'' 1 50 True ''w'' [] [] [] [] = Inr ()"
    by (simp add: require_company_controller_record_write_def strip parked_rows leased_run_def lease_live_def
        parked_items row sql_blank_def Let_def)
  moreover have "linked_task_id (put_item parked_store k) wid = linked_task_id parked_store wid" for k wid
    by (simp add: linked_task_id_def)
  moreover have "wi_work_item_id item = ''w''"
    using frontier_copy_fields [OF copy] row by simp
  ultimately show ?thesis
    using copy
    by (simp add: release_parked_def update_delegation_work_item_dependency_frontier_for_controller_def
        cleaned_credential_def strip row parked_rows wake_session_ready_def wake_session_def no_extra_def
        credential_lease_current_def leased_run_def lease_live_def project_linked_task_def Let_def)
qed

theorem frontier_write_is_compare_and_set_witness:
  "\<exists>j st'. release_parked \<lparr>cr_project_id = ''p'', cr_owner_token = ''a'', cr_generation = 1\<rparr> parked_store = (Inr (Some j), st') \<and>
     get_item st' ''w'' = Some (frontier_columns parked_row j) \<and>
     snd (release_parked \<lparr>cr_project_id = ''p'', cr_owner_token = ''a'', cr_generation = 1\<rparr> st') = st'"
proof -
  obtain j st' where r: "release_parked \<lparr>cr_project_id = ''p'', cr_owner_token = ''a'', cr_generation = 1\<rparr> parked_store
      = (Inr (Some j), st')" using parked_release by blast
  have now: "(50::int) \<noteq> wi_updated_at parked_row" and wid: "py_strip (wi_work_item_id parked_row) = ''w''"
    by (simp_all add: parked_row_def new_work_item_def str_simps)
  from frontier_write_is_compare_and_set [OF r [unfolded release_parked_def] now wid, of "''p''"
      "\<lparr>cr_project_id = ''p'', cr_owner_token = ''a'', cr_generation = 1\<rparr>"
      "no_update\<lparr>up_phase := Some READY\<rparr>" no_extra 50 "''now''"] r
  show ?thesis by (auto simp: parked_rows release_parked_def)
qed

section \<open>The reach of a refresh\<close>

text \<open>
  The rows that any write of a refresh leaves alone: those of other runs, the links and the leases.
\<close>

definition card_kept :: "string \<Rightarrow> work_item option \<Rightarrow> work_item option \<Rightarrow> bool" where
  "card_kept rid old new \<longleftrightarrow>
     (case (old, new) of
        (None, None) \<Rightarrow> True
      | (Some a, Some b) \<Rightarrow> wi_run_id b = wi_run_id a \<and> (wi_run_id a = rid \<or> b = a)
      | _ \<Rightarrow> False)"

definition stays_in_run :: "string \<Rightarrow> store \<Rightarrow> store \<Rightarrow> bool" where
  "stays_in_run rid s s' \<longleftrightarrow>
     st_runs s' = st_runs s \<and> st_links s' = st_links s \<and>
     (\<forall>wid. card_kept rid (get_item s wid) (get_item s' wid))"

lemma card_kept_refl: "card_kept rid x x"
  by (simp add: card_kept_def split: option.split)

lemma card_kept_trans: "card_kept rid x y \<Longrightarrow> card_kept rid y z \<Longrightarrow> card_kept rid x z"
  by (auto simp: card_kept_def split: option.splits)

lemma frontier_columns_run [simp]: "wi_run_id (frontier_columns row j) = wi_run_id row"
  by (simp add: frontier_columns_def)

text \<open>One write: the row of its card alone, from the phase of the snapshot.\<close>

definition frontier_step :: "work_item \<Rightarrow> bool \<Rightarrow> phase \<Rightarrow> work_item option \<Rightarrow> work_item option \<Rightarrow> bool" where
  "frontier_step i invalidation q old new \<longleftrightarrow>
     (case (old, new) of
        (Some row, Some j) \<Rightarrow>
          wi_phase row = wi_phase i \<and> wi_phase j = q \<and>
          (validate_transition (Some (wi_phase i)) q = Inr () \<or>
           invalidation \<and> wi_phase i = APPROVED \<and> q \<in> {WAITING_DEPENDENCIES, READY_FOR_REWORK})
      | _ \<Rightarrow> False)"

lemma frontier_write_step:
  assumes "update_delegation_work_item_dependency_frontier_for_controller sp st i c u x now stamp = (res, st')"
  shows "st_links st' = st_links st"
    and "get_item st' wid = get_item st wid \<or>
      wid = py_strip (wi_work_item_id i) \<and>
      frontier_step i (fe_allow_invalidation x) (upd (up_phase u) (wi_phase i)) (get_item st wid) (get_item st' wid) \<and>
      map_option wi_run_id (get_item st wid) = Some (py_strip (wi_run_id i)) \<and>
      map_option wi_run_id (get_item st' wid) = Some (py_strip (wi_run_id i))"
    and "res = Inr (Some j) \<Longrightarrow> wi_work_item_id j = wi_work_item_id i"
proof -
  have "st_links st' = st_links st \<and>
    (get_item st' wid = get_item st wid \<or>
      wid = py_strip (wi_work_item_id i) \<and>
      frontier_step i (fe_allow_invalidation x) (upd (up_phase u) (wi_phase i)) (get_item st wid) (get_item st' wid) \<and>
      map_option wi_run_id (get_item st wid) = Some (py_strip (wi_run_id i)) \<and>
      map_option wi_run_id (get_item st' wid) = Some (py_strip (wi_run_id i))) \<and>
    (res = Inr (Some j) \<longrightarrow> wi_work_item_id j = wi_work_item_id i)"
    using assms
  proof (cases rule: frontier_write_cases)
    case (written item row k st1 st2)
    have id: "wi_work_item_id row = py_strip (wi_work_item_id i)" using get_item_id [OF written(2)] .
    have keeps: "st_items st' = st_items (put_item st (frontier_columns row k))" "st_links st' = st_links st"
      using project_task_keeps [OF written(8)] wake_keeps [OF written(9)] written(11) by simp_all
    then have get: "get_item st' wid = (if wi_work_item_id row = wid then Some (frontier_columns row k) else get_item st wid)"
      using get_item_put_item [of st "frontier_columns row k" wid] by (simp add: get_item_def)
    note copy = frontier_copy_fields [OF written(1)] and protect = protect_fields [OF written(3)]
    have "frontier_step i (fe_allow_invalidation x) (upd (up_phase u) (wi_phase i)) (Some row) (Some (frontier_columns row k))"
      using copy protect written(5) by (auto simp: frontier_step_def)
    with get id keeps(2) written(2,4,10) copy protect show ?thesis by auto
  qed simp
  then show "st_links st' = st_links st"
    "get_item st' wid = get_item st wid \<or>
      wid = py_strip (wi_work_item_id i) \<and>
      frontier_step i (fe_allow_invalidation x) (upd (up_phase u) (wi_phase i)) (get_item st wid) (get_item st' wid) \<and>
      map_option wi_run_id (get_item st wid) = Some (py_strip (wi_run_id i)) \<and>
      map_option wi_run_id (get_item st' wid) = Some (py_strip (wi_run_id i))"
    "res = Inr (Some j) \<Longrightarrow> wi_work_item_id j = wi_work_item_id i" by blast+
qed

lemma write_stays_in_run:
  assumes "update_delegation_work_item_dependency_frontier_for_controller sp st i c u x now stamp = (res, st')"
    and "py_strip (wi_run_id i) = rid"
  shows "stays_in_run rid st st'"
proof -
  have "card_kept rid (get_item st wid) (get_item st' wid)" for wid
    using frontier_write_step(2) [OF assms(1), of wid] assms(2)
    by (auto simp: card_kept_def frontier_step_def card_kept_refl split: option.splits)
  then show ?thesis
    using frontier_write_runs [OF assms(1)] frontier_write_step(1) [OF assms(1)] by (simp add: stays_in_run_def)
qed

interpretation run_pass: controller_pass "stays_in_run rid" "\<lambda>i. py_strip (wi_run_id i) = rid" c for rid c
proof unfold_locales
  show "write_respects (stays_in_run rid) (\<lambda>i. py_strip (wi_run_id i) = rid) (cleaned_credential c)"
    unfolding write_respects_def
  proof (intro allI impI conjI)
    fix sp st i u x now stamp res st'
    assume run: "py_strip (wi_run_id i) = rid"
      and w: "update_delegation_work_item_dependency_frontier_for_controller sp st i (cleaned_credential c)
                u x now stamp = (res, st')"
    show "stays_in_run rid st st'" by (rule write_stays_in_run [OF w run])
    show "py_strip (wi_run_id j) = rid" if "res = Inr (Some j)" for j
      using frontier_write_result_run w run that by blast
  qed
qed (auto simp: reflp_def transp_def stays_in_run_def card_kept_refl intro: card_kept_trans)

text \<open>
  The phases along one edge: the table, and the reopening of an approved final delivery whose
  inputs changed.
\<close>

definition refresh_edge :: "work_item \<Rightarrow> phase \<Rightarrow> bool" where
  "refresh_edge i q \<longleftrightarrow>
     validate_transition (Some (wi_phase i)) q = Inr () \<or>
     wi_phase i = APPROVED \<and> work_item_kind i (wi_metadata i) \<in> {''deliver'', ''delivery''} \<and>
     q \<in> {WAITING_DEPENDENCIES, READY_FOR_REWORK}"

lemma reset_of_delivery:
  assumes "linked_task_updates by_id items stamp i = Inr linked" "linked \<noteq> []"
  shows "work_item_kind i (wi_metadata i) \<in> {''deliver'', ''delivery''}"
proof (rule ccontr)
  assume "work_item_kind i (wi_metadata i) \<notin> {''deliver'', ''delivery''}"
  then have "final_delivery_dependency_closure i items by_id = Inr None"
    by (simp add: final_delivery_dependency_closure_def Let_def)
  with assms show False
    by (auto simp: linked_task_updates_def delivery_staleness_def bind_result_Inr_iff Let_def)
qed

text \<open>The ids of a snapshot name the cards it holds.\<close>

definition ids_agree :: "frontier \<Rightarrow> bool" where
  "ids_agree f \<longleftrightarrow> (\<forall>(k, i)\<in>set (fr_by_id f). wi_work_item_id i = k)"

lemma absorb_ids:
  assumes "ids_agree f" "\<And>j. fst r = Inr (Some j) \<Longrightarrow> wi_work_item_id j = wid" "controller_absorb f wid r = (e, g)"
  shows "ids_agree g" "fr_store g = snd r"
  using assms
  by (auto simp: controller_absorb_def ids_agree_def split: prod.splits sum.splits option.splits dest!: set_snapshot_elems)

lemma frontier_item_cases:
  assumes "controller_frontier_item sp c now stamp items doomed i f = (e, g)"
  obtains "g = f"
  | u x where "controller_absorb f (wi_work_item_id i)
      (update_delegation_work_item_dependency_frontier_for_controller sp (fr_store f) i c u x now stamp) = (e, g)"
      "fe_allow_invalidation x \<Longrightarrow> work_item_kind i (wi_metadata i) \<in> {''deliver'', ''delivery''}"
proof (cases "plan_frontier (fr_by_id f) items doomed stamp i")
  case (Inr plan)
  show thesis
  proof (cases plan)
    case None
    with Inr assms that(1) show thesis by (simp add: controller_frontier_item_def)
  next
    case (Some p)
    show thesis
    proof (cases "linked_task_updates (fr_by_id f) items stamp i")
      case linked: (Inr linked)
      show thesis
        using assms Inr Some linked reset_of_delivery [OF linked]
        by (auto simp: controller_frontier_item_def Let_def split: if_splits intro: that)
    qed (use Inr Some assms that(1) in \<open>simp add: controller_frontier_item_def\<close>)
  qed
qed (use assms that(1) in \<open>simp add: controller_frontier_item_def\<close>)

definition row_moved :: "work_item \<Rightarrow> work_item option \<Rightarrow> work_item option \<Rightarrow> bool" where
  "row_moved i old new \<longleftrightarrow>
     (case (old, new) of (Some row, Some j) \<Rightarrow> wi_phase row = wi_phase i \<and> refresh_edge i (wi_phase j) | _ \<Rightarrow> False)"

lemma frontier_step_moved:
  "frontier_step i invalidation q old new \<Longrightarrow>
   (invalidation \<Longrightarrow> work_item_kind i (wi_metadata i) \<in> {''deliver'', ''delivery''}) \<Longrightarrow> row_moved i old new"
  by (simp add: frontier_step_def row_moved_def refresh_edge_def split: option.splits) blast

lemma frontier_item_step:
  assumes "controller_frontier_item sp c now stamp items doomed i f = (e, g)" "ids_agree f"
  shows "ids_agree g \<and>
    (get_item (fr_store g) wid = get_item (fr_store f) wid \<or>
     wid = py_strip (wi_work_item_id i) \<and> row_moved i (get_item (fr_store f) wid) (get_item (fr_store g) wid))"
  using assms(1)
proof (cases rule: frontier_item_cases)
  case (2 u x)
  obtain res st' where w: "update_delegation_work_item_dependency_frontier_for_controller sp (fr_store f) i c u x now stamp
      = (res, st')" by fastforce
  note step = frontier_write_step [OF w]
  have id: "wi_work_item_id j = wi_work_item_id i"
    if "fst (update_delegation_work_item_dependency_frontier_for_controller sp (fr_store f) i c u x now stamp) = Inr (Some j)" for j
    using that w by (intro step(3)) simp
  have "ids_agree g" by (rule absorb_ids(1) [OF assms(2) id 2(1)])
  moreover have "fr_store g = st'" using absorb_ids(2) [OF assms(2) id 2(1)] by (simp add: w)
  moreover have "get_item st' wid = get_item (fr_store f) wid \<or>
      wid = py_strip (wi_work_item_id i) \<and> row_moved i (get_item (fr_store f) wid) (get_item st' wid)"
    using step(2) [of wid] by (auto intro: frontier_step_moved [OF _ 2(2)])
  ultimately show ?thesis by simp
qed (use assms(2) in simp)

text \<open>The first pass visits each card once.\<close>

lemma frontier_pass:
  assumes "distinct (map (\<lambda>i. py_strip (wi_work_item_id i)) cards)" "ids_agree f"
    and "until_error (controller_frontier_item sp c now stamp items doomed) cards f = (e, g)"
  shows "ids_agree g \<and>
    (get_item (fr_store g) wid = get_item (fr_store f) wid \<or>
     (\<exists>i\<in>set cards. wid = py_strip (wi_work_item_id i) \<and>
        row_moved i (get_item (fr_store f) wid) (get_item (fr_store g) wid)))"
  using assms
proof (induction cards arbitrary: f)
  case (Cons i cards)
  obtain e1 f1 where one: "controller_frontier_item sp c now stamp items doomed i f = (e1, f1)" by fastforce
  note step = frontier_item_step [OF one Cons.prems(2), of wid]
  show ?case
  proof (cases e1)
    case None
    then have rest: "until_error (controller_frontier_item sp c now stamp items doomed) cards f1 = (e, g)"
      using Cons.prems(3) one by simp
    have "ids_agree f1" "distinct (map (\<lambda>i. py_strip (wi_work_item_id i)) cards)" using step Cons.prems(1) by simp_all
    note later = Cons.IH [OF this(2,1) rest]
    show ?thesis
    proof (cases "wid = py_strip (wi_work_item_id i)")
      case True
      have "\<forall>i'\<in>set cards. wid \<noteq> py_strip (wi_work_item_id i')" using Cons.prems(1) True by force
      with later have "get_item (fr_store g) wid = get_item (fr_store f1) wid" by blast
      with step later True show ?thesis by fastforce
    next
      case False
      with step have "get_item (fr_store f1) wid = get_item (fr_store f) wid" by blast
      with later show ?thesis by auto
    qed
  next
    case (Some x)
    with Cons.prems(3) one step show ?thesis by auto
  qed
qed simp

text \<open>The second pass leaves phases alone, but for the cancellation of doomed cards.\<close>

definition cascade_step :: "string set \<Rightarrow> string \<Rightarrow> work_item option \<Rightarrow> work_item option \<Rightarrow> bool" where
  "cascade_step doomed wid old new \<longleftrightarrow>
     (case (old, new) of
        (None, None) \<Rightarrow> True
      | (Some a, Some b) \<Rightarrow>
          wi_phase b = wi_phase a \<or>
          wi_phase b = CANCELLED \<and> validate_transition (Some (wi_phase a)) CANCELLED = Inr () \<and>
          wid \<in> py_strip ` doomed
      | _ \<Rightarrow> False)"

definition cascade_rel :: "string set \<Rightarrow> frontier \<Rightarrow> frontier \<Rightarrow> bool" where
  "cascade_rel doomed f g \<longleftrightarrow>
     (ids_agree f \<longrightarrow> ids_agree g \<and>
       (\<forall>wid. cascade_step doomed wid (get_item (fr_store f) wid) (get_item (fr_store g) wid)))"

lemma cascade_step_refl: "cascade_step doomed wid x x"
  by (simp add: cascade_step_def split: option.split)

lemma cascade_rel_refl: "cascade_rel doomed f f"
  by (simp add: cascade_rel_def cascade_step_refl)

lemma cascade_step_trans: "cascade_step doomed wid x y \<Longrightarrow> cascade_step doomed wid y z \<Longrightarrow> cascade_step doomed wid x z"
  by (auto simp: cascade_step_def split: option.splits)

lemma cascade_rel_trans: "cascade_rel doomed f g \<Longrightarrow> cascade_rel doomed g h \<Longrightarrow> cascade_rel doomed f h"
  unfolding cascade_rel_def using cascade_step_trans by blast

lemma cascade_write:
  assumes "controller_absorb f k
      (update_delegation_work_item_dependency_frontier_for_controller sp (fr_store f) i c u no_extra now stamp) = (e, g)"
    and "wi_work_item_id i = k"
    and "up_phase u = None \<or> up_phase u = Some CANCELLED \<and> k \<in> doomed"
  shows "cascade_rel doomed f g"
  unfolding cascade_rel_def
proof (intro impI conjI allI)
  assume ids: "ids_agree f"
  obtain res st' where w: "update_delegation_work_item_dependency_frontier_for_controller sp (fr_store f) i c u no_extra
      now stamp = (res, st')" by fastforce
  note step = frontier_write_step [OF w]
  show "ids_agree g" using absorb_ids(1) [OF ids _ assms(1)] step(3) w assms(2) by simp
  have g: "fr_store g = st'" using absorb_ids(2) [OF ids _ assms(1)] step(3) w assms(2) by simp
  show "cascade_step doomed wid (get_item (fr_store f) wid) (get_item (fr_store g) wid)" for wid
    using step(2) [of wid] assms(2,3)
    by (auto simp: g frontier_step_def cascade_step_def no_extra_def split: option.splits)
qed

lemma cascade_cancel_rel:
  assumes "controller_cascade_cancel sp c now stamp wid f = (e, g)" "wid \<in> doomed"
  shows "cascade_rel doomed f g"
proof (cases "map_of (fr_by_id f) wid")
  case None
  with assms show ?thesis by (simp add: controller_cascade_cancel_def cascade_rel_refl)
next
  case (Some i)
  show ?thesis
  proof (cases "ids_agree f")
    case True
    then have "wi_work_item_id i = wid" using map_of_SomeD [OF Some] by (auto simp: ids_agree_def)
    with Some assms show ?thesis
      by (intro cascade_write [where i = i and k = wid and u = "cancel_update i stamp"])
         (simp_all add: controller_cascade_cancel_def cancel_update_def)
  qed (simp add: cascade_rel_def)
qed

lemma cascade_item_rel:
  assumes "controller_cascade_item sp c now stamp doomed i f = (e, g)"
  shows "cascade_rel doomed f g"
proof (cases "dict_or_empty (dget (wi_metadata i) ''dependency_settlement'')")
  case (Inr settlement)
  show ?thesis
  proof (cases "settlement = [] \<or> truthy (dget settlement ''cascaded_at'') \<or> wi_phase i \<noteq> APPROVED")
    case todo: False
    show ?thesis
    proof (cases "bind_result (id_list (dget settlement ''stuck'')) (cascade_covered (fr_by_id f) doomed)")
      case (Inl x)
      with assms Inr todo show ?thesis by (simp add: controller_cascade_item_def cascade_rel_refl)
    next
      case covered: (Inr ids)
      obtain e1 f1 where u: "until_error (controller_cascade_cancel sp c now stamp)
          (cascade_cancel_ids (fr_by_id f) doomed ids) f = (e1, f1)" by fastforce
      have one: "cascade_rel doomed f f1"
        by (rule until_error_rel [OF cascade_cancel_rel cascade_rel_refl cascade_rel_trans u])
           (auto simp: cascade_cancel_ids_def)
      show ?thesis
      proof (cases e1)
        case (Some x)
        with assms Inr todo covered u one show ?thesis by (simp add: controller_cascade_item_def)
      next
        case None
        let ?w = "case map_of (fr_by_id f1) (wi_work_item_id i) of None \<Rightarrow> i | Some w \<Rightarrow> w"
        from assms Inr todo covered u None have stamped: "controller_absorb f1 (wi_work_item_id i)
            (update_delegation_work_item_dependency_frontier_for_controller sp (fr_store f1) ?w c
               (no_update\<lparr>up_metadata := [(''dependency_settlement'', PDict (dset ''cascaded_at'' (PStr stamp) settlement))]\<rparr>)
               no_extra now stamp) = (e, g)"
          by (simp add: controller_cascade_item_def)
        have "cascade_rel doomed f1 g"
        proof (cases "ids_agree f1")
          case True
          then have "wi_work_item_id ?w = wi_work_item_id i"
            by (auto simp: ids_agree_def split: option.split dest!: map_of_SomeD)
          then show ?thesis by (rule cascade_write [OF stamped]) (simp add: no_update_def)
        qed (simp add: cascade_rel_def)
        with one show ?thesis by (rule cascade_rel_trans)
      qed
    qed
  qed (use Inr assms in \<open>simp add: controller_cascade_item_def cascade_rel_refl\<close>)
qed (use assms in \<open>simp add: controller_cascade_item_def cascade_rel_refl\<close>)

lemma cascade_pass:
  "until_error (controller_cascade_item sp c now stamp doomed) items f = (e, g) \<Longrightarrow> cascade_rel doomed f g"
  by (rule until_error_rel [OF cascade_item_rel cascade_rel_refl cascade_rel_trans])

lemma doomed_not_approved:
  assumes "compute_doomed_work_item_ids by_id = Inr D" "d \<in> D"
  shows "\<exists>i. (d, i) \<in> set by_id \<and> wi_phase i \<noteq> APPROVED"
proof (cases "D = {}")
  case False
  let ?T = "{x. \<exists>i. (x, i) \<in> set by_id \<and> wi_phase i \<noteq> APPROVED}"
  from False compute_doomed_loop [OF assms(1)]
  have loop: "sweep_loop fst (doom_test by_id) by_id (failed_ids by_id) = Inr D" by blast
  have "doomed.closed by_id by_id ?T"
    unfolding doomed.closed_def
  proof (intro ballI impI)
    fix e assume e: "e \<in> set by_id" "fst e \<notin> ?T"
    obtain x i where "e = (x, i)" by fastforce
    with e have "wi_phase (snd e) = APPROVED" by simp
    with \<open>e = (x, i)\<close> have "hard_dependencies by_id e = Inr []" by (simp add: hard_dependencies_def Let_def)
    then show "doom_test by_id e ?T = Inr False" by (simp add: doom_test_Inr)
  qed
  moreover have "failed_ids by_id \<subseteq> ?T" by (fastforce simp: failed_ids_iff)
  ultimately have "D \<subseteq> ?T" using doomed.loop_least [OF loop] by blast
  with assms(2) show ?thesis by blast
qed (use assms(2) in simp)

lemma snapshot_ids:
  "e \<in> set (foldl (\<lambda>d i. set_snapshot (wi_work_item_id i) i d) d items) \<Longrightarrow>
   e \<in> set d \<or> snd e \<in> set items \<and> wi_work_item_id (snd e) = fst e"
proof (induction items arbitrary: d)
  case (Cons i items)
  then show ?case by (auto dest!: Cons.IH set_snapshot_elems)
qed simp

lemma refresh_passes:
  fixes st :: store and rid :: string
  defines "items \<equiv> list_delegation_work_items st (py_strip rid)"
  defines "f \<equiv> \<lparr>fr_store = st, fr_by_id = foldl (\<lambda>d i. set_snapshot (wi_work_item_id i) i d) [] items,
                 fr_changed = False\<rparr>"
  assumes "refresh_dependents_for_controller sp in_flight st rid c now stamp = (r, st')"
  obtains "st' = st"
  | doomed e g h where "compute_doomed_work_item_ids (fr_by_id f) = Inr doomed"
      "until_error (controller_frontier_item sp (cleaned_credential c) now stamp items doomed) items f = (e, g)"
      "cascade_rel doomed g h" "st' = fr_store h"
proof (cases "st' = st")
  case False
  with assms(3) obtain doomed where d: "compute_doomed_work_item_ids (fr_by_id f) = Inr doomed"
    by (simp add: refresh_dependents_for_controller_def Let_def f_def items_def split: if_splits sum.splits)
  obtain e g where one: "until_error (controller_frontier_item sp (cleaned_credential c) now stamp items doomed) items f = (e, g)"
    by fastforce
  obtain e2 h where two: "until_error (controller_cascade_item sp (cleaned_credential c) now stamp doomed) items g = (e2, h)"
    by fastforce
  have
    "(case until_error (controller_frontier_item sp (cleaned_credential c) now stamp items doomed) items f of
        (Some e, g) \<Rightarrow> (Inl e, fr_store g)
      | (None, g) \<Rightarrow>
          (case until_error (controller_cascade_item sp (cleaned_credential c) now stamp doomed) items g of
             (Some e, h) \<Rightarrow> (Inl e, fr_store h)
           | (None, h) \<Rightarrow> (Inr (fr_changed h), fr_store h))) = (r, st')"
    using assms(3) False d unfolding f_def items_def
    by (simp add: refresh_dependents_for_controller_def Let_def split: if_splits)
  then have "st' = fr_store g \<or> st' = fr_store h"
    using one two by (cases e; cases e2) auto
  with that(2) [OF d one cascade_rel_refl] that(2) [OF d one cascade_pass [OF two]] show thesis by blast
qed (use that(1) in blast)

lemma cancelled_edge:
  "validate_transition (Some p) q = Inr () \<Longrightarrow> validate_transition (Some q) CANCELLED = Inr () \<Longrightarrow>
   validate_transition (Some p) CANCELLED = Inr ()"
  by (cases p; cases q; simp add: validate_transition_Some UNIVERSAL_EXITS_def RECOVERY_EXITS_def)

text \<open>
  C4. A refresh stays in its run and in the phase table.  When no two cards have the same id, up to
  surrounding blanks, then whatever the refresh of a controller returns, it creates and deletes no
  card, leaves the cards of every other run, every link and every lease as they were, and leaves
  each card of its run in a phase that is one edge of the table away from its phase before, at most;
  the one exception is an approved final delivery, which may be sent back because its inputs changed.
\<close>

theorem controller_refresh_stays_in_run:
  assumes "distinct (map (\<lambda>i. py_strip (wi_work_item_id i)) (st_items st))"
    and "refresh_dependents_for_controller sp in_flight st rid c now stamp = (r, st')"
  shows "st_runs st' = st_runs st \<and> st_links st' = st_links st \<and>
    (\<forall>wid. case (get_item st wid, get_item st' wid) of
       (None, None) \<Rightarrow> True
     | (Some a, Some b) \<Rightarrow>
         wi_run_id b = wi_run_id a \<and>
         (if wi_run_id a = py_strip rid then refresh_edge a (wi_phase b) else b = a)
     | _ \<Rightarrow> False)"
proof -
  let ?items = "list_delegation_work_items st (py_strip rid)"
  have kept: "stays_in_run (py_strip rid) st st'"
    using run_pass.refresh [of st rid "py_strip rid" sp in_flight c now stamp] assms(2)
    by (auto simp: list_delegation_work_items_def)
  have same: "i = a" if "i \<in> set ?items" "get_item st wid = Some a" "py_strip (wi_work_item_id i) = wid" for i a wid
  proof -
    have "i \<in> set (st_items st)" "a \<in> set (st_items st)" "py_strip (wi_work_item_id a) = py_strip (wi_work_item_id i)"
      using that get_item_id [OF that(2)]
      by (auto simp: list_delegation_work_items_def get_item_def find_Some_iff in_set_conv_nth)
    with assms(1) show ?thesis by (simp add: distinct_map inj_on_def)
  qed
  have edge: "refresh_edge a (wi_phase b)" if a: "get_item st wid = Some a" and b: "get_item st' wid = Some b" for wid a b
    using assms(2)
  proof (cases rule: refresh_passes)
    case 1
    with a b show ?thesis by (simp add: refresh_edge_def validate_transition_Some)
  next
    case (2 doomed e g h)
    let ?f = "\<lparr>fr_store = st, fr_by_id = foldl (\<lambda>d i. set_snapshot (wi_work_item_id i) i d) [] ?items,
                fr_changed = False\<rparr>"
    have ids: "ids_agree ?f" by (auto simp: ids_agree_def dest!: snapshot_ids)
    have "distinct (map (\<lambda>i. py_strip (wi_work_item_id i)) ?items)"
      using assms(1) by (auto simp: list_delegation_work_items_def distinct_map inj_on_def distinct_filter)
    note one = frontier_pass [OF this ids 2(2), of wid]
    obtain m where m: "get_item (fr_store g) wid = Some m"
      using one a by (auto simp: row_moved_def split: option.splits)
    have first: "refresh_edge a (wi_phase m)"
      using one a m same by (auto simp: row_moved_def refresh_edge_def validate_transition_Some)
    have "cascade_step doomed wid (get_item (fr_store g) wid) (get_item (fr_store h) wid)"
      using 2(3) one [THEN conjunct1] unfolding cascade_rel_def by blast
    then have "cascade_step doomed wid (Some m) (Some b)" using m b 2(4) by simp
    then consider "wi_phase b = wi_phase m"
      | d where "wi_phase b = CANCELLED" "validate_transition (Some (wi_phase m)) CANCELLED = Inr ()" "d \<in> doomed" "wid = py_strip d"
      by (auto simp: cascade_step_def)
    then show ?thesis
    proof cases
      case (2 d)
      from doomed_not_approved [OF \<open>compute_doomed_work_item_ids (fr_by_id ?f) = Inr doomed\<close> 2(3)]
      obtain i where "(d, i) \<in> set (fr_by_id ?f)" "wi_phase i \<noteq> APPROVED" by blast
      with same [of i wid a] a 2(4) have "wi_phase a \<noteq> APPROVED" by (auto dest!: snapshot_ids)
      with first have "validate_transition (Some (wi_phase a)) (wi_phase m) = Inr ()" by (simp add: refresh_edge_def)
      from cancelled_edge [OF this 2(2)] 2(1) show ?thesis by (simp add: refresh_edge_def)
    qed (use first in simp)
  qed
  have "case (get_item st wid, get_item st' wid) of
       (None, None) \<Rightarrow> True
     | (Some a, Some b) \<Rightarrow>
         wi_run_id b = wi_run_id a \<and>
         (if wi_run_id a = py_strip rid then refresh_edge a (wi_phase b) else b = a)
     | _ \<Rightarrow> False" for wid
  proof -
    have "card_kept (py_strip rid) (get_item st wid) (get_item st' wid)" using kept by (simp add: stays_in_run_def)
    with edge [of wid] show ?thesis
      by (cases "get_item st wid"; cases "get_item st' wid") (auto simp: card_kept_def)
  qed
  with kept show ?thesis by (simp add: stays_in_run_def)
qed

definition waiting_row :: work_item where
  "waiting_row = parked_row\<lparr>wi_metadata := [(''dependency_work_item_ids'', PList [PStr ''d''])]\<rparr>"

definition waiting_store :: store where
  "waiting_store = put_item (put_item (empty_store\<lparr>st_runs := [leased_run ''a'' 1 100]\<rparr>)
     ((new_work_item ''d'')\<lparr>wi_run_id := ''r'', wi_phase := APPROVED\<rparr>)) waiting_row"

definition refreshed_store :: store where
  "refreshed_store = snd (refresh_dependents_for_controller ''p'' {} waiting_store ''r''
     \<lparr>cr_project_id = ''p'', cr_owner_token = ''a'', cr_generation = 1\<rparr> 50 ''now'')"

lemma waiting_refreshed: "map_option wi_phase (get_item refreshed_store ''w'') = Some READY"
  by code_simp

theorem controller_refresh_stays_in_run_witness:
  "get_item waiting_store ''w'' = Some waiting_row \<and>
   (\<exists>b. get_item refreshed_store ''w'' = Some b \<and> wi_phase b = READY \<and> refresh_edge waiting_row READY) \<and>
   st_links refreshed_store = st_links waiting_store"
proof -
  have items: "distinct (map (\<lambda>i. py_strip (wi_work_item_id i)) (st_items waiting_store))"
    and row: "get_item waiting_store ''w'' = Some waiting_row" and run: "wi_run_id waiting_row = py_strip ''r''"
    by code_simp+
  obtain r where "refresh_dependents_for_controller ''p'' {} waiting_store ''r''
      \<lparr>cr_project_id = ''p'', cr_owner_token = ''a'', cr_generation = 1\<rparr> 50 ''now'' = (r, refreshed_store)"
    unfolding refreshed_store_def by (metis prod.collapse)
  note result = controller_refresh_stays_in_run [OF items this]
  obtain b where b: "get_item refreshed_store ''w'' = Some b" "wi_phase b = READY"
    using waiting_refreshed by auto
  from result [THEN conjunct2, THEN conjunct2, THEN spec, of "''w''"] row run b
  have "refresh_edge waiting_row READY" by simp
  with result row b show ?thesis by blast
qed

end
