(* ===== verification/GateRouting.thy ===== *)
theory GateRouting
  imports Phase
begin

text \<open>
  \<open>opc/layer2_organization/work_item_gate_decision.py\<close>: the route of an accepted worker output,
  and the closure of projections a gate decision sends back for rework.  Of the runtime plan and
  the gate policy (\<open>org_work_item_planner.py\<close>) the records hold the fields these functions read;
  a requested time is its text.
\<close>

section \<open>Routing accepted output\<close>

definition DELEGATION_OUTPUT_TURN_TYPES :: "string set" where
  "DELEGATION_OUTPUT_TURN_TYPES = {''dispatch'', ''intake'', ''plan''}"

definition ROUTING_METADATA_FROM_WORK_ITEM :: "string list" where
  "ROUTING_METADATA_FROM_WORK_ITEM =
     [''user_visible'', ''authoritative_output'', ''review_owner_kind'', ''requires_user_feedback'',
      ''feedback_scope'']"

definition flag :: "pyval \<Rightarrow> bool" where
  "flag v =
     (case v of
        PStr s \<Rightarrow> py_lower (py_strip s) \<in> {''1'', ''true'', ''yes'', ''y'', ''on''}
      | _ \<Rightarrow> truthy v)"

definition is_final_human_acceptance :: "pydict \<Rightarrow> bool" where
  "is_final_human_acceptance md \<longleftrightarrow>
     \<not> flag (dget md ''attention_work_item'') \<and> flag (dget md ''authoritative_output'') \<and>
     flag (dget md ''user_visible'') \<and> clean_lower (dget md ''feedback_scope'') = ''final'' \<and>
     is_delivery_turn (TurnMeta md)"

record done_route =
  dr_target_phase :: phase
  dr_task_metadata :: pydict
  dr_work_item_metadata_updates :: pydict
  dr_manager_turn_context :: pydict
  dr_review_owner_role_id :: string
  dr_review_owner_seat_id :: string
  dr_is_attention_work_item :: bool

definition routing_metadata :: "pydict \<Rightarrow> pydict \<Rightarrow> pydict" where
  \<comment> \<open>the routing keys of the card fill the gaps of the task's metadata\<close>
  "routing_metadata task_md item_md =
     fold (\<lambda>k md. if \<not> dhas md k \<and> dhas item_md k then dset k (dget item_md k) md else md)
       ROUTING_METADATA_FROM_WORK_ITEM task_md"

definition routed_work_kind :: "task \<Rightarrow> pydict \<Rightarrow> string" where
  "routed_work_kind t md =
     canonical_work_item_turn_type_for_kind
       (PStr (turn_type_for_task t (py_str (py_or (dget md ''work_kind'') (PStr ''execute''))))) []"

definition routed_attention :: "pydict \<Rightarrow> work_item \<Rightarrow> bool" where
  "routed_attention md i \<longleftrightarrow>
     (let attention_id = clean (dget md ''attention_work_item_id'')
      in flag (dget md ''attention_work_item'') \<or> flag (dget (wi_metadata i) ''attention_work_item'') \<or>
         attention_id \<noteq> [] \<and> attention_id = py_strip (wi_work_item_id i))"

definition manager_decision :: "pydict \<Rightarrow> bool \<times> pydict" where
  \<comment> \<open>whether the turn changed the board, and the context recorded for the manager\<close>
  "manager_decision md =
     (let choice = clean_lower (dget md ''manager_execution_choice'');
          mutated = (flag (dget md ''manager_board_mutation_performed'') \<or> choice = ''delegated'');
          justification = clean (dget md ''manager_no_delegation_justification'');
          unresolved = clean (dget md ''manager_dispatch_guard_unresolved'');
          note = (if justification \<noteq> [] then justification else unresolved);
          context =
            [(''outcome'', PStr (if mutated then ''delegated'' else ''self_produced'')),
             (''source'', PStr (if choice \<in> {''delegated'', ''direct''} then ''manager_decision''
                               else if mutated then ''board_mutation''
                               else if justification \<noteq> [] then ''justified''
                               else if unresolved \<noteq> [] then ''dispatch_guard_exhausted''
                               else ''no_board_mutation''))]
      in (mutated, if note \<noteq> [] then context @ [(''note'', PStr note)] else context))"

definition review_owner :: "pydict \<Rightarrow> string \<Rightarrow> string \<Rightarrow> string" where
  "review_owner md key own = clean (py_or (dget md key) (PStr own))"

definition routed_review :: "pydict \<Rightarrow> work_item \<Rightarrow> string \<Rightarrow> bool \<Rightarrow> bool \<Rightarrow> bool \<times> pydict" where
  \<comment> \<open>whether a manager reviews the output, and the manager context of a planning turn\<close>
  "routed_review md i work_kind attention delivery =
     (let reviewable = (work_kind \<noteq> [] \<longrightarrow> is_manager_reviewable_turn (TurnText work_kind))
      in if \<not> reviewable \<and> \<not> attention \<and> \<not> delivery \<and> work_kind \<in> DELEGATION_OUTPUT_TURN_TYPES
         then (case manager_decision md of
                 (mutated, context) \<Rightarrow>
                   let role = review_owner md ''manager_role_id'' (wi_manager_role_id i)
                   in (\<not> mutated \<and> role \<noteq> [] \<and> role \<noteq> ''owner'', context))
         else (reviewable, []))"

definition routed_phase :: "pydict \<Rightarrow> bool \<Rightarrow> bool \<Rightarrow> bool \<Rightarrow> string \<Rightarrow> phase" where
  "routed_phase md attention delivery reviewable owner_role =
     (let final_human = (clean (dget md ''execution_mode'') = ''company_mode'' \<and>
                         flag (dget md ''requires_user_feedback'') \<and> is_final_human_acceptance md)
      in if attention then APPROVED
         else if delivery then (if final_human then AWAITING_HUMAN else APPROVED)
         else if \<not> reviewable then APPROVED
         else if owner_role = [] then APPROVED
         else AWAITING_MANAGER_REVIEW)"

definition plan_company_work_item_done_routing :: "task \<Rightarrow> work_item \<Rightarrow> string \<Rightarrow> done_route result" where
  "plan_company_work_item_done_routing t i summary =
     (let md = routing_metadata (tk_metadata t) (wi_metadata i);
          attention = routed_attention md i;
          delivery = is_delivery_turn (TurnMeta md);
          (reviewable, context) = routed_review md i (routed_work_kind t md) attention delivery;
          role = review_owner md ''manager_role_id'' (wi_manager_role_id i);
          seat = review_owner md ''manager_seat_id'' (wi_manager_seat_id i);
          target = routed_phase md attention delivery reviewable role
      in bind_result (dict_or_empty (dget md ''adaptive'')) (\<lambda>adaptive.
         let u1 = dset ''adaptive'' (PDict adaptive) (work_item_identity_payload_for_task (Some t) [] False);
             u2 = (if attention then dset ''attention_work_item_outcome'' (PStr ''completed'') u1 else u1);
             u3 = (if target \<in> {AWAITING_MANAGER_REVIEW, AWAITING_HUMAN}
                   then dset ''review_owner_seat_id'' (PStr seat) (dset ''review_owner_role_id'' (PStr role) u2)
                   else u2);
             u4 = (if target \<in> {AWAITING_MANAGER_REVIEW, AWAITING_HUMAN} \<and> py_strip summary \<noteq> []
                   then dset ''completion_report'' (PStr (py_strip summary)) u3 else u3)
         in Inr \<lparr>dr_target_phase = target, dr_task_metadata = md, dr_work_item_metadata_updates = u4,
                 dr_manager_turn_context = context, dr_review_owner_role_id = role,
                 dr_review_owner_seat_id = seat, dr_is_attention_work_item = attention\<rparr>))"

section \<open>The rework closure\<close>

record gate_policy =
  gp_metadata :: pydict
  gp_rework_projection_id :: "string option"
  gp_reviewer_role :: "string option"
  gp_instructions :: string

record projection_spec =
  ps_projection_id :: string
  ps_dependency_projection_ids :: "string list"

definition opt_val :: "string option \<Rightarrow> pyval" where
  "opt_val s = (case s of None \<Rightarrow> PNone | Some x \<Rightarrow> PStr x)"

definition rework_projection_id_for_gate :: "gate_policy \<Rightarrow> string" where
  "rework_projection_id_for_gate g =
     clean (py_or (dget (gp_metadata g) ''rework_projection_id'') (opt_val (gp_rework_projection_id g)))"

definition gate_is_harness :: "gate_policy \<Rightarrow> bool" where
  "gate_is_harness g \<longleftrightarrow> clean (dget (gp_metadata g) ''source'') = ''gate_harness''"

definition company_gate_rework_target_projection_ids :: "gate_policy \<Rightarrow> pydict \<Rightarrow> string list result" where
  "company_gate_rework_target_projection_ids g decision =
     (if gate_is_harness g then target_projection_ids_for_decision decision
      else let target = rework_projection_id_for_gate g in Inr (if target \<noteq> [] then [target] else []))"

text \<open>\<open>dependents.setdefault(dependency, []).append(projection)\<close>.\<close>

fun append_dependent :: "string \<Rightarrow> string \<Rightarrow> (string \<times> string list) list \<Rightarrow> (string \<times> string list) list" where
  "append_dependent d p [] = [(d, [p])]"
| "append_dependent d p ((d', ps) # m) = (if d' = d then (d, ps @ [p]) # m else (d', ps) # append_dependent d p m)"

definition dependents_of :: "projection_spec list \<Rightarrow> (string \<times> string list) list" where
  "dependents_of specs =
     fold (\<lambda>s m. fold (\<lambda>d m. let dependency = py_strip d; p = py_strip (ps_projection_id s)
                            in if dependency \<noteq> [] \<and> p \<noteq> [] then append_dependent dependency p m else m)
                  (ps_dependency_projection_ids s) m) specs []"

definition dependents :: "(string \<times> string list) list \<Rightarrow> string \<Rightarrow> string list" where
  "dependents m p = (case map_of m p of None \<Rightarrow> [] | Some ps \<Rightarrow> ps)"

type_synonym rework_entry = "string \<times> bool \<times> string"

text \<open>The breadth-first walk of one target; \<open>seen\<close> is shared by the targets.\<close>

function rework_walk ::
  "(string \<times> string list) list \<Rightarrow> string list \<Rightarrow> string \<Rightarrow> string list \<Rightarrow> string list
     \<Rightarrow> rework_entry list \<times> string list" where
  "rework_walk m explicit target [] seen = ([], seen)"
| "rework_walk m explicit target (p # queue) seen =
     (if p = [] \<or> p \<in> set seen then rework_walk m explicit target queue seen
      else case rework_walk m explicit target
                  (queue @ filter (\<lambda>d. \<not> (d \<in> set explicit \<and> d \<noteq> target)) (dependents m p)) (p # seen) of
             (entries, seen') \<Rightarrow> ((p, p = target, target) # entries, seen'))"
  by pat_completeness auto

text \<open>
  Each step either expands a projection that has dependents and was not seen before, or makes
  the queue shorter; a cyclic plan ends all the same.
\<close>

termination
proof (relation "measures [\<lambda>(m, explicit, target, queue, seen). card (fst ` set m - set seen),
                           \<lambda>(m, explicit, target, queue, seen). length queue]", goal_cases)
  case (3 m explicit target p queue seen)
  show ?case
  proof (cases "p \<in> fst ` set m")
    case True
    with 3 have "fst ` set m - set (p # seen) \<subset> fst ` set m - set seen" by auto
    then show ?thesis by (simp add: psubset_card_mono)
  next
    case False
    then have "map_of m p = None" by (simp add: map_of_eq_None_iff)
    then have "dependents m p = []" by (simp add: dependents_def)
    moreover have "fst ` set m - set (p # seen) = fst ` set m - set seen" using False by auto
    ultimately show ?thesis by simp
  qed
qed auto

fun rework_walks ::
  "(string \<times> string list) list \<Rightarrow> string list \<Rightarrow> string list \<Rightarrow> string list \<Rightarrow> rework_entry list" where
  "rework_walks m explicit [] seen = []"
| "rework_walks m explicit (t # ts) seen =
     (case rework_walk m explicit t [t] seen of
        (entries, seen') \<Rightarrow> entries @ rework_walks m explicit ts seen')"

definition company_gate_harness_rework_entries ::
  "gate_policy \<Rightarrow> pydict \<Rightarrow> projection_spec list option \<Rightarrow> rework_entry list result" where
  "company_gate_harness_rework_entries g decision plan =
     bind_result (company_gate_rework_target_projection_ids g decision) (\<lambda>targets.
       Inr (if targets = [] then []
            else case plan of
                   None \<Rightarrow> map (\<lambda>t. (t, True, t)) targets
                 | Some specs \<Rightarrow> rework_walks (dependents_of specs) targets targets []))"

definition company_gate_rework_affected_projection_ids ::
  "gate_policy \<Rightarrow> pydict \<Rightarrow> projection_spec list option \<Rightarrow> string list result" where
  "company_gate_rework_affected_projection_ids g decision plan =
     bind_result (company_gate_rework_target_projection_ids g decision) (\<lambda>targets.
       if \<not> gate_is_harness g \<or> plan = None then Inr targets
       else bind_result (company_gate_harness_rework_entries g decision plan) (\<lambda>es. Inr (map fst es)))"

section \<open>Rework records\<close>

definition list_field :: "pydict \<Rightarrow> string \<Rightarrow> pyval result" where
  "list_field d k = bind_result (list_or_empty (dget d k)) (\<lambda>xs. Inr (PList xs))"

definition build_company_gate_harness_rework_record ::
  "task \<Rightarrow> task \<Rightarrow> pydict \<Rightarrow> int \<Rightarrow> string \<Rightarrow> pydict result" where
  "build_company_gate_harness_rework_record source target decision rework_round requested_at =
     (let tid = projection_id_for_task target in
      bind_result (list_field decision ''blockers'') (\<lambda>blockers.
      bind_result (list_field decision ''blocker_types'') (\<lambda>types.
      bind_result (list_field decision ''constraints'') (\<lambda>constraints.
      Inr ([(''source_projection_id'', PStr (projection_id_for_task source)),
            (''source_work_item_title'', PStr (tk_title source))] @
           gate_rework_payload [] tid [] @
           [(''target_work_item_title'', PStr (tk_title target)),
            (''feedback'', PStr (clean (dget decision ''summary''))),
            (''blockers'', blockers), (''blocker_types'', types), (''constraints'', constraints),
            (''rework_round'', PInt rework_round), (''requested_at'', PStr (py_strip requested_at))])))))"

definition build_company_gate_rework_record ::
  "task \<Rightarrow> gate_policy \<Rightarrow> string \<Rightarrow> int \<Rightarrow> string \<Rightarrow> pydict result" where
  "build_company_gate_rework_record review g reviewer_feedback rework_round requested_at =
     bind_result (dict_or_empty (dget (tk_metadata review) ''gate_harness_pending_decision'')) (\<lambda>decision.
     bind_result (company_gate_rework_target_projection_ids g decision) (\<lambda>target_ids.
     let reviewer = clean (py_or (opt_val (gp_reviewer_role g))
                            (py_or (PStr (tk_assigned_to review)) (dget (tk_metadata review) ''work_item_role_id'')));
         target = (case target_ids of [] \<Rightarrow> [] | x # _ \<Rightarrow> x)
     in Inr ([(''review_task_id'', PStr (tk_id review))] @
             gate_rework_payload target target (projection_id_for_task review) @
             [(''target_projection_ids'', PList (map PStr target_ids)),
              (''review_work_item_title'', PStr (tk_title review)),
              (''reviewer_role'', PStr reviewer),
              (''feedback'', PStr (py_strip reviewer_feedback)),
              (''gate_instructions'', PStr (gp_instructions g)),
              (''rework_round'', PInt rework_round), (''requested_at'', PStr (py_strip requested_at))])))"

section \<open>The closure is exact\<close>

text \<open>The plan's edges: a projection is sent back when something it depends on is.\<close>

definition plan_edge :: "projection_spec list \<Rightarrow> string \<Rightarrow> string \<Rightarrow> bool" where
  "plan_edge specs p d \<longleftrightarrow>
     (\<exists>s\<in>set specs. d = py_strip (ps_projection_id s) \<and> d \<noteq> [] \<and> p \<noteq> [] \<and>
                   p \<in> py_strip ` set (ps_dependency_projection_ids s))"

definition downstream :: "projection_spec list \<Rightarrow> string \<Rightarrow> string \<Rightarrow> bool" where
  "downstream specs p d \<longleftrightarrow> (plan_edge specs)\<^sup>*\<^sup>* p d"

lemma dependents_append [simp]:
  "dependents (append_dependent d p m) q = dependents m q @ (if q = d then [p] else [])"
  by (induction d p m rule: append_dependent.induct) (auto simp: dependents_def)

lemma in_dependents_of:
  "d \<in> set (dependents (dependents_of specs) p) \<longleftrightarrow> plan_edge specs p d"
proof -
  have inner: "x \<in> set (dependents (fold (\<lambda>d m. let dependency = py_strip d; q = py_strip i
                            in if dependency \<noteq> [] \<and> q \<noteq> [] then append_dependent dependency q m else m)
                  ds m) p) \<longleftrightarrow>
               x \<in> set (dependents m p) \<or> x = py_strip i \<and> x \<noteq> [] \<and> p \<noteq> [] \<and> p \<in> py_strip ` set ds"
    for x i ds m
    by (induction ds arbitrary: m) (auto simp: Let_def)
  have "x \<in> set (dependents (fold (\<lambda>s m. fold (\<lambda>d m. let dependency = py_strip d; q = py_strip (ps_projection_id s)
                            in if dependency \<noteq> [] \<and> q \<noteq> [] then append_dependent dependency q m else m)
                  (ps_dependency_projection_ids s) m) specs m) p) \<longleftrightarrow>
        x \<in> set (dependents m p) \<or> plan_edge specs p x" for x m
    by (induction specs arbitrary: m) (auto simp: inner plan_edge_def)
  from this[of d "[]"] show ?thesis by (simp add: dependents_of_def dependents_def)
qed

definition walked ::
  "(string \<times> string list) list \<Rightarrow> string list \<Rightarrow> string \<Rightarrow> string list \<Rightarrow> string list
     \<Rightarrow> rework_entry list \<Rightarrow> string list \<Rightarrow> bool" where
  "walked m explicit t queue seen es seen' \<longleftrightarrow>
     set seen' = set seen \<union> fst ` set es \<and>
     distinct (map fst es) \<and> fst ` set es \<inter> set seen = {} \<and>
     (\<forall>(p, f, u)\<in>set es. p \<noteq> [] \<and> f = (p = t) \<and> u = t \<and>
        (p \<in> set queue \<or> \<not> (p \<in> set explicit \<and> p \<noteq> t)) \<and>
        (\<exists>q\<in>set queue. (\<lambda>a b. b \<in> set (dependents m a))\<^sup>*\<^sup>* q p)) \<and>
     (\<forall>p\<in>set queue. p \<noteq> [] \<longrightarrow> p \<in> set seen') \<and>
     (\<forall>p\<in>fst ` set es. \<forall>d\<in>set (dependents m p). d \<noteq> [] \<longrightarrow> d \<in> set seen' \<or> d \<in> set explicit \<and> d \<noteq> t)"

lemma rework_walk_walked:
  "rework_walk m explicit t queue seen = (es, seen') \<Longrightarrow> walked m explicit t queue seen es seen'"
proof (induction m explicit t queue seen arbitrary: es seen' rule: rework_walk.induct)
  case (1 m explicit t seen)
  then show ?case by (simp add: walked_def)
next
  case (2 m explicit t p queue seen)
  show ?case
  proof (cases "p = [] \<or> p \<in> set seen")
    case True
    with 2 have "walked m explicit t queue seen es seen'" by simp
    with True show ?thesis by (fastforce simp: walked_def)
  next
    case False
    let ?next = "filter (\<lambda>d. \<not> (d \<in> set explicit \<and> d \<noteq> t)) (dependents m p)"
    obtain es' where es: "es = (p, p = t, t) # es'"
      and rest: "rework_walk m explicit t (queue @ ?next) (p # seen) = (es', seen')"
      using 2(3) False by (auto split: prod.splits)
    from 2(2)[OF False rest] have w: "walked m explicit t (queue @ ?next) (p # seen) es' seen'" .
    let ?E = "\<lambda>a b. b \<in> set (dependents m a)"
    have reach: "\<exists>q\<in>set (p # queue). ?E\<^sup>*\<^sup>* q x" if "q0 \<in> set (queue @ ?next)" "?E\<^sup>*\<^sup>* q0 x" for q0 x
    proof (cases "q0 \<in> set queue")
      case True
      with that show ?thesis by auto
    next
      case False
      with that(1) have "?E p q0" by simp
      then show ?thesis using converse_rtranclp_into_rtranclp[of ?E, OF _ that(2)] by auto
    qed
    have "\<forall>(x, f, u)\<in>set es'. x \<noteq> [] \<and> f = (x = t) \<and> u = t \<and>
            (x \<in> set (p # queue) \<or> \<not> (x \<in> set explicit \<and> x \<noteq> t)) \<and> (\<exists>q\<in>set (p # queue). ?E\<^sup>*\<^sup>* q x)"
    proof (clarify, goal_cases)
      case (1 x f u)
      with w obtain q0 where "x \<noteq> []" "f = (x = t)" "u = t" "q0 \<in> set (queue @ ?next)" "?E\<^sup>*\<^sup>* q0 x"
        "x \<in> set (queue @ ?next) \<or> \<not> (x \<in> set explicit \<and> x \<noteq> t)"
        unfolding walked_def by fastforce
      then show ?case using reach[of q0 x] by auto
    qed
    then have entries: "\<forall>(x, f, u)\<in>set es. x \<noteq> [] \<and> f = (x = t) \<and> u = t \<and>
            (x \<in> set (p # queue) \<or> \<not> (x \<in> set explicit \<and> x \<noteq> t)) \<and> (\<exists>q\<in>set (p # queue). ?E\<^sup>*\<^sup>* q x)"
      using False unfolding es by auto
    have sets: "set seen' = set (p # seen) \<union> fst ` set es'" "distinct (map fst es')"
      "fst ` set es' \<inter> set (p # seen) = {}" "\<forall>x\<in>set (queue @ ?next). x \<noteq> [] \<longrightarrow> x \<in> set seen'"
      and closed: "\<forall>x\<in>fst ` set es'. \<forall>d\<in>set (dependents m x). d \<noteq> [] \<longrightarrow> d \<in> set seen' \<or> d \<in> set explicit \<and> d \<noteq> t"
      using w unfolding walked_def by blast+
    show ?thesis unfolding walked_def
    proof (intro conjI)
      show "set seen' = set seen \<union> fst ` set es" using sets(1) by (simp add: es)
      show "distinct (map fst es)" using sets(2,3) by (simp add: es)
      show "fst ` set es \<inter> set seen = {}" using sets(3) False by (auto simp: es)
      show "\<forall>x\<in>set (p # queue). x \<noteq> [] \<longrightarrow> x \<in> set seen'" using sets(1,4) by simp
      show "\<forall>x\<in>fst ` set es. \<forall>d\<in>set (dependents m x). d \<noteq> [] \<longrightarrow> d \<in> set seen' \<or> d \<in> set explicit \<and> d \<noteq> t"
        using closed sets(4) by (auto simp: es)
    qed (rule entries)
  qed
qed

lemma rework_walks_exact:
  assumes "set ts \<subseteq> set explicit" "distinct ts" "[] \<notin> set ts"
    and ends: "\<And>p d. d \<in> set (dependents m p) \<Longrightarrow> d \<noteq> []"
    and fresh: "set ts \<inter> set seen = {}"
  shows "distinct (map fst (rework_walks m explicit ts seen)) \<and>
     fst ` set (rework_walks m explicit ts seen) \<inter> set seen = {} \<and>
     (\<forall>(p, f, u)\<in>set (rework_walks m explicit ts seen).
        u \<in> set ts \<and> f = (p \<in> set explicit) \<and> (\<lambda>a b. b \<in> set (dependents m a))\<^sup>*\<^sup>* u p) \<and>
     set ts \<subseteq> fst ` set (rework_walks m explicit ts seen) \<and>
     (\<forall>p\<in>fst ` set (rework_walks m explicit ts seen). \<forall>d\<in>set (dependents m p).
        d \<in> set seen \<union> fst ` set (rework_walks m explicit ts seen) \<union> set explicit)"
  using assms(1-3) fresh
proof (induction ts arbitrary: seen)
  case Nil
  then show ?case by simp
next
  case (Cons t ts)
  obtain es seen' where walk: "rework_walk m explicit t [t] seen = (es, seen')" by (rule prod.exhaust)
  from rework_walk_walked[OF this] have w: "walked m explicit t [t] seen es seen'" .
  have others: "set ts \<inter> fst ` set es = {}"
  proof -
    have "p = t \<or> p \<notin> set explicit" if "(p, f, u) \<in> set es" for p f u
      using w that unfolding walked_def by fastforce
    with Cons.prems show ?thesis by force
  qed
  have "set ts \<inter> set seen' = {}" using w others Cons.prems unfolding walked_def by auto
  with Cons have IH: "distinct (map fst (rework_walks m explicit ts seen')) \<and>
     fst ` set (rework_walks m explicit ts seen') \<inter> set seen' = {} \<and>
     (\<forall>(p, f, u)\<in>set (rework_walks m explicit ts seen').
        u \<in> set ts \<and> f = (p \<in> set explicit) \<and> (\<lambda>a b. b \<in> set (dependents m a))\<^sup>*\<^sup>* u p) \<and>
     set ts \<subseteq> fst ` set (rework_walks m explicit ts seen') \<and>
     (\<forall>p\<in>fst ` set (rework_walks m explicit ts seen'). \<forall>d\<in>set (dependents m p).
        d \<in> set seen' \<union> fst ` set (rework_walks m explicit ts seen') \<union> set explicit)"
    by simp
  have here: "\<forall>(p, f, u)\<in>set es. u \<in> set (t # ts) \<and> f = (p \<in> set explicit) \<and>
      (\<lambda>a b. b \<in> set (dependents m a))\<^sup>*\<^sup>* u p"
    using w Cons.prems unfolding walked_def by fastforce
  have t: "t \<in> fst ` set es" using w Cons.prems unfolding walked_def by auto
  have seen': "set seen' = set seen \<union> fst ` set es" "distinct (map fst es)" "fst ` set es \<inter> set seen = {}"
    using w unfolding walked_def by blast+
  have closed: "\<forall>p\<in>fst ` set es. \<forall>d\<in>set (dependents m p). d \<in> set seen' \<union> set explicit"
  proof (intro ballI)
    fix p d assume p: "p \<in> fst ` set es" and d: "d \<in> set (dependents m p)"
    from w have "\<forall>p\<in>fst ` set es. \<forall>d\<in>set (dependents m p). d \<noteq> [] \<longrightarrow> d \<in> set seen' \<or> d \<in> set explicit \<and> d \<noteq> t"
      unfolding walked_def by (elim conjE)
    with p d ends[OF d] show "d \<in> set seen' \<union> set explicit" by blast
  qed
  have step: "rework_walks m explicit (t # ts) seen = es @ rework_walks m explicit ts seen'"
    by (simp add: walk del: rework_walk.simps)
  let ?rs = "rework_walks m explicit ts seen'"
  have "\<forall>(p, f, u)\<in>set ?rs. u \<in> set ts \<and> f = (p \<in> set explicit) \<and>
          (\<lambda>a b. b \<in> set (dependents m a))\<^sup>*\<^sup>* u p"
    using IH by blast
  then have later: "\<forall>(p, f, u)\<in>set ?rs. u \<in> set (t # ts) \<and> f = (p \<in> set explicit) \<and>
          (\<lambda>a b. b \<in> set (dependents m a))\<^sup>*\<^sup>* u p"
    by auto
  show ?case unfolding step
  proof (intro conjI)
    show "distinct (map fst (es @ ?rs))" using IH seen' by auto
    show "fst ` set (es @ ?rs) \<inter> set seen = {}" using IH seen' by auto
    show "\<forall>(p, f, u)\<in>set (es @ ?rs). u \<in> set (t # ts) \<and> f = (p \<in> set explicit) \<and>
            (\<lambda>a b. b \<in> set (dependents m a))\<^sup>*\<^sup>* u p"
      using here later unfolding set_append ball_Un by blast
    show "set (t # ts) \<subseteq> fst ` set (es @ ?rs)" using t IH by auto
    show "\<forall>p\<in>fst ` set (es @ ?rs). \<forall>d\<in>set (dependents m p). d \<in> set seen \<union> fst ` set (es @ ?rs) \<union> set explicit"
    proof (intro ballI)
      fix p d assume p: "p \<in> fst ` set (es @ ?rs)" and d: "d \<in> set (dependents m p)"
      have "\<forall>p\<in>fst ` set ?rs. \<forall>d\<in>set (dependents m p). d \<in> set seen' \<union> fst ` set ?rs \<union> set explicit"
        using IH by (elim conjE)
      then have "d \<in> set seen' \<union> fst ` set ?rs \<union> set explicit"
        using closed p d unfolding set_append image_Un by blast
      then show "d \<in> set seen \<union> fst ` set (es @ ?rs) \<union> set explicit"
        unfolding seen'(1) set_append image_Un by blast
    qed
  qed
qed

lemma closed_downstream:
  assumes "\<And>p d. p \<in> V \<Longrightarrow> plan_edge specs p d \<Longrightarrow> d \<in> V" and "downstream specs t p" and "t \<in> V"
  shows "p \<in> V"
  using assms(2,3,1) unfolding downstream_def by (induction rule: rtranclp_induct) blast+

lemma decision_targets:
  assumes "company_gate_rework_target_projection_ids g decision = Inr ts"
  shows "distinct ts" and "[] \<notin> set ts"
  using assms
  by (auto simp: company_gate_rework_target_projection_ids_def target_projection_ids_for_decision_def
                 bind_result_Inr_iff Let_def split: if_splits)

text \<open>
  C34. A gate decision sends back exactly the projections that transitively depend on one of its
  targets, each once, and a plan with a cycle makes no difference.  A projection is marked an
  explicit target iff the decision names it, and its upstream target is a target it depends on.
\<close>

theorem rework_entries_are_the_closure:
  assumes targets: "company_gate_rework_target_projection_ids g decision = Inr ts"
  shows "\<exists>es. company_gate_harness_rework_entries g decision (Some specs) = Inr es \<and>
     distinct (map fst es) \<and>
     fst ` set es = {p. \<exists>t\<in>set ts. downstream specs t p} \<and>
     (\<forall>(p, f, u)\<in>set es. u \<in> set ts \<and> downstream specs u p \<and> f = (p \<in> set ts))"
proof -
  define es where "es = rework_walks (dependents_of specs) ts ts []"
  have edges: "(\<lambda>a b. b \<in> set (dependents (dependents_of specs) a)) = plan_edge specs"
    by (intro ext) (simp add: in_dependents_of)
  have exact: "distinct (map fst es) \<and> fst ` set es \<inter> set [] = {} \<and>
      (\<forall>(p, f, u)\<in>set es. u \<in> set ts \<and> f = (p \<in> set ts) \<and> (plan_edge specs)\<^sup>*\<^sup>* u p) \<and>
      set ts \<subseteq> fst ` set es \<and>
      (\<forall>p\<in>fst ` set es. \<forall>d\<in>set (dependents (dependents_of specs) p). d \<in> set [] \<union> fst ` set es \<union> set ts)"
    unfolding es_def edges[symmetric]
    by (rule rework_walks_exact) (use decision_targets[OF targets] in \<open>auto simp: in_dependents_of plan_edge_def\<close>)
  have named: "set ts \<subseteq> fst ` set es" using exact by (elim conjE)
  have "\<forall>p\<in>fst ` set es. \<forall>d\<in>set (dependents (dependents_of specs) p). d \<in> set [] \<union> fst ` set es \<union> set ts"
    using exact by (elim conjE)
  then have closed: "d \<in> fst ` set es" if "p \<in> fst ` set es" "plan_edge specs p d" for p d
    using that named unfolding in_dependents_of[symmetric] by (simp del: set_map) blast
  have "p \<in> fst ` set es" if "t \<in> set ts" "downstream specs t p" for t p
    by (rule closed_downstream[OF closed that(2)]) (use that(1) named in blast)+
  moreover have "\<exists>t\<in>set ts. downstream specs t p" if "p \<in> fst ` set es" for p
    using exact that unfolding downstream_def by fastforce
  ultimately have "fst ` set es = {p. \<exists>t\<in>set ts. downstream specs t p}" by blast
  moreover have "company_gate_harness_rework_entries g decision (Some specs) = Inr es"
    by (simp add: company_gate_harness_rework_entries_def targets es_def)
  moreover have "\<forall>(p, f, u)\<in>set es. u \<in> set ts \<and> downstream specs u p \<and> f = (p \<in> set ts)"
    using exact unfolding downstream_def by blast
  ultimately show ?thesis using exact by blast
qed

definition harness_gate :: gate_policy where
  "harness_gate = \<lparr>gp_metadata = [(''source'', PStr ''gate_harness'')], gp_rework_projection_id = None,
                   gp_reviewer_role = None, gp_instructions = []\<rparr>"

definition cyclic_plan :: "projection_spec list" where
  "cyclic_plan =
     [\<lparr>ps_projection_id = ''build'', ps_dependency_projection_ids = [''design'', ''ship'']\<rparr>,
      \<lparr>ps_projection_id = ''ship'', ps_dependency_projection_ids = [''build'']\<rparr>]"

lemma rework_entries_are_the_closure_witness:
  "company_gate_rework_target_projection_ids harness_gate [(''target_projection_id'', PStr ''design'')]
     = Inr [''design''] \<and>
   (\<exists>es. company_gate_harness_rework_entries harness_gate [(''target_projection_id'', PStr ''design'')]
           (Some cyclic_plan) = Inr es \<and> distinct (map fst es) \<and>
         fst ` set es = {p. \<exists>t\<in>set [''design'']. downstream cyclic_plan t p} \<and>
         (\<forall>(p, f, u)\<in>set es. u \<in> set [''design''] \<and> downstream cyclic_plan u p \<and> f = (p \<in> set [''design''])))"
proof -
  have targets: "company_gate_rework_target_projection_ids harness_gate
      [(''target_projection_id'', PStr ''design'')] = Inr [''design'']"
    by code_simp
  show ?thesis using targets rework_entries_are_the_closure[OF targets, of cyclic_plan] by blast
qed

section \<open>Routes\<close>

lemma routed_phase_cases:
  "routed_phase md attention delivery reviewable role \<in> {APPROVED, AWAITING_HUMAN, AWAITING_MANAGER_REVIEW}"
  "routed_phase md attention delivery reviewable role = AWAITING_MANAGER_REVIEW \<longleftrightarrow>
     \<not> attention \<and> \<not> delivery \<and> reviewable \<and> role \<noteq> []"
  "routed_phase md attention delivery reviewable role = AWAITING_HUMAN \<Longrightarrow>
     \<not> attention \<and> delivery \<and> is_final_human_acceptance md"
  by (simp_all add: routed_phase_def Let_def split: if_splits)

lemma planned_route:
  assumes "plan_company_work_item_done_routing t i summary = Inr r"
  defines "md \<equiv> routing_metadata (tk_metadata t) (wi_metadata i)"
  shows "dr_task_metadata r = md"
    and "dr_is_attention_work_item r = routed_attention md i"
    and "dr_review_owner_role_id r = review_owner md ''manager_role_id'' (wi_manager_role_id i)"
    and "\<exists>reviewable. dr_target_phase r =
           routed_phase md (dr_is_attention_work_item r) (is_delivery_turn (TurnMeta md)) reviewable
             (dr_review_owner_role_id r)"
  using assms
  by (auto simp: plan_company_work_item_done_routing_def Let_def bind_result_Inr_iff split: prod.splits)

text \<open>
  The route of accepted output is a legal move out of the running phase: the card is approved,
  waits for the human or for its manager's review.  It waits for a review only when there is an
  owner to give it, and then the card is neither an attention card nor a delivery; it waits for
  the human only for a final, user-visible delivery.
\<close>

theorem accepted_output_has_an_owner:
  assumes "plan_company_work_item_done_routing t i summary = Inr r"
  shows "validate_transition (Some RUNNING) (dr_target_phase r) = Inr () \<and>
     dr_target_phase r \<in> {APPROVED, AWAITING_HUMAN, AWAITING_MANAGER_REVIEW} \<and>
     (dr_target_phase r = AWAITING_MANAGER_REVIEW \<longrightarrow>
        dr_review_owner_role_id r \<noteq> [] \<and> \<not> dr_is_attention_work_item r \<and>
        \<not> is_delivery_turn (TurnMeta (dr_task_metadata r))) \<and>
     (dr_target_phase r = AWAITING_HUMAN \<longrightarrow> is_final_human_acceptance (dr_task_metadata r))"
proof -
  note route = planned_route[OF assms]
  obtain reviewable where phase: "dr_target_phase r =
      routed_phase (dr_task_metadata r) (dr_is_attention_work_item r)
        (is_delivery_turn (TurnMeta (dr_task_metadata r))) reviewable (dr_review_owner_role_id r)"
    using route(4) unfolding route(1)[symmetric] by blast
  from routed_phase_cases(1) have "dr_target_phase r \<in> {APPROVED, AWAITING_HUMAN, AWAITING_MANAGER_REVIEW}"
    unfolding phase .
  moreover from this have "validate_transition (Some RUNNING) (dr_target_phase r) = Inr ()"
    by (auto simp: validate_transition_def)
  ultimately show ?thesis using routed_phase_cases(2,3)[of "dr_task_metadata r"] phase by metis
qed

definition reviewed_task :: task where
  "reviewed_task = new_task ''t1''"

definition reviewed_item :: work_item where
  "reviewed_item = (new_work_item ''w1'')
     \<lparr>wi_manager_role_id := ''cto'', wi_metadata := [(''user_visible'', PBool True)]\<rparr>"

definition reviewed_route :: done_route where
  "reviewed_route =
     \<lparr>dr_target_phase = AWAITING_MANAGER_REVIEW,
      dr_task_metadata = [(''user_visible'', PBool True)],
      dr_work_item_metadata_updates =
        [(''work_item_projection_id'', PStr ''t1''), (''adaptive'', PDict []),
         (''review_owner_role_id'', PStr ''cto''), (''review_owner_seat_id'', PStr []),
         (''completion_report'', PStr ''done'')],
      dr_manager_turn_context = [], dr_review_owner_role_id = ''cto'', dr_review_owner_seat_id = [],
      dr_is_attention_work_item = False\<rparr>"

lemma reviewed_plan:
  "plan_company_work_item_done_routing reviewed_task reviewed_item ''done'' = Inr reviewed_route"
  by code_simp

lemma accepted_output_has_an_owner_witness:
  "dr_target_phase reviewed_route = AWAITING_MANAGER_REVIEW \<and> dr_review_owner_role_id reviewed_route \<noteq> []"
proof -
  have "dr_target_phase reviewed_route = AWAITING_MANAGER_REVIEW" by (simp add: reviewed_route_def)
  with accepted_output_has_an_owner[OF reviewed_plan] show ?thesis by blast
qed

section \<open>A route can be recomputed\<close>

definition fill :: "pydict \<Rightarrow> string list \<Rightarrow> pydict \<Rightarrow> pydict" where
  "fill src ks md = fold (\<lambda>k md. if \<not> dhas md k \<and> dhas src k then dset k (dget src k) md else md) ks md"

lemma fill_other: "k \<notin> set ks \<Longrightarrow> dget (fill src ks md) k = dget md k"
  by (induction ks arbitrary: md) (auto simp: fill_def)

lemma fill_keeps: "dhas md k \<Longrightarrow> dhas (fill src ks md) k"
  by (induction ks arbitrary: md) (auto simp: fill_def)

lemma fill_covers: "k \<in> set ks \<Longrightarrow> dhas src k \<Longrightarrow> dhas (fill src ks md) k"
proof (induction ks arbitrary: md)
  case Nil
  then show ?case by simp
next
  case (Cons k' ks)
  show ?case
  proof (cases "k = k'")
    case True
    with Cons.prems have "dhas (if \<not> dhas md k' \<and> dhas src k' then dset k' (dget src k') md else md) k" by auto
    from fill_keeps[OF this, of src ks] show ?thesis by (simp add: fill_def)
  next
    case False
    with Cons show ?thesis by (simp add: fill_def)
  qed
qed

lemma fill_idle: "(\<And>k. k \<in> set ks \<Longrightarrow> dhas src k \<Longrightarrow> dhas md k) \<Longrightarrow> fill src ks md = md"
  by (induction ks) (auto simp: fill_def)

lemma routing_metadata_fill: "routing_metadata a b = fill b ROUTING_METADATA_FROM_WORK_ITEM a"
  by (simp add: routing_metadata_def fill_def)

lemma routing_metadata_idem: "routing_metadata (routing_metadata a b) b = routing_metadata a b"
  unfolding routing_metadata_fill by (rule fill_idle) (simp add: fill_covers)

lemma routing_keeps_identity:
  "k \<in> {''work_item_turn_type'', ''work_kind'', ''delegation_turn_kind'', ''work_item_projection_id''} \<Longrightarrow>
   dget (routing_metadata a b) k = dget a k"
  unfolding routing_metadata_fill
  by (rule fill_other) (auto simp: ROUTING_METADATA_FROM_WORK_ITEM_def)

lemma routing_empty: "routing_metadata a b = [] \<Longrightarrow> a = []"
  using fill_keeps[of a "fst (hd a)" b ROUTING_METADATA_FROM_WORK_ITEM]
  by (cases a) (auto simp: routing_metadata_fill)

lemma turn_type_empty:
  "fb \<in> {[], ''execute''} \<Longrightarrow> normalize_work_item_turn_type (PStr fb) [] = py_lower (py_strip fb)"
  by (elim insertE emptyE; simp; code_simp)

lemma turn_type_routing:
  assumes "fb \<in> {[], ''execute''} \<or> a \<noteq> []"
  shows "work_item_turn_type_from_metadata (routing_metadata a b) fb = work_item_turn_type_from_metadata a fb"
proof (cases "a = []")
  case True
  have "normalize_work_item_turn_type PNone [] = []" by code_simp
  with True assms turn_type_empty[of fb] show ?thesis
    by (simp add: work_item_turn_type_from_metadata_def routing_keeps_identity)
next
  case False
  with routing_empty have "routing_metadata a b \<noteq> []" by blast
  with False show ?thesis by (simp add: work_item_turn_type_from_metadata_def routing_keeps_identity)
qed

lemma routed_work_kind_again:
  "routed_work_kind (t\<lparr>tk_metadata := routing_metadata (tk_metadata t) b\<rparr>) (routing_metadata (tk_metadata t) b)
     = routed_work_kind t (routing_metadata (tk_metadata t) b)"
proof -
  have "tk_metadata t = [] \<Longrightarrow>
      py_str (py_or (dget (routing_metadata (tk_metadata t) b) ''work_kind'') (PStr ''execute'')) = ''execute''"
    by (simp add: routing_keeps_identity py_or_def)
  then show ?thesis
    by (cases "tk_metadata t = []")
       (simp_all add: routed_work_kind_def turn_type_for_task_def turn_type_routing)
qed

lemma identity_payload_again:
  "work_item_identity_payload_for_task (Some (t\<lparr>tk_metadata := routing_metadata (tk_metadata t) b\<rparr>)) [] e
     = work_item_identity_payload_for_task (Some t) [] e"
  by (simp add: work_item_identity_payload_for_task_def projection_id_for_task_def turn_type_for_task_def
                turn_type_routing work_item_projection_id_from_metadata_def routing_keeps_identity)

text \<open>
  Planning again over the metadata a route has written gives that route: a normal completion
  and the gate reply that resumes it in another controller generation agree.
\<close>

theorem routing_is_recomputable:
  assumes "plan_company_work_item_done_routing t i summary = Inr r"
  shows "plan_company_work_item_done_routing (t\<lparr>tk_metadata := dr_task_metadata r\<rparr>) i summary = Inr r"
proof -
  have "dr_task_metadata r = routing_metadata (tk_metadata t) (wi_metadata i)"
    by (rule planned_route(1)[OF assms])
  then have "plan_company_work_item_done_routing (t\<lparr>tk_metadata := dr_task_metadata r\<rparr>) i summary
      = plan_company_work_item_done_routing t i summary"
    by (simp add: plan_company_work_item_done_routing_def routing_metadata_idem routed_work_kind_again
                  identity_payload_again)
  then show ?thesis by (simp add: assms)
qed

lemma routing_is_recomputable_witness:
  "plan_company_work_item_done_routing (reviewed_task\<lparr>tk_metadata := [(''user_visible'', PBool True)]\<rparr>)
     reviewed_item ''done'' = Inr reviewed_route"
proof -
  have "dr_task_metadata reviewed_route = [(''user_visible'', PBool True)]" by (simp add: reviewed_route_def)
  with routing_is_recomputable[OF reviewed_plan] show ?thesis by simp
qed

end
