(* ===== verification/TaskGraph.thy ===== *)
theory TaskGraph
  imports Identity
begin

text \<open>
  \<open>opc/layer2_organization/task_graph.py\<close>: tasks created from a dispatch plan and run along
  their dependencies.  New task ids are an argument; a plan entry's metadata is a dictionary and
  its text fields are texts.  The executor is an argument: what it does to the task it is given
  is the status it leaves and the row it last saved.  Progress events are left out.
\<close>

section \<open>Creating the tasks\<close>

definition text_field :: "pydict \<Rightarrow> string \<Rightarrow> string \<Rightarrow> string" where
  "text_field td k dflt = (case dget_or td k (PStr dflt) of PStr s \<Rightarrow> s | v \<Rightarrow> py_str v)"

definition optional_text_field :: "pydict \<Rightarrow> string \<Rightarrow> string option" where
  "optional_text_field td k = (case dget td k of PNone \<Rightarrow> None | PStr s \<Rightarrow> Some s | v \<Rightarrow> Some (py_str v))"

definition spec_metadata :: "pydict \<Rightarrow> pydict" where
  "spec_metadata td = (case dget_or td ''metadata'' (PDict []) of PDict md \<Rightarrow> md | _ \<Rightarrow> [])"

definition spec_task :: "string \<Rightarrow> pydict \<Rightarrow> task" where
  "spec_task tid td =
     (new_task tid)\<lparr>tk_session_id := optional_text_field td ''session_id'',
        tk_parent_session_id := optional_text_field td ''parent_session_id'',
        tk_title := text_field td ''title'' [],
        tk_assigned_to := text_field td ''assigned_to'' [],
        tk_project_id := text_field td ''project_id'' ''default'',
        tk_metadata := spec_metadata td\<rparr>"

definition logical_key :: "pydict \<Rightarrow> pyval" where
  "logical_key td =
     py_or (dget td ''task_key'')
       (py_or (PStr (work_item_projection_id_from_metadata (spec_metadata td) []))
              (dget (spec_metadata td) ''task_key''))"

definition logical_id_map :: "(string \<times> pydict) list \<Rightarrow> (string \<rightharpoonup> string)" where
  \<comment> \<open>of two specs with one key, the later one is meant\<close>
  "logical_id_map specs =
     fold (\<lambda>(tid, td) m. let k = logical_key td in if truthy k then m(py_str k \<mapsto> tid) else m) specs Map.empty"

definition index_id :: "string list \<Rightarrow> int \<Rightarrow> string list" where
  "index_id ids n = (if 0 \<le> n \<and> n < int (length ids) then [ids ! nat n] else [])"

fun resolve_dependency :: "string list \<Rightarrow> (string \<rightharpoonup> string) \<Rightarrow> pyval \<Rightarrow> string list" where
  "resolve_dependency ids m (PInt n) = index_id ids n"
| "resolve_dependency ids m (PBool b) = index_id ids (if b then 1 else 0)"
| "resolve_dependency ids m (PStr s) = [case m s of Some tid \<Rightarrow> tid | None \<Rightarrow> s]"
| "resolve_dependency ids m _ = []"

definition create_tasks :: "(string \<times> pydict) list \<Rightarrow> task list result" where
  "create_tasks specs =
     map_result (\<lambda>(tid, td).
        bind_result (py_list (dget_or td ''dependencies'' (PList []))) (\<lambda>deps.
          Inr ((spec_task tid td)\<lparr>tk_dependencies :=
                 concat (map (resolve_dependency (map fst specs) (logical_id_map specs)) deps)\<rparr>)))
       specs"

section \<open>Running them\<close>

definition done_ids :: "task list \<Rightarrow> string set" where
  "done_ids ts = tk_id ` set (filter (\<lambda>t. tk_status t = TS_DONE) ts)"

definition deps_done :: "string set \<Rightarrow> task \<Rightarrow> bool" where
  "deps_done S t \<longleftrightarrow> list_all (\<lambda>d. d \<in> S) (tk_dependencies t)"

definition get_runnable :: "task list \<Rightarrow> task list" where
  "get_runnable ts = filter (\<lambda>t. tk_status t = TS_PENDING \<and> deps_done (done_ids ts) t) ts"

text \<open>\<open>task_map\<close> holds the last task of an id; the objects are the positions of the list.\<close>

definition task_index :: "task list \<Rightarrow> (string \<rightharpoonup> nat)" where
  "task_index ts = map_of (rev (zip (map tk_id ts) [0..<length ts]))"

definition tasks_at :: "task list \<Rightarrow> string list \<Rightarrow> task list" where
  "tasks_at ts ids = concat (map (\<lambda>tid. case task_index ts tid of None \<Rightarrow> [] | Some n \<Rightarrow> [ts ! n]) ids)"

datatype run_end = Raises | Ends task_status "task_status option"

type_synonym graph_state = "task list \<times> (string \<rightharpoonup> task_status)"

definition set_status :: "string \<Rightarrow> task_status \<Rightarrow> task list \<Rightarrow> task list" where
  "set_status tid s ts =
     (case task_index ts tid of None \<Rightarrow> ts | Some n \<Rightarrow> ts[n := (ts ! n)\<lparr>tk_status := s\<rparr>])"

definition end_status :: "(task \<Rightarrow> run_end) \<Rightarrow> task \<Rightarrow> task_status" where
  "end_status executor t =
     (case executor (t\<lparr>tk_status := TS_RUNNING\<rparr>) of Raises \<Rightarrow> TS_FAILED | Ends s _ \<Rightarrow> s)"

definition end_row :: "(task \<Rightarrow> run_end) \<Rightarrow> task \<Rightarrow> task_status" where
  \<comment> \<open>the row is saved as running before the executor is called\<close>
  "end_row executor t =
     (case executor (t\<lparr>tk_status := TS_RUNNING\<rparr>) of
        Raises \<Rightarrow> TS_FAILED
      | Ends _ saved \<Rightarrow> (case saved of None \<Rightarrow> TS_RUNNING | Some s \<Rightarrow> s))"

definition run_one :: "(task \<Rightarrow> run_end) \<Rightarrow> task \<Rightarrow> graph_state \<Rightarrow> graph_state" where
  "run_one executor t st =
     (set_status (tk_id t) (end_status executor t) (fst st), (snd st)(tk_id t \<mapsto> end_row executor t))"

definition block_one :: "task \<Rightarrow> graph_state \<Rightarrow> graph_state" where
  "block_one t st = (set_status (tk_id t) TS_BLOCKED (fst st), (snd st)(tk_id t \<mapsto> TS_BLOCKED))"

definition runnable_now :: "string list \<Rightarrow> task list \<Rightarrow> task list" where
  "runnable_now remaining ts =
     get_runnable (tasks_at ts remaining @ filter (\<lambda>t. tk_status t = TS_DONE) ts)"

definition drop_run :: "task list \<Rightarrow> string list \<Rightarrow> string list" where
  "drop_run batch remaining = filter (\<lambda>tid. tid \<notin> tk_id ` set batch) remaining"

lemma task_index_Some: "task_index ts tid = Some n \<Longrightarrow> n < length ts \<and> tk_id (ts ! n) = tid"
  unfolding task_index_def by (drule map_of_SomeD) (auto simp: set_zip)

lemma task_index_exists: "t \<in> set ts \<Longrightarrow> \<exists>n. task_index ts (tk_id t) = Some n"
proof -
  assume "t \<in> set ts"
  then have "tk_id t \<in> set (map tk_id ts)" by simp
  moreover have "map fst (zip (map tk_id ts) [0..<length ts]) = map tk_id ts" by (rule map_fst_zip) simp
  ultimately have "tk_id t \<in> fst ` set (zip (map tk_id ts) [0..<length ts])" by (metis set_map)
  then have "task_index ts (tk_id t) \<noteq> None" unfolding task_index_def map_of_eq_None_iff by simp
  then show ?thesis by blast
qed

lemma tasks_at_iff: "t \<in> set (tasks_at ts ids) \<longleftrightarrow> (\<exists>tid\<in>set ids. \<exists>n. task_index ts tid = Some n \<and> t = ts ! n)"
proof
  assume "t \<in> set (tasks_at ts ids)"
  then obtain tid where "tid \<in> set ids" "t \<in> set (case task_index ts tid of None \<Rightarrow> [] | Some n \<Rightarrow> [ts ! n])"
    by (auto simp: tasks_at_def)
  then show "\<exists>tid\<in>set ids. \<exists>n. task_index ts tid = Some n \<and> t = ts ! n"
    by (cases "task_index ts tid") auto
next
  assume "\<exists>tid\<in>set ids. \<exists>n. task_index ts tid = Some n \<and> t = ts ! n"
  then show "t \<in> set (tasks_at ts ids)" by (force simp: tasks_at_def)
qed

lemma runnable_remaining: "t \<in> set (runnable_now remaining ts) \<Longrightarrow> tk_id t \<in> set remaining"
  by (auto simp: runnable_now_def get_runnable_def tasks_at_iff dest: task_index_Some)

lemma drop_run_less: "runnable_now remaining ts \<noteq> [] \<Longrightarrow>
   length (drop_run (runnable_now remaining ts) remaining) < length remaining"
proof -
  assume "runnable_now remaining ts \<noteq> []"
  then obtain t where "t \<in> set (runnable_now remaining ts)" by (cases "runnable_now remaining ts") auto
  then show ?thesis unfolding drop_run_def using runnable_remaining[of t remaining ts]
    by (intro length_filter_less[of "tk_id t"]) auto
qed

text \<open>
  The loop \<open>while remaining\<close>.  The tasks of a batch run in parallel on objects of their own, so
  the batch is taken in list order.  Every round runs a task and drops it, or ends the loop.
\<close>

function execute_rounds :: "(task \<Rightarrow> run_end) \<Rightarrow> string list \<Rightarrow> graph_state \<Rightarrow> graph_state" where
  "execute_rounds executor remaining st =
     (if remaining = [] then st
      else let batch = runnable_now remaining (fst st)
           in if batch = [] then fold block_one (tasks_at (fst st) remaining) st
              else execute_rounds executor (drop_run batch remaining) (fold (run_one executor) batch st))"
  by pat_completeness auto

termination
  by (relation "measure (\<lambda>(_, remaining, _). length remaining)") (auto simp: drop_run_less)

declare execute_rounds.simps [simp del]

definition execute_graph :: "(task \<Rightarrow> run_end) \<Rightarrow> task list \<Rightarrow> (string \<rightharpoonup> task_status) \<Rightarrow> graph_state" where
  "execute_graph executor ts rows =
     execute_rounds executor (dedup (map tk_id (filter (\<lambda>t. tk_status t = TS_PENDING) ts))) (ts, rows)"

section \<open>What a run does\<close>

lemma index_distinct:
  assumes "distinct (map tk_id ts)" "n < length ts"
  shows "task_index ts (tk_id (ts ! n)) = Some n"
proof -
  obtain m where m: "task_index ts (tk_id (ts ! n)) = Some m" using task_index_exists[of "ts ! n" ts] assms by auto
  from task_index_Some[OF this] assms have "m = n" by (auto simp: distinct_conv_nth)
  with m show ?thesis by simp
qed

lemma set_status_distinct:
  assumes "distinct (map tk_id ts)"
  shows "set_status tid s ts = map (\<lambda>t. if tk_id t = tid then t\<lparr>tk_status := s\<rparr> else t) ts"
proof (cases "task_index ts tid")
  case None
  then have "tk_id t \<noteq> tid" if "t \<in> set ts" for t using task_index_exists[OF that] by auto
  with None show ?thesis by (auto simp: set_status_def intro!: map_idI[symmetric])
next
  case (Some n)
  from task_index_Some[OF Some] have n: "n < length ts" "tk_id (ts ! n) = tid" by auto
  have "tk_id (ts ! m) = tid \<longleftrightarrow> m = n" if "m < length ts" for m
    using assms n that by (auto simp: distinct_conv_nth)
  with Some n show ?thesis by (auto simp: set_status_def nth_list_update intro!: nth_equalityI)
qed

lemma tasks_at_distinct:
  assumes "distinct (map tk_id ts)"
  shows "t \<in> set (tasks_at ts ids) \<longleftrightarrow> t \<in> set ts \<and> tk_id t \<in> set ids"
proof
  assume "t \<in> set (tasks_at ts ids)"
  then show "t \<in> set ts \<and> tk_id t \<in> set ids" by (auto simp: tasks_at_iff dest: task_index_Some)
next
  assume t: "t \<in> set ts \<and> tk_id t \<in> set ids"
  then obtain n where "n < length ts" "t = ts ! n" by (auto simp: in_set_conv_nth)
  with t index_distinct[OF assms this(1)] show "t \<in> set (tasks_at ts ids)" unfolding tasks_at_iff by blast
qed

lemma map_status_ids: "map tk_id (map (\<lambda>t. if P t then t\<lparr>tk_status := s t\<rparr> else t) ts) = map tk_id ts"
  by simp

lemma fold_status:
  assumes "distinct (map tk_id ts)" and step: "\<And>t st. fst (f t st) = set_status (tk_id t) (s t) (fst st)"
    and "distinct (map tk_id bs)"
  shows "fst (fold f bs (ts, rows)) =
     map (\<lambda>t. case map_of (map (\<lambda>b. (tk_id b, s b)) bs) (tk_id t) of None \<Rightarrow> t | Some x \<Rightarrow> t\<lparr>tk_status := x\<rparr>) ts"
  using assms(1,3)
proof (induction bs arbitrary: ts rows)
  case Nil
  then show ?case by simp
next
  case (Cons b bs)
  let ?ts = "set_status (tk_id b) (s b) ts"
  have ids: "map tk_id ?ts = map tk_id ts" by (simp add: set_status_distinct[OF Cons.prems(1)])
  have "fst (fold f (b # bs) (ts, rows)) = fst (fold f bs (?ts, snd (f b (ts, rows))))"
    using step[of b "(ts, rows)"] by (metis fold_simps(2) fst_conv prod.collapse)
  also have "\<dots> = map (\<lambda>t. case map_of (map (\<lambda>b. (tk_id b, s b)) bs) (tk_id t) of None \<Rightarrow> t | Some x \<Rightarrow> t\<lparr>tk_status := x\<rparr>) ?ts"
    using Cons ids by simp
  also have "\<dots> = map (\<lambda>t. case map_of (map (\<lambda>b. (tk_id b, s b)) (b # bs)) (tk_id t) of None \<Rightarrow> t | Some x \<Rightarrow> t\<lparr>tk_status := x\<rparr>) ts"
  proof -
    have "map_of (map (\<lambda>b. (tk_id b, s b)) bs) (tk_id b) = None"
      using Cons.prems(2) by (auto simp: map_of_eq_None_iff)
    then show ?thesis unfolding set_status_distinct[OF Cons.prems(1)] by (auto split: option.split)
  qed
  finally show ?case .
qed

definition ran_task :: "(task \<Rightarrow> run_end) \<Rightarrow> string set \<Rightarrow> task \<Rightarrow> task" where
  "ran_task executor R t =
     (if tk_status t = TS_PENDING \<and> tk_id t \<notin> R then t\<lparr>tk_status := end_status executor t\<rparr> else t)"

lemma ran_task_simps [simp]:
  "tk_id (ran_task executor R t) = tk_id t" "tk_dependencies (ran_task executor R t) = tk_dependencies t"
  "tk_id t \<in> R \<Longrightarrow> ran_task executor R t = t"
  by (simp_all add: ran_task_def)

definition after_run :: "(task \<Rightarrow> run_end) \<Rightarrow> task list \<Rightarrow> string set \<Rightarrow> task list" where
  "after_run executor ts R = map (ran_task executor R) ts"

lemma after_run_ids [simp]: "map tk_id (after_run executor ts R) = map tk_id ts"
  by (simp add: after_run_def)

lemma ids_of_tasks_at:
  "set R \<subseteq> set (map tk_id ts) \<Longrightarrow> map tk_id (tasks_at ts R) = R"
proof (induction R)
  case Nil
  then show ?case by (simp add: tasks_at_def)
next
  case (Cons tid R)
  from Cons.prems obtain t where "t \<in> set ts" "tk_id t = tid" by auto
  with task_index_exists[of t ts] obtain n where n: "task_index ts tid = Some n" by auto
  with Cons task_index_Some[OF n] show ?case by (simp add: tasks_at_def)
qed

lemma batch_ids_distinct:
  assumes "distinct R" "set R \<subseteq> set (map tk_id ts)"
  shows "distinct (map tk_id (runnable_now R ts))"
proof -
  let ?P = "\<lambda>t. tk_status t = TS_PENDING \<and>
              deps_done (done_ids (tasks_at ts R @ filter (\<lambda>t. tk_status t = TS_DONE) ts)) t"
  have "filter ?P (filter (\<lambda>t. tk_status t = TS_DONE) ts) = []" by (auto simp: filter_empty_conv)
  then have "runnable_now R ts = filter ?P (tasks_at ts R)" by (simp add: runnable_now_def get_runnable_def)
  then show ?thesis using assms by (simp add: ids_of_tasks_at distinct_map_filter)
qed

text \<open>The tasks that can run: the ones left whose dependencies are done by now.\<close>

lemma in_batch_iff:
  fixes executor :: "task \<Rightarrow> run_end"
  assumes ids: "distinct (map tk_id ts)"
    and R: "set R \<subseteq> tk_id ` {t \<in> set ts. tk_status t = TS_PENDING}"
  defines "now \<equiv> after_run executor ts (set R)"
  shows "b \<in> set (runnable_now R now) \<longleftrightarrow> b \<in> set ts \<and> tk_id b \<in> set R \<and> deps_done (done_ids now) b"
proof -
  have one: "t = t'" if "t \<in> set ts" "t' \<in> set ts" "tk_id t = tk_id t'" for t t'
    using ids that by (auto simp: distinct_map dest: inj_onD)
  have left: "t \<in> set now \<and> tk_id t \<in> set R \<longleftrightarrow> t \<in> set ts \<and> tk_id t \<in> set R" for t
    by (force simp: now_def after_run_def)
  have pend: "tk_status t = TS_PENDING" if "t \<in> set ts" "tk_id t \<in> set R" for t
  proof -
    from R that(2) obtain t' where "t' \<in> set ts" "tk_status t' = TS_PENDING" "tk_id t = tk_id t'" by blast
    with one[OF that(1)] show ?thesis by blast
  qed
  have at: "t \<in> set (tasks_at now R) \<longleftrightarrow> t \<in> set ts \<and> tk_id t \<in> set R" for t
    using left tasks_at_distinct[of now t R] ids by (simp add: now_def)
  have "done_ids (tasks_at now R @ filter (\<lambda>t. tk_status t = TS_DONE) now) = done_ids now"
    using at pend by (fastforce simp: done_ids_def)
  then show ?thesis using at pend by (auto simp: runnable_now_def get_runnable_def)
qed

lemma one_task: "distinct (map tk_id ts) \<Longrightarrow> t \<in> set ts \<Longrightarrow> t' \<in> set ts \<Longrightarrow> tk_id t = tk_id t' \<Longrightarrow> t = t'"
  by (auto simp: distinct_map dest: inj_onD)

lemma lookup_status:
  assumes "distinct (map tk_id ts)" "t \<in> set ts" "set bs \<subseteq> set ts"
  shows "map_of (map (\<lambda>b. (tk_id b, f b)) bs) (tk_id t) = (if t \<in> set bs then Some (f t) else None)"
  using assms(3)
proof (induction bs)
  case (Cons b bs)
  then have "tk_id b = tk_id t \<longleftrightarrow> b = t" using one_task[OF assms(1) _ assms(2), of b] by auto
  with Cons show ?case by auto
qed simp

lemma batch_after_run:
  fixes executor :: "task \<Rightarrow> run_end"
  assumes ids: "distinct (map tk_id ts)" and R: "set R \<subseteq> tk_id ` {t \<in> set ts. tk_status t = TS_PENDING}"
    and "distinct R"
  defines "now \<equiv> after_run executor ts (set R)"
  shows "fst (fold (run_one executor) (runnable_now R now) (now, rows)) =
     after_run executor ts (set (drop_run (runnable_now R now) R))"
proof -
  have now_ids: "distinct (map tk_id now)" "set R \<subseteq> set (map tk_id now)" using ids R by (auto simp: now_def)
  let ?batch = "runnable_now R now"
  have batch: "t \<in> set ?batch \<longleftrightarrow> t \<in> set ts \<and> tk_id t \<in> set R \<and> deps_done (done_ids now) t" for t
    unfolding now_def by (rule in_batch_iff[OF ids R])
  then have sub: "set ?batch \<subseteq> set ts" by blast
  have entry: "(case map_of (map (\<lambda>b. (tk_id b, end_status executor b)) ?batch) (tk_id t) of
            None \<Rightarrow> ran_task executor (set R) t | Some x \<Rightarrow> (ran_task executor (set R) t)\<lparr>tk_status := x\<rparr>)
        = ran_task executor (set (drop_run ?batch R)) t" if t: "t \<in> set ts" for t
  proof (cases "t \<in> set ?batch")
    case True
    with batch R obtain t' where "t' \<in> set ts" "tk_status t' = TS_PENDING" "tk_id t = tk_id t'" by blast
    with one_task[OF ids t] have "tk_status t = TS_PENDING" by blast
    with True batch show ?thesis by (simp add: lookup_status[OF ids t sub] ran_task_def drop_run_def)
  next
    case False
    then have "tk_id t \<notin> tk_id ` set ?batch" using one_task[OF ids t] sub by (auto simp del: batch)
    with False show ?thesis by (simp add: lookup_status[OF ids t sub] ran_task_def drop_run_def)
  qed
  have "fst (fold (run_one executor) ?batch (now, rows)) =
      map (\<lambda>t. case map_of (map (\<lambda>b. (tk_id b, end_status executor b)) ?batch) (tk_id t) of
                 None \<Rightarrow> t | Some x \<Rightarrow> t\<lparr>tk_status := x\<rparr>) now"
    by (rule fold_status[OF now_ids(1)]) (simp_all add: run_one_def batch_ids_distinct[OF assms(3) now_ids(2)])
  also have "\<dots> = map (\<lambda>t. case map_of (map (\<lambda>b. (tk_id b, end_status executor b)) ?batch) (tk_id t) of
       None \<Rightarrow> ran_task executor (set R) t | Some x \<Rightarrow> (ran_task executor (set R) t)\<lparr>tk_status := x\<rparr>) ts"
    using now_def by (simp add: after_run_def)
  also have "\<dots> = after_run executor ts (set (drop_run ?batch R))"
    unfolding after_run_def using entry by (intro map_cong refl)
  finally show ?thesis .
qed

lemma blocked_after_run:
  assumes ids: "distinct (map tk_id ts)" and "set R \<subseteq> set (map tk_id ts)" and "distinct R"
  shows "fst (fold block_one (tasks_at ts R) (ts, rows)) =
     map (\<lambda>t. if tk_id t \<in> set R then t\<lparr>tk_status := TS_BLOCKED\<rparr> else t) ts"
proof -
  have sub: "set (tasks_at ts R) \<subseteq> set ts" using tasks_at_distinct[OF ids] by blast
  have "fst (fold block_one (tasks_at ts R) (ts, rows)) =
      map (\<lambda>t. case map_of (map (\<lambda>b. (tk_id b, TS_BLOCKED)) (tasks_at ts R)) (tk_id t) of
                 None \<Rightarrow> t | Some x \<Rightarrow> t\<lparr>tk_status := x\<rparr>) ts"
    by (rule fold_status[OF ids]) (use assms(2,3) in \<open>simp_all add: block_one_def ids_of_tasks_at\<close>)
  also have "\<dots> = map (\<lambda>t. if tk_id t \<in> set R then t\<lparr>tk_status := TS_BLOCKED\<rparr> else t) ts"
    by (intro map_cong refl) (simp add: lookup_status[OF ids _ sub] tasks_at_distinct[OF ids])
  finally show ?thesis .
qed

lemma done_after_run:
  assumes "distinct (map tk_id ts)" "R' \<subseteq> R" "R \<subseteq> tk_id ` {t \<in> set ts. tk_status t = TS_PENDING}"
  shows "done_ids (after_run executor ts R) \<subseteq> done_ids (after_run executor ts R')"
proof
  fix x assume "x \<in> done_ids (after_run executor ts R)"
  then obtain t where t: "t \<in> set ts" "tk_status (ran_task executor R t) = TS_DONE" "x = tk_id t"
    by (auto simp: done_ids_def after_run_def)
  have "tk_id t \<notin> R"
  proof
    assume r: "tk_id t \<in> R"
    with assms(3) obtain t' where "t' \<in> set ts" "tk_status t' = TS_PENDING" "tk_id t = tk_id t'" by blast
    with one_task[OF assms(1) t(1)] have "tk_status t = TS_PENDING" by blast
    with t(2) r show False by simp
  qed
  with t assms(2) have "tk_status (ran_task executor R' t) = TS_DONE" by (auto simp: ran_task_def)
  then have "ran_task executor R' t \<in> set (filter (\<lambda>t. tk_status t = TS_DONE) (after_run executor ts R'))"
    using t(1) by (simp add: after_run_def)
  then show "x \<in> done_ids (after_run executor ts R')"
    unfolding done_ids_def t(3) by (rule rev_image_eqI) simp
qed

text \<open>What the graph comes to, seen from its end.\<close>

definition outcome :: "(task \<Rightarrow> run_end) \<Rightarrow> string set \<Rightarrow> task \<Rightarrow> task" where
  "outcome executor S t =
     (if tk_status t \<noteq> TS_PENDING then t
      else t\<lparr>tk_status := (if deps_done S t then end_status executor t else TS_BLOCKED)\<rparr>)"

lemma deps_done_mono: "S \<subseteq> S' \<Longrightarrow> deps_done S t \<Longrightarrow> deps_done S' t"
  by (auto simp: deps_done_def list_all_iff)

lemma rounds_outcome:
  assumes "distinct (map tk_id ts)" "set R \<subseteq> tk_id ` {t \<in> set ts. tk_status t = TS_PENDING}" "distinct R"
    "\<forall>t\<in>set ts. tk_status t = TS_PENDING \<and> tk_id t \<notin> set R \<longrightarrow> deps_done (done_ids (after_run executor ts (set R))) t"
    "fst st = after_run executor ts (set R)"
  shows "fst (execute_rounds executor R st) =
     map (outcome executor (done_ids (fst (execute_rounds executor R st)))) ts"
  using assms(2-)
proof (induction "length R" arbitrary: R st rule: less_induct)
  case less
  note ids = assms(1)
  let ?now = "after_run executor ts (set R)"
  let ?batch = "runnable_now R ?now"
  obtain rows where st: "st = (?now, rows)" using less.prems(4) by (cases st) simp
  have now_ids: "distinct (map tk_id ?now)" "set R \<subseteq> set (map tk_id ?now)" using ids less.prems(1) by auto
  have pend: "tk_status t = TS_PENDING" if "t \<in> set ts" "tk_id t \<in> set R" for t
  proof -
    from less.prems(1) that(2) obtain t' where "t' \<in> set ts" "tk_status t' = TS_PENDING" "tk_id t = tk_id t'" by blast
    with one_task[OF ids that(1)] show ?thesis by blast
  qed
  consider "R = []" | "R \<noteq> []" "?batch = []" | "R \<noteq> []" "?batch \<noteq> []" by blast
  then show ?case
  proof cases
    case 1
    then have "fst (execute_rounds executor R st) = ?now" by (simp add: execute_rounds.simps st)
    with 1 less.prems(3) show ?thesis
      by (auto simp: after_run_def outcome_def ran_task_def)
  next
    case 2
    then have blocked: "fst (execute_rounds executor R st) =
        map (\<lambda>t. if tk_id t \<in> set R then t\<lparr>tk_status := TS_BLOCKED\<rparr> else t) ?now"
      by (simp add: execute_rounds.simps st blocked_after_run[OF now_ids less.prems(2)])
    then have final: "fst (execute_rounds executor R st) =
        map (\<lambda>t. if tk_id t \<in> set R then t\<lparr>tk_status := TS_BLOCKED\<rparr> else ran_task executor (set R) t) ts"
      by (simp add: after_run_def)
    have "done_ids (fst (execute_rounds executor R st)) = done_ids ?now"
      using pend unfolding blocked by (force simp: done_ids_def after_run_def)
    moreover have "\<not> deps_done (done_ids ?now) t" if "t \<in> set ts" "tk_id t \<in> set R" for t
      using in_batch_iff[OF ids less.prems(1), of t executor] 2(2) that by simp
    ultimately show ?thesis unfolding final using pend less.prems(3)
      by (auto simp: outcome_def ran_task_def)
  next
    case 3
    let ?R = "drop_run ?batch R"
    have shrink: "set ?R \<subseteq> set R" "distinct ?R" using less.prems(2) by (auto simp: drop_run_def)
    have step: "execute_rounds executor R st = execute_rounds executor ?R (fold (run_one executor) ?batch st)"
      using 3 by (subst execute_rounds.simps) (simp add: st Let_def)
    have more_done: "done_ids ?now \<subseteq> done_ids (after_run executor ts (set ?R))"
      by (rule done_after_run[OF ids shrink(1) less.prems(1)])
    have "deps_done (done_ids (after_run executor ts (set ?R))) t"
      if "t \<in> set ts" "tk_status t = TS_PENDING" "tk_id t \<notin> set ?R" for t
    proof (cases "tk_id t \<in> set R")
      case True
      with that(3) obtain b where "b \<in> set ?batch" "tk_id t = tk_id b" by (auto simp: drop_run_def)
      with in_batch_iff[OF ids less.prems(1), of b executor] one_task[OF ids that(1), of b]
      have "deps_done (done_ids ?now) t" by blast
      with more_done show ?thesis by (rule deps_done_mono)
    next
      case False
      with less.prems(3) that have "deps_done (done_ids ?now) t" by blast
      with more_done show ?thesis by (rule deps_done_mono)
    qed
    moreover have "fst (fold (run_one executor) ?batch st) = after_run executor ts (set ?R)"
      unfolding st by (rule batch_after_run[OF ids less.prems(1,2)])
    ultimately show ?thesis unfolding step
      using less.hyps[of ?R "fold (run_one executor) ?batch st"] drop_run_less[OF 3(2)] shrink less.prems(1) by blast
  qed
qed

text \<open>
  C33. The graph ends, and every pending task is then either run, and has the status its executor
  left, or blocked; it is run if and only if each of its dependencies ended done.  Tasks that
  were not pending are not touched.
\<close>

theorem graph_runs_what_it_can:
  assumes "distinct (map tk_id ts)"
  shows "fst (execute_graph executor ts rows) =
     map (outcome executor (done_ids (fst (execute_graph executor ts rows)))) ts"
  unfolding execute_graph_def
  by (rule rounds_outcome[OF assms]) (auto simp: after_run_def ran_task_def intro!: map_idI[symmetric])

definition diamond :: "task list" where
  "diamond =
     [(new_task ''a''), (new_task ''b'')\<lparr>tk_dependencies := [''a'']\<rparr>,
      (new_task ''c'')\<lparr>tk_dependencies := [''a'']\<rparr>, (new_task ''d'')\<lparr>tk_dependencies := [''b'', ''c'']\<rparr>]"

definition only_c_fails :: "task \<Rightarrow> run_end" where
  "only_c_fails t = (if tk_id t = ''c'' then Raises else Ends TS_DONE (Some TS_DONE))"

lemma graph_runs_what_it_can_witness:
  "map tk_status (fst (execute_graph only_c_fails diamond Map.empty)) = [TS_DONE, TS_DONE, TS_FAILED, TS_BLOCKED]"
proof -
  have "distinct (map tk_id diamond)" by (simp add: diamond_def new_task_def)
  from graph_runs_what_it_can[OF this, of only_c_fails Map.empty] show ?thesis
    by code_simp
qed

end
