(* ===== verification/ActiveRuns.thy ===== *)
theory ActiveRuns
  imports Prelude "HOL-Library.AList"
begin

text \<open>
  \<open>opc/core/active_task_runs.py\<close>: the controller's registry of running task attempts, and the
  admission barrier of its shutdown.  A method is a function from the registry to its result and
  the registry it leaves; \<open>uuid4().hex\<close> and a new \<open>asyncio.Lock\<close> are arguments, asyncio tasks
  are numbers, and the two context variables are a record the caller passes.  What the event
  loop does while \<open>gather\<close> waits is an argument of the join loop.
\<close>

section \<open>State\<close>

datatype run_error = AdmissionClosed | BadValue

type_synonym run_key = "string \<times> string"
type_synonym run_token = string
type_synonym task_ref = nat
type_synonym exc = string

record registry =
  ar_self :: nat
  ar_attempts :: "(run_key \<times> run_token set) list"
  ar_owner_tasks :: "run_token \<rightharpoonup> task_ref"
  ar_shutdown_failures :: "exc list"
  ar_recorded_failure_tasks :: "task_ref set"
  ar_scope_locks :: "run_key \<rightharpoonup> nat"
  ar_handoff_refs :: "(run_token \<times> int) list"
  ar_handoffs_drained :: bool
  ar_admission_closed :: bool

definition new_registry :: "nat \<Rightarrow> registry" where
  "new_registry self =
     \<lparr>ar_self = self, ar_attempts = [], ar_owner_tasks = Map.empty, ar_shutdown_failures = [],
      ar_recorded_failure_tasks = {}, ar_scope_locks = Map.empty, ar_handoff_refs = [],
      ar_handoffs_drained = True, ar_admission_closed = False\<rparr>"

text \<open>The two context variables: the registry that bound a token, and the token.\<close>

record run_context =
  cx_handoff :: "(nat \<times> run_token) option"
  cx_driver_attempt :: "(nat \<times> run_token) option"

section \<open>Keys\<close>

definition scope_project :: "string option \<Rightarrow> string" where
  "scope_project project_id =
     (let given = (case project_id of None \<Rightarrow> [] | Some p \<Rightarrow> p);
          project = py_strip (if given \<noteq> [] then given else ''default'')
      in if project \<noteq> [] then project else ''default'')"

definition scope_key :: "string option \<Rightarrow> string option \<Rightarrow> run_error + run_key" where
  "scope_key project_id name =
     (let n = py_strip (case name of None \<Rightarrow> [] | Some x \<Rightarrow> x)
      in if n = [] then Inl BadValue else Inr (scope_project project_id, n))"

definition attempts_of :: "registry \<Rightarrow> run_key \<Rightarrow> run_token set" where
  "attempts_of r k = (case map_of (ar_attempts r) k of None \<Rightarrow> {} | Some ts \<Rightarrow> ts)"

definition attempt_token_is_active :: "registry \<Rightarrow> run_token \<Rightarrow> bool" where
  "attempt_token_is_active r token \<longleftrightarrow> (\<exists>ts\<in>snd ` set (ar_attempts r). token \<in> ts)"

section \<open>Handoffs\<close>

definition current_pending_handoff_token :: "registry \<Rightarrow> run_context \<Rightarrow> run_token option" where
  "current_pending_handoff_token r cx =
     (case cx_handoff cx of
        None \<Rightarrow> None
      | Some (owner, token) \<Rightarrow>
          if owner \<noteq> ar_self r then None
          else if token \<in> fst ` set (ar_handoff_refs r) then Some token else None)"

definition current_driver_attempt_token :: "registry \<Rightarrow> run_context \<Rightarrow> run_token option" where
  "current_driver_attempt_token r cx =
     (case cx_driver_attempt cx of
        None \<Rightarrow> None
      | Some (owner, token) \<Rightarrow>
          if owner \<noteq> ar_self r then None
          else if attempt_token_is_active r token then Some token else None)"

definition settle_handoff :: "run_token \<Rightarrow> registry \<Rightarrow> registry" where
  "settle_handoff token r =
     (let refs = AList.delete token (ar_handoff_refs r)
      in r\<lparr>ar_handoff_refs := refs,
           ar_handoffs_drained := (if refs = [] then True else ar_handoffs_drained r)\<rparr>)"

definition reserve_handoff :: "run_token \<Rightarrow> registry \<Rightarrow> run_error + run_token \<times> registry" where
  "reserve_handoff token r =
     (if ar_admission_closed r then Inl AdmissionClosed
      else Inr (token, r\<lparr>ar_handoff_refs := AList.update token 1 (ar_handoff_refs r),
                         ar_handoffs_drained := False\<rparr>))"

definition bind_handoff :: "registry \<Rightarrow> run_token \<Rightarrow> run_context \<Rightarrow> run_error + run_context" where
  "bind_handoff r token cx =
     (if token \<notin> fst ` set (ar_handoff_refs r) then Inl BadValue
      else Inr (cx\<lparr>cx_handoff := Some (ar_self r, token)\<rparr>))"

definition retain_current_handoff :: "run_context \<Rightarrow> registry \<Rightarrow> run_token option \<times> registry" where
  "retain_current_handoff cx r =
     (case current_pending_handoff_token r cx of
        None \<Rightarrow> (None, r)
      | Some token \<Rightarrow>
          (Some token,
           r\<lparr>ar_handoff_refs := AList.update token (the (map_of (ar_handoff_refs r) token) + 1)
                                 (ar_handoff_refs r)\<rparr>))"

definition release_handoff :: "run_token \<Rightarrow> registry \<Rightarrow> bool \<times> registry" where
  "release_handoff token r =
     (case map_of (ar_handoff_refs r) token of
        None \<Rightarrow> (False, r)
      | Some refs \<Rightarrow>
          if refs > 1
          then (True, r\<lparr>ar_handoff_refs := AList.update token (refs - 1) (ar_handoff_refs r)\<rparr>)
          else (True, settle_handoff token r))"

definition release_current_handoff :: "run_context \<Rightarrow> registry \<Rightarrow> bool \<times> registry" where
  "release_current_handoff cx r =
     (case current_pending_handoff_token r cx of
        None \<Rightarrow> (False, r)
      | Some token \<Rightarrow> release_handoff token r)"

definition revoke_handoff :: "run_token \<Rightarrow> registry \<Rightarrow> bool \<times> registry" where
  "revoke_handoff token r =
     (if token \<notin> fst ` set (ar_handoff_refs r) then (False, r) else (True, settle_handoff token r))"

definition close_admission :: "registry \<Rightarrow> registry" where
  "close_admission r = r\<lparr>ar_admission_closed := True\<rparr>"

definition pending_handoff_count :: "registry \<Rightarrow> nat" where
  "pending_handoff_count r = length (ar_handoff_refs r)"

definition is_handoff_pending :: "registry \<Rightarrow> run_token option \<Rightarrow> bool" where
  "is_handoff_pending r token \<longleftrightarrow>
     (case token of None \<Rightarrow> False | Some t \<Rightarrow> t \<noteq> [] \<and> t \<in> fst ` set (ar_handoff_refs r))"

text \<open>
  One turn of the loop \<open>while self._handoff_refs: await self._handoffs_drained.wait()\<close>.  Waiting
  on an event that is set returns at once, without giving the event loop a turn.
\<close>

datatype wait_turn = Returns | Suspends | Spins

definition handoff_wait_turn :: "registry \<Rightarrow> wait_turn" where
  "handoff_wait_turn r =
     (if ar_handoff_refs r = [] then Returns else if ar_handoffs_drained r then Spins else Suspends)"

definition close_admission_and_wait_for_handoffs :: "registry \<Rightarrow> wait_turn \<times> registry" where
  \<comment> \<open>up to the first suspension\<close>
  "close_admission_and_wait_for_handoffs r = (let r' = close_admission r in (handoff_wait_turn r', r'))"

section \<open>Attempts\<close>

definition register ::
  "run_context \<Rightarrow> string option \<Rightarrow> string option \<Rightarrow> task_ref option \<Rightarrow> run_token \<Rightarrow> registry
     \<Rightarrow> run_error + run_token \<times> registry" where
  "register cx project_id task_id owner_task token r =
     (let handoff = current_pending_handoff_token r cx;
          driver = current_driver_attempt_token r cx
      in if ar_admission_closed r \<and> handoff = None \<and> driver = None then Inl AdmissionClosed
         else case scope_key project_id task_id of
                Inl e \<Rightarrow> Inl e
              | Inr key \<Rightarrow>
                  let r1 = r\<lparr>ar_attempts := AList.update key (insert token (attempts_of r key)) (ar_attempts r)\<rparr>;
                      r2 = (case owner_task of None \<Rightarrow> r1
                            | Some t \<Rightarrow> r1\<lparr>ar_owner_tasks := (ar_owner_tasks r1)(token \<mapsto> t)\<rparr>);
                      r3 = (case handoff of None \<Rightarrow> r2 | Some h \<Rightarrow> settle_handoff h r2)
                  in Inr (token, r3))"

definition bind_attempt_task :: "run_token \<Rightarrow> task_ref \<Rightarrow> registry \<Rightarrow> run_error + registry" where
  "bind_attempt_task token t r =
     (if \<not> attempt_token_is_active r token then Inl BadValue
      else Inr (r\<lparr>ar_owner_tasks := (ar_owner_tasks r)(token \<mapsto> t)\<rparr>))"

definition bind_driver_attempt :: "registry \<Rightarrow> run_token \<Rightarrow> run_context \<Rightarrow> run_error + run_context" where
  "bind_driver_attempt r token cx =
     (if \<not> attempt_token_is_active r token then Inl BadValue
      else Inr (cx\<lparr>cx_driver_attempt := Some (ar_self r, token)\<rparr>))"

definition unregister ::
  "string option \<Rightarrow> string option \<Rightarrow> run_token \<Rightarrow> registry \<Rightarrow> run_error + bool \<times> registry" where
  "unregister project_id task_id token r =
     (case scope_key project_id task_id of
        Inl e \<Rightarrow> Inl e
      | Inr key \<Rightarrow>
          if token \<notin> attempts_of r key then Inr (False, r)
          else let left = attempts_of r key - {token}
               in Inr (True, r\<lparr>ar_attempts := (if left = {} then AList.delete key (ar_attempts r)
                                               else AList.update key left (ar_attempts r)),
                               ar_owner_tasks := (ar_owner_tasks r)(token := None)\<rparr>))"

definition is_active :: "registry \<Rightarrow> string option \<Rightarrow> string option \<Rightarrow> run_error + bool" where
  "is_active r project_id task_id =
     (case scope_key project_id task_id of Inl e \<Rightarrow> Inl e | Inr key \<Rightarrow> Inr (attempts_of r key \<noteq> {}))"

definition active_task_ids :: "registry \<Rightarrow> string option \<Rightarrow> string set" where
  "active_task_ids r project_id =
     (snd \<circ> fst) ` set (filter (\<lambda>(k, ts). fst k = scope_project project_id \<and> ts \<noteq> {}) (ar_attempts r))"

definition attempt_count :: "registry \<Rightarrow> string option \<Rightarrow> string option \<Rightarrow> run_error + nat" where
  "attempt_count r project_id task_id =
     (case scope_key project_id task_id of Inl e \<Rightarrow> Inl e | Inr key \<Rightarrow> Inr (card (attempts_of r key)))"

definition scope_lock ::
  "string option \<Rightarrow> string option \<Rightarrow> nat \<Rightarrow> registry \<Rightarrow> run_error + nat \<times> registry" where
  "scope_lock project_id runtime_session_id new r =
     (case scope_key project_id runtime_session_id of
        Inl e \<Rightarrow> Inl e
      | Inr key \<Rightarrow>
          (case ar_scope_locks r key of
             Some l \<Rightarrow> Inr (l, r)
           | None \<Rightarrow> Inr (new, r\<lparr>ar_scope_locks := (ar_scope_locks r)(key \<mapsto> new)\<rparr>)))"

section \<open>Owners and the shutdown join\<close>

datatype run_outcome = Cancelled | Raised exc | Returned

definition attempt_owner_finished :: "task_ref \<Rightarrow> run_outcome \<Rightarrow> registry \<Rightarrow> registry" where
  "attempt_owner_finished t out r =
     (if \<not> ar_admission_closed r \<or> out = Cancelled then r
      else if t \<in> ar_recorded_failure_tasks r then r
      else case out of
             Raised e \<Rightarrow> r\<lparr>ar_recorded_failure_tasks := insert t (ar_recorded_failure_tasks r),
                           ar_shutdown_failures := ar_shutdown_failures r @ [e]\<rparr>
           | _ \<Rightarrow> r)"

definition live_tokens :: "registry \<Rightarrow> string option \<Rightarrow> run_token set" where
  "live_tokens r project_id =
     \<Union> (snd ` set (filter (\<lambda>(k, _). project_id = None \<or> fst k = scope_project project_id) (ar_attempts r)))"

definition active_owner_tasks :: "registry \<Rightarrow> string option \<Rightarrow> task_ref set \<Rightarrow> task_ref set" where
  "active_owner_tasks r project_id finished =
     (\<Union>token\<in>live_tokens r project_id. set_option (ar_owner_tasks r token)) - finished"

datatype join_state = Joined registry | JoinFailed exc registry | Joining "task_ref set"

definition raise_first_failure :: "registry \<Rightarrow> join_state option" where
  "raise_first_failure r =
     (case ar_shutdown_failures r of
        [] \<Rightarrow> None
      | e # es \<Rightarrow> Some (JoinFailed e (r\<lparr>ar_shutdown_failures := es, ar_recorded_failure_tasks := {}\<rparr>)))"

definition join_turn :: "registry \<Rightarrow> string option \<Rightarrow> task_ref \<Rightarrow> task_ref set \<Rightarrow> join_state" where
  "join_turn r project_id current finished =
     (case raise_first_failure r of
        Some j \<Rightarrow> j
      | None \<Rightarrow>
          let owners = active_owner_tasks r project_id finished - {current}
          in if owners = {} then (case raise_first_failure r of Some j \<Rightarrow> j | None \<Rightarrow> Joined r)
             else Joining owners)"

fun failures_of :: "run_outcome list \<Rightarrow> exc list" where
  "failures_of [] = []"
| "failures_of (Raised e # outs) = e # failures_of outs"
| "failures_of (_ # outs) = failures_of outs"

text \<open>
  A round of \<open>gather\<close>: the outcomes of the cancelled owners, and the registry and the finished
  tasks when it returns.  With no round left the join is still waiting.
\<close>

type_synonym gather_round = "run_outcome list \<times> registry \<times> task_ref set"

fun cancel_and_wait_for_owner_tasks ::
  "string option \<Rightarrow> task_ref \<Rightarrow> gather_round list \<Rightarrow> registry \<Rightarrow> task_ref set \<Rightarrow> join_state" where
  "cancel_and_wait_for_owner_tasks project_id current [] r finished = join_turn r project_id current finished"
| "cancel_and_wait_for_owner_tasks project_id current ((outs, r', finished') # rounds) r finished =
     (case join_turn r project_id current finished of
        Joining _ \<Rightarrow>
          (case failures_of outs of
             e # _ \<Rightarrow> JoinFailed e (r'\<lparr>ar_shutdown_failures := [], ar_recorded_failure_tasks := {}\<rparr>)
           | [] \<Rightarrow> cancel_and_wait_for_owner_tasks project_id current rounds r' finished')
      | j \<Rightarrow> j)"

section \<open>Runs of the registry\<close>

text \<open>
  Every call another coroutine can make, under any binding of the context variables.  A new
  attempt token is not in use; that is what \<open>uuid4\<close> is for.
\<close>

inductive registry_step :: "registry \<Rightarrow> registry \<Rightarrow> bool" where
  register: "register cx p t owner token r = Inr (token, r') \<Longrightarrow> \<not> attempt_token_is_active r token \<Longrightarrow>
     registry_step r r'"
| bind_task: "bind_attempt_task token t r = Inr r' \<Longrightarrow> registry_step r r'"
| unregister: "unregister p t token r = Inr (b, r') \<Longrightarrow> registry_step r r'"
| finished: "registry_step r (attempt_owner_finished t out r)"
| reserve: "reserve_handoff token r = Inr (token, r') \<Longrightarrow> registry_step r r'"
| retain: "registry_step r (snd (retain_current_handoff cx r))"
| release: "registry_step r (snd (release_handoff token r))"
| release_current: "registry_step r (snd (release_current_handoff cx r))"
| revoke: "registry_step r (snd (revoke_handoff token r))"
| close: "registry_step r (close_admission r)"
| lock: "scope_lock p s new r = Inr (l, r') \<Longrightarrow> registry_step r r'"
| join: "join_turn r p current fin = JoinFailed e r' \<Longrightarrow> registry_step r r'"
| gathered: "registry_step r (r\<lparr>ar_shutdown_failures := [], ar_recorded_failure_tasks := {}\<rparr>)"

inductive_cases registry_stepE: "registry_step r r'"

definition registry_reach :: "registry \<Rightarrow> registry \<Rightarrow> bool" where
  "registry_reach r r' \<longleftrightarrow> registry_step\<^sup>*\<^sup>* r r'"

lemmas handoff_ops =
  reserve_handoff_def retain_current_handoff_def release_handoff_def release_current_handoff_def
  revoke_handoff_def settle_handoff_def close_admission_def

text \<open>The three parts of the state, each with its invariant.\<close>

definition attempts_ok :: "(run_key \<times> run_token set) list \<Rightarrow> (run_token \<rightharpoonup> task_ref) \<Rightarrow> bool" where
  "attempts_ok as owners \<longleftrightarrow>
     distinct (map fst as) \<and>
     (\<forall>k ts. map_of as k = Some ts \<longrightarrow> ts \<noteq> {} \<and> finite ts) \<and>
     (\<forall>k k' ts ts' x. map_of as k = Some ts \<longrightarrow> map_of as k' = Some ts' \<longrightarrow> x \<in> ts \<longrightarrow> x \<in> ts' \<longrightarrow> k = k') \<and>
     (\<forall>x. owners x \<noteq> None \<longrightarrow> (\<exists>k ts. map_of as k = Some ts \<and> x \<in> ts))"

definition handoffs_ok :: "(run_token \<times> int) list \<Rightarrow> bool \<Rightarrow> bool" where
  "handoffs_ok refs drained \<longleftrightarrow>
     distinct (map fst refs) \<and> (\<forall>x n. map_of refs x = Some n \<longrightarrow> n \<ge> 1) \<and> (drained \<longleftrightarrow> refs = [])"

definition registry_ok :: "registry \<Rightarrow> bool" where
  "registry_ok r \<longleftrightarrow>
     attempts_ok (ar_attempts r) (ar_owner_tasks r) \<and>
     handoffs_ok (ar_handoff_refs r) (ar_handoffs_drained r) \<and>
     (\<not> ar_admission_closed r \<longrightarrow> ar_shutdown_failures r = [] \<and> ar_recorded_failure_tasks r = {})"

lemma token_active_iff:
  assumes d: "distinct (map fst (ar_attempts r))"
  shows "attempt_token_is_active r x \<longleftrightarrow> (\<exists>k. x \<in> attempts_of r k)"
proof
  assume "attempt_token_is_active r x"
  then obtain k ts where "(k, ts) \<in> set (ar_attempts r)" "x \<in> ts" by (auto simp: attempt_token_is_active_def)
  with d have "x \<in> attempts_of r k" by (simp add: attempts_of_def)
  then show "\<exists>k. x \<in> attempts_of r k" ..
next
  assume "\<exists>k. x \<in> attempts_of r k"
  then obtain k ts where "map_of (ar_attempts r) k = Some ts" "x \<in> ts"
    by (auto simp: attempts_of_def split: option.splits)
  from map_of_SomeD[OF this(1)] this(2) show "attempt_token_is_active r x"
    by (force simp: attempt_token_is_active_def)
qed

lemma attempts_ok_add:
  assumes ok: "attempts_ok as owners" and fresh: "\<forall>k ts. map_of as k = Some ts \<longrightarrow> x \<notin> ts"
    and old: "old = (case map_of as key of None \<Rightarrow> {} | Some ts \<Rightarrow> ts)"
    and owners': "\<And>y. owners' y \<noteq> None \<Longrightarrow> y = x \<or> owners y \<noteq> None"
  shows "attempts_ok (AList.update key (insert x old) as) owners'"
proof -
  let ?m = "(map_of as)(key \<mapsto> insert x old)"
  have keys: "?m k = Some ts \<Longrightarrow> y \<in> ts \<Longrightarrow> y = x \<and> k = key \<or> y \<noteq> x \<and> (\<exists>ts0. map_of as k = Some ts0 \<and> y \<in> ts0)"
    for k ts y
    using fresh by (cases "k = key") (auto simp only: old map_upd_Some_unfold fun_upd_same fun_upd_other
      insert_iff option.inject option.case empty_iff split: option.splits)
  have each: "ts \<noteq> {} \<and> finite ts" if "map_of as k = Some ts" for k ts
    using ok that unfolding attempts_ok_def by blast
  have "finite old" using each[of key] by (cases "map_of as key") (simp_all only: old option.case finite.emptyI)
  then have "ts \<noteq> {} \<and> finite ts" if "?m k = Some ts" for k ts
    using each[of k ts] that by (cases "k = key") auto
  moreover have "k = k'" if "?m k = Some ts" "?m k' = Some ts'" "y \<in> ts" "y \<in> ts'" for k k' ts ts' y
    using ok keys[OF that(1,3)] keys[OF that(2,4)] unfolding attempts_ok_def by blast
  moreover have "\<exists>k ts. ?m k = Some ts \<and> y \<in> ts" if "owners' y \<noteq> None" for y
  proof (cases "y = x")
    case True
    then show ?thesis by (intro exI[of _ key]) simp
  next
    case False
    with owners'[OF that] ok obtain k ts where "map_of as k = Some ts" "y \<in> ts"
      unfolding attempts_ok_def by blast
    then have "\<exists>ts. ?m k = Some ts \<and> y \<in> ts" by (cases "k = key") (simp_all add: old)
    then show ?thesis by blast
  qed
  ultimately show ?thesis using ok
    by (simp only: attempts_ok_def update_conv' distinct_update simp_thms) blast
qed

lemma attempts_ok_remove:
  assumes ok: "attempts_ok as owners" and old: "map_of as key = Some old" "x \<in> old"
  shows "attempts_ok (if old - {x} = {} then AList.delete key as else AList.update key (old - {x}) as)
           (owners(x := None))"
proof -
  let ?as = "if old - {x} = {} then AList.delete key as else AList.update key (old - {x}) as"
  have each: "ts \<noteq> {} \<and> finite ts" if "map_of as k = Some ts" for k ts
    using ok that unfolding attempts_ok_def by blast
  have m: "map_of ?as = (if old - {x} = {} then (map_of as)(key := None) else (map_of as)(key \<mapsto> old - {x}))"
    by (simp add: update_conv' delete_conv')
  have shrink: "\<exists>ts0. map_of as k = Some ts0 \<and> ts \<subseteq> ts0" if "map_of ?as k = Some ts" for k ts
    using that old unfolding m by (auto split: if_splits)
  have keeps: "\<exists>ts. map_of ?as k = Some ts \<and> y \<in> ts" if "map_of as k = Some ts" "y \<in> ts" "y \<noteq> x" for k ts y
    using that old unfolding m by (cases "k = key") auto
  have "distinct (map fst ?as)" using ok by (simp add: attempts_ok_def distinct_update distinct_delete)
  moreover have "ts \<noteq> {} \<and> finite ts" if "map_of ?as k = Some ts" for k ts
    using each[of k ts] each[OF old(1)] that unfolding m by (cases "k = key") (auto split: if_splits)
  moreover have "k = k'" if "map_of ?as k = Some ts" "map_of ?as k' = Some ts'" "y \<in> ts" "y \<in> ts'" for k k' ts ts' y
    using ok shrink[OF that(1)] shrink[OF that(2)] that(3,4) unfolding attempts_ok_def by blast
  moreover have "\<exists>k ts. map_of ?as k = Some ts \<and> y \<in> ts" if "(owners(x := None)) y \<noteq> None" for y
  proof -
    from that have "owners y \<noteq> None" "y \<noteq> x" by (auto split: if_splits)
    with ok obtain k ts where "map_of as k = Some ts" "y \<in> ts" unfolding attempts_ok_def by blast
    from keeps[OF this \<open>y \<noteq> x\<close>] show ?thesis by blast
  qed
  ultimately show ?thesis unfolding attempts_ok_def by blast
qed

lemma handoffs_ok_update:
  "handoffs_ok refs d \<Longrightarrow> n \<ge> 1 \<Longrightarrow> handoffs_ok (AList.update x n refs) False"
  by (auto simp: handoffs_ok_def update_conv' distinct_update update_nonempty
           simp del: map_of_eq_Some_iff split: if_splits)

lemma handoffs_ok_delete:
  "handoffs_ok refs d \<Longrightarrow> handoffs_ok (AList.delete x refs) (if AList.delete x refs = [] then True else d)"
  by (cases "refs = []") (auto simp: handoffs_ok_def delete_conv' distinct_delete
           simp del: map_of_eq_Some_iff split: if_splits)


section \<open>Every operation keeps the registry consistent\<close>

lemma settle_ok: "registry_ok r \<Longrightarrow> registry_ok (settle_handoff x r)"
  by (simp add: registry_ok_def settle_handoff_def Let_def handoffs_ok_delete)

lemma refs_pos: "registry_ok r \<Longrightarrow> map_of (ar_handoff_refs r) x = Some n \<Longrightarrow> n \<ge> 1"
  unfolding registry_ok_def handoffs_ok_def by blast

lemma refs_of_pending:
  assumes "current_pending_handoff_token r cx = Some x"
  shows "\<exists>n. map_of (ar_handoff_refs r) x = Some n"
proof -
  from assms have "x \<in> fst ` set (ar_handoff_refs r)"
    by (auto simp: current_pending_handoff_token_def split: option.splits prod.splits if_splits)
  then show ?thesis by (cases "map_of (ar_handoff_refs r) x") (auto simp: map_of_eq_None_iff)
qed

lemma count_ok:
  "registry_ok r \<Longrightarrow> n \<ge> 1 \<Longrightarrow> ar_handoff_refs r \<noteq> [] \<Longrightarrow>
   registry_ok (r\<lparr>ar_handoff_refs := AList.update x n (ar_handoff_refs r)\<rparr>)"
  using handoffs_ok_update[of "ar_handoff_refs r" False n x]
  by (auto simp: registry_ok_def handoffs_ok_def[of "ar_handoff_refs r"] simp del: map_of_eq_Some_iff)

lemma release_ok: "registry_ok r \<Longrightarrow> registry_ok (snd (release_handoff x r))"
proof (cases "map_of (ar_handoff_refs r) x")
  case (Some n)
  assume ok: "registry_ok r"
  have "ar_handoff_refs r \<noteq> []" using Some by auto
  with Some count_ok[OF ok, of "n - 1" x] settle_ok[OF ok] show ?thesis by (auto simp: release_handoff_def)
qed (simp add: release_handoff_def)

lemma retain_ok: "registry_ok r \<Longrightarrow> registry_ok (snd (retain_current_handoff cx r))"
proof (cases "current_pending_handoff_token r cx")
  case (Some x)
  assume ok: "registry_ok r"
  from refs_of_pending[OF Some] obtain n where n: "map_of (ar_handoff_refs r) x = Some n" ..
  then have "ar_handoff_refs r \<noteq> []" by auto
  with Some n count_ok[OF ok, of "n + 1" x] refs_pos[OF ok n] show ?thesis
    by (simp add: retain_current_handoff_def)
qed (simp add: retain_current_handoff_def)

lemma register_ok:
  assumes ok: "registry_ok r" and fresh: "\<not> attempt_token_is_active r token"
    and call: "register cx p t owner token r = Inr (token, r')"
  shows "registry_ok r'"
proof -
  from call obtain key where key: "scope_key p t = Inr key" and r': "r' =
      (case current_pending_handoff_token r cx of None \<Rightarrow> id | Some h \<Rightarrow> settle_handoff h)
        (r\<lparr>ar_attempts := AList.update key (insert token (attempts_of r key)) (ar_attempts r),
           ar_owner_tasks := (case owner of None \<Rightarrow> ar_owner_tasks r | Some x \<Rightarrow> (ar_owner_tasks r)(token \<mapsto> x))\<rparr>)"
    by (auto simp: register_def Let_def split: if_splits sum.splits option.splits)
  have "distinct (map fst (ar_attempts r))" using ok by (simp add: registry_ok_def attempts_ok_def)
  from token_active_iff[OF this] fresh have "token \<notin> attempts_of r k" for k by blast
  then have "\<forall>k ts. map_of (ar_attempts r) k = Some ts \<longrightarrow> token \<notin> ts"
    unfolding attempts_of_def by (metis option.simps(5))
  then have "attempts_ok (AList.update key (insert token (attempts_of r key)) (ar_attempts r))
      (case owner of None \<Rightarrow> ar_owner_tasks r | Some x \<Rightarrow> (ar_owner_tasks r)(token \<mapsto> x))"
    using ok by (intro attempts_ok_add[of _ "ar_owner_tasks r"])
      (auto simp: registry_ok_def attempts_of_def split: option.splits if_splits)
  then have "registry_ok (r\<lparr>ar_attempts := AList.update key (insert token (attempts_of r key)) (ar_attempts r),
           ar_owner_tasks := (case owner of None \<Rightarrow> ar_owner_tasks r | Some x \<Rightarrow> (ar_owner_tasks r)(token \<mapsto> x))\<rparr>)"
    using ok by (simp add: registry_ok_def)
  then show ?thesis unfolding r' by (auto simp: settle_ok split: option.split)
qed

lemma unregister_ok:
  assumes ok: "registry_ok r" and call: "unregister p t token r = Inr (b, r')"
  shows "registry_ok r'"
proof (cases "scope_key p t")
  case (Inr key)
  show ?thesis
  proof (cases "token \<in> attempts_of r key")
    case True
    then obtain old where old: "map_of (ar_attempts r) key = Some old" "token \<in> old"
      by (auto simp: attempts_of_def split: option.splits)
    from attempts_ok_remove[of "ar_attempts r" "ar_owner_tasks r", OF _ old] ok
    have "attempts_ok (if old - {token} = {} then AList.delete key (ar_attempts r)
        else AList.update key (old - {token}) (ar_attempts r)) ((ar_owner_tasks r)(token := None))"
      by (simp add: registry_ok_def)
    moreover have "attempts_of r key = old" using old by (simp add: attempts_of_def)
    ultimately show ?thesis using call ok True Inr by (auto simp: unregister_def Let_def registry_ok_def)
  qed (use call ok Inr in \<open>simp add: unregister_def\<close>)
qed (use call in \<open>simp add: unregister_def\<close>)

lemma bind_task_ok:
  assumes ok: "registry_ok r" and call: "bind_attempt_task token t r = Inr r'"
  shows "registry_ok r'"
proof -
  have d: "distinct (map fst (ar_attempts r))" using ok by (simp add: registry_ok_def attempts_ok_def)
  from call have r': "r' = r\<lparr>ar_owner_tasks := (ar_owner_tasks r)(token \<mapsto> t)\<rparr>"
    and "attempt_token_is_active r token" by (auto simp: bind_attempt_task_def split: if_splits)
  with token_active_iff[OF d] have "\<exists>k ts. map_of (ar_attempts r) k = Some ts \<and> token \<in> ts"
    by (fastforce simp: attempts_of_def split: option.splits)
  then have "\<exists>k ts. map_of (ar_attempts r) k = Some ts \<and> x \<in> ts"
    if "((ar_owner_tasks r)(token \<mapsto> t)) x \<noteq> None" for x
    using ok that unfolding registry_ok_def attempts_ok_def by (cases "x = token") auto
  with ok have "attempts_ok (ar_attempts r) ((ar_owner_tasks r)(token \<mapsto> t))"
    unfolding registry_ok_def attempts_ok_def by blast
  with ok show ?thesis by (simp add: registry_ok_def r')
qed

lemma step_ok: "registry_step r r' \<Longrightarrow> registry_ok r \<Longrightarrow> registry_ok r'"
proof (induction rule: registry_step.induct)
  case (reserve token r r')
  then show ?case using handoffs_ok_update[of "ar_handoff_refs r" "ar_handoffs_drained r" 1 token]
    by (auto simp: reserve_handoff_def registry_ok_def split: if_splits)
next
  case (release_current r cx)
  then show ?case by (simp add: release_current_handoff_def release_ok split: option.split)
next
  case (revoke r token)
  then show ?case by (simp add: revoke_handoff_def settle_ok)
next
  case (finished r t out)
  then show ?case by (cases out) (auto simp: attempt_owner_finished_def registry_ok_def)
next
  case (lock p s new r l r')
  then show ?case by (auto simp: scope_lock_def registry_ok_def split: sum.splits option.splits)
next
  case (join r p current fin e r')
  then have "r' = r\<lparr>ar_shutdown_failures := tl (ar_shutdown_failures r), ar_recorded_failure_tasks := {}\<rparr>"
    by (auto simp: join_turn_def raise_first_failure_def Let_def split: list.splits if_splits)
  with join show ?case by (auto simp: registry_ok_def)
next
  case (close r)
  then show ?case by (simp add: registry_ok_def close_admission_def)
next
  case (gathered r)
  then show ?case by (simp add: registry_ok_def)
qed (blast intro: register_ok unregister_ok bind_task_ok release_ok retain_ok)+

lemma new_registry_ok: "registry_ok (new_registry n)"
  by (simp add: registry_ok_def new_registry_def attempts_ok_def handoffs_ok_def)

lemma reachable_ok: "registry_reach (new_registry n) r \<Longrightarrow> registry_ok r"
  unfolding registry_reach_def by (induction rule: rtranclp_induct) (auto simp: new_registry_ok intro: step_ok)

lemma ok_token_active: "registry_ok r \<Longrightarrow> attempt_token_is_active r x \<longleftrightarrow> (\<exists>k. x \<in> attempts_of r k)"
  by (rule token_active_iff) (simp add: registry_ok_def attempts_ok_def)

lemma ok_attempts_of: "registry_ok r \<Longrightarrow> finite (attempts_of r k)"
proof (cases "map_of (ar_attempts r) k")
  case (Some ts)
  assume "registry_ok r"
  with Some have "finite ts" unfolding registry_ok_def attempts_ok_def by blast
  with Some show ?thesis by (simp add: attempts_of_def)
qed (simp add: attempts_of_def)

lemma in_attempts_of: "x \<in> attempts_of r k \<longleftrightarrow> (\<exists>ts. map_of (ar_attempts r) k = Some ts \<and> x \<in> ts)"
  by (cases "map_of (ar_attempts r) k") (simp_all add: attempts_of_def)

lemma ok_one_key: "registry_ok r \<Longrightarrow> x \<in> attempts_of r k \<Longrightarrow> x \<in> attempts_of r k' \<Longrightarrow> k = k'"
  unfolding registry_ok_def attempts_ok_def in_attempts_of by blast

text \<open>
  C31. Whatever the coroutines of a controller call and in whatever order, the drained event is
  set exactly when no reservation is pending, so the shutdown wait always gives the event loop
  its turn; every recorded owner belongs to an attempt that is still registered; and a token
  is registered for one task only.
\<close>

theorem registry_stays_consistent:
  assumes "registry_reach (new_registry n) r"
  shows "handoff_wait_turn r \<noteq> Spins \<and> (ar_handoffs_drained r \<longleftrightarrow> pending_handoff_count r = 0) \<and>
     (\<forall>token. ar_owner_tasks r token \<noteq> None \<longrightarrow> attempt_token_is_active r token) \<and>
     (\<forall>token k k'. token \<in> attempts_of r k \<inter> attempts_of r k' \<longrightarrow> k = k')"
proof -
  from assms have ok: "registry_ok r" by (rule reachable_ok)
  then have drained: "ar_handoffs_drained r \<longleftrightarrow> ar_handoff_refs r = []" by (simp add: registry_ok_def handoffs_ok_def)
  have "attempt_token_is_active r x" if "ar_owner_tasks r x \<noteq> None" for x
  proof -
    from ok that obtain k ts where "map_of (ar_attempts r) k = Some ts" "x \<in> ts"
      unfolding registry_ok_def attempts_ok_def by blast
    then have "x \<in> attempts_of r k" by (simp add: attempts_of_def)
    with ok_token_active[OF ok] show ?thesis by blast
  qed
  with drained ok_one_key[OF ok] show ?thesis by (auto simp: handoff_wait_turn_def pending_handoff_count_def)
qed

section \<open>Shutdown\<close>

definition pending :: "registry \<Rightarrow> run_token set" where
  "pending r = fst ` set (ar_handoff_refs r)"

lemma settle_fields [simp]:
  "ar_attempts (settle_handoff x r) = ar_attempts r"
  "ar_owner_tasks (settle_handoff x r) = ar_owner_tasks r"
  "ar_admission_closed (settle_handoff x r) = ar_admission_closed r"
  "pending (settle_handoff x r) = pending r - {x}"
  by (auto simp: settle_handoff_def Let_def pending_def AList.delete_eq)

lemma pending_untouched [simp]:
  "pending (r\<lparr>ar_attempts := a\<rparr>) = pending r" "pending (r\<lparr>ar_owner_tasks := o'\<rparr>) = pending r"
  "pending (r\<lparr>ar_scope_locks := l\<rparr>) = pending r" "pending (r\<lparr>ar_admission_closed := c\<rparr>) = pending r"
  "pending (r\<lparr>ar_shutdown_failures := f\<rparr>) = pending r"
  "pending (r\<lparr>ar_recorded_failure_tasks := t\<rparr>) = pending r"
  by (simp_all add: pending_def)

lemma pending_update [simp]: "pending (r\<lparr>ar_handoff_refs := AList.update x n (ar_handoff_refs r)\<rparr>) = insert x (pending r)"
  by (simp add: pending_def dom_update)

lemma release_pending:
  "pending (snd (release_handoff x r)) \<subseteq> pending r"
  "ar_attempts (snd (release_handoff x r)) = ar_attempts r"
  "ar_admission_closed (snd (release_handoff x r)) = ar_admission_closed r"
proof -
  have "x \<in> pending r" if "map_of (ar_handoff_refs r) x = Some n" for n
    using map_of_SomeD[OF that] by (force simp: pending_def)
  then show "pending (snd (release_handoff x r)) \<subseteq> pending r"
    by (auto simp: release_handoff_def split: option.split)
qed (simp_all add: release_handoff_def split: option.split)

lemma closed_step:
  assumes "registry_step r r'" and "ar_admission_closed r"
  shows "ar_admission_closed r'" and "pending r' \<subseteq> pending r"
    and "ar_attempts r = [] \<Longrightarrow> pending r = {} \<Longrightarrow> ar_attempts r' = []"
proof -
  have "ar_admission_closed r' \<and> pending r' \<subseteq> pending r \<and> (ar_attempts r = [] \<longrightarrow> pending r = {} \<longrightarrow> ar_attempts r' = [])"
    using assms
  proof (induction rule: registry_step.induct)
    case (register cx p t owner token r r')
    have idle: "current_pending_handoff_token r cx = None \<and> current_driver_attempt_token r cx = None"
      if "ar_attempts r = []" "pending r = {}"
      using that by (auto simp: current_pending_handoff_token_def current_driver_attempt_token_def
          attempt_token_is_active_def pending_def split: option.splits)
    have "ar_admission_closed r' \<and> pending r' \<subseteq> pending r"
      using register by (auto simp: register_def Let_def split: sum.splits option.splits if_splits)
    moreover have "ar_attempts r' = []" if "ar_attempts r = []" "pending r = {}"
      using register idle[OF that] by (simp add: register_def)
    ultimately show ?case by blast
  next
    case (retain r cx)
    have "x \<in> pending r" if "current_pending_handoff_token r cx = Some x" for x
      using that by (auto simp: current_pending_handoff_token_def pending_def split: option.splits prod.splits if_splits)
    with retain show ?case
      by (auto simp: retain_current_handoff_def split: option.split)
  next
    case (unregister p t token r b r')
    then show ?case by (auto simp: unregister_def attempts_of_def Let_def split: sum.splits if_splits)
  next
    case (join r p current fin e r')
    then have "r' = r\<lparr>ar_shutdown_failures := tl (ar_shutdown_failures r), ar_recorded_failure_tasks := {}\<rparr>"
      by (auto simp: join_turn_def raise_first_failure_def Let_def split: list.splits if_splits)
    with join show ?case by simp
  next
    case (finished r t out)
    then show ?case by (cases out) (auto simp: attempt_owner_finished_def)
  qed (auto simp: release_pending release_current_handoff_def revoke_handoff_def bind_attempt_task_def
         reserve_handoff_def close_admission_def scope_lock_def
         dest: subsetD[OF release_pending(1)] split: sum.splits option.splits if_splits)
  then show "ar_admission_closed r'" and "pending r' \<subseteq> pending r"
    and "ar_attempts r = [] \<Longrightarrow> pending r = {} \<Longrightarrow> ar_attempts r' = []" by blast+
qed

lemma closed_run:
  assumes "registry_reach (close_admission r) r'"
  shows "ar_admission_closed r' \<and> pending r' \<subseteq> pending r \<and>
     (ar_attempts r = [] \<longrightarrow> pending r = {} \<longrightarrow> ar_attempts r' = [])"
  using assms unfolding registry_reach_def
proof (induction rule: rtranclp_induct)
  case base
  then show ?case by (simp add: close_admission_def)
next
  case (step a b)
  have "pending a = {}" if "pending r = {}" using step.IH that by blast
  with step closed_step[of a b] show ?case by (meson subset_trans)
qed

lemma no_admission:
  "ar_admission_closed r \<Longrightarrow> register cx p t owner token r = Inr (x, r') \<Longrightarrow>
   current_pending_handoff_token r cx \<noteq> None \<or> current_driver_attempt_token r cx \<noteq> None"
  by (auto simp: register_def Let_def split: if_splits)

text \<open>
  After admission closes nothing is admitted any more: no reservation is made, the pending
  ones only drain, an attempt is registered only under a pending reservation or a live driver,
  and a registry with neither attempts nor reservations stays empty for good.
\<close>

theorem closed_admission_is_final:
  assumes run: "registry_reach (close_admission r) r'"
  shows "pending r' \<subseteq> pending r \<and> reserve_handoff token r' = Inl AdmissionClosed \<and>
     (\<forall>x r''. register cx p t owner token r' = Inr (x, r'') \<longrightarrow>
        current_pending_handoff_token r' cx \<noteq> None \<or> current_driver_attempt_token r' cx \<noteq> None) \<and>
     (ar_attempts r = [] \<longrightarrow> pending r = {} \<longrightarrow>
        ar_attempts r' = [] \<and> register cx p t owner token r' = Inl AdmissionClosed)"
proof -
  note closed = closed_run[OF run]
  have "register cx p t owner token r' = Inl AdmissionClosed" if "ar_attempts r' = []" "pending r' = {}"
    using closed that
    by (auto simp: register_def current_pending_handoff_token_def current_driver_attempt_token_def
        attempt_token_is_active_def pending_def split: option.splits)
  with closed show ?thesis by (auto simp: reserve_handoff_def dest: no_admission)
qed

section \<open>The life of an attempt\<close>

lemma attempts_of_settle [simp]: "attempts_of (settle_handoff h r) = attempts_of r"
  by (simp add: attempts_of_def fun_eq_iff)

lemma attempts_of_update: "attempts_of (r\<lparr>ar_attempts := AList.update k ts (ar_attempts r)\<rparr>) = (attempts_of r)(k := ts)"
  and attempts_of_delete: "attempts_of (r\<lparr>ar_attempts := AList.delete k (ar_attempts r)\<rparr>) = (attempts_of r)(k := {})"
  and attempts_of_owner [simp]: "attempts_of (r\<lparr>ar_owner_tasks := o'\<rparr>) = attempts_of r"
  by (simp_all add: attempts_of_def fun_eq_iff update_conv' delete_conv')

lemma register_effect:
  assumes "register cx p t owner token r = Inr (token, r')"
  shows "\<exists>key. scope_key p t = Inr key \<and>
     attempts_of r' = (attempts_of r)(key := insert token (attempts_of r key)) \<and>
     ar_owner_tasks r' = (case owner of None \<Rightarrow> ar_owner_tasks r | Some x \<Rightarrow> (ar_owner_tasks r)(token \<mapsto> x)) \<and>
     pending r' = pending r - set_option (current_pending_handoff_token r cx)"
proof -
  from assms obtain key where key: "scope_key p t = Inr key" and r': "r' =
      (case current_pending_handoff_token r cx of None \<Rightarrow> id | Some h \<Rightarrow> settle_handoff h)
        ((case owner of None \<Rightarrow> id | Some x \<Rightarrow> (\<lambda>r. r\<lparr>ar_owner_tasks := (ar_owner_tasks r)(token \<mapsto> x)\<rparr>))
          (r\<lparr>ar_attempts := AList.update key (insert token (attempts_of r key)) (ar_attempts r)\<rparr>))"
    by (auto simp: register_def Let_def split: if_splits sum.splits option.splits)
  show ?thesis unfolding r' using key
    by (intro exI[of _ key])
       (auto simp: attempts_of_update split: option.split)
qed

lemma unregister_effect:
  assumes "scope_key p t = Inr key" and "token \<in> attempts_of r key"
  shows "\<exists>r'. unregister p t token r = Inr (True, r') \<and>
     attempts_of r' = (attempts_of r)(key := attempts_of r key - {token}) \<and>
     ar_owner_tasks r' = (ar_owner_tasks r)(token := None)"
proof (cases "attempts_of r key - {token} = {}")
  case True
  from True have "(attempts_of r)(key := {}) = (attempts_of r)(key := attempts_of r key - {token})"
    by (simp only: True)
  with True show ?thesis using assms by (simp add: unregister_def attempts_of_delete)
next
  case False
  then show ?thesis using assms by (simp add: unregister_def Let_def attempts_of_update)
qed

text \<open>
  Registering an attempt makes its task active, counts it once and uses up the reservation
  it was made under; unregistering it leaves the attempts and their owners as they were.
\<close>

theorem register_unregister:
  assumes reach: "registry_reach (new_registry n) r" and fresh: "\<not> attempt_token_is_active r token"
    and call: "register cx p t owner token r = Inr (token, r')"
  shows "is_active r' p t = Inr True \<and>
     (\<exists>c. attempt_count r p t = Inr c \<and> attempt_count r' p t = Inr (c + 1)) \<and>
     (\<forall>h. current_pending_handoff_token r cx = Some h \<longrightarrow> \<not> is_handoff_pending r' (Some h)) \<and>
     (\<exists>r''. unregister p t token r' = Inr (True, r'') \<and>
        attempts_of r'' = attempts_of r \<and> ar_owner_tasks r'' = ar_owner_tasks r)"
proof -
  from reach have ok: "registry_ok r" by (rule reachable_ok)
  obtain key where key: "scope_key p t = Inr key"
    and attempts: "attempts_of r' = (attempts_of r)(key := insert token (attempts_of r key))"
    and owners: "ar_owner_tasks r' = (case owner of None \<Rightarrow> ar_owner_tasks r | Some x \<Rightarrow> (ar_owner_tasks r)(token \<mapsto> x))"
    and pend: "pending r' = pending r - set_option (current_pending_handoff_token r cx)"
    using register_effect[OF call] by blast
  have new: "token \<notin> attempts_of r k" for k using fresh ok_token_active[OF ok] by blast
  have unowned: "ar_owner_tasks r token = None"
  proof (rule ccontr)
    assume "ar_owner_tasks r token \<noteq> None"
    with ok have "\<exists>k. token \<in> attempts_of r k" unfolding registry_ok_def attempts_ok_def in_attempts_of by blast
    with new show False by blast
  qed
  have "token \<in> attempts_of r' key" by (simp add: attempts)
  from unregister_effect[OF key this] obtain r'' where gone: "unregister p t token r' = Inr (True, r'')"
    "attempts_of r'' = (attempts_of r')(key := attempts_of r' key - {token})"
    "ar_owner_tasks r'' = (ar_owner_tasks r')(token := None)" by blast
  have "attempts_of r'' = attempts_of r" using new[of key] by (simp add: gone(2) attempts)
  moreover have "ar_owner_tasks r'' = ar_owner_tasks r"
    using unowned by (auto simp: gone(3) owners fun_eq_iff split: option.splits)
  moreover have "card (attempts_of r' key) = card (attempts_of r key) + 1"
    using new[of key] ok_attempts_of[OF ok] by (simp add: attempts)
  moreover have "\<not> is_handoff_pending r' (Some h)" if "current_pending_handoff_token r cx = Some h" for h
    using pend that by (auto simp: is_handoff_pending_def pending_def)
  ultimately show ?thesis using gone(1) key by (simp add: is_active_def attempt_count_def attempts)
qed

section \<open>The join\<close>

lemma joined_turn:
  "join_turn r p current fin = Joined r' \<Longrightarrow>
   r' = r \<and> active_owner_tasks r p fin \<subseteq> {current} \<and> ar_shutdown_failures r = []"
  by (auto simp: join_turn_def raise_first_failure_def Let_def split: list.splits if_splits)

text \<open>
  C32. The shutdown join returns only when no owner of an attempt is left but the caller, no
  failure is retained, and no owner it cancelled on the way ended with an error.
\<close>

theorem join_returns_when_owners_are_gone:
  "cancel_and_wait_for_owner_tasks p current rounds r fin = Joined r' \<Longrightarrow>
   \<exists>k \<le> length rounds. \<exists>fin'.
     (r', fin') = ((r, fin) # map snd rounds) ! k \<and>
     active_owner_tasks r' p fin' \<subseteq> {current} \<and> ar_shutdown_failures r' = [] \<and>
     (\<forall>outs\<in>fst ` set (take k rounds). failures_of outs = [])"
proof (induction p current rounds r fin rule: cancel_and_wait_for_owner_tasks.induct)
  case (1 p current r fin)
  then show ?case using joined_turn[of r p current fin r'] by auto
next
  case (2 p current outs r1 fin1 rounds r fin)
  show ?case
  proof (cases "join_turn r p current fin")
    case (Joining owners)
    with 2(2) have none: "failures_of outs = []"
      and rest: "cancel_and_wait_for_owner_tasks p current rounds r1 fin1 = Joined r'"
      by (auto split: list.splits)
    from 2(1)[OF Joining none rest] obtain k fin' where
      "k \<le> length rounds" "(r', fin') = ((r1, fin1) # map snd rounds) ! k"
      "active_owner_tasks r' p fin' \<subseteq> {current}" "ar_shutdown_failures r' = []"
      "\<forall>outs\<in>fst ` set (take k rounds). failures_of outs = []" by blast
    with none show ?thesis by (intro exI[of _ "Suc k"]) auto
  next
    case (Joined x)
    with 2(2) joined_turn[of r p current fin r'] show ?thesis by (intro exI[of _ 0]) auto
  qed (use 2(2) in simp)
qed

section \<open>A controller at work\<close>

definition no_context :: run_context where
  "no_context = \<lparr>cx_handoff = None, cx_driver_attempt = None\<rparr>"

definition one_attempt :: registry where
  "one_attempt = (new_registry 0)\<lparr>ar_attempts := [((''default'', ''t1''), {''a''})],
                                  ar_owner_tasks := [''a'' \<mapsto> 7]\<rparr>"

lemma first_attempt:
  "register no_context None (Some ''t1'') (Some 7) ''a'' (new_registry 0) = Inr (''a'', one_attempt)"
  by (simp add: register_def one_attempt_def new_registry_def no_context_def attempts_of_def scope_key_def
      scope_project_def current_pending_handoff_token_def current_driver_attempt_token_def
      str_simps Let_def)

lemma nothing_active: "\<not> attempt_token_is_active (new_registry 0) x"
  by (simp add: attempt_token_is_active_def new_registry_def)

lemma one_attempt_reachable: "registry_reach (new_registry 0) one_attempt"
  unfolding registry_reach_def
  by (rule r_into_rtranclp, rule registry_step.register[OF first_attempt nothing_active])

lemma registry_stays_consistent_witness:
  "handoff_wait_turn one_attempt \<noteq> Spins \<and> attempt_token_is_active one_attempt ''a''"
  using registry_stays_consistent[OF one_attempt_reachable] by (auto simp: one_attempt_def)

lemma closed_admission_is_final_witness:
  "register no_context None (Some ''t1'') None ''a'' (close_admission (new_registry 0)) = Inl AdmissionClosed"
  using closed_admission_is_final[of "new_registry 0" "close_admission (new_registry 0)"]
  by (simp add: registry_reach_def new_registry_def pending_def)

lemma register_unregister_witness:
  "is_active one_attempt None (Some ''t1'') = Inr True \<and> attempt_count one_attempt None (Some ''t1'') = Inr 1"
proof -
  have "registry_reach (new_registry 0) (new_registry 0)" by (simp add: registry_reach_def)
  from register_unregister[OF this nothing_active first_attempt]
  show ?thesis by (auto simp: attempt_count_def new_registry_def attempts_of_def split: sum.splits)
qed

text \<open>The owner is cancelled, unwinds and unregisters; then the join returns.\<close>

lemma join_returns_when_owners_are_gone_witness:
  "active_owner_tasks (new_registry 0) None {7} \<subseteq> {3}"
proof -
  have "join_turn one_attempt None 3 {} = Joining {7}"
    by (simp add: join_turn_def raise_first_failure_def active_owner_tasks_def live_tokens_def one_attempt_def
        new_registry_def)
  moreover have "join_turn (new_registry 0) None 3 {7} = Joined (new_registry 0)"
    by (simp add: join_turn_def raise_first_failure_def active_owner_tasks_def live_tokens_def new_registry_def)
  ultimately have "cancel_and_wait_for_owner_tasks None 3 [([Cancelled], new_registry 0, {7})] one_attempt {}
      = Joined (new_registry 0)" by simp
  from join_returns_when_owners_are_gone[OF this] show ?thesis
    by (auto simp: active_owner_tasks_def live_tokens_def new_registry_def)
qed

end
