(* ===== verification/MetadataOwnership.thy ===== *)
theory MetadataOwnership
  imports Transition "HOL-Library.Char_ord" "HOL-Library.List_Lexorder"
begin

text \<open>
  \<open>opc/layer2_organization/metadata_ownership.py\<close>: which of the metadata keys belong to the work
  item and which to its runtime task, the copies a task may carry, the diagnostics of drift
  between the two, and the maintenance backfill from legacy tasks.  The rows of the owner
  matrix are listed in the order of the source.
\<close>

section \<open>The owner matrix\<close>

datatype metadata_owner = OWN_WORK_ITEM | OWN_RUNTIME_TASK | OWN_EXECUTION_COPY

fun metadata_owner_value :: "metadata_owner \<Rightarrow> string" where
  "metadata_owner_value OWN_WORK_ITEM = ''work_item''"
| "metadata_owner_value OWN_RUNTIME_TASK = ''runtime_task''"
| "metadata_owner_value OWN_EXECUTION_COPY = ''execution_copy''"

record field_spec =
  fs_key :: string
  fs_owner :: metadata_owner
  fs_allowed_locations :: "string list"
  fs_legacy_fallback :: bool
  fs_migration_policy :: string

definition field_spec_of :: "string \<Rightarrow> metadata_owner \<Rightarrow> string list \<Rightarrow> bool \<Rightarrow> string \<Rightarrow> field_spec" where
  "field_spec_of key owner locations legacy policy =
     \<lparr>fs_key = key, fs_owner = owner, fs_allowed_locations = locations, fs_legacy_fallback = legacy,
      fs_migration_policy = policy\<rparr>"

definition allows_task_execution_copy :: "field_spec \<Rightarrow> bool" where
  "allows_task_execution_copy s \<longleftrightarrow> ''task_execution_copy'' \<in> set (fs_allowed_locations s)"

definition allows_task_legacy_read :: "field_spec \<Rightarrow> bool" where
  "allows_task_legacy_read s \<longleftrightarrow>
     ''task_legacy_read'' \<in> set (fs_allowed_locations s) \<or> fs_legacy_fallback s"

definition WORK_ITEM_FIELDS :: "field_spec list" where
  "WORK_ITEM_FIELDS =
     [field_spec_of ''work_kind'' OWN_WORK_ITEM [''work_item'', ''task_execution_copy''] True ''work_item_wins'',
      field_spec_of ''current_turn_mode'' OWN_WORK_ITEM [''work_item'', ''task_execution_copy''] True ''work_item_wins'',
      field_spec_of ''dependency_work_item_ids'' OWN_WORK_ITEM [''work_item'', ''task_execution_copy''] True ''work_item_wins'',
      field_spec_of ''waiting_on_work_item_ids'' OWN_WORK_ITEM [''work_item''] True ''work_item_wins'',
      field_spec_of ''delegated_children_pending'' OWN_WORK_ITEM [''work_item''] True ''work_item_wins'',
      field_spec_of ''handoff_context'' OWN_WORK_ITEM [''work_item''] True ''backfill_if_missing'',
      field_spec_of ''context_preview'' OWN_WORK_ITEM [''work_item''] True ''backfill_if_missing'',
      field_spec_of ''prompt_contract'' OWN_WORK_ITEM [''work_item'', ''task_execution_copy''] False ''work_item_wins'',
      field_spec_of ''review_target_prompt_contract'' OWN_WORK_ITEM [''work_item'', ''task_execution_copy''] False ''work_item_wins'',
      field_spec_of ''report_target_prompt_contract'' OWN_WORK_ITEM [''work_item'', ''task_execution_copy''] False ''work_item_wins'',
      field_spec_of ''prompt_contract_blocker'' OWN_WORK_ITEM [''work_item'', ''task_execution_copy''] False ''work_item_wins'',
      field_spec_of ''manager_mutation_revision'' OWN_WORK_ITEM [''work_item'', ''task_execution_copy''] True ''work_item_wins'',
      field_spec_of ''manager_mutation_id'' OWN_WORK_ITEM [''work_item'', ''task_execution_copy''] True ''work_item_wins'',
      field_spec_of ''manager_mutation_action'' OWN_WORK_ITEM [''work_item'', ''task_execution_copy''] True ''work_item_wins'',
      field_spec_of ''manager_mutation_reason'' OWN_WORK_ITEM [''work_item'', ''task_execution_copy''] True ''work_item_wins'',
      field_spec_of ''manager_mutation_at'' OWN_WORK_ITEM [''work_item'', ''task_execution_copy''] True ''work_item_wins'',
      field_spec_of ''manager_mutation_by_role_id'' OWN_WORK_ITEM [''work_item'', ''task_execution_copy''] True ''work_item_wins'',
      field_spec_of ''manager_mutation_by_seat_id'' OWN_WORK_ITEM [''work_item'', ''task_execution_copy''] True ''work_item_wins'',
      field_spec_of ''manager_mutation_user_input'' OWN_WORK_ITEM [''work_item'', ''task_execution_copy''] True ''work_item_wins'',
      field_spec_of ''latest_user_directive'' OWN_WORK_ITEM [''work_item'', ''task_execution_copy''] True ''work_item_wins'',
      field_spec_of ''progress_log'' OWN_WORK_ITEM [''work_item'', ''task_legacy_read''] True ''backfill_if_missing'',
      field_spec_of ''work_item_role_name'' OWN_WORK_ITEM [''work_item''] True ''backfill_if_missing'',
      field_spec_of ''employee_assignment'' OWN_WORK_ITEM [''work_item'', ''task_execution_copy''] True ''backfill_if_missing'',
      field_spec_of ''employee_prompt_context'' OWN_WORK_ITEM [''work_item''] True ''backfill_if_missing'',
      field_spec_of ''employee_delta_context'' OWN_WORK_ITEM [''work_item''] True ''backfill_if_missing'',
      field_spec_of ''completion_report'' OWN_WORK_ITEM [''work_item''] True ''backfill_if_missing'',
      field_spec_of ''deliverable_summary'' OWN_WORK_ITEM [''work_item''] True ''backfill_if_missing'',
      field_spec_of ''work_item_summary'' OWN_WORK_ITEM [''work_item''] True ''backfill_if_missing'',
      field_spec_of ''work_item_summary_for_downstream'' OWN_WORK_ITEM [''work_item'', ''task_execution_copy''] True ''backfill_if_missing'',
      field_spec_of ''opaque_external_team_result'' OWN_WORK_ITEM [''work_item''] True ''backfill_if_missing'',
      field_spec_of ''work_item_artifact_index'' OWN_WORK_ITEM [''work_item''] True ''backfill_if_missing'',
      field_spec_of ''verification_status'' OWN_WORK_ITEM [''work_item''] True ''backfill_if_missing'',
      field_spec_of ''verification_evidence'' OWN_WORK_ITEM [''work_item''] True ''backfill_if_missing'',
      field_spec_of ''verification'' OWN_WORK_ITEM [''work_item''] True ''backfill_if_missing'',
      field_spec_of ''structured_review_verdict'' OWN_WORK_ITEM [''work_item'', ''task_execution_copy''] True ''backfill_if_missing'',
      field_spec_of ''review_owner_role_id'' OWN_WORK_ITEM [''work_item'', ''task_execution_copy''] True ''work_item_wins'',
      field_spec_of ''review_owner_seat_id'' OWN_WORK_ITEM [''work_item'', ''task_execution_copy''] True ''work_item_wins'',
      field_spec_of ''review_attempt'' OWN_WORK_ITEM [''work_item'', ''task_execution_copy''] True ''work_item_wins'',
      field_spec_of ''review_attempt_count'' OWN_WORK_ITEM [''work_item''] True ''work_item_wins'',
      field_spec_of ''review_target_work_item_id'' OWN_WORK_ITEM [''work_item'', ''task_execution_copy''] True ''work_item_wins'',
      field_spec_of ''review_source_report_work_item_id'' OWN_WORK_ITEM [''work_item''] False ''work_item_wins'',
      field_spec_of ''review_resolution'' OWN_WORK_ITEM [''work_item''] False ''work_item_wins'',
      field_spec_of ''review_resolution_state'' OWN_WORK_ITEM [''work_item''] False ''work_item_wins'',
      field_spec_of ''review_resolution_applied_work_item_id'' OWN_WORK_ITEM [''work_item''] False ''work_item_wins'',
      field_spec_of ''review_target_worker_task_id'' OWN_WORK_ITEM [''work_item'', ''task_execution_copy''] True ''work_item_wins'',
      field_spec_of ''review_target_worker_role_id'' OWN_WORK_ITEM [''work_item'', ''task_execution_copy''] True ''work_item_wins'',
      field_spec_of ''review_target_worker_seat_id'' OWN_WORK_ITEM [''work_item'', ''task_execution_copy''] True ''work_item_wins'',
      field_spec_of ''review_completion_report'' OWN_WORK_ITEM [''work_item'', ''task_execution_copy''] True ''work_item_wins'',
      field_spec_of ''review_target_title'' OWN_WORK_ITEM [''work_item'', ''task_execution_copy''] True ''work_item_wins'',
      field_spec_of ''review_target_description'' OWN_WORK_ITEM [''work_item'', ''task_execution_copy''] True ''work_item_wins'',
      field_spec_of ''review_evidence'' OWN_WORK_ITEM [''work_item'', ''task_execution_copy''] True ''work_item_wins'',
      field_spec_of ''rework_feedback'' OWN_WORK_ITEM [''work_item'', ''task_execution_copy''] True ''work_item_wins'',
      field_spec_of ''review_feedback_version'' OWN_WORK_ITEM [''work_item'', ''task_execution_copy''] True ''work_item_wins'',
      field_spec_of ''review_rework_count'' OWN_WORK_ITEM [''work_item'', ''task_execution_copy''] True ''work_item_wins'',
      field_spec_of ''review_retry_hint'' OWN_WORK_ITEM [''work_item'', ''task_execution_copy''] True ''work_item_wins'',
      field_spec_of ''review_retry_of_attempt'' OWN_WORK_ITEM [''work_item'', ''task_execution_copy''] True ''work_item_wins'',
      field_spec_of ''review_retry_reason'' OWN_WORK_ITEM [''work_item'', ''task_execution_copy''] True ''work_item_wins'',
      field_spec_of ''report_attempt'' OWN_WORK_ITEM [''work_item'', ''task_execution_copy''] True ''work_item_wins'',
      field_spec_of ''report_attempt_count'' OWN_WORK_ITEM [''work_item''] True ''work_item_wins'',
      field_spec_of ''report_target_work_item_id'' OWN_WORK_ITEM [''work_item'', ''task_execution_copy''] True ''work_item_wins'',
      field_spec_of ''report_target_worker_task_id'' OWN_WORK_ITEM [''work_item'', ''task_execution_copy''] True ''work_item_wins'',
      field_spec_of ''report_target_worker_role_id'' OWN_WORK_ITEM [''work_item'', ''task_execution_copy''] True ''work_item_wins'',
      field_spec_of ''report_target_worker_seat_id'' OWN_WORK_ITEM [''work_item'', ''task_execution_copy''] True ''work_item_wins'',
      field_spec_of ''report_target_title'' OWN_WORK_ITEM [''work_item'', ''task_execution_copy''] True ''work_item_wins'',
      field_spec_of ''report_target_description'' OWN_WORK_ITEM [''work_item'', ''task_execution_copy''] True ''work_item_wins'',
      field_spec_of ''report_source_summary'' OWN_WORK_ITEM [''work_item'', ''task_execution_copy''] True ''work_item_wins'',
      field_spec_of ''report_source_result_content'' OWN_WORK_ITEM [''work_item'', ''task_execution_copy''] True ''work_item_wins'',
      field_spec_of ''report_source_evidence'' OWN_WORK_ITEM [''work_item'', ''task_execution_copy''] True ''work_item_wins'',
      field_spec_of ''follow_up_actions'' OWN_WORK_ITEM [''work_item''] True ''backfill_if_missing'',
      field_spec_of ''follow_up_action'' OWN_WORK_ITEM [''work_item'', ''task_execution_copy''] True ''work_item_wins'',
      field_spec_of ''follow_up_reason'' OWN_WORK_ITEM [''work_item'', ''task_execution_copy''] True ''work_item_wins'',
      field_spec_of ''follow_up_dedupe_key'' OWN_WORK_ITEM [''work_item'', ''task_execution_copy''] True ''work_item_wins'',
      field_spec_of ''synthesis_turn_started'' OWN_WORK_ITEM [''work_item'', ''task_execution_copy''] True ''work_item_wins'',
      field_spec_of ''synthesis_ready_at'' OWN_WORK_ITEM [''work_item'', ''task_execution_copy''] True ''work_item_wins'',
      field_spec_of ''synthesis_source_work_item_ids'' OWN_WORK_ITEM [''work_item'', ''task_execution_copy''] True ''work_item_wins'',
      field_spec_of ''synthesis_reports_to_role_id'' OWN_WORK_ITEM [''work_item'', ''task_execution_copy''] True ''work_item_wins'',
      field_spec_of ''synthesis_reports_to_seat_id'' OWN_WORK_ITEM [''work_item'', ''task_execution_copy''] True ''work_item_wins'',
      field_spec_of ''delivery_package'' OWN_WORK_ITEM [''work_item''] True ''backfill_if_missing'',
      field_spec_of ''downstream_assignments'' OWN_WORK_ITEM [''work_item''] True ''backfill_if_missing'',
      field_spec_of ''open_questions'' OWN_WORK_ITEM [''work_item''] True ''backfill_if_missing'',
      field_spec_of ''assumptions'' OWN_WORK_ITEM [''work_item''] True ''backfill_if_missing'',
      field_spec_of ''decisions'' OWN_WORK_ITEM [''work_item''] True ''backfill_if_missing'',
      field_spec_of ''risks'' OWN_WORK_ITEM [''work_item''] True ''backfill_if_missing'',
      field_spec_of ''self_evolution_work_item'' OWN_WORK_ITEM [''work_item'', ''task_execution_copy''] False ''work_item_wins'',
      field_spec_of ''self_evolution_root'' OWN_WORK_ITEM [''work_item'', ''task_execution_copy''] False ''work_item_wins'',
      field_spec_of ''self_evolution_checkpoint_id'' OWN_WORK_ITEM [''work_item'', ''task_execution_copy''] False ''work_item_wins'',
      field_spec_of ''self_evolution_human_action'' OWN_WORK_ITEM [''work_item'', ''task_execution_copy''] False ''work_item_wins'',
      field_spec_of ''self_evolution_human_feedback'' OWN_WORK_ITEM [''work_item'', ''task_execution_copy''] False ''work_item_wins'',
      field_spec_of ''self_evolution_delivery_task_id'' OWN_WORK_ITEM [''work_item'', ''task_execution_copy''] False ''work_item_wins'',
      field_spec_of ''self_evolution_delivery_projection_id'' OWN_WORK_ITEM [''work_item'', ''task_execution_copy''] False ''work_item_wins'',
      field_spec_of ''self_evolution_delivery_summary'' OWN_WORK_ITEM [''work_item'', ''task_execution_copy''] False ''work_item_wins'',
      field_spec_of ''self_evolution_patch_max_retries'' OWN_WORK_ITEM [''work_item'', ''task_execution_copy''] False ''work_item_wins'',
      field_spec_of ''self_evolution_recorded'' OWN_WORK_ITEM [''work_item''] False ''work_item_wins'',
      field_spec_of ''self_evolution_patch'' OWN_WORK_ITEM [''work_item''] False ''work_item_wins'',
      field_spec_of ''self_evolution_completed_at'' OWN_WORK_ITEM [''work_item''] False ''work_item_wins'',
      field_spec_of ''self_evolution_error'' OWN_WORK_ITEM [''work_item''] False ''work_item_wins'',
      field_spec_of ''attempt_seq'' OWN_WORK_ITEM [''work_item''] False ''work_item_wins'',
      field_spec_of ''attempt_settled'' OWN_WORK_ITEM [''work_item''] False ''work_item_wins'',
      field_spec_of ''attempt_outcome'' OWN_WORK_ITEM [''work_item''] False ''work_item_wins'',
      field_spec_of ''attempt_started_at'' OWN_WORK_ITEM [''work_item''] False ''work_item_wins'',
      field_spec_of ''attempt_settled_at'' OWN_WORK_ITEM [''work_item''] False ''work_item_wins'',
      field_spec_of ''attempt_crash_streak'' OWN_WORK_ITEM [''work_item''] False ''work_item_wins'',
      field_spec_of ''attempt_interrupted_streak'' OWN_WORK_ITEM [''work_item''] False ''work_item_wins'',
      field_spec_of ''attempt_ledger_block_reason'' OWN_WORK_ITEM [''work_item''] False ''work_item_wins'']"

definition RUNTIME_TASK_FIELDS :: "field_spec list" where
  "RUNTIME_TASK_FIELDS =
     [field_spec_of ''runtime_v2'' OWN_RUNTIME_TASK [''task''] False ''task_only'',
      field_spec_of ''runtime_verification'' OWN_RUNTIME_TASK [''task''] False ''task_only'',
      field_spec_of ''runtime_verification_evidence'' OWN_RUNTIME_TASK [''task''] False ''task_only'',
      field_spec_of ''runtime_verification_status'' OWN_RUNTIME_TASK [''task''] False ''task_only'',
      field_spec_of ''member_session_state'' OWN_RUNTIME_TASK [''task''] False ''task_only'',
      field_spec_of ''external_resume_session_id'' OWN_RUNTIME_TASK [''task''] False ''task_only'',
      field_spec_of ''external_resume_agent_type'' OWN_RUNTIME_TASK [''task''] False ''task_only'',
      field_spec_of ''working_memory'' OWN_RUNTIME_TASK [''task''] False ''task_only'',
      field_spec_of ''interrupted_recovery'' OWN_RUNTIME_TASK [''task''] False ''task_only'',
      field_spec_of ''last_stop_reason'' OWN_RUNTIME_TASK [''task''] False ''task_only'',
      field_spec_of ''peer_wait'' OWN_RUNTIME_TASK [''task''] False ''task_only'',
      field_spec_of ''comms_cross_role_history'' OWN_RUNTIME_TASK [''task''] False ''task_only'',
      field_spec_of ''comms_last_blocked_reactivation_at'' OWN_RUNTIME_TASK [''task''] False ''task_only'',
      field_spec_of ''comms_last_blocked_reactivation_key'' OWN_RUNTIME_TASK [''task''] False ''task_only'',
      field_spec_of ''runtime_control_state'' OWN_RUNTIME_TASK [''task''] False ''task_only'',
      field_spec_of ''automated_verification_results'' OWN_RUNTIME_TASK [''task''] False ''task_only'',
      field_spec_of ''runtime_session_team_instance_id'' OWN_RUNTIME_TASK [''task''] False ''task_only'',
      field_spec_of ''runtime_session_team_id'' OWN_RUNTIME_TASK [''task''] False ''task_only'',
      field_spec_of ''runtime_session_seat_id'' OWN_RUNTIME_TASK [''task''] False ''task_only'']"

definition EXECUTION_COPY_FIELDS :: "field_spec list" where
  "EXECUTION_COPY_FIELDS =
     [field_spec_of ''mode'' OWN_EXECUTION_COPY [''task_execution_copy''] False ''copy_from_runtime_context'',
      field_spec_of ''execution_mode'' OWN_EXECUTION_COPY [''task_execution_copy''] False ''copy_from_runtime_context'',
      field_spec_of ''execution_model'' OWN_EXECUTION_COPY [''task_execution_copy''] False ''copy_from_runtime_context'',
      field_spec_of ''runtime_model'' OWN_EXECUTION_COPY [''task_execution_copy''] False ''copy_from_runtime_context'',
      field_spec_of ''original_message'' OWN_EXECUTION_COPY [''task_execution_copy''] False ''copy_from_runtime_context'',
      field_spec_of ''company_profile'' OWN_EXECUTION_COPY [''task_execution_copy''] False ''copy_from_runtime_context'',
      field_spec_of ''delegation_playbook'' OWN_EXECUTION_COPY [''task_execution_copy''] False ''copy_from_runtime_context'',
      field_spec_of ''runtime_topology'' OWN_EXECUTION_COPY [''task_execution_copy''] False ''copy_from_runtime_context'',
      field_spec_of ''organization_id'' OWN_EXECUTION_COPY [''task_execution_copy''] False ''copy_from_runtime_context'',
      field_spec_of ''org_id'' OWN_EXECUTION_COPY [''task_execution_copy''] False ''copy_from_runtime_context'',
      field_spec_of ''delegation_run_id'' OWN_EXECUTION_COPY [''task_execution_copy''] False ''copy_from_runtime_context'',
      field_spec_of ''delegation_cell_id'' OWN_EXECUTION_COPY [''task_execution_copy''] False ''copy_from_runtime_context'',
      field_spec_of ''delegation_team_instance_id'' OWN_EXECUTION_COPY [''task_execution_copy''] False ''copy_from_runtime_context'',
      field_spec_of ''delegation_team_id'' OWN_EXECUTION_COPY [''task_execution_copy''] False ''copy_from_runtime_context'',
      field_spec_of ''delegation_seat_id'' OWN_EXECUTION_COPY [''task_execution_copy''] False ''copy_from_runtime_context'',
      field_spec_of ''delegation_role_session_id'' OWN_EXECUTION_COPY [''task_execution_copy''] False ''copy_from_runtime_context'',
      field_spec_of ''work_item_role_id'' OWN_EXECUTION_COPY [''task_execution_copy''] False ''copy_from_runtime_context'',
      field_spec_of ''seat_manager_role_id'' OWN_EXECUTION_COPY [''task_execution_copy''] False ''copy_from_runtime_context'',
      field_spec_of ''manager_role_id'' OWN_EXECUTION_COPY [''task_execution_copy''] False ''copy_from_runtime_context'',
      field_spec_of ''manager_seat_id'' OWN_EXECUTION_COPY [''task_execution_copy''] False ''copy_from_runtime_context'',
      field_spec_of ''managed_team_id'' OWN_EXECUTION_COPY [''task_execution_copy''] False ''copy_from_runtime_context'',
      field_spec_of ''seat_contact_role_ids'' OWN_EXECUTION_COPY [''task_execution_copy''] False ''copy_from_runtime_context'',
      field_spec_of ''allowed_delegate_role_ids'' OWN_EXECUTION_COPY [''task_execution_copy''] False ''copy_from_runtime_context'',
      field_spec_of ''force_native_execution'' OWN_EXECUTION_COPY [''task_execution_copy''] False ''copy_from_runtime_context'',
      field_spec_of ''preferred_external_agent'' OWN_EXECUTION_COPY [''task_execution_copy''] False ''copy_from_runtime_context'',
      field_spec_of ''selected_execution_agent'' OWN_EXECUTION_COPY [''task_execution_copy''] False ''copy_from_runtime_context'',
      field_spec_of ''execution_agent_locked'' OWN_EXECUTION_COPY [''task_execution_copy''] False ''copy_from_runtime_context'',
      field_spec_of ''selected_execution_agent_source'' OWN_EXECUTION_COPY [''task_execution_copy''] False ''copy_from_runtime_context'',
      field_spec_of ''work_item_execution_strategy'' OWN_EXECUTION_COPY [''task_execution_copy''] False ''copy_from_runtime_context'',
      field_spec_of ''adaptive'' OWN_EXECUTION_COPY [''task_execution_copy''] False ''copy_from_runtime_context'',
      field_spec_of ''execution_task_ids'' OWN_EXECUTION_COPY [''task_execution_copy''] False ''copy_from_runtime_context'',
      field_spec_of ''parent_session_id'' OWN_EXECUTION_COPY [''task_execution_copy''] False ''copy_from_runtime_context'',
      field_spec_of ''work_item_batch_id'' OWN_EXECUTION_COPY [''task_execution_copy''] False ''copy_from_runtime_context'',
      field_spec_of ''target_output_dir'' OWN_EXECUTION_COPY [''task_execution_copy''] False ''copy_from_runtime_context'',
      field_spec_of ''output_root'' OWN_EXECUTION_COPY [''task_execution_copy''] False ''copy_from_runtime_context'',
      field_spec_of ''workspace_root'' OWN_EXECUTION_COPY [''task_execution_copy''] False ''copy_from_runtime_context'',
      field_spec_of ''comms_workspace_root'' OWN_EXECUTION_COPY [''task_execution_copy''] False ''copy_from_runtime_context'',
      field_spec_of ''comms_root'' OWN_EXECUTION_COPY [''task_execution_copy''] False ''copy_from_runtime_context'',
      field_spec_of ''user_visible'' OWN_EXECUTION_COPY [''task_execution_copy''] False ''copy_from_runtime_context'',
      field_spec_of ''authoritative_output'' OWN_EXECUTION_COPY [''task_execution_copy''] False ''copy_from_runtime_context'',
      field_spec_of ''review_owner_kind'' OWN_EXECUTION_COPY [''task_execution_copy''] False ''copy_from_runtime_context'',
      field_spec_of ''requires_user_feedback'' OWN_EXECUTION_COPY [''task_execution_copy''] False ''copy_from_runtime_context'',
      field_spec_of ''feedback_scope'' OWN_EXECUTION_COPY [''task_execution_copy''] False ''copy_from_runtime_context'',
      field_spec_of ''review_task'' OWN_EXECUTION_COPY [''task_execution_copy''] False ''copy_from_runtime_context'',
      field_spec_of ''review_execution_work_item'' OWN_EXECUTION_COPY [''task_execution_copy''] False ''copy_from_runtime_context'',
      field_spec_of ''report_execution_work_item'' OWN_EXECUTION_COPY [''task_execution_copy''] False ''copy_from_runtime_context'',
      field_spec_of ''skip_work_item_sync'' OWN_EXECUTION_COPY [''task_execution_copy''] False ''copy_from_runtime_context'']"

definition all_field_specs :: "field_spec list" where
  "all_field_specs = WORK_ITEM_FIELDS @ RUNTIME_TASK_FIELDS @ EXECUTION_COPY_FIELDS"

text \<open>A dictionary display: of two rows with one key the later one counts.\<close>

definition METADATA_FIELD_SPECS :: "string \<rightharpoonup> field_spec" where
  "METADATA_FIELD_SPECS key = find (\<lambda>s. fs_key s = key) (rev all_field_specs)"

definition keys_where :: "(field_spec \<Rightarrow> bool) \<Rightarrow> string list" where
  "keys_where P =
     filter (\<lambda>k. case METADATA_FIELD_SPECS k of None \<Rightarrow> False | Some s \<Rightarrow> P s)
       (dedup (map fs_key all_field_specs))"

definition WORK_ITEM_OWNED_KEYS :: "string list" where
  "WORK_ITEM_OWNED_KEYS = sort (keys_where (\<lambda>s. fs_owner s = OWN_WORK_ITEM))"

definition RUNTIME_TASK_OWNED_KEYS :: "string list" where
  "RUNTIME_TASK_OWNED_KEYS = sort (keys_where (\<lambda>s. fs_owner s = OWN_RUNTIME_TASK))"

definition EXECUTION_COPY_KEYS :: "string list" where
  "EXECUTION_COPY_KEYS =
     sort (keys_where (\<lambda>s. fs_owner s = OWN_EXECUTION_COPY \<or> allows_task_execution_copy s))"

section \<open>Looking a key up\<close>

definition metadata_spec_for_key :: "string \<Rightarrow> field_spec option" where
  "metadata_spec_for_key key = METADATA_FIELD_SPECS (py_strip key)"

definition metadata_owner_for_key :: "string \<Rightarrow> metadata_owner option" where
  "metadata_owner_for_key key = map_option fs_owner (METADATA_FIELD_SPECS (py_strip key))"

definition is_work_item_owned_key :: "string \<Rightarrow> bool" where
  "is_work_item_owned_key key \<longleftrightarrow> metadata_owner_for_key key = Some OWN_WORK_ITEM"

definition is_runtime_task_owned_key :: "string \<Rightarrow> bool" where
  "is_runtime_task_owned_key key \<longleftrightarrow> metadata_owner_for_key key = Some OWN_RUNTIME_TASK"

definition is_execution_copy_key :: "string \<Rightarrow> bool" where
  "is_execution_copy_key key \<longleftrightarrow> py_strip key \<in> set EXECUTION_COPY_KEYS"

definition supports_legacy_task_fallback :: "string \<Rightarrow> bool" where
  "supports_legacy_task_fallback key =
     (case metadata_spec_for_key key of None \<Rightarrow> False | Some s \<Rightarrow> fs_legacy_fallback s)"

definition has_value :: "pyval \<Rightarrow> bool" where
  "has_value v \<longleftrightarrow> v \<noteq> PNone \<and> v \<noteq> PStr [] \<and> v \<noteq> PList [] \<and> v \<noteq> PDict []"

section \<open>Final delivery outputs\<close>

definition FINAL_DELIVERY_CURRENT_OUTPUT_KEYS :: "string list" where
  "FINAL_DELIVERY_CURRENT_OUTPUT_KEYS =
     [''delivery_package'', ''final_delivery_package'', ''feedback_followup_message'',
      ''ceo_pre_delivery_assessment'', ''pre_delivery_assessment_status'',
      ''pre_delivery_assessment_failure_kind'', ''pre_delivery_rework_cap_reached'',
      ''pre_delivery_rework_cap'', ''feedback_close_user_message'']"

definition clear_current_final_delivery_outputs :: "task \<Rightarrow> task result" where
  "clear_current_final_delivery_outputs t =
     (let md = fold dpop FINAL_DELIVERY_CURRENT_OUTPUT_KEYS (tk_metadata t);
          snapshot = fold dpop FINAL_DELIVERY_CURRENT_OUTPUT_KEYS (tk_context_snapshot t)
      in bind_result (dict_or_empty (dget snapshot ''work_item_owned_outputs'')) (\<lambda>outputs.
         let owned = fold dpop FINAL_DELIVERY_CURRENT_OUTPUT_KEYS outputs
         in Inr (t\<lparr>tk_metadata := md,
                   tk_context_snapshot :=
                     (if owned \<noteq> [] then dset ''work_item_owned_outputs'' (PDict owned) snapshot
                      else dpop ''work_item_owned_outputs'' snapshot)\<rparr>)))"

section \<open>Execution copies\<close>

definition copy_work_item_execution_metadata :: "work_item option \<Rightarrow> string list option \<Rightarrow> pydict" where
  "copy_work_item_execution_metadata item keys =
     (case item of
        None \<Rightarrow> []
      | Some i \<Rightarrow>
          fold (\<lambda>key copied.
                  if (case metadata_spec_for_key key of None \<Rightarrow> False | Some s \<Rightarrow> allows_task_execution_copy s) \<and>
                     dhas (wi_metadata i) key \<and> has_value (dget (wi_metadata i) key)
                  then dset key (dget (wi_metadata i) key) copied else copied)
            (case keys of Some ks \<Rightarrow> ks | None \<Rightarrow> EXECUTION_COPY_KEYS) [])"

definition own_or :: "string \<Rightarrow> pydict \<Rightarrow> string \<Rightarrow> pyval" where
  "own_or own md key = py_or (PStr own) (dget md key)"

definition build_work_item_owner_execution_copy :: "work_item option \<Rightarrow> pydict" where
  "build_work_item_owner_execution_copy item =
     (case item of
        None \<Rightarrow> []
      | Some i \<Rightarrow>
          (let md = wi_metadata i in
           filter (\<lambda>(key, v). key \<in> set EXECUTION_COPY_KEYS \<and> has_value v)
            [(''delegation_run_id'', PStr (py_strip (wi_run_id i))),
             (''delegation_cell_id'', PStr (py_strip (wi_cell_id i))),
             (''delegation_team_instance_id'', PStr (py_strip (wi_team_instance_id i))),
             (''delegation_team_id'', PStr (clean (py_or (own_or (wi_team_id i) md ''team_id'') (PStr (wi_cell_id i))))),
             (''delegation_seat_id'', PStr (clean (own_or (wi_seat_id i) md ''seat_id''))),
             (''delegation_role_session_id'', PStr (clean (own_or (wi_role_runtime_session_id i) md ''assigned_role_runtime_id''))),
             (''work_item_role_id'', PStr (clean (own_or (wi_role_id i) md ''role_id''))),
             (''work_kind'', PStr (clean_lower (py_or (dget md ''work_kind'') (PStr (wi_kind i))))),
             (''manager_role_id'', PStr (clean (own_or (wi_manager_role_id i) md ''manager_role_id''))),
             (''manager_seat_id'', PStr (clean (own_or (wi_manager_seat_id i) md ''manager_seat_id''))),
             (''work_item_batch_id'', PStr (py_strip (wi_batch_id i)))]))"

definition build_company_resume_identity_restore :: "string \<Rightarrow> string \<Rightarrow> string \<Rightarrow> pydict" where
  "build_company_resume_identity_restore role_id seat_id role_runtime_session_id =
     (''work_item_role_id'', PStr (py_strip role_id)) #
     (if py_strip seat_id \<noteq> [] then [(''delegation_seat_id'', PStr (py_strip seat_id))] else []) @
     (if py_strip role_runtime_session_id \<noteq> []
      then [(''delegation_role_session_id'', PStr (py_strip role_runtime_session_id))] else [])"

definition disallowed_keys :: "pydict \<Rightarrow> string list" where
  "disallowed_keys md =
     filter (\<lambda>key. key \<notin> set EXECUTION_COPY_KEYS \<and> dhas md key) WORK_ITEM_OWNED_KEYS"

definition strip_disallowed_work_item_metadata_from_runtime_task :: "task \<Rightarrow> string list \<times> task" where
  "strip_disallowed_work_item_metadata_from_runtime_task t =
     (let removed = disallowed_keys (tk_metadata t)
      in (removed, if removed \<noteq> [] then t\<lparr>tk_metadata := fold dpop removed (tk_metadata t)\<rparr> else t))"

definition filter_work_item_owned_metadata :: "pydict \<Rightarrow> pydict" where
  "filter_work_item_owned_metadata updates =
     filter (\<lambda>(key, v). is_work_item_owned_key key \<and> has_value v) updates"

definition filter_runtime_task_owned_metadata :: "pydict \<Rightarrow> pydict" where
  "filter_runtime_task_owned_metadata updates =
     filter (\<lambda>(key, v). is_runtime_task_owned_key key \<and> has_value v) updates"

definition update_runtime_task_owned_metadata :: "task \<Rightarrow> pydict \<Rightarrow> pydict \<times> task" where
  "update_runtime_task_owned_metadata t updates =
     (let filtered = filter_runtime_task_owned_metadata updates
      in if filtered = [] then ([], t)
         else (filtered, t\<lparr>tk_metadata := dupdate (tk_metadata t) filtered\<rparr>))"

section \<open>Diagnostics\<close>

record ownership_issue =
  oi_code :: string
  oi_severity :: string
  oi_key :: string
  oi_owner :: string
  oi_work_item_id :: string
  oi_runtime_task_id :: string
  oi_message :: string
  oi_details :: pydict

definition ownership_issue_of ::
  "string \<Rightarrow> string \<Rightarrow> metadata_owner \<Rightarrow> string \<Rightarrow> string \<Rightarrow> string \<Rightarrow> pydict \<Rightarrow> ownership_issue" where
  "ownership_issue_of code key owner wid tid message details =
     \<lparr>oi_code = code, oi_severity = ''warning'', oi_key = key, oi_owner = metadata_owner_value owner,
      oi_work_item_id = wid, oi_runtime_task_id = tid, oi_message = message, oi_details = details\<rparr>"

definition quoted_key :: "string \<Rightarrow> string" where
  \<comment> \<open>the key in back quotes\<close>
  "quoted_key key = [CHR 0x60] @ key @ [CHR 0x60]"

definition values_of :: "pyval \<Rightarrow> pyval \<Rightarrow> pydict" where
  "values_of item_value task_value = [(''work_item_value'', item_value), (''task_value'', task_value)]"

definition work_item_key_issue :: "pydict \<Rightarrow> pydict \<Rightarrow> string \<Rightarrow> string \<Rightarrow> string \<Rightarrow> ownership_issue list" where
  "work_item_key_issue item_md task_md wid tid key =
     (if \<not> dhas task_md key \<or> \<not> has_value (dget task_md key) then []
      else if \<not> (dhas item_md key \<and> has_value (dget item_md key)) then
        [ownership_issue_of ''metadata_ownership_violation'' key OWN_WORK_ITEM wid tid
           (''WorkItem-owned metadata '' @ quoted_key key @
            '' is present on runtime Task but missing on WorkItem.'') []]
      else if \<not> py_eq (dget item_md key) (dget task_md key) \<and> \<not> is_execution_copy_key key then
        [ownership_issue_of ''metadata_ownership_conflict'' key OWN_WORK_ITEM wid tid
           (''WorkItem-owned metadata '' @ quoted_key key @
            '' differs between WorkItem and runtime Task; WorkItem wins.'')
           (values_of (dget item_md key) (dget task_md key))]
      else [])"

definition task_key_issue :: "pydict \<Rightarrow> string \<Rightarrow> string \<Rightarrow> string \<Rightarrow> ownership_issue list" where
  "task_key_issue item_md wid tid key =
     (if dhas item_md key \<and> has_value (dget item_md key) then
        [ownership_issue_of ''metadata_ownership_violation'' key OWN_RUNTIME_TASK wid tid
           (''Runtime Task-owned metadata '' @ quoted_key key @ '' should not be stored on WorkItem.'') []]
      else [])"

definition validate_metadata_ownership :: "work_item option \<Rightarrow> task option \<Rightarrow> ownership_issue list" where
  "validate_metadata_ownership item t =
     (if item = None \<and> t = None then []
      else
        let item_md = (case item of None \<Rightarrow> [] | Some i \<Rightarrow> wi_metadata i);
            task_md = (case t of None \<Rightarrow> [] | Some x \<Rightarrow> tk_metadata x);
            own = (case item of None \<Rightarrow> [] | Some i \<Rightarrow> py_strip (wi_work_item_id i));
            wid = (if own \<noteq> [] then own else linked_work_item_id_for_task t);
            tid = (case t of None \<Rightarrow> [] | Some x \<Rightarrow> py_strip (tk_id x))
        in concat (map (work_item_key_issue item_md task_md wid tid) WORK_ITEM_OWNED_KEYS) @
           concat (map (task_key_issue item_md wid tid) RUNTIME_TASK_OWNED_KEYS))"

section \<open>Writing through the store\<close>

definition update_work_item_owned_metadata ::
  "store hook list \<Rightarrow> store \<Rightarrow> string \<Rightarrow> pydict \<Rightarrow> int \<Rightarrow> pydict result \<times> store" where
  "update_work_item_owned_metadata hooks st wid updates now =
     (let filtered = filter_work_item_owned_metadata updates
      in if filtered = [] then (Inr [], st)
         else case update_delegation_work_item hooks st wid (no_update\<lparr>up_metadata := filtered\<rparr>) now of
                (Inl e, st') \<Rightarrow> (Inl e, st')
              | (Inr _, st') \<Rightarrow> (Inr filtered, st'))"

definition append_work_item_progress ::
  "store hook list \<Rightarrow> store \<Rightarrow> string \<Rightarrow> string \<Rightarrow> int \<Rightarrow> bool \<Rightarrow> int \<Rightarrow> pyval list result \<times> store" where
  "append_work_item_progress hooks st work_item_id message limit deduplicate now =
     (let wid = py_strip work_item_id; note = py_strip message
      in if wid = [] \<or> note = [] then (Inr [], st)
         else case get_item st wid of
                None \<Rightarrow> (Inr [], st)
              | Some i \<Rightarrow>
                  (case list_or_empty (dget (wi_metadata i) ''progress_log'') of
                     Inl e \<Rightarrow> (Inl e, st)
                   | Inr logged \<Rightarrow>
                       let longer = (if \<not> deduplicate \<or> \<not> list_ex (py_eq (PStr note)) logged
                                     then logged @ [PStr note] else logged);
                           keep = nat (max 1 (if limit = 0 then 20 else limit));
                           progress = drop (length longer - keep) longer
                       in case update_work_item_owned_metadata hooks st wid [(''progress_log'', PList progress)] now of
                            (Inl e, st') \<Rightarrow> (Inl e, st')
                          | (Inr _, st') \<Rightarrow> (Inr progress, st')))"

definition sync_work_item_current_turn_mode ::
  "store hook list \<Rightarrow> store \<Rightarrow> string \<Rightarrow> string \<Rightarrow> int \<Rightarrow> bool result \<times> store" where
  "sync_work_item_current_turn_mode hooks st work_item_id current_turn_mode now =
     (let wid = py_strip work_item_id; mode = py_strip current_turn_mode
      in if wid = [] \<or> mode = [] then (Inr False, st)
         else case update_work_item_owned_metadata hooks st wid [(''current_turn_mode'', PStr mode)] now of
                (Inl e, st') \<Rightarrow> (Inl e, st')
              | (Inr written, st') \<Rightarrow> (Inr (written \<noteq> []), st'))"

section \<open>The backfill from legacy tasks\<close>

definition get_runtime_task_for_work_item :: "store \<Rightarrow> string \<Rightarrow> task option" where
  "get_runtime_task_for_work_item st work_item_id =
     (let wid = py_strip work_item_id
      in if wid = [] then None
         else case find (\<lambda>l. fst l = wid) (st_links st) of
                None \<Rightarrow> None
              | Some l \<Rightarrow> map_option (\<lambda>t. set_linked_work_item_id t wid) (get_task st (snd l)))"

definition legacy_updates :: "pydict \<Rightarrow> pydict \<Rightarrow> pydict" where
  "legacy_updates item_md task_md =
     map (\<lambda>key. (key, dget task_md key))
       (filter (\<lambda>key. dhas task_md key \<and> has_value (dget task_md key) \<and>
                      \<not> (dhas item_md key \<and> has_value (dget item_md key)) \<and>
                      supports_legacy_task_fallback key) WORK_ITEM_OWNED_KEYS)"

definition migration_conflicts :: "pydict \<Rightarrow> pydict \<Rightarrow> (string \<times> pydict) list" where
  "migration_conflicts item_md task_md =
     map (\<lambda>key. (key, values_of (dget item_md key) (dget task_md key)))
       (filter (\<lambda>key. dhas task_md key \<and> has_value (dget task_md key) \<and>
                      dhas item_md key \<and> has_value (dget item_md key) \<and>
                      \<not> py_eq (dget item_md key) (dget task_md key)) WORK_ITEM_OWNED_KEYS)"

record migration_change =
  mc_work_item_id :: string
  mc_runtime_task_id :: string
  mc_updates :: pydict
  mc_conflicts :: "(string \<times> pydict) list"

record migration_report =
  mr_dry_run :: bool
  mr_scanned_work_items :: nat
  mr_changed_work_items :: nat
  mr_changes :: "migration_change list"
  mr_issues :: "ownership_issue list"

definition conflict_issues :: "string \<Rightarrow> string \<Rightarrow> (string \<times> pydict) list \<Rightarrow> ownership_issue list" where
  "conflict_issues wid tid conflicts =
     map (\<lambda>(key, details). ownership_issue_of ''metadata_ownership_conflict'' key OWN_WORK_ITEM wid tid
            (''WorkItem-owned metadata '' @ quoted_key key @ '' conflicts during migration; WorkItem wins.'')
            details) conflicts"

fun migrate_items ::
  "store hook list \<Rightarrow> bool \<Rightarrow> int \<Rightarrow> work_item list \<Rightarrow> store
     \<Rightarrow> (migration_change list \<times> ownership_issue list) result \<times> store" where
  "migrate_items hooks dry_run now [] st = (Inr ([], []), st)"
| "migrate_items hooks dry_run now (i # rest) st =
     (let wid = py_strip (wi_work_item_id i)
      in case (if wid = [] then None else get_runtime_task_for_work_item st wid) of
           None \<Rightarrow> migrate_items hooks dry_run now rest st
         | Some t \<Rightarrow>
             (let updates = legacy_updates (wi_metadata i) (tk_metadata t);
                  conflicts = migration_conflicts (wi_metadata i) (tk_metadata t);
                  tid = py_strip (tk_id t);
                  changes = (if updates = [] then []
                             else [\<lparr>mc_work_item_id = wid, mc_runtime_task_id = tid, mc_updates = updates,
                                    mc_conflicts = conflicts\<rparr>])
              in case (if updates \<noteq> [] \<and> \<not> dry_run
                       then update_delegation_work_item hooks st wid (no_update\<lparr>up_metadata := updates\<rparr>) now
                       else (Inr None, st)) of
                   (Inl e, st') \<Rightarrow> (Inl e, st')
                 | (Inr _, st') \<Rightarrow>
                     (case migrate_items hooks dry_run now rest st' of
                        (Inl e, st'') \<Rightarrow> (Inl e, st'')
                      | (Inr (cs, iss), st'') \<Rightarrow>
                          (Inr (changes @ cs, conflict_issues wid tid conflicts @ iss), st''))))"

definition migrated_items :: "store \<Rightarrow> string option \<Rightarrow> string list option \<Rightarrow> work_item list" where
  "migrated_items st run_id work_item_ids =
     (case work_item_ids of
        Some ids \<Rightarrow> concat (map (\<lambda>raw. let wid = py_strip raw
                                     in if wid = [] then [] else case get_item st wid of None \<Rightarrow> [] | Some i \<Rightarrow> [i]) ids)
      | None \<Rightarrow>
          (case run_id of
             None \<Rightarrow> []
           | Some r \<Rightarrow> if r = [] then [] else list_delegation_work_items st (py_strip r)))"

definition migrate_work_item_owned_metadata_from_linked_tasks ::
  "store hook list \<Rightarrow> store \<Rightarrow> string option \<Rightarrow> string list option \<Rightarrow> bool \<Rightarrow> int
     \<Rightarrow> migration_report result \<times> store" where
  "migrate_work_item_owned_metadata_from_linked_tasks hooks st run_id work_item_ids dry_run now =
     (let items = migrated_items st run_id work_item_ids
      in case migrate_items hooks dry_run now items st of
           (Inl e, st') \<Rightarrow> (Inl e, st')
         | (Inr (changes, issues), st') \<Rightarrow>
             (Inr \<lparr>mr_dry_run = dry_run, mr_scanned_work_items = length items,
                   mr_changed_work_items = length changes, mr_changes = changes, mr_issues = issues\<rparr>, st'))"

section \<open>Facts about the matrix\<close>

lemma find_SomeD: "find P xs = Some x \<Longrightarrow> x \<in> set xs \<and> P x"
  by (induction xs) (auto split: if_splits)

lemma spec_in_list: "METADATA_FIELD_SPECS k = Some s \<Longrightarrow> s \<in> set all_field_specs \<and> fs_key s = k"
  using find_SomeD[of "\<lambda>s. fs_key s = k" "rev all_field_specs" s] by (simp add: METADATA_FIELD_SPECS_def)

lemma keys_where_iff: "k \<in> set (keys_where P) \<longleftrightarrow> (\<exists>s. METADATA_FIELD_SPECS k = Some s \<and> P s)"
  unfolding keys_where_def using spec_in_list[of k] by (auto split: option.splits)

lemma owned_key_iff:
  "k \<in> set WORK_ITEM_OWNED_KEYS \<longleftrightarrow> (\<exists>s. METADATA_FIELD_SPECS k = Some s \<and> fs_owner s = OWN_WORK_ITEM)"
  "k \<in> set RUNTIME_TASK_OWNED_KEYS \<longleftrightarrow> (\<exists>s. METADATA_FIELD_SPECS k = Some s \<and> fs_owner s = OWN_RUNTIME_TASK)"
  "k \<in> set EXECUTION_COPY_KEYS \<longleftrightarrow>
     (\<exists>s. METADATA_FIELD_SPECS k = Some s \<and> (fs_owner s = OWN_EXECUTION_COPY \<or> allows_task_execution_copy s))"
  by (simp_all add: WORK_ITEM_OWNED_KEYS_def RUNTIME_TASK_OWNED_KEYS_def EXECUTION_COPY_KEYS_def keys_where_iff)

text \<open>Every key is trimmed, and none is one the store keeps for itself.\<close>

definition plain_key :: "string \<Rightarrow> bool" where
  "plain_key k \<longleftrightarrow>
     py_strip k = k \<and> k \<notin> set DELEGATE_WORK_RESERVED_METADATA_KEYS \<and>
     k \<notin> {''claimed_by_role_session_id'', ''claimed_task_id'', ''work_item_projection_id'', ''work_item_turn_type''}"

lemma plain_specs: "list_all (\<lambda>s. plain_key (fs_key s)) all_field_specs"
  by code_simp

lemma spec_plain: "METADATA_FIELD_SPECS k = Some s \<Longrightarrow> plain_key k"
  using plain_specs spec_in_list[of k s] by (auto simp: list_all_iff)

lemma owned_plain: "k \<in> set WORK_ITEM_OWNED_KEYS \<Longrightarrow> plain_key k"
  by (auto simp: owned_key_iff intro: spec_plain)

lemma copy_key_iff: "k \<in> set WORK_ITEM_OWNED_KEYS \<Longrightarrow> is_execution_copy_key k \<longleftrightarrow> k \<in> set EXECUTION_COPY_KEYS"
  using owned_plain[of k] by (simp add: is_execution_copy_key_def plain_key_def)

section \<open>Stripping a task\<close>

lemma dget_fold_dpop: "dget (fold dpop ks d) k = (if k \<in> set ks then PNone else dget d k)"
  by (induction ks arbitrary: d) auto

lemma stripped_metadata:
  "tk_metadata (snd (strip_disallowed_work_item_metadata_from_runtime_task t)) =
     fold dpop (disallowed_keys (tk_metadata t)) (tk_metadata t)"
  by (simp add: strip_disallowed_work_item_metadata_from_runtime_task_def Let_def)

lemma disallowed_key_iff:
  "k \<in> set (disallowed_keys md) \<longleftrightarrow> k \<in> set WORK_ITEM_OWNED_KEYS \<and> k \<notin> set EXECUTION_COPY_KEYS \<and> dhas md k"
  by (auto simp: disallowed_keys_def)

lemma work_item_issue_cases:
  assumes "x \<in> set (work_item_key_issue item_md task_md wid tid key)"
  shows "dhas task_md key \<and> oi_key x = key \<and> oi_owner x = ''work_item'' \<and>
     (oi_code x = ''metadata_ownership_violation'' \<and> \<not> (dhas item_md key \<and> has_value (dget item_md key)) \<or>
      oi_code x = ''metadata_ownership_conflict'' \<and> \<not> is_execution_copy_key key)"
  using assms by (auto simp: work_item_key_issue_def ownership_issue_of_def split: if_splits)

lemma task_issue_cases:
  "x \<in> set (task_key_issue item_md wid tid key) \<Longrightarrow>
   oi_owner x = ''runtime_task'' \<and> oi_code x = ''metadata_ownership_violation'' \<and> oi_key x = key"
  by (auto simp: task_key_issue_def ownership_issue_of_def split: if_splits)

text \<open>
  Stripping a task takes away exactly the work-item-owned keys that are no execution copies
  and keeps every other entry.  Stripping again removes nothing, and the diagnostics of the
  stripped task report no conflict any more: what is left to report of the work item's keys
  are execution copies that the card does not carry.
\<close>

theorem stripped_task_has_no_conflicts:
  fixes t :: task and i :: work_item
  defines "t' \<equiv> snd (strip_disallowed_work_item_metadata_from_runtime_task t)"
  shows "(\<forall>k. dhas (tk_metadata t') k \<longleftrightarrow>
            dhas (tk_metadata t) k \<and> (k \<in> set WORK_ITEM_OWNED_KEYS \<longrightarrow> k \<in> set EXECUTION_COPY_KEYS)) \<and>
     (\<forall>k. dhas (tk_metadata t') k \<longrightarrow> dget (tk_metadata t') k = dget (tk_metadata t) k) \<and>
     strip_disallowed_work_item_metadata_from_runtime_task t' = ([], t') \<and>
     (\<forall>x\<in>set (validate_metadata_ownership (Some i) (Some t')).
        oi_code x = ''metadata_ownership_violation'' \<and>
        (oi_owner x = ''work_item'' \<longrightarrow>
           oi_key x \<in> set EXECUTION_COPY_KEYS \<and>
           \<not> (dhas (wi_metadata i) (oi_key x) \<and> has_value (dget (wi_metadata i) (oi_key x)))))"
proof -
  have md: "tk_metadata t' = fold dpop (disallowed_keys (tk_metadata t)) (tk_metadata t)"
    unfolding t'_def by (rule stripped_metadata)
  have keys: "dhas (tk_metadata t') k \<longleftrightarrow>
      dhas (tk_metadata t) k \<and> (k \<in> set WORK_ITEM_OWNED_KEYS \<longrightarrow> k \<in> set EXECUTION_COPY_KEYS)" for k
    by (auto simp: md dhas_fold_dpop disallowed_key_iff)
  have vals: "dhas (tk_metadata t') k \<Longrightarrow> dget (tk_metadata t') k = dget (tk_metadata t) k" for k
    unfolding md dhas_fold_dpop dget_fold_dpop by simp
  have "disallowed_keys (tk_metadata t') = []"
    using keys by (auto simp: disallowed_keys_def filter_empty_conv)
  then have again: "strip_disallowed_work_item_metadata_from_runtime_task t' = ([], t')"
    by (simp add: strip_disallowed_work_item_metadata_from_runtime_task_def)
  have "oi_code x = ''metadata_ownership_violation'' \<and> (oi_owner x = ''work_item'' \<longrightarrow>
           oi_key x \<in> set EXECUTION_COPY_KEYS \<and>
           \<not> (dhas (wi_metadata i) (oi_key x) \<and> has_value (dget (wi_metadata i) (oi_key x))))"
    if "x \<in> set (validate_metadata_ownership (Some i) (Some t'))" for x
  proof -
    from that consider
        (item) k wid tid where "k \<in> set WORK_ITEM_OWNED_KEYS"
          "x \<in> set (work_item_key_issue (wi_metadata i) (tk_metadata t') wid tid k)"
      | (task) k wid tid where "x \<in> set (task_key_issue (wi_metadata i) wid tid k)"
      by (auto simp: validate_metadata_ownership_def Let_def)
    then show ?thesis
    proof cases
      case item
      note c = work_item_issue_cases[OF item(2)]
      with keys[of k] item(1) have "k \<in> set EXECUTION_COPY_KEYS" by blast
      with c copy_key_iff[OF item(1)] show ?thesis by blast
    next
      case task
      from task_issue_cases[OF this] show ?thesis by simp
    qed
  qed
  with keys vals again show ?thesis by blast
qed

section \<open>The backfill lets the work item win\<close>

definition keeps_owned_values :: "store \<Rightarrow> store \<Rightarrow> bool" where
  "keeps_owned_values st st' \<longleftrightarrow>
     (\<forall>wid i k. get_item st wid = Some i \<longrightarrow> k \<in> set WORK_ITEM_OWNED_KEYS \<longrightarrow> has_value (dget (wi_metadata i) k) \<longrightarrow>
        (\<exists>j. get_item st' wid = Some j \<and> dget (wi_metadata j) k = dget (wi_metadata i) k))"

definition rows_named :: "store \<Rightarrow> bool" where
  "rows_named st \<longleftrightarrow>
     distinct (map wi_work_item_id (st_items st)) \<and>
     list_all (\<lambda>i. py_strip (wi_work_item_id i) = wi_work_item_id i) (st_items st)"

lemma legacy_updates_keys:
  "fst ` set (legacy_updates item_md task_md) \<subseteq> {k. k \<in> set WORK_ITEM_OWNED_KEYS \<and> \<not> has_value (dget item_md k)}"
  by (auto simp: legacy_updates_def dest: dget_not_dhas simp: has_value_def)

lemma update_keeps:
  assumes call: "update_delegation_work_item hooks st wid (no_update\<lparr>up_metadata := u\<rparr>) now = (r, st')"
    and hooks: "hooks_keep (keeps_owned_values st0) hooks" and kept: "keeps_owned_values st0 st"
    and free: "\<And>i k. get_item st0 wid = Some i \<Longrightarrow> k \<in> set WORK_ITEM_OWNED_KEYS \<Longrightarrow>
                 has_value (dget (wi_metadata i) k) \<Longrightarrow> k \<notin> fst ` set u"
  shows "keeps_owned_values st0 st'"
  using call
proof (cases rule: update_cases)
  case (written i j)
  have "keeps_owned_values st0 (put_item st j)"
    unfolding keeps_owned_values_def
  proof (intro allI impI)
    fix w i0 k
    assume row: "get_item st0 w = Some i0" "k \<in> set WORK_ITEM_OWNED_KEYS" "has_value (dget (wi_metadata i0) k)"
    with kept obtain cur where cur: "get_item st w = Some cur" "dget (wi_metadata cur) k = dget (wi_metadata i0) k"
      unfolding keeps_owned_values_def by blast
    show "\<exists>j'. get_item (put_item st j) w = Some j' \<and> dget (wi_metadata j') k = dget (wi_metadata i0) k"
    proof (cases "w = wid")
      case True
      from owned_plain[OF row(2)] have "dget (wi_metadata j) k = dget (dupdate (wi_metadata i) u) k"
        using written(8)[of k] by (simp add: plain_key_def no_update_def)
      moreover have "k \<notin> fst ` set u" using free row True by blast
      ultimately have "dget (wi_metadata j) k = dget (wi_metadata i) k" by (simp add: dget_dupdate_other)
      with True cur written(1,2) show ?thesis by simp
    next
      case False
      with cur written(2) show ?thesis by simp
    qed
  qed
  from on_phase_transition_keep[OF hooks this] show ?thesis by (simp add: written(5))
qed (use kept in simp_all)

lemma migrate_items_keep:
  assumes "migrate_items hooks dry now items st = (r, st')"
    and "hooks_keep (keeps_owned_values st0) hooks" and "keeps_owned_values st0 st"
    and "\<And>i. i \<in> set items \<Longrightarrow> get_item st0 (wi_work_item_id i) = Some i \<and> py_strip (wi_work_item_id i) = wi_work_item_id i"
  shows "keeps_owned_values st0 st' \<and> (dry \<longrightarrow> st' = st)"
  using assms
proof (induction hooks dry now items st arbitrary: r st' rule: migrate_items.induct)
  case (1 hooks dry now st)
  then show ?case by simp
next
  case (2 hooks dry now i rest st)
  let ?wid = "py_strip (wi_work_item_id i)"
  note row = 2(6)[of i, simplified]
  show ?case
  proof (cases "if ?wid = [] then None else get_runtime_task_for_work_item st ?wid")
    case None
    then have "migrate_items hooks dry now rest st = (r, st')" using 2(3) by (simp add: Let_def)
    with 2(1)[OF refl None _ 2(4,5) 2(6)] show ?thesis by simp
  next
    case (Some t)
    let ?u = "legacy_updates (wi_metadata i) (tk_metadata t)"
    let ?put = "if ?u \<noteq> [] \<and> \<not> dry then update_delegation_work_item hooks st ?wid (no_update\<lparr>up_metadata := ?u\<rparr>) now
                  else (Inr None, st)"
    obtain q s1 where w: "?put = (q, s1)" by (cases ?put) blast
    have "k \<notin> fst ` set ?u" if "get_item st0 ?wid = Some i0" "k \<in> set WORK_ITEM_OWNED_KEYS"
      "has_value (dget (wi_metadata i0) k)" for i0 k
      using that row legacy_updates_keys[of "wi_metadata i" "tk_metadata t"] by auto
    then have kept: "keeps_owned_values st0 s1"
      using update_keeps[OF _ 2(4,5)] w 2(5) by (auto split: if_splits)
    have dry: "dry \<Longrightarrow> s1 = st" using w by simp
    show ?thesis
    proof (cases q)
      case (Inl e)
      with 2(3) Some w have "st' = s1" by (simp add: Let_def)
      with kept dry show ?thesis by simp
    next
      case (Inr y)
      obtain r2 s2 where rest: "migrate_items hooks dry now rest s1 = (r2, s2)" by (rule prod.exhaust)
      have "st' = s2" using 2(3) Some w Inr rest by (auto simp: Let_def split: sum.splits prod.splits)
      moreover have "keeps_owned_values st0 s2 \<and> (dry \<longrightarrow> s2 = s1)"
        by (rule 2(2)[OF refl Some refl refl refl refl w[symmetric] Inr rest 2(4) kept 2(6)]) simp
      ultimately show ?thesis using dry by simp
    qed
  qed
qed

lemma listed_items:
  assumes "rows_named st" "i \<in> set (migrated_items st run_id ids)"
  shows "get_item st (wi_work_item_id i) = Some i \<and> py_strip (wi_work_item_id i) = wi_work_item_id i"
proof -
  have stored: "i \<in> set (st_items st)"
    using assms(2) by (auto simp: migrated_items_def list_delegation_work_items_def get_item_def Let_def
        dest!: find_SomeD[OF sym] split: option.splits if_splits)
  have "get_item st (wi_work_item_id i) = Some i"
  proof -
    from stored have "get_item st (wi_work_item_id i) \<noteq> None" unfolding get_item_not_None by (rule imageI)
    then obtain j where j: "get_item st (wi_work_item_id i) = Some j" by blast
    then have "j \<in> set (st_items st)" "wi_work_item_id j = wi_work_item_id i"
      using find_SomeD[of "\<lambda>j. wi_work_item_id j = wi_work_item_id i" "st_items st" j] by (simp_all add: get_item_def)
    with stored assms(1) have "j = i" by (auto simp: rows_named_def distinct_map dest: inj_onD)
    with j show ?thesis by simp
  qed
  with stored assms(1) show ?thesis by (simp add: rows_named_def list_all_iff)
qed

text \<open>
  The backfill never overwrites: whatever it does, every work-item-owned key that has a value
  on a card keeps it, and a dry run writes nothing.  What it fills in for a card is the task's
  value, only under keys with a legacy fallback, and a second pass over the filled card has
  nothing left to fill.
\<close>

theorem backfill_never_overwrites:
  assumes "rows_named st" and "hooks_keep (keeps_owned_values st) hooks"
    and "migrate_work_item_owned_metadata_from_linked_tasks hooks st run_id ids dry now = (r, st')"
  shows "keeps_owned_values st st' \<and> (dry \<longrightarrow> st' = st) \<and>
     (\<forall>(k, v)\<in>set (legacy_updates item_md task_md). v = dget task_md k \<and> has_value v \<and> supports_legacy_task_fallback k) \<and>
     legacy_updates (dupdate item_md (legacy_updates item_md task_md)) task_md = []"
proof -
  have start: "keeps_owned_values st st" by (auto simp: keeps_owned_values_def)
  obtain q where run: "migrate_items hooks dry now (migrated_items st run_id ids) st = (q, st')"
    using assms(3) by (auto simp: migrate_work_item_owned_metadata_from_linked_tasks_def Let_def
        split: prod.splits sum.splits)
  from migrate_items_keep[OF run assms(2) start listed_items[OF assms(1), of _ run_id ids]]
  have "keeps_owned_values st st' \<and> (dry \<longrightarrow> st' = st)" by blast
  moreover have "\<forall>(k, v)\<in>set (legacy_updates item_md task_md). v = dget task_md k \<and> has_value v \<and>
      supports_legacy_task_fallback k"
    by (auto simp: legacy_updates_def)
  moreover have "legacy_updates (dupdate item_md (legacy_updates item_md task_md)) task_md = []"
  proof -
    let ?u = "legacy_updates item_md task_md"
    have filled: "dget (dupdate item_md ?u) k = dget task_md k" if "k \<in> fst ` set ?u" for k
    proof -
      have "map_of (rev ?u) k = Some (dget task_md k)"
      proof -
        have "map_of (rev ?u) k \<noteq> None" using that by (simp add: map_of_eq_None_iff)
        then obtain v where "map_of (rev ?u) k = Some v" by blast
        with map_of_SomeD[OF this] show ?thesis by (auto simp: legacy_updates_def)
      qed
      then show ?thesis by (simp add: dget_def map_of_dupdate)
    qed
    have "dhas (dupdate item_md ?u) k \<and> has_value (dget (dupdate item_md ?u) k)"
      if "k \<in> set WORK_ITEM_OWNED_KEYS" "dhas task_md k" "has_value (dget task_md k)" "supports_legacy_task_fallback k" for k
    proof (cases "dhas item_md k \<and> has_value (dget item_md k)")
      case True
      then have "k \<notin> fst ` set ?u" by (auto simp: legacy_updates_def)
      with True show ?thesis by (simp add: dget_dupdate_other)
    next
      case False
      with that have "(k, dget task_md k) \<in> set ?u" by (auto simp: legacy_updates_def)
      then have "k \<in> fst ` set ?u" by force
      moreover from this have "dhas ?u k" unfolding dhas_iff .
      ultimately show ?thesis using filled that by simp
    qed
    then show ?thesis by (auto simp: legacy_updates_def[of "dupdate item_md ?u"] filter_empty_conv)
  qed
  ultimately show ?thesis by blast
qed

text \<open>A card that knows its own turn mode, linked to a task of the time before the split.\<close>

definition legacy_card :: work_item where
  "legacy_card = (new_work_item ''w'')\<lparr>wi_metadata := [(''current_turn_mode'', PStr ''worker_execute'')]\<rparr>"

definition legacy_task :: task where
  "legacy_task = (new_task ''t'')\<lparr>tk_metadata :=
     [(''current_turn_mode'', PStr ''manager_decide''), (''progress_log'', PList [PStr ''started''])]\<rparr>"

definition legacy_store :: store where
  "legacy_store = empty_store\<lparr>st_items := [legacy_card], st_tasks := [legacy_task], st_links := [(''w'', ''t'')]\<rparr>"

lemma mode_owned: "''current_turn_mode'' \<in> set WORK_ITEM_OWNED_KEYS"
proof -
  have "map_option fs_owner (METADATA_FIELD_SPECS ''current_turn_mode'') = Some OWN_WORK_ITEM" by code_simp
  then show ?thesis by (auto simp: owned_key_iff)
qed

lemma backfill_never_overwrites_witness:
  "\<exists>r st' j. migrate_work_item_owned_metadata_from_linked_tasks [] legacy_store None (Some [''w'']) False 5 = (r, st') \<and>
     get_item st' ''w'' = Some j \<and> dget (wi_metadata j) ''current_turn_mode'' = PStr ''worker_execute''"
proof -
  obtain r st' where run:
    "migrate_work_item_owned_metadata_from_linked_tasks [] legacy_store None (Some [''w'']) False 5 = (r, st')"
    by (rule prod.exhaust)
  have "rows_named legacy_store" by code_simp
  from backfill_never_overwrites[OF this hooks_keep_Nil run] have "keeps_owned_values legacy_store st'" by blast
  moreover have "get_item legacy_store ''w'' = Some legacy_card" by code_simp
  moreover have mode: "dget (wi_metadata legacy_card) ''current_turn_mode'' = PStr ''worker_execute''"
    by (simp add: legacy_card_def)
  moreover have "has_value (dget (wi_metadata legacy_card) ''current_turn_mode'')" by (simp add: mode has_value_def)
  ultimately have "\<exists>j. get_item st' ''w'' = Some j \<and>
      dget (wi_metadata j) ''current_turn_mode'' = dget (wi_metadata legacy_card) ''current_turn_mode''"
    using mode_owned unfolding keeps_owned_values_def by blast
  with run mode show ?thesis by auto
qed

lemma progress_log_spec:
  "''progress_log'' \<in> set WORK_ITEM_OWNED_KEYS \<and> ''progress_log'' \<notin> set EXECUTION_COPY_KEYS"
proof -
  have "METADATA_FIELD_SPECS ''progress_log'' =
      Some (field_spec_of ''progress_log'' OWN_WORK_ITEM [''work_item'', ''task_legacy_read''] True ''backfill_if_missing'')"
    by code_simp
  then show ?thesis by (simp add: owned_key_iff field_spec_of_def allows_task_execution_copy_def)
qed

lemma stripped_task_has_no_conflicts_witness:
  "\<not> dhas (tk_metadata (snd (strip_disallowed_work_item_metadata_from_runtime_task legacy_task))) ''progress_log'' \<and>
   disallowed_keys (tk_metadata (snd (strip_disallowed_work_item_metadata_from_runtime_task legacy_task))) = [] \<and>
   dhas (tk_metadata legacy_task) ''progress_log''"
proof -
  let ?t = "snd (strip_disallowed_work_item_metadata_from_runtime_task legacy_task)"
  have "strip_disallowed_work_item_metadata_from_runtime_task ?t = ([], ?t)"
    using stripped_task_has_no_conflicts[of legacy_task legacy_card] by blast
  then have "disallowed_keys (tk_metadata ?t) = []"
    by (simp add: strip_disallowed_work_item_metadata_from_runtime_task_def[of ?t] Let_def split: if_splits)
  moreover have "\<not> dhas (tk_metadata ?t) ''progress_log''"
    using stripped_task_has_no_conflicts[of legacy_task legacy_card] progress_log_spec by blast
  ultimately show ?thesis by (simp add: legacy_task_def)
qed

end
