(* ===== verification/RuntimeInvariants.thy ===== *)
theory RuntimeInvariants
  imports MetadataOwnership
begin

text \<open>
  \<open>opc/layer2_organization/work_item_runtime_invariants.py\<close>: the diagnostics that compare the
  runtime tasks of a company run with the cards they project.  An issue list is the
  concatenation of the lists its checks append, in the order of the checks.
\<close>

section \<open>Issues\<close>

record invariant_issue =
  ii_code :: string
  ii_severity :: string
  ii_run_id :: string
  ii_work_item_id :: string
  ii_runtime_task_id :: string
  ii_projection_id :: string
  ii_message :: string
  ii_details :: pydict

definition fingerprint :: "invariant_issue \<Rightarrow> string \<times> string \<times> string \<times> string" where
  "fingerprint x =
     (py_strip (ii_code x), py_strip (ii_work_item_id x), py_strip (ii_runtime_task_id x),
      py_strip (ii_projection_id x))"

definition to_event_payload :: "invariant_issue \<Rightarrow> pydict" where
  "to_event_payload x =
     [(''code'', PStr (ii_code x)), (''severity'', PStr (ii_severity x)), (''run_id'', PStr (ii_run_id x)),
      (''work_item_id'', PStr (ii_work_item_id x)), (''runtime_task_id'', PStr (ii_runtime_task_id x)),
      (''projection_id'', PStr (ii_projection_id x)), (''message'', PStr (ii_message x))] @
     (if ii_details x \<noteq> [] then [(''details'', PDict (ii_details x))] else [])"

definition RUNTIME_MODELS :: "string list" where
  "RUNTIME_MODELS = [''multi_team_org'']"

definition AUXILIARY_TURN_KINDS :: "string list" where
  "AUXILIARY_TURN_KINDS = [''review'', ''report'', ''followup'', ''follow_up'', ''delivery'', ''deliver'']"

definition HIDDEN_RUNNABLE_TURN_KINDS :: "string list" where
  "HIDDEN_RUNNABLE_TURN_KINDS = AUXILIARY_TURN_KINDS @ [''aggregate'', ''synthesize'']"

fun phase_value_text :: "phase_arg \<Rightarrow> string" where
  "phase_value_text (PhaseArg p) = phase_value p"
| "phase_value_text (PhaseText s) = py_lower (py_strip s)"
| "phase_value_text (PhaseOther v) = clean_lower v"

fun is_done_phase :: "phase_arg \<Rightarrow> bool" where
  "is_done_phase (PhaseArg p) \<longleftrightarrow> p \<in> DONE_PHASES"
| "is_done_phase v \<longleftrightarrow> phase_value_text v \<in> phase_value ` DONE_PHASES"

definition runtime_model_of :: "pydict \<Rightarrow> string" where
  "runtime_model_of md = clean_lower (py_or (dget md ''runtime_model'') (dget md ''execution_model''))"

definition turn_kind :: "pydict \<Rightarrow> string \<Rightarrow> string" where
  "turn_kind md fallback =
     (let turn = normalize_work_item_turn_type (dget md ''work_item_turn_type'') [];
          kind = canonical_work_item_turn_type_for_kind (dget md ''work_kind'') [];
          delegation = canonical_work_item_turn_type_for_kind (dget md ''delegation_turn_kind'') []
      in if turn \<noteq> [] then turn else if kind \<noteq> [] then kind else if delegation \<noteq> [] then delegation
         else canonical_work_item_turn_type_for_kind (PStr fallback) [])"

definition task_projection_id :: "task option \<Rightarrow> string" where
  "task_projection_id t =
     (case t of None \<Rightarrow> [] | Some x \<Rightarrow> work_item_projection_id_from_metadata (tk_metadata x) (py_strip (tk_id x)))"

definition first_text :: "string list \<Rightarrow> string" where
  "first_text xs = (case filter (\<lambda>s. s \<noteq> []) xs of [] \<Rightarrow> [] | x # _ \<Rightarrow> x)"

definition issue_of ::
  "string \<Rightarrow> string \<Rightarrow> task option \<Rightarrow> work_item option \<Rightarrow> string \<Rightarrow> string \<Rightarrow> string \<Rightarrow> pydict \<Rightarrow> invariant_issue" where
  "issue_of code severity t item work_item_id projection_id message details =
     (let item_md = (case item of None \<Rightarrow> [] | Some i \<Rightarrow> wi_metadata i);
          task_md = (case t of None \<Rightarrow> [] | Some x \<Rightarrow> tk_metadata x)
      in \<lparr>ii_code = code, ii_severity = severity,
          ii_run_id = first_text [case item of None \<Rightarrow> [] | Some i \<Rightarrow> py_strip (wi_run_id i),
                                  clean (dget item_md ''delegation_run_id''),
                                  clean (dget task_md ''delegation_run_id'')],
          ii_work_item_id = first_text [py_strip work_item_id,
                                        case item of None \<Rightarrow> [] | Some i \<Rightarrow> py_strip (wi_work_item_id i),
                                        linked_work_item_id_for_task t],
          ii_runtime_task_id = (case t of None \<Rightarrow> [] | Some x \<Rightarrow> py_strip (tk_id x)),
          ii_projection_id = first_text [py_strip projection_id, task_projection_id t,
                                         case item of None \<Rightarrow> [] | Some i \<Rightarrow> projection_id_for_work_item i],
          ii_message = message, ii_details = details\<rparr>)"

section \<open>What a projection should carry\<close>

definition is_company_runtime_projection_task :: "task option \<Rightarrow> bool" where
  "is_company_runtime_projection_task t \<longleftrightarrow>
     (case t of
        None \<Rightarrow> False
      | Some x \<Rightarrow>
          let md = tk_metadata x; model = runtime_model_of md
          in is_work_item_runtime_metadata md \<and>
             \<not> truthy (py_or (dget md ''synthetic_inbox_turn'') (dget md ''synthetic_company_inbox'')) \<and>
             (model = [] \<or> model \<in> set RUNTIME_MODELS) \<and>
             work_item_projection_id_from_metadata md [] \<noteq> [])"

definition expected_work_kind :: "work_item option \<Rightarrow> string" where
  "expected_work_kind item =
     (case item of
        None \<Rightarrow> []
      | Some i \<Rightarrow>
          first_text [turn_kind (wi_metadata i) (first_text [py_strip (wi_kind i), ''execute'']), ''execute''])"

definition expected_role_id :: "work_item option \<Rightarrow> string" where
  "expected_role_id item = (case item of None \<Rightarrow> [] | Some i \<Rightarrow> py_strip (wi_role_id i))"

definition expected_seat_id :: "work_item option \<Rightarrow> string" where
  "expected_seat_id item =
     (case item of None \<Rightarrow> [] | Some i \<Rightarrow> first_text [py_strip (wi_seat_id i), clean (dget (wi_metadata i) ''seat_id'')])"

definition expected_turn_mode :: "work_item option \<Rightarrow> string" where
  "expected_turn_mode item =
     (case item of None \<Rightarrow> [] | Some i \<Rightarrow> clean (dget (wi_metadata i) ''current_turn_mode''))"

section \<open>The checks of a projection\<close>

definition differs :: "string \<Rightarrow> string \<Rightarrow> bool" where
  "differs expected actual \<longleftrightarrow> expected \<noteq> [] \<and> actual \<noteq> [] \<and> actual \<noteq> expected"

definition text_details :: "(string \<times> string) list \<Rightarrow> pydict" where
  "text_details = map (\<lambda>(k, s). (k, PStr s))"

definition link_issues :: "task \<Rightarrow> work_item \<Rightarrow> invariant_issue list" where
  "link_issues t i =
     (let expected = py_strip (wi_work_item_id i); linked = linked_work_item_id_for_task (Some t)
      in if differs expected linked then
           [issue_of ''link_work_item_mismatch'' ''error'' (Some t) (Some i) linked (task_projection_id (Some t))
              ''Runtime task link points at a different WorkItem than the supplied WorkItem.''
              (text_details [(''expected_work_item_id'', expected), (''linked_work_item_id'', linked)])]
         else [])"

definition projection_issues :: "task \<Rightarrow> work_item \<Rightarrow> invariant_issue list" where
  "projection_issues t i =
     (let expected = projection_id_for_work_item i; actual = task_projection_id (Some t)
      in if differs expected actual then
           [issue_of ''projection_mismatch'' ''warning'' (Some t) (Some i) [] actual
              ''Runtime task projection id differs from the WorkItem projection id.''
              (text_details [(''expected_projection_id'', expected), (''task_projection_id'', actual)])]
         else [])"

definition task_work_kind :: "task \<Rightarrow> work_item \<Rightarrow> string" where
  "task_work_kind t i =
     turn_kind (tk_metadata t) (first_text [clean_lower (dget (tk_metadata t) ''work_kind''), expected_work_kind (Some i)])"

definition kind_issues :: "task \<Rightarrow> work_item \<Rightarrow> invariant_issue list" where
  "kind_issues t i =
     (let expected = expected_work_kind (Some i); actual = task_work_kind t i
      in if differs expected actual then
           [issue_of ''work_kind_mismatch'' ''error'' (Some t) (Some i) [] (task_projection_id (Some t))
              ''Runtime task turn kind differs from the WorkItem turn kind.''
              (text_details [(''expected_work_kind'', expected), (''task_work_kind'', actual)])]
         else [])"

definition task_role_id :: "task \<Rightarrow> string" where
  "task_role_id t = first_text [py_strip (tk_assigned_to t), clean (dget (tk_metadata t) ''work_item_role_id'')]"

definition task_seat_id :: "task \<Rightarrow> string" where
  "task_seat_id t = clean (py_or (dget (tk_metadata t) ''delegation_seat_id'') (dget (tk_metadata t) ''seat_id''))"

definition owner_issues :: "task \<Rightarrow> work_item \<Rightarrow> invariant_issue list" where
  "owner_issues t i =
     (let role = expected_role_id (Some i); seat = expected_seat_id (Some i)
      in (if differs role (task_role_id t) then
            [issue_of ''owner_role_mismatch'' ''error'' (Some t) (Some i) [] (task_projection_id (Some t))
               ''Runtime task owner role differs from the WorkItem role.''
               (text_details [(''expected_role_id'', role), (''task_role_id'', task_role_id t)])]
          else []) @
         (if differs seat (task_seat_id t) then
            [issue_of ''owner_seat_mismatch'' ''error'' (Some t) (Some i) [] (task_projection_id (Some t))
               ''Runtime task owner seat differs from the WorkItem seat.''
               (text_details [(''expected_seat_id'', seat), (''task_seat_id'', task_seat_id t)])]
          else []))"

definition turn_mode_issues :: "task \<Rightarrow> work_item \<Rightarrow> invariant_issue list" where
  "turn_mode_issues t i =
     (let expected = expected_turn_mode (Some i); kind = expected_work_kind (Some i);
          actual = clean (dget (tk_metadata t) ''current_turn_mode'')
      in if expected = [] then []
         else if actual \<noteq> [] \<and> actual \<noteq> expected then
           [issue_of ''turn_mode_mismatch'' ''error'' (Some t) (Some i) [] (task_projection_id (Some t))
              ''Runtime task current_turn_mode differs from the WorkItem mode.''
              (text_details [(''expected_turn_mode'', expected), (''task_turn_mode'', actual)])]
         else if actual = [] \<and> kind \<in> set AUXILIARY_TURN_KINDS then
           [issue_of ''turn_mode_missing'' ''warning'' (Some t) (Some i) [] (task_projection_id (Some t))
              ''Auxiliary runtime task is missing the WorkItem current_turn_mode execution copy.''
              (text_details [(''expected_turn_mode'', expected), (''work_kind'', kind)])]
         else [])"

definition review_owner_role :: "work_item \<Rightarrow> string" where
  "review_owner_role target =
     first_text [clean (dget (wi_metadata target) ''review_owner_role_id''), py_strip (wi_manager_role_id target)]"

definition review_owner_seat :: "work_item \<Rightarrow> string" where
  "review_owner_seat target =
     first_text [clean (dget (wi_metadata target) ''review_owner_seat_id''), py_strip (wi_manager_seat_id target)]"

definition review_owner_issues :: "task \<Rightarrow> work_item \<Rightarrow> work_item \<Rightarrow> invariant_issue list" where
  "review_owner_issues t i target =
     (let pid = task_projection_id (Some t);
          role = review_owner_role target; seat = review_owner_seat target;
          meta_role = clean (dget (wi_metadata i) ''review_owner_role_id'');
          meta_seat = clean (dget (wi_metadata i) ''review_owner_seat_id'')
      in (if role \<noteq> [] \<and> role \<noteq> expected_role_id (Some i) then
            [issue_of ''review_owner_mismatch'' ''error'' (Some t) (Some i) [] pid
               ''Review WorkItem owner role does not match the target WorkItem review owner.''
               (text_details [(''expected_review_role_id'', role),
                              (''review_work_item_role_id'', expected_role_id (Some i))])] else []) @
         (if seat \<noteq> [] \<and> seat \<noteq> expected_seat_id (Some i) then
            [issue_of ''review_owner_mismatch'' ''error'' (Some t) (Some i) [] pid
               ''Review WorkItem owner seat does not match the target WorkItem review owner.''
               (text_details [(''expected_review_seat_id'', seat),
                              (''review_work_item_seat_id'', expected_seat_id (Some i))])] else []) @
         (if differs role meta_role then
            [issue_of ''review_owner_metadata_mismatch'' ''warning'' (Some t) (Some i) [] pid
               ''Review WorkItem metadata owner role differs from the target review owner.''
               (text_details [(''expected_review_role_id'', role),
                              (''metadata_review_owner_role_id'', meta_role)])] else []) @
         (if differs seat meta_seat then
            [issue_of ''review_owner_metadata_mismatch'' ''warning'' (Some t) (Some i) [] pid
               ''Review WorkItem metadata owner seat differs from the target review owner.''
               (text_details [(''expected_review_seat_id'', seat),
                              (''metadata_review_owner_seat_id'', meta_seat)])] else []))"

definition review_issues :: "task \<Rightarrow> work_item \<Rightarrow> (string \<rightharpoonup> work_item) option \<Rightarrow> invariant_issue list" where
  "review_issues t i by_id =
     (let target_id = clean (dget (wi_metadata i) ''review_target_work_item_id'');
          found = (case by_id of None \<Rightarrow> None | Some m \<Rightarrow> m target_id)
      in if \<not> is_review_execution_work_item_metadata (wi_metadata i) then []
         else if target_id = [] then
           [issue_of ''review_target_missing'' ''error'' (Some t) (Some i) [] (task_projection_id (Some t))
              ''Review runtime WorkItem is missing review_target_work_item_id.'' []]
         else if by_id \<noteq> None \<and> found = None then
           [issue_of ''review_target_unresolved'' ''error'' (Some t) (Some i) [] (task_projection_id (Some t))
              ''Review runtime WorkItem target does not exist in the active WorkItem set.''
              (text_details [(''review_target_work_item_id'', target_id)])]
         else (case found of None \<Rightarrow> [] | Some target \<Rightarrow> review_owner_issues t i target))"

definition report_issues :: "task \<Rightarrow> work_item \<Rightarrow> (string \<rightharpoonup> work_item) option \<Rightarrow> invariant_issue list" where
  "report_issues t i by_id =
     (let target_id = clean (dget (wi_metadata i) ''report_target_work_item_id'')
      in if \<not> is_report_execution_work_item_metadata (wi_metadata i) then []
         else if target_id = [] then
           [issue_of ''report_target_missing'' ''error'' (Some t) (Some i) [] (task_projection_id (Some t))
              ''Report runtime WorkItem is missing report_target_work_item_id.'' []]
         else if (case by_id of None \<Rightarrow> False | Some m \<Rightarrow> m target_id = None) then
           [issue_of ''report_target_unresolved'' ''error'' (Some t) (Some i) [] (task_projection_id (Some t))
              ''Report runtime WorkItem target does not exist in the active WorkItem set.''
              (text_details [(''report_target_work_item_id'', target_id)])]
         else [])"

definition ownership_issues :: "task \<Rightarrow> work_item \<Rightarrow> invariant_issue list" where
  "ownership_issues t i =
     map (\<lambda>x. issue_of (oi_code x) (oi_severity x) (Some t) (Some i) [] (task_projection_id (Some t)) (oi_message x)
               (dupdate [(''metadata_key'', PStr (oi_key x)), (''owner'', PStr (oi_owner x))] (oi_details x)))
       (validate_metadata_ownership (Some i) (Some t))"

definition validate_work_item_runtime_projection ::
  "task \<Rightarrow> work_item option \<Rightarrow> (string \<rightharpoonup> work_item) option \<Rightarrow> invariant_issue list" where
  "validate_work_item_runtime_projection t item by_id =
     (if \<not> is_company_runtime_projection_task (Some t) then []
      else
        let linked = linked_work_item_id_for_task (Some t); pid = task_projection_id (Some t);
            missing_link =
              (if linked = [] then
                 [issue_of ''missing_link'' ''error'' (Some t) item [] pid
                    ''Company runtime projection task is not hydrated from work_item_runtime_links.'' []]
               else [])
        in case item of
             None \<Rightarrow>
               missing_link @
               [issue_of ''missing_work_item'' ''error'' (Some t) None linked pid
                  ''Company runtime projection task link does not resolve to a WorkItem.'' []]
           | Some i \<Rightarrow>
               missing_link @ link_issues t i @ projection_issues t i @ kind_issues t i @ owner_issues t i @
               turn_mode_issues t i @ review_issues t i by_id @ report_issues t i by_id @ ownership_issues t i)"

section \<open>The diagnosis of a run\<close>

definition work_item_expects_runtime_projection :: "work_item \<Rightarrow> bool" where
  "work_item_expects_runtime_projection i \<longleftrightarrow>
     (let md = wi_metadata i; model = runtime_model_of md
      in is_work_item_runtime_metadata md \<and> (model = [] \<or> model \<in> set RUNTIME_MODELS) \<and>
         \<not> is_done_phase (PhaseArg (wi_phase i)) \<and>
         (should_hide_work_item_from_company_kanban md \<longrightarrow>
            expected_work_kind (Some i) \<in> set HIDDEN_RUNNABLE_TURN_KINDS) \<and>
         projection_id_for_work_item i \<noteq> [])"

definition items_by_id :: "work_item list \<Rightarrow> (string \<rightharpoonup> work_item)" where
  "items_by_id items =
     fold (\<lambda>i m. let wid = py_strip (wi_work_item_id i) in if wid \<noteq> [] then m(wid \<mapsto> i) else m) items Map.empty"

definition linked_ids :: "task list \<Rightarrow> string set" where
  "linked_ids tasks =
     linked_work_item_id_for_task ` Some `
       set (filter (\<lambda>t. is_company_runtime_projection_task (Some t) \<and> linked_work_item_id_for_task (Some t) \<noteq> []) tasks)"

definition task_issues :: "work_item list \<Rightarrow> task \<Rightarrow> invariant_issue list" where
  "task_issues items t =
     (let linked = linked_work_item_id_for_task (Some t)
      in if \<not> is_company_runtime_projection_task (Some t) then []
         else validate_work_item_runtime_projection t (if linked \<noteq> [] then items_by_id items linked else None)
                (Some (items_by_id items)))"

definition unlinked_issues :: "task list \<Rightarrow> work_item \<Rightarrow> invariant_issue list" where
  "unlinked_issues tasks i =
     (let wid = py_strip (wi_work_item_id i)
      in if wid = [] \<or> wid \<in> linked_ids tasks \<or> \<not> work_item_expects_runtime_projection i then []
         else [issue_of ''work_item_missing_runtime_task'' ''error'' None (Some i) [] (projection_id_for_work_item i)
                 ''Non-terminal company WorkItem has no linked runtime Task projection after materialization.''
                 (text_details [(''phase'', phase_value_text (PhaseArg (wi_phase i))),
                                (''work_kind'', expected_work_kind (Some i))])])"

definition diagnose_work_item_runtime_projections :: "task list \<Rightarrow> work_item list \<Rightarrow> invariant_issue list" where
  "diagnose_work_item_runtime_projections tasks items =
     concat (map (task_issues items) tasks) @ concat (map (unlinked_issues tasks) items)"

section \<open>What the diagnosis promises\<close>

definition errors :: "invariant_issue list \<Rightarrow> invariant_issue list" where
  "errors xs = filter (\<lambda>x. ii_severity x = ''error'') xs"

text \<open>
  A card and the task that projects it agree: two texts do not differ when both are given, a
  review card has a target and its review owner, a report card has a target.
\<close>

definition agrees_with_card :: "(string \<rightharpoonup> work_item) \<Rightarrow> task \<Rightarrow> work_item \<Rightarrow> bool" where
  "agrees_with_card cards t i \<longleftrightarrow>
     \<not> differs (expected_work_kind (Some i)) (task_work_kind t i) \<and>
     \<not> differs (expected_role_id (Some i)) (task_role_id t) \<and>
     \<not> differs (expected_seat_id (Some i)) (task_seat_id t) \<and>
     \<not> differs (expected_turn_mode (Some i)) (clean (dget (tk_metadata t) ''current_turn_mode'')) \<and>
     (is_review_execution_work_item_metadata (wi_metadata i) \<longrightarrow>
        (\<exists>target. clean (dget (wi_metadata i) ''review_target_work_item_id'') \<noteq> [] \<and>
           cards (clean (dget (wi_metadata i) ''review_target_work_item_id'')) = Some target \<and>
           (review_owner_role target = [] \<or> review_owner_role target = expected_role_id (Some i)) \<and>
           (review_owner_seat target = [] \<or> review_owner_seat target = expected_seat_id (Some i)))) \<and>
     (is_report_execution_work_item_metadata (wi_metadata i) \<longrightarrow>
        clean (dget (wi_metadata i) ''report_target_work_item_id'') \<noteq> [] \<and>
        cards (clean (dget (wi_metadata i) ''report_target_work_item_id'')) \<noteq> None)"

definition run_agrees :: "task list \<Rightarrow> work_item list \<Rightarrow> bool" where
  "run_agrees tasks items \<longleftrightarrow>
     (\<forall>t\<in>set tasks. is_company_runtime_projection_task (Some t) \<longrightarrow>
        (\<exists>i\<in>set items. linked_work_item_id_for_task (Some t) \<noteq> [] \<and>
           py_strip (wi_work_item_id i) = linked_work_item_id_for_task (Some t) \<and>
           items_by_id items (linked_work_item_id_for_task (Some t)) = Some i \<and>
           agrees_with_card (items_by_id items) t i)) \<and>
     (\<forall>i\<in>set items. py_strip (wi_work_item_id i) \<noteq> [] \<longrightarrow> work_item_expects_runtime_projection i \<longrightarrow>
        (\<exists>t\<in>set tasks. is_company_runtime_projection_task (Some t) \<and>
           linked_work_item_id_for_task (Some t) = py_strip (wi_work_item_id i)))"

lemma severity_issue [simp]: "ii_severity (issue_of code severity t i w p m d) = severity"
  by (simp add: issue_of_def Let_def)

lemma errors_simps [simp]:
  "errors [] = []" "errors (xs @ ys) = errors xs @ errors ys"
  "errors (x # xs) = (if ii_severity x = ''error'' then x # errors xs else errors xs)"
  by (simp_all add: errors_def)

lemma errors_concat: "errors (concat xss) = [] \<longleftrightarrow> (\<forall>xs\<in>set xss. errors xs = [])"
  by (induction xss) auto

lemma ownership_severity: "x \<in> set (validate_metadata_ownership item t) \<Longrightarrow> oi_severity x = ''warning''"
  by (auto simp: validate_metadata_ownership_def work_item_key_issue_def task_key_issue_def ownership_issue_of_def
      Let_def split: if_splits)

lemma check_errors:
  "errors (link_issues t i) = [] \<longleftrightarrow>
     \<not> differs (py_strip (wi_work_item_id i)) (linked_work_item_id_for_task (Some t))"
  "errors (projection_issues t i) = []"
  "errors (kind_issues t i) = [] \<longleftrightarrow> \<not> differs (expected_work_kind (Some i)) (task_work_kind t i)"
  "errors (owner_issues t i) = [] \<longleftrightarrow>
     \<not> differs (expected_role_id (Some i)) (task_role_id t) \<and> \<not> differs (expected_seat_id (Some i)) (task_seat_id t)"
  "errors (turn_mode_issues t i) = [] \<longleftrightarrow>
     \<not> differs (expected_turn_mode (Some i)) (clean (dget (tk_metadata t) ''current_turn_mode''))"
  "errors (ownership_issues t i) = []"
  by (auto simp: link_issues_def projection_issues_def kind_issues_def owner_issues_def turn_mode_issues_def
      ownership_issues_def errors_def[of "map _ _"] filter_empty_conv differs_def Let_def dest: ownership_severity)

lemma review_errors:
  "errors (review_issues t i (Some cards)) = [] \<longleftrightarrow>
     (is_review_execution_work_item_metadata (wi_metadata i) \<longrightarrow>
        (\<exists>target. clean (dget (wi_metadata i) ''review_target_work_item_id'') \<noteq> [] \<and>
           cards (clean (dget (wi_metadata i) ''review_target_work_item_id'')) = Some target \<and>
           (review_owner_role target = [] \<or> review_owner_role target = expected_role_id (Some i)) \<and>
           (review_owner_seat target = [] \<or> review_owner_seat target = expected_seat_id (Some i))))"
  by (cases "cards (clean (dget (wi_metadata i) ''review_target_work_item_id''))")
     (auto simp: review_issues_def review_owner_issues_def Let_def)

lemma report_errors:
  "errors (report_issues t i (Some cards)) = [] \<longleftrightarrow>
     (is_report_execution_work_item_metadata (wi_metadata i) \<longrightarrow>
        clean (dget (wi_metadata i) ''report_target_work_item_id'') \<noteq> [] \<and>
        cards (clean (dget (wi_metadata i) ''report_target_work_item_id'')) \<noteq> None)"
  by (auto simp: report_issues_def Let_def)

lemma validated_errors:
  assumes "is_company_runtime_projection_task (Some t)"
  shows "errors (validate_work_item_runtime_projection t (Some i) (Some cards)) = [] \<longleftrightarrow>
     linked_work_item_id_for_task (Some t) \<noteq> [] \<and>
     \<not> differs (py_strip (wi_work_item_id i)) (linked_work_item_id_for_task (Some t)) \<and> agrees_with_card cards t i"
  using assms
  by (auto simp: validate_work_item_runtime_projection_def Let_def check_errors review_errors report_errors
      agrees_with_card_def)

lemma items_by_id_Some:
  "items_by_id items wid = Some i \<Longrightarrow> i \<in> set items \<and> py_strip (wi_work_item_id i) = wid"
proof -
  have "fold (\<lambda>i m. let wid = py_strip (wi_work_item_id i) in if wid \<noteq> [] then m(wid \<mapsto> i) else m) items m wid = Some i \<Longrightarrow>
      (i \<in> set items \<and> py_strip (wi_work_item_id i) = wid) \<or> m wid = Some i" for m
  proof (induction items arbitrary: m)
    case (Cons a items)
    let ?m = "let w = py_strip (wi_work_item_id a) in if w \<noteq> [] then m(w \<mapsto> a) else m"
    from Cons.IH[of ?m] Cons.prems have "i \<in> set items \<and> py_strip (wi_work_item_id i) = wid \<or> ?m wid = Some i"
      by simp
    then show ?case by (auto simp: Let_def split: if_splits)
  qed simp
  from this[of Map.empty] show "items_by_id items wid = Some i \<Longrightarrow> i \<in> set items \<and> py_strip (wi_work_item_id i) = wid"
    by (simp add: items_by_id_def)
qed

lemma task_errors:
  assumes "is_company_runtime_projection_task (Some t)"
  shows "errors (task_issues items t) = [] \<longleftrightarrow>
     (\<exists>i\<in>set items. linked_work_item_id_for_task (Some t) \<noteq> [] \<and>
        py_strip (wi_work_item_id i) = linked_work_item_id_for_task (Some t) \<and>
        items_by_id items (linked_work_item_id_for_task (Some t)) = Some i \<and>
        agrees_with_card (items_by_id items) t i)"
proof (cases "linked_work_item_id_for_task (Some t) = [] \<or> items_by_id items (linked_work_item_id_for_task (Some t)) = None")
  case True
  then show ?thesis using assms
    by (auto simp: task_issues_def validate_work_item_runtime_projection_def Let_def)
next
  case False
  then obtain i where i: "items_by_id items (linked_work_item_id_for_task (Some t)) = Some i" by blast
  from items_by_id_Some[OF this] False i show ?thesis using assms
    by (auto simp: task_issues_def Let_def validated_errors differs_def)
qed

lemma in_linked_ids:
  "wid \<in> linked_ids tasks \<longleftrightarrow> wid \<noteq> [] \<and>
     (\<exists>t\<in>set tasks. is_company_runtime_projection_task (Some t) \<and> linked_work_item_id_for_task (Some t) = wid)"
  by (auto simp: linked_ids_def image_comp)

lemma unlinked_errors:
  "errors (unlinked_issues tasks i) = [] \<longleftrightarrow>
     (py_strip (wi_work_item_id i) \<noteq> [] \<longrightarrow> work_item_expects_runtime_projection i \<longrightarrow>
        (\<exists>t\<in>set tasks. is_company_runtime_projection_task (Some t) \<and>
           linked_work_item_id_for_task (Some t) = py_strip (wi_work_item_id i)))"
  by (auto simp: unlinked_issues_def in_linked_ids Let_def)

text \<open>
  C35. The diagnosis of a run is exact: it reports no error if and only if every projection task is
  linked to a card that exists and agrees with it in kind, role, seat and turn mode, every
  review and report card among them has its target and the target's review owner, and every
  unfinished company card that needs a runtime task is linked from one.
\<close>

theorem diagnosis_is_exact:
  "errors (diagnose_work_item_runtime_projections tasks items) = [] \<longleftrightarrow> run_agrees tasks items"
proof -
  have "errors (task_issues items t) = [] \<longleftrightarrow>
      (is_company_runtime_projection_task (Some t) \<longrightarrow>
        (\<exists>i\<in>set items. linked_work_item_id_for_task (Some t) \<noteq> [] \<and>
           py_strip (wi_work_item_id i) = linked_work_item_id_for_task (Some t) \<and>
           items_by_id items (linked_work_item_id_for_task (Some t)) = Some i \<and>
           agrees_with_card (items_by_id items) t i))" for t
    using task_errors[of t items] by (cases "is_company_runtime_projection_task (Some t)") (auto simp: task_issues_def)
  then show ?thesis
    by (simp add: diagnose_work_item_runtime_projections_def errors_concat unlinked_errors run_agrees_def)
qed

end
