(* ===== verification/ToolPermits.thy ===== *)
theory ToolPermits
  imports ToolLedger Lease
begin

text \<open>
  The life of one exact tool permit (\<open>opc/database/store.py\<close>, \<open>opc/core/approval_decision.py\<close>):
  recording it, moving its state forward under the claim of its checkpoint, and removing it.  A
  permit names the checkpoint whose owner decided the call; a write is accepted only while that
  checkpoint is being consumed by the same claim and records the effect state the permit asserts.

  The tables next to the \<open>store\<close> are the execution checkpoints, the results of tool calls and the
  continuation runners.  The two groups of Chinese synonyms of an approval reply are left out with
  the code points they need.
\<close>

section \<open>Tables\<close>

record checkpoint =
  cp_checkpoint_id :: string
  cp_project_id :: string
  cp_type :: string
  cp_status :: string
  cp_task_id :: "string option"
  cp_payload :: pydict
  cp_session_id :: "string option"
  cp_created_at :: int
  cp_updated_at :: int

record continuation =
  ct_project_id :: string
  ct_task_id :: string
  ct_runtime_session_id :: string
  ct_consumer_id :: string
  ct_claim_id :: string
  ct_request_generation :: int
  ct_state :: string
  ct_lease_expires_at :: int

record tool_db =
  td_store :: store
  td_checkpoints :: "checkpoint list"
  td_results :: "(string \<times> string) list"
  td_continuations :: "continuation list"

section \<open>Decisions\<close>

definition ESCALATION_DECISION_TOKENS :: "string set" where
  "ESCALATION_DECISION_TOKENS = {''approve_once'', ''approve_session'', ''always_project'', ''always_global'', ''deny''}"

definition ESCALATION_APPROVE_SYNONYMS :: "string set" where
  "ESCALATION_APPROVE_SYNONYMS = {''approve'', ''approved'', ''yes'', ''y'', ''ok'', ''allow''}"

definition ESCALATION_DENY_SYNONYMS :: "string set" where
  "ESCALATION_DENY_SYNONYMS = {''no'', ''n'', ''denied'', ''reject'', ''rejected''}"

definition normalize_escalation_reply :: "string \<Rightarrow> string" where
  "normalize_escalation_reply reply =
     (let text = py_lower (py_strip reply)
      in if text \<in> ESCALATION_DECISION_TOKENS then text
         else if text \<in> ESCALATION_APPROVE_SYNONYMS then ''approve_once''
         else if text \<in> ESCALATION_DENY_SYNONYMS then ''deny''
         else [])"

definition canonical_tool_permission_decision :: "pyval \<Rightarrow> string" where
  "canonical_tool_permission_decision v =
     (let raw = (case v of
                   PDict d \<Rightarrow> py_or (dget d ''option_id'')
                                (py_or (dget d ''checkpoint_reply_kind'') (py_or (dget d ''text'') (PStr [])))
                 | _ \<Rightarrow> v)
      in normalize_escalation_reply (if truthy raw then py_str raw else []))"

section \<open>A permit and its checkpoint\<close>

definition execution_checkpoint_interaction :: "pydict \<Rightarrow> pydict" where
  "execution_checkpoint_interaction payload =
     (case dget payload ''interaction'' of PDict d \<Rightarrow> d | _ \<Rightarrow> [])"

fun all_true :: "bool result list \<Rightarrow> bool result" where
  \<comment> \<open>\<open>a and b and ...\<close>: the first false or raising operand decides\<close>
  "all_true [] = Inr True"
| "all_true (x # xs) = bind_result x (\<lambda>b. if b then all_true xs else Inr False)"

definition dict_is :: "pyval \<Rightarrow> pydict \<Rightarrow> bool result" where
  \<comment> \<open>\<open>dict(v or {}) == d\<close>\<close>
  "dict_is v d = bind_result (dict_or_empty v) (\<lambda>e. Inr (py_eq (PDict e) (PDict d)))"

text \<open>The keyword arguments of the match.\<close>

record permit_call =
  pc_task_id :: string
  pc_project_id :: string
  pc_runtime_session_id :: string
  pc_fingerprint :: string
  pc_tool_call_id :: string
  pc_tool_name :: string
  pc_arguments :: pydict
  pc_execution_envelope :: pydict
  pc_execution_identity :: pydict
  pc_claim_id :: string
  pc_consumer_id :: string

definition approved_decisions :: "string set" where
  "approved_decisions = {''approve_once'', ''approve_session'', ''always_project'', ''always_global''}"

definition checkpoint_decision :: "pydict \<Rightarrow> string" where
  "checkpoint_decision decision_record =
     (let recorded = clean (dget decision_record ''canonical_tool_permission_token'')
      in if recorded \<noteq> [] then recorded
         else canonical_tool_permission_decision (dget decision_record ''value''))"

definition exact_tool_permit_matches_checkpoint :: "pydict \<Rightarrow> checkpoint \<Rightarrow> permit_call \<Rightarrow> bool result" where
  "exact_tool_permit_matches_checkpoint permit cp c =
     (let payload = cp_payload cp;
          interaction = execution_checkpoint_interaction payload;
          text = (\<lambda>d k. clean (dget d k))
      in bind_result (dict_or_empty (dget interaction ''ownership'')) (\<lambda>ownership.
         bind_result (dict_or_empty (dget interaction ''claim'')) (\<lambda>recorded_claim.
         bind_result (dict_or_empty (dget payload ''tool_call'')) (\<lambda>call.
         bind_result (dict_or_empty (dget interaction ''decision'')) (\<lambda>decision_record.
         let decision = text permit ''decision'';
             recorded = checkpoint_decision decision_record;
             approved = (dget permit ''approved'' = PBool True)
         in if approved \<noteq> (decision \<in> approved_decisions) \<or> recorded = [] \<or> recorded \<noteq> decision
            then Inr False
            else all_true
              [Inr (py_strip (cp_type cp) = ''tool_permission''),
               Inr (py_strip (if cp_project_id cp = [] then ''default'' else cp_project_id cp) = pc_project_id c),
               Inr (opt_text (cp_task_id cp) = pc_task_id c),
               Inr (text ownership ''waiting_task_id'' = pc_task_id c),
               Inr (text ownership ''tool_runtime_session_id'' = pc_runtime_session_id c),
               Inr (text recorded_claim ''claim_id'' = pc_claim_id c),
               Inr (text recorded_claim ''consumer_id'' = pc_consumer_id c),
               Inr (text permit ''id'' = pc_tool_call_id c),
               Inr (text permit ''function'' = pc_tool_name c),
               dict_is (dget permit ''arguments'') (pc_arguments c),
               dict_is (dget permit ''execution_envelope'') (pc_execution_envelope c),
               dict_is (dget permit ''execution_identity'') (pc_execution_identity c),
               Inr (text permit ''fingerprint'' = pc_fingerprint c),
               Inr (text permit ''runtime_session_id'' = pc_runtime_session_id c),
               Inr (text permit ''checkpoint_id'' = py_strip (cp_checkpoint_id cp)),
               Inr (text permit ''checkpoint_type'' = ''tool_permission''),
               Inr (text permit ''checkpoint_project_id'' = pc_project_id c),
               Inr (text permit ''task_id'' = pc_task_id c),
               Inr (text permit ''claim_id'' = pc_claim_id c),
               Inr (text permit ''consumer_id'' = pc_consumer_id c),
               Inr (text call ''id'' = pc_tool_call_id c),
               Inr (text call ''name'' = pc_tool_name c),
               dict_is (dget call ''arguments'') (pc_arguments c),
               dict_is (dget call ''execution_envelope'') (pc_execution_envelope c),
               dict_is (dget call ''execution_identity'') (pc_execution_identity c),
               Inr (text call ''fingerprint'' = pc_fingerprint c),
               Inr (text call ''runtime_session_id'' = pc_runtime_session_id c)])))))"

definition select_execution_checkpoint ::
  "checkpoint list \<Rightarrow> string \<Rightarrow> string \<Rightarrow> string option \<Rightarrow> checkpoint option" where
  "select_execution_checkpoint cps checkpoint_id project_id checkpoint_type =
     find (\<lambda>cp. cp_checkpoint_id cp = checkpoint_id \<and> cp_project_id cp = project_id \<and>
             (case checkpoint_type of None \<Rightarrow> True | Some k \<Rightarrow> cp_type cp = k)) cps"

section \<open>Moving a permit forward\<close>

definition PERMIT_STATES :: "string set" where
  "PERMIT_STATES = {''ready'', ''executing'', ''denied'', ''result_persisted''}"

definition allowed_permit_transitions :: "(string \<times> string list) list" where
  "allowed_permit_transitions =
     [(''ready'', [''ready'', ''executing'', ''denied'', ''result_persisted'']),
      (''executing'', [''executing'', ''result_persisted'']),
      (''denied'', [''denied'', ''result_persisted'']),
      (''result_persisted'', [''result_persisted''])]"

definition permit_step_allowed :: "string \<Rightarrow> string \<Rightarrow> bool" where
  "permit_step_allowed previous next_state \<longleftrightarrow>
     (case map_of allowed_permit_transitions previous of None \<Rightarrow> False | Some ts \<Rightarrow> next_state \<in> set ts)"

definition IMMUTABLE_PERMIT_KEYS :: "string list" where
  "IMMUTABLE_PERMIT_KEYS =
     [''id'', ''function'', ''arguments'', ''fingerprint'', ''runtime_session_id'', ''checkpoint_id'',
      ''checkpoint_type'', ''checkpoint_project_id'', ''task_id'', ''decision'', ''approved'']"

definition permit_text :: "pydict \<Rightarrow> string \<Rightarrow> string" where
  "permit_text d k = clean (dget d k)"

definition permit_successor_ok :: "pydict \<Rightarrow> pydict \<Rightarrow> bool" where
  \<comment> \<open>the checks on a permit that replaces an existing one\<close>
  "permit_successor_ok existing p \<longleftrightarrow>
     list_all (\<lambda>k. py_eq (dget existing k) (dget p k)) IMMUTABLE_PERMIT_KEYS \<and>
     (list_all (\<lambda>k. permit_text existing k = permit_text p k) [''claim_id'', ''consumer_id''] \<or>
      permit_text existing ''state'' = ''ready'' \<and> permit_text p ''state'' = ''ready'') \<and>
     permit_step_allowed (permit_text existing ''state'') (permit_text p ''state'')"

definition normalized_permit :: "pydict \<Rightarrow> string \<Rightarrow> string \<Rightarrow> string \<Rightarrow> pydict result" where
  "normalized_permit permit runtime_session_id fingerprint task_project_id =
     (let embedded = permit_text permit ''fingerprint''
      in if permit_text permit ''runtime_session_id'' \<noteq> runtime_session_id \<or>
            (embedded \<noteq> [] \<and> embedded \<noteq> fingerprint) then Inl ValueError
         else Inr (dsetdefault ''checkpoint_project_id'' (PStr task_project_id)
                     (dsetdefault ''checkpoint_type'' (PStr ''tool_permission'')
                        (dset ''fingerprint'' (PStr fingerprint) permit))))"

definition permit_complete :: "pydict \<Rightarrow> string \<Rightarrow> string \<Rightarrow> bool" where
  "permit_complete p task_id task_project_id \<longleftrightarrow>
     permit_text p ''task_id'' = task_id \<and> permit_text p ''checkpoint_type'' = ''tool_permission'' \<and>
     permit_text p ''checkpoint_project_id'' = task_project_id \<and>
     list_all (\<lambda>k. permit_text p k \<noteq> []) [''checkpoint_id'', ''claim_id'', ''consumer_id'', ''id'', ''function''] \<and>
     (case dget p ''arguments'' of PDict _ \<Rightarrow> True | _ \<Rightarrow> False) \<and>
     permit_text p ''state'' \<in> PERMIT_STATES"

definition permit_call_of :: "pydict \<Rightarrow> string \<Rightarrow> string \<Rightarrow> string \<Rightarrow> string \<Rightarrow> pydict \<Rightarrow> pydict \<Rightarrow> permit_call" where
  "permit_call_of p task_id task_project_id runtime_session_id fingerprint envelope identity =
     \<lparr>pc_task_id = task_id, pc_project_id = task_project_id, pc_runtime_session_id = runtime_session_id,
      pc_fingerprint = fingerprint, pc_tool_call_id = permit_text p ''id'',
      pc_tool_name = permit_text p ''function'', pc_arguments = permit_of (dget p ''arguments''),
      pc_execution_envelope = envelope, pc_execution_identity = identity,
      pc_claim_id = permit_text p ''claim_id'', pc_consumer_id = permit_text p ''consumer_id''\<rparr>"

text \<open>What the permit asserts of the effect, against the checkpoint's record of it.\<close>

definition effect_state_ok :: "pydict \<Rightarrow> pydict \<Rightarrow> bool \<Rightarrow> bool \<Rightarrow> bool" where
  "effect_state_ok p execution result_exists has_existing \<longleftrightarrow>
     (let target = permit_text p ''state'';
          recorded = permit_text execution ''state'';
          claimed = (permit_text execution ''claim_id'' = permit_text p ''claim_id'' \<and>
                     permit_text execution ''consumer_id'' = permit_text p ''consumer_id'')
      in (target \<in> {''ready'', ''denied''} \<longrightarrow> recorded = ''ready'' \<and> claimed) \<and>
         (target = ''executing'' \<longrightarrow> recorded = ''executing'' \<and> claimed) \<and>
         (result_exists \<longrightarrow> has_existing \<and> target = ''result_persisted'') \<and>
         (target = ''result_persisted'' \<longrightarrow>
            result_exists \<and> recorded \<in> {''executing'', ''result_persisted''} \<and> claimed))"

definition check_permit_write ::
  "tool_db \<Rightarrow> pydict \<Rightarrow> pydict \<Rightarrow> string \<Rightarrow> string \<Rightarrow> string \<Rightarrow> string \<Rightarrow> unit result" where
  "check_permit_write db existing p task_id task_project_id runtime_session_id fingerprint =
     (if existing \<noteq> [] \<and> \<not> permit_successor_ok existing p then Inl RuntimeError
      else if \<not> permit_complete p task_id task_project_id then Inl RuntimeError
      else case select_execution_checkpoint (td_checkpoints db) (permit_text p ''checkpoint_id'')
                  (permit_text p ''checkpoint_project_id'') (Some (permit_text p ''checkpoint_type'')) of
        None \<Rightarrow> Inl RuntimeError
      | Some cp \<Rightarrow>
          if cp_status cp \<noteq> ''consuming'' then Inl RuntimeError
          else
            bind_result (dict_or_empty (dget p ''execution_envelope'')) (\<lambda>envelope.
            bind_result (dict_or_empty (dget p ''execution_identity'')) (\<lambda>identity.
            bind_result (exact_tool_permit_matches_checkpoint p cp
                           (permit_call_of p task_id task_project_id runtime_session_id fingerprint
                              envelope identity)) (\<lambda>matches.
            if \<not> matches then Inl RuntimeError
            else bind_result (dict_or_empty
                    (dget (execution_checkpoint_interaction (cp_payload cp)) ''execution'')) (\<lambda>execution.
              if effect_state_ok p execution
                   ((runtime_session_id, permit_text p ''id'') \<in> set (td_results db)) (existing \<noteq> [])
              then Inr () else Inl RuntimeError)))))"

section \<open>The permit command\<close>

definition put_task_views :: "tool_db \<Rightarrow> string \<Rightarrow> pydict \<Rightarrow> pydict \<Rightarrow> bool \<Rightarrow> tool_db" where
  \<comment> \<open>\<open>UPDATE tasks SET context_snapshot, metadata\<close>, with the reset of \<open>prepare_for_resume\<close>\<close>
  "put_task_views db task_id ctx md reset =
     db\<lparr>td_store := (td_store db)\<lparr>st_tasks :=
          map (\<lambda>t. if tk_id t = task_id
                   then (let u = t\<lparr>tk_context_snapshot := ctx, tk_metadata := md\<rparr>
                         in if reset then u\<lparr>tk_status := TS_PENDING, tk_result := PNone\<rparr> else u)
                   else t) (st_tasks (td_store db))\<rparr>\<rparr>"

definition write_ledger_row :: "tool_db \<Rightarrow> task \<Rightarrow> ledger \<Rightarrow> pydict \<Rightarrow> bool \<Rightarrow> string \<Rightarrow> bool \<Rightarrow> tool_db" where
  "write_ledger_row db row l permits continuation runtime_session_id reset =
     (let (ctx, md) = write_canonical_task_runtime_tool_ledger (tk_context_snapshot row) (tk_metadata row)
                        (lg_resume l) (lg_runtime l) permits continuation runtime_session_id
      in put_task_views db (tk_id row) ctx md reset)"

definition permit_removal :: "pydict \<Rightarrow> string \<Rightarrow> pydict option \<Rightarrow> pydict result" where
  \<comment> \<open>the permits without the fingerprint, if the caller knows what it removes\<close>
  "permit_removal permits fingerprint expected =
     (case expected of
        None \<Rightarrow> Inl RuntimeError
      | Some e \<Rightarrow>
          if py_eq (PDict (permit_of (dget permits fingerprint))) (PDict e) then Inr (dpop fingerprint permits)
          else Inl RuntimeError)"

definition update_task_runtime_tool_permit ::
  "tool_db \<Rightarrow> string \<Rightarrow> string \<Rightarrow> string \<Rightarrow> pydict option \<Rightarrow> pydict option \<Rightarrow> bool \<Rightarrow> task result \<times> tool_db" where
  "update_task_runtime_tool_permit db task_id0 runtime_session_id0 fingerprint0 permit expected reset =
     (let task_id = py_strip task_id0; runtime_session_id = py_strip runtime_session_id0;
          fingerprint = py_strip fingerprint0
      in if task_id = [] \<or> runtime_session_id = [] \<or> fingerprint = [] then (Inl ValueError, db)
         else case task_row (td_store db) task_id of
           None \<Rightarrow> (Inl ValueError, db)
         | Some row \<Rightarrow>
             let project = clean_project_id (tk_project_id row)
             in case canonicalize_task_runtime_tool_ledger (tk_context_snapshot row) (tk_metadata row) of
                  Inl e \<Rightarrow> (Inl e, db)
                | Inr l \<Rightarrow>
                    if ledger_active l \<and> lg_runtime_id l \<noteq> runtime_session_id then (Inl RuntimeError, db)
                    else
                      let existing = permit_of (dget (lg_permits l) fingerprint);
                          finish = (\<lambda>permits.
                            let db' = write_ledger_row db row l permits (lg_continuation l) runtime_session_id reset
                            in case task_row (td_store db') task_id of
                                 None \<Rightarrow> (Inl RuntimeError, db')
                               | Some t \<Rightarrow> (Inr t, db'))
                      in case permit of
                           None \<Rightarrow>
                             if existing = [] then (Inr row, db)
                             else (case permit_removal (lg_permits l) fingerprint expected of
                                     Inl e \<Rightarrow> (Inl e, db)
                                   | Inr permits \<Rightarrow> finish permits)
                         | Some raw \<Rightarrow>
                             (case bind_result (normalized_permit raw runtime_session_id fingerprint project)
                                     (\<lambda>p. bind_result (check_permit_write db existing p task_id project
                                                        runtime_session_id fingerprint) (\<lambda>_. Inr p)) of
                                Inl e \<Rightarrow> (Inl e, db)
                              | Inr p \<Rightarrow> finish (dset fingerprint (PDict p) (lg_permits l))))"

text \<open>\<open>_remove_task_runtime_tool_permit_in_transaction\<close>, of the commit of a tool result.\<close>

definition remove_task_runtime_tool_permit_in_transaction ::
  "tool_db \<Rightarrow> string \<Rightarrow> string \<Rightarrow> string \<Rightarrow> bool \<Rightarrow> bool result \<times> tool_db" where
  "remove_task_runtime_tool_permit_in_transaction db task_id0 runtime_session_id0 fingerprint0 continue_after_result =
     (let task_id = py_strip task_id0; runtime_session_id = py_strip runtime_session_id0;
          fingerprint = py_strip fingerprint0
      in if task_id = [] \<or> runtime_session_id = [] \<or> fingerprint = [] then (Inr False, db)
         else case task_row (td_store db) task_id of
           None \<Rightarrow> (Inr False, db)
         | Some row \<Rightarrow>
             (case canonicalize_task_runtime_tool_ledger (tk_context_snapshot row) (tk_metadata row) of
                Inl e \<Rightarrow> (Inl e, db)
              | Inr l \<Rightarrow>
                  let existed = dhas (lg_permits l) fingerprint
                  in if \<not> existed \<and> \<not> continue_after_result then (Inr False, db)
                     else if lg_runtime_id l \<noteq> [] \<and> lg_runtime_id l \<noteq> runtime_session_id
                     then (Inl RuntimeError, db)
                     else if \<not> existed \<and> lg_continuation l then (Inr False, db)
                     else (Inr existed,
                           write_ledger_row db row l (dpop fingerprint (lg_permits l))
                             (lg_continuation l \<or> continue_after_result) runtime_session_id False)))"


section \<open>Facts\<close>

lemma py_eq_trans: "\<And>w x. py_eq v w \<Longrightarrow> py_eq w x \<Longrightarrow> py_eq v x"
  and eq_items_trans: "\<And>ys zs. eq_items xs ys \<Longrightarrow> eq_items ys zs \<Longrightarrow> eq_items xs zs"
  and eq_pairs_trans: "\<And>e f. eq_pairs d e \<Longrightarrow> eq_pairs e f \<Longrightarrow> eq_pairs d f"
proof (induction v and xs and d rule: json_ok_ok_items_ok_pairs.induct)
  case (2 d)
  then show ?case by (auto split: pyval.splits)
next
  case (5 x xs)
  then show ?case by (cases ys; cases zs) (auto split: list.splits)
next
  case (7 k v d)
  have at: "eq_pairs e f \<Longrightarrow> map_of e k = Some w \<Longrightarrow> \<exists>x. map_of f k = Some x \<and> py_eq w x" for e f w
    by (induction e) (auto split: if_splits option.splits)
  from 7 show ?case by (auto split: option.splits dest: at)
qed (auto split: pyval.splits if_splits)

lemma task_row_put_views:
  "task_row (td_store (put_task_views db task_id ctx md reset)) tid =
     (case task_row (td_store db) tid of
        None \<Rightarrow> None
      | Some t \<Rightarrow> Some (if tid = task_id
          then (let u = t\<lparr>tk_context_snapshot := ctx, tk_metadata := md\<rparr>
                in if reset then u\<lparr>tk_status := TS_PENDING, tk_result := PNone\<rparr> else u)
          else t))"
proof -
  have "find (\<lambda>t. tk_id t = tid)
          (map (\<lambda>t. if tk_id t = task_id
                   then (let u = t\<lparr>tk_context_snapshot := ctx, tk_metadata := md\<rparr>
                         in if reset then u\<lparr>tk_status := TS_PENDING, tk_result := PNone\<rparr> else u)
                   else t) ts) =
        (case find (\<lambda>t. tk_id t = tid) ts of
           None \<Rightarrow> None
         | Some t \<Rightarrow> Some (if tid = task_id
             then (let u = t\<lparr>tk_context_snapshot := ctx, tk_metadata := md\<rparr>
                   in if reset then u\<lparr>tk_status := TS_PENDING, tk_result := PNone\<rparr> else u)
             else t))" for ts
    by (induction ts) (auto simp: Let_def)
  then show ?thesis by (simp add: task_row_def put_task_views_def)
qed

lemma put_task_views_fields [simp]:
  "td_checkpoints (put_task_views db tid ctx md reset) = td_checkpoints db"
  "td_results (put_task_views db tid ctx md reset) = td_results db"
  "td_continuations (put_task_views db tid ctx md reset) = td_continuations db"
  by (simp_all add: put_task_views_def)

lemma write_ledger_row_fields [simp]:
  "td_checkpoints (write_ledger_row db row l ps c rid reset) = td_checkpoints db"
  "td_results (write_ledger_row db row l ps c rid reset) = td_results db"
  "td_continuations (write_ledger_row db row l ps c rid reset) = td_continuations db"
  by (simp_all add: write_ledger_row_def split: prod.splits)

text \<open>A ledger that is written is the ledger that is read; other tasks are left alone.\<close>

lemma write_ledger_row_other:
  "tid \<noteq> tk_id row \<Longrightarrow> task_row (td_store (write_ledger_row db row l ps c rid reset)) tid = task_row (td_store db) tid"
  by (simp add: write_ledger_row_def task_row_put_views split: prod.splits option.splits)

lemma write_ledger_row_read:
  assumes "task_row (td_store db) tid = Some row" "ledger_ok ps c rid"
  obtains t where "task_row (td_store (write_ledger_row db row l ps c rid reset)) tid = Some t"
    "canonicalize_task_runtime_tool_ledger (tk_context_snapshot t) (tk_metadata t) =
       Inr \<lparr>lg_resume = canonical_container ps c rid (lg_resume l),
            lg_runtime = canonical_container ps c rid (lg_runtime l),
            lg_permits = ps, lg_continuation = c, lg_runtime_id = rid\<rparr>"
    "tk_project_id t = tk_project_id row"
    "reset \<Longrightarrow> tk_status t = TS_PENDING" "\<not> reset \<Longrightarrow> tk_status t = tk_status row"
proof -
  obtain ctx md where w: "write_canonical_task_runtime_tool_ledger (tk_context_snapshot row) (tk_metadata row)
      (lg_resume l) (lg_runtime l) ps c rid = (ctx, md)" by fastforce
  define u where "u = row\<lparr>tk_context_snapshot := ctx, tk_metadata := md\<rparr>"
  define t where "t = (if reset then u\<lparr>tk_status := TS_PENDING, tk_result := PNone\<rparr> else u)"
  have row: "task_row (td_store (write_ledger_row db row l ps c rid reset)) tid = Some t"
    using assms(1) w task_row_id [OF assms(1)]
    by (simp add: write_ledger_row_def task_row_put_views u_def t_def Let_def)
  have views: "tk_context_snapshot t = ctx" "tk_metadata t = md" and project: "tk_project_id t = tk_project_id row"
    and reset: "reset \<Longrightarrow> tk_status t = TS_PENDING" and keep: "\<not> reset \<Longrightarrow> tk_status t = tk_status row"
    by (simp_all add: t_def u_def)
  show ?thesis
    using that [OF row _ project reset keep] read_written [OF assms(2) w] by (simp add: views)
qed

text \<open>The permit of a task under a fingerprint; none in a ledger that cannot be read.\<close>

definition permit_at :: "tool_db \<Rightarrow> string \<Rightarrow> string \<Rightarrow> pydict option" where
  "permit_at db tid fingerprint =
     (case tool_ledger (td_store db) tid of
        Inl e \<Rightarrow> None
      | Inr (ps, _, _) \<Rightarrow> if dhas ps fingerprint then Some (permit_of (dget ps fingerprint)) else None)"

lemma normalized_permit_facts:
  assumes "normalized_permit raw rid fp project = Inr p"
  shows "dget p ''fingerprint'' = PStr fp" "permit_text p ''runtime_session_id'' = rid"
    "k \<notin> {''fingerprint'', ''checkpoint_type'', ''checkpoint_project_id''} \<Longrightarrow> dget p k = dget raw k"
    "json_dict raw \<Longrightarrow> json_dict p"
proof -
  have p: "permit_text raw ''runtime_session_id'' = rid"
    "p = dsetdefault ''checkpoint_project_id'' (PStr project)
           (dsetdefault ''checkpoint_type'' (PStr ''tool_permission'') (dset ''fingerprint'' (PStr fp) raw))"
    using assms by (auto simp: normalized_permit_def Let_def split: if_splits)
  have default: "json_dict d \<Longrightarrow> json_dict (dsetdefault k (PStr s) d)" for d k s
    by (simp add: dsetdefault_def json_dict_set del: json_ok.simps(2))
  show "dget p ''fingerprint'' = PStr fp" "permit_text p ''runtime_session_id'' = rid"
    "k \<notin> {''fingerprint'', ''checkpoint_type'', ''checkpoint_project_id''} \<Longrightarrow> dget p k = dget raw k"
    using p by (simp_all add: dsetdefault_def permit_text_def)
  show "json_dict raw \<Longrightarrow> json_dict p"
    unfolding p(2) by (intro default json_dict_set) simp_all
qed

lemma update_permit_cases:
  assumes "update_task_runtime_tool_permit db tid rid fp (Some raw) expected reset = (r, db')"
  obtains (failed) e where "r = Inl e" "db' = db"
  | (recorded) row l p where "task_row (td_store db) (py_strip tid) = Some row"
      "canonicalize_task_runtime_tool_ledger (tk_context_snapshot row) (tk_metadata row) = Inr l"
      "ledger_active l \<Longrightarrow> lg_runtime_id l = py_strip rid" "py_strip rid \<noteq> []" "py_strip fp \<noteq> []"
      "normalized_permit raw (py_strip rid) (py_strip fp) (clean_project_id (tk_project_id row)) = Inr p"
      "check_permit_write db (permit_of (dget (lg_permits l) (py_strip fp))) p (py_strip tid)
         (clean_project_id (tk_project_id row)) (py_strip rid) (py_strip fp) = Inr ()"
      "db' = write_ledger_row db row l (dset (py_strip fp) (PDict p) (lg_permits l)) (lg_continuation l)
               (py_strip rid) reset"
      "r = (case task_row (td_store db') (py_strip tid) of None \<Rightarrow> Inl RuntimeError | Some t \<Rightarrow> Inr t)"
proof (cases "py_strip tid = [] \<or> py_strip rid = [] \<or> py_strip fp = []")
  case True
  with assms failed show ?thesis by (auto simp: update_task_runtime_tool_permit_def Let_def)
next
  case False
  note ids = this
  show ?thesis
  proof (cases "task_row (td_store db) (py_strip tid)")
    case None
    with assms ids failed show ?thesis by (auto simp: update_task_runtime_tool_permit_def Let_def)
  next
    case (Some row)
    show ?thesis
    proof (cases "canonicalize_task_runtime_tool_ledger (tk_context_snapshot row) (tk_metadata row)")
      case (Inl e)
      with assms ids Some failed show ?thesis by (auto simp: update_task_runtime_tool_permit_def Let_def)
    next
      case (Inr l)
      show ?thesis
      proof (cases "ledger_active l \<and> lg_runtime_id l \<noteq> py_strip rid")
        case True
        with assms ids Some Inr failed show ?thesis by (auto simp: update_task_runtime_tool_permit_def Let_def)
      next
        case False
        let ?check = "bind_result (normalized_permit raw (py_strip rid) (py_strip fp) (clean_project_id (tk_project_id row)))
          (\<lambda>p. bind_result (check_permit_write db (permit_of (dget (lg_permits l) (py_strip fp))) p (py_strip tid)
             (clean_project_id (tk_project_id row)) (py_strip rid) (py_strip fp)) (\<lambda>_. Inr p))"
        show ?thesis
        proof (cases ?check)
          case (Inl e)
          with assms ids Some Inr False failed show ?thesis
            by (auto simp: update_task_runtime_tool_permit_def Let_def)
        next
          case check: (Inr p)
          define db1 where "db1 = write_ledger_row db row l (dset (py_strip fp) (PDict p) (lg_permits l))
            (lg_continuation l) (py_strip rid) reset"
          have out: "(r, db') = (case task_row (td_store db1) (py_strip tid) of
              None \<Rightarrow> (Inl RuntimeError, db1) | Some t \<Rightarrow> (Inr t, db1))"
            using assms ids Some Inr False check unfolding db1_def
            by (simp add: update_task_runtime_tool_permit_def Let_def)
          from check have "normalized_permit raw (py_strip rid) (py_strip fp) (clean_project_id (tk_project_id row)) = Inr p"
            "check_permit_write db (permit_of (dget (lg_permits l) (py_strip fp))) p (py_strip tid)
              (clean_project_id (tk_project_id row)) (py_strip rid) (py_strip fp) = Inr ()"
            by (auto simp: bind_result_Inr_iff)
          moreover have "db' = db1" "r = (case task_row (td_store db1) (py_strip tid) of
              None \<Rightarrow> Inl RuntimeError | Some t \<Rightarrow> Inr t)"
            using out by (auto split: option.splits)
          ultimately show ?thesis using recorded [OF Some Inr] ids False unfolding db1_def by blast
        qed
      qed
    qed
  qed
qed


lemma dsetdefault_json: "json_dict d \<Longrightarrow> json_dict (dsetdefault k (PStr s) d)"
  by (simp add: dsetdefault_def json_dict_set del: json_ok.simps(2))

text \<open>Recording a permit gives a ledger that can be read again, with this permit put.\<close>

lemma recorded_ledger_ok:
  assumes ok: "ledger_ok (lg_permits l) (lg_continuation l) (lg_runtime_id l)"
    and active: "ledger_active l \<Longrightarrow> lg_runtime_id l = rid" and rid: "py_strip rid = rid" "rid \<noteq> []"
    and fp: "py_strip fp = fp" "fp \<noteq> []"
    and p: "dget p ''fingerprint'' = PStr fp" "permit_text p ''runtime_session_id'' = rid" "json_dict p"
  shows "ledger_ok (dset fp (PDict p) (lg_permits l)) (lg_continuation l) rid"
proof -
  have "permits_canonical (dset fp (PDict p) (lg_permits l))"
    using ok p fp by (intro permits_canonical_set) (auto simp: ledger_ok_def permit_canonical_def simp del: json_ok.simps)
  moreover have "permit_runtime_id v = rid" if "v \<in> snd ` set (dset fp (PDict p) (lg_permits l))" for v
  proof -
    from that have "v = PDict p \<or> v \<in> snd ` set (lg_permits l)" using set_dset [of fp "PDict p" "lg_permits l"] by auto
    then show ?thesis
    proof
      assume "v = PDict p"
      with p(2) show ?thesis by (simp add: permit_runtime_id_def permit_of_def permit_text_def)
    next
      assume v: "v \<in> snd ` set (lg_permits l)"
      then have "ledger_active l" by (auto simp: ledger_active_def)
      with v ok active show ?thesis by (auto simp: ledger_ok_def)
    qed
  qed
  ultimately show ?thesis using rid by (auto simp: ledger_ok_def)
qed

lemma recorded_ledger:
  assumes "update_task_runtime_tool_permit db tid rid fp (Some raw) expected reset = (Inr t, db')"
    and "row_ok (td_store db) (py_strip tid)" "json_dict raw"
  obtains row l p where "task_row (td_store db) (py_strip tid) = Some row"
    "canonicalize_task_runtime_tool_ledger (tk_context_snapshot row) (tk_metadata row) = Inr l"
    "ledger_active l \<longrightarrow> lg_runtime_id l = py_strip rid"
    "normalized_permit raw (py_strip rid) (py_strip fp) (clean_project_id (tk_project_id row)) = Inr p"
    "check_permit_write db (permit_of (dget (lg_permits l) (py_strip fp))) p (py_strip tid)
       (clean_project_id (tk_project_id row)) (py_strip rid) (py_strip fp) = Inr ()"
    "tool_ledger (td_store db') (py_strip tid) =
       Inr (dset (py_strip fp) (PDict p) (lg_permits l), lg_continuation l, py_strip rid)"
    "row_ok (td_store db') (py_strip tid)"
    "\<forall>other. other \<noteq> py_strip tid \<longrightarrow> task_row (td_store db') other = task_row (td_store db) other"
    "tk_status t = (if reset then TS_PENDING else tk_status row)"
  using assms(1)
proof (cases rule: update_permit_cases)
  case (failed e)
  then show ?thesis by simp
next
  case (recorded row l p)
  let ?ps = "dset (py_strip fp) (PDict p) (lg_permits l)"
  have ok: "ledger_ok (lg_permits l) (lg_continuation l) (lg_runtime_id l)"
    using assms(2) recorded(1,2) by (auto simp: row_ok_def)
  have new: "ledger_ok ?ps (lg_continuation l) (py_strip rid)"
    using normalized_permit_facts(1,2) [OF recorded(6)] normalized_permit_facts(4) [OF recorded(6) assms(3)]
    by (intro recorded_ledger_ok [OF ok recorded(3)]) (use recorded(4,5) in auto)
  from write_ledger_row_read [OF recorded(1) new, of l reset]
  obtain u where u: "task_row (td_store db') (py_strip tid) = Some u"
    "canonicalize_task_runtime_tool_ledger (tk_context_snapshot u) (tk_metadata u) =
       Inr \<lparr>lg_resume = canonical_container ?ps (lg_continuation l) (py_strip rid) (lg_resume l),
            lg_runtime = canonical_container ?ps (lg_continuation l) (py_strip rid) (lg_runtime l),
            lg_permits = ?ps, lg_continuation = lg_continuation l, lg_runtime_id = py_strip rid\<rparr>"
    "reset \<Longrightarrow> tk_status u = TS_PENDING" "\<not> reset \<Longrightarrow> tk_status u = tk_status row"
    unfolding recorded(8) by blast
  have some: "?ps \<noteq> []" by (metis dhas_dset dhas_Nil)
  show ?thesis
  proof (rule that [OF recorded(1,2) _ recorded(6,7)])
    show "ledger_active l \<longrightarrow> lg_runtime_id l = py_strip rid" using recorded(3) by simp
    show "tool_ledger (td_store db') (py_strip tid) = Inr (?ps, lg_continuation l, py_strip rid)"
      using u some by (simp add: tool_ledger_def ledger_active_def)
    show "row_ok (td_store db') (py_strip tid)" using u new by (simp add: row_ok_def)
    show "tk_status t = (if reset then TS_PENDING else tk_status row)"
      using recorded(9) u by auto
    show "\<forall>other. other \<noteq> py_strip tid \<longrightarrow> task_row (td_store db') other = task_row (td_store db) other"
      using recorded(8) write_ledger_row_other [of _ row] task_row_id [OF recorded(1)] by simp
  qed
qed

section \<open>A permit only moves forward\<close>

datatype permit_op =
    Record string string string pydict bool
  | Save_Task string task

fun permit_step :: "tool_db \<Rightarrow> permit_op \<Rightarrow> tool_db" where
  "permit_step db (Record tid rid fp p reset) =
     snd (update_task_runtime_tool_permit db tid rid fp (Some p) None reset)"
| "permit_step db (Save_Task project t) =
     db\<lparr>td_store := snd (snd (save_task_row project (td_store db) t))\<rparr>"

fun permit_run :: "tool_db \<Rightarrow> permit_op list \<Rightarrow> tool_db" where
  "permit_run db [] = db"
| "permit_run db (op # ops) = permit_run (permit_step db op) ops"

fun op_json :: "permit_op \<Rightarrow> bool" where
  "op_json (Record tid rid fp p reset) = json_dict p"
| "op_json (Save_Task project t) = True"

definition permit_rank :: "pydict \<Rightarrow> nat" where
  "permit_rank p =
     (let s = permit_text p ''state'' in if s = ''ready'' then 0 else if s = ''result_persisted'' then 2 else 1)"

definition same_permit :: "pydict \<Rightarrow> pydict \<Rightarrow> bool" where
  "same_permit p q \<longleftrightarrow> list_all (\<lambda>k. py_eq (dget p k) (dget q k)) IMMUTABLE_PERMIT_KEYS"

text \<open>What a later version of a permit has in common with an earlier one.\<close>

definition moved_forward :: "pydict \<Rightarrow> pydict \<Rightarrow> bool" where
  "moved_forward p q \<longleftrightarrow>
     same_permit p q \<and> permit_rank p \<le> permit_rank q \<and>
     (permit_text p ''state'' = ''ready'' \<or>
        permit_text q ''claim_id'' = permit_text p ''claim_id'' \<and>
        permit_text q ''consumer_id'' = permit_text p ''consumer_id'' \<and>
        (permit_text q ''state'' = permit_text p ''state'' \<or> permit_text q ''state'' = ''result_persisted''))"

lemma same_permit_trans: "same_permit p q \<Longrightarrow> same_permit q r \<Longrightarrow> same_permit p r"
  by (auto simp: same_permit_def list_all_iff intro: py_eq_trans)

lemma permit_step_allowed_cases:
  "permit_step_allowed a b \<Longrightarrow>
     a = ''ready'' \<and> b \<in> PERMIT_STATES \<or> a = ''executing'' \<and> b \<in> {''executing'', ''result_persisted''} \<or>
     a = ''denied'' \<and> b \<in> {''denied'', ''result_persisted''} \<or> a = ''result_persisted'' \<and> b = ''result_persisted''"
  by (auto simp: permit_step_allowed_def allowed_permit_transitions_def PERMIT_STATES_def split: if_splits)

lemma successor_moved: "permit_successor_ok p q \<Longrightarrow> moved_forward p q"
  using permit_step_allowed_cases [of "permit_text p ''state''" "permit_text q ''state''"]
  by (auto simp: permit_successor_ok_def moved_forward_def same_permit_def permit_rank_def Let_def PERMIT_STATES_def)

lemma moved_forward_trans: "moved_forward p q \<Longrightarrow> moved_forward q r \<Longrightarrow> moved_forward p r"
  by (auto simp: moved_forward_def permit_rank_def Let_def dest: same_permit_trans split: if_splits)


lemma permit_at_cases:
  assumes "permit_at db tid fp = Some p" "row_ok (td_store db) tid"
  obtains row l where "task_row (td_store db) tid = Some row"
    "canonicalize_task_runtime_tool_ledger (tk_context_snapshot row) (tk_metadata row) = Inr l"
    "dget (lg_permits l) fp = PDict p" "dhas (lg_permits l) fp" "json_dict p" "p \<noteq> []" "fp \<noteq> []" "py_strip fp = fp"
proof -
  from assms(1) obtain row l where l: "task_row (td_store db) tid = Some row"
    "canonicalize_task_runtime_tool_ledger (tk_context_snapshot row) (tk_metadata row) = Inr l"
    "dhas (lg_permits l) fp" "p = permit_of (dget (lg_permits l) fp)"
    by (auto simp: permit_at_def tool_ledger_def bind_result_def split: option.splits sum.splits if_splits)
  then have "permits_canonical (lg_permits l)" using assms(2) by (auto simp: row_ok_def ledger_ok_def)
  then have json: "json_dict (lg_permits l)" and all: "list_all permit_canonical (lg_permits l)"
    by (auto simp: permits_canonical_def)
  from l(3) obtain v where v: "map_of (lg_permits l) fp = Some v" by (auto simp: dhas_def)
  then have "(fp, v) \<in> set (lg_permits l)" by (rule map_of_SomeD)
  with all have "permit_canonical (fp, v)" by (auto simp: list_all_iff)
  then obtain d where d: "v = PDict d" "dget d ''fingerprint'' = PStr fp" "fp \<noteq> []" "py_strip fp = fp"
    by (auto simp: permit_canonical_def split: pyval.splits)
  have at: "dget (lg_permits l) fp = PDict d" using v d(1) by (simp add: dget_def)
  have "p = d" using l(4) at by (simp add: permit_of_def)
  moreover have "json_dict d" using json_dict_get [OF json, of fp] at by simp
  moreover have "d \<noteq> []" using d(2) by auto
  ultimately show ?thesis using that [OF l(1,2)] at l(3) d(3,4) by blast
qed

lemma moved_forward_refl: "json_dict p \<Longrightarrow> moved_forward p p"
  by (auto simp: moved_forward_def same_permit_def list_all_iff intro!: py_eq_refl json_dict_get simp del: json_ok.simps)

lemma update_error_unchanged:
  assumes "update_task_runtime_tool_permit db tid rid fp (Some raw) expected reset = (Inl e, db')"
  shows "db' = db"
  using assms
proof (cases rule: update_permit_cases)
  case (recorded row l p)
  then have "task_row (td_store db') (py_strip tid) \<noteq> None"
    by (simp add: write_ledger_row_def task_row_put_views split: prod.splits)
  with recorded(9) show ?thesis by (auto split: option.splits)
qed simp

lemma permit_at_ledger: "tool_ledger (td_store db) tid = Inr (ps, c, rid) \<Longrightarrow>
    permit_at db tid fp = (if dhas ps fp then Some (permit_of (dget ps fp)) else None)"
  by (simp add: permit_at_def)

lemma same_row_same_permit:
  "task_row (td_store db') tid = task_row (td_store db) tid \<Longrightarrow>
     permit_at db' tid fp = permit_at db tid fp \<and> row_ok (td_store db') tid = row_ok (td_store db) tid"
  by (simp add: permit_at_def tool_ledger_def row_ok_def)

lemma permit_step_forward:
  assumes "permit_at db tid fp = Some p" "row_ok (td_store db) tid" "op_json op"
  shows "row_ok (td_store (permit_step db op)) tid \<and>
         (\<exists>q. permit_at (permit_step db op) tid fp = Some q \<and> moved_forward p q)"
proof -
  from assms(1,2) obtain row l where at: "task_row (td_store db) tid = Some row"
    "canonicalize_task_runtime_tool_ledger (tk_context_snapshot row) (tk_metadata row) = Inr l"
    "dget (lg_permits l) fp = PDict p" "dhas (lg_permits l) fp" "json_dict p" "p \<noteq> []" "fp \<noteq> []" "py_strip fp = fp"
    by (rule permit_at_cases)
  note same = moved_forward_refl [OF at(5)]
  show ?thesis
  proof (cases op)
    case (Save_Task project t)
    have kept: "tool_ledger (td_store (permit_step db op)) tid = tool_ledger (td_store db) tid"
      "row_ok (td_store (permit_step db op)) tid"
      using save_keeps_ledger [OF assms(2), of project t] Save_Task by simp_all
    have "permit_at (permit_step db op) tid fp = Some p"
      using kept(1) assms(1) unfolding permit_at_def by simp
    with kept(2) same show ?thesis by blast
  next
    case (Record tid' rid fp' raw reset)
    obtain r db' where u: "update_task_runtime_tool_permit db tid' rid fp' (Some raw) None reset = (r, db')"
      by fastforce
    have step: "permit_step db op = db'" using Record u by simp
    show ?thesis
    proof (cases r)
      case (Inl e)
      then have "db' = db" using u update_error_unchanged by blast
      with step assms same show ?thesis by auto
    next
      case (Inr t)
      show ?thesis
      proof (cases "py_strip tid' = tid")
        case False
        have "task_row (td_store db') tid = task_row (td_store db) tid"
          using u Inr False
          by (cases rule: update_permit_cases)
            (auto simp: write_ledger_row_other dest: task_row_id)
        then show ?thesis using same_row_same_permit [of db' tid db] assms same step by auto
      next
        case True
        have json: "json_dict raw" using assms(3) Record by simp
        from u Inr have u': "update_task_runtime_tool_permit db tid' rid fp' (Some raw) None reset = (Inr t, db')" by simp
        have "row_ok (td_store db) (py_strip tid')" using assms(2) True by simp
        note recorded = recorded_ledger [OF u' this json, unfolded True]
        obtain row' l' q where k:
          "task_row (td_store db) tid = Some row'"
          "canonicalize_task_runtime_tool_ledger (tk_context_snapshot row') (tk_metadata row') = Inr l'"
          "check_permit_write db (permit_of (dget (lg_permits l') (py_strip fp'))) q tid
             (clean_project_id (tk_project_id row')) (py_strip rid) (py_strip fp') = Inr ()"
          "tool_ledger (td_store db') tid =
             Inr (dset (py_strip fp') (PDict q) (lg_permits l'), lg_continuation l', py_strip rid)"
          "row_ok (td_store db') tid"
          by (rule recorded) (rule that)
        have l: "l' = l" using k(1,2) at(1,2) by simp
        show ?thesis
        proof (cases "py_strip fp' = fp")
          case False
          then have "permit_at db' tid fp = Some p"
            using permit_at_ledger [OF k(4)] at(3,4) l by (simp add: permit_of_def)
          with k(5) same step show ?thesis by auto
        next
          case True
          then have "permit_at db' tid fp = Some q"
            using permit_at_ledger [OF k(4)] by (simp add: permit_of_def)
          moreover have "permit_successor_ok p q"
            using k(3) at(3,6) True l
            by (auto simp: check_permit_write_def permit_of_def split: if_splits)
          ultimately show ?thesis using k(5) step successor_moved by auto
        qed
      qed
    qed
  qed
qed

lemma permit_run_forward:
  "permit_at db tid fp = Some p \<Longrightarrow> row_ok (td_store db) tid \<Longrightarrow> list_all op_json ops \<Longrightarrow>
     \<exists>q. permit_at (permit_run db ops) tid fp = Some q \<and> moved_forward p q"
proof (induction ops arbitrary: db p)
  case Nil
  from permit_at_cases [OF Nil(1,2)] have "json_dict p" .
  then show ?case using Nil(1) moved_forward_refl by auto
next
  case (Cons op ops)
  from permit_step_forward [OF Cons.prems(1,2), of op] Cons.prems(3) obtain q where
    q: "row_ok (td_store (permit_step db op)) tid" "permit_at (permit_step db op) tid fp = Some q" "moved_forward p q"
    by auto
  from Cons.IH [OF q(2,1)] Cons.prems(3) obtain r where
    "permit_at (permit_run (permit_step db op) ops) tid fp = Some r" "moved_forward q r" by auto
  with q(3) show ?case by (auto intro: moved_forward_trans)
qed


text \<open>C21. A tool permit only moves forward.  Through any sequence of permit writes (any task, any
  fingerprint, any order) and task saves, a permit that is recorded is never lost, keeps its call,
  arguments, checkpoint, decision and owner, and never goes back from \<open>executing\<close> or \<open>denied\<close> to
  \<open>ready\<close> or from \<open>result_persisted\<close> to anything: a permit whose effect has started stays with the
  claim that started it, and an executing one can only become the record of its result.\<close>

theorem permits_only_move_forward:
  assumes "permit_at db tid fp = Some p" "row_json (td_store db) tid" "list_all op_json ops"
  shows "\<exists>q. permit_at (permit_run db ops) tid fp = Some q \<and> moved_forward p q"
  by (rule permit_run_forward [OF assms(1) row_json_ok [OF assms(2)] assms(3)])

definition sample_permit :: "string \<Rightarrow> pydict" where
  "sample_permit state =
     [(''id'', PStr ''call''), (''function'', PStr ''shell''), (''arguments'', PDict []),
      (''runtime_session_id'', PStr ''rt''), (''checkpoint_id'', PStr ''cp''), (''task_id'', PStr ''t''),
      (''decision'', PStr ''approve_once''), (''approved'', PBool True), (''claim_id'', PStr ''k''),
      (''consumer_id'', PStr ''w''), (''state'', PStr state), (''fingerprint'', PStr ''f''),
      (''checkpoint_type'', PStr ''tool_permission''), (''checkpoint_project_id'', PStr ''default'')]"

definition sample_checkpoint :: "string \<Rightarrow> checkpoint" where
  "sample_checkpoint state =
     \<lparr>cp_checkpoint_id = ''cp'', cp_project_id = ''default'', cp_type = ''tool_permission'',
      cp_status = ''consuming'', cp_task_id = Some ''t'',
      cp_payload =
        [(''tool_call'', PDict [(''id'', PStr ''call''), (''name'', PStr ''shell''), (''arguments'', PDict []),
            (''fingerprint'', PStr ''f''), (''runtime_session_id'', PStr ''rt'')]),
         (''interaction'', PDict
            [(''ownership'', PDict [(''waiting_task_id'', PStr ''t''), (''tool_runtime_session_id'', PStr ''rt'')]),
             (''claim'', PDict [(''claim_id'', PStr ''k''), (''consumer_id'', PStr ''w'')]),
             (''decision'', PDict [(''value'', PStr ''yes'')]),
             (''execution'', PDict [(''state'', PStr state), (''claim_id'', PStr ''k''), (''consumer_id'', PStr ''w'')])])],
      cp_session_id = None, cp_created_at = 0, cp_updated_at = 0\<rparr>"

definition sample_db :: "string \<Rightarrow> (string \<times> string) list \<Rightarrow> tool_db" where
  "sample_db state results =
     \<lparr>td_store = empty_store\<lparr>st_tasks := [(new_task ''t'')\<lparr>tk_metadata :=
          [(''runtime_v2'', PDict [(''approved_tool_calls'', PDict [(''f'', PDict (sample_permit ''ready''))])])]\<rparr>]\<rparr>,
      td_checkpoints = [sample_checkpoint state], td_results = results, td_continuations = []\<rparr>"

definition sample_ops :: "permit_op list" where
  "sample_ops =
     [Record ''t'' ''rt'' ''f'' (sample_permit ''executing'') False, Save_Task [] (new_task ''t''),
      Record ''t'' ''rt'' ''f'' (sample_permit ''ready'') False]"

theorem permits_only_move_forward_witness:
  "(\<exists>q. permit_at (permit_run (sample_db ''executing'' []) sample_ops) ''t'' ''f'' = Some q \<and>
        moved_forward (sample_permit ''ready'') q) \<and>
   permit_at (permit_run (sample_db ''executing'' []) sample_ops) ''t'' ''f'' = Some (sample_permit ''executing'')"
proof
  have "permit_at (sample_db ''executing'' []) ''t'' ''f'' = Some (sample_permit ''ready'')" by code_simp
  moreover have "row_json (td_store (sample_db ''executing'' [])) ''t''" by code_simp
  moreover have "list_all op_json sample_ops" by code_simp
  ultimately show "\<exists>q. permit_at (permit_run (sample_db ''executing'' []) sample_ops) ''t'' ''f'' = Some q \<and>
      moved_forward (sample_permit ''ready'') q"
    by (rule permits_only_move_forward)
  show "permit_at (permit_run (sample_db ''executing'' []) sample_ops) ''t'' ''f'' = Some (sample_permit ''executing'')"
    by code_simp
qed

section \<open>The fence of an effect\<close>

definition effect_record :: "checkpoint \<Rightarrow> string \<Rightarrow> string" where
  \<comment> \<open>a text field of \<open>interaction.execution\<close>\<close>
  "effect_record cp k =
     (case dict_or_empty (dget (execution_checkpoint_interaction (cp_payload cp)) ''execution'') of
        Inl e \<Rightarrow> [] | Inr d \<Rightarrow> permit_text d k)"

definition claim_record :: "checkpoint \<Rightarrow> string \<Rightarrow> string" where
  "claim_record cp k =
     (case dict_or_empty (dget (execution_checkpoint_interaction (cp_payload cp)) ''claim'') of
        Inl e \<Rightarrow> [] | Inr d \<Rightarrow> permit_text d k)"

definition decision_record :: "checkpoint \<Rightarrow> string" where
  "decision_record cp =
     (case dict_or_empty (dget (execution_checkpoint_interaction (cp_payload cp)) ''decision'') of
        Inl e \<Rightarrow> [] | Inr d \<Rightarrow> checkpoint_decision d)"

definition fenced_by :: "checkpoint \<Rightarrow> pydict \<Rightarrow> bool" where
  \<comment> \<open>the checkpoint of the permit is consumed by the claim of the permit, on the owner's decision\<close>
  "fenced_by cp p \<longleftrightarrow>
     cp_status cp = ''consuming'' \<and> cp_checkpoint_id cp = permit_text p ''checkpoint_id'' \<and>
     claim_record cp ''claim_id'' = permit_text p ''claim_id'' \<and>
     claim_record cp ''consumer_id'' = permit_text p ''consumer_id'' \<and>
     decision_record cp = permit_text p ''decision'' \<and>
     (dget p ''approved'' = PBool True) = (permit_text p ''decision'' \<in> approved_decisions) \<and>
     effect_record cp ''claim_id'' = permit_text p ''claim_id'' \<and>
     effect_record cp ''consumer_id'' = permit_text p ''consumer_id''"

lemma all_true_iff: "all_true xs = Inr True \<longleftrightarrow> (\<forall>x\<in>set xs. x = Inr True)"
  by (induction xs) (auto simp: bind_result_Inr_iff)

lemma match_facts:
  assumes "exact_tool_permit_matches_checkpoint p cp c = Inr True"
  shows "claim_record cp ''claim_id'' = pc_claim_id c" "claim_record cp ''consumer_id'' = pc_consumer_id c"
    "decision_record cp = permit_text p ''decision''"
    "(dget p ''approved'' = PBool True) = (permit_text p ''decision'' \<in> approved_decisions)"
    "permit_text p ''checkpoint_id'' = py_strip (cp_checkpoint_id cp)"
  using assms
  by (auto simp: exact_tool_permit_matches_checkpoint_def Let_def bind_result_Inr_iff all_true_iff
      claim_record_def decision_record_def permit_text_def split: if_splits)

definition effect_agrees :: "tool_db \<Rightarrow> string \<Rightarrow> checkpoint \<Rightarrow> pydict \<Rightarrow> bool" where
  "effect_agrees db rid cp p \<longleftrightarrow>
     (permit_text p ''state'' = ''executing'' \<longrightarrow> effect_record cp ''state'' = ''executing'') \<and>
     (permit_text p ''state'' \<in> {''ready'', ''denied''} \<longrightarrow> effect_record cp ''state'' = ''ready'') \<and>
     (permit_text p ''state'' = ''result_persisted'' \<longleftrightarrow> (rid, permit_text p ''id'') \<in> set (td_results db)) \<and>
     permit_text p ''state'' \<in> PERMIT_STATES"

lemma check_permit_write_facts:
  assumes "check_permit_write db existing p tid project rid fp = Inr ()"
  shows "\<exists>cp. cp \<in> set (td_checkpoints db) \<and> cp_project_id cp = project \<and> fenced_by cp p \<and> effect_agrees db rid cp p"
proof -
  from assms obtain cp envelope identity execution where
    cp: "select_execution_checkpoint (td_checkpoints db) (permit_text p ''checkpoint_id'')
           (permit_text p ''checkpoint_project_id'') (Some (permit_text p ''checkpoint_type'')) = Some cp"
      "cp_status cp = ''consuming''"
    and matches: "exact_tool_permit_matches_checkpoint p cp
        (permit_call_of p tid project rid fp envelope identity) = Inr True"
    and execution: "dict_or_empty (dget (execution_checkpoint_interaction (cp_payload cp)) ''execution'') = Inr execution"
      "effect_state_ok p execution ((rid, permit_text p ''id'') \<in> set (td_results db)) (existing \<noteq> [])"
    and complete: "permit_complete p tid project"
    by (auto simp: check_permit_write_def bind_result_Inr_iff split: option.splits if_splits)
  have states: "permit_text p ''state'' \<in> PERMIT_STATES" and project: "permit_text p ''checkpoint_project_id'' = project"
    using complete by (auto simp: permit_complete_def)
  have found: "cp \<in> set (td_checkpoints db)" "cp_checkpoint_id cp = permit_text p ''checkpoint_id''"
    "cp_project_id cp = project"
    using cp(1) project by (auto simp: select_execution_checkpoint_def find_Some_iff)
  have effect: "effect_record cp k = permit_text execution k" for k
    using execution(1) by (simp add: effect_record_def)
  have "effect_record cp ''claim_id'' = permit_text p ''claim_id''"
    "effect_record cp ''consumer_id'' = permit_text p ''consumer_id''"
    using execution(2) states by (auto simp: effect effect_state_ok_def Let_def PERMIT_STATES_def)
  then have "fenced_by cp p"
    using match_facts [OF matches] cp(2) found(2) by (simp add: fenced_by_def permit_call_of_def)
  moreover have "effect_agrees db rid cp p"
    using execution(2) states by (auto simp: effect_agrees_def effect effect_state_ok_def Let_def PERMIT_STATES_def)
  ultimately show ?thesis using found(1,3) by blast
qed

text \<open>An effect is recorded only behind its fence.  A permit write either fails and changes
  nothing, or the checkpoint the permit names exists in the project of the task, is being consumed
  by the claim of the permit on a recorded decision that the permit repeats, and records the very
  effect: \<open>ready\<close> and \<open>denied\<close> only before it started, \<open>executing\<close> only after the checkpoint entered
  it, \<open>result_persisted\<close> exactly when the result of the call is stored.  The ledger afterwards has
  this permit under its fingerprint and every other permit as before.\<close>

theorem permit_writes_are_fenced:
  assumes "update_task_runtime_tool_permit db tid rid fp (Some raw) expected reset = (r, db')"
    and "row_json (td_store db) (py_strip tid)" "json_dict raw"
  shows "case r of
      Inl e \<Rightarrow> db' = db
    | Inr t \<Rightarrow>
        (\<exists>p cp row. permit_at db' (py_strip tid) (py_strip fp) = Some p \<and>
           (\<forall>other. other \<noteq> py_strip fp \<longrightarrow> permit_at db' (py_strip tid) other = permit_at db (py_strip tid) other) \<and>
           task_row (td_store db) (py_strip tid) = Some row \<and>
           cp \<in> set (td_checkpoints db) \<and> cp_project_id cp = clean_project_id (tk_project_id row) \<and>
           fenced_by cp p \<and> effect_agrees db (py_strip rid) cp p)"
proof (cases r)
  case (Inl e)
  then show ?thesis using assms(1) update_error_unchanged by auto
next
  case (Inr t)
  with assms(1) have "update_task_runtime_tool_permit db tid rid fp (Some raw) expected reset = (Inr t, db')" by simp
  note recorded = recorded_ledger [OF this row_json_ok [OF assms(2)] assms(3)]
  obtain row l p where k:
    "task_row (td_store db) (py_strip tid) = Some row"
    "canonicalize_task_runtime_tool_ledger (tk_context_snapshot row) (tk_metadata row) = Inr l"
    "check_permit_write db (permit_of (dget (lg_permits l) (py_strip fp))) p (py_strip tid)
       (clean_project_id (tk_project_id row)) (py_strip rid) (py_strip fp) = Inr ()"
    "tool_ledger (td_store db') (py_strip tid) =
       Inr (dset (py_strip fp) (PDict p) (lg_permits l), lg_continuation l, py_strip rid)"
    by (rule recorded) (rule that)
  have before: "tool_ledger (td_store db) (py_strip tid) =
      Inr (lg_permits l, lg_continuation l, if ledger_active l then lg_runtime_id l else [])"
    using k(1,2) by (simp add: tool_ledger_def)
  have at: "permit_at db' (py_strip tid) (py_strip fp) = Some p"
    using permit_at_ledger [OF k(4)] by (simp add: permit_of_def)
  have others: "\<forall>other. other \<noteq> py_strip fp \<longrightarrow> permit_at db' (py_strip tid) other = permit_at db (py_strip tid) other"
    using permit_at_ledger [OF k(4)] permit_at_ledger [OF before] by simp
  from check_permit_write_facts [OF k(3)] obtain cp where "cp \<in> set (td_checkpoints db)"
    "cp_project_id cp = clean_project_id (tk_project_id row)" "fenced_by cp p" "effect_agrees db (py_strip rid) cp p"
    by blast
  with at others k(1) show ?thesis unfolding Inr sum.case by blast
qed

theorem permit_writes_are_fenced_witness:
  "fst (update_task_runtime_tool_permit (sample_db ''ready'' []) ''t'' ''rt'' ''f'' (Some (sample_permit ''executing'')) None False)
     = Inl RuntimeError \<and>
   (\<exists>t db'. update_task_runtime_tool_permit (sample_db ''executing'' []) ''t'' ''rt'' ''f''
         (Some (sample_permit ''executing'')) None True = (Inr t, db') \<and> tk_status t = TS_PENDING \<and>
      (\<exists>p. permit_at db' ''t'' ''f'' = Some p \<and> fenced_by (sample_checkpoint ''executing'') p))"
proof
  show "fst (update_task_runtime_tool_permit (sample_db ''ready'' []) ''t'' ''rt'' ''f'' (Some (sample_permit ''executing'')) None False)
     = Inl RuntimeError" by code_simp
  let ?u = "update_task_runtime_tool_permit (sample_db ''executing'' []) ''t'' ''rt'' ''f''
         (Some (sample_permit ''executing'')) None True"
  have "(case fst ?u of Inl e \<Rightarrow> False | Inr t \<Rightarrow> tk_status t = TS_PENDING)" by code_simp
  then obtain t db' where u: "?u = (Inr t, db')" "tk_status t = TS_PENDING"
    by (cases ?u) (auto split: sum.splits)
  have json: "row_json (td_store (sample_db ''executing'' [])) (py_strip ''t'')" "json_dict (sample_permit ''executing'')"
    by code_simp+
  have strip: "py_strip ''t'' = ''t''" "py_strip ''f'' = ''f''" by code_simp+
  have cps: "td_checkpoints (sample_db ''executing'' []) = [sample_checkpoint ''executing'']" by (simp add: sample_db_def)
  from permit_writes_are_fenced [OF u(1) json] obtain p cp where
    "permit_at db' (py_strip ''t'') (py_strip ''f'') = Some p"
    "cp \<in> set (td_checkpoints (sample_db ''executing'' []))" "fenced_by cp p"
    unfolding sum.case by blast
  then have "\<exists>p. permit_at db' ''t'' ''f'' = Some p \<and> fenced_by (sample_checkpoint ''executing'') p"
    unfolding strip cps by auto
  with u show "\<exists>t db'. ?u = (Inr t, db') \<and> tk_status t = TS_PENDING \<and>
      (\<exists>p. permit_at db' ''t'' ''f'' = Some p \<and> fenced_by (sample_checkpoint ''executing'') p)"
    by blast
qed

end
