(* ===== verification/ToolContinuation.thy ===== *)
theory ToolContinuation
  imports ToolPermits
begin

text \<open>
  The continuation runner of a task (\<open>opc/database/store.py\<close>): after an owner decision exactly one
  runtime may resume the task.  A claim elects a runner of (project, task, runtime), a busy caller
  only leaves a mark, \<open>begin\<close> fences the runner before its first effect, \<open>finish\<close> lets it go when
  its permit queue is drained.  The new claim id (\<open>uuid4().hex\<close>) and the clock are arguments.
\<close>

section \<open>Operations\<close>

record continuation_receipt =
  cr_outcome :: string
  cr_claim_id :: string
  cr_consumer_id :: string
  cr_request_generation :: int
  cr_lease_expires_at :: "int option"

definition receipt :: "string \<Rightarrow> continuation_receipt" where
  "receipt outcome =
     \<lparr>cr_outcome = outcome, cr_claim_id = [], cr_consumer_id = [], cr_request_generation = 0,
      cr_lease_expires_at = None\<rparr>"

definition ct_key :: "continuation \<Rightarrow> string \<times> string \<times> string" where
  "ct_key c = (ct_project_id c, ct_task_id c, ct_runtime_session_id c)"

definition get_continuation :: "tool_db \<Rightarrow> string \<times> string \<times> string \<Rightarrow> continuation option" where
  "get_continuation db k = find (\<lambda>c. ct_key c = k) (td_continuations db)"

definition set_continuation :: "tool_db \<Rightarrow> continuation \<Rightarrow> tool_db" where
  \<comment> \<open>\<open>UPDATE runtime_tool_continuations ... WHERE\<close> the primary key\<close>
  "set_continuation db c =
     db\<lparr>td_continuations := map (\<lambda>d. if ct_key d = ct_key c then c else d) (td_continuations db)\<rparr>"

definition continuation_expiry :: "int \<Rightarrow> int \<Rightarrow> int" where
  \<comment> \<open>\<open>now + timedelta(seconds=max(0.1, lease_seconds))\<close>\<close>
  "continuation_expiry now duration = now + max 100000 duration"

text \<open>Is a permit of the runtime at a checkpoint whose effect may be under way?\<close>

fun unsafe_effect :: "checkpoint list \<Rightarrow> string \<Rightarrow> string \<Rightarrow> pydict \<Rightarrow> bool result" where
  "unsafe_effect cps project runtime [] = Inr False"
| "unsafe_effect cps project runtime ((fingerprint, v) # rest) =
     (let permit = permit_of v; checkpoint_id = permit_text permit ''checkpoint_id''
      in if permit_text permit ''runtime_session_id'' \<noteq> runtime then unsafe_effect cps project runtime rest
         else if checkpoint_id = [] then Inr True
         else case select_execution_checkpoint cps checkpoint_id project None of
           None \<Rightarrow> Inr True
         | Some cp \<Rightarrow>
             bind_result (dict_or_empty (dget (execution_checkpoint_interaction (cp_payload cp)) ''execution''))
               (\<lambda>execution.
                 if (if truthy (dget execution ''state'') then py_str (dget execution ''state'') else []) = ''executing''
                 then Inr True else unsafe_effect cps project runtime rest))"

definition put_ledger :: "tool_db \<Rightarrow> task \<Rightarrow> ledger \<Rightarrow> string \<Rightarrow> tool_db" where
  \<comment> \<open>the canonical rewrite of the row that every continuation command makes\<close>
  "put_ledger db row l runtime = write_ledger_row db row l (lg_permits l) (lg_continuation l) runtime False"

definition claim_existing ::
  "tool_db \<Rightarrow> continuation \<Rightarrow> ledger \<Rightarrow> string \<Rightarrow> string \<Rightarrow> int \<Rightarrow> int \<Rightarrow> continuation_receipt result \<times> tool_db" where
  "claim_existing db c l consumer new_claim_id expires now =
     (let generation = ct_request_generation c + 1;
          owner = py_strip (ct_consumer_id c); current = py_strip (ct_claim_id c);
          state = (let s = py_strip (if ct_state c = [] then ''ready'' else ct_state c)
                   in if s = [] then ''ready'' else s);
          busy = (Inr \<lparr>cr_outcome = ''busy'', cr_claim_id = current, cr_consumer_id = owner,
                       cr_request_generation = generation, cr_lease_expires_at = Some (ct_lease_expires_at c)\<rparr>,
                  set_continuation db (c\<lparr>ct_request_generation := generation\<rparr>));
          reclaimed = (Inr \<lparr>cr_outcome = ''reclaimed'', cr_claim_id = new_claim_id, cr_consumer_id = consumer,
                            cr_request_generation = generation, cr_lease_expires_at = Some expires\<rparr>,
                       set_continuation db
                         (c\<lparr>ct_consumer_id := consumer, ct_claim_id := new_claim_id,
                            ct_request_generation := generation, ct_state := ''ready'',
                            ct_lease_expires_at := expires\<rparr>))
      in if owner = consumer \<and> current \<noteq> [] then
           (Inr \<lparr>cr_outcome = ''duplicate'', cr_claim_id = current, cr_consumer_id = consumer,
                 cr_request_generation = generation, cr_lease_expires_at = Some expires\<rparr>,
            if ct_consumer_id c = consumer \<and> ct_claim_id c = current
            then set_continuation db (c\<lparr>ct_request_generation := generation, ct_lease_expires_at := expires\<rparr>)
            else db)
         else if now < ct_lease_expires_at c then busy
         else if state = ''executing'' then
           (case unsafe_effect (td_checkpoints db) (ct_project_id c) (ct_runtime_session_id c) (lg_permits l) of
              Inl e \<Rightarrow> (Inl e, db)
            | Inr unsafe \<Rightarrow> if unsafe then busy else reclaimed)
         else reclaimed)"

definition claim_runtime_tool_continuation ::
  "string \<Rightarrow> tool_db \<Rightarrow> string \<Rightarrow> string \<Rightarrow> string \<Rightarrow> string \<Rightarrow> int \<Rightarrow> string \<Rightarrow> int
     \<Rightarrow> continuation_receipt result \<times> tool_db" where
  "claim_runtime_tool_continuation store_project db project_id task_id runtime_session_id consumer_id
     duration new_claim_id now =
     (let project = clean_project_id project_id; task = py_strip task_id;
          runtime = py_strip runtime_session_id; consumer = py_strip consumer_id;
          expires = continuation_expiry now duration
      in if task = [] \<or> runtime = [] \<or> consumer = [] then (Inl ValueError, db)
         else case assert_project_write_scope store_project project of
           Inl e \<Rightarrow> (Inl e, db)
         | Inr _ \<Rightarrow>
          (case task_row (td_store db) task of
             None \<Rightarrow> (Inr (receipt ''not_found''), db)
           | Some row \<Rightarrow>
               if py_strip (if tk_project_id row = [] then ''default'' else tk_project_id row) \<noteq> project
               then (Inr (receipt ''conflict''), db)
               else case canonicalize_task_runtime_tool_ledger (tk_context_snapshot row) (tk_metadata row) of
                 Inl e \<Rightarrow> (Inl e, db)
               | Inr l \<Rightarrow>
                   if \<not> ledger_active l \<or> lg_runtime_id l \<noteq> runtime then (Inr (receipt ''conflict''), db)
                   else
                     let db1 = put_ledger db row l runtime
                     in case get_continuation db (project, task, runtime) of
                          None \<Rightarrow>
                            (Inr \<lparr>cr_outcome = ''claimed'', cr_claim_id = new_claim_id, cr_consumer_id = consumer,
                                  cr_request_generation = 1, cr_lease_expires_at = Some expires\<rparr>,
                             db1\<lparr>td_continuations := td_continuations db1 @
                               [\<lparr>ct_project_id = project, ct_task_id = task, ct_runtime_session_id = runtime,
                                  ct_consumer_id = consumer, ct_claim_id = new_claim_id,
                                  ct_request_generation = 1, ct_state = ''ready'',
                                  ct_lease_expires_at = expires\<rparr>]\<rparr>)
                        | Some c \<Rightarrow>
                            (case claim_existing db1 c l consumer new_claim_id expires now of
                               (Inl e, _) \<Rightarrow> (Inl e, db)
                             | r \<Rightarrow> r)))"

definition held_by :: "continuation \<Rightarrow> string \<Rightarrow> string \<Rightarrow> bool" where
  "held_by c consumer claim \<longleftrightarrow> ct_consumer_id c = consumer \<and> ct_claim_id c = claim"

text \<open>
  The part \<open>renew\<close> and \<open>begin\<close> share: read the task, check the ledger with \<open>usable\<close>, rewrite it,
  and update the row of the claim; any miss rolls back with \<open>conflict\<close>.
\<close>

definition with_claim ::
  "(ledger \<Rightarrow> bool) \<Rightarrow> (continuation \<Rightarrow> continuation option) \<Rightarrow> (continuation \<Rightarrow> continuation_receipt) \<Rightarrow>
     tool_db \<Rightarrow> string \<Rightarrow> string \<Rightarrow> string \<Rightarrow> string \<Rightarrow> string \<Rightarrow> continuation_receipt result \<times> tool_db" where
  "with_claim usable change answer db project_id task_id runtime_session_id consumer_id claim_id =
     (let project = clean_project_id project_id; task = py_strip task_id; runtime = py_strip runtime_session_id
      in case task_row (td_store db) task of
           None \<Rightarrow> (Inr (receipt ''conflict''), db)
         | Some row \<Rightarrow>
             if tk_project_id row \<noteq> project then (Inr (receipt ''conflict''), db)
             else case canonicalize_task_runtime_tool_ledger (tk_context_snapshot row) (tk_metadata row) of
               Inl e \<Rightarrow> (Inl e, db)
             | Inr l \<Rightarrow>
                 if \<not> usable l \<or> lg_runtime_id l \<noteq> runtime then (Inr (receipt ''conflict''), db)
                 else case get_continuation db (project, task, runtime) of
                   None \<Rightarrow> (Inr (receipt ''conflict''), db)
                 | Some c \<Rightarrow>
                     if \<not> held_by c (py_strip consumer_id) (py_strip claim_id)
                     then (Inr (receipt ''conflict''), db)
                     else case change c of
                       None \<Rightarrow> (Inr (receipt ''conflict''), db)
                     | Some c' \<Rightarrow> (Inr (answer c'), set_continuation (put_ledger db row l runtime) c'))"

definition renew_runtime_tool_continuation ::
  "tool_db \<Rightarrow> string \<Rightarrow> string \<Rightarrow> string \<Rightarrow> string \<Rightarrow> string \<Rightarrow> int \<Rightarrow> int
     \<Rightarrow> continuation_receipt result \<times> tool_db" where
  "renew_runtime_tool_continuation db project_id task_id runtime_session_id consumer_id claim_id duration now =
     with_claim (\<lambda>l. True)
       (\<lambda>c. Some (c\<lparr>ct_lease_expires_at := continuation_expiry now duration\<rparr>))
       (\<lambda>c. \<lparr>cr_outcome = ''renewed'', cr_claim_id = py_strip claim_id, cr_consumer_id = py_strip consumer_id,
             cr_request_generation = ct_request_generation c,
             cr_lease_expires_at = Some (continuation_expiry now duration)\<rparr>)
       db project_id task_id runtime_session_id consumer_id claim_id"

definition begin_runtime_tool_continuation ::
  "tool_db \<Rightarrow> string \<Rightarrow> string \<Rightarrow> string \<Rightarrow> string \<Rightarrow> string \<Rightarrow> continuation_receipt result \<times> tool_db" where
  "begin_runtime_tool_continuation db project_id task_id runtime_session_id consumer_id claim_id =
     with_claim ledger_active
       (\<lambda>c. if ct_state c = ''ready'' then Some (c\<lparr>ct_state := ''executing''\<rparr>) else None)
       (\<lambda>c. \<lparr>cr_outcome = ''claimed'', cr_claim_id = py_strip claim_id, cr_consumer_id = py_strip consumer_id,
             cr_request_generation = ct_request_generation c,
             cr_lease_expires_at = Some (ct_lease_expires_at c)\<rparr>)
       db project_id task_id runtime_session_id consumer_id claim_id"

definition finish_runtime_tool_continuation ::
  "tool_db \<Rightarrow> string \<Rightarrow> string \<Rightarrow> string \<Rightarrow> string \<Rightarrow> string \<Rightarrow> (string \<times> int) result \<times> tool_db" where
  "finish_runtime_tool_continuation db project_id task_id runtime_session_id consumer_id claim_id =
     (let project = clean_project_id project_id; task = py_strip task_id; runtime = py_strip runtime_session_id;
          k = (project, task, runtime)
      in case get_continuation db k of
           None \<Rightarrow> (Inr (''conflict'', 0), db)
         | Some c \<Rightarrow>
             if \<not> held_by c (py_strip consumer_id) (py_strip claim_id) then (Inr (''conflict'', 0), db)
             else case task_row (td_store db) task of
               None \<Rightarrow> (Inr (''not_found'', 0), db)
             | Some row \<Rightarrow>
                 if tk_project_id row \<noteq> project then (Inr (''not_found'', 0), db)
                 else case canonicalize_task_runtime_tool_ledger (tk_context_snapshot row) (tk_metadata row) of
                   Inl e \<Rightarrow> (Inl e, db)
                 | Inr l \<Rightarrow>
                     if lg_runtime_id l \<noteq> runtime then (Inr (''conflict'', 0), db)
                     else
                       let db1 = put_ledger db row l runtime
                       in if ledger_active l then (Inr (''more_work'', ct_request_generation c), db1)
                          else (Inr (''finished'', ct_request_generation c),
                                db1\<lparr>td_continuations :=
                                  filter (\<lambda>d. \<not> (ct_key d = k \<and> held_by d (py_strip consumer_id) (py_strip claim_id)))
                                    (td_continuations db1)\<rparr>))"

text \<open>\<open>set_task_runtime_continuation_marker\<close>: a restart that continues after a stored result.\<close>

definition set_task_runtime_continuation_marker ::
  "tool_db \<Rightarrow> string \<Rightarrow> string \<Rightarrow> bool \<Rightarrow> task result \<times> tool_db" where
  "set_task_runtime_continuation_marker db task_id runtime_session_id enabled =
     (let task = py_strip task_id; runtime = py_strip runtime_session_id
      in if task = [] \<or> runtime = [] then (Inl ValueError, db)
         else case task_row (td_store db) task of
           None \<Rightarrow> (Inl ValueError, db)
         | Some row \<Rightarrow>
             (case canonicalize_task_runtime_tool_ledger (tk_context_snapshot row) (tk_metadata row) of
                Inl e \<Rightarrow> (Inl e, db)
              | Inr l \<Rightarrow>
                  if \<not> enabled \<and> \<not> lg_continuation l then (Inr row, db)
                  else if lg_runtime_id l \<noteq> [] \<and> lg_runtime_id l \<noteq> runtime then (Inl RuntimeError, db)
                  else
                    let db' = write_ledger_row db row l (lg_permits l) enabled runtime False
                    in case task_row (td_store db') task of
                         None \<Rightarrow> (Inl RuntimeError, db')
                       | Some t \<Rightarrow> (Inr t, db')))"


section \<open>Runs\<close>

text \<open>
  The commands of all controllers in the order SQLite serialises them.  \<open>World\<close> is whatever other
  code does to the tasks, checkpoints and results in between.
\<close>

datatype continuation_op =
    Claim string string string string string int string int
  | Renewal string string string string string int int
  | Begin_Run string string string string string
  | Finish_Run string string string string string
  | World store "checkpoint list" "(string \<times> string) list"

type_synonym begun_run = "(string \<times> string \<times> string) \<times> string"

fun continuation_step :: "tool_db \<Rightarrow> continuation_op \<Rightarrow> begun_run list \<times> tool_db" where
  "continuation_step db (Claim scope project task runtime consumer duration new_claim_id now) =
     ([], snd (claim_runtime_tool_continuation scope db project task runtime consumer duration new_claim_id now))"
| "continuation_step db (Renewal project task runtime consumer claim duration now) =
     ([], snd (renew_runtime_tool_continuation db project task runtime consumer claim duration now))"
| "continuation_step db (Begin_Run project task runtime consumer claim) =
     (let (r, db') = begin_runtime_tool_continuation db project task runtime consumer claim
      in (case r of
            Inl e \<Rightarrow> []
          | Inr answer \<Rightarrow>
              if cr_outcome answer = ''claimed''
              then [((clean_project_id project, py_strip task, py_strip runtime), cr_claim_id answer)] else [],
          db'))"
| "continuation_step db (Finish_Run project task runtime consumer claim) =
     ([], snd (finish_runtime_tool_continuation db project task runtime consumer claim))"
| "continuation_step db (World st cps results) =
     ([], db\<lparr>td_store := st, td_checkpoints := cps, td_results := results\<rparr>)"

fun continuation_run :: "tool_db \<Rightarrow> continuation_op list \<Rightarrow> begun_run list \<times> tool_db" where
  "continuation_run db [] = ([], db)"
| "continuation_run db (op # ops) =
     (let (b, db1) = continuation_step db op; (bs, db2) = continuation_run db1 ops in (b @ bs, db2))"

fun new_claim_ids :: "continuation_op list \<Rightarrow> string list" where
  "new_claim_ids [] = []"
| "new_claim_ids (Claim _ _ _ _ _ _ c _ # ops) = c # new_claim_ids ops"
| "new_claim_ids (_ # ops) = new_claim_ids ops"

definition claim_ids :: "tool_db \<Rightarrow> string set" where
  "claim_ids db = ct_claim_id ` set (td_continuations db)"

section \<open>Facts\<close>

lemma put_ledger_fields [simp]:
  "td_continuations (put_ledger db row l runtime) = td_continuations db"
  "td_checkpoints (put_ledger db row l runtime) = td_checkpoints db"
  by (simp_all add: put_ledger_def)

lemma get_continuation_key: "get_continuation db k = Some c \<Longrightarrow> ct_key c = k \<and> c \<in> set (td_continuations db)"
  by (auto simp: get_continuation_def find_Some_iff)

lemma get_continuation_put [simp]: "get_continuation (put_ledger db row l runtime) k = get_continuation db k"
  by (simp add: get_continuation_def)

lemma get_set_continuation:
  "get_continuation db k = Some c \<Longrightarrow> ct_key c' = k \<Longrightarrow> get_continuation (set_continuation db c') k = Some c'"
proof -
  have "find (\<lambda>d. ct_key d = k) cs = Some c \<Longrightarrow> ct_key c' = k \<Longrightarrow>
      find (\<lambda>d. ct_key d = k) (map (\<lambda>d. if ct_key d = ct_key c' then c' else d) cs) = Some c'" for cs
    by (induction cs) (auto split: if_splits)
  then show "get_continuation db k = Some c \<Longrightarrow> ct_key c' = k \<Longrightarrow> ?thesis"
    by (simp add: get_continuation_def set_continuation_def)
qed

lemma get_set_continuation_other:
  "ct_key c' \<noteq> k \<Longrightarrow> get_continuation (set_continuation db c') k = get_continuation db k"
proof -
  have "ct_key c' \<noteq> k \<Longrightarrow>
      find (\<lambda>d. ct_key d = k) (map (\<lambda>d. if ct_key d = ct_key c' then c' else d) cs) = find (\<lambda>d. ct_key d = k) cs" for cs
    by (induction cs) auto
  then show "ct_key c' \<noteq> k \<Longrightarrow> ?thesis" by (simp add: get_continuation_def set_continuation_def)
qed

lemma set_continuation_rows:
  "d \<in> set (td_continuations (set_continuation db c)) \<Longrightarrow> d = c \<or> d \<in> set (td_continuations db) \<and> ct_key d \<noteq> ct_key c"
  by (auto simp: set_continuation_def split: if_splits)

text \<open>
  What a command may do to the row of a key: the table is unchanged, or one row was updated from
  an existing row of the key, or inserted, or removed.
\<close>

lemma claim_existing_cases:
  assumes "claim_existing db c l consumer new_id expires now = (r, db')"
  obtains (unchanged) "db' = db"
  | (kept) c' where "db' = set_continuation db c'" "ct_key c' = ct_key c" "ct_claim_id c' = ct_claim_id c"
      "ct_state c' = ct_state c"
  | (reclaimed) c' where "db' = set_continuation db c'" "ct_key c' = ct_key c" "ct_claim_id c' = new_id"
      "ct_lease_expires_at c \<le> now"
      "ct_state c = ''executing'' \<Longrightarrow>
         unsafe_effect (td_checkpoints db) (ct_project_id c) (ct_runtime_session_id c) (lg_permits l) = Inr False"
proof -
  let ?dup = "py_strip (ct_consumer_id c) = consumer \<and> py_strip (ct_claim_id c) \<noteq> []"
  let ?busy = "set_continuation db (c\<lparr>ct_request_generation := ct_request_generation c + 1\<rparr>)"
  let ?reclaimed = "set_continuation db (c\<lparr>ct_consumer_id := consumer, ct_claim_id := new_id,
      ct_request_generation := ct_request_generation c + 1, ct_state := ''ready'', ct_lease_expires_at := expires\<rparr>)"
  let ?unsafe = "unsafe_effect (td_checkpoints db) (ct_project_id c) (ct_runtime_session_id c) (lg_permits l)"
  have strip: "py_strip ''executing'' = ''executing''" by (simp add: str_simps)
  have busy: thesis if "db' = ?busy" by (rule kept [OF that]) (simp_all add: ct_key_def)
  have taken: thesis if "db' = ?reclaimed" "ct_lease_expires_at c \<le> now" "ct_state c = ''executing'' \<Longrightarrow> ?unsafe = Inr False"
    by (rule reclaimed [OF that(1)]) (use that in \<open>simp_all add: ct_key_def\<close>)
  show ?thesis
  proof (cases ?dup)
    case True
    then have "db' = db \<or> db' = set_continuation db
        (c\<lparr>ct_request_generation := ct_request_generation c + 1, ct_lease_expires_at := expires\<rparr>)"
      using assms by (auto simp: claim_existing_def Let_def split: if_splits)
    then show ?thesis
      by (elim disjE) (rule unchanged, assumption, rule kept, assumption, simp_all add: ct_key_def)
  next
    case other: False
    show ?thesis
    proof (cases "now < ct_lease_expires_at c")
      case True
      with assms other busy show ?thesis by (auto simp: claim_existing_def Let_def)
    next
      case late: False
      show ?thesis
      proof (cases "(let s = py_strip (if ct_state c = [] then ''ready'' else ct_state c)
                     in if s = [] then ''ready'' else s) = ''executing''")
        case True
        show ?thesis
        proof (cases ?unsafe)
          case (Inl e)
          with assms other late True have "db' = db" by (simp add: claim_existing_def)
          then show ?thesis by (rule unchanged)
        next
          case (Inr u)
          have "db' = (if u then ?busy else ?reclaimed)"
            using assms other late True Inr
            by (cases u) (simp_all add: claim_existing_def, simp_all add: Let_def)
          then show ?thesis using busy taken late Inr by (cases u) simp_all
        qed
      next
        case False
        then have "ct_state c \<noteq> ''executing''" using strip by (auto simp: Let_def)
        moreover have "db' = ?reclaimed"
          using assms other late False by (simp add: claim_existing_def) (simp add: Let_def)
        ultimately show ?thesis using taken late by simp
      qed
    qed
  qed
qed


lemma set_continuation_put [simp]:
  "td_continuations (set_continuation (put_ledger db row l runtime) c) = td_continuations (set_continuation db c)"
  by (simp add: set_continuation_def)

lemma continuation_claim_cases:
  assumes "claim_runtime_tool_continuation scope db project task runtime consumer duration new_id now = (r, db')"
  obtains (unchanged) "td_continuations db' = td_continuations db"
  | (inserted) c where "get_continuation db (ct_key c) = None" "ct_claim_id c = new_id"
      "td_continuations db' = td_continuations db @ [c]"
  | (kept) c c' where "get_continuation db (ct_key c') = Some c" "ct_claim_id c' = ct_claim_id c"
      "ct_state c' = ct_state c" "td_continuations db' = td_continuations (set_continuation db c')"
  | (reclaimed) c c' row l where "get_continuation db (ct_key c') = Some c" "ct_claim_id c' = new_id"
      "td_continuations db' = td_continuations (set_continuation db c')" "ct_lease_expires_at c \<le> now"
      "task_row (td_store db) (ct_task_id c) = Some row"
      "canonicalize_task_runtime_tool_ledger (tk_context_snapshot row) (tk_metadata row) = Inr l"
      "lg_runtime_id l = ct_runtime_session_id c"
      "ct_state c = ''executing'' \<Longrightarrow>
         unsafe_effect (td_checkpoints db) (ct_project_id c) (ct_runtime_session_id c) (lg_permits l) = Inr False"
proof -
  let ?p = "clean_project_id project" and ?t = "py_strip task" and ?s = "py_strip runtime"
  show ?thesis
  proof (cases "td_continuations db' = td_continuations db")
    case True
    then show ?thesis by (rule unchanged)
  next
    case False
    then obtain row l where row: "task_row (td_store db) ?t = Some row"
      and l: "canonicalize_task_runtime_tool_ledger (tk_context_snapshot row) (tk_metadata row) = Inr l"
      and rid: "lg_runtime_id l = ?s" "ledger_active l"
      and scope: "assert_project_write_scope scope ?p = Inr ()"
      and guard: "\<not> (?t = [] \<or> ?s = [] \<or> py_strip consumer = [])"
        "py_strip (if tk_project_id row = [] then ''default'' else tk_project_id row) = ?p"
      using assms
      by (auto simp: claim_runtime_tool_continuation_def Let_def split: if_splits sum.splits option.splits)
    show ?thesis
    proof (cases "get_continuation db (?p, ?t, ?s)")
      case None
      then show ?thesis
        using assms row l rid scope guard
        by (intro inserted) (auto simp: claim_runtime_tool_continuation_def Let_def ct_key_def split: if_splits)
    next
      case (Some c)
      let ?db1 = "put_ledger db row l ?s"
      obtain q db2 where step: "claim_existing ?db1 c l (py_strip consumer) new_id (continuation_expiry now duration) now = (q, db2)"
        by fastforce
      have "db' = (case q of Inl e \<Rightarrow> db | Inr x \<Rightarrow> db2)"
        using assms row l rid scope guard Some step
        by (auto simp: claim_runtime_tool_continuation_def Let_def split: sum.splits)
      with False have db': "db' = db2" by (auto split: sum.splits)
      have key: "ct_key c = (?p, ?t, ?s)" using get_continuation_key [OF Some] by simp
      from step show ?thesis
      proof (cases rule: claim_existing_cases)
        case unchanged
        with False db' show ?thesis by simp
      next
        case (kept c')
        then show ?thesis using db' Some key by (intro that(3) [of c' c]) simp_all
      next
        case (reclaimed c')
        then show ?thesis using db' Some key row l rid(1)
          by (intro that(4) [of c' c row l]) (simp_all add: ct_key_def)
      qed
    qed
  qed
qed

lemma with_claim_cases:
  assumes "with_claim usable change answer db project task runtime consumer claim = (r, db')"
  obtains (unchanged) "db' = db" "\<And>x. r = Inr x \<Longrightarrow> x = receipt ''conflict''"
  | (changed) c c' where
      "get_continuation db (clean_project_id project, py_strip task, py_strip runtime) = Some c"
      "held_by c (py_strip consumer) (py_strip claim)" "change c = Some c'" "r = Inr (answer c')"
      "td_continuations db' = td_continuations (set_continuation db c')"
proof (cases "r = Inr (receipt ''conflict'') \<or> (\<exists>e. r = Inl e)")
  case True
  then show ?thesis
  proof (cases "db' = db")
    case True
    with \<open>r = Inr (receipt ''conflict'') \<or> (\<exists>e. r = Inl e)\<close> show ?thesis by (intro unchanged) auto
  next
    case False
    with assms show ?thesis
      by (auto simp: with_claim_def Let_def split: if_splits sum.splits option.splits intro!: changed)
  qed
next
  case False
  with assms show ?thesis
    by (auto simp: with_claim_def Let_def split: if_splits sum.splits option.splits intro!: changed)
qed

lemma finish_cases:
  assumes "finish_runtime_tool_continuation db project task runtime consumer claim = (r, db')"
  obtains (unchanged) "td_continuations db' = td_continuations db"
  | (removed) c row l where
      "get_continuation db (clean_project_id project, py_strip task, py_strip runtime) = Some c"
      "held_by c (py_strip consumer) (py_strip claim)"
      "td_continuations db' = filter (\<lambda>d. \<not> (ct_key d = ct_key c \<and> held_by d (py_strip consumer) (py_strip claim)))
         (td_continuations db)"
      "task_row (td_store db) (py_strip task) = Some row"
      "canonicalize_task_runtime_tool_ledger (tk_context_snapshot row) (tk_metadata row) = Inr l"
      "\<not> ledger_active l"
proof (cases "td_continuations db' = td_continuations db")
  case False
  let ?k = "(clean_project_id project, py_strip task, py_strip runtime)"
  from False assms obtain c row l where k: "get_continuation db ?k = Some c"
      "held_by c (py_strip consumer) (py_strip claim)"
      "task_row (td_store db) (py_strip task) = Some row"
      "canonicalize_task_runtime_tool_ledger (tk_context_snapshot row) (tk_metadata row) = Inr l"
      "\<not> ledger_active l"
      "td_continuations db' = filter (\<lambda>d. \<not> (ct_key d = ?k \<and> held_by d (py_strip consumer) (py_strip claim)))
         (td_continuations db)"
    by (auto simp: finish_runtime_tool_continuation_def Let_def split: if_splits sum.splits option.splits)
  have key: "?k = ct_key c" using get_continuation_key [OF k(1)] by simp
  show ?thesis by (rule removed [OF k(1,2) k(6) [unfolded key] k(3,4,5)])
qed (rule unchanged)


lemma claim_ids_set: "claim_ids (set_continuation db c) \<subseteq> insert (ct_claim_id c) (claim_ids db)"
  by (auto simp: claim_ids_def dest: set_continuation_rows)

lemma claim_ids_get: "get_continuation db k = Some c \<Longrightarrow> ct_claim_id c \<in> claim_ids db"
  by (auto simp: claim_ids_def dest: get_continuation_key)

lemma claim_ids_cong: "td_continuations db' = td_continuations db \<Longrightarrow> claim_ids db' = claim_ids db"
  by (simp add: claim_ids_def)

text \<open>A begun run is spent: its claim can never be found \<open>ready\<close> again.\<close>

definition spent :: "tool_db \<Rightarrow> begun_run set \<Rightarrow> bool" where
  "spent db B \<longleftrightarrow>
     (\<forall>d\<in>set (td_continuations db). (ct_key d, ct_claim_id d) \<in> B \<longrightarrow> ct_state d \<noteq> ''ready'')"

lemma spent_set:
  "spent db B \<Longrightarrow> ct_claim_id c \<notin> snd ` B \<or> ct_state c \<noteq> ''ready'' \<Longrightarrow> spent (set_continuation db c) B"
  by (auto simp: spent_def image_iff dest!: set_continuation_rows)

lemma spent_cong: "td_continuations db' = td_continuations db \<Longrightarrow> spent db' B = spent db B"
  by (simp add: spent_def)

lemma spent_get:
  "spent db B \<Longrightarrow> get_continuation db (ct_key c') = Some c \<Longrightarrow> ct_claim_id c' = ct_claim_id c \<Longrightarrow>
     ct_state c' = ct_state c \<Longrightarrow> spent (set_continuation db c') B"
proof -
  assume spent: "spent db B" and c: "get_continuation db (ct_key c') = Some c"
    and same: "ct_claim_id c' = ct_claim_id c" "ct_state c' = ct_state c"
  have "c \<in> set (td_continuations db)" "ct_key c = ct_key c'" using get_continuation_key [OF c] by auto
  then have "(ct_key c', ct_claim_id c') \<in> B \<Longrightarrow> ct_state c' \<noteq> ''ready''"
    using spent same unfolding spent_def by metis
  with spent show ?thesis by (auto simp: spent_def dest!: set_continuation_rows)
qed

lemma continuation_step_ids:
  assumes "continuation_step db op = (b, db')"
  shows "claim_ids db' \<subseteq> claim_ids db \<union> set (new_claim_ids [op])"
proof (cases op)
  case (Claim scope project task runtime consumer duration new_id now)
  obtain r db2 where step: "claim_runtime_tool_continuation scope db project task runtime consumer duration new_id now = (r, db2)"
    by fastforce
  have db': "db' = db2" using assms Claim step by simp
  from step show ?thesis
  proof (cases rule: continuation_claim_cases)
    case unchanged
    then show ?thesis using db' claim_ids_cong [of db2 db] by simp
  next
    case (inserted c)
    then show ?thesis using db' Claim by (auto simp: claim_ids_def)
  next
    case (kept c c')
    have "claim_ids db' = claim_ids (set_continuation db c')" using kept(4) db' by (intro claim_ids_cong) simp
    then show ?thesis using claim_ids_set [of db c'] kept(2) claim_ids_get [OF kept(1)] by auto
  next
    case (reclaimed c c' row l)
    have "claim_ids db' = claim_ids (set_continuation db c')" using reclaimed(3) db' by (intro claim_ids_cong) simp
    then show ?thesis using claim_ids_set [of db c'] reclaimed(2) Claim by auto
  qed
next
  case (Renewal project task runtime consumer claim duration now)
  obtain r db2 where step: "renew_runtime_tool_continuation db project task runtime consumer claim duration now = (r, db2)"
    by fastforce
  have db': "db' = db2" using assms Renewal step by simp
  from step [unfolded renew_runtime_tool_continuation_def] show ?thesis
  proof (cases rule: with_claim_cases)
    case (changed c c')
    have "claim_ids db' = claim_ids (set_continuation db c')" using changed(5) db' by (intro claim_ids_cong) simp
    then show ?thesis using claim_ids_set [of db c'] changed(3) claim_ids_get [OF changed(1)] by auto
  qed (use db' in simp)
next
  case (Begin_Run project task runtime consumer claim)
  obtain r db2 where step: "begin_runtime_tool_continuation db project task runtime consumer claim = (r, db2)"
    by fastforce
  have db': "db' = db2" using assms Begin_Run step by simp
  from step [unfolded begin_runtime_tool_continuation_def] show ?thesis
  proof (cases rule: with_claim_cases)
    case (changed c c')
    have "claim_ids db' = claim_ids (set_continuation db c')" using changed(5) db' by (intro claim_ids_cong) simp
    then show ?thesis using claim_ids_set [of db c'] changed(3) claim_ids_get [OF changed(1)] by (auto split: if_splits)
  qed (use db' in simp)
next
  case (Finish_Run project task runtime consumer claim)
  obtain r db2 where step: "finish_runtime_tool_continuation db project task runtime consumer claim = (r, db2)"
    by fastforce
  have db': "db' = db2" using assms Finish_Run step by simp
  from step show ?thesis
    by (cases rule: finish_cases) (auto simp: db' claim_ids_def)
next
  case (World st cps results)
  with assms show ?thesis by (auto simp: claim_ids_def)
qed

text \<open>One command begins at most one run, of a claim that was \<open>ready\<close>, and spends it.\<close>

lemma continuation_step_spent:
  assumes step: "continuation_step db op = (b, db')" and spent: "spent db B"
    and fresh: "snd ` B \<inter> set (new_claim_ids [op]) = {}"
  shows "distinct b \<and> set b \<inter> B = {} \<and> snd ` set b \<subseteq> claim_ids db \<and> spent db' (B \<union> set b)"
proof (cases op)
  case (Claim scope project task runtime consumer duration new_id now)
  obtain r db2 where claim: "claim_runtime_tool_continuation scope db project task runtime consumer duration new_id now = (r, db2)"
    by fastforce
  have db': "db' = db2" and b: "b = []" using step Claim claim by simp_all
  from claim have "spent db' B"
  proof (cases rule: continuation_claim_cases)
    case unchanged
    then show ?thesis using spent db' spent_cong by blast
  next
    case (inserted c)
    then have "ct_claim_id c \<notin> snd ` B" using fresh Claim by auto
    then show ?thesis using spent inserted(3) db' by (force simp: spent_def)
  next
    case (kept c c')
    have "spent (set_continuation db c') B" using spent kept(1,2,3) by (rule spent_get)
    then show ?thesis using kept(4) db' spent_cong by blast
  next
    case (reclaimed c c' row l)
    then have "ct_claim_id c' \<notin> snd ` B" using fresh Claim by auto
    then have "spent (set_continuation db c') B" using spent by (intro spent_set) simp_all
    then show ?thesis using reclaimed(3) db' spent_cong by blast
  qed
  with b show ?thesis by simp
next
  case (Renewal project task runtime consumer claim duration now)
  obtain r db2 where renew: "renew_runtime_tool_continuation db project task runtime consumer claim duration now = (r, db2)"
    by fastforce
  have db': "db' = db2" and b: "b = []" using step Renewal renew by simp_all
  from renew [unfolded renew_runtime_tool_continuation_def] have "spent db' B"
  proof (cases rule: with_claim_cases)
    case unchanged
    with spent db' show ?thesis by simp
  next
    case (changed c c')
    have key: "ct_key c' = ct_key c" using changed(3) by (auto simp: ct_key_def)
    have "spent (set_continuation db c') B"
      by (rule spent_get [OF spent, of c' c]) (use changed get_continuation_key [OF changed(1)] key in auto)
    then show ?thesis using changed(5) db' spent_cong by blast
  qed
  with b show ?thesis by simp
next
  case (Begin_Run project task runtime consumer claim)
  obtain r db2 where begun: "begin_runtime_tool_continuation db project task runtime consumer claim = (r, db2)"
    by fastforce
  have db': "db' = db2" using step Begin_Run begun by simp
  let ?k = "(clean_project_id project, py_strip task, py_strip runtime)"
  from begun [unfolded begin_runtime_tool_continuation_def] show ?thesis
  proof (cases rule: with_claim_cases)
    case unchanged
    then have "b = []" using step Begin_Run begun by (auto simp: receipt_def split: sum.splits)
    with unchanged spent db' show ?thesis by simp
  next
    case (changed c c')
    have c': "ct_state c = ''ready''" "c' = c\<lparr>ct_state := ''executing''\<rparr>"
      using changed(3) by (auto split: if_splits)
    have held: "ct_claim_id c = py_strip claim" using changed(2) by (simp add: held_by_def)
    have b: "b = [(?k, py_strip claim)]" using step Begin_Run begun changed(4) by simp
    have key: "ct_key c = ?k" "c \<in> set (td_continuations db)" using get_continuation_key [OF changed(1)] by auto
    have "(?k, py_strip claim) \<notin> B"
      using spent key c'(1) held unfolding spent_def by metis
    moreover have "spent db' (B \<union> {(?k, py_strip claim)})"
    proof -
      have "spent (set_continuation db c') (B \<union> {(?k, py_strip claim)})"
        unfolding spent_def
      proof (intro ballI impI)
        fix d
        assume d: "d \<in> set (td_continuations (set_continuation db c'))"
          and spent_d: "(ct_key d, ct_claim_id d) \<in> B \<union> {(?k, py_strip claim)}"
        from set_continuation_rows [OF d] show "ct_state d \<noteq> ''ready''"
        proof
          assume "d \<in> set (td_continuations db) \<and> ct_key d \<noteq> ct_key c'"
          moreover have "ct_key c' = ?k" using c'(2) key(1) by (simp add: ct_key_def)
          ultimately show ?thesis using spent spent_d unfolding spent_def by auto
        qed (use c'(2) in simp)
      qed
      then show ?thesis using changed(5) db' spent_cong by blast
    qed
    moreover have "py_strip claim \<in> claim_ids db" using claim_ids_get [OF changed(1)] held by simp
    ultimately show ?thesis using b by simp
  qed
next
  case (Finish_Run project task runtime consumer claim)
  obtain r db2 where finished: "finish_runtime_tool_continuation db project task runtime consumer claim = (r, db2)"
    by fastforce
  have db': "db' = db2" and b: "b = []" using step Finish_Run finished by simp_all
  from finished have "spent db' B"
  proof (cases rule: finish_cases)
    case unchanged
    then show ?thesis using spent db' spent_cong by blast
  next
    case (removed c row l)
    then show ?thesis using spent db' by (simp add: spent_def)
  qed
  with b show ?thesis by simp
next
  case (World st cps results)
  with step spent show ?thesis by (auto simp: spent_def)
qed

lemma new_claim_ids_Cons: "new_claim_ids (op # ops) = new_claim_ids [op] @ new_claim_ids ops"
  by (cases op) simp_all

lemma continuation_run_spent:
  "continuation_run db ops = (bs, db') \<Longrightarrow> spent db B \<Longrightarrow> distinct (new_claim_ids ops) \<Longrightarrow>
   claim_ids db \<inter> set (new_claim_ids ops) = {} \<Longrightarrow> snd ` B \<inter> set (new_claim_ids ops) = {} \<Longrightarrow>
     distinct bs \<and> set bs \<inter> B = {}"
proof (induction ops arbitrary: db B bs)
  case (Cons op ops)
  obtain b db1 where step: "continuation_step db op = (b, db1)" by fastforce
  obtain bs' where rest: "continuation_run db1 ops = (bs', db')" and bs: "bs = b @ bs'"
    using Cons.prems(1) step by (auto split: prod.splits)
  have ids: "distinct (new_claim_ids ops)" "set (new_claim_ids [op]) \<inter> set (new_claim_ids ops) = {}"
    "claim_ids db \<inter> set (new_claim_ids ops) = {}" "snd ` B \<inter> set (new_claim_ids [op]) = {}"
    "snd ` B \<inter> set (new_claim_ids ops) = {}"
    using Cons.prems(3,4,5) new_claim_ids_Cons [of op ops] by auto
  have one: "distinct b \<and> set b \<inter> B = {} \<and> snd ` set b \<subseteq> claim_ids db \<and> spent db1 (B \<union> set b)"
    by (rule continuation_step_spent [OF step Cons.prems(2) ids(4)])
  have "distinct bs' \<and> set bs' \<inter> (B \<union> set b) = {}"
  proof (rule Cons.IH [OF rest])
    show "spent db1 (B \<union> set b)" using one by simp
    show "distinct (new_claim_ids ops)" by (rule ids(1))
    show "claim_ids db1 \<inter> set (new_claim_ids ops) = {}"
      using continuation_step_ids [OF step] ids(2,3) by blast
    show "snd ` (B \<union> set b) \<inter> set (new_claim_ids ops) = {}" using one ids(3,5) by blast
  qed
  with one bs show ?case by auto
qed simp


text \<open>C22. A claim begins its run at most once.  In any interleaving of claims, renewals, begins and
  finishes of any controllers with arbitrary other changes to tasks, checkpoints and results, no
  claim of a (project, task, runtime) is told to start twice, so a runtime is resumed by one runner
  only; the only hypothesis is that \<open>uuid4\<close> gives new ids.\<close>

theorem claims_begin_once:
  assumes "distinct (new_claim_ids ops)" "claim_ids db \<inter> set (new_claim_ids ops) = {}"
  shows "distinct (fst (continuation_run db ops))"
proof -
  obtain bs db' where run: "continuation_run db ops = (bs, db')" by fastforce
  have "spent db {}" by (simp add: spent_def)
  then show ?thesis using continuation_run_spent [OF run _ assms, of "{}"] run by simp
qed

definition waiting_db :: tool_db where
  "waiting_db = sample_db ''ready'' []"

definition rival_runners :: "continuation_op list" where
  "rival_runners =
     [Claim [] ''default'' ''t'' ''rt'' ''a'' 300000000 ''c1'' 0,
      Claim [] ''default'' ''t'' ''rt'' ''b'' 300000000 ''c2'' 1,
      Begin_Run ''default'' ''t'' ''rt'' ''a'' ''c1'',
      Begin_Run ''default'' ''t'' ''rt'' ''a'' ''c1'',
      Begin_Run ''default'' ''t'' ''rt'' ''b'' ''c1'',
      Claim [] ''default'' ''t'' ''rt'' ''b'' 300000000 ''c3'' 400000000,
      Begin_Run ''default'' ''t'' ''rt'' ''b'' ''c3'']"

theorem claims_begin_once_witness:
  "distinct (fst (continuation_run waiting_db rival_runners)) \<and>
   fst (continuation_run waiting_db rival_runners) =
     [((''default'', ''t'', ''rt''), ''c1''), ((''default'', ''t'', ''rt''), ''c3'')]"
proof
  have "distinct (new_claim_ids rival_runners)" by code_simp
  moreover have "claim_ids waiting_db \<inter> set (new_claim_ids rival_runners) = {}" by code_simp
  ultimately show "distinct (fst (continuation_run waiting_db rival_runners))" by (rule claims_begin_once)
  show "fst (continuation_run waiting_db rival_runners) =
     [((''default'', ''t'', ''rt''), ''c1''), ((''default'', ''t'', ''rt''), ''c3'')]" by code_simp
qed

section \<open>A running runner\<close>

definition effect_may_run :: "checkpoint list \<Rightarrow> string \<Rightarrow> pydict \<Rightarrow> bool" where
  \<comment> \<open>the checkpoint of a permit is missing, or records an effect that has started\<close>
  "effect_may_run cps project p \<longleftrightarrow>
     (case select_execution_checkpoint cps (permit_text p ''checkpoint_id'') project None of
        None \<Rightarrow> True
      | Some cp \<Rightarrow> dget (dict_or_none (dget (execution_checkpoint_interaction (cp_payload cp)) ''execution'')) ''state''
                     = PStr ''executing'')"

lemma unsafe_effect_Cons:
  assumes "unsafe_effect cps project runtime ((f, w) # rest) = Inr False"
  shows "unsafe_effect cps project runtime rest = Inr False"
    "permit_text (permit_of w) ''runtime_session_id'' = runtime \<Longrightarrow> \<not> effect_may_run cps project (permit_of w)"
proof -
  show "unsafe_effect cps project runtime rest = Inr False"
    using assms by (auto simp: Let_def bind_result_Inr_iff split: if_splits option.splits)
  assume "permit_text (permit_of w) ''runtime_session_id'' = runtime"
  with assms obtain cp execution where
    cp: "select_execution_checkpoint cps (permit_text (permit_of w) ''checkpoint_id'') project None = Some cp"
    and execution: "dict_or_empty (dget (execution_checkpoint_interaction (cp_payload cp)) ''execution'') = Inr execution"
    and recorded: "(if truthy (dget execution ''state'') then py_str (dget execution ''state'') else []) \<noteq> ''executing''"
    by (auto simp: Let_def bind_result_Inr_iff split: if_splits option.splits)
  have state: "dget execution ''state'' \<noteq> PStr ''executing''" using recorded by auto
  have "dict_or_none u = e \<or> dict_or_none u = []" if "dict_or_empty u = Inr e" for u e
    using that by (cases u) (auto simp: dict_or_none_def dict_or_empty_def split: if_splits)
  from this [OF execution] show "\<not> effect_may_run cps project (permit_of w)"
    using cp state by (auto simp: effect_may_run_def)
qed

lemma unsafe_effect_False:
  "unsafe_effect cps project runtime ps = Inr False \<Longrightarrow> (fp, v) \<in> set ps \<Longrightarrow>
     permit_text (permit_of v) ''runtime_session_id'' = runtime \<Longrightarrow> \<not> effect_may_run cps project (permit_of v)"
proof (induction ps)
  case (Cons kv ps)
  obtain f w where kv: "kv = (f, w)" by fastforce
  note unsafe_effect_Cons [OF Cons.prems(1) [unfolded kv]]
  with Cons kv show ?case by auto
qed simp

lemma find_filter_kept: "find P xs = Some x \<Longrightarrow> Q x \<Longrightarrow> find P (filter Q xs) = Some x"
proof (induction xs)
  case (Cons y ys)
  then show ?case by (cases "P y") (auto split: if_splits)
qed simp

lemma row_after_update:
  assumes "get_continuation db k = Some c" "get_continuation db (ct_key d') = Some d"
    "td_continuations db' = td_continuations (set_continuation db d')"
  shows "if ct_key d' = k then d = c \<and> get_continuation db' k = Some d' else get_continuation db' k = Some c"
proof -
  have "get_continuation db' k = get_continuation (set_continuation db d') k"
    using assms(3) by (simp add: get_continuation_def)
  then show ?thesis
    using assms(1,2) get_set_continuation [of db k d d'] get_set_continuation_other [of d' k db] by auto
qed

text \<open>A run that has begun is not taken over while its effects may run.  Whatever command comes
  next, the row of a claim that is \<open>executing\<close> keeps this claim and state, unless the claim itself
  finishes with nothing left to continue, or another claim finds the lease expired and every permit
  of the runtime at a checkpoint that exists and records no started effect.\<close>

theorem running_claim_keeps_its_task:
  assumes "get_continuation db k = Some c" "ct_state c = ''executing''" "continuation_step db op = (b, db')"
  shows "(\<exists>c'. get_continuation db' k = Some c' \<and> ct_claim_id c' = ct_claim_id c \<and> ct_state c' = ''executing'') \<or>
    (\<exists>row l. task_row (td_store db) (ct_task_id c) = Some row \<and>
       canonicalize_task_runtime_tool_ledger (tk_context_snapshot row) (tk_metadata row) = Inr l \<and>
       ((\<exists>project task runtime consumer claim. op = Finish_Run project task runtime consumer claim \<and>
           held_by c (py_strip consumer) (py_strip claim) \<and> \<not> ledger_active l) \<or>
        (\<exists>scope project task runtime consumer duration new_id now.
           op = Claim scope project task runtime consumer duration new_id now \<and>
           ct_lease_expires_at c \<le> now \<and>
           (\<forall>fp v. (fp, v) \<in> set (lg_permits l) \<longrightarrow>
              permit_text (permit_of v) ''runtime_session_id'' = ct_runtime_session_id c \<longrightarrow>
              \<not> effect_may_run (td_checkpoints db) (ct_project_id c) (permit_of v)))))"
proof (cases op)
  case (Claim scope project task runtime consumer duration new_id now)
  obtain r where step: "claim_runtime_tool_continuation scope db project task runtime consumer duration new_id now = (r, db')"
    using assms(3) Claim by (metis continuation_step.simps(1) prod.collapse prod.inject)
  from step show ?thesis
  proof (cases rule: continuation_claim_cases)
    case unchanged
    then show ?thesis using assms(1,2) by (auto simp: get_continuation_def)
  next
    case (inserted d)
    then have "get_continuation db' k = Some c"
      using assms(1) by (auto simp: get_continuation_def find_append)
    then show ?thesis using assms(2) by blast
  next
    case (kept d d')
    show ?thesis using row_after_update [OF assms(1) kept(1,4)] kept(2,3) assms(2) by (auto split: if_splits)
  next
    case (reclaimed d d' row l)
    show ?thesis
    proof (cases "ct_key d' = k")
      case False
      then have "get_continuation db' k = Some c"
        using row_after_update [OF assms(1) reclaimed(1,3)] by simp
      then show ?thesis using assms(2) by blast
    next
      case True
      with reclaimed(1) assms(1) have d: "d = c" by simp
      have "\<not> effect_may_run (td_checkpoints db) (ct_project_id c) (permit_of v)"
        if "(fp, v) \<in> set (lg_permits l)" "permit_text (permit_of v) ''runtime_session_id'' = ct_runtime_session_id c" for fp v
        using reclaimed(8) assms(2) d that unsafe_effect_False by blast
      then show ?thesis using reclaimed(4,5,6) d Claim by blast
    qed
  qed
next
  case (Renewal project task runtime consumer claim duration now)
  obtain r where step: "renew_runtime_tool_continuation db project task runtime consumer claim duration now = (r, db')"
    using assms(3) Renewal by (metis continuation_step.simps(2) prod.collapse prod.inject)
  from step [unfolded renew_runtime_tool_continuation_def] show ?thesis
  proof (cases rule: with_claim_cases)
    case unchanged
    with assms(1,2) show ?thesis by blast
  next
    case (changed d d')
    have "ct_key d' = ct_key d" "ct_claim_id d' = ct_claim_id d" "ct_state d' = ct_state d"
      using changed(3) by (auto simp: ct_key_def)
    moreover have "get_continuation db (ct_key d) = Some d"
      using changed(1) get_continuation_key [OF changed(1)] by simp
    ultimately show ?thesis using row_after_update [OF assms(1) _ changed(5), of d] assms(2) by (auto split: if_splits)
  qed
next
  case (Begin_Run project task runtime consumer claim)
  obtain r where step: "begin_runtime_tool_continuation db project task runtime consumer claim = (r, db')"
    using assms(3) Begin_Run by (auto split: prod.splits)
  from step [unfolded begin_runtime_tool_continuation_def] show ?thesis
  proof (cases rule: with_claim_cases)
    case unchanged
    with assms(1,2) show ?thesis by blast
  next
    case (changed d d')
    have "ct_key d' = ct_key d" "ct_claim_id d' = ct_claim_id d" "ct_state d' = ''executing''"
      using changed(3) by (auto simp: ct_key_def split: if_splits)
    moreover have "get_continuation db (ct_key d) = Some d"
      using changed(1) get_continuation_key [OF changed(1)] by simp
    ultimately show ?thesis using row_after_update [OF assms(1) _ changed(5), of d] assms(2) by (auto split: if_splits)
  qed
next
  case (Finish_Run project task runtime consumer claim)
  obtain r where step: "finish_runtime_tool_continuation db project task runtime consumer claim = (r, db')"
    using assms(3) Finish_Run by (metis continuation_step.simps(4) prod.collapse prod.inject)
  from step show ?thesis
  proof (cases rule: finish_cases)
    case unchanged
    then show ?thesis using assms(1,2) by (auto simp: get_continuation_def)
  next
    case (removed d row l)
    show ?thesis
    proof (cases "c = d")
      case True
      have "ct_task_id c = py_strip task" using get_continuation_key [OF removed(1)] True by (auto simp: ct_key_def)
      then have "task_row (td_store db) (ct_task_id c) = Some row" using removed(4) by simp
      moreover have "held_by c (py_strip consumer) (py_strip claim)" using removed(2) True by simp
      ultimately show ?thesis using removed(5,6) Finish_Run by blast
    next
      case False
      have "ct_key d \<noteq> k"
        using False removed(1) assms(1) get_continuation_key [OF removed(1)] by auto
      moreover have "ct_key c = k" using get_continuation_key [OF assms(1)] by simp
      ultimately have "get_continuation db' k = Some c"
        unfolding get_continuation_def removed(3)
        by (intro find_filter_kept) (use assms(1) in \<open>auto simp: get_continuation_def\<close>)
      then show ?thesis using assms(2) by blast
    qed
  qed
next
  case (World st cps results)
  with assms show ?thesis by (auto simp: get_continuation_def)
qed

definition running_db :: tool_db where
  "running_db =
     (sample_db ''executing'' [])\<lparr>td_continuations :=
        [\<lparr>ct_project_id = ''default'', ct_task_id = ''t'', ct_runtime_session_id = ''rt'', ct_consumer_id = ''a'',
          ct_claim_id = ''c1'', ct_request_generation = 1, ct_state = ''executing'', ct_lease_expires_at = 5\<rparr>]\<rparr>"

theorem running_claim_keeps_its_task_witness:
  "\<exists>c'. get_continuation (snd (continuation_step running_db
       (Claim [] ''default'' ''t'' ''rt'' ''b'' 300000000 ''c2'' 900))) (''default'', ''t'', ''rt'') = Some c' \<and>
     ct_claim_id c' = ''c1'' \<and> ct_state c' = ''executing''"
proof -
  let ?op = "Claim [] ''default'' ''t'' ''rt'' ''b'' 300000000 ''c2'' 900"
  let ?k = "(''default'', ''t'', ''rt'')"
  let ?ledger = "[(''f'', PDict (sample_permit ''ready''))]"
  obtain c where c: "get_continuation running_db ?k = Some c" "ct_state c = ''executing''" "ct_claim_id c = ''c1''"
    "ct_task_id c = ''t''" "ct_project_id c = ''default''" "ct_runtime_session_id c = ''rt''"
    by (simp add: running_db_def get_continuation_def ct_key_def)
  have may: "effect_may_run (td_checkpoints running_db) ''default'' (permit_of (PDict (sample_permit ''ready'')))"
    by code_simp
  have rt: "permit_text (permit_of (PDict (sample_permit ''ready''))) ''runtime_session_id'' = ''rt''" by code_simp
  have ledger: "\<And>row l. task_row (td_store running_db) ''t'' = Some row \<Longrightarrow>
      canonicalize_task_runtime_tool_ledger (tk_context_snapshot row) (tk_metadata row) = Inr l \<Longrightarrow> lg_permits l = ?ledger"
  proof -
    fix row l
    assume "task_row (td_store running_db) ''t'' = Some row"
      "canonicalize_task_runtime_tool_ledger (tk_context_snapshot row) (tk_metadata row) = Inr l"
    moreover have "tool_ledger (td_store running_db) ''t'' = Inr (?ledger, False, ''rt'')" by code_simp
    ultimately show "lg_permits l = ?ledger" by (auto simp: tool_ledger_def)
  qed
  obtain b db' where step: "continuation_step running_db ?op = (b, db')" by fastforce
  from running_claim_keeps_its_task [OF c(1,2) step] show ?thesis
  proof (elim disjE exE conjE)
    fix c' assume "get_continuation db' ?k = Some c'" "ct_claim_id c' = ct_claim_id c" "ct_state c' = ''executing''"
    then show ?thesis using step c(3) by auto
  next
    fix row l scope project task runtime consumer duration new_id now
    assume row: "task_row (td_store running_db) (ct_task_id c) = Some row"
      and l: "canonicalize_task_runtime_tool_ledger (tk_context_snapshot row) (tk_metadata row) = Inr l"
      and safe: "\<forall>fp v. (fp, v) \<in> set (lg_permits l) \<longrightarrow>
        permit_text (permit_of v) ''runtime_session_id'' = ct_runtime_session_id c \<longrightarrow>
        \<not> effect_may_run (td_checkpoints running_db) (ct_project_id c) (permit_of v)"
    have "lg_permits l = ?ledger" using ledger row l c(4) by simp
    then show ?thesis using safe may rt c(5,6) by auto
  qed simp_all
qed

end
