(* ===== verification/NativePermissions.thy ===== *)
theory NativePermissions
  imports ToolLedger "HOL-Library.List_Lexorder" "HOL-Library.Char_ord"
begin

text \<open>
  The permission policy of native tools (\<open>opc/core/native_permissions.py\<close>): the three levels, the
  effects a tool declares (\<open>opc/layer4_tools/registry.py\<close>), the sandbox of a level, the decision
  about one call, and the level as a live setting of a scope, which every task of one root session
  and of its descendants observes.  The operator's edit of a scope
  (\<open>opc/database/store.py\<close>, \<open>set_native_permission_scope\<close>) writes the tasks of the scope next to
  their running saves.

  The test for a sandbox binary and the directory a granted path stands for depend on the
  machine; they are the record \<open>machine\<close>.  \<open>migrate_legacy_native_approval_level\<close> reads
  floats and is not modelled.
\<close>

section \<open>Levels\<close>

datatype native_approval_level = ReadOnly | Auto | FullAccess

fun level_text :: "native_approval_level \<Rightarrow> string" where
  "level_text ReadOnly = ''read-only''"
| "level_text Auto = ''auto''"
| "level_text FullAccess = ''full-access''"

definition level_aliases :: "(string \<times> string) list" where
  "level_aliases =
     [(''readonly'', ''read-only''), (''read'', ''read-only''), (''workspace-write'', ''auto''),
      (''full'', ''full-access''), (''unrestricted'', ''full-access''), (''danger-full-access'', ''full-access'')]"

definition dashed :: "string \<Rightarrow> string" where
  \<comment> \<open>\<open>s.replace("_", "-")\<close>\<close>
  "dashed s = map (\<lambda>c. if c = CHR ''_'' then CHR ''-'' else c) s"

definition parse_native_approval_level :: "pyval \<Rightarrow> native_approval_level result" where
  "parse_native_approval_level v =
     (let s = dashed (clean_lower v);
          normalized = (case map_of level_aliases s of None \<Rightarrow> s | Some canonical \<Rightarrow> canonical)
      in if normalized = ''read-only'' then Inr ReadOnly
         else if normalized = ''auto'' then Inr Auto
         else if normalized = ''full-access'' then Inr FullAccess
         else Inl ValueError)"

definition normalize_native_approval_level :: "pyval \<Rightarrow> native_approval_level \<Rightarrow> native_approval_level" where
  "normalize_native_approval_level v fallback = result_or fallback (parse_native_approval_level v)"

section \<open>Declared effects\<close>

definition NATIVE_PERMISSION_EFFECTS :: "string list" where
  "NATIVE_PERMISSION_EFFECTS =
     [''local_read'', ''workspace_write'', ''process_execute'', ''network_access'',
      ''external_side_effect'', ''runtime_internal'', ''unknown'']"

text \<open>The fields of a \<open>ToolDefinition\<close> that the policy and the planner read.\<close>

record tool =
  tl_name :: string
  tl_category :: string
  tl_concurrency_safe :: "bool option"
  tl_read_only :: "bool option"
  tl_permission_effects :: "pyval list option"

definition tool_definition ::
  "string \<Rightarrow> string \<Rightarrow> bool option \<Rightarrow> bool option \<Rightarrow> pyval list option \<Rightarrow> tool result" where
  \<comment> \<open>\<open>ToolDefinition.__init__\<close>: an effect that is not in the list is refused\<close>
  "tool_definition name category concurrency_safe read_only declared =
     (let made = (\<lambda>effects. \<lparr>tl_name = name, tl_category = category, tl_concurrency_safe = concurrency_safe,
                             tl_read_only = read_only, tl_permission_effects = effects\<rparr>)
      in case declared of
           None \<Rightarrow> Inr (made None)
         | Some items \<Rightarrow>
             (let effects = dedup (map clean_lower items)
              in if list_ex (\<lambda>e. e \<notin> set NATIVE_PERMISSION_EFFECTS) effects then Inl ValueError
                 else Inr (made (Some (map PStr effects)))))"

definition permission_effects_for_tool :: "tool \<Rightarrow> string set" where
  "permission_effects_for_tool tool =
     (case tl_permission_effects tool of
        None \<Rightarrow> {''unknown''}
      | Some raw \<Rightarrow>
          (let effects = set (filter (\<lambda>s. s \<noteq> []) (map clean_lower raw))
           in if effects = {} then {''unknown''} else effects))"

section \<open>The sandbox of a level\<close>

definition native_sandbox_profile :: "native_approval_level \<Rightarrow> pydict" where
  "native_sandbox_profile level =
     (if level = FullAccess
      then [(''enabled'', PBool False), (''mode'', PStr ''off''), (''wrapper'', PStr ''none''),
            (''fail_if_unavailable'', PBool False), (''allow_direct_fallback'', PBool True),
            (''allow_network'', PBool True), (''native_approval_level'', PStr (level_text level))]
      else [(''enabled'', PBool True),
            (''mode'', PStr (if level = ReadOnly then ''read-only'' else ''workspace-write'')),
            (''wrapper'', PStr ''auto''), (''fail_if_unavailable'', PBool True),
            (''allow_direct_fallback'', PBool False), (''allow_network'', PBool False),
            (''native_approval_level'', PStr (level_text level))])"

text \<open>
  What the policy asks the machine: whether the sandbox binary of the platform is installed, and
  the directory to open for a path, \<open>None\<close> when resolving the path raises.
\<close>

record machine =
  mc_sandbox_available :: bool
  mc_grant_directory :: "string \<Rightarrow> string option"

definition grant_sandbox ::
  "machine \<Rightarrow> native_approval_level \<Rightarrow> string set \<Rightarrow> bool \<Rightarrow> string \<Rightarrow> pydict" where
  "grant_sandbox m level effects network outside_path =
     (if level = FullAccess \<or> ''unknown'' \<in> effects \<or>
         (''process_execute'' \<in> effects \<and> \<not> mc_sandbox_available m)
      then native_sandbox_profile FullAccess
      else
        let profile = native_sandbox_profile level;
            writable = (if ''workspace_write'' \<in> effects
                        then dset ''mode'' (PStr ''workspace-write'') profile else profile);
            online = (if network \<or> ''network_access'' \<in> effects \<or> ''external_side_effect'' \<in> effects
                      then dset ''allow_network'' (PBool True) writable else writable);
            raw_path = py_strip outside_path
        in if raw_path = [] then online
           else case mc_grant_directory m raw_path of
                  None \<Rightarrow> online
                | Some directory \<Rightarrow>
                    dset ''additional_write_paths'' (PList [PStr directory]) online)"

section \<open>The level of a task\<close>

record native_context =
  nc_level :: native_approval_level
  nc_scope_id :: string

record resolver =
  rv_config_level :: pyval
  rv_session_levels :: "string \<rightharpoonup> native_approval_level"

definition default_level :: "resolver \<Rightarrow> native_approval_level" where
  "default_level r = normalize_native_approval_level (rv_config_level r) Auto"

definition set_config :: "resolver \<Rightarrow> pyval \<Rightarrow> resolver" where
  "set_config r v = r\<lparr>rv_config_level := v\<rparr>"

definition set_session_level :: "resolver \<Rightarrow> string \<Rightarrow> pyval \<Rightarrow> native_approval_level \<times> resolver" where
  "set_session_level r scope_id v =
     (let level = normalize_native_approval_level v (default_level r); key = py_strip scope_id
      in (level, if key \<noteq> [] then r\<lparr>rv_session_levels := (rv_session_levels r)(key \<mapsto> level)\<rparr> else r))"

definition task_metadata :: "task option \<Rightarrow> pydict" where
  "task_metadata t = (case t of None \<Rightarrow> [] | Some u \<Rightarrow> tk_metadata u)"

definition permission_scope_id :: "task option \<Rightarrow> string" where
  "permission_scope_id t =
     (let md = task_metadata t
      in clean (py_or (dget md ''native_permission_scope_id'')
               (py_or (dget md ''root_session_id'')
               (py_or (dget md ''company_runtime_root_session_id'')
               (py_or (dget md ''parent_session_id'')
               (case t of
                  None \<Rightarrow> PStr []
                | Some u \<Rightarrow> py_or (case tk_session_id u of None \<Rightarrow> PNone | Some s \<Rightarrow> PStr s)
                                  (PStr (tk_id u))))))))"

definition context_for_task :: "resolver \<Rightarrow> task option \<Rightarrow> native_context \<times> resolver" where
  "context_for_task r t =
     (let scope = permission_scope_id t; persisted = dget (task_metadata t) ''native_approval_level''
      in case (if scope \<noteq> [] then rv_session_levels r scope else None) of
           Some level \<Rightarrow> (\<lparr>nc_level = level, nc_scope_id = scope\<rparr>, r)
         | None \<Rightarrow>
             if persisted \<noteq> PNone \<and> persisted \<noteq> PStr []
             then let level = normalize_native_approval_level persisted (default_level r)
                  in (\<lparr>nc_level = level, nc_scope_id = scope\<rparr>,
                      if scope \<noteq> [] then r\<lparr>rv_session_levels := (rv_session_levels r)(scope \<mapsto> level)\<rparr> else r)
             else (\<lparr>nc_level = default_level r, nc_scope_id = scope\<rparr>, r))"

definition register_task :: "resolver \<Rightarrow> task \<Rightarrow> native_context \<times> task \<times> resolver" where
  "register_task r t =
     (let (ctx, r1) = context_for_task r (Some t);
          md = dset ''native_approval_level'' (PStr (level_text (nc_level ctx))) (tk_metadata t);
          scope = nc_scope_id ctx
      in if scope \<noteq> []
         then (ctx, t\<lparr>tk_metadata := dset ''native_permission_scope_id'' (PStr scope) md\<rparr>,
               r1\<lparr>rv_session_levels := (rv_session_levels r1)(scope \<mapsto> nc_level ctx)\<rparr>)
         else (ctx, t\<lparr>tk_metadata := md\<rparr>, r1))"

definition sandbox_for_task :: "resolver \<Rightarrow> task option \<Rightarrow> pydict \<times> resolver" where
  "sandbox_for_task r t =
     (let (ctx, r1) = context_for_task r t in (native_sandbox_profile (nc_level ctx), r1))"

section \<open>The decision about one call\<close>

datatype permission_resolution = PR_ALLOW | PR_ASK | PR_DENY
datatype permission_scope = SCOPE_ONCE | SCOPE_SESSION | SCOPE_PROJECT | SCOPE_GLOBAL
datatype risk_level = RISK_LOW | RISK_MEDIUM | RISK_HIGH | RISK_CRITICAL

record permission_decision =
  pd_resolution :: permission_resolution
  pd_scope :: permission_scope
  pd_risk_level :: risk_level
  pd_rationale :: string
  pd_source :: string
  pd_metadata :: pydict

text \<open>The keyword arguments of \<open>evaluate\<close>.\<close>

record tool_call =
  tc_outside_workspace :: bool
  tc_safe_read_only_process :: bool
  tc_network_hint :: bool
  tc_outside_path :: string

definition sorted_effects :: "string set \<Rightarrow> pyval" where
  "sorted_effects effects = PList (map PStr (sorted_list_of_set effects))"

definition decision_metadata :: "native_context \<Rightarrow> string set \<Rightarrow> pydict" where
  "decision_metadata ctx effects =
     [(''native_approval_level'', PStr (level_text (nc_level ctx))),
      (''native_permission_scope_id'', PStr (nc_scope_id ctx)),
      (''permission_effects'', sorted_effects effects),
      (''sandbox'', PDict (native_sandbox_profile (nc_level ctx)))]"

definition policy_allows :: "pydict \<Rightarrow> string \<Rightarrow> permission_decision" where
  "policy_allows md rationale =
     \<lparr>pd_resolution = PR_ALLOW, pd_scope = SCOPE_ONCE, pd_risk_level = RISK_LOW,
      pd_rationale = rationale, pd_source = ''native_permission_policy'', pd_metadata = md\<rparr>"

definition policy_asks :: "pydict \<Rightarrow> string \<Rightarrow> pydict \<Rightarrow> permission_decision" where
  \<comment> \<open>\<open>_ask\<close>\<close>
  "policy_asks md rationale sandbox =
     \<lparr>pd_resolution = PR_ASK, pd_scope = SCOPE_ONCE, pd_risk_level = RISK_MEDIUM,
      pd_rationale = rationale, pd_source = ''native_permission_policy'',
      pd_metadata = dset ''sandbox_override'' (PDict (dset ''grant_scope'' (PStr ''once'') sandbox)) md\<rparr>"

definition read_only_refusal ::
  "machine \<Rightarrow> string set \<Rightarrow> tool_call \<Rightarrow> (string \<times> pydict) option" where
  \<comment> \<open>the block \<open>if level == "read-only"\<close>: the rationale and the override of its two questions\<close>
  "read_only_refusal m effects c =
     (let effective = (if tc_safe_read_only_process c then effects - {''workspace_write''} else effects)
      in if effective \<inter> {''workspace_write'', ''external_side_effect'', ''network_access''} \<noteq> {}
         then Some (''Read-only mode requires approval for side effects.'',
                    grant_sandbox m ReadOnly effective False (tc_outside_path c))
         else if ''process_execute'' \<in> effects \<and> \<not> tc_safe_read_only_process c
         then Some (''Read-only mode requires approval for this process execution.'',
                    grant_sandbox m ReadOnly effects False [])
         else None)"

definition level_decision ::
  "machine \<Rightarrow> native_approval_level \<Rightarrow> string set \<Rightarrow> pydict \<Rightarrow> tool_call \<Rightarrow> permission_decision" where
  "level_decision m level effects md c =
     (if level = FullAccess
      then policy_allows md ''Native full access permits registered tools without a tool approval prompt.''
      else if ''unknown'' \<in> effects
      then policy_asks md ''Tool has no declared native permission effects.'' (native_sandbox_profile FullAccess)
      else if ''process_execute'' \<in> effects \<and> \<not> mc_sandbox_available m
      then policy_asks md
             ''The required native sandbox is unavailable; this process needs one-time approval.''
             (native_sandbox_profile FullAccess)
      else if tc_outside_workspace c
      then policy_asks md ''Tool accesses a path outside the current workspace.''
             (grant_sandbox m level effects False (tc_outside_path c))
      else if tc_network_hint c \<or> ''external_side_effect'' \<in> effects \<or> ''network_access'' \<in> effects
      then policy_asks md ''Tool requires network access or an external side effect.''
             (grant_sandbox m level effects True (tc_outside_path c))
      else case (if level = ReadOnly then read_only_refusal m effects c else None) of
             Some (rationale, sandbox) \<Rightarrow> policy_asks md rationale sandbox
           | None \<Rightarrow>
               policy_allows md (''Native '' @ level_text level @ '' policy allows this tool call.''))"

definition evaluate ::
  "machine \<Rightarrow> resolver \<Rightarrow> tool \<Rightarrow> task option \<Rightarrow> tool_call \<Rightarrow> permission_decision \<times> resolver" where
  "evaluate m r tool t c =
     (let (ctx, r1) = context_for_task r t; effects = permission_effects_for_tool tool
      in (level_decision m (nc_level ctx) effects (decision_metadata ctx effects) c, r1))"

definition approved_call_metadata ::
  "machine \<Rightarrow> resolver \<Rightarrow> tool \<Rightarrow> task option \<Rightarrow> string \<Rightarrow> bool \<Rightarrow> pydict \<times> resolver" where
  "approved_call_metadata m r tool t outside_path network_hint =
     (let (ctx, r1) = context_for_task r t; effects = permission_effects_for_tool tool;
          md = decision_metadata ctx effects;
          override = grant_sandbox m (nc_level ctx) effects network_hint outside_path
      in (if \<not> py_eq (PDict override) (PDict (native_sandbox_profile (nc_level ctx)))
          then dset ''sandbox_override'' (PDict (dset ''grant_scope'' (PStr ''persisted'') override)) md
          else md, r1))"

section \<open>The tasks of a scope\<close>

text \<open>
  One root session and its persisted descendants: a task joins when it carries the scope, or when
  its session, its parent session or its declared root is one of the sessions seen so far; a
  session of a task that joins is a session seen.  A task without an id is told apart by the
  object, here by its place in the list.
\<close>

definition selection_key :: "nat \<times> task \<Rightarrow> string + nat" where
  "selection_key it = (let tid = py_strip (tk_id (snd it)) in if tid \<noteq> [] then Inl tid else Inr (fst it))"

definition declared_root :: "task \<Rightarrow> string" where
  "declared_root t =
     (let md = tk_metadata t
      in clean (py_or (dget md ''root_session_id'')
               (py_or (dget md ''company_runtime_root_session_id'') (dget md ''parent_session_id''))))"

definition joins_scope :: "string \<Rightarrow> string set \<Rightarrow> task \<Rightarrow> bool" where
  "joins_scope scope sessions t \<longleftrightarrow>
     (scope \<noteq> [] \<and> clean (dget (tk_metadata t) ''native_permission_scope_id'') = scope) \<or>
     (opt_text (tk_session_id t) \<noteq> [] \<and> opt_text (tk_session_id t) \<in> sessions) \<or>
     (opt_text (tk_parent_session_id t) \<noteq> [] \<and> opt_text (tk_parent_session_id t) \<in> sessions) \<or>
     (declared_root t \<noteq> [] \<and> declared_root t \<in> sessions)"

record scope_search =
  ss_selected :: "task list"
  ss_keys :: "(string + nat) set"
  ss_sessions :: "string set"
  ss_changed :: bool

definition scope_visit :: "string \<Rightarrow> nat \<times> task \<Rightarrow> scope_search \<Rightarrow> scope_search" where
  "scope_visit scope it w =
     (let t = snd it; session = opt_text (tk_session_id t)
      in if selection_key it \<in> ss_keys w \<or> \<not> joins_scope scope (ss_sessions w) t then w
         else let w1 = w\<lparr>ss_selected := ss_selected w @ [t], ss_keys := insert (selection_key it) (ss_keys w)\<rparr>
              in if session \<noteq> [] \<and> session \<notin> ss_sessions w
                 then w1\<lparr>ss_sessions := insert session (ss_sessions w), ss_changed := True\<rparr>
                 else w1)"

definition scope_sweep :: "string \<Rightarrow> (nat \<times> task) list \<Rightarrow> scope_search \<Rightarrow> scope_search" where
  "scope_sweep scope its w = fold (scope_visit scope) its (w\<lparr>ss_changed := False\<rparr>)"

definition task_sessions :: "(nat \<times> task) list \<Rightarrow> string set" where
  "task_sessions its = (\<lambda>it. opt_text (tk_session_id (snd it))) ` set its"

lemma scope_visits_sessions:
  "ss_sessions w \<subseteq> ss_sessions (fold (scope_visit scope) its w) \<and>
   ss_sessions (fold (scope_visit scope) its w) \<subseteq> ss_sessions w \<union> task_sessions its \<and>
   (ss_changed (fold (scope_visit scope) its w) \<longrightarrow>
      ss_changed w \<or> ss_sessions (fold (scope_visit scope) its w) \<noteq> ss_sessions w)"
proof (induction its arbitrary: w)
  case (Cons it its)
  let ?v = "scope_visit scope it w"
  have v: "ss_sessions w \<subseteq> ss_sessions ?v"
    "ss_sessions ?v \<subseteq> insert (opt_text (tk_session_id (snd it))) (ss_sessions w)"
    "ss_changed ?v \<longrightarrow> ss_changed w \<or> ss_sessions ?v \<noteq> ss_sessions w"
    by (auto simp: scope_visit_def Let_def)
  have "task_sessions (it # its) = insert (opt_text (tk_session_id (snd it))) (task_sessions its)"
    by (simp add: task_sessions_def)
  then show ?case using Cons [of ?v] v by auto
qed simp

function scope_loop :: "string \<Rightarrow> (nat \<times> task) list \<Rightarrow> scope_search \<Rightarrow> scope_search" where
  "scope_loop scope its w =
     (let w' = scope_sweep scope its w in if ss_changed w' then scope_loop scope its w' else w')"
  by pat_completeness auto
termination
proof (relation "measure (\<lambda>(scope, its, w). card (task_sessions its - ss_sessions w))", goal_cases)
  case (2 scope its w w')
  note facts = scope_visits_sessions [of "w\<lparr>ss_changed := False\<rparr>" scope its]
  have "ss_sessions w \<subset> ss_sessions w'" "ss_sessions w' \<subseteq> ss_sessions w \<union> task_sessions its"
    using facts 2 by (auto simp: scope_sweep_def)
  then have "task_sessions its - ss_sessions w' \<subset> task_sessions its - ss_sessions w" by blast
  moreover have "finite (task_sessions its - ss_sessions w)" by (simp add: task_sessions_def)
  ultimately show ?case by (simp add: psubset_card_mono)
qed simp

declare scope_loop.simps [simp del]

definition tasks_in_native_permission_scope :: "task list \<Rightarrow> string \<Rightarrow> string \<Rightarrow> task list" where
  "tasks_in_native_permission_scope tasks root_session_id scope_id =
     (let root = py_strip root_session_id;
          scope = py_strip (if scope_id \<noteq> [] then scope_id else root)
      in ss_selected (scope_loop scope (enumerate 0 tasks)
           \<lparr>ss_selected = [], ss_keys = {}, ss_sessions = set (filter (\<lambda>s. s \<noteq> []) [root, scope]),
            ss_changed = True\<rparr>))"

section \<open>The operator's edit of a scope\<close>

definition with_native_level :: "native_approval_level \<Rightarrow> string \<Rightarrow> task \<Rightarrow> task result" where
  "with_native_level level scope_id t =
     bind_result (py_int (py_or (dget (tk_metadata t) ''native_permission_policy_revision'') (PInt 0)))
       (\<lambda>revision. Inr (t\<lparr>tk_metadata :=
          dupdate (tk_metadata t)
            [(''native_approval_level'', PStr (level_text level)),
             (''native_permission_scope_id'', PStr scope_id),
             (''native_permission_policy_revision'', PInt (revision + 1))]\<rparr>))"

definition update_task_metadata :: "task \<Rightarrow> task list \<Rightarrow> task list" where
  \<comment> \<open>\<open>UPDATE tasks SET metadata = ? WHERE id = ? AND project_id = ?\<close>\<close>
  "update_task_metadata u ts =
     map (\<lambda>t. if tk_id t = tk_id u \<and> tk_project_id t = tk_project_id u
              then t\<lparr>tk_metadata := tk_metadata u\<rparr> else t) ts"

definition set_native_permission_scope ::
  "string \<Rightarrow> store \<Rightarrow> string \<Rightarrow> string \<Rightarrow> string \<Rightarrow> pyval \<Rightarrow> task list result \<times> store" where
  "set_native_permission_scope store_project st project_id root_session_id scope_id v =
     (case parse_native_approval_level v of
        Inl e \<Rightarrow> (Inl e, st)
      | Inr level \<Rightarrow>
          if project_id = [] \<or> root_session_id = [] \<or> scope_id = [] then (Inl ValueError, st)
          else case assert_project_write_scope store_project project_id of
                 Inl e \<Rightarrow> (Inl e, st)
               | Inr _ \<Rightarrow>
                   (case map_result (with_native_level level scope_id)
                           (tasks_in_native_permission_scope
                              (filter (\<lambda>t. tk_project_id t = project_id) (st_tasks st))
                              root_session_id scope_id) of
                      Inl e \<Rightarrow> (Inl e, st)
                    | Inr selected \<Rightarrow>
                        (Inr selected, st\<lparr>st_tasks := fold update_task_metadata selected (st_tasks st)\<rparr>)))"

section \<open>Facts about levels and effects\<close>

lemma parse_level_text [simp]: "parse_native_approval_level (PStr (level_text level)) = Inr level"
  by (induction level; code_simp)

lemma normalize_level_text [simp]: "normalize_native_approval_level (PStr (level_text level)) fallback = level"
  by (simp add: normalize_native_approval_level_def)

lemma level_text_nonempty [simp]: "level_text level \<noteq> []"
  by (cases level) simp_all

lemma clean_lower_PStr [simp]: "clean_lower (PStr s) = py_lower (py_strip s)"
  by (simp add: clean_lower_def)

lemma clean_lower_idem: "clean_lower (PStr (clean_lower v)) = clean_lower v"
  by (simp add: clean_lower_def py_strip_lower)

lemma effects_nonempty: "permission_effects_for_tool tool \<noteq> {}"
  by (auto simp: permission_effects_for_tool_def Let_def split: option.splits)

lemma effects_finite: "finite (permission_effects_for_tool tool)"
  by (simp add: permission_effects_for_tool_def Let_def split: option.splits)

lemma defined_tool_effects:
  assumes "tool_definition name category concurrency read_only (Some items) = Inr tool" "items \<noteq> []"
  shows "permission_effects_for_tool tool = clean_lower ` set items"
    "permission_effects_for_tool tool \<subseteq> set NATIVE_PERMISSION_EFFECTS"
proof -
  have known: "clean_lower ` set items \<subseteq> set NATIVE_PERMISSION_EFFECTS"
    and tool: "tl_permission_effects tool = Some (map PStr (dedup (map clean_lower items)))"
    using assms(1) by (auto simp: tool_definition_def Let_def list_ex_iff split: if_splits)
  have labels: "[] \<notin> clean_lower ` set items" using known by (auto simp: NATIVE_PERMISSION_EFFECTS_def)
  have "set (filter (\<lambda>s. s \<noteq> []) (map clean_lower (map PStr (dedup (map clean_lower items)))))
      = clean_lower ` set items"
    using labels by (force simp: clean_lower_idem image_image simp del: clean_lower_PStr)
  with tool assms(2) show "permission_effects_for_tool tool = clean_lower ` set items"
    by (simp add: permission_effects_for_tool_def Let_def)
  with known show "permission_effects_for_tool tool \<subseteq> set NATIVE_PERMISSION_EFFECTS" by simp
qed

section \<open>What a call may do\<close>

text \<open>The sandbox fields a call runs with.\<close>

definition network_open :: "pydict \<Rightarrow> bool" where
  "network_open sandbox \<longleftrightarrow> dget sandbox ''allow_network'' = PBool True"

definition writable :: "pydict \<Rightarrow> bool" where
  "writable sandbox \<longleftrightarrow> dget sandbox ''mode'' \<noteq> PStr ''read-only''"

definition sandbox_off :: "pydict \<Rightarrow> bool" where
  "sandbox_off sandbox \<longleftrightarrow> dget sandbox ''enabled'' = PBool False"

definition confined :: "machine \<Rightarrow> string set \<Rightarrow> bool" where
  \<comment> \<open>a sandbox can hold the call: its effects are declared and the machine has one\<close>
  "confined m effects \<longleftrightarrow>
     ''unknown'' \<notin> effects \<and> (''process_execute'' \<notin> effects \<or> mc_sandbox_available m)"

definition reaches_out :: "string set \<Rightarrow> bool" where
  "reaches_out effects \<longleftrightarrow> ''network_access'' \<in> effects \<or> ''external_side_effect'' \<in> effects"

lemma profile_fields [simp]:
  "network_open (native_sandbox_profile level) \<longleftrightarrow> level = FullAccess"
  "sandbox_off (native_sandbox_profile level) \<longleftrightarrow> level = FullAccess"
  "writable (native_sandbox_profile level) \<longleftrightarrow> level \<noteq> ReadOnly"
  by (cases level; simp add: native_sandbox_profile_def network_open_def sandbox_off_def writable_def)+

lemma fields_dset [simp]:
  "network_open (dset k v d) \<longleftrightarrow> (if k = ''allow_network'' then v = PBool True else network_open d)"
  "sandbox_off (dset k v d) \<longleftrightarrow> (if k = ''enabled'' then v = PBool False else sandbox_off d)"
  "writable (dset k v d) \<longleftrightarrow> (if k = ''mode'' then v \<noteq> PStr ''read-only'' else writable d)"
  by (simp_all add: network_open_def sandbox_off_def writable_def)

lemma grant_sandbox_fields:
  "network_open (grant_sandbox m level effects network path) \<longleftrightarrow>
     level = FullAccess \<or> \<not> confined m effects \<or> network \<or> reaches_out effects"
  "sandbox_off (grant_sandbox m level effects network path) \<longleftrightarrow> level = FullAccess \<or> \<not> confined m effects"
  "writable (grant_sandbox m level effects network path) \<longleftrightarrow>
     level \<noteq> ReadOnly \<or> \<not> confined m effects \<or> ''workspace_write'' \<in> effects"
  by (auto simp: grant_sandbox_def confined_def reaches_out_def Let_def split: option.splits)

lemma policy_simps [simp]:
  "pd_resolution (policy_allows md rationale) = PR_ALLOW"
  "pd_resolution (policy_asks md rationale sandbox) = PR_ASK"
  "pd_metadata (policy_allows md rationale) = md"
  "dget (pd_metadata (policy_asks md rationale sandbox)) ''sandbox_override'' =
     PDict (dset ''grant_scope'' (PStr ''once'') sandbox)"
  by (simp_all add: policy_allows_def policy_asks_def)

definition runs_unasked :: "machine \<Rightarrow> native_approval_level \<Rightarrow> string set \<Rightarrow> tool_call \<Rightarrow> bool" where
  \<comment> \<open>the calls a level lets through without a question\<close>
  "runs_unasked m level effects c \<longleftrightarrow>
     level = FullAccess \<or>
     (confined m effects \<and> \<not> reaches_out effects \<and> \<not> tc_network_hint c \<and> \<not> tc_outside_workspace c \<and>
      (level = Auto \<or> tc_safe_read_only_process c \<or>
       (''process_execute'' \<notin> effects \<and> ''workspace_write'' \<notin> effects)))"

text \<open>
  The sandbox a question offers, field by field.  A directory is opened for a call that leaves the
  workspace, reaches out or writes, when it names a path the machine can resolve.
\<close>

definition extra_directory :: "machine \<Rightarrow> string set \<Rightarrow> tool_call \<Rightarrow> string option" where
  "extra_directory m effects c =
     (if confined m effects \<and> py_strip (tc_outside_path c) \<noteq> [] \<and>
         (tc_outside_workspace c \<or> tc_network_hint c \<or> reaches_out effects \<or> ''workspace_write'' \<in> effects)
      then mc_grant_directory m (py_strip (tc_outside_path c)) else None)"

definition write_paths :: "string option \<Rightarrow> pyval" where
  "write_paths directory = (case directory of None \<Rightarrow> PNone | Some d \<Rightarrow> PList [PStr d])"

definition least_grant :: "machine \<Rightarrow> native_approval_level \<Rightarrow> string set \<Rightarrow> tool_call \<Rightarrow> pydict \<Rightarrow> bool" where
  "least_grant m level effects c sandbox \<longleftrightarrow>
     (network_open sandbox \<longleftrightarrow>
        \<not> confined m effects \<or> reaches_out effects \<or> (tc_network_hint c \<and> \<not> tc_outside_workspace c)) \<and>
     (sandbox_off sandbox \<longleftrightarrow> \<not> confined m effects) \<and>
     (writable sandbox \<longleftrightarrow> \<not> confined m effects \<or> level = Auto \<or> ''workspace_write'' \<in> effects) \<and>
     dget sandbox ''additional_write_paths'' = write_paths (extra_directory m effects c)"

lemma profile_paths [simp]: "dget (native_sandbox_profile level) ''additional_write_paths'' = PNone"
  by (simp add: native_sandbox_profile_def dget_def)

lemma grant_sandbox_paths:
  "dget (grant_sandbox m level effects network path) ''additional_write_paths'' =
     write_paths (if level \<noteq> FullAccess \<and> confined m effects \<and> py_strip path \<noteq> []
                  then mc_grant_directory m (py_strip path) else None)"
  by (auto simp: grant_sandbox_def confined_def write_paths_def Let_def split: option.splits)

lemma least_grant_full: "\<not> confined m effects \<Longrightarrow> least_grant m level effects c (native_sandbox_profile FullAccess)"
  by (simp add: least_grant_def extra_directory_def write_paths_def)

lemma least_grant_level:
  assumes "level \<noteq> FullAccess" "confined m effects"
    and "network \<or> reaches_out effects \<longleftrightarrow> reaches_out effects \<or> (tc_network_hint c \<and> \<not> tc_outside_workspace c)"
    and "path = (if tc_outside_workspace c \<or> tc_network_hint c \<or> reaches_out effects \<or> ''workspace_write'' \<in> effects
                 then tc_outside_path c else [])"
  shows "least_grant m level effects c (grant_sandbox m level effects network path)"
  using assms
  by (cases level) (auto simp: least_grant_def grant_sandbox_fields grant_sandbox_paths extra_directory_def)

lemma read_only_refusal_least:
  assumes "read_only_refusal m effects c = Some (rationale, sandbox)" "confined m effects"
    "\<not> reaches_out effects" "\<not> tc_network_hint c" "\<not> tc_outside_workspace c"
  shows "least_grant m ReadOnly effects c sandbox"
proof -
  have "\<not> tc_safe_read_only_process c"
    using assms(1,3) by (auto simp: read_only_refusal_def reaches_out_def Let_def split: if_splits)
  with assms have "sandbox = grant_sandbox m ReadOnly effects False
      (if ''workspace_write'' \<in> effects then tc_outside_path c else [])"
    by (auto simp: read_only_refusal_def reaches_out_def Let_def split: if_splits)
  with assms(2-5) show ?thesis by (auto intro: least_grant_level)
qed

lemma read_only_refusal_iff:
  "read_only_refusal m effects c = None \<longleftrightarrow>
     \<not> reaches_out effects \<and>
     (tc_safe_read_only_process c \<or> (''process_execute'' \<notin> effects \<and> ''workspace_write'' \<notin> effects))"
  by (auto simp: read_only_refusal_def reaches_out_def Let_def)

lemma allowedI: "\<exists>rationale. policy_allows md x = policy_allows md rationale"
  by blast

lemma askedI:
  "least_grant m level effects c y \<Longrightarrow>
     \<exists>rationale sandbox. policy_asks md x y = policy_asks md rationale sandbox \<and> least_grant m level effects c sandbox"
  by blast

lemma level_decision_split:
  "if runs_unasked m level effects c
   then \<exists>rationale. level_decision m level effects md c = policy_allows md rationale
   else \<exists>rationale sandbox. level_decision m level effects md c = policy_asks md rationale sandbox \<and>
          least_grant m level effects c sandbox"
proof (cases "level = FullAccess \<or> \<not> confined m effects \<or> tc_outside_workspace c \<or> tc_network_hint c \<or> reaches_out effects")
  case True
  then consider (full) "level = FullAccess" | (free) "level \<noteq> FullAccess" "\<not> confined m effects"
    | (outside) "level \<noteq> FullAccess" "confined m effects" "tc_outside_workspace c"
    | (online) "level \<noteq> FullAccess" "confined m effects" "\<not> tc_outside_workspace c"
        "tc_network_hint c \<or> reaches_out effects"
    by blast
  then show ?thesis
  proof cases
    case full
    then show ?thesis using allowedI by (simp add: level_decision_def runs_unasked_def)
  next
    case free
    then have "\<exists>x. level_decision m level effects md c = policy_asks md x (native_sandbox_profile FullAccess)"
      by (auto simp: level_decision_def confined_def)
    with free show ?thesis using least_grant_full by (fastforce simp: runs_unasked_def)
  next
    case outside
    then have "\<exists>x. level_decision m level effects md c =
        policy_asks md x (grant_sandbox m level effects False (tc_outside_path c))"
      by (auto simp: level_decision_def confined_def)
    with outside show ?thesis by (auto simp: runs_unasked_def intro!: askedI least_grant_level)
  next
    case online
    then have "\<exists>x. level_decision m level effects md c =
        policy_asks md x (grant_sandbox m level effects True (tc_outside_path c))"
      by (auto simp: level_decision_def confined_def reaches_out_def)
    with online show ?thesis by (auto simp: runs_unasked_def intro!: askedI least_grant_level)
  qed
next
  case False
  then have plain: "level \<noteq> FullAccess" "confined m effects" "\<not> tc_outside_workspace c" "\<not> tc_network_hint c"
    "\<not> reaches_out effects" by auto
  then have decision: "level_decision m level effects md c =
      (case (if level = ReadOnly then read_only_refusal m effects c else None) of
         Some (rationale, sandbox) \<Rightarrow> policy_asks md rationale sandbox
       | None \<Rightarrow> policy_allows md (''Native '' @ level_text level @ '' policy allows this tool call.''))"
    by (auto simp: level_decision_def confined_def reaches_out_def)
  show ?thesis
  proof (cases "if level = ReadOnly then read_only_refusal m effects c else None")
    case None
    then have "runs_unasked m level effects c"
      using plain by (cases level) (auto simp: runs_unasked_def read_only_refusal_iff)
    with decision None show ?thesis by (auto intro: allowedI)
  next
    case (Some refusal)
    obtain rationale sandbox where refusal: "refusal = (rationale, sandbox)" by fastforce
    from Some have "level = ReadOnly" "read_only_refusal m effects c = Some refusal" by (auto split: if_splits)
    moreover from this refusal plain have "least_grant m level effects c sandbox"
      by (auto intro: read_only_refusal_least)
    moreover have "\<not> runs_unasked m level effects c"
      using calculation(1,2) plain read_only_refusal_iff [of m effects c] by (auto simp: runs_unasked_def)
    ultimately show ?thesis using decision refusal by (auto intro: askedI)
  qed
qed

lemma evaluate_fst:
  "fst (evaluate m r tool t c) =
     level_decision m (nc_level (fst (context_for_task r t))) (permission_effects_for_tool tool)
       (decision_metadata (fst (context_for_task r t)) (permission_effects_for_tool tool)) c"
  by (simp add: evaluate_def Let_def split: prod.split)

text \<open>The policy lets a call through exactly when its level covers it.  Below full access that
  takes declared effects, a machine that can sandbox a process, a target inside the workspace and
  no way out to the network or to external systems; in read-only mode it also takes a tool that
  neither writes nor runs a process, or a command proven read-only.  Every other call is a question
  to the operator; the policy itself never refuses one.\<close>

theorem native_policy_allows_exactly:
  "pd_resolution (fst (evaluate m r tool t c)) =
     (if runs_unasked m (nc_level (fst (context_for_task r t))) (permission_effects_for_tool tool) c
      then PR_ALLOW else PR_ASK)"
  using level_decision_split [of m "nc_level (fst (context_for_task r t))" "permission_effects_for_tool tool" c
      "decision_metadata (fst (context_for_task r t)) (permission_effects_for_tool tool)"]
  by (auto simp: evaluate_fst split: if_splits)

text \<open>The sandbox a decided call runs with: the override of the question when there was one.\<close>

definition call_sandbox :: "permission_decision \<Rightarrow> pydict" where
  "call_sandbox d =
     (case dget (pd_metadata d) ''sandbox_override'' of
        PDict override \<Rightarrow> override
      | _ \<Rightarrow> dict_or_none (dget (pd_metadata d) ''sandbox''))"

lemma call_sandbox_policy [simp]:
  "call_sandbox (policy_allows (decision_metadata ctx effects) x) = native_sandbox_profile (nc_level ctx)"
  "call_sandbox (policy_asks md x sandbox) = dset ''grant_scope'' (PStr ''once'') sandbox"
  by (simp_all add: call_sandbox_def decision_metadata_def dict_or_none_def)


definition shell_tool :: tool where
  "shell_tool = \<lparr>tl_name = ''shell_exec'', tl_category = ''compute'', tl_concurrency_safe = None, tl_read_only = None,
     tl_permission_effects = Some [PStr ''process_execute'', PStr ''workspace_write'']\<rparr>"

definition linux_machine :: machine where
  "linux_machine = \<lparr>mc_sandbox_available = True, mc_grant_directory = (\<lambda>p. Some p)\<rparr>"

definition read_only_task :: task where
  "read_only_task = (new_task ''t'')\<lparr>tk_session_id := Some ''s'',
     tk_metadata := [(''native_approval_level'', PStr ''READ_ONLY'')]\<rparr>"

definition fresh_resolver :: resolver where
  "fresh_resolver = \<lparr>rv_config_level = PStr ''auto'', rv_session_levels = Map.empty\<rparr>"

definition plain_call :: tool_call where
  "plain_call = \<lparr>tc_outside_workspace = False, tc_safe_read_only_process = False,
     tc_network_hint = False, tc_outside_path = []\<rparr>"


section \<open>The scope as a closure\<close>

inductive seen_session :: "string \<Rightarrow> string \<Rightarrow> task set \<Rightarrow> string \<Rightarrow> bool"
  for root :: string and scope :: string and tasks :: "task set" where
  start: "s \<in> {root, scope} \<Longrightarrow> s \<noteq> [] \<Longrightarrow> seen_session root scope tasks s"
| by_scope: "t \<in> tasks \<Longrightarrow> scope \<noteq> [] \<Longrightarrow> clean (dget (tk_metadata t) ''native_permission_scope_id'') = scope \<Longrightarrow>
    opt_text (tk_session_id t) \<noteq> [] \<Longrightarrow> seen_session root scope tasks (opt_text (tk_session_id t))"
| by_parent: "t \<in> tasks \<Longrightarrow> seen_session root scope tasks (opt_text (tk_parent_session_id t)) \<Longrightarrow>
    opt_text (tk_session_id t) \<noteq> [] \<Longrightarrow> seen_session root scope tasks (opt_text (tk_session_id t))"
| by_root: "t \<in> tasks \<Longrightarrow> seen_session root scope tasks (declared_root t) \<Longrightarrow>
    opt_text (tk_session_id t) \<noteq> [] \<Longrightarrow> seen_session root scope tasks (opt_text (tk_session_id t))"

lemma seen_session_nonempty: "seen_session root scope tasks s \<Longrightarrow> s \<noteq> []"
  by (induction rule: seen_session.induct)

lemma seen_session_joins:
  "t \<in> tasks \<Longrightarrow> joins_scope scope S t \<Longrightarrow> S \<subseteq> Collect (seen_session root scope tasks) \<Longrightarrow>
     opt_text (tk_session_id t) \<noteq> [] \<Longrightarrow> seen_session root scope tasks (opt_text (tk_session_id t))"
  unfolding joins_scope_def by (blast intro: seen_session.intros)

lemma joins_scope_mono: "joins_scope scope S t \<Longrightarrow> S \<subseteq> T \<Longrightarrow> joins_scope scope T t"
  by (auto simp: joins_scope_def)

definition search_ok :: "string \<Rightarrow> string \<Rightarrow> (nat \<times> task) list \<Rightarrow> scope_search \<Rightarrow> bool" where
  "search_ok root scope its w \<longleftrightarrow>
     ss_sessions w \<subseteq> Collect (seen_session root scope (snd ` set its)) \<and>
     (\<exists>chosen. ss_selected w = map snd chosen \<and> ss_keys w = selection_key ` set chosen \<and> distinct chosen \<and>
        set chosen \<subseteq> {it \<in> set its. joins_scope scope (ss_sessions w) (snd it) \<and>
                       (opt_text (tk_session_id (snd it)) \<noteq> [] \<longrightarrow> opt_text (tk_session_id (snd it)) \<in> ss_sessions w)})"

lemma search_ok_chosen:
  assumes "search_ok root scope its w"
  obtains chosen where "ss_selected w = map snd chosen" "ss_keys w = selection_key ` set chosen" "distinct chosen"
    "set chosen \<subseteq> {it \<in> set its. joins_scope scope (ss_sessions w) (snd it) \<and>
       (opt_text (tk_session_id (snd it)) \<noteq> [] \<longrightarrow> opt_text (tk_session_id (snd it)) \<in> ss_sessions w)}"
  using assms unfolding search_ok_def by blast

lemma search_ok_visit:
  assumes "search_ok root scope its w" "it \<in> set its"
  shows "search_ok root scope its (scope_visit scope it w)"
proof (cases "selection_key it \<in> ss_keys w \<or> \<not> joins_scope scope (ss_sessions w) (snd it)")
  case True
  then have "scope_visit scope it w = w" by (simp add: scope_visit_def Let_def)
  with assms(1) show ?thesis by simp
next
  case False
  let ?w = "scope_visit scope it w" and ?s = "opt_text (tk_session_id (snd it))"
  from assms(1) obtain chosen where chosen: "ss_selected w = map snd chosen" "ss_keys w = selection_key ` set chosen"
      "distinct chosen"
    and fine: "set chosen \<subseteq> {it \<in> set its. joins_scope scope (ss_sessions w) (snd it) \<and>
      (opt_text (tk_session_id (snd it)) \<noteq> [] \<longrightarrow> opt_text (tk_session_id (snd it)) \<in> ss_sessions w)}"
    and below: "ss_sessions w \<subseteq> Collect (seen_session root scope (snd ` set its))"
    by (auto simp: search_ok_def)
  have w: "ss_selected ?w = map snd (chosen @ [it])" "ss_keys ?w = selection_key ` set (chosen @ [it])"
    "ss_sessions ?w = (if ?s \<noteq> [] then insert ?s (ss_sessions w) else ss_sessions w)"
    using False chosen by (auto simp: scope_visit_def Let_def)
  have "distinct (chosen @ [it])" using False chosen by auto
  moreover have "ss_sessions ?w \<subseteq> Collect (seen_session root scope (snd ` set its))"
    using w(3) below False assms(2) seen_session_joins [OF _ _ below, of "snd it"] by auto
  moreover have "ss_sessions w \<subseteq> ss_sessions ?w" using w(3) by auto
  moreover have "set (chosen @ [it]) \<subseteq> {it \<in> set its. joins_scope scope (ss_sessions ?w) (snd it) \<and>
      (opt_text (tk_session_id (snd it)) \<noteq> [] \<longrightarrow> opt_text (tk_session_id (snd it)) \<in> ss_sessions ?w)}"
    using fine False assms(2) joins_scope_mono [OF _ calculation(3)] w(3) by auto
  ultimately show ?thesis unfolding search_ok_def using w(1,2) by blast
qed

lemma search_ok_visits:
  "search_ok root scope its w \<Longrightarrow> set js \<subseteq> set its \<Longrightarrow> search_ok root scope its (fold (scope_visit scope) js w)"
  by (induction js arbitrary: w) (auto simp: search_ok_visit)

lemma search_ok_sweep: "search_ok root scope its w \<Longrightarrow> search_ok root scope its (scope_sweep scope its w)"
  unfolding scope_sweep_def by (rule search_ok_visits) (auto simp: search_ok_def)

lemma quiet_visits:
  assumes "\<not> ss_changed (fold (scope_visit scope) its w)"
  shows "\<not> ss_changed w \<and> ss_sessions (fold (scope_visit scope) its w) = ss_sessions w \<and>
    ss_keys w \<subseteq> ss_keys (fold (scope_visit scope) its w) \<and>
    (\<forall>it\<in>set its. joins_scope scope (ss_sessions w) (snd it) \<longrightarrow>
       selection_key it \<in> ss_keys (fold (scope_visit scope) its w))"
  using assms
proof (induction its arbitrary: w)
  case (Cons it its)
  let ?v = "scope_visit scope it w"
  from Cons.prems have "\<not> ss_changed (fold (scope_visit scope) its ?v)" by simp
  note rest = Cons.IH [OF this]
  have v: "\<not> ss_changed ?v \<Longrightarrow> \<not> ss_changed w \<and> ss_sessions ?v = ss_sessions w"
    "ss_keys w \<subseteq> ss_keys ?v" "joins_scope scope (ss_sessions w) (snd it) \<Longrightarrow> selection_key it \<in> ss_keys ?v"
    by (auto simp: scope_visit_def Let_def)
  show ?case using rest v by auto
qed simp

lemma scope_loop_result:
  "search_ok root scope its w \<Longrightarrow>
     search_ok root scope its (scope_loop scope its w) \<and>
     (\<forall>it\<in>set its. joins_scope scope (ss_sessions (scope_loop scope its w)) (snd it) \<longrightarrow>
        selection_key it \<in> ss_keys (scope_loop scope its w)) \<and>
     ss_sessions w \<subseteq> ss_sessions (scope_loop scope its w)"
proof (induction scope its w rule: scope_loop.induct)
  case (1 scope its w)
  let ?v = "scope_sweep scope its w"
  have v: "search_ok root scope its ?v" "ss_sessions w \<subseteq> ss_sessions ?v"
    using search_ok_sweep [OF 1(2)] scope_visits_sessions [of "w\<lparr>ss_changed := False\<rparr>" scope its]
    by (auto simp: scope_sweep_def)
  show ?case
  proof (cases "ss_changed ?v")
    case True
    then have "scope_loop scope its w = scope_loop scope its ?v" by (subst scope_loop.simps) (simp add: Let_def)
    with 1(1) [OF refl True v(1)] v(2) show ?thesis by auto
  next
    case False
    then have "scope_loop scope its w = ?v" by (subst scope_loop.simps) (simp add: Let_def)
    with v quiet_visits [OF False [unfolded scope_sweep_def]] show ?thesis by (simp add: scope_sweep_def)
  qed
qed

lemma seen_session_closed:
  assumes "search_ok root scope its w" "{s \<in> {root, scope}. s \<noteq> []} \<subseteq> ss_sessions w"
    and "inj_on selection_key (set its)"
    and all: "\<forall>it\<in>set its. joins_scope scope (ss_sessions w) (snd it) \<longrightarrow> selection_key it \<in> ss_keys w"
    and "seen_session root scope (snd ` set its) s"
  shows "s \<in> ss_sessions w"
proof -
  have step: "opt_text (tk_session_id t) \<in> ss_sessions w"
    if "t \<in> snd ` set its" "joins_scope scope (ss_sessions w) t" "opt_text (tk_session_id t) \<noteq> []" for t
  proof -
    from that(1) obtain i where it: "(i, t) \<in> set its" by auto
    from assms(1) obtain chosen where chosen: "ss_keys w = selection_key ` set chosen"
      "set chosen \<subseteq> {it \<in> set its. opt_text (tk_session_id (snd it)) \<noteq> [] \<longrightarrow>
         opt_text (tk_session_id (snd it)) \<in> ss_sessions w}"
      by (auto simp: search_ok_def)
    from all it that(2) have "selection_key (i, t) \<in> ss_keys w" by auto
    with chosen obtain jt where jt: "jt \<in> set chosen" "selection_key jt = selection_key (i, t)" by auto
    then have "jt = (i, t)" using chosen(2) it assms(3) by (auto dest: inj_onD)
    with jt chosen(2) that(3) show ?thesis by auto
  qed
  from assms(5) show ?thesis
  proof (induction rule: seen_session.induct)
    case (start s)
    with assms(2) show ?case by auto
  next
    case (by_scope t)
    then show ?case by (intro step) (auto simp: joins_scope_def)
  next
    case (by_parent t)
    then show ?case using seen_session_nonempty by (intro step) (auto simp: joins_scope_def)
  next
    case (by_root t)
    then show ?case using seen_session_nonempty by (intro step) (auto simp: joins_scope_def)
  qed
qed

text \<open>C25. The tasks of a permission scope are one root session and all its descendants: the loop ends,
  selects no task twice, and selects exactly the tasks that carry the scope or whose own session,
  parent session or declared root is reachable from the root session through the tasks given, in
  whatever order the rows come.\<close>

theorem permission_scope_is_closure:
  assumes "inj_on selection_key (set (enumerate 0 tasks))" "distinct tasks"
    and "root = py_strip root_session_id" "scope = py_strip (if scope_id \<noteq> [] then scope_id else root)"
  shows "distinct (tasks_in_native_permission_scope tasks root_session_id scope_id) \<and>
     set (tasks_in_native_permission_scope tasks root_session_id scope_id) =
       {t \<in> set tasks. joins_scope scope (Collect (seen_session root scope (set tasks))) t}"
proof -
  let ?its = "enumerate 0 tasks"
  define w where "w = \<lparr>ss_selected = [], ss_keys = {}, ss_sessions = set (filter (\<lambda>s. s \<noteq> []) [root, scope]),
            ss_changed = True\<rparr>"
  define z where "z = scope_loop scope ?its w"
  have tasks: "snd ` set ?its = set tasks" by (metis list.set_map map_snd_enumerate)
  have "search_ok root scope ?its w" by (auto simp: search_ok_def w_def intro: seen_session.start)
  note result = scope_loop_result [OF this, folded z_def]
  have sessions: "ss_sessions z = Collect (seen_session root scope (set tasks))"
  proof
    show "ss_sessions z \<subseteq> Collect (seen_session root scope (set tasks))"
      using result tasks by (auto simp: search_ok_def)
    have "{s \<in> {root, scope}. s \<noteq> []} \<subseteq> ss_sessions z" using result by (auto simp: w_def)
    then show "Collect (seen_session root scope (set tasks)) \<subseteq> ss_sessions z"
      using result assms(1) tasks seen_session_closed [of root scope ?its z] by auto
  qed
  from result obtain chosen where chosen: "ss_selected z = map snd chosen" "ss_keys z = selection_key ` set chosen"
      "distinct chosen" "set chosen \<subseteq> {it \<in> set ?its. joins_scope scope (ss_sessions z) (snd it) \<and>
        (opt_text (tk_session_id (snd it)) \<noteq> [] \<longrightarrow> opt_text (tk_session_id (snd it)) \<in> ss_sessions z)}"
    by (auto elim: search_ok_chosen)
  have exact: "it \<in> set chosen" if "it \<in> set ?its" "joins_scope scope (ss_sessions z) (snd it)" for it
  proof -
    from result that have "selection_key it \<in> selection_key ` set chosen" using chosen(2) by auto
    then show ?thesis using chosen(4) that(1) assms(1) by (force dest: inj_onD)
  qed
  have "inj_on snd (set ?its)"
    using assms(2) by (metis distinct_map map_snd_enumerate)
  then have "inj_on snd (set chosen)" using chosen(4) by (auto intro: inj_on_subset)
  then have "distinct (ss_selected z)" using chosen(1,3) by (simp add: distinct_map)
  moreover have "set (ss_selected z) = {t \<in> set tasks. joins_scope scope (ss_sessions z) t}"
    using chosen(1,4) exact tasks by (force simp: image_iff)
  moreover have "tasks_in_native_permission_scope tasks root_session_id scope_id = ss_selected z"
    by (simp add: tasks_in_native_permission_scope_def z_def w_def assms(3,4) Let_def)
  ultimately show ?thesis by (simp add: sessions)
qed

definition scoped_tasks :: "task list" where
  "scoped_tasks =
     [(new_task ''grandchild'')\<lparr>tk_session_id := Some ''s2'', tk_parent_session_id := Some ''s1''\<rparr>,
      (new_task ''other'')\<lparr>tk_session_id := Some ''x''\<rparr>,
      (new_task ''child'')\<lparr>tk_session_id := Some ''s1'', tk_metadata := [(''root_session_id'', PStr ''root'')]\<rparr>]"

theorem permission_scope_is_closure_witness:
  "set (tasks_in_native_permission_scope scoped_tasks ''root'' []) =
     {t \<in> set scoped_tasks. joins_scope ''root'' (Collect (seen_session ''root'' ''root'' (set scoped_tasks))) t} \<and>
   map tk_id (tasks_in_native_permission_scope scoped_tasks ''root'' []) = [''child'', ''grandchild'']"
proof -
  have "inj_on selection_key (set (enumerate 0 scoped_tasks))" by code_simp
  moreover have "distinct scoped_tasks" by code_simp
  moreover have "''root'' = py_strip ''root''" "''root'' = py_strip (if [] \<noteq> ([] :: string) then [] else ''root'')"
    by code_simp+
  ultimately have "set (tasks_in_native_permission_scope scoped_tasks ''root'' []) =
     {t \<in> set scoped_tasks. joins_scope ''root'' (Collect (seen_session ''root'' ''root'' (set scoped_tasks))) t}"
    using permission_scope_is_closure [of scoped_tasks "''root''" "''root''" "''root''" "[]"] by blast
  moreover have "map tk_id (tasks_in_native_permission_scope scoped_tasks ''root'' []) = [''child'', ''grandchild'']"
    by code_simp
  ultimately show ?thesis by simp
qed

section \<open>One live setting per scope\<close>

datatype resolver_step =
  Set_config pyval | Set_level string pyval | Look "task option" | Register task

fun resolver_do :: "resolver \<Rightarrow> resolver_step \<Rightarrow> resolver" where
  "resolver_do r (Set_config v) = set_config r v"
| "resolver_do r (Set_level s v) = snd (set_session_level r s v)"
| "resolver_do r (Look t) = snd (context_for_task r t)"
| "resolver_do r (Register t) = snd (snd (register_task r t))"

fun sets_level_of :: "string \<Rightarrow> resolver_step \<Rightarrow> bool" where
  "sets_level_of scope (Set_level s v) \<longleftrightarrow> py_strip s = scope"
| "sets_level_of scope _ \<longleftrightarrow> False"

lemma context_scope [simp]: "nc_scope_id (fst (context_for_task r t)) = permission_scope_id t"
  by (simp add: context_for_task_def Let_def split: option.split)

lemma context_of_set_scope:
  "rv_session_levels r scope = Some level \<Longrightarrow> permission_scope_id t = scope \<Longrightarrow> scope \<noteq> [] \<Longrightarrow>
     context_for_task r t = (\<lparr>nc_level = level, nc_scope_id = scope\<rparr>, r)"
  by (simp add: context_for_task_def)

lemma context_keeps_level:
  "rv_session_levels r scope = Some level \<Longrightarrow>
     rv_session_levels (snd (context_for_task r t)) scope = Some level"
  by (auto simp: context_for_task_def Let_def split: option.split)

lemma resolver_step_keeps_level:
  assumes "rv_session_levels r scope = Some level" "scope \<noteq> []" "\<not> sets_level_of scope op"
  shows "rv_session_levels (resolver_do r op) scope = Some level"
proof (cases op)
  case (Register t)
  obtain ctx r1 where c: "context_for_task r (Some t) = (ctx, r1)" by fastforce
  then have "nc_scope_id ctx = scope \<Longrightarrow> nc_level ctx = level"
    using assms(1,2) context_of_set_scope [of r scope level "Some t"] context_scope [of r "Some t"] by auto
  moreover have "rv_session_levels r1 scope = Some level" using c assms(1) context_keeps_level by (metis snd_conv)
  ultimately show ?thesis using c Register by (auto simp: register_task_def Let_def)
qed (use assms in \<open>auto simp: set_config_def set_session_level_def Let_def intro: context_keeps_level\<close>)

lemma resolver_run_keeps_level:
  "rv_session_levels r scope = Some level \<Longrightarrow> scope \<noteq> [] \<Longrightarrow> \<not> list_ex (sets_level_of scope) ops \<Longrightarrow>
     rv_session_levels (foldl resolver_do r ops) scope = Some level"
  by (induction ops arbitrary: r) (auto intro: resolver_step_keeps_level)

text \<open>The level of a scope is one live setting.  Once the operator has set it, every task whose
  metadata or session names that scope is decided under it, whatever level the task carries from
  earlier, after any sequence of decisions, registrations of tasks, changes of the configured
  default and settings of other scopes, until the operator sets this scope again.\<close>

theorem scope_level_is_live:
  assumes "permission_scope_id t = py_strip s" "py_strip s \<noteq> []" "\<not> list_ex (sets_level_of (py_strip s)) ops"
  shows "nc_level (fst (context_for_task (foldl resolver_do (snd (set_session_level r s v)) ops) t)) =
         fst (set_session_level r s v)"
proof -
  have "rv_session_levels (snd (set_session_level r s v)) (py_strip s) = Some (fst (set_session_level r s v))"
    using assms(2) by (simp add: set_session_level_def Let_def)
  from context_of_set_scope [OF resolver_run_keeps_level [OF this assms(2,3)] assms(1,2)]
  show ?thesis by simp
qed

theorem scope_level_is_live_witness:
  "nc_level (fst (context_for_task
     (foldl resolver_do (snd (set_session_level fresh_resolver '' s '' (PStr ''full'')))
        [Register read_only_task, Set_config (PStr ''read-only''), Set_level ''x'' (PStr ''auto''), Look None])
     (Some read_only_task))) = FullAccess"
proof -
  let ?ops = "[Register read_only_task, Set_config (PStr ''read-only''), Set_level ''x'' (PStr ''auto''), Look None]"
  have "permission_scope_id (Some read_only_task) = py_strip '' s ''" by code_simp
  moreover have "py_strip '' s '' \<noteq> []" "\<not> list_ex (sets_level_of (py_strip '' s '')) ?ops" by code_simp+
  ultimately have "nc_level (fst (context_for_task
      (foldl resolver_do (snd (set_session_level fresh_resolver '' s '' (PStr ''full''))) ?ops)
      (Some read_only_task))) = fst (set_session_level fresh_resolver '' s '' (PStr ''full''))"
    by (rule scope_level_is_live)
  moreover have "fst (set_session_level fresh_resolver '' s '' (PStr ''full'')) = FullAccess" by code_simp
  ultimately show ?thesis by simp
qed

text \<open>Registering a task writes its level and scope where a later process finds them: a resolver
  that knows nothing of the scope, with any configured default, reads from the registered task the
  context under which it was registered.\<close>

theorem registered_level_survives_restart:
  assumes "register_task r t = (ctx, t', r')" "rv_session_levels r0 (nc_scope_id ctx) = None"
  shows "fst (context_for_task r0 (Some t')) = ctx"
proof -
  obtain r1 where c: "context_for_task r (Some t) = (ctx, r1)"
    using assms(1) by (auto simp: register_task_def Let_def split: prod.splits if_splits)
  have scope: "nc_scope_id ctx = permission_scope_id (Some t)" using c context_scope by (metis fst_conv)
  then have strip: "py_strip (nc_scope_id ctx) = nc_scope_id ctx" by (simp add: permission_scope_id_def Let_def)
  show ?thesis
  proof (cases "nc_scope_id ctx = []")
    case True
    then have t': "t' = t\<lparr>tk_metadata := dset ''native_approval_level'' (PStr (level_text (nc_level ctx))) (tk_metadata t)\<rparr>"
      using assms(1) c by (simp add: register_task_def)
    have "permission_scope_id (Some t') = permission_scope_id (Some t)"
      by (simp add: t' permission_scope_id_def task_metadata_def Let_def)
    with True scope show ?thesis by (simp add: context_for_task_def Let_def t' task_metadata_def)
  next
    case False
    then have t': "t' = t\<lparr>tk_metadata := dset ''native_permission_scope_id'' (PStr (nc_scope_id ctx))
        (dset ''native_approval_level'' (PStr (level_text (nc_level ctx))) (tk_metadata t))\<rparr>"
      using assms(1) c by (simp add: register_task_def Let_def)
    have "permission_scope_id (Some t') = nc_scope_id ctx"
      using False strip by (simp add: t' permission_scope_id_def task_metadata_def py_or_def Let_def)
    with assms(2) show ?thesis by (simp add: context_for_task_def Let_def t' task_metadata_def)
  qed
qed

theorem registered_level_survives_restart_witness:
  "fst (context_for_task (fresh_resolver\<lparr>rv_config_level := PStr ''full''\<rparr>)
     (Some (fst (snd (register_task fresh_resolver read_only_task))))) =
   \<lparr>nc_level = ReadOnly, nc_scope_id = ''s''\<rparr>"
proof -
  have ctx: "fst (register_task fresh_resolver read_only_task) = \<lparr>nc_level = ReadOnly, nc_scope_id = ''s''\<rparr>"
    by code_simp
  have "fst (context_for_task (fresh_resolver\<lparr>rv_config_level := PStr ''full''\<rparr>)
      (Some (fst (snd (register_task fresh_resolver read_only_task))))) = fst (register_task fresh_resolver read_only_task)"
    by (rule registered_level_survives_restart [of _ _ _ _ "snd (snd (register_task fresh_resolver read_only_task))"])
      (simp_all add: fresh_resolver_def)
  with ctx show ?thesis by simp
qed

section \<open>The edit and the saves around it\<close>

definition operator_settings :: "task \<Rightarrow> pyval list" where
  "operator_settings t = map (dget (tk_metadata t)) NATIVE_PERMISSION_KEYS"

definition operator_owned :: "task \<Rightarrow> bool" where
  \<comment> \<open>the row carries an operator's setting: a revision and all three fields\<close>
  "operator_owned t \<longleftrightarrow>
     truthy (dget (tk_metadata t) ''native_permission_policy_revision'') \<and>
     list_all (dhas (tk_metadata t)) NATIVE_PERMISSION_KEYS"

lemma keep_native_owned:
  assumes "operator_owned row" "k \<in> set NATIVE_PERMISSION_KEYS"
  shows "dget (keep_native_permissions (tk_metadata row) md) k = dget (tk_metadata row) k \<and>
         dhas (keep_native_permissions (tk_metadata row) md) k"
  using assms by (auto simp: keep_native_permissions_def operator_owned_def NATIVE_PERMISSION_KEYS_def)

lemma merged_settings:
  assumes "merge_store_owned_task_runtime_ledger t pctx (tk_metadata row) = (Inr (), t')" "operator_owned row"
    "k \<in> set NATIVE_PERMISSION_KEYS"
  shows "dget (tk_metadata t') k = dget (tk_metadata row) k \<and> dhas (tk_metadata t') k"
  using assms(1)
proof (cases rule: merge_cases)
  case (1 l rid resume runtime ctx md)
  have "k \<noteq> ''runtime_v2''" using assms(3) by (auto simp: NATIVE_PERMISSION_KEYS_def)
  then show ?thesis
    using 1(4,5) keep_native_owned [OF assms(2,3)]
    by (auto simp: write_canonical_task_runtime_tool_ledger_def Let_def)
qed

lemma save_keeps_settings:
  assumes "task_row st tid = Some row" "operator_owned row"
  shows "\<exists>row'. task_row (snd (snd (save_task_row scope st t))) tid = Some row' \<and> operator_owned row' \<and>
           operator_settings row' = operator_settings row"
proof -
  obtain r t' st' where s: "save_task_row scope st t = (r, t', st')" by (metis prod_cases3)
  from s show ?thesis
  proof (cases rule: save_task_row_cases)
    case (failed e)
    with s assms show ?thesis by simp
  next
    case (saved t1 new)
    show ?thesis
    proof (cases "tk_id new = tid")
      case False
      then have "task_row st' tid = task_row st tid"
        using saved(3) by (simp add: task_row_def find_put_task_row)
      with s assms show ?thesis by simp
    next
      case True
      then have new: "task_row st' tid = Some new"
        using saved(3) by (simp add: task_row_def find_put_task_row)
      have tid: "tk_id t = tid"
      proof (cases "task_row st (tk_id t)")
        case None
        then have "scrub_new_task t = (Inr (), t1)"
          using saved(2) by (simp add: merge_store_owned_task_fields_before_save_def)
        then have "tk_id t1 = tk_id t" by (cases rule: scrub_new_task_cases) auto
        with saved(4) True show ?thesis by simp
      next
        case (Some old)
        then have "merge_store_owned_task_runtime_ledger t (tk_context_snapshot old) (tk_metadata old) = (Inr (), t1)"
          using saved(2) by (simp add: merge_store_owned_task_fields_before_save_def)
        then have "tk_id t1 = tk_id t" by (cases rule: merge_cases) auto
        with saved(4) True show ?thesis by simp
      qed
      have merged: "merge_store_owned_task_runtime_ledger t (tk_context_snapshot row) (tk_metadata row) = (Inr (), t1)"
        using saved(2) assms(1) tid by (simp add: merge_store_owned_task_fields_before_save_def)
      have kept: "dget (tk_metadata new) k = dget (tk_metadata row) k \<and> dhas (tk_metadata new) k"
        if k: "k \<in> set NATIVE_PERMISSION_KEYS" for k
      proof -
        have "k \<noteq> ''work_item_projection_id''" "k \<noteq> ''work_item_turn_type''"
          using k by (auto simp: NATIVE_PERMISSION_KEYS_def)
        then show ?thesis
          using saved(8) merged_settings [OF merged assms(2) k]
          by (simp add: migrate_projection_get migrate_projection_has)
      qed
      then have "operator_owned new"
        using assms(2) by (simp add: operator_owned_def list_all_iff NATIVE_PERMISSION_KEYS_def)
      moreover have "operator_settings new = operator_settings row"
        using kept by (simp add: operator_settings_def)
      ultimately show ?thesis using new s by simp
    qed
  qed
qed

lemma saves_keep_settings:
  "task_row st tid = Some row \<Longrightarrow> operator_owned row \<Longrightarrow>
     \<exists>row'. task_row (save_all scope st ts) tid = Some row' \<and> operator_settings row' = operator_settings row"
proof (induction ts arbitrary: st row)
  case (Cons t ts)
  from save_keeps_settings [OF Cons.prems] obtain row1 where
    "task_row (snd (snd (save_task_row scope st t))) tid = Some row1" "operator_owned row1"
    "operator_settings row1 = operator_settings row" by blast
  with Cons.IH [OF this(1,2)] show ?case by simp
qed simp

lemma with_native_level_result:
  assumes "with_native_level level scope_id t = Inr u"
  shows "tk_id u = tk_id t \<and> tk_project_id u = tk_project_id t \<and>
    (\<exists>revision. py_int (py_or (dget (tk_metadata t) ''native_permission_policy_revision'') (PInt 0)) = Inr revision \<and>
       operator_settings u = [PStr (level_text level), PStr scope_id, PInt (revision + 1)] \<and>
       list_all (dhas (tk_metadata u)) NATIVE_PERMISSION_KEYS)"
  using assms
  by (auto simp: with_native_level_def bind_result_Inr_iff operator_settings_def NATIVE_PERMISSION_KEYS_def)

lemma map_result_member:
  "map_result f xs = Inr ys \<Longrightarrow> y \<in> set ys \<Longrightarrow> \<exists>x\<in>set xs. f x = Inr y"
  by (induction f xs arbitrary: ys rule: map_result.induct) (auto simp: bind_result_Inr_iff)

lemma map_result_ids:
  "map_result (with_native_level level scope_id) ts = Inr us \<Longrightarrow> map tk_id us = map tk_id ts"
  by (induction ts arbitrary: us) (auto simp: bind_result_Inr_iff dest: with_native_level_result)

lemma update_rows_ids [simp]: "map tk_id (fold update_task_metadata us ts) = map tk_id ts"
  by (induction us arbitrary: ts) (simp_all add: update_task_metadata_def comp_def if_distrib [of tk_id] cong: if_cong)

lemma find_update:
  "find (\<lambda>t. tk_id t = tid) (update_task_metadata u ts) =
     map_option (\<lambda>t. if tk_id t = tk_id u \<and> tk_project_id t = tk_project_id u then t\<lparr>tk_metadata := tk_metadata u\<rparr> else t)
       (find (\<lambda>t. tk_id t = tid) ts)"
  by (induction ts) (auto simp: update_task_metadata_def)

lemma find_row_id: "find (\<lambda>t. tk_id t = tid) ts = Some t \<Longrightarrow> tk_id t = tid"
  by (induction ts) (auto split: if_splits)

lemma find_row: "t \<in> set ts \<Longrightarrow> distinct (map tk_id ts) \<Longrightarrow> find (\<lambda>x. tk_id x = tk_id t) ts = Some t"
  by (induction ts) (auto simp: image_iff)

lemma find_updates_other:
  "tid \<notin> tk_id ` set us \<Longrightarrow> find (\<lambda>t. tk_id t = tid) (fold update_task_metadata us ts) = find (\<lambda>t. tk_id t = tid) ts"
proof (induction us arbitrary: ts)
  case (Cons u us)
  have "find (\<lambda>t. tk_id t = tid) (update_task_metadata u ts) = find (\<lambda>t. tk_id t = tid) ts"
    using Cons.prems by (cases "find (\<lambda>t. tk_id t = tid) ts") (auto simp: find_update dest: find_row_id)
  with Cons show ?case by simp
qed simp

lemma find_updates:
  assumes "u \<in> set us" "distinct (map tk_id us)"
    and "find (\<lambda>t. tk_id t = tk_id u) ts = Some t" "tk_project_id t = tk_project_id u"
  shows "find (\<lambda>t. tk_id t = tk_id u) (fold update_task_metadata us ts) = Some (t\<lparr>tk_metadata := tk_metadata u\<rparr>)"
  using assms
proof (induction us arbitrary: ts t)
  case (Cons x us)
  have id: "tk_id t = tk_id u" using Cons.prems(3) by (rule find_row_id)
  show ?case
  proof (cases "x = u")
    case True
    then have "tk_id u \<notin> tk_id ` set us" using Cons.prems(2) by auto
    then show ?thesis using True Cons.prems(3,4) id by (simp add: find_updates_other find_update)
  next
    case False
    then have "tk_id x \<noteq> tk_id u" using Cons.prems(1,2) by auto
    then have "find (\<lambda>t. tk_id t = tk_id u) (update_task_metadata x ts) = Some t"
      using Cons.prems(3) id by (simp add: find_update)
    with Cons False show ?thesis by simp
  qed
qed simp

lemma scope_tasks_from:
  "set (tasks_in_native_permission_scope tasks root_session_id scope_id) \<subseteq> set tasks \<and>
   (distinct (map tk_id tasks) \<longrightarrow> distinct (map tk_id (tasks_in_native_permission_scope tasks root_session_id scope_id)))"
proof -
  define root where "root = py_strip root_session_id"
  define scope where "scope = py_strip (if scope_id \<noteq> [] then scope_id else root)"
  let ?its = "enumerate 0 tasks"
  let ?w = "\<lparr>ss_selected = [], ss_keys = {}, ss_sessions = set (filter (\<lambda>s. s \<noteq> []) [root, scope]), ss_changed = True\<rparr>"
  have start: "search_ok root scope ?its ?w" by (auto simp: search_ok_def intro: seen_session.start)
  have selected: "tasks_in_native_permission_scope tasks root_session_id scope_id = ss_selected (scope_loop scope ?its ?w)"
    by (simp add: tasks_in_native_permission_scope_def root_def scope_def Let_def)
  from scope_loop_result [OF start] obtain chosen where
    chosen: "ss_selected (scope_loop scope ?its ?w) = map snd chosen" "distinct chosen" "set chosen \<subseteq> set ?its"
    by (auto elim!: search_ok_chosen)
  have "distinct (map (tk_id \<circ> snd) chosen)" if "distinct (map tk_id tasks)"
  proof -
    have "distinct (map (tk_id \<circ> snd) ?its)" using that by (metis map_map map_snd_enumerate)
    then have "inj_on (tk_id \<circ> snd) (set ?its)" by (simp add: distinct_map)
    then show ?thesis using chosen(2,3) by (auto simp: distinct_map intro: inj_on_subset)
  qed
  moreover have "snd ` set chosen \<subseteq> set tasks"
    using image_mono [OF chosen(3), of snd] by (metis list.set_map map_snd_enumerate)
  ultimately show ?thesis unfolding selected chosen(1) by simp
qed

lemma set_scope_cases:
  assumes "set_native_permission_scope sp st pid root scope v = (Inr sel, st')" "distinct (map tk_id (st_tasks st))"
  obtains level where "parse_native_approval_level v = Inr level"
    "st' = st\<lparr>st_tasks := fold update_task_metadata sel (st_tasks st)\<rparr>" "distinct (map tk_id sel)"
    "\<And>u. u \<in> set sel \<Longrightarrow> \<exists>t\<in>set (st_tasks st). with_native_level level scope t = Inr u"
proof -
  let ?rows = "filter (\<lambda>t. tk_project_id t = pid) (st_tasks st)"
  from assms(1) obtain level where level: "parse_native_approval_level v = Inr level"
    and sel: "map_result (with_native_level level scope) (tasks_in_native_permission_scope ?rows root scope) = Inr sel"
    and st': "st' = st\<lparr>st_tasks := fold update_task_metadata sel (st_tasks st)\<rparr>"
    by (auto simp: set_native_permission_scope_def split: sum.splits if_splits)
  note from_rows = scope_tasks_from [of ?rows root scope]
  have "distinct (map tk_id ?rows)" using assms(2) by (simp add: distinct_map_filter)
  with from_rows have "distinct (map tk_id sel)" using map_result_ids [OF sel] by simp
  moreover have "\<exists>t\<in>set (st_tasks st). with_native_level level scope t = Inr u" if "u \<in> set sel" for u
    using map_result_member [OF sel that] from_rows by auto
  ultimately show ?thesis using that level st' by blast
qed

definition narrow_edit :: "task \<Rightarrow> task \<Rightarrow> bool" where
  \<comment> \<open>the same row up to the three permission fields of its metadata\<close>
  "narrow_edit t t' \<longleftrightarrow>
     t'\<lparr>tk_metadata := tk_metadata t\<rparr> = t \<and>
     (\<forall>k. k \<notin> set NATIVE_PERMISSION_KEYS \<longrightarrow> dget (tk_metadata t') k = dget (tk_metadata t) k)"

lemma narrow_edit_refl: "list_all2 narrow_edit ts ts"
  by (rule list.rel_refl) (simp add: narrow_edit_def)

lemma with_native_level_narrow: "with_native_level level scope t = Inr u \<Longrightarrow> narrow_edit t u"
  by (auto simp: with_native_level_def narrow_edit_def bind_result_Inr_iff NATIVE_PERMISSION_KEYS_def)

lemma narrow_edit_id: "narrow_edit t t' \<Longrightarrow> tk_id t' = tk_id t"
proof -
  assume "narrow_edit t t'"
  then have "tk_id (t'\<lparr>tk_metadata := tk_metadata t\<rparr>) = tk_id t" unfolding narrow_edit_def by (rule conjE) (rule arg_cong)
  then show ?thesis by simp
qed

lemma narrow_edit_metadata:
  "narrow_edit t t' \<Longrightarrow> narrow_edit t u \<Longrightarrow> narrow_edit t (t'\<lparr>tk_metadata := tk_metadata u\<rparr>)"
  by (simp add: narrow_edit_def)

lemma updates_narrow:
  assumes "\<And>u. u \<in> set us \<Longrightarrow> \<exists>t\<in>set rows. narrow_edit t u" "distinct (map tk_id rows)"
    and "list_all2 narrow_edit rows ts"
  shows "list_all2 narrow_edit rows (fold update_task_metadata us ts)"
  using assms(1,3)
proof (induction us arbitrary: ts)
  case (Cons u us)
  from Cons.prems(1) obtain t where t: "t \<in> set rows" "narrow_edit t u" by auto
  define edit where "edit r' = (if tk_id r' = tk_id u \<and> tk_project_id r' = tk_project_id u
      then r'\<lparr>tk_metadata := tk_metadata u\<rparr> else r')" for r' :: task
  have step: "narrow_edit r (edit r')" if r: "r \<in> set rows" "r' \<in> set ts" "narrow_edit r r'" for r r'
  proof (cases "tk_id r' = tk_id u")
    case True
    then have "tk_id r = tk_id t" using narrow_edit_id [OF r(3)] narrow_edit_id [OF t(2)] by simp
    moreover have "inj_on tk_id (set rows)" using assms(2) by (simp add: distinct_map)
    ultimately have "r = t" using r(1) t(1) by (blast dest: inj_onD)
    then show ?thesis using r(3) t(2) by (simp add: narrow_edit_metadata edit_def)
  qed (use r in \<open>simp add: edit_def\<close>)
  have "list_all2 (\<lambda>r r'. narrow_edit r (edit r')) rows ts"
    by (rule list.rel_mono_strong [OF Cons.prems(2) step])
  then have "list_all2 narrow_edit rows (update_task_metadata u ts)"
    by (simp add: update_task_metadata_def list_all2_map2 edit_def)
  with Cons show ?case by simp
qed simp

text \<open>The operator's edit of a permission scope touches nothing a running controller owns: of the
  store only task rows change, every row stays in its place, and of a row only the level, the scope
  and the revision in its metadata.\<close>

theorem operator_edit_is_narrow:
  assumes "set_native_permission_scope sp st pid root scope v = (r, st')" "distinct (map tk_id (st_tasks st))"
  shows "st'\<lparr>st_tasks := st_tasks st\<rparr> = st \<and> list_all2 narrow_edit (st_tasks st) (st_tasks st')"
proof (cases r)
  case (Inl e)
  then have "st' = st"
    using assms(1) by (auto simp: set_native_permission_scope_def split: sum.splits if_splits)
  then show ?thesis by (simp add: narrow_edit_refl)
next
  case (Inr sel)
  from assms(1) [unfolded Inr] assms(2) show ?thesis
  proof (cases rule: set_scope_cases)
    case (1 level)
    have "\<exists>t\<in>set (st_tasks st). narrow_edit t u" if "u \<in> set sel" for u
      using 1(4) [OF that] with_native_level_narrow by blast
    then have "list_all2 narrow_edit (st_tasks st) (fold update_task_metadata sel (st_tasks st))"
      by (rule updates_narrow [OF _ assms(2) narrow_edit_refl])
    with 1(2) show ?thesis by simp
  qed
qed

text \<open>C24. The operator's edit wins over every save that was under way.  After the edit of a scope, any
  sequence of saves of task objects of any age, copies from before the edit included, leaves each
  row of the scope with the level, the scope and the revision the operator wrote.\<close>

theorem operator_edit_survives_saves:
  assumes "set_native_permission_scope sp st pid root scope v = (Inr sel, st')"
    and "distinct (map tk_id (st_tasks st))"
    and "u \<in> set sel" "dget (tk_metadata u) ''native_permission_policy_revision'' \<noteq> PInt 0"
  shows "\<exists>level row. parse_native_approval_level v = Inr level \<and>
           task_row (save_all sp' st' ts) (tk_id u) = Some row \<and>
           dget (tk_metadata row) ''native_approval_level'' = PStr (level_text level) \<and>
           dget (tk_metadata row) ''native_permission_scope_id'' = PStr scope \<and>
           dget (tk_metadata row) ''native_permission_policy_revision'' =
             dget (tk_metadata u) ''native_permission_policy_revision''"
  using assms(1,2)
proof (cases rule: set_scope_cases)
  case (1 level)
  from 1(4) [OF assms(3)] obtain t where t: "t \<in> set (st_tasks st)" "with_native_level level scope t = Inr u" by blast
  from with_native_level_result [OF t(2)] obtain revision where u: "tk_id u = tk_id t" "tk_project_id u = tk_project_id t"
    "operator_settings u = [PStr (level_text level), PStr scope, PInt (revision + 1)]"
    "list_all (dhas (tk_metadata u)) NATIVE_PERMISSION_KEYS" by blast
  have "find (\<lambda>x. tk_id x = tk_id u) (st_tasks st) = Some t" using t(1) u(1) assms(2) by (simp add: find_row)
  with find_updates [OF assms(3) 1(3)] u(2) 1(2)
  have row: "task_row st' (tk_id u) = Some (t\<lparr>tk_metadata := tk_metadata u\<rparr>)" by (simp add: task_row_def)
  have "operator_owned (t\<lparr>tk_metadata := tk_metadata u\<rparr>)"
    using u(3,4) assms(4) by (simp add: operator_owned_def operator_settings_def NATIVE_PERMISSION_KEYS_def)
  from saves_keep_settings [OF row this] obtain row where
    "task_row (save_all sp' st' ts) (tk_id u) = Some row" 
    "operator_settings row = operator_settings (t\<lparr>tk_metadata := tk_metadata u\<rparr>)" by blast
  with 1(1) u(3) show ?thesis by (auto simp: operator_settings_def NATIVE_PERMISSION_KEYS_def)
qed

definition edited_store :: store where
  "edited_store = empty_store\<lparr>st_tasks := [(new_task ''t'')\<lparr>tk_session_id := Some ''root''\<rparr>, new_task ''other'']\<rparr>"

theorem operator_edit_is_narrow_witness:
  "(snd (set_native_permission_scope [] edited_store ''default'' ''root'' ''root'' (PStr ''full'')))
     \<lparr>st_tasks := st_tasks edited_store\<rparr> = edited_store \<and>
   list_all2 narrow_edit (st_tasks edited_store)
     (st_tasks (snd (set_native_permission_scope [] edited_store ''default'' ''root'' ''root'' (PStr ''full'')))) \<and>
   map (\<lambda>t. dget (tk_metadata t) ''native_approval_level'')
     (st_tasks (snd (set_native_permission_scope [] edited_store ''default'' ''root'' ''root'' (PStr ''full''))))
     = [PStr ''full-access'', PNone]"
proof -
  let ?x = "set_native_permission_scope [] edited_store ''default'' ''root'' ''root'' (PStr ''full'')"
  have "distinct (map tk_id (st_tasks edited_store))" by code_simp
  moreover have "?x = (fst ?x, snd ?x)" by simp
  ultimately have "(snd ?x)\<lparr>st_tasks := st_tasks edited_store\<rparr> = edited_store \<and>
      list_all2 narrow_edit (st_tasks edited_store) (st_tasks (snd ?x))"
    using operator_edit_is_narrow by blast
  moreover have "map (\<lambda>t. dget (tk_metadata t) ''native_approval_level'') (st_tasks (snd ?x)) = [PStr ''full-access'', PNone]"
    by code_simp
  ultimately show ?thesis by blast
qed

theorem operator_edit_survives_saves_witness:
  "map (\<lambda>t. (dget (tk_metadata t) ''native_approval_level'', tk_status t))
     (st_tasks (save_all [] (snd (set_native_permission_scope [] edited_store ''default'' ''root'' ''root'' (PStr ''full'')))
        [(new_task ''t'')\<lparr>tk_status := TS_DONE\<rparr>]))
     = [(PStr ''full-access'', TS_DONE), (PNone, TS_PENDING)]"
proof -
  let ?x = "set_native_permission_scope [] edited_store ''default'' ''root'' ''root'' (PStr ''full'')"
  let ?u = "(new_task ''t'')\<lparr>tk_session_id := Some ''root'', tk_metadata := [(''native_approval_level'', PStr ''full-access''),
      (''native_permission_scope_id'', PStr ''root''), (''native_permission_policy_revision'', PInt 1)]\<rparr>"
  let ?saved = "save_all [] (snd ?x) [(new_task ''t'')\<lparr>tk_status := TS_DONE\<rparr>]"
  have "fst ?x = Inr [?u]" by code_simp
  then have x: "?x = (Inr [?u], snd ?x)" by (metis prod.collapse)
  have "distinct (map tk_id (st_tasks edited_store))" by code_simp
  from operator_edit_survives_saves [OF x this, of ?u "[]" "[(new_task ''t'')\<lparr>tk_status := TS_DONE\<rparr>]"]
  obtain level row where row: "parse_native_approval_level (PStr ''full'') = Inr level"
    "task_row ?saved (tk_id ?u) = Some row"
    "dget (tk_metadata row) ''native_approval_level'' = PStr (level_text level)" by auto
  have "parse_native_approval_level (PStr ''full'') = Inr FullAccess" by code_simp
  with row have level: "map_option (\<lambda>t. dget (tk_metadata t) ''native_approval_level'') (task_row ?saved ''t'')
      = Some (PStr ''full-access'')"
    by (simp add: new_task_def)
  have ids: "map tk_id (st_tasks ?saved) = [''t'', ''other'']" by code_simp
  have status: "map (\<lambda>t. tk_status t) (st_tasks ?saved) = [TS_DONE, TS_PENDING]" by code_simp
  have rest: "map (\<lambda>t. dget (tk_metadata t) ''native_approval_level'') (tl (st_tasks ?saved)) = [PNone]" by code_simp
  from ids obtain a b where ab: "st_tasks ?saved = [a, b]" "tk_id a = ''t''" by auto
  with level have "dget (tk_metadata a) ''native_approval_level'' = PStr ''full-access''" by (simp add: task_row_def)
  with ab status rest show ?thesis by simp
qed

end
