(* ===== verification/ToolPlanner.thy ===== *)
theory ToolPlanner
  imports NativePermissions
begin

text \<open>
  The planner of tool calls (\<open>opc/layer3_agent/runtime_v2/tool_planner.py\<close>): which tools may run next
  to each other, and the batches in which the calls of one model turn run.  Calls of a batch that
  is concurrency safe run in parallel; batches run one after the other.
\<close>

section \<open>Concurrency of a tool\<close>

definition READ_ONLY_TOOL_NAMES :: "string list" where
  "READ_ONLY_TOOL_NAMES =
     [''file_read'', ''file_search'', ''list_dir'', ''grep'', ''glob'', ''web_search'', ''web_fetch'',
      ''todo_read'', ''agent_list'', ''agent_wait'']"

definition NON_CONCURRENT_TOOL_NAMES :: "string list" where
  "NON_CONCURRENT_TOOL_NAMES =
     [''shell_exec'', ''file_write'', ''file_edit'', ''apply_patch'', ''python_exec'', ''git_commit'',
      ''agent_spawn'', ''agent_wait'', ''agent_send'']"

definition ends_with :: "string \<Rightarrow> string \<Rightarrow> bool" where
  "ends_with s end \<longleftrightarrow> length end \<le> length s \<and> drop (length s - length end) s = end"

definition is_read_only :: "tool option \<Rightarrow> bool" where
  "is_read_only tool =
     (case tool of
        None \<Rightarrow> False
      | Some t \<Rightarrow>
          (case tl_read_only t of
             Some declared \<Rightarrow> declared
           | None \<Rightarrow>
               tl_name t \<in> set READ_ONLY_TOOL_NAMES \<or>
               tl_category t \<in> {''search'', ''read''} \<or> ends_with (tl_name t) ''_read''))"

definition is_concurrency_safe :: "tool option \<Rightarrow> bool" where
  "is_concurrency_safe tool =
     (case tool of
        None \<Rightarrow> False
      | Some t \<Rightarrow>
          (case tl_concurrency_safe t of
             Some declared \<Rightarrow> declared
           | None \<Rightarrow> tl_name t \<notin> set NON_CONCURRENT_TOOL_NAMES \<and> is_read_only tool))"

section \<open>Batches\<close>

record tool_batch =
  tb_concurrency_safe :: bool
  tb_calls :: "pydict list"

definition call_safe :: "(string \<rightharpoonup> tool) \<Rightarrow> pydict \<Rightarrow> bool" where
  \<comment> \<open>the tool of a call: \<open>registry.get(str(call.get("function", "") or ""))\<close>\<close>
  "call_safe registry call =
     (let name = dget call ''function''
      in is_concurrency_safe (registry (if truthy name then py_str name else [])))"

definition plan_call :: "(string \<rightharpoonup> tool) \<Rightarrow> pydict \<Rightarrow> tool_batch list \<Rightarrow> tool_batch list" where
  "plan_call registry call batches =
     (let safe = call_safe registry call
      in if safe \<and> batches \<noteq> [] \<and> tb_concurrency_safe (last batches)
         then butlast batches @ [(last batches)\<lparr>tb_calls := tb_calls (last batches) @ [call]\<rparr>]
         else batches @ [\<lparr>tb_concurrency_safe = safe, tb_calls = [call]\<rparr>])"

definition partition_calls :: "(string \<rightharpoonup> tool) \<Rightarrow> pydict list \<Rightarrow> tool_batch list" where
  \<comment> \<open>\<open>partition\<close>\<close>
  "partition_calls registry calls = fold (plan_call registry) calls []"

section \<open>The plan is the coarsest order-preserving one\<close>

definition batch_ok :: "(string \<rightharpoonup> tool) \<Rightarrow> tool_batch \<Rightarrow> bool" where
  \<comment> \<open>safe calls together, an unsafe call alone\<close>
  "batch_ok registry b \<longleftrightarrow>
     (if tb_concurrency_safe b then tb_calls b \<noteq> [] \<and> list_all (call_safe registry) (tb_calls b)
      else \<exists>call. tb_calls b = [call] \<and> \<not> call_safe registry call)"

fun no_split :: "tool_batch list \<Rightarrow> bool" where
  \<comment> \<open>no two neighbouring batches could have been one\<close>
  "no_split (a # b # bs) \<longleftrightarrow> \<not> (tb_concurrency_safe a \<and> tb_concurrency_safe b) \<and> no_split (b # bs)"
| "no_split _ \<longleftrightarrow> True"

definition plan_of :: "(string \<rightharpoonup> tool) \<Rightarrow> pydict list \<Rightarrow> tool_batch list \<Rightarrow> bool" where
  "plan_of registry calls batches \<longleftrightarrow>
     concat (map tb_calls batches) = calls \<and> list_all (batch_ok registry) batches \<and> no_split batches"

lemma no_split_snoc: "no_split (bs @ [b]) \<longleftrightarrow>
    no_split bs \<and> (bs \<noteq> [] \<longrightarrow> \<not> (tb_concurrency_safe (last bs) \<and> tb_concurrency_safe b))"
  by (induction bs rule: no_split.induct) auto

lemma plan_call_step:
  assumes "plan_of registry calls batches"
  shows "plan_of registry (calls @ [call]) (plan_call registry call batches)"
proof (cases "call_safe registry call \<and> batches \<noteq> [] \<and> tb_concurrency_safe (last batches)")
  case True
  then obtain bs b where bs: "batches = bs @ [b]" by (metis append_butlast_last_id)
  with True assms show ?thesis
    by (auto simp: plan_call_def plan_of_def Let_def no_split_snoc batch_ok_def)
next
  case False
  then have "plan_call registry call batches =
      batches @ [\<lparr>tb_concurrency_safe = call_safe registry call, tb_calls = [call]\<rparr>]"
    unfolding plan_call_def Let_def by (rule if_not_P)
  moreover have "batches \<noteq> [] \<longrightarrow> \<not> (tb_concurrency_safe (last batches) \<and> call_safe registry call)"
    using False by blast
  ultimately show ?thesis using assms by (simp add: plan_of_def no_split_snoc batch_ok_def)
qed

lemma plan_calls:
  "plan_of registry done_calls batches \<Longrightarrow>
     plan_of registry (done_calls @ calls) (fold (plan_call registry) calls batches)"
proof (induction calls arbitrary: done_calls batches)
  case (Cons call calls)
  from Cons.IH [OF plan_call_step [OF Cons.prems, of call]] show ?case by simp
qed simp

lemma partition_is_plan: "plan_of registry calls (partition_calls registry calls)"
  using plan_calls [of registry "[]" "[]" calls] by (simp add: partition_calls_def plan_of_def)

lemma safe_prefix_unique:
  assumes "plan_of registry calls (b # bs)"
  shows "tb_concurrency_safe b = call_safe registry (hd calls)"
    "tb_calls b = (if call_safe registry (hd calls) then takeWhile (call_safe registry) calls else [hd calls])"
    "plan_of registry (drop (length (tb_calls b)) calls) bs"
proof -
  from assms have b: "batch_ok registry b" and calls: "calls = tb_calls b @ concat (map tb_calls bs)"
    and rest: "list_all (batch_ok registry) bs" "no_split (b # bs)" by (auto simp: plan_of_def)
  have tail: "no_split bs" using rest(2) by (cases bs) auto
  show safe: "tb_concurrency_safe b = call_safe registry (hd calls)"
    using b calls by (cases "tb_calls b") (auto simp: batch_ok_def split: if_splits)
  show "plan_of registry (drop (length (tb_calls b)) calls) bs"
    using calls rest(1) tail by (simp add: plan_of_def)
  show "tb_calls b = (if call_safe registry (hd calls) then takeWhile (call_safe registry) calls else [hd calls])"
  proof (cases "tb_concurrency_safe b")
    case True
    then have all: "list_all (call_safe registry) (tb_calls b)" using b by (simp add: batch_ok_def)
    have "takeWhile (call_safe registry) (concat (map tb_calls bs)) = []"
    proof (cases bs)
      case (Cons c cs)
      then have "\<not> tb_concurrency_safe c" using rest(2) True by simp
      then show ?thesis using rest(1) Cons by (auto simp: batch_ok_def)
    qed simp
    then have "takeWhile (call_safe registry) calls = tb_calls b"
      using all calls by (simp add: takeWhile_append2 list_all_iff)
    with True safe show ?thesis by simp
  next
    case False
    with b calls safe show ?thesis by (auto simp: batch_ok_def)
  qed
qed

lemma plan_unique:
  "plan_of registry calls as \<Longrightarrow> plan_of registry calls bs \<Longrightarrow> as = bs"
proof (induction as arbitrary: calls bs)
  case Nil
  then have "calls = []" by (simp add: plan_of_def)
  show ?case
  proof (cases bs)
    case (Cons b cs)
    with Nil \<open>calls = []\<close> show ?thesis by (auto simp: plan_of_def batch_ok_def split: if_splits)
  qed simp
next
  case (Cons a as)
  have "calls \<noteq> []" using Cons.prems(1) by (auto simp: plan_of_def batch_ok_def split: if_splits)
  then obtain b cs where bs: "bs = b # cs" using Cons.prems(2) by (cases bs) (auto simp: plan_of_def)
  note left = safe_prefix_unique [OF Cons.prems(1)]
  note right = safe_prefix_unique [OF Cons.prems(2) [unfolded bs]]
  have "a = b" using left(1,2) right(1,2) by (intro tool_batch.equality) simp_all
  moreover have "as = cs" using Cons.IH left(3) right(3) calculation by simp
  ultimately show ?case using bs by simp
qed

text \<open>The planner's batches are the unique coarsest plan that keeps the order of the calls:
  concatenated they are the calls of the turn, each batch is one unsafe call alone or a non-empty
  run of calls all safe to run together, no two neighbouring safe batches are left unmerged, and
  any list of batches with these properties is the planner's.\<close>

theorem partition_is_coarsest_plan:
  "plan_of registry calls batches \<longleftrightarrow> batches = partition_calls registry calls"
  using partition_is_plan plan_unique by blast

end
