(* ===== verification/OutputBudget.thy ===== *)
theory OutputBudget
  imports Prelude
begin

text \<open>
  The preview of a long tool output (\<open>opc/layer4_tools/output_budget.py\<close>): \<open>clip_text\<close>, which every
  prompt, event and report of the company goes through, and the metadata keys of a clip.  Lengths
  count characters.  \<open>int(limit * 0.80)\<close> is a product of floats; it is \<open>4 * limit div 5\<close> for every
  limit below \<open>2 ^ 50\<close>, and the clip is only taken when the limit is below the length of a text.
  The files to which whole outputs are persisted are I/O and are not modelled.
\<close>

section \<open>Clipping\<close>

record text_clip =
  cl_text :: string
  cl_truncated :: bool
  cl_omitted_chars :: nat
  cl_original_chars :: nat
  cl_kept_chars :: nat

definition newline :: char where
  "newline = CHR 0x0A"

definition rfind_newline :: "string \<Rightarrow> nat \<Rightarrow> nat option" where
  \<comment> \<open>\<open>kept.rfind("\n", floor)\<close>, with \<open>None\<close> for -1\<close>
  "rfind_newline s start =
     (case filter (\<lambda>i. s ! i = newline) [start..<length s] of [] \<Rightarrow> None | is \<Rightarrow> Some (last is))"

definition py_rstrip :: "string \<Rightarrow> string" where
  "py_rstrip s = rev (dropWhile py_space (rev s))"

definition strip_brackets :: "string \<Rightarrow> string" where
  \<comment> \<open>\<open>marker.strip("[]")\<close>\<close>
  "strip_brackets s =
     (let cut = dropWhile (\<lambda>c. c = CHR ''['' \<or> c = CHR '']'') in rev (cut (rev (cut s))))"

definition clip_kept :: "string \<Rightarrow> nat \<Rightarrow> bool \<Rightarrow> string" where
  "clip_kept s limit prefer_newline =
     (if limit = 0 then []
      else let kept = take limit s
           in py_rstrip
                (if prefer_newline \<and> newline \<in> set kept
                 then case rfind_newline kept (max 1 (4 * limit div 5)) of
                        None \<Rightarrow> kept
                      | Some boundary \<Rightarrow> if 0 < boundary then take boundary kept else kept
                 else kept))"

definition clip_suffix :: "string \<Rightarrow> nat \<Rightarrow> string" where
  "clip_suffix marker omitted =
     (let label = strip_brackets marker
      in ''['' @ (if label \<noteq> [] then label else ''truncated'') @ '': '' @ int_text (int omitted) @
         '' chars omitted]'')"

definition clip_text :: "pyval \<Rightarrow> int \<Rightarrow> string \<Rightarrow> bool \<Rightarrow> text_clip" where
  "clip_text v limit marker prefer_newline =
     (let s = (if truthy v then py_str v else []); original = length s; bound = nat limit
      in if original \<le> bound
         then \<lparr>cl_text = s, cl_truncated = False, cl_omitted_chars = 0, cl_original_chars = original,
               cl_kept_chars = original\<rparr>
         else let kept = clip_kept s bound prefer_newline;
                  omitted = original - length kept;
                  suffix = clip_suffix marker omitted
              in \<lparr>cl_text = (if kept \<noteq> [] then kept @ [newline] @ suffix else suffix), cl_truncated = True,
                  cl_omitted_chars = omitted, cl_original_chars = original, cl_kept_chars = length kept\<rparr>)"

definition truncation_metadata :: "text_clip \<Rightarrow> string \<Rightarrow> pydict" where
  "truncation_metadata clip prefix =
     [(prefix @ ''truncated'', PBool (cl_truncated clip)),
      (prefix @ ''omitted_chars'', PInt (int (cl_omitted_chars clip))),
      (prefix @ ''original_chars'', PInt (int (cl_original_chars clip)))]"

section \<open>The budget\<close>

lemma rstrip_prefix: "\<exists>n\<le>length s. py_rstrip s = take n s"
proof -
  have "s = py_rstrip s @ rev (takeWhile py_space (rev s))"
    unfolding py_rstrip_def by (metis rev_append rev_rev_ident takeWhile_dropWhile_id)
  then have "py_rstrip s = take (length (py_rstrip s)) s \<and> length (py_rstrip s) \<le> length s"
    by (metis append_eq_conv_conj le_add1 length_append)
  then show ?thesis by blast
qed

lemma rstrip_take: "\<exists>m\<le>n. py_rstrip (take n s) = take m s"
proof -
  obtain m where "m \<le> length (take n s)" "py_rstrip (take n s) = take m (take n s)"
    using rstrip_prefix by blast
  then show ?thesis by (intro exI [of _ m]) auto
qed

lemma clip_kept_prefix: "\<exists>n\<le>limit. clip_kept s limit prefer_newline = take n s"
proof (cases "limit = 0")
  case False
  define cut where "cut = (if prefer_newline \<and> newline \<in> set (take limit s)
                 then case rfind_newline (take limit s) (max 1 (4 * limit div 5)) of
                        None \<Rightarrow> limit
                      | Some boundary \<Rightarrow> if 0 < boundary then min boundary limit else limit
                 else limit)"
  have "clip_kept s limit prefer_newline = py_rstrip (take cut s)"
    using False by (auto simp: clip_kept_def cut_def Let_def min.commute split: option.split)
  moreover have "cut \<le> limit" by (auto simp: cut_def split: option.split)
  ultimately show ?thesis using rstrip_take [of cut s] by (metis le_trans)
qed (simp add: clip_kept_def)

text \<open>C28. A clip accounts for every character.  The characters kept are the beginning of the text and
  stay within the limit (none for a limit of zero or below); kept and omitted add up to the
  original length; the clip is marked truncated exactly when the text is longer than the limit,
  and is the text itself otherwise; and a truncated clip is what was kept, on a line of its own,
  followed by a marker that carries the number of characters omitted.\<close>

theorem clip_within_budget:
  "let s = (if truthy v then py_str v else []); c = clip_text v limit marker prefer_newline; k = cl_kept_chars c
   in cl_original_chars c = length s \<and> k \<le> nat limit \<and> k + cl_omitted_chars c = length s \<and>
      cl_truncated c = (nat limit < length s) \<and>
      cl_text c = (if cl_truncated c
                   then take k s @ (if k = 0 then [] else [newline]) @ clip_suffix marker (length s - k)
                   else s)"
proof -
  let ?s = "if truthy v then py_str v else []"
  obtain n where n: "n \<le> nat limit" "clip_kept ?s (nat limit) prefer_newline = take n ?s"
    using clip_kept_prefix by blast
  show ?thesis
  proof (cases "length ?s \<le> nat limit")
    case True
    then show ?thesis by (simp add: clip_text_def Let_def)
  next
    case False
    then have "n < length ?s" using n(1) by simp
    then have "length (take n ?s) = n" "take n ?s \<noteq> [] \<longleftrightarrow> n \<noteq> 0" by auto
    with False n show ?thesis by (simp add: clip_text_def Let_def)
  qed
qed

text \<open>The marker comes on top of the limit: the text of a clip can be longer than its budget.\<close>

lemma clip_can_exceed_limit: "length (cl_text (clip_text (PStr ''abc'') 2 ''truncated'' True)) = 31"
  by code_simp

end
