(* ===== verification/ReviewVerdict.thy ===== *)
theory ReviewVerdict
  imports Prelude
begin

text \<open>
  The verdict of a reviewer (\<open>opc/core/review_verdict.py\<close>): the labels a reviewer may use, the
  envelopes a verdict may come in, the search for it in the text of a reply, and the test that a
  rejected worker gets a reason.  A verdict is a dictionary, empty when there is none.

  \<open>raw_decode\<close> of the JSON decoder is an argument: the object at the start of a text with the
  number of characters read, \<open>None\<close> for a decoding error.  The labels and the punctuation outside
  Latin-1 are not modelled, as no text of the model holds such a character.
\<close>

section \<open>Labels and fields\<close>

definition VERDICT_LABELS :: "(string \<times> string) list" where
  "VERDICT_LABELS =
     map (\<lambda>s. (s, ''approve'')) [''approve'', ''approved'', ''pass'', ''passed'', ''accept'', ''accepted''] @
     map (\<lambda>s. (s, ''reject'')) [''reject'', ''rejected'', ''fail'', ''failed'', ''rework'']"

definition BARE_DECISIONS :: "string list" where
  "BARE_DECISIONS =
     map fst VERDICT_LABELS @
     [[], ''no'', ''nope'', ''needs changes'', ''not approved'', ''n/a'', ''none'', ''null'']"

definition verdict_text :: "pyval \<Rightarrow> string" where
  \<comment> \<open>\<open>_text\<close>\<close>
  "verdict_text v = (case v of PStr s \<Rightarrow> py_strip s | _ \<Rightarrow> [])"

definition verdict_items :: "pyval \<Rightarrow> string list" where
  \<comment> \<open>\<open>_items\<close>\<close>
  "verdict_items v = (case v of PList xs \<Rightarrow> filter (\<lambda>s. s \<noteq> []) (map verdict_text xs) | _ \<Rightarrow> [])"

definition first_truthy :: "pydict \<Rightarrow> string list \<Rightarrow> pyval" where
  \<comment> \<open>\<open>next((value[key] for key in keys if value.get(key)), "")\<close>\<close>
  "first_truthy d keys =
     (case filter (\<lambda>k. truthy (dget d k)) keys of [] \<Rightarrow> PStr [] | k # _ \<Rightarrow> dget d k)"

definition normalize_review_verdict :: "pyval \<Rightarrow> pydict" where
  "normalize_review_verdict v =
     (case v of
        PStr s \<Rightarrow>
          (case map_of VERDICT_LABELS (py_lower (py_strip s)) of
             None \<Rightarrow> []
           | Some label \<Rightarrow> [(''label'', PStr label), (''summary'', PStr (py_strip s))])
      | PDict d \<Rightarrow>
          (case map_of VERDICT_LABELS (py_lower (verdict_text
                  (first_truthy d [''review_verdict'', ''verdict'', ''decision'', ''status'', ''label'']))) of
             None \<Rightarrow> []
           | Some label \<Rightarrow>
               [(''label'', PStr label), (''summary'', PStr (verdict_text (dget d ''summary''))),
                (''blocking_issues'', PList (map PStr (verdict_items (dget d ''blocking_issues'')))),
                (''followups'', PList (map PStr (verdict_items (dget d ''followups''))))])
      | _ \<Rightarrow> [])"

fun verdict_in_envelope :: "pydict \<Rightarrow> string list \<Rightarrow> pydict" where
  \<comment> \<open>the loop over the two envelope keys and the fall back to the object itself\<close>
  "verdict_in_envelope d [] = normalize_review_verdict (PDict d)"
| "verdict_in_envelope d (k # ks) =
     (if \<not> dhas d k then verdict_in_envelope d ks
      else let normalized =
                 (case dget d k of
                    PDict inner \<Rightarrow> normalize_review_verdict (PDict inner)
                  | inner \<Rightarrow> normalize_review_verdict (PDict (dset ''review_verdict'' inner d)))
           in if normalized \<noteq> [] then normalized else verdict_in_envelope d ks)"

definition review_verdict_from_object :: "pyval \<Rightarrow> pydict" where
  "review_verdict_from_object candidate =
     (case candidate of
        PDict d \<Rightarrow> verdict_in_envelope d [''review_verdict'', ''structured_review_verdict'']
      | _ \<Rightarrow> [])"

section \<open>The reason of a rejection\<close>

definition py_casefold :: "string \<Rightarrow> string" where
  \<comment> \<open>lower case, with the sharp s of Latin-1 as two letters; the micro sign, which leaves Latin-1,
    stays, as no bare decision has either\<close>
  "py_casefold s = concat (map (\<lambda>c. if code_of c = 223 then ''ss'' else [lower_char c]) s)"

definition bare_punctuation :: "char \<Rightarrow> bool" where
  "bare_punctuation c \<longleftrightarrow>
     c = CHR 0x09 \<or> c = CHR 0x0D \<or> c = CHR 0x0A \<or> c \<in> set '' .!?:`*#_-''"

definition strip_punctuation :: "string \<Rightarrow> string" where
  "strip_punctuation s = (let cut = dropWhile bare_punctuation in rev (cut (rev (cut s))))"

definition bare_decision :: "string \<Rightarrow> bool" where
  "bare_decision s \<longleftrightarrow> strip_punctuation (py_casefold s) \<in> set BARE_DECISIONS"

definition FEEDBACK_MISSING :: string where
  "FEEDBACK_MISSING =
     ''REVIEW_REJECT_FEEDBACK_MISSING: You returned reject without a reason or a '' @
     ''specific blocking change. Regenerate your review JSON with a concrete '' @
     ''summary and/or blocking_issues describing what the worker must correct. '' @
     ''A bare reject or non-blocking followups is insufficient. The worker has '' @
     ''not been sent for rework; this error belongs to you, the reviewer.''"

definition review_feedback_error :: "pydict \<Rightarrow> string" where
  "review_feedback_error verdict =
     (if dget verdict ''label'' \<noteq> PStr ''reject'' then []
      else if list_ex (\<lambda>s. \<not> bare_decision s)
                (verdict_text (dget verdict ''summary'') # verdict_items (dget verdict ''blocking_issues''))
      then []
      else FEEDBACK_MISSING)"

section \<open>The verdict in a reply\<close>

type_synonym decoder = "string \<Rightarrow> (pyval \<times> nat) option"

definition at_brace :: "string \<Rightarrow> string" where
  \<comment> \<open>the rest of the text from \<open>text.find("{")\<close>; empty when there is none\<close>
  "at_brace s = dropWhile (\<lambda>c. c \<noteq> CHR ''{'') s"

lemma at_brace_length: "length (at_brace s) \<le> length s"
  by (simp add: at_brace_def length_dropWhile_le)

function scan_for_verdict :: "decoder \<Rightarrow> pydict \<Rightarrow> string \<Rightarrow> pydict" where
  \<comment> \<open>the \<open>while\<close> loop of \<open>parse_review_verdict\<close>\<close>
  "scan_for_verdict raw_decode artifact_verdict s =
     (case at_brace s of
        [] \<Rightarrow> artifact_verdict
      | c # rest \<Rightarrow>
          (case raw_decode (c # rest) of
             None \<Rightarrow> scan_for_verdict raw_decode artifact_verdict rest
           | Some (candidate, consumed) \<Rightarrow>
               (let verdict = review_verdict_from_object candidate
                in if verdict \<noteq> []
                   then if artifact_verdict = [] then verdict
                        else if dget verdict ''label'' = dget artifact_verdict ''label'' \<and>
                                review_feedback_error verdict = []
                        then verdict else artifact_verdict
                   else scan_for_verdict raw_decode artifact_verdict
                          (drop (max consumed 1) (c # rest)))))"
  by pat_completeness auto
termination
proof (relation "measure (\<lambda>(d, a, s). length s)", goal_cases)
  case (2 raw_decode artifact_verdict s c rest)
  then show ?case using at_brace_length [of s] by simp
next
  case (3 raw_decode artifact_verdict s c rest)
  then show ?case using at_brace_length [of s] by (auto simp: max_def)
qed simp

declare scan_for_verdict.simps [simp del]

definition parse_review_verdict :: "decoder \<Rightarrow> string \<Rightarrow> pyval \<Rightarrow> pydict" where
  \<comment> \<open>\<open>artifacts or {}\<close> reads \<open>None\<close> as the empty dictionary\<close>
  "parse_review_verdict raw_decode content artifacts =
     (let artifact_verdict = review_verdict_from_object (if truthy artifacts then artifacts else PDict [])
      in if artifact_verdict \<noteq> [] \<and> review_feedback_error artifact_verdict = [] then artifact_verdict
         else scan_for_verdict raw_decode artifact_verdict content)"

section \<open>Storing a verdict and reading it back\<close>

lemma verdict_text_PStr [simp]: "verdict_text (PStr s) = py_strip s"
  by (simp add: verdict_text_def)

lemma strip_verdict_text [simp]: "py_strip (verdict_text v) = verdict_text v"
  by (simp add: verdict_text_def split: pyval.split)

lemma verdict_items_strip: "s \<in> set (verdict_items v) \<Longrightarrow> py_strip s = s \<and> s \<noteq> []"
  by (auto simp: verdict_items_def split: pyval.splits)

lemma verdict_items_again [simp]: "verdict_items (PList (map PStr (verdict_items v))) = verdict_items v"
proof -
  have "map (\<lambda>s. py_strip s) (verdict_items v) = verdict_items v"
    using verdict_items_strip by (intro map_idI) blast
  moreover have "filter (\<lambda>s. s \<noteq> []) (verdict_items v) = verdict_items v"
    using verdict_items_strip by (intro filter_True) blast
  ultimately show ?thesis
    unfolding verdict_items_def [of "PList (map PStr (verdict_items v))"] by (simp add: comp_def)
qed

lemma label_values: "map_of VERDICT_LABELS s = Some label \<Longrightarrow> label = ''approve'' \<or> label = ''reject''"
  by (auto simp: VERDICT_LABELS_def split: if_splits)

lemma label_again:
  "label = ''approve'' \<or> label = ''reject'' \<Longrightarrow> map_of VERDICT_LABELS (py_lower (py_strip label)) = Some label"
  by (elim disjE; hypsubst; code_simp)

lemma normalized_cases:
  obtains "normalize_review_verdict v = []"
  | label summary where "normalize_review_verdict v = [(''label'', PStr label), (''summary'', PStr summary)]"
      "label = ''approve'' \<or> label = ''reject''"
  | label d where "normalize_review_verdict v =
        [(''label'', PStr label), (''summary'', PStr (verdict_text (dget d ''summary''))),
         (''blocking_issues'', PList (map PStr (verdict_items (dget d ''blocking_issues'')))),
         (''followups'', PList (map PStr (verdict_items (dget d ''followups''))))]"
      "label = ''approve'' \<or> label = ''reject''" "v = PDict d"
proof (cases v)
  case (PStr s)
  then show ?thesis
    using that(1,2) label_values
    by (cases "map_of VERDICT_LABELS (py_lower (py_strip s))") (auto simp: normalize_review_verdict_def)
next
  case (PDict d)
  let ?raw = "py_lower (verdict_text (first_truthy d [''review_verdict'', ''verdict'', ''decision'', ''status'', ''label'']))"
  show ?thesis
    using that(1,3) PDict label_values
    by (cases "map_of VERDICT_LABELS ?raw") (simp_all add: normalize_review_verdict_def)
qed (use that(1) in \<open>simp_all add: normalize_review_verdict_def\<close>)

lemma verdict_normalize_again:
  "normalize_review_verdict (PDict (normalize_review_verdict (PDict d))) = normalize_review_verdict (PDict d)"
proof (cases rule: normalized_cases [of "PDict d"])
  case 1
  then show ?thesis by (simp add: normalize_review_verdict_def first_truthy_def VERDICT_LABELS_def)
next
  case (2 label summary)
  then show ?thesis by (simp add: normalize_review_verdict_def split: option.splits)
next
  case (3 label d')
  then show ?thesis by (auto simp: normalize_review_verdict_def first_truthy_def label_again)
qed

lemma normalized_no_envelope:
  "k \<in> {''review_verdict'', ''structured_review_verdict''} \<Longrightarrow> \<not> dhas (normalize_review_verdict v) k"
  by (cases v rule: normalized_cases) auto

lemma normalize_empty [simp]:
  "normalize_review_verdict (PDict []) = []"
  "normalize_review_verdict (PDict [(''review_verdict'', PDict [])]) = []"
  "normalize_review_verdict (PDict [(''structured_review_verdict'', PDict [])]) = []"
  by code_simp+

text \<open>C27. A verdict survives storage.  What normalising a reviewer's object gives is read back from
  storage as it is, both as the flat object and inside either envelope key, however the object was
  spelled: label aliases, the key the decision came under, blanks and empty issues.\<close>

theorem verdict_roundtrip:
  "normalize_review_verdict (PDict d) = n \<Longrightarrow>
     review_verdict_from_object (PDict n) = n \<and>
     review_verdict_from_object (PDict [(''review_verdict'', PDict n)]) = n \<and>
     review_verdict_from_object (PDict [(''structured_review_verdict'', PDict n)]) = n"
  using verdict_normalize_again [of d] normalized_no_envelope [of _ "PDict d"]
  by (cases "n = []") (auto simp: review_verdict_from_object_def)

definition sample_reply :: pydict where
  "sample_reply = [(''decision'', PStr '' Failed ''), (''summary'', PStr '' no tests ''),
     (''blocking_issues'', PList [PStr '' add tests'', PStr '' '', PNone])]"

theorem verdict_roundtrip_witness:
  "review_verdict_from_object (PDict [(''review_verdict'', PDict (normalize_review_verdict (PDict sample_reply)))]) =
     [(''label'', PStr ''reject''), (''summary'', PStr ''no tests''),
      (''blocking_issues'', PList [PStr ''add tests'']), (''followups'', PList [])]"
proof -
  have "normalize_review_verdict (PDict sample_reply) =
     [(''label'', PStr ''reject''), (''summary'', PStr ''no tests''),
      (''blocking_issues'', PList [PStr ''add tests'']), (''followups'', PList [])]" by code_simp
  with verdict_roundtrip [OF refl, of sample_reply] show ?thesis by simp
qed

section \<open>The search is the first verdict of the text\<close>

text \<open>The objects of a text from left to right: at each brace the decoder is asked; what it reads is
  one object and is not searched again, and a brace where it fails is skipped.\<close>

function objects_in :: "decoder \<Rightarrow> string \<Rightarrow> pyval list" where
  "objects_in raw_decode s =
     (case at_brace s of
        [] \<Rightarrow> []
      | c # rest \<Rightarrow>
          (case raw_decode (c # rest) of
             None \<Rightarrow> objects_in raw_decode rest
           | Some (candidate, consumed) \<Rightarrow>
               candidate # objects_in raw_decode (drop (max consumed 1) (c # rest))))"
  by pat_completeness auto
termination
proof (relation "measure (\<lambda>(d, s). length s)", goal_cases)
  case (2 raw_decode s c rest)
  then show ?case using at_brace_length [of s] by simp
next
  case (3 raw_decode s c rest)
  then show ?case using at_brace_length [of s] by (auto simp: max_def)
qed simp

declare objects_in.simps [simp del]

definition first_verdict :: "pydict \<Rightarrow> pyval list \<Rightarrow> pydict" where
  \<comment> \<open>the first verdict among the objects; next to a verdict of the artifacts only one that agrees
    with it and gives a reason\<close>
  "first_verdict artifact_verdict objects =
     (case filter (\<lambda>v. v \<noteq> []) (map review_verdict_from_object objects) of
        [] \<Rightarrow> artifact_verdict
      | v # _ \<Rightarrow>
          if artifact_verdict = [] \<or>
             (dget v ''label'' = dget artifact_verdict ''label'' \<and> review_feedback_error v = [])
          then v else artifact_verdict)"

lemma first_verdict_skip:
  "review_verdict_from_object c = [] \<Longrightarrow> first_verdict av (c # objects) = first_verdict av objects"
  by (simp add: first_verdict_def)

lemma scan_is_first: "scan_for_verdict raw_decode av s = first_verdict av (objects_in raw_decode s)"
proof (induction raw_decode av s rule: scan_for_verdict.induct)
  case (1 raw_decode av s)
  note unfold = scan_for_verdict.simps [of raw_decode av s] objects_in.simps [of raw_decode s]
  show ?case
  proof (cases "at_brace s")
    case Nil
    then show ?thesis by (simp add: unfold first_verdict_def)
  next
    case (Cons c rest)
    show ?thesis
    proof (cases "raw_decode (c # rest)")
      case None
      then show ?thesis using 1(1) [OF Cons None] Cons by (simp add: unfold)
    next
      case (Some read)
      obtain candidate consumed where read: "read = (candidate, consumed)" by fastforce
      show ?thesis
      proof (cases "review_verdict_from_object candidate = []")
        case True
        then have "scan_for_verdict raw_decode av (drop (max consumed 1) (c # rest)) =
            first_verdict av (objects_in raw_decode (drop (max consumed 1) (c # rest)))"
          using 1(2) Cons Some read by simp
        with True Cons Some read show ?thesis by (simp add: unfold first_verdict_skip)
      next
        case False
        with Cons Some read show ?thesis by (auto simp: unfold first_verdict_def Let_def)
      qed
    qed
  qed
qed

text \<open>Parsing a reply is a choice between the artifact and the first verdict of the text.  For
  every decoder the search ends; a verdict of the artifacts with a reason wins; otherwise the first
  of the objects read from left to right that holds a verdict is used, alone when the artifacts have
  none, and next to a bare one only if both decide the same and the text gives the reason.\<close>

theorem parse_is_first_verdict:
  "parse_review_verdict raw_decode content artifacts =
     (let av = review_verdict_from_object artifacts
      in if av \<noteq> [] \<and> review_feedback_error av = [] then av
         else first_verdict av (objects_in raw_decode content))"
proof -
  have "review_verdict_from_object (if truthy artifacts then artifacts else PDict []) =
      review_verdict_from_object artifacts"
    by (cases artifacts) (auto simp: review_verdict_from_object_def)
  then show ?thesis by (simp add: parse_review_verdict_def scan_is_first Let_def)
qed

lemma first_verdict_cases:
  obtains "first_verdict av objects = av"
  | candidate where "candidate \<in> set objects" "first_verdict av objects = review_verdict_from_object candidate"
      "first_verdict av objects \<noteq> []"
      "av \<noteq> [] \<Longrightarrow> dget (first_verdict av objects) ''label'' = dget av ''label'' \<and>
                    review_feedback_error (first_verdict av objects) = []"
proof (cases "filter (\<lambda>v. v \<noteq> []) (map review_verdict_from_object objects)")
  case Nil
  then show ?thesis using that(1) by (simp add: first_verdict_def)
next
  case (Cons v vs)
  then have "v \<in> set (filter (\<lambda>v. v \<noteq> []) (map review_verdict_from_object objects))" by simp
  then obtain candidate where "candidate \<in> set objects" "v = review_verdict_from_object candidate" "v \<noteq> []"
    by auto
  with Cons show ?thesis
    using that by (cases "av = [] \<or> (dget v ''label'' = dget av ''label'' \<and> review_feedback_error v = [])")
      (auto simp: first_verdict_def)
qed

text \<open>C26. The text of a reply never overturns a decision.  When the artifacts hold a verdict, the
  parsed verdict has the same label, whatever objects the text contains; and if it is not the verdict
  of the artifacts it passes the test for a reason.\<close>

theorem text_never_overturns_artifact:
  assumes "review_verdict_from_object artifacts = av" "av \<noteq> []"
  shows "dget (parse_review_verdict raw_decode content artifacts) ''label'' = dget av ''label'' \<and>
    (parse_review_verdict raw_decode content artifacts = av \<or>
     review_feedback_error (parse_review_verdict raw_decode content artifacts) = [])"
proof -
  have "review_verdict_from_object (if truthy artifacts then artifacts else PDict []) = av"
    using assms(1) by (cases artifacts) (auto simp: review_verdict_from_object_def)
  then have parsed: "parse_review_verdict raw_decode content artifacts =
      (if review_feedback_error av = [] then av else first_verdict av (objects_in raw_decode content))"
    using assms(2) by (simp add: parse_review_verdict_def scan_is_first Let_def)
  show ?thesis
    by (cases rule: first_verdict_cases [of av "objects_in raw_decode content"]) (use assms(2) parsed in auto)
qed

definition decode_reply :: decoder where
  \<comment> \<open>a decoder that knows two objects\<close>
  "decode_reply s =
     (if take 3 s = ''{1}'' then Some (PDict [(''verdict'', PStr ''approve'')], 3)
      else if take 3 s = ''{2}'' then Some (PDict [(''verdict'', PStr ''reject''), (''summary'', PStr ''no tests'')], 3)
      else None)"

theorem text_never_overturns_artifact_witness:
  "dget (parse_review_verdict decode_reply ''so { {1} then {2}'' (PDict [(''verdict'', PStr ''fail'')])) ''label''
     = PStr ''reject'' \<and>
   dget (parse_review_verdict decode_reply ''so { {2} then {1}'' (PDict [(''verdict'', PStr ''fail'')])) ''summary''
     = PStr ''no tests''"
proof -
  let ?a = "PDict [(''verdict'', PStr ''fail'')]"
  have "review_verdict_from_object ?a \<noteq> []" by code_simp
  from text_never_overturns_artifact [OF refl this, of decode_reply "''so { {1} then {2}''"]
  have "dget (parse_review_verdict decode_reply ''so { {1} then {2}'' ?a) ''label''
      = dget (review_verdict_from_object ?a) ''label''" by blast
  moreover have "dget (review_verdict_from_object ?a) ''label'' = PStr ''reject''" by code_simp
  moreover have "dget (parse_review_verdict decode_reply ''so { {2} then {1}'' ?a) ''summary'' = PStr ''no tests''"
    by code_simp
  ultimately show ?thesis by simp
qed

end
