(* ===== verification/Checkpoints.thy ===== *)
theory Checkpoints
  imports ToolPermits "HOL-Library.List_Lexorder" "HOL-Library.Char_ord" "HOL-Library.Product_Lexorder"
begin

text \<open>
  The rows of \<open>execution_checkpoints\<close> (\<open>opc/database/store.py\<close>): selection and update of a row by
  its scope, the merge of a patch into its payload, and the generic operations, which serve the
  checkpoints of the runtime and refuse the rows that carry a question to the owner.

  A \<open>clock\<close> renders a time as the text that goes into a payload and reads such a text back; the
  time of an operation is its argument \<open>now\<close>.  An operation that raises leaves the tables as they
  were, as its rolled-back transaction does.
\<close>

section \<open>Times in payloads\<close>

record clock =
  ck_text :: "int \<Rightarrow> string"
  ck_parse :: "string \<Rightarrow> int option"

definition stamp :: "clock \<Rightarrow> int \<Rightarrow> pyval" where
  \<comment> \<open>\<open>now.isoformat()\<close>\<close>
  "stamp ck now = PStr (ck_text ck now)"

definition raw_text :: "pydict \<Rightarrow> string \<Rightarrow> string" where
  \<comment> \<open>\<open>str(d.get(k, "") or "")\<close>\<close>
  "raw_text d k = (if truthy (dget d k) then py_str (dget d k) else [])"

definition opt_raw :: "string option \<Rightarrow> string" where
  \<comment> \<open>\<open>str(x or "")\<close> on an optional column\<close>
  "opt_raw x = (case x of None \<Rightarrow> [] | Some s \<Rightarrow> s)"

section \<open>Types of checkpoints\<close>

definition COMPANY_ADMISSION_CHECKPOINT_TYPES :: "string list" where
  "COMPANY_ADMISSION_CHECKPOINT_TYPES = [''company_staffing_selection'', ''company_recruitment_confirmation'']"

definition OWNER_INTERACTION_CHECKPOINT_TYPES :: "string list" where
  "OWNER_INTERACTION_CHECKPOINT_TYPES =
     [''tool_permission'', ''action_permission'', ''task_user_input'', ''company_work_item_gate'',
      ''company_delivery_feedback''] @ COMPANY_ADMISSION_CHECKPOINT_TYPES @
     [''company_reorg_pending'', ''route_clarification'', ''company_runtime_selection'',
      ''company_run_failure_review'']"

definition owner_type :: "string \<Rightarrow> bool" where
  "owner_type t \<longleftrightarrow> t \<in> set OWNER_INTERACTION_CHECKPOINT_TYPES"

definition require_owner_interaction_type :: "string \<Rightarrow> unit result" where
  "require_owner_interaction_type t = (if owner_type (py_strip t) then Inr () else Inl ValueError)"

section \<open>Payloads\<close>

function merge_execution_checkpoint_payload :: "pydict \<Rightarrow> pydict \<Rightarrow> pydict" where
  "merge_execution_checkpoint_payload current [] = current"
| "merge_execution_checkpoint_payload current ((k, v) # patch) =
     merge_execution_checkpoint_payload
       (dset k
          (case dget current k of
             PDict old \<Rightarrow> (case v of PDict w \<Rightarrow> PDict (merge_execution_checkpoint_payload old w) | _ \<Rightarrow> v)
           | _ \<Rightarrow> v)
          current)
       patch"
  by pat_completeness auto
termination
  by (relation "measure (\<lambda>(current, patch). size (PDict patch))") (auto split: pyval.splits)

declare merge_execution_checkpoint_payload.simps [simp del]

definition RESERVED_PUBLICATION_KEYS :: "string list" where
  "RESERVED_PUBLICATION_KEYS =
     [''company_final_delivery_publication'', ''company_work_item_gate_publication_provenance'']"

definition reject_reserved_final_publication_patch :: "pydict \<Rightarrow> unit result" where
  "reject_reserved_final_publication_patch patch =
     (if list_ex (dhas patch) RESERVED_PUBLICATION_KEYS then Inl ValueError else Inr ())"

definition require_reserved_final_publication_unchanged :: "pydict \<Rightarrow> pydict \<Rightarrow> unit result" where
  "require_reserved_final_publication_unchanged old new =
     (if list_all (\<lambda>k. py_eq (dget old k) (dget new k)) RESERVED_PUBLICATION_KEYS
      then Inr () else Inl ValueError)"

section \<open>Rows\<close>

definition checkpoint_with :: "string \<Rightarrow> pydict \<Rightarrow> int \<Rightarrow> checkpoint \<Rightarrow> checkpoint" where
  "checkpoint_with status payload now cp =
     cp\<lparr>cp_status := status, cp_payload := payload, cp_updated_at := now\<rparr>"

definition update_rows :: "tool_db \<Rightarrow> (checkpoint \<Rightarrow> bool) \<Rightarrow> (checkpoint \<Rightarrow> checkpoint) \<Rightarrow> nat \<times> tool_db" where
  \<comment> \<open>\<open>UPDATE execution_checkpoints SET ... WHERE\<close>: the row count and the table\<close>
  "update_rows db hit f =
     (length (filter hit (td_checkpoints db)),
      db\<lparr>td_checkpoints := map (\<lambda>cp. if hit cp then f cp else cp) (td_checkpoints db)\<rparr>)"

definition in_scope :: "string \<Rightarrow> string \<Rightarrow> string \<Rightarrow> string list \<Rightarrow> checkpoint \<Rightarrow> bool" where
  \<comment> \<open>\<open>checkpoint_id = ? AND project_id = ? AND checkpoint_type = ? AND status IN (...)\<close>\<close>
  "in_scope checkpoint_id project_id checkpoint_type statuses cp \<longleftrightarrow>
     cp_checkpoint_id cp = checkpoint_id \<and> cp_project_id cp = project_id \<and>
     cp_type cp = checkpoint_type \<and> cp_status cp \<in> set statuses"

definition checkpoint_row :: "tool_db \<Rightarrow> string \<Rightarrow> checkpoint option" where
  "checkpoint_row db checkpoint_id = find (\<lambda>cp. cp_checkpoint_id cp = checkpoint_id) (td_checkpoints db)"

definition insert_row :: "tool_db \<Rightarrow> checkpoint \<Rightarrow> tool_db result" where
  \<comment> \<open>\<open>INSERT INTO execution_checkpoints\<close>: the primary key is the checkpoint id\<close>
  "insert_row db cp =
     (if checkpoint_row db (cp_checkpoint_id cp) \<noteq> None then Inl IntegrityError
      else Inr (db\<lparr>td_checkpoints := td_checkpoints db @ [cp]\<rparr>))"

definition get_execution_checkpoint ::
  "tool_db \<Rightarrow> string \<Rightarrow> string \<Rightarrow> string option \<Rightarrow> checkpoint option" where
  "get_execution_checkpoint db checkpoint_id project_id checkpoint_type =
     (let cid = py_strip checkpoint_id
      in if cid = [] \<or> (case checkpoint_type of None \<Rightarrow> False | Some t \<Rightarrow> py_strip t = []) then None
         else select_execution_checkpoint (td_checkpoints db) cid (clean_project_id project_id)
                (map_option py_strip checkpoint_type))"

definition clean_texts :: "string list \<Rightarrow> string list" where
  \<comment> \<open>\<open>str(x).strip() for x in xs if str(x).strip()\<close>\<close>
  "clean_texts xs = filter (\<lambda>s. s \<noteq> []) (map py_strip xs)"

section \<open>Generic operations\<close>

definition create_execution_checkpoint ::
  "string \<Rightarrow> tool_db \<Rightarrow> checkpoint \<Rightarrow> (checkpoint \<times> bool) result \<times> tool_db" where
  "create_execution_checkpoint store_project db cp =
     (let cid = py_strip (cp_checkpoint_id cp); project = clean_project_id (cp_project_id cp);
          kind = py_strip (cp_type cp); st = py_strip (cp_status cp);
          row = cp\<lparr>cp_checkpoint_id := cid, cp_project_id := project, cp_type := kind,
                   cp_status := (if st = [] then ''pending'' else st)\<rparr>
      in if cid = [] \<or> kind = [] then (Inl ValueError, db)
         else if owner_type kind then (Inl RuntimeError, db)
         else case assert_project_write_scope store_project project of
           Inl e \<Rightarrow> (Inl e, db)
         | Inr _ \<Rightarrow>
             let created = (checkpoint_row db cid = None);
                 db' = (if created then db\<lparr>td_checkpoints := td_checkpoints db @ [row]\<rparr> else db)
             in case select_execution_checkpoint (td_checkpoints db') cid project (Some kind) of
                  None \<Rightarrow> (Inl RuntimeError, db)
                | Some persisted \<Rightarrow> (Inr (persisted, created), db'))"

definition patch_execution_checkpoint_payload ::
  "string \<Rightarrow> tool_db \<Rightarrow> string \<Rightarrow> string \<Rightarrow> string \<Rightarrow> string list \<Rightarrow> pydict \<Rightarrow> string \<Rightarrow> int
     \<Rightarrow> (checkpoint option \<times> bool) result \<times> tool_db" where
  "patch_execution_checkpoint_payload store_project db checkpoint_id project_id checkpoint_type
     expected_statuses patch status now =
     (let cid = py_strip checkpoint_id; project = clean_project_id project_id;
          kind = py_strip checkpoint_type; expected = clean_texts expected_statuses
      in if cid = [] \<or> kind = [] \<or> expected = [] \<or> dhas patch ''interaction'' then (Inl ValueError, db)
         else if owner_type kind then (Inl RuntimeError, db)
         else case assert_project_write_scope store_project project of
           Inl e \<Rightarrow> (Inl e, db)
         | Inr _ \<Rightarrow>
             (case select_execution_checkpoint (td_checkpoints db) cid project (Some kind) of
                None \<Rightarrow> (Inr (None, False), db)
              | Some cp \<Rightarrow>
                  if cp_status cp \<notin> set expected then (Inr (Some cp, False), db)
                  else
                    let payload = merge_execution_checkpoint_payload (cp_payload cp) patch;
                        next_status = (if py_strip status = [] then cp_status cp else py_strip status);
                        put = checkpoint_with next_status payload now;
                        (n, db') = update_rows db (in_scope cid project kind [cp_status cp]) put
                    in if n \<noteq> 1 then (Inr (Some cp, False), db)
                       else (Inr (Some (put cp), True), db')))"

definition save_execution_checkpoint ::
  "string \<Rightarrow> tool_db \<Rightarrow> checkpoint \<Rightarrow> unit result \<times> tool_db" where
  "save_execution_checkpoint store_project db cp =
     (let cid = py_strip (cp_checkpoint_id cp); project = clean_project_id (cp_project_id cp);
          kind = py_strip (cp_type cp);
          row = cp\<lparr>cp_checkpoint_id := cid, cp_project_id := project, cp_type := kind\<rparr>
      in if cid = [] \<or> kind = [] then (Inl ValueError, db)
         else if owner_type kind then (Inl RuntimeError, db)
         else case assert_project_write_scope store_project project of
           Inl e \<Rightarrow> (Inl e, db)
         | Inr _ \<Rightarrow>
             (case checkpoint_row db cid of
                None \<Rightarrow> (Inr (), db\<lparr>td_checkpoints := td_checkpoints db @ [row]\<rparr>)
              | Some existing \<Rightarrow>
                  let existing_type = py_strip (cp_type existing)
                  in if owner_type existing_type then (Inl RuntimeError, db)
                     else if clean_project_id (cp_project_id existing) \<noteq> project \<or> existing_type \<noteq> kind
                     then (Inl RuntimeError, db)
                     else (Inr (), snd (update_rows db
                             (\<lambda>r. cp_checkpoint_id r = cid \<and> cp_project_id r = project \<and> cp_type r = kind)
                             (\<lambda>_. row)))))"

definition resolve_execution_checkpoint :: "tool_db \<Rightarrow> string \<Rightarrow> string \<Rightarrow> int \<Rightarrow> unit result \<times> tool_db" where
  "resolve_execution_checkpoint db checkpoint_id status now =
     (case checkpoint_row db checkpoint_id of
        Some row \<Rightarrow>
          if owner_type (py_strip (cp_type row)) then (Inl RuntimeError, db)
          else (Inr (), snd (update_rows db (\<lambda>r. cp_checkpoint_id r = checkpoint_id)
                               (\<lambda>r. r\<lparr>cp_status := status, cp_updated_at := now\<rparr>)))
      | None \<Rightarrow> (Inr (), db))"

definition compare_and_set_execution_checkpoint ::
  "tool_db \<Rightarrow> string \<Rightarrow> string list \<Rightarrow> string \<Rightarrow> pydict \<Rightarrow> int \<Rightarrow> bool result \<times> tool_db" where
  "compare_and_set_execution_checkpoint db checkpoint_id expected_statuses status payload now =
     (let expected = clean_texts expected_statuses
      in if checkpoint_id = [] \<or> expected = [] then (Inr False, db)
         else if (case checkpoint_row db checkpoint_id of None \<Rightarrow> False
                  | Some row \<Rightarrow> owner_type (py_strip (cp_type row))) then (Inl RuntimeError, db)
         else
           let (n, db') = update_rows db
                 (\<lambda>r. cp_checkpoint_id r = checkpoint_id \<and> cp_status r \<in> set expected)
                 (checkpoint_with (py_strip status) payload now)
           in (Inr (n = 1), db'))"

text \<open>
  One round of a loop that supersedes rows read before: the row is updated while its status still
  is one of \<open>statuses\<close>.
\<close>

definition supersede_row ::
  "(checkpoint \<Rightarrow> bool) \<Rightarrow> clock \<Rightarrow> int \<Rightarrow> pyval option \<Rightarrow> checkpoint \<Rightarrow> tool_db \<Rightarrow> nat \<times> tool_db" where
  "supersede_row scope ck now winner cp db =
     (let marked = dset ''superseded_at'' (stamp ck now) (cp_payload cp);
          payload = (case winner of None \<Rightarrow> marked
                     | Some w \<Rightarrow> dset ''superseded_by_checkpoint_id'' w marked)
      in update_rows db (\<lambda>r. cp_checkpoint_id r = py_strip (cp_checkpoint_id cp) \<and> scope r)
           (checkpoint_with ''superseded'' payload now))"

definition supersede_all ::
  "(checkpoint \<Rightarrow> bool) \<Rightarrow> clock \<Rightarrow> int \<Rightarrow> pyval option \<Rightarrow> checkpoint list \<Rightarrow> tool_db \<Rightarrow> tool_db" where
  "supersede_all scope ck now winner rows db =
     fold (\<lambda>cp d. if py_strip (cp_checkpoint_id cp) = [] then d else snd (supersede_row scope ck now winner cp d))
       rows db"

definition get_or_create_active_execution_checkpoint ::
  "clock \<Rightarrow> tool_db \<Rightarrow> checkpoint \<Rightarrow> string list \<Rightarrow> bool \<Rightarrow> int
     \<Rightarrow> (checkpoint option \<times> bool) result \<times> tool_db" where
  "get_or_create_active_execution_checkpoint ck db cp checkpoint_types create_if_missing now =
     (let types = clean_texts checkpoint_types; project = clean_project_id (cp_project_id cp);
          session = opt_text (cp_session_id cp); kind = py_strip (cp_type cp);
          active = (\<lambda>r. cp_status r \<in> {''pending'', ''resuming''});
          rows = rev (sort_key (\<lambda>r. (cp_updated_at r, cp_created_at r, cp_checkpoint_id r))
                   (filter (\<lambda>r. cp_project_id r = project \<and> cp_session_id r = Some session \<and>
                              cp_type r \<in> set types \<and> active r) (td_checkpoints db)))
      in if session = [] \<or> kind \<notin> set types then (Inl ValueError, db)
         else if list_ex owner_type types then (Inl RuntimeError, db)
         else case rows of
           winner # duplicates \<Rightarrow>
             (Inr (Some winner, False),
              supersede_all active ck now (Some (PStr (cp_checkpoint_id winner))) duplicates db)
         | [] \<Rightarrow>
             if \<not> create_if_missing then (Inr (None, False), db)
             else case insert_row db (cp\<lparr>cp_project_id := project, cp_session_id := Some session, cp_type := kind\<rparr>) of
               Inl e \<Rightarrow> (Inl e, db)
             | Inr db' \<Rightarrow> (Inr (Some cp, True), db'))"

definition normalize_active_execution_checkpoints ::
  "clock \<Rightarrow> tool_db \<Rightarrow> string \<Rightarrow> string \<Rightarrow> string \<Rightarrow> string list \<Rightarrow> int \<Rightarrow> checkpoint option result \<times> tool_db" where
  \<comment> \<open>\<open>fresh_id\<close> is the generated id of the candidate, which is never inserted\<close>
  "normalize_active_execution_checkpoints ck db fresh_id project_id session_id checkpoint_types now =
     (let types = sort (remdups (clean_texts checkpoint_types))
      in if types = [] \<or> py_strip session_id = [] then (Inr None, db)
         else
           let candidate =
                 \<lparr>cp_checkpoint_id = fresh_id, cp_project_id = clean_project_id project_id, cp_type = hd types,
                  cp_status = ''pending'', cp_task_id = None, cp_payload = [],
                  cp_session_id = Some (py_strip session_id), cp_created_at = now, cp_updated_at = now\<rparr>;
               (r, db') = get_or_create_active_execution_checkpoint ck db candidate types False now
           in (bind_result r (\<lambda>(cp, _). Inr cp), db'))"

definition get_execution_checkpoints ::
  "tool_db \<Rightarrow> string \<Rightarrow> string option \<Rightarrow> string list \<Rightarrow> string list \<Rightarrow> checkpoint list" where
  \<comment> \<open>\<open>ORDER BY updated_at DESC\<close>\<close>
  "get_execution_checkpoints db project_id session_id checkpoint_types statuses =
     (let wanted = clean_texts statuses
      in sort_key (\<lambda>r. - cp_updated_at r)
           (filter (\<lambda>r. cp_project_id r = project_id \<and>
                      (wanted = [] \<or> cp_status r \<in> set wanted) \<and>
                      (opt_raw session_id = [] \<or> cp_session_id r = session_id) \<and>
                      (checkpoint_types = [] \<or> cp_type r \<in> set checkpoint_types)) (td_checkpoints db)))"

definition get_pending_checkpoints ::
  "tool_db \<Rightarrow> string \<Rightarrow> string option \<Rightarrow> string list \<Rightarrow> checkpoint list" where
  "get_pending_checkpoints db project_id session_id checkpoint_types =
     get_execution_checkpoints db project_id session_id checkpoint_types [''pending'']"

definition get_latest_pending_checkpoint :: "tool_db \<Rightarrow> string \<Rightarrow> string option \<Rightarrow> checkpoint option" where
  "get_latest_pending_checkpoint db project_id session_id =
     (case get_pending_checkpoints db project_id session_id [] of [] \<Rightarrow> None | cp # _ \<Rightarrow> Some cp)"

text \<open>The filters of the bulk supersession are optional; an empty text counts as absent.\<close>

record supersede_scope =
  ss_project_id :: string
  ss_task_id :: "string option"
  ss_session_id :: "string option"
  ss_types :: "string list"
  ss_basis_hash :: "string option"
  ss_exclude :: "string option"

definition supersede_selected :: "supersede_scope \<Rightarrow> string \<Rightarrow> checkpoint \<Rightarrow> bool" where
  "supersede_selected s project cp \<longleftrightarrow>
     cp_project_id cp = project \<and> cp_status cp = ''pending'' \<and>
     (opt_raw (ss_task_id s) = [] \<or> cp_task_id cp = ss_task_id s) \<and>
     (opt_raw (ss_session_id s) = [] \<or> cp_session_id cp = ss_session_id s) \<and>
     (if ss_types s = [] then \<not> owner_type (cp_type cp) else cp_type cp \<in> set (ss_types s))"

definition supersede_skipped :: "supersede_scope \<Rightarrow> checkpoint \<Rightarrow> bool" where
  "supersede_skipped s cp \<longleftrightarrow>
     (let cid = py_strip (cp_checkpoint_id cp); basis = clean (dget (cp_payload cp) ''basis_hash'')
      in cid = [] \<or> cid = opt_text (ss_exclude s) \<or>
         (opt_raw (ss_basis_hash s) \<noteq> [] \<and> basis \<noteq> [] \<and> basis = opt_raw (ss_basis_hash s)))"

fun supersede_rows ::
  "supersede_scope \<Rightarrow> clock \<Rightarrow> int \<Rightarrow> checkpoint list \<Rightarrow> tool_db \<Rightarrow> string list \<times> tool_db" where
  "supersede_rows s ck now [] db = ([], db)"
| "supersede_rows s ck now (cp # cps) db =
     (if supersede_skipped s cp then supersede_rows s ck now cps db
      else
        let winner = (if opt_raw (ss_exclude s) = [] then None else Some (PStr (opt_raw (ss_exclude s))));
            (n, db1) = supersede_row (\<lambda>r. cp_status r = ''pending'') ck now winner cp db;
            (ids, db2) = supersede_rows s ck now cps db1
        in (if n = 1 then py_strip (cp_checkpoint_id cp) # ids else ids, db2))"

definition supersede_pending_checkpoints ::
  "clock \<Rightarrow> string \<Rightarrow> tool_db \<Rightarrow> supersede_scope \<Rightarrow> int \<Rightarrow> string list result \<times> tool_db" where
  "supersede_pending_checkpoints ck store_project db s now =
     (let project = clean_project_id (ss_project_id s)
      in case assert_project_write_scope store_project project of
           Inl e \<Rightarrow> (Inl e, db)
         | Inr _ \<Rightarrow>
             if list_ex (\<lambda>t. owner_type (py_strip t)) (ss_types s) then (Inl ValueError, db)
             else
               let (ids, db') = supersede_rows s ck now
                     (filter (supersede_selected s project) (td_checkpoints db)) db
               in (Inr ids, db'))"

end
