(* ===== verification/OwnerInteractions.thy ===== *)
theory OwnerInteractions
  imports Checkpoints
begin

text \<open>
  Questions to the owner (\<open>opc/database/store.py\<close>): a card is published pending, answered once,
  consumed under a claim with a lease, and settled.  Its envelope is \<open>payload["interaction"]\<close>, with
  the decision, the claim of the consumer, the record of the effect and the completion.

  The publications that carry a capability of the controller's own transaction are not here; every
  operation below is one SQLite transaction.
\<close>

section \<open>Receipts\<close>

text \<open>The receipts of decisions, claims and consumptions; the claim id is that of the second.\<close>

record card_receipt =
  rc_outcome :: string
  rc_checkpoint :: "checkpoint option"
  rc_claim_id :: string

definition receipt_of :: "string \<Rightarrow> checkpoint option \<Rightarrow> string \<Rightarrow> card_receipt" where
  "receipt_of outcome cp claim_id =
     \<lparr>rc_outcome = outcome, rc_checkpoint = cp, rc_claim_id = claim_id\<rparr>"

text \<open>
  The head of every operation: the checks of the arguments, the scope of the writer, the row.
  \<open>args_ok\<close> collects the further checks that raise a \<open>ValueError\<close>.
\<close>

definition owner_row ::
  "string \<Rightarrow> tool_db \<Rightarrow> string \<Rightarrow> string \<Rightarrow> string \<Rightarrow> bool \<Rightarrow> checkpoint option result" where
  "owner_row store_project db cid project kind args_ok =
     (if cid = [] \<or> kind = [] \<or> \<not> owner_type kind \<or> \<not> args_ok then Inl ValueError
      else bind_result (assert_project_write_scope store_project project) (\<lambda>_.
           Inr (select_execution_checkpoint (td_checkpoints db) cid project (Some kind))))"

definition with_card ::
  "checkpoint option result \<Rightarrow> tool_db \<Rightarrow> (checkpoint \<Rightarrow> card_receipt result \<times> tool_db)
     \<Rightarrow> card_receipt result \<times> tool_db" where
  "with_card head db body =
     (case head of
        Inl e \<Rightarrow> (Inl e, db)
      | Inr None \<Rightarrow> (Inr (receipt_of ''not_found'' None []), db)
      | Inr (Some cp) \<Rightarrow> body cp)"

text \<open>
  The end of every operation: the row read is written back while it has one of the statuses, and
  the receipt holds the new row; a write that misses is rolled back.
\<close>

definition write_card ::
  "tool_db \<Rightarrow> checkpoint \<Rightarrow> string list \<Rightarrow> string \<Rightarrow> pydict \<Rightarrow> int \<Rightarrow> tool_db option" where
  "write_card db cp statuses status payload now =
     (let (n, db') = update_rows db
            (in_scope (cp_checkpoint_id cp) (cp_project_id cp) (cp_type cp) statuses)
            (checkpoint_with status payload now)
      in if n = 1 then Some db' else None)"

definition card_interaction :: "checkpoint \<Rightarrow> pydict" where
  "card_interaction cp = execution_checkpoint_interaction (cp_payload cp)"

definition put_interaction :: "pydict \<Rightarrow> pydict \<Rightarrow> pydict" where
  "put_interaction interaction payload = dset ''interaction'' (PDict interaction) payload"

section \<open>Publishing\<close>

definition owner_interaction_supersession_order :: "pydict \<Rightarrow> int list" where
  "owner_interaction_supersession_order interaction =
     (case dget_or interaction ''supersession_order'' (PList []) of
        PList cs \<Rightarrow>
          (let ns = map (\<lambda>c. max 0 (result_or 0 (py_int c))) cs in if ns = [] then [0] else ns)
      | _ \<Rightarrow> [0])"

definition conflicts_with :: "pydict \<Rightarrow> string \<Rightarrow> string \<Rightarrow> bool" where
  \<comment> \<open>the key is recorded in the envelope with another value\<close>
  "conflicts_with interaction k v \<longleftrightarrow> clean (dget interaction k) \<noteq> [] \<and> clean (dget interaction k) \<noteq> v"

definition publication_payload :: "pydict \<Rightarrow> string \<Rightarrow> string \<Rightarrow> int list \<Rightarrow> pydict result" where
  \<comment> \<open>the payload with the keys of the publication in its envelope\<close>
  "publication_payload payload interaction_key supersession_key order =
     (let interaction = execution_checkpoint_interaction payload;
          recorded = dget interaction ''supersession_order'';
          keyed = dset ''domain_key'' (PStr interaction_key) interaction;
          grouped = (if supersession_key = [] then keyed
                     else dset ''supersession_key'' (PStr supersession_key) keyed)
      in if list_ex (dhas payload) RESERVED_PUBLICATION_KEYS \<or>
            list_ex (dhas interaction) [''decision'', ''claim'', ''completion'', ''execution''] \<or>
            conflicts_with interaction ''domain_key'' interaction_key \<or>
            (supersession_key \<noteq> [] \<and> conflicts_with interaction ''supersession_key'' supersession_key) \<or>
            (recorded \<notin> {PNone, PList []} \<and> owner_interaction_supersession_order interaction \<noteq> order)
         then Inl ValueError
         else Inr (dset ''interaction''
                     (PDict (dset ''supersession_order'' (PList (map PInt order)) grouped)) payload))"

definition same_domain_event :: "tool_db \<Rightarrow> string \<Rightarrow> string \<Rightarrow> string \<Rightarrow> checkpoint option" where
  \<comment> \<open>the first card of the domain event, \<open>ORDER BY created_at, checkpoint_id\<close>\<close>
  "same_domain_event db project kind interaction_key =
     find (\<lambda>cp. clean (dget (card_interaction cp) ''domain_key'') = interaction_key)
       (sort_key (\<lambda>cp. (cp_created_at cp, cp_checkpoint_id cp))
          (filter (\<lambda>cp. cp_project_id cp = project \<and> cp_type cp = kind) (td_checkpoints db)))"

definition in_flow :: "string \<Rightarrow> string \<Rightarrow> string \<Rightarrow> checkpoint \<Rightarrow> bool" where
  \<comment> \<open>a card of the type that still waits for an answer in the supersession flow\<close>
  "in_flow project kind supersession_key cp \<longleftrightarrow>
     cp_project_id cp = project \<and> cp_type cp = kind \<and> cp_status cp = ''pending'' \<and>
     clean (dget (card_interaction cp) ''supersession_key'') = supersession_key"

definition flow_rank :: "checkpoint \<Rightarrow> int list \<times> string \<times> string" where
  "flow_rank cp =
     (owner_interaction_supersession_order (card_interaction cp),
      clean (dget (card_interaction cp) ''domain_key''), cp_checkpoint_id cp)"

definition supersede_flow :: "clock \<Rightarrow> tool_db \<Rightarrow> string \<Rightarrow> string \<Rightarrow> string \<Rightarrow> int \<Rightarrow> tool_db" where
  "supersede_flow ck db project kind supersession_key now =
     (case rev (sort_key flow_rank (filter (in_flow project kind supersession_key) (td_checkpoints db))) of
        [] \<Rightarrow> db
      | winner # losers \<Rightarrow>
          supersede_all (\<lambda>r. cp_project_id r = project \<and> cp_type r = kind \<and> cp_status r = ''pending'')
            ck now (Some (PStr (py_strip (cp_checkpoint_id winner)))) losers db)"

definition publish_owner_interaction_checkpoint ::
  "clock \<Rightarrow> string \<Rightarrow> tool_db \<Rightarrow> checkpoint \<Rightarrow> string \<Rightarrow> bool \<Rightarrow> string \<Rightarrow> int list \<Rightarrow> int
     \<Rightarrow> (checkpoint \<times> bool) result \<times> tool_db" where
  "publish_owner_interaction_checkpoint ck store_project db cp interaction_key supersede_pending_scope
     supersession_key supersession_order now =
     (let cid = py_strip (cp_checkpoint_id cp); project = clean_project_id (cp_project_id cp);
          kind = py_strip (cp_type cp); key = py_strip interaction_key; flow = py_strip supersession_key;
          order = map (max 0) (if supersession_order = [] then [0] else supersession_order)
      in if cid = [] \<or> kind = [] \<or> key = [] \<or> \<not> owner_type kind \<or>
            py_strip (if cp_status cp = [] then ''pending'' else cp_status cp) \<noteq> ''pending''
         then (Inl ValueError, db)
         else case bind_result (assert_project_write_scope store_project project)
                     (\<lambda>_. publication_payload (cp_payload cp) key flow order) of
           Inl e \<Rightarrow> (Inl e, db)
         | Inr payload \<Rightarrow>
             (case same_domain_event db project kind key of
                Some existing \<Rightarrow>
                  if opt_raw (cp_task_id existing) \<noteq> opt_raw (cp_task_id cp) \<or>
                     opt_raw (cp_session_id existing) \<noteq> opt_raw (cp_session_id cp)
                  then (Inl RuntimeError, db)
                  else (Inr (existing, False), db)
              | None \<Rightarrow>
                  (case insert_row db (cp\<lparr>cp_checkpoint_id := cid, cp_project_id := project, cp_type := kind,
                                         cp_status := ''pending'', cp_payload := payload\<rparr>) of
                     Inl e \<Rightarrow> (Inl e, db)
                   | Inr db1 \<Rightarrow>
                       let db2 = (if supersede_pending_scope \<and> flow \<noteq> []
                                  then supersede_flow ck db1 project kind flow now else db1)
                       in case select_execution_checkpoint (td_checkpoints db2) cid project (Some kind) of
                            None \<Rightarrow> (Inl RuntimeError, db)
                          | Some persisted \<Rightarrow> (Inr (persisted, True), db2))))"

definition create_owner_interaction_checkpoint ::
  "clock \<Rightarrow> string \<Rightarrow> tool_db \<Rightarrow> checkpoint \<Rightarrow> string \<Rightarrow> int \<Rightarrow> (checkpoint \<times> bool) result \<times> tool_db" where
  "create_owner_interaction_checkpoint ck store_project db cp interaction_key now =
     publish_owner_interaction_checkpoint ck store_project db cp interaction_key False [] [] now"

section \<open>The order of source events\<close>

text \<open>The rows of \<open>owner_interaction_source_events\<close>: project, scope, event, sequence number.\<close>

type_synonym source_events = "(string \<times> string \<times> string \<times> int) list"

definition allocate_owner_interaction_source_sequence ::
  "string \<Rightarrow> source_events \<Rightarrow> string \<Rightarrow> string \<Rightarrow> string \<Rightarrow> int result \<times> source_events" where
  "allocate_owner_interaction_source_sequence store_project rows project_id scope_id source_event_id =
     (let project = clean_project_id project_id; scope = py_strip scope_id; event = py_strip source_event_id
      in if scope = [] \<or> event = [] then (Inl ValueError, rows)
         else case assert_project_write_scope store_project project of
           Inl e \<Rightarrow> (Inl e, rows)
         | Inr _ \<Rightarrow>
             (case find (\<lambda>(p, s, e, n). p = project \<and> s = scope \<and> e = event) rows of
                Some (p, s, e, n) \<Rightarrow> (Inr n, rows)
              | None \<Rightarrow>
                  let used = map (\<lambda>(p, s, e, n). n) (filter (\<lambda>(p, s, e, n). p = project \<and> s = scope) rows);
                      sequence = (case used of [] \<Rightarrow> 0 | n # ns \<Rightarrow> fold max ns n) + 1
                  in (Inr sequence, rows @ [(project, scope, event, sequence)])))"

section \<open>Typed changes of a card\<close>

definition patch_owner_interaction_checkpoint ::
  "tool_db \<Rightarrow> string \<Rightarrow> string \<Rightarrow> string \<Rightarrow> string list \<Rightarrow> pydict \<Rightarrow> string \<Rightarrow> int
     \<Rightarrow> (checkpoint option \<times> bool) result \<times> tool_db" where
  "patch_owner_interaction_checkpoint db checkpoint_id project_id checkpoint_type expected_statuses patch
     status now =
     (let cid = py_strip checkpoint_id; project = clean_project_id project_id;
          kind = py_strip checkpoint_type; expected = clean_texts expected_statuses
      in if \<not> owner_type kind \<or> cid = [] \<or> expected = [] then (Inl ValueError, db)
         else case reject_reserved_final_publication_patch patch of
           Inl e \<Rightarrow> (Inl e, db)
         | Inr _ \<Rightarrow>
             (case select_execution_checkpoint (td_checkpoints db) cid project (Some kind) of
                None \<Rightarrow> (Inr (None, False), db)
              | Some cp \<Rightarrow>
                  if cp_status cp \<notin> set expected then (Inr (Some cp, False), db)
                  else
                    let payload = merge_execution_checkpoint_payload (cp_payload cp) patch;
                        next_status = py_strip (if status = [] then cp_status cp else status)
                    in case require_reserved_final_publication_unchanged (cp_payload cp) payload of
                         Inl e \<Rightarrow> (Inl e, db)
                       | Inr _ \<Rightarrow>
                           (case write_card db cp [cp_status cp] next_status payload now of
                              None \<Rightarrow> (Inr (Some cp, False), db)
                            | Some db' \<Rightarrow>
                                (Inr (Some (checkpoint_with next_status payload now cp), True), db'))))"

definition ENRICHMENT_FIELDS :: "string list" where
  "ENRICHMENT_FIELDS =
     [''runtime_v2'', ''runtime_session_id'', ''resume_cursor'', ''active_subagents'', ''permission_requests'',
      ''compaction_boundaries'', ''worktree_path'', ''migrated_to_runtime_v2'', ''org_version'',
      ''runtime_topology_version'', ''reorg_proposal_id'']"

definition enrich_owner_interaction_checkpoint ::
  "tool_db \<Rightarrow> string \<Rightarrow> string \<Rightarrow> string \<Rightarrow> string list \<Rightarrow> pydict \<Rightarrow> int
     \<Rightarrow> (checkpoint option \<times> bool) result \<times> tool_db" where
  "enrich_owner_interaction_checkpoint db checkpoint_id project_id checkpoint_type expected_statuses patch now =
     (if \<not> list_all (\<lambda>kv. fst kv \<in> set ENRICHMENT_FIELDS) patch then (Inl ValueError, db)
      else patch_owner_interaction_checkpoint db checkpoint_id project_id checkpoint_type expected_statuses
             patch [] now)"

definition CLOSING_STATUSES :: "string list" where
  "CLOSING_STATUSES =
     [''stale'', ''superseded'', ''cancelled'', ''canceled'', ''invalid'', ''ignored'', ''failed'',
      ''expired'', ''timeout'', ''timed_out'']"

definition CLOSING_FIELDS :: "string list" where
  "CLOSING_FIELDS =
     [''feedback_superseded'', ''feedback_superseded_at'', ''feedback_resolution'',
      ''checkpoint_resolution_reason'', ''superseded_by_company_turn'', ''stale_reason'', ''stale_at'',
      ''administrative_reason'', ''administrative_closed_at'']"

definition close_pending_owner_interaction_checkpoint ::
  "tool_db \<Rightarrow> string \<Rightarrow> string \<Rightarrow> string \<Rightarrow> string \<Rightarrow> pydict \<Rightarrow> int
     \<Rightarrow> (checkpoint option \<times> bool) result \<times> tool_db" where
  "close_pending_owner_interaction_checkpoint db checkpoint_id project_id checkpoint_type status patch now =
     (if py_strip status \<notin> set CLOSING_STATUSES \<or> \<not> list_all (\<lambda>kv. fst kv \<in> set CLOSING_FIELDS) patch
      then (Inl ValueError, db)
      else patch_owner_interaction_checkpoint db checkpoint_id project_id checkpoint_type [''pending'']
             patch (py_strip status) now)"

definition OWNERSHIP_FIELDS :: "string list" where
  "OWNERSHIP_FIELDS =
     [''ui_anchor_task_id'', ''ui_anchor_session_id'', ''waiting_task_id'', ''waiting_session_id'',
      ''execution_parent_task_id'', ''execution_parent_session_id'', ''root_session_id'',
      ''company_runtime_session_id'']"

definition ACTOR_FIELDS :: "string list" where
  "ACTOR_FIELDS =
     [''ui_anchor_task_id'', ''ui_anchor_session_id'', ''root_session_id'', ''company_runtime_session_id'']"

definition backfill_owner_interaction_ownership ::
  "tool_db \<Rightarrow> string \<Rightarrow> string \<Rightarrow> string \<Rightarrow> string list \<Rightarrow> pydict \<Rightarrow> int
     \<Rightarrow> (checkpoint option \<times> bool) result \<times> tool_db" where
  "backfill_owner_interaction_ownership db checkpoint_id project_id checkpoint_type expected_statuses
     ownership now =
     (let cid = py_strip checkpoint_id; project = clean_project_id project_id;
          kind = py_strip checkpoint_type; expected = clean_texts expected_statuses;
          normalized = map (\<lambda>(k, v). (k, PStr (clean v))) ownership
      in if require_owner_interaction_type kind \<noteq> Inr () \<or> cid = [] \<or> expected = [] \<or>
            \<not> list_all (\<lambda>kv. fst kv \<in> set OWNERSHIP_FIELDS) ownership \<or>
            (raw_text normalized ''ui_anchor_session_id'' = [] \<and> raw_text normalized ''root_session_id'' = [])
         then (Inl ValueError, db)
         else case select_execution_checkpoint (td_checkpoints db) cid project (Some kind) of
           None \<Rightarrow> (Inr (None, False), db)
         | Some cp \<Rightarrow>
             if cp_status cp \<notin> set expected then (Inr (Some cp, False), db)
             else
               let interaction = card_interaction cp
               in case dict_or_empty (dget interaction ''ownership'') of
                    Inl e \<Rightarrow> (Inl e, db)
                  | Inr current \<Rightarrow>
                      if list_ex (\<lambda>k. clean (dget current k) \<noteq> []) ACTOR_FIELDS then (Inr (Some cp, False), db)
                      else
                        let payload = dset ''interaction''
                              (PDict (dset ''ownership'' (PDict (dupdate current normalized)) interaction))
                              (cp_payload cp)
                        in case write_card db cp [cp_status cp] (cp_status cp) payload now of
                             None \<Rightarrow> (Inr (Some cp, False), db)
                           | Some db' \<Rightarrow>
                               (Inr (Some (checkpoint_with (cp_status cp) payload now cp), True), db'))"

section \<open>Accepting an answer\<close>

definition terminal_task_statuses :: "string list" where
  "terminal_task_statuses = map task_status_value [TS_DONE, TS_FAILED, TS_CANCELLED]"

definition col_val :: "string option \<Rightarrow> pyval" where
  "col_val x = (case x of None \<Rightarrow> PNone | Some s \<Rightarrow> PStr s)"

definition user_input_stale :: "tool_db \<Rightarrow> checkpoint \<Rightarrow> string \<Rightarrow> string option" where
  \<comment> \<open>why nobody waits for the answer any more\<close>
  "user_input_stale db cp project =
     (let waiting = clean (py_or (col_val (cp_task_id cp))
            (py_or (dget (cp_payload cp) ''task_id'') (dget (cp_payload cp) ''waiting_task_id'')));
          gone = Some (''task '' @ waiting @ '' no longer exists'')
      in if cp_type cp \<noteq> ''task_user_input'' \<or> waiting = [] then None
         else case task_row (td_store db) waiting of
           None \<Rightarrow> gone
         | Some t \<Rightarrow>
             let status = py_lower (py_strip (task_status_value (tk_status t)))
             in if py_strip (if tk_project_id t = [] then ''default'' else tk_project_id t) \<noteq> project then gone
                else if status \<in> set terminal_task_statuses
                then Some (''task '' @ waiting @ '' settled as '' @ status)
                else None)"

definition decision_record_of ::
  "clock \<Rightarrow> string \<Rightarrow> string \<Rightarrow> string \<Rightarrow> pyval \<Rightarrow> int \<Rightarrow> pydict" where
  "decision_record_of ck kind request_id decision_hash decision now =
     (let d = [(''request_id'', PStr request_id), (''decision_hash'', PStr decision_hash),
               (''value'', decision), (''submitted_at'', stamp ck now)]
      in if kind = ''tool_permission''
         then dset ''canonical_tool_permission_token'' (PStr (canonical_tool_permission_decision decision)) d
         else d)"

definition same_decision :: "pydict \<Rightarrow> string \<Rightarrow> pyval \<Rightarrow> bool" where
  "same_decision existing decision_hash decision \<longleftrightarrow>
     raw_text existing ''decision_hash'' = decision_hash \<and> py_eq (dget existing ''value'') decision"

definition record_answer ::
  "clock \<Rightarrow> tool_db \<Rightarrow> checkpoint \<Rightarrow> string \<Rightarrow> string \<Rightarrow> string \<Rightarrow> string \<Rightarrow> pyval \<Rightarrow> int
     \<Rightarrow> card_receipt result \<times> tool_db" where
  \<comment> \<open>the answer to a pending card without one: it is recorded, unless nobody waits for it\<close>
  "record_answer ck db cp project kind request_id decision_hash decision now =
     (case user_input_stale db cp project of
        Some reason \<Rightarrow>
          (let payload = merge_execution_checkpoint_payload (cp_payload cp)
                 [(''stale_reason'', PStr reason), (''stale_at'', stamp ck now)]
           in case write_card db cp [''pending''] ''stale'' payload now of
                None \<Rightarrow> (Inr (receipt_of ''conflict'' (Some cp) []), db)
              | Some db' \<Rightarrow>
                  (Inr (receipt_of ''invalid_state'' (Some (checkpoint_with ''stale'' payload now cp)) []), db'))
      | None \<Rightarrow>
          (let payload = put_interaction
                 (dset ''decision'' (PDict (decision_record_of ck kind request_id decision_hash decision now))
                    (card_interaction cp))
                 (cp_payload cp)
           in case require_reserved_final_publication_unchanged (cp_payload cp) payload of
                Inl e \<Rightarrow> (Inl e, db)
              | Inr _ \<Rightarrow>
                  (case write_card db cp [''pending''] ''answered'' payload now of
                     None \<Rightarrow> (Inr (receipt_of ''conflict'' (Some cp) []), db)
                   | Some db' \<Rightarrow>
                       (Inr (receipt_of ''accepted'' (Some (checkpoint_with ''answered'' payload now cp)) []), db'))))"

definition accept_execution_checkpoint_decision ::
  "clock \<Rightarrow> string \<Rightarrow> tool_db \<Rightarrow> string \<Rightarrow> string \<Rightarrow> string \<Rightarrow> string \<Rightarrow> string \<Rightarrow> pyval \<Rightarrow> int
     \<Rightarrow> card_receipt result \<times> tool_db" where
  "accept_execution_checkpoint_decision ck store_project db checkpoint_id project_id checkpoint_type
     request_id decision_hash decision now =
     (let request = py_strip request_id; hash = py_strip decision_hash; project = clean_project_id project_id;
          kind = py_strip checkpoint_type
      in with_card (owner_row store_project db (py_strip checkpoint_id) project kind (request \<noteq> [] \<and> hash \<noteq> [])) db
           (\<lambda>cp. case dget (card_interaction cp) ''decision'' of
              PDict existing \<Rightarrow>
                (Inr (receipt_of (if same_decision existing hash decision then ''duplicate'' else ''conflict'')
                        (Some cp) []), db)
            | _ \<Rightarrow>
                if cp_status cp \<noteq> ''pending'' then (Inr (receipt_of ''invalid_state'' (Some cp) []), db)
                else record_answer ck db cp project kind request hash decision now))"

section \<open>The company run of a card\<close>

definition id_texts :: "pyval list \<Rightarrow> string list" where
  "id_texts vs = filter (\<lambda>s. s \<noteq> []) (map clean vs)"

definition task_run_ids :: "store \<Rightarrow> string \<Rightarrow> string \<Rightarrow> string list" where
  \<comment> \<open>the runs a task names in its metadata and those of the cards linked to it\<close>
  "task_run_ids st project tid =
     id_texts
       ((case task_row st tid of
           None \<Rightarrow> []
         | Some t \<Rightarrow> [dget (tk_metadata t) ''delegation_run_id'', dget (tk_metadata t) ''company_run_id'']) @
        map (\<lambda>i. PStr (wi_run_id i))
          (filter (\<lambda>i. (wi_work_item_id i, tid) \<in> set (st_links st) \<and>
                     (case get_run st (wi_run_id i) of None \<Rightarrow> False | Some r \<Rightarrow> rn_project_id r = project))
             (st_items st)))"

text \<open>The run and whether the identities conflict.\<close>

definition execution_checkpoint_company_run_scope ::
  "store \<Rightarrow> checkpoint \<Rightarrow> string \<Rightarrow> (string \<times> bool) result" where
  "execution_checkpoint_company_run_scope st cp project =
     (let payload = cp_payload cp
      in bind_result (dict_or_empty (dget (card_interaction cp) ''ownership'')) (\<lambda>ownership.
         bind_result (list_or_empty (dget payload ''task_ids'')) (\<lambda>listed.
         let named = (\<lambda>ks. concat (map (\<lambda>d. map (dget d) ks) [payload, ownership]));
             task_ids = id_texts (col_val (cp_task_id cp) # named [''waiting_task_id'', ''task_id'', ''origin_task_id''] @ listed);
             run_ids = dedup (id_texts (named [''delegation_run_id'', ''company_run_id'', ''run_id'']) @
                              concat (map (task_run_ids st project) task_ids))
         in if list_ex (\<lambda>tid. case task_row st tid of None \<Rightarrow> False
                          | Some t \<Rightarrow> clean_project_id (tk_project_id t) \<noteq> project) task_ids
            then Inr ([], True)
            else Inr (case run_ids of [] \<Rightarrow> ([], False) | [r] \<Rightarrow> (r, False) | _ \<Rightarrow> ([], True)))))"

text \<open>The controller that recovers answers; without one the fields are empty.\<close>

record recovery_controller =
  rv_run_id :: string
  rv_root_session_id :: string
  rv_owner_token :: string
  rv_generation :: int

definition controller_verdict ::
  "store \<Rightarrow> checkpoint \<Rightarrow> string \<Rightarrow> recovery_controller option \<Rightarrow> int \<Rightarrow> string option result" where
  \<comment> \<open>the outcome that refuses the claim; \<open>None\<close> for the controller means that eligibility is not enforced\<close>
  "controller_verdict st cp project who now =
     (case who of
        None \<Rightarrow> Inr None
      | Some c \<Rightarrow>
          bind_result (execution_checkpoint_company_run_scope st cp project) (\<lambda>(run_id, conflict).
          if conflict then Inr (Some ''invalid_state'')
          else if run_id = [] then Inr None
          else case get_run st run_id of
            None \<Rightarrow> Inr None
          | Some r \<Rightarrow>
              if rn_project_id r = project \<and> rn_owner_token r \<noteq> [] \<and> lease_live r now \<and>
                 \<not> (py_strip (rv_run_id c) = run_id \<and> py_strip (rv_root_session_id c) = py_strip (rn_session_id r) \<and>
                    py_strip (rv_owner_token c) = py_strip (rn_owner_token r) \<and> rv_generation c = rn_generation r)
              then Inr (Some ''controller_busy'') else Inr None))"

section \<open>Claiming an answer\<close>

definition claim_of :: "pydict \<Rightarrow> pydict" where
  "claim_of interaction = permit_of (dget interaction ''claim'')"

definition claim_expired :: "clock \<Rightarrow> pydict \<Rightarrow> int \<Rightarrow> bool" where
  "claim_expired ck claim now \<longleftrightarrow>
     (case ck_parse ck (raw_text claim ''lease_expires_at'') of None \<Rightarrow> True | Some t \<Rightarrow> t \<le> now)"

definition new_claim :: "clock \<Rightarrow> string \<Rightarrow> string \<Rightarrow> int \<Rightarrow> int \<Rightarrow> int \<Rightarrow> pydict" where
  "new_claim ck claim_id consumer_id now expires attempt =
     [(''claim_id'', PStr claim_id), (''consumer_id'', PStr consumer_id), (''claimed_at'', stamp ck now),
      (''lease_expires_at'', stamp ck expires), (''attempt'', PInt attempt)]"

definition claim_attempt :: "pyval \<Rightarrow> int result" where
  "claim_attempt prior =
     bind_result (dict_or_empty prior) (\<lambda>d.
     bind_result (py_int (py_or (dget d ''attempt'') (PInt 0))) (\<lambda>n. Inr (n + 1)))"

definition drop_expired_continuations :: "tool_db \<Rightarrow> string \<Rightarrow> string \<Rightarrow> string \<Rightarrow> int \<Rightarrow> tool_db" where
  "drop_expired_continuations db project tid runtime now =
     db\<lparr>td_continuations := filter (\<lambda>c. \<not> (ct_project_id c = project \<and> ct_task_id c = tid \<and>
            ct_runtime_session_id c = runtime \<and> ct_lease_expires_at c \<le> now)) (td_continuations db)\<rparr>"

text \<open>The exact tool call of a permission card, read when its lease has expired.\<close>

record card_call =
  cl_runtime :: string
  cl_id :: string
  cl_fingerprint :: string
  cl_task :: string

definition card_call_of :: "checkpoint \<Rightarrow> card_call result" where
  "card_call_of cp =
     bind_result (dict_or_empty (dget (cp_payload cp) ''tool_call'')) (\<lambda>call.
     bind_result
       (if opt_raw (cp_task_id cp) \<noteq> [] then Inr (opt_text (cp_task_id cp))
        else bind_result (dict_or_empty (dget (card_interaction cp) ''ownership''))
               (\<lambda>ownership. Inr (clean (dget ownership ''waiting_task_id''))))
       (\<lambda>tid. Inr \<lparr>cl_runtime = clean (dget call ''runtime_session_id''), cl_id = clean (dget call ''id''),
                   cl_fingerprint = clean (dget call ''fingerprint''), cl_task = tid\<rparr>))"

definition call_result_stored :: "tool_db \<Rightarrow> checkpoint \<Rightarrow> card_call \<Rightarrow> bool" where
  "call_result_stored db cp call \<longleftrightarrow>
     cp_type cp = ''tool_permission'' \<and> cl_runtime call \<noteq> [] \<and> cl_id call \<noteq> [] \<and>
     (cl_runtime call, cl_id call) \<in> set (td_results db)"

definition finish_claim ::
  "tool_db \<Rightarrow> tool_db \<Rightarrow> checkpoint \<Rightarrow> string list \<Rightarrow> string \<Rightarrow> pydict \<Rightarrow> int \<Rightarrow> string \<Rightarrow> string \<Rightarrow> string
     \<Rightarrow> card_receipt result \<times> tool_db" where
  \<comment> \<open>\<open>db0\<close> is the state a rollback returns to\<close>
  "finish_claim db0 db cp statuses status payload now outcome claim_id lost_claim_id =
     (case require_reserved_final_publication_unchanged (cp_payload cp) payload of
        Inl e \<Rightarrow> (Inl e, db0)
      | Inr _ \<Rightarrow>
          (case write_card db cp statuses status payload now of
             None \<Rightarrow> (Inr (receipt_of ''busy'' (Some cp) lost_claim_id), db0)
           | Some db' \<Rightarrow>
               (Inr (receipt_of outcome (Some (checkpoint_with status payload now cp)) claim_id), db')))"

definition reconcile_persisted_result ::
  "clock \<Rightarrow> tool_db \<Rightarrow> checkpoint \<Rightarrow> card_call \<Rightarrow> pydict \<Rightarrow> string \<Rightarrow> string \<Rightarrow> int \<Rightarrow> int
     \<Rightarrow> card_receipt result \<times> tool_db" where
  \<comment> \<open>the result of the call is stored: the claim passes on, the call is not made again\<close>
  "reconcile_persisted_result ck db cp call prior claim_id consumer_id now expires =
     (case remove_task_runtime_tool_permit_in_transaction db (cl_task call) (cl_runtime call)
             (cl_fingerprint call) True of
        (Inl e, _) \<Rightarrow> (Inl e, db)
      | (Inr _, db1) \<Rightarrow>
          let db2 = drop_expired_continuations db1 (cp_project_id cp) (cl_task call) (cl_runtime call) now;
              interaction = card_interaction cp
          in case bind_result (claim_attempt (PDict prior)) (\<lambda>attempt.
                  bind_result (dict_or_empty (dget interaction ''execution'')) (\<lambda>execution.
                  bind_result (dict_or_empty (dget (cp_payload cp) ''approval_result'')) (\<lambda>approval.
                  let claim = dset ''reclaimed_from_claim_id'' (PStr (raw_text prior ''claim_id''))
                                (new_claim ck claim_id consumer_id now expires attempt);
                      effect = dupdate execution
                        [(''state'', PStr ''result_persisted''), (''claim_id'', PStr claim_id),
                         (''consumer_id'', PStr consumer_id), (''reconciled_at'', stamp ck now)];
                      next_interaction = dpop ''completion''
                        (dset ''execution'' (PDict effect) (dset ''claim'' (PDict claim) interaction));
                      approved = dupdate approval
                        [(''tool_call_id'', PStr (cl_id call)), (''tool_call_fingerprint'', PStr (cl_fingerprint call)),
                         (''tool_result_persisted'', PBool True), (''reconciled_after_restart'', PBool True)]
                  in Inr (put_interaction next_interaction
                            (dset ''approval_result'' (PDict approved) (cp_payload cp)))))) of
               Inl e \<Rightarrow> (Inl e, db)
             | Inr payload \<Rightarrow>
                 finish_claim db db2 cp [''consuming''] ''consuming'' payload now ''reclaimed'' claim_id
                   (raw_text prior ''claim_id''))"

definition close_unknown_outcome ::
  "clock \<Rightarrow> tool_db \<Rightarrow> checkpoint \<Rightarrow> card_call \<Rightarrow> pydict \<Rightarrow> pydict \<Rightarrow> int \<Rightarrow> card_receipt result \<times> tool_db" where
  \<comment> \<open>the lost consumer had entered the effect: whether it happened is not known\<close>
  "close_unknown_outcome ck db cp call prior execution now =
     (let prior_id = raw_text prior ''claim_id'';
          effect = dupdate execution
            [(''state'', PStr ''outcome_unknown''), (''detected_at'', stamp ck now),
             (''reason'', PStr ''execution_lease_expired'')];
          completion = [(''claim_id'', PStr prior_id), (''consumer_id'', PStr (raw_text prior ''consumer_id'')),
             (''finished_at'', stamp ck now), (''final_status'', PStr ''outcome_unknown'')];
          payload = put_interaction (dset ''completion'' (PDict completion)
             (dset ''execution'' (PDict effect) (card_interaction cp))) (cp_payload cp);
          cleaned = (if cp_type cp = ''tool_permission''
             then (case remove_task_runtime_tool_permit_in_transaction db (cl_task call) (cl_runtime call)
                          (cl_fingerprint call) False of
                     (Inl e, _) \<Rightarrow> Inl e
                   | (Inr _, db1) \<Rightarrow>
                       Inr (drop_expired_continuations db1 (cp_project_id cp) (cl_task call) (cl_runtime call) now))
             else Inr db)
      in case cleaned of
           Inl e \<Rightarrow> (Inl e, db)
         | Inr db1 \<Rightarrow>
             finish_claim db db1 cp [''consuming''] ''outcome_unknown'' payload now ''invalid_state'' prior_id prior_id)"

definition grant_claim ::
  "clock \<Rightarrow> tool_db \<Rightarrow> checkpoint \<Rightarrow> pyval \<Rightarrow> bool \<Rightarrow> string \<Rightarrow> string \<Rightarrow> int \<Rightarrow> int \<Rightarrow> card_receipt result \<times> tool_db" where
  "grant_claim ck db cp prior reclaim claim_id consumer_id now expires =
     (let fresh = new_claim ck claim_id consumer_id now expires (result_or 1 (claim_attempt prior));
          claim = (case prior of
                     PDict d \<Rightarrow>
                       if reclaim then dset ''reclaimed_from_claim_id'' (PStr (raw_text d ''claim_id'')) fresh else fresh
                   | _ \<Rightarrow> fresh);
          execution = [(''state'', PStr ''ready''), (''claim_id'', PStr claim_id), (''consumer_id'', PStr consumer_id)];
          payload = put_interaction (dset ''execution'' (PDict execution)
             (dset ''claim'' (PDict claim) (card_interaction cp))) (cp_payload cp)
      in finish_claim db db cp [if reclaim then ''consuming'' else ''answered''] ''consuming'' payload now
           (if reclaim then ''reclaimed'' else ''claimed'') claim_id [])"

definition reclaim_card ::
  "clock \<Rightarrow> tool_db \<Rightarrow> checkpoint \<Rightarrow> string \<Rightarrow> string \<Rightarrow> int \<Rightarrow> int \<Rightarrow> card_receipt result \<times> tool_db" where
  \<comment> \<open>a card that is being consumed already\<close>
  "reclaim_card ck db cp claim_id consumer_id now expires =
     (let interaction = card_interaction cp;
          prior = claim_of interaction;
          prior_id = raw_text prior ''claim_id''
      in if \<not> claim_expired ck prior now
         then (Inr (receipt_of
                 (if prior_id = claim_id \<and> raw_text prior ''consumer_id'' = consumer_id then ''duplicate'' else ''busy'')
                 (Some cp) prior_id), db)
         else case card_call_of cp of
           Inl e \<Rightarrow> (Inl e, db)
         | Inr call \<Rightarrow>
             if call_result_stored db cp call
             then reconcile_persisted_result ck db cp call prior claim_id consumer_id now expires
             else
               let execution = permit_of (dget interaction ''execution'')
               in if raw_text execution ''state'' = ''executing'' \<and> raw_text execution ''claim_id'' = prior_id
                  then close_unknown_outcome ck db cp call prior execution now
                  else grant_claim ck db cp (PDict prior) True claim_id consumer_id now expires)"

definition claim_card ::
  "clock \<Rightarrow> tool_db \<Rightarrow> checkpoint \<Rightarrow> string \<Rightarrow> string \<Rightarrow> int \<Rightarrow> int \<Rightarrow> card_receipt result \<times> tool_db" where
  "claim_card ck db cp claim_id consumer_id now expires =
     (case dget (card_interaction cp) ''decision'' of
        PDict _ \<Rightarrow>
          if cp_status cp = ''consuming'' then reclaim_card ck db cp claim_id consumer_id now expires
          else if cp_status cp = ''answered''
          then grant_claim ck db cp (dget (card_interaction cp) ''claim'') False claim_id consumer_id now expires
          else (Inr (receipt_of ''invalid_state'' (Some cp) []), db)
      | _ \<Rightarrow> (Inr (receipt_of ''invalid_state'' (Some cp) []), db))"

text \<open>\<open>claim_id\<close> is the id the caller asks for, or the one generated when it asks for none.\<close>

definition claim_answered_execution_checkpoint ::
  "clock \<Rightarrow> string \<Rightarrow> tool_db \<Rightarrow> string \<Rightarrow> string \<Rightarrow> string \<Rightarrow> string \<Rightarrow> string \<Rightarrow> int
     \<Rightarrow> recovery_controller option \<Rightarrow> int \<Rightarrow> card_receipt result \<times> tool_db" where
  "claim_answered_execution_checkpoint ck store_project db checkpoint_id project_id checkpoint_type
     consumer_id claim_id lease who now =
     (let consumer = py_strip consumer_id; claim = py_strip claim_id; project = clean_project_id project_id
      in with_card (owner_row store_project db (py_strip checkpoint_id) project (py_strip checkpoint_type)
                      (consumer \<noteq> [] \<and> claim \<noteq> [] \<and> 0 < lease)) db
           (\<lambda>cp. case controller_verdict (td_store db) cp project who now of
                Inl e \<Rightarrow> (Inl e, db)
              | Inr (Some outcome) \<Rightarrow> (Inr (receipt_of outcome (Some cp) []), db)
              | Inr None \<Rightarrow> claim_card ck db cp claim consumer now (now + lease)))"

section \<open>The effect\<close>

definition claim_matches :: "pyval \<Rightarrow> string \<Rightarrow> string \<Rightarrow> bool" where
  "claim_matches claim claim_id consumer_id \<longleftrightarrow>
     (case claim of
        PDict d \<Rightarrow> raw_text d ''claim_id'' = claim_id \<and> raw_text d ''consumer_id'' = consumer_id
      | _ \<Rightarrow> False)"

definition executing_record :: "clock \<Rightarrow> string \<Rightarrow> string \<Rightarrow> int \<Rightarrow> pydict" where
  "executing_record ck claim_id consumer_id now =
     [(''state'', PStr ''executing''), (''claim_id'', PStr claim_id), (''consumer_id'', PStr consumer_id),
      (''started_at'', stamp ck now)]"

definition busy_with :: "checkpoint \<Rightarrow> pyval \<Rightarrow> card_receipt result" where
  \<comment> \<open>the receipt of a caller that does not hold the claim\<close>
  "busy_with cp claim =
     bind_result (dict_or_empty claim) (\<lambda>d. Inr (receipt_of ''busy'' (Some cp) (raw_text d ''claim_id'')))"

definition begin_execution_checkpoint_effect ::
  "clock \<Rightarrow> string \<Rightarrow> tool_db \<Rightarrow> string \<Rightarrow> string \<Rightarrow> string \<Rightarrow> string \<Rightarrow> string \<Rightarrow> int
     \<Rightarrow> card_receipt result \<times> tool_db" where
  "begin_execution_checkpoint_effect ck store_project db checkpoint_id project_id checkpoint_type
     claim_id consumer_id now =
     (let claim = py_strip claim_id; consumer = py_strip consumer_id
      in with_card (owner_row store_project db (py_strip checkpoint_id) (clean_project_id project_id)
                      (py_strip checkpoint_type) (claim \<noteq> [] \<and> consumer \<noteq> [])) db
           (\<lambda>cp.
             if cp_status cp \<noteq> ''consuming'' then (Inr (receipt_of ''invalid_state'' (Some cp) []), db)
             else
               let interaction = card_interaction cp; held = dget interaction ''claim'';
                   execution = permit_of (dget interaction ''execution'')
               in if \<not> claim_matches held claim consumer then (busy_with cp held, db)
                  else if raw_text execution ''state'' = ''executing'' \<and> raw_text execution ''claim_id'' = claim \<and>
                          raw_text execution ''consumer_id'' = consumer
                  then (Inr (receipt_of ''duplicate'' (Some cp) claim), db)
                  else finish_claim db db cp [''consuming''] ''consuming''
                         (put_interaction
                            (dset ''execution'' (PDict (executing_record ck claim consumer now)) interaction)
                            (cp_payload cp))
                         now ''started'' claim claim))"

text \<open>The identity of an exact call, read from the permit the caller presents.\<close>

definition exact_call_complete :: "pydict \<Rightarrow> bool" where
  "exact_call_complete p \<longleftrightarrow>
     permit_text p ''checkpoint_type'' = ''tool_permission'' \<and>
     list_all (\<lambda>k. permit_text p k \<noteq> [])
       [''checkpoint_id'', ''task_id'', ''runtime_session_id'', ''fingerprint'', ''id'', ''function'',
        ''claim_id'', ''consumer_id''] \<and>
     (case dget p ''arguments'' of PDict _ \<Rightarrow> True | _ \<Rightarrow> False)"

definition exact_identity_matches :: "pydict \<Rightarrow> ledger \<Rightarrow> checkpoint \<Rightarrow> pydict \<Rightarrow> string \<Rightarrow> bool result" where
  \<comment> \<open>the permit in the ledger is the one presented, and the checkpoint approves it\<close>
  "exact_identity_matches current l cp p project =
     (if current = [] \<or> \<not> py_eq (PDict current) (PDict p) \<or>
         lg_runtime_id l \<noteq> permit_text p ''runtime_session_id'' then Inr False
      else bind_result (dict_or_empty (dget p ''execution_envelope'')) (\<lambda>envelope.
           bind_result (dict_or_empty (dget p ''execution_identity'')) (\<lambda>identity.
           exact_tool_permit_matches_checkpoint current cp
             (permit_call_of p (permit_text p ''task_id'') project (permit_text p ''runtime_session_id'')
                (permit_text p ''fingerprint'') envelope identity))))"

definition exact_effect_allowed ::
  "tool_db \<Rightarrow> task \<Rightarrow> checkpoint \<Rightarrow> pydict \<Rightarrow> string \<Rightarrow> (ledger \<times> pydict \<times> bool) result" where
  \<comment> \<open>the ledger of the task, the permit in it, and whether the call may start\<close>
  "exact_effect_allowed db row cp p project =
     bind_result (canonicalize_task_runtime_tool_ledger (tk_context_snapshot row) (tk_metadata row)) (\<lambda>l.
     bind_result (dict_or_empty (dget (lg_permits l) (permit_text p ''fingerprint''))) (\<lambda>current.
     bind_result (dict_or_empty (dget (card_interaction cp) ''execution'')) (\<lambda>execution.
     bind_result (exact_identity_matches current l cp p project) (\<lambda>identity_matches.
     Inr (l, current,
          identity_matches \<and>
          dget current ''approved'' = PBool True \<and>
          permit_text current ''decision'' \<in> approved_decisions \<and>
          permit_text current ''state'' = ''ready'' \<and>
          permit_text execution ''state'' = ''ready'' \<and>
          permit_text execution ''claim_id'' = permit_text p ''claim_id'' \<and>
          permit_text execution ''consumer_id'' = permit_text p ''consumer_id'' \<and>
          (permit_text p ''runtime_session_id'', permit_text p ''id'') \<notin> set (td_results db))))))"

definition enter_exact_effect ::
  "clock \<Rightarrow> tool_db \<Rightarrow> task \<Rightarrow> checkpoint \<Rightarrow> pydict \<Rightarrow> ledger \<Rightarrow> pydict \<Rightarrow> int \<Rightarrow> card_receipt result \<times> tool_db" where
  \<comment> \<open>the permit and the checkpoint enter the effect in one transaction\<close>
  "enter_exact_effect ck db row cp p l current now =
     (let claim = permit_text p ''claim_id'';
          permits = dset (permit_text p ''fingerprint'') (PDict (dset ''state'' (PStr ''executing'') current)) (lg_permits l);
          db1 = write_ledger_row db row l permits (lg_continuation l) (permit_text p ''runtime_session_id'') False;
          payload = put_interaction
            (dset ''execution'' (PDict (executing_record ck claim (permit_text p ''consumer_id'') now)) (card_interaction cp))
            (cp_payload cp)
      in case write_card db1 cp [''consuming''] ''consuming'' payload now of
           None \<Rightarrow> (Inr (receipt_of ''busy'' (Some cp) claim), db)
         | Some db2 \<Rightarrow>
             (Inr (receipt_of ''started'' (Some (checkpoint_with ''consuming'' payload now cp)) claim), db2))"

definition exact_project :: "pydict \<Rightarrow> string" where
  "exact_project p = (let c = permit_text p ''checkpoint_project_id'' in if c = [] then ''default'' else c)"

definition begin_exact_tool_permission_effect ::
  "clock \<Rightarrow> string \<Rightarrow> tool_db \<Rightarrow> pydict \<Rightarrow> int \<Rightarrow> card_receipt result \<times> tool_db" where
  "begin_exact_tool_permission_effect ck store_project db p now =
     (let project = exact_project p; claim = permit_text p ''claim_id''
      in with_card (owner_row store_project db (permit_text p ''checkpoint_id'') project ''tool_permission''
                      (exact_call_complete p)) db
           (\<lambda>cp.
             if cp_status cp \<noteq> ''consuming'' then (Inr (receipt_of ''invalid_state'' (Some cp) []), db)
             else case find (\<lambda>t. tk_id t = permit_text p ''task_id'' \<and> tk_project_id t = project)
                         (st_tasks (td_store db)) of
               None \<Rightarrow> (Inr (receipt_of ''invalid_state'' (Some cp) claim), db)
             | Some row \<Rightarrow>
                 (case exact_effect_allowed db row cp p project of
                    Inl e \<Rightarrow> (Inl e, db)
                  | Inr (l, current, allowed) \<Rightarrow>
                      if \<not> allowed then (Inr (receipt_of ''invalid_state'' (Some cp) claim), db)
                      else enter_exact_effect ck db row cp p l current now)))"

section \<open>Keeping and settling a claim\<close>

definition renew_execution_checkpoint_claim ::
  "clock \<Rightarrow> string \<Rightarrow> tool_db \<Rightarrow> string \<Rightarrow> string \<Rightarrow> string \<Rightarrow> string \<Rightarrow> string \<Rightarrow> int \<Rightarrow> int
     \<Rightarrow> card_receipt result \<times> tool_db" where
  "renew_execution_checkpoint_claim ck store_project db checkpoint_id project_id checkpoint_type
     claim_id consumer_id lease now =
     (let claim = py_strip claim_id; consumer = py_strip consumer_id
      in with_card (owner_row store_project db (py_strip checkpoint_id) (clean_project_id project_id)
                      (py_strip checkpoint_type) (claim \<noteq> [] \<and> consumer \<noteq> [] \<and> 0 < lease)) db
           (\<lambda>cp.
             if cp_status cp \<noteq> ''consuming'' then (Inr (receipt_of ''invalid_state'' (Some cp) []), db)
             else
               let interaction = card_interaction cp; held = dget interaction ''claim''
               in if \<not> claim_matches held claim consumer then (busy_with cp held, db)
                  else
                    let next_claim = dset ''heartbeat_at'' (stamp ck now)
                          (dset ''lease_expires_at'' (stamp ck (now + lease)) (permit_of held));
                        payload = put_interaction (dset ''claim'' (PDict next_claim) interaction) (cp_payload cp)
                    in case write_card db cp [''consuming''] ''consuming'' payload now of
                         None \<Rightarrow> (Inr (receipt_of ''busy'' (Some cp) claim), db)
                       | Some db' \<Rightarrow>
                           (Inr (receipt_of ''renewed'' (Some (checkpoint_with ''consuming'' payload now cp)) claim), db')))"

datatype settle_action = Finish | Release

definition already_settled ::
  "checkpoint \<Rightarrow> settle_action \<Rightarrow> string \<Rightarrow> string \<Rightarrow> string \<Rightarrow> string option" where
  \<comment> \<open>the outcome for a caller whose action, or another's, has been recorded\<close>
  "already_settled cp action claim_id consumer_id final_status =
     (let interaction = card_interaction cp
      in case action of
           Finish \<Rightarrow>
             (case dget interaction ''completion'' of
                PDict d \<Rightarrow>
                  Some (if raw_text d ''claim_id'' = claim_id \<and> raw_text d ''consumer_id'' = consumer_id \<and>
                           raw_text d ''final_status'' = final_status then ''duplicate'' else ''conflict'')
              | _ \<Rightarrow> None)
         | Release \<Rightarrow>
             (case dget interaction ''last_release'' of
                PDict d \<Rightarrow>
                  if raw_text d ''claim_id'' = claim_id \<and> raw_text d ''consumer_id'' = consumer_id \<and>
                     cp_status cp = ''answered'' then Some ''duplicate'' else None
              | _ \<Rightarrow> None))"

definition settled_interaction ::
  "clock \<Rightarrow> settle_action \<Rightarrow> string \<Rightarrow> string \<Rightarrow> string \<Rightarrow> string \<Rightarrow> int \<Rightarrow> pydict \<Rightarrow> pydict result" where
  "settled_interaction ck action claim_id consumer_id final_status reason now interaction =
     (case action of
        Finish \<Rightarrow>
          bind_result (dict_or_empty (dget interaction ''execution'')) (\<lambda>execution.
          Inr (dset ''execution''
                 (PDict (dupdate execution [(''state'', PStr final_status), (''finished_at'', stamp ck now)]))
                 (dset ''completion''
                    (PDict [(''claim_id'', PStr claim_id), (''consumer_id'', PStr consumer_id),
                            (''finished_at'', stamp ck now), (''final_status'', PStr final_status)])
                    interaction)))
      | Release \<Rightarrow>
          Inr (dset ''execution'' (PDict [(''state'', PStr ''ready''), (''released_at'', stamp ck now)])
                 (dpop ''claim''
                    (dset ''last_release''
                       (PDict [(''claim_id'', PStr claim_id), (''consumer_id'', PStr consumer_id),
                               (''released_at'', stamp ck now), (''reason'', PStr reason)])
                       interaction))))"

definition settle_execution_checkpoint_consumption ::
  "clock \<Rightarrow> string \<Rightarrow> tool_db \<Rightarrow> string \<Rightarrow> string \<Rightarrow> string \<Rightarrow> string \<Rightarrow> string \<Rightarrow> settle_action
     \<Rightarrow> string \<Rightarrow> pydict \<Rightarrow> string \<Rightarrow> int \<Rightarrow> card_receipt result \<times> tool_db" where
  "settle_execution_checkpoint_consumption ck store_project db checkpoint_id project_id checkpoint_type
     claim_id consumer_id action final_status patch reason now =
     (let claim = py_strip claim_id; consumer = py_strip consumer_id
      in with_card (owner_row store_project db (py_strip checkpoint_id) (clean_project_id project_id)
                      (py_strip checkpoint_type)
                      (claim \<noteq> [] \<and> consumer \<noteq> [] \<and> \<not> dhas patch ''interaction'' \<and>
                       reject_reserved_final_publication_patch patch = Inr ())) db
           (\<lambda>cp. case already_settled cp action claim consumer final_status of
                Some outcome \<Rightarrow> (Inr (receipt_of outcome (Some cp) []), db)
              | None \<Rightarrow>
                  let interaction = card_interaction cp;
                      payload = merge_execution_checkpoint_payload (cp_payload cp) patch
                  in if cp_status cp \<noteq> ''consuming'' then (Inr (receipt_of ''invalid_state'' (Some cp) []), db)
                     else if \<not> claim_matches (dget interaction ''claim'') claim consumer \<or>
                             (action = Release \<and>
                              raw_text (permit_of (dget interaction ''execution'')) ''state'' = ''executing'')
                     then (Inr (receipt_of ''conflict'' (Some cp) []), db)
                     else
                       (case bind_result (require_reserved_final_publication_unchanged (cp_payload cp) payload)
                               (\<lambda>_. bind_result
                                  (settled_interaction ck action claim consumer final_status reason now
                                     (execution_checkpoint_interaction payload))
                                  (\<lambda>settled. Inr (put_interaction settled payload))) of
                          Inl e \<Rightarrow> (Inl e, db)
                        | Inr next_payload \<Rightarrow>
                            (case write_card db cp [''consuming''] final_status next_payload now of
                               None \<Rightarrow> (Inr (receipt_of ''conflict'' (Some cp) []), db)
                             | Some db' \<Rightarrow>
                                 (Inr (receipt_of (case action of Finish \<Rightarrow> ''finished'' | Release \<Rightarrow> ''released'')
                                         (Some (checkpoint_with final_status next_payload now cp)) []), db')))))"

definition finish_execution_checkpoint_consumption ::
  "clock \<Rightarrow> string \<Rightarrow> tool_db \<Rightarrow> string \<Rightarrow> string \<Rightarrow> string \<Rightarrow> string \<Rightarrow> string \<Rightarrow> string \<Rightarrow> pydict \<Rightarrow> int
     \<Rightarrow> card_receipt result \<times> tool_db" where
  "finish_execution_checkpoint_consumption ck store_project db checkpoint_id project_id checkpoint_type
     claim_id consumer_id final_status patch now =
     (let status = py_strip final_status
      in if status \<in> set [[], ''pending'', ''answered'', ''consuming'', ''resuming''] then (Inl ValueError, db)
         else settle_execution_checkpoint_consumption ck store_project db checkpoint_id project_id
                checkpoint_type claim_id consumer_id Finish status patch [] now)"

definition release_execution_checkpoint_claim ::
  "clock \<Rightarrow> string \<Rightarrow> tool_db \<Rightarrow> string \<Rightarrow> string \<Rightarrow> string \<Rightarrow> string \<Rightarrow> string \<Rightarrow> string \<Rightarrow> pydict \<Rightarrow> int
     \<Rightarrow> card_receipt result \<times> tool_db" where
  "release_execution_checkpoint_claim ck store_project db checkpoint_id project_id checkpoint_type
     claim_id consumer_id reason patch now =
     settle_execution_checkpoint_consumption ck store_project db checkpoint_id project_id
       checkpoint_type claim_id consumer_id Release ''answered'' patch reason now"

end
