(* ===== verification/OwnerProtocol.thy ===== *)
theory OwnerProtocol
  imports OwnerInteractions
begin

text \<open>
  The protocol of a question to the owner.  An abstract machine (\<open>card_step\<close>) says what a card may
  do: it waits, is answered once, is consumed by one holder of a claim at a time, and closes.  Every
  interaction command and every generic operation on the checkpoint table is a step of this machine
  on every card or leaves the card alone; that a decision stays, that an effect starts once and that
  a live claim excludes others are then facts about the machine.
\<close>

section \<open>The abstract machine\<close>

record holder =
  h_claim :: string
  h_consumer :: string
  h_expires :: string

datatype card =
    Waiting
  | Answered pyval
  | Consumed pyval holder string
  | Closed pyval

definition expired_at :: "clock \<Rightarrow> string \<Rightarrow> int \<Rightarrow> bool" where
  "expired_at ck e now \<longleftrightarrow> (case ck_parse ck e of None \<Rightarrow> True | Some t \<Rightarrow> t \<le> now)"

text \<open>
  One step at a time \<open>now\<close> by a caller who presents the claim id \<open>who\<close> (empty for operations
  without a claim), on the type of a card and its state.
\<close>

inductive card_step :: "clock \<Rightarrow> int \<Rightarrow> string \<Rightarrow> (string \<times> card) option \<Rightarrow> (string \<times> card) option \<Rightarrow> bool"
  for ck now who where
  publish: "card_step ck now who None (Some (k, Waiting))"
| publish_late: "card_step ck now who None (Some (k, Closed PNone))"
| withdraw: "card_step ck now who (Some (k, Waiting)) (Some (k, Closed PNone))"
| answer: "card_step ck now who (Some (k, Waiting)) (Some (k, Answered (PDict d)))"
| claim: "h_claim h = who \<Longrightarrow> card_step ck now who (Some (k, Answered d)) (Some (k, Consumed d h ''ready''))"
| take_over: "s \<noteq> ''executing'' \<Longrightarrow> expired_at ck (h_expires h) now \<Longrightarrow> h_claim h' = who \<Longrightarrow>
    card_step ck now who (Some (k, Consumed d h s)) (Some (k, Consumed d h' ''ready''))"
| reconcile: "expired_at ck (h_expires h) now \<Longrightarrow> h_claim h' = who \<Longrightarrow>
    card_step ck now who (Some (''tool_permission'', Consumed d h s))
      (Some (''tool_permission'', Consumed d h' ''result_persisted''))"
| start: "s \<noteq> ''executing'' \<Longrightarrow> h_claim h = who \<Longrightarrow>
    card_step ck now who (Some (k, Consumed d h s)) (Some (k, Consumed d h ''executing''))"
| renew: "h_claim h = who \<Longrightarrow> h_claim h' = who \<Longrightarrow> h_consumer h' = h_consumer h \<Longrightarrow>
    card_step ck now who (Some (k, Consumed d h s)) (Some (k, Consumed d h' s))"
| give_back: "s \<noteq> ''executing'' \<Longrightarrow> h_claim h = who \<Longrightarrow>
    card_step ck now who (Some (k, Consumed d h s)) (Some (k, Answered d))"
| settle: "h_claim h = who \<Longrightarrow>
    card_step ck now who (Some (k, Consumed d h s)) (Some (k, Closed d))"
| lose: "expired_at ck (h_expires h) now \<Longrightarrow>
    card_step ck now who (Some (k, Consumed d h ''executing'')) (Some (k, Closed d))"

inductive_cases card_stepE: "card_step ck now who x y"

section \<open>The card in a row\<close>

definition decision_of :: "checkpoint \<Rightarrow> pyval" where
  "decision_of cp = (case dget (card_interaction cp) ''decision'' of PDict d \<Rightarrow> PDict d | _ \<Rightarrow> PNone)"

definition holder_of :: "checkpoint \<Rightarrow> holder" where
  "holder_of cp =
     \<lparr>h_claim = raw_text (claim_of (card_interaction cp)) ''claim_id'',
      h_consumer = raw_text (claim_of (card_interaction cp)) ''consumer_id'',
      h_expires = raw_text (claim_of (card_interaction cp)) ''lease_expires_at''\<rparr>"

definition execution_of :: "checkpoint \<Rightarrow> pydict" where
  "execution_of cp = permit_of (dget (card_interaction cp) ''execution'')"

definition card_state :: "checkpoint \<Rightarrow> card" where
  "card_state cp =
     (if cp_status cp = ''pending'' then Waiting
      else if cp_status cp = ''answered'' then Answered (decision_of cp)
      else if cp_status cp = ''consuming''
      then Consumed (decision_of cp) (holder_of cp) (raw_text (execution_of cp) ''state'')
      else Closed (decision_of cp))"

definition owner_card :: "tool_db \<Rightarrow> string \<Rightarrow> (string \<times> card) option" where
  "owner_card db cid =
     (case checkpoint_row db cid of
        None \<Rightarrow> None
      | Some cp \<Rightarrow> if owner_type (cp_type cp) then Some (cp_type cp, card_state cp) else None)"

text \<open>
  What the rows keep: a waiting card has no decision, and the record of the effect names the claim
  that holds the card.
\<close>

definition card_ok :: "checkpoint \<Rightarrow> bool" where
  "card_ok cp \<longleftrightarrow>
     (cp_status cp = ''pending'' \<longrightarrow> decision_of cp = PNone) \<and>
     (cp_status cp = ''consuming'' \<longrightarrow>
        h_claim (holder_of cp) \<noteq> [] \<and> py_strip (h_claim (holder_of cp)) = h_claim (holder_of cp) \<and>
        py_strip (h_consumer (holder_of cp)) = h_consumer (holder_of cp) \<and>
        raw_text (execution_of cp) ''claim_id'' = h_claim (holder_of cp) \<and>
        raw_text (execution_of cp) ''consumer_id'' = h_consumer (holder_of cp))"

definition cards_ok :: "tool_db \<Rightarrow> bool" where
  "cards_ok db \<longleftrightarrow>
     distinct (map cp_checkpoint_id (td_checkpoints db)) \<and>
     (\<forall>cp\<in>set (td_checkpoints db). cp_checkpoint_id cp \<noteq> [] \<and>
        py_strip (cp_checkpoint_id cp) = cp_checkpoint_id cp \<and> (owner_type (cp_type cp) \<longrightarrow> card_ok cp))"

definition cards_step :: "clock \<Rightarrow> int \<Rightarrow> string \<Rightarrow> tool_db \<Rightarrow> tool_db \<Rightarrow> bool" where
  \<comment> \<open>every card takes a step or stays\<close>
  "cards_step ck now who db db' \<longleftrightarrow>
     cards_ok db' \<and>
     (\<forall>cid. owner_card db' cid = owner_card db cid \<or>
            card_step ck now who (owner_card db cid) (owner_card db' cid))"

section \<open>Rows\<close>

lemma owner_types_stripped: "list_all (\<lambda>t. py_strip t = t) OWNER_INTERACTION_CHECKPOINT_TYPES"
  by code_simp

lemma owner_type_strip: "owner_type t \<Longrightarrow> py_strip t = t"
  using owner_types_stripped by (auto simp: owner_type_def list_all_iff)

lemma row_unique:
  "distinct (map cp_checkpoint_id cps) \<Longrightarrow> cp \<in> set cps \<Longrightarrow>
   find (\<lambda>r. cp_checkpoint_id r = cp_checkpoint_id cp) cps = Some cp"
  by (induction cps) (auto simp: image_iff)

lemma checkpoint_row_iff:
  "cards_ok db \<Longrightarrow> checkpoint_row db cid = Some cp \<longleftrightarrow> cp \<in> set (td_checkpoints db) \<and> cp_checkpoint_id cp = cid"
  using row_unique [of "td_checkpoints db" cp]
  by (auto simp: checkpoint_row_def cards_ok_def find_Some_iff)

lemma selected:
  assumes "cards_ok db" "select_execution_checkpoint (td_checkpoints db) cid project (Some kind) = Some cp"
  shows "checkpoint_row db cid = Some cp" "cp \<in> set (td_checkpoints db)" "cp_checkpoint_id cp = cid"
    "cp_project_id cp = project" "cp_type cp = kind"
proof -
  from assms(2) show *: "cp \<in> set (td_checkpoints db)" "cp_checkpoint_id cp = cid"
    "cp_project_id cp = project" "cp_type cp = kind"
    by (auto simp: select_execution_checkpoint_def find_Some_iff)
  with checkpoint_row_iff [OF assms(1)] show "checkpoint_row db cid = Some cp" by simp
qed

lemma owner_row_Some:
  assumes "cards_ok db" "owner_row sp db cid project kind ok = Inr (Some cp)"
  shows "checkpoint_row db cid = Some cp" "cp \<in> set (td_checkpoints db)" "cp_checkpoint_id cp = cid"
    "cp_project_id cp = project" "cp_type cp = kind" "owner_type kind" ok "card_ok cp"
proof -
  from assms(2) have s: "select_execution_checkpoint (td_checkpoints db) cid project (Some kind) = Some cp"
    and k: "owner_type kind" ok
    by (auto simp: owner_row_def bind_result_Inr_iff split: if_splits)
  note * = selected [OF assms(1) s]
  from * show "checkpoint_row db cid = Some cp" "cp \<in> set (td_checkpoints db)" "cp_checkpoint_id cp = cid"
    "cp_project_id cp = project" "cp_type cp = kind" by blast+
  from k show "owner_type kind" ok by blast+
  from assms(1) * k show "card_ok cp" by (auto simp: cards_ok_def)
qed

lemma checkpoint_with_simps [simp]:
  "cp_checkpoint_id (checkpoint_with s p now cp) = cp_checkpoint_id cp"
  "cp_project_id (checkpoint_with s p now cp) = cp_project_id cp"
  "cp_type (checkpoint_with s p now cp) = cp_type cp"
  "cp_status (checkpoint_with s p now cp) = s"
  "cp_payload (checkpoint_with s p now cp) = p"
  by (simp_all add: checkpoint_with_def)

lemma find_map_put:
  "(\<And>r. P (f r) \<longleftrightarrow> P r) \<Longrightarrow> find P (map f cps) = map_option f (find P cps)"
  by (induction cps) auto

text \<open>An update that maps each row to one with the same id.\<close>

lemma row_after_map:
  assumes "\<And>r. cp_checkpoint_id (f r) = cp_checkpoint_id r" "td_checkpoints db' = map f (td_checkpoints db)"
  shows "checkpoint_row db' cid = map_option f (checkpoint_row db cid)"
  using assms by (simp add: checkpoint_row_def find_map_put)

lemma write_card_rows:
  assumes "write_card db cp sts s p now = Some db'"
  shows "td_checkpoints db' =
      map (\<lambda>r. if in_scope (cp_checkpoint_id cp) (cp_project_id cp) (cp_type cp) sts r
               then checkpoint_with s p now r else r) (td_checkpoints db)"
  using assms by (auto simp: write_card_def update_rows_def split: if_splits)

lemma map_written:
  assumes "\<And>r. cp_checkpoint_id (f r) = cp_checkpoint_id r" "td_checkpoints db' = map f (td_checkpoints db)"
    "cards_ok db"
    "\<And>r. r \<in> set (td_checkpoints db) \<Longrightarrow> f r \<noteq> r \<Longrightarrow> owner_type (cp_type (f r)) \<longleftrightarrow> owner_type (cp_type r)"
    "\<And>r. r \<in> set (td_checkpoints db) \<Longrightarrow> f r \<noteq> r \<Longrightarrow> owner_type (cp_type r) \<Longrightarrow> card_ok (f r) \<and>
        (cp_type (f r) = cp_type r \<and> card_state (f r) = card_state r \<or>
         card_step ck now who (Some (cp_type r, card_state r)) (Some (cp_type (f r), card_state (f r))))"
  shows "cards_step ck now who db db'"
proof -
  have ok: "cards_ok db'"
    unfolding cards_ok_def assms(2)
  proof (intro conjI ballI)
    show "distinct (map cp_checkpoint_id (map f (td_checkpoints db)))"
      using assms(1,3) by (simp add: cards_ok_def comp_def)
  next
    fix cp assume "cp \<in> set (map f (td_checkpoints db))"
    then obtain r where r: "r \<in> set (td_checkpoints db)" "cp = f r" by auto
    then show "py_strip (cp_checkpoint_id cp) = cp_checkpoint_id cp"
      using assms(1,3) by (auto simp: cards_ok_def)
    show "cp_checkpoint_id cp \<noteq> []" using assms(1,3) r by (auto simp: cards_ok_def)
    show "owner_type (cp_type cp) \<longrightarrow> card_ok cp"
      using assms(3-5) r by (cases "f r = r") (auto simp: cards_ok_def)
  qed
  have "owner_card db' cid = owner_card db cid \<or> card_step ck now who (owner_card db cid) (owner_card db' cid)" for cid
  proof (cases "checkpoint_row db cid")
    case None
    then show ?thesis using row_after_map [OF assms(1,2)] by (simp add: owner_card_def)
  next
    case (Some r)
    then have "r \<in> set (td_checkpoints db)" using checkpoint_row_iff [OF assms(3)] by blast
    with Some assms(4,5) [of r] row_after_map [OF assms(1,2), of cid] show ?thesis
      by (cases "f r = r") (auto simp: owner_card_def)
  qed
  with ok show ?thesis by (simp add: cards_step_def)
qed

text \<open>The write of one card.\<close>

lemma card_written:
  assumes "cards_ok db" "checkpoint_row db (cp_checkpoint_id cp) = Some cp"
    "td_checkpoints db1 = td_checkpoints db" "write_card db1 cp sts s p t = Some db'"
    "owner_type (cp_type cp) \<Longrightarrow> card_ok (checkpoint_with s p t cp)"
    "owner_type (cp_type cp) \<Longrightarrow> card_state (checkpoint_with s p t cp) = card_state cp \<or>
       card_step ck now who (Some (cp_type cp, card_state cp)) (Some (cp_type cp, card_state (checkpoint_with s p t cp)))"
  shows "cards_step ck now who db db'"
proof -
  have only: "r \<in> set (td_checkpoints db) \<Longrightarrow> cp_checkpoint_id r = cp_checkpoint_id cp \<Longrightarrow> r = cp" for r
    using assms(2) checkpoint_row_iff [OF assms(1), of "cp_checkpoint_id cp" r] by simp
  show ?thesis
  proof (rule map_written [where f = "\<lambda>r. if in_scope (cp_checkpoint_id cp) (cp_project_id cp) (cp_type cp) sts r
               then checkpoint_with s p t r else r", OF _ _ assms(1)], goal_cases)
    case (1 r) then show ?case by simp
  next
    case 2 then show ?case using write_card_rows [OF assms(4)] assms(3) by simp
  next
    case (3 r) then show ?case by simp
  next
    case (4 r)
    then have "in_scope (cp_checkpoint_id cp) (cp_project_id cp) (cp_type cp) sts r" by (auto split: if_splits)
    moreover from this 4 only have "r = cp" by (auto simp: in_scope_def)
    ultimately show ?case using assms(5,6) 4 by simp
  qed
qed

lemma cards_unchanged:
  "cards_ok db \<Longrightarrow> td_checkpoints db' = td_checkpoints db \<Longrightarrow> cards_step ck now who db db'"
  by (simp add: cards_step_def cards_ok_def owner_card_def checkpoint_row_def)

section \<open>Envelopes\<close>

lemma interaction_put [simp]:
  "execution_checkpoint_interaction (put_interaction i p) = i"
  "execution_checkpoint_interaction (dset ''interaction'' (PDict i) p) = i"
  by (simp_all add: execution_checkpoint_interaction_def put_interaction_def)

lemma card_interaction_with [simp]:
  "card_interaction (checkpoint_with s p now cp) = execution_checkpoint_interaction p"
  by (simp add: card_interaction_def)

lemma dget_merge [simp]:
  "\<not> dhas patch k \<Longrightarrow> dget (merge_execution_checkpoint_payload d patch) k = dget d k"
proof (induction patch arbitrary: d)
  case (Cons kv patch)
  then show ?case by (cases kv) (auto simp: merge_execution_checkpoint_payload.simps)
qed (simp add: merge_execution_checkpoint_payload.simps)

lemma interaction_merge [simp]:
  "\<not> dhas patch ''interaction'' \<Longrightarrow>
   execution_checkpoint_interaction (merge_execution_checkpoint_payload p patch) = execution_checkpoint_interaction p"
  by (simp add: execution_checkpoint_interaction_def)

lemma raw_text_dset [simp]:
  "raw_text (dset k v d) k' = (if k' = k then (if truthy v then py_str v else []) else raw_text d k')"
  by (simp add: raw_text_def)

lemma raw_text_lit [simp]:
  "raw_text [] k = []"
  "raw_text ((k, v) # d) k' = (if k' = k then (if truthy v then py_str v else []) else raw_text d k')"
  by (simp_all add: raw_text_def)

lemma permit_of_PDict [simp]: "permit_of (PDict d) = d"
  by (simp add: permit_of_def)

lemma str_or_empty [simp]: "(if s \<noteq> [] then s else []) = s"
  by simp

lemma same_interaction:
  "card_interaction a = card_interaction b \<Longrightarrow> cp_status a = cp_status b \<Longrightarrow> card_state a = card_state b \<and> card_ok a = card_ok b"
  by (simp add: card_state_def card_ok_def decision_of_def holder_of_def execution_of_def)

section \<open>Generic operations leave the cards alone\<close>

lemma foreign_update:
  assumes "cards_ok db"
    "\<And>r. r \<in> set (td_checkpoints db) \<Longrightarrow> hit r \<Longrightarrow> \<not> owner_type (cp_type r)"
    "\<And>r. hit r \<Longrightarrow> cp_checkpoint_id (f r) = cp_checkpoint_id r \<and> (\<not> owner_type (cp_type r) \<longrightarrow> \<not> owner_type (cp_type (f r)))"
  shows "cards_step ck now who db (snd (update_rows db hit f))"
proof (rule map_written [where f = "\<lambda>r. if hit r then f r else r", OF _ _ assms(1)], goal_cases)
  case (1 r) then show ?case using assms(3) [of r] by auto
next
  case 2 then show ?case by (simp add: update_rows_def)
next
  case (3 r) then show ?case using assms(2,3) [of r] by (auto split: if_splits)
next
  case (4 r) then show ?case using assms(2) by (auto split: if_splits)
qed

lemma row_appended:
  "checkpoint_row (db\<lparr>td_checkpoints := td_checkpoints db @ [cp]\<rparr>) cid =
     (case checkpoint_row db cid of Some r \<Rightarrow> Some r | None \<Rightarrow> if cp_checkpoint_id cp = cid then Some cp else None)"
  by (simp add: checkpoint_row_def find_append split: option.splits)

lemma cards_ok_append:
  assumes "cards_ok db" "checkpoint_row db (cp_checkpoint_id cp) = None"
    "py_strip (cp_checkpoint_id cp) = cp_checkpoint_id cp \<and> cp_checkpoint_id cp \<noteq> []"
    "owner_type (cp_type cp) \<Longrightarrow> card_ok cp"
  shows "cards_ok (db\<lparr>td_checkpoints := td_checkpoints db @ [cp]\<rparr>)"
  using assms by (auto simp: cards_ok_def checkpoint_row_def find_None_iff)

lemma foreign_append:
  assumes "cards_ok db" "checkpoint_row db (cp_checkpoint_id cp) = None"
    "py_strip (cp_checkpoint_id cp) = cp_checkpoint_id cp \<and> cp_checkpoint_id cp \<noteq> []" "\<not> owner_type (cp_type cp)"
  shows "cards_step ck now who db (db\<lparr>td_checkpoints := td_checkpoints db @ [cp]\<rparr>)"
  using assms cards_ok_append [OF assms(1-3)]
  by (auto simp: cards_step_def owner_card_def row_appended split: option.splits)

lemma create_keeps_cards:
  "cards_ok db \<Longrightarrow> create_execution_checkpoint sp db cp = (r, db') \<Longrightarrow> cards_step ck now who db db'"
  by (auto simp: create_execution_checkpoint_def Let_def cards_unchanged foreign_append
      split: if_splits sum.splits option.splits)

lemma patch_keeps_cards:
  "cards_ok db \<Longrightarrow> patch_execution_checkpoint_payload sp db cid project kind expected patch status t = (r, db') \<Longrightarrow>
   cards_step ck now who db db'"
proof -
  assume ok: "cards_ok db" and op: "patch_execution_checkpoint_payload sp db cid project kind expected patch status t = (r, db')"
  let ?hit = "\<lambda>s. in_scope (py_strip cid) (clean_project_id project) (py_strip kind) [s]"
  have "\<not> owner_type (py_strip kind) \<Longrightarrow> cards_step ck now who db (snd (update_rows db (?hit s) (checkpoint_with s' p t)))" for s s' p
    by (rule foreign_update [OF ok]) (auto simp: in_scope_def)
  moreover have "\<not> owner_type (py_strip kind) \<and> (\<exists>s s' p. db' = snd (update_rows db (?hit s) (checkpoint_with s' p t))) \<or> db' = db"
    using op by (auto simp: patch_execution_checkpoint_payload_def Let_def update_rows_def
        split: if_splits sum.splits option.splits)
  ultimately show ?thesis using ok by (auto intro: cards_unchanged)
qed

lemma save_keeps_cards:
  assumes ok: "cards_ok db" and op: "save_execution_checkpoint sp db cp = (r, db')"
  shows "cards_step ck now who db db'"
proof -
  let ?row = "cp\<lparr>cp_checkpoint_id := py_strip (cp_checkpoint_id cp), cp_project_id := clean_project_id (cp_project_id cp),
      cp_type := py_strip (cp_type cp)\<rparr>"
  let ?upd = "snd (update_rows db (\<lambda>r. cp_checkpoint_id r = py_strip (cp_checkpoint_id cp) \<and>
      cp_project_id r = clean_project_id (cp_project_id cp) \<and> cp_type r = py_strip (cp_type cp)) (\<lambda>_. ?row))"
  from op have "db' = db \<or> \<not> owner_type (py_strip (cp_type cp)) \<and> py_strip (cp_checkpoint_id cp) \<noteq> [] \<and>
      (db' = ?upd \<or> checkpoint_row db (py_strip (cp_checkpoint_id cp)) = None \<and>
        db' = db\<lparr>td_checkpoints := td_checkpoints db @ [?row]\<rparr>)"
    by (auto simp: save_execution_checkpoint_def Let_def split: if_splits sum.splits option.splits)
  moreover have "\<not> owner_type (py_strip (cp_type cp)) \<Longrightarrow> cards_step ck now who db ?upd"
    by (rule foreign_update [OF ok]) auto
  moreover have "\<not> owner_type (py_strip (cp_type cp)) \<Longrightarrow> py_strip (cp_checkpoint_id cp) \<noteq> [] \<Longrightarrow>
      checkpoint_row db (py_strip (cp_checkpoint_id cp)) = None \<Longrightarrow> cards_step ck now who db (db\<lparr>td_checkpoints := td_checkpoints db @ [?row]\<rparr>)"
    by (rule foreign_append [OF ok]) auto
  ultimately show ?thesis using cards_unchanged [OF ok refl] by blast
qed

lemma row_not_owner:
  assumes "cards_ok db" "checkpoint_row db cid = Some row" "\<not> owner_type (py_strip (cp_type row))"
    "r \<in> set (td_checkpoints db)" "cp_checkpoint_id r = cid"
  shows "\<not> owner_type (cp_type r)"
  using assms checkpoint_row_iff [OF assms(1), of cid r] owner_type_strip [of "cp_type r"] by auto

lemma resolve_keeps_cards:
  assumes ok: "cards_ok db" and op: "resolve_execution_checkpoint db cid status t = (r, db')"
  shows "cards_step ck now who db db'"
proof (cases "checkpoint_row db cid")
  case None
  with op ok show ?thesis by (auto simp: resolve_execution_checkpoint_def intro: cards_unchanged)
next
  case (Some row)
  have "\<not> owner_type (py_strip (cp_type row)) \<Longrightarrow> cards_step ck now who db
      (snd (update_rows db (\<lambda>r. cp_checkpoint_id r = cid) (\<lambda>r. r\<lparr>cp_status := status, cp_updated_at := t\<rparr>)))"
    by (rule foreign_update [OF ok]) (auto dest: row_not_owner [OF ok Some])
  with Some op ok show ?thesis
    by (auto simp: resolve_execution_checkpoint_def intro: cards_unchanged split: if_splits)
qed

lemma compare_and_set_keeps_cards:
  assumes ok: "cards_ok db" and op: "compare_and_set_execution_checkpoint db cid expected status payload t = (r, db')"
  shows "cards_step ck now who db db'"
proof (cases "checkpoint_row db cid")
  case None
  then have none: "\<not> (cp_checkpoint_id r = cid \<and> P r)" if "r \<in> set (td_checkpoints db)" for r P
    using that by (auto simp: checkpoint_row_def find_None_iff)
  have "cards_step ck now who db (snd (update_rows db (\<lambda>r. cp_checkpoint_id r = cid \<and> cp_status r \<in> E) (checkpoint_with s payload t)))" for s E
    by (rule foreign_update [OF ok]) (use none in auto)
  with op ok show ?thesis
    by (auto simp: compare_and_set_execution_checkpoint_def Let_def update_rows_def intro: cards_unchanged split: if_splits)
next
  case (Some row)
  have "\<not> owner_type (py_strip (cp_type row)) \<Longrightarrow> cards_step ck now who db
      (snd (update_rows db (\<lambda>r. cp_checkpoint_id r = cid \<and> cp_status r \<in> E) (checkpoint_with s payload t)))" for s E
    by (rule foreign_update [OF ok]) (auto dest: row_not_owner [OF ok Some])
  with Some op ok show ?thesis
    by (auto simp: compare_and_set_execution_checkpoint_def Let_def update_rows_def intro: cards_unchanged split: if_splits)
qed

section \<open>Supersession\<close>

definition row_types :: "tool_db \<Rightarrow> (string \<times> string) list" where
  "row_types db = map (\<lambda>r. (cp_checkpoint_id r, cp_type r)) (td_checkpoints db)"

definition withdrawing :: "tool_db \<Rightarrow> tool_db \<Rightarrow> bool" where
  \<comment> \<open>some waiting cards are closed without a decision, every other card stays\<close>
  "withdrawing db db' \<longleftrightarrow>
     cards_ok db' \<and> row_types db' = row_types db \<and>
     (\<forall>cid. owner_card db' cid = owner_card db cid \<or>
        (\<exists>k. owner_card db cid = Some (k, Waiting) \<and> owner_card db' cid = Some (k, Closed PNone)))"

lemma withdrawing_refl: "cards_ok db \<Longrightarrow> withdrawing db db"
  by (simp add: withdrawing_def)

lemma withdrawing_trans:
  assumes "withdrawing a b" "withdrawing b c"
  shows "withdrawing a c"
  unfolding withdrawing_def
proof (intro conjI allI)
  show "cards_ok c" "row_types c = row_types a" using assms by (auto simp: withdrawing_def)
  fix cid
  have 1: "owner_card b cid = owner_card a cid \<or>
        (\<exists>k. owner_card a cid = Some (k, Waiting) \<and> owner_card b cid = Some (k, Closed PNone))"
    and 2: "owner_card c cid = owner_card b cid \<or>
        (\<exists>k. owner_card b cid = Some (k, Waiting) \<and> owner_card c cid = Some (k, Closed PNone))"
    using assms by (auto simp: withdrawing_def)
  then show "owner_card c cid = owner_card a cid \<or>
        (\<exists>k. owner_card a cid = Some (k, Waiting) \<and> owner_card c cid = Some (k, Closed PNone))"
    by auto
qed

lemma withdrawing_step: "withdrawing db db' \<Longrightarrow> cards_step ck now who db db'"
  unfolding withdrawing_def cards_step_def by (metis card_step.withdraw)

lemma row_type_of:
  assumes "cards_ok db" "row_types db = row_types db0" "cp \<in> set (td_checkpoints db0)" "r \<in> set (td_checkpoints db)"
    "cp_checkpoint_id r = cp_checkpoint_id cp"
  shows "cp_type r = cp_type cp"
proof -
  have "(cp_checkpoint_id cp, cp_type cp) \<in> set (row_types db)" using assms(2,3) by (simp add: row_types_def)
  then obtain q where q: "q \<in> set (td_checkpoints db)" "cp_checkpoint_id q = cp_checkpoint_id cp" "cp_type q = cp_type cp"
    by (auto simp: row_types_def)
  then have "Some q = Some r"
    using checkpoint_row_iff [OF assms(1), of "cp_checkpoint_id cp" q]
      checkpoint_row_iff [OF assms(1), of "cp_checkpoint_id cp" r] assms(4,5) by simp
  with q show ?thesis by simp
qed

definition superseding :: "tool_db \<Rightarrow> (checkpoint \<Rightarrow> bool) \<Rightarrow> checkpoint \<Rightarrow> bool" where
  \<comment> \<open>the row may be superseded: if it is a card, it waits and has no decision\<close>
  "superseding db scope cp \<longleftrightarrow>
     cp \<in> set (td_checkpoints db) \<and>
     (owner_type (cp_type cp) \<longrightarrow> decision_of cp = PNone \<and> (\<forall>r. scope r \<longrightarrow> cp_status r = ''pending''))"

lemma supersede_row_withdraws:
  assumes ok: "cards_ok db" and types: "row_types db = row_types db0" and cp: "superseding db0 scope cp"
    and ok0: "cards_ok db0"
  shows "withdrawing db (snd (supersede_row scope ck t w cp db))"
proof -
  define p where "p = (case w of None \<Rightarrow> dset ''superseded_at'' (stamp ck t) (cp_payload cp)
      | Some v \<Rightarrow> dset ''superseded_by_checkpoint_id'' v (dset ''superseded_at'' (stamp ck t) (cp_payload cp)))"
  have interaction: "execution_checkpoint_interaction p = card_interaction cp"
    by (simp add: p_def card_interaction_def execution_checkpoint_interaction_def split: option.splits)
  let ?hit = "\<lambda>r. cp_checkpoint_id r = py_strip (cp_checkpoint_id cp) \<and> scope r"
  let ?f = "\<lambda>r. if ?hit r then checkpoint_with ''superseded'' p t r else r"
  let ?db' = "snd (supersede_row scope ck t w cp db)"
  have rows: "td_checkpoints ?db' = map ?f (td_checkpoints db)"
    by (simp add: supersede_row_def update_rows_def p_def Let_def)
  have strip: "py_strip (cp_checkpoint_id cp) = cp_checkpoint_id cp"
    using cp ok0 by (simp add: superseding_def cards_ok_def)
  have waits: "cp_status r = ''pending'' \<and> decision_of cp = PNone"
    if "r \<in> set (td_checkpoints db)" "?hit r" "owner_type (cp_type r)" for r
    using that cp row_type_of [OF ok types, of cp r] strip by (auto simp: superseding_def)
  have closed: "card_state (checkpoint_with ''superseded'' p t r) = Closed PNone \<and> card_ok (checkpoint_with ''superseded'' p t r)"
    if "decision_of cp = PNone" for r
    using that interaction by (simp add: card_state_def card_ok_def decision_of_def)
  have waiting: "card_state r = Waiting"
    if "r \<in> set (td_checkpoints db)" "cp_checkpoint_id r = py_strip (cp_checkpoint_id cp)" "scope r" "owner_type (cp_type r)" for r
    using waits [of r] that by (simp add: card_state_def)
  have closed': "card_state (checkpoint_with ''superseded'' p t r) = Closed PNone" "card_ok (checkpoint_with ''superseded'' p t r)"
    if "r \<in> set (td_checkpoints db)" "cp_checkpoint_id r = py_strip (cp_checkpoint_id cp)" "scope r" "owner_type (cp_type r)" for r
    using closed waits [of r] that by auto
  have step: "cards_step ck 0 [] db ?db'"
    by (rule map_written [OF _ rows ok])
      (auto simp: closed' waiting intro: card_step.withdraw split: if_splits)
  have "owner_card ?db' cid = owner_card db cid \<or>
        (\<exists>k. owner_card db cid = Some (k, Waiting) \<and> owner_card ?db' cid = Some (k, Closed PNone))" for cid
  proof (cases "checkpoint_row db cid")
    case None
    then show ?thesis using row_after_map [OF _ rows] by (simp add: owner_card_def)
  next
    case (Some r)
    then have r: "r \<in> set (td_checkpoints db)" using checkpoint_row_iff [OF ok] by blast
    have after: "checkpoint_row ?db' cid = Some (?f r)" using row_after_map [OF _ rows, of cid] Some by simp
    show ?thesis
    proof (cases "?hit r \<and> owner_type (cp_type r)")
      case True
      then have "card_state r = Waiting" "card_state (?f r) = Closed PNone"
        using waits [OF r] closed by (auto simp: card_state_def [of r])
      with True Some after show ?thesis by (simp add: owner_card_def)
    next
      case False
      with Some after show ?thesis by (auto simp: owner_card_def)
    qed
  qed
  moreover have "row_types ?db' = row_types db" by (simp add: row_types_def rows comp_def if_distrib cong: if_cong)
  ultimately show ?thesis using step by (simp add: withdrawing_def cards_step_def)
qed

lemma supersede_all_withdraws:
  assumes "cards_ok db" "row_types db = row_types db0" "cards_ok db0" "\<And>cp. cp \<in> set rows \<Longrightarrow> superseding db0 scope cp"
  shows "withdrawing db (supersede_all scope ck t w rows db)"
  using assms
proof (induction rows arbitrary: db)
  case Nil
  then show ?case by (simp add: supersede_all_def withdrawing_refl)
next
  case (Cons cp rows)
  let ?db1 = "if py_strip (cp_checkpoint_id cp) = [] then db else snd (supersede_row scope ck t w cp db)"
  have 1: "withdrawing db ?db1"
    using supersede_row_withdraws [OF Cons.prems(1,2) _ Cons.prems(3)] Cons.prems withdrawing_refl by auto
  then have "cards_ok ?db1" "row_types ?db1 = row_types db0" using Cons.prems(2) by (auto simp: withdrawing_def)
  from Cons.IH [OF this Cons.prems(3)] Cons.prems(4)
  have "withdrawing ?db1 (supersede_all scope ck t w rows ?db1)" by simp
  from withdrawing_trans [OF 1 this] show ?case by (simp add: supersede_all_def)
qed

lemma supersede_rows_withdraws:
  assumes "cards_ok db" "row_types db = row_types db0" "cards_ok db0"
    "\<And>cp. cp \<in> set rows \<Longrightarrow> superseding db0 (\<lambda>r. cp_status r = ''pending'') cp"
  shows "withdrawing db (snd (supersede_rows s ck t rows db))"
  using assms
proof (induction rows arbitrary: db)
  case Nil
  then show ?case by (simp add: withdrawing_refl)
next
  case (Cons cp rows)
  show ?case
  proof (cases "supersede_skipped s cp")
    case True
    with Cons show ?thesis by simp
  next
    case False
    let ?w = "if opt_raw (ss_exclude s) = [] then None else Some (PStr (opt_raw (ss_exclude s)))"
    let ?db1 = "snd (supersede_row (\<lambda>r. cp_status r = ''pending'') ck t ?w cp db)"
    have 1: "withdrawing db ?db1"
      using supersede_row_withdraws [OF Cons.prems(1,2) _ Cons.prems(3)] Cons.prems(4) by simp
    then have "cards_ok ?db1" "row_types ?db1 = row_types db0" using Cons.prems(2) by (auto simp: withdrawing_def)
    from Cons.IH [OF this Cons.prems(3)] Cons.prems(4)
    have "withdrawing ?db1 (snd (supersede_rows s ck t rows ?db1))" by simp
    from withdrawing_trans [OF 1 this] False show ?thesis by (simp add: Let_def case_prod_beta)
  qed
qed

lemma supersede_pending_keeps_cards:
  assumes ok: "cards_ok db" and op: "supersede_pending_checkpoints ck sp db s t = (r, db')"
  shows "cards_step ck now who db db'"
proof -
  let ?rows = "filter (supersede_selected s (clean_project_id (ss_project_id s))) (td_checkpoints db)"
  have foreign: "\<not> owner_type (cp_type cp)"
    if "\<not> list_ex (\<lambda>t. owner_type (py_strip t)) (ss_types s)" "cp \<in> set ?rows" for cp
    using that owner_type_strip [of "cp_type cp"] by (auto simp: supersede_selected_def list_ex_iff split: if_splits)
  have "\<not> list_ex (\<lambda>t. owner_type (py_strip t)) (ss_types s) \<Longrightarrow> withdrawing db (snd (supersede_rows s ck t ?rows db))"
    by (rule supersede_rows_withdraws [OF ok refl ok]) (use foreign in \<open>auto simp: superseding_def\<close>)
  moreover have "db' = db \<or> \<not> list_ex (\<lambda>t. owner_type (py_strip t)) (ss_types s) \<and>
      db' = snd (supersede_rows s ck t ?rows db)"
    using op by (auto simp: supersede_pending_checkpoints_def Let_def case_prod_beta split: sum.splits if_splits)
  ultimately show ?thesis using cards_unchanged [OF ok refl] by (auto intro: withdrawing_step)
qed

lemma get_or_create_keeps_cards:
  assumes ok: "cards_ok db" and op: "get_or_create_active_execution_checkpoint ck db cp types create t = (r, db')"
    and clean_id: "create \<Longrightarrow> py_strip (cp_checkpoint_id cp) = cp_checkpoint_id cp \<and> cp_checkpoint_id cp \<noteq> []"
  shows "cards_step ck now who db db'"
proof -
  let ?rows = "rev (sort_key (\<lambda>r. (cp_updated_at r, cp_created_at r, cp_checkpoint_id r))
     (filter (\<lambda>r. cp_project_id r = clean_project_id (cp_project_id cp) \<and> cp_session_id r = Some (opt_text (cp_session_id cp)) \<and>
        cp_type r \<in> set (clean_texts types) \<and> cp_status r \<in> {''pending'', ''resuming''}) (td_checkpoints db)))"
  have rows: "x \<in> set ?rows \<Longrightarrow> x \<in> set (td_checkpoints db) \<and> cp_type x \<in> set (clean_texts types)" for x by auto
  consider "db' = db" | (sup) winner dups where "\<not> list_ex owner_type (clean_texts types)" "?rows = winner # dups"
      "db' = supersede_all (\<lambda>r. cp_status r \<in> {''pending'', ''resuming''}) ck t (Some (PStr (cp_checkpoint_id winner))) dups db"
    | (new) row where create "\<not> list_ex owner_type (clean_texts types)" "cp_type row \<in> set (clean_texts types)"
      "cp_checkpoint_id row = cp_checkpoint_id cp" "insert_row db row = Inr db'"
  proof (cases ?rows)
    case (Cons winner dups)
    with op that(1) that(2) [OF _ Cons] show ?thesis
      by (simp add: get_or_create_active_execution_checkpoint_def Let_def split: if_splits)
  next
    case Nil
    let ?row = "cp\<lparr>cp_project_id := clean_project_id (cp_project_id cp),
        cp_session_id := Some (opt_text (cp_session_id cp)), cp_type := py_strip (cp_type cp)\<rparr>"
    from Nil op that(1) that(3) [of ?row] show ?thesis
      by (simp add: get_or_create_active_execution_checkpoint_def Let_def split: if_splits sum.splits)
  qed
  then show ?thesis
  proof cases
    case 1 then show ?thesis using cards_unchanged [OF ok] by simp
  next
    case sup
    have "superseding db (\<lambda>r. cp_status r \<in> {''pending'', ''resuming''}) x" if "x \<in> set dups" for x
      using rows [of x] that sup(1) unfolding sup(2) by (auto simp: superseding_def list_ex_iff)
    from supersede_all_withdraws [OF ok refl ok this] sup(3) show ?thesis by (simp add: withdrawing_step)
  next
    case new
    with foreign_append [OF ok, of row] clean_id show ?thesis
      by (auto simp: insert_row_def list_ex_iff split: if_splits)
  qed
qed

section \<open>Publication\<close>

lemma publication_payload_fresh:
  assumes "publication_payload p key flow order = Inr payload"
  shows "dget (execution_checkpoint_interaction payload) ''decision'' = PNone"
    "clean (dget (execution_checkpoint_interaction payload) ''domain_key'') = py_strip key"
    "flow \<noteq> [] \<Longrightarrow> clean (dget (execution_checkpoint_interaction payload) ''supersession_key'') = py_strip flow"
    "dget (execution_checkpoint_interaction payload) ''supersession_order'' = PList (map PInt order)"
  using assms by (auto simp: publication_payload_def Let_def dget_not_dhas split: if_splits)

lemma supersede_flow_withdraws:
  assumes ok: "cards_ok db"
  shows "withdrawing db (supersede_flow ck db project kind flow t)"
proof -
  let ?sorted = "rev (sort_key flow_rank (filter (in_flow project kind flow) (td_checkpoints db)))"
  let ?scope = "\<lambda>r. cp_project_id r = project \<and> cp_type r = kind \<and> cp_status r = ''pending''"
  have "superseding db ?scope x" if "x \<in> set ?sorted" for x
    using that ok by (auto simp: superseding_def in_flow_def cards_ok_def card_ok_def)
  then have "?sorted = winner # losers \<Longrightarrow> withdrawing db (supersede_all ?scope ck t w losers db)" for winner losers w
    by (intro supersede_all_withdraws [OF ok refl ok]) simp
  then show ?thesis using withdrawing_refl [OF ok] by (simp add: supersede_flow_def split: list.splits)
qed

lemma published:
  assumes "publish_owner_interaction_checkpoint ck sp db cp key sps flow order t = (Inr (persisted, True), db')"
  obtains payload row db1 where
    "publication_payload (cp_payload cp) (py_strip key) (py_strip flow)
       (map (max 0) (if order = [] then [0] else order)) = Inr payload"
    "row = cp\<lparr>cp_checkpoint_id := py_strip (cp_checkpoint_id cp), cp_project_id := clean_project_id (cp_project_id cp),
        cp_type := py_strip (cp_type cp), cp_status := ''pending'', cp_payload := payload\<rparr>"
    "owner_type (cp_type row)" "cp_checkpoint_id row \<noteq> []" "checkpoint_row db (cp_checkpoint_id row) = None"
    "db1 = db\<lparr>td_checkpoints := td_checkpoints db @ [row]\<rparr>"
    "db' = (if sps \<and> py_strip flow \<noteq> []
       then supersede_flow ck db1 (cp_project_id row) (cp_type row) (py_strip flow) t else db1)"
    "same_domain_event db (cp_project_id row) (cp_type row) (py_strip key) = None"
    "select_execution_checkpoint (td_checkpoints db') (cp_checkpoint_id row) (cp_project_id row) (Some (cp_type row)) = Some persisted"
proof -
  from assms obtain payload where
    payload: "publication_payload (cp_payload cp) (py_strip key) (py_strip flow)
       (map (max 0) (if order = [] then [0] else order)) = Inr payload"
    by (auto simp: publish_owner_interaction_checkpoint_def Let_def bind_result_Inr_iff split: if_splits sum.splits)
  show ?thesis
    by (rule that [OF payload refl])
      (use assms payload in \<open>auto simp: publish_owner_interaction_checkpoint_def Let_def bind_result_def insert_row_def
        split: if_splits sum.splits option.splits\<close>)
qed

lemma publish_unchanged:
  assumes "publish_owner_interaction_checkpoint ck sp db cp key sps flow order t = (r, db')"
    "\<nexists>persisted. r = Inr (persisted, True)"
  shows "db' = db"
  using assms by (auto simp: publish_owner_interaction_checkpoint_def Let_def
      split: if_splits sum.splits option.splits)

lemma publish_steps:
  assumes ok: "cards_ok db" and op: "publish_owner_interaction_checkpoint ck sp db cp key sps flow order t = (r, db')"
  shows "cards_step ck now who db db'"
proof (cases "\<exists>persisted. r = Inr (persisted, True)")
  case False
  then show ?thesis using publish_unchanged [OF op] cards_unchanged [OF ok] by simp
next
  case True
  then obtain persisted where "r = Inr (persisted, True)" by blast
  with op obtain payload row db1 where
    payload: "publication_payload (cp_payload cp) (py_strip key) (py_strip flow)
       (map (max 0) (if order = [] then [0] else order)) = Inr payload"
    and row: "row = cp\<lparr>cp_checkpoint_id := py_strip (cp_checkpoint_id cp), cp_project_id := clean_project_id (cp_project_id cp),
        cp_type := py_strip (cp_type cp), cp_status := ''pending'', cp_payload := payload\<rparr>"
    and nonempty: "cp_checkpoint_id row \<noteq> []"
    and k: "owner_type (cp_type row)" "checkpoint_row db (cp_checkpoint_id row) = None"
    "db1 = db\<lparr>td_checkpoints := td_checkpoints db @ [row]\<rparr>"
    and db': "db' = (if sps \<and> py_strip flow \<noteq> []
       then supersede_flow ck db1 (cp_project_id row) (cp_type row) (py_strip flow) t else db1)"
    by (auto elim!: published)
  have new: "card_state row = Waiting" "card_ok row"
    using publication_payload_fresh(1) [OF payload]
    by (auto simp: row card_state_def card_ok_def decision_of_def card_interaction_def)
  have ok1: "cards_ok db1" unfolding k(3) by (rule cards_ok_append [OF ok k(2)]) (use nonempty in \<open>simp_all add: row new(2) [unfolded row]\<close>)
  have after: "owner_card db1 cid = (if cp_checkpoint_id row = cid then Some (cp_type row, Waiting) else owner_card db cid)" for cid
    using k new by (auto simp: owner_card_def row_appended split: option.splits)
  have none: "owner_card db (cp_checkpoint_id row) = None" using k(2) by (simp add: owner_card_def)
  have w: "withdrawing db1 db'"
    using supersede_flow_withdraws [OF ok1] withdrawing_refl [OF ok1] by (simp add: db')
  have "owner_card db' cid = owner_card db cid \<or> card_step ck now who (owner_card db cid) (owner_card db' cid)" for cid
  proof -
    from w consider "owner_card db' cid = owner_card db1 cid"
      | (late) k where "owner_card db1 cid = Some (k, Waiting)" "owner_card db' cid = Some (k, Closed PNone)"
      by (auto simp: withdrawing_def)
    then show ?thesis
    proof cases
      case 1
      with after [of cid] none show ?thesis by (auto intro: card_step.intros split: if_splits)
    next
      case (late k)
      then show ?thesis
        using after [of cid] none card_step.publish_late [of ck now who k] card_step.withdraw [of ck now who k]
        by (cases "cp_checkpoint_id row = cid") auto
    qed
  qed
  with w show ?thesis by (simp add: cards_step_def withdrawing_def)
qed

section \<open>Typed changes and answers\<close>

lemma with_cardE:
  assumes "with_card head db body = (r, db')" "db' \<noteq> db"
  obtains cp where "head = Inr (Some cp)" "body cp = (r, db')"
  using assms by (auto simp: with_card_def split: sum.splits option.splits)

lemma patch_owner_steps:
  assumes ok: "cards_ok db"
    and op: "patch_owner_interaction_checkpoint db cid project kind expected patch status t = (r, db')"
    and patch: "\<not> dhas patch ''interaction''"
    and status: "status = [] \<or> clean_texts expected = [''pending''] \<and>
        py_strip status \<notin> {''pending'', ''answered'', ''consuming''}"
  shows "cards_step ck now who db db'"
proof (cases "db' = db")
  case True
  then show ?thesis using cards_unchanged [OF ok] by simp
next
  case False
  let ?s = "\<lambda>cp. py_strip (if status = [] then cp_status cp else status)"
  let ?p = "\<lambda>cp. merge_execution_checkpoint_payload (cp_payload cp) patch"
  from False op obtain cp where cp: "owner_type (py_strip kind)"
    "select_execution_checkpoint (td_checkpoints db) (py_strip cid) (clean_project_id project) (Some (py_strip kind)) = Some cp"
    "cp_status cp \<in> set (clean_texts expected)"
    "write_card db cp [cp_status cp] (?s cp) (?p cp) t = Some db'"
    by (auto simp: patch_owner_interaction_checkpoint_def Let_def split: if_splits sum.splits option.splits)
  note sel = selected [OF ok cp(2)]
  have stripped: "py_strip (cp_status cp) = cp_status cp" using cp(3) by (auto simp: clean_texts_def)
  have same: "card_interaction (checkpoint_with s (?p cp) t cp) = card_interaction cp" for s
    using patch by (simp add: card_interaction_def)
  have cok: "card_ok cp" using ok sel cp(1) by (auto simp: cards_ok_def)
  have closes: "cp_status cp = ''pending'' \<and> ?s cp \<notin> {''pending'', ''answered'', ''consuming''}" if "status \<noteq> []"
    using status that cp(3) by auto
  show ?thesis
  proof (rule card_written [OF ok _ refl cp(4)])
    show "checkpoint_row db (cp_checkpoint_id cp) = Some cp" using sel by simp
    show "card_ok (checkpoint_with (?s cp) (?p cp) t cp)"
      using cok closes stripped same [of "?s cp"] same_interaction [of "checkpoint_with (?s cp) (?p cp) t cp" cp]
      by (cases "status = []") (auto simp: card_ok_def)
    show "card_state (checkpoint_with (?s cp) (?p cp) t cp) = card_state cp \<or>
       card_step ck now who (Some (cp_type cp, card_state cp))
         (Some (cp_type cp, card_state (checkpoint_with (?s cp) (?p cp) t cp)))"
    proof (cases "status = []")
      case True
      then show ?thesis using stripped same [of "?s cp"] same_interaction [of "checkpoint_with (?s cp) (?p cp) t cp" cp] by simp
    next
      case False
      then have "card_state cp = Waiting" "card_state (checkpoint_with (?s cp) (?p cp) t cp) = Closed PNone"
        using closes cok same [of "?s cp"] by (auto simp: card_state_def card_ok_def decision_of_def)
      then show ?thesis using card_step.withdraw by simp
    qed
  qed
qed

lemma not_dhas_fields: "list_all (\<lambda>kv. fst kv \<in> set fs) patch \<Longrightarrow> k \<notin> set fs \<Longrightarrow> \<not> dhas patch k"
  by (auto simp: list_all_iff dhas_iff)

lemma enrich_steps:
  assumes ok: "cards_ok db" and op: "enrich_owner_interaction_checkpoint db cid project kind expected patch t = (r, db')"
  shows "cards_step ck now who db db'"
proof (cases "list_all (\<lambda>kv. fst kv \<in> set ENRICHMENT_FIELDS) patch")
  case True
  have "\<not> dhas patch ''interaction''" by (rule not_dhas_fields [OF True]) (simp add: ENRICHMENT_FIELDS_def)
  with patch_owner_steps [OF ok, of cid project kind expected patch "[]" t r db'] op True show ?thesis
    by (simp add: enrich_owner_interaction_checkpoint_def)
next
  case False
  with op ok show ?thesis by (auto simp: enrich_owner_interaction_checkpoint_def intro: cards_unchanged)
qed

lemma closing_statuses: "list_all (\<lambda>s. py_strip s = s \<and> s \<notin> set [[], ''pending'', ''answered'', ''consuming'']) CLOSING_STATUSES"
  by code_simp

lemma clean_pending: "clean_texts [''pending''] = [''pending'']"
  by code_simp

lemma close_steps:
  assumes ok: "cards_ok db" and op: "close_pending_owner_interaction_checkpoint db cid project kind status patch t = (r, db')"
  shows "cards_step ck now who db db'"
proof (cases "py_strip status \<in> set CLOSING_STATUSES \<and> list_all (\<lambda>kv. fst kv \<in> set CLOSING_FIELDS) patch")
  case True
  then have "\<not> dhas patch ''interaction''" by (intro not_dhas_fields [of CLOSING_FIELDS]) (auto simp: CLOSING_FIELDS_def)
  moreover have "py_strip (py_strip status) \<notin> {''pending'', ''answered'', ''consuming''}"
    using closing_statuses True by (auto simp: list_all_iff)
  ultimately show ?thesis using patch_owner_steps [OF ok] op True clean_pending
    by (simp add: close_pending_owner_interaction_checkpoint_def)
next
  case False
  with op have "db' = db" by (auto simp: close_pending_owner_interaction_checkpoint_def split: if_splits)
  then show ?thesis using cards_unchanged [OF ok] by simp
qed

lemma backfill_steps:
  assumes ok: "cards_ok db" and op: "backfill_owner_interaction_ownership db cid project kind expected ownership t = (r, db')"
  shows "cards_step ck now who db db'"
proof (cases "db' = db")
  case True
  then show ?thesis using cards_unchanged [OF ok] by simp
next
  case False
  from False op obtain cp current where cp:
    "select_execution_checkpoint (td_checkpoints db) (py_strip cid) (clean_project_id project) (Some (py_strip kind)) = Some cp"
    "write_card db cp [cp_status cp] (cp_status cp) (dset ''interaction''
       (PDict (dset ''ownership'' (PDict (dupdate current (map (\<lambda>(k, v). (k, PStr (clean v))) ownership))) (card_interaction cp)))
       (cp_payload cp)) t = Some db'"
    by (auto simp: backfill_owner_interaction_ownership_def Let_def split: if_splits sum.splits option.splits)
  note sel = selected [OF ok cp(1)]
  let ?cp' = "checkpoint_with (cp_status cp) (dset ''interaction''
       (PDict (dset ''ownership'' (PDict (dupdate current (map (\<lambda>(k, v). (k, PStr (clean v))) ownership))) (card_interaction cp)))
       (cp_payload cp)) t cp"
  have same: "card_state ?cp' = card_state cp" "card_ok ?cp' = card_ok cp"
    by (simp_all add: card_state_def card_ok_def decision_of_def holder_of_def execution_of_def claim_of_def)
  show ?thesis
    by (rule card_written [OF ok _ refl cp(2)]) (use sel ok same in \<open>auto simp: cards_ok_def\<close>)
qed

lemma accept_steps:
  assumes ok: "cards_ok db"
    and op: "accept_execution_checkpoint_decision ck sp db cid project kind rq hash decision t = (r, db')"
  shows "cards_step ck' now who db db'"
proof (cases "db' = db")
  case True
  then show ?thesis using cards_unchanged [OF ok] by simp
next
  case False
  from with_cardE [OF op [unfolded accept_execution_checkpoint_decision_def Let_def] False]
  obtain cp where head: "owner_row sp db (py_strip cid) (clean_project_id project) (py_strip kind)
        (py_strip rq \<noteq> [] \<and> py_strip hash \<noteq> []) = Inr (Some cp)"
    and body: "(case dget (card_interaction cp) ''decision'' of
              PDict existing \<Rightarrow>
                (Inr (receipt_of (if same_decision existing (py_strip hash) decision then ''duplicate'' else ''conflict'')
                        (Some cp) []), db)
            | _ \<Rightarrow>
                if cp_status cp \<noteq> ''pending'' then (Inr (receipt_of ''invalid_state'' (Some cp) []), db)
                else record_answer ck db cp (clean_project_id project) (py_strip kind) (py_strip rq) (py_strip hash)
                       decision t) = (r, db')" .
  have pending: "cp_status cp = ''pending''" and
    rest: "record_answer ck db cp (clean_project_id project) (py_strip kind) (py_strip rq) (py_strip hash) decision t = (r, db')"
    using body False by (auto split: pyval.splits if_splits)
  have cases: "(\<exists>reason. write_card db cp [''pending''] ''stale'' (merge_execution_checkpoint_payload (cp_payload cp)
           [(''stale_reason'', PStr reason), (''stale_at'', stamp ck t)]) t = Some db') \<or>
      (\<exists>d. write_card db cp [''pending''] ''answered''
         (put_interaction (dset ''decision'' (PDict d) (card_interaction cp)) (cp_payload cp)) t = Some db')"
    using rest False unfolding record_answer_def Let_def
    by (auto split: option.splits sum.splits)
  note cp = owner_row_Some [OF ok head]
  have row: "checkpoint_row db (cp_checkpoint_id cp) = Some cp" using cp by simp
  have waiting: "card_state cp = Waiting" using pending by (simp add: card_state_def)
  from cases show ?thesis
  proof (elim disjE exE)
    fix reason
    let ?p = "merge_execution_checkpoint_payload (cp_payload cp) [(''stale_reason'', PStr reason), (''stale_at'', stamp ck t)]"
    assume w: "write_card db cp [''pending''] ''stale'' ?p t = Some db'"
    have closed: "card_state (checkpoint_with ''stale'' ?p t cp) = Closed PNone"
      using cp(8) pending by (simp add: card_state_def card_ok_def decision_of_def card_interaction_def)
    show ?thesis
      by (rule card_written [OF ok row refl w]) (simp_all add: closed waiting card_step.withdraw, simp add: card_ok_def)
  next
    fix d
    let ?p = "put_interaction (dset ''decision'' (PDict d) (card_interaction cp)) (cp_payload cp)"
    assume w: "write_card db cp [''pending''] ''answered'' ?p t = Some db'"
    have answered: "card_state (checkpoint_with ''answered'' ?p t cp) = Answered (PDict d)"
      by (simp add: card_state_def decision_of_def)
    show ?thesis
      by (rule card_written [OF ok row refl w]) (simp_all add: answered waiting card_step.answer, simp add: card_ok_def)
  qed
qed

section \<open>Claims\<close>

lemma finish_claim_cases:
  assumes "finish_claim db0 db cp sts s p t outcome c lost = (r, db')" "db' \<noteq> db0"
  shows "write_card db cp sts s p t = Some db'"
    "r = Inr (receipt_of outcome (Some (checkpoint_with s p t cp)) c)"
  using assms by (auto simp: finish_claim_def split: sum.splits option.splits)

lemma removal_keeps_checkpoints:
  "remove_task_runtime_tool_permit_in_transaction db tid rid fp cont = (r, db1) \<Longrightarrow> td_checkpoints db1 = td_checkpoints db"
  by (auto simp: remove_task_runtime_tool_permit_in_transaction_def Let_def write_ledger_row_def put_task_views_def
      split: if_splits option.splits sum.splits prod.splits)

lemma drop_keeps_checkpoints [simp]:
  "td_checkpoints (drop_expired_continuations db project tid runtime t) = td_checkpoints db"
  by (simp add: drop_expired_continuations_def)

lemma new_claim_texts [simp]:
  "raw_text (new_claim ck c u t e a) ''claim_id'' = c"
  "raw_text (new_claim ck c u t e a) ''consumer_id'' = u"
  by (simp_all add: new_claim_def)

lemma consumed: "cp_status cp = ''consuming'' \<Longrightarrow>
    card_state cp = Consumed (decision_of cp) (holder_of cp) (raw_text (execution_of cp) ''state'')"
  by (simp add: card_state_def)

lemma grant_steps:
  assumes ok: "cards_ok db" and row: "checkpoint_row db (cp_checkpoint_id cp) = Some cp"
    and op: "grant_claim ck db cp prior re c u t e = (r, db')"
    and from_row: "if re then cp_status cp = ''consuming'' \<and> expired_at ck (h_expires (holder_of cp)) now \<and>
        raw_text (execution_of cp) ''state'' \<noteq> ''executing''
      else cp_status cp = ''answered''"
    and ids: "c \<noteq> []" "py_strip c = c" "py_strip u = u"
  shows "cards_step ck now c db db'"
proof (cases "db' = db")
  case True
  then show ?thesis using cards_unchanged [OF ok] by simp
next
  case False
  define claim where "claim = (case prior of
      PDict d \<Rightarrow> if re then dset ''reclaimed_from_claim_id'' (PStr (raw_text d ''claim_id''))
                       (new_claim ck c u t e (result_or 1 (claim_attempt prior)))
                 else new_claim ck c u t e (result_or 1 (claim_attempt prior))
    | _ \<Rightarrow> new_claim ck c u t e (result_or 1 (claim_attempt prior)))"
  define p where "p = put_interaction (dset ''execution'' (PDict [(''state'', PStr ''ready''), (''claim_id'', PStr c),
      (''consumer_id'', PStr u)]) (dset ''claim'' (PDict claim) (card_interaction cp))) (cp_payload cp)"
  have w: "write_card db cp [if re then ''consuming'' else ''answered''] ''consuming'' p t = Some db'"
    using finish_claim_cases(1) [OF _ False] op unfolding grant_claim_def Let_def claim_def [symmetric] p_def [symmetric] by blast
  let ?cp' = "checkpoint_with ''consuming'' p t cp"
  have claim: "raw_text claim ''claim_id'' = c" "raw_text claim ''consumer_id'' = u"
    by (auto simp: claim_def split: pyval.splits)
  have new: "decision_of ?cp' = decision_of cp" "execution_of ?cp' = [(''state'', PStr ''ready''), (''claim_id'', PStr c), (''consumer_id'', PStr u)]"
    "h_claim (holder_of ?cp') = c" "h_consumer (holder_of ?cp') = u"
    using claim by (simp_all add: p_def decision_of_def execution_of_def holder_of_def claim_of_def)
  have card: "card_state ?cp' = Consumed (decision_of cp) (holder_of ?cp') ''ready''"
    using new by (simp add: card_state_def)
  have step: "card_step ck now c (Some (cp_type cp, card_state cp)) (Some (cp_type cp, card_state ?cp'))"
  proof (cases re)
    case True
    with from_row card new show ?thesis by (simp add: consumed card_step.take_over)
  next
    case False
    with from_row card new show ?thesis by (simp add: card_state_def [of cp] card_step.claim)
  qed
  show ?thesis
    by (rule card_written [OF ok row refl w]) (use step new ids in \<open>auto simp: card_ok_def\<close>)
qed

lemma reconcile_steps:
  assumes ok: "cards_ok db" and row: "checkpoint_row db (cp_checkpoint_id cp) = Some cp"
    and op: "reconcile_persisted_result ck db cp call prior c u t e = (r, db')"
    and kind: "cp_type cp = ''tool_permission''" and status: "cp_status cp = ''consuming''"
    and expired: "expired_at ck (h_expires (holder_of cp)) now"
    and ids: "c \<noteq> []" "py_strip c = c" "py_strip u = u"
  shows "cards_step ck now c db db'"
proof (cases "db' = db")
  case True
  then show ?thesis using cards_unchanged [OF ok] by simp
next
  case False
  let ?x = "remove_task_runtime_tool_permit_in_transaction db (cl_task call) (cl_runtime call) (cl_fingerprint call) True"
  obtain b db1 where rem: "?x = (Inr b, db1)"
    using op False by (cases ?x; cases "fst ?x") (auto simp: reconcile_persisted_result_def)
  from op False obtain attempt execution approved where w: "write_card
      (drop_expired_continuations db1 (cp_project_id cp) (cl_task call) (cl_runtime call) t) cp [''consuming''] ''consuming''
      (put_interaction (dpop ''completion''
         (dset ''execution'' (PDict (dupdate execution
             [(''state'', PStr ''result_persisted''), (''claim_id'', PStr c), (''consumer_id'', PStr u),
              (''reconciled_at'', stamp ck t)]))
           (dset ''claim'' (PDict (dset ''reclaimed_from_claim_id'' (PStr (raw_text prior ''claim_id'')) (new_claim ck c u t e attempt)))
              (card_interaction cp))))
         (dset ''approval_result'' (PDict approved) (cp_payload cp))) t = Some db'"
    by (auto simp: reconcile_persisted_result_def rem Let_def bind_result_Inr_iff dest!: finish_claim_cases(1)
        split: sum.splits)
  let ?p = "put_interaction (dpop ''completion''
         (dset ''execution'' (PDict (dupdate execution
             [(''state'', PStr ''result_persisted''), (''claim_id'', PStr c), (''consumer_id'', PStr u),
              (''reconciled_at'', stamp ck t)]))
           (dset ''claim'' (PDict (dset ''reclaimed_from_claim_id'' (PStr (raw_text prior ''claim_id'')) (new_claim ck c u t e attempt)))
              (card_interaction cp))))
         (dset ''approval_result'' (PDict approved) (cp_payload cp))"
  let ?cp' = "checkpoint_with ''consuming'' ?p t cp"
  have new: "decision_of ?cp' = decision_of cp" "raw_text (execution_of ?cp') ''state'' = ''result_persisted''"
    "raw_text (execution_of ?cp') ''claim_id'' = c" "raw_text (execution_of ?cp') ''consumer_id'' = u"
    "h_claim (holder_of ?cp') = c" "h_consumer (holder_of ?cp') = u"
    by (simp_all add: decision_of_def execution_of_def holder_of_def claim_of_def)
  have step: "card_step ck now c (Some (cp_type cp, card_state cp)) (Some (cp_type cp, card_state ?cp'))"
    using new expired by (simp add: kind consumed status card_step.reconcile)
  have same: "td_checkpoints (drop_expired_continuations db1 (cp_project_id cp) (cl_task call) (cl_runtime call) t) = td_checkpoints db"
    using removal_keeps_checkpoints [OF rem] by simp
  show ?thesis
    by (rule card_written [OF ok row same w]) (use step new ids in \<open>auto simp: card_ok_def\<close>)
qed

lemma close_unknown_steps:
  assumes ok: "cards_ok db" and row: "checkpoint_row db (cp_checkpoint_id cp) = Some cp"
    and op: "close_unknown_outcome ck db cp call prior execution t = (r, db')"
    and status: "cp_status cp = ''consuming''" and expired: "expired_at ck (h_expires (holder_of cp)) now"
    and executing: "raw_text (execution_of cp) ''state'' = ''executing''"
  shows "cards_step ck now who db db'"
proof (cases "db' = db")
  case True
  then show ?thesis using cards_unchanged [OF ok] by simp
next
  case False
  define p where "p = put_interaction (dset ''completion'' (PDict [(''claim_id'', PStr (raw_text prior ''claim_id'')),
        (''consumer_id'', PStr (raw_text prior ''consumer_id'')), (''finished_at'', stamp ck t),
        (''final_status'', PStr ''outcome_unknown'')])
     (dset ''execution'' (PDict (dupdate execution [(''state'', PStr ''outcome_unknown''), (''detected_at'', stamp ck t),
        (''reason'', PStr ''execution_lease_expired'')])) (card_interaction cp))) (cp_payload cp)"
  obtain db1 where same: "td_checkpoints db1 = td_checkpoints db" and w: "write_card db1 cp [''consuming''] ''outcome_unknown'' p t = Some db'"
  proof (cases "cp_type cp = ''tool_permission''")
    case True
    let ?x = "remove_task_runtime_tool_permit_in_transaction db (cl_task call) (cl_runtime call) (cl_fingerprint call) False"
    obtain b db2 where rem: "?x = (Inr b, db2)"
      using op False True by (cases ?x; cases "fst ?x") (auto simp: close_unknown_outcome_def Let_def)
    show ?thesis
      by (rule that [of "drop_expired_continuations db2 (cp_project_id cp) (cl_task call) (cl_runtime call) t"])
        (use op False True removal_keeps_checkpoints [OF rem] in
          \<open>auto simp: close_unknown_outcome_def rem Let_def p_def dest!: finish_claim_cases(1)\<close>)
  next
    case not_permission: False
    show ?thesis
      by (rule that [OF refl]) (use op False not_permission in
          \<open>auto simp: close_unknown_outcome_def Let_def p_def dest!: finish_claim_cases(1)\<close>)
  qed
  let ?cp' = "checkpoint_with ''outcome_unknown'' p t cp"
  have new: "card_state ?cp' = Closed (decision_of cp)" "card_ok ?cp'"
    by (simp_all add: p_def card_state_def card_ok_def decision_of_def)
  have step: "card_step ck now who (Some (cp_type cp, card_state cp)) (Some (cp_type cp, card_state ?cp'))"
    using new expired executing by (simp add: consumed status card_step.lose)
  show ?thesis
    by (rule card_written [OF ok row same w]) (use step new in auto)
qed

lemma claim_expired_holder: "claim_expired ck (claim_of (card_interaction cp)) t = expired_at ck (h_expires (holder_of cp)) t"
  by (simp add: claim_expired_def expired_at_def holder_of_def)

lemma reclaim_steps:
  assumes ok: "cards_ok db" and row: "checkpoint_row db (cp_checkpoint_id cp) = Some cp"
    and op: "reclaim_card ck db cp c u t e = (r, db')"
    and status: "cp_status cp = ''consuming''" and cok: "card_ok cp"
    and new_ids: "c \<noteq> []" "py_strip c = c" "py_strip u = u"
  shows "cards_step ck t c db db'"
proof (cases "db' = db")
  case True
  then show ?thesis using cards_unchanged [OF ok] by simp
next
  case False
  let ?prior = "claim_of (card_interaction cp)"
  have expired: "expired_at ck (h_expires (holder_of cp)) t"
    using op False by (auto simp: reclaim_card_def Let_def claim_expired_holder split: if_splits)
  from op False expired obtain call where call: "card_call_of cp = Inr call"
    by (cases "card_call_of cp") (auto simp: reclaim_card_def Let_def claim_expired_holder)
  have execution: "permit_of (dget (card_interaction cp) ''execution'') = execution_of cp"
    and ids: "raw_text ?prior ''claim_id'' = raw_text (execution_of cp) ''claim_id''"
    using cok status by (simp_all add: execution_of_def card_ok_def holder_of_def)
  show ?thesis
  proof (cases "call_result_stored db cp call")
    case True
    with op expired call have "reconcile_persisted_result ck db cp call ?prior c u t e = (r, db')"
      by (simp add: reclaim_card_def Let_def claim_expired_holder)
    from reconcile_steps [OF ok row this _ status expired new_ids] True show ?thesis by (simp add: call_result_stored_def)
  next
    case not_stored: False
    show ?thesis
    proof (cases "raw_text (execution_of cp) ''state'' = ''executing''")
      case True
      with op expired call not_stored ids have "close_unknown_outcome ck db cp call ?prior (execution_of cp) t = (r, db')"
        by (simp add: reclaim_card_def Let_def claim_expired_holder execution)
      from close_unknown_steps [OF ok row this status expired True] show ?thesis .
    next
      case not_started: False
      with op expired call not_stored have "grant_claim ck db cp (PDict ?prior) True c u t e = (r, db')"
        by (simp add: reclaim_card_def Let_def claim_expired_holder execution)
      from grant_steps [OF ok row this _ new_ids] status expired not_started show ?thesis by simp
    qed
  qed
qed

lemma claim_steps:
  assumes ok: "cards_ok db"
    and op: "claim_answered_execution_checkpoint ck sp db cid project kind consumer c lease ctrl t = (r, db')"
  shows "cards_step ck t (py_strip c) db db'"
proof (cases "db' = db")
  case True
  then show ?thesis using cards_unchanged [OF ok] by simp
next
  case False
  from with_cardE [OF op [unfolded claim_answered_execution_checkpoint_def Let_def] False]
  obtain cp where head: "owner_row sp db (py_strip cid) (clean_project_id project) (py_strip kind)
        (py_strip consumer \<noteq> [] \<and> py_strip c \<noteq> [] \<and> 0 < lease) = Inr (Some cp)"
    and branch: "(case controller_verdict (td_store db) cp (clean_project_id project) ctrl t of
                Inl e \<Rightarrow> (Inl e, db)
              | Inr (Some outcome) \<Rightarrow> (Inr (receipt_of outcome (Some cp) []), db)
              | Inr None \<Rightarrow> claim_card ck db cp (py_strip c) (py_strip consumer) t (t + lease)) = (r, db')" .
  have "claim_card ck db cp (py_strip c) (py_strip consumer) t (t + lease) = (r, db')"
    using branch False by (auto split: sum.splits option.splits)
  then have body: "cp_status cp = ''consuming'' \<and> reclaim_card ck db cp (py_strip c) (py_strip consumer) t (t + lease) = (r, db') \<or>
      cp_status cp = ''answered'' \<and> grant_claim ck db cp (dget (card_interaction cp) ''claim'') False
        (py_strip c) (py_strip consumer) t (t + lease) = (r, db')"
    using False by (auto simp: claim_card_def split: if_splits pyval.splits)
  note cp = owner_row_Some [OF ok head]
  have row: "checkpoint_row db (cp_checkpoint_id cp) = Some cp" using cp by simp
  from body show ?thesis
    using reclaim_steps [OF ok row _ _ cp(8)] grant_steps [OF ok row, where re = False] cp(7) by auto
qed

section \<open>Effects and settlement\<close>

lemma claim_matches_holder:
  "claim_matches (dget (card_interaction cp) ''claim'') c u \<Longrightarrow> h_claim (holder_of cp) = c \<and> h_consumer (holder_of cp) = u"
  by (auto simp: claim_matches_def holder_of_def claim_of_def split: pyval.splits)

lemma row_written:
  assumes "write_card db1 cp sts s p t = Some db'" "td_checkpoints db1 = td_checkpoints db"
    "checkpoint_row db (cp_checkpoint_id cp) = Some cp" "cp_status cp \<in> set sts"
  shows "checkpoint_row db' (cp_checkpoint_id cp) = Some (checkpoint_with s p t cp)"
proof -
  have "td_checkpoints db' = map (\<lambda>r. if in_scope (cp_checkpoint_id cp) (cp_project_id cp) (cp_type cp) sts r
               then checkpoint_with s p t r else r) (td_checkpoints db)"
    using write_card_rows [OF assms(1)] assms(2) by simp
  from row_after_map [OF _ this, of "cp_checkpoint_id cp"] assms(3,4) show ?thesis by (simp add: in_scope_def)
qed

definition starts_effect :: "tool_db \<Rightarrow> tool_db \<Rightarrow> string \<Rightarrow> string \<Rightarrow> bool" where
  \<comment> \<open>the holder of the claim enters the effect of the card\<close>
  "starts_effect db db' cid c \<longleftrightarrow>
     (\<exists>k d h s. owner_card db cid = Some (k, Consumed d h s) \<and> s \<noteq> ''executing'' \<and> h_claim h = c \<and>
        owner_card db' cid = Some (k, Consumed d h ''executing''))"

lemma start_written:
  assumes ok: "cards_ok db" and row: "checkpoint_row db (cp_checkpoint_id cp) = Some cp"
    and kind: "owner_type (cp_type cp)" and status: "cp_status cp = ''consuming''" and cok: "card_ok cp"
    and same: "td_checkpoints db1 = td_checkpoints db"
    and w: "write_card db1 cp [''consuming''] ''consuming'' (put_interaction
          (dset ''execution'' (PDict (executing_record ck c u t)) (card_interaction cp)) (cp_payload cp)) t = Some db'"
    and held: "h_claim (holder_of cp) = c" "h_consumer (holder_of cp) = u"
    and fresh: "raw_text (execution_of cp) ''state'' \<noteq> ''executing''"
  shows "cards_step ck' now c db db'" "starts_effect db db' (cp_checkpoint_id cp) c"
proof -
  let ?p = "put_interaction (dset ''execution'' (PDict (executing_record ck c u t)) (card_interaction cp)) (cp_payload cp)"
  let ?cp' = "checkpoint_with ''consuming'' ?p t cp"
  have new: "decision_of ?cp' = decision_of cp" "holder_of ?cp' = holder_of cp"
    "raw_text (execution_of ?cp') ''state'' = ''executing''" "raw_text (execution_of ?cp') ''claim_id'' = c"
    "raw_text (execution_of ?cp') ''consumer_id'' = u"
    by (simp_all add: decision_of_def execution_of_def holder_of_def claim_of_def executing_record_def)
  have step: "card_step ck' now c (Some (cp_type cp, card_state cp)) (Some (cp_type cp, card_state ?cp'))"
    using new held fresh by (simp add: consumed status card_step.start)
  show "cards_step ck' now c db db'"
    by (rule card_written [OF ok row same w]) (use step new held cok status in \<open>auto simp: card_ok_def\<close>)
  have "checkpoint_row db' (cp_checkpoint_id cp) = Some ?cp'"
    using row_written [OF w same row] status by simp
  then show "starts_effect db db' (cp_checkpoint_id cp) c"
    using row kind new held fresh unfolding starts_effect_def owner_card_def by (simp add: consumed status)
qed

definition started :: "card_receipt result \<Rightarrow> bool" where
  "started r \<longleftrightarrow> (case r of Inl e \<Rightarrow> False | Inr rc \<Rightarrow> rc_outcome rc = ''started'')"

lemma started_simps [simp]:
  "\<not> started (Inl e)" "started (Inr (receipt_of o' cp c)) \<longleftrightarrow> o' = ''started''"
  by (simp_all add: started_def receipt_of_def)

lemma not_started_busy [simp]: "\<not> started (busy_with cp v)"
  by (auto simp: busy_with_def bind_result_def split: sum.splits)

lemma with_card_okE:
  assumes "with_card head db body = (Inr rc, db')" "rc_outcome rc \<noteq> ''not_found''"
  obtains cp where "head = Inr (Some cp)" "body cp = (Inr rc, db')"
  using assms by (auto simp: with_card_def receipt_of_def split: sum.splits option.splits)

lemma with_card_startE:
  assumes "with_card head db body = (r, db')" "db' \<noteq> db \<or> started r"
  obtains cp where "head = Inr (Some cp)" "body cp = (r, db')"
  using assms by (auto simp: with_card_def split: sum.splits option.splits)

lemma finish_claim_start:
  assumes "finish_claim db0 db cp sts s p t outcome c lost = (r, db')" "db' \<noteq> db0 \<or> started r"
  shows "write_card db cp sts s p t = Some db'"
  using assms by (auto simp: finish_claim_def split: sum.splits option.splits)

lemma begin_cases:
  assumes ok: "cards_ok db"
    and op: "begin_execution_checkpoint_effect ck sp db cid project kind c u t = (r, db')" and changed: "db' \<noteq> db \<or> started r"
  shows "cards_step ck' now (py_strip c) db db' \<and> starts_effect db db' (py_strip cid) (py_strip c)"
proof -
  from with_card_startE [OF op [unfolded begin_execution_checkpoint_effect_def Let_def] changed]
  obtain cp where head: "owner_row sp db (py_strip cid) (clean_project_id project) (py_strip kind)
        (py_strip c \<noteq> [] \<and> py_strip u \<noteq> []) = Inr (Some cp)"
    and body: "(if cp_status cp \<noteq> ''consuming'' then (Inr (receipt_of ''invalid_state'' (Some cp) []), db)
       else if \<not> claim_matches (dget (card_interaction cp) ''claim'') (py_strip c) (py_strip u)
       then (busy_with cp (dget (card_interaction cp) ''claim''), db)
       else if raw_text (permit_of (dget (card_interaction cp) ''execution'')) ''state'' = ''executing'' \<and>
               raw_text (permit_of (dget (card_interaction cp) ''execution'')) ''claim_id'' = py_strip c \<and>
               raw_text (permit_of (dget (card_interaction cp) ''execution'')) ''consumer_id'' = py_strip u
       then (Inr (receipt_of ''duplicate'' (Some cp) (py_strip c)), db)
       else finish_claim db db cp [''consuming''] ''consuming''
         (put_interaction (dset ''execution'' (PDict (executing_record ck (py_strip c) (py_strip u) t)) (card_interaction cp))
           (cp_payload cp)) t ''started'' (py_strip c) (py_strip c)) = (r, db')" .
  from body changed have status: "cp_status cp = ''consuming''"
    and matches: "claim_matches (dget (card_interaction cp) ''claim'') (py_strip c) (py_strip u)"
    and fresh: "\<not> (raw_text (execution_of cp) ''state'' = ''executing'' \<and> raw_text (execution_of cp) ''claim_id'' = py_strip c \<and>
          raw_text (execution_of cp) ''consumer_id'' = py_strip u)"
    and fin: "finish_claim db db cp [''consuming''] ''consuming''
         (put_interaction (dset ''execution'' (PDict (executing_record ck (py_strip c) (py_strip u) t)) (card_interaction cp))
           (cp_payload cp)) t ''started'' (py_strip c) (py_strip c) = (r, db')"
    by (auto simp: execution_of_def split: if_splits)
  note cp = owner_row_Some [OF ok head]
  note held = claim_matches_holder [OF matches]
  have started: "raw_text (execution_of cp) ''state'' \<noteq> ''executing''"
    using fresh cp(8) status held by (auto simp: card_ok_def)
  have row: "checkpoint_row db (cp_checkpoint_id cp) = Some cp" "owner_type (cp_type cp)" using cp by simp_all
  from start_written [OF ok row status cp(8) refl finish_claim_start [OF fin changed] _ _ started] held cp(3)
  show ?thesis by simp
qed

lemma permit_text_raw: "raw_text d k = s \<Longrightarrow> permit_text d k = py_strip s"
  by (auto simp: permit_text_def raw_text_def clean_def)

lemma dict_or_empty_permit: "dict_or_empty v = Inr d \<Longrightarrow> raw_text (permit_of v) k \<noteq> [] \<Longrightarrow> d = permit_of v"
  by (cases v) (auto simp: dict_or_empty_def permit_of_def split: if_splits)

lemma py_strip_executing: "py_strip ''executing'' = ''executing''"
  by code_simp

lemma begin_exact_cases:
  assumes ok: "cards_ok db"
    and op: "begin_exact_tool_permission_effect ck sp db p t = (r, db')" and changed: "db' \<noteq> db \<or> started r"
  shows "cards_step ck' now (permit_text p ''claim_id'') db db' \<and>
    starts_effect db db' (permit_text p ''checkpoint_id'') (permit_text p ''claim_id'')"
proof -
  let ?c = "permit_text p ''claim_id''" and ?u = "permit_text p ''consumer_id''"
  from with_card_startE [OF op [unfolded begin_exact_tool_permission_effect_def Let_def] changed]
  obtain cp where head: "owner_row sp db (permit_text p ''checkpoint_id'') (exact_project p) ''tool_permission''
        (exact_call_complete p) = Inr (Some cp)"
    and body: "(if cp_status cp \<noteq> ''consuming'' then (Inr (receipt_of ''invalid_state'' (Some cp) []), db)
             else case find (\<lambda>t. tk_id t = permit_text p ''task_id'' \<and> tk_project_id t = exact_project p)
                         (st_tasks (td_store db)) of
               None \<Rightarrow> (Inr (receipt_of ''invalid_state'' (Some cp) ?c), db)
             | Some row \<Rightarrow>
                 (case exact_effect_allowed db row cp p (exact_project p) of
                    Inl e \<Rightarrow> (Inl e, db)
                  | Inr (l, current, allowed) \<Rightarrow>
                      if \<not> allowed then (Inr (receipt_of ''invalid_state'' (Some cp) ?c), db)
                      else enter_exact_effect ck db row cp p l current t)) = (r, db')" .
  from body changed obtain row l current where status: "cp_status cp = ''consuming''"
    and allowed: "exact_effect_allowed db row cp p (exact_project p) = Inr (l, current, True)"
    and enter: "enter_exact_effect ck db row cp p l current t = (r, db')"
    by (auto split: if_splits option.splits sum.splits)
  note cp = owner_row_Some [OF ok head]
  from allowed obtain execution where execution: "dict_or_empty (dget (card_interaction cp) ''execution'') = Inr execution"
    and ready: "permit_text execution ''state'' = ''ready''" "permit_text execution ''claim_id'' = ?c"
      "permit_text execution ''consumer_id'' = ?u"
    by (auto simp: exact_effect_allowed_def bind_result_Inr_iff)
  have row: "checkpoint_row db (cp_checkpoint_id cp) = Some cp" "owner_type (cp_type cp)" using cp by simp_all
  have cok: "raw_text (execution_of cp) ''claim_id'' = h_claim (holder_of cp)" "h_claim (holder_of cp) \<noteq> []"
    "raw_text (execution_of cp) ''consumer_id'' = h_consumer (holder_of cp)"
    "py_strip (h_claim (holder_of cp)) = h_claim (holder_of cp)"
    "py_strip (h_consumer (holder_of cp)) = h_consumer (holder_of cp)"
    using cp(8) status by (auto simp: card_ok_def)
  have execution: "execution = execution_of cp"
    using dict_or_empty_permit [OF execution, of "''claim_id''"] cok by (simp add: execution_of_def)
  have held: "h_claim (holder_of cp) = ?c" "h_consumer (holder_of cp) = ?u"
    using ready(2,3) permit_text_raw [OF cok(1)] permit_text_raw [OF cok(3)] cok by (simp_all add: execution)
  have fresh: "raw_text (execution_of cp) ''state'' \<noteq> ''executing''"
  proof
    assume "raw_text (execution_of cp) ''state'' = ''executing''"
    from permit_text_raw [OF this] ready(1) show False by (simp add: execution py_strip_executing)
  qed
  let ?db1 = "write_ledger_row db row l (dset (permit_text p ''fingerprint'') (PDict (dset ''state'' (PStr ''executing'') current))
      (lg_permits l)) (lg_continuation l) (permit_text p ''runtime_session_id'') False"
  have same: "td_checkpoints ?db1 = td_checkpoints db"
    by (simp add: write_ledger_row_def put_task_views_def split: prod.splits)
  have w: "write_card ?db1 cp [''consuming''] ''consuming'' (put_interaction
          (dset ''execution'' (PDict (executing_record ck ?c ?u t)) (card_interaction cp)) (cp_payload cp)) t = Some db'"
    using enter changed by (auto simp: enter_exact_effect_def Let_def split: option.splits)
  from start_written [OF ok row status cp(8) same w held fresh] cp(3) show ?thesis by simp
qed

lemma renew_steps:
  assumes ok: "cards_ok db"
    and op: "renew_execution_checkpoint_claim ck sp db cid project kind c u lease t = (r, db')"
  shows "cards_step ck' now (py_strip c) db db'"
proof (cases "db' = db")
  case True
  then show ?thesis using cards_unchanged [OF ok] by simp
next
  case False
  from with_cardE [OF op [unfolded renew_execution_checkpoint_claim_def Let_def] False]
  obtain cp where head: "owner_row sp db (py_strip cid) (clean_project_id project) (py_strip kind)
        (py_strip c \<noteq> [] \<and> py_strip u \<noteq> [] \<and> 0 < lease) = Inr (Some cp)"
    and body: "(if cp_status cp \<noteq> ''consuming'' then (Inr (receipt_of ''invalid_state'' (Some cp) []), db)
       else if \<not> claim_matches (dget (card_interaction cp) ''claim'') (py_strip c) (py_strip u)
       then (busy_with cp (dget (card_interaction cp) ''claim''), db)
       else case write_card db cp [''consuming''] ''consuming''
           (put_interaction (dset ''claim'' (PDict (dset ''heartbeat_at'' (stamp ck t)
               (dset ''lease_expires_at'' (stamp ck (t + lease)) (permit_of (dget (card_interaction cp) ''claim'')))))
             (card_interaction cp)) (cp_payload cp)) t of
         None \<Rightarrow> (Inr (receipt_of ''busy'' (Some cp) (py_strip c)), db)
       | Some db' \<Rightarrow> (Inr (receipt_of ''renewed'' (Some (checkpoint_with ''consuming''
           (put_interaction (dset ''claim'' (PDict (dset ''heartbeat_at'' (stamp ck t)
               (dset ''lease_expires_at'' (stamp ck (t + lease)) (permit_of (dget (card_interaction cp) ''claim'')))))
             (card_interaction cp)) (cp_payload cp)) t cp)) (py_strip c)), db')) = (r, db')" .
  define p where "p = put_interaction (dset ''claim'' (PDict (dset ''heartbeat_at'' (stamp ck t)
               (dset ''lease_expires_at'' (stamp ck (t + lease)) (permit_of (dget (card_interaction cp) ''claim'')))))
             (card_interaction cp)) (cp_payload cp)"
  from body False have status: "cp_status cp = ''consuming''"
    and matches: "claim_matches (dget (card_interaction cp) ''claim'') (py_strip c) (py_strip u)"
    and w: "write_card db cp [''consuming''] ''consuming'' p t = Some db'"
    by (auto simp: p_def [symmetric] split: if_splits option.splits)
  note cp = owner_row_Some [OF ok head]
  have row: "checkpoint_row db (cp_checkpoint_id cp) = Some cp" using cp by simp
  note held = claim_matches_holder [OF matches]
  let ?cp' = "checkpoint_with ''consuming'' p t cp"
  have new: "decision_of ?cp' = decision_of cp" "execution_of ?cp' = execution_of cp"
    "h_claim (holder_of ?cp') = h_claim (holder_of cp)" "h_consumer (holder_of ?cp') = h_consumer (holder_of cp)"
    by (simp_all add: p_def decision_of_def execution_of_def holder_of_def claim_of_def)
  have step: "card_step ck' now (py_strip c) (Some (cp_type cp, card_state cp)) (Some (cp_type cp, card_state ?cp'))"
    using new held by (simp add: consumed status card_step.renew)
  show ?thesis
    by (rule card_written [OF ok row refl w]) (use step new cp(8) status in \<open>auto simp: card_ok_def\<close>)
qed

lemma settle_steps:
  assumes ok: "cards_ok db"
    and op: "settle_execution_checkpoint_consumption ck sp db cid project kind c u action final patch reason t = (r, db')"
    and final: "case action of Finish \<Rightarrow> final \<notin> {''pending'', ''answered'', ''consuming''} | Release \<Rightarrow> final = ''answered''"
  shows "cards_step ck' now (py_strip c) db db'"
proof (cases "db' = db")
  case True
  then show ?thesis using cards_unchanged [OF ok] by simp
next
  case False
  define p where "p cp = merge_execution_checkpoint_payload (cp_payload cp) patch" for cp :: checkpoint
  from with_cardE [OF op [unfolded settle_execution_checkpoint_consumption_def Let_def] False]
  obtain cp where head: "owner_row sp db (py_strip cid) (clean_project_id project) (py_strip kind)
         (py_strip c \<noteq> [] \<and> py_strip u \<noteq> [] \<and> \<not> dhas patch ''interaction'' \<and>
          reject_reserved_final_publication_patch patch = Inr ()) = Inr (Some cp)"
    and body: "(case already_settled cp action (py_strip c) (py_strip u) final of
          Some outcome \<Rightarrow> (Inr (receipt_of outcome (Some cp) []), db)
        | None \<Rightarrow>
            if cp_status cp \<noteq> ''consuming'' then (Inr (receipt_of ''invalid_state'' (Some cp) []), db)
            else if \<not> claim_matches (dget (card_interaction cp) ''claim'') (py_strip c) (py_strip u) \<or>
                    (action = Release \<and> raw_text (permit_of (dget (card_interaction cp) ''execution'')) ''state'' = ''executing'')
            then (Inr (receipt_of ''conflict'' (Some cp) []), db)
            else
              (case bind_result (require_reserved_final_publication_unchanged (cp_payload cp) (p cp))
                      (\<lambda>_. bind_result
                         (settled_interaction ck action (py_strip c) (py_strip u) final reason t
                            (execution_checkpoint_interaction (p cp)))
                         (\<lambda>settled. Inr (put_interaction settled (p cp)))) of
                 Inl e \<Rightarrow> (Inl e, db)
               | Inr next_payload \<Rightarrow>
                   (case write_card db cp [''consuming''] final next_payload t of
                      None \<Rightarrow> (Inr (receipt_of ''conflict'' (Some cp) []), db)
                    | Some db' \<Rightarrow>
                        (Inr (receipt_of (case action of Finish \<Rightarrow> ''finished'' | Release \<Rightarrow> ''released'')
                                (Some (checkpoint_with final next_payload t cp)) []), db')))) = (r, db')"
    unfolding p_def .
  from body False obtain settled where status: "cp_status cp = ''consuming''"
    and matches: "claim_matches (dget (card_interaction cp) ''claim'') (py_strip c) (py_strip u)"
    and idle: "action = Release \<Longrightarrow> raw_text (execution_of cp) ''state'' \<noteq> ''executing''"
    and settled: "settled_interaction ck action (py_strip c) (py_strip u) final reason t
         (execution_checkpoint_interaction (p cp)) = Inr settled"
    and w: "write_card db cp [''consuming''] final (put_interaction settled (p cp)) t = Some db'"
    by (auto simp: execution_of_def bind_result_Inr_iff split: if_splits option.splits sum.splits)
  note cp = owner_row_Some [OF ok head]
  have row: "checkpoint_row db (cp_checkpoint_id cp) = Some cp" using cp by simp
  note held = claim_matches_holder [OF matches]
  have interaction: "execution_checkpoint_interaction (p cp) = card_interaction cp"
    using cp(7) by (simp add: p_def card_interaction_def)
  let ?cp' = "checkpoint_with final (put_interaction settled (p cp)) t cp"
  have decision: "decision_of ?cp' = decision_of cp"
    using settled unfolding interaction
    by (cases action) (auto simp: settled_interaction_def decision_of_def bind_result_Inr_iff)
  have new: "card_state ?cp' = (case action of Finish \<Rightarrow> Closed (decision_of cp) | Release \<Rightarrow> Answered (decision_of cp))"
    "card_ok ?cp'"
    using decision final by (cases action; simp add: card_state_def card_ok_def)+
  have step: "card_step ck' now (py_strip c) (Some (cp_type cp, card_state cp)) (Some (cp_type cp, card_state ?cp'))"
    using new held idle by (cases action) (simp_all add: consumed status card_step.settle card_step.give_back)
  show ?thesis
    by (rule card_written [OF ok row refl w]) (use step new in auto)
qed

lemma finish_steps:
  assumes ok: "cards_ok db" and op: "finish_execution_checkpoint_consumption ck sp db cid project kind c u final patch t = (r, db')"
  shows "cards_step ck' now (py_strip c) db db'"
proof (cases "py_strip final \<in> set [[], ''pending'', ''answered'', ''consuming'', ''resuming'']")
  case True
  with op have "db' = db" unfolding finish_execution_checkpoint_consumption_def Let_def by simp
  then show ?thesis using cards_unchanged [OF ok] by simp
next
  case False
  with op have "settle_execution_checkpoint_consumption ck sp db cid project kind c u Finish (py_strip final) patch [] t = (r, db')"
    unfolding finish_execution_checkpoint_consumption_def Let_def by simp
  from settle_steps [OF ok this] False show ?thesis by simp
qed

lemma release_steps:
  assumes "cards_ok db" "release_execution_checkpoint_claim ck sp db cid project kind c u reason patch t = (r, db')"
  shows "cards_step ck' now (py_strip c) db db'"
  using assms settle_steps [OF assms(1), of ck sp cid project kind c u Release "''answered''" patch reason t r db']
  by (simp add: release_execution_checkpoint_claim_def)

end
