(* ===== verification/OwnerSafety.thy ===== *)
theory OwnerSafety
  imports OwnerProtocol
begin

text \<open>
  What the protocol of the owner's cards guarantees over any history of operations.  The locale
  \<open>card_machine\<close> is the contract between the operations and these guarantees: every operation is a
  step of the abstract machine on each card, and a receipt that says \<open>started\<close> is the step into
  the effect.
\<close>

section \<open>Histories of a machine\<close>

fun run_ops ::
  "('op \<times> int \<Rightarrow> 's \<Rightarrow> 'e list \<times> 's) \<Rightarrow> ('op \<times> int) list \<Rightarrow> 's \<Rightarrow> 'e list \<times> 's" where
  \<comment> \<open>the events announced (for cards, those whose effect was started), in order, and the state\<close>
  "run_ops step [] db = ([], db)"
| "run_ops step (x # xs) db =
     (let (s, db1) = step x db; (ss, db2) = run_ops step xs db1 in (s @ ss, db2))"

lemma run_ops_append:
  "run_ops step (xs @ ys) db =
     (let (ss, db1) = run_ops step xs db; (ts, db2) = run_ops step ys db1 in (ss @ ts, db2))"
  by (induction xs arbitrary: db) (auto simp: Let_def split: prod.splits)

lemma snd_run_ops_Cons: "snd (run_ops step (x # xs) db) = snd (run_ops step xs (snd (step x db)))"
  by (simp add: Let_def split: prod.splits)

text \<open>A fact that holds at the end and not at the beginning was made true by one operation.\<close>

lemma run_ops_first:
  assumes "run_ops step xs db = (ss, db')" "\<not> Q db" "Q db'"
  obtains ys x zs mid mid1 where "xs = ys @ x # zs" "snd (run_ops step ys db) = mid" "\<not> Q mid"
    "snd (step x mid) = mid1" "Q mid1" "snd (run_ops step zs mid1) = db'"
  using assms
proof (induction xs arbitrary: db ss thesis)
  case (Cons x xs)
  obtain s db1 where one: "step x db = (s, db1)" by (cases "step x db")
  obtain ss' where rest: "run_ops step xs db1 = (ss', db')"
    using Cons.prems(2) by (auto simp: one Let_def split: prod.splits)
  show ?case
  proof (cases "Q db1")
    case True
    show ?thesis by (rule Cons.prems(1) [of "[]" x xs db db1]) (use True one rest Cons.prems(3) in simp_all)
  next
    case False
    show ?thesis
    proof (rule Cons.IH [OF _ rest False Cons.prems(4)])
      fix ys y zs mid mid1
      assume "xs = ys @ y # zs" "snd (run_ops step ys db1) = mid" "\<not> Q mid" "snd (step y mid) = mid1" "Q mid1"
        "snd (run_ops step zs mid1) = db'"
      then show ?thesis
        by (intro Cons.prems(1) [of "x # ys" y zs mid mid1]) (auto simp: one Let_def split: prod.splits)
    qed
  qed
qed simp

definition card_decision :: "card \<Rightarrow> pyval option" where
  "card_decision c =
     (case c of Waiting \<Rightarrow> None | Answered d \<Rightarrow> Some d | Consumed d _ _ \<Rightarrow> Some d | Closed d \<Rightarrow> Some d)"

definition begun :: "card \<Rightarrow> bool" where
  "begun c \<longleftrightarrow> (case c of Consumed _ _ s \<Rightarrow> s = ''executing'' | Closed _ \<Rightarrow> True | _ \<Rightarrow> False)"

lemma step_decision:
  "card_step ck now who (Some (k, c)) y \<Longrightarrow> card_decision c = Some d \<Longrightarrow>
   \<exists>c'. y = Some (k, c') \<and> card_decision c' = Some d \<and> ((\<exists>e. c = Closed e) \<longrightarrow> c' = c)"
  by (erule card_stepE) (auto simp: card_decision_def)

lemma step_kind: "card_step ck now who (Some (k, c)) y \<Longrightarrow> \<exists>c'. y = Some (k, c')"
  by (erule card_stepE) auto

lemma step_begun:
  "card_step ck now who (Some (k, c)) y \<Longrightarrow> begun c \<Longrightarrow> k \<noteq> ''tool_permission'' \<Longrightarrow>
   \<exists>c'. y = Some (k, c') \<and> begun c'"
  by (erule card_stepE) (auto simp: begun_def)

lemma step_held:
  "card_step ck now who (Some (k, Consumed d h s)) y \<Longrightarrow> who \<noteq> h_claim h \<Longrightarrow> \<not> expired_at ck (h_expires h) now \<Longrightarrow>
   y = Some (k, Consumed d h s)"
  by (erule card_stepE) auto

locale card_machine =
  fixes step :: "'op \<times> int \<Rightarrow> tool_db \<Rightarrow> string list \<times> tool_db"
    and ck :: clock
    and who :: "'op \<Rightarrow> string"
    and admissible :: "'op \<Rightarrow> bool"
  assumes steps: "cards_ok db \<Longrightarrow> admissible x \<Longrightarrow> step (x, t) db = (s, db') \<Longrightarrow> cards_step ck t (who x) db db'"
    and starts: "cards_ok db \<Longrightarrow> admissible x \<Longrightarrow> step (x, t) db = (s, db') \<Longrightarrow>
      s = [] \<or> (\<exists>cid. s = [cid] \<and> starts_effect db db' cid (who x))"
begin

lemma run_invariant:
  assumes "\<And>db x t s db'. cards_ok db \<Longrightarrow> (x, t) \<in> set xs \<Longrightarrow> step (x, t) db = (s, db') \<Longrightarrow> P db \<Longrightarrow> P db'"
  shows "cards_ok db \<Longrightarrow> list_all (\<lambda>x. admissible (fst x)) xs \<Longrightarrow> P db \<Longrightarrow> run_ops step xs db = (ss, db') \<Longrightarrow>
    cards_ok db' \<and> P db'"
  using assms
proof (induction xs arbitrary: db ss)
  case (Cons x xs)
  obtain y t where x: "x = (y, t)" by (cases x)
  obtain s db1 where one: "step (y, t) db = (s, db1)" by (cases "step (y, t) db")
  obtain ss' where rest: "run_ops step xs db1 = (ss', db')"
    using Cons.prems(4) by (auto simp: x one Let_def split: prod.splits)
  have "cards_ok db1" using steps [OF Cons.prems(1) _ one] Cons.prems(2) by (simp add: x cards_step_def)
  moreover have "P db1" using Cons.prems(5) [OF Cons.prems(1) _ one Cons.prems(3)] by (simp add: x)
  moreover have "P q \<Longrightarrow> cards_ok q \<Longrightarrow> (z, u) \<in> set xs \<Longrightarrow> step (z, u) q = (r, q') \<Longrightarrow> P q'" for q z u r q'
    using Cons.prems(5) [of q z u r q'] by simp
  ultimately show ?case using Cons.IH [OF _ _ _ rest] Cons.prems(2) by simp
qed simp

lemma card_moves:
  assumes "cards_ok db" "admissible x" "step (x, t) db = (s, db')"
  shows "owner_card db' cid = owner_card db cid \<or> card_step ck t (who x) (owner_card db cid) (owner_card db' cid)"
  using steps [OF assms] by (simp add: cards_step_def)

lemma move_in:
  assumes "list_all (\<lambda>x. admissible (fst x)) xs" "cards_ok db" "(x, t) \<in> set xs" "step (x, t) db = (s, db')"
  shows "owner_card db' cid = owner_card db cid \<or> card_step ck t (who x) (owner_card db cid) (owner_card db' cid)"
proof (rule card_moves [OF assms(2) _ assms(4)])
  show "admissible x" using assms(1,3) by (auto simp: list_all_iff)
qed

lemma decision_stays:
  assumes ok: "cards_ok db" "list_all (\<lambda>x. admissible (fst x)) xs" and run: "run_ops step xs db = (ss, db')"
    and card: "owner_card db cid = Some (k, c)" "card_decision c = Some d"
  shows "\<exists>c'. owner_card db' cid = Some (k, c') \<and> card_decision c' = Some d \<and> ((\<exists>e. c = Closed e) \<longrightarrow> c' = c)"
proof -
  let ?P = "\<lambda>q. \<exists>c'. owner_card q cid = Some (k, c') \<and> card_decision c' = Some d \<and> ((\<exists>e. c = Closed e) \<longrightarrow> c' = c)"
  have "cards_ok db' \<and> ?P db'"
  proof (rule run_invariant [OF _ ok _ run])
    show "?P db" using card by simp
  next
    fix q x t s q' assume in_run: "cards_ok q" "(x, t) \<in> set xs" "step (x, t) q = (s, q')" and P: "?P q"
    note move = move_in [OF ok(2) in_run, of cid]
    from P obtain c' where c': "owner_card q cid = Some (k, c')" "card_decision c' = Some d" "(\<exists>e. c = Closed e) \<longrightarrow> c' = c"
      by blast
    from move show "?P q'"
    proof
      assume "card_step ck t (who x) (owner_card q cid) (owner_card q' cid)"
      from step_decision [OF this [unfolded c'(1)] c'(2)] c'(3) show ?thesis by auto
    qed (use P in simp)
  qed
  then show ?thesis by blast
qed

lemma kind_stays:
  assumes ok: "cards_ok db" "list_all (\<lambda>x. admissible (fst x)) xs" and run: "run_ops step xs db = (ss, db')"
    and card: "owner_card db cid = Some (k, c)"
  shows "\<exists>c'. owner_card db' cid = Some (k, c')"
proof -
  have "cards_ok db' \<and> (\<exists>c'. owner_card db' cid = Some (k, c'))"
  proof (rule run_invariant [OF _ ok _ run])
    show "\<exists>c'. owner_card db cid = Some (k, c')" using card by simp
  next
    fix q x t s q' assume in_run: "cards_ok q" "(x, t) \<in> set xs" "step (x, t) q = (s, q')"
      and "\<exists>c'. owner_card q cid = Some (k, c')"
    then obtain c' where "owner_card q cid = Some (k, c')" by blast
    with move_in [OF ok(2) in_run, of cid] step_kind [of ck t "who x" k c' "owner_card q' cid"]
    show "\<exists>c'. owner_card q' cid = Some (k, c')" by auto
  qed
  then show ?thesis by blast
qed

lemma started_once:
  assumes "cards_ok db" "list_all (\<lambda>x. admissible (fst x)) xs" "run_ops step xs db = (ss, db')"
    "owner_card db' cid = Some (k, c)" "k \<noteq> ''tool_permission''"
  shows "count_list ss cid \<le> 1 \<and> (\<forall>c0. owner_card db cid = Some (k, c0) \<and> begun c0 \<longrightarrow> cid \<notin> set ss)"
  using assms
proof (induction xs arbitrary: db ss)
  case (Cons x xs)
  obtain y t where x: "x = (y, t)" by (cases x)
  obtain s db1 where one: "step (y, t) db = (s, db1)" by (cases "step (y, t) db")
  obtain ss' where rest: "run_ops step xs db1 = (ss', db')" and ss: "ss = s @ ss'"
    using Cons.prems(3) by (auto simp: x one Let_def split: prod.splits)
  have adm: "admissible y" "list_all (\<lambda>x. admissible (fst x)) xs" using Cons.prems(2) by (auto simp: x)
  have ok1: "cards_ok db1" using steps [OF Cons.prems(1) adm(1) one] by (simp add: cards_step_def)
  note IH = Cons.IH [OF ok1 adm(2) rest Cons.prems(4,5)]
  have stays: "k1 = k" if "owner_card db1 cid = Some (k1, c1)" for k1 c1
    using kind_stays [OF ok1 adm(2) rest that] Cons.prems(4) by simp
  have begun_after: "\<exists>c1. owner_card db1 cid = Some (k, c1) \<and> begun c1" if "owner_card db cid = Some (k, c0)" "begun c0" for c0
    using card_moves [OF Cons.prems(1) adm(1) one, of cid] step_begun [of ck t "who y" k c0] that Cons.prems(5) by auto
  show ?case
  proof (cases "cid \<in> set s")
    case True
    with starts [OF Cons.prems(1) adm(1) one] have s: "s = [cid]" and start: "starts_effect db db1 cid (who y)" by auto
    from start obtain k1 d h s0 where before: "owner_card db cid = Some (k1, Consumed d h s0)" "s0 \<noteq> ''executing''"
      and after: "owner_card db1 cid = Some (k1, Consumed d h ''executing'')"
      by (auto simp: starts_effect_def)
    have "cid \<notin> set ss'" using IH after stays [OF after] by (auto simp: begun_def)
    with before s ss show ?thesis by (auto simp: begun_def count_notin)
  next
    case False
    with IH begun_after ss show ?thesis by (auto simp: count_notin)
  qed
qed simp

lemma holder_stays:
  assumes ok: "cards_ok db" "list_all (\<lambda>x. admissible (fst x)) xs" and run: "run_ops step xs db = (ss, db')"
    and card: "owner_card db cid = Some (k, Consumed d h s)"
    and foreign: "list_all (\<lambda>(x, t). who x \<noteq> h_claim h \<and> \<not> expired_at ck (h_expires h) t) xs"
  shows "owner_card db' cid = Some (k, Consumed d h s)"
proof -
  have "cards_ok db' \<and> owner_card db' cid = Some (k, Consumed d h s)"
  proof (rule run_invariant [where P = "\<lambda>q. owner_card q cid = Some (k, Consumed d h s)", OF _ ok card run])
    fix q x t s' q' assume in_run: "cards_ok q" "(x, t) \<in> set xs" "step (x, t) q = (s', q')"
      and P: "owner_card q cid = Some (k, Consumed d h s)"
    have "who x \<noteq> h_claim h" "\<not> expired_at ck (h_expires h) t" using in_run(2) foreign by (auto simp: list_all_iff)
    with move_in [OF ok(2) in_run, of cid] P step_held [of ck t "who x" k d h s "owner_card q' cid"]
    show "owner_card q' cid = Some (k, Consumed d h s)" by auto
  qed
  then show ?thesis by blast
qed

end

section \<open>The operations of the store\<close>

datatype card_op =
    Publish checkpoint string bool string "int list"
  | Enrich string string string "string list" pydict
  | ClosePending string string string string pydict
  | Backfill string string string "string list" pydict
  | Answer string string string string string pyval
  | Claim string string string string string int "recovery_controller option"
  | Begin string string string string string
  | BeginExact pydict
  | Renew string string string string string int
  | FinishClaim string string string string string string pydict
  | ReleaseClaim string string string string string string pydict
  | Create checkpoint
  | Save checkpoint
  | Patch string string string "string list" pydict string
  | Resolve string string
  | CompareAndSet string "string list" string pydict
  | GetOrCreate checkpoint "string list" bool
  | SupersedePending supersede_scope
  | Elsewhere store "(string \<times> string) list" "continuation list"

definition op_claim :: "card_op \<Rightarrow> string" where
  "op_claim x =
     (case x of
        Claim _ _ _ _ c _ _ \<Rightarrow> py_strip c
      | Begin _ _ _ c _ \<Rightarrow> py_strip c
      | BeginExact p \<Rightarrow> permit_text p ''claim_id''
      | Renew _ _ _ c _ _ \<Rightarrow> py_strip c
      | FinishClaim _ _ _ c _ _ _ \<Rightarrow> py_strip c
      | ReleaseClaim _ _ _ c _ _ _ \<Rightarrow> py_strip c
      | _ \<Rightarrow> [])"

definition op_ok :: "card_op \<Rightarrow> bool" where
  \<comment> \<open>the one insert that does not strip the id gets one without blanks around it\<close>
  "op_ok x =
     (case x of
        GetOrCreate cp _ _ \<Rightarrow> py_strip (cp_checkpoint_id cp) = cp_checkpoint_id cp \<and> cp_checkpoint_id cp \<noteq> []
      | _ \<Rightarrow> True)"

definition when_started :: "string \<Rightarrow> card_receipt result \<times> tool_db \<Rightarrow> string list \<times> tool_db" where
  "when_started cid r = (if started (fst r) then [cid] else [], snd r)"

text \<open>\<open>Elsewhere\<close> stands for any change of the other tables.\<close>

fun card_op_step :: "clock \<Rightarrow> string \<Rightarrow> card_op \<times> int \<Rightarrow> tool_db \<Rightarrow> string list \<times> tool_db" where
  "card_op_step ck sp (Publish cp key sps flow order, now) db =
     ([], snd (publish_owner_interaction_checkpoint ck sp db cp key sps flow order now))"
| "card_op_step ck sp (Enrich cid project kind expected patch, now) db =
     ([], snd (enrich_owner_interaction_checkpoint db cid project kind expected patch now))"
| "card_op_step ck sp (ClosePending cid project kind status patch, now) db =
     ([], snd (close_pending_owner_interaction_checkpoint db cid project kind status patch now))"
| "card_op_step ck sp (Backfill cid project kind expected ownership, now) db =
     ([], snd (backfill_owner_interaction_ownership db cid project kind expected ownership now))"
| "card_op_step ck sp (Answer cid project kind rq hash decision, now) db =
     ([], snd (accept_execution_checkpoint_decision ck sp db cid project kind rq hash decision now))"
| "card_op_step ck sp (Claim cid project kind consumer c lease ctrl, now) db =
     ([], snd (claim_answered_execution_checkpoint ck sp db cid project kind consumer c lease ctrl now))"
| "card_op_step ck sp (Begin cid project kind c u, now) db =
     when_started (py_strip cid) (begin_execution_checkpoint_effect ck sp db cid project kind c u now)"
| "card_op_step ck sp (BeginExact p, now) db =
     when_started (permit_text p ''checkpoint_id'') (begin_exact_tool_permission_effect ck sp db p now)"
| "card_op_step ck sp (Renew cid project kind c u lease, now) db =
     ([], snd (renew_execution_checkpoint_claim ck sp db cid project kind c u lease now))"
| "card_op_step ck sp (FinishClaim cid project kind c u final patch, now) db =
     ([], snd (finish_execution_checkpoint_consumption ck sp db cid project kind c u final patch now))"
| "card_op_step ck sp (ReleaseClaim cid project kind c u reason patch, now) db =
     ([], snd (release_execution_checkpoint_claim ck sp db cid project kind c u reason patch now))"
| "card_op_step ck sp (Create cp, now) db = ([], snd (create_execution_checkpoint sp db cp))"
| "card_op_step ck sp (Save cp, now) db = ([], snd (save_execution_checkpoint sp db cp))"
| "card_op_step ck sp (Patch cid project kind expected patch status, now) db =
     ([], snd (patch_execution_checkpoint_payload sp db cid project kind expected patch status now))"
| "card_op_step ck sp (Resolve cid status, now) db = ([], snd (resolve_execution_checkpoint db cid status now))"
| "card_op_step ck sp (CompareAndSet cid expected status payload, now) db =
     ([], snd (compare_and_set_execution_checkpoint db cid expected status payload now))"
| "card_op_step ck sp (GetOrCreate cp types create, now) db =
     ([], snd (get_or_create_active_execution_checkpoint ck db cp types create now))"
| "card_op_step ck sp (SupersedePending s, now) db = ([], snd (supersede_pending_checkpoints ck sp db s now))"
| "card_op_step ck sp (Elsewhere st results conts, now) db =
     ([], db\<lparr>td_store := st, td_results := results, td_continuations := conts\<rparr>)"

lemma snd_op: "(s, snd (f :: 'a \<times> tool_db)) = (s', db') \<Longrightarrow> f = (fst f, db')"
  by (cases f) simp

lemma card_op_steps:
  assumes ok: "cards_ok db" and x: "op_ok x" and step: "card_op_step ck sp (x, now) db = (s, db')"
  shows "cards_step ck now (op_claim x) db db'"
proof (cases x)
  case (Publish cp key sps flow order)
  from step show ?thesis unfolding Publish card_op_step.simps by (intro publish_steps [OF ok snd_op])
next
  case (Enrich cid project kind expected patch)
  from step show ?thesis unfolding Enrich card_op_step.simps by (intro enrich_steps [OF ok snd_op])
next
  case (ClosePending cid project kind status patch)
  from step show ?thesis unfolding ClosePending card_op_step.simps by (intro close_steps [OF ok snd_op])
next
  case (Backfill cid project kind expected ownership)
  from step show ?thesis unfolding Backfill card_op_step.simps by (intro backfill_steps [OF ok snd_op])
next
  case (Answer cid project kind rq hash decision)
  from step show ?thesis unfolding Answer card_op_step.simps by (intro accept_steps [OF ok snd_op])
next
  case (Claim cid project kind consumer c lease ctrl)
  from step have "claim_answered_execution_checkpoint ck sp db cid project kind consumer c lease ctrl now =
      (fst (claim_answered_execution_checkpoint ck sp db cid project kind consumer c lease ctrl now), db')"
    unfolding Claim card_op_step.simps by (rule snd_op)
  from claim_steps [OF ok this] show ?thesis by (simp add: Claim op_claim_def)
next
  case (Begin cid project kind c u)
  obtain r where r: "begin_execution_checkpoint_effect ck sp db cid project kind c u now = (r, db')"
    using step by (cases "begin_execution_checkpoint_effect ck sp db cid project kind c u now")
      (simp add: Begin when_started_def)
  show ?thesis
    using begin_cases [OF ok r, of ck now] cards_unchanged [OF ok]
    by (cases "db' = db") (simp_all add: Begin op_claim_def)
next
  case (BeginExact p)
  obtain r where r: "begin_exact_tool_permission_effect ck sp db p now = (r, db')"
    using step by (cases "begin_exact_tool_permission_effect ck sp db p now") (simp add: BeginExact when_started_def)
  show ?thesis
    using begin_exact_cases [OF ok r, of ck now] cards_unchanged [OF ok]
    by (cases "db' = db") (simp_all add: BeginExact op_claim_def)
next
  case (Renew cid project kind c u lease)
  from step have "renew_execution_checkpoint_claim ck sp db cid project kind c u lease now =
      (fst (renew_execution_checkpoint_claim ck sp db cid project kind c u lease now), db')"
    unfolding Renew card_op_step.simps by (rule snd_op)
  from renew_steps [OF ok this] show ?thesis by (simp add: Renew op_claim_def)
next
  case (FinishClaim cid project kind c u final patch)
  from step have "finish_execution_checkpoint_consumption ck sp db cid project kind c u final patch now =
      (fst (finish_execution_checkpoint_consumption ck sp db cid project kind c u final patch now), db')"
    unfolding FinishClaim card_op_step.simps by (rule snd_op)
  from finish_steps [OF ok this] show ?thesis by (simp add: FinishClaim op_claim_def)
next
  case (ReleaseClaim cid project kind c u reason patch)
  from step have "release_execution_checkpoint_claim ck sp db cid project kind c u reason patch now =
      (fst (release_execution_checkpoint_claim ck sp db cid project kind c u reason patch now), db')"
    unfolding ReleaseClaim card_op_step.simps by (rule snd_op)
  from release_steps [OF ok this] show ?thesis by (simp add: ReleaseClaim op_claim_def)
next
  case (Create cp)
  from step show ?thesis unfolding Create card_op_step.simps by (intro create_keeps_cards [OF ok snd_op])
next
  case (Save cp)
  from step show ?thesis unfolding Save card_op_step.simps by (intro save_keeps_cards [OF ok snd_op])
next
  case (Patch cid project kind expected patch status)
  from step show ?thesis unfolding Patch card_op_step.simps by (intro patch_keeps_cards [OF ok snd_op])
next
  case (Resolve cid status)
  from step show ?thesis unfolding Resolve card_op_step.simps by (intro resolve_keeps_cards [OF ok snd_op])
next
  case (CompareAndSet cid expected status payload)
  from step show ?thesis unfolding CompareAndSet card_op_step.simps by (intro compare_and_set_keeps_cards [OF ok snd_op])
next
  case (GetOrCreate cp types create)
  from step x show ?thesis unfolding GetOrCreate card_op_step.simps
    by (intro get_or_create_keeps_cards [OF ok snd_op]) (simp_all add: op_ok_def)
next
  case (SupersedePending sc)
  from step show ?thesis unfolding SupersedePending card_op_step.simps by (intro supersede_pending_keeps_cards [OF ok snd_op])
next
  case (Elsewhere st results conts)
  with step show ?thesis using cards_unchanged [OF ok] by auto
qed

lemma card_op_starts:
  assumes ok: "cards_ok db" and step: "card_op_step ck sp (x, now) db = (s, db')"
  shows "s = [] \<or> (\<exists>cid. s = [cid] \<and> starts_effect db db' cid (op_claim x))"
proof (cases x)
  case (Begin cid project kind c u)
  obtain r where r: "begin_execution_checkpoint_effect ck sp db cid project kind c u now = (r, db')"
    and s: "s = (if started r then [py_strip cid] else [])"
    using step by (cases "begin_execution_checkpoint_effect ck sp db cid project kind c u now")
      (auto simp: Begin when_started_def)
  with begin_cases [OF ok r] show ?thesis by (auto simp: Begin op_claim_def)
next
  case (BeginExact p)
  obtain r where r: "begin_exact_tool_permission_effect ck sp db p now = (r, db')"
    and s: "s = (if started r then [permit_text p ''checkpoint_id''] else [])"
    using step by (cases "begin_exact_tool_permission_effect ck sp db p now") (auto simp: BeginExact when_started_def)
  with begin_exact_cases [OF ok r] show ?thesis by (auto simp: BeginExact op_claim_def)
qed (use step in auto)

interpretation owner: card_machine "card_op_step ck sp" ck op_claim op_ok for ck sp
  by unfold_locales (erule (2) card_op_steps, erule (1) card_op_starts)

lemma owner_card_row:
  "owner_card db cid = Some (k, c) \<longleftrightarrow>
   (\<exists>cp. checkpoint_row db cid = Some cp \<and> owner_type (cp_type cp) \<and> k = cp_type cp \<and> c = card_state cp)"
  by (auto simp: owner_card_def split: option.splits)

definition settled :: "checkpoint \<Rightarrow> bool" where
  "settled cp \<longleftrightarrow> cp_status cp \<notin> {''pending'', ''answered'', ''consuming''}"

lemma card_state_facts:
  "card_decision (card_state cp) = (if cp_status cp = ''pending'' then None else Some (decision_of cp))"
  "(\<exists>e. card_state cp = Closed e) \<longleftrightarrow> settled cp"
  by (auto simp: card_decision_def card_state_def settled_def)

section \<open>A concrete card\<close>

text \<open>A clock that counts strokes, and the life of one question.\<close>

definition tally_clock :: clock where
  "tally_clock =
     \<lparr>ck_text = (\<lambda>t. if t < 0 then CHR ''-'' # replicate (nat (- t)) CHR ''1'' else replicate (nat t) CHR ''1''),
      ck_parse = (\<lambda>s. case s of [] \<Rightarrow> Some 0
                   | c # cs \<Rightarrow> if c = CHR ''-'' then Some (- int (length cs)) else Some (int (length s)))\<rparr>"

definition no_cards :: tool_db where
  "no_cards = \<lparr>td_store = empty_store, td_checkpoints = [], td_results = [], td_continuations = []\<rparr>"

definition question :: "string \<Rightarrow> checkpoint" where
  "question cid =
     \<lparr>cp_checkpoint_id = cid, cp_project_id = ''p'', cp_type = ''route_clarification'', cp_status = ''pending'',
      cp_task_id = None, cp_payload = [(''prompt'', PStr ''where to'')], cp_session_id = Some ''s'',
      cp_created_at = 0, cp_updated_at = 0\<rparr>"

definition card_db :: "string \<Rightarrow> int \<Rightarrow> pydict \<Rightarrow> tool_db" where
  \<comment> \<open>one card with the answer \<open>left\<close>\<close>
  "card_db status now rest =
     no_cards\<lparr>td_checkpoints :=
       [(question ''q1'')\<lparr>cp_status := status, cp_updated_at := now,
          cp_payload := [(''prompt'', PStr ''where to''),
            (''interaction'', PDict ((''decision'', PDict
                [(''request_id'', PStr ''r1''), (''decision_hash'', PStr ''h1''), (''value'', PStr ''left''),
                 (''submitted_at'', PStr ''1'')]) # rest))]\<rparr>]\<rparr>"

definition answered_db :: tool_db where
  "answered_db = card_db ''answered'' 1 []"

definition first_claim :: pydict where
  "first_claim = [(''claim_id'', PStr ''c1''), (''consumer_id'', PStr ''u1''), (''claimed_at'', PStr ''11''),
     (''lease_expires_at'', PStr ''1111111''), (''attempt'', PInt 1)]"

definition claimed_db :: tool_db where
  "claimed_db = card_db ''consuming'' 2
     [(''claim'', PDict first_claim),
      (''execution'', PDict [(''state'', PStr ''ready''), (''claim_id'', PStr ''c1''), (''consumer_id'', PStr ''u1'')])]"

definition executing_db :: tool_db where
  "executing_db = card_db ''consuming'' 3
     [(''claim'', PDict first_claim),
      (''execution'', PDict [(''state'', PStr ''executing''), (''claim_id'', PStr ''c1''), (''consumer_id'', PStr ''u1''),
         (''started_at'', PStr ''111'')])]"

definition lost_db :: tool_db where
  "lost_db = card_db ''outcome_unknown'' 9
     [(''claim'', PDict first_claim),
      (''execution'', PDict [(''state'', PStr ''outcome_unknown''), (''claim_id'', PStr ''c1''), (''consumer_id'', PStr ''u1''),
         (''started_at'', PStr ''111''), (''detected_at'', PStr ''111111111''), (''reason'', PStr ''execution_lease_expired'')]),
      (''completion'', PDict [(''claim_id'', PStr ''c1''), (''consumer_id'', PStr ''u1''), (''finished_at'', PStr ''111111111''),
         (''final_status'', PStr ''outcome_unknown'')])]"

text \<open>Claimed, started, refused to a second consumer, lost when the lease ran out, never started again.\<close>

abbreviation claim_by :: "string \<Rightarrow> string \<Rightarrow> card_op" where
  "claim_by u c \<equiv> Claim ''q1'' ''p'' ''route_clarification'' u c 5 None"

abbreviation begin_by :: "string \<Rightarrow> string \<Rightarrow> card_op" where
  "begin_by u c \<equiv> Begin ''q1'' ''p'' ''route_clarification'' c u"

definition consumed_story :: "(card_op \<times> int) list" where
  "consumed_story =
     [(claim_by ''u1'' ''c1'', 2), (begin_by ''u1'' ''c1'', 3), (begin_by ''u1'' ''c1'', 4), (claim_by ''u2'' ''c2'', 5),
      (claim_by ''u2'' ''c2'', 9), (begin_by ''u2'' ''c2'', 10)]"

abbreviation play :: "(card_op \<times> int) list \<Rightarrow> tool_db \<Rightarrow> string list \<times> tool_db" where
  "play xs db \<equiv> run_ops (card_op_step tally_clock ''p'') xs db"

lemma story_steps:
  "card_op_step tally_clock ''p'' (claim_by ''u1'' ''c1'', 2) answered_db = ([], claimed_db)"
  "card_op_step tally_clock ''p'' (begin_by ''u1'' ''c1'', 3) claimed_db = ([''q1''], executing_db)"
  "card_op_step tally_clock ''p'' (begin_by ''u1'' ''c1'', 4) executing_db = ([], executing_db)"
  "card_op_step tally_clock ''p'' (claim_by ''u2'' ''c2'', 5) executing_db = ([], executing_db)"
  "card_op_step tally_clock ''p'' (claim_by ''u2'' ''c2'', 9) executing_db = ([], lost_db)"
  "card_op_step tally_clock ''p'' (begin_by ''u2'' ''c2'', 10) lost_db = ([], lost_db)"
  by code_simp+

lemma story: "play consumed_story answered_db = ([''q1''], lost_db)"
  by (simp only: consumed_story_def run_ops.simps story_steps Let_def split append_Nil append.simps append_Nil2)

lemma story_ok: "cards_ok answered_db" "list_all (\<lambda>x. op_ok (fst x)) consumed_story"
  by (code_simp, simp add: consumed_story_def op_ok_def)

section \<open>Guarantees\<close>

text \<open>C5. The interaction commands implement the protocol of the owner's cards.  The commands are the
  eighteen of \<open>card_op\<close>: publication, enrichment, closing, backfill, answer, claim, begin, begin of
  an exact tool call, renewal, finish and release of a card, and the generic create, save, patch,
  resolve, compare-and-set, get-or-create and supersession of checkpoints.  Whichever of them runs,
  with whatever arguments, each card either stays as it is or takes one step of the abstract machine:
  published (perhaps already superseded), withdrawn unanswered, answered once, claimed, taken over
  only after its lease ran out and before its effect began, reconciled with a stored result, started,
  renewed, given back before its effect began, settled by its holder, or
  closed as lost after its lease ran out inside the effect; no generic operation moves a card at all
  in another way.  Administrative commands that write the table directly are outside this machine
  and do not follow it: the retirement of legacy owner waits and the audit of final deliveries at
  startup make an answered card stale or invalid without a claim, and the deletion of the data of a
  session removes cards.\<close>

theorem operations_refine_the_card_protocol:
  assumes "cards_ok db" "op_ok x" "card_op_step ck sp (x, now) db = (s, db')"
  shows "cards_ok db' \<and>
    (\<forall>cid. owner_card db' cid = owner_card db cid \<or>
       card_step ck now (op_claim x) (owner_card db cid) (owner_card db' cid))"
  using owner.steps [OF assms] by (simp add: cards_step_def)

theorem operations_refine_the_card_protocol_witness:
  "card_step tally_clock 2 ''c1'' (owner_card answered_db ''q1'') (owner_card claimed_db ''q1'')"
proof -
  have "op_ok (claim_by ''u1'' ''c1'')" by (simp add: op_ok_def)
  from operations_refine_the_card_protocol [OF story_ok(1) this story_steps(1)]
  have "owner_card claimed_db ''q1'' = owner_card answered_db ''q1'' \<or>
      card_step tally_clock 2 (op_claim (claim_by ''u1'' ''c1'')) (owner_card answered_db ''q1'') (owner_card claimed_db ''q1'')"
    by blast
  moreover have "owner_card claimed_db ''q1'' \<noteq> owner_card answered_db ''q1''" "op_claim (claim_by ''u1'' ''c1'') = ''c1''"
    by code_simp+
  ultimately show ?thesis by simp
qed

text \<open>C6. An accepted decision is immutable.  Over any history of operations, a card that has left
  \<open>pending\<close> keeps its type and its decision, and a settled card stays settled.\<close>

theorem decisions_are_immutable:
  assumes "cards_ok db" "list_all (\<lambda>x. op_ok (fst x)) xs" "run_ops (card_op_step ck sp) xs db = (ss, db')"
    "checkpoint_row db cid = Some cp" "owner_type (cp_type cp)" "cp_status cp \<noteq> ''pending''"
  shows "\<exists>cp'. checkpoint_row db' cid = Some cp' \<and> cp_type cp' = cp_type cp \<and> cp_status cp' \<noteq> ''pending'' \<and>
    decision_of cp' = decision_of cp \<and> (settled cp \<longrightarrow> settled cp')"
proof -
  have "owner_card db cid = Some (cp_type cp, card_state cp)" "card_decision (card_state cp) = Some (decision_of cp)"
    using assms(4-6) by (auto simp: owner_card_row card_state_facts)
  from owner.decision_stays [OF assms(1-3) this] obtain c' where
    c': "owner_card db' cid = Some (cp_type cp, c')" "card_decision c' = Some (decision_of cp)"
    "(\<exists>e. card_state cp = Closed e) \<longrightarrow> c' = card_state cp" by blast
  from c'(1) obtain cp' where cp': "checkpoint_row db' cid = Some cp'" "cp_type cp' = cp_type cp" "c' = card_state cp'"
    by (auto simp: owner_card_row)
  have "settled cp \<longrightarrow> settled cp'" using c'(3) cp'(3) card_state_facts(2) [of cp] card_state_facts(2) [of cp'] by auto
  with cp' c'(2) show ?thesis by (auto simp: card_state_facts(1) split: if_splits)
qed

theorem decisions_are_immutable_witness:
  "case checkpoint_row answered_db ''q1'' of None \<Rightarrow> False
   | Some cp \<Rightarrow> (case checkpoint_row lost_db ''q1'' of None \<Rightarrow> False
      | Some cp' \<Rightarrow> decision_of cp \<noteq> PNone \<and> decision_of cp' = decision_of cp \<and> cp_status cp' = ''outcome_unknown'')"
proof -
  have "case checkpoint_row answered_db ''q1'' of None \<Rightarrow> False
     | Some cp \<Rightarrow> owner_type (cp_type cp) \<and> cp_status cp \<noteq> ''pending'' \<and> decision_of cp \<noteq> PNone"
    by code_simp
  then obtain cp where cp: "checkpoint_row answered_db ''q1'' = Some cp" "owner_type (cp_type cp)"
    "cp_status cp \<noteq> ''pending''" "decision_of cp \<noteq> PNone" by (auto split: option.splits)
  have status: "map_option cp_status (checkpoint_row lost_db ''q1'') = Some ''outcome_unknown''" by code_simp
  from decisions_are_immutable [OF story_ok story cp(1-3)] cp status show ?thesis by auto
qed

text \<open>C7. The effect of an answer starts at most once, tool permissions apart.  In any history of the
  interaction commands, however claims expire, are taken over, given back and claimed again, at most
  one receipt says that the effect of a given card of another type than \<open>tool_permission\<close> started,
  whatever consumer asked.  The permission of an exact tool call is outside the statement: its stored
  result allows a second reader.\<close>

theorem effects_start_at_most_once:
  assumes "cards_ok db" "list_all (\<lambda>x. op_ok (fst x)) xs" "run_ops (card_op_step ck sp) xs db = (ss, db')"
    "checkpoint_row db' cid = Some cp" "owner_type (cp_type cp)" "cp_type cp \<noteq> ''tool_permission''"
  shows "count_list ss cid \<le> 1"
proof -
  have "owner_card db' cid = Some (cp_type cp, card_state cp)" using assms(4,5) by (simp add: owner_card_row)
  from owner.started_once [OF assms(1-3) this assms(6)] show ?thesis by blast
qed

theorem effects_start_at_most_once_witness:
  "play consumed_story answered_db = ([''q1''], lost_db) \<and> count_list [''q1''] ''q1'' \<le> 1"
proof -
  have "case checkpoint_row lost_db ''q1'' of None \<Rightarrow> False
     | Some cp \<Rightarrow> owner_type (cp_type cp) \<and> cp_type cp \<noteq> ''tool_permission''"
    by code_simp
  then obtain cp where "checkpoint_row lost_db ''q1'' = Some cp" "owner_type (cp_type cp)" "cp_type cp \<noteq> ''tool_permission''"
    by (auto split: option.splits)
  from effects_start_at_most_once [OF story_ok story this] story show ?thesis by blast
qed

section \<open>The lease of a claim\<close>

definition clock_ok :: "clock \<Rightarrow> bool" where
  \<comment> \<open>\<open>fromisoformat\<close> reads what \<open>isoformat\<close> wrote\<close>
  "clock_ok ck \<longleftrightarrow> (\<forall>t. ck_parse ck (ck_text ck t) = Some t)"

definition granted :: "clock \<Rightarrow> string \<Rightarrow> string \<Rightarrow> int \<Rightarrow> checkpoint \<Rightarrow> bool" where
  "granted ck c u e cp \<longleftrightarrow>
     cp_status cp = ''consuming'' \<and> holder_of cp = \<lparr>h_claim = c, h_consumer = u, h_expires = ck_text ck e\<rparr>"

lemma new_claim_expiry [simp]: "raw_text (new_claim ck c u t e a) ''lease_expires_at'' = ck_text ck e"
  by (simp add: new_claim_def stamp_def)

lemma grant_granted:
  assumes row: "checkpoint_row db (cp_checkpoint_id cp) = Some cp"
    and status: "cp_status cp = (if re then ''consuming'' else ''answered'')"
    and op: "grant_claim ck db cp prior re c u t e = (Inr rc, db')" and outcome: "rc_outcome rc \<noteq> ''busy''"
  shows "\<exists>cp'. checkpoint_row db' (cp_checkpoint_id cp) = Some cp' \<and> cp_type cp' = cp_type cp \<and> granted ck c u e cp'"
proof -
  from op obtain p where w: "write_card db cp [if re then ''consuming'' else ''answered''] ''consuming'' p t = Some db'"
    and p: "raw_text (claim_of (execution_checkpoint_interaction p)) ''claim_id'' = c"
      "raw_text (claim_of (execution_checkpoint_interaction p)) ''consumer_id'' = u"
      "raw_text (claim_of (execution_checkpoint_interaction p)) ''lease_expires_at'' = ck_text ck e"
    using outcome unfolding grant_claim_def Let_def finish_claim_def
    by (auto simp: claim_of_def receipt_of_def split: sum.splits option.splits pyval.splits)
  from row_written [OF w refl row] status p show ?thesis by (auto simp: granted_def holder_of_def)
qed

lemma reconcile_granted:
  assumes row: "checkpoint_row db (cp_checkpoint_id cp) = Some cp" and status: "cp_status cp = ''consuming''"
    and op: "reconcile_persisted_result ck db cp call prior c u t e = (Inr rc, db')" and outcome: "rc_outcome rc \<noteq> ''busy''"
  shows "\<exists>cp'. checkpoint_row db' (cp_checkpoint_id cp) = Some cp' \<and> cp_type cp' = cp_type cp \<and> granted ck c u e cp'"
proof -
  let ?x = "remove_task_runtime_tool_permit_in_transaction db (cl_task call) (cl_runtime call) (cl_fingerprint call) True"
  obtain b db1 where rem: "?x = (Inr b, db1)"
    using op by (cases ?x; cases "fst ?x") (auto simp: reconcile_persisted_result_def)
  let ?db2 = "drop_expired_continuations db1 (cp_project_id cp) (cl_task call) (cl_runtime call) t"
  have same: "td_checkpoints ?db2 = td_checkpoints db" using removal_keeps_checkpoints [OF rem] by simp
  from op obtain p where w: "write_card ?db2 cp [''consuming''] ''consuming'' p t = Some db'"
    and p: "raw_text (claim_of (execution_checkpoint_interaction p)) ''claim_id'' = c"
      "raw_text (claim_of (execution_checkpoint_interaction p)) ''consumer_id'' = u"
      "raw_text (claim_of (execution_checkpoint_interaction p)) ''lease_expires_at'' = ck_text ck e"
    using outcome unfolding reconcile_persisted_result_def rem Let_def finish_claim_def
    by (auto simp: claim_of_def receipt_of_def bind_result_Inr_iff split: sum.splits option.splits)
  from row_written [OF w same row] status p show ?thesis by (auto simp: granted_def holder_of_def)
qed

lemma unknown_outcomes:
  "close_unknown_outcome ck db cp call prior execution t = (Inr rc, db') \<Longrightarrow> rc_outcome rc \<in> {''invalid_state'', ''busy''}"
  by (auto simp: close_unknown_outcome_def finish_claim_def Let_def receipt_of_def split: sum.splits option.splits)

lemma verdict_outcome:
  assumes "controller_verdict st cp project ctrl t = Inr (Some outcome)"
  shows "outcome \<in> {''invalid_state'', ''controller_busy''}"
proof (cases ctrl)
  case None
  with assms show ?thesis by (simp add: controller_verdict_def)
next
  case (Some c)
  with assms obtain rid conflict where "execution_checkpoint_company_run_scope st cp project = Inr (rid, conflict)"
    by (cases "execution_checkpoint_company_run_scope st cp project") (auto simp: controller_verdict_def)
  with Some assms show ?thesis by (auto simp: controller_verdict_def split: if_splits option.splits)
qed

lemma claim_granted:
  assumes ok: "cards_ok db"
    and op: "claim_answered_execution_checkpoint ck sp db cid project kind consumer c lease ctrl t = (Inr rc, db')"
    and outcome: "rc_outcome rc \<in> {''claimed'', ''reclaimed''}"
  shows "\<exists>cp. checkpoint_row db' (py_strip cid) = Some cp \<and> owner_type (cp_type cp) \<and>
    granted ck (py_strip c) (py_strip consumer) (t + lease) cp"
proof -
  from op outcome obtain cp where head: "owner_row sp db (py_strip cid) (clean_project_id project) (py_strip kind)
        (py_strip consumer \<noteq> [] \<and> py_strip c \<noteq> [] \<and> 0 < lease) = Inr (Some cp)"
    and branch: "(case controller_verdict (td_store db) cp (clean_project_id project) ctrl t of
                Inl e \<Rightarrow> (Inl e, db)
              | Inr (Some outcome) \<Rightarrow> (Inr (receipt_of outcome (Some cp) []), db)
              | Inr None \<Rightarrow> claim_card ck db cp (py_strip c) (py_strip consumer) t (t + lease)) = (Inr rc, db')"
    unfolding claim_answered_execution_checkpoint_def Let_def with_card_def
    by (auto simp: receipt_of_def split: sum.splits option.splits)
  note cp = owner_row_Some [OF ok head]
  have row: "checkpoint_row db (cp_checkpoint_id cp) = Some cp" using cp by simp
  have "\<exists>outcome. controller_verdict (td_store db) cp (clean_project_id project) ctrl t = Inr (Some outcome) \<Longrightarrow>
      rc_outcome rc \<in> {''invalid_state'', ''controller_busy''}"
    using branch verdict_outcome [of "td_store db" cp "clean_project_id project" ctrl t]
    by (auto simp: receipt_of_def)
  with outcome branch have card: "claim_card ck db cp (py_strip c) (py_strip consumer) t (t + lease) = (Inr rc, db')"
    by (auto split: sum.splits option.splits)
  have "\<exists>cp'. checkpoint_row db' (cp_checkpoint_id cp) = Some cp' \<and> cp_type cp' = cp_type cp \<and>
      granted ck (py_strip c) (py_strip consumer) (t + lease) cp'"
  proof (cases "cp_status cp = ''consuming''")
    case True
    with card outcome have re: "reclaim_card ck db cp (py_strip c) (py_strip consumer) t (t + lease) = (Inr rc, db')"
      by (auto simp: claim_card_def receipt_of_def split: pyval.splits)
    let ?prior = "claim_of (card_interaction cp)"
    from re outcome have expired: "claim_expired ck ?prior t"
      by (auto simp: reclaim_card_def Let_def receipt_of_def split: if_splits)
    obtain call where call: "card_call_of cp = Inr call"
      using re expired by (cases "card_call_of cp") (auto simp: reclaim_card_def Let_def)
    show ?thesis
    proof (cases "call_result_stored db cp call")
      case True
      with re expired call have "reconcile_persisted_result ck db cp call ?prior (py_strip c) (py_strip consumer) t (t + lease) = (Inr rc, db')"
        by (simp add: reclaim_card_def Let_def)
      from reconcile_granted [OF row \<open>cp_status cp = ''consuming''\<close> this] outcome show ?thesis by auto
    next
      case not_stored: False
      let ?ex = "permit_of (dget (card_interaction cp) ''execution'')"
      have "\<not> (raw_text ?ex ''state'' = ''executing'' \<and> raw_text ?ex ''claim_id'' = raw_text ?prior ''claim_id'')"
        using re expired call not_stored outcome unknown_outcomes [of ck db cp call ?prior ?ex t rc db']
        by (auto simp: reclaim_card_def Let_def)
      with re expired call not_stored
      have "grant_claim ck db cp (PDict ?prior) True (py_strip c) (py_strip consumer) t (t + lease) = (Inr rc, db')"
        by (auto simp: reclaim_card_def Let_def)
      from grant_granted [OF row _ this] \<open>cp_status cp = ''consuming''\<close> outcome show ?thesis by auto
    qed
  next
    case False
    with card outcome have "cp_status cp = ''answered''" "grant_claim ck db cp (dget (card_interaction cp) ''claim'') False
        (py_strip c) (py_strip consumer) t (t + lease) = (Inr rc, db')"
      by (auto simp: claim_card_def receipt_of_def split: pyval.splits if_splits)
    from grant_granted [OF row _ this(2)] this(1) outcome show ?thesis by auto
  qed
  with cp show ?thesis by auto
qed

text \<open>C8. A granted claim excludes every other until its lease ends.  After a consumer claimed or
  reclaimed a card at \<open>t\<close> for \<open>lease\<close>, no history of operations that happen before \<open>t + lease\<close> and
  present another claim id changes the card: its holder, the stage of its effect and its decision
  are those of the grant.\<close>

theorem live_claims_are_exclusive:
  assumes "clock_ok ck" "cards_ok db"
    "claim_answered_execution_checkpoint ck sp db cid project kind consumer c lease ctrl t = (Inr rc, db1)"
    "rc_outcome rc \<in> {''claimed'', ''reclaimed''}"
    "list_all (\<lambda>x. op_ok (fst x)) xs" "run_ops (card_op_step ck sp) xs db1 = (ss, db2)"
    "list_all (\<lambda>(x, now). op_claim x \<noteq> py_strip c \<and> now < t + lease) xs"
  shows "(\<exists>cp. checkpoint_row db2 (py_strip cid) = Some cp \<and> granted ck (py_strip c) (py_strip consumer) (t + lease) cp) \<and>
    owner_card db2 (py_strip cid) = owner_card db1 (py_strip cid)"
proof -
  have ok1: "cards_ok db1" using claim_steps [OF assms(2,3)] by (simp add: cards_step_def)
  from claim_granted [OF assms(2-4)] obtain cp where cp: "checkpoint_row db1 (py_strip cid) = Some cp"
    "owner_type (cp_type cp)" "granted ck (py_strip c) (py_strip consumer) (t + lease) cp" by blast
  then have card: "owner_card db1 (py_strip cid) =
      Some (cp_type cp, Consumed (decision_of cp) (holder_of cp) (raw_text (execution_of cp) ''state''))"
    by (simp add: owner_card_row granted_def consumed)
  have "list_all (\<lambda>(x, now). op_claim x \<noteq> h_claim (holder_of cp) \<and> \<not> expired_at ck (h_expires (holder_of cp)) now) xs"
    using assms(1,7) cp(3) by (auto simp: list_all_iff granted_def clock_ok_def expired_at_def)
  from owner.holder_stays [OF ok1 assms(5,6) card this] have same: "owner_card db2 (py_strip cid) = owner_card db1 (py_strip cid)"
    by (simp add: card)
  then obtain cp2 where "checkpoint_row db2 (py_strip cid) = Some cp2"
    "card_state cp2 = Consumed (decision_of cp) (holder_of cp) (raw_text (execution_of cp) ''state'')"
    by (auto simp: card owner_card_row)
  moreover from this(2) have "cp_status cp2 = ''consuming''" "holder_of cp2 = holder_of cp"
    by (auto simp: card_state_def split: if_splits)
  ultimately show ?thesis using cp(3) same by (auto simp: granted_def)
qed

lemma tally_clock_ok: "clock_ok tally_clock"
proof -
  have "ck_parse tally_clock (ck_text tally_clock t) = Some t" for t
    by (cases "nat t") (auto simp: tally_clock_def)
  then show ?thesis by (simp add: clock_ok_def)
qed

theorem live_claims_are_exclusive_witness:
  "play [(claim_by ''u2'' ''c2'', 6)] claimed_db = ([], claimed_db) \<and>
   (\<exists>cp. checkpoint_row claimed_db ''q1'' = Some cp \<and> granted tally_clock ''c1'' ''u1'' 7 cp)"
proof -
  let ?claim = "claim_answered_execution_checkpoint tally_clock ''p'' answered_db ''q1'' ''p'' ''route_clarification'' ''u1'' ''c1'' 5 None 2"
  let ?xs = "[(claim_by ''u2'' ''c2'', 6)] :: (card_op \<times> int) list"
  have "case fst ?claim of Inl e \<Rightarrow> False | Inr rc \<Rightarrow> rc_outcome rc = ''claimed''" by code_simp
  moreover have "snd ?claim = claimed_db" using story_steps(1) by simp
  ultimately obtain rc where claim: "?claim = (Inr rc, claimed_db)" "rc_outcome rc \<in> {''claimed'', ''reclaimed''}"
    by (cases ?claim) (auto split: sum.splits)
  have "card_op_step tally_clock ''p'' (claim_by ''u2'' ''c2'', 6) claimed_db = ([], claimed_db)" by code_simp
  then have run: "play ?xs claimed_db = ([], claimed_db)" by simp
  have strip: "py_strip ''q1'' = ''q1''" "py_strip ''c1'' = ''c1''" "py_strip ''u1'' = ''u1''" "py_strip ''c2'' = ''c2''"
    by code_simp+
  have xs: "list_all (\<lambda>x. op_ok (fst x)) ?xs" "list_all (\<lambda>(x, now). op_claim x \<noteq> py_strip ''c1'' \<and> now < 2 + 5) ?xs"
    by (simp_all add: op_ok_def op_claim_def strip)
  from live_claims_are_exclusive [OF tally_clock_ok story_ok(1) claim xs(1) run xs(2)] run
  show ?thesis by (simp add: strip)
qed

section \<open>One answerable card per flow\<close>

lemma filter_map_out:
  assumes "\<And>r. \<not> P (f r)" "\<And>r. P r \<Longrightarrow> hit r \<longleftrightarrow> out r"
  shows "filter P (map (\<lambda>r. if hit r then f r else r) L) = filter (\<lambda>r. \<not> out r) (filter P L)"
  using assms by (induction L) auto

lemma checkpoints_put: "td_checkpoints (db\<lparr>td_checkpoints := cps\<rparr>) = cps"
  by simp

lemma supersede_all_flow:
  assumes "list_all (\<lambda>c. cp_checkpoint_id c \<noteq> [] \<and> py_strip (cp_checkpoint_id c) = cp_checkpoint_id c) rows"
  shows "filter (in_flow project kind flow) (td_checkpoints (supersede_all
      (\<lambda>r. cp_project_id r = project \<and> cp_type r = kind \<and> cp_status r = ''pending'') ck t w rows db)) =
    filter (\<lambda>r. cp_checkpoint_id r \<notin> cp_checkpoint_id ` set rows) (filter (in_flow project kind flow) (td_checkpoints db))"
  using assms
proof (induction rows arbitrary: db)
  case Nil
  then show ?case by (simp add: supersede_all_def)
next
  case (Cons c rows)
  let ?scope = "\<lambda>r. cp_project_id r = project \<and> cp_type r = kind \<and> cp_status r = ''pending''"
  let ?db1 = "snd (supersede_row ?scope ck t w c db)"
  have one: "filter (in_flow project kind flow) (td_checkpoints ?db1) =
      filter (\<lambda>r. \<not> cp_checkpoint_id r = cp_checkpoint_id c) (filter (in_flow project kind flow) (td_checkpoints db))"
    unfolding supersede_row_def update_rows_def Let_def snd_conv tool_db.select_convs tool_db.update_convs
      checkpoints_put
    by (rule filter_map_out) (use Cons.prems in \<open>auto simp: in_flow_def\<close>)
  have "supersede_all ?scope ck t w (c # rows) db = supersede_all ?scope ck t w rows ?db1"
    using Cons.prems by (simp add: supersede_all_def)
  with Cons.IH [of ?db1] Cons.prems one show ?case
    by (simp del: filter_filter) (auto intro!: filter_cong)
qed

lemma filter_is_single: "distinct xs \<Longrightarrow> x \<in> set xs \<Longrightarrow> filter (\<lambda>y. y = x) xs = [x]"
  by (induction xs) (auto simp: filter_empty_conv)

lemma flow_winner:
  assumes ok: "cards_ok db" and row: "row \<in> set (td_checkpoints db)" "in_flow project kind flow row"
  shows "\<exists>winner. filter (in_flow project kind flow) (td_checkpoints (supersede_flow ck db project kind flow t)) = [winner] \<and>
    winner \<in> set (td_checkpoints db) \<and>
    (\<forall>r\<in>set (td_checkpoints db). in_flow project kind flow r \<longrightarrow> flow_rank r \<le> flow_rank winner)"
proof -
  let ?F = "filter (in_flow project kind flow) (td_checkpoints db)"
  have "set (rev (sort_key flow_rank ?F)) \<noteq> {}" using row by auto
  then obtain winner losers where sorted: "rev (sort_key flow_rank ?F) = winner # losers" by (cases "rev (sort_key flow_rank ?F)") auto
  have members: "set ?F = insert winner (set losers)"
    using arg_cong [OF sorted, of set] by simp
  have ids: "distinct (map cp_checkpoint_id ?F)" using ok by (simp add: cards_ok_def distinct_map_filter)
  have "distinct (map cp_checkpoint_id (winner # losers))"
    unfolding sorted [symmetric] rev_map [symmetric] distinct_rev
    using ids by (metis distinct_map distinct_sort set_sort)
  then have others: "cp_checkpoint_id r \<notin> cp_checkpoint_id ` set losers \<longleftrightarrow> r = winner" if "r \<in> set ?F" for r
    using that members by auto
  have clean_ids: "list_all (\<lambda>c. cp_checkpoint_id c \<noteq> [] \<and> py_strip (cp_checkpoint_id c) = cp_checkpoint_id c) losers"
    using ok members by (force simp: list_all_iff cards_ok_def)
  have "filter (in_flow project kind flow) (td_checkpoints (supersede_flow ck db project kind flow t)) =
      filter (\<lambda>r. cp_checkpoint_id r \<notin> cp_checkpoint_id ` set losers) ?F"
    unfolding supersede_flow_def sorted list.case by (rule supersede_all_flow [OF clean_ids])
  also have "\<dots> = filter (\<lambda>r. r = winner) ?F" using others by (intro filter_cong) auto
  also have "\<dots> = [winner]" using ids members by (intro filter_is_single) (auto simp: distinct_map)
  finally have single: "filter (in_flow project kind flow) (td_checkpoints (supersede_flow ck db project kind flow t)) = [winner]" .
  have ascending: "sort_key flow_rank ?F = rev losers @ [winner]" using arg_cong [OF sorted, of rev] by simp
  have "sorted (map flow_rank (rev losers @ [winner]))" unfolding ascending [symmetric] by simp
  then have "\<forall>r\<in>set ?F. flow_rank r \<le> flow_rank winner" using members by (auto simp: sorted_append)
  with single members show ?thesis by auto
qed

text \<open>C9. Publication leaves exactly one answerable card in the flow.  When a publication with
  supersession creates its card, one pending card of that project, type and supersession key is left,
  whatever was pending before: the one with the greatest order, domain key and id among the cards that
  waited and the new one, so a slow producer's older question cannot displace a newer one.\<close>

theorem one_answerable_card_per_flow:
  assumes ok: "cards_ok db"
    and op: "publish_owner_interaction_checkpoint ck sp db cp key True flow order t = (Inr (persisted, True), db')"
    and flow: "py_strip flow \<noteq> []"
  shows "\<exists>winner. filter (in_flow (cp_project_id persisted) (cp_type persisted) (py_strip flow)) (td_checkpoints db') = [winner] \<and>
    map (max 0) (if order = [] then [0] else order) \<le> owner_interaction_supersession_order (card_interaction winner) \<and>
    (\<forall>r\<in>set (td_checkpoints db). in_flow (cp_project_id persisted) (cp_type persisted) (py_strip flow) r \<longrightarrow>
       flow_rank r \<le> flow_rank winner)"
proof -
  let ?order = "map (max 0) (if order = [] then [0] else order)"
  from op obtain payload row db1 where
    payload: "publication_payload (cp_payload cp) (py_strip key) (py_strip flow) ?order = Inr payload"
    and row: "row = cp\<lparr>cp_checkpoint_id := py_strip (cp_checkpoint_id cp), cp_project_id := clean_project_id (cp_project_id cp),
        cp_type := py_strip (cp_type cp), cp_status := ''pending'', cp_payload := payload\<rparr>"
    and k: "owner_type (cp_type row)" "cp_checkpoint_id row \<noteq> []" "checkpoint_row db (cp_checkpoint_id row) = None"
    and db1: "db1 = db\<lparr>td_checkpoints := td_checkpoints db @ [row]\<rparr>"
    and db': "db' = supersede_flow ck db1 (cp_project_id row) (cp_type row) (py_strip flow) t"
    and persisted: "select_execution_checkpoint (td_checkpoints db') (cp_checkpoint_id row) (cp_project_id row) (Some (cp_type row)) = Some persisted"
    using flow by (auto elim!: published)
  have same: "cp_project_id persisted = cp_project_id row" "cp_type persisted = cp_type row"
    using persisted by (auto simp: select_execution_checkpoint_def find_Some_iff)
  have new: "card_ok row" using publication_payload_fresh(1) [OF payload]
    by (auto simp: row card_ok_def decision_of_def card_interaction_def)
  have ok1: "cards_ok db1" unfolding db1
    by (rule cards_ok_append [OF ok k(3)]) (use k(2) in \<open>simp_all add: row new [unfolded row]\<close>)
  have inf: "row \<in> set (td_checkpoints db1)" "in_flow (cp_project_id row) (cp_type row) (py_strip flow) row"
    using publication_payload_fresh(3) [OF payload flow] by (simp_all add: db1 in_flow_def row card_interaction_def)
  from flow_winner [OF ok1 this, of ck t] obtain winner where
    w: "filter (in_flow (cp_project_id row) (cp_type row) (py_strip flow)) (td_checkpoints db') = [winner]"
    and most: "\<And>r. r \<in> set (td_checkpoints db1) \<Longrightarrow> in_flow (cp_project_id row) (cp_type row) (py_strip flow) r \<Longrightarrow>
       flow_rank r \<le> flow_rank winner"
    by (auto simp: db')
  have "owner_interaction_supersession_order (card_interaction row) = ?order"
    using publication_payload_fresh(4) [OF payload]
    by (auto simp: owner_interaction_supersession_order_def row card_interaction_def dget_or_def dget_def comp_def
        split: option.splits)
  with most [OF inf] have "?order \<le> owner_interaction_supersession_order (card_interaction winner)"
    by (auto simp: flow_rank_def less_eq_prod_def)
  with w most show ?thesis unfolding same by (auto simp: db1)
qed

definition older_question_db :: tool_db where
  "older_question_db = no_cards\<lparr>td_checkpoints := [(question ''q9'')\<lparr>cp_payload :=
     [(''interaction'', PDict [(''domain_key'', PStr ''turn9''), (''supersession_key'', PStr ''flow''),
        (''supersession_order'', PList [PInt 9])])]\<rparr>]\<rparr>"

theorem one_answerable_card_per_flow_witness:
  "case publish_owner_interaction_checkpoint tally_clock ''p''
      older_question_db (question ''q2'') ''turn2'' True ''flow'' [2] 1 of
     (r, db') \<Rightarrow> map cp_checkpoint_id (filter (in_flow ''p'' ''route_clarification'' ''flow'') (td_checkpoints db')) = [''q9''] \<and>
       (\<exists>winner. filter (in_flow ''p'' ''route_clarification'' ''flow'') (td_checkpoints db') = [winner])"
proof -
  let ?pub = "publish_owner_interaction_checkpoint tally_clock ''p'' older_question_db (question ''q2'') ''turn2'' True ''flow'' [2] 1"
  have ok: "cards_ok older_question_db" by code_simp
  have "case fst ?pub of Inl e \<Rightarrow> False | Inr (cp, created) \<Rightarrow> created \<and> cp_project_id cp = ''p'' \<and> cp_type cp = ''route_clarification''"
    by code_simp
  then obtain cp db' where pub: "?pub = (Inr (cp, True), db')" "cp_project_id cp = ''p''" "cp_type cp = ''route_clarification''"
    by (cases ?pub) (auto split: sum.splits)
  have flow: "py_strip ''flow'' = ''flow''" by code_simp
  have ids: "map cp_checkpoint_id (filter (in_flow ''p'' ''route_clarification'' ''flow'') (td_checkpoints (snd ?pub))) = [''q9'']"
    by code_simp
  from one_answerable_card_per_flow [OF ok pub(1)] flow pub ids show ?thesis by auto
qed

section \<open>Repeated answers\<close>

lemma find_only: "x \<in> set xs \<Longrightarrow> P x \<Longrightarrow> (\<And>y. y \<in> set xs \<Longrightarrow> P y \<Longrightarrow> y = x) \<Longrightarrow> find P xs = Some x"
proof (induction xs)
  case (Cons y ys)
  show ?case
  proof (cases "P y")
    case True
    with Cons.prems(3) [of y] show ?thesis by simp
  next
    case False
    have "find P ys = Some x"
    proof (rule Cons.IH)
      show "x \<in> set ys" using Cons.prems(1,2) False by (cases "x = y") simp_all
      show "P x" by (rule Cons.prems(2))
      show "z = x" if "z \<in> set ys" "P z" for z by (rule Cons.prems(3)) (simp_all add: that)
    qed
    with False show ?thesis by simp
  qed
qed simp

lemma accepted_record:
  assumes ok: "cards_ok db"
    and op: "accept_execution_checkpoint_decision ck sp db cid project kind rq hash decision t = (Inr rc, db')"
    and outcome: "rc_outcome rc = ''accepted''"
  obtains cp cp' d where
    "owner_row sp db (py_strip cid) (clean_project_id project) (py_strip kind) (py_strip rq \<noteq> [] \<and> py_strip hash \<noteq> []) = Inr (Some cp)"
    "checkpoint_row db' (py_strip cid) = Some cp'" "cp_project_id cp' = cp_project_id cp" "cp_type cp' = cp_type cp"
    "dget (card_interaction cp') ''decision'' = PDict d" "raw_text d ''decision_hash'' = py_strip hash"
    "dget d ''value'' = decision"
proof -
  from with_card_okE [OF op [unfolded accept_execution_checkpoint_decision_def Let_def]] outcome obtain cp where
    head: "owner_row sp db (py_strip cid) (clean_project_id project) (py_strip kind) (py_strip rq \<noteq> [] \<and> py_strip hash \<noteq> []) = Inr (Some cp)"
    and body: "(case dget (card_interaction cp) ''decision'' of
              PDict existing \<Rightarrow>
                (Inr (receipt_of (if same_decision existing (py_strip hash) decision then ''duplicate'' else ''conflict'')
                        (Some cp) []), db)
            | _ \<Rightarrow>
                if cp_status cp \<noteq> ''pending'' then (Inr (receipt_of ''invalid_state'' (Some cp) []), db)
                else record_answer ck db cp (clean_project_id project) (py_strip kind) (py_strip rq) (py_strip hash)
                       decision t) = (Inr rc, db')"
    by auto
  have pending: "cp_status cp = ''pending''" and
    rest: "record_answer ck db cp (clean_project_id project) (py_strip kind) (py_strip rq) (py_strip hash) decision t = (Inr rc, db')"
    using body outcome by (auto simp: receipt_of_def split: pyval.splits if_splits)
  let ?d = "decision_record_of ck (py_strip kind) (py_strip rq) (py_strip hash) decision t"
  let ?p = "put_interaction (dset ''decision'' (PDict ?d) (card_interaction cp)) (cp_payload cp)"
  note cp = owner_row_Some [OF ok head]
  have w: "write_card db cp [''pending''] ''answered'' ?p t = Some db'"
    using rest outcome unfolding record_answer_def Let_def by (auto simp: receipt_of_def split: option.splits sum.splits)
  from row_written [OF w refl] cp pending
  have "checkpoint_row db' (py_strip cid) = Some (checkpoint_with ''answered'' ?p t cp)" by simp
  then show ?thesis
    by (rule that [OF head]) (auto simp: decision_record_of_def Let_def)
qed

text \<open>Submitting an answer is idempotent, and a different answer never replaces it.  After a
  decision was accepted, a second submission for the card, with any request id and at any time, changes
  nothing; it is a duplicate exactly when its hash and its value are those accepted, a conflict
  otherwise.\<close>

theorem repeated_answers_are_duplicates:
  assumes "cards_ok db"
    "accept_execution_checkpoint_decision ck sp db cid project kind rq hash decision t = (Inr rc, db')"
    "rc_outcome rc = ''accepted''" "py_strip rq2 \<noteq> []" "py_strip hash2 \<noteq> []"
  shows "\<exists>cp. accept_execution_checkpoint_decision ck sp db' cid project kind rq2 hash2 decision2 t2 =
    (Inr (receipt_of (if py_strip hash2 = py_strip hash \<and> py_eq decision decision2 then ''duplicate'' else ''conflict'')
       (Some cp) []), db')"
proof -
  from accepted_record [OF assms(1-3)] obtain cp cp' d where
    head: "owner_row sp db (py_strip cid) (clean_project_id project) (py_strip kind) (py_strip rq \<noteq> [] \<and> py_strip hash \<noteq> []) = Inr (Some cp)"
    and row: "checkpoint_row db' (py_strip cid) = Some cp'" "cp_project_id cp' = cp_project_id cp" "cp_type cp' = cp_type cp"
    and d: "dget (card_interaction cp') ''decision'' = PDict d" "raw_text d ''decision_hash'' = py_strip hash"
      "dget d ''value'' = decision" .
  note cp = owner_row_Some [OF assms(1) head]
  have "select_execution_checkpoint (td_checkpoints db') (py_strip cid) (clean_project_id project) (Some (py_strip kind)) = Some cp'"
  proof -
    have ok': "cards_ok db'" using accept_steps [OF assms(1,2)] by (simp add: cards_step_def)
    have "cp' \<in> set (td_checkpoints db')" "cp_checkpoint_id cp' = py_strip cid"
      using row(1) checkpoint_row_iff [OF ok'] by auto
    moreover have "q = cp'" if "q \<in> set (td_checkpoints db')" "cp_checkpoint_id q = py_strip cid" for q
      using that row(1) checkpoint_row_iff [OF ok', of "py_strip cid" q] by simp
    ultimately show ?thesis
      unfolding select_execution_checkpoint_def
    proof (intro find_only)
      show "cp_checkpoint_id cp' = py_strip cid \<and> cp_project_id cp' = clean_project_id project \<and>
          (case Some (py_strip kind) of None \<Rightarrow> True | Some k \<Rightarrow> cp_type cp' = k)"
        using row(2,3) cp(4,5) \<open>cp_checkpoint_id cp' = py_strip cid\<close> by simp
    qed blast+
  qed
  with head assms(4,5) have "owner_row sp db' (py_strip cid) (clean_project_id project) (py_strip kind)
      (py_strip rq2 \<noteq> [] \<and> py_strip hash2 \<noteq> []) = Inr (Some cp')"
    by (auto simp: owner_row_def bind_result_Inr_iff split: if_splits)
  then show ?thesis
    by (auto simp: accept_execution_checkpoint_decision_def Let_def with_card_def d same_decision_def)
qed

definition pending_db :: tool_db where
  "pending_db = no_cards\<lparr>td_checkpoints := [question ''q1'']\<rparr>"

theorem repeated_answers_are_duplicates_witness:
  "let db' = snd (accept_execution_checkpoint_decision tally_clock ''p'' pending_db ''q1'' ''p'' ''route_clarification'' ''r1'' ''h1''
                    (PStr ''left'') 1)
   in \<exists>cp. accept_execution_checkpoint_decision tally_clock ''p'' db' ''q1'' ''p'' ''route_clarification'' ''r2'' ''h2'' (PStr ''right'') 9 =
        (Inr (receipt_of ''conflict'' (Some cp) []), db')"
proof -
  let ?acc = "accept_execution_checkpoint_decision tally_clock ''p'' pending_db ''q1'' ''p'' ''route_clarification'' ''r1'' ''h1'' (PStr ''left'') 1"
  have ok: "cards_ok pending_db" by code_simp
  have "case fst ?acc of Inl e \<Rightarrow> False | Inr rc \<Rightarrow> rc_outcome rc = ''accepted''" by code_simp
  then obtain rc db' where acc: "?acc = (Inr rc, db')" "rc_outcome rc = ''accepted''"
    by (cases ?acc) (auto split: sum.splits)
  have strip: "py_strip ''r2'' \<noteq> []" "py_strip ''h2'' \<noteq> []" "py_strip ''h2'' \<noteq> py_strip ''h1''" by code_simp+
  from repeated_answers_are_duplicates [OF ok acc strip(1,2), of "PStr ''right''" 9] strip(3) acc(1)
  show ?thesis by (simp add: Let_def)
qed

section \<open>Source sequences\<close>

text \<open>The order of source events is stable and strictly grows.  Asking again for the number of an
  event returns the same number and changes nothing, and an event that is new gets a number greater
  than every number given before in its scope.\<close>

theorem source_sequences_grow:
  assumes "allocate_owner_interaction_source_sequence sp rows project scope event = (Inr n, rows')"
  shows "allocate_owner_interaction_source_sequence sp rows' project scope event = (Inr n, rows') \<and>
    (rows' = rows \<or>
     rows' = rows @ [(clean_project_id project, py_strip scope, py_strip event, n)] \<and>
     (\<forall>e m. (clean_project_id project, py_strip scope, e, m) \<in> set rows \<longrightarrow> m < n))"
proof -
  let ?P = "clean_project_id project" and ?S = "py_strip scope" and ?E = "py_strip event"
  let ?key = "\<lambda>(p, s, e, n). p = ?P \<and> s = ?S \<and> e = ?E"
  let ?used = "map (\<lambda>(p, s, e, n). n) (filter (\<lambda>(p, s, e, n). p = ?P \<and> s = ?S) rows)"
  have args: "?S \<noteq> []" "?E \<noteq> []" "assert_project_write_scope sp ?P = Inr ()"
    using assms by (auto simp: allocate_owner_interaction_source_sequence_def Let_def split: if_splits sum.splits)
  show ?thesis
  proof (cases "find ?key rows")
    case (Some r)
    then obtain p s e m where r: "r = (p, s, e, m)" by (cases r)
    with Some assms args show ?thesis
      by (auto simp: allocate_owner_interaction_source_sequence_def Let_def)
  next
    case None
    have n: "n = (case ?used of [] \<Rightarrow> 0 | m # ms \<Rightarrow> fold max ms m) + 1" "rows' = rows @ [(?P, ?S, ?E, n)]"
      using None assms args by (auto simp: allocate_owner_interaction_source_sequence_def Let_def)
    have top: "m \<le> (case ms of [] \<Rightarrow> 0 | x # xs \<Rightarrow> fold max xs x)" if "m \<in> set ms" for m :: int and ms
      using that by (cases ms) (auto simp: Max.set_eq_fold [symmetric])
    have "m < n" if "(?P, ?S, e, m) \<in> set rows" for e m
    proof -
      have "m \<in> set ?used" using that by force
      from top [OF this] show ?thesis by (simp add: n(1))
    qed
    moreover have "find ?key rows' = Some (?P, ?S, ?E, n)"
      using None by (simp add: n(2) find_append)
    ultimately show ?thesis using args n(2)
      by (auto simp: allocate_owner_interaction_source_sequence_def Let_def)
  qed
qed

theorem source_sequences_grow_witness:
  "allocate_owner_interaction_source_sequence ''p'' [(''p'', ''s'', ''e1'', 4)] ''p'' ''s'' ''e2'' =
     (Inr 5, [(''p'', ''s'', ''e1'', 4), (''p'', ''s'', ''e2'', 5)]) \<and>
   allocate_owner_interaction_source_sequence ''p'' [(''p'', ''s'', ''e1'', 4), (''p'', ''s'', ''e2'', 5)] ''p'' ''s'' ''e2'' =
     (Inr 5, [(''p'', ''s'', ''e1'', 4), (''p'', ''s'', ''e2'', 5)])"
proof -
  have one: "allocate_owner_interaction_source_sequence ''p'' [(''p'', ''s'', ''e1'', 4)] ''p'' ''s'' ''e2'' =
     (Inr 5, [(''p'', ''s'', ''e1'', 4), (''p'', ''s'', ''e2'', 5)])" by code_simp
  from source_sequences_grow [OF this] one show ?thesis by simp
qed

end
