(* ===== verification/ReorgProposals.thy ===== *)
theory ReorgProposals
  imports OwnerSafety
begin

text \<open>
  Reorganization proposals: rows of \<open>reorg_proposals\<close> and the commands of
  \<open>opc/database/store.py\<close> that create a proposal together with the owner's card, decide it by the
  answer on that card, and elect the one controller that applies it.  The rows are kept beside the
  tables of \<open>tool_db\<close>; a command that touches both runs in one transaction.
\<close>

section \<open>Data\<close>

datatype reorg_scope = TASK_ADJUSTMENT | ORG_MUTATION

datatype reorg_risk_level = REORG_LOW | REORG_MEDIUM | REORG_HIGH

datatype reorg_status =
    RP_PROPOSED | RP_APPROVED | RP_APPLYING | RP_DENIED | RP_APPLIED | RP_FAILED
  | RP_EXECUTION_UNKNOWN | RP_CANCELLED

fun reorg_scope_value :: "reorg_scope \<Rightarrow> string" where
  "reorg_scope_value TASK_ADJUSTMENT = ''task_adjustment''"
| "reorg_scope_value ORG_MUTATION = ''org_mutation''"

fun reorg_status_value :: "reorg_status \<Rightarrow> string" where
  "reorg_status_value RP_PROPOSED = ''proposed''"
| "reorg_status_value RP_APPROVED = ''approved''"
| "reorg_status_value RP_APPLYING = ''applying''"
| "reorg_status_value RP_DENIED = ''denied''"
| "reorg_status_value RP_APPLIED = ''applied''"
| "reorg_status_value RP_FAILED = ''failed''"
| "reorg_status_value RP_EXECUTION_UNKNOWN = ''execution_unknown''"
| "reorg_status_value RP_CANCELLED = ''cancelled''"

record reorg_role_change =
  xr_action :: string
  xr_role_id :: string
  xr_replacement_role_id :: "string option"
  xr_role :: pydict
  xr_reason :: string

record reorg_task_adjustment =
  xa_task_id :: string
  xa_action :: string
  xa_new_role_id :: "string option"
  xa_priority :: "int option"
  xa_description_append :: string
  xa_acceptance_criteria :: "string list"
  xa_metadata :: pydict

record reorg_changeset =
  xs_role_changes :: "reorg_role_change list"
  xs_task_adjustments :: "reorg_task_adjustment list"
  xs_metadata :: pydict

record reorg_migration_plan =
  mp_affected_task_ids :: "string list"
  mp_affected_checkpoint_ids :: "string list"
  mp_affected_handoff_ids :: "string list"
  mp_role_mapping :: pydict
  mp_invalidated_waits :: "string list"
  mp_migration_notes :: "string list"
  mp_compatibility_warnings :: "string list"
  mp_rollback_snapshot_id :: "string option"
  mp_metadata :: pydict

record reorg_proposal =
  rp_proposal_id :: string
  rp_project_id :: string
  rp_session_id :: "string option"
  rp_task_id :: "string option"
  rp_initiated_by :: string
  rp_source_role_id :: string
  rp_scope :: reorg_scope
  rp_risk_level :: reorg_risk_level
  rp_status :: reorg_status
  rp_title :: string
  rp_summary :: string
  rp_rationale :: string
  rp_user_confirmation_required :: bool
  rp_old_org_version :: int
  rp_new_org_version :: int
  rp_old_runtime_topology_version :: int
  rp_new_runtime_topology_version :: int
  rp_changeset :: reorg_changeset
  rp_migration_plan :: reorg_migration_plan
  rp_impact_summary :: pydict
  rp_approval_notes :: string
  rp_metadata :: pydict
  rp_created_at :: int
  rp_updated_at :: int

record reorg_db =
  rd_tools :: tool_db
  rd_proposals :: "reorg_proposal list"

record reorg_receipt =
  rr_outcome :: string
  rr_operation_token :: string
  rr_proposal :: "reorg_proposal option"

definition reorg_receipt_of :: "string \<Rightarrow> string \<Rightarrow> reorg_proposal option \<Rightarrow> reorg_receipt" where
  "reorg_receipt_of outcome token p =
     \<lparr>rr_outcome = outcome, rr_operation_token = token, rr_proposal = p\<rparr>"

definition receipt_applied :: "reorg_receipt \<Rightarrow> bool" where
  "receipt_applied r \<longleftrightarrow> rr_outcome r \<in> {''applied'', ''duplicate''}"

text \<open>What a row gives back: the topology versions have no column.\<close>

definition row_to_reorg_proposal :: "reorg_proposal \<Rightarrow> reorg_proposal" where
  "row_to_reorg_proposal p =
     p\<lparr>rp_initiated_by := (if rp_initiated_by p = [] then ''owner'' else rp_initiated_by p),
       rp_old_org_version := (if rp_old_org_version p = 0 then 1 else rp_old_org_version p),
       rp_new_org_version := (if rp_new_org_version p = 0 then 1 else rp_new_org_version p),
       rp_old_runtime_topology_version := 1, rp_new_runtime_topology_version := 1\<rparr>"

definition proposal_row :: "reorg_db \<Rightarrow> string \<Rightarrow> reorg_proposal option" where
  "proposal_row db pid = find (\<lambda>p. rp_proposal_id p = pid) (rd_proposals db)"

definition get_reorg_proposal :: "reorg_db \<Rightarrow> string \<Rightarrow> reorg_proposal option" where
  "get_reorg_proposal db pid = map_option row_to_reorg_proposal (proposal_row db pid)"

definition update_proposals ::
  "reorg_db \<Rightarrow> string \<Rightarrow> reorg_status \<Rightarrow> (reorg_proposal \<Rightarrow> reorg_proposal) \<Rightarrow> nat \<times> reorg_db" where
  \<comment> \<open>\<open>UPDATE reorg_proposals SET ... WHERE proposal_id = ? AND status = ?\<close>\<close>
  "update_proposals db pid expected f =
     (let hit = (\<lambda>p. rp_proposal_id p = pid \<and> rp_status p = expected)
      in (length (filter hit (rd_proposals db)),
          db\<lparr>rd_proposals := map (\<lambda>p. if hit p then f p else p) (rd_proposals db)\<rparr>))"

section \<open>Creation\<close>

definition same_role_change :: "reorg_role_change \<Rightarrow> reorg_role_change \<Rightarrow> bool" where
  "same_role_change a b \<longleftrightarrow>
     a\<lparr>xr_role := []\<rparr> = b\<lparr>xr_role := []\<rparr> \<and> py_eq (PDict (xr_role a)) (PDict (xr_role b))"

definition same_task_adjustment :: "reorg_task_adjustment \<Rightarrow> reorg_task_adjustment \<Rightarrow> bool" where
  "same_task_adjustment a b \<longleftrightarrow>
     a\<lparr>xa_metadata := []\<rparr> = b\<lparr>xa_metadata := []\<rparr> \<and> py_eq (PDict (xa_metadata a)) (PDict (xa_metadata b))"

definition same_changeset :: "reorg_changeset \<Rightarrow> reorg_changeset \<Rightarrow> bool" where
  "same_changeset a b \<longleftrightarrow>
     list_all2 same_role_change (xs_role_changes a) (xs_role_changes b) \<and>
     list_all2 same_task_adjustment (xs_task_adjustments a) (xs_task_adjustments b) \<and>
     py_eq (PDict (xs_metadata a)) (PDict (xs_metadata b))"

definition same_create_identity :: "reorg_proposal \<Rightarrow> reorg_proposal \<Rightarrow> bool" where
  \<comment> \<open>equal values of \<open>_reorg_proposal_create_identity\<close>\<close>
  "same_create_identity a b \<longleftrightarrow>
     rp_proposal_id a = rp_proposal_id b \<and> rp_project_id a = rp_project_id b \<and>
     rp_session_id a = rp_session_id b \<and> rp_task_id a = rp_task_id b \<and>
     rp_initiated_by a = rp_initiated_by b \<and> rp_source_role_id a = rp_source_role_id b \<and>
     rp_scope a = rp_scope b \<and> rp_risk_level a = rp_risk_level b \<and>
     rp_title a = rp_title b \<and> rp_summary a = rp_summary b \<and> rp_rationale a = rp_rationale b \<and>
     rp_user_confirmation_required a = rp_user_confirmation_required b \<and>
     rp_old_org_version a = rp_old_org_version b \<and> rp_new_org_version a = rp_new_org_version b \<and>
     same_changeset (rp_changeset a) (rp_changeset b)"

definition persisted_system_authority :: "reorg_proposal \<Rightarrow> bool" where
  "persisted_system_authority p \<longleftrightarrow> dget (rp_metadata p) ''system_decision_authorized'' = PBool True"

definition system_path :: "reorg_proposal \<Rightarrow> bool" where
  \<comment> \<open>the fixed low-risk adjustment that needs no owner\<close>
  "system_path p \<longleftrightarrow>
     rp_scope p = TASK_ADJUSTMENT \<and> rp_risk_level p = REORG_LOW \<and> persisted_system_authority p"

definition proposal_admissible :: "reorg_proposal \<Rightarrow> checkpoint option \<Rightarrow> bool \<Rightarrow> bool" where
  "proposal_admissible p owner_cp system \<longleftrightarrow>
     rp_status p = RP_PROPOSED \<and> rp_user_confirmation_required p = (owner_cp \<noteq> None) \<and>
     (if rp_user_confirmation_required p then \<not> system \<and> \<not> persisted_system_authority p
      else system \<and> system_path p)"

definition proposal_card_ok :: "reorg_proposal \<Rightarrow> checkpoint \<Rightarrow> bool" where
  "proposal_card_ok p cp \<longleftrightarrow>
     cp_type cp = ''company_reorg_pending'' \<and> cp_project_id cp = rp_project_id p \<and>
     opt_raw (cp_session_id cp) = opt_raw (rp_session_id p) \<and>
     opt_raw (cp_task_id cp) = opt_raw (rp_task_id p) \<and>
     cp_status cp \<in> {[], ''pending''} \<and>
     clean (dget (card_interaction cp) ''domain_key'') \<noteq> [] \<and>
     raw_text (cp_payload cp) ''proposal_id'' = rp_proposal_id p \<and>
     \<not> list_ex (dhas (card_interaction cp)) [''decision'', ''claim'', ''completion'', ''execution'']"

text \<open>The row of a new proposal, or the row that makes the call a retry.\<close>

definition proposal_inserted :: "reorg_db \<Rightarrow> reorg_proposal \<Rightarrow> (reorg_proposal \<times> bool \<times> reorg_db) result" where
  "proposal_inserted db p =
     (case get_reorg_proposal db (rp_proposal_id p) of
        Some row \<Rightarrow> if same_create_identity row p then Inr (row, False, db) else Inl RuntimeError
      | None \<Rightarrow> Inr (p, True, db\<lparr>rd_proposals := rd_proposals db @ [p]\<rparr>))"

definition publish_proposal_card ::
  "clock \<Rightarrow> string \<Rightarrow> tool_db \<Rightarrow> reorg_proposal \<Rightarrow> checkpoint \<Rightarrow> int \<Rightarrow> (checkpoint \<times> bool) result \<times> tool_db" where
  "publish_proposal_card ck store_project tools p cp now =
     (let interaction = card_interaction cp
      in case bind_result (list_or_empty (dget interaction ''supersession_order'')) (map_result py_int) of
           Inl e \<Rightarrow> (Inl e, tools)
         | Inr order \<Rightarrow>
             (case publish_owner_interaction_checkpoint ck store_project tools cp
                     (clean (dget interaction ''domain_key'')) True
                     (clean (dget interaction ''supersession_key'')) order now of
                (Inl e, _) \<Rightarrow> (Inl e, tools)
              | (Inr (persisted, fresh), tools') \<Rightarrow>
                  if raw_text (cp_payload persisted) ''proposal_id'' \<noteq> rp_proposal_id p
                  then (Inl RuntimeError, tools) else (Inr (persisted, fresh), tools')))"

text \<open>The wait marker of the task, in the transaction of its card.\<close>

definition mark_waiting_task :: "string \<Rightarrow> tool_db \<Rightarrow> reorg_proposal \<Rightarrow> tool_db result" where
  "mark_waiting_task store_project tools p =
     (let st = td_store tools; tid = opt_text (rp_task_id p)
      in case (if tid = [] then None else task_row st tid) of
           None \<Rightarrow> Inr tools
         | Some t \<Rightarrow>
             if clean_project_id (tk_project_id t) \<noteq> rp_project_id p then Inl RuntimeError
             else
               (case save_task_row store_project st (t\<lparr>tk_metadata :=
                       dset ''pending_reorg_scope'' (PStr (reorg_scope_value (rp_scope p)))
                         (dset ''pending_reorg_proposal_id'' (PStr (rp_proposal_id p)) (tk_metadata t))\<rparr>) of
                  (Inl e, _, _) \<Rightarrow> Inl e
                | (Inr _, _, st') \<Rightarrow> Inr (tools\<lparr>td_store := st'\<rparr>)))"

definition proposal_card_published ::
  "clock \<Rightarrow> string \<Rightarrow> tool_db \<Rightarrow> reorg_proposal \<Rightarrow> reorg_proposal \<Rightarrow> checkpoint \<Rightarrow> int
     \<Rightarrow> (checkpoint \<times> bool \<times> tool_db) result" where
  "proposal_card_published ck store_project tools p persisted cp now =
     (case publish_proposal_card ck store_project tools p cp now of
        (Inl e, _) \<Rightarrow> Inl e
      | (Inr (owner_cp, fresh), tools') \<Rightarrow>
          bind_result
            (if rp_status persisted = RP_PROPOSED \<and> cp_status owner_cp \<in> {''pending'', ''answered'', ''consuming''}
             then mark_waiting_task store_project tools' p else Inr tools')
            (\<lambda>marked. Inr (owner_cp, fresh, marked)))"

definition create_reorg_proposal ::
  "clock \<Rightarrow> string \<Rightarrow> reorg_db \<Rightarrow> reorg_proposal \<Rightarrow> checkpoint option \<Rightarrow> bool \<Rightarrow> int
     \<Rightarrow> (reorg_proposal \<times> bool \<times> checkpoint option \<times> bool) result \<times> reorg_db" where
  "create_reorg_proposal ck store_project db p owner_cp system now =
     (if \<not> proposal_admissible p owner_cp system \<or> (\<exists>cp\<in>set_option owner_cp. \<not> proposal_card_ok p cp)
      then (Inl ValueError, db)
      else case bind_result (assert_project_write_scope store_project (rp_project_id p))
                  (\<lambda>_. proposal_inserted db p) of
        Inl e \<Rightarrow> (Inl e, db)
      | Inr (persisted, created, db1) \<Rightarrow>
          (case owner_cp of
             None \<Rightarrow> (Inr (persisted, created, None, False), db1)
           | Some cp \<Rightarrow>
               (case proposal_card_published ck store_project (rd_tools db1) p persisted cp now of
                  Inl e \<Rightarrow> (Inl e, db)
                | Inr (published, fresh, tools) \<Rightarrow>
                    (Inr (persisted, created, Some published, fresh), db1\<lparr>rd_tools := tools\<rparr>))))"

definition create_reorg_proposal_with_interaction ::
  "clock \<Rightarrow> string \<Rightarrow> reorg_db \<Rightarrow> reorg_proposal \<Rightarrow> checkpoint option \<Rightarrow> int
     \<Rightarrow> (reorg_proposal \<times> bool \<times> checkpoint option \<times> bool) result \<times> reorg_db" where
  "create_reorg_proposal_with_interaction ck store_project db p owner_cp now =
     (if owner_cp = None then (Inl ValueError, db)
      else create_reorg_proposal ck store_project db p owner_cp False now)"

definition create_system_task_adjustment_proposal ::
  "clock \<Rightarrow> string \<Rightarrow> reorg_db \<Rightarrow> reorg_proposal \<Rightarrow> int
     \<Rightarrow> (reorg_proposal \<times> bool \<times> checkpoint option \<times> bool) result \<times> reorg_db" where
  "create_system_task_adjustment_proposal ck store_project db p now =
     create_reorg_proposal ck store_project db p None True now"

section \<open>The decision\<close>

definition APPROVED_TOKENS :: "string list" where
  "APPROVED_TOKENS = [''y'', ''yes'', ''ok'', ''okay'', ''approve'', ''approved'', ''confirm'', ''continue'',
     ''proceed'', ''go'']"

definition DENIED_TOKENS :: "string list" where
  "DENIED_TOKENS = [''n'', ''no'', ''deny'', ''denied'', ''reject'', ''rejected'', ''stop'', ''cancel'', ''abort'']"

definition decision_token :: "pydict \<Rightarrow> string" where
  \<comment> \<open>the word of the owner's answer\<close>
  "decision_token value =
     (let raw = py_or (dget value ''option_id'') (py_or (dget value ''checkpoint_reply_kind'')
                  (py_or (dget value ''text'') (PStr [])))
      in py_lower (py_strip (py_str raw)))"

definition answer_token :: "pyval \<Rightarrow> string result" where
  \<comment> \<open>the word in a decision record\<close>
  "answer_token decision =
     bind_result (dict_or_empty decision) (\<lambda>record.
     bind_result (dict_or_empty (dget record ''value'')) (\<lambda>value. Inr (decision_token value)))"

definition answer_says :: "bool \<Rightarrow> string \<Rightarrow> bool" where
  "answer_says approved word \<longleftrightarrow> word \<in> set (if approved then APPROVED_TOKENS else DENIED_TOKENS)"

definition names_claim :: "pydict \<Rightarrow> string \<Rightarrow> string \<Rightarrow> bool" where
  "names_claim d claim_id consumer_id \<longleftrightarrow>
     raw_text d ''claim_id'' = claim_id \<and> raw_text d ''consumer_id'' = consumer_id"

definition owner_decided ::
  "checkpoint \<Rightarrow> string \<Rightarrow> bool \<Rightarrow> string \<Rightarrow> string \<Rightarrow> bool result" where
  \<comment> \<open>the card names the proposal, the caller holds or held its claim, and the answer says the same\<close>
  "owner_decided cp pid approved claim_id consumer_id =
     (let interaction = card_interaction cp
      in bind_result (dict_or_empty (dget interaction ''claim'')) (\<lambda>claim.
         bind_result (dict_or_empty (dget interaction ''completion'')) (\<lambda>completion.
         bind_result (answer_token (dget interaction ''decision'')) (\<lambda>word.
         Inr (dget (cp_payload cp) ''proposal_id'' = PStr pid \<and>
              cp_status cp \<in> {''consuming'', ''resolved''} \<and>
              (names_claim claim claim_id consumer_id \<or> names_claim completion claim_id consumer_id) \<and>
              answer_says approved word)))))"

definition decision_authorized ::
  "reorg_db \<Rightarrow> reorg_proposal \<Rightarrow> string \<Rightarrow> bool \<Rightarrow> string \<Rightarrow> string \<Rightarrow> string \<Rightarrow> bool \<Rightarrow> bool result" where
  "decision_authorized db p pid approved checkpoint_id claim_id consumer_id system =
     (if rp_user_confirmation_required p then
        if checkpoint_id = [] \<or> claim_id = [] \<or> consumer_id = [] then Inr False
        else case select_execution_checkpoint (td_checkpoints (rd_tools db)) checkpoint_id
                    (rp_project_id p) (Some ''company_reorg_pending'') of
               None \<Rightarrow> Inr False
             | Some cp \<Rightarrow> owner_decided cp pid approved claim_id consumer_id
      else Inr (system \<and> system_path p))"

definition or_text :: "string \<Rightarrow> string \<Rightarrow> string" where
  "or_text a b = (if a = [] then b else a)"

definition decided :: "bool \<Rightarrow> string \<Rightarrow> int \<Rightarrow> reorg_proposal \<Rightarrow> reorg_proposal" where
  "decided approved notes now p =
     p\<lparr>rp_status := (if approved then RP_APPROVED else RP_DENIED),
       rp_approval_notes := or_text notes (rp_approval_notes p), rp_updated_at := now\<rparr>"

definition decide_reorg_proposal_as ::
  "reorg_db \<Rightarrow> string \<Rightarrow> bool \<Rightarrow> string \<Rightarrow> string \<Rightarrow> string \<Rightarrow> string \<Rightarrow> bool \<Rightarrow> int
     \<Rightarrow> reorg_receipt result \<times> reorg_db" where
  "decide_reorg_proposal_as db pid approved notes checkpoint_id claim_id consumer_id system now =
     (case get_reorg_proposal db pid of
        None \<Rightarrow> (Inr (reorg_receipt_of ''not_found'' [] None), db)
      | Some p \<Rightarrow>
          (case decision_authorized db p pid approved checkpoint_id claim_id consumer_id system of
             Inl e \<Rightarrow> (Inl e, db)
           | Inr authorized \<Rightarrow>
               if \<not> authorized then (Inr (reorg_receipt_of ''conflict'' [] (Some p)), db)
               else if rp_status p = (if approved then RP_APPROVED else RP_DENIED)
               then (Inr (reorg_receipt_of ''duplicate'' [] (Some p)), db)
               else if rp_status p \<noteq> RP_PROPOSED then (Inr (reorg_receipt_of ''conflict'' [] (Some p)), db)
               else
                 let (n, db') = update_proposals db pid RP_PROPOSED (decided approved notes now)
                 in if n \<noteq> 1 then (Inr (reorg_receipt_of ''conflict'' [] None), db)
                    else (Inr (reorg_receipt_of ''applied'' [] (Some (decided approved notes now p))), db')))"

definition decide_reorg_proposal ::
  "reorg_db \<Rightarrow> string \<Rightarrow> bool \<Rightarrow> string \<Rightarrow> string \<Rightarrow> string \<Rightarrow> string \<Rightarrow> int \<Rightarrow> reorg_receipt result \<times> reorg_db" where
  "decide_reorg_proposal db pid approved notes checkpoint_id claim_id consumer_id now =
     decide_reorg_proposal_as db pid approved notes checkpoint_id claim_id consumer_id False now"

definition decide_system_task_adjustment_proposal ::
  "reorg_db \<Rightarrow> string \<Rightarrow> bool \<Rightarrow> string \<Rightarrow> int \<Rightarrow> reorg_receipt result \<times> reorg_db" where
  "decide_system_task_adjustment_proposal db pid approved notes now =
     decide_reorg_proposal_as db pid approved notes [] [] [] True now"

section \<open>The application\<close>

definition application_of :: "reorg_proposal \<Rightarrow> pydict" where
  "application_of p = permit_of (dget (rp_metadata p) ''application_claim'')"

definition with_application :: "pydict \<Rightarrow> reorg_proposal \<Rightarrow> reorg_proposal" where
  "with_application d p = p\<lparr>rp_metadata := dset ''application_claim'' (PDict d) (rp_metadata p)\<rparr>"

definition claim_reorg_application ::
  "clock \<Rightarrow> reorg_db \<Rightarrow> string \<Rightarrow> string \<Rightarrow> int \<Rightarrow> reorg_receipt result \<times> reorg_db" where
  "claim_reorg_application ck db pid operation_token now =
     (let token = py_strip operation_token
      in if token = [] then (Inl ValueError, db)
         else case get_reorg_proposal db pid of
           None \<Rightarrow> (Inr (reorg_receipt_of ''not_found'' token None), db)
         | Some p \<Rightarrow>
             if rp_status p = RP_APPLIED then (Inr (reorg_receipt_of ''applied'' token (Some p)), db)
             else if rp_status p = RP_APPLYING
             then (Inr (reorg_receipt_of
                     (if raw_text (application_of p) ''operation_token'' = token then ''duplicate'' else ''busy'')
                     token (Some p)), db)
             else if rp_status p \<noteq> RP_APPROVED
             then (Inr (reorg_receipt_of ''invalid_state'' token (Some p)), db)
             else
               let claimed = with_application [(''operation_token'', PStr token), (''state'', PStr ''applying''),
                               (''started_at'', stamp ck now)] p;
                   (n, db') = update_proposals db pid RP_APPROVED
                     (\<lambda>row. row\<lparr>rp_status := RP_APPLYING, rp_metadata := rp_metadata claimed, rp_updated_at := now\<rparr>)
               in if n \<noteq> 1 then (Inr (reorg_receipt_of ''busy'' token None), db)
                  else (Inr (reorg_receipt_of ''acquired'' token
                          (Some (claimed\<lparr>rp_status := RP_APPLYING, rp_updated_at := now\<rparr>))), db'))"

definition elected :: "reorg_proposal \<Rightarrow> string \<Rightarrow> bool" where
  \<comment> \<open>the token is the one that holds the application\<close>
  "elected p token \<longleftrightarrow>
     rp_status p = RP_APPLYING \<and> raw_text (application_of p) ''operation_token'' = token"

definition finish_reorg_application ::
  "clock \<Rightarrow> reorg_db \<Rightarrow> reorg_proposal \<Rightarrow> string \<Rightarrow> int \<Rightarrow> reorg_receipt result \<times> reorg_db" where
  "finish_reorg_application ck db p operation_token now =
     (let token = py_strip operation_token
      in if token = [] then (Inl ValueError, db)
         else case get_reorg_proposal db (rp_proposal_id p) of
           None \<Rightarrow> (Inr (reorg_receipt_of ''not_found'' token None), db)
         | Some row \<Rightarrow>
             if rp_status row = RP_APPLIED then (Inr (reorg_receipt_of ''duplicate'' token (Some row)), db)
             else if \<not> elected row token then (Inr (reorg_receipt_of ''ownership_lost'' token (Some row)), db)
             else if rp_status p \<noteq> RP_APPLIED then (Inl ValueError, db)
             else
               let done_p = (with_application (dupdate (application_of row)
                              [(''state'', PStr ''applied''), (''completed_at'', stamp ck now)]) p)\<lparr>rp_updated_at := now\<rparr>;
                   (n, db') = update_proposals db (rp_proposal_id p) RP_APPLYING
                     (\<lambda>r. r\<lparr>rp_status := rp_status done_p, rp_old_org_version := rp_old_org_version done_p,
                            rp_new_org_version := rp_new_org_version done_p, rp_changeset := rp_changeset done_p,
                            rp_migration_plan := rp_migration_plan done_p,
                            rp_impact_summary := rp_impact_summary done_p,
                            rp_approval_notes := rp_approval_notes done_p,
                            rp_metadata := rp_metadata done_p, rp_updated_at := now\<rparr>)
               in if n \<noteq> 1 then (Inr (reorg_receipt_of ''ownership_lost'' token None), db)
                  else (Inr (reorg_receipt_of ''applied'' token (Some done_p)), db'))"

definition fail_reorg_application ::
  "clock \<Rightarrow> reorg_db \<Rightarrow> string \<Rightarrow> string \<Rightarrow> bool \<Rightarrow> string \<Rightarrow> int \<Rightarrow> reorg_receipt result \<times> reorg_db" where
  "fail_reorg_application ck db pid operation_token effect_started message now =
     (let token = py_strip operation_token
      in if token = [] then (Inl ValueError, db)
         else case get_reorg_proposal db pid of
           None \<Rightarrow> (Inr (reorg_receipt_of ''not_found'' token None), db)
         | Some p \<Rightarrow>
             if \<not> elected p token then (Inr (reorg_receipt_of ''ownership_lost'' token (Some p)), db)
             else
               let final = (if effect_started then RP_EXECUTION_UNKNOWN else RP_FAILED);
                   closed_p = with_application (dupdate (application_of p)
                     [(''state'', PStr (reorg_status_value final)), (''completed_at'', stamp ck now),
                      (''error'', PStr (take 2000 message))]) p;
                   (n, db') = update_proposals db pid RP_APPLYING
                     (\<lambda>row. row\<lparr>rp_status := final, rp_metadata := rp_metadata closed_p, rp_updated_at := now\<rparr>)
               in if n \<noteq> 1 then (Inr (reorg_receipt_of ''ownership_lost'' token None), db)
                  else (Inr (reorg_receipt_of ''applied'' token
                          (Some (closed_p\<lparr>rp_status := final, rp_updated_at := now\<rparr>))), db'))"

end
