(* ===== verification/ReorgSafety.thy ===== *)
theory ReorgSafety
  imports ReorgProposals
begin

text \<open>
  What the commands on proposals guarantee over any history that mixes them with the operations on
  the owner's cards.  The locale \<open>proposal_machine\<close> is the contract: a command moves a proposal along
  the abstract stages, and announces an election or a settlement only for the step it made.  The
  guarantees about the owner's answer come from the contract of the cards, because the tables of
  tools change through card operations only.
\<close>

section \<open>The stages of a proposal\<close>

datatype stage = Asked | Agreed | Refused | Held string | Carried | Broken | Uncertain | Withdrawn

definition stage_of :: "reorg_proposal \<Rightarrow> stage" where
  "stage_of p =
     (case rp_status p of
        RP_PROPOSED \<Rightarrow> Asked | RP_APPROVED \<Rightarrow> Agreed | RP_DENIED \<Rightarrow> Refused
      | RP_APPLYING \<Rightarrow> Held (raw_text (application_of p) ''operation_token'')
      | RP_APPLIED \<Rightarrow> Carried | RP_FAILED \<Rightarrow> Broken | RP_EXECUTION_UNKNOWN \<Rightarrow> Uncertain
      | RP_CANCELLED \<Rightarrow> Withdrawn)"

text \<open>One step by a caller with the operation token \<open>who\<close> (empty for a decision).\<close>

inductive stage_step :: "string \<Rightarrow> stage \<Rightarrow> stage \<Rightarrow> bool" for who where
  agree: "stage_step who Asked Agreed"
| refuse: "stage_step who Asked Refused"
| elect: "stage_step who Agreed (Held who)"
| carry_out: "stage_step who (Held who) Carried"
| give_up: "stage_step who (Held who) Broken"
| lose_track: "stage_step who (Held who) Uncertain"

inductive_cases stage_stepE: "stage_step who a b"

fun stage_rank :: "stage \<Rightarrow> nat" where
  "stage_rank Asked = 0"
| "stage_rank Agreed = 1"
| "stage_rank (Held token) = 2"
| "stage_rank _ = 3"

lemma stage_step_rank: "stage_step who a b \<Longrightarrow> stage_rank a < stage_rank b"
  by (erule stage_stepE) auto

lemma stage_step_final: "stage_step who a b \<Longrightarrow> stage_rank a < 3"
  by (erule stage_stepE) auto

datatype reorg_event = Elected string string | Settled string string

definition event_ok :: "(string \<Rightarrow> reorg_proposal option) \<Rightarrow> (string \<Rightarrow> reorg_proposal option) \<Rightarrow> reorg_event \<Rightarrow> bool" where
  \<comment> \<open>the event tells the step between the rows of before and after\<close>
  "event_ok rows rows' e \<longleftrightarrow>
     (case e of
        Elected pid token \<Rightarrow>
          (\<exists>p p'. rows pid = Some p \<and> rows' pid = Some p' \<and> stage_of p = Agreed \<and> stage_of p' = Held token)
      | Settled pid token \<Rightarrow>
          (\<exists>p p'. rows pid = Some p \<and> rows' pid = Some p' \<and> stage_of p = Held token \<and>
                  stage_of p' \<in> {Carried, Broken, Uncertain}))"

definition is_election :: "string \<Rightarrow> reorg_event \<Rightarrow> bool" where
  "is_election pid e \<longleftrightarrow> (case e of Elected q _ \<Rightarrow> q = pid | _ \<Rightarrow> False)"

locale proposal_machine =
  fixes step :: "'op \<times> int \<Rightarrow> 's \<Rightarrow> reorg_event list \<times> 's"
    and row :: "'s \<Rightarrow> string \<Rightarrow> reorg_proposal option"
    and ok :: "'s \<Rightarrow> bool"
    and who :: "'op \<Rightarrow> string"
    and admissible :: "'op \<Rightarrow> bool"
  assumes keeps_ok: "ok db \<Longrightarrow> admissible x \<Longrightarrow> step (x, t) db = (es, db') \<Longrightarrow> ok db'"
    and moves: "ok db \<Longrightarrow> admissible x \<Longrightarrow> step (x, t) db = (es, db') \<Longrightarrow> row db pid = Some p \<Longrightarrow>
      \<exists>p'. row db' pid = Some p' \<and> rp_user_confirmation_required p' = rp_user_confirmation_required p \<and>
           (stage_of p' = stage_of p \<or> stage_step (who x) (stage_of p) (stage_of p'))"
    and announces: "ok db \<Longrightarrow> admissible x \<Longrightarrow> step (x, t) db = (es, db') \<Longrightarrow>
      es = [] \<or> (\<exists>e. es = [e] \<and> event_ok (row db) (row db') e)"
    and elections: "ok db \<Longrightarrow> admissible x \<Longrightarrow> step (x, t) db = (es, db') \<Longrightarrow> row db' pid = Some p' \<Longrightarrow>
      stage_of p' = Held token \<Longrightarrow>
      Elected pid token \<in> set es \<or> (\<exists>p. row db pid = Some p \<and> stage_of p = Held token)"
begin

lemma run_ok: "ok db \<Longrightarrow> list_all (\<lambda>x. admissible (fst x)) xs \<Longrightarrow> ok (snd (run_ops step xs db))"
proof (induction xs arbitrary: db)
  case (Cons x xs)
  obtain es db1 where one: "step x db = (es, db1)" by (cases "step x db")
  have "ok db1" using keeps_ok [of db "fst x" "snd x" es db1] Cons.prems one by simp
  with Cons.IH [of db1] Cons.prems(2) show ?case unfolding snd_run_ops_Cons by (simp add: one)
qed simp

text \<open>The stages only move forward, and the flag of a proposal stays.\<close>

lemma run_moves:
  assumes "ok db" "list_all (\<lambda>x. admissible (fst x)) xs" "row db pid = Some p"
  shows "\<exists>p'. row (snd (run_ops step xs db)) pid = Some p' \<and>
    rp_user_confirmation_required p' = rp_user_confirmation_required p \<and>
    (stage_of p' = stage_of p \<or> stage_rank (stage_of p) < 3 \<and> stage_rank (stage_of p) < stage_rank (stage_of p'))"
  using assms
proof (induction xs arbitrary: db p)
  case (Cons x xs)
  obtain es db1 where one: "step x db = (es, db1)" by (cases "step x db")
  have adm: "admissible (fst x)" "list_all (\<lambda>x. admissible (fst x)) xs" and x: "step (fst x, snd x) db = (es, db1)"
    using Cons.prems(2) one by simp_all
  from moves [OF Cons.prems(1) adm(1) x Cons.prems(3)] obtain p1 where p1: "row db1 pid = Some p1"
    "rp_user_confirmation_required p1 = rp_user_confirmation_required p"
    "stage_of p1 = stage_of p \<or> stage_step (who (fst x)) (stage_of p) (stage_of p1)" by blast
  from Cons.IH [OF keeps_ok [OF Cons.prems(1) adm(1) x] adm(2) p1(1)] p1(2,3)
    stage_step_rank [of "who (fst x)" "stage_of p" "stage_of p1"] stage_step_final [of "who (fst x)" "stage_of p" "stage_of p1"]
  show ?case unfolding snd_run_ops_Cons one by fastforce
qed simp

lemma run_stays:
  assumes "ok db" "list_all (\<lambda>x. admissible (fst x)) xs" "row db pid = Some p" "stage_of p \<in> S"
    and closed: "\<And>who a b. stage_step who a b \<Longrightarrow> a \<in> S \<Longrightarrow> b \<in> S"
  shows "\<exists>p'. row (snd (run_ops step xs db)) pid = Some p' \<and> stage_of p' \<in> S"
  using assms(1-4)
proof (induction xs arbitrary: db p)
  case (Cons x xs)
  obtain es db1 where one: "step x db = (es, db1)" by (cases "step x db")
  have adm: "admissible (fst x)" "list_all (\<lambda>x. admissible (fst x)) xs" and x: "step (fst x, snd x) db = (es, db1)"
    using Cons.prems(2) one by simp_all
  from moves [OF Cons.prems(1) adm(1) x Cons.prems(3)] obtain p1 where p1: "row db1 pid = Some p1"
    "stage_of p1 = stage_of p \<or> stage_step (who (fst x)) (stage_of p) (stage_of p1)" by blast
  then have "stage_of p1 \<in> S" using Cons.prems(4) closed by metis
  from Cons.IH [OF keeps_ok [OF Cons.prems(1) adm(1) x] adm(2) p1(1) this] show ?case
    unfolding snd_run_ops_Cons one by simp
qed simp

text \<open>An agreed proposal elects one operation, and none later.\<close>

lemma elected_once:
  assumes "ok db" "list_all (\<lambda>x. admissible (fst x)) xs" "run_ops step xs db = (es, db')"
  shows "length (filter (is_election pid) es) \<le> 1 \<and>
    (\<forall>p. row db pid = Some p \<and> 2 \<le> stage_rank (stage_of p) \<longrightarrow> filter (is_election pid) es = [])"
  using assms
proof (induction xs arbitrary: db es)
  case (Cons x xs)
  obtain s db1 where one: "step x db = (s, db1)" by (cases "step x db")
  obtain es' where rest: "run_ops step xs db1 = (es', db')" and es: "es = s @ es'"
    using Cons.prems(3) by (auto simp: one Let_def split: prod.splits)
  have adm: "admissible (fst x)" "list_all (\<lambda>x. admissible (fst x)) xs" and x: "step (fst x, snd x) db = (s, db1)"
    using Cons.prems(2) one by simp_all
  have ok1: "ok db1" by (rule keeps_ok [OF Cons.prems(1) adm(1) x])
  note IH = Cons.IH [OF ok1 adm(2) rest]
  show ?case
  proof (cases "filter (is_election pid) s = []")
    case True
    have "2 \<le> stage_rank (stage_of p) \<Longrightarrow> filter (is_election pid) es' = []" if "row db pid = Some p" for p
      using moves [OF Cons.prems(1) adm(1) x that] IH stage_step_rank [of "who (fst x)" "stage_of p"] by fastforce
    with True IH es show ?thesis by auto
  next
    case False
    with announces [OF Cons.prems(1) adm(1) x] obtain e where "s = [e]" "event_ok (row db) (row db1) e" by auto
    with False obtain token p p1 where s: "s = [Elected pid token]"
      and p: "row db pid = Some p" "stage_of p = Agreed" and p1: "row db1 pid = Some p1" "stage_of p1 = Held token"
      by (cases e) (auto simp: is_election_def event_ok_def split: if_splits)
    have "filter (is_election pid) es' = []" using IH p1 by auto
    with p s es show ?thesis by auto
  qed
qed simp

text \<open>What settles a proposal carries the token that was elected for it.\<close>

lemma settled_by_elected:
  assumes "ok db" "list_all (\<lambda>x. admissible (fst x)) xs" "run_ops step xs db = (es, db')"
    and "Settled pid token \<in> set es"
  shows "Elected pid token \<in> set es \<or> (\<exists>p. row db pid = Some p \<and> stage_of p = Held token)"
  using assms
proof (induction xs arbitrary: db es)
  case (Cons x xs)
  obtain s db1 where one: "step x db = (s, db1)" by (cases "step x db")
  obtain es' where rest: "run_ops step xs db1 = (es', db')" and es: "es = s @ es'"
    using Cons.prems(3) by (auto simp: one Let_def split: prod.splits)
  have adm: "admissible (fst x)" "list_all (\<lambda>x. admissible (fst x)) xs" and x: "step (fst x, snd x) db = (s, db1)"
    using Cons.prems(2) one by simp_all
  show ?case
  proof (cases "Settled pid token \<in> set s")
    case True
    with announces [OF Cons.prems(1) adm(1) x] show ?thesis by (auto simp: event_ok_def)
  next
    case False
    then have "Settled pid token \<in> set es'" using Cons.prems(4) es by simp
    from Cons.IH [OF keeps_ok [OF Cons.prems(1) adm(1) x] adm(2) rest this]
    consider "Elected pid token \<in> set es'" | p1 where "row db1 pid = Some p1" "stage_of p1 = Held token" by blast
    then show ?thesis
    proof cases
      case 2
      with elections [OF Cons.prems(1) adm(1) x 2] es show ?thesis by auto
    qed (simp add: es)
  qed
qed simp

end

section \<open>Rows\<close>

definition reorg_ok :: "reorg_db \<Rightarrow> bool" where
  "reorg_ok db \<longleftrightarrow> cards_ok (rd_tools db) \<and> distinct (map rp_proposal_id (rd_proposals db))"

lemma row_fields [simp]:
  "rp_proposal_id (row_to_reorg_proposal p) = rp_proposal_id p"
  "rp_status (row_to_reorg_proposal p) = rp_status p"
  "rp_metadata (row_to_reorg_proposal p) = rp_metadata p"
  "rp_user_confirmation_required (row_to_reorg_proposal p) = rp_user_confirmation_required p"
  "rp_project_id (row_to_reorg_proposal p) = rp_project_id p"
  by (simp_all add: row_to_reorg_proposal_def)

lemma row_application [simp]:
  "application_of (row_to_reorg_proposal p) = application_of p"
  "stage_of (row_to_reorg_proposal p) = stage_of p"
  "elected (row_to_reorg_proposal p) token = elected p token"
  by (simp_all add: application_of_def stage_of_def elected_def split: reorg_status.split)

lemma application_set [simp]: "application_of (with_application d p) = d"
  by (simp add: application_of_def with_application_def permit_of_def)

lemma proposal_row_id: "proposal_row db pid = Some p \<Longrightarrow> rp_proposal_id p = pid"
  by (auto simp: proposal_row_def find_Some_iff)

lemma one_row:
  "distinct (map rp_proposal_id ps) \<Longrightarrow> find (\<lambda>p. rp_proposal_id p = pid) ps = Some p \<Longrightarrow>
   filter (\<lambda>r. rp_proposal_id r = pid \<and> P r) ps = (if P p then [p] else [])"
proof (induction ps)
  case (Cons q ps)
  show ?case
  proof (cases "rp_proposal_id q = pid")
    case True
    then have "filter (\<lambda>r. rp_proposal_id r = pid \<and> P r) ps = []"
      using Cons.prems(1) by (auto simp: filter_empty_conv image_iff)
    with True Cons.prems(2) show ?thesis by simp
  qed (use Cons in simp)
qed simp

text \<open>An update of the row of one proposal, found with the status it was read with.\<close>

lemma updated_row:
  assumes "reorg_ok db" "proposal_row db pid = Some p"
    and "\<And>r. rp_proposal_id (f r) = rp_proposal_id r" "update_proposals db pid (rp_status p) f = (n, db')"
  shows "n = 1" "rd_tools db' = rd_tools db" "reorg_ok db'"
    "proposal_row db' q = (if q = pid then Some (f p) else proposal_row db q)"
proof -
  let ?hit = "\<lambda>r. rp_proposal_id r = pid \<and> rp_status r = rp_status p"
  from assms(4) have n: "n = length (filter ?hit (rd_proposals db))"
    and db': "db' = db\<lparr>rd_proposals := map (\<lambda>r. if ?hit r then f r else r) (rd_proposals db)\<rparr>"
    by (simp_all add: update_proposals_def Let_def)
  show "n = 1"
    using assms(1,2) n one_row [of "rd_proposals db" pid p] by (simp add: reorg_ok_def proposal_row_def)
  show "rd_tools db' = rd_tools db" by (simp add: db')
  have ids: "map rp_proposal_id (rd_proposals db') = map rp_proposal_id (rd_proposals db)"
    using assms(3) by (simp add: db')
  have "distinct (map rp_proposal_id (rd_proposals db'))" unfolding ids using assms(1) by (simp add: reorg_ok_def)
  then show "reorg_ok db'" using assms(1) \<open>rd_tools db' = rd_tools db\<close> by (simp add: reorg_ok_def)
  have "find (\<lambda>r. rp_proposal_id r = q) (rd_proposals db') =
      map_option (\<lambda>r. if ?hit r then f r else r) (find (\<lambda>r. rp_proposal_id r = q) (rd_proposals db))"
    unfolding db' reorg_db.select_convs reorg_db.update_convs by (simp add: find_map_put assms(3))
  then have e: "proposal_row db' q = map_option (\<lambda>r. if ?hit r then f r else r) (proposal_row db q)"
    by (simp add: proposal_row_def)
  show "proposal_row db' q = (if q = pid then Some (f p) else proposal_row db q)"
  proof (cases "proposal_row db q")
    case (Some r)
    then have "rp_proposal_id r = q" by (rule proposal_row_id)
    with Some e assms(2) show ?thesis by (cases "q = pid") auto
  qed (use e assms(2) in auto)
qed

section \<open>The commands, one by one\<close>

lemma update_known:
  assumes "reorg_ok db" "get_reorg_proposal db pid = Some q" "rp_status q = s"
    "\<And>r. rp_proposal_id (f r) = rp_proposal_id r"
  obtains p db' where "proposal_row db pid = Some p" "q = row_to_reorg_proposal p" "rp_status p = s"
    "update_proposals db pid s f = (1, db')" "rd_tools db' = rd_tools db" "reorg_ok db'"
    "\<And>r. proposal_row db' r = (if r = pid then Some (f p) else proposal_row db r)"
proof -
  from assms(2) obtain p where p: "proposal_row db pid = Some p" "q = row_to_reorg_proposal p"
    by (auto simp: get_reorg_proposal_def)
  then have st: "rp_status p = s" using assms(3) by simp
  obtain n db' where u: "update_proposals db pid (rp_status p) f = (n, db')" by fastforce
  note * = updated_row [OF assms(1) p(1) assms(4) u]
  show thesis using that [OF p st] u *(1) st *(2-4) by simp
qed

lemma decide_cases:
  assumes "reorg_ok db"
    "decide_reorg_proposal_as db pid approved notes cid claim_id consumer_id system now = (r, db')"
  obtains "db' = db"
  | p where "proposal_row db pid = Some p" "rp_status p = RP_PROPOSED"
      "decision_authorized db (row_to_reorg_proposal p) pid approved cid claim_id consumer_id system = Inr True"
      "rd_tools db' = rd_tools db" "reorg_ok db'"
      "\<And>q. proposal_row db' q = (if q = pid then Some (decided approved notes now p) else proposal_row db q)"
proof (cases "\<exists>q. get_reorg_proposal db pid = Some q \<and> rp_status q = RP_PROPOSED \<and>
    decision_authorized db q pid approved cid claim_id consumer_id system = Inr True")
  case False
  have "db' = db"
    using assms(2) False unfolding decide_reorg_proposal_as_def
    by (auto simp: Let_def split: option.splits sum.splits if_splits prod.splits)
  then show thesis by (rule that(1))
next
  case True
  then obtain q where q: "get_reorg_proposal db pid = Some q" "rp_status q = RP_PROPOSED"
    "decision_authorized db q pid approved cid claim_id consumer_id system = Inr True" by blast
  obtain p db1 where p: "proposal_row db pid = Some p" "q = row_to_reorg_proposal p" "rp_status p = RP_PROPOSED"
    "update_proposals db pid RP_PROPOSED (decided approved notes now) = (1, db1)" "rd_tools db1 = rd_tools db"
    "reorg_ok db1" "\<And>q. proposal_row db1 q = (if q = pid then Some (decided approved notes now p) else proposal_row db q)"
    by (rule update_known [OF assms(1) q(1,2), of "decided approved notes now"]) (simp_all add: decided_def)
  have "db' = db1" using assms(2) q p(4) by (simp add: decide_reorg_proposal_as_def Let_def split: if_splits)
  with p q(3) show thesis by (intro that(2) [of p]) simp_all
qed

definition announced :: "string \<Rightarrow> reorg_event \<Rightarrow> reorg_receipt result \<times> reorg_db \<Rightarrow> reorg_event list \<times> reorg_db" where
  \<comment> \<open>the event of a receipt with the outcome\<close>
  "announced outcome e r =
     ((case fst r of Inr rc \<Rightarrow> if rr_outcome rc = outcome then [e] else [] | Inl _ \<Rightarrow> []), snd r)"

lemma application_claim_cases:
  assumes "reorg_ok db" "claim_reorg_application ck db pid operation_token now = (r, db')"
  obtains "db' = db" "\<And>rc. r = Inr rc \<Longrightarrow> rr_outcome rc \<noteq> ''acquired''"
  | p q rc where "proposal_row db pid = Some p" "rp_status p = RP_APPROVED" "r = Inr rc" "rr_outcome rc = ''acquired''"
      "elected q (py_strip operation_token)"
      "rp_user_confirmation_required q = rp_user_confirmation_required p" "rd_tools db' = rd_tools db" "reorg_ok db'"
      "\<And>r. proposal_row db' r = (if r = pid then Some q else proposal_row db r)"
proof (cases "\<exists>q. py_strip operation_token \<noteq> [] \<and> get_reorg_proposal db pid = Some q \<and> rp_status q = RP_APPROVED")
  case False
  with assms(2) have "db' = db \<and> (\<forall>rc. r = Inr rc \<longrightarrow> rr_outcome rc \<noteq> ''acquired'')"
    unfolding claim_reorg_application_def
    by (auto simp: Let_def reorg_receipt_of_def split: option.splits if_splits prod.splits)
  then show thesis using that(1) by blast
next
  case True
  then obtain q where q: "py_strip operation_token \<noteq> []" "get_reorg_proposal db pid = Some q" "rp_status q = RP_APPROVED"
    by blast
  let ?claim = "[(''operation_token'', PStr (py_strip operation_token)), (''state'', PStr ''applying''), (''started_at'', stamp ck now)]"
  let ?f = "\<lambda>row. row\<lparr>rp_status := RP_APPLYING, rp_metadata := rp_metadata (with_application ?claim q), rp_updated_at := now\<rparr>"
  obtain p db1 where p: "proposal_row db pid = Some p" "q = row_to_reorg_proposal p" "rp_status p = RP_APPROVED"
    "update_proposals db pid RP_APPROVED ?f = (1, db1)" "rd_tools db1 = rd_tools db" "reorg_ok db1"
    "\<And>r. proposal_row db1 r = (if r = pid then Some (?f p) else proposal_row db r)"
    by (rule update_known [OF assms(1) q(2,3), of ?f]) simp_all
  have eq: "db' = db1 \<and> (\<exists>rc. r = Inr rc \<and> rr_outcome rc = ''acquired'')"
    using assms(2) q p(4) by (auto simp: claim_reorg_application_def Let_def reorg_receipt_of_def)
  have "application_of (?f p) = ?claim"
    by (simp add: application_of_def with_application_def permit_of_def)
  then have "elected (?f p) (py_strip operation_token)"
    using q(1) by (simp add: elected_def raw_text_def)
  with p q eq show thesis by (elim conjE exE) (rule that(2) [of p _ "?f p"], simp_all)
qed

text \<open>The two ways out of an application.\<close>

lemma application_finish_cases:
  assumes "reorg_ok db" "finish_reorg_application ck db p operation_token now = (r, db')"
  obtains "db' = db" "\<And>rc. r = Inr rc \<Longrightarrow> rr_outcome rc \<noteq> ''applied''"
  | p0 q rc where "proposal_row db (rp_proposal_id p) = Some p0" "elected p0 (py_strip operation_token)"
      "r = Inr rc" "rr_outcome rc = ''applied''" "rp_status q = RP_APPLIED"
      "rp_user_confirmation_required q = rp_user_confirmation_required p0" "rd_tools db' = rd_tools db" "reorg_ok db'"
      "\<And>r. proposal_row db' r = (if r = rp_proposal_id p then Some q else proposal_row db r)"
proof (cases "\<exists>q. py_strip operation_token \<noteq> [] \<and> get_reorg_proposal db (rp_proposal_id p) = Some q \<and>
    elected q (py_strip operation_token) \<and> rp_status p = RP_APPLIED")
  case False
  with assms(2) have "db' = db \<and> (\<forall>rc. r = Inr rc \<longrightarrow> rr_outcome rc \<noteq> ''applied'')"
    unfolding finish_reorg_application_def
    by (auto simp: Let_def reorg_receipt_of_def split: option.splits if_splits prod.splits)
  then show thesis using that(1) by blast
next
  case True
  then obtain q where q: "py_strip operation_token \<noteq> []" "get_reorg_proposal db (rp_proposal_id p) = Some q"
    "elected q (py_strip operation_token)" "rp_status p = RP_APPLIED" by blast
  then have st: "rp_status q = RP_APPLYING" by (simp add: elected_def)
  let ?d = "(with_application (dupdate (application_of q) [(''state'', PStr ''applied''), (''completed_at'', stamp ck now)]) p)
              \<lparr>rp_updated_at := now\<rparr>"
  let ?f = "\<lambda>r. r\<lparr>rp_status := rp_status ?d, rp_old_org_version := rp_old_org_version ?d,
               rp_new_org_version := rp_new_org_version ?d, rp_changeset := rp_changeset ?d,
               rp_migration_plan := rp_migration_plan ?d, rp_impact_summary := rp_impact_summary ?d,
               rp_approval_notes := rp_approval_notes ?d, rp_metadata := rp_metadata ?d, rp_updated_at := now\<rparr>"
  obtain p0 db1 where p0: "proposal_row db (rp_proposal_id p) = Some p0" "q = row_to_reorg_proposal p0"
    "rp_status p0 = RP_APPLYING" "update_proposals db (rp_proposal_id p) RP_APPLYING ?f = (1, db1)"
    "rd_tools db1 = rd_tools db" "reorg_ok db1"
    "\<And>r. proposal_row db1 r = (if r = rp_proposal_id p then Some (?f p0) else proposal_row db r)"
    by (rule update_known [OF assms(1) q(2) st, of ?f]) simp_all
  have eq: "db' = db1 \<and> (\<exists>rc. r = Inr rc \<and> rr_outcome rc = ''applied'')"
    using assms(2) q st p0(4) by (auto simp: finish_reorg_application_def Let_def reorg_receipt_of_def)
  have "rp_status (?f p0) = RP_APPLIED" using q(4) by (simp add: with_application_def)
  with p0 q eq show thesis by (elim conjE exE) (rule that(2) [of p0 _ "?f p0"], simp_all)
qed

lemma application_fail_cases:
  assumes "reorg_ok db" "fail_reorg_application ck db pid operation_token effect_started message now = (r, db')"
  obtains "db' = db" "\<And>rc. r = Inr rc \<Longrightarrow> rr_outcome rc \<noteq> ''applied''"
  | p0 q rc where "proposal_row db pid = Some p0" "elected p0 (py_strip operation_token)"
      "r = Inr rc" "rr_outcome rc = ''applied''"
      "rp_status q = (if effect_started then RP_EXECUTION_UNKNOWN else RP_FAILED)"
      "rp_user_confirmation_required q = rp_user_confirmation_required p0" "rd_tools db' = rd_tools db" "reorg_ok db'"
      "\<And>r. proposal_row db' r = (if r = pid then Some q else proposal_row db r)"
proof (cases "\<exists>q. py_strip operation_token \<noteq> [] \<and> get_reorg_proposal db pid = Some q \<and> elected q (py_strip operation_token)")
  case False
  with assms(2) have "db' = db \<and> (\<forall>rc. r = Inr rc \<longrightarrow> rr_outcome rc \<noteq> ''applied'')"
    unfolding fail_reorg_application_def
    by (auto simp: Let_def reorg_receipt_of_def split: option.splits if_splits prod.splits)
  then show thesis using that(1) by blast
next
  case True
  then obtain q where q: "py_strip operation_token \<noteq> []" "get_reorg_proposal db pid = Some q"
    "elected q (py_strip operation_token)" by blast
  then have st: "rp_status q = RP_APPLYING" by (simp add: elected_def)
  let ?final = "if effect_started then RP_EXECUTION_UNKNOWN else RP_FAILED"
  let ?d = "with_application (dupdate (application_of q) [(''state'', PStr (reorg_status_value ?final)),
      (''completed_at'', stamp ck now), (''error'', PStr (take 2000 message))]) q"
  let ?f = "\<lambda>row. row\<lparr>rp_status := ?final, rp_metadata := rp_metadata ?d, rp_updated_at := now\<rparr>"
  obtain p0 db1 where p0: "proposal_row db pid = Some p0" "q = row_to_reorg_proposal p0" "rp_status p0 = RP_APPLYING"
    "update_proposals db pid RP_APPLYING ?f = (1, db1)" "rd_tools db1 = rd_tools db" "reorg_ok db1"
    "\<And>r. proposal_row db1 r = (if r = pid then Some (?f p0) else proposal_row db r)"
    by (rule update_known [OF assms(1) q(2) st, of ?f]) simp_all
  have eq: "db' = db1 \<and> (\<exists>rc. r = Inr rc \<and> rr_outcome rc = ''applied'')"
    using assms(2) q p0(4) unfolding fail_reorg_application_def Let_def by (auto simp: reorg_receipt_of_def)
  with p0 q show thesis by (elim conjE exE) (rule that(2) [of p0 _ "?f p0"], simp_all)
qed

text \<open>A change of the tables of tools that card operations can make.\<close>

definition tools_run :: "clock \<Rightarrow> string \<Rightarrow> tool_db \<Rightarrow> tool_db \<Rightarrow> bool" where
  "tools_run ck sp tools tools' \<longleftrightarrow>
     (\<exists>xs. list_all (\<lambda>x. op_ok (fst x)) xs \<and> snd (run_ops (card_op_step ck sp) xs tools) = tools')"

lemma tools_run_refl: "tools_run ck sp tools tools"
  unfolding tools_run_def by (intro exI [of _ "[]"]) simp

lemma tools_run_trans: "tools_run ck sp a b \<Longrightarrow> tools_run ck sp b c \<Longrightarrow> tools_run ck sp a c"
proof (unfold tools_run_def, elim exE conjE)
  fix xs ys
  assume "list_all (\<lambda>x. op_ok (fst x)) xs" "snd (run_ops (card_op_step ck sp) xs a) = b"
    "list_all (\<lambda>x. op_ok (fst x)) ys" "snd (run_ops (card_op_step ck sp) ys b) = c"
  then show "\<exists>zs. list_all (\<lambda>x. op_ok (fst x)) zs \<and> snd (run_ops (card_op_step ck sp) zs a) = c"
    by (intro exI [of _ "xs @ ys"]) (auto simp: run_ops_append Let_def split: prod.splits)
qed

lemma tools_run_op: "op_ok x \<Longrightarrow> card_op_step ck sp (x, now) a = (ss, b) \<Longrightarrow> tools_run ck sp a b"
  unfolding tools_run_def by (intro exI [of _ "[(x, now)]"]) simp

lemma tools_run_ok:
  assumes "tools_run ck sp a b" "cards_ok a"
  shows "cards_ok b"
proof -
  from assms(1) obtain xs where xs: "list_all (\<lambda>x. op_ok (fst x)) xs" "snd (run_ops (card_op_step ck sp) xs a) = b"
    by (auto simp: tools_run_def)
  obtain ss where "run_ops (card_op_step ck sp) xs a = (ss, b)" using xs(2) by (cases "run_ops (card_op_step ck sp) xs a") simp
  from owner.run_invariant [where P = "\<lambda>_. True", OF _ assms(2) xs(1) _ this] show ?thesis by simp
qed

lemma tools_run_decision:
  assumes "tools_run ck sp a b" "cards_ok a" "owner_card a cid = Some (k, c)" "card_decision c = Some d"
  shows "\<exists>c'. owner_card b cid = Some (k, c') \<and> card_decision c' = Some d"
proof -
  from assms(1) obtain xs where xs: "list_all (\<lambda>x. op_ok (fst x)) xs" "snd (run_ops (card_op_step ck sp) xs a) = b"
    by (auto simp: tools_run_def)
  obtain ss where "run_ops (card_op_step ck sp) xs a = (ss, b)" using xs(2) by (cases "run_ops (card_op_step ck sp) xs a") simp
  from owner.decision_stays [OF assms(2) xs(1) this assms(3,4)] show ?thesis by blast
qed

lemma tools_run_store: "tools_run ck sp tools (tools\<lparr>td_store := st\<rparr>)"
  by (rule tools_run_op [of "Elsewhere st (td_results tools) (td_continuations tools)"]) (simp_all add: op_ok_def)

lemma publish_runs:
  assumes "publish_proposal_card ck sp tools p cp now = (r, tools')"
  shows "tools_run ck sp tools tools'"
proof -
  have "tools' = tools \<or> (\<exists>key flow order r'.
      publish_owner_interaction_checkpoint ck sp tools cp key True flow order now = (r', tools'))"
    using assms unfolding publish_proposal_card_def by (auto simp: Let_def split: sum.splits prod.splits if_splits)
  then show ?thesis
  proof (elim disjE exE)
    fix key flow order r'
    assume "publish_owner_interaction_checkpoint ck sp tools cp key True flow order now = (r', tools')"
    then show ?thesis
      by (intro tools_run_op [of "Publish cp key True flow order" ck sp now _ "[]"]) (simp_all add: op_ok_def)
  qed (simp add: tools_run_refl)
qed

lemma mark_runs: "mark_waiting_task sp tools p = Inr tools' \<Longrightarrow> tools_run ck sp tools tools'"
  unfolding mark_waiting_task_def Let_def
  by (auto simp: tools_run_refl tools_run_store split: option.splits if_splits sum.splits prod.splits)

lemma published_runs:
  assumes "proposal_card_published ck sp tools p persisted cp now = Inr (published, fresh, tools')"
  shows "tools_run ck sp tools tools'"
proof -
  obtain r mid where pub: "publish_proposal_card ck sp tools p cp now = (r, mid)" by fastforce
  have "mid = tools' \<or> mark_waiting_task sp mid p = Inr tools'"
    using assms unfolding proposal_card_published_def pub
    by (auto simp: bind_result_Inr_iff split: sum.splits if_splits)
  then have "tools_run ck sp mid tools'" using mark_runs tools_run_refl by blast
  with publish_runs [OF pub] show ?thesis by (rule tools_run_trans)
qed

lemma create_cases:
  assumes "create_reorg_proposal ck sp db p owner_cp system now = (r, db')"
  obtains "db' = db"
  | "tools_run ck sp (rd_tools db) (rd_tools db')" "rd_proposals db' = rd_proposals db"
  | "tools_run ck sp (rd_tools db) (rd_tools db')" "proposal_row db (rp_proposal_id p) = None"
      "rp_status p = RP_PROPOSED" "rd_proposals db' = rd_proposals db @ [p]"
proof (cases r)
  case (Inl e)
  with assms have "db' = db"
    unfolding create_reorg_proposal_def by (auto split: if_splits sum.splits option.splits)
  then show thesis by (rule that(1))
next
  case (Inr x)
  with assms obtain persisted created db1 where ins: "proposal_inserted db p = Inr (persisted, created, db1)"
    and st: "rp_status p = RP_PROPOSED"
    and tools: "db' = db1 \<or> (\<exists>cp published fresh tools. owner_cp = Some cp \<and>
      proposal_card_published ck sp (rd_tools db1) p persisted cp now = Inr (published, fresh, tools) \<and>
      db' = db1\<lparr>rd_tools := tools\<rparr>)"
    unfolding create_reorg_proposal_def
    by (auto simp: bind_result_Inr_iff proposal_admissible_def split: if_splits sum.splits option.splits)
  from ins have row: "db1 = db \<or> proposal_row db (rp_proposal_id p) = None \<and> db1 = db\<lparr>rd_proposals := rd_proposals db @ [p]\<rparr>"
    by (auto simp: proposal_inserted_def get_reorg_proposal_def split: option.splits if_splits)
  from tools have run: "tools_run ck sp (rd_tools db1) (rd_tools db')" "rd_proposals db' = rd_proposals db1"
    using published_runs [of ck sp "rd_tools db1" p persisted _ now] by (auto simp: tools_run_refl)
  from row show thesis
  proof
    assume "db1 = db"
    with run show thesis by (intro that(2)) simp_all
  next
    assume "proposal_row db (rp_proposal_id p) = None \<and> db1 = db\<lparr>rd_proposals := rd_proposals db @ [p]\<rparr>"
    with run st show thesis by (intro that(3)) simp_all
  qed
qed

section \<open>Histories\<close>

datatype reorg_op =
    OwnerOp card_op
  | CreateProposal reorg_proposal "checkpoint option"
  | CreateAdjustment reorg_proposal
  | DecideProposal string bool string string string string
  | DecideAdjustment string bool string
  | ClaimApplication string string
  | FinishApplication reorg_proposal string
  | FailApplication string string bool string

definition reorg_token :: "reorg_op \<Rightarrow> string" where
  "reorg_token x =
     (case x of ClaimApplication _ token \<Rightarrow> py_strip token | FinishApplication _ token \<Rightarrow> py_strip token
      | FailApplication _ token _ _ \<Rightarrow> py_strip token | _ \<Rightarrow> [])"

definition reorg_op_ok :: "reorg_op \<Rightarrow> bool" where
  "reorg_op_ok x \<longleftrightarrow> (case x of OwnerOp y \<Rightarrow> op_ok y | _ \<Rightarrow> True)"

fun reorg_step :: "clock \<Rightarrow> string \<Rightarrow> reorg_op \<times> int \<Rightarrow> reorg_db \<Rightarrow> reorg_event list \<times> reorg_db" where
  "reorg_step ck sp (OwnerOp x, now) db = ([], db\<lparr>rd_tools := snd (card_op_step ck sp (x, now) (rd_tools db))\<rparr>)"
| "reorg_step ck sp (CreateProposal p cp, now) db = ([], snd (create_reorg_proposal_with_interaction ck sp db p cp now))"
| "reorg_step ck sp (CreateAdjustment p, now) db = ([], snd (create_system_task_adjustment_proposal ck sp db p now))"
| "reorg_step ck sp (DecideProposal pid approved notes cid claim_id consumer_id, now) db =
     ([], snd (decide_reorg_proposal db pid approved notes cid claim_id consumer_id now))"
| "reorg_step ck sp (DecideAdjustment pid approved notes, now) db =
     ([], snd (decide_system_task_adjustment_proposal db pid approved notes now))"
| "reorg_step ck sp (ClaimApplication pid token, now) db =
     announced ''acquired'' (Elected pid (py_strip token)) (claim_reorg_application ck db pid token now)"
| "reorg_step ck sp (FinishApplication p token, now) db =
     announced ''applied'' (Settled (rp_proposal_id p) (py_strip token)) (finish_reorg_application ck db p token now)"
| "reorg_step ck sp (FailApplication pid token effect_started message, now) db =
     announced ''applied'' (Settled pid (py_strip token))
       (fail_reorg_application ck db pid token effect_started message now)"

text \<open>What a command does to the proposals: nothing, one more row, or one step of one row.\<close>

definition one_move :: "string \<Rightarrow> reorg_event list \<Rightarrow> stage \<Rightarrow> stage \<Rightarrow> string \<Rightarrow> bool" where
  "one_move who es a b pid \<longleftrightarrow>
     stage_step who a b \<and>
     (es = [] \<and> a = Asked \<or> es = [Elected pid who] \<and> a = Agreed \<and> b = Held who \<or>
      es = [Settled pid who] \<and> a = Held who \<and> b \<in> {Carried, Broken, Uncertain})"

definition reorg_moved :: "clock \<Rightarrow> string \<Rightarrow> string \<Rightarrow> reorg_event list \<Rightarrow> reorg_db \<Rightarrow> reorg_db \<Rightarrow> bool" where
  "reorg_moved ck sp who es db db' \<longleftrightarrow>
     tools_run ck sp (rd_tools db) (rd_tools db') \<and>
     (rd_proposals db' = rd_proposals db \<and> es = [] \<or>
      (\<exists>p. proposal_row db (rp_proposal_id p) = None \<and> rp_status p = RP_PROPOSED \<and>
           rd_proposals db' = rd_proposals db @ [p] \<and> es = []) \<or>
      reorg_ok db' \<and>
      (\<exists>pid p p'. proposal_row db pid = Some p \<and>
         (\<forall>q. proposal_row db' q = (if q = pid then Some p' else proposal_row db q)) \<and>
         rp_user_confirmation_required p' = rp_user_confirmation_required p \<and>
         one_move who es (stage_of p) (stage_of p') pid))"

lemma reorg_same: "reorg_moved ck sp who [] db db"
  by (simp add: reorg_moved_def tools_run_refl)

lemma reorg_row_moved:
  assumes "rd_tools db' = rd_tools db" "reorg_ok db'" "proposal_row db pid = Some p"
    "\<And>q. proposal_row db' q = (if q = pid then Some p' else proposal_row db q)"
    "rp_user_confirmation_required p' = rp_user_confirmation_required p" "one_move who es (stage_of p) (stage_of p') pid"
  shows "reorg_moved ck sp who es db db'"
  unfolding reorg_moved_def using assms tools_run_refl by (intro conjI disjI2) (simp, blast+)

lemma create_moves:
  assumes "create_reorg_proposal ck sp db p owner_cp system now = (r, db')"
  shows "reorg_moved ck sp [] [] db db'"
  using assms
proof (cases rule: create_cases)
  case 1
  then show ?thesis by (simp add: reorg_same)
next
  case 2
  then show ?thesis by (simp add: reorg_moved_def)
next
  case 3
  then show ?thesis by (auto simp: reorg_moved_def)
qed

lemma decide_moves:
  assumes "reorg_ok db" "decide_reorg_proposal_as db pid approved note_text cid claim_id consumer_id system now = (r, db')"
  shows "reorg_moved ck sp [] [] db db'"
  using assms
proof (cases rule: decide_cases)
  case 1
  then show ?thesis by (simp add: reorg_same)
next
  case (2 p)
  show ?thesis
    by (rule reorg_row_moved [OF 2(4,5,1,6)])
       (use 2(2) in \<open>auto simp: decided_def stage_of_def one_move_def intro: stage_step.intros\<close>)
qed

lemma held: "elected p token \<longleftrightarrow> stage_of p = Held token"
  by (cases "rp_status p") (simp_all add: elected_def stage_of_def)

lemma claim_moves:
  assumes "reorg_ok db"
    "announced ''acquired'' (Elected pid (py_strip token)) (claim_reorg_application ck db pid token now) = (es, db')"
  shows "reorg_moved ck sp (py_strip token) es db db'"
proof -
  obtain r where r: "claim_reorg_application ck db pid token now = (r, db')"
    using assms(2) by (cases "claim_reorg_application ck db pid token now") (simp add: announced_def)
  then have es: "es = (case r of Inr rc \<Rightarrow> if rr_outcome rc = ''acquired'' then [Elected pid (py_strip token)] else [] | Inl _ \<Rightarrow> [])"
    using assms(2) by (simp add: announced_def)
  from assms(1) r show ?thesis
  proof (cases rule: application_claim_cases)
    case 1
    then have "es = []" using es by (cases r) auto
    with 1 show ?thesis by (simp add: reorg_same)
  next
    case (2 p q rc)
    show ?thesis
      by (rule reorg_row_moved [OF 2(7,8,1,9,6)])
         (use 2(2-5) es in \<open>auto simp: one_move_def held stage_of_def [of p] intro: stage_step.intros\<close>)
  qed
qed

lemma settle_moves:
  assumes "reorg_ok db" "x = (r, db')"
    and es: "announced ''applied'' (Settled pid token) x = (es, db')"
    and "db' = db \<and> (\<forall>rc. r = Inr rc \<longrightarrow> rr_outcome rc \<noteq> ''applied'') \<or>
      (\<exists>p q rc. proposal_row db pid = Some p \<and> elected p token \<and> r = Inr rc \<and> rr_outcome rc = ''applied'' \<and>
        rp_status q \<in> {RP_APPLIED, RP_FAILED, RP_EXECUTION_UNKNOWN} \<and>
        rp_user_confirmation_required q = rp_user_confirmation_required p \<and> rd_tools db' = rd_tools db \<and> reorg_ok db' \<and>
        (\<forall>r. proposal_row db' r = (if r = pid then Some q else proposal_row db r)))"
  shows "reorg_moved ck sp token es db db'"
  using assms(4)
proof (elim disjE exE conjE)
  assume 1: "db' = db" "\<forall>rc. r = Inr rc \<longrightarrow> rr_outcome rc \<noteq> ''applied''"
  then have "es = []" using assms(2) es by (cases r) (auto simp: announced_def)
  with 1 show ?thesis by (simp add: reorg_same)
next
  fix p q rc
  assume 2: "proposal_row db pid = Some p" "elected p token" "r = Inr rc" "rr_outcome rc = ''applied''"
    "rp_status q \<in> {RP_APPLIED, RP_FAILED, RP_EXECUTION_UNKNOWN}"
    "rp_user_confirmation_required q = rp_user_confirmation_required p" "rd_tools db' = rd_tools db" "reorg_ok db'"
    "\<forall>r. proposal_row db' r = (if r = pid then Some q else proposal_row db r)"
  have "es = [Settled pid token]" using 2(3,4) assms(2) es by (simp add: announced_def)
  moreover have "stage_of q \<in> {Carried, Broken, Uncertain}" using 2(5) by (auto simp: stage_of_def)
  ultimately show ?thesis
    using 2(2) by (intro reorg_row_moved [OF 2(7,8,1) _ 2(6)])
      (use 2(9) in \<open>auto simp: one_move_def held intro: stage_step.intros\<close>)
qed

lemma reorg_step_moves:
  assumes "reorg_ok db" "reorg_op_ok x" "reorg_step ck sp (x, now) db = (es, db')"
  shows "reorg_moved ck sp (reorg_token x) es db db'"
proof (cases x)
  case (OwnerOp y)
  then have "es = []" "rd_proposals db' = rd_proposals db"
    "tools_run ck sp (rd_tools db) (rd_tools db')"
    using assms(2,3) tools_run_op [of y ck sp now "rd_tools db" "fst (card_op_step ck sp (y, now) (rd_tools db))" "rd_tools db'"]
    by (auto simp: reorg_op_ok_def)
  then show ?thesis by (simp add: reorg_moved_def)
next
  case (CreateProposal p cp)
  obtain r where "create_reorg_proposal_with_interaction ck sp db p cp now = (r, db')" "es = []"
    using assms(3) CreateProposal by (cases "create_reorg_proposal_with_interaction ck sp db p cp now") simp
  then show ?thesis
    using create_moves [of ck sp db p cp False now r db'] reorg_same
    by (auto simp: create_reorg_proposal_with_interaction_def CreateProposal reorg_token_def split: if_splits)
next
  case (CreateAdjustment p)
  obtain r where "create_system_task_adjustment_proposal ck sp db p now = (r, db')" "es = []"
    using assms(3) CreateAdjustment by (cases "create_system_task_adjustment_proposal ck sp db p now") simp
  then show ?thesis
    using create_moves [of ck sp db p None True now r db']
    by (simp add: create_system_task_adjustment_proposal_def CreateAdjustment reorg_token_def)
next
  case (DecideProposal pid approved note_text cid claim_id consumer_id)
  obtain r where "decide_reorg_proposal db pid approved note_text cid claim_id consumer_id now = (r, db')" "es = []"
    using assms(3) DecideProposal by (cases "decide_reorg_proposal db pid approved note_text cid claim_id consumer_id now") simp
  then show ?thesis
    using decide_moves [OF assms(1), of pid approved note_text cid claim_id consumer_id False now r db']
    by (simp add: decide_reorg_proposal_def DecideProposal reorg_token_def)
next
  case (DecideAdjustment pid approved note_text)
  obtain r where "decide_system_task_adjustment_proposal db pid approved note_text now = (r, db')" "es = []"
    using assms(3) DecideAdjustment by (cases "decide_system_task_adjustment_proposal db pid approved note_text now") simp
  then show ?thesis
    using decide_moves [OF assms(1), of pid approved note_text "[]" "[]" "[]" True now r db']
    by (simp add: decide_system_task_adjustment_proposal_def DecideAdjustment reorg_token_def)
next
  case (ClaimApplication pid token)
  with assms(3) claim_moves [OF assms(1), of pid token ck now es db'] show ?thesis by (simp add: reorg_token_def)
next
  case (FinishApplication p token)
  obtain r where r: "finish_reorg_application ck db p token now = (r, db')"
    using assms(3) FinishApplication by (cases "finish_reorg_application ck db p token now") (simp add: announced_def)
  have "reorg_moved ck sp (py_strip token) es db db'"
    by (rule settle_moves [OF assms(1) r, of "rp_proposal_id p"])
       (use assms(3) FinishApplication in simp, use assms(1) r in \<open>cases rule: application_finish_cases, blast, blast\<close>)
  then show ?thesis by (simp add: FinishApplication reorg_token_def)
next
  case (FailApplication pid token effect_started message)
  obtain r where r: "fail_reorg_application ck db pid token effect_started message now = (r, db')"
    using assms(3) FailApplication
    by (cases "fail_reorg_application ck db pid token effect_started message now") (simp add: announced_def)
  have "reorg_moved ck sp (py_strip token) es db db'"
    by (rule settle_moves [OF assms(1) r, of pid])
       (use assms(3) FailApplication in simp, use assms(1) r in \<open>cases rule: application_fail_cases, blast, fastforce\<close>)
  then show ?thesis by (simp add: FailApplication reorg_token_def)
qed

lemma row_new:
  "rd_proposals db' = rd_proposals db @ [p] \<Longrightarrow>
   proposal_row db' q =
     (case proposal_row db q of Some r \<Rightarrow> Some r | None \<Rightarrow> if rp_proposal_id p = q then Some p else None)"
  by (simp add: proposal_row_def find_append split: option.splits)

lemma row_kept: "rd_proposals db' = rd_proposals db \<Longrightarrow> proposal_row db' q = proposal_row db q"
  by (simp add: proposal_row_def)

lemma row_None: "proposal_row db q = None \<longleftrightarrow> q \<notin> rp_proposal_id ` set (rd_proposals db)"
  by (auto simp: proposal_row_def find_None_iff)

lemma moved_cases:
  assumes "reorg_moved ck sp who es db db'"
  obtains (same) "rd_proposals db' = rd_proposals db" "es = []"
  | (new) p where "proposal_row db (rp_proposal_id p) = None" "rp_status p = RP_PROPOSED"
      "rd_proposals db' = rd_proposals db @ [p]" "es = []"
  | (one) pid p p' where "reorg_ok db'" "proposal_row db pid = Some p"
      "\<And>q. proposal_row db' q = (if q = pid then Some p' else proposal_row db q)"
      "rp_user_confirmation_required p' = rp_user_confirmation_required p"
      "one_move who es (stage_of p) (stage_of p') pid"
  using assms unfolding reorg_moved_def by blast

lemma moved_ok:
  assumes "reorg_ok db" "reorg_moved ck sp who es db db'"
  shows "reorg_ok db'"
proof -
  have "cards_ok (rd_tools db')"
    using assms tools_run_ok [of ck sp "rd_tools db" "rd_tools db'"] by (auto simp: reorg_moved_def reorg_ok_def)
  with assms(1) show ?thesis
    by (cases rule: moved_cases [OF assms(2)]) (simp_all add: reorg_ok_def row_None)
qed

lemma stage_Asked: "stage_of p = Asked \<longleftrightarrow> rp_status p = RP_PROPOSED"
  by (cases "rp_status p") (simp_all add: stage_of_def)

lemma moved_rows:
  assumes "reorg_moved ck sp who es db db'" "proposal_row db pid = Some p"
  shows "\<exists>p'. proposal_row db' pid = Some p' \<and> rp_user_confirmation_required p' = rp_user_confirmation_required p \<and>
    (stage_of p' = stage_of p \<or> stage_step who (stage_of p) (stage_of p'))"
  using assms(1)
proof (cases rule: moved_cases)
  case same
  with assms(2) row_kept [OF same(1), of pid] show ?thesis by simp
next
  case (new r)
  with assms(2) row_new [OF new(3), of pid] show ?thesis by simp
next
  case (one q r r')
  with assms(2) show ?thesis by (cases "pid = q") (simp_all add: one_move_def)
qed

lemma moved_events:
  assumes "reorg_moved ck sp who es db db'"
  shows "es = [] \<or> (\<exists>e. es = [e] \<and> event_ok (proposal_row db) (proposal_row db') e)"
  using assms
proof (cases rule: moved_cases)
  case (one q r r')
  from one(5) consider "es = []"
    | "es = [Elected q who]" "stage_of r = Agreed" "stage_of r' = Held who"
    | "es = [Settled q who]" "stage_of r = Held who" "stage_of r' \<in> {Carried, Broken, Uncertain}"
    unfolding one_move_def by blast
  then show ?thesis
    by cases (simp_all add: event_ok_def one(2,3))
qed simp_all

lemma moved_elections:
  assumes "reorg_moved ck sp who es db db'" "proposal_row db' pid = Some p'" "stage_of p' = Held token"
  shows "Elected pid token \<in> set es \<or> (\<exists>p. proposal_row db pid = Some p \<and> stage_of p = Held token)"
  using assms(1)
proof (cases rule: moved_cases)
  case same
  with assms(2,3) row_kept [OF same(1), of pid] show ?thesis by simp
next
  case (new r)
  then have "stage_of r = Asked" by (simp add: stage_Asked)
  with row_new [OF new(3), of pid] assms(2,3) show ?thesis
    by (cases "proposal_row db pid") (auto split: if_splits)
next
  case (one q r r')
  show ?thesis
  proof (cases "pid = q")
    case True
    then have "stage_of r' = Held token" using one(3) assms(2,3) by simp
    with one(5) True show ?thesis by (auto simp: one_move_def elim: stage_stepE)
  qed (use one(3) assms(2,3) in simp)
qed

interpretation reorg: proposal_machine "reorg_step ck sp" proposal_row reorg_ok reorg_token reorg_op_ok for ck sp
proof
  fix db x t es db'
  assume "reorg_ok db" "reorg_op_ok x" "reorg_step ck sp (x, t) db = (es, db')"
  note ok = this(1) and moved = reorg_step_moves [OF this]
  show "reorg_ok db'" by (rule moved_ok [OF ok moved])
  show "es = [] \<or> (\<exists>e. es = [e] \<and> event_ok (proposal_row db) (proposal_row db') e)"
    by (rule moved_events [OF moved])
  show "\<exists>p'. proposal_row db' pid = Some p' \<and> rp_user_confirmation_required p' = rp_user_confirmation_required p \<and>
      (stage_of p' = stage_of p \<or> stage_step (reorg_token x) (stage_of p) (stage_of p'))"
    if "proposal_row db pid = Some p" for pid p
    by (rule moved_rows [OF moved that])
  show "Elected pid token \<in> set es \<or> (\<exists>p. proposal_row db pid = Some p \<and> stage_of p = Held token)"
    if "proposal_row db' pid = Some p'" "stage_of p' = Held token" for pid p' token
    by (rule moved_elections [OF moved that])
qed

lemma tools_of_run:
  "reorg_ok db \<Longrightarrow> list_all (\<lambda>x. reorg_op_ok (fst x)) xs \<Longrightarrow>
   tools_run ck sp (rd_tools db) (rd_tools (snd (run_ops (reorg_step ck sp) xs db)))"
proof (induction xs arbitrary: db)
  case (Cons x xs)
  obtain es db1 where one: "reorg_step ck sp (fst x, snd x) db = (es, db1)" by (cases "reorg_step ck sp x db") simp
  have op: "reorg_op_ok (fst x)" using Cons.prems(2) by simp
  note moved = reorg_step_moves [OF Cons.prems(1) op one]
  have "tools_run ck sp (rd_tools db) (rd_tools db1)" using moved by (simp add: reorg_moved_def)
  moreover have "tools_run ck sp (rd_tools db1) (rd_tools (snd (run_ops (reorg_step ck sp) xs db1)))"
    using Cons.IH [OF moved_ok [OF Cons.prems(1) moved]] Cons.prems(2) by simp
  ultimately show ?case using one unfolding snd_run_ops_Cons by (simp add: tools_run_trans)
qed (simp add: tools_run_refl)

text \<open>A decision lasts: what was agreed is never refused later, nor the other way round.\<close>

lemma decision_lasts:
  assumes "reorg_ok db" "list_all (\<lambda>x. reorg_op_ok (fst x)) xs" "proposal_row db pid = Some p"
    "p = decided approved note_text t p0"
  shows "\<exists>p'. proposal_row (snd (run_ops (reorg_step ck sp) xs db)) pid = Some p' \<and> (approved \<longleftrightarrow> rp_status p' \<noteq> RP_DENIED)"
proof -
  let ?S = "if approved then - {Asked, Refused} else {Refused}"
  have "stage_of p \<in> ?S" using assms(4) by (simp add: decided_def stage_of_def)
  moreover have "b \<in> ?S" if "stage_step who a b" "a \<in> ?S" for who a b
    using that by (cases approved) (auto elim: stage_stepE)
  ultimately obtain p' where "proposal_row (snd (run_ops (reorg_step ck sp) xs db)) pid = Some p'" "stage_of p' \<in> ?S"
    using reorg.run_stays [OF assms(1,2,3), of ?S ck sp] by blast
  moreover from this(2) have "approved \<longleftrightarrow> rp_status p' \<noteq> RP_DENIED"
    by (cases "rp_status p'"; cases approved) (simp_all add: stage_of_def)
  ultimately show ?thesis by blast
qed

text \<open>The answer that decided a proposal stands in its card from then on.\<close>

lemma answer_stands:
  assumes "cards_ok tools" "tools_run ck sp tools tools'"
    "select_execution_checkpoint (td_checkpoints tools) cid project (Some ''company_reorg_pending'') = Some cp"
    "owner_decided cp pid approved claim_id consumer_id = Inr True"
  shows "checkpoint_row tools cid = Some cp"
    "\<exists>cp'. checkpoint_row tools' cid = Some cp' \<and> decision_of cp' = decision_of cp"
proof -
  note cp = selected [OF assms(1,3)]
  show "checkpoint_row tools cid = Some cp" by (rule cp(1))
  have "owner_type ''company_reorg_pending''" by code_simp
  then have row: "owner_card tools cid = Some (cp_type cp, card_state cp)" using cp(1,5) by (simp add: owner_card_row)
  have "cp_status cp \<noteq> ''pending''" using assms(4) by (auto simp: owner_decided_def Let_def bind_result_Inr_iff)
  then have "card_decision (card_state cp) = Some (decision_of cp)" by (simp add: card_state_facts)
  from tools_run_decision [OF assms(2,1) row this]
  show "\<exists>cp'. checkpoint_row tools' cid = Some cp' \<and> decision_of cp' = decision_of cp"
    by (auto simp: owner_card_row card_state_facts split: if_splits)
qed

section \<open>Who decides\<close>

text \<open>Only a decision command takes a proposal out of the first stage.\<close>

lemma only_decisions_decide:
  assumes "reorg_ok db" "reorg_step ck sp (x, now) db = (es, db')"
    and after: "proposal_row db' pid = Some p'" "rp_status p' \<noteq> RP_PROPOSED"
    and before: "\<And>p. proposal_row db pid = Some p \<Longrightarrow> rp_status p = RP_PROPOSED"
  obtains approved note_text cid claim_id consumer_id system p where
    "x = DecideProposal pid approved note_text cid claim_id consumer_id \<and> \<not> system \<or>
     x = DecideAdjustment pid approved note_text \<and> system \<and> cid = []"
    "proposal_row db pid = Some p" "p' = decided approved note_text now p"
    "decision_authorized db (row_to_reorg_proposal p) pid approved cid claim_id consumer_id system = Inr True"
proof -
  note found = that
  have moved: "proposal_row db' pid \<noteq> proposal_row db pid"
    using after before by auto
  have new: False if "rd_proposals db' = rd_proposals db @ [p]" "rp_status p = RP_PROPOSED" for p
    using row_new [OF that(1), of pid] that(2) after before by (auto split: option.splits if_splits)
  have kept: "db' \<noteq> db" "rd_proposals db' \<noteq> rd_proposals db" using moved row_kept [of db' db pid] by auto
  have created: False if c: "create_reorg_proposal ck sp db p cp system now = (r, db')" for p cp system r
    using c new kept by (cases rule: create_cases) auto
  have decides: thesis
    if x: "x = DecideProposal q approved note_text cid claim_id consumer_id \<and> \<not> system \<or>
        x = DecideAdjustment q approved note_text \<and> system \<and> cid = []"
      and d: "decide_reorg_proposal_as db q approved note_text cid claim_id consumer_id system now = (r, db')"
    for q approved note_text cid claim_id consumer_id system r
    using assms(1) d
  proof (cases rule: decide_cases)
    case (2 p)
    then have "q = pid" using moved by (auto split: if_splits)
    with 2 x after(1) show thesis by (intro found [of approved note_text cid claim_id consumer_id system p]) simp_all
  qed (use kept in simp)
  show thesis
  proof (cases x)
    case (OwnerOp y)
    then show thesis using assms(2) kept by auto
  next
    case (CreateProposal p cp)
    then show thesis
      using assms(2) created kept
      by (cases "create_reorg_proposal ck sp db p cp False now")
         (auto simp: create_reorg_proposal_with_interaction_def split: if_splits)
  next
    case (CreateAdjustment p)
    then show thesis
      using assms(2) created
      by (cases "create_reorg_proposal ck sp db p None True now") (auto simp: create_system_task_adjustment_proposal_def)
  next
    case (DecideProposal q approved note_text cid claim_id consumer_id)
    then show thesis
      using assms(2) decides [of q approved note_text cid claim_id consumer_id False]
      by (cases "decide_reorg_proposal_as db q approved note_text cid claim_id consumer_id False now")
         (simp add: decide_reorg_proposal_def)
  next
    case (DecideAdjustment q approved note_text)
    then show thesis
      using assms(2) decides [of q approved note_text "[]" "[]" "[]" True]
      by (cases "decide_reorg_proposal_as db q approved note_text [] [] [] True now")
         (simp add: decide_system_task_adjustment_proposal_def)
  next
    case (ClaimApplication q token)
    then obtain r where "claim_reorg_application ck db q token now = (r, db')"
      using assms(2) by (cases "claim_reorg_application ck db q token now") (simp add: announced_def)
    with assms(1) show thesis
      by (cases rule: application_claim_cases) (use kept moved before in \<open>auto split: if_splits\<close>)
  next
    case (FinishApplication q token)
    then obtain r where "finish_reorg_application ck db q token now = (r, db')"
      using assms(2) by (cases "finish_reorg_application ck db q token now") (simp add: announced_def)
    with assms(1) show thesis
      by (cases rule: application_finish_cases) (use kept moved before in \<open>auto simp: elected_def split: if_splits\<close>)
  next
    case (FailApplication q token effect_started message)
    then obtain r where "fail_reorg_application ck db q token effect_started message now = (r, db')"
      using assms(2) by (cases "fail_reorg_application ck db q token effect_started message now") (simp add: announced_def)
    with assms(1) show thesis
      by (cases rule: application_fail_cases) (use kept moved before in \<open>auto simp: elected_def split: if_splits\<close>)
  qed
qed

text \<open>With confirmation required, the command is the owner's.\<close>

lemma confirmed_decision:
  assumes "reorg_ok db" "reorg_step ck sp (x, now) db = (es, db')"
    and "proposal_row db' pid = Some p'" "rp_status p' \<noteq> RP_PROPOSED"
    and "\<And>p. proposal_row db pid = Some p \<Longrightarrow> rp_status p = RP_PROPOSED"
    and "rp_user_confirmation_required p'"
  obtains approved note_text cid claim_id consumer_id cp p where
    "x = DecideProposal pid approved note_text cid claim_id consumer_id" "p' = decided approved note_text now p"
    "select_execution_checkpoint (td_checkpoints (rd_tools db)) cid (rp_project_id p)
       (Some ''company_reorg_pending'') = Some cp"
    "owner_decided cp pid approved claim_id consumer_id = Inr True"
proof -
  note found = that
  obtain approved note_text cid claim_id consumer_id system p where
    command: "x = DecideProposal pid approved note_text cid claim_id consumer_id \<and> \<not> system \<or>
      x = DecideAdjustment pid approved note_text \<and> system \<and> cid = []"
    and p: "p' = decided approved note_text now p"
    and auth: "decision_authorized db (row_to_reorg_proposal p) pid approved cid claim_id consumer_id system = Inr True"
    by (rule only_decisions_decide [OF assms(1-5)])
  have confirm: "rp_user_confirmation_required p" using p assms(6) by (simp add: decided_def)
  then have "cid \<noteq> []" using auth by (auto simp: decision_authorized_def)
  with command have "x = DecideProposal pid approved note_text cid claim_id consumer_id" by simp
  with p auth confirm show thesis
    by (auto simp: decision_authorized_def split: if_splits option.splits intro: found)
qed

section \<open>A concrete reorganization\<close>

definition sample_proposal :: reorg_proposal where
  "sample_proposal =
     \<lparr>rp_proposal_id = ''r1'', rp_project_id = ''p'', rp_session_id = None, rp_task_id = None, rp_initiated_by = ''ceo'',
      rp_source_role_id = ''ceo'', rp_scope = ORG_MUTATION, rp_risk_level = REORG_HIGH, rp_status = RP_PROPOSED,
      rp_title = ''split'', rp_summary = ''split the team'', rp_rationale = ''load'', rp_user_confirmation_required = True,
      rp_old_org_version = 1, rp_new_org_version = 2, rp_old_runtime_topology_version = 1,
      rp_new_runtime_topology_version = 1,
      rp_changeset = \<lparr>xs_role_changes = [], xs_task_adjustments = [], xs_metadata = []\<rparr>,
      rp_migration_plan =
        \<lparr>mp_affected_task_ids = [], mp_affected_checkpoint_ids = [], mp_affected_handoff_ids = [],
         mp_role_mapping = [], mp_invalidated_waits = [], mp_migration_notes = [], mp_compatibility_warnings = [],
         mp_rollback_snapshot_id = None, mp_metadata = []\<rparr>,
      rp_impact_summary = [], rp_approval_notes = [], rp_metadata = [], rp_created_at = 0, rp_updated_at = 0\<rparr>"

definition reorg_card :: checkpoint where
  \<comment> \<open>the owner approved, and a consumer holds the answer\<close>
  "reorg_card =
     \<lparr>cp_checkpoint_id = ''k1'', cp_project_id = ''p'', cp_type = ''company_reorg_pending'', cp_status = ''consuming'',
      cp_task_id = None,
      cp_payload = [(''proposal_id'', PStr ''r1''),
        (''interaction'', PDict [(''decision'', PDict [(''value'', PDict [(''option_id'', PStr ''Approve'')])]),
           (''claim'', PDict [(''claim_id'', PStr ''c1''), (''consumer_id'', PStr ''u1'')]),
           (''execution'', PDict [(''state'', PStr ''ready''), (''claim_id'', PStr ''c1''), (''consumer_id'', PStr ''u1'')])])],
      cp_session_id = None, cp_created_at = 0, cp_updated_at = 0\<rparr>"

definition reorg_at :: "reorg_status \<Rightarrow> pydict \<Rightarrow> int \<Rightarrow> reorg_db" where
  "reorg_at status md now =
     \<lparr>rd_tools = no_cards\<lparr>td_checkpoints := [reorg_card]\<rparr>,
      rd_proposals = [sample_proposal\<lparr>rp_status := status, rp_metadata := md, rp_updated_at := now\<rparr>]\<rparr>"

definition held_md :: pydict where
  "held_md = [(''application_claim'', PDict [(''operation_token'', PStr ''t1''), (''state'', PStr ''applying''),
      (''started_at'', PStr ''11'')])]"

definition lost_md :: pydict where
  "lost_md = [(''application_claim'', PDict [(''operation_token'', PStr ''t1''), (''state'', PStr ''execution_unknown''),
      (''started_at'', PStr ''11''), (''completed_at'', PStr ''1111''), (''error'', PStr ''crash'')])]"

definition reorg_story :: "(reorg_op \<times> int) list" where
  "reorg_story =
     [(DecideProposal ''r1'' True [] ''k1'' ''c1'' ''u1'', 1), (ClaimApplication ''r1'' ''t1'', 2),
      (ClaimApplication ''r1'' ''t2'', 3), (FailApplication ''r1'' ''t1'' True ''crash'', 4),
      (ClaimApplication ''r1'' ''t3'', 5)]"

lemma reorg_story_steps:
  "reorg_step tally_clock ''p'' (DecideProposal ''r1'' True [] ''k1'' ''c1'' ''u1'', 1) (reorg_at RP_PROPOSED [] 0) =
     ([], reorg_at RP_APPROVED [] 1)"
  "reorg_step tally_clock ''p'' (ClaimApplication ''r1'' ''t1'', 2) (reorg_at RP_APPROVED [] 1) =
     ([Elected ''r1'' ''t1''], reorg_at RP_APPLYING held_md 2)"
  "reorg_step tally_clock ''p'' (ClaimApplication ''r1'' ''t2'', 3) (reorg_at RP_APPLYING held_md 2) =
     ([], reorg_at RP_APPLYING held_md 2)"
  "reorg_step tally_clock ''p'' (FailApplication ''r1'' ''t1'' True ''crash'', 4) (reorg_at RP_APPLYING held_md 2) =
     ([Settled ''r1'' ''t1''], reorg_at RP_EXECUTION_UNKNOWN lost_md 4)"
  "reorg_step tally_clock ''p'' (ClaimApplication ''r1'' ''t3'', 5) (reorg_at RP_EXECUTION_UNKNOWN lost_md 4) =
     ([], reorg_at RP_EXECUTION_UNKNOWN lost_md 4)"
  by code_simp+

lemma reorg_story:
  "run_ops (reorg_step tally_clock ''p'') reorg_story (reorg_at RP_PROPOSED [] 0) =
     ([Elected ''r1'' ''t1'', Settled ''r1'' ''t1''], reorg_at RP_EXECUTION_UNKNOWN lost_md 4)"
  by (simp only: reorg_story_def run_ops.simps reorg_story_steps Let_def split append_Nil append.simps append_Nil2)

lemma reorg_story_ok: "reorg_ok (reorg_at RP_PROPOSED [] 0)" "list_all (\<lambda>x. reorg_op_ok (fst x)) reorg_story"
  by (code_simp, simp add: reorg_story_def reorg_op_ok_def)

section \<open>Properties\<close>

text \<open>A reorganization is applied at most once.  In any history of commands on proposals and of
  operations on owner cards, at most one claim of a given proposal is acquired, whatever tokens and
  controllers ask; only the acquired token settles it, with success or failure; and a proposal that
  is denied, applied, failed or of unknown outcome keeps that status and elects nobody any more, so
  work that may have happened is never replayed.\<close>

theorem reorganizations_apply_once:
  assumes "reorg_ok db" "list_all (\<lambda>x. reorg_op_ok (fst x)) xs" "run_ops (reorg_step ck sp) xs db = (es, db')"
  shows "length (filter (is_election pid) es) \<le> 1 \<and>
    (\<forall>token. Settled pid token \<in> set es \<longrightarrow>
       Elected pid token \<in> set es \<or> (\<exists>p. proposal_row db pid = Some p \<and> elected p token)) \<and>
    (\<forall>p. proposal_row db pid = Some p \<longrightarrow>
       rp_status p \<in> {RP_DENIED, RP_APPLIED, RP_FAILED, RP_EXECUTION_UNKNOWN, RP_CANCELLED} \<longrightarrow>
       filter (is_election pid) es = [] \<and> (\<exists>p'. proposal_row db' pid = Some p' \<and> rp_status p' = rp_status p))"
proof -
  have final: "stage_rank (stage_of p) = 3 \<longleftrightarrow> rp_status p \<in> {RP_DENIED, RP_APPLIED, RP_FAILED, RP_EXECUTION_UNKNOWN, RP_CANCELLED}"
    and same: "stage_of p = stage_of p' \<Longrightarrow> rp_status p = rp_status p'" for p p'
    by (cases "rp_status p"; cases "rp_status p'"; simp add: stage_of_def)+
  note once = reorg.elected_once [OF assms, of pid]
  have kept: "filter (is_election pid) es = [] \<and> (\<exists>p'. proposal_row db' pid = Some p' \<and> rp_status p' = rp_status p)"
    if "proposal_row db pid = Some p" "stage_rank (stage_of p) = 3" for p
  proof -
    from reorg.run_moves [OF assms(1,2) that(1), of ck sp] assms(3) that(2) obtain p' where
      "proposal_row db' pid = Some p'" "stage_of p' = stage_of p" by auto
    moreover have "filter (is_election pid) es = []" using once that by simp
    ultimately show ?thesis using same by blast
  qed
  show ?thesis
    using once reorg.settled_by_elected [OF assms] kept unfolding held final by blast
qed

theorem reorganizations_apply_once_witness:
  "length (filter (is_election ''r1'') [Elected ''r1'' ''t1'', Settled ''r1'' ''t1'']) \<le> 1 \<and>
   run_ops (reorg_step tally_clock ''p'') reorg_story (reorg_at RP_PROPOSED [] 0) =
     ([Elected ''r1'' ''t1'', Settled ''r1'' ''t1''], reorg_at RP_EXECUTION_UNKNOWN lost_md 4)"
  using reorganizations_apply_once [OF reorg_story_ok reorg_story, of "''r1''"] reorg_story by blast

text \<open>C10. A reorganization that needs confirmation is decided by the owner alone.  When a proposal
  that requires confirmation has left the first status in a history that began with open proposals,
  the history contains the decision command that did it; at that moment the card the command named
  carried the proposal's id, its claim was or had been the caller's, and the owner's answer said the
  same word as the command; and this answer still stands in the card at the end of the history.\<close>

theorem decided_by_the_owner:
  assumes "reorg_ok db" "list_all (\<lambda>x. reorg_op_ok (fst x)) xs" "run_ops (reorg_step ck sp) xs db = (es, db')"
    and "list_all (\<lambda>p. rp_status p = RP_PROPOSED) (rd_proposals db)"
    and "proposal_row db' pid = Some p" "rp_user_confirmation_required p" "rp_status p \<noteq> RP_PROPOSED"
  shows "\<exists>ys zs approved note_text cid claim_id consumer_id t mid cp cp'.
     xs = ys @ (DecideProposal pid approved note_text cid claim_id consumer_id, t) # zs \<and>
     snd (run_ops (reorg_step ck sp) ys db) = mid \<and>
     checkpoint_row (rd_tools mid) cid = Some cp \<and> owner_decided cp pid approved claim_id consumer_id = Inr True \<and>
     (approved \<longleftrightarrow> rp_status p \<noteq> RP_DENIED) \<and>
     checkpoint_row (rd_tools db') cid = Some cp' \<and> decision_of cp' = decision_of cp"
proof -
  let ?left = "\<lambda>st. \<exists>p. proposal_row st pid = Some p \<and> rp_status p \<noteq> RP_PROPOSED"
  have "\<not> ?left db" using assms(4) by (auto simp: proposal_row_def list_all_iff find_Some_iff)
  moreover have "?left db'" using assms(5,7) by blast
  ultimately obtain ys x zs mid mid1 where xs: "xs = ys @ x # zs" and mid: "snd (run_ops (reorg_step ck sp) ys db) = mid"
    "\<not> ?left mid" "snd (reorg_step ck sp x mid) = mid1" "?left mid1" and rest: "snd (run_ops (reorg_step ck sp) zs mid1) = db'"
    by (rule run_ops_first [OF assms(3)])
  obtain op t es1 where x: "x = (op, t)" and step: "reorg_step ck sp (op, t) mid = (es1, mid1)"
    using mid(3) by (cases x; cases "reorg_step ck sp x mid") auto
  have ops: "list_all (\<lambda>x. reorg_op_ok (fst x)) ys" "reorg_op_ok op" "list_all (\<lambda>x. reorg_op_ok (fst x)) zs"
    using assms(2) by (simp_all add: xs x)
  have ok: "reorg_ok mid" using reorg.run_ok [OF assms(1) ops(1), of ck sp] mid(1) by simp
  note moved = reorg_step_moves [OF ok ops(2) step]
  note ok1 = moved_ok [OF ok moved]
  obtain p1 where p1: "proposal_row mid1 pid = Some p1" "rp_status p1 \<noteq> RP_PROPOSED" using mid(4) by blast
  from reorg.run_moves [OF ok1 ops(3) p1(1), of ck sp] rest assms(5,6)
  have flag: "rp_user_confirmation_required p1" by simp
  obtain approved note_text cid claim_id consumer_id cp p0 where
    op: "op = DecideProposal pid approved note_text cid claim_id consumer_id" and p0: "p1 = decided approved note_text t p0"
    and sel: "select_execution_checkpoint (td_checkpoints (rd_tools mid)) cid (rp_project_id p0)
        (Some ''company_reorg_pending'') = Some cp"
    and said: "owner_decided cp pid approved claim_id consumer_id = Inr True"
    by (rule confirmed_decision [OF ok step p1 _ flag]) (use mid(2) in blast)+
  have tools: "tools_run ck sp (rd_tools mid) (rd_tools db')"
    using tools_run_trans [OF _ tools_of_run [OF ok1 ops(3), of ck sp]] moved rest by (simp add: reorg_moved_def)
  have "cards_ok (rd_tools mid)" using ok by (simp add: reorg_ok_def)
  from answer_stands [OF this tools sel said] obtain cp' where
    card: "checkpoint_row (rd_tools mid) cid = Some cp" "checkpoint_row (rd_tools db') cid = Some cp'"
      "decision_of cp' = decision_of cp" by blast
  have "approved \<longleftrightarrow> rp_status p \<noteq> RP_DENIED"
    using decision_lasts [OF ok1 ops(3) p1(1) p0, of ck sp] rest assms(5) by auto
  with xs x op mid(1) card said show ?thesis by blast
qed

theorem decided_by_the_owner_witness:
  "\<exists>cp. checkpoint_row (rd_tools (reorg_at RP_EXECUTION_UNKNOWN lost_md 4)) ''k1'' = Some cp \<and>
     (\<exists>ys zs approved note_text cid claim_id consumer_id t.
        reorg_story = ys @ (DecideProposal ''r1'' approved note_text cid claim_id consumer_id, t) # zs)"
proof -
  let ?db = "reorg_at RP_EXECUTION_UNKNOWN lost_md 4"
  have asked: "list_all (\<lambda>p. rp_status p = RP_PROPOSED) (rd_proposals (reorg_at RP_PROPOSED [] 0))" by code_simp
  have "case proposal_row ?db ''r1'' of None \<Rightarrow> False
     | Some p \<Rightarrow> rp_user_confirmation_required p \<and> rp_status p \<noteq> RP_PROPOSED"
    by code_simp
  then obtain p where p: "proposal_row ?db ''r1'' = Some p" "rp_user_confirmation_required p" "rp_status p \<noteq> RP_PROPOSED"
    by (auto split: option.splits)
  have "checkpoint_row (rd_tools ?db) ''k1'' = Some reorg_card" by code_simp
  with decided_by_the_owner [OF reorg_story_ok reorg_story asked p] show ?thesis by blast
qed

end
