(* ===== verification/OrgChanges.thy ===== *)
theory OrgChanges
  imports ReorgProposals
begin

text \<open>
  The change of the roles of an organization: \<open>validate_changeset\<close> and \<open>apply_changeset\<close> of
  \<open>opc/layer2_organization/org_engine.py\<close>, and the plan and classification that
  \<open>opc/layer2_organization/reorg_manager.py\<close> makes of a changeset before the owner sees it.  A role is
  its \<open>model_dump\<close>; \<open>validate\<close> stands for \<open>RoleConfig.model_validate\<close> of pydantic.  Ids in the
  payload of a change are texts.
\<close>

section \<open>Roles\<close>

type_synonym role = pydict

type_synonym role_validator = "pydict \<Rightarrow> role result"

definition role_id :: "role \<Rightarrow> string" where
  "role_id r = raw_text r ''id''"

record org_engine =
  og_company_profile :: string
  og_roles :: "role list"
  og_org_version :: int

definition effective_roles :: "(role list \<Rightarrow> role list) \<Rightarrow> org_engine \<Rightarrow> role list" where
  \<comment> \<open>\<open>builtin\<close> stands for \<open>get_builtin_roles("corporate", ...)\<close>\<close>
  "effective_roles builtin og =
     (if og_company_profile og = ''corporate'' then builtin (og_roles og)
      else if og_company_profile og = ''custom'' then og_roles og else [])"

section \<open>Validation\<close>

definition change_errors :: "string list \<Rightarrow> reorg_role_change \<Rightarrow> string list" where
  "change_errors ids c =
     (if xr_action c \<in> {''remove'', ''replace'', ''update''} \<and> xr_role_id c \<notin> set ids
      then [''Unknown role `'' @ xr_role_id c @ ''` for action `'' @ xr_action c @ ''`.''] else []) @
     (if xr_action c \<in> {''add'', ''replace''} \<and> opt_raw (xr_replacement_role_id c) = [] \<and>
         raw_text (xr_role c) ''id'' = []
      then [''Role change `'' @ xr_action c @ ''` requires a new role id.''] else [])"

definition validate_changeset ::
  "(role list \<Rightarrow> role list) \<Rightarrow> string list \<Rightarrow> org_engine \<Rightarrow> reorg_changeset \<Rightarrow> string list" where
  \<comment> \<open>\<open>agents\<close>: the role ids of the listed agents\<close>
  "validate_changeset builtin agents og cs =
     (let ids = map role_id (effective_roles builtin og)
      in concat (map (change_errors (if ids = [] then agents else ids)) (xs_role_changes cs)))"

section \<open>Application\<close>

definition target_role_id :: "reorg_role_change \<Rightarrow> string" where
  "target_role_id c =
     or_text (opt_raw (xr_replacement_role_id c)) (or_text (raw_text (xr_role c) ''id'') (xr_role_id c))"

definition role_index :: "role list \<Rightarrow> string \<Rightarrow> nat option" where
  \<comment> \<open>\<open>{role.id: idx for idx, role in enumerate(roles)}\<close>\<close>
  "role_index roles = map_of (rev (zip (map role_id roles) [0..<length roles]))"

definition mapped_to :: "reorg_role_change \<Rightarrow> string" where
  "mapped_to c =
     (if xr_action c = ''remove'' \<and> target_role_id c = xr_role_id c then [] else target_role_id c)"

definition without_role :: "string \<Rightarrow> role list \<Rightarrow> role list" where
  "without_role rid roles = filter (\<lambda>r. role_id r \<noteq> rid) roles"

definition added_role :: "role_validator \<Rightarrow> reorg_role_change \<Rightarrow> role list \<Rightarrow> role list result" where
  \<comment> \<open>the role a replacement brings, if it brings one\<close>
  "added_role validate c roles =
     (if xr_role c = [] then Inr roles
      else bind_result (validate (dsetdefault ''id'' (PStr (target_role_id c)) (xr_role c)))
             (\<lambda>r. Inr (roles @ [r])))"

definition apply_role_change ::
  "role_validator \<Rightarrow> (string \<Rightarrow> nat option) \<Rightarrow> reorg_role_change \<Rightarrow> role list \<times> pydict
     \<Rightarrow> (role list \<times> pydict) result" where
  "apply_role_change validate index c =
     (\<lambda>(roles, mapping).
        if xr_action c = ''add'' then
          bind_result (validate (xr_role c)) (\<lambda>r. Inr (roles @ [r], mapping))
        else if xr_action c = ''remove'' then
          Inr (without_role (xr_role_id c) roles, dset (xr_role_id c) (PStr (mapped_to c)) mapping)
        else if xr_action c = ''replace'' then
          bind_result (added_role validate c (without_role (xr_role_id c) roles)) (\<lambda>roles'.
          Inr (roles', dset (xr_role_id c) (PStr (mapped_to c)) mapping))
        else if xr_action c = ''update'' then
          (case index (xr_role_id c) of
             None \<Rightarrow> Inr (roles, mapping)
           | Some i \<Rightarrow>
               if length roles \<le> i then Inl IndexError
               else bind_result (validate (dupdate (roles ! i) (xr_role c))) (\<lambda>r.
                    Inr (roles[i := r], mapping)))
        else Inr (roles, mapping))"

fun apply_role_changes ::
  "role_validator \<Rightarrow> (string \<Rightarrow> nat option) \<Rightarrow> reorg_role_change list \<Rightarrow> role list \<times> pydict
     \<Rightarrow> (role list \<times> pydict) result" where
  "apply_role_changes validate index [] acc = Inr acc"
| "apply_role_changes validate index (c # cs) acc =
     bind_result (apply_role_change validate index c acc) (apply_role_changes validate index cs)"

record change_result =
  cr_old_org_version :: int
  cr_new_org_version :: int
  cr_role_mapping :: pydict

text \<open>
  The configuration file and the agents that are rebuilt from the roles are outside the model; an
  exception leaves the organization as it was.
\<close>

definition apply_changeset ::
  "role_validator \<Rightarrow> (role list \<Rightarrow> role list) \<Rightarrow> string list \<Rightarrow> org_engine \<Rightarrow> reorg_changeset
     \<Rightarrow> change_result result \<times> org_engine" where
  "apply_changeset validate builtin agents og cs =
     (if validate_changeset builtin agents og cs \<noteq> [] then (Inl ValueError, og)
      else
        let corporate = (og_company_profile og = ''corporate'');
            base = (if corporate then effective_roles builtin og else og_roles og)
        in case apply_role_changes validate (role_index base) (xs_role_changes cs) (base, []) of
             Inl e \<Rightarrow> (Inl e, og)
           | Inr (roles, mapping) \<Rightarrow>
               (Inr \<lparr>cr_old_org_version = og_org_version og, cr_new_org_version = og_org_version og + 1,
                     cr_role_mapping = mapping\<rparr>,
                og\<lparr>og_roles := roles, og_org_version := og_org_version og + 1,
                   og_company_profile :=
                     (if corporate \<and> xs_role_changes cs \<noteq> [] then ''custom'' else og_company_profile og)\<rparr>))"

section \<open>What the owner is shown\<close>

definition infer_scope :: "reorg_changeset \<Rightarrow> reorg_scope" where
  "infer_scope cs = (if xs_role_changes cs \<noteq> [] then ORG_MUTATION else TASK_ADJUSTMENT)"

definition ADJUSTMENT_ACTIONS :: "string list" where
  "ADJUSTMENT_ACTIONS =
     [''reassign'', ''reprioritize'', ''update_description'', ''append_acceptance_criteria'', ''request_review'']"

definition classify_risk :: "reorg_scope \<Rightarrow> reorg_changeset \<Rightarrow> reorg_risk_level" where
  "classify_risk scope cs =
     (if scope = ORG_MUTATION then REORG_HIGH
      else if list_all (\<lambda>a. xa_action a \<in> set ADJUSTMENT_ACTIONS) (xs_task_adjustments cs)
      then REORG_LOW else REORG_MEDIUM)"

definition is_top_level_role :: "(string \<Rightarrow> string option) \<Rightarrow> string \<Rightarrow> bool" where
  \<comment> \<open>the superior of the agent of the role, if there is one\<close>
  "is_top_level_role reports_to rid \<longleftrightarrow>
     (case reports_to rid of None \<Rightarrow> rid \<in> {''owner'', ''coordinator''} | Some boss \<Rightarrow> boss = ''owner'')"

definition plan_role :: "reorg_role_change \<Rightarrow> pydict \<Rightarrow> pydict" where
  "plan_role c mapping =
     (if xr_action c = ''replace'' \<and> opt_raw (xr_replacement_role_id c) \<noteq> []
      then dset (xr_role_id c) (PStr (opt_raw (xr_replacement_role_id c))) mapping
      else if xr_action c = ''remove'' then dset (xr_role_id c) (PStr []) mapping else mapping)"

definition planned_role_mapping :: "reorg_role_change list \<Rightarrow> pydict" where
  "planned_role_mapping cs = fold plan_role cs []"

section \<open>Changes by the id of the role\<close>

text \<open>
  The reference, written without the operations of the loop: an update changes the first role that
  has the id, a removal drops every role with the id, a replacement drops them and appends the role
  it brings, and the successor of a role is the first id that the change names.
\<close>

fun update_role_by_id :: "role_validator \<Rightarrow> string \<Rightarrow> pydict \<Rightarrow> role list \<Rightarrow> role list result" where
  "update_role_by_id validate rid payload [] = Inr []"
| "update_role_by_id validate rid payload (r # rs) =
     (if role_id r = rid then bind_result (validate (dupdate r payload)) (\<lambda>r'. Inr (r' # rs))
      else bind_result (update_role_by_id validate rid payload rs) (\<lambda>rs'. Inr (r # rs')))"

fun drop_role :: "string \<Rightarrow> role list \<Rightarrow> role list" where
  "drop_role rid [] = []"
| "drop_role rid (r # rs) = (if role_id r = rid then drop_role rid rs else r # drop_role rid rs)"

definition successor :: "reorg_role_change \<Rightarrow> string" where
  "successor c =
     concat (take 1 (filter (\<lambda>s. s \<noteq> [])
       [opt_raw (xr_replacement_role_id c), raw_text (xr_role c) ''id'', xr_role_id c]))"

definition brought_role :: "reorg_role_change \<Rightarrow> pydict" where
  "brought_role c =
     xr_role c @ (if ''id'' \<in> fst ` set (xr_role c) then [] else [(''id'', PStr (successor c))])"

definition appended :: "role_validator \<Rightarrow> pydict \<Rightarrow> role list \<Rightarrow> pydict \<Rightarrow> (role list \<times> pydict) result" where
  "appended validate payload roles mapping =
     (case validate payload of Inl e \<Rightarrow> Inl e | Inr r \<Rightarrow> Inr (roles @ [r], mapping))"

definition change_by_id ::
  "role_validator \<Rightarrow> reorg_role_change \<Rightarrow> role list \<times> pydict \<Rightarrow> (role list \<times> pydict) result" where
  "change_by_id validate c acc =
     (let roles = fst acc; mapping = snd acc; rid = xr_role_id c
      in if xr_action c = ''update''
         then bind_result (update_role_by_id validate rid (xr_role c) roles) (\<lambda>roles'. Inr (roles', mapping))
         else if xr_action c = ''add'' then appended validate (xr_role c) roles mapping
         else if xr_action c = ''remove''
         then Inr (drop_role rid roles, dset rid (PStr (if successor c = rid then [] else successor c)) mapping)
         else if xr_action c = ''replace''
         then (if xr_role c = [] then Inr (drop_role rid roles, dset rid (PStr (successor c)) mapping)
               else appended validate (brought_role c) (drop_role rid roles) (dset rid (PStr (successor c)) mapping))
         else Inr acc)"

fun changes_by_id ::
  "role_validator \<Rightarrow> reorg_role_change list \<Rightarrow> role list \<times> pydict \<Rightarrow> (role list \<times> pydict) result" where
  "changes_by_id validate [] acc = Inr acc"
| "changes_by_id validate (c # cs) acc = bind_result (change_by_id validate c acc) (changes_by_id validate cs)"

definition moves_roles :: "reorg_role_change \<Rightarrow> bool" where
  "moves_roles c \<longleftrightarrow> xr_action c \<in> {''remove'', ''replace''}"

fun updates_come_first :: "reorg_role_change list \<Rightarrow> bool" where
  "updates_come_first [] = True"
| "updates_come_first (c # cs) \<longleftrightarrow>
     (moves_roles c \<longrightarrow> list_all (\<lambda>d. xr_action d \<noteq> ''update'') cs) \<and> updates_come_first cs"

definition keeps_ids :: "role_validator \<Rightarrow> bool" where
  \<comment> \<open>a validated role has the id of its data\<close>
  "keeps_ids validate \<longleftrightarrow> (\<forall>d r. validate d = Inr r \<longrightarrow> role_id r = role_id d)"

definition update_ok :: "role list \<Rightarrow> reorg_role_change \<Rightarrow> bool" where
  \<comment> \<open>an update of a known role that leaves its id alone\<close>
  "update_ok base c \<longleftrightarrow>
     (xr_action c = ''update'' \<longrightarrow> xr_role_id c \<in> role_id ` set base \<and> ''id'' \<notin> fst ` set (xr_role c))"

lemma role_index_nth:
  assumes "distinct (map role_id base)" "i < length base"
  shows "role_index base (role_id (base ! i)) = Some i"
proof -
  let ?zs = "zip (map role_id base) [0..<length base]"
  have d: "distinct (map fst ?zs)" using assms(1) by simp
  have "(role_id (base ! i), i) \<in> set ?zs"
    using assms(2) by (auto simp: in_set_zip intro!: exI [of _ i])
  then have "map_of (rev ?zs) (role_id (base ! i)) = Some i"
    using d by (intro map_of_is_SomeI) (simp_all add: rev_map [symmetric])
  then show ?thesis by (simp add: role_index_def)
qed

lemma update_by_position:
  assumes "i < length roles" "role_id (roles ! i) = rid" "\<And>j. j < i \<Longrightarrow> role_id (roles ! j) \<noteq> rid"
  shows "update_role_by_id validate rid payload roles =
    bind_result (validate (dupdate (roles ! i) payload)) (\<lambda>r. Inr (roles[i := r]))"
  using assms
proof (induction roles arbitrary: i)
  case (Cons r rs)
  show ?case
  proof (cases i)
    case 0
    with Cons.prems show ?thesis by simp
  next
    case (Suc k)
    have "role_id r \<noteq> rid" using Cons.prems(3) [of 0] Suc by simp
    moreover have "update_role_by_id validate rid payload rs =
        bind_result (validate (dupdate (rs ! k) payload)) (\<lambda>r. Inr (rs[k := r]))"
      using Cons.IH [of k] Cons.prems(1,2) Cons.prems(3) [of "Suc _"] Suc by simp
    ultimately show ?thesis using Suc by (cases "validate (dupdate (rs ! k) payload)") simp_all
  qed
qed simp

text \<open>While no role has moved, the roles at the old positions have their old ids.\<close>

definition in_place :: "role list \<Rightarrow> role list \<Rightarrow> bool" where
  "in_place base roles \<longleftrightarrow> (\<exists>front new. roles = front @ new \<and> map role_id front = map role_id base)"

lemma update_in_place:
  assumes "distinct (map role_id base)" "in_place base roles" "update_ok base c" "xr_action c = ''update''"
  shows "apply_role_change validate (role_index base) c (roles, mapping) = change_by_id validate c (roles, mapping)"
proof -
  from assms(2) obtain front new where roles: "roles = front @ new" and ids: "map role_id front = map role_id base"
    by (auto simp: in_place_def)
  from assms(3,4) obtain i where i: "i < length base" "role_id (base ! i) = xr_role_id c"
    by (auto simp: update_ok_def in_set_conv_nth)
  have len: "length front = length base" using ids by (metis length_map)
  have same: "role_id (front ! j) = role_id (base ! j)" if "j < length base" for j
    using ids len that by (metis nth_map)
  have "role_index base (xr_role_id c) = Some i" using role_index_nth [OF assms(1) i(1)] i(2) by simp
  moreover have "update_role_by_id validate (xr_role_id c) (xr_role c) roles =
      bind_result (validate (dupdate (roles ! i) (xr_role c))) (\<lambda>r. Inr (roles[i := r]))"
  proof (rule update_by_position)
    show "i < length roles" "role_id (roles ! i) = xr_role_id c"
      using i len same by (simp_all add: roles nth_append)
    show "role_id (roles ! j) \<noteq> xr_role_id c" if "j < i" for j
    proof -
      have "role_id (base ! j) \<noteq> role_id (base ! i)"
        using nth_eq_iff_index_eq [OF assms(1), of j i] that i(1) by simp
      then show ?thesis using that i len same [of j] by (simp add: roles nth_append)
    qed
  qed
  ultimately show ?thesis
    using assms(4) i len roles
    by (cases "validate (dupdate (roles ! i) (xr_role c))")
       (simp_all add: apply_role_change_def change_by_id_def)
qed

lemma without_role_drop: "without_role rid roles = drop_role rid roles"
  by (induction roles) (simp_all add: without_role_def)

lemma target_role_successor: "target_role_id c = successor c"
  by (simp add: target_role_id_def successor_def or_text_def)

lemma added_role_appended:
  "bind_result (added_role validate c roles) (\<lambda>rs. Inr (rs, mapping)) =
     (if xr_role c = [] then Inr (roles, mapping) else appended validate (brought_role c) roles mapping)"
proof -
  have "dsetdefault ''id'' (PStr (target_role_id c)) (xr_role c) = brought_role c"
    by (auto simp: dsetdefault_def brought_role_def target_role_successor dhas_iff dset_fresh)
  then show ?thesis
    by (cases "validate (brought_role c)") (simp_all add: added_role_def appended_def)
qed

lemma change_without_index:
  assumes "xr_action c \<noteq> ''update''"
  shows "apply_role_change validate index c acc = change_by_id validate c acc"
proof -
  obtain roles mapping where acc: "acc = (roles, mapping)" by (cases acc)
  consider "xr_action c = ''add''" | "xr_action c = ''remove''" | "xr_action c = ''replace''"
    | "xr_action c \<notin> {''add'', ''remove'', ''replace''}" by blast
  then show ?thesis
  proof cases
    case 1
    then show ?thesis
      by (cases "validate (xr_role c)") (simp_all add: acc apply_role_change_def change_by_id_def appended_def)
  next
    case 3
    then have "apply_role_change validate index c acc =
        bind_result (added_role validate c (without_role (xr_role_id c) roles))
          (\<lambda>rs. Inr (rs, dset (xr_role_id c) (PStr (mapped_to c)) mapping))"
      by (simp add: acc apply_role_change_def)
    with 3 show ?thesis
      by (simp add: acc added_role_appended change_by_id_def without_role_drop mapped_to_def target_role_successor
          Let_def)
  qed (use assms in \<open>auto simp: acc apply_role_change_def change_by_id_def without_role_drop mapped_to_def
        target_role_successor Let_def\<close>)
qed

lemma changes_without_updates:
  "list_all (\<lambda>c. xr_action c \<noteq> ''update'') cs \<Longrightarrow>
   apply_role_changes validate index cs acc = changes_by_id validate cs acc"
proof (induction cs arbitrary: acc)
  case (Cons c cs)
  then show ?case
    by (cases "change_by_id validate c acc") (simp_all add: change_without_index)
qed simp

lemma raw_text_kept: "k \<notin> fst ` set u \<Longrightarrow> raw_text (dupdate d u) k = raw_text d k"
  by (simp add: raw_text_def dget_dupdate_other)

lemma added_result:
  "xr_action c = ''add'' \<Longrightarrow> apply_role_change validate index c (roles, mapping) = Inr (roles', mapping') \<Longrightarrow>
   \<exists>r. roles' = roles @ [r] \<and> mapping' = mapping"
  by (auto simp: apply_role_change_def bind_result_Inr_iff)

lemma updated_result:
  assumes "xr_action c = ''update''" "apply_role_change validate index c (roles, mapping) = Inr (roles', mapping')"
  obtains "roles' = roles" "mapping' = mapping"
  | i r where "i < length roles" "validate (dupdate (roles ! i) (xr_role c)) = Inr r" "roles' = roles[i := r]"
      "mapping' = mapping"
proof (cases "index (xr_role_id c)")
  case None
  with assms that(1) show thesis by (simp add: apply_role_change_def)
next
  case (Some i)
  with assms have "i < length roles" by (simp add: apply_role_change_def split: if_splits)
  with assms Some obtain r where "validate (dupdate (roles ! i) (xr_role c)) = Inr r" "roles' = roles[i := r]" "mapping' = mapping"
    by (cases "validate (dupdate (roles ! i) (xr_role c))") (simp_all add: apply_role_change_def)
  with that(2) \<open>i < length roles\<close> show thesis by blast
qed

lemma stays_in_place:
  assumes "in_place base roles" "keeps_ids validate" "\<not> moves_roles c" "update_ok base c"
    "apply_role_change validate index c (roles, mapping) = Inr (roles', mapping')"
  shows "in_place base roles'"
proof -
  from assms(1) obtain front new where roles: "roles = front @ new" and ids: "map role_id front = map role_id base"
    by (auto simp: in_place_def)
  consider "xr_action c = ''add''" | "xr_action c = ''update''" | "xr_action c \<notin> {''add'', ''update''}" by blast
  then show ?thesis
  proof cases
    case 1
    then obtain r where "roles' = front @ (new @ [r])"
      using added_result [OF 1 assms(5)] roles by auto
    with ids show ?thesis unfolding in_place_def by blast
  next
    case 2
    show ?thesis
    proof (cases rule: updated_result [OF 2 assms(5)])
      case 1
      with assms(1) show ?thesis by simp
    next
      case (2 i r)
      have "role_id r = role_id (roles ! i)"
        using assms(2) 2(2) assms(4) \<open>xr_action c = ''update''\<close>
        by (simp add: keeps_ids_def update_ok_def role_id_def raw_text_kept)
      then have "map role_id roles' = map role_id roles"
        using 2(1,3) by (simp add: map_update list_update_same_conv)
      then have "map role_id (take (length base) roles') = map role_id base"
        using ids roles by (metis append_eq_conv_conj length_map map_append take_map)
      then show ?thesis unfolding in_place_def by (intro exI [of _ "take (length base) roles'"] exI [of _ "drop (length base) roles'"]) simp
    qed
  next
    case 3
    with assms(3,5) have "roles' = roles" by (simp add: apply_role_change_def moves_roles_def)
    with assms(1) show ?thesis by simp
  qed
qed

lemma changes_in_place:
  assumes "distinct (map role_id base)" "keeps_ids validate"
  shows "in_place base roles \<Longrightarrow> list_all (update_ok base) cs \<Longrightarrow> updates_come_first cs \<Longrightarrow>
    apply_role_changes validate (role_index base) cs (roles, mapping) = changes_by_id validate cs (roles, mapping)"
proof (induction cs arbitrary: roles mapping)
  case (Cons c cs)
  have one: "apply_role_change validate (role_index base) c (roles, mapping) = change_by_id validate c (roles, mapping)"
    using update_in_place [OF assms(1) Cons.prems(1), of c validate mapping] Cons.prems(2) change_without_index by fastforce
  show ?case
  proof (cases "change_by_id validate c (roles, mapping)")
    case (Inr acc)
    obtain roles1 mapping1 where acc: "acc = (roles1, mapping1)" by (cases acc)
    have "apply_role_changes validate (role_index base) cs acc = changes_by_id validate cs acc"
    proof (cases "moves_roles c")
      case True
      with Cons.prems(3) show ?thesis by (intro changes_without_updates) simp
    next
      case False
      from stays_in_place [OF Cons.prems(1) assms(2) False, of "role_index base" mapping roles1 mapping1] Cons.prems(2)
      have "in_place base roles1" using one Inr acc by simp
      with Cons.IH [of roles1 mapping1] Cons.prems(2,3) show ?thesis by (simp add: acc)
    qed
    with one Inr show ?thesis by simp
  qed (simp add: one)
qed simp

section \<open>Properties\<close>

text \<open>C14. Role changes reach the roles they name, under four conditions.  If the ids of the
  organization are distinct, the validation of a role keeps the id of its data, every update names a
  role of the organization and does not carry an id in its payload, and no update follows a removal
  or a replacement, then the loop with its table of positions gives, for roles and mapping, what the
  reference gives that changes each role by its id, errors included.  Without the conditions it does
  not: a changed id or a shifted position makes an update hit another role.\<close>

theorem role_changes_reach_their_roles:
  assumes "distinct (map role_id base)" "keeps_ids validate" "list_all (update_ok base) cs" "updates_come_first cs"
  shows "apply_role_changes validate (role_index base) cs (base, []) = changes_by_id validate cs (base, [])"
proof (rule changes_in_place [OF assms(1,2) _ assms(3,4)])
  show "in_place base base" unfolding in_place_def by (intro exI [of _ base] exI [of _ "[]"]) simp
qed

definition plain_role :: "string \<Rightarrow> role" where
  "plain_role rid = [(''id'', PStr rid), (''name'', PStr rid)]"

definition role_renaming :: "string \<Rightarrow> reorg_role_change" where
  "role_renaming rid =
     \<lparr>xr_action = ''update'', xr_role_id = rid, xr_replacement_role_id = None,
      xr_role = [(''name'', PStr ''renamed'')], xr_reason = []\<rparr>"

definition role_removal :: "string \<Rightarrow> reorg_role_change" where
  "role_removal rid =
     \<lparr>xr_action = ''remove'', xr_role_id = rid, xr_replacement_role_id = None, xr_role = [], xr_reason = []\<rparr>"

theorem role_changes_reach_their_roles_witness:
  "apply_role_changes Inr (role_index (map plain_role [''a'', ''b'', ''c''])) [role_renaming ''b'', role_removal ''a'']
     (map plain_role [''a'', ''b'', ''c''], []) =
   changes_by_id Inr [role_renaming ''b'', role_removal ''a''] (map plain_role [''a'', ''b'', ''c''], [])"
proof (rule role_changes_reach_their_roles)
  show "distinct (map role_id (map plain_role [''a'', ''b'', ''c'']))" by code_simp
  show "keeps_ids Inr" by (simp add: keeps_ids_def)
  show "list_all (update_ok (map plain_role [''a'', ''b'', ''c''])) [role_renaming ''b'', role_removal ''a'']"
    by code_simp
  show "updates_come_first [role_renaming ''b'', role_removal ''a'']" by code_simp
qed

text \<open>In the other order the table of positions is stale: the update of \<open>b\<close> renames \<open>c\<close>.\<close>

theorem update_after_remove_hits_another_role:
  "apply_role_changes Inr (role_index (map plain_role [''a'', ''b'', ''c''])) [role_removal ''a'', role_renaming ''b'']
     (map plain_role [''a'', ''b'', ''c''], []) =
   Inr ([plain_role ''b'', [(''id'', PStr ''c''), (''name'', PStr ''renamed'')]], [(''a'', PStr [])])"
  by code_simp

text \<open>... and the update of the last role raises.\<close>

theorem update_after_remove_can_raise:
  "apply_role_changes Inr (role_index (map plain_role [''a'', ''b'', ''c''])) [role_removal ''a'', role_renaming ''c'']
     (map plain_role [''a'', ''b'', ''c''], []) = Inl IndexError"
  by code_simp

text \<open>The owner is shown the mapping of roles that is applied.  If each removal names no
  replacement and each replacement names its new role in \<open>replacement_role_id\<close>, a successful
  application returns the mapping of the migration plan of the proposal.\<close>

definition plain_move :: "reorg_role_change \<Rightarrow> bool" where
  "plain_move c \<longleftrightarrow>
     (xr_action c = ''remove'' \<longrightarrow> target_role_id c = xr_role_id c) \<and>
     (xr_action c = ''replace'' \<longrightarrow> opt_raw (xr_replacement_role_id c) \<noteq> [])"

lemma mapping_step:
  assumes "plain_move c" "apply_role_change validate index c (roles, mapping) = Inr (roles', mapping')"
  shows "mapping' = plan_role c mapping"
proof -
  have "xr_action c = ''replace'' \<Longrightarrow> mapped_to c = opt_raw (xr_replacement_role_id c)"
    using assms(1) by (simp add: plain_move_def mapped_to_def target_role_id_def or_text_def)
  moreover have "xr_action c = ''remove'' \<Longrightarrow> mapped_to c = []"
    using assms(1) by (simp add: plain_move_def mapped_to_def)
  ultimately show ?thesis
    using assms unfolding apply_role_change_def plan_role_def plain_move_def
    by (auto simp: bind_result_Inr_iff split: if_splits option.splits)
qed

lemma mapping_run:
  "list_all plain_move cs \<Longrightarrow> apply_role_changes validate index cs (roles, mapping) = Inr (roles', mapping') \<Longrightarrow>
   mapping' = fold plan_role cs mapping"
proof (induction cs arbitrary: roles mapping)
  case (Cons c cs)
  from Cons.prems(2) obtain roles1 mapping1 where one: "apply_role_change validate index c (roles, mapping) = Inr (roles1, mapping1)"
    and rest: "apply_role_changes validate index cs (roles1, mapping1) = Inr (roles', mapping')"
    by (auto simp: bind_result_Inr_iff)
  from mapping_step [OF _ one] Cons.IH [OF _ rest] Cons.prems(1) show ?case by simp
qed simp

theorem planned_mapping_is_applied:
  assumes "list_all plain_move (xs_role_changes cs)"
    "apply_changeset validate builtin agents og cs = (Inr result, og')"
  shows "cr_role_mapping result = planned_role_mapping (xs_role_changes cs)"
proof -
  from assms(2) obtain base roles mapping where
    "apply_role_changes validate (role_index base) (xs_role_changes cs) (base, []) = Inr (roles, mapping)"
    "cr_role_mapping result = mapping"
    by (auto simp: apply_changeset_def Let_def split: if_splits sum.splits)
  with mapping_run [OF assms(1)] show ?thesis by (simp add: planned_role_mapping_def)
qed

definition sample_org :: org_engine where
  "sample_org =
     \<lparr>og_company_profile = ''custom'', og_roles = map plain_role [''a'', ''b'', ''c''], og_org_version = 4\<rparr>"

definition sample_changes :: "reorg_role_change list \<Rightarrow> reorg_changeset" where
  "sample_changes cs = \<lparr>xs_role_changes = cs, xs_task_adjustments = [], xs_metadata = []\<rparr>"

theorem planned_mapping_is_applied_witness:
  "\<exists>result og'. apply_changeset Inr (\<lambda>rs. rs) [] sample_org (sample_changes [role_removal ''a'']) = (Inr result, og') \<and>
     cr_role_mapping result = planned_role_mapping [role_removal ''a'']"
proof -
  have "case fst (apply_changeset Inr (\<lambda>rs. rs) [] sample_org (sample_changes [role_removal ''a''])) of Inl _ \<Rightarrow> False | Inr _ \<Rightarrow> True"
    by code_simp
  then obtain result og' where run: "apply_changeset Inr (\<lambda>rs. rs) [] sample_org (sample_changes [role_removal ''a'']) = (Inr result, og')"
    by (cases "apply_changeset Inr (\<lambda>rs. rs) [] sample_org (sample_changes [role_removal ''a''])") (auto split: sum.splits)
  have "list_all plain_move (xs_role_changes (sample_changes [role_removal ''a'']))" by code_simp
  from planned_mapping_is_applied [OF this run] run show ?thesis by (auto simp: sample_changes_def)
qed

text \<open>A removal with a replacement is planned as a cancellation and applied as a move.\<close>

theorem removal_with_replacement_is_planned_otherwise:
  "planned_role_mapping [(role_removal ''a'')\<lparr>xr_replacement_role_id := Some ''b''\<rparr>] = [(''a'', PStr [])] \<and>
   (case fst (apply_changeset Inr (\<lambda>rs. rs) [] sample_org
            (sample_changes [(role_removal ''a'')\<lparr>xr_replacement_role_id := Some ''b''\<rparr>])) of
      Inr result \<Rightarrow> cr_role_mapping result = [(''a'', PStr ''b'')] | Inl _ \<Rightarrow> False)"
  by code_simp

end
