(* ===== verification/ReorgMigration.thy ===== *)
theory ReorgMigration
  imports ReorgSafety OrgChanges ControllerTasks "HOL-Library.Sublist"
begin

text \<open>
  The application of an approved reorganization, \<open>apply_reorg\<close> of
  \<open>opc/layer2_organization/reorg_manager.py\<close>: the claim, the change of the roles, the migration of
  active tasks and checkpoints to the new roles, and the settlement of the claim.  The two snapshots
  of the organization and the configuration file are outside of the model; how writing each of them
  ends, with an id or with an error, is given by the environment of the call.  Event records are
  left out.
\<close>

section \<open>One task\<close>

definition ACTIVE_TASK_STATUSES :: "task_status list" where
  "ACTIVE_TASK_STATUSES =
     [TS_PENDING, TS_BLOCKED, TS_AWAITING_PEER, TS_AWAITING_MANAGER_REVIEW, TS_AWAITING_HUMAN, TS_AWAITING_REVIEW]"

definition py_dict :: "pyval \<Rightarrow> pydict result" where
  \<comment> \<open>\<open>dict(v)\<close>\<close>
  "py_dict v = (case v of PDict d \<Rightarrow> Inr d | PNone \<Rightarrow> Inl TypeError | PStr [] \<Rightarrow> Inr [] | _ \<Rightarrow>
     if truthy v then dict_or_empty v else (case v of PList _ \<Rightarrow> Inr [] | _ \<Rightarrow> Inl TypeError))"

definition role_after :: "pydict \<Rightarrow> string \<Rightarrow> string" where
  \<comment> \<open>\<open>role_mapping.get(r, r)\<close>\<close>
  "role_after mapping r = (case map_of mapping r of Some (PStr s) \<Rightarrow> s | _ \<Rightarrow> r)"

definition agent_after :: "pydict \<Rightarrow> pyval \<Rightarrow> pyval result" where
  "agent_after mapping v =
     (case v of PStr s \<Rightarrow> Inr (PStr (role_after mapping s))
      | PList _ \<Rightarrow> Inl TypeError | PDict _ \<Rightarrow> Inl TypeError | _ \<Rightarrow> Inr v)"

definition agents_after :: "pydict \<Rightarrow> pyval list \<Rightarrow> pyval list result" where
  "agents_after mapping xs = bind_result (map_result (agent_after mapping) xs) (\<lambda>ys. Inr (filter truthy ys))"

definition current_role :: "task \<Rightarrow> string" where
  "current_role t =
     or_text (tk_assigned_to t) (py_str (dget_or (tk_metadata t) ''work_item_role_id'' (PStr [])))"

definition put_role :: "string \<Rightarrow> task \<Rightarrow> task" where
  "put_role rid t =
     t\<lparr>tk_assigned_to := rid, tk_metadata := dset ''work_item_role_id'' (PStr rid) (tk_metadata t)\<rparr>"

definition move_role :: "pydict \<Rightarrow> task \<Rightarrow> task" where
  "move_role mapping t =
     (let cur = current_role t; new_role = role_after mapping cur
      in if cur \<noteq> [] \<and> new_role \<noteq> [] \<and> new_role \<noteq> cur then put_role new_role t
         else if cur \<noteq> [] \<and> new_role = [] then t\<lparr>tk_status := TS_CANCELLED\<rparr> else t)"

definition adjustment_note :: "string \<Rightarrow> string \<Rightarrow> string" where
  "adjustment_note description addition =
     (if sublist addition description then description
      else py_strip (description @ [CHR 0x0A, CHR 0x0A] @ ''Adjustment note:'' @ [CHR 0x0A] @ addition))"

definition add_criterion :: "string \<Rightarrow> pyval list \<Rightarrow> pyval list" where
  "add_criterion x cs = (if list_ex (py_eq (PStr x)) cs then cs else cs @ [PStr x])"

definition apply_task_adjustment :: "reorg_task_adjustment \<Rightarrow> task \<Rightarrow> task result" where
  "apply_task_adjustment a t =
     (if xa_task_id a \<noteq> [] \<and> xa_task_id a \<noteq> tk_id t then Inr t
      else if xa_action a = ''reassign'' \<and> opt_raw (xa_new_role_id a) \<noteq> []
      then Inr (put_role (opt_raw (xa_new_role_id a)) t)
      else if xa_action a = ''reprioritize'' \<and> xa_priority a \<noteq> None
      then Inr (t\<lparr>tk_priority := the (xa_priority a)\<rparr>)
      else if xa_action a = ''update_description'' \<and> py_strip (xa_description_append a) \<noteq> []
      then Inr (t\<lparr>tk_description := adjustment_note (tk_description t) (py_strip (xa_description_append a))\<rparr>)
      else if xa_action a = ''append_acceptance_criteria'' \<and> xa_acceptance_criteria a \<noteq> []
      then bind_result (py_list (dget_or (tk_metadata t) ''acceptance_criteria'' (PList []))) (\<lambda>cs.
           Inr (t\<lparr>tk_metadata := dset ''acceptance_criteria''
                    (PList (fold add_criterion (xa_acceptance_criteria a) cs)) (tk_metadata t)\<rparr>))
      else if xa_action a = ''request_review''
      then Inr (t\<lparr>tk_metadata := dset ''force_additional_review'' (PBool True) (tk_metadata t)\<rparr>)
      else Inr t)"

fun apply_task_adjustments :: "reorg_task_adjustment list \<Rightarrow> task \<Rightarrow> task result" where
  "apply_task_adjustments [] t = Inr t"
| "apply_task_adjustments (a # as) t = bind_result (apply_task_adjustment a t) (apply_task_adjustments as)"

definition move_peer_wait :: "pydict \<Rightarrow> task \<Rightarrow> task result" where
  "move_peer_wait mapping t =
     bind_result (py_dict (dget_or (tk_metadata t) ''peer_wait'' (PDict []))) (\<lambda>wait.
       if wait = [] then Inr t
       else bind_result (py_list (dget_or wait ''waiting_on_agents'' (PList []))) (\<lambda>agents.
            bind_result (agents_after mapping agents) (\<lambda>moved.
            Inr (t\<lparr>tk_metadata :=
                   dset ''peer_wait'' (PDict (dset ''waiting_on_agents'' (PList moved) wait)) (tk_metadata t)\<rparr>))))"

definition move_meeting :: "pydict \<Rightarrow> task \<Rightarrow> task result" where
  "move_meeting mapping t =
     bind_result (py_dict (dget_or (tk_context_snapshot t) ''active_meeting'' (PDict []))) (\<lambda>meeting.
       if meeting = [] then Inr t
       else bind_result (py_list (dget_or meeting ''participants'' (PList []))) (\<lambda>agents.
            if agents = [] then Inr t
            else bind_result (agents_after mapping agents) (\<lambda>moved.
            Inr (t\<lparr>tk_context_snapshot :=
                   dset ''active_meeting'' (PDict (dset ''participants'' (PList moved) meeting))
                     (tk_context_snapshot t)\<rparr>))))"

definition mark_migrated :: "reorg_proposal \<Rightarrow> pydict \<Rightarrow> int \<Rightarrow> string \<Rightarrow> task \<Rightarrow> task" where
  "mark_migrated p mapping target previous t =
     t\<lparr>tk_metadata := dupdate (tk_metadata t)
         [(''org_version'', PInt target), (''reorg_proposal_id'', PStr (rp_proposal_id p)),
          (''migration_status'', PStr ''migrated''), (''superseded_by_reorg'', PStr (rp_proposal_id p))],
       tk_context_snapshot := dupdate (tk_context_snapshot t)
         [(''migration_reason'', PStr (rp_summary p)), (''migration_role_mapping'', PDict mapping),
          (''migration_handoff'', PDict
             [(''proposal_id'', PStr (rp_proposal_id p)), (''reason'', PStr (rp_summary p)),
              (''previous_role'', PStr previous), (''current_role'', PStr (tk_assigned_to t))])]\<rparr>"

definition migrate_task :: "reorg_proposal \<Rightarrow> pydict \<Rightarrow> int \<Rightarrow> task \<Rightarrow> task result" where
  "migrate_task p mapping target t =
     bind_result (apply_task_adjustments (xs_task_adjustments (rp_changeset p)) (move_role mapping t)) (\<lambda>t1.
     bind_result (move_peer_wait mapping t1) (\<lambda>t2.
     bind_result (move_meeting mapping t2) (\<lambda>t3.
     Inr (mark_migrated p mapping target (current_role t) t3))))"

definition mark_running :: "reorg_proposal \<Rightarrow> task \<Rightarrow> task" where
  "mark_running p t =
     t\<lparr>tk_metadata := dupdate (tk_metadata t)
         [(''migration_status'', PStr ''pending_running_completion''),
          (''reorg_proposal_id'', PStr (rp_proposal_id p))]\<rparr>"

section \<open>The active state\<close>

definition get_tasks :: "store \<Rightarrow> string \<Rightarrow> task list" where
  \<comment> \<open>\<open>ORDER BY priority, created_at\<close>; the rows are in the order of their creation\<close>
  "get_tasks st project =
     sort_key tk_priority (filter (\<lambda>t. project = [] \<or> tk_project_id t = project) (st_tasks st))"

text \<open>Each save is a transaction of its own: what was saved before an exception stays.\<close>

fun migrate_tasks ::
  "string \<Rightarrow> subagent_run list \<Rightarrow> reorg_proposal \<Rightarrow> pydict \<Rightarrow> int \<Rightarrow> int \<Rightarrow> task list \<Rightarrow> store
     \<Rightarrow> string list result \<times> store" where
  "migrate_tasks sp subagents p mapping target now [] st = (Inr [], st)"
| "migrate_tasks sp subagents p mapping target now (t # ts) st =
     (if tk_status t = TS_RUNNING then
        (case save_task sp subagents st (mark_running p t) now of
           (Inl e, _, st') \<Rightarrow> (Inl e, st')
         | (Inr _, _, st') \<Rightarrow> migrate_tasks sp subagents p mapping target now ts st')
      else if tk_status t \<notin> set ACTIVE_TASK_STATUSES then migrate_tasks sp subagents p mapping target now ts st
      else case migrate_task p mapping target t of
             Inl e \<Rightarrow> (Inl e, st)
           | Inr t' \<Rightarrow>
               (case save_task sp subagents st t' now of
                  (Inl e, _, st') \<Rightarrow> (Inl e, st')
                | (Inr _, _, st') \<Rightarrow>
                    let (r, st'') = migrate_tasks sp subagents p mapping target now ts st'
                    in (bind_result r (\<lambda>ids. Inr (tk_id t # ids)), st'')))"

definition migration_patch :: "reorg_proposal \<Rightarrow> int \<Rightarrow> pydict" where
  "migration_patch p target = [(''org_version'', PInt target), (''reorg_proposal_id'', PStr (rp_proposal_id p))]"

definition migrate_checkpoint ::
  "string \<Rightarrow> string option \<Rightarrow> reorg_proposal \<Rightarrow> int \<Rightarrow> int \<Rightarrow> checkpoint \<Rightarrow> tool_db
     \<Rightarrow> (checkpoint option \<times> bool) result \<times> tool_db" where
  \<comment> \<open>\<open>coordinator\<close>: the project of the interaction coordinator, if there is one\<close>
  "migrate_checkpoint sp coordinator p target now cp tools =
     (if owner_type (cp_type cp) then
        (case coordinator of
           None \<Rightarrow> (Inl RuntimeError, tools)
         | Some project \<Rightarrow>
             enrich_owner_interaction_checkpoint tools (cp_checkpoint_id cp) project (cp_type cp) [cp_status cp]
               (migration_patch p target) now)
      else patch_execution_checkpoint_payload sp tools (cp_checkpoint_id cp) (cp_project_id cp) (cp_type cp)
             [cp_status cp] (migration_patch p target) [] now)"

fun migrate_checkpoints ::
  "string \<Rightarrow> string option \<Rightarrow> reorg_proposal \<Rightarrow> int \<Rightarrow> int \<Rightarrow> checkpoint list \<Rightarrow> tool_db
     \<Rightarrow> string list result \<times> tool_db" where
  "migrate_checkpoints sp coordinator p target now [] tools = (Inr [], tools)"
| "migrate_checkpoints sp coordinator p target now (cp # cps) tools =
     (case migrate_checkpoint sp coordinator p target now cp tools of
        (Inl e, tools') \<Rightarrow> (Inl e, tools')
      | (Inr (_, applied), tools') \<Rightarrow>
          let (r, tools'') = migrate_checkpoints sp coordinator p target now cps tools'
          in (bind_result r (\<lambda>ids. Inr (if applied then cp_checkpoint_id cp # ids else ids)), tools''))"

definition migrate_active_state ::
  "string \<Rightarrow> subagent_run list \<Rightarrow> string option \<Rightarrow> reorg_proposal \<Rightarrow> change_result \<Rightarrow> int \<Rightarrow> tool_db
     \<Rightarrow> (string list \<times> string list) result \<times> tool_db" where
  "migrate_active_state sp subagents coordinator p c now tools =
     (let target = cr_new_org_version c;
          cps = get_execution_checkpoints tools (rp_project_id p) None [] [''pending'', ''answered'', ''consuming''];
          (r, st) = migrate_tasks sp subagents p (cr_role_mapping c) target now
            (get_tasks (td_store tools) (rp_project_id p)) (td_store tools);
          tools1 = tools\<lparr>td_store := st\<rparr>
      in case r of
           Inl e \<Rightarrow> (Inl e, tools1)
         | Inr task_ids \<Rightarrow>
             (let (s, tools2) = migrate_checkpoints sp coordinator p target now cps tools1
              in (bind_result s (\<lambda>cp_ids. Inr (task_ids, cp_ids)), tools2)))"

section \<open>The application\<close>

record apply_env =
  ae_validate :: role_validator
  ae_builtin :: "role list \<Rightarrow> role list"
  ae_agents :: "string list"
  ae_subagents :: "subagent_run list"
  ae_coordinator :: "string option"
  ae_save_config :: "unit result"
  ae_before_snapshot :: "string result"
  ae_after_snapshot :: "string result"
  ae_message :: "pyerr \<Rightarrow> string"

definition texts :: "string list \<Rightarrow> pyval" where
  "texts xs = PList (map PStr xs)"

definition migration_summary :: "change_result \<Rightarrow> string list \<times> string list \<Rightarrow> pydict" where
  "migration_summary c ids =
     [(''migrated_task_ids'', texts (fst ids)), (''migrated_checkpoint_ids'', texts (snd ids)),
      (''target_org_version'', PInt (cr_new_org_version c))]"

definition change_json :: "change_result \<Rightarrow> pydict" where
  "change_json c =
     [(''old_org_version'', PInt (cr_old_org_version c)), (''new_org_version'', PInt (cr_new_org_version c)),
      (''role_mapping'', PDict (cr_role_mapping c))]"

definition apply_result :: "reorg_proposal \<Rightarrow> string \<Rightarrow> change_result \<Rightarrow> string list \<times> string list \<Rightarrow> pydict" where
  "apply_result p snapshot c ids =
     [(''proposal_id'', PStr (rp_proposal_id p)), (''status'', PStr (reorg_status_value RP_APPLIED)),
      (''migration_summary'', PDict (migration_summary c ids)), (''change_result'', PDict (change_json c)),
      (''snapshot_id'', PStr snapshot)]"

definition applied_proposal ::
  "string \<Rightarrow> string \<Rightarrow> reorg_proposal \<Rightarrow> change_result \<Rightarrow> string list \<times> string list \<Rightarrow> int \<Rightarrow> reorg_proposal" where
  "applied_proposal before_id after_id p c ids now =
     p\<lparr>rp_status := RP_APPLIED, rp_old_org_version := cr_old_org_version c, rp_new_org_version := cr_new_org_version c,
       rp_migration_plan := (rp_migration_plan p)
         \<lparr>mp_rollback_snapshot_id := Some before_id, mp_role_mapping := cr_role_mapping c,
          mp_affected_task_ids := fst ids, mp_affected_checkpoint_ids := snd ids,
          mp_metadata := dupdate (mp_metadata (rp_migration_plan p))
            [(''target_org_version'', PInt (cr_new_org_version c)),
             (''migration_summary'', PDict (migration_summary c ids))]\<rparr>,
       rp_updated_at := now,
       rp_metadata := dupdate (rp_metadata p)
         [(''applied_snapshot_id'', PStr after_id),
          (''apply_result'', PDict (apply_result p after_id c ids))]\<rparr>"

definition persisted_apply_result :: "reorg_proposal \<Rightarrow> pydict result" where
  "persisted_apply_result p =
     (case dget (rp_metadata p) ''apply_result'' of
        PDict (kv # saved) \<Rightarrow> Inr (kv # saved)
      | _ \<Rightarrow>
          bind_result (dict_or_empty (dget (mp_metadata (rp_migration_plan p)) ''migration_summary'')) (\<lambda>summary.
          Inr [(''proposal_id'', PStr (rp_proposal_id p)), (''status'', PStr (reorg_status_value RP_APPLIED)),
               (''migration_summary'', PDict summary),
               (''change_result'', PDict
                  [(''old_org_version'', PInt (rp_old_org_version p)), (''new_org_version'', PInt (rp_new_org_version p)),
                   (''role_mapping'', PDict (mp_role_mapping (rp_migration_plan p)))]),
               (''snapshot_id'', PStr (raw_text (rp_metadata p) ''applied_snapshot_id''))]))"

definition change_roles ::
  "apply_env \<Rightarrow> org_engine \<Rightarrow> reorg_proposal \<Rightarrow> change_result result \<times> org_engine" where
  "change_roles env og p =
     (if rp_scope p = ORG_MUTATION \<or> xs_role_changes (rp_changeset p) \<noteq> []
      then
        let (r, og') = apply_changeset (ae_validate env) (ae_builtin env) (ae_agents env) og (rp_changeset p)
        in (bind_result r (\<lambda>c. bind_result (ae_save_config env) (\<lambda>_. Inr c)), og')
      else (Inr \<lparr>cr_old_org_version = og_org_version og, cr_new_org_version = og_org_version og,
                 cr_role_mapping = []\<rparr>, og))"

text \<open>
  The effects and their settlement, for a proposal whose claim was acquired.  The flag is
  \<open>effect_started\<close>, as it stands when the effects return or raise: it is set after the first
  snapshot, before the roles change.  It decides what an exception is recorded as.
\<close>

text \<open>The ids of the two snapshots, the change of the roles and the ids of what was migrated.\<close>

type_synonym applied_effects = "string \<times> string \<times> change_result \<times> string list \<times> string list"

definition application_effects ::
  "string \<Rightarrow> apply_env \<Rightarrow> org_engine \<Rightarrow> reorg_proposal \<Rightarrow> int \<Rightarrow> tool_db
     \<Rightarrow> applied_effects result \<times> bool \<times> org_engine \<times> tool_db" where
  "application_effects sp env og p now tools =
     (case ae_before_snapshot env of
        Inl e \<Rightarrow> (Inl e, False, og, tools)
      | Inr before_id \<Rightarrow>
          (case change_roles env og p of
             (Inl e, og') \<Rightarrow> (Inl e, True, og', tools)
           | (Inr c, og') \<Rightarrow>
               (let (r, tools') = migrate_active_state sp (ae_subagents env) (ae_coordinator env) p c now tools
                in (bind_result r (\<lambda>ids. bind_result (ae_after_snapshot env) (\<lambda>after_id.
                      Inr (before_id, after_id, c, ids))), True, og', tools'))))"

definition settle_application ::
  "clock \<Rightarrow> apply_env \<Rightarrow> reorg_proposal \<Rightarrow> string \<Rightarrow> int
     \<Rightarrow> applied_effects result \<Rightarrow> bool \<Rightarrow> reorg_db \<Rightarrow> pydict result \<times> reorg_db" where
  "settle_application ck env p token now effects effect_started db =
     (let failed = (\<lambda>e db'. (Inl e,
            snd (fail_reorg_application ck db' (rp_proposal_id p) token effect_started (ae_message env e) now)))
      in case effects of
           Inl e \<Rightarrow> failed e db
         | Inr (before_id, after_id, c, ids) \<Rightarrow>
             (case finish_reorg_application ck db (applied_proposal before_id after_id p c ids now) token now of
                (Inl e, db') \<Rightarrow> failed e db'
              | (Inr rc, db') \<Rightarrow>
                  if receipt_applied rc then (Inr (apply_result p after_id c ids), db')
                  else failed RuntimeError db'))"

text \<open>The flag in the result says that the claim was acquired and the effects began.\<close>

definition apply_reorg ::
  "clock \<Rightarrow> string \<Rightarrow> apply_env \<Rightarrow> org_engine \<Rightarrow> reorg_db \<Rightarrow> string \<Rightarrow> string \<Rightarrow> int
     \<Rightarrow> pydict result \<times> bool \<times> org_engine \<times> reorg_db" where
  "apply_reorg ck sp env og db pid token now =
     (case claim_reorg_application ck db pid token now of
        (Inl e, db1) \<Rightarrow> (Inl e, False, og, db1)
      | (Inr rc, db1) \<Rightarrow>
          (case rr_proposal rc of
             None \<Rightarrow> (Inl (if rr_outcome rc \<in> {''busy'', ''duplicate''} then RuntimeError else ValueError), False, og, db1)
           | Some p \<Rightarrow>
               if rr_outcome rc = ''applied'' then (persisted_apply_result p, False, og, db1)
               else if rr_outcome rc \<in> {''busy'', ''duplicate''} then (Inl RuntimeError, False, og, db1)
               else if rr_outcome rc \<in> {''not_found'', ''invalid_state''} then (Inl ValueError, False, og, db1)
               else if rr_outcome rc \<noteq> ''acquired'' then (Inl RuntimeError, False, og, db1)
               else
                 let (effects, began, og', tools) = application_effects sp env og p now (rd_tools db1);
                     (r, db') = settle_application ck env p token now effects began (db1\<lparr>rd_tools := tools\<rparr>)
                 in (r, began, og', db')))"

section \<open>Applications as histories\<close>

definition reorg_run :: "clock \<Rightarrow> string \<Rightarrow> reorg_db \<Rightarrow> reorg_event list \<Rightarrow> reorg_db \<Rightarrow> bool" where
  "reorg_run ck sp db es db' \<longleftrightarrow>
     (\<exists>xs. list_all (\<lambda>x. reorg_op_ok (fst x)) xs \<and> run_ops (reorg_step ck sp) xs db = (es, db'))"

lemma reorg_run_refl: "reorg_run ck sp db [] db"
  unfolding reorg_run_def by (intro exI [of _ "[]"]) simp

lemma reorg_run_step:
  "reorg_op_ok x \<Longrightarrow> reorg_step ck sp (x, now) db = (es, db') \<Longrightarrow> reorg_run ck sp db es db'"
  unfolding reorg_run_def by (intro exI [of _ "[(x, now)]"]) simp

lemma reorg_run_trans:
  assumes "reorg_run ck sp a es b" "reorg_run ck sp b fs c"
  shows "reorg_run ck sp a (es @ fs) c"
proof -
  from assms obtain xs ys where
    "list_all (\<lambda>x. reorg_op_ok (fst x)) (xs @ ys)" "run_ops (reorg_step ck sp) xs a = (es, b)"
    "run_ops (reorg_step ck sp) ys b = (fs, c)"
    by (auto simp: reorg_run_def)
  then show ?thesis unfolding reorg_run_def by (intro exI [of _ "xs @ ys"]) (simp add: run_ops_append)
qed

lemma owner_ops_run:
  "run_ops (reorg_step ck sp) (map (\<lambda>(x, t). (OwnerOp x, t)) xs) db =
     ([], db\<lparr>rd_tools := snd (run_ops (card_op_step ck sp) xs (rd_tools db))\<rparr>)"
proof (induction xs arbitrary: db)
  case (Cons x xs)
  show ?case
    by (cases x) (simp add: Cons.IH snd_run_ops_Cons Let_def split: prod.splits)
qed simp

lemma tools_as_reorg_run:
  assumes "tools_run ck sp (rd_tools db) tools"
  shows "reorg_run ck sp db [] (db\<lparr>rd_tools := tools\<rparr>)"
proof -
  from assms obtain xs where xs: "list_all (\<lambda>x. op_ok (fst x)) xs" "snd (run_ops (card_op_step ck sp) xs (rd_tools db)) = tools"
    by (auto simp: tools_run_def)
  have "list_all (\<lambda>x. reorg_op_ok (fst x)) (map (\<lambda>(x, t). (OwnerOp x, t)) xs)"
    using xs(1) by (auto simp: list_all_iff reorg_op_ok_def)
  with xs(2) owner_ops_run [of ck sp xs db] show ?thesis unfolding reorg_run_def by auto
qed

text \<open>The effects change the tables of tools only, as card operations do.\<close>

lemma checkpoint_migration_runs:
  assumes "migrate_checkpoint sp coordinator p target now cp tools = (r, tools')"
  shows "tools_run ck sp tools tools'"
proof (cases "owner_type (cp_type cp)")
  case True
  then show ?thesis
  proof (cases coordinator)
    case None
    with True assms show ?thesis by (simp add: migrate_checkpoint_def tools_run_refl)
  next
    case (Some project)
    with True assms show ?thesis
      by (intro tools_run_op [of "Enrich (cp_checkpoint_id cp) project (cp_type cp) [cp_status cp] (migration_patch p target)"
            ck sp now _ "[]"]) (simp_all add: migrate_checkpoint_def op_ok_def)
  qed
next
  case False
  with assms show ?thesis
    by (intro tools_run_op [of "Patch (cp_checkpoint_id cp) (cp_project_id cp) (cp_type cp) [cp_status cp] (migration_patch p target) []"
          ck sp now _ "[]"]) (simp_all add: migrate_checkpoint_def op_ok_def)
qed

lemma checkpoints_migration_runs:
  "migrate_checkpoints sp coordinator p target now cps tools = (r, tools') \<Longrightarrow> tools_run ck sp tools tools'"
proof (induction cps arbitrary: tools r)
  case Nil
  then show ?case by (simp add: tools_run_refl)
next
  case (Cons cp cps)
  obtain r1 tools1 where one: "migrate_checkpoint sp coordinator p target now cp tools = (r1, tools1)" by fastforce
  note run1 = checkpoint_migration_runs [OF one, of ck]
  show ?case
  proof (cases r1)
    case (Inl e)
    with Cons.prems one run1 show ?thesis by simp
  next
    case (Inr x)
    obtain r2 tools2 where rest: "migrate_checkpoints sp coordinator p target now cps tools1 = (r2, tools2)" by fastforce
    with Cons.prems one Inr have "tools' = tools2" by (cases x) (simp add: Let_def)
    then have "tools_run ck sp tools1 tools'" using Cons.IH [of tools1 r2] rest by simp
    then show ?thesis by (rule tools_run_trans [OF run1])
  qed
qed

lemma migration_runs:
  assumes "migrate_active_state sp subagents coordinator p c now tools = (r, tools')"
  shows "tools_run ck sp tools tools'"
proof -
  obtain r1 st where tasks: "migrate_tasks sp subagents p (cr_role_mapping c) (cr_new_org_version c) now
      (get_tasks (td_store tools) (rp_project_id p)) (td_store tools) = (r1, st)" by fastforce
  let ?cps = "get_execution_checkpoints tools (rp_project_id p) None [] [''pending'', ''answered'', ''consuming'']"
  obtain r2 tools2 where cps: "migrate_checkpoints sp coordinator p (cr_new_org_version c) now ?cps
      (tools\<lparr>td_store := st\<rparr>) = (r2, tools2)" by fastforce
  have "tools' = tools\<lparr>td_store := st\<rparr> \<or> tools' = tools2"
    using assms tasks cps by (cases r1) (simp_all add: migrate_active_state_def)
  with tools_run_store tools_run_trans [OF tools_run_store checkpoints_migration_runs [OF cps, of ck]]
  show ?thesis by blast
qed

lemma effects_run:
  assumes "application_effects sp env og p now tools = (r, began, og', tools')"
  shows "tools_run ck sp tools tools'"
proof (cases "ae_before_snapshot env")
  case (Inl e)
  with assms show ?thesis by (simp add: application_effects_def tools_run_refl)
next
  case started: (Inr before_id)
  obtain r1 og1 where roles: "change_roles env og p = (r1, og1)" by fastforce
  show ?thesis
  proof (cases r1)
    case (Inl e)
    with assms roles started show ?thesis by (simp add: application_effects_def tools_run_refl)
  next
    case (Inr c)
    obtain r2 tools2 where mig: "migrate_active_state sp (ae_subagents env) (ae_coordinator env) p c now tools = (r2, tools2)"
      by fastforce
    with assms roles started Inr have "tools' = tools2" by (simp add: application_effects_def)
    with migration_runs [OF mig] show ?thesis by simp
  qed
qed

lemma effects_not_begun:
  "application_effects sp env og p now tools = (r, False, og', tools') \<Longrightarrow> isl r \<and> og' = og \<and> tools' = tools"
  by (auto simp: application_effects_def split: sum.splits prod.splits)

text \<open>What the claim and the settlement do to the row of the proposal.\<close>

lemma approved_is_claimed:
  assumes "reorg_ok db" "proposal_row db pid = Some q" "rp_status q = RP_APPROVED" "py_strip token \<noteq> []"
  obtains rc p db' where "claim_reorg_application ck db pid token now = (Inr rc, db')" "rr_outcome rc = ''acquired''"
    "rr_proposal rc = Some p"
proof -
  have get: "get_reorg_proposal db pid = Some (row_to_reorg_proposal q)" using assms(2) by (simp add: get_reorg_proposal_def)
  have st: "rp_status (row_to_reorg_proposal q) = RP_APPROVED" using assms(3) by simp
  let ?claim = "[(''operation_token'', PStr (py_strip token)), (''state'', PStr ''applying''), (''started_at'', stamp ck now)]"
  let ?f = "\<lambda>row. row\<lparr>rp_status := RP_APPLYING,
               rp_metadata := rp_metadata (with_application ?claim (row_to_reorg_proposal q)), rp_updated_at := now\<rparr>"
  obtain db1 where "update_proposals db pid RP_APPROVED ?f = (1, db1)"
    by (rule update_known [OF assms(1) get st, of ?f]) simp_all
  with get st assms(4) have "\<exists>rc p. claim_reorg_application ck db pid token now = (Inr rc, db1) \<and>
      rr_outcome rc = ''acquired'' \<and> rr_proposal rc = Some p"
    by (simp add: claim_reorg_application_def Let_def reorg_receipt_of_def)
  with that show thesis by blast
qed

lemma finish_elected:
  assumes "reorg_ok db" "proposal_row db (rp_proposal_id p) = Some q" "elected q (py_strip token)" "py_strip token \<noteq> []"
    "rp_status p = RP_APPLIED"
  obtains rc q' db' where "finish_reorg_application ck db p token now = (Inr rc, db')" "rr_outcome rc = ''applied''"
    "proposal_row db' (rp_proposal_id p) = Some q'" "rp_status q' = RP_APPLIED"
    "dget (rp_metadata q') ''apply_result'' = dget (rp_metadata p) ''apply_result''"
proof -
  let ?q = "row_to_reorg_proposal q"
  have get: "get_reorg_proposal db (rp_proposal_id p) = Some ?q" using assms(2) by (simp add: get_reorg_proposal_def)
  have el: "elected ?q (py_strip token)" and st: "rp_status ?q = RP_APPLYING"
    using assms(3) by (simp_all add: elected_def)
  let ?d = "(with_application (dupdate (application_of ?q) [(''state'', PStr ''applied''), (''completed_at'', stamp ck now)]) p)
              \<lparr>rp_updated_at := now\<rparr>"
  let ?f = "\<lambda>r. r\<lparr>rp_status := rp_status ?d, rp_old_org_version := rp_old_org_version ?d,
               rp_new_org_version := rp_new_org_version ?d, rp_changeset := rp_changeset ?d,
               rp_migration_plan := rp_migration_plan ?d, rp_impact_summary := rp_impact_summary ?d,
               rp_approval_notes := rp_approval_notes ?d, rp_metadata := rp_metadata ?d, rp_updated_at := now\<rparr>"
  obtain q0 db1 where up: "update_proposals db (rp_proposal_id p) RP_APPLYING ?f = (1, db1)"
    "\<And>r. proposal_row db1 r = (if r = rp_proposal_id p then Some (?f q0) else proposal_row db r)"
    by (rule update_known [OF assms(1) get st, of ?f]) simp_all
  have "rp_status (?f q0) = RP_APPLIED" "dget (rp_metadata (?f q0)) ''apply_result'' = dget (rp_metadata p) ''apply_result''"
    using assms(5) by (simp_all add: with_application_def)
  moreover have "proposal_row db1 (rp_proposal_id p) = Some (?f q0)" using up(2) by simp
  moreover have "\<exists>rc. finish_reorg_application ck db p token now = (Inr rc, db1) \<and> rr_outcome rc = ''applied''"
    using get el st assms(4,5) up(1) by (simp add: finish_reorg_application_def Let_def reorg_receipt_of_def)
  ultimately show thesis using that by blast
qed

lemma fail_elected:
  assumes "reorg_ok db" "proposal_row db pid = Some q" "elected q (py_strip token)" "py_strip token \<noteq> []"
    "fail_reorg_application ck db pid token began message now = (r, db')"
  shows "rd_tools db' = rd_tools db \<and>
    (\<exists>q'. proposal_row db' pid = Some q' \<and> rp_status q' = (if began then RP_EXECUTION_UNKNOWN else RP_FAILED))"
proof -
  have "rp_status q = RP_APPLYING" using assms(3) by (simp add: elected_def)
  moreover have "length (filter (\<lambda>r. rp_proposal_id r = pid \<and> rp_status r = RP_APPLYING) (rd_proposals db)) = 1"
    using one_row [of "rd_proposals db" pid q] assms(1,2) calculation by (simp add: reorg_ok_def proposal_row_def)
  ultimately have out: "\<exists>rc. r = Inr rc \<and> rr_outcome rc = ''applied''"
    using assms(2-5) unfolding fail_reorg_application_def Let_def update_proposals_def get_reorg_proposal_def
    by (auto simp: reorg_receipt_of_def split: if_splits)
  from assms(1,5) show ?thesis
    by (cases rule: application_fail_cases) (use out in auto)
qed

text \<open>An application as a history: the claim, card operations, the settlement.\<close>

lemma finish_runs:
  "finish_reorg_application ck db p token now = (r, db') \<Longrightarrow> \<exists>es. reorg_run ck sp db es db'"
  using reorg_run_step [of "FinishApplication p token" ck sp now db] by (auto simp: reorg_op_ok_def announced_def)

lemma fail_runs:
  "\<exists>es. reorg_run ck sp db es (snd (fail_reorg_application ck db pid token began message now))"
  using reorg_run_step [of "FailApplication pid token began message" ck sp now db] by (auto simp: reorg_op_ok_def announced_def)

lemma settle_runs:
  assumes "settle_application ck env p token now effects began db = (r, db')"
  shows "\<exists>es. reorg_run ck sp db es db'"
proof (cases effects)
  case (Inl e)
  with assms fail_runs [of ck sp db "rp_proposal_id p" token began "ae_message env e" now] show ?thesis
    by (auto simp: settle_application_def)
next
  case (Inr x)
  obtain before_id after_id c ids where x: "x = (before_id, after_id, c, ids)" by (cases x)
  obtain r1 db1 where fin: "finish_reorg_application ck db (applied_proposal before_id after_id p c ids now) token now = (r1, db1)"
    by fastforce
  from finish_runs [OF fin] obtain es where es: "reorg_run ck sp db es db1" by blast
  have "db' = db1 \<or> (\<exists>message. db' = snd (fail_reorg_application ck db1 (rp_proposal_id p) token began message now))"
    using assms Inr x fin by (cases r1) (auto simp: settle_application_def split: if_splits)
  then show ?thesis
  proof (elim disjE exE)
    fix message assume "db' = snd (fail_reorg_application ck db1 (rp_proposal_id p) token began message now)"
    with fail_runs [of ck sp db1 "rp_proposal_id p" token began message now] obtain fs where "reorg_run ck sp db1 fs db'" by blast
    with reorg_run_trans [OF es] show ?thesis by blast
  qed (use es in blast)
qed

lemma apply_cases:
  assumes "apply_reorg ck sp env og db pid token now = (r, began, og', db')"
  obtains (refused) r1 where "\<not> began" "claim_reorg_application ck db pid token now = (r1, db')"
      "\<And>rc p. r1 = Inr rc \<Longrightarrow> rr_proposal rc = Some p \<Longrightarrow> rr_outcome rc \<noteq> ''acquired''"
  | (acquired) rc p db1 effects tools where
      "claim_reorg_application ck db pid token now = (Inr rc, db1)" "rr_outcome rc = ''acquired''" "rr_proposal rc = Some p"
      "application_effects sp env og p now (rd_tools db1) = (effects, began, og', tools)"
      "settle_application ck env p token now effects began (db1\<lparr>rd_tools := tools\<rparr>) = (r, db')"
proof -
  obtain r1 db1 where claim: "claim_reorg_application ck db pid token now = (r1, db1)" by fastforce
  show thesis
  proof (cases "\<exists>rc p. r1 = Inr rc \<and> rr_outcome rc = ''acquired'' \<and> rr_proposal rc = Some p")
    case False
    with assms claim have "\<not> began \<and> db' = db1"
      by (cases r1) (auto simp: apply_reorg_def split: option.splits if_splits)
    with claim False refused show thesis by blast
  next
    case True
    then obtain rc p where rc: "r1 = Inr rc" "rr_outcome rc = ''acquired''" "rr_proposal rc = Some p" by blast
    obtain effects began2 og2 tools where eff: "application_effects sp env og p now (rd_tools db1) = (effects, began2, og2, tools)"
      by (metis prod_cases4)
    obtain r2 db2 where st: "settle_application ck env p token now effects began2 (db1\<lparr>rd_tools := tools\<rparr>) = (r2, db2)"
      by fastforce
    from assms claim rc eff st have "began = began2" "og' = og2" "r = r2" "db' = db2" by (simp_all add: apply_reorg_def)
    with claim rc eff st acquired show thesis by blast
  qed
qed

lemma claim_acquired:
  assumes "claim_reorg_application ck db pid token now = (Inr rc, db')" "rr_outcome rc = ''acquired''"
  shows "py_strip token \<noteq> []" "rr_proposal rc = Some p \<Longrightarrow> rp_proposal_id p = pid"
proof -
  show "py_strip token \<noteq> []" using assms(1) by (auto simp: claim_reorg_application_def Let_def)
  show "rp_proposal_id p = pid" if "rr_proposal rc = Some p"
  proof -
    obtain q where q: "get_reorg_proposal db pid = Some q"
      using assms by (cases "get_reorg_proposal db pid")
        (auto simp: claim_reorg_application_def Let_def reorg_receipt_of_def split: if_splits)
    then have "rp_proposal_id q = pid" by (auto simp: get_reorg_proposal_def dest: proposal_row_id)
    with assms that q show ?thesis
      unfolding claim_reorg_application_def Let_def
      by (auto simp: reorg_receipt_of_def with_application_def split: if_splits prod.splits)
  qed
qed

lemma claim_runs:
  assumes "claim_reorg_application ck db pid token now = (r, db')"
  shows "reorg_run ck sp db (case r of Inr rc \<Rightarrow> if rr_outcome rc = ''acquired'' then [Elected pid (py_strip token)] else [] | Inl _ \<Rightarrow> []) db'"
  by (rule reorg_run_step [of "ClaimApplication pid token" ck sp now])
     (simp_all add: reorg_op_ok_def announced_def assms)

lemma apply_runs:
  assumes "apply_reorg ck sp env og db pid token now = (r, began, og', db')"
  shows "\<exists>es. reorg_run ck sp db es db' \<and> (began \<longrightarrow> Elected pid (py_strip token) \<in> set es)"
  using assms
proof (cases rule: apply_cases)
  case (refused r1)
  with claim_runs [OF refused(2), of sp] show ?thesis by blast
next
  case (acquired rc p db1 effects tools)
  from claim_runs [OF acquired(1), of sp] acquired(2)
  have one: "reorg_run ck sp db [Elected pid (py_strip token)] db1" by simp
  have two: "reorg_run ck sp db1 [] (db1\<lparr>rd_tools := tools\<rparr>)"
    by (rule tools_as_reorg_run [OF effects_run [OF acquired(4)]])
  from settle_runs [OF acquired(5), of sp] obtain es where three: "reorg_run ck sp (db1\<lparr>rd_tools := tools\<rparr>) es db'" by blast
  from reorg_run_trans [OF one reorg_run_trans [OF two three]] show ?thesis by (auto intro: exI)
qed

lemma applied_is_replayed:
  assumes "proposal_row db pid = Some p" "rp_status p = RP_APPLIED"
    "dget (rp_metadata p) ''apply_result'' = PDict d" "d \<noteq> []" "py_strip token \<noteq> []"
  shows "apply_reorg ck sp env og db pid token now = (Inr d, False, og, db)"
proof -
  let ?p = "row_to_reorg_proposal p"
  have "claim_reorg_application ck db pid token now = (Inr (reorg_receipt_of ''applied'' (py_strip token) (Some ?p)), db)"
    using assms(1,2,5) by (simp add: claim_reorg_application_def get_reorg_proposal_def)
  moreover have "persisted_apply_result ?p = Inr d"
    using assms(3,4) by (cases d) (simp_all add: persisted_apply_result_def)
  ultimately show ?thesis by (simp add: apply_reorg_def reorg_receipt_of_def)
qed

lemma settle_elected:
  assumes "reorg_ok db" "proposal_row db pid = Some q" "elected q (py_strip token)" "py_strip token \<noteq> []"
    and "rp_proposal_id p = pid" "settle_application ck env p token now effects began db = (r, db')"
  shows "\<exists>p'. proposal_row db' pid = Some p' \<and>
    (case effects of
       Inl e \<Rightarrow> r = Inl e \<and> rd_tools db' = rd_tools db \<and> rp_status p' = (if began then RP_EXECUTION_UNKNOWN else RP_FAILED)
     | Inr (before_id, after_id, c, ids) \<Rightarrow>
         r = Inr (apply_result p after_id c ids) \<and> rp_status p' = RP_APPLIED \<and>
         dget (rp_metadata p') ''apply_result'' = PDict (apply_result p after_id c ids))"
proof (cases effects)
  case (Inl e)
  obtain r2 db2 where f: "fail_reorg_application ck db pid token began (ae_message env e) now = (r2, db2)" by fastforce
  with assms(5,6) Inl have "r = Inl e" "db' = db2" by (simp_all add: settle_application_def)
  with Inl fail_elected [OF assms(1-4) f] show ?thesis by simp
next
  case (Inr x)
  obtain before_id after_id c ids where x: "x = (before_id, after_id, c, ids)" by (cases x)
  let ?p = "applied_proposal before_id after_id p c ids now"
  have p: "rp_proposal_id ?p = pid" "rp_status ?p = RP_APPLIED"
    "dget (rp_metadata ?p) ''apply_result'' = PDict (apply_result p after_id c ids)"
    using assms(5) by (simp_all add: applied_proposal_def)
  obtain rc q' db2 where "finish_reorg_application ck db ?p token now = (Inr rc, db2)" "rr_outcome rc = ''applied''"
    "proposal_row db2 pid = Some q'" "rp_status q' = RP_APPLIED"
    "dget (rp_metadata q') ''apply_result'' = PDict (apply_result p after_id c ids)"
    by (rule finish_elected [OF assms(1) _ assms(3,4) p(2), of ck now]) (use assms(2) p in auto)
  with assms(6) Inr x show ?thesis by (auto simp: settle_application_def receipt_applied_def)
qed

lemma election_counted: "Elected pid token \<in> set es \<Longrightarrow> 1 \<le> length (filter (is_election pid) es)"
  by (induction es) (auto simp: is_election_def)

lemma run_elects_once:
  assumes "reorg_run ck sp db es db'" "reorg_ok db"
  shows "length (filter (is_election pid) es) \<le> 1"
proof -
  from assms(1) obtain xs where "list_all (\<lambda>x. reorg_op_ok (fst x)) xs" "run_ops (reorg_step ck sp) xs db = (es, db')"
    by (auto simp: reorg_run_def)
  from reorg.elected_once [OF assms(2) this] show ?thesis by blast
qed

section \<open>A concrete application\<close>

definition sample_env :: "string option \<Rightarrow> apply_env" where
  "sample_env coordinator =
     \<lparr>ae_validate = Inr, ae_builtin = (\<lambda>rs. rs), ae_agents = [], ae_subagents = [], ae_coordinator = coordinator,
      ae_save_config = Inr (), ae_before_snapshot = Inr ''s1'', ae_after_snapshot = Inr ''s2'', ae_message = (\<lambda>_. ''failed'')\<rparr>"

definition sample_apply ::
  "string option \<Rightarrow> reorg_db \<Rightarrow> string \<Rightarrow> int \<Rightarrow> pydict result \<times> bool \<times> org_engine \<times> reorg_db" where
  "sample_apply coordinator db token now =
     apply_reorg tally_clock ''p'' (sample_env coordinator) sample_org db ''r1'' token now"

lemma sample_runs:
  "fst (snd (sample_apply (Some ''p'') (reorg_at RP_APPROVED [] 1) ''t1'' 2))"
  "\<not> isl (fst (sample_apply (Some ''p'') (reorg_at RP_APPROVED [] 1) ''t1'' 2))"
  "fst (snd (sample_apply None (reorg_at RP_APPROVED [] 1) ''t1'' 2))"
  "isl (fst (sample_apply None (reorg_at RP_APPROVED [] 1) ''t1'' 2))"
  "reorg_ok (reorg_at RP_APPROVED [] 1)"
  by code_simp+

section \<open>Properties\<close>

text \<open>C11. The effects of a reorganization run at most once.  When an application of a proposal has
  begun its effects, whether it succeeded or raised, then no later application of the same proposal
  begins them, whatever its token, environment and time and whatever operations on cards and
  proposals came between.\<close>

theorem effects_of_a_reorganization_run_once:
  assumes "reorg_ok db" "apply_reorg ck sp env og db pid token t = (r, True, og', db1)"
    and "list_all (\<lambda>x. reorg_op_ok (fst x)) xs" "run_ops (reorg_step ck sp) xs db1 = (es, db2)"
    and "apply_reorg ck sp env2 og2 db2 pid token2 t2 = (r2, began, og3, db3)"
  shows "\<not> began"
proof
  assume began
  from apply_runs [OF assms(2)] obtain es1 where one: "reorg_run ck sp db es1 db1" "Elected pid (py_strip token) \<in> set es1"
    by blast
  from apply_runs [OF assms(5)] \<open>began\<close> obtain es3 where
    three: "reorg_run ck sp db2 es3 db3" "Elected pid (py_strip token2) \<in> set es3" by blast
  have two: "reorg_run ck sp db1 es db2" using assms(3,4) unfolding reorg_run_def by blast
  have "1 \<le> length (filter (is_election pid) es1)" "1 \<le> length (filter (is_election pid) es3)"
    by (rule election_counted [OF one(2)], rule election_counted [OF three(2)])
  moreover have "length (filter (is_election pid) (es1 @ (es @ es3))) \<le> 1"
    by (rule run_elects_once [OF reorg_run_trans [OF one(1) reorg_run_trans [OF two three(1)]] assms(1)])
  ultimately show False by simp
qed

theorem effects_of_a_reorganization_run_once_witness:
  "fst (snd (sample_apply None (reorg_at RP_APPROVED [] 1) ''t1'' 2)) \<and>
   \<not> fst (snd (sample_apply (Some ''p'') (snd (snd (snd (sample_apply None (reorg_at RP_APPROVED [] 1) ''t1'' 2)))) ''t2'' 3))"
proof -
  obtain r og' db1 where first: "sample_apply None (reorg_at RP_APPROVED [] 1) ''t1'' 2 = (r, True, og', db1)"
    using sample_runs(3) by (cases "sample_apply None (reorg_at RP_APPROVED [] 1) ''t1'' 2") auto
  obtain r2 began og3 db3 where second: "sample_apply (Some ''p'') db1 ''t2'' 3 = (r2, began, og3, db3)"
    by (cases "sample_apply (Some ''p'') db1 ''t2'' 3") auto
  from effects_of_a_reorganization_run_once [OF sample_runs(5) first [unfolded sample_apply_def], of "[]" "[]" db1
      "sample_env (Some ''p'')" sample_org "''t2''" 3 r2 began og3 db3] second
  have "\<not> began" by (simp add: sample_apply_def)
  with first second show ?thesis by simp
qed

text \<open>C12. The application of an approved proposal says how it ended.  If it returns, the proposal is
  applied and its row keeps the result that is returned; a later application changes nothing and
  returns this result again.  If it raises, the proposal failed when the effects had not started, and
  then neither the organization nor the cards changed, and it is of unknown outcome when they had,
  at whatever point of the change of the roles, the saving of the configuration, the migration or
  the last snapshot.  It never stays in the state of a running application.\<close>

theorem application_settles:
  assumes "reorg_ok db" "proposal_row db pid = Some q" "rp_status q = RP_APPROVED" "py_strip token \<noteq> []"
    and "apply_reorg ck sp env og db pid token t = (r, began, og', db')"
  shows "(\<exists>p. proposal_row db' pid = Some p \<and>
      (case r of
         Inr d \<Rightarrow> began \<and> rp_status p = RP_APPLIED \<and> dget (rp_metadata p) ''apply_result'' = PDict d
       | Inl e \<Rightarrow> rp_status p = (if began then RP_EXECUTION_UNKNOWN else RP_FAILED))) \<and>
    (\<not> began \<longrightarrow> og' = og \<and> rd_tools db' = rd_tools db) \<and>
    (\<forall>d env2 og2 token2 t2. r = Inr d \<longrightarrow> py_strip token2 \<noteq> [] \<longrightarrow>
       apply_reorg ck sp env2 og2 db' pid token2 t2 = (Inr d, False, og2, db'))"
  using assms(5)
proof (cases rule: apply_cases)
  case (refused r1)
  obtain rc p db1 where "claim_reorg_application ck db pid token t = (Inr rc, db1)" "rr_outcome rc = ''acquired''"
    "rr_proposal rc = Some p" by (rule approved_is_claimed [OF assms(1-4)])
  with refused(2,3) show ?thesis by simp
next
  case (acquired rc p db1 effects tools)
  from assms(1) acquired(1) obtain q1 where
    q1: "elected q1 (py_strip token)" "reorg_ok db1" "proposal_row db1 pid = Some q1" "rd_tools db1 = rd_tools db"
    by (cases rule: application_claim_cases) (use acquired(2) in auto)
  have pid: "rp_proposal_id p = pid" using acquired(1-3) claim_acquired by blast
  let ?db = "db1\<lparr>rd_tools := tools\<rparr>"
  have "cards_ok tools"
    using tools_run_ok [OF effects_run [OF acquired(4), of ck]] q1(2) by (simp add: reorg_ok_def)
  then have ok: "reorg_ok ?db" using q1(2) by (simp add: reorg_ok_def)
  have row: "proposal_row ?db pid = Some q1" using q1(3) row_kept [of ?db db1 pid] by simp
  note settled = settle_elected [OF ok row q1(1) assms(4) pid acquired(5)]
  show ?thesis
  proof (cases effects)
    case (Inl e)
    have "\<not> began \<Longrightarrow> og' = og \<and> rd_tools ?db = rd_tools db"
      using acquired(4) effects_not_begun [of sp env og p t "rd_tools db1" effects og' tools] q1(4) by simp
    with settled Inl show ?thesis by auto
  next
    case (Inr x)
    then have began using acquired(4) effects_not_begun [of sp env og p t "rd_tools db1" effects og' tools] by fastforce
    obtain before_id after_id c ids where x: "x = (before_id, after_id, c, ids)" by (cases x)
    let ?d = "apply_result p after_id c ids"
    obtain p' where p': "proposal_row db' pid = Some p'" "rp_status p' = RP_APPLIED"
      "dget (rp_metadata p') ''apply_result'' = PDict ?d" and r: "r = Inr ?d"
      using settled Inr x by auto
    have "?d \<noteq> []" by (simp add: apply_result_def)
    from applied_is_replayed [OF p' this] have
      "\<forall>env2 og2 token2 t2. py_strip token2 \<noteq> [] \<longrightarrow>
         apply_reorg ck sp env2 og2 db' pid token2 t2 = (Inr ?d, False, og2, db')" by blast
    with p' r \<open>began\<close> show ?thesis by simp
  qed
qed

definition status_after :: "apply_env \<Rightarrow> reorg_status option" where
  \<comment> \<open>the status of the approved proposal after its application in an environment\<close>
  "status_after env =
     map_option rp_status (proposal_row (snd (snd (snd
       (apply_reorg tally_clock ''p'' env sample_org (reorg_at RP_APPROVED [] 1) ''r1'' ''t1'' 2)))) ''r1'')"

definition env_without_snapshot :: apply_env where
  "env_without_snapshot = (sample_env (Some ''p''))\<lparr>ae_before_snapshot := Inl RuntimeError\<rparr>"

lemma sample_outcomes:
  "\<not> isl (fst (apply_reorg tally_clock ''p'' (sample_env (Some ''p'')) sample_org (reorg_at RP_APPROVED [] 1) ''r1'' ''t1'' 2))"
  "isl (fst (apply_reorg tally_clock ''p'' (sample_env None) sample_org (reorg_at RP_APPROVED [] 1) ''r1'' ''t1'' 2))"
  "fst (snd (apply_reorg tally_clock ''p'' (sample_env None) sample_org (reorg_at RP_APPROVED [] 1) ''r1'' ''t1'' 2))"
  "isl (fst (apply_reorg tally_clock ''p'' env_without_snapshot sample_org (reorg_at RP_APPROVED [] 1) ''r1'' ''t1'' 2))"
  "\<not> fst (snd (apply_reorg tally_clock ''p'' env_without_snapshot sample_org (reorg_at RP_APPROVED [] 1) ''r1'' ''t1'' 2))"
  by code_simp+

theorem application_settles_witness:
  "status_after (sample_env (Some ''p'')) = Some RP_APPLIED \<and>
   status_after (sample_env None) = Some RP_EXECUTION_UNKNOWN \<and>
   status_after env_without_snapshot = Some RP_FAILED"
proof -
  obtain q where q: "proposal_row (reorg_at RP_APPROVED [] 1) ''r1'' = Some q" "rp_status q = RP_APPROVED"
    by (simp add: proposal_row_def reorg_at_def sample_proposal_def)
  have tok: "py_strip ''t1'' \<noteq> []" by code_simp
  have ends: "status_after env =
      Some (if \<not> isl (fst run) then RP_APPLIED else if fst (snd run) then RP_EXECUTION_UNKNOWN else RP_FAILED)"
    if "run = apply_reorg tally_clock ''p'' env sample_org (reorg_at RP_APPROVED [] 1) ''r1'' ''t1'' 2" for env run
  proof -
    obtain r began og' db' where run: "run = (r, began, og', db')" by (cases run)
    with that have "apply_reorg tally_clock ''p'' env sample_org (reorg_at RP_APPROVED [] 1) ''r1'' ''t1'' 2 = (r, began, og', db')"
      by simp
    note application = application_settles [OF sample_runs(5) q tok this] and result = this
    from application [THEN conjunct1] obtain p where "proposal_row db' ''r1'' = Some p"
      "case r of Inr d \<Rightarrow> rp_status p = RP_APPLIED
       | Inl e \<Rightarrow> rp_status p = (if began then RP_EXECUTION_UNKNOWN else RP_FAILED)"
      by (cases r) auto
    with result run show ?thesis by (cases r) (simp_all add: status_after_def)
  qed
  show ?thesis using sample_outcomes by (simp add: ends [OF refl])
qed

section \<open>Retired roles\<close>

definition mapping_settled :: "pydict \<Rightarrow> bool" where
  \<comment> \<open>no role is mapped to a role that is mapped itself\<close>
  "mapping_settled mapping \<longleftrightarrow>
     (\<forall>(k, v)\<in>set mapping. case v of PStr s \<Rightarrow> s \<notin> fst ` set mapping | _ \<Rightarrow> False)"

definition named_agents :: "pyval \<Rightarrow> string \<Rightarrow> string set" where
  \<comment> \<open>the agents in the list of a record\<close>
  "named_agents v k =
     (case v of PDict d \<Rightarrow> (case dget d k of PList xs \<Rightarrow> {s. PStr s \<in> set xs} | _ \<Rightarrow> {}) | _ \<Rightarrow> {})"

definition listed :: "pydict \<Rightarrow> string \<Rightarrow> string \<Rightarrow> string list \<Rightarrow> bool" where
  \<comment> \<open>the record of the dictionary has exactly these agents in its list\<close>
  "listed d k l agents \<longleftrightarrow> (case dget d k of PDict r \<Rightarrow> dget r l = PList (map PStr agents) | _ \<Rightarrow> False)"

definition successors :: "pydict \<Rightarrow> string list \<Rightarrow> string list" where
  \<comment> \<open>the roles that take the place of these, in order; a removed role has none\<close>
  "successors mapping agents = concat (map (\<lambda>r. if role_after mapping r = [] then [] else [role_after mapping r]) agents)"

lemma role_after_unmapped: "mapping_settled mapping \<Longrightarrow> role_after mapping r \<notin> fst ` set mapping"
proof (cases "map_of mapping r")
  case None
  then have "r \<notin> fst ` set mapping" by (simp add: map_of_eq_None_iff)
  with None show ?thesis by (simp add: role_after_def)
next
  case (Some v)
  assume "mapping_settled mapping"
  moreover have "(r, v) \<in> set mapping" using Some by (rule map_of_SomeD)
  ultimately obtain s where "v = PStr s" "s \<notin> fst ` set mapping"
    by (cases v) (auto simp: mapping_settled_def)
  with Some show ?thesis by (simp add: role_after_def)
qed

lemma map_result_set: "map_result f xs = Inr ys \<Longrightarrow> y \<in> set ys \<Longrightarrow> \<exists>x\<in>set xs. f x = Inr y"
  by (induction xs arbitrary: ys) (auto simp: bind_result_Inr_iff)

lemma agents_after_unmapped:
  assumes "mapping_settled mapping" "agents_after mapping xs = Inr ys" "PStr s \<in> set ys"
  shows "s \<notin> fst ` set mapping"
proof -
  from assms(2,3) obtain zs where zs: "map_result (agent_after mapping) xs = Inr zs" "PStr s \<in> set zs"
    by (auto simp: agents_after_def bind_result_Inr_iff)
  from map_result_set [OF this] obtain x where "agent_after mapping x = Inr (PStr s)" by blast
  then obtain r where "s = role_after mapping r" by (cases x) (auto simp: agent_after_def)
  then show ?thesis using role_after_unmapped [OF assms(1)] by simp
qed

lemma py_dict_kept: "py_dict v = Inr d \<Longrightarrow> d = [] \<Longrightarrow> named_agents v k = {}"
  by (cases v) (auto simp: py_dict_def named_agents_def dget_def)

lemma peer_wait_moved:
  assumes "move_peer_wait mapping t = Inr t'" "mapping_settled mapping"
  shows "named_agents (dget (tk_metadata t') ''peer_wait'') ''waiting_on_agents'' \<inter> fst ` set mapping = {}"
    "tk_assigned_to t' = tk_assigned_to t" "tk_status t' = tk_status t" "tk_context_snapshot t' = tk_context_snapshot t"
    "dget_or (tk_metadata t') ''work_item_role_id'' d = dget_or (tk_metadata t) ''work_item_role_id'' d"
proof -
  from assms(1) obtain wait where w: "py_dict (dget_or (tk_metadata t) ''peer_wait'' (PDict [])) = Inr wait"
    by (auto simp: move_peer_wait_def bind_result_Inr_iff)
  have "named_agents (dget (tk_metadata t') ''peer_wait'') ''waiting_on_agents'' \<inter> fst ` set mapping = {} \<and>
    tk_assigned_to t' = tk_assigned_to t \<and> tk_status t' = tk_status t \<and> tk_context_snapshot t' = tk_context_snapshot t \<and>
    dget_or (tk_metadata t') ''work_item_role_id'' d = dget_or (tk_metadata t) ''work_item_role_id'' d"
  proof (cases "wait = []")
    case True
    have "named_agents (dget (tk_metadata t) ''peer_wait'') ''waiting_on_agents'' = {}"
      using py_dict_kept [OF w True, of "''waiting_on_agents''"]
      by (cases "map_of (tk_metadata t) ''peer_wait''") (simp_all add: dget_def dget_or_def named_agents_def)
    with True assms(1) w show ?thesis by (simp add: move_peer_wait_def)
  next
    case False
    with assms(1) w obtain agents moved where "agents_after mapping agents = Inr moved"
      and t': "t' = t\<lparr>tk_metadata := dset ''peer_wait'' (PDict (dset ''waiting_on_agents'' (PList moved) wait)) (tk_metadata t)\<rparr>"
      by (auto simp: move_peer_wait_def bind_result_Inr_iff)
    with agents_after_unmapped [OF assms(2)] show ?thesis
      by (auto simp: named_agents_def dget_dset dget_or_dset)
  qed
  then show "named_agents (dget (tk_metadata t') ''peer_wait'') ''waiting_on_agents'' \<inter> fst ` set mapping = {}"
    "tk_assigned_to t' = tk_assigned_to t" "tk_status t' = tk_status t" "tk_context_snapshot t' = tk_context_snapshot t"
    "dget_or (tk_metadata t') ''work_item_role_id'' d = dget_or (tk_metadata t) ''work_item_role_id'' d"
    by blast+
qed

lemma meeting_moved:
  assumes "move_meeting mapping t = Inr t'" "mapping_settled mapping"
  shows "named_agents (dget (tk_context_snapshot t') ''active_meeting'') ''participants'' \<inter> fst ` set mapping = {} \<and>
    tk_assigned_to t' = tk_assigned_to t \<and> tk_status t' = tk_status t \<and> tk_metadata t' = tk_metadata t"
proof -
  from assms(1) obtain meeting where m: "py_dict (dget_or (tk_context_snapshot t) ''active_meeting'' (PDict [])) = Inr meeting"
    by (auto simp: move_meeting_def bind_result_Inr_iff)
  let ?v = "dget (tk_context_snapshot t) ''active_meeting''"
  show ?thesis
  proof (cases "meeting = []")
    case True
    have "named_agents ?v ''participants'' = {}"
      using py_dict_kept [OF m True, of "''participants''"]
      by (cases "map_of (tk_context_snapshot t) ''active_meeting''") (simp_all add: dget_def dget_or_def named_agents_def)
    with True assms(1) m show ?thesis by (simp add: move_meeting_def)
  next
    case False
    with assms(1) m obtain agents where agents: "py_list (dget_or meeting ''participants'' (PList [])) = Inr agents"
      by (auto simp: move_meeting_def bind_result_Inr_iff)
    show ?thesis
    proof (cases "agents = []")
      case True
      have "named_agents ?v ''participants'' = {}"
        using m agents True by (cases ?v) (auto simp: named_agents_def dget_def dget_or_def py_dict_def split: option.splits pyval.splits)
      with True False agents assms(1) m show ?thesis by (simp add: move_meeting_def)
    next
      case nonempty: False
      with False agents assms(1) m obtain moved where "agents_after mapping agents = Inr moved"
        and t': "t' = t\<lparr>tk_context_snapshot := dset ''active_meeting''
          (PDict (dset ''participants'' (PList moved) meeting)) (tk_context_snapshot t)\<rparr>"
        by (auto simp: move_meeting_def bind_result_Inr_iff)
      with agents_after_unmapped [OF assms(2)] show ?thesis by (auto simp: named_agents_def dget_dset)
    qed
  qed
qed

lemma agents_after_strings: "agents_after mapping (map PStr agents) = Inr (map PStr (successors mapping agents))"
proof -
  have "map_result (agent_after mapping) (map PStr agents) = Inr (map (\<lambda>r. PStr (role_after mapping r)) agents)"
    by (induction agents) (simp_all add: agent_after_def)
  moreover have "filter truthy (map (\<lambda>r. PStr (role_after mapping r)) agents) = map PStr (successors mapping agents)"
    by (induction agents) (simp_all add: successors_def)
  ultimately show ?thesis by (simp add: agents_after_def)
qed

lemma listed_record:
  assumes "listed d k l agents"
  obtains r where "r \<noteq> []" "dget_or d k w = PDict r" "dget_or r l w' = PList (map PStr agents)" "dget r l = PList (map PStr agents)"
proof -
  from assms obtain r where r: "dget d k = PDict r" "dget r l = PList (map PStr agents)"
    by (cases "dget d k") (simp_all add: listed_def)
  moreover have "r \<noteq> []" using r(2) by (auto simp: dget_def)
  moreover have "dget_or d k w = PDict r" "dget_or r l w' = PList (map PStr agents)"
    using r by (auto simp: dget_def dget_or_def split: option.splits)
  ultimately show thesis by (intro that)
qed

lemma peer_wait_listed:
  assumes "move_peer_wait mapping t = Inr t'" "listed (tk_metadata t) ''peer_wait'' ''waiting_on_agents'' agents"
  shows "listed (tk_metadata t') ''peer_wait'' ''waiting_on_agents'' (successors mapping agents)"
proof -
  obtain r where "r \<noteq> []" "dget_or (tk_metadata t) ''peer_wait'' (PDict []) = PDict r"
    "dget_or r ''waiting_on_agents'' (PList []) = PList (map PStr agents)"
    by (rule listed_record [OF assms(2)])
  then have "move_peer_wait mapping t = Inr (t\<lparr>tk_metadata := dset ''peer_wait''
      (PDict (dset ''waiting_on_agents'' (PList (map PStr (successors mapping agents))) r)) (tk_metadata t)\<rparr>)"
    by (simp add: move_peer_wait_def py_dict_def agents_after_strings)
  with assms(1) have "t' = t\<lparr>tk_metadata := dset ''peer_wait''
      (PDict (dset ''waiting_on_agents'' (PList (map PStr (successors mapping agents))) r)) (tk_metadata t)\<rparr>" by simp
  then show ?thesis by (simp add: listed_def)
qed

lemma meeting_listed:
  assumes "move_meeting mapping t = Inr t'" "listed (tk_context_snapshot t) ''active_meeting'' ''participants'' agents"
  shows "listed (tk_context_snapshot t') ''active_meeting'' ''participants'' (successors mapping agents)"
proof -
  obtain r where r: "r \<noteq> []" "dget_or (tk_context_snapshot t) ''active_meeting'' (PDict []) = PDict r"
    "dget_or r ''participants'' (PList []) = PList (map PStr agents)"
    by (rule listed_record [OF assms(2)])
  show ?thesis
  proof (cases "agents = []")
    case True
    with r have "move_meeting mapping t = Inr t" by (simp add: move_meeting_def py_dict_def)
    with assms True show ?thesis by (simp add: successors_def)
  next
    case False
    with r have "move_meeting mapping t = Inr (t\<lparr>tk_context_snapshot := dset ''active_meeting''
        (PDict (dset ''participants'' (PList (map PStr (successors mapping agents))) r)) (tk_context_snapshot t)\<rparr>)"
      by (simp add: move_meeting_def py_dict_def agents_after_strings)
    with assms(1) have "t' = t\<lparr>tk_context_snapshot := dset ''active_meeting''
        (PDict (dset ''participants'' (PList (map PStr (successors mapping agents))) r)) (tk_context_snapshot t)\<rparr>" by simp
    then show ?thesis by (simp add: listed_def)
  qed
qed

lemma role_put [simp]: "rid \<noteq> [] \<Longrightarrow> current_role (put_role rid t) = rid"
  by (simp add: current_role_def put_role_def or_text_def)

lemma put_role_kept [simp]:
  "tk_status (put_role rid t) = tk_status t" "tk_context_snapshot (put_role rid t) = tk_context_snapshot t"
  "k \<noteq> ''work_item_role_id'' \<Longrightarrow> dget (tk_metadata (put_role rid t)) k = dget (tk_metadata t) k"
  by (simp_all add: put_role_def)

lemma current_role_kept [simp]:
  "current_role (t\<lparr>tk_status := s\<rparr>) = current_role t" "current_role (t\<lparr>tk_priority := i\<rparr>) = current_role t"
  "current_role (t\<lparr>tk_description := d\<rparr>) = current_role t"
  "k \<noteq> ''work_item_role_id'' \<Longrightarrow> current_role (t\<lparr>tk_metadata := dset k v (tk_metadata t)\<rparr>) = current_role t"
  by (simp_all add: current_role_def)

lemma role_moved:
  "current_role (move_role mapping t) =
     (if current_role t = [] \<or> role_after mapping (current_role t) = [] then current_role t
      else role_after mapping (current_role t))"
  "tk_status (move_role mapping t) =
     (if current_role t \<noteq> [] \<and> role_after mapping (current_role t) = [] then TS_CANCELLED else tk_status t)"
  "tk_context_snapshot (move_role mapping t) = tk_context_snapshot t"
  "dget (tk_metadata (move_role mapping t)) ''peer_wait'' = dget (tk_metadata t) ''peer_wait''"
  by (simp_all add: move_role_def Let_def)

lemma adjustment_kept:
  assumes "apply_task_adjustment a t = Inr t'"
  shows "tk_status t' = tk_status t \<and> tk_context_snapshot t' = tk_context_snapshot t \<and>
    dget (tk_metadata t') ''peer_wait'' = dget (tk_metadata t) ''peer_wait'' \<and>
    (current_role t' = current_role t \<or> xa_action a = ''reassign'' \<and> current_role t' = opt_raw (xa_new_role_id a))"
  using assms by (simp add: apply_task_adjustment_def split: if_splits) (auto simp: bind_result_Inr_iff)

lemma adjustments_kept:
  "apply_task_adjustments as t = Inr t' \<Longrightarrow>
   tk_status t' = tk_status t \<and> tk_context_snapshot t' = tk_context_snapshot t \<and>
   dget (tk_metadata t') ''peer_wait'' = dget (tk_metadata t) ''peer_wait'' \<and>
   (current_role t' = current_role t \<or> (\<exists>a\<in>set as. xa_action a = ''reassign'' \<and> current_role t' = opt_raw (xa_new_role_id a)))"
proof (induction as arbitrary: t)
  case (Cons a as)
  then obtain t1 where one: "apply_task_adjustment a t = Inr t1" and rest: "apply_task_adjustments as t1 = Inr t'"
    by (auto simp: bind_result_Inr_iff)
  from Cons.IH [OF rest] adjustment_kept [OF one] show ?case by auto
qed simp

lemma migrated_through:
  assumes "migrate_task p mapping target t = Inr t'"
  obtains t1 t2 t3 where
    "apply_task_adjustments (xs_task_adjustments (rp_changeset p)) (move_role mapping t) = Inr t1"
    "move_peer_wait mapping t1 = Inr t2" "move_meeting mapping t2 = Inr t3"
    "t' = mark_migrated p mapping target (current_role t) t3"
  using assms by (auto simp: migrate_task_def bind_result_Inr_iff)

lemma marked_kept:
  "tk_status (mark_migrated p mapping target prev t) = tk_status t"
  "current_role (mark_migrated p mapping target prev t) = current_role t"
  "dget (tk_metadata (mark_migrated p mapping target prev t)) ''peer_wait'' = dget (tk_metadata t) ''peer_wait''"
  "dget (tk_context_snapshot (mark_migrated p mapping target prev t)) ''active_meeting'' =
     dget (tk_context_snapshot t) ''active_meeting''"
  by (simp_all add: mark_migrated_def current_role_def dget_dset dget_or_dset)

text \<open>C13. Migration takes retired roles out of a waiting task, whatever adjustments come with it.  When
  the mapping has no chains (no role is mapped to a role that is itself replaced or removed) and no
  adjustment reassigns the task to a retired role, then a task of a role that was removed without a
  successor is cancelled, every other keeps its status, and its role is the successor of its role or
  the one an adjustment gives it, never a retired one.  The agents it waits for and those of its
  meeting become their successors, in order, and those without a successor are left out; no name of
  a retired role is left in either list.\<close>

theorem migration_retires_roles:
  assumes "migrate_task p mapping target t = Inr t'" "mapping_settled mapping"
    and "\<forall>a\<in>set (xs_task_adjustments (rp_changeset p)).
           xa_action a = ''reassign'' \<longrightarrow> opt_raw (xa_new_role_id a) \<notin> fst ` set mapping"
  shows "tk_status t' =
      (if current_role t \<noteq> [] \<and> role_after mapping (current_role t) = [] then TS_CANCELLED else tk_status t) \<and>
    (tk_status t' = TS_CANCELLED \<or> current_role t' = [] \<or> current_role t' \<notin> fst ` set mapping) \<and>
    (tk_status t' \<noteq> TS_CANCELLED \<longrightarrow> current_role t \<noteq> [] \<longrightarrow>
      (\<forall>a\<in>set (xs_task_adjustments (rp_changeset p)). xa_action a \<noteq> ''reassign'') \<longrightarrow>
      current_role t' = role_after mapping (current_role t)) \<and>
    (\<forall>agents. listed (tk_metadata t) ''peer_wait'' ''waiting_on_agents'' agents \<longrightarrow>
      listed (tk_metadata t') ''peer_wait'' ''waiting_on_agents'' (successors mapping agents)) \<and>
    (\<forall>agents. listed (tk_context_snapshot t) ''active_meeting'' ''participants'' agents \<longrightarrow>
      listed (tk_context_snapshot t') ''active_meeting'' ''participants'' (successors mapping agents)) \<and>
    named_agents (dget (tk_metadata t') ''peer_wait'') ''waiting_on_agents'' \<inter> fst ` set mapping = {} \<and>
    named_agents (dget (tk_context_snapshot t') ''active_meeting'') ''participants'' \<inter> fst ` set mapping = {}"
proof -
  from assms(1) obtain t1 t2 t3 where
    adj: "apply_task_adjustments (xs_task_adjustments (rp_changeset p)) (move_role mapping t) = Inr t1" and
    wait: "move_peer_wait mapping t1 = Inr t2" and meet: "move_meeting mapping t2 = Inr t3" and
    t': "t' = mark_migrated p mapping target (current_role t) t3" by (rule migrated_through)
  note one = adjustments_kept [OF adj] and two = peer_wait_moved [OF wait assms(2)] and three = meeting_moved [OF meet assms(2)]
  have role: "current_role t' = current_role t1" and status: "tk_status t' = tk_status t1"
    using two(2,3,5) three by (simp_all add: t' marked_kept) (simp_all add: current_role_def)
  have unmapped: "role_after mapping r \<notin> fst ` set mapping" for r by (rule role_after_unmapped [OF assms(2)])
  have "tk_status t' = TS_CANCELLED \<or> current_role t' = [] \<or> current_role t' \<notin> fst ` set mapping"
  proof -
    have "tk_status (move_role mapping t) = TS_CANCELLED \<or> current_role (move_role mapping t) = [] \<or>
        current_role (move_role mapping t) \<notin> fst ` set mapping"
      using unmapped [of "current_role t"] by (simp add: role_moved)
    moreover from one consider "current_role t1 = current_role (move_role mapping t)"
      | a where "a \<in> set (xs_task_adjustments (rp_changeset p))" "xa_action a = ''reassign''"
          "current_role t1 = opt_raw (xa_new_role_id a)" by blast
    then have "current_role t1 = current_role (move_role mapping t) \<or> current_role t1 \<notin> fst ` set mapping"
      by cases (use assms(3) in metis)+
    ultimately show ?thesis using one by (auto simp only: role status)
  qed
  moreover have "tk_status t' \<noteq> TS_CANCELLED \<longrightarrow> current_role t \<noteq> [] \<longrightarrow>
      (\<forall>a\<in>set (xs_task_adjustments (rp_changeset p)). xa_action a \<noteq> ''reassign'') \<longrightarrow>
      current_role t' = role_after mapping (current_role t)"
    using one by (auto simp: role status role_moved)
  moreover have "listed (tk_metadata t') ''peer_wait'' ''waiting_on_agents'' (successors mapping agents)"
    if "listed (tk_metadata t) ''peer_wait'' ''waiting_on_agents'' agents" for agents
    using peer_wait_listed [OF wait, of agents] that one three by (simp add: t' marked_kept listed_def role_moved)
  moreover have "listed (tk_context_snapshot t') ''active_meeting'' ''participants'' (successors mapping agents)"
    if "listed (tk_context_snapshot t) ''active_meeting'' ''participants'' agents" for agents
    using meeting_listed [OF meet, of agents] that one two(4) by (simp add: t' marked_kept listed_def role_moved)
  ultimately show ?thesis
    using one two(1) three by (simp add: status role_moved) (simp add: t' marked_kept)
qed

definition waiting_task :: task where
  "waiting_task =
     (new_task ''t1'')\<lparr>tk_assigned_to := ''a'',
        tk_metadata := [(''peer_wait'', PDict [(''waiting_on_agents'', PList [PStr ''a'', PStr ''d''])])]\<rparr>"

theorem migration_retires_roles_witness:
  "\<exists>t'. migrate_task sample_proposal [(''a'', PStr ''b''), (''d'', PStr [])] 2 waiting_task = Inr t' \<and>
     current_role t' = ''b'' \<and> listed (tk_metadata t') ''peer_wait'' ''waiting_on_agents'' [''b'']"
proof -
  let ?m = "[(''a'', PStr ''b''), (''d'', PStr [])] :: pydict"
  have "case migrate_task sample_proposal ?m 2 waiting_task of Inl _ \<Rightarrow> False | Inr t' \<Rightarrow> tk_status t' \<noteq> TS_CANCELLED"
    by code_simp
  then obtain t' where run: "migrate_task sample_proposal ?m 2 waiting_task = Inr t'" "tk_status t' \<noteq> TS_CANCELLED"
    by (auto split: sum.splits)
  have adj: "xs_task_adjustments (rp_changeset sample_proposal) = []" and settled: "mapping_settled ?m"
    by (simp add: sample_proposal_def, simp add: mapping_settled_def)
  have start: "current_role waiting_task = ''a''" "listed (tk_metadata waiting_task) ''peer_wait'' ''waiting_on_agents'' [''a'', ''d'']"
    by code_simp+
  have "successors ?m [''a'', ''d''] = [''b'']" "role_after ?m ''a'' = ''b''" by code_simp+
  with migration_retires_roles [OF run(1) settled] run adj start show ?thesis by auto
qed

end
