(* ===== verification/Spec2Isabelle.thy ===== *)
theory Spec2Isabelle
  imports ControllerWrites GateRouting TaskGraph ActiveRuns RuntimeInvariants ToolContinuation ToolPlanner OutputBudget ReviewVerdict
    ReorgMigration
begin

text \<open>
  OpenOPC runs a company of agents: a delegation run owns work items (cards), every card has a
  phase, a role session works on one card at a time, and a controller process dispatches cards
  under a lease.  This development models that company runtime, which is the part of the
  program where a wrong step loses work: the rows and their writes, the phase table, the lease
  and the claims, the dependency frontier, the serial queues, the phase hooks, the routing of
  accepted output and of rework, the task graph scheduler, the controller's registry of running
  attempts, the ownership and diagnosis of the metadata shared by a card and its task, and the
  permission policy, call planner and verdict parser of the agents that work on the cards, and the
  questions agents put to the owner, whose answers are consumed under a claim, and the
  reorganizations of the company that such an answer approves.

  Parts, in import order, with the code they translate (paths under \<open>src/\<close>):

  \<^item> \<open>Prelude\<close>: Python values as JSON stores them, the truth test, \<open>str\<close>, \<open>int\<close>, \<open>list\<close> and
    \<open>dict\<close> on them, \<open>strip\<close> and \<open>lower\<close>, dictionaries as association lists in insertion order,
    results of code that raises (\<open>pyerr + 'a\<close>), and the locale \<open>growing_sweep\<close> of the loops
    \<open>while changed: for item in items\<close>: the loop ends, and its result is the least set closed
    under the test.
  \<^item> \<open>Models\<close> (\<open>opc/core/models.py\<close>): \<open>Phase\<close>, \<open>TaskStatus\<close>, the role status, and the
    dataclasses of a card, a task, a role session and a run as records.
  \<^item> \<open>Identity\<close> (\<open>work_item_identity.py\<close>, \<open>work_item_links.py\<close>, \<open>work_item_runtime.py\<close> of
    \<open>opc/layer2_organization\<close>, as all modules below unless a path is given): projection id and
    turn type of a card, gate rework payloads, the link of a task to its card.
  \<^item> \<open>Phase\<close> (\<open>phase.py\<close>): the transition table, the projections of a phase, the attempt ledger,
    the dispatch test.  \<open>phase_step\<close> is the table as a step relation.
  \<^item> \<open>TurnMode\<close> (\<open>turn_mode.py\<close>): which kind of turn a card asks for.
  \<^item> \<open>Store\<close> (\<open>opc/database/store.py\<close>): the record \<open>store\<close> of the tables the runtime reads, and the
    row writes of cards with the phase check, the terminal lock and the sealed delegate identity.
  \<^item> \<open>Lease\<close> (same file): the controller lease of a run, its fence, the claim of a card and the
    sweep of stale claims.
  \<^item> \<open>Transition\<close> (\<open>work_item_transition.py\<close>): one phase transition with its attempt settlement
    and hooks, and the bridge from a task.
  \<^item> \<open>Dependencies\<close> and \<open>Frontier\<close> (same file): the dependency graph of a run (obsolete targets,
    doomed cards, settlement snapshot, delivery closure), the decision for each waiting card,
    its write, and the settlement cascade.
  \<^item> \<open>RoleSessions\<close> (\<open>opc/database/store.py\<close>) and \<open>SerialQueue\<close> (\<open>phase_hooks.py\<close>): session rows,
    their pending queue and markers, and the reconcile pass over a run.
  \<^item> \<open>Hooks\<close> (\<open>phase_hooks.py\<close>): the five hooks in their order; a write of a card runs them all,
    and the refresh they start writes cards again.
  \<^item> \<open>GateRouting\<close> (\<open>work_item_gate_decision.py\<close>): where accepted output goes, and what a
    rejected gate sends back.
  \<^item> \<open>TaskGraph\<close> (\<open>task_graph.py\<close>): creation and execution of a task graph over any executor.
  \<^item> \<open>ActiveRuns\<close> (\<open>opc/core/active_task_runs.py\<close>): the registry of attempts, handoff reservations
    and the shutdown barrier, with the step relation \<open>registry_step\<close> of its operations.
  \<^item> \<open>MetadataOwnership\<close> (\<open>metadata_ownership.py\<close>) and \<open>RuntimeInvariants\<close>
    (\<open>work_item_runtime_invariants.py\<close>): the owner matrix, stripping, validation, the legacy
    backfill, and the diagnosis of a run.
  \<^item> \<open>ToolLedger\<close>, \<open>ToolPermits\<close>, \<open>ToolContinuation\<close> (\<open>opc/database/store.py\<close>,
    \<open>opc/core/approval_decision.py\<close>): the permits, effect ledger and continuations a task keeps in
    its metadata, which saves of a task must not overwrite; the compare-and-swap of one permit
    under the fence of the controller; the claim that lets one runner carry a continuation on.
  \<^item> \<open>ControllerTasks\<close> (\<open>opc/database/store.py\<close>): the credential a task carries (run, owner token,
    lease generation, attempt number), \<open>save_task\<close> and its three fenced forms.
  \<^item> \<open>ControllerWrites\<close> (same file and \<open>work_item_transition.py\<close>): the compare-and-set of a
    waiting card and the refresh of a run under a credential, the transition of a claimed card
    together with its task, and the histories of writes that mix them.
  \<^item> \<open>NativePermissions\<close> (\<open>opc/core/native_permissions.py\<close>, \<open>opc/layer4_tools/registry.py\<close>,
    \<open>opc/database/store.py\<close>): the levels and effects of native tools, the sandbox of a call, the
    decision about a call, the level as a live setting of a scope of tasks, and the operator's edit.
  \<^item> \<open>ToolPlanner\<close> (\<open>opc/layer3_agent/runtime_v2/tool_planner.py\<close>), \<open>OutputBudget\<close>
    (\<open>opc/layer4_tools/output_budget.py\<close>) and \<open>ReviewVerdict\<close> (\<open>opc/core/review_verdict.py\<close>): the
    batches of tool calls, the clips of long outputs, the verdict in a reviewer's reply.

  \<^item> \<open>Checkpoints\<close> and \<open>OwnerInteractions\<close> (\<open>opc/database/store.py\<close>,
    \<open>opc/core/interaction_protocol.py\<close>): the rows of \<open>execution_checkpoints\<close>, the generic operations
    on them, and the life of an owner card: publication and supersession in its flow, the typed
    patches, the answer, the claim with its takeover after expiry, the begin of an effect (also of
    one exact tool call together with its permit), renewal, finish and release.  \<open>OwnerProtocol\<close>
    states the promise as a machine of one card, \<open>card_step\<close>, and shows that each operation takes
    at most one of its steps per card; \<open>OwnerSafety\<close> draws the guarantees over histories from it.
  \<^item> \<open>ReorgProposals\<close> (\<open>opc/database/store.py\<close>): the rows of \<open>reorg_proposals\<close> in \<open>reorg_db\<close>, beside
    the tables of checkpoints and tasks: creation of a proposal together with the owner's card and
    the wait marker of its task, the decision by the answer on the card, the claim of the
    application, its finish and its failure.  \<open>ReorgSafety\<close> states the promise as a machine of one
    proposal, \<open>stage_step\<close>, and proves the guarantees over histories of these commands mixed with
    operations on cards.
  \<^item> \<open>OrgChanges\<close> (\<open>org_engine.py\<close>, \<open>reorg_manager.py\<close>): validation and application of the role
    changes of a proposal, their classification, and the mapping of roles shown to the owner.
    \<open>changes_by_id\<close> is the reference for the loop that works with a table of positions; two
    theorems show where the loop departs from it.
  \<^item> \<open>ReorgMigration\<close> (\<open>reorg_manager.py\<close>): the migration of tasks and checkpoints to the new roles
    and \<open>apply_reorg\<close>, from the claim to the record of the outcome.

  How they interact.  Every operation takes the \<open>store\<close> and returns it; an exception is \<open>Inl\<close> and
  leaves the store of before, as the rolled-back transaction does, unless the operation's text
  says otherwise.  \<open>Transition\<close>, \<open>Frontier\<close> and \<open>SerialQueue\<close> write through \<open>Store\<close>; the hooks are
  an argument of those writes, and \<open>Hooks\<close> ties the knot with the registered ones: the refresh
  hook runs \<open>Frontier\<close> with hooks that do not refresh again, as the guard of the code for a
  nested refresh of the same run does.  A task row is saved through \<open>ToolLedger\<close>, whose merge keeps
  what \<open>ToolPermits\<close> and \<open>ToolContinuation\<close> wrote; those two read the lease and the claim of
  \<open>Lease\<close> to decide whether a writer is still the owner.  The operator's edit in
  \<open>NativePermissions\<close> writes the same metadata, and the same merge keeps it.  The contract of a write towards facts about the tables is
  the locale \<open>kept_by_writes\<close>, interpreted on both sets of hooks; the contract of a FIFO is
  \<open>pending_queue\<close>, interpreted on the queue operations of a fenced session; the contract of the
  write a controller's refresh goes through is \<open>controller_pass\<close>: a relation of stores that the
  compare-and-set respects holds for the whole pass, interpreted for the rows of runs, for a
  credential that is not current and for the cards of other runs; the contract between the
  operations on owner cards and their guarantees is \<open>card_machine\<close>: steps that move a card along the
  abstract machine and announce every begin, interpreted on the operations of the store; the
  contract between the commands on proposals and their guarantees is \<open>proposal_machine\<close>: steps that
  move a proposal forward and announce every claim and settlement, interpreted on the commands of
  the store, whose effect on cards and tasks is a history of \<open>OwnerSafety\<close> (\<open>tools_run\<close>).
  \<open>apply_reorg\<close> is shown to be such a history too (\<open>reorg_run\<close>): it saves tasks through
  \<open>ControllerTasks\<close> and patches checkpoints through \<open>OwnerInteractions\<close>.  The
  rendering of times in a card (\<open>isoformat\<close>, \<open>fromisoformat\<close>) is the argument \<open>clock\<close>; that reading
  a rendered time gives it back is assumed where a lease is read.  \<open>Frontier\<close> and the bridge of \<open>Transition\<close> leave the path with a
  credential to an argument; \<open>ControllerWrites\<close> gives it the fenced operations of the store.

  What the lemmas show.  Per operation: its result on each branch, the invariant it keeps, the
  rows it leaves alone.  Per component: closure loops equal inductive definitions (\<open>blocked\<close>,
  \<open>behind\<close>, the transitive closure of dependents), queue operations refine list operations,
  relations of steps keep invariants (row writes, lease generations, registry), writes are
  stable under the checks that read them back (delivery closure, triage release, routing,
  backfill).  Every interaction command and generic operation on checkpoints (the eighteen of
  \<open>card_op\<close>) refines the abstract machine of owner cards, which gives, over any history of them: an
  answer never changes, an effect other than a permitted tool call starts at most once, a claim under
  lease is exclusive.  Every command on proposals refines the stages of a proposal, which gives: the
  owner decides, the effects run once, an application says how it ended.  A refresh takes each
  card along at most one edge of the table.  The properties \<open>C1\<close>, \<open>C2\<close>, ... are stated where their component is complete, each
  after its text, with a theorem that applies it to concrete data.

  Bounds, fuel, termination.  No definition uses fuel except the join loop of \<open>ActiveRuns\<close>,
  whose events are an argument list and whose end is stated over it.  The other loops are
  functions with a measure: a sweep adds an element of a finite list per round, the rework walk
  visits a projection once, the search of a permission scope sees a new session per round, the search
  for a verdict shortens the text, a round of the task graph takes tasks out of the pending list.
  Python integers are \<open>int\<close>; the generations and counters of SQLite rows are \<open>int\<close> too, under the
  assumption that they stay inside 64 bits.  Times are integers of microseconds, so \<open>isoformat\<close>
  texts of one zone compare as
  the integers.

  Not modelled.  Code points from 256 on and floats in JSON; the JSON decoder, the sandbox binary and
  the directory of a path, which are arguments; concurrent commits inside one
  transaction (SQLite runs it alone); progress events, logging and callbacks beyond the fact that
  they were called; the metadata of role sessions; the table of native subagents, which is an
  argument; sorting keys over locale-dependent text.  The
  orchestration (\<open>company_mode.py\<close>, \<open>company_runtime.py\<close>), the engine, the agent runtime, channels,
  the command line and the office plugin are asynchronous I/O around agents and views; their
  decisions on cards go through the operations above.  Of owner cards the
  publications under a capability of the controller, the commands that settle a card inside another
  transaction (gate decisions, final delivery, a new company turn), the completion of a handoff and
  the suspension of a company run, and the administrative commands, which do not follow the machine of
  owner cards: the retirement of legacy owner waits and the audit of deliveries at startup and the
  deletion of the data of a session.  Of reorganizations the composition of a proposal and its card in
  the manager, event records, the listing of proposals and their deletion with a task, the agents
  rebuilt from the roles; the snapshots and the configuration file, whose writing may fail at its
  place in the application, \<open>RoleConfig.model_validate\<close> and the builtin topology are arguments.  Of \<open>store.py\<close> the tables for follow-up commands, review recovery,
  chat, memory and the market are SQL over rows that the modelled parts do not read.
\<close>

end
